(* ===== verification/Nl_Prelude.thy ===== *)
theory Nl_Prelude
  imports Main "HOL-Library.Word"
begin

unbundle bit_operations_syntax

text \<open>
  Shared vocabulary of the development: C integers, byte buffers and results.

  \<^item> Every C integer is an \<open>int\<close>. Signed arithmetic is exact (C leaves its overflow
    undefined); each conversion to a fixed width is written out with \<open>u8\<close>, \<open>u16\<close>,
    \<open>u32\<close>, \<open>u64\<close> (unsigned, modulo a power of two) or \<open>s32\<close>, \<open>s64\<close> (two's
    complement).
  \<^item> A memory block is a \<open>byte list\<close>, a pointer into it an \<open>int\<close> offset.
    \<open>rd\<close> and \<open>wr\<close> are \<open>memcpy\<close> out of and into a block. A write that leaves the
    block makes the list longer, so "the length is unchanged" means "no write left the
    block".
  \<^item> Multi-byte fields are little endian (the development fixes a little-endian host).
  \<^item> \<open>'a res\<close> is the result of a fallible function: \<open>Inl (Err e)\<close> for a
    \<open>return -NLE_...\<close>, \<open>Inl Bug\<close> for the \<open>BUG()\<close> macro (an assertion failure), \<open>Inl Undef\<close>
    for an access through a null or dangling pointer.
\<close>

section \<open>C integers\<close>

type_synonym byte = "8 word"

definition u8 :: "int \<Rightarrow> int" where "u8 x = x mod 256"
definition u16 :: "int \<Rightarrow> int" where "u16 x = x mod 65536"
definition u32 :: "int \<Rightarrow> int" where "u32 x = x mod 4294967296"
definition u64 :: "int \<Rightarrow> int" where "u64 x = x mod 18446744073709551616"
definition s8 :: "int \<Rightarrow> int" where "s8 x = (x + 128) mod 256 - 128"
definition s16 :: "int \<Rightarrow> int" where "s16 x = (x + 32768) mod 65536 - 32768"
definition s32 :: "int \<Rightarrow> int" where "s32 x = (x + 2147483648) mod 4294967296 - 2147483648"
definition s64 :: "int \<Rightarrow> int" where
  "s64 x = (x + 9223372036854775808) mod 18446744073709551616 - 9223372036854775808"

named_theorems cint \<open>conversions between C integer types\<close>

lemma u8_id [cint, simp]: "0 \<le> x \<Longrightarrow> x < 256 \<Longrightarrow> u8 x = x"
  by (simp add: u8_def)

lemma u16_id [cint, simp]: "0 \<le> x \<Longrightarrow> x < 65536 \<Longrightarrow> u16 x = x"
  by (simp add: u16_def)

lemma u32_id [cint, simp]: "0 \<le> x \<Longrightarrow> x < 4294967296 \<Longrightarrow> u32 x = x"
  by (simp add: u32_def)

lemma u64_id [cint, simp]: "0 \<le> x \<Longrightarrow> x < 18446744073709551616 \<Longrightarrow> u64 x = x"
  by (simp add: u64_def)

lemma s8_id [cint, simp]: "- 128 \<le> x \<Longrightarrow> x < 128 \<Longrightarrow> s8 x = x"
  by (simp add: s8_def)

lemma s16_id [cint, simp]: "- 32768 \<le> x \<Longrightarrow> x < 32768 \<Longrightarrow> s16 x = x"
  by (simp add: s16_def)

lemma s32_id [cint, simp]: "- 2147483648 \<le> x \<Longrightarrow> x < 2147483648 \<Longrightarrow> s32 x = x"
  by (simp add: s32_def)

lemma s64_id [cint, simp]:
  "- 9223372036854775808 \<le> x \<Longrightarrow> x < 9223372036854775808 \<Longrightarrow> s64 x = x"
  by (simp add: s64_def)

lemma u32_range [simp]: "0 \<le> u32 x" "u32 x < 4294967296"
  by (simp_all add: u32_def)

lemma u16_range [simp]: "0 \<le> u16 x" "u16 x < 65536"
  by (simp_all add: u16_def)

lemma u64_range [simp]: "0 \<le> u64 x" "u64 x < 18446744073709551616"
  by (simp_all add: u64_def)

lemma s32_range: "- 2147483648 \<le> s32 x" "s32 x < 2147483648"
  by (simp_all add: s32_def pos_mod_sign pos_mod_bound)

text \<open>Narrowing to a signed type and reading the value back through the unsigned one.\<close>

lemma s8_mod [simp]: "s8 (x mod 256) = s8 x"
  by (simp add: s8_def mod_simps)

lemma s16_mod [simp]: "s16 (x mod 65536) = s16 x"
  by (simp add: s16_def mod_simps)

lemma s32_mod [simp]: "s32 (x mod 4294967296) = s32 x"
  by (simp add: s32_def mod_simps)

lemma s64_mod [simp]: "s64 (x mod 18446744073709551616) = s64 x"
  by (simp add: s64_def mod_simps)

lemma s32_diff: "s32 (x - s32 y) = s32 (x - y)"
proof -
  have "s32 y = y - 4294967296 * ((y + 2147483648) div 4294967296)"
    unfolding s32_def by (simp add: minus_mult_div_eq_mod [symmetric])
  then have "x - s32 y + 2147483648
      = (x - y + 2147483648) + 4294967296 * ((y + 2147483648) div 4294967296)"
    by simp
  then show ?thesis unfolding s32_def [of "x - s32 y"] by (simp only: mod_mult_self2) (simp add: s32_def)
qed

lemma s32_wrap: "2147483648 \<le> x \<Longrightarrow> x < 6442450944 \<Longrightarrow> s32 x = x - 4294967296"
  using minus_mod_self2 [of "x + 2147483648" 4294967296] s32_id [of "x - 4294967296"]
  by (simp add: s32_def)

lemma u64_neg: "- 18446744073709551616 \<le> x \<Longrightarrow> x < 0 \<Longrightarrow> u64 x = x + 18446744073709551616"
  using mod_add_self2 [of x 18446744073709551616] u64_id [of "x + 18446744073709551616"]
  by (simp add: u64_def)

section \<open>Alignment to four bytes\<close>

text \<open>
  \<open>(x + 3) & ~3\<close>, the body of the macros \<open>NLMSG_ALIGN\<close> and \<open>NLA_ALIGN\<close>, is the least
  multiple of four that is not below \<open>x\<close>.
\<close>

lemma and_not_mask: "(x::int) AND NOT (mask n) = x - take_bit n x"
proof -
  have "(x AND NOT (mask n)) + take_bit n x = (x AND NOT (mask n)) OR take_bit n x"
    by (rule disjunctive_add) (auto simp: bit_simps)
  also have "\<dots> = x"
    by (rule bit_eqI) (auto simp: bit_simps)
  finally show ?thesis by simp
qed

lemma and_not_3: "(x::int) AND - 4 = x - x mod 4"
  using and_not_mask [of x 2] by (simp add: mask_eq_exp_minus_1 take_bit_eq_mod)

lemma and_take_bit: "take_bit n (x::int) AND y = take_bit n x AND take_bit n y"
  by (rule bit_eqI) (auto simp: bit_simps)

definition align4 :: "int \<Rightarrow> int" where
  "align4 x = (x + 4 - 1) AND NOT (4 - 1)"

lemma align4_eq: "align4 x = x + 3 - (x + 3) mod 4"
  by (simp add: align4_def and_not_3 add.commute)

lemma align4_ge: "x \<le> align4 x"
  unfolding align4_eq by (smt (verit) pos_mod_bound)

lemma align4_lt: "align4 x < x + 4"
  unfolding align4_eq by (smt (verit) pos_mod_sign)

lemma align4_nonneg [simp]: "0 \<le> x \<Longrightarrow> 0 \<le> align4 x"
  using align4_ge [of x] by linarith

lemma align4_mod [simp]: "align4 x mod 4 = 0"
  unfolding align4_eq by presburger

lemma align4_id: "x mod 4 = 0 \<Longrightarrow> align4 x = x"
  unfolding align4_eq by presburger

lemma align4_idem [simp]: "align4 (align4 x) = align4 x"
  by (simp add: align4_id)

lemma align4_mono: "x \<le> y \<Longrightarrow> align4 x \<le> align4 y"
  unfolding align4_eq by presburger

lemma align4_add: "x mod 4 = 0 \<Longrightarrow> align4 (x + y) = x + align4 y"
  unfolding align4_eq by presburger

lemma align4_least: "x \<le> y \<Longrightarrow> y mod 4 = 0 \<Longrightarrow> align4 x \<le> y"
  using align4_mono [of x y] align4_id [of y] by simp

section \<open>Byte buffers\<close>

abbreviation blen :: "'a list \<Rightarrow> int" where
  "blen xs \<equiv> int (length xs)"

definition rd :: "byte list \<Rightarrow> int \<Rightarrow> int \<Rightarrow> byte list" where
  "rd buf off n = take (nat n) (drop (nat off) buf)"

definition wr :: "byte list \<Rightarrow> int \<Rightarrow> byte list \<Rightarrow> byte list" where
  "wr buf off bs = take (nat off) buf @ bs @ drop (nat off + length bs) buf"

definition zeros :: "int \<Rightarrow> byte list" where
  "zeros n = replicate (nat n) 0"

named_theorems mem_simps \<open>reads over writes on byte buffers\<close>

lemma length_rd: "0 \<le> off \<Longrightarrow> 0 \<le> n \<Longrightarrow> off + n \<le> blen buf \<Longrightarrow> blen (rd buf off n) = n"
  by (simp add: rd_def)

lemma length_rd_le: "0 \<le> n \<Longrightarrow> blen (rd buf off n) \<le> n"
  by (simp add: rd_def)

lemma rd_nonpos [simp]: "n \<le> 0 \<Longrightarrow> rd buf off n = []"
  by (simp add: rd_def)

lemma rd_whole [simp]: "rd buf 0 (blen buf) = buf"
  by (simp add: rd_def)

lemma blen_zeros [simp]: "0 \<le> n \<Longrightarrow> blen (zeros n) = n"
  by (simp add: zeros_def)

lemma zeros_nonpos [simp]: "n \<le> 0 \<Longrightarrow> zeros n = []"
  by (simp add: zeros_def)

lemma length_wr [mem_simps]:
  "0 \<le> off \<Longrightarrow> off + blen bs \<le> blen buf \<Longrightarrow> length (wr buf off bs) = length buf"
  by (auto simp: wr_def)

lemma wr_Nil [simp]: "wr buf off [] = buf"
  by (simp add: wr_def)

lemma rd_wr_same [mem_simps]:
  "0 \<le> off \<Longrightarrow> off + blen bs \<le> blen buf \<Longrightarrow> n = blen bs \<Longrightarrow> rd (wr buf off bs) off n = bs"
  by (auto simp: wr_def rd_def)

lemma rd_wr_before [mem_simps]:
  assumes "0 \<le> off'" "off' + n \<le> off" "off \<le> blen buf"
  shows "rd (wr buf off bs) off' n = rd buf off' n"
proof (cases "n \<le> 0")
  case False
  let ?a = "nat off'" and ?n = "nat n" and ?o = "nat off"
  have "?a + ?n \<le> ?o" and "?o \<le> length buf" using assms False by auto
  then have "take ?n (drop ?a (take ?o buf @ bs @ drop (?o + length bs) buf))
      = take ?n (drop ?a (take ?o buf))"
    by simp
  also have "\<dots> = take ?n (drop ?a buf)"
    using \<open>?a + ?n \<le> ?o\<close> by (simp add: drop_take min_def)
  finally show ?thesis by (simp add: rd_def wr_def)
qed simp

lemma rd_wr_after [mem_simps]:
  assumes "0 \<le> off" "off + blen bs \<le> off'" "off + blen bs \<le> blen buf"
  shows "rd (wr buf off bs) off' n = rd buf off' n"
proof -
  let ?a = "nat off'" and ?o = "nat off"
  have le: "?o + length bs \<le> ?a" "?o + length bs \<le> length buf" using assms by auto
  then have "drop ?a (take ?o buf @ bs @ drop (?o + length bs) buf) = drop ?a buf"
    by (simp add: drop_append min_def)
  then show ?thesis by (simp add: rd_def wr_def)
qed

lemma rd_rd [mem_simps]:
  "0 \<le> a \<Longrightarrow> 0 \<le> b \<Longrightarrow> b + m \<le> n \<Longrightarrow> rd (rd buf a n) b m = rd buf (a + b) m"
  by (cases "m \<le> 0") (auto simp: rd_def drop_take min_def nat_add_distrib nat_diff_distrib' add.commute)

lemma rd_split:
  assumes "0 \<le> a" "0 \<le> n" "0 \<le> m"
  shows "rd buf a (n + m) = rd buf a n @ rd buf (a + n) m"
proof -
  have "take (nat n + nat m) (drop (nat a) buf)
      = take (nat n) (drop (nat a) buf) @ take (nat m) (drop (nat a + nat n) buf)"
    by (simp only: take_add drop_drop) (simp add: add.commute)
  then show ?thesis using assms by (simp add: rd_def nat_add_distrib)
qed

lemma rd_append_iff:
  assumes "0 \<le> off"
  shows "rd buf off (blen xs + blen ys) = xs @ ys \<longleftrightarrow>
    rd buf off (blen xs) = xs \<and> rd buf (off + blen xs) (blen ys) = ys"
proof -
  let ?a = "rd buf off (blen xs)" and ?b = "rd buf (off + blen xs) (blen ys)"
  have s: "rd buf off (blen xs + blen ys) = ?a @ ?b"
    using assms by (simp add: rd_split)
  moreover have "length ?a \<le> length xs" "length ?b \<le> length ys" by (simp_all add: rd_def)
  moreover have "length ?a = length xs" if "?a @ ?b = xs @ ys"
    using arg_cong [OF that, of length] calculation by simp
  ultimately show ?thesis by auto
qed

lemma rd_append1:
  "0 \<le> off \<Longrightarrow> off + n \<le> blen xs \<Longrightarrow> rd (xs @ ys) off n = rd xs off n"
  by (cases "n \<le> 0") (auto simp: rd_def)

lemma rd_append2:
  "blen xs \<le> off \<Longrightarrow> rd (xs @ ys) off n = rd ys (off - blen xs) n"
  by (simp add: rd_def nat_diff_distrib')

lemma rd_inside:
  assumes "rd buf a n = rd buf' a n" "0 \<le> a" "a \<le> b" "b + m \<le> a + n"
  shows "rd buf b m = rd buf' b m"
  using rd_rd [of a "b - a" m n buf] rd_rd [of a "b - a" m n buf'] assms by simp

section \<open>Little-endian fields\<close>

fun le_int :: "byte list \<Rightarrow> int" where
  "le_int [] = 0"
| "le_int (b # bs) = uint b + 256 * le_int bs"

fun le_bytes :: "nat \<Rightarrow> int \<Rightarrow> byte list" where
  "le_bytes 0 v = []"
| "le_bytes (Suc n) v = word_of_int v # le_bytes n (v div 256)"

lemma length_le_bytes [simp]: "length (le_bytes n v) = n"
  by (induction n arbitrary: v) auto

lemma uint_byte_lt: "uint (b :: byte) < 256"
  using uint_lt2p [of b] by simp

lemma le_int_nonneg [simp]: "0 \<le> le_int bs"
  by (induction bs) auto

lemma le_int_less: "le_int bs < 256 ^ length bs"
proof (induction bs)
  case (Cons b bs)
  have "uint b < 256" by (rule uint_byte_lt)
  moreover have "le_int bs + 1 \<le> 256 ^ length bs" using Cons.IH by simp
  ultimately show ?case by simp
qed simp

lemma le_int_bytes: "le_int (le_bytes n v) = v mod 256 ^ n"
proof (induction n arbitrary: v)
  case (Suc n)
  have "uint (word_of_int v :: byte) = v mod 256"
    by (simp add: uint_word_of_int)
  then have "le_int (le_bytes (Suc n) v) = v mod 256 + 256 * (v div 256 mod 256 ^ n)"
    by (simp add: Suc.IH)
  also have "\<dots> = v mod (256 * 256 ^ n)"
    by (simp add: zmod_zmult2_eq)
  finally show ?case by simp
qed simp

lemma le_bytes_int: "length bs = n \<Longrightarrow> le_bytes n (le_int bs) = bs"
proof (induction bs arbitrary: n)
  case (Cons b bs)
  have "(uint b + 256 * le_int bs) div 256 = le_int bs"
    using uint_byte_lt [of b] by simp
  moreover have "(word_of_int (uint b + 256 * le_int bs) :: byte) = b"
  proof -
    have "(word_of_int (uint b + 256 * le_int bs) :: byte) = word_of_int (uint b)"
      by (rule word_of_int_eq_iff [THEN iffD2]) (simp add: take_bit_eq_mod)
    then show ?thesis by simp
  qed
  ultimately show ?case using Cons by auto
qed simp

lemma le_bytes_mod: "le_bytes n (v mod 256 ^ n) = le_bytes n v"
  using le_bytes_int [of "le_bytes n v" n] by (simp add: le_int_bytes)

lemma le_bytes_u16 [simp]: "le_bytes 2 (u16 v) = le_bytes 2 v"
  using le_bytes_mod [of 2 v] by (simp add: u16_def)

definition get16 :: "byte list \<Rightarrow> int \<Rightarrow> int" where
  "get16 buf off = le_int (rd buf off 2)"

definition get32 :: "byte list \<Rightarrow> int \<Rightarrow> int" where
  "get32 buf off = le_int (rd buf off 4)"

definition put16 :: "byte list \<Rightarrow> int \<Rightarrow> int \<Rightarrow> byte list" where
  "put16 buf off v = wr buf off (le_bytes 2 v)"

definition put32 :: "byte list \<Rightarrow> int \<Rightarrow> int \<Rightarrow> byte list" where
  "put32 buf off v = wr buf off (le_bytes 4 v)"

lemma le_int_rd_range: "0 \<le> n \<Longrightarrow> le_int (rd buf off n) < 256 ^ nat n"
proof -
  assume "0 \<le> n"
  have "length (rd buf off n) \<le> nat n" by (simp add: rd_def)
  then have "(256::int) ^ length (rd buf off n) \<le> 256 ^ nat n"
    by (rule power_increasing) simp
  then show ?thesis using le_int_less [of "rd buf off n"] by linarith
qed

lemma get16_range [simp]: "0 \<le> get16 buf off" "get16 buf off < 65536"
  using le_int_rd_range [of 2 buf off] by (simp_all add: get16_def)

lemma get32_range [simp]: "0 \<le> get32 buf off" "get32 buf off < 4294967296"
  using le_int_rd_range [of 4 buf off] by (simp_all add: get32_def)

lemma length_put16 [mem_simps]:
  "0 \<le> off \<Longrightarrow> off + 2 \<le> blen buf \<Longrightarrow> length (put16 buf off v) = length buf"
  by (simp add: put16_def length_wr)

lemma length_put32 [mem_simps]:
  "0 \<le> off \<Longrightarrow> off + 4 \<le> blen buf \<Longrightarrow> length (put32 buf off v) = length buf"
  by (simp add: put32_def length_wr)

lemma get16_put16 [mem_simps]:
  "0 \<le> off \<Longrightarrow> off + 2 \<le> blen buf \<Longrightarrow> get16 (put16 buf off v) off = u16 v"
  by (simp add: get16_def put16_def rd_wr_same le_int_bytes u16_def)

lemma get32_put32 [mem_simps]:
  "0 \<le> off \<Longrightarrow> off + 4 \<le> blen buf \<Longrightarrow> get32 (put32 buf off v) off = u32 v"
  by (simp add: get32_def put32_def rd_wr_same le_int_bytes u32_def)

lemma rd_put16_before [mem_simps]:
  "0 \<le> a \<Longrightarrow> a + n \<le> off \<Longrightarrow> off \<le> blen buf \<Longrightarrow> rd (put16 buf off v) a n = rd buf a n"
  by (simp add: put16_def rd_wr_before)

lemma rd_put16_after [mem_simps]:
  "0 \<le> off \<Longrightarrow> off + 2 \<le> a \<Longrightarrow> off + 2 \<le> blen buf \<Longrightarrow> rd (put16 buf off v) a n = rd buf a n"
  by (simp add: put16_def rd_wr_after)

lemma rd_put32_before [mem_simps]:
  "0 \<le> a \<Longrightarrow> a + n \<le> off \<Longrightarrow> off \<le> blen buf \<Longrightarrow> rd (put32 buf off v) a n = rd buf a n"
  by (simp add: put32_def rd_wr_before)

lemma rd_put32_after [mem_simps]:
  "0 \<le> off \<Longrightarrow> off + 4 \<le> a \<Longrightarrow> off + 4 \<le> blen buf \<Longrightarrow> rd (put32 buf off v) a n = rd buf a n"
  by (simp add: put32_def rd_wr_after)

lemma get16_put16_other [mem_simps]:
  "0 \<le> a \<Longrightarrow> a + 2 \<le> off \<Longrightarrow> off \<le> blen buf \<Longrightarrow> get16 (put16 buf off v) a = get16 buf a"
  "0 \<le> off \<Longrightarrow> off + 2 \<le> a \<Longrightarrow> off + 2 \<le> blen buf \<Longrightarrow> get16 (put16 buf off v) a = get16 buf a"
  by (simp_all add: get16_def rd_put16_before rd_put16_after)

lemma get16_put32_other [mem_simps]:
  "0 \<le> a \<Longrightarrow> a + 2 \<le> off \<Longrightarrow> off \<le> blen buf \<Longrightarrow> get16 (put32 buf off v) a = get16 buf a"
  "0 \<le> off \<Longrightarrow> off + 4 \<le> a \<Longrightarrow> off + 4 \<le> blen buf \<Longrightarrow> get16 (put32 buf off v) a = get16 buf a"
  by (simp_all add: get16_def rd_put32_before rd_put32_after)

lemma get32_put16_other [mem_simps]:
  "0 \<le> a \<Longrightarrow> a + 4 \<le> off \<Longrightarrow> off \<le> blen buf \<Longrightarrow> get32 (put16 buf off v) a = get32 buf a"
  "0 \<le> off \<Longrightarrow> off + 2 \<le> a \<Longrightarrow> off + 2 \<le> blen buf \<Longrightarrow> get32 (put16 buf off v) a = get32 buf a"
  by (simp_all add: get32_def rd_put16_before rd_put16_after)

lemma get32_put32_other [mem_simps]:
  "0 \<le> a \<Longrightarrow> a + 4 \<le> off \<Longrightarrow> off \<le> blen buf \<Longrightarrow> get32 (put32 buf off v) a = get32 buf a"
  "0 \<le> off \<Longrightarrow> off + 4 \<le> a \<Longrightarrow> off + 4 \<le> blen buf \<Longrightarrow> get32 (put32 buf off v) a = get32 buf a"
  by (simp_all add: get32_def rd_put32_before rd_put32_after)

lemma get_wr_other [mem_simps]:
  "0 \<le> a \<Longrightarrow> a + 2 \<le> off \<Longrightarrow> off \<le> blen buf \<Longrightarrow> get16 (wr buf off bs) a = get16 buf a"
  "0 \<le> off \<Longrightarrow> off + blen bs \<le> a \<Longrightarrow> off + blen bs \<le> blen buf \<Longrightarrow> get16 (wr buf off bs) a = get16 buf a"
  "0 \<le> a \<Longrightarrow> a + 4 \<le> off \<Longrightarrow> off \<le> blen buf \<Longrightarrow> get32 (wr buf off bs) a = get32 buf a"
  "0 \<le> off \<Longrightarrow> off + blen bs \<le> a \<Longrightarrow> off + blen bs \<le> blen buf \<Longrightarrow> get32 (wr buf off bs) a = get32 buf a"
  by (simp_all add: get16_def get32_def rd_wr_before rd_wr_after)

lemma get16_cong:
  "rd buf a n = rd buf' a n \<Longrightarrow> 0 \<le> a \<Longrightarrow> a \<le> b \<Longrightarrow> b + 2 \<le> a + n \<Longrightarrow> get16 buf b = get16 buf' b"
  by (simp add: get16_def rd_inside [of buf a n buf' b 2])

lemma rd_prefix:
  assumes "rd buf off n = rd buf' off' n" "0 \<le> off" "0 \<le> off'" "0 \<le> a" "a + m \<le> n"
  shows "rd buf (off + a) m = rd buf' (off' + a) m"
  using rd_rd [of off a m n buf] rd_rd [of off' a m n buf'] assms by simp

lemma get_local:
  assumes "rd buf off n = rd buf' off' n" "0 \<le> off" "0 \<le> off'"
  shows "2 \<le> n \<Longrightarrow> get16 buf off = get16 buf' off'" "4 \<le> n \<Longrightarrow> get32 buf off = get32 buf' off'"
  using rd_prefix [OF assms, of 0 2] rd_prefix [OF assms, of 0 4]
  by (simp_all add: get16_def get32_def)

section \<open>C strings and memory comparison\<close>

text \<open>\<open>strlen\<close> of the NUL-terminated string at the head of a block.\<close>

definition strlen :: "byte list \<Rightarrow> int" where
  "strlen s = blen (takeWhile (\<lambda>c. c \<noteq> 0) s)"

lemma takeWhile_nul [simp]: "0 \<notin> set s \<Longrightarrow> takeWhile (\<lambda>c. c \<noteq> 0) (s @ 0 # r) = (s :: byte list)"
  by (induction s) auto

text \<open>\<open>memcmp\<close>: the difference of the first bytes that differ (C fixes its sign only).\<close>

fun memcmp_bytes :: "byte list \<Rightarrow> byte list \<Rightarrow> int" where
  "memcmp_bytes (a # as) (b # bs) = (if a = b then memcmp_bytes as bs else uint a - uint b)"
| "memcmp_bytes _ _ = 0"

definition memcmp :: "byte list \<Rightarrow> byte list \<Rightarrow> int \<Rightarrow> int" where
  "memcmp a b n = memcmp_bytes (rd a 0 n) (rd b 0 n)"

lemma memcmp_bytes_0: "length a = length b \<Longrightarrow> memcmp_bytes a b = 0 \<longleftrightarrow> a = b"
  by (induction a b rule: list_induct2) (auto dest: unsigned_word_eqI)

section \<open>Results\<close>

text \<open>The error numbers of \<open>include/netlink/errno.h\<close>.\<close>

datatype nle =
    NLE_FAILURE | NLE_INTR | NLE_BAD_SOCK | NLE_AGAIN | NLE_NOMEM | NLE_EXIST | NLE_INVAL
  | NLE_RANGE | NLE_MSGSIZE | NLE_OPNOTSUPP | NLE_AF_NOSUPPORT | NLE_OBJ_NOTFOUND | NLE_NOATTR
  | NLE_MISSING_ATTR | NLE_AF_MISMATCH | NLE_SEQ_MISMATCH | NLE_MSG_OVERFLOW | NLE_MSG_TRUNC
  | NLE_NOADDR | NLE_SRCRT_NOSUPPORT | NLE_MSG_TOOSHORT | NLE_MSGTYPE_NOSUPPORT
  | NLE_OBJ_MISMATCH | NLE_NOCACHE | NLE_BUSY | NLE_PROTO_MISMATCH | NLE_NOACCESS | NLE_PERM
  | NLE_PKTLOC_FILE | NLE_PARSE_ERR | NLE_NODEV | NLE_IMMUTABLE | NLE_DUMP_INTR | NLE_ATTRSIZE

datatype fail = Err nle | Bug | Undef

type_synonym 'a res = "fail + 'a"

definition and_then :: "'a res \<Rightarrow> ('a \<Rightarrow> 'b res) \<Rightarrow> 'b res" where
  "and_then m f = (case m of Inl e \<Rightarrow> Inl e | Inr x \<Rightarrow> f x)"

lemma and_then_simps [simp]: "and_then (Inl e) f = Inl e" "and_then (Inr x) f = f x"
  by (simp_all add: and_then_def)

lemma and_then_InrI [intro]: "m = Inr x \<Longrightarrow> f x = Inr y \<Longrightarrow> and_then m f = Inr y"
  by simp

lemma and_then_Inr_iff: "and_then m f = Inr y \<longleftrightarrow> (\<exists>x. m = Inr x \<and> f x = Inr y)"
  by (cases m) simp_all

section \<open>Address families\<close>

definition AF_UNSPEC :: int where "AF_UNSPEC = 0"
definition AF_INET :: int where "AF_INET = 2"
definition AF_INET6 :: int where "AF_INET6 = 10"
definition AF_DECnet :: int where "AF_DECnet = 12"
definition AF_LLC :: int where "AF_LLC = 26"
definition AF_MPLS :: int where "AF_MPLS = 28"

lemmas af_defs = AF_UNSPEC_def AF_INET_def AF_INET6_def AF_DECnet_def AF_LLC_def AF_MPLS_def

end
