(* ===== verification/Nl_Error.thy ===== *)
theory Nl_Error
  imports Nl_Prelude
begin

text \<open>
  \<open>lib/error.c\<close>: the numeric error codes, the message table and the translation of a system
  \<open>errno\<close> into a libnl error.
\<close>

section \<open>Error numbers\<close>

fun nle_code :: "nle \<Rightarrow> int" where
  "nle_code NLE_FAILURE = 1"
| "nle_code NLE_INTR = 2"
| "nle_code NLE_BAD_SOCK = 3"
| "nle_code NLE_AGAIN = 4"
| "nle_code NLE_NOMEM = 5"
| "nle_code NLE_EXIST = 6"
| "nle_code NLE_INVAL = 7"
| "nle_code NLE_RANGE = 8"
| "nle_code NLE_MSGSIZE = 9"
| "nle_code NLE_OPNOTSUPP = 10"
| "nle_code NLE_AF_NOSUPPORT = 11"
| "nle_code NLE_OBJ_NOTFOUND = 12"
| "nle_code NLE_NOATTR = 13"
| "nle_code NLE_MISSING_ATTR = 14"
| "nle_code NLE_AF_MISMATCH = 15"
| "nle_code NLE_SEQ_MISMATCH = 16"
| "nle_code NLE_MSG_OVERFLOW = 17"
| "nle_code NLE_MSG_TRUNC = 18"
| "nle_code NLE_NOADDR = 19"
| "nle_code NLE_SRCRT_NOSUPPORT = 20"
| "nle_code NLE_MSG_TOOSHORT = 21"
| "nle_code NLE_MSGTYPE_NOSUPPORT = 22"
| "nle_code NLE_OBJ_MISMATCH = 23"
| "nle_code NLE_NOCACHE = 24"
| "nle_code NLE_BUSY = 25"
| "nle_code NLE_PROTO_MISMATCH = 26"
| "nle_code NLE_NOACCESS = 27"
| "nle_code NLE_PERM = 28"
| "nle_code NLE_PKTLOC_FILE = 29"
| "nle_code NLE_PARSE_ERR = 30"
| "nle_code NLE_NODEV = 31"
| "nle_code NLE_IMMUTABLE = 32"
| "nle_code NLE_DUMP_INTR = 33"
| "nle_code NLE_ATTRSIZE = 34"

definition NLE_MAX :: int where
  "NLE_MAX = nle_code NLE_ATTRSIZE"

lemma nle_code_range: "1 \<le> nle_code e" "nle_code e \<le> NLE_MAX"
  by (cases e; simp add: NLE_MAX_def)+

lemma nle_code_pos [simp]: "0 < nle_code e"
  using nle_code_range(1) [of e] by linarith

text \<open>The return value \<open>-NLE_...\<close>.\<close>

definition neg_nle :: "nle \<Rightarrow> int" where
  "neg_nle e = - nle_code e"

lemma neg_nle_neg [simp]: "neg_nle e < 0"
  by (simp add: neg_nle_def)

section \<open>Messages\<close>

definition errmsg :: "string list" where
  "errmsg =
    [''Success'',
     ''Unspecific failure'',
     ''Interrupted system call'',
     ''Bad socket'',
     ''Try again'',
     ''Out of memory'',
     ''Object exists'',
     ''Invalid input data or parameter'',
     ''Input data out of range'',
     ''Message size not sufficient'',
     ''Operation not supported'',
     ''Address family not supported'',
     ''Object not found'',
     ''Attribute not available'',
     ''Missing attribute'',
     ''Address family mismatch'',
     ''Message sequence number mismatch'',
     ''Kernel reported message overflow'',
     ''Kernel reported truncated message'',
     ''Invalid address for specified address family'',
     ''Source based routing not supported'',
     ''Netlink message is too short'',
     ''Netlink message type is not supported'',
     ''Object type does not match cache'',
     ''Unknown or invalid cache type'',
     ''Object busy'',
     ''Protocol mismatch'',
     ''No Access'',
     ''Operation not permitted'',
     ''Unable to open packet location file'',
     ''Unable to parse object'',
     ''No such device'',
     ''Immutable attribute'',
     ''Dump inconsistency detected, interrupted'',
     ''Attribute max length exceeded'']"

text \<open>\<open>None\<close> is a read outside of the table.\<close>

definition nl_geterror :: "int \<Rightarrow> string option" where
  "nl_geterror error =
     (let error = \<bar>error\<bar>;
          error = (if error > NLE_MAX then nle_code NLE_FAILURE else error)
      in if nat error < length errmsg then Some (errmsg ! nat error) else None)"

section \<open>System errors\<close>

text \<open>The errno values are those of Linux (\<open>asm-generic/errno.h\<close>).\<close>

definition nl_syserr2nlerr :: "int \<Rightarrow> nle" where
  "nl_syserr2nlerr error =
     (let error = \<bar>error\<bar> in
      if error = 9 then NLE_BAD_SOCK              \<comment> \<open>EBADF\<close>
      else if error = 98 then NLE_EXIST           \<comment> \<open>EADDRINUSE\<close>
      else if error = 17 then NLE_EXIST           \<comment> \<open>EEXIST\<close>
      else if error = 99 then NLE_NOADDR          \<comment> \<open>EADDRNOTAVAIL\<close>
      else if error = 3 then NLE_OBJ_NOTFOUND     \<comment> \<open>ESRCH\<close>
      else if error = 2 then NLE_OBJ_NOTFOUND     \<comment> \<open>ENOENT\<close>
      else if error = 4 then NLE_INTR             \<comment> \<open>EINTR\<close>
      else if error = 11 then NLE_AGAIN           \<comment> \<open>EAGAIN\<close>
      else if error = 88 then NLE_BAD_SOCK        \<comment> \<open>ENOTSOCK\<close>
      else if error = 92 then NLE_INVAL           \<comment> \<open>ENOPROTOOPT\<close>
      else if error = 14 then NLE_INVAL           \<comment> \<open>EFAULT\<close>
      else if error = 13 then NLE_NOACCESS        \<comment> \<open>EACCES\<close>
      else if error = 22 then NLE_INVAL           \<comment> \<open>EINVAL\<close>
      else if error = 105 then NLE_NOMEM          \<comment> \<open>ENOBUFS\<close>
      else if error = 12 then NLE_NOMEM           \<comment> \<open>ENOMEM\<close>
      else if error = 97 then NLE_AF_NOSUPPORT    \<comment> \<open>EAFNOSUPPORT\<close>
      else if error = 93 then NLE_PROTO_MISMATCH  \<comment> \<open>EPROTONOSUPPORT\<close>
      else if error = 95 then NLE_OPNOTSUPP       \<comment> \<open>EOPNOTSUPP\<close>
      else if error = 1 then NLE_PERM             \<comment> \<open>EPERM\<close>
      else if error = 16 then NLE_BUSY            \<comment> \<open>EBUSY\<close>
      else if error = 34 then NLE_RANGE           \<comment> \<open>ERANGE\<close>
      else if error = 19 then NLE_NODEV           \<comment> \<open>ENODEV\<close>
      else NLE_FAILURE)"

lemma length_errmsg: "blen errmsg = NLE_MAX + 1"
  by (simp add: errmsg_def NLE_MAX_def)

text \<open>
  The table is total: no error code, of either sign and even out of range, makes
  \<open>nl_geterror\<close> read outside of it, and a code and its negation name the same message.
\<close>

lemma nl_geterror_total: "nl_geterror e \<noteq> None \<and> nl_geterror (- e) = nl_geterror e"
proof -
  have "nat (if \<bar>e\<bar> > NLE_MAX then nle_code NLE_FAILURE else \<bar>e\<bar>) < length errmsg"
    using length_errmsg by (auto simp: NLE_MAX_def)
  then show ?thesis by (simp add: nl_geterror_def Let_def)
qed

text \<open>What a function that fails with error \<open>e\<close> returns.\<close>

definition neg_err :: "nle \<Rightarrow> int" where
  "neg_err e = - nle_code e"

end
