(* ===== verification/Nl_Stream.thy ===== *)
theory Nl_Stream
  imports Nl_Prelude
begin

text \<open>
  The interface of a stream of length-prefixed elements: netlink messages in a receive
  buffer (\<open>nlmsg_ok\<close>, \<open>nlmsg_next\<close>) and attributes in a message (\<open>nla_ok\<close>, \<open>nla_next\<close>) are
  walked by the same loop,
  \<open>for (pos = head, rem = len; ok(pos, rem); pos = next(pos, &rem))\<close>.
  The locale states what the loop needs of \<open>ok\<close> and \<open>next\<close> and derives what every client
  relies on: each visited element lies inside the stream, elements do not overlap, and the
  walk depends on the bytes of the stream only.
\<close>

text \<open>\<open>STREAM_MAX\<close>: the longest stream whose padded length is still a C \<open>int\<close>.\<close>

definition STREAM_MAX :: int where
  "STREAM_MAX = 2147483644"

locale tlv_stream =
  fixes hlen :: int
    and ok :: "byte list \<Rightarrow> int \<Rightarrow> int \<Rightarrow> bool"
    and elen :: "byte list \<Rightarrow> int \<Rightarrow> int"
    and tot :: "byte list \<Rightarrow> int \<Rightarrow> int"
    and each :: "byte list \<Rightarrow> int \<Rightarrow> int \<Rightarrow> (int \<times> int) list"
  assumes hlen_pos: "0 < hlen"
    and each_unfold: "rem \<le> STREAM_MAX \<Longrightarrow> each buf off rem =
      (if ok buf off rem
       then (off, rem) # each buf (off + tot buf off) (rem - tot buf off) else [])"
    and ok_bounds: "ok buf off rem \<Longrightarrow> hlen \<le> elen buf off \<and> elen buf off \<le> rem"
    and tot_ge: "ok buf off rem \<Longrightarrow> rem \<le> STREAM_MAX \<Longrightarrow> elen buf off \<le> tot buf off"
    and ok_local: "0 \<le> off \<Longrightarrow> 0 \<le> off' \<Longrightarrow> rd buf off rem = rd buf' off' rem \<Longrightarrow>
      ok buf off rem = ok buf' off' rem"
    and tot_local: "0 \<le> off \<Longrightarrow> 0 \<le> off' \<Longrightarrow> rd buf off rem = rd buf' off' rem \<Longrightarrow>
      ok buf off rem \<Longrightarrow> tot buf off = tot buf' off'"
begin

text \<open>The loop shrinks the rest of the stream in every round.\<close>

lemma step_less: "ok buf off rem \<Longrightarrow> rem \<le> STREAM_MAX \<Longrightarrow> 0 < tot buf off"
  using ok_bounds [of buf off rem] tot_ge [of buf off rem] hlen_pos by linarith

lemma each_induct [consumes 1, case_names stop step]:
  assumes "rem \<le> STREAM_MAX"
    and stop: "\<And>off rem. rem \<le> STREAM_MAX \<Longrightarrow> \<not> ok buf off rem \<Longrightarrow> P off rem"
    and step: "\<And>off rem. rem \<le> STREAM_MAX \<Longrightarrow> ok buf off rem \<Longrightarrow>
      P (off + tot buf off) (rem - tot buf off) \<Longrightarrow> P off rem"
  shows "P off rem"
  using assms(1)
proof (induction "nat rem" arbitrary: off rem rule: less_induct)
  case less
  show ?case
  proof (cases "ok buf off rem")
    case True
    have "0 < tot buf off" "0 < rem"
      using step_less [OF True less.prems] ok_bounds [OF True] hlen_pos by auto
    then have "P (off + tot buf off) (rem - tot buf off)"
      using less.prems by (intro less.hyps) auto
    then show ?thesis by (rule step [OF less.prems True])
  qed (simp add: stop less.prems)
qed

lemma each_stop: "rem \<le> STREAM_MAX \<Longrightarrow> \<not> ok buf off rem \<Longrightarrow> each buf off rem = []"
  by (subst each_unfold) simp_all

lemma each_step: "rem \<le> STREAM_MAX \<Longrightarrow> ok buf off rem \<Longrightarrow>
    each buf off rem = (off, rem) # each buf (off + tot buf off) (rem - tot buf off)"
  by (subst each_unfold) simp_all

text \<open>Every visited element is a valid one that lies inside the stream.\<close>

lemma each_inside:
  assumes "rem \<le> STREAM_MAX" "(p, r) \<in> set (each buf off rem)"
  shows "off \<le> p \<and> p + r = off + rem \<and> ok buf p r \<and> hlen \<le> elen buf p \<and>
    p + elen buf p \<le> off + rem"
  using assms
proof (induction off rem rule: each_induct [where buf = buf])
  case (step off rem)
  then consider "(p, r) = (off, rem)"
    | "(p, r) \<in> set (each buf (off + tot buf off) (rem - tot buf off))"
    by (auto simp: each_step)
  then show ?case
  proof cases
    case 1
    then show ?thesis using step ok_bounds [of buf off rem] by auto
  next
    case 2
    then show ?thesis using step step_less [of buf off rem] by auto
  qed
qed (simp add: each_stop)

text \<open>Elements are visited in increasing order and do not overlap.\<close>

lemma each_ordered:
  assumes "rem \<le> STREAM_MAX"
  shows "sorted_wrt (\<lambda>(p, r) (q, s). p + elen buf p \<le> q) (each buf off rem)"
  using assms
proof (induction off rem rule: each_induct [where buf = buf])
  case (step off rem)
  have "off + elen buf off \<le> q" if "(q, s) \<in> set (each buf (off + tot buf off) (rem - tot buf off))"
    for q s
    using each_inside [OF _ that] step tot_ge [of buf off rem] step_less [of buf off rem] by auto
  then show ?case using step by (auto simp: each_step)
qed (simp add: each_stop)

text \<open>The number of rounds is bounded by the length of the stream.\<close>

lemma each_count:
  assumes "rem \<le> STREAM_MAX"
  shows "hlen * int (length (each buf off rem)) \<le> max 0 rem"
  using assms
proof (induction off rem rule: each_induct [where buf = buf])
  case (step off rem)
  have "hlen \<le> tot buf off" "hlen \<le> rem"
    using step tot_ge [of buf off rem] ok_bounds [of buf off rem] by auto
  then show ?case using step by (auto simp: each_step algebra_simps max_def split: if_splits)
qed (simp add: each_stop)

text \<open>The walk is a function of the bytes of the stream.\<close>

lemma each_local:
  assumes "rem \<le> STREAM_MAX" "0 \<le> off" "0 \<le> off'" "rd buf off rem = rd buf' off' rem"
  shows "each buf' off' rem = map (\<lambda>(p, r). (p - off + off', r)) (each buf off rem)"
  using assms
proof (induction off rem arbitrary: off' rule: each_induct [where buf = buf])
  case (stop off rem)
  then have "\<not> ok buf' off' rem" using ok_local [of off off' buf rem buf'] by simp
  then show ?case using stop by (simp add: each_stop)
next
  case (step off rem)
  let ?t = "tot buf off"
  have ok': "ok buf' off' rem" and t': "tot buf' off' = ?t"
    using step ok_local [of off off' buf rem buf'] tot_local [of off off' buf rem buf'] by auto
  have pos: "0 < ?t" using step step_less by blast
  have "rd buf (off + ?t) (rem - ?t) = rd buf' (off' + ?t) (rem - ?t)"
    using pos step.prems rd_rd [of off ?t "rem - ?t" rem buf] rd_rd [of off' ?t "rem - ?t" rem buf']
    by simp
  then have "each buf' (off' + ?t) (rem - ?t) =
      map (\<lambda>(p, r). (p - (off + ?t) + (off' + ?t), r)) (each buf (off + ?t) (rem - ?t))"
    using step pos by (intro step.IH) auto
  moreover have "each buf' off' rem = (off', rem) # each buf' (off' + ?t) (rem - ?t)"
    using step ok' by (simp add: each_step t')
  ultimately show ?case using step by (simp add: each_step algebra_simps)
qed

end

end
