(* ===== verification/Nl_Refcnt.thy ===== *)
theory Nl_Refcnt
  imports Nl_Prelude
begin

text \<open>
  The interface of reference-counted objects. Messages (\<open>nlmsg_get\<close>, \<open>nlmsg_free\<close>), callback
  sets (\<open>nl_cb_get\<close>, \<open>nl_cb_put\<close>), addresses and other objects follow one convention: a new object has
  one reference, \<open>get\<close> adds one, \<open>put\<close> drops one and frees the object with the last, and a
  \<open>put\<close> without a reference is an assertion failure. The locale states it once and derives
  that an object lives exactly as long as there are references to it.
\<close>

fun put_times :: "('o option \<Rightarrow> 'o option res) \<Rightarrow> nat \<Rightarrow> 'o option \<Rightarrow> 'o option res" where
  "put_times put 0 x = Inr x"
| "put_times put (Suc n) x = (case put x of Inl e \<Rightarrow> Inl e | Inr y \<Rightarrow> put_times put n y)"

locale refcounted =
  fixes cnt :: "'o \<Rightarrow> int"
    and get :: "'o \<Rightarrow> 'o"
    and put :: "'o option \<Rightarrow> 'o option res"
  assumes cnt_get: "cnt (get x) = cnt x + 1"
    and put_get: "0 < cnt x \<Longrightarrow> put (Some (get x)) = Inr (Some x)"
    and put_last: "cnt x = 1 \<Longrightarrow> put (Some x) = Inr None"
    and put_more: "1 < cnt x \<Longrightarrow> \<exists>y. put (Some x) = Inr (Some y) \<and> cnt y = cnt x - 1"
    and put_bug: "cnt x \<le> 0 \<Longrightarrow> put (Some x) = Inl Bug"
begin

lemma cnt_get_times: "cnt ((get ^^ n) x) = cnt x + int n"
  by (induction n) (simp_all add: cnt_get)

text \<open>An object with \<open>n\<close> references survives fewer than \<open>n\<close> puts and is freed by the \<open>n\<close>-th.\<close>

lemma put_times_alive:
  "int n < cnt x \<Longrightarrow> \<exists>y. put_times put n (Some x) = Inr (Some y) \<and> cnt y = cnt x - int n"
proof (induction n arbitrary: x)
  case (Suc n)
  then obtain y where y: "put (Some x) = Inr (Some y)" "cnt y = cnt x - 1"
    using put_more [of x] by auto
  then show ?case using Suc.IH [of y] Suc.prems by auto
qed simp

lemma put_times_freed: "int n = cnt x \<Longrightarrow> 0 < n \<Longrightarrow> put_times put n (Some x) = Inr None"
proof (induction n arbitrary: x)
  case (Suc n)
  show ?case
  proof (cases "n = 0")
    case True
    then show ?thesis using Suc.prems put_last [of x] by simp
  next
    case False
    then obtain y where y: "put (Some x) = Inr (Some y)" "cnt y = cnt x - 1"
      using put_more [of x] Suc.prems by auto
    then show ?thesis using Suc.IH [of y] Suc.prems False by auto
  qed
qed simp

text \<open>As many puts as gets leave the object as it was.\<close>

lemma put_times_get_times: "0 < cnt x \<Longrightarrow> put_times put n (Some ((get ^^ n) x)) = Inr (Some x)"
proof (induction n)
  case (Suc n)
  have "0 < cnt ((get ^^ n) x)" using Suc.prems by (simp add: cnt_get_times)
  then show ?case using Suc by (simp add: put_get)
qed simp

end

end
