(* ===== verification/Nl_Msg.thy ===== *)
theory Nl_Msg
  imports Nl_Error Nl_Stream Nl_Refcnt
begin

text \<open>
  \<open>lib/msg.c\<close>: netlink messages. A message is a buffer of \<open>nm_size\<close> bytes that starts with
  the 16-byte header \<open>struct nlmsghdr\<close>; the first \<open>nlmsg_len\<close> bytes are in use. Header
  fields are read from and written to the buffer itself. A pointer into the buffer is an
  offset. Each call of an allocation function takes a flag that says whether it succeeds.
\<close>

section \<open>Headers and messages\<close>

record nlmsghdr =
  nlmsg_len :: int
  nlmsg_type :: int
  nlmsg_flags :: int
  nlmsg_seq :: int
  nlmsg_pid :: int

record sockaddr_nl =
  nl_family :: int
  nl_pid :: int
  nl_groups :: int

record ucred =
  uc_pid :: int
  uc_uid :: int
  uc_gid :: int

record nl_msg =
  nm_protocol :: int
  nm_flags :: int
  nm_src :: sockaddr_nl
  nm_dst :: sockaddr_nl
  nm_creds :: ucred
  nm_nlh :: "byte list"
  nm_size :: int
  nm_refcnt :: int

definition no_addr :: sockaddr_nl where
  "no_addr = \<lparr>nl_family = 0, nl_pid = 0, nl_groups = 0\<rparr>"

definition no_creds :: ucred where
  "no_creds = \<lparr>uc_pid = 0, uc_uid = 0, uc_gid = 0\<rparr>"

text \<open>The header at an offset of a buffer.\<close>

definition nlh :: "byte list \<Rightarrow> int \<Rightarrow> nlmsghdr" where
  "nlh buf off =
     \<lparr>nlmsg_len = get32 buf off, nlmsg_type = get16 buf (off + 4),
      nlmsg_flags = get16 buf (off + 6), nlmsg_seq = get32 buf (off + 8),
      nlmsg_pid = get32 buf (off + 12)\<rparr>"

definition nlmsg_hdr :: "nl_msg \<Rightarrow> nlmsghdr" where
  "nlmsg_hdr n = nlh (nm_nlh n) 0"

section \<open>Sizes\<close>

text \<open>\<open>NLMSG_ALIGN\<close> with \<open>NLMSG_ALIGNTO = 4U\<close>: 32-bit unsigned arithmetic.\<close>

definition NLMSG_ALIGN :: "int \<Rightarrow> int" where
  "NLMSG_ALIGN len = u32 (u32 (len + 4 - 1) AND NOT (4 - 1))"

definition NLMSG_HDRLEN :: int where
  "NLMSG_HDRLEN = s32 (NLMSG_ALIGN 16)"

definition nlmsg_size :: "int \<Rightarrow> int" where
  "nlmsg_size payload = NLMSG_HDRLEN + payload"

definition nlmsg_msg_size :: "int \<Rightarrow> int" where
  "nlmsg_msg_size payload = nlmsg_size payload"

definition nlmsg_total_size :: "int \<Rightarrow> int" where
  "nlmsg_total_size payload = s32 (NLMSG_ALIGN (nlmsg_msg_size payload))"

definition nlmsg_padlen :: "int \<Rightarrow> int" where
  "nlmsg_padlen payload = nlmsg_total_size payload - nlmsg_msg_size payload"

section \<open>Access to the payload\<close>

definition nlmsg_data :: "int \<Rightarrow> int" where
  "nlmsg_data off = off + NLMSG_HDRLEN"

definition nlmsg_tail :: "int \<Rightarrow> nlmsghdr \<Rightarrow> int" where
  "nlmsg_tail off h = off + NLMSG_ALIGN (nlmsg_len h)"

definition nlmsg_datalen :: "nlmsghdr \<Rightarrow> int" where
  "nlmsg_datalen h = s32 (u32 (nlmsg_len h - NLMSG_HDRLEN))"

definition nlmsg_attrdata :: "int \<Rightarrow> int \<Rightarrow> int" where
  "nlmsg_attrdata off hdrlen = nlmsg_data off + NLMSG_ALIGN hdrlen"

definition nlmsg_attrlen :: "nlmsghdr \<Rightarrow> int \<Rightarrow> int" where
  "nlmsg_attrlen h hdrlen = max (s32 (u32 (nlmsg_datalen h - NLMSG_ALIGN hdrlen))) 0"

definition nlmsg_valid_hdr :: "nlmsghdr \<Rightarrow> int \<Rightarrow> bool" where
  "nlmsg_valid_hdr h hdrlen \<longleftrightarrow> \<not> nlmsg_len h < u32 (nlmsg_msg_size hdrlen)"

definition nlmsg_ok :: "nlmsghdr \<Rightarrow> int \<Rightarrow> bool" where
  "nlmsg_ok h remaining \<longleftrightarrow> remaining \<ge> 16 \<and> nlmsg_len h \<ge> 16 \<and> nlmsg_len h \<le> u32 remaining"

text \<open>
  The next header in a stream and the bytes that remain from there. The subtraction is
  written as it wraps: a stream longer than \<open>STREAM_MAX\<close> makes \<open>totlen\<close> negative.
\<close>

definition nlmsg_next :: "nlmsghdr \<Rightarrow> int \<Rightarrow> int \<Rightarrow> int \<times> int" where
  "nlmsg_next h off remaining =
     (let totlen = s32 (NLMSG_ALIGN (nlmsg_len h)) in (off + totlen, s32 (remaining - totlen)))"

section \<open>Building messages\<close>

abbreviation set_nlmsg_len :: "int \<Rightarrow> nl_msg \<Rightarrow> nl_msg" where
  "set_nlmsg_len v n \<equiv> n\<lparr>nm_nlh := put32 (nm_nlh n) 0 v\<rparr>"

definition nlmsg_alloc_len :: "bool \<Rightarrow> bool \<Rightarrow> int \<Rightarrow> nl_msg option" where
  "nlmsg_alloc_len a1 a2 len =
     (let len = (if len < 16 then 16 else len) in
      if \<not> a1 then None
      else if \<not> a2 then None
      else Some (set_nlmsg_len (nlmsg_total_size 0)
        \<lparr>nm_protocol = -1, nm_flags = 0, nm_src = no_addr, nm_dst = no_addr,
         nm_creds = no_creds, nm_nlh = zeros len, nm_size = len, nm_refcnt = 1\<rparr>))"

definition nlmsg_alloc :: "bool \<Rightarrow> bool \<Rightarrow> int \<Rightarrow> nl_msg option" where
  "nlmsg_alloc a1 a2 default_msg_size = nlmsg_alloc_len a1 a2 default_msg_size"

definition nlmsg_alloc_size :: "bool \<Rightarrow> bool \<Rightarrow> int \<Rightarrow> nl_msg option" where
  "nlmsg_alloc_size a1 a2 maxlen = nlmsg_alloc_len a1 a2 maxlen"

definition set_hdr_fields :: "nl_msg \<Rightarrow> int \<Rightarrow> int \<Rightarrow> int \<Rightarrow> int \<Rightarrow> nl_msg" where
  "set_hdr_fields n type flags seq pid =
     n\<lparr>nm_nlh := put32 (put32 (put16 (put16 (nm_nlh n) 4 type) 6 flags) 8 seq) 12 pid\<rparr>"

definition nlmsg_inherit :: "bool \<Rightarrow> bool \<Rightarrow> int \<Rightarrow> nlmsghdr option \<Rightarrow> nl_msg option" where
  "nlmsg_inherit a1 a2 default_msg_size hdr =
     (case (nlmsg_alloc a1 a2 default_msg_size, hdr) of
        (Some nm, Some h) \<Rightarrow>
          Some (set_hdr_fields nm (nlmsg_type h) (nlmsg_flags h) (nlmsg_seq h) (nlmsg_pid h))
      | (nm, _) \<Rightarrow> nm)"

text \<open>\<open>NL_AUTO_SEQ\<close> and \<open>NL_AUTO_PID\<close> are both 0.\<close>

definition nlmsg_alloc_simple :: "bool \<Rightarrow> bool \<Rightarrow> int \<Rightarrow> int \<Rightarrow> int \<Rightarrow> nl_msg option" where
  "nlmsg_alloc_simple a1 a2 default_msg_size nlmsgtype flags =
     nlmsg_inherit a1 a2 default_msg_size
       (Some \<lparr>nlmsg_len = 0, nlmsg_type = u16 nlmsgtype, nlmsg_flags = u16 flags,
         nlmsg_seq = 0, nlmsg_pid = 0\<rparr>)"

definition nlmsg_set_default_size :: "int \<Rightarrow> int" where
  "nlmsg_set_default_size maxlen =
     (if maxlen < nlmsg_total_size 0 then nlmsg_total_size 0 else maxlen)"

definition nlmsg_convert :: "bool \<Rightarrow> bool \<Rightarrow> byte list \<Rightarrow> int \<Rightarrow> nl_msg option" where
  "nlmsg_convert a1 a2 buf off =
     (let len = nlmsg_len (nlh buf off) in
      case nlmsg_alloc_len a1 a2 (NLMSG_ALIGN len) of
        None \<Rightarrow> None
      | Some nm \<Rightarrow> Some (nm\<lparr>nm_nlh := wr (nm_nlh nm) 0 (rd buf off len)\<rparr>))"

text \<open>Room at the tail: the message and the offset of the room, or \<open>NULL\<close>.\<close>

definition nlmsg_reserve :: "nl_msg \<Rightarrow> int \<Rightarrow> int \<Rightarrow> (nl_msg \<times> int) option" where
  "nlmsg_reserve n len pad =
     (let nlmsglen = nlmsg_len (nlmsg_hdr n) in
      if len > nm_size n then None
      else
        let tlen = (if pad \<noteq> 0 then u64 (u64 (len + (pad - 1)) AND NOT (pad - 1)) else len) in
        if u64 (tlen + nlmsglen) > nm_size n then None
        else
          let buf = nlmsglen;
              n = set_nlmsg_len (nlmsglen + tlen) n;
              n = (if tlen > len then n\<lparr>nm_nlh := wr (nm_nlh n) (buf + len) (zeros (tlen - len))\<rparr>
                   else n)
          in Some (n, buf))"

definition nlmsg_append :: "nl_msg \<Rightarrow> byte list \<Rightarrow> int \<Rightarrow> nl_msg res" where
  "nlmsg_append n data pad =
     (case nlmsg_reserve n (blen data) pad of
        None \<Rightarrow> Inl (Err NLE_NOMEM)
      | Some (n, tmp) \<Rightarrow> Inr (n\<lparr>nm_nlh := wr (nm_nlh n) tmp data\<rparr>))"

text \<open>\<open>junk\<close>: what \<open>realloc\<close> leaves in the bytes past the old block.\<close>

definition nlmsg_expand :: "bool \<Rightarrow> (nat \<Rightarrow> byte) \<Rightarrow> nl_msg \<Rightarrow> int \<Rightarrow> nl_msg res" where
  "nlmsg_expand a1 junk n newlen =
     (if newlen \<le> nm_size n then Inl (Err NLE_INVAL)
      else if \<not> a1 then Inl (Err NLE_NOMEM)
      else Inr (n\<lparr>nm_nlh := nm_nlh n @ map junk [0..<nat (newlen - nm_size n)],
                  nm_size := newlen\<rparr>))"

text \<open>
  The returned pointer is \<open>Some 0\<close> (the header) or \<open>None\<close>; the header fields are written
  even when the reservation fails.
\<close>

definition nlmsg_put ::
  "nl_msg \<Rightarrow> int \<Rightarrow> int \<Rightarrow> int \<Rightarrow> int \<Rightarrow> int \<Rightarrow> (nl_msg \<times> int option) res" where
  "nlmsg_put n pid seq type payload flags =
     (if nlmsg_len (nlmsg_hdr n) < NLMSG_HDRLEN then Inl Bug
      else
        let n = set_hdr_fields n type flags seq pid in
        if payload > 0 then
          (case nlmsg_reserve n payload 4 of
             None \<Rightarrow> Inr (n, None)
           | Some (n, _) \<Rightarrow> Inr (n, Some 0))
        else Inr (n, Some 0))"

section \<open>Reference counting and attributes of the message object\<close>

definition nlmsg_get :: "nl_msg \<Rightarrow> nl_msg" where
  "nlmsg_get msg = msg\<lparr>nm_refcnt := nm_refcnt msg + 1\<rparr>"

text \<open>\<open>Inr None\<close>: the message was freed (or was \<open>NULL\<close>).\<close>

definition nlmsg_free :: "nl_msg option \<Rightarrow> nl_msg option res" where
  "nlmsg_free m =
     (case m of
        None \<Rightarrow> Inr None
      | Some msg \<Rightarrow>
          (let msg = msg\<lparr>nm_refcnt := nm_refcnt msg - 1\<rparr> in
           if nm_refcnt msg < 0 then Inl Bug
           else if nm_refcnt msg \<le> 0 then Inr None
           else Inr (Some msg)))"

definition nlmsg_set_proto :: "int \<Rightarrow> nl_msg \<Rightarrow> nl_msg" where
  "nlmsg_set_proto protocol msg = msg\<lparr>nm_protocol := protocol\<rparr>"

definition nlmsg_get_proto :: "nl_msg \<Rightarrow> int" where
  "nlmsg_get_proto msg = nm_protocol msg"

definition nlmsg_get_max_size :: "nl_msg \<Rightarrow> int" where
  "nlmsg_get_max_size msg = nm_size msg"

definition nlmsg_set_src :: "sockaddr_nl \<Rightarrow> nl_msg \<Rightarrow> nl_msg" where
  "nlmsg_set_src addr msg = msg\<lparr>nm_src := addr\<rparr>"

definition nlmsg_get_src :: "nl_msg \<Rightarrow> sockaddr_nl" where
  "nlmsg_get_src msg = nm_src msg"

definition nlmsg_set_dst :: "sockaddr_nl \<Rightarrow> nl_msg \<Rightarrow> nl_msg" where
  "nlmsg_set_dst addr msg = msg\<lparr>nm_dst := addr\<rparr>"

definition nlmsg_get_dst :: "nl_msg \<Rightarrow> sockaddr_nl" where
  "nlmsg_get_dst msg = nm_dst msg"

definition NL_MSG_CRED_PRESENT :: int where
  "NL_MSG_CRED_PRESENT = 1"

definition nlmsg_set_creds :: "ucred \<Rightarrow> nl_msg \<Rightarrow> nl_msg" where
  "nlmsg_set_creds creds msg =
     msg\<lparr>nm_creds := creds, nm_flags := nm_flags msg OR NL_MSG_CRED_PRESENT\<rparr>"

definition nlmsg_get_creds :: "nl_msg \<Rightarrow> ucred option" where
  "nlmsg_get_creds msg =
     (if nm_flags msg AND NL_MSG_CRED_PRESENT \<noteq> 0 then Some (nm_creds msg) else None)"

interpretation msg_ref: refcounted nm_refcnt nlmsg_get nlmsg_free
  by unfold_locales (auto simp: nlmsg_get_def nlmsg_free_def Let_def)

section \<open>Lemmas on sizes\<close>

lemma NLMSG_ALIGN_eq: "0 \<le> x \<Longrightarrow> x \<le> 4294967292 \<Longrightarrow> NLMSG_ALIGN x = align4 x"
  using align4_ge [of x] align4_lt [of x] align4_least [of x 4294967292]
  by (simp add: NLMSG_ALIGN_def align4_def)

lemma NLMSG_HDRLEN_eq [simp]: "NLMSG_HDRLEN = 16"
  by (simp add: NLMSG_HDRLEN_def NLMSG_ALIGN_eq align4_eq)

lemma nlmsg_size_simps [simp]:
  "nlmsg_size p = 16 + p" "nlmsg_msg_size p = 16 + p" "nlmsg_data off = off + 16"
  by (simp_all add: nlmsg_size_def nlmsg_msg_size_def nlmsg_data_def)

lemma nlmsg_total_size_eq:
  "- 16 \<le> p \<Longrightarrow> p \<le> 2147483628 \<Longrightarrow> nlmsg_total_size p = align4 (16 + p)"
  using align4_ge [of "16 + p"] align4_lt [of "16 + p"]
  by (simp add: nlmsg_total_size_def NLMSG_ALIGN_eq)

lemma nlmsg_total_size_0 [simp]: "nlmsg_total_size 0 = 16"
  by (simp add: nlmsg_total_size_eq align4_eq)

section \<open>The invariant of a message under construction\<close>

definition wf_msg :: "nl_msg \<Rightarrow> bool" where
  "wf_msg n \<longleftrightarrow> blen (nm_nlh n) = nm_size n \<and> nm_size n < 2147483648 \<and>
     16 \<le> nlmsg_len (nlmsg_hdr n) \<and> nlmsg_len (nlmsg_hdr n) \<le> nm_size n"

abbreviation mlen :: "nl_msg \<Rightarrow> int" where
  "mlen n \<equiv> nlmsg_len (nlmsg_hdr n)"

lemma nlmsg_len_nlh [simp]: "nlmsg_len (nlh buf off) = get32 buf off"
  by (simp add: nlh_def)

lemma mlen_def: "mlen n = get32 (nm_nlh n) 0"
  by (simp add: nlmsg_hdr_def)

lemma wf_msgD:
  assumes "wf_msg n"
  shows "blen (nm_nlh n) = nm_size n" "nm_size n < 2147483648" "16 \<le> mlen n" "mlen n \<le> nm_size n"
  using assms by (auto simp: wf_msg_def)

lemma mlen_set_len:
  "16 \<le> blen (nm_nlh n) \<Longrightarrow> mlen (set_nlmsg_len v n) = u32 v"
  by (simp add: nlmsg_hdr_def mem_simps)

lemma nlmsg_alloc_len_wf:
  assumes "nlmsg_alloc_len a1 a2 len = Some n" "len < 2147483648"
  shows "wf_msg n \<and> mlen n = 16 \<and> nm_size n = max 16 len \<and> nm_refcnt n = 1"
  using assms
  by (auto simp: nlmsg_alloc_len_def Let_def wf_msg_def nlmsg_hdr_def mem_simps split: if_splits)

text \<open>What the rounding in \<open>nlmsg_reserve\<close> computes for any pad, a power of two or not.\<close>

lemma and_not_bounds: "0 \<le> (m::int) \<Longrightarrow> 0 \<le> x \<Longrightarrow> x - m \<le> x AND NOT m \<and> x AND NOT m \<le> x"
proof -
  assume m: "0 \<le> m" and x: "0 \<le> x"
  have "(x AND NOT m) + (x AND m) = (x AND NOT m) OR (x AND m)"
    by (rule disjunctive_add) (auto simp: bit_simps)
  also have "\<dots> = x" by (rule bit_eqI) (auto simp: bit_simps)
  finally have s: "(x AND NOT m) + (x AND m) = x" .
  moreover have "x AND m \<le> m" "0 \<le> x AND m" using m AND_upper2 [of m x] by simp_all
  ultimately show ?thesis by linarith
qed

definition reserve_tlen :: "int \<Rightarrow> int \<Rightarrow> int" where
  "reserve_tlen len pad = (if pad \<noteq> 0 then (len + (pad - 1)) AND NOT (pad - 1) else len)"

lemma reserve_tlen_bounds:
  "0 \<le> len \<Longrightarrow> 0 \<le> pad \<Longrightarrow> len \<le> reserve_tlen len pad \<and> reserve_tlen len pad \<le> len + pad"
  using and_not_bounds [of "pad - 1" "len + (pad - 1)"] by (auto simp: reserve_tlen_def)

lemma reserve_tlen_4 [simp]: "reserve_tlen len 4 = align4 len"
  by (simp add: reserve_tlen_def align4_def add.commute)

lemma reserve_tlen_0 [simp]: "reserve_tlen len 0 = len"
  by (simp add: reserve_tlen_def)

text \<open>\<open>nlmsg_reserve\<close> without its width conversions, for a well-formed message.\<close>

lemma nlmsg_reserve_eq:
  assumes wf: "wf_msg n" and len: "0 \<le> len" and pad: "0 \<le> pad" "pad < 2147483648"
  shows "nlmsg_reserve n len pad =
    (if mlen n + reserve_tlen len pad > nm_size n then None
     else Some (n\<lparr>nm_nlh := wr (put32 (nm_nlh n) 0 (mlen n + reserve_tlen len pad))
             (mlen n + len) (zeros (reserve_tlen len pad - len))\<rparr>, mlen n))"
proof (cases "len > nm_size n")
  case True
  then show ?thesis
    using wf_msgD [OF wf] reserve_tlen_bounds [OF len pad(1)] by (simp add: nlmsg_reserve_def)
next
  case False
  let ?t = "reserve_tlen len pad"
  note b = wf_msgD [OF wf] reserve_tlen_bounds [OF len pad(1)]
  have t: "(if pad \<noteq> 0 then u64 (u64 (len + (pad - 1)) AND NOT (pad - 1)) else len) = ?t"
    using False b len pad by (auto simp: reserve_tlen_def)
  have "u64 (?t + mlen n) = ?t + mlen n" using False b len pad by simp
  then show ?thesis
    using False b by (auto simp: nlmsg_reserve_def Let_def t add.commute)
qed

text \<open>The shape of a successful reservation: what every client of \<open>nlmsg_reserve\<close> uses.\<close>

lemma nlmsg_reserve_Some:
  assumes wf: "wf_msg n" and len: "0 \<le> len" and pad: "0 \<le> pad" "pad < 2147483648"
    and r: "nlmsg_reserve n len pad = Some (n', p)"
  shows "wf_msg n'" "p = mlen n" "mlen n' = mlen n + reserve_tlen len pad"
    "nm_size n' = nm_size n" "rd (nm_nlh n') 4 (mlen n - 4) = rd (nm_nlh n) 4 (mlen n - 4)"
    "rd (nm_nlh n') (p + len) (mlen n' - (p + len)) = zeros (mlen n' - (p + len))"
    "nm_refcnt n' = nm_refcnt n"
proof -
  let ?t = "reserve_tlen len pad"
  note b = wf_msgD [OF wf] reserve_tlen_bounds [OF len pad(1)]
  from r have fits: "mlen n + ?t \<le> nm_size n" and p: "p = mlen n"
    and n': "n' = n\<lparr>nm_nlh := wr (put32 (nm_nlh n) 0 (mlen n + ?t))
             (mlen n + len) (zeros (?t - len))\<rparr>"
    unfolding nlmsg_reserve_eq [OF wf len pad] by (auto split: if_splits)
  have l: "length (put32 (nm_nlh n) 0 (mlen n + ?t)) = length (nm_nlh n)"
    using b by (simp add: mem_simps)
  have m: "mlen n' = mlen n + ?t"
    using b fits l len by (simp add: n' nlmsg_hdr_def mem_simps)
  show "mlen n' = mlen n + ?t" by (rule m)
  show "p = mlen n" by (rule p)
  show "nm_size n' = nm_size n" "nm_refcnt n' = nm_refcnt n" by (simp_all add: n')
  show "wf_msg n'"
    using b fits l len m by (simp add: wf_msg_def) (simp add: n' length_wr)
  show "rd (nm_nlh n') 4 (mlen n - 4) = rd (nm_nlh n) 4 (mlen n - 4)"
    using b fits l len by (simp add: n' mem_simps)
  show "rd (nm_nlh n') (p + len) (mlen n' - (p + len)) = zeros (mlen n' - (p + len))"
    unfolding m p using b fits l len by (simp add: n' rd_wr_same)
qed

lemma nlmsg_reserve_None:
  assumes "wf_msg n" "0 \<le> len" "0 \<le> pad" "pad < 2147483648"
  shows "nlmsg_reserve n len pad = None \<longleftrightarrow> nm_size n < mlen n + reserve_tlen len pad"
  using assms by (simp add: nlmsg_reserve_eq)

section \<open>Streams of messages\<close>

lemma nlmsg_next_less:
  assumes "nlmsg_ok h rem" "rem < 2147483648" "nlmsg_next h off rem = (off', rem')"
  shows "rem' < rem"
proof -
  have b: "16 \<le> nlmsg_len h" "nlmsg_len h \<le> rem" using assms by (auto simp: nlmsg_ok_def)
  then have t: "NLMSG_ALIGN (nlmsg_len h) = align4 (nlmsg_len h)"
    using assms by (simp add: NLMSG_ALIGN_eq)
  have a: "16 \<le> align4 (nlmsg_len h)" "align4 (nlmsg_len h) < rem + 4"
    using b align4_ge [of "nlmsg_len h"] align4_lt [of "nlmsg_len h"] by linarith+
  have "rem' = s32 (rem - s32 (align4 (nlmsg_len h)))"
    using assms t by (simp add: nlmsg_next_def Let_def)
  also have "\<dots> = s32 (rem - align4 (nlmsg_len h))"
    by (rule s32_diff)
  finally show ?thesis using a assms by simp
qed

text \<open>
  The loop \<open>while (nlmsg_ok(hdr, n)) { ... hdr = nlmsg_next(hdr, &n); }\<close> of \<open>recvmsgs\<close> (\<open>lib/nl.c\<close>): the positions that it visits, with
  the bytes that remain. The macro \<open>nlmsg_for_each\<close> of \<open>msg.h\<close> is meant to be the same loop, but declares \<open>pos\<close> as an \<open>int\<close>, and is
  not modelled.
\<close>

function nlmsg_positions :: "byte list \<Rightarrow> int \<Rightarrow> int \<Rightarrow> (int \<times> int) list" where
  "nlmsg_positions buf off rem =
     (if rem < 2147483648 \<and> nlmsg_ok (nlh buf off) rem
      then (off, rem) # (case nlmsg_next (nlh buf off) off rem of
             (off', rem') \<Rightarrow> nlmsg_positions buf off' rem')
      else [])"
  by auto
termination
proof (relation "measure (\<lambda>(buf, off, rem). nat rem)")
  fix buf off rem x y
  assume a: "rem < 2147483648 \<and> nlmsg_ok (nlh buf off) rem"
    and n: "(x, y) = nlmsg_next (nlh buf off) off rem"
  then have "y < rem" using nlmsg_next_less [of "nlh buf off" rem off x y] by simp
  moreover have "0 < rem" using a by (simp add: nlmsg_ok_def)
  ultimately show "((buf, x, y), buf, off, rem) \<in> measure (\<lambda>(buf, off, rem). nat rem)"
    by simp
qed simp

declare nlmsg_positions.simps [simp del]

text \<open>The messages of a receive buffer form a stream.\<close>

interpretation nlmsgs: tlv_stream 16 "\<lambda>buf off rem. nlmsg_ok (nlh buf off) rem"
  "\<lambda>buf off. get32 buf off" "\<lambda>buf off. s32 (NLMSG_ALIGN (get32 buf off))" nlmsg_positions
proof
  fix buf buf' :: "byte list" and off off' rem :: int
  let ?ok = "nlmsg_ok (nlh buf off) rem" and ?t = "s32 (NLMSG_ALIGN (get32 buf off))"
  have small: "16 \<le> get32 buf off" "get32 buf off \<le> rem" "?t = align4 (get32 buf off)"
    if "?ok" "rem \<le> STREAM_MAX"
  proof -
    show b: "16 \<le> get32 buf off" "get32 buf off \<le> rem"
      using that by (auto simp: nlmsg_ok_def STREAM_MAX_def)
    have "align4 (get32 buf off) \<le> 2147483644"
      using b that by (intro align4_least) (auto simp: STREAM_MAX_def)
    then show "?t = align4 (get32 buf off)"
      using b that align4_ge [of "get32 buf off"] by (simp add: NLMSG_ALIGN_eq STREAM_MAX_def)
  qed
  show "(0::int) < 16" by simp
  show "16 \<le> get32 buf off \<and> get32 buf off \<le> rem" if ?ok
  proof -
    have "get32 buf off \<le> u32 rem" "0 \<le> rem" "16 \<le> get32 buf off"
      using that by (auto simp: nlmsg_ok_def)
    moreover have "u32 rem \<le> rem" using \<open>0 \<le> rem\<close> by (simp add: u32_def zmod_le_nonneg_dividend)
    ultimately show ?thesis by linarith
  qed
  show "get32 buf off \<le> ?t" if ?ok "rem \<le> STREAM_MAX"
    using small [OF that] align4_ge by simp
  show "nlmsg_positions buf off rem =
      (if ?ok then (off, rem) # nlmsg_positions buf (off + ?t) (rem - ?t) else [])"
    if "rem \<le> STREAM_MAX"
  proof (cases ?ok)
    case True
    have "- 4 < rem - ?t" "rem - ?t < rem"
      using small [OF True that] align4_ge [of "get32 buf off"] align4_lt [of "get32 buf off"]
      by linarith+
    then have "s32 (rem - ?t) = rem - ?t" using that by (simp add: STREAM_MAX_def)
    then show ?thesis
      using True that nlmsg_positions.simps [of buf off rem]
      by (simp add: nlmsg_next_def Let_def STREAM_MAX_def)
  qed (subst nlmsg_positions.simps, simp)
  assume loc: "0 \<le> off" "0 \<le> off'" "rd buf off rem = rd buf' off' rem"
  have "16 \<le> rem \<Longrightarrow> get32 buf off = get32 buf' off'"
    using get_local(2) [OF loc(3,1,2)] by simp
  then show "nlmsg_ok (nlh buf off) rem = nlmsg_ok (nlh buf' off') rem"
    and "?ok \<Longrightarrow> s32 (NLMSG_ALIGN (get32 buf off)) = s32 (NLMSG_ALIGN (get32 buf' off'))"
    by (auto simp: nlmsg_ok_def)
qed

section \<open>What the construction operations do\<close>

lemma nlmsg_append_cases:
  assumes wf: "wf_msg n" and pad: "0 \<le> pad" "pad < 2147483648"
  shows "(\<exists>n'. nlmsg_append n data pad = Inr n' \<and> wf_msg n' \<and> nm_size n' = nm_size n \<and>
        mlen n' = mlen n + reserve_tlen (blen data) pad \<and>
        rd (nm_nlh n') 4 (mlen n - 4) = rd (nm_nlh n) 4 (mlen n - 4) \<and>
        rd (nm_nlh n') (mlen n) (mlen n' - mlen n)
          = data @ zeros (reserve_tlen (blen data) pad - blen data))
    \<or> (nlmsg_append n data pad = Inl (Err NLE_NOMEM) \<and>
        nm_size n < mlen n + reserve_tlen (blen data) pad)"
proof (cases "nlmsg_reserve n (blen data) pad")
  case None
  then show ?thesis using nlmsg_reserve_None [OF wf _ pad, of "blen data"]
    by (simp add: nlmsg_append_def)
next
  case (Some r)
  obtain m p where "r = (m, p)" by (cases r)
  then have r: "nlmsg_reserve n (blen data) pad = Some (m, mlen n)"
    using Some nlmsg_reserve_Some(2) [OF wf _ pad, of "blen data" m p] by simp
  note f = nlmsg_reserve_Some [OF wf _ pad r, simplified]
  let ?t = "reserve_tlen (blen data) pad" and ?b = "nm_nlh m"
  let ?n' = "m\<lparr>nm_nlh := wr ?b (mlen n) data\<rparr>"
  note b = wf_msgD [OF wf] wf_msgD [OF f(1)] reserve_tlen_bounds [of "blen data" pad] pad
  have m: "mlen ?n' = mlen m" using b f by (simp add: nlmsg_hdr_def mem_simps)
  have "wf_msg ?n'"
    using b f m by (simp add: wf_msg_def) (simp add: mem_simps)
  moreover have "rd (nm_nlh ?n') 4 (mlen n - 4) = rd (nm_nlh n) 4 (mlen n - 4)"
    using b f by (simp add: mem_simps)
  moreover have "rd (nm_nlh ?n') (mlen n) ?t = data @ zeros (?t - blen data)"
    using b f rd_split [of "mlen n" "blen data" "?t - blen data" "nm_nlh ?n'"]
    by (simp add: mem_simps)
  ultimately show ?thesis using r f m by (auto simp: nlmsg_append_def)
qed

text \<open>Header fields are independent of each other and of the payload.\<close>

lemma nlh_set_hdr_fields:
  assumes "16 \<le> blen (nm_nlh n)"
  shows "nlmsg_hdr (set_hdr_fields n type flags seq pid) =
    \<lparr>nlmsg_len = mlen n, nlmsg_type = u16 type, nlmsg_flags = u16 flags,
     nlmsg_seq = u32 seq, nlmsg_pid = u32 pid\<rparr>"
  using assms by (simp add: nlmsg_hdr_def nlh_def set_hdr_fields_def mem_simps)

lemma wf_set_hdr_fields: "wf_msg n \<Longrightarrow> wf_msg (set_hdr_fields n type flags seq pid)"
  using nlh_set_hdr_fields [of n type flags seq pid]
  by (simp add: wf_msg_def) (simp add: set_hdr_fields_def mem_simps)

lemma rd_set_hdr_fields:
  "wf_msg n \<Longrightarrow> 16 \<le> a \<Longrightarrow>
    rd (nm_nlh (set_hdr_fields n type flags seq pid)) a m = rd (nm_nlh n) a m"
  using wf_msgD [of n] by (simp add: set_hdr_fields_def mem_simps)

lemma nlh_cong:
  assumes "rd buf 4 12 = rd buf' 4 12" "get32 buf 0 = l"
  shows "nlh buf 0 = (nlh buf' 0)\<lparr>nlmsg_len := l\<rparr>"
  using assms rd_prefix [OF assms(1), of 0 2] rd_prefix [OF assms(1), of 2 2]
    rd_prefix [OF assms(1), of 4 4] rd_prefix [OF assms(1), of 8 4]
  by (simp add: nlh_def get16_def get32_def)

lemma nlmsg_convert_ok:
  assumes ok: "nlmsg_ok (nlh buf off) rem" and inside: "0 \<le> off" "off + rem \<le> blen buf"
    and small: "rem \<le> STREAM_MAX"
  shows "\<exists>n. nlmsg_convert True True buf off = Some n \<and> wf_msg n \<and> nlmsg_hdr n = nlh buf off \<and>
    rd (nm_nlh n) 0 (mlen n) = rd buf off (nlmsg_len (nlh buf off)) \<and> nm_refcnt n = 1"
proof -
  let ?len = "get32 buf off"
  have l: "16 \<le> ?len" "?len \<le> rem" using nlmsgs.ok_bounds [OF ok] by simp_all
  have al: "NLMSG_ALIGN ?len = align4 ?len"
    using l small by (simp add: NLMSG_ALIGN_eq STREAM_MAX_def)
  have al2: "?len \<le> align4 ?len" "align4 ?len \<le> 2147483644"
    using align4_ge align4_least [of ?len 2147483644] l small by (auto simp: STREAM_MAX_def)
  obtain m where m: "nlmsg_alloc_len True True (align4 ?len) = Some m"
    by (simp add: nlmsg_alloc_len_def Let_def)
  note mf = nlmsg_alloc_len_wf [OF m]
  have ms: "blen (nm_nlh m) = align4 ?len" "nm_size m = align4 ?len" "nm_refcnt m = 1"
    using mf al2 l wf_msgD(1) [of m] by auto
  have rl: "blen (rd buf off ?len) = ?len" using inside l by (simp add: length_rd)
  let ?n = "m\<lparr>nm_nlh := wr (nm_nlh m) 0 (rd buf off ?len)\<rparr>"
  have copy: "rd (nm_nlh ?n) 0 ?len = rd buf off ?len"
    using rl ms al2 by (simp add: rd_wr_same)
  have "nlh (nm_nlh ?n) 0 = nlh buf off"
    using l inside rd_prefix [OF copy, of 0 4] rd_prefix [OF copy, of 4 2] rd_prefix [OF copy, of 6 2]
      rd_prefix [OF copy, of 8 4] rd_prefix [OF copy, of 12 4]
    by (simp add: nlh_def get16_def get32_def)
  then have hdr: "nlmsg_hdr ?n = nlh buf off" by (simp add: nlmsg_hdr_def)
  have "wf_msg ?n" unfolding wf_msg_def hdr using rl ms al2 l by (simp add: length_wr)
  then show ?thesis using m copy hdr ms al by (simp add: nlmsg_convert_def)
qed

section \<open>Properties\<close>

text \<open>
  \<open>nlmsg_append\<close> on a well-formed message either appends the data, zero-padded to the
  requested alignment, behind the bytes in use and leaves every other byte in use and the
  capacity as they were, or reports \<open>NLE_NOMEM\<close> exactly when the padded data do not fit.
  No byte outside the buffer is written (the buffer keeps its length, part of \<open>wf_msg\<close>).
\<close>

theorem nlmsg_append_spec:
  assumes "wf_msg n" "0 \<le> pad" "pad < 2147483648"
  shows "case nlmsg_append n data pad of
      Inr n' \<Rightarrow> wf_msg n' \<and> nm_size n' = nm_size n \<and>
        mlen n' = mlen n + reserve_tlen (blen data) pad \<and>
        rd (nm_nlh n') 4 (mlen n - 4) = rd (nm_nlh n) 4 (mlen n - 4) \<and>
        rd (nm_nlh n') (mlen n) (mlen n' - mlen n)
          = data @ zeros (reserve_tlen (blen data) pad - blen data)
    | Inl e \<Rightarrow> e = Err NLE_NOMEM \<and> nm_size n < mlen n + reserve_tlen (blen data) pad"
  using nlmsg_append_cases [OF assms, of data] by auto

definition msg32 :: nl_msg where
  "msg32 = the (nlmsg_alloc_size True True 32)"

lemma msg32_simps [simp]:
  "nm_nlh msg32 = 16 # replicate 31 0" "nm_size msg32 = 32" "nm_refcnt msg32 = 1"
  by (simp_all add: msg32_def nlmsg_alloc_size_def nlmsg_alloc_len_def put32_def wr_def zeros_def
      numeral_eq_Suc)

lemma wf_msg32: "wf_msg msg32" "mlen msg32 = 16"
  using nlmsg_alloc_len_wf [of True True 32 msg32]
  by (simp_all add: msg32_def nlmsg_alloc_size_def) (simp_all add: nlmsg_alloc_len_def Let_def)

theorem nlmsg_append_spec_witness:
  "\<exists>n'. nlmsg_append msg32 [1, 2, 3] 4 = Inr n' \<and> wf_msg n' \<and> mlen n' = 20 \<and>
     rd (nm_nlh n') 16 4 = [1, 2, 3, 0]"
  using nlmsg_append_spec [of msg32 4 "[1, 2, 3]"] wf_msg32
  by (auto simp: align4_eq zeros_def nlmsg_append_def nlmsg_reserve_def Let_def u64_def
      split: sum.splits)

text \<open>
  \<open>nlmsg_put\<close> on a well-formed message never trips its \<open>BUG()\<close>. It writes type, flags,
  sequence number and port into the header; with a payload it also reserves the payload,
  padded to four bytes, and leaves the header's length alone and returns \<open>NULL\<close> exactly when
  the payload does not fit. The message stays well formed on every path.
\<close>

theorem nlmsg_put_spec:
  assumes wf: "wf_msg n" and p: "payload < 2147483648"
  shows "\<exists>n' ptr. nlmsg_put n pid seq type payload flags = Inr (n', ptr) \<and> wf_msg n' \<and>
    nm_size n' = nm_size n \<and>
    ptr = (if mlen n + align4 (max 0 payload) \<le> nm_size n then Some 0 else None) \<and>
    nlmsg_hdr n' = \<lparr>nlmsg_len = mlen n + (if ptr = None then 0 else align4 (max 0 payload)),
      nlmsg_type = u16 type, nlmsg_flags = u16 flags, nlmsg_seq = u32 seq, nlmsg_pid = u32 pid\<rparr>"
proof -
  let ?n = "set_hdr_fields n type flags seq pid"
  have b: "16 \<le> blen (nm_nlh n)" using wf_msgD [OF wf] by simp
  note h = nlh_set_hdr_fields [OF b, of type flags seq pid]
  have wf': "wf_msg ?n" by (rule wf_set_hdr_fields [OF wf])
  have m: "mlen ?n = mlen n" "nm_size ?n = nm_size n" by (simp_all add: h) (simp add: set_hdr_fields_def)
  have put: "nlmsg_put n pid seq type payload flags =
      (if payload > 0 then (case nlmsg_reserve ?n payload 4 of None \<Rightarrow> Inr (?n, None)
         | Some (n, _) \<Rightarrow> Inr (n, Some 0)) else Inr (?n, Some 0))"
    using wf_msgD [OF wf] by (simp add: nlmsg_put_def Let_def)
  show ?thesis
  proof (cases "nlmsg_reserve ?n payload 4")
    case None
    then show ?thesis using put wf' m h wf_msgD [OF wf] nlmsg_reserve_None [OF wf', of payload 4]
      by (cases "payload > 0") (auto simp: align4_eq max_def)
  next
    case (Some r)
    obtain n' q where r: "r = (n', q)" by (cases r)
    show ?thesis
    proof (cases "payload > 0")
      case True
      note f = nlmsg_reserve_Some [OF wf' less_imp_le [OF True] _ _ Some [unfolded r], simplified]
      have "rd (nm_nlh n') 4 12 = rd (nm_nlh ?n) 4 12"
        using rd_prefix [OF f(5), of 0 12] wf_msgD [OF wf'] by simp
      then have "nlmsg_hdr n' = (nlmsg_hdr ?n)\<lparr>nlmsg_len := mlen n'\<rparr>"
        unfolding nlmsg_hdr_def by (rule nlh_cong) simp
      moreover have "mlen n + align4 payload \<le> nm_size n"
        using Some nlmsg_reserve_None [OF wf', of payload 4] True m by auto
      ultimately show ?thesis using put True Some r f m h by auto
    qed (use put wf' m h wf_msgD [OF wf] in \<open>auto simp: align4_eq max_def\<close>)
  qed
qed

theorem nlmsg_put_spec_witness:
  "\<exists>n' ptr. nlmsg_put msg32 7 5 24 9 1 = Inr (n', ptr) \<and> ptr = Some 0 \<and>
     nlmsg_hdr n' = \<lparr>nlmsg_len = 28, nlmsg_type = 24, nlmsg_flags = 1, nlmsg_seq = 5, nlmsg_pid = 7\<rparr>"
  using nlmsg_put_spec [of msg32 9 7 5 24 1] wf_msg32 by (auto simp: align4_eq)

text \<open>
  \<open>nlmsg_convert\<close> copies a received message: when memory is available and the message
  \<open>[off, off + nlmsg_len)\<close> lies inside the receive buffer (what \<open>nlmsg_ok\<close> guarantees), the
  new message is well formed, has the same header and holds the same bytes.
\<close>

theorem nlmsg_convert_copies:
  assumes ok: "nlmsg_ok (nlh buf off) rem" and inside: "0 \<le> off" "off + rem \<le> blen buf"
    and small: "rem \<le> STREAM_MAX"
  shows "\<exists>n. nlmsg_convert True True buf off = Some n \<and> wf_msg n \<and> nlmsg_hdr n = nlh buf off \<and>
    rd (nm_nlh n) 0 (mlen n) = rd buf off (nlmsg_len (nlh buf off)) \<and> nm_refcnt n = 1"
  by (rule nlmsg_convert_ok [OF assms])

theorem nlmsg_convert_copies_witness:
  "\<exists>n. nlmsg_convert True True (0 # nm_nlh msg32) 1 = Some n \<and> wf_msg n \<and> mlen n = 16"
proof -
  have g: "get32 (0 # nm_nlh msg32) 1 = 16"
    unfolding msg32_simps by code_simp
  then have "nlmsg_ok (nlh (0 # nm_nlh msg32) 1) 20"
    by (simp add: nlmsg_ok_def)
  from nlmsg_convert_copies [OF this] show ?thesis
    using g by (auto simp: STREAM_MAX_def)
qed

text \<open>
  C13. Walking a receive buffer with \<open>nlmsg_ok\<close> and \<open>nlmsg_next\<close>, as \<open>recvmsgs\<close> does, terminates and visits only
  headers whose whole message lies inside the buffer; the messages do not overlap, and there
  are at most \<open>len / 16\<close> of them, whatever the bytes are.
\<close>

theorem nlmsg_positions_inside:
  assumes "len \<le> STREAM_MAX"
  shows "(\<forall>(p, r) \<in> set (nlmsg_positions buf off len).
      off \<le> p \<and> p + r = off + len \<and> nlmsg_ok (nlh buf p) r \<and>
      p + nlmsg_len (nlh buf p) \<le> off + len) \<and>
    sorted_wrt (\<lambda>(p, r) (q, s). p + nlmsg_len (nlh buf p) \<le> q) (nlmsg_positions buf off len) \<and>
    16 * blen (nlmsg_positions buf off len) \<le> max 0 len"
  using nlmsgs.each_inside [OF assms] nlmsgs.each_ordered [OF assms] nlmsgs.each_count [OF assms]
  by auto

theorem nlmsg_positions_inside_witness:
  "list_all (\<lambda>(p, r). p + nlmsg_len (nlh (nm_nlh msg32) p) \<le> 32) (nlmsg_positions (nm_nlh msg32) 0 32)"
  using nlmsg_positions_inside [of 32 "nm_nlh msg32" 0] by (auto simp: STREAM_MAX_def list_all_iff)

end
