(* ===== verification/Nl_Attr.thy ===== *)
theory Nl_Attr
  imports Nl_Msg
begin

unbundle bit_operations_syntax

text \<open>
  \<open>lib/attr.c\<close>: netlink attributes. An attribute is a 4-byte header (16-bit length, header
  included, and 16-bit type), the payload, and padding to four bytes. A pointer to an
  attribute is the offset of its header in a byte buffer (the buffer of a message, or a
  receive buffer). The second half of the theory relates the code to lists of
  \<open>(type, payload)\<close> pairs: reading a stream decodes such a list, \<open>nla_put\<close> appends to it and
  the nesting functions group its tail.
\<close>

section \<open>Sizes and header access\<close>

definition NLA_ALIGN :: "int \<Rightarrow> int" where
  "NLA_ALIGN len = (len + 4 - 1) AND NOT (4 - 1)"

definition NLA_HDRLEN :: int where
  "NLA_HDRLEN = NLA_ALIGN 4"

definition NLA_F_NESTED :: int where
  "NLA_F_NESTED = push_bit 15 1"

definition NLA_F_NET_BYTEORDER :: int where
  "NLA_F_NET_BYTEORDER = push_bit 14 1"

definition NLA_TYPE_MASK :: int where
  "NLA_TYPE_MASK = NOT (NLA_F_NESTED OR NLA_F_NET_BYTEORDER)"

definition nla_attr_size :: "int \<Rightarrow> int" where
  "nla_attr_size payload = NLA_HDRLEN + payload"

definition nla_total_size :: "int \<Rightarrow> int" where
  "nla_total_size payload = NLA_ALIGN (nla_attr_size payload)"

definition nla_padlen :: "int \<Rightarrow> int" where
  "nla_padlen payload = nla_total_size payload - nla_attr_size payload"

text \<open>The fields of \<open>struct nlattr\<close> at an offset.\<close>

definition nla_len_fld :: "byte list \<Rightarrow> int \<Rightarrow> int" where
  "nla_len_fld buf nla = get16 buf nla"

definition nla_type_fld :: "byte list \<Rightarrow> int \<Rightarrow> int" where
  "nla_type_fld buf nla = get16 buf (nla + 2)"

definition nla_type :: "byte list \<Rightarrow> int \<Rightarrow> int" where
  "nla_type buf nla = nla_type_fld buf nla AND NLA_TYPE_MASK"

definition nla_data :: "int \<Rightarrow> int" where
  "nla_data nla = nla + NLA_HDRLEN"

definition nla_len :: "byte list \<Rightarrow> int \<Rightarrow> int" where
  "nla_len buf nla = nla_len_fld buf nla - NLA_HDRLEN"

definition nla_ok :: "byte list \<Rightarrow> int \<Rightarrow> int \<Rightarrow> bool" where
  "nla_ok buf nla remaining \<longleftrightarrow>
     remaining \<ge> 4 \<and> nla_len_fld buf nla \<ge> 4 \<and> nla_len_fld buf nla \<le> remaining"

definition nla_next :: "byte list \<Rightarrow> int \<Rightarrow> int \<Rightarrow> int \<times> int" where
  "nla_next buf nla remaining =
     (let totlen = NLA_ALIGN (nla_len_fld buf nla) in (nla + totlen, remaining - totlen))"

lemma NLA_ALIGN_eq [simp]: "NLA_ALIGN x = align4 x"
  by (simp add: NLA_ALIGN_def align4_def)

lemma NLA_HDRLEN_eq [simp]: "NLA_HDRLEN = 4"
  by (simp add: NLA_HDRLEN_def align4_eq)

lemma nla_data_eq [simp]: "nla_data nla = nla + 4"
  by (simp add: nla_data_def)

lemma nla_len_fld_ge: "nla_ok buf nla rem \<Longrightarrow> 4 \<le> nla_len_fld buf nla"
  by (simp add: nla_ok_def)

text \<open>\<open>nla_for_each_attr\<close>: the positions the loop visits, with the bytes that remain.\<close>

function nla_for_each :: "byte list \<Rightarrow> int \<Rightarrow> int \<Rightarrow> (int \<times> int) list" where
  "nla_for_each buf pos rem =
     (if nla_ok buf pos rem
      then (pos, rem) # (case nla_next buf pos rem of (pos', rem') \<Rightarrow> nla_for_each buf pos' rem')
      else [])"
  by auto
termination
proof (relation "measure (\<lambda>(buf, pos, rem). nat rem)")
  fix buf pos rem x y
  assume "nla_ok buf pos rem" "(x, y) = nla_next buf pos rem"
  then show "((buf, x, y), buf, pos, rem) \<in> measure (\<lambda>(buf, pos, rem). nat rem)"
    using align4_ge [of "nla_len_fld buf pos"] by (auto simp: nla_ok_def nla_next_def Let_def)
qed simp

declare nla_for_each.simps [simp del]

interpretation nlas: tlv_stream 4 nla_ok nla_len_fld "\<lambda>buf off. align4 (nla_len_fld buf off)"
  nla_for_each
proof
  fix buf buf' :: "byte list" and off off' rem :: int
  show "(0::int) < 4" by simp
  show "nla_for_each buf off rem =
      (if nla_ok buf off rem
       then (off, rem) # nla_for_each buf (off + align4 (nla_len_fld buf off))
          (rem - align4 (nla_len_fld buf off)) else [])"
    by (subst nla_for_each.simps) (simp add: nla_next_def Let_def)
  show "4 \<le> nla_len_fld buf off \<and> nla_len_fld buf off \<le> rem" if "nla_ok buf off rem"
    using that by (simp add: nla_ok_def)
  show "nla_len_fld buf off \<le> align4 (nla_len_fld buf off)"
    by (rule align4_ge)
  assume loc: "0 \<le> off" "0 \<le> off'" "rd buf off rem = rd buf' off' rem"
  have "4 \<le> rem \<Longrightarrow> nla_len_fld buf off = nla_len_fld buf' off'"
    using get_local(1) [OF loc(3,1,2)] by (simp add: nla_len_fld_def)
  then show "nla_ok buf off rem = nla_ok buf' off' rem"
    and "nla_ok buf off rem \<Longrightarrow> align4 (nla_len_fld buf off) = align4 (nla_len_fld buf' off')"
    by (auto simp: nla_ok_def)
qed

section \<open>Validation and parsing\<close>

definition NLA_UNSPEC :: int where "NLA_UNSPEC = 0"
definition NLA_U8 :: int where "NLA_U8 = 1"
definition NLA_U16 :: int where "NLA_U16 = 2"
definition NLA_U32 :: int where "NLA_U32 = 3"
definition NLA_U64 :: int where "NLA_U64 = 4"
definition NLA_STRING :: int where "NLA_STRING = 5"
definition NLA_FLAG :: int where "NLA_FLAG = 6"
definition NLA_NESTED :: int where "NLA_NESTED = 8"
definition NLA_TYPE_MAX :: int where "NLA_TYPE_MAX = 15"

record nla_policy =
  pol_type :: int
  pol_minlen :: int
  pol_maxlen :: int

text \<open>The table has \<open>NLA_TYPE_MAX + 1\<close> entries; those without an initialiser are 0.\<close>

definition nla_attr_minlen :: "int \<Rightarrow> int" where
  "nla_attr_minlen t =
     (if t = NLA_U8 then 1 else if t = NLA_U16 then 2 else if t = NLA_U32 then 4
      else if t = NLA_U64 then 8 else if t = NLA_STRING then 1 else if t = NLA_FLAG then 0 else 0)"

definition validate_nla :: "byte list \<Rightarrow> int \<Rightarrow> int \<Rightarrow> nla_policy list \<Rightarrow> unit res" where
  "validate_nla buf nla maxtype policy =
     (let type = nla_type buf nla in
      if type < 0 \<or> type > maxtype then Inr ()
      else
        let pt = policy ! nat type in
        if pol_type pt > NLA_TYPE_MAX then Inl Bug
        else
          let minlen = (if pol_minlen pt \<noteq> 0 then pol_minlen pt
                        else if pol_type pt \<noteq> NLA_UNSPEC then nla_attr_minlen (pol_type pt)
                        else 0) in
          if u32 (nla_len buf nla) < minlen then Inl (Err NLE_RANGE)
          else if pol_maxlen pt \<noteq> 0 \<and> nla_len buf nla > pol_maxlen pt then Inl (Err NLE_RANGE)
          else if pol_type pt = NLA_STRING \<and>
                  rd buf (nla_data nla + nla_len buf nla - 1) 1 \<noteq> [0] then Inl (Err NLE_INVAL)
          else Inr ())"

text \<open>
  The parser: \<open>tb\<close> is the table of \<open>maxtype + 1\<close> pointers (\<open>None\<close> is \<open>NULL\<close>); it is returned
  on the error path too, as far as it was filled. \<open>policy\<close> is \<open>None\<close> for a null pointer.
\<close>

fun nla_parse_loop ::
  "byte list \<Rightarrow> int \<Rightarrow> nla_policy list option \<Rightarrow> int option list \<Rightarrow> (int \<times> int) list \<Rightarrow>
   int option list \<times> unit res" where
  "nla_parse_loop buf maxtype policy tb [] = (tb, Inr ())"
| "nla_parse_loop buf maxtype policy tb ((nla, rem) # rest) =
     (let type = nla_type buf nla in
      if type > maxtype then nla_parse_loop buf maxtype policy tb rest
      else
        case (case policy of None \<Rightarrow> Inr () | Some p \<Rightarrow> validate_nla buf nla maxtype p) of
          Inl e \<Rightarrow> (tb, Inl e)
        | Inr _ \<Rightarrow> nla_parse_loop buf maxtype policy (tb[nat type := Some nla]) rest)"

definition nla_parse ::
  "int \<Rightarrow> byte list \<Rightarrow> int \<Rightarrow> int \<Rightarrow> nla_policy list option \<Rightarrow> int option list \<times> unit res" where
  "nla_parse maxtype buf head len policy =
     nla_parse_loop buf maxtype policy (replicate (nat (maxtype + 1)) None)
       (nla_for_each buf head len)"

fun nla_validate_loop ::
  "byte list \<Rightarrow> int \<Rightarrow> nla_policy list \<Rightarrow> (int \<times> int) list \<Rightarrow> unit res" where
  "nla_validate_loop buf maxtype policy [] = Inr ()"
| "nla_validate_loop buf maxtype policy ((nla, rem) # rest) =
     (case validate_nla buf nla maxtype policy of
        Inl e \<Rightarrow> Inl e
      | Inr _ \<Rightarrow> nla_validate_loop buf maxtype policy rest)"

definition nla_validate :: "byte list \<Rightarrow> int \<Rightarrow> int \<Rightarrow> int \<Rightarrow> nla_policy list \<Rightarrow> unit res" where
  "nla_validate buf head len maxtype policy =
     nla_validate_loop buf maxtype policy (nla_for_each buf head len)"

fun nla_find_loop :: "byte list \<Rightarrow> int \<Rightarrow> (int \<times> int) list \<Rightarrow> int option" where
  "nla_find_loop buf attrtype [] = None"
| "nla_find_loop buf attrtype ((nla, rem) # rest) =
     (if nla_type buf nla = attrtype then Some nla else nla_find_loop buf attrtype rest)"

definition nla_find :: "byte list \<Rightarrow> int \<Rightarrow> int \<Rightarrow> int \<Rightarrow> int option" where
  "nla_find buf head len attrtype = nla_find_loop buf attrtype (nla_for_each buf head len)"

section \<open>Helpers\<close>

text \<open>The destination after the call, and the return value.\<close>

definition nla_memcpy :: "byte list \<Rightarrow> byte list \<Rightarrow> int option \<Rightarrow> int \<Rightarrow> byte list \<times> int" where
  "nla_memcpy dest buf src count =
     (case src of
        None \<Rightarrow> (dest, 0)
      | Some nla \<Rightarrow>
          (let minlen = min count (nla_len buf nla) in
           (wr dest 0 (rd buf (nla_data nla) minlen), minlen)))"

definition nla_strlcpy :: "byte list \<Rightarrow> byte list \<Rightarrow> int \<Rightarrow> int \<Rightarrow> byte list \<times> int" where
  "nla_strlcpy dst buf nla dstsize =
     (let srclen = u64 (nla_len buf nla);
          src = nla_data nla;
          srclen = (if srclen > 0 \<and> rd buf (src + srclen - 1) 1 = [0] then srclen - 1 else srclen)
      in if dstsize > 0 then
           (let len = (if srclen \<ge> dstsize then dstsize - 1 else srclen)
            in (wr (wr dst 0 (zeros dstsize)) 0 (rd buf src len), srclen))
         else (dst, srclen))"

definition nla_memcmp :: "byte list \<Rightarrow> int \<Rightarrow> byte list \<Rightarrow> int \<Rightarrow> int" where
  "nla_memcmp buf nla data sz =
     (let d = s32 (u64 (nla_len buf nla - sz)) in
      if d = 0 then memcmp (rd buf (nla_data nla) sz) data sz else d)"

definition nla_strcmp :: "byte list \<Rightarrow> int \<Rightarrow> byte list \<Rightarrow> int" where
  "nla_strcmp buf nla str =
     (let len = strlen str + 1;
          d = nla_len buf nla - len in
      if d = 0 then memcmp (rd buf (nla_data nla) len) str len else d)"

section \<open>Building attributes\<close>

definition nla_reserve :: "nl_msg \<Rightarrow> int \<Rightarrow> int \<Rightarrow> (nl_msg \<times> int) option" where
  "nla_reserve msg attrtype attrlen =
     (if attrlen < 0 then None
      else
        let tlen = s32 (u32 (NLMSG_ALIGN (nlmsg_len (nlmsg_hdr msg)) + nla_total_size attrlen)) in
        if u64 tlen > nm_size msg then None
        else
          let nla = nlmsg_tail 0 (nlmsg_hdr msg);
              buf = put16 (nm_nlh msg) (nla + 2) attrtype;
              buf = put16 buf nla (nla_attr_size attrlen);
              buf = (if attrlen \<noteq> 0
                     then wr buf (nla + nla_len_fld buf nla) (zeros (nla_padlen attrlen)) else buf);
              buf = put32 buf 0 tlen
          in Some (msg\<lparr>nm_nlh := buf\<rparr>, nla))"

text \<open>\<open>data\<close> is the block the pointer \<open>data\<close> points to.\<close>

definition nla_put :: "nl_msg \<Rightarrow> int \<Rightarrow> int \<Rightarrow> byte list \<Rightarrow> nl_msg res" where
  "nla_put msg attrtype datalen data =
     (case nla_reserve msg attrtype datalen of
        None \<Rightarrow> if datalen < 0 then Inl (Err NLE_INVAL) else Inl (Err NLE_NOMEM)
      | Some (msg, nla) \<Rightarrow>
          if datalen > 0
          then Inr (msg\<lparr>nm_nlh := wr (nm_nlh msg) (nla_data nla) (rd data 0 datalen)\<rparr>)
          else Inr msg)"

definition nla_put_s8 :: "nl_msg \<Rightarrow> int \<Rightarrow> int \<Rightarrow> nl_msg res" where
  "nla_put_s8 msg attrtype v = nla_put msg attrtype 1 (le_bytes 1 v)"

definition nla_get_s8 :: "byte list \<Rightarrow> int \<Rightarrow> int" where
  "nla_get_s8 buf nla = s8 (le_int (rd buf (nla_data nla) 1))"

definition nla_put_u8 :: "nl_msg \<Rightarrow> int \<Rightarrow> int \<Rightarrow> nl_msg res" where
  "nla_put_u8 msg attrtype v = nla_put msg attrtype 1 (le_bytes 1 v)"

definition nla_get_u8 :: "byte list \<Rightarrow> int \<Rightarrow> int" where
  "nla_get_u8 buf nla = u8 (le_int (rd buf (nla_data nla) 1))"

definition nla_put_s16 :: "nl_msg \<Rightarrow> int \<Rightarrow> int \<Rightarrow> nl_msg res" where
  "nla_put_s16 msg attrtype v = nla_put msg attrtype 2 (le_bytes 2 v)"

definition nla_get_s16 :: "byte list \<Rightarrow> int \<Rightarrow> int" where
  "nla_get_s16 buf nla = s16 (le_int (rd buf (nla_data nla) 2))"

definition nla_put_u16 :: "nl_msg \<Rightarrow> int \<Rightarrow> int \<Rightarrow> nl_msg res" where
  "nla_put_u16 msg attrtype v = nla_put msg attrtype 2 (le_bytes 2 v)"

definition nla_get_u16 :: "byte list \<Rightarrow> int \<Rightarrow> int" where
  "nla_get_u16 buf nla = u16 (le_int (rd buf (nla_data nla) 2))"

definition nla_put_s32 :: "nl_msg \<Rightarrow> int \<Rightarrow> int \<Rightarrow> nl_msg res" where
  "nla_put_s32 msg attrtype v = nla_put msg attrtype 4 (le_bytes 4 v)"

definition nla_get_s32 :: "byte list \<Rightarrow> int \<Rightarrow> int" where
  "nla_get_s32 buf nla = s32 (le_int (rd buf (nla_data nla) 4))"

definition nla_put_u32 :: "nl_msg \<Rightarrow> int \<Rightarrow> int \<Rightarrow> nl_msg res" where
  "nla_put_u32 msg attrtype v = nla_put msg attrtype 4 (le_bytes 4 v)"

definition nla_get_u32 :: "byte list \<Rightarrow> int \<Rightarrow> int" where
  "nla_get_u32 buf nla = u32 (le_int (rd buf (nla_data nla) 4))"

definition nla_put_s64 :: "nl_msg \<Rightarrow> int \<Rightarrow> int \<Rightarrow> nl_msg res" where
  "nla_put_s64 msg attrtype v = nla_put msg attrtype 8 (le_bytes 8 v)"

text \<open>
  The 64-bit getters test the pointer and the length. The comparison is unsigned
  (\<open>sizeof\<close>), so a negative \<open>nla_len\<close> would pass it.
\<close>

definition nla_get_s64 :: "byte list \<Rightarrow> int option \<Rightarrow> int" where
  "nla_get_s64 buf nla =
     (case nla of
        Some p \<Rightarrow> if u64 (nla_len buf p) \<ge> 8 then s64 (le_int (rd buf (nla_data p) 8)) else 0
      | None \<Rightarrow> 0)"

definition nla_put_u64 :: "nl_msg \<Rightarrow> int \<Rightarrow> int \<Rightarrow> nl_msg res" where
  "nla_put_u64 msg attrtype v = nla_put msg attrtype 8 (le_bytes 8 v)"

definition nla_get_u64 :: "byte list \<Rightarrow> int option \<Rightarrow> int" where
  "nla_get_u64 buf nla =
     (case nla of
        Some p \<Rightarrow> if u64 (nla_len buf p) \<ge> 8 then u64 (le_int (rd buf (nla_data p) 8)) else 0
      | None \<Rightarrow> 0)"

definition nla_put_string :: "nl_msg \<Rightarrow> int \<Rightarrow> byte list \<Rightarrow> nl_msg res" where
  "nla_put_string msg attrtype str = nla_put msg attrtype (strlen str + 1) str"

text \<open>The string a caller sees through the returned pointer: up to the first NUL.\<close>

definition nla_get_string :: "byte list \<Rightarrow> int \<Rightarrow> byte list" where
  "nla_get_string buf nla = takeWhile (\<lambda>c. c \<noteq> 0) (drop (nat (nla_data nla)) buf)"

definition nla_strdup :: "bool \<Rightarrow> byte list \<Rightarrow> int \<Rightarrow> byte list option" where
  "nla_strdup a1 buf nla = (if a1 then Some (nla_get_string buf nla @ [0]) else None)"

definition nla_put_flag :: "nl_msg \<Rightarrow> int \<Rightarrow> nl_msg res" where
  "nla_put_flag msg attrtype = nla_put msg attrtype 0 []"

definition nla_get_flag :: "int option \<Rightarrow> bool" where
  "nla_get_flag nla = (nla \<noteq> None)"

definition nla_put_msecs :: "nl_msg \<Rightarrow> int \<Rightarrow> int \<Rightarrow> nl_msg res" where
  "nla_put_msecs n attrtype msecs = nla_put_u64 n attrtype msecs"

definition nla_get_msecs :: "byte list \<Rightarrow> int option \<Rightarrow> int" where
  "nla_get_msecs buf nla = nla_get_u64 buf nla"

section \<open>Nesting\<close>

definition nla_put_nested :: "nl_msg \<Rightarrow> int \<Rightarrow> nl_msg \<Rightarrow> nl_msg res" where
  "nla_put_nested msg attrtype nested =
     nla_put msg attrtype (nlmsg_datalen (nlmsg_hdr nested))
       (drop (nat (nlmsg_data 0)) (nm_nlh nested))"

text \<open>The message afterwards, and the start pointer (\<open>None\<close> is \<open>NULL\<close>).\<close>

definition nla_nest_start :: "nl_msg \<Rightarrow> int \<Rightarrow> nl_msg \<times> int option" where
  "nla_nest_start msg attrtype =
     (let start = nlmsg_tail 0 (nlmsg_hdr msg) in
      case nla_put msg (NLA_F_NESTED OR attrtype) 0 [] of
        Inl _ \<Rightarrow> (msg, None)
      | Inr msg \<Rightarrow> (msg, Some start))"

definition nla_nest_cancel :: "nl_msg \<Rightarrow> int \<Rightarrow> nl_msg res" where
  "nla_nest_cancel msg attr =
     (let len = nlmsg_tail 0 (nlmsg_hdr msg) - attr in
      if len < 0 then Inl Bug
      else if len > 0 then
        (let msg = set_nlmsg_len (u32 (nlmsg_len (nlmsg_hdr msg) - len)) msg in
         Inr (msg\<lparr>nm_nlh := wr (nm_nlh msg) (nlmsg_tail 0 (nlmsg_hdr msg)) (zeros len)\<rparr>))
      else Inr msg)"

text \<open>\<open>USHRT_MAX = 65535\<close>. The message is returned with the return code, because the error
  path changes it.\<close>

definition nest_end :: "nl_msg \<Rightarrow> int \<Rightarrow> bool \<Rightarrow> (nl_msg \<times> unit res) res" where
  "nest_end msg start keep_empty =
     (let len = u64 (nlmsg_tail 0 (nlmsg_hdr msg) - start) in
      if len > 65535 \<or> (\<not> keep_empty \<and> len = NLA_HDRLEN) then
        (case nla_nest_cancel msg start of
           Inl e \<Rightarrow> Inl e
         | Inr msg \<Rightarrow> Inr (msg, if len = NLA_HDRLEN then Inr () else Inl (Err NLE_ATTRSIZE)))
      else
        let msg = msg\<lparr>nm_nlh := put16 (nm_nlh msg) start len\<rparr>;
            pad = u32 (NLMSG_ALIGN (nlmsg_len (nlmsg_hdr msg)) - nlmsg_len (nlmsg_hdr msg)) in
        if pad > 0 then
          (case nlmsg_reserve msg pad 0 of
             None \<Rightarrow> Inl Bug
           | Some (msg, _) \<Rightarrow> Inr (msg, Inr ()))
        else Inr (msg, Inr ()))"

definition nla_nest_end :: "nl_msg \<Rightarrow> int \<Rightarrow> (nl_msg \<times> unit res) res" where
  "nla_nest_end msg start = nest_end msg start False"

definition nla_nest_end_keep_empty :: "nl_msg \<Rightarrow> int \<Rightarrow> (nl_msg \<times> unit res) res" where
  "nla_nest_end_keep_empty msg start = nest_end msg start True"

definition nla_parse_nested ::
  "int \<Rightarrow> byte list \<Rightarrow> int \<Rightarrow> nla_policy list option \<Rightarrow> int option list \<times> unit res" where
  "nla_parse_nested maxtype buf nla policy =
     nla_parse maxtype buf (nla_data nla) (nla_len buf nla) policy"

definition nla_is_nested :: "byte list \<Rightarrow> int \<Rightarrow> bool" where
  "nla_is_nested buf attr \<longleftrightarrow> nla_type_fld buf attr AND NLA_F_NESTED \<noteq> 0"

section \<open>Attributes of a message (\<open>lib/msg.c\<close>)\<close>

text \<open>When the header is too short the table is not touched (\<open>None\<close>).\<close>

definition nlmsg_parse ::
  "byte list \<Rightarrow> int \<Rightarrow> int \<Rightarrow> int \<Rightarrow> nla_policy list option \<Rightarrow> int option list option \<times> unit res" where
  "nlmsg_parse buf off hdrlen maxtype policy =
     (if \<not> nlmsg_valid_hdr (nlh buf off) hdrlen then (None, Inl (Err NLE_MSG_TOOSHORT))
      else
        case nla_parse maxtype buf (nlmsg_attrdata off hdrlen)
               (nlmsg_attrlen (nlh buf off) hdrlen) policy of
          (tb, r) \<Rightarrow> (Some tb, r))"

definition nlmsg_find_attr :: "byte list \<Rightarrow> int \<Rightarrow> int \<Rightarrow> int \<Rightarrow> int option" where
  "nlmsg_find_attr buf off hdrlen attrtype =
     nla_find buf (nlmsg_attrdata off hdrlen) (nlmsg_attrlen (nlh buf off) hdrlen) attrtype"

definition nlmsg_validate :: "byte list \<Rightarrow> int \<Rightarrow> int \<Rightarrow> int \<Rightarrow> nla_policy list \<Rightarrow> unit res" where
  "nlmsg_validate buf off hdrlen maxtype policy =
     (if \<not> nlmsg_valid_hdr (nlh buf off) hdrlen then Inl (Err NLE_MSG_TOOSHORT)
      else nla_validate buf (nlmsg_attrdata off hdrlen) (nlmsg_attrlen (nlh buf off) hdrlen)
             maxtype policy)"

section \<open>Lemmas on validation and parsing\<close>

lemma nla_type_eq: "nla_type buf nla = nla_type_fld buf nla mod 16384"
proof -
  let ?x = "nla_type_fld buf nla"
  have x: "take_bit 16 ?x = ?x" by (simp add: take_bit_eq_mod nla_type_fld_def)
  have "?x AND NLA_TYPE_MASK = take_bit 16 ?x AND NOT 49152"
    unfolding x by (simp add: NLA_TYPE_MASK_def NLA_F_NESTED_def NLA_F_NET_BYTEORDER_def)
  also have "\<dots> = take_bit 16 ?x AND take_bit 16 (NOT 49152)"
    by (rule and_take_bit)
  also have "take_bit 16 (NOT 49152 :: int) = mask 14"
    by (simp add: take_bit_eq_mod mask_eq_exp_minus_1)
  finally show ?thesis unfolding nla_type_def x by (simp add: take_bit_eq_mask [symmetric] take_bit_eq_mod)
qed

lemma nla_type_range [simp]: "0 \<le> nla_type buf nla" "nla_type buf nla < 16384"
  by (simp_all add: nla_type_eq)

lemma nla_attr_minlen_nonneg [simp]: "0 \<le> nla_attr_minlen t"
  by (simp add: nla_attr_minlen_def)

text \<open>What a validated attribute guarantees, in terms of its policy entry.\<close>

definition policy_ok :: "byte list \<Rightarrow> int \<Rightarrow> nla_policy \<Rightarrow> bool" where
  "policy_ok buf nla pt \<longleftrightarrow>
     (let l = nla_len buf nla in
      (if pol_minlen pt \<noteq> 0 then pol_minlen pt else nla_attr_minlen (pol_type pt)) \<le> l \<and>
      (pol_maxlen pt = 0 \<or> l \<le> pol_maxlen pt) \<and>
      (pol_type pt = NLA_STRING \<longrightarrow> rd buf (nla_data nla + l - 1) 1 = [0]))"

lemma validate_nla_policy_ok:
  assumes "nla_ok buf nla rem" "nla_type buf nla \<le> maxtype"
  shows "validate_nla buf nla maxtype policy = Inr () \<longleftrightarrow>
    pol_type (policy ! nat (nla_type buf nla)) \<le> NLA_TYPE_MAX \<and>
    policy_ok buf nla (policy ! nat (nla_type buf nla))"
proof -
  have "0 \<le> nla_len buf nla" "nla_len buf nla < 65536"
    using assms(1) less_trans [OF get16_range(2) [of buf nla], of 65540]
    by (simp_all add: nla_len_def nla_ok_def nla_len_fld_def)
  then have u: "u32 (nla_len buf nla) = nla_len buf nla" by simp
  have m: "(if pol_minlen pt \<noteq> 0 then pol_minlen pt
      else if pol_type pt \<noteq> NLA_UNSPEC then nla_attr_minlen (pol_type pt) else 0) =
      (if pol_minlen pt \<noteq> 0 then pol_minlen pt else nla_attr_minlen (pol_type pt))" for pt :: nla_policy
    by (simp add: nla_attr_minlen_def NLA_UNSPEC_def NLA_U8_def NLA_U16_def NLA_U32_def
        NLA_U64_def NLA_STRING_def)
  have t: "\<not> (nla_type buf nla < 0 \<or> maxtype < nla_type buf nla)"
    using assms(2) nla_type_range(1) [of buf nla] by linarith
  show ?thesis
    unfolding validate_nla_def policy_ok_def Let_def u m if_not_P [OF t]
    by (simp add: not_less not_le)
qed

lemma validate_nla_no_bug:
  assumes "\<forall>pt \<in> set policy. pol_type pt \<le> NLA_TYPE_MAX" "maxtype < blen policy"
  shows "validate_nla buf nla maxtype policy \<noteq> Inl Bug"
proof (cases "nla_type buf nla \<le> maxtype")
  case True
  then have "policy ! nat (nla_type buf nla) \<in> set policy"
    using assms(2) nla_type_range(1) [of buf nla] by (intro nth_mem) linarith
  then show ?thesis using assms(1) by (auto simp: validate_nla_def Let_def)
qed (simp add: validate_nla_def)

text \<open>
  A reference definition of the parse. The attributes that matter are those of a known
  type; each is checked against the policy. The table gets those before the first failure,
  later ones of a type replacing earlier ones; the failure is the result.
\<close>

definition nla_check :: "byte list \<Rightarrow> int \<Rightarrow> nla_policy list option \<Rightarrow> int \<Rightarrow> unit res" where
  "nla_check buf maxtype policy nla =
     (case policy of None \<Rightarrow> Inr () | Some p \<Rightarrow> validate_nla buf nla maxtype p)"

definition nla_known :: "byte list \<Rightarrow> int \<Rightarrow> (int \<times> int) list \<Rightarrow> int list" where
  "nla_known buf maxtype ps = filter (\<lambda>p. nla_type buf p \<le> maxtype) (map fst ps)"

definition nla_last :: "byte list \<Rightarrow> int list \<Rightarrow> nat \<Rightarrow> int option" where
  "nla_last buf ps t = List.find (\<lambda>p. nla_type buf p = int t) (rev ps)"

lemma nla_parse_loop_eq:
  "nla_parse_loop buf maxtype policy tb ps =
     (let ok = (\<lambda>p. nla_check buf maxtype policy p = Inr ());
          known = nla_known buf maxtype ps in
      (fold (\<lambda>p tb. tb[nat (nla_type buf p) := Some p]) (takeWhile ok known) tb,
       case dropWhile ok known of [] \<Rightarrow> Inr () | p # _ \<Rightarrow> nla_check buf maxtype policy p))"
  by (induction buf maxtype policy tb ps rule: nla_parse_loop.induct)
    (auto simp: Let_def nla_known_def nla_check_def split: sum.splits option.splits)

lemma find_append: "List.find P (xs @ ys) = (case List.find P xs of None \<Rightarrow> List.find P ys | r \<Rightarrow> r)"
  by (induction xs) auto

lemma fold_update_nth:
  assumes "t < length tb"
  shows "fold (\<lambda>p tb. tb[nat (nla_type buf p) := Some p]) ps tb ! t =
    (case nla_last buf ps t of None \<Rightarrow> tb ! t | q \<Rightarrow> q)"
  using assms
proof (induction ps arbitrary: tb)
  case (Cons p ps)
  have "nat (nla_type buf p) = t \<longleftrightarrow> nla_type buf p = int t"
    using nla_type_range(1) [of buf p] by linarith
  then show ?case using Cons
    by (auto simp: nla_last_def find_append nth_list_update split: option.splits)
qed (simp add: nla_last_def)

lemma length_fold_update [simp]:
  "length (fold (\<lambda>p tb. tb[f p := g p]) ps tb) = length tb"
  by (induction ps arbitrary: tb) auto

text \<open>A successful parse: all known attributes pass, and the table holds the last of each type.\<close>

lemma nla_parse_loop_Inr:
  assumes "nla_parse_loop buf maxtype policy tb ps = (tb', Inr ())"
  shows "\<forall>p \<in> set (nla_known buf maxtype ps). nla_check buf maxtype policy p = Inr ()"
    and "length tb' = length tb"
    and "t < length tb \<Longrightarrow> tb' ! t = (case nla_last buf (nla_known buf maxtype ps) t of
        None \<Rightarrow> tb ! t | q \<Rightarrow> q)"
proof -
  let ?ok = "\<lambda>p. nla_check buf maxtype policy p = Inr ()"
  let ?k = "nla_known buf maxtype ps"
  have d: "dropWhile ?ok ?k = []"
    using assms hd_dropWhile [of ?ok ?k] by (auto simp: nla_parse_loop_eq Let_def split: list.splits)
  then show all: "\<forall>p \<in> set ?k. ?ok p" by (simp add: dropWhile_eq_Nil_conv)
  then have t: "takeWhile ?ok ?k = ?k" by (simp only: takeWhile_eq_all_conv)
  have tb': "tb' = fold (\<lambda>p tb. tb[nat (nla_type buf p) := Some p]) ?k tb"
    using assms unfolding nla_parse_loop_eq Let_def t by simp
  show "length tb' = length tb" by (simp add: tb')
  show "t < length tb \<Longrightarrow> tb' ! t = (case nla_last buf ?k t of None \<Rightarrow> tb ! t | q \<Rightarrow> q)"
    by (simp add: tb' fold_update_nth)
qed

lemma nla_last_known:
  "int t \<le> maxtype \<Longrightarrow> nla_last buf (nla_known buf maxtype ps) t = nla_last buf (map fst ps) t"
  by (induction ps) (auto simp: nla_last_def nla_known_def find_append split: option.splits)

lemma nla_last_SomeD:
  "nla_last buf ps t = Some p \<Longrightarrow> p \<in> set ps \<and> nla_type buf p = int t"
  unfolding nla_last_def by (auto simp: find_Some_iff) (metis nth_mem set_rev length_rev)

lemma nla_find_loop_eq: "nla_find_loop buf t ps = List.find (\<lambda>p. nla_type buf p = t) (map fst ps)"
  by (induction buf t ps rule: nla_find_loop.induct) auto

section \<open>Attribute lists and their encoding\<close>

text \<open>The specification side: an attribute is a pair of its 16-bit type field and its payload.\<close>

type_synonym attr = "int \<times> byte list"

definition attr_bytes :: "attr \<Rightarrow> byte list" where
  "attr_bytes a = le_bytes 2 (4 + blen (snd a)) @ le_bytes 2 (fst a) @ snd a @
     zeros (align4 (blen (snd a)) - blen (snd a))"

definition attrs_bytes :: "attr list \<Rightarrow> byte list" where
  "attrs_bytes as = concat (map attr_bytes as)"

definition attr_fits :: "attr \<Rightarrow> bool" where
  "attr_fits a \<longleftrightarrow> 0 \<le> fst a \<and> fst a < 65536 \<and> blen (snd a) \<le> 65531"

text \<open>The list of attributes the loop \<open>nla_for_each_attr\<close> sees.\<close>

definition nla_list :: "byte list \<Rightarrow> int \<Rightarrow> int \<Rightarrow> attr list" where
  "nla_list buf off len =
     map (\<lambda>(p, _). (nla_type_fld buf p, rd buf (nla_data p) (nla_len buf p)))
       (nla_for_each buf off len)"

lemma attrs_bytes_simps [simp]:
  "attrs_bytes [] = []" "attrs_bytes (a # as) = attr_bytes a @ attrs_bytes as"
  "attrs_bytes (as @ bs) = attrs_bytes as @ attrs_bytes bs"
  by (simp_all add: attrs_bytes_def)

lemma blen_attr_bytes [simp]: "blen (attr_bytes a) = 4 + align4 (blen (snd a))"
  using align4_ge [of "blen (snd a)"] by (simp add: attr_bytes_def)

lemma blen_attrs_mod [simp]: "blen (attrs_bytes as) mod 4 = 0"
proof (induction as)
  case (Cons a as)
  then show ?case using align4_mod [of "blen (snd a)"]
    unfolding attrs_bytes_simps length_append of_nat_add blen_attr_bytes by presburger
qed simp

lemma align4_4: "align4 (4 + x) = 4 + align4 x"
  by (rule align4_add) simp

text \<open>One encoded attribute at an offset of a buffer, read back by the code's accessors.\<close>

lemma attr_bytes_read:
  assumes at: "rd buf off (blen (attr_bytes (t, d))) = attr_bytes (t, d)"
    and fits: "attr_fits (t, d)" and off: "0 \<le> off"
  shows "nla_len_fld buf off = 4 + blen d" "nla_type_fld buf off = t" "rd buf (off + 4) (blen d) = d"
proof -
  let ?bs = "attr_bytes (t, d)"
  have sub: "rd buf (off + a) m = rd ?bs a m" if "0 \<le> a" "a + m \<le> blen ?bs" for a m
    using rd_rd [OF off that(1,2), of buf] at by simp
  note al = align4_ge [of "blen d"]
  have "rd buf off 2 = rd ?bs 0 2" "rd buf (off + 2) 2 = rd ?bs 2 2"
    using sub [of 0 2] sub [of 2 2] al by simp_all
  moreover have "rd ?bs 0 2 = le_bytes 2 (4 + blen d)" "rd ?bs 2 2 = le_bytes 2 t"
    by (simp_all add: attr_bytes_def rd_def)
  ultimately show "nla_len_fld buf off = 4 + blen d" "nla_type_fld buf off = t"
    using fits by (simp_all add: nla_len_fld_def nla_type_fld_def get16_def le_int_bytes attr_fits_def)
  have "rd ?bs 4 (blen d) = d" by (simp add: attr_bytes_def rd_def)
  then show "rd buf (off + 4) (blen d) = d" using sub [of 4 "blen d"] al by simp
qed

text \<open>Decoding inverts encoding.\<close>

lemma nla_list_attrs_bytes:
  assumes "rd buf off (blen (attrs_bytes as)) = attrs_bytes as" "\<forall>a \<in> set as. attr_fits a"
    "0 \<le> off" "blen (attrs_bytes as) \<le> STREAM_MAX"
  shows "nla_list buf off (blen (attrs_bytes as)) = as"
  using assms
proof (induction as arbitrary: off)
  case Nil
  then show ?case by (simp add: nla_list_def nlas.each_stop nla_ok_def)
next
  case (Cons a as)
  obtain t d where a: "a = (t, d)" by (cases a)
  let ?l = "blen (attr_bytes a)" and ?r = "blen (attrs_bytes as)"
  have here: "rd buf off ?l = attr_bytes a" and rest: "rd buf (off + ?l) ?r = attrs_bytes as"
    using Cons.prems(1) rd_append_iff [OF Cons.prems(3), of buf "attr_bytes a" "attrs_bytes as"]
    by simp_all
  note r = attr_bytes_read [OF here [unfolded a] _ Cons.prems(3)]
  have fits: "attr_fits (t, d)" using Cons.prems(2) a by simp
  have ok: "nla_ok buf off (?l + ?r)" and tot: "align4 (nla_len_fld buf off) = ?l"
    using r(1) [OF fits] align4_ge [of "blen d"] by (simp_all add: nla_ok_def a align4_4)
  have "nla_list buf (off + ?l) ?r = as"
    using Cons.IH [OF rest] Cons.prems align4_ge [of "blen (snd a)"] by auto
  then show ?case
    using Cons.prems(4) nlas.each_step [OF _ ok] tot r(2,3) [OF fits] r(1) [OF fits]
    by (simp add: nla_list_def nla_len_def a)
qed

section \<open>Appending attributes\<close>

text \<open>\<open>nla_reserve\<close> without its width conversions.\<close>

lemma nla_reserve_eq:
  assumes wf: "wf_msg n" and l: "0 \<le> l" "l \<le> 65531" and al: "mlen n mod 4 = 0"
  shows "nla_reserve n t l =
    (let a = mlen n; tlen = a + 4 + align4 l in
     if tlen > nm_size n then None
     else Some (n\<lparr>nm_nlh := put32 (wr (put16 (put16 (nm_nlh n) (a + 2) t) a (4 + l))
        (a + (4 + l)) (zeros (align4 l - l))) 0 tlen\<rparr>, a))"
proof -
  note b = wf_msgD [OF wf] align4_ge [of l] align4_lt [of l]
  let ?a = "mlen n" and ?t = "mlen n + 4 + align4 l"
  have a: "NLMSG_ALIGN ?a = ?a" using b al by (simp add: NLMSG_ALIGN_eq align4_id)
  have tot: "nla_total_size l = 4 + align4 l" "nla_padlen l = align4 l - l" "nla_attr_size l = 4 + l"
    by (simp_all add: nla_total_size_def nla_padlen_def nla_attr_size_def align4_4)
  have t: "u32 (NLMSG_ALIGN ?a + nla_total_size l) = ?t" using b l by (simp add: a tot)
  show ?thesis
  proof (cases "?t > nm_size n")
    case True
    have "u64 (s32 ?t) > nm_size n"
    proof (cases "?t < 2147483648")
      case False
      then have "s32 ?t = ?t - 4294967296"
        using b l by (intro s32_wrap) auto
      then show ?thesis using b l False by (simp add: u64_neg)
    qed (use True b l in simp)
    then show ?thesis using True l by (simp add: nla_reserve_def t Let_def)
  next
    case False
    then have s: "s32 ?t = ?t" "u64 ?t = ?t" using b l by simp_all
    have f: "nla_len_fld (put16 (put16 (nm_nlh n) (?a + 2) t) ?a (4 + l)) ?a = 4 + l"
      using False b l by (simp add: nla_len_fld_def mem_simps)
    have "l = 0 \<Longrightarrow> zeros (align4 l - l) = []" by (simp add: align4_eq)
    then show ?thesis using False s l f b
      by (auto simp: nla_reserve_def t Let_def tot nlmsg_tail_def a add.assoc)
  qed
qed

text \<open>The bytes of an attribute after the five writes \<open>nla_put\<close> makes.\<close>

lemma attr_written:
  assumes l_def: "l = blen d" and a: "16 \<le> a" "a + 4 + align4 l \<le> blen buf"
    and buf'_def: "buf' = wr (put32 (wr (put16 (put16 buf (a + 2) t) a (4 + l))
      (a + (4 + l)) (zeros (align4 l - l))) 0 tlen) (a + 4) d"
  shows "rd buf' a (blen (attr_bytes (u16 t, d))) = attr_bytes (u16 t, d)"
    "length buf' = length buf" "get32 buf' 0 = u32 tlen" "rd buf' 4 (a - 4) = rd buf 4 (a - 4)"
proof -
  have b: "0 \<le> l" "l \<le> align4 l" using align4_ge [of l] by (auto simp: l_def)
  show len: "length buf' = length buf" using a b by (simp add: buf'_def l_def mem_simps)
  show "get32 buf' 0 = u32 tlen" "rd buf' 4 (a - 4) = rd buf 4 (a - 4)"
    using a b by (simp_all add: buf'_def l_def mem_simps)
  have 1: "rd buf' a 2 = le_bytes 2 (4 + l)" "rd buf' (a + 2) 2 = le_bytes 2 t"
    "rd buf' (a + 4) l = d" "rd buf' (a + 4 + l) (align4 l - l) = zeros (align4 l - l)"
    using a b by (simp_all add: buf'_def l_def mem_simps add.assoc)
      (simp_all add: put16_def mem_simps add.assoc)
  have "rd buf' a (4 + align4 l) = rd buf' a 2 @ rd buf' (a + 2) 2 @ rd buf' (a + 4) l @
      rd buf' (a + 4 + l) (align4 l - l)"
    using a b rd_split [of a 2 "2 + align4 l" buf'] rd_split [of "a + 2" 2 "align4 l" buf']
      rd_split [of "a + 4" l "align4 l - l" buf'] by (simp add: algebra_simps)
  then show "rd buf' a (blen (attr_bytes (u16 t, d))) = attr_bytes (u16 t, d)"
    unfolding blen_attr_bytes by (simp add: 1 attr_bytes_def l_def [symmetric])
qed

definition fits_room :: "nl_msg \<Rightarrow> int \<Rightarrow> bool" where
  "fits_room n l \<longleftrightarrow> mlen n + 4 + align4 l \<le> nm_size n"

lemma nla_put_cases:
  assumes wf: "wf_msg n" and l: "blen d \<le> 65531" and al: "mlen n mod 4 = 0"
  shows "(\<exists>n'. nla_put n t (blen d) d = Inr n' \<and> fits_room n (blen d) \<and> wf_msg n' \<and>
        nm_size n' = nm_size n \<and> mlen n' = mlen n + 4 + align4 (blen d) \<and>
        rd (nm_nlh n') 4 (mlen n - 4) = rd (nm_nlh n) 4 (mlen n - 4) \<and>
        rd (nm_nlh n') (mlen n) (mlen n' - mlen n) = attr_bytes (u16 t, d))
    \<or> (nla_put n t (blen d) d = Inl (Err NLE_NOMEM) \<and> \<not> fits_room n (blen d))"
proof (cases "fits_room n (blen d)")
  case False
  then show ?thesis using nla_reserve_eq [OF wf _ l al, of t]
    by (simp add: nla_put_def fits_room_def Let_def)
next
  case True
  note b = wf_msgD [OF wf]
  let ?a = "mlen n" and ?l = "blen d"
  let ?tlen = "?a + 4 + align4 ?l"
  let ?b1 = "put32 (wr (put16 (put16 (nm_nlh n) (?a + 2) t) ?a (4 + ?l))
      (?a + (4 + ?l)) (zeros (align4 ?l - ?l))) 0 ?tlen"
  let ?b2 = "wr ?b1 (?a + 4) d"
  have "nla_reserve n t ?l = Some (n\<lparr>nm_nlh := ?b1\<rparr>, ?a)"
    using True nla_reserve_eq [OF wf _ l al, of t] by (simp add: fits_room_def Let_def)
  then have put: "nla_put n t ?l d = Inr (n\<lparr>nm_nlh := ?b2\<rparr>)"
    by (cases "d = []") (simp_all add: nla_put_def)
  note w = attr_written [OF refl, of ?a d "nm_nlh n" ?b2 t ?tlen]
  have room: "?a + 4 + align4 ?l \<le> nm_size n" using True by (simp add: fits_room_def)
  have m: "mlen (n\<lparr>nm_nlh := ?b2\<rparr>) = ?tlen"
    using w(3) b room by (simp add: nlmsg_hdr_def)
  then have "wf_msg (n\<lparr>nm_nlh := ?b2\<rparr>)"
    using w(2) b room align4_ge [of ?l] by (simp add: wf_msg_def)
  then show ?thesis using put m w(1,4) b room True by (simp add: add.assoc)
qed

text \<open>
  The abstraction: behind the headers (\<open>hl\<close> bytes) the bytes in use are the encoding of a
  list of attributes.
\<close>

definition has_attrs :: "nl_msg \<Rightarrow> int \<Rightarrow> attr list \<Rightarrow> bool" where
  "has_attrs n hl as \<longleftrightarrow> wf_msg n \<and> 16 \<le> hl \<and> hl mod 4 = 0 \<and>
     mlen n = hl + blen (attrs_bytes as) \<and>
     rd (nm_nlh n) hl (blen (attrs_bytes as)) = attrs_bytes as \<and> (\<forall>a \<in> set as. attr_fits a)"

lemma has_attrsD:
  assumes "has_attrs n hl as"
  shows "wf_msg n" "16 \<le> hl" "hl mod 4 = 0" "mlen n = hl + blen (attrs_bytes as)"
    "rd (nm_nlh n) hl (blen (attrs_bytes as)) = attrs_bytes as" "\<forall>a \<in> set as. attr_fits a"
    "mlen n mod 4 = 0"
proof -
  show *: "wf_msg n" "16 \<le> hl" "hl mod 4 = 0" "mlen n = hl + blen (attrs_bytes as)"
    "rd (nm_nlh n) hl (blen (attrs_bytes as)) = attrs_bytes as" "\<forall>a \<in> set as. attr_fits a"
    using assms by (auto simp: has_attrs_def)
  show "mlen n mod 4 = 0" unfolding *(4) using *(3) blen_attrs_mod [of as] by presburger
qed

text \<open>A message that keeps its bytes in use and gains an encoded attribute.\<close>

lemma has_attrs_snoc:
  assumes h: "has_attrs n hl as" and wf': "wf_msg n'" and fits: "attr_fits a"
    and len: "mlen n' = mlen n + blen (attr_bytes a)"
    and old: "rd (nm_nlh n') 4 (mlen n - 4) = rd (nm_nlh n) 4 (mlen n - 4)"
    and new: "rd (nm_nlh n') (mlen n) (blen (attr_bytes a)) = attr_bytes a"
  shows "has_attrs n' hl (as @ [a])"
proof -
  note d = has_attrsD [OF h]
  have "rd (nm_nlh n') hl (blen (attrs_bytes as)) = attrs_bytes as"
    using rd_inside [OF old, of hl "blen (attrs_bytes as)"] d by simp
  moreover have "rd (nm_nlh n') (hl + blen (attrs_bytes as)) (blen (attr_bytes a)) = attr_bytes a"
    using new d by simp
  ultimately have "rd (nm_nlh n') hl (blen (attrs_bytes (as @ [a]))) = attrs_bytes (as @ [a])"
    using rd_append_iff [of hl "nm_nlh n'" "attrs_bytes as" "attr_bytes a"] d by simp
  then show ?thesis using d wf' fits len by (auto simp: has_attrs_def)
qed

lemma nla_put_refines:
  assumes h: "has_attrs n hl as" and l: "blen d \<le> 65531"
  shows "(\<exists>n'. nla_put n t (blen d) d = Inr n' \<and> has_attrs n' hl (as @ [(u16 t, d)]) \<and>
        nm_size n' = nm_size n \<and> rd (nm_nlh n') 4 (hl - 4) = rd (nm_nlh n) 4 (hl - 4) \<and>
        fits_room n (blen d))
    \<or> (nla_put n t (blen d) d = Inl (Err NLE_NOMEM) \<and> \<not> fits_room n (blen d))"
  using nla_put_cases [OF has_attrsD(1) [OF h] l has_attrsD(7) [OF h], of t]
proof (elim disjE exE conjE)
  fix n'
  assume p: "nla_put n t (blen d) d = Inr n'" "fits_room n (blen d)" "wf_msg n'"
    "nm_size n' = nm_size n" "mlen n' = mlen n + 4 + align4 (blen d)"
    "rd (nm_nlh n') 4 (mlen n - 4) = rd (nm_nlh n) 4 (mlen n - 4)"
    "rd (nm_nlh n') (mlen n) (mlen n' - mlen n) = attr_bytes (u16 t, d)"
  have "has_attrs n' hl (as @ [(u16 t, d)])"
    using has_attrs_snoc [OF h p(3) _ _ p(6), of "(u16 t, d)"] p(5,7) l
    by (simp add: attr_fits_def add.assoc)
  moreover have "rd (nm_nlh n') 4 (hl - 4) = rd (nm_nlh n) 4 (hl - 4)"
    using rd_inside [OF p(6), of 4 "hl - 4"] has_attrsD(4) [OF h] by simp
  ultimately show ?thesis using p by auto
qed auto

text \<open>The attributes of such a message are what the parser's loop sees.\<close>

lemma nla_list_has_attrs:
  assumes "has_attrs n hl as"
  shows "nla_list (nm_nlh n) hl (mlen n - hl) = as"
proof -
  note d = has_attrsD [OF assms]
  have m: "mlen n mod 4 = 0" by (rule d(7))
  have "mlen n \<le> nm_size n" "nm_size n < 2147483648" using wf_msgD [OF d(1)] by auto
  then have "mlen n \<le> 2147483647" by simp
  then have "mlen n \<le> STREAM_MAX" using m unfolding STREAM_MAX_def by presburger
  then show ?thesis using nla_list_attrs_bytes [OF d(5,6)] d(2,4) by simp
qed

section \<open>Nesting\<close>

lemma nested_type: "0 \<le> t \<Longrightarrow> t < 32768 \<Longrightarrow> u16 (NLA_F_NESTED OR t) = 32768 + t"
proof -
  assume t: "0 \<le> t" "t < 32768"
  have "bit (32768::int) n \<longleftrightarrow> n = 15" for n using bit_exp_iff [of 15 n, where ?'a = int] by simp
  moreover have "\<not> bit t 15" using t by (simp add: bit_iff_odd)
  ultimately have "(32768::int) + t = 32768 OR t"
    by (intro disjunctive_add) auto
  then show ?thesis using t by (simp add: NLA_F_NESTED_def)
qed

lemma nla_nest_start_refines:
  assumes h: "has_attrs n hl as"
  shows "(\<exists>n'. nla_nest_start n t = (n', Some (mlen n)) \<and>
        has_attrs n' hl (as @ [(u16 (NLA_F_NESTED OR t), [])]) \<and> nm_size n' = nm_size n)
    \<or> (nla_nest_start n t = (n, None) \<and> \<not> fits_room n 0)"
proof -
  have "nlmsg_tail 0 (nlmsg_hdr n) = mlen n"
    using has_attrsD [OF h] wf_msgD [of n] by (simp add: nlmsg_tail_def NLMSG_ALIGN_eq align4_id)
  then show ?thesis
    using nla_put_refines [OF h, of "[]" "NLA_F_NESTED OR t"]
    by (auto simp: nla_nest_start_def)
qed

lemma tail_aligned:
  "wf_msg n \<Longrightarrow> mlen n mod 4 = 0 \<Longrightarrow> nlmsg_tail 0 (nlmsg_hdr n) = mlen n"
  using wf_msgD [of n] by (simp add: nlmsg_tail_def NLMSG_ALIGN_eq align4_id)

text \<open>Cancelling drops everything from the start of the nest.\<close>

lemma nla_nest_cancel_eq:
  assumes h: "has_attrs n hl (as @ bs)" and s: "start = hl + blen (attrs_bytes as)"
  shows "\<exists>n'. nla_nest_cancel n start = Inr n' \<and> has_attrs n' hl as \<and> nm_size n' = nm_size n \<and>
    rd (nm_nlh n') start (blen (attrs_bytes bs)) = zeros (blen (attrs_bytes bs))"
proof -
  note d = has_attrsD [OF h] and b = wf_msgD [OF has_attrsD(1) [OF h]]
  let ?l = "blen (attrs_bytes bs)"
  have t: "nlmsg_tail 0 (nlmsg_hdr n) = mlen n" using d by (intro tail_aligned)
  have len: "mlen n - start = ?l" using d(4) by (simp add: s)
  have s4: "start mod 4 = 0" using d(3) blen_attrs_mod [of as] unfolding s by presburger
  have old: "rd (nm_nlh n) hl (blen (attrs_bytes as)) = attrs_bytes as"
    and oldb: "rd (nm_nlh n) start ?l = attrs_bytes bs"
    using d(2,5) rd_append_iff [of hl "nm_nlh n" "attrs_bytes as" "attrs_bytes bs"]
    by (simp_all add: s)
  show ?thesis
  proof (cases "?l = 0")
    case True
    then have "nla_nest_cancel n start = Inr n" using t len by (simp add: nla_nest_cancel_def)
    then show ?thesis using True h d oldb by (auto simp: has_attrs_def)
  next
    case False
    let ?m = "set_nlmsg_len start n"
    have m: "mlen ?m = start" using b d(2) len by (simp add: mlen_set_len s)
    have "nlmsg_tail 0 (nlmsg_hdr ?m) = start"
      unfolding nlmsg_tail_def m using b len d(2) s4 by (simp add: NLMSG_ALIGN_eq align4_id s)
    moreover have "u32 (mlen n - ?l) = start" using len b d(2) by (simp add: s)
    ultimately have c: "nla_nest_cancel n start =
        Inr (?m\<lparr>nm_nlh := wr (nm_nlh ?m) start (zeros ?l)\<rparr>)"
      using False len t by (simp add: nla_nest_cancel_def Let_def)
    let ?n = "?m\<lparr>nm_nlh := wr (nm_nlh ?m) start (zeros ?l)\<rparr>"
    have mem: "mlen ?n = start" "blen (nm_nlh ?n) = nm_size n"
      "rd (nm_nlh ?n) hl (blen (attrs_bytes as)) = attrs_bytes as"
      "rd (nm_nlh ?n) start ?l = zeros ?l"
      using b d(2) len old by (simp_all add: s nlmsg_hdr_def mem_simps)
    then have "has_attrs ?n hl as" using d b len by (auto simp: has_attrs_def wf_msg_def s)
    then show ?thesis using c mem by auto
  qed
qed

text \<open>Closing writes the length of the nest into the header that was opened empty.\<close>

lemma has_attrs_close:
  assumes h: "has_attrs n hl (as @ (t, []) # bs)" and s: "start = hl + blen (attrs_bytes as)"
    and len: "4 + blen (attrs_bytes bs) \<le> 65535"
  shows "has_attrs (n\<lparr>nm_nlh := put16 (nm_nlh n) start (4 + blen (attrs_bytes bs))\<rparr>) hl
    (as @ [(t, attrs_bytes bs)])"
proof -
  note d = has_attrsD [OF h] and b = wf_msgD [OF has_attrsD(1) [OF h]]
  let ?B = "attrs_bytes bs" and ?A = "attrs_bytes as"
  let ?n = "n\<lparr>nm_nlh := put16 (nm_nlh n) start (4 + blen ?B)\<rparr>"
  have al: "align4 (blen ?B) = blen ?B" by (simp add: align4_id)
  have e: "attr_bytes (t, []) = le_bytes 2 4 @ le_bytes 2 t" by (simp add: attr_bytes_def align4_eq)
  have e': "attr_bytes (t, ?B) = le_bytes 2 (4 + blen ?B) @ le_bytes 2 t @ ?B"
    by (simp add: attr_bytes_def al)
  have hl: "0 \<le> hl" "0 \<le> start" using d(2) by (auto simp: s)
  have m: "mlen n = start + 4 + blen ?B" using d(4) by (simp add: s e)
  have "rd (nm_nlh n) hl (blen ?A + (2 + (2 + blen ?B))) = ?A @ le_bytes 2 4 @ le_bytes 2 t @ ?B"
    using d(5) by (simp add: e add_ac)
  then have old: "rd (nm_nlh n) hl (blen ?A) = ?A" "rd (nm_nlh n) (start + 2) 2 = le_bytes 2 t"
    "rd (nm_nlh n) (start + 4) (blen ?B) = ?B"
    using hl rd_append_iff [of hl "nm_nlh n" ?A "le_bytes 2 4 @ le_bytes 2 t @ ?B"]
      rd_append_iff [of start "nm_nlh n" "le_bytes 2 4" "le_bytes 2 t @ ?B"]
      rd_append_iff [of "start + 2" "nm_nlh n" "le_bytes 2 t" ?B]
    by (simp_all add: s add_ac)
  have new: "rd (nm_nlh ?n) hl (blen ?A) = ?A" "rd (nm_nlh ?n) start 2 = le_bytes 2 (4 + blen ?B)"
    "rd (nm_nlh ?n) (start + 2) 2 = le_bytes 2 t" "rd (nm_nlh ?n) (start + 4) (blen ?B) = ?B"
    using old hl b m d(2) by (simp_all add: mem_simps s) (simp add: put16_def mem_simps)
  have "rd (nm_nlh ?n) start (2 + (2 + blen ?B)) = attr_bytes (t, ?B)"
    using new(2-4) hl rd_append_iff [of start "nm_nlh ?n" "le_bytes 2 (4 + blen ?B)" "le_bytes 2 t @ ?B"]
      rd_append_iff [of "start + 2" "nm_nlh ?n" "le_bytes 2 t" ?B]
    by (simp add: e' add.commute [of 4 start])
  then have "rd (nm_nlh ?n) hl (blen ?A + blen (attr_bytes (t, ?B))) = ?A @ attr_bytes (t, ?B)"
    using new(1) hl rd_append_iff [of hl "nm_nlh ?n" ?A "attr_bytes (t, ?B)"]
    by (simp add: al s add.assoc)
  moreover have "mlen ?n = mlen n" "blen (nm_nlh ?n) = blen (nm_nlh n)"
    using b m d(2) by (simp_all add: nlmsg_hdr_def mem_simps s)
  moreover have "attr_fits (t, ?B)" using d(6) len by (simp add: attr_fits_def)
  ultimately show ?thesis using d b m by (simp add: has_attrs_def wf_msg_def al s)
qed

lemma nest_end_refines:
  assumes h: "has_attrs n hl (as @ (t, []) # bs)" and s: "start = hl + blen (attrs_bytes as)"
  shows "\<exists>n' r. nest_end n start keep = Inr (n', r) \<and> nm_size n' = nm_size n \<and>
    (if 4 + blen (attrs_bytes bs) > 65535 then r = Inl (Err NLE_ATTRSIZE) \<and> has_attrs n' hl as
     else r = Inr () \<and> has_attrs n' hl
       (if bs = [] \<and> \<not> keep then as else as @ [(t, attrs_bytes bs)]))"
proof -
  note d = has_attrsD [OF h] and b = wf_msgD [OF has_attrsD(1) [OF h]]
  let ?l = "4 + blen (attrs_bytes bs)"
  have e: "blen (attrs_bytes ((t, []) # bs)) = ?l" by (simp add: align4_eq)
  have "mlen n - start = ?l" using d(4) e by (simp add: s)
  then have len: "u64 (nlmsg_tail 0 (nlmsg_hdr n) - start) = ?l"
    using b d by (simp add: tail_aligned s)
  have nil: "attrs_bytes bs = [] \<longleftrightarrow> bs = []"
    by (cases bs) (auto simp: attr_bytes_def numeral_eq_Suc)
  obtain c where c: "nla_nest_cancel n start = Inr c" "has_attrs c hl as" "nm_size c = nm_size n"
    using nla_nest_cancel_eq [OF h s] by auto
  show ?thesis
  proof (cases "?l > 65535 \<or> (bs = [] \<and> \<not> keep)")
    case True
    then show ?thesis using c len nil by (auto simp: nest_end_def Let_def)
  next
    case False
    let ?n = "n\<lparr>nm_nlh := put16 (nm_nlh n) start ?l\<rparr>"
    have h': "has_attrs ?n hl (as @ [(t, attrs_bytes bs)])"
      using False by (intro has_attrs_close [OF h s]) simp
    note d' = has_attrsD [OF h'] and b' = wf_msgD [OF has_attrsD(1) [OF h']]
    have "NLMSG_ALIGN (mlen ?n) = mlen ?n" using d'(7) b' by (simp add: NLMSG_ALIGN_eq align4_id)
    then have "nest_end n start keep = Inr (?n, Inr ())"
      using False nil unfolding nest_end_def len Let_def by auto
    then show ?thesis using h' False by auto
  qed
qed

section \<open>Properties\<close>

text \<open>
  C14. Whatever the bytes are, \<open>nla_for_each_attr\<close> terminates and visits only attributes that
  lie wholly inside the stream and do not overlap.
\<close>

theorem nla_for_each_inside:
  assumes "len \<le> STREAM_MAX"
  shows "(\<forall>(p, r) \<in> set (nla_for_each buf head len).
      head \<le> p \<and> p + r = head + len \<and> 0 \<le> nla_len buf p \<and>
      nla_data p + nla_len buf p \<le> head + len) \<and>
    sorted_wrt (\<lambda>(p, r) (q, s). nla_data p + nla_len buf p \<le> q) (nla_for_each buf head len) \<and>
    4 * blen (nla_for_each buf head len) \<le> max 0 len"
  using nlas.each_inside [OF assms] nlas.each_ordered [OF assms] nlas.each_count [OF assms]
  by (force simp: nla_len_def)

definition two_attrs :: "byte list" where
  "two_attrs = [8, 0, 1, 0, 7, 0, 0, 0, 6, 0, 2, 0, 65, 0, 0, 0]"

theorem nla_for_each_inside_witness:
  "nla_for_each two_attrs 0 16 = [(0, 16), (8, 8)] \<and>
   list_all (\<lambda>(p, r). nla_data p + nla_len two_attrs p \<le> 16) (nla_for_each two_attrs 0 16)"
proof
  show "nla_for_each two_attrs 0 16 = [(0, 16), (8, 8)]" by code_simp
  show "list_all (\<lambda>(p, r). nla_data p + nla_len two_attrs p \<le> 16) (nla_for_each two_attrs 0 16)"
    using nla_for_each_inside [of 16 two_attrs 0] by (auto simp: STREAM_MAX_def list_all_iff)
qed

text \<open>
  C9. \<open>nla_parse\<close>: when it succeeds, every attribute of a known type has passed the policy
  and the table maps each type to the last attribute of that type in the stream (\<open>NULL\<close>
  when there is none); each table entry lies inside the stream. When it fails, the error is
  that of the first attribute, in stream order, that the policy rejects.
\<close>

theorem nla_parse_spec:
  assumes max: "0 \<le> maxtype" and len: "len \<le> STREAM_MAX"
    and parse: "nla_parse maxtype buf head len policy = (tb, r)"
  shows "case r of
      Inr _ \<Rightarrow> blen tb = maxtype + 1 \<and>
        (\<forall>p \<in> set (nla_known buf maxtype (nla_for_each buf head len)).
           nla_check buf maxtype policy p = Inr ()) \<and>
        (\<forall>t < length tb. tb ! t = nla_last buf (map fst (nla_for_each buf head len)) t) \<and>
        (\<forall>t < length tb. \<forall>p. tb ! t = Some p \<longrightarrow>
           head \<le> p \<and> nla_data p + nla_len buf p \<le> head + len \<and> nla_type buf p = int t)
    | Inl e \<Rightarrow> \<exists>p ps. Inl e = nla_check buf maxtype policy p \<and>
        dropWhile (\<lambda>p. nla_check buf maxtype policy p = Inr ())
          (nla_known buf maxtype (nla_for_each buf head len)) = p # ps"
proof (cases r)
  case (Inl e)
  then show ?thesis using parse
    by (auto simp: nla_parse_def nla_parse_loop_eq Let_def split: list.splits)
next
  case (Inr u)
  let ?ps = "nla_for_each buf head len"
  note p = nla_parse_loop_Inr [OF parse [unfolded nla_parse_def Inr, simplified]]
  have l: "length tb = nat (maxtype + 1)" using p(2) by simp
  have last: "tb ! t = nla_last buf (map fst ?ps) t" if "t < length tb" for t
    using p(3) [of t] that l max nla_last_known [of t maxtype buf ?ps]
    by (auto split: option.splits)
  have "head \<le> q \<and> nla_data q + nla_len buf q \<le> head + len \<and> nla_type buf q = int t"
    if "t < length tb" "tb ! t = Some q" for t q
  proof -
    have "q \<in> fst ` set ?ps" "nla_type buf q = int t"
      using nla_last_SomeD [of buf "map fst ?ps" t q] last that by auto
    then show ?thesis using nlas.each_inside [OF len] by (fastforce simp: nla_len_def)
  qed
  then show ?thesis using p(1) last l max Inr by auto
qed

definition u32_policy :: "nla_policy list" where
  "u32_policy = [\<lparr>pol_type = 0, pol_minlen = 0, pol_maxlen = 0\<rparr>,
     \<lparr>pol_type = 3, pol_minlen = 0, pol_maxlen = 0\<rparr>, \<lparr>pol_type = 5, pol_minlen = 0, pol_maxlen = 16\<rparr>]"

theorem nla_parse_spec_witness:
  "nla_parse 2 two_attrs 0 16 (Some u32_policy) = ([None, Some 0, Some 8], Inr ()) \<and>
   nla_check two_attrs 2 (Some u32_policy) 8 = Inr ()"
proof
  show p: "nla_parse 2 two_attrs 0 16 (Some u32_policy) = ([None, Some 0, Some 8], Inr ())"
    by code_simp
  have "8 \<in> set (nla_known two_attrs 2 (nla_for_each two_attrs 0 16))" by code_simp
  then show "nla_check two_attrs 2 (Some u32_policy) 8 = Inr ()"
    using nla_parse_spec [OF _ _ p] by (auto simp: STREAM_MAX_def)
qed

text \<open>
  C28. A parse against a policy makes the typed getters safe: an attribute that
  \<open>nla_parse\<close> put into the table under a policy of type \<open>NLA_U8\<close>, \<open>NLA_U16\<close>, \<open>NLA_U32\<close> or
  \<open>NLA_U64\<close> with no explicit minimum has at least that many payload bytes inside the stream,
  and one of type \<open>NLA_STRING\<close> is NUL terminated within its payload.
\<close>

theorem nla_parse_typed_access:
  assumes max: "0 \<le> maxtype" and len: "len \<le> STREAM_MAX"
    and parse: "nla_parse maxtype buf head len (Some policy) = (tb, Inr ())"
    and t: "int t \<le> maxtype" "tb ! t = Some p" "policy ! t = pt" "pol_minlen pt = 0"
  shows "nla_attr_minlen (pol_type pt) \<le> nla_len buf p \<and>
    nla_data p + nla_len buf p \<le> head + len \<and>
    (pol_type pt = NLA_STRING \<longrightarrow> 1 \<le> nla_len buf p \<and>
       rd buf (nla_data p + nla_len buf p - 1) 1 = [0])"
proof -
  let ?ps = "nla_for_each buf head len"
  note lp = nla_parse_loop_Inr [OF parse [unfolded nla_parse_def]]
  have "tb ! t = nla_last buf (nla_known buf maxtype ?ps) t"
    using lp(2) lp(3) [of t] t(1) max by (auto split: option.splits)
  then have p: "p \<in> set (nla_known buf maxtype ?ps)" "nla_type buf p = int t"
    using nla_last_SomeD [of buf "nla_known buf maxtype ?ps" t p] t(2) by auto
  then obtain rem where rem: "(p, rem) \<in> set ?ps" by (auto simp: nla_known_def)
  have "validate_nla buf p maxtype policy = Inr ()"
    using lp(1) p(1) by (auto simp: nla_check_def)
  then have "policy_ok buf p pt"
    using validate_nla_policy_ok [of buf p rem maxtype policy] nlas.each_inside [OF len rem] p(2) t
    by simp
  then show ?thesis
    using nlas.each_inside [OF len rem] t(4)
    by (auto simp: policy_ok_def Let_def nla_len_def nla_attr_minlen_def NLA_STRING_def NLA_U8_def
        NLA_U16_def NLA_U32_def NLA_U64_def)
qed

theorem nla_parse_typed_access_witness:
  "nla_parse 2 two_attrs 0 16 (Some u32_policy) = ([None, Some 0, Some 8], Inr ()) \<and>
   4 \<le> nla_len two_attrs 0"
proof
  show p: "nla_parse 2 two_attrs 0 16 (Some u32_policy) = ([None, Some 0, Some 8], Inr ())"
    by code_simp
  have "nla_attr_minlen 3 = 4" by code_simp
  then show "4 \<le> nla_len two_attrs 0"
    using nla_parse_typed_access [OF _ _ p, of 1 0 "u32_policy ! 1"]
    by (simp add: STREAM_MAX_def u32_policy_def)
qed

text \<open>
  C15. \<open>nla_put\<close> refines "append to the attribute list": on a message whose bytes in use behind
  its headers encode \<open>as\<close>, putting a payload of at most 65531 bytes yields a message that
  encodes \<open>as\<close> followed by the new attribute, with headers and capacity unchanged, or
  \<open>NLE_NOMEM\<close> exactly when the padded attribute does not fit.
\<close>

theorem nla_put_refinement:
  assumes "has_attrs n hl as" "blen d \<le> 65531"
  shows "case nla_put n t (blen d) d of
      Inr n' \<Rightarrow> has_attrs n' hl (as @ [(u16 t, d)]) \<and> nm_size n' = nm_size n \<and>
        rd (nm_nlh n') 4 (hl - 4) = rd (nm_nlh n) 4 (hl - 4) \<and> fits_room n (blen d)
    | Inl e \<Rightarrow> e = Err NLE_NOMEM \<and> \<not> fits_room n (blen d)"
  using nla_put_refines [OF assms, of t] by auto

lemma has_attrs_msg32: "has_attrs msg32 16 []"
  using wf_msg32 by (simp add: has_attrs_def)

lemma fits_room_msg32: "fits_room msg32 l \<longleftrightarrow> align4 l \<le> 12"
  using wf_msg32 by (auto simp: fits_room_def)

theorem nla_put_refinement_witness:
  "\<exists>n'. nla_put msg32 3 5 [1, 2, 3, 4, 5] = Inr n' \<and> has_attrs n' 16 [(3, [1, 2, 3, 4, 5])]"
  using nla_put_refinement [OF has_attrs_msg32, of "[1, 2, 3, 4, 5]" 3]
  by (auto simp: fits_room_msg32 align4_eq split: sum.splits)

text \<open>A client that puts a list of attributes one after the other.\<close>

fun nla_put_all :: "nl_msg \<Rightarrow> attr list \<Rightarrow> nl_msg res" where
  "nla_put_all n [] = Inr n"
| "nla_put_all n ((t, d) # as) =
     (case nla_put n t (blen d) d of Inl e \<Rightarrow> Inl e | Inr n' \<Rightarrow> nla_put_all n' as)"

lemma attr_fits_u16: "attr_fits (t, d) \<Longrightarrow> u16 t = t \<and> blen d \<le> 65531"
  by (simp add: attr_fits_def)

lemma nla_put_all_Inr:
  assumes "has_attrs n hl as" "\<forall>a \<in> set bs. attr_fits a" "nla_put_all n bs = Inr n'"
  shows "has_attrs n' hl (as @ bs) \<and> nm_size n' = nm_size n"
  using assms
proof (induction n bs arbitrary: as rule: nla_put_all.induct)
  case (2 n t d bs)
  then show ?case
    using nla_put_refines [OF 2(2), of d t] attr_fits_u16 [of t d]
    by (fastforce split: sum.splits)
qed simp

lemma nla_put_all_fits:
  assumes "has_attrs n hl as" "\<forall>a \<in> set bs. attr_fits a"
    "mlen n + blen (attrs_bytes bs) \<le> nm_size n"
  shows "\<exists>n'. nla_put_all n bs = Inr n'"
  using assms
proof (induction n bs arbitrary: as rule: nla_put_all.induct)
  case (2 n t d bs)
  then have fit: "attr_fits (t, d)" and room: "fits_room n (blen d)"
    by (auto simp: fits_room_def)
  then obtain n' where n': "nla_put n t (blen d) d = Inr n'" "has_attrs n' hl (as @ [(t, d)])"
    "nm_size n' = nm_size n"
    using nla_put_refines [OF 2(2), of d t] attr_fits_u16 by auto
  have "mlen n' + blen (attrs_bytes bs) \<le> nm_size n'"
    using 2(4) n' has_attrsD(4) [OF n'(2)] has_attrsD(4) [OF 2(2)] by simp
  then show ?case using 2(1) [OF n'(1,2)] 2(3) n'(1) by auto
qed simp

text \<open>
  C29. Building and reading are inverse: putting attributes one after the other into a fresh
  message that is large enough succeeds, and the loop \<open>nla_for_each_attr\<close> over the result
  sees exactly those attributes, types and payloads, in order.
\<close>

theorem nla_put_then_read:
  assumes alloc: "nlmsg_alloc_size True True sz = Some n" and szb: "sz < 2147483648"
    and fits: "\<forall>a \<in> set as. attr_fits a" and room: "16 + blen (attrs_bytes as) \<le> sz"
  shows "\<exists>n'. nla_put_all n as = Inr n' \<and>
    nla_list (nm_nlh n') (nlmsg_attrdata 0 0) (nlmsg_attrlen (nlmsg_hdr n') 0) = as"
proof -
  have n: "wf_msg n" "mlen n = 16" "nm_size n = max 16 sz"
    using nlmsg_alloc_len_wf [of True True sz n] alloc szb by (auto simp: nlmsg_alloc_size_def)
  then have h: "has_attrs n 16 []" by (simp add: has_attrs_def)
  obtain n' where n': "nla_put_all n as = Inr n'"
    using nla_put_all_fits [OF h fits] n room by auto
  have h': "has_attrs n' 16 as" using nla_put_all_Inr [OF h fits n'] by simp
  have "NLMSG_ALIGN 0 = 0" by code_simp
  moreover have "s32 (mlen n' - 16) = mlen n' - 16" "u32 (mlen n' - 16) = mlen n' - 16" "0 \<le> mlen n' - 16"
    using wf_msgD [OF has_attrsD(1) [OF h']] by simp_all
  ultimately show ?thesis using n' nla_list_has_attrs [OF h']
    by (auto simp: nlmsg_attrdata_def nlmsg_attrlen_def nlmsg_datalen_def)
qed

theorem nla_put_then_read_witness:
  "\<exists>n'. nla_put_all msg32 [(1, [7]), (2, [8, 9])] = Inr n' \<and>
     nla_list (nm_nlh n') (nlmsg_attrdata 0 0) (nlmsg_attrlen (nlmsg_hdr n') 0) = [(1, [7]), (2, [8, 9])]"
proof -
  have "nlmsg_alloc_size True True 32 = Some msg32"
    by (simp add: msg32_def nlmsg_alloc_size_def nlmsg_alloc_len_def Let_def)
  from nla_put_then_read [OF this, of "[(1, [7]), (2, [8, 9])]"] show ?thesis
    by (simp add: attr_fits_def align4_eq)
qed

text \<open>
  C30. Nesting: open a nest, put attributes, close it. \<open>nla_nest_end\<close> never trips its \<open>BUG()\<close>.
  When header and contents exceed the 16-bit length field it reports \<open>NLE_ATTRSIZE\<close> and
  removes the nest; an empty nest is removed silently; otherwise the message has gained one
  attribute with the flag \<open>NLA_F_NESTED\<close> whose payload reads back as the attributes put.
\<close>

theorem nla_nest_roundtrip:
  assumes h: "has_attrs n hl as" and start: "nla_nest_start n t = (n1, Some start)"
    and put: "nla_put_all n1 bs = Inr n2" and fits: "\<forall>a \<in> set bs. attr_fits a"
  shows "\<exists>n3 r. nla_nest_end n2 start = Inr (n3, r) \<and>
    (if 4 + blen (attrs_bytes bs) > 65535 then r = Inl (Err NLE_ATTRSIZE) \<and> has_attrs n3 hl as
     else if bs = [] then r = Inr () \<and> has_attrs n3 hl as
     else r = Inr () \<and> has_attrs n3 hl (as @ [(u16 (NLA_F_NESTED OR t), attrs_bytes bs)]) \<and>
       nla_list (nm_nlh n3) (nla_data start) (nla_len (nm_nlh n3) start) = bs)"
proof -
  let ?t = "u16 (NLA_F_NESTED OR t)"
  have s: "start = hl + blen (attrs_bytes as)" and h1: "has_attrs n1 hl (as @ [(?t, [])])"
    using nla_nest_start_refines [OF h, of t] start has_attrsD(4) [OF h] by auto
  have h2: "has_attrs n2 hl (as @ (?t, []) # bs)" using nla_put_all_Inr [OF h1 fits put] by simp
  obtain n3 r where e: "nla_nest_end n2 start = Inr (n3, r)"
    "if 4 + blen (attrs_bytes bs) > 65535 then r = Inl (Err NLE_ATTRSIZE) \<and> has_attrs n3 hl as
     else r = Inr () \<and> has_attrs n3 hl (if bs = [] \<and> \<not> False then as else as @ [(?t, attrs_bytes bs)])"
    using nest_end_refines [OF h2 s, of False] unfolding nla_nest_end_def by blast
  have "nla_list (nm_nlh n3) (nla_data start) (nla_len (nm_nlh n3) start) = bs"
    if h3: "has_attrs n3 hl (as @ [(?t, attrs_bytes bs)])"
  proof -
    note d = has_attrsD [OF h3]
    have "rd (nm_nlh n3) start (blen (attr_bytes (?t, attrs_bytes bs))) = attr_bytes (?t, attrs_bytes bs)"
      using d(2,5) rd_append_iff [of hl "nm_nlh n3" "attrs_bytes as" "attr_bytes (?t, attrs_bytes bs)"]
      by (simp add: s)
    note r = attr_bytes_read [OF this]
    have "nla_list (nm_nlh n3) (start + 4) (blen (attrs_bytes bs)) = bs"
      using r d(2,6) fits by (intro nla_list_attrs_bytes) (auto simp: s attr_fits_def STREAM_MAX_def)
    then show ?thesis using r d(2,6) by (simp add: nla_len_def s)
  qed
  then show ?thesis using e by auto
qed

theorem nla_nest_roundtrip_witness:
  "\<exists>n1 n2 n3 r. nla_nest_start msg32 9 = (n1, Some 16) \<and> nla_put_all n1 [(1, [7])] = Inr n2 \<and>
     nla_nest_end n2 16 = Inr (n3, r) \<and> r = Inr () \<and>
     nla_list (nm_nlh n3) 20 (nla_len (nm_nlh n3) 16) = [(1, [7])]"
proof -
  obtain n1 where n1: "nla_nest_start msg32 9 = (n1, Some 16)"
    and h1: "has_attrs n1 16 [(u16 (NLA_F_NESTED OR 9), [])]" and sz: "nm_size n1 = 32"
    using nla_nest_start_refines [OF has_attrs_msg32, of 9] wf_msg32
    by (auto simp: fits_room_msg32 align4_eq)
  have f: "\<forall>a \<in> set [(1, [7 :: byte])]. attr_fits a" by (simp add: attr_fits_def)
  obtain n2 where n2: "nla_put_all n1 [(1, [7])] = Inr n2"
    using nla_put_all_fits [OF h1 f] has_attrsD(4) [OF h1] sz by (auto simp: align4_eq)
  show ?thesis using nla_nest_roundtrip [OF has_attrs_msg32 n1 n2 f] n1 n2
    by (auto simp: align4_eq)
qed

text \<open>
  Cancelling a nest undoes everything since \<open>nla_nest_start\<close>: the message encodes the
  attributes it had before, and the bytes that were in use by the nest are zero. The
  \<open>BUG()\<close> in \<open>nla_nest_cancel\<close> is not reached.
\<close>

theorem nla_nest_cancel_undoes:
  assumes h: "has_attrs n hl as" and start: "nla_nest_start n t = (n1, Some start)"
    and put: "nla_put_all n1 bs = Inr n2" and fits: "\<forall>a \<in> set bs. attr_fits a"
  shows "\<exists>n3. nla_nest_cancel n2 start = Inr n3 \<and> has_attrs n3 hl as \<and> mlen n3 = mlen n \<and>
    nm_size n3 = nm_size n \<and>
    rd (nm_nlh n3) start (4 + blen (attrs_bytes bs)) = zeros (4 + blen (attrs_bytes bs))"
proof -
  let ?t = "u16 (NLA_F_NESTED OR t)"
  have s: "start = hl + blen (attrs_bytes as)" and h1: "has_attrs n1 hl (as @ [(?t, [])])"
    and sz: "nm_size n1 = nm_size n"
    using nla_nest_start_refines [OF h, of t] start has_attrsD(4) [OF h] by auto
  have h2: "has_attrs n2 hl (as @ (?t, []) # bs)" "nm_size n2 = nm_size n1"
    using nla_put_all_Inr [OF h1 fits put] by simp_all
  show ?thesis
    using nla_nest_cancel_eq [OF h2(1) s] h2(2) sz has_attrsD(4) [OF h] has_attrsD(4)
    by (fastforce simp: align4_eq)
qed

theorem nla_nest_cancel_undoes_witness:
  "\<exists>n1 n3. nla_nest_start msg32 9 = (n1, Some 16) \<and> nla_nest_cancel n1 16 = Inr n3 \<and>
     has_attrs n3 16 [] \<and> mlen n3 = 16"
proof -
  obtain n1 where n1: "nla_nest_start msg32 9 = (n1, Some 16)"
    using nla_nest_start_refines [OF has_attrs_msg32, of 9] wf_msg32
    by (auto simp: fits_room_msg32 align4_eq)
  show ?thesis using nla_nest_cancel_undoes [OF has_attrs_msg32 n1, of "[]" n1] n1 wf_msg32
    by auto
qed

text \<open>The payload of a freshly put attribute.\<close>

lemma nla_put_payload:
  assumes "has_attrs n hl as" "nla_put n t (blen d) d = Inr n'" "blen d \<le> 65531"
  shows "rd (nm_nlh n') (mlen n + 4) (blen d) = d" "nla_len (nm_nlh n') (mlen n) = blen d"
    "nla_type_fld (nm_nlh n') (mlen n) = u16 t"
proof -
  note d = has_attrsD [OF assms(1)]
  have "mlen n' - mlen n = blen (attr_bytes (u16 t, d)) \<and>
      rd (nm_nlh n') (mlen n) (mlen n' - mlen n) = attr_bytes (u16 t, d)"
    using nla_put_cases [OF d(1) assms(3) d(7), of t] assms(2) by auto
  then have "rd (nm_nlh n') (mlen n) (blen (attr_bytes (u16 t, d))) = attr_bytes (u16 t, d)"
    by metis
  from attr_bytes_read [OF this] show "rd (nm_nlh n') (mlen n + 4) (blen d) = d"
    "nla_len (nm_nlh n') (mlen n) = blen d" "nla_type_fld (nm_nlh n') (mlen n) = u16 t"
    using assms(3) wf_msgD [OF d(1)] by (simp_all add: attr_fits_def nla_len_def)
qed

lemma nla_put_int:
  assumes h: "has_attrs n hl as" and put: "nla_put n t (int k) (le_bytes k v) = Inr n'" "k \<le> 8"
  shows "le_int (rd (nm_nlh n') (mlen n + 4) (int k)) = v mod 256 ^ k"
    "nla_len (nm_nlh n') (mlen n) = int k"
  using nla_put_payload [OF h, of t "le_bytes k v" n'] put by (simp_all add: le_int_bytes)

text \<open>
  Integer attributes survive: after \<open>nla_put_X(msg, type, v)\<close> succeeds, \<open>nla_get_X\<close> of the
  new attribute returns \<open>v\<close> converted to type \<open>X\<close>, for the eight integer types.
\<close>

theorem nla_put_get_int:
  assumes h: "has_attrs n hl as"
  shows "(nla_put_u8 n t v = Inr n' \<longrightarrow> nla_get_u8 (nm_nlh n') (mlen n) = u8 v) \<and>
    (nla_put_s8 n t v = Inr n' \<longrightarrow> nla_get_s8 (nm_nlh n') (mlen n) = s8 v) \<and>
    (nla_put_u16 n t v = Inr n' \<longrightarrow> nla_get_u16 (nm_nlh n') (mlen n) = u16 v) \<and>
    (nla_put_s16 n t v = Inr n' \<longrightarrow> nla_get_s16 (nm_nlh n') (mlen n) = s16 v) \<and>
    (nla_put_u32 n t v = Inr n' \<longrightarrow> nla_get_u32 (nm_nlh n') (mlen n) = u32 v) \<and>
    (nla_put_s32 n t v = Inr n' \<longrightarrow> nla_get_s32 (nm_nlh n') (mlen n) = s32 v) \<and>
    (nla_put_u64 n t v = Inr n' \<longrightarrow> nla_get_u64 (nm_nlh n') (Some (mlen n)) = u64 v) \<and>
    (nla_put_s64 n t v = Inr n' \<longrightarrow> nla_get_s64 (nm_nlh n') (Some (mlen n)) = s64 v)"
  using nla_put_int [OF h, of t 1 v n'] nla_put_int [OF h, of t 2 v n']
    nla_put_int [OF h, of t 4 v n'] nla_put_int [OF h, of t 8 v n']
  by (simp add: nla_put_u8_def nla_get_u8_def nla_put_s8_def nla_get_s8_def nla_put_u16_def
      nla_get_u16_def nla_put_s16_def nla_get_s16_def nla_put_u32_def nla_get_u32_def
      nla_put_s32_def nla_get_s32_def nla_put_u64_def nla_get_u64_def nla_put_s64_def
      nla_get_s64_def u8_def u16_def u32_def u64_def)

theorem nla_put_get_int_witness:
  "\<exists>n'. nla_put_s32 msg32 5 (- 7) = Inr n' \<and> nla_get_s32 (nm_nlh n') 16 = - 7"
proof -
  obtain n' where n': "nla_put_s32 msg32 5 (- 7) = Inr n'"
    using nla_put_refines [OF has_attrs_msg32, of "le_bytes 4 (- 7)" 5]
    by (auto simp: nla_put_s32_def fits_room_msg32 align4_eq)
  then show ?thesis using nla_put_get_int [OF has_attrs_msg32, of 5 "- 7" n'] wf_msg32 by simp
qed

text \<open>
  String attributes survive: after \<open>nla_put_string(msg, type, str)\<close> succeeds,
  \<open>nla_get_string\<close> of the new attribute is \<open>str\<close>, \<open>nla_strdup\<close> copies it with its
  terminator and \<open>nla_strcmp\<close> finds it equal to \<open>str\<close>.
\<close>

theorem nla_put_get_string:
  assumes h: "has_attrs n hl as" and nul: "0 \<notin> set str" and l: "blen str < 65531"
    and put: "nla_put_string n t (str @ 0 # rest) = Inr n'"
  shows "nla_get_string (nm_nlh n') (mlen n) = str \<and>
    nla_strdup True (nm_nlh n') (mlen n) = Some (str @ [0]) \<and>
    nla_strcmp (nm_nlh n') (mlen n) (str @ 0 # rest) = 0"
proof -
  let ?d = "str @ [0]"
  have len: "strlen (str @ 0 # rest) = blen str"
    using nul by (simp add: strlen_def)
  have d: "rd (str @ 0 # rest) 0 (blen str + 1) = ?d"
    by (simp add: rd_def nat_add_distrib)
  have "nla_put n t (blen str + 1) (str @ 0 # rest) = nla_put n t (blen ?d) ?d"
    using d rd_whole [of ?d] by (simp add: nla_put_def add.commute split: option.split)
  then have put': "nla_put n t (blen ?d) ?d = Inr n'"
    using put by (simp add: nla_put_string_def len)
  note p = nla_put_payload [OF h put']
  have r: "rd (nm_nlh n') (mlen n + 4) (blen ?d) = ?d" using p(1) l by simp
  have "\<exists>xs. drop (nat (mlen n + 4)) (nm_nlh n') = ?d @ xs"
    using r unfolding rd_def by (metis append_take_drop_id)
  then have s: "nla_get_string (nm_nlh n') (mlen n) = str"
    using nul by (auto simp: nla_get_string_def)
  have c: "nla_strcmp (nm_nlh n') (mlen n) (str @ 0 # rest) = 0"
    using p(2) r l d rd_whole [of ?d]
    by (simp add: nla_strcmp_def Let_def len memcmp_def memcmp_bytes_0 add.commute)
  show ?thesis using s c by (simp add: nla_strdup_def)
qed

theorem nla_put_get_string_witness:
  "\<exists>n'. nla_put_string msg32 2 [101, 116, 104, 48, 0] = Inr n' \<and>
     nla_get_string (nm_nlh n') 16 = [101, 116, 104, 48]"
proof -
  let ?s = "[101, 116, 104, 48] :: byte list"
  have e: "strlen (?s @ 0 # []) = 4" by (simp add: strlen_def)
  obtain n' where n': "nla_put_string msg32 2 (?s @ 0 # []) = Inr n'"
    using nla_put_refines [OF has_attrs_msg32, of "?s @ [0]" 2] unfolding nla_put_string_def e
    by (auto simp: fits_room_msg32 align4_eq)
  show ?thesis using nla_put_get_string [OF has_attrs_msg32 _ _ n'] n' wf_msg32 by auto
qed

text \<open>
  \<open>nla_strlcpy\<close> into a buffer of \<open>dstsize > 0\<close> bytes writes exactly \<open>dstsize\<close> bytes: the
  payload without a trailing NUL, cut to \<open>dstsize - 1\<close> bytes, then zeros, at least one. It
  returns the length it tried to copy.
\<close>

theorem nla_strlcpy_spec:
  assumes ok: "nla_ok buf nla rem" and pos: "0 \<le> nla" "nla + rem \<le> blen buf"
    and dst: "0 < dstsize" "dstsize \<le> blen dst"
  defines "pay \<equiv> rd buf (nla_data nla) (nla_len buf nla)"
  defines "src \<equiv> (if pay \<noteq> [] \<and> last pay = 0 then butlast pay else pay)"
  shows "nla_strlcpy dst buf nla dstsize =
    (take (nat (dstsize - 1)) src @ replicate (nat dstsize - min (nat (dstsize - 1)) (length src)) 0
       @ drop (nat dstsize) dst, blen src)"
proof -
  let ?l = "nla_len buf nla" and ?p = "nla_data nla"
  have l: "0 \<le> ?l" "?l < 65536" "nla + 4 + ?l \<le> blen buf" "?p = nla + 4"
    using ok pos less_trans [OF get16_range(2) [of buf nla], of 65540]
    by (simp_all add: nla_len_def nla_ok_def nla_len_fld_def)
  have lp: "blen pay = ?l" using l pos by (simp add: pay_def length_rd)
  have lastb: "rd buf (?p + ?l - 1) 1 = [last pay]" if "0 < ?l"
  proof -
    have "rd pay (?l - 1) 1 = rd buf (?p + (?l - 1)) 1"
      unfolding pay_def using l pos that by (intro rd_rd) auto
    moreover have "drop (nat (?l - 1)) pay = [last pay]"
      using lp that by (cases pay rule: rev_cases) (auto simp: nat_diff_distrib')
    ultimately show ?thesis by (simp add: rd_def algebra_simps)
  qed
  let ?s = "if 0 < ?l \<and> rd buf (?p + ?l - 1) 1 = [0] then ?l - 1 else ?l"
  have cond: "0 < ?l \<and> rd buf (?p + ?l - 1) 1 = [0] \<longleftrightarrow> pay \<noteq> [] \<and> last pay = 0"
    using lastb lp [symmetric] by (cases "pay = []") auto
  have s: "?s = blen src" using lp cond by (cases pay rule: rev_cases) (auto simp: src_def)
  have src: "rd buf ?p k = take (nat k) src" if "0 \<le> k" "k \<le> blen src" for k
  proof -
    have "rd buf ?p k = take (nat k) pay"
      using that s l pos rd_rd [of ?p 0 k ?l buf] unfolding pay_def
      by (simp add: rd_def split: if_splits)
    then show ?thesis using that s cond lp
      by (cases pay rule: rev_cases) (auto simp: src_def split: if_splits)
  qed
  let ?n = "if blen src \<ge> dstsize then dstsize - 1 else blen src"
  have n: "0 \<le> ?n" "?n \<le> blen src" "?n < dstsize" using dst by auto
  have "nla_strlcpy dst buf nla dstsize = (wr (wr dst 0 (zeros dstsize)) 0 (rd buf ?p ?n), blen src)"
    using dst l s by (simp add: nla_strlcpy_def Let_def)
  moreover have "take (nat ?n) src = take (nat (dstsize - 1)) src" using dst by auto
  ultimately show ?thesis
    using src [OF n(1,2)] n dst by (auto simp: wr_def zeros_def min_def nat_diff_distrib')
qed

theorem nla_strlcpy_spec_witness:
  "nla_strlcpy [9, 9, 9, 9] two_attrs 8 3 = ([65, 0, 0, 9], 1)"
proof -
  have "nla_ok two_attrs 8 8" "nla_len two_attrs 8 = 2" "rd two_attrs (nla_data 8) 2 = [65, 0]"
    by code_simp+
  then show ?thesis using nla_strlcpy_spec [of two_attrs 8 8 3 "[9, 9, 9, 9]"]
    by (simp add: two_attrs_def numeral_eq_Suc)
qed

text \<open>
  C36. The length field of an attribute has 16 bits and \<open>nla_reserve\<close> does not check it: for a
  payload of 65536 to 131067 bytes that fits the message it succeeds, reserves the whole
  room, and stores a length that is 65536 too small. A reader that walks the attributes of the message
  finds the shorter attribute and goes on with the last 65536 bytes of the room, which belong to the payload
  (and the padding), as if they were attributes.
\<close>

theorem nla_reserve_truncates:
  assumes wf: "wf_msg n" and al: "mlen n mod 4 = 0" and l: "65536 \<le> l" "l \<le> 131067"
    and room: "mlen n + 4 + align4 l \<le> nm_size n"
  shows "\<exists>n'. nla_reserve n t l = Some (n', mlen n) \<and> mlen n' = mlen n + 4 + align4 l \<and>
    nla_len_fld (nm_nlh n') (mlen n) = 4 + l - 65536 \<and>
    nla_for_each (nm_nlh n') (mlen n) (mlen n' - mlen n) =
      (mlen n, mlen n' - mlen n) # nla_for_each (nm_nlh n') (mlen n' - 65536) 65536"
proof -
  note b = wf_msgD [OF wf] align4_ge [of l] align4_lt [of l]
  let ?a = "mlen n" and ?t = "mlen n + 4 + align4 l"
  have a: "NLMSG_ALIGN ?a = ?a" using b al by (simp add: NLMSG_ALIGN_eq align4_id)
  have tot: "nla_total_size l = 4 + align4 l" "nla_padlen l = align4 l - l" "nla_attr_size l = 4 + l"
    by (simp_all add: nla_total_size_def nla_padlen_def nla_attr_size_def align4_4)
  have t: "s32 (u32 (NLMSG_ALIGN ?a + nla_total_size l)) = ?t" "u64 ?t = ?t"
    using b l room by (simp_all add: a tot)
  let ?b = "put16 (put16 (nm_nlh n) (?a + 2) t) ?a (4 + l)"
  have "u16 (4 + l) = 4 + l - 65536"
    using l mod_add_self2 [of "4 + l - 65536" 65536] by (simp add: u16_def)
  then have f: "nla_len_fld ?b ?a = 4 + l - 65536"
    using b l room by (simp add: nla_len_fld_def mem_simps)
  let ?n = "n\<lparr>nm_nlh := put32 (wr ?b (?a + (4 + l - 65536)) (zeros (align4 l - l))) 0 ?t\<rparr>"
  have "nla_reserve n t l = Some (?n, ?a)"
    using l room f t unfolding nla_reserve_def Let_def tot nlmsg_tail_def a by simp
  moreover have "mlen ?n = ?t" using b l room by (simp add: nlmsg_hdr_def mem_simps)
  moreover have "nla_len_fld (nm_nlh ?n) ?a = nla_len_fld ?b ?a"
    using b l room by (simp add: nla_len_fld_def mem_simps)
  moreover have "nla_for_each (nm_nlh ?n) ?a (4 + align4 l) = (?a, 4 + align4 l) # nla_for_each (nm_nlh ?n) (?t - 65536) 65536"
    if "nla_len_fld (nm_nlh ?n) ?a = 4 + l - 65536"
  proof -
    have e: "align4 (l - 65532) = align4 l - 65532" unfolding align4_eq by presburger
    have "nla_ok (nm_nlh ?n) ?a (4 + align4 l)" using b l that by (simp add: nla_ok_def)
    moreover have "nla_next (nm_nlh ?n) ?a (4 + align4 l) = (?t - 65536, 65536)"
      using that by (simp add: nla_next_def Let_def) (simp add: e)
    ultimately show ?thesis by (subst nla_for_each.simps) simp
  qed
  ultimately show ?thesis using f by auto
qed

theorem nla_reserve_truncates_witness:
  "\<exists>n n'. nlmsg_alloc_size True True 70000 = Some n \<and> nla_reserve n 1 65536 = Some (n', 16) \<and>
     nla_len_fld (nm_nlh n') 16 = 4 \<and>
     nla_for_each (nm_nlh n') 16 65540 = (16, 65540) # nla_for_each (nm_nlh n') 20 65536"
proof -
  obtain n where n: "nlmsg_alloc_size True True 70000 = Some n"
    by (simp add: nlmsg_alloc_size_def nlmsg_alloc_len_def Let_def)
  then have "wf_msg n" "mlen n = 16" "nm_size n = 70000"
    using nlmsg_alloc_len_wf [of True True 70000 n] by (auto simp: nlmsg_alloc_size_def)
  then show ?thesis using nla_reserve_truncates [of n 65536 1] n by (auto simp: align4_eq)
qed

end
