(* ===== verification/Nl_Handlers.thy ===== *)
theory Nl_Handlers
  imports Nl_Msg
begin

text \<open>
  \<open>lib/handlers.c\<close>: callback sets. A message callback is a function of the message, the
  argument registered with it (\<open>None\<close> is \<open>NULL\<close>) and a state \<open>'u\<close> that stands for everything a
  callback may change; it returns one of the actions \<open>NL_OK\<close>, \<open>NL_SKIP\<close>, \<open>NL_STOP\<close> or another
  integer. The built-in handlers only print, which is not modelled, and return a constant.
\<close>

section \<open>Sockets\<close>

text \<open>\<open>s_cb\<close> is the address of the callback set of the socket.\<close>

record nl_sock =
  s_local :: sockaddr_nl
  s_peer :: sockaddr_nl
  s_fd :: int
  s_proto :: int
  s_seq_next :: int
  s_seq_expect :: int
  s_flags :: int
  s_cb :: nat
  s_bufsize :: int

section \<open>Callback sets\<close>

definition NL_OK :: int where "NL_OK = 0"
definition NL_SKIP :: int where "NL_SKIP = 1"
definition NL_STOP :: int where "NL_STOP = 2"

definition NL_CB_DEFAULT :: int where "NL_CB_DEFAULT = 0"
definition NL_CB_VERBOSE :: int where "NL_CB_VERBOSE = 1"
definition NL_CB_DEBUG :: int where "NL_CB_DEBUG = 2"
definition NL_CB_CUSTOM :: int where "NL_CB_CUSTOM = 3"
definition NL_CB_KIND_MAX :: int where "NL_CB_KIND_MAX = 3"

definition NL_CB_VALID :: nat where "NL_CB_VALID = 0"
definition NL_CB_FINISH :: nat where "NL_CB_FINISH = 1"
definition NL_CB_OVERRUN :: nat where "NL_CB_OVERRUN = 2"
definition NL_CB_SKIPPED :: nat where "NL_CB_SKIPPED = 3"
definition NL_CB_ACK :: nat where "NL_CB_ACK = 4"
definition NL_CB_MSG_IN :: nat where "NL_CB_MSG_IN = 5"
definition NL_CB_MSG_OUT :: nat where "NL_CB_MSG_OUT = 6"
definition NL_CB_INVALID :: nat where "NL_CB_INVALID = 7"
definition NL_CB_SEQ_CHECK :: nat where "NL_CB_SEQ_CHECK = 8"
definition NL_CB_SEND_ACK :: nat where "NL_CB_SEND_ACK = 9"
definition NL_CB_DUMP_INTR :: nat where "NL_CB_DUMP_INTR = 10"
definition NL_CB_TYPE_MAX :: nat where "NL_CB_TYPE_MAX = 10"

lemmas cb_consts = NL_OK_def NL_SKIP_def NL_STOP_def NL_CB_DEFAULT_def NL_CB_VERBOSE_def
  NL_CB_DEBUG_def NL_CB_CUSTOM_def NL_CB_KIND_MAX_def NL_CB_VALID_def NL_CB_FINISH_def
  NL_CB_OVERRUN_def NL_CB_SKIPPED_def NL_CB_ACK_def NL_CB_MSG_IN_def NL_CB_MSG_OUT_def
  NL_CB_INVALID_def NL_CB_SEQ_CHECK_def NL_CB_SEND_ACK_def NL_CB_DUMP_INTR_def NL_CB_TYPE_MAX_def

type_synonym ('a, 'u) msg_cb = "nl_msg \<Rightarrow> 'a option \<Rightarrow> 'u \<Rightarrow> int \<times> 'u"

text \<open>An error callback gets the sender and the error number of \<open>struct nlmsgerr\<close>.\<close>

type_synonym ('a, 'u) err_cb = "sockaddr_nl \<Rightarrow> int \<Rightarrow> 'a option \<Rightarrow> 'u \<Rightarrow> int \<times> 'u"

text \<open>What a receive function delivers: the return value, the sender, the data, credentials.\<close>

type_synonym recv_result = "int \<times> sockaddr_nl \<times> byte list \<times> ucred option"

record ('a, 'u) nl_cb =
  cb_set :: "('a, 'u) msg_cb option list"
  cb_args :: "'a option list"
  cb_err :: "('a, 'u) err_cb option"
  cb_err_arg :: "'a option"
  cb_recvmsgs_ow :: "(nl_sock \<Rightarrow> 'u \<Rightarrow> int \<times> nl_sock \<times> 'u) option"
  cb_recv_ow :: "(nl_sock \<Rightarrow> 'u \<Rightarrow> recv_result \<times> nl_sock \<times> 'u) option"
  cb_send_ow :: "(nl_sock \<Rightarrow> nl_msg \<Rightarrow> 'u \<Rightarrow> int \<times> nl_sock \<times> nl_msg \<times> 'u) option"
  cb_refcnt :: int
  cb_active :: int

section \<open>Built-in handlers\<close>

definition nl_valid_handler_verbose :: "('a, 'u) msg_cb" where
  "nl_valid_handler_verbose msg arg u = (NL_OK, u)"

definition nl_invalid_handler_verbose :: "('a, 'u) msg_cb" where
  "nl_invalid_handler_verbose msg arg u = (NL_STOP, u)"

definition nl_overrun_handler_verbose :: "('a, 'u) msg_cb" where
  "nl_overrun_handler_verbose msg arg u = (NL_STOP, u)"

definition nl_error_handler_verbose :: "('a, 'u) err_cb" where
  "nl_error_handler_verbose who e arg u = (- nle_code (nl_syserr2nlerr e), u)"

definition nl_valid_handler_debug :: "('a, 'u) msg_cb" where
  "nl_valid_handler_debug msg arg u = (NL_OK, u)"

definition nl_finish_handler_debug :: "('a, 'u) msg_cb" where
  "nl_finish_handler_debug msg arg u = (NL_STOP, u)"

definition nl_msg_in_handler_debug :: "('a, 'u) msg_cb" where
  "nl_msg_in_handler_debug msg arg u = (NL_OK, u)"

definition nl_msg_out_handler_debug :: "('a, 'u) msg_cb" where
  "nl_msg_out_handler_debug msg arg u = (NL_OK, u)"

definition nl_skipped_handler_debug :: "('a, 'u) msg_cb" where
  "nl_skipped_handler_debug msg arg u = (NL_SKIP, u)"

definition nl_ack_handler_debug :: "('a, 'u) msg_cb" where
  "nl_ack_handler_debug msg arg u = (NL_STOP, u)"

text \<open>The tables of built-in handlers; an entry without initialiser is \<open>NULL\<close>.\<close>

definition cb_def :: "nat \<Rightarrow> int \<Rightarrow> ('a, 'u) msg_cb option" where
  "cb_def type kind =
     (if type = NL_CB_VALID then
        (if kind = NL_CB_VERBOSE then Some nl_valid_handler_verbose
         else if kind = NL_CB_DEBUG then Some nl_valid_handler_debug else None)
      else if type = NL_CB_FINISH then
        (if kind = NL_CB_DEBUG then Some nl_finish_handler_debug else None)
      else if type = NL_CB_INVALID then
        (if kind = NL_CB_VERBOSE then Some nl_invalid_handler_verbose
         else if kind = NL_CB_DEBUG then Some nl_invalid_handler_verbose else None)
      else if type = NL_CB_MSG_IN then
        (if kind = NL_CB_DEBUG then Some nl_msg_in_handler_debug else None)
      else if type = NL_CB_MSG_OUT then
        (if kind = NL_CB_DEBUG then Some nl_msg_out_handler_debug else None)
      else if type = NL_CB_OVERRUN then
        (if kind = NL_CB_VERBOSE then Some nl_overrun_handler_verbose
         else if kind = NL_CB_DEBUG then Some nl_overrun_handler_verbose else None)
      else if type = NL_CB_SKIPPED then
        (if kind = NL_CB_DEBUG then Some nl_skipped_handler_debug else None)
      else if type = NL_CB_ACK then
        (if kind = NL_CB_DEBUG then Some nl_ack_handler_debug else None)
      else None)"

definition cb_err_def :: "int \<Rightarrow> ('a, 'u) err_cb option" where
  "cb_err_def kind =
     (if kind = NL_CB_VERBOSE then Some nl_error_handler_verbose
      else if kind = NL_CB_DEBUG then Some nl_error_handler_verbose else None)"

section \<open>Operations\<close>

text \<open>The enumeration arguments are compared as unsigned numbers, so a negative one is out
  of range.\<close>

definition nl_cb_set ::
  "('a, 'u) nl_cb \<Rightarrow> int \<Rightarrow> int \<Rightarrow> ('a, 'u) msg_cb option \<Rightarrow> 'a option \<Rightarrow> ('a, 'u) nl_cb res" where
  "nl_cb_set cb type kind func arg =
     (if u32 type > int NL_CB_TYPE_MAX then Inl (Err NLE_RANGE)
      else if u32 kind > NL_CB_KIND_MAX then Inl (Err NLE_RANGE)
      else if kind = NL_CB_CUSTOM then
        Inr (cb\<lparr>cb_set := (cb_set cb)[nat type := func], cb_args := (cb_args cb)[nat type := arg]\<rparr>)
      else
        Inr (cb\<lparr>cb_set := (cb_set cb)[nat type := cb_def (nat type) kind],
                cb_args := (cb_args cb)[nat type := arg]\<rparr>))"

text \<open>The loop of \<open>nl_cb_set_all\<close>: it stops at the first error.\<close>

fun nl_cb_set_from ::
  "nat list \<Rightarrow> ('a, 'u) nl_cb \<Rightarrow> int \<Rightarrow> ('a, 'u) msg_cb option \<Rightarrow> 'a option \<Rightarrow> ('a, 'u) nl_cb res" where
  "nl_cb_set_from [] cb kind func arg = Inr cb"
| "nl_cb_set_from (i # is) cb kind func arg =
     (case nl_cb_set cb (int i) kind func arg of
        Inl e \<Rightarrow> Inl e
      | Inr cb \<Rightarrow> nl_cb_set_from is cb kind func arg)"

definition nl_cb_set_all ::
  "('a, 'u) nl_cb \<Rightarrow> int \<Rightarrow> ('a, 'u) msg_cb option \<Rightarrow> 'a option \<Rightarrow> ('a, 'u) nl_cb res" where
  "nl_cb_set_all cb kind func arg = nl_cb_set_from [0..<NL_CB_TYPE_MAX + 1] cb kind func arg"

definition nl_cb_err ::
  "('a, 'u) nl_cb \<Rightarrow> int \<Rightarrow> ('a, 'u) err_cb option \<Rightarrow> 'a option \<Rightarrow> ('a, 'u) nl_cb res" where
  "nl_cb_err cb kind func arg =
     (if u32 kind > NL_CB_KIND_MAX then Inl (Err NLE_RANGE)
      else if kind = NL_CB_CUSTOM then Inr (cb\<lparr>cb_err := func, cb_err_arg := arg\<rparr>)
      else Inr (cb\<lparr>cb_err := cb_err_def kind, cb_err_arg := arg\<rparr>))"

text \<open>\<open>nl_cb_alloc\<close> ignores the return values of the setters; a failed one changes nothing.\<close>

definition ignore_err :: "'b \<Rightarrow> 'b res \<Rightarrow> 'b" where
  "ignore_err x r = (case r of Inl _ \<Rightarrow> x | Inr y \<Rightarrow> y)"

definition nl_cb_alloc :: "bool \<Rightarrow> int \<Rightarrow> ('a, 'u) nl_cb option" where
  "nl_cb_alloc a1 kind =
     (if u32 kind > NL_CB_KIND_MAX then None
      else if \<not> a1 then None
      else
        let cb = \<lparr>cb_set = replicate (NL_CB_TYPE_MAX + 1) None,
                  cb_args = replicate (NL_CB_TYPE_MAX + 1) None, cb_err = None, cb_err_arg = None,
                  cb_recvmsgs_ow = None, cb_recv_ow = None, cb_send_ow = None,
                  cb_refcnt = 1, cb_active = int NL_CB_TYPE_MAX + 1\<rparr>;
            cb = fold (\<lambda>i cb. ignore_err cb (nl_cb_set cb (int i) kind None None))
                   [0..<NL_CB_TYPE_MAX + 1] cb
        in Some (ignore_err cb (nl_cb_err cb kind None None)))"

definition nl_cb_clone :: "bool \<Rightarrow> ('a, 'u) nl_cb \<Rightarrow> ('a, 'u) nl_cb option" where
  "nl_cb_clone a1 orig =
     (case (nl_cb_alloc a1 NL_CB_DEFAULT :: ('a, 'u) nl_cb option) of
        None \<Rightarrow> None
      | Some cb \<Rightarrow> Some (orig\<lparr>cb_refcnt := 1\<rparr>))"

definition nl_cb_get :: "('a, 'u) nl_cb \<Rightarrow> ('a, 'u) nl_cb" where
  "nl_cb_get cb = cb\<lparr>cb_refcnt := cb_refcnt cb + 1\<rparr>"

definition nl_cb_put :: "('a, 'u) nl_cb option \<Rightarrow> ('a, 'u) nl_cb option res" where
  "nl_cb_put c =
     (case c of
        None \<Rightarrow> Inr None
      | Some cb \<Rightarrow>
          (let cb = cb\<lparr>cb_refcnt := cb_refcnt cb - 1\<rparr> in
           if cb_refcnt cb < 0 then Inl Bug
           else if cb_refcnt cb \<le> 0 then Inr None
           else Inr (Some cb)))"

definition nl_cb_active_type :: "('a, 'u) nl_cb \<Rightarrow> int" where
  "nl_cb_active_type cb = cb_active cb"

definition nl_cb_overwrite_recvmsgs ::
  "('a, 'u) nl_cb \<Rightarrow> (nl_sock \<Rightarrow> 'u \<Rightarrow> int \<times> nl_sock \<times> 'u) option \<Rightarrow> ('a, 'u) nl_cb" where
  "nl_cb_overwrite_recvmsgs cb func = cb\<lparr>cb_recvmsgs_ow := func\<rparr>"

definition nl_cb_overwrite_recv ::
  "('a, 'u) nl_cb \<Rightarrow> (nl_sock \<Rightarrow> 'u \<Rightarrow> recv_result \<times> nl_sock \<times> 'u) option \<Rightarrow> ('a, 'u) nl_cb" where
  "nl_cb_overwrite_recv cb func = cb\<lparr>cb_recv_ow := func\<rparr>"

definition nl_cb_overwrite_send ::
  "('a, 'u) nl_cb \<Rightarrow> (nl_sock \<Rightarrow> nl_msg \<Rightarrow> 'u \<Rightarrow> int \<times> nl_sock \<times> nl_msg \<times> 'u) option \<Rightarrow> ('a, 'u) nl_cb" where
  "nl_cb_overwrite_send cb func = cb\<lparr>cb_send_ow := func\<rparr>"

text \<open>
  \<open>nl_cb_call\<close> invokes a registered callback; it marks the type as active for the time of
  the call and resets the mark afterwards, so that the set is left with the mark cleared.
\<close>

definition nl_cb_call :: "('a, 'u) nl_cb \<Rightarrow> nat \<Rightarrow> nl_msg \<Rightarrow> 'u \<Rightarrow> (int \<times> 'u) res" where
  "nl_cb_call cb type msg u =
     (case cb_set cb ! type of
        None \<Rightarrow> Inl Undef
      | Some f \<Rightarrow> Inr (f msg (cb_args cb ! type) u))"

interpretation cb_ref: refcounted cb_refcnt nl_cb_get nl_cb_put
  by unfold_locales (auto simp: nl_cb_get_def nl_cb_put_def Let_def)

section \<open>Lemmas\<close>

definition wf_cb :: "('a, 'u) nl_cb \<Rightarrow> bool" where
  "wf_cb cb \<longleftrightarrow> length (cb_set cb) = 11 \<and> length (cb_args cb) = 11 \<and> 0 < cb_refcnt cb"

lemma nl_cb_set_wf:
  assumes "wf_cb cb" "nl_cb_set cb type kind func arg = Inr cb'"
  shows "wf_cb cb'"
  using assms by (auto simp: nl_cb_set_def wf_cb_def split: if_splits)

text \<open>A slot is written by \<open>nl_cb_set\<close> of its own type only.\<close>

lemma nl_cb_set_slots:
  assumes "wf_cb cb" "0 \<le> type" "type \<le> 10" "0 \<le> kind" "kind \<le> 3"
  shows "\<exists>cb'. nl_cb_set cb type kind func arg = Inr cb' \<and>
    cb_set cb' ! nat type = (if kind = NL_CB_CUSTOM then func else cb_def (nat type) kind) \<and>
    cb_args cb' ! nat type = arg \<and>
    (\<forall>i. i \<noteq> nat type \<longrightarrow> cb_set cb' ! i = cb_set cb ! i \<and> cb_args cb' ! i = cb_args cb ! i) \<and>
    cb_err cb' = cb_err cb \<and> cb_recv_ow cb' = cb_recv_ow cb \<and> cb_recvmsgs_ow cb' = cb_recvmsgs_ow cb"
  using assms by (auto simp: nl_cb_set_def wf_cb_def NL_CB_TYPE_MAX_def NL_CB_KIND_MAX_def)

text \<open>The default set has no callback at all.\<close>

lemma cb_def_default: "cb_def i NL_CB_DEFAULT = None"
  by (simp add: cb_def_def NL_CB_DEFAULT_def NL_CB_VERBOSE_def NL_CB_DEBUG_def)

lemma cb_err_def_default: "cb_err_def NL_CB_DEFAULT = None"
  by (simp add: cb_err_def_def NL_CB_DEFAULT_def NL_CB_VERBOSE_def NL_CB_DEBUG_def)

lemma ignore_err_simps [simp]: "ignore_err x (Inr y) = y" "ignore_err x (Inl e) = x"
  by (simp_all add: ignore_err_def)

lemma replicate_update: "(replicate n x)[i := x] = replicate n x"
  by (cases "i < n") (simp_all add: list_update_same_conv list_update_beyond)

lemma nl_cb_set_default:
  assumes "cb_set cb = replicate n None" "cb_args cb = replicate n None"
  shows "ignore_err cb (nl_cb_set cb type NL_CB_DEFAULT None None) = cb"
proof -
  have "cb\<lparr>cb_set := replicate n None, cb_args := replicate n None\<rparr> = cb"
    using assms by (cases cb) simp
  then show ?thesis
    using assms by (auto simp: ignore_err_def nl_cb_set_def cb_def_default replicate_update split: if_splits)
qed

lemma fold_cb_set_default:
  assumes "cb_set cb = replicate n None" "cb_args cb = replicate n None"
  shows "fold (\<lambda>i cb. ignore_err cb (nl_cb_set cb (int i) NL_CB_DEFAULT None None)) xs cb = cb"
  using assms nl_cb_set_default [of cb n] by (induction xs) simp_all

lemma nl_cb_alloc_default:
  "nl_cb_alloc True NL_CB_DEFAULT = Some \<lparr>cb_set = replicate 11 None, cb_args = replicate 11 None,
     cb_err = None, cb_err_arg = None, cb_recvmsgs_ow = None, cb_recv_ow = None, cb_send_ow = None,
     cb_refcnt = 1, cb_active = 11\<rparr>"
proof -
  have k: "\<not> u32 NL_CB_DEFAULT > NL_CB_KIND_MAX" "NL_CB_DEFAULT \<noteq> NL_CB_CUSTOM"
    by (simp_all add: cb_consts)
  show ?thesis
    unfolding nl_cb_alloc_def Let_def nl_cb_err_def NL_CB_TYPE_MAX_def
    using k by (simp add: fold_cb_set_default [where n = 11] cb_err_def_default del: replicate.simps upt.simps)
qed

end
