(* ===== verification/Nl_Port.thy ===== *)
theory Nl_Port
  imports Nl_Prelude
begin

unbundle bit_operations_syntax

text \<open>
  The allocator of local ports (\<open>lib/socket.c\<close>): a process has 1024 ports, the upper ten bits
  of the port, recorded in a bitmap of 32 words; the lower 22 bits are the process id. The
  bitmap and the walk state \<open>idx_state\<close> are static variables, here a record.
\<close>

record ports =
  used_ports_map :: "int list"
  idx_state :: int

text \<open>The inner loop: the bit it stops at, and whether that bit is free.\<close>

fun port_bit_loop :: "int \<Rightarrow> nat \<Rightarrow> int \<Rightarrow> int \<times> bool" where
  "port_bit_loop w 0 n = (n, False)"
| "port_bit_loop w (Suc m) n =
     (let n = (n + 13) mod 32 in
      if 1 AND drop_bit (nat n) w \<noteq> 0 then port_bit_loop w m n else (n, True))"

text \<open>The outer loop, with \<open>k\<close> rounds to go (\<open>j = 31\<close> is the last one): block and bit.\<close>

fun port_block_loop :: "int list \<Rightarrow> nat \<Rightarrow> int \<Rightarrow> int \<Rightarrow> (int \<times> int) option" where
  "port_block_loop used 0 i n = None"
| "port_block_loop used (Suc k) i n =
     (let i = (if k = 0 then 0 else (((i - 1) + 7) mod 31) + 1) in
      if used ! nat i = 4294967295 then port_block_loop used k i n
      else
        case port_bit_loop (used ! nat i) 32 n of
          (n, True) \<Rightarrow> Some (i, n)
        | (n, False) \<Rightarrow> port_block_loop used k i n)"

text \<open>\<open>getpid\<close> and \<open>time\<close> are arguments.\<close>

definition generate_local_port :: "int \<Rightarrow> int \<Rightarrow> ports \<Rightarrow> ports \<times> int" where
  "generate_local_port getpid t st =
     (let pid = getpid AND 4194303;
          idx = (if idx_state st = 0 then u16 (t XOR (drop_bit 16 t) XOR 12359)
                 else u16 (idx_state st + 20011));
          st = st\<lparr>idx_state := idx\<rparr> in
      case port_block_loop (used_ports_map st) 32 (drop_bit 5 idx) idx of
        None \<Rightarrow> (st, 0)
      | Some (i, n) \<Rightarrow>
          (let w = used_ports_map st ! nat i;
               st = st\<lparr>used_ports_map := (used_ports_map st)[nat i := w OR push_bit (nat n) 1]\<rparr>;
               n = n + i * 32;
               pid = u32 (pid + u32 (push_bit 22 n))
           in (st, if pid \<noteq> 0 then pid else 1024)))"

definition release_local_port :: "int \<Rightarrow> ports \<Rightarrow> ports res" where
  "release_local_port port st =
     (if port = 0 then Inl Bug
      else
        let nr = drop_bit 22 port;
            mask = push_bit (nat (nr mod 32)) 1;
            nr = nr div 32;
            w = used_ports_map st ! nat nr in
        if w AND mask \<noteq> mask then Inl Bug
        else Inr (st\<lparr>used_ports_map := (used_ports_map st)[nat nr := w AND NOT mask]\<rparr>))"

text \<open>Release every port of a second bitmap; nothing happens when it is empty.\<close>

fun release_blocks :: "int list \<Rightarrow> int list \<Rightarrow> int list res" where
  "release_blocks (u # us) (p # ps) =
     (if u AND p \<noteq> p then Inl Bug
      else case release_blocks us ps of Inl e \<Rightarrow> Inl e | Inr r \<Rightarrow> Inr ((u AND NOT p) # r))"
| "release_blocks us ps = Inr us"

fun used_ports_release_all_loop :: "int list \<Rightarrow> int list \<Rightarrow> int list res" where
  "used_ports_release_all_loop (u # us) (p # ps) =
     (if p \<noteq> 0 then release_blocks (u # us) (p # ps)
      else case used_ports_release_all_loop us ps of Inl e \<Rightarrow> Inl e | Inr r \<Rightarrow> Inr (u # r))"
| "used_ports_release_all_loop us ps = Inr us"

definition nl_socket_used_ports_release_all :: "int list \<Rightarrow> ports \<Rightarrow> ports res" where
  "nl_socket_used_ports_release_all used_ports st =
     (case used_ports_release_all_loop (used_ports_map st) used_ports of
        Inl e \<Rightarrow> Inl e
      | Inr m \<Rightarrow> Inr (st\<lparr>used_ports_map := m\<rparr>))"

definition nl_socket_used_ports_set :: "int list \<Rightarrow> int \<Rightarrow> int list" where
  "nl_socket_used_ports_set used_ports port =
     (let nr = drop_bit 22 port;
          mask = push_bit (nat (nr mod 32)) 1;
          nr = nr div 32
      in used_ports[nat nr := used_ports ! nat nr OR mask])"

section \<open>The ports in use as a set\<close>

definition bits_of :: "int list \<Rightarrow> nat set" where
  "bits_of used = {k. k < 1024 \<and> bit (used ! (k div 32)) (k mod 32)}"

abbreviation held :: "ports \<Rightarrow> nat set" where
  "held st \<equiv> bits_of (used_ports_map st)"

definition port_nr :: "int \<Rightarrow> nat" where
  "port_nr port = nat (port div 4194304)"

definition wf_map :: "int list \<Rightarrow> bool" where
  "wf_map used \<longleftrightarrow> length used = 32 \<and> (\<forall>w \<in> set used. 0 \<le> w \<and> w < 4294967296)"

definition wf_ports :: "ports \<Rightarrow> bool" where
  "wf_ports st \<longleftrightarrow> wf_map (used_ports_map st) \<and> 0 \<le> idx_state st \<and> idx_state st < 65536"

lemma drop22: "drop_bit 22 port = port div (4194304::int)"
  by (simp add: drop_bit_eq_div)

lemma test_bit: "1 AND drop_bit n (w::int) \<noteq> 0 \<longleftrightarrow> bit w n"
  by (simp add: and.commute [of 1] and_one_eq mod_2_eq_odd bit_iff_odd drop_bit_eq_div)

lemma bits_of_set:
  assumes "length used = 32" "i < 32" "n < 32"
  shows "bits_of (used[i := used ! i OR push_bit n 1]) = insert (i * 32 + n) (bits_of used)"
proof -
  have "k div 32 = i \<and> k mod 32 = n \<longleftrightarrow> k = i * 32 + n" for k using assms by auto
  moreover have "i * 32 + n < 1024" using assms by simp
  ultimately show ?thesis
    using assms by (auto simp: bits_of_def nth_list_update bit_simps)
qed

lemma bits_of_clear:
  assumes "length used = 32" "i < 32" "n < 32"
  shows "bits_of (used[i := used ! i AND NOT (push_bit n 1)]) = bits_of used - {i * 32 + n}"
  using assms by (auto simp: bits_of_def nth_list_update bit_simps)

section \<open>The walk finds a free port whenever there is one\<close>

lemma full_word: "0 \<le> (w::int) \<Longrightarrow> w < 4294967296 \<Longrightarrow> \<forall>n < 32. bit w n \<Longrightarrow> w = 4294967295"
proof -
  assume w: "0 \<le> (w::int)" "w < 4294967296" and b: "\<forall>n < 32. bit w n"
  have "w = take_bit 32 w" using w by (simp add: take_bit_eq_mod)
  also have "\<dots> = mask 32" by (rule bit_eqI) (use b in \<open>auto simp: bit_simps\<close>)
  finally show ?thesis by (simp add: mask_eq_exp_minus_1)
qed

lemma port_bit_loop_found:
  "port_bit_loop w m n = (n', True) \<Longrightarrow> \<not> bit w (nat n') \<and> 0 \<le> n' \<and> n' < 32"
proof (induction w m n rule: port_bit_loop.induct)
  case (2 w m n)
  have "0 \<le> (n + 13) mod 32" "(n + 13) mod 32 < 32" by simp_all
  then show ?case using 2 by (auto simp: Let_def test_bit split: if_splits)
qed simp

lemma port_bit_loop_miss:
  "port_bit_loop w m n = (n', False) \<Longrightarrow> 1 \<le> r \<Longrightarrow> r \<le> m \<Longrightarrow> bit w (nat ((n + 13 * int r) mod 32))"
proof (induction w m n arbitrary: r rule: port_bit_loop.induct)
  case (2 w m n)
  then have hit: "bit w (nat ((n + 13) mod 32))"
    and rest: "port_bit_loop w m ((n + 13) mod 32) = (n', False)"
    by (auto simp: Let_def test_bit split: if_splits)
  show ?case
  proof (cases "r = 1")
    case False
    then obtain q where q: "r = Suc q" "1 \<le> q" "q \<le> m" using 2(3,4) by (cases r) auto
    have "(n + 13 * int r) mod 32 = ((n + 13) mod 32 + 13 * int q) mod 32"
      unfolding q(1) by (simp add: mod_simps algebra_simps)
    then show ?thesis using 2(1) [OF refl _ rest q(2,3)] hit by (simp add: test_bit)
  qed (use hit in simp)
qed simp

text \<open>13 is a unit modulo 32 and 7 one modulo 31, so each walk meets every position.\<close>

lemma walk13: "(n + 13 * ((5 * (b - n) - 1) mod 32 + 1)) mod 32 = b mod (32::int)"
proof -
  have "(n + 13 * ((5 * (b - n) - 1) mod 32 + 1)) mod 32 = (n + 13 * (5 * (b - n) - 1 + 1)) mod 32"
    by (rule mod_add_cong [OF refl mod_mult_cong [OF refl mod_add_left_eq]])
  also have "n + 13 * (5 * (b - n) - 1 + 1) = b + 32 * (2 * (b - n))" by simp
  finally show ?thesis by (simp only: mod_mult_self2)
qed

lemma walk7: "(i + 7 * ((9 * (b - i) - 1) mod 31 + 1)) mod 31 = b mod (31::int)"
proof -
  have "(i + 7 * ((9 * (b - i) - 1) mod 31 + 1)) mod 31 = (i + 7 * (9 * (b - i) - 1 + 1)) mod 31"
    by (rule mod_add_cong [OF refl mod_mult_cong [OF refl mod_add_left_eq]])
  also have "i + 7 * (9 * (b - i) - 1 + 1) = b + 31 * (2 * (b - i))" by simp
  finally show ?thesis by (simp only: mod_mult_self2)
qed

lemma port_bit_loop_full:
  assumes "port_bit_loop w 32 n = (n', False)" "b < 32"
  shows "bit w b"
proof -
  let ?r = "nat ((5 * (int b - n) - 1) mod 32 + 1)"
  have r: "1 \<le> ?r" "?r \<le> 32" using pos_mod_bound [of 32 "5 * (int b - n) - 1"] by auto
  have "int ?r = (5 * (int b - n) - 1) mod 32 + 1" by simp
  then have "(n + 13 * int ?r) mod 32 = int b" using assms(2) walk13 [of n "int b"] by simp
  then show ?thesis using port_bit_loop_miss [OF assms(1) r] by simp
qed

lemma port_bit_loop_total:
  assumes "0 \<le> w" "w < 4294967296" "w \<noteq> 4294967295"
  shows "snd (port_bit_loop w 32 n)"
  using assms full_word [of w] port_bit_loop_full [of w n "fst (port_bit_loop w 32 n)"]
  by (cases "port_bit_loop w 32 n") auto

lemma port_block_loop_found:
  assumes "port_block_loop used k i n = Some (i', n')"
  shows "0 \<le> i' \<and> i' < 32 \<and> 0 \<le> n' \<and> n' < 32 \<and> \<not> bit (used ! nat i') (nat n')"
  using assms
proof (induction used k i n rule: port_block_loop.induct)
  case (2 used k i n)
  let ?i = "if k = 0 then 0 else (((i - 1) + 7) mod 31) + 1"
  have i: "0 \<le> ?i" "?i < 32" using pos_mod_bound [of 31 "i - 1 + 7"] pos_mod_sign [of 31 "i - 1 + 7"] by auto
  show ?case
  proof (cases "used ! nat ?i = 4294967295")
    case True
    then show ?thesis using 2 by (simp add: Let_def)
  next
    case False
    obtain m f where l: "port_bit_loop (used ! nat ?i) 32 n = (m, f)" by (cases "port_bit_loop (used ! nat ?i) 32 n")
    show ?thesis
    proof (cases f)
      case True
      then have "i' = ?i \<and> n' = m" using 2(3) False l by (auto simp: Let_def)
      then show ?thesis using port_bit_loop_found [of "used ! nat ?i" 32 n m] l True i by auto
    next
      case f: False
      then have "port_block_loop used k ?i m = Some (i', n')" using 2(3) False l by (auto simp: Let_def)
      then show ?thesis using 2(2) [OF refl False l [symmetric]] f by auto
    qed
  qed
qed simp

lemma wf_map_nth: "wf_map used \<Longrightarrow> i < 32 \<Longrightarrow> 0 \<le> used ! i \<and> used ! i < 4294967296"
  by (auto simp: wf_map_def)

lemma port_block_loop_miss:
  assumes wf: "wf_map used"
    and miss: "port_block_loop used k i n = None" "1 \<le> r" "r \<le> k"
  shows "used ! nat (if r = k then 0 else (i - 1 + 7 * int r) mod 31 + 1) = 4294967295"
  using miss
proof (induction k arbitrary: i r)
  case (Suc k)
  let ?i = "if k = 0 then 0 else (((i - 1) + 7) mod 31) + 1"
  have i: "0 \<le> ?i" "?i < 32" using pos_mod_bound [of 31 "i - 1 + 7"] pos_mod_sign [of 31 "i - 1 + 7"] by auto
  have full: "used ! nat ?i = 4294967295"
    using Suc.prems(1) port_bit_loop_total [of "used ! nat ?i" n] wf_map_nth [OF wf, of "nat ?i"] i
    by (auto simp: Let_def split: if_splits prod.splits bool.splits)
  then have rest: "port_block_loop used k ?i n = None" using Suc.prems(1) by (simp add: Let_def)
  show ?case
  proof (cases "r = 1")
    case True
    then show ?thesis using full by (simp add: add.commute split: if_splits)
  next
    case False
    then obtain q where q: "r = Suc q" "1 \<le> q" "q \<le> k" using Suc.prems by (cases r) auto
    have k: "k \<noteq> 0" using q by simp
    have "(?i - 1 + 7 * int q) mod 31 = ((i - 1 + 7) mod 31 + 7 * int q) mod 31" using k by simp
    also have "\<dots> = (i - 1 + 7 + 7 * int q) mod 31" by (simp only: mod_simps)
    also have "i - 1 + 7 + 7 * int q = i - 1 + 7 * int r" by (simp add: q(1))
    finally show ?thesis using Suc.IH [OF rest q(2,3)] by (simp only: q(1) nat.inject)
  qed
qed simp

lemma port_block_loop_full:
  assumes wf: "wf_map used" and miss: "port_block_loop used 32 i n = None" and b: "b < 32"
  shows "used ! b = 4294967295"
proof -
  note full = port_block_loop_miss [OF wf miss]
  show ?thesis
  proof (cases "b = 0")
    case True
    then show ?thesis using full [of 32] by simp
  next
    case False
    let ?r = "nat ((9 * (int b - i) - 1) mod 31 + 1)"
    have r: "1 \<le> ?r" "?r \<le> 31" using pos_mod_bound [of 31 "9 * (int b - i) - 1"] by auto
    have "int ?r = (9 * ((int b - 1) - (i - 1)) - 1) mod 31 + 1" by simp
    then have "(i - 1 + 7 * int ?r) mod 31 = (int b - 1) mod 31"
      by (simp only: walk7)
    then have "nat ((i - 1 + 7 * int ?r) mod 31 + 1) = b" using False b by simp
    then show ?thesis using full [OF r(1)] r by simp
  qed
qed

lemma or_bit_less: "0 \<le> w \<Longrightarrow> w < 4294967296 \<Longrightarrow> n < 32 \<Longrightarrow> w OR push_bit n 1 < (4294967296::int)"
proof -
  assume w: "0 \<le> w" "w < 4294967296" and n: "n < 32"
  have "take_bit 32 (w OR push_bit n 1) = w OR push_bit n 1"
    using w n by (simp add: take_bit_or take_bit_push_bit) (simp add: take_bit_eq_mod)
  moreover have "take_bit 32 (w OR push_bit n 1) < 2 ^ 32" by (rule take_bit_int_less_exp)
  ultimately show ?thesis by simp
qed

lemma wf_map_set:
  "wf_map used \<Longrightarrow> i < 32 \<Longrightarrow> n < 32 \<Longrightarrow> wf_map (used[i := used ! i OR push_bit n 1])"
  using wf_map_nth [of used i] or_bit_less [of "used ! i" n]
  by (auto simp: wf_map_def dest!: set_update_subset_insert [THEN subsetD])

lemma wf_map_clear:
  assumes "wf_map used" "i < 32"
  shows "wf_map (used[i := used ! i AND NOT m])"
proof -
  have "0 \<le> used ! i AND NOT m" "used ! i AND NOT m \<le> used ! i"
    using wf_map_nth [OF assms] AND_upper1 [of "used ! i" "NOT m"] by simp_all
  then show ?thesis using assms wf_map_nth [OF assms]
    by (auto simp: wf_map_def dest!: set_update_subset_insert [THEN subsetD])
qed

section \<open>What the operations do\<close>

text \<open>The port built from a block, a bit and the process id.\<close>

definition make_port :: "int \<Rightarrow> nat \<Rightarrow> int" where
  "make_port getpid k = (let p = getpid mod 4194304 + int k * 4194304 in if p \<noteq> 0 then p else 1024)"

lemma port_nr_make_port: "k < 1024 \<Longrightarrow> port_nr (make_port pid k) = k \<and> make_port pid k \<noteq> 0 \<and>
    0 \<le> make_port pid k \<and> make_port pid k < 4294967296"
  using pos_mod_bound [of 4194304 pid] pos_mod_sign [of 4194304 pid]
  by (auto simp: port_nr_def make_port_def Let_def)

lemma generate_local_port_cases:
  assumes wf: "wf_ports st"
  obtains (full) idx where "generate_local_port pid t st = (st\<lparr>idx_state := idx\<rparr>, 0)"
      "held st = {..<1024}" "0 \<le> idx" "idx < 65536"
  | (free) idx k where "k < 1024" "k \<notin> held st" "0 \<le> idx" "idx < 65536"
      "generate_local_port pid t st =
        (st\<lparr>idx_state := idx, used_ports_map := (used_ports_map st)[k div 32 :=
           used_ports_map st ! (k div 32) OR push_bit (k mod 32) 1]\<rparr>, make_port pid k)"
proof -
  let ?idx = "if idx_state st = 0 then u16 (t XOR (drop_bit 16 t) XOR 12359) else u16 (idx_state st + 20011)"
  let ?u = "used_ports_map st"
  have wm: "wf_map ?u" using wf by (simp add: wf_ports_def)
  have idx: "0 \<le> ?idx" "?idx < 65536" by simp_all
  show thesis
  proof (cases "port_block_loop ?u 32 (drop_bit 5 ?idx) ?idx")
    case None
    have "bit (4294967295 :: int) m \<longleftrightarrow> m < 32" for m
      using bit_mask_iff [of 32 m, where ?'a = int] by (simp add: mask_eq_exp_minus_1)
    moreover have "?u ! (k div 32) = 4294967295" if "k < 1024" for k
      using port_block_loop_full [OF wm None, of "k div 32"] that by simp
    ultimately have "held st = {..<1024}" by (auto simp: bits_of_def)
    then show thesis using None idx by (intro full [of ?idx]) (simp_all add: generate_local_port_def Let_def)
  next
    case (Some r)
    obtain i n where r: "r = (i, n)" by (cases r)
    have b: "0 \<le> i" "i < 32" "0 \<le> n" "n < 32" "\<not> bit (?u ! nat i) (nat n)"
      using port_block_loop_found Some r by auto
    define k where "k = nat i * 32 + nat n"
    have k: "k < 1024" "k div 32 = nat i" "k mod 32 = nat n" "int k = n + i * 32"
      using b by (auto simp: k_def)
    have "pid AND 4194303 = pid mod 4194304"
      using take_bit_eq_mask [of 22 pid] by (simp add: mask_eq_exp_minus_1 take_bit_eq_mod)
    moreover have "u32 (pid mod 4194304 + u32 (push_bit 22 (n + i * 32))) = pid mod 4194304 + int k * 4194304"
    proof -
      have "push_bit 22 (n + i * 32) = int k * 4194304" by (simp add: push_bit_eq_mult k)
      moreover have "0 \<le> int k * 4194304 \<and> int k * 4194304 \<le> 1023 * 4194304" using k(1) by simp
      moreover have "0 \<le> pid mod 4194304" "pid mod 4194304 < 4194304" by simp_all
      ultimately show ?thesis by simp
    qed
    ultimately have "generate_local_port pid t st =
        (st\<lparr>idx_state := ?idx, used_ports_map := ?u[nat i := ?u ! nat i OR push_bit (nat n) 1]\<rparr>, make_port pid k)"
      using Some r by (simp add: generate_local_port_def Let_def make_port_def)
    moreover have "k \<notin> held st" using b k by (simp add: bits_of_def)
    ultimately show thesis using k idx by (intro free [of k ?idx]) simp_all
  qed
qed

lemma wf_ports_idx: "wf_ports st \<Longrightarrow> 0 \<le> idx \<Longrightarrow> idx < 65536 \<Longrightarrow> wf_ports (st\<lparr>idx_state := idx\<rparr>)"
  by (simp add: wf_ports_def)

text \<open>Generating a port: failure means that all 1024 are in use; success takes a free one.\<close>

lemma generate_local_port_ok:
  assumes wf: "wf_ports st" and g: "generate_local_port pid t st = (st', p)"
  shows "wf_ports st' \<and> 0 \<le> p \<and> p < 4294967296 \<and>
    (if p = 0 then held st' = held st \<and> held st = {..<1024}
     else port_nr p < 1024 \<and> port_nr p \<notin> held st \<and> held st' = insert (port_nr p) (held st) \<and>
       p = make_port pid (port_nr p))"
proof (cases rule: generate_local_port_cases [OF wf, of pid t])
  case (1 idx)
  then show ?thesis using g wf by (auto simp: wf_ports_def)
next
  case (2 idx k)
  have w: "wf_map (used_ports_map st)" using wf by (simp add: wf_ports_def)
  have k: "k div 32 < 32" "k mod 32 < 32" "(k div 32) * 32 + k mod 32 = k" using 2(1) by auto
  note pn = port_nr_make_port [OF 2(1), of pid]
  have "held st' = insert k (held st)"
    using 2 g bits_of_set [of "used_ports_map st" "k div 32" "k mod 32"] k w by (auto simp: wf_map_def)
  moreover have "wf_ports st'"
    using 2 g wf wf_map_set [OF w k(1,2)] by (auto simp: wf_ports_def)
  moreover have "p = make_port pid k" using 2 g by simp
  ultimately show ?thesis using 2 pn by auto
qed

lemma mask_test: "w AND push_bit n 1 = push_bit n (1::int) \<longleftrightarrow> bit w n"
proof
  assume "w AND push_bit n 1 = push_bit n (1::int)"
  then have "bit (w AND push_bit n 1) n = bit (push_bit n (1::int)) n" by simp
  then show "bit w n" by (simp add: bit_simps)
next
  assume "bit w n"
  then show "w AND push_bit n 1 = push_bit n (1::int)"
    by (intro bit_eqI) (auto simp: bit_exp_iff bit_and_iff)
qed

text \<open>Releasing a port succeeds exactly on a port in use.\<close>

lemma release_local_port_eq:
  assumes wf: "wf_ports st" and p: "0 < p" "p < 4294967296"
  shows "if port_nr p \<in> held st
    then \<exists>st'. release_local_port p st = Inr st' \<and> wf_ports st' \<and> held st' = held st - {port_nr p} \<and>
      idx_state st' = idx_state st
    else release_local_port p st = Inl Bug"
proof -
  let ?nr = "p div 4194304" and ?u = "used_ports_map st"
  have nr: "0 \<le> ?nr" "?nr < 1024" using p by auto
  define i where "i = nat (?nr div 32)"
  define n where "n = nat (?nr mod 32)"
  have i: "i < 32" "n < 32" "port_nr p = i * 32 + n"
    using nr by (auto simp: i_def n_def port_nr_def nat_div_distrib nat_mod_distrib)
  have bit: "port_nr p \<in> held st \<longleftrightarrow> bit (?u ! i) n" using i by (simp add: bits_of_def)
  have r: "release_local_port p st =
      (if \<not> bit (?u ! i) n then Inl Bug
       else Inr (st\<lparr>used_ports_map := ?u[i := ?u ! i AND NOT (push_bit n 1)]\<rparr>))"
    using p mask_test [of "?u ! i" n]
    by (simp add: release_local_port_def Let_def drop22 i_def n_def)
  have w: "wf_map ?u" using wf by (simp add: wf_ports_def)
  then have "bits_of (?u[i := ?u ! i AND NOT (push_bit n 1)]) = held st - {port_nr p}"
    using bits_of_clear [of ?u i n] i by (simp add: wf_map_def)
  then show ?thesis using r bit wf wf_map_clear [OF w i(1)] by (auto simp: wf_ports_def)
qed

section \<open>Releasing a set of ports\<close>

lemma release_loop_eq: "used_ports_release_all_loop us ps = release_blocks us ps"
  by (induction us ps rule: used_ports_release_all_loop.induct) (auto split: sum.splits)

lemma release_blocks_Inr:
  assumes "length us = length ps" "\<forall>i < length us. us ! i AND ps ! i = ps ! i"
  shows "release_blocks us ps = Inr (map2 (\<lambda>u p. u AND NOT p) us ps)"
  using assms
proof (induction us ps rule: list_induct2)
  case (Cons u us p ps)
  have "u AND p = p" using Cons.prems by (elim allE [of _ 0]) simp
  moreover have "\<forall>i < length us. us ! i AND ps ! i = ps ! i"
  proof (intro allI impI)
    fix i assume "i < length us"
    then show "us ! i AND ps ! i = ps ! i" using Cons.prems by (elim allE [of _ "Suc i"]) simp
  qed
  ultimately show ?case using Cons.IH by simp
qed simp

lemma and_eq_iff_bits:
  assumes "0 \<le> p" "p < (4294967296::int)"
  shows "u AND p = p \<longleftrightarrow> (\<forall>n < 32. bit p n \<longrightarrow> bit u n)"
proof -
  have "take_bit 32 p = p" using assms by (simp add: take_bit_eq_mod)
  then have hi: "bit p n \<Longrightarrow> n < 32" for n by (metis bit_take_bit_iff)
  show ?thesis by (auto simp: bit_eq_iff bit_and_iff dest: hi)
qed

lemma release_all_ok:
  assumes wf: "wf_ports st" and wu: "wf_map used" and sub: "bits_of used \<subseteq> held st"
  shows "\<exists>st'. nl_socket_used_ports_release_all used st = Inr st' \<and> wf_ports st' \<and>
    held st' = held st - bits_of used"
proof -
  let ?u = "used_ports_map st"
  let ?r = "map2 (\<lambda>u p. u AND NOT p) ?u used"
  have w: "wf_map ?u" using wf by (simp add: wf_ports_def)
  have l: "length ?u = 32" "length used = 32" using w wu by (simp_all add: wf_map_def)
  have "?u ! i AND used ! i = used ! i" if "i < 32" for i
  proof -
    have "bit (?u ! i) n" if "n < 32" "bit (used ! i) n" for n
      using subsetD [OF sub, of "i * 32 + n"] that \<open>i < 32\<close> by (simp add: bits_of_def)
    then show ?thesis using wf_map_nth [OF wu that] by (simp add: and_eq_iff_bits)
  qed
  then have r: "release_blocks ?u used = Inr ?r" using l by (intro release_blocks_Inr) auto
  have an: "0 \<le> u AND NOT p \<and> u AND NOT p \<le> u" if "0 \<le> u" for u p :: int
    using that AND_upper1 [of u "NOT p"] by simp
  have "0 \<le> x \<and> x < 4294967296" if xr: "x \<in> set ?r" for x
  proof -
    obtain u p where "(u, p) \<in> set (zip ?u used)" "x = u AND NOT p" using xr by auto
    then show ?thesis using w an [of u p] set_zip_leftD [of u p ?u used] by (force simp: wf_map_def)
  qed
  then have "wf_map ?r" using l by (simp add: wf_map_def)
  moreover have "bits_of ?r = held st - bits_of used" using l by (auto simp: bits_of_def bit_simps)
  ultimately show ?thesis
    using r wf by (auto simp: nl_socket_used_ports_release_all_def release_loop_eq wf_ports_def)
qed

lemma used_ports_set_ok:
  assumes wu: "wf_map used" and p: "0 < p" "p < 4294967296"
  shows "wf_map (nl_socket_used_ports_set used p) \<and>
    bits_of (nl_socket_used_ports_set used p) = insert (port_nr p) (bits_of used)"
proof -
  let ?nr = "p div 4194304"
  have nr: "0 \<le> ?nr" "?nr < 1024" using p by auto
  have i: "nat (?nr div 32) < 32" "nat (?nr mod 32) < 32"
    "port_nr p = nat (?nr div 32) * 32 + nat (?nr mod 32)"
    using nr by (auto simp: port_nr_def nat_div_distrib nat_mod_distrib)
  have e: "nl_socket_used_ports_set used p = used[nat (?nr div 32) :=
      used ! nat (?nr div 32) OR push_bit (nat (?nr mod 32)) 1]"
    by (simp only: nl_socket_used_ports_set_def Let_def drop22)
  have "length used = 32" using wu by (simp add: wf_map_def)
  then show ?thesis
    unfolding e i(3) using wf_map_set [OF wu i(1,2)] bits_of_set [OF _ i(1,2), of used] by blast
qed

lemma empty_map: "wf_map (replicate 32 0)" "bits_of (replicate 32 0) = {}"
  by (auto simp: wf_map_def bits_of_def)

section \<open>The interface sockets rely on\<close>

text \<open>
  A pool of numbered identifiers: what the socket code needs of the port allocator. A client
  takes identifiers and gives them back; what it holds in between is its own.
\<close>

locale id_pool =
  fixes inv :: "'s \<Rightarrow> bool"
    and taken :: "'s \<Rightarrow> nat set"
    and nr :: "int \<Rightarrow> nat"
    and take_id :: "'e \<Rightarrow> 's \<Rightarrow> 's \<times> int"
    and give_id :: "int \<Rightarrow> 's \<Rightarrow> 's res"
    and valid_id :: "int \<Rightarrow> bool"
  assumes take_inv: "inv s \<Longrightarrow> inv (fst (take_id e s))"
    and take_fail: "inv s \<Longrightarrow> snd (take_id e s) = 0 \<Longrightarrow> taken (fst (take_id e s)) = taken s"
    and take_ok: "inv s \<Longrightarrow> snd (take_id e s) \<noteq> 0 \<Longrightarrow> valid_id (snd (take_id e s)) \<and>
      nr (snd (take_id e s)) \<notin> taken s \<and>
      taken (fst (take_id e s)) = insert (nr (snd (take_id e s))) (taken s)"
    and give_ok: "inv s \<Longrightarrow> valid_id p \<Longrightarrow> nr p \<in> taken s \<Longrightarrow>
      \<exists>s'. give_id p s = Inr s' \<and> inv s' \<and> taken s' = taken s - {nr p}"
    and give_bug: "inv s \<Longrightarrow> valid_id p \<Longrightarrow> nr p \<notin> taken s \<Longrightarrow> give_id p s = Inl Bug"
begin

text \<open>Taking an identifier and giving it back leaves the pool as it was.\<close>

lemma take_give:
  assumes "inv s" "take_id e s = (s', p)" "p \<noteq> 0"
  shows "\<exists>s''. give_id p s' = Inr s'' \<and> inv s'' \<and> taken s'' = taken s"
proof -
  have p: "valid_id p" "nr p \<notin> taken s" "taken s' = insert (nr p) (taken s)" "inv s'"
    using take_ok [of s e] take_inv [of s e] assms by auto
  then show ?thesis using give_ok [OF p(4,1)] by auto
qed

text \<open>Two identifiers taken without a release in between differ.\<close>

lemma take_twice_distinct:
  assumes "inv s" "take_id e s = (s', p)" "take_id e' s' = (s'', q)" "p \<noteq> 0" "q \<noteq> 0"
  shows "nr p \<noteq> nr q"
  using assms take_ok [of s e] take_ok [of s' e'] take_inv [of s e] by auto

text \<open>An identifier cannot be given back twice.\<close>

lemma give_twice_bug:
  assumes "inv s" "valid_id p" "nr p \<in> taken s" "give_id p s = Inr s'"
  shows "give_id p s' = Inl Bug"
  using give_ok [OF assms(1-3)] give_bug [of s' p] assms by auto

end

definition valid_port :: "int \<Rightarrow> bool" where
  "valid_port p \<longleftrightarrow> 0 < p \<and> p < 4294967296"

interpretation port_pool: id_pool wf_ports held port_nr
  "\<lambda>(pid, t). generate_local_port pid t" release_local_port valid_port
proof
  fix s :: ports and e :: "int \<times> int" and p :: int
  assume wf: "wf_ports s"
  obtain pid t where e: "e = (pid, t)" by (cases e)
  let ?g = "case e of (pid, t) \<Rightarrow> generate_local_port pid t"
  obtain s' q where g: "?g s = (s', q)" by (cases "?g s")
  note ok = generate_local_port_ok [OF wf, of pid t s' q]
  show "wf_ports (fst (?g s))" using ok g e by auto
  show "held (fst (?g s)) = held s" if "snd (?g s) = 0" using ok g e that by auto
  show "valid_port (snd (?g s)) \<and> port_nr (snd (?g s)) \<notin> held s \<and>
      held (fst (?g s)) = insert (port_nr (snd (?g s))) (held s)" if "snd (?g s) \<noteq> 0"
    using ok g e that by (auto simp: valid_port_def)
  assume "valid_port p"
  then have p: "0 < p" "p < 4294967296" by (auto simp: valid_port_def)
  show "\<exists>s'. release_local_port p s = Inr s' \<and> wf_ports s' \<and> held s' = held s - {port_nr p}"
    if "port_nr p \<in> held s"
    using release_local_port_eq [OF wf p] that by auto
  show "release_local_port p s = Inl Bug" if "port_nr p \<notin> held s"
    using release_local_port_eq [OF wf p] that by auto
qed

section \<open>Properties\<close>

text \<open>
  C26. \<open>generate_local_port\<close> returns 0 only when all 1024 ports of the process are in use;
  otherwise it returns a non-zero 32-bit port whose number was free and marks exactly that one
  as used. The port has the number in the upper ten bits and the process id in the lower 22, except
  that the number 0 of a process whose id is 0 modulo \<open>2^22\<close> is encoded as 1024.
\<close>

theorem generate_local_port_spec:
  assumes "wf_ports st"
  shows "\<exists>st' p. generate_local_port pid t st = (st', p) \<and> wf_ports st' \<and>
    (if held st = {..<1024} then p = 0 \<and> held st' = held st
     else 0 < p \<and> p < 4294967296 \<and> port_nr p < 1024 \<and> port_nr p \<notin> held st \<and>
       held st' = insert (port_nr p) (held st) \<and>
       (if pid mod 4194304 = 0 \<and> port_nr p = 0 then p = 1024 else p = int (port_nr p) * 4194304 + pid mod 4194304))"
proof -
  obtain st' p where g: "generate_local_port pid t st = (st', p)"
    by (cases "generate_local_port pid t st")
  note ok = generate_local_port_ok [OF assms g]
  have "make_port pid k = (if pid mod 4194304 = 0 \<and> k = 0 then 1024 else int k * 4194304 + pid mod 4194304)" for k
    using pos_mod_sign [of 4194304 pid] by (simp add: make_port_def Let_def) linarith
  then have id: "if pid mod 4194304 = 0 \<and> port_nr p = 0 then p = 1024 else p = int (port_nr p) * 4194304 + pid mod 4194304" if "p \<noteq> 0"
    using ok that by metis
  have "held st = {..<1024} \<longleftrightarrow> p = 0" using ok lessThan_iff by (metis)
  then show ?thesis using ok g id by auto
qed

definition no_ports :: ports where
  "no_ports = \<lparr>used_ports_map = replicate 32 0, idx_state = 0\<rparr>"

lemma wf_no_ports: "wf_ports no_ports" "held no_ports = {}"
  using empty_map by (simp_all add: wf_ports_def no_ports_def)

theorem generate_local_port_spec_witness:
  "\<exists>st' p. generate_local_port 4242 1000 no_ports = (st', p) \<and> held st' = {port_nr p} \<and>
     p = int (port_nr p) * 4194304 + 4242"
proof -
  have "{} \<noteq> {..<1024::nat}" by (metis lessThan_iff empty_iff zero_less_numeral)
  then show ?thesis
    using generate_local_port_spec [OF wf_no_ports(1), of 4242 1000] wf_no_ports(2) by auto
qed

text \<open>
  A port that was generated can be released, and generating then releasing leaves the set
  of ports in use as it was; a second release of the same port is caught by \<open>BUG_ON\<close>.
\<close>

theorem release_after_generate:
  assumes "wf_ports st" "generate_local_port pid t st = (st', p)" "p \<noteq> 0"
  shows "\<exists>st''. release_local_port p st' = Inr st'' \<and> wf_ports st'' \<and> held st'' = held st \<and>
    release_local_port p st'' = Inl Bug"
proof -
  obtain st'' where r: "release_local_port p st' = Inr st''" "wf_ports st''" "held st'' = held st"
    using port_pool.take_give [OF assms(1), of "(pid, t)" st' p] assms by auto
  have "wf_ports st'" "valid_port p" "port_nr p \<in> held st'"
    using generate_local_port_ok [OF assms(1,2)] assms(3) by (auto simp: valid_port_def)
  then show ?thesis using r port_pool.give_twice_bug by blast
qed

theorem release_after_generate_witness:
  "\<exists>st' p st''. generate_local_port 4242 1000 no_ports = (st', p) \<and>
     release_local_port p st' = Inr st'' \<and> held st'' = {}"
proof -
  obtain st' p where g: "generate_local_port 4242 1000 no_ports = (st', p)"
    by (cases "generate_local_port 4242 1000 no_ports")
  have "p \<noteq> 0"
    using generate_local_port_ok [OF wf_no_ports(1) g] wf_no_ports(2) by (auto simp: lessThan_empty_iff)
  from release_after_generate [OF wf_no_ports(1) g this] show ?thesis using g wf_no_ports(2) by auto
qed

end
