(* ===== verification/Nl_Socket.thy ===== *)
theory Nl_Socket
  imports Nl_Handlers Nl_Port
begin

unbundle bit_operations_syntax

text \<open>
  \<open>lib/socket.c\<close> and the connection part of \<open>lib/nl.c\<close>. System calls are fields of a record of
  functions over a kernel state \<open>'k\<close>: each returns an \<open>errno\<close> (0 for success) or a result, and
  the new kernel state. The static port map of the process is threaded as \<open>ports\<close>; callback
  sets live in a heap indexed by address.
\<close>

section \<open>System calls\<close>

record 'k kernel =
  sys_getpid :: int
  sys_time :: "'k \<Rightarrow> int"
  sys_socket :: "int \<Rightarrow> 'k \<Rightarrow> (int \<times> int) \<times> 'k"
  sys_setsockopt :: "int \<Rightarrow> int \<Rightarrow> int \<Rightarrow> int \<Rightarrow> 'k \<Rightarrow> int \<times> 'k"
  sys_getsockopt :: "int \<Rightarrow> int \<Rightarrow> 'k \<Rightarrow> int \<times> int \<times> int"
  sys_bind :: "int \<Rightarrow> sockaddr_nl \<Rightarrow> 'k \<Rightarrow> int \<times> 'k"
  sys_getsockname :: "int \<Rightarrow> 'k \<Rightarrow> int \<times> int \<times> sockaddr_nl"
  sys_set_nonblock :: "int \<Rightarrow> 'k \<Rightarrow> int \<times> 'k"
  sys_close :: "int \<Rightarrow> 'k \<Rightarrow> 'k"

definition AF_NETLINK :: int where "AF_NETLINK = 16"
definition SOL_SOCKET :: int where "SOL_SOCKET = 1"
definition SOL_NETLINK :: int where "SOL_NETLINK = 270"
definition SO_TYPE :: int where "SO_TYPE = 3"
definition SO_SNDBUF :: int where "SO_SNDBUF = 7"
definition SO_RCVBUF :: int where "SO_RCVBUF = 8"
definition SO_PASSCRED :: int where "SO_PASSCRED = 16"
definition SO_PROTOCOL :: int where "SO_PROTOCOL = 38"
definition SOCK_RAW :: int where "SOCK_RAW = 3"
definition NETLINK_ADD_MEMBERSHIP :: int where "NETLINK_ADD_MEMBERSHIP = 1"
definition NETLINK_DROP_MEMBERSHIP :: int where "NETLINK_DROP_MEMBERSHIP = 2"
definition NETLINK_PKTINFO :: int where "NETLINK_PKTINFO = 3"
definition EADDRINUSE :: int where "EADDRINUSE = 98"
definition ENOPROTOOPT :: int where "ENOPROTOOPT = 92"
definition sizeof_sockaddr_nl :: int where "sizeof_sockaddr_nl = 12"

definition NL_SOCK_PASSCRED :: int where "NL_SOCK_PASSCRED = push_bit 1 1"
definition NL_OWN_PORT :: int where "NL_OWN_PORT = push_bit 2 1"
definition NL_MSG_PEEK :: int where "NL_MSG_PEEK = push_bit 3 1"
definition NL_MSG_PEEK_EXPLICIT :: int where "NL_MSG_PEEK_EXPLICIT = push_bit 4 1"
definition NL_NO_AUTO_ACK :: int where "NL_NO_AUTO_ACK = push_bit 5 1"

abbreviation has_flag :: "nl_sock \<Rightarrow> int \<Rightarrow> bool" where
  "has_flag sk f \<equiv> s_flags sk AND f \<noteq> 0"

abbreviation set_pid :: "int \<Rightarrow> nl_sock \<Rightarrow> nl_sock" where
  "set_pid p sk \<equiv> sk\<lparr>s_local := (s_local sk)\<lparr>nl_pid := p\<rparr>\<rparr>"

section \<open>Allocation\<close>

type_synonym ('a, 'u) cb_heap = "nat \<Rightarrow> ('a, 'u) nl_cb option"

definition cb_get_at :: "nat \<Rightarrow> ('a, 'u) cb_heap \<Rightarrow> ('a, 'u) cb_heap res" where
  "cb_get_at c h = (case h c of None \<Rightarrow> Inl Undef | Some cb \<Rightarrow> Inr (h(c := Some (nl_cb_get cb))))"

definition cb_put_at :: "nat \<Rightarrow> ('a, 'u) cb_heap \<Rightarrow> ('a, 'u) cb_heap res" where
  "cb_put_at c h =
     (case h c of
        None \<Rightarrow> Inl Undef
      | Some cb \<Rightarrow> (case nl_cb_put (Some cb) of Inl e \<Rightarrow> Inl e | Inr r \<Rightarrow> Inr (h(c := r))))"

definition alloc_socket ::
  "bool \<Rightarrow> int \<Rightarrow> nat \<Rightarrow> ('a, 'u) cb_heap \<Rightarrow> (nl_sock option \<times> ('a, 'u) cb_heap) res" where
  "alloc_socket a1 t cb h =
     (if \<not> a1 then Inr (None, h)
      else case cb_get_at cb h of
        Inl e \<Rightarrow> Inl e
      | Inr h \<Rightarrow> Inr (Some
          \<lparr>s_local = no_addr\<lparr>nl_family := AF_NETLINK\<rparr>, s_peer = no_addr\<lparr>nl_family := AF_NETLINK\<rparr>,
           s_fd = -1, s_proto = 0, s_seq_next = u32 t, s_seq_expect = u32 t,
           s_flags = NL_OWN_PORT, s_cb = cb, s_bufsize = 0\<rparr>, h))"

text \<open>\<open>c\<close>: the address the allocator returns for the callback set.\<close>

definition nl_socket_alloc ::
  "bool \<Rightarrow> bool \<Rightarrow> int \<Rightarrow> int \<Rightarrow> nat \<Rightarrow> ('a, 'u) cb_heap \<Rightarrow> (nl_sock option \<times> ('a, 'u) cb_heap) res" where
  "nl_socket_alloc a1 a2 default_cb t c h =
     (case nl_cb_alloc a1 default_cb of
        None \<Rightarrow> Inr (None, h)
      | Some cb \<Rightarrow>
          (case alloc_socket a2 t c (h(c := Some cb)) of
             Inl e \<Rightarrow> Inl e
           | Inr (sk, h) \<Rightarrow> (case cb_put_at c h of Inl e \<Rightarrow> Inl e | Inr h \<Rightarrow> Inr (sk, h))))"

definition nl_socket_alloc_cb ::
  "bool \<Rightarrow> int \<Rightarrow> nat option \<Rightarrow> ('a, 'u) cb_heap \<Rightarrow> (nl_sock option \<times> ('a, 'u) cb_heap) res" where
  "nl_socket_alloc_cb a1 t cb h =
     (case cb of None \<Rightarrow> Inl Bug | Some c \<Rightarrow> alloc_socket a1 t c h)"

definition nl_socket_free ::
  "'k kernel \<Rightarrow> nl_sock option \<Rightarrow> ports \<Rightarrow> ('a, 'u) cb_heap \<Rightarrow> 'k \<Rightarrow> (ports \<times> ('a, 'u) cb_heap \<times> 'k) res" where
  "nl_socket_free K s st h k =
     (case s of
        None \<Rightarrow> Inr (st, h, k)
      | Some sk \<Rightarrow>
          (let k = (if s_fd sk \<ge> 0 then sys_close K (s_fd sk) k else k) in
           case (if \<not> has_flag sk NL_OWN_PORT then release_local_port (nl_pid (s_local sk)) st
                 else Inr st) of
             Inl e \<Rightarrow> Inl e
           | Inr st \<Rightarrow> (case cb_put_at (s_cb sk) h of Inl e \<Rightarrow> Inl e | Inr h \<Rightarrow> Inr (st, h, k))))"

section \<open>Sequence numbers and acknowledgements\<close>

definition noop_seq_check :: "('a, 'u) msg_cb" where
  "noop_seq_check msg arg u = (NL_OK, u)"

definition nl_socket_disable_seq_check :: "nl_sock \<Rightarrow> ('a, 'u) cb_heap \<Rightarrow> ('a, 'u) cb_heap res" where
  "nl_socket_disable_seq_check sk h =
     (case h (s_cb sk) of
        None \<Rightarrow> Inl Undef
      | Some cb \<Rightarrow> Inr (h(s_cb sk := Some (ignore_err cb
          (nl_cb_set cb (int NL_CB_SEQ_CHECK) NL_CB_CUSTOM (Some noop_seq_check) None)))))"

definition nl_socket_use_seq :: "nl_sock \<Rightarrow> nl_sock \<times> int" where
  "nl_socket_use_seq sk = (sk\<lparr>s_seq_next := u32 (s_seq_next sk + 1)\<rparr>, s_seq_next sk)"

definition nl_socket_disable_auto_ack :: "nl_sock \<Rightarrow> nl_sock" where
  "nl_socket_disable_auto_ack sk = sk\<lparr>s_flags := s_flags sk OR NL_NO_AUTO_ACK\<rparr>"

definition nl_socket_enable_auto_ack :: "nl_sock \<Rightarrow> nl_sock" where
  "nl_socket_enable_auto_ack sk = sk\<lparr>s_flags := s_flags sk AND NOT NL_NO_AUTO_ACK\<rparr>"

section \<open>The local port\<close>

definition nl_socket_is_local_port_unspecified :: "nl_sock \<Rightarrow> bool" where
  "nl_socket_is_local_port_unspecified sk \<longleftrightarrow> nl_pid (s_local sk) = 0"

definition nl_socket_set_local_port_no_release ::
  "int \<Rightarrow> int \<Rightarrow> nl_sock \<Rightarrow> bool \<Rightarrow> ports \<Rightarrow> nl_sock \<times> ports \<times> int" where
  "nl_socket_set_local_port_no_release getpid t sk generate_other st =
     (let (st, port) = (if generate_other then generate_local_port getpid t st else (st, 0));
          sk = set_pid port sk;
          sk = (if port = 0 then sk\<lparr>s_flags := s_flags sk OR NL_OWN_PORT\<rparr>
                else sk\<lparr>s_flags := s_flags sk AND NOT NL_OWN_PORT\<rparr>)
      in (sk, st, port))"

definition nl_socket_get_local_port ::
  "int \<Rightarrow> int \<Rightarrow> nl_sock \<Rightarrow> ports \<Rightarrow> nl_sock \<times> ports \<times> int" where
  "nl_socket_get_local_port getpid t sk st =
     (if nl_pid (s_local sk) = 0 then
        (let (st, port) = generate_local_port getpid t st;
             sk = set_pid port sk;
             sk = (if nl_pid (s_local sk) = 0
                   then (set_pid 4294967295 sk)\<lparr>s_flags := s_flags sk OR NL_OWN_PORT\<rparr>
                   else sk\<lparr>s_flags := s_flags sk AND NOT NL_OWN_PORT\<rparr>)
         in (sk, st, nl_pid (s_local sk)))
      else (sk, st, nl_pid (s_local sk)))"

definition nl_socket_set_local_port :: "nl_sock \<Rightarrow> int \<Rightarrow> ports \<Rightarrow> (nl_sock \<times> ports) res" where
  "nl_socket_set_local_port sk port st =
     (case (if \<not> has_flag sk NL_OWN_PORT then release_local_port (nl_pid (s_local sk)) st
            else Inr st) of
        Inl e \<Rightarrow> Inl e
      | Inr st \<Rightarrow> Inr (set_pid port (sk\<lparr>s_flags := s_flags sk OR NL_OWN_PORT\<rparr>), st))"

section \<open>Group memberships\<close>

text \<open>The variable arguments up to the terminating 0 are the list \<open>groups\<close>.\<close>

fun membership_loop ::
  "'k kernel \<Rightarrow> int \<Rightarrow> nl_sock \<Rightarrow> int list \<Rightarrow> 'k \<Rightarrow> 'k \<times> unit res" where
  "membership_loop K opt sk [] k = (k, Inr ())"
| "membership_loop K opt sk (grp # groups) k =
     (if grp = 0 then (k, Inr ())
      else if grp < 0 then (k, Inl (Err NLE_INVAL))
      else
        case sys_setsockopt K (s_fd sk) SOL_NETLINK opt grp k of
          (errno, k) \<Rightarrow>
            if errno \<noteq> 0 then (k, Inl (Err (nl_syserr2nlerr errno)))
            else membership_loop K opt sk groups k)"

definition nl_socket_add_memberships ::
  "'k kernel \<Rightarrow> nl_sock \<Rightarrow> int list \<Rightarrow> 'k \<Rightarrow> 'k \<times> unit res" where
  "nl_socket_add_memberships K sk groups k =
     (if s_fd sk = -1 then (k, Inl (Err NLE_BAD_SOCK))
      else membership_loop K NETLINK_ADD_MEMBERSHIP sk groups k)"

definition nl_socket_add_membership :: "'k kernel \<Rightarrow> nl_sock \<Rightarrow> int \<Rightarrow> 'k \<Rightarrow> 'k \<times> unit res" where
  "nl_socket_add_membership K sk grp k = nl_socket_add_memberships K sk [grp, 0] k"

definition nl_socket_drop_memberships ::
  "'k kernel \<Rightarrow> nl_sock \<Rightarrow> int list \<Rightarrow> 'k \<Rightarrow> 'k \<times> unit res" where
  "nl_socket_drop_memberships K sk groups k =
     (if s_fd sk = -1 then (k, Inl (Err NLE_BAD_SOCK))
      else membership_loop K NETLINK_DROP_MEMBERSHIP sk groups k)"

definition nl_socket_drop_membership :: "'k kernel \<Rightarrow> nl_sock \<Rightarrow> int \<Rightarrow> 'k \<Rightarrow> 'k \<times> unit res" where
  "nl_socket_drop_membership K sk grp k = nl_socket_drop_memberships K sk [grp, 0] k"

definition nl_join_groups :: "nl_sock \<Rightarrow> int \<Rightarrow> nl_sock" where
  "nl_join_groups sk groups =
     sk\<lparr>s_local := (s_local sk)\<lparr>nl_groups := u32 (nl_groups (s_local sk) OR groups)\<rparr>\<rparr>"

section \<open>Peer and descriptor\<close>

definition nl_socket_get_peer_port :: "nl_sock \<Rightarrow> int" where
  "nl_socket_get_peer_port sk = nl_pid (s_peer sk)"

definition nl_socket_set_peer_port :: "nl_sock \<Rightarrow> int \<Rightarrow> nl_sock" where
  "nl_socket_set_peer_port sk port = sk\<lparr>s_peer := (s_peer sk)\<lparr>nl_pid := port\<rparr>\<rparr>"

definition nl_socket_get_peer_groups :: "nl_sock \<Rightarrow> int" where
  "nl_socket_get_peer_groups sk = nl_groups (s_peer sk)"

definition nl_socket_set_peer_groups :: "nl_sock \<Rightarrow> int \<Rightarrow> nl_sock" where
  "nl_socket_set_peer_groups sk groups = sk\<lparr>s_peer := (s_peer sk)\<lparr>nl_groups := groups\<rparr>\<rparr>"

definition nl_socket_get_fd :: "nl_sock \<Rightarrow> int" where
  "nl_socket_get_fd sk = s_fd sk"

text \<open>The protocol \<open>nl_socket_set_fd\<close> settles on (\<open>SO_PROTOCOL\<close> is defined on Linux).\<close>

definition set_fd_protocol :: "'k kernel \<Rightarrow> int \<Rightarrow> int \<Rightarrow> 'k \<Rightarrow> int res" where
  "set_fd_protocol K protocol fd k =
     (case sys_getsockopt K fd SO_PROTOCOL k of
        (errno, optlen, so_protocol) \<Rightarrow>
          if errno \<noteq> 0 then
            (if errno = ENOPROTOOPT then
               (if protocol < 0 then Inl (Err NLE_INVAL) else Inr protocol)
             else Inl (Err (nl_syserr2nlerr errno)))
          else if optlen \<noteq> 4 then Inl (Err NLE_INVAL)
          else if protocol \<ge> 0 \<and> protocol \<noteq> so_protocol then Inl (Err NLE_INVAL)
          else Inr so_protocol)"

definition nl_socket_set_fd ::
  "'k kernel \<Rightarrow> nl_sock \<Rightarrow> int \<Rightarrow> int \<Rightarrow> ports \<Rightarrow> 'k \<Rightarrow> (nl_sock \<times> ports \<times> unit res) res" where
  "nl_socket_set_fd K sk protocol fd st k =
     (let fail = (\<lambda>e. Inr (sk, st, Inl (Err e))) in
      if s_fd sk \<noteq> -1 then fail NLE_BAD_SOCK
      else if fd < 0 then fail NLE_INVAL
      else
        case sys_getsockname K fd k of
          (errno, addrlen, local) \<Rightarrow>
            if errno \<noteq> 0 then fail (nl_syserr2nlerr errno)
            else if addrlen \<noteq> sizeof_sockaddr_nl then fail NLE_INVAL
            else if nl_family local \<noteq> AF_NETLINK then fail NLE_INVAL
            else
              case sys_getsockopt K fd SO_TYPE k of
                (errno, optlen, so_type) \<Rightarrow>
                  if errno \<noteq> 0 then fail (nl_syserr2nlerr errno)
                  else if optlen \<noteq> 4 then fail NLE_INVAL
                  else if so_type \<noteq> SOCK_RAW then fail NLE_INVAL
                  else
                    case set_fd_protocol K protocol fd k of
                      Inl e \<Rightarrow> Inr (sk, st, Inl e)
                    | Inr so_protocol \<Rightarrow>
                        (case nl_socket_set_local_port sk (nl_pid local) st of
                           Inl e \<Rightarrow> Inl e
                         | Inr (sk, st) \<Rightarrow>
                             Inr (sk\<lparr>s_local := local, s_fd := fd, s_proto := so_protocol\<rparr>, st, Inr ())))"

definition nl_socket_set_nonblocking :: "'k kernel \<Rightarrow> nl_sock \<Rightarrow> 'k \<Rightarrow> 'k \<times> unit res" where
  "nl_socket_set_nonblocking K sk k =
     (if s_fd sk = -1 then (k, Inl (Err NLE_BAD_SOCK))
      else case sys_set_nonblock K (s_fd sk) k of
        (errno, k) \<Rightarrow> if errno \<noteq> 0 then (k, Inl (Err (nl_syserr2nlerr errno))) else (k, Inr ()))"

definition nl_socket_enable_msg_peek :: "nl_sock \<Rightarrow> nl_sock" where
  "nl_socket_enable_msg_peek sk =
     sk\<lparr>s_flags := s_flags sk OR (NL_MSG_PEEK OR NL_MSG_PEEK_EXPLICIT)\<rparr>"

definition nl_socket_disable_msg_peek :: "nl_sock \<Rightarrow> nl_sock" where
  "nl_socket_disable_msg_peek sk =
     sk\<lparr>s_flags := (s_flags sk OR NL_MSG_PEEK_EXPLICIT) AND NOT NL_MSG_PEEK\<rparr>"

section \<open>Callbacks of a socket\<close>

definition nl_socket_get_cb :: "nl_sock \<Rightarrow> ('a, 'u) cb_heap \<Rightarrow> (nat \<times> ('a, 'u) cb_heap) res" where
  "nl_socket_get_cb sk h =
     (case cb_get_at (s_cb sk) h of Inl e \<Rightarrow> Inl e | Inr h \<Rightarrow> Inr (s_cb sk, h))"

definition nl_socket_set_cb ::
  "nl_sock \<Rightarrow> nat option \<Rightarrow> ('a, 'u) cb_heap \<Rightarrow> (nl_sock \<times> ('a, 'u) cb_heap) res" where
  "nl_socket_set_cb sk cb h =
     (case cb of
        None \<Rightarrow> Inl Bug
      | Some c \<Rightarrow>
          (case cb_put_at (s_cb sk) h of
             Inl e \<Rightarrow> Inl e
           | Inr h \<Rightarrow>
               (case cb_get_at c h of Inl e \<Rightarrow> Inl e | Inr h \<Rightarrow> Inr (sk\<lparr>s_cb := c\<rparr>, h))))"

definition nl_socket_modify_cb ::
  "nl_sock \<Rightarrow> int \<Rightarrow> int \<Rightarrow> ('a, 'u) msg_cb option \<Rightarrow> 'a option \<Rightarrow> ('a, 'u) cb_heap \<Rightarrow>
   ('a, 'u) cb_heap res" where
  "nl_socket_modify_cb sk type kind func arg h =
     (case h (s_cb sk) of
        None \<Rightarrow> Inl Undef
      | Some cb \<Rightarrow>
          (case nl_cb_set cb type kind func arg of
             Inl e \<Rightarrow> Inl e
           | Inr cb \<Rightarrow> Inr (h(s_cb sk := Some cb))))"

definition nl_socket_modify_err_cb ::
  "nl_sock \<Rightarrow> int \<Rightarrow> ('a, 'u) err_cb option \<Rightarrow> 'a option \<Rightarrow> ('a, 'u) cb_heap \<Rightarrow> ('a, 'u) cb_heap res" where
  "nl_socket_modify_err_cb sk kind func arg h =
     (case h (s_cb sk) of
        None \<Rightarrow> Inl Undef
      | Some cb \<Rightarrow>
          (case nl_cb_err cb kind func arg of
             Inl e \<Rightarrow> Inl e
           | Inr cb \<Rightarrow> Inr (h(s_cb sk := Some cb))))"

section \<open>Buffer sizes and options\<close>

definition nl_socket_set_buffer_size ::
  "'k kernel \<Rightarrow> nl_sock \<Rightarrow> int \<Rightarrow> int \<Rightarrow> 'k \<Rightarrow> 'k \<times> unit res" where
  "nl_socket_set_buffer_size K sk rxbuf txbuf k =
     (let rxbuf = (if rxbuf \<le> 0 then 32768 else rxbuf);
          txbuf = (if txbuf \<le> 0 then 32768 else txbuf) in
      if s_fd sk = -1 then (k, Inl (Err NLE_BAD_SOCK))
      else
        case sys_setsockopt K (s_fd sk) SOL_SOCKET SO_SNDBUF txbuf k of
          (errno, k) \<Rightarrow>
            if errno \<noteq> 0 then (k, Inl (Err (nl_syserr2nlerr errno)))
            else
              case sys_setsockopt K (s_fd sk) SOL_SOCKET SO_RCVBUF rxbuf k of
                (errno, k) \<Rightarrow>
                  if errno \<noteq> 0 then (k, Inl (Err (nl_syserr2nlerr errno))) else (k, Inr ()))"

definition nl_socket_set_msg_buf_size :: "nl_sock \<Rightarrow> int \<Rightarrow> nl_sock" where
  "nl_socket_set_msg_buf_size sk bufsize = sk\<lparr>s_bufsize := bufsize\<rparr>"

definition nl_socket_get_msg_buf_size :: "nl_sock \<Rightarrow> int" where
  "nl_socket_get_msg_buf_size sk = s_bufsize sk"

definition nl_socket_set_passcred ::
  "'k kernel \<Rightarrow> nl_sock \<Rightarrow> int \<Rightarrow> 'k \<Rightarrow> nl_sock \<times> 'k \<times> unit res" where
  "nl_socket_set_passcred K sk state k =
     (if s_fd sk = -1 then (sk, k, Inl (Err NLE_BAD_SOCK))
      else
        case sys_setsockopt K (s_fd sk) SOL_SOCKET SO_PASSCRED state k of
          (errno, k) \<Rightarrow>
            if errno \<noteq> 0 then (sk, k, Inl (Err (nl_syserr2nlerr errno)))
            else if state \<noteq> 0 then (sk\<lparr>s_flags := s_flags sk OR NL_SOCK_PASSCRED\<rparr>, k, Inr ())
            else (sk\<lparr>s_flags := s_flags sk AND NOT NL_SOCK_PASSCRED\<rparr>, k, Inr ()))"

definition nl_socket_recv_pktinfo ::
  "'k kernel \<Rightarrow> nl_sock \<Rightarrow> int \<Rightarrow> 'k \<Rightarrow> 'k \<times> unit res" where
  "nl_socket_recv_pktinfo K sk state k =
     (if s_fd sk = -1 then (k, Inl (Err NLE_BAD_SOCK))
      else
        case sys_setsockopt K (s_fd sk) SOL_NETLINK NETLINK_PKTINFO state k of
          (errno, k) \<Rightarrow>
            if errno \<noteq> 0 then (k, Inl (Err (nl_syserr2nlerr errno))) else (k, Inr ()))"

section \<open>Connecting (\<open>lib/nl.c\<close>)\<close>

text \<open>
  How the loop that looks for a free port ends: bound already (\<open>try_bind = 0\<close>), to be bound
  below (\<open>try_bind = 1\<close>), or failed with an \<open>errno\<close>.
\<close>

datatype port_search = Bound | Try_Bind | Failed int

text \<open>
  The loop, with \<open>tries\<close> attempts left (\<open>if (ntries++ > 5)\<close> allows six). \<open>used\<close> is the local
  bitmap of ports that turned out to be taken outside the library.
\<close>

fun connect_loop ::
  "'k kernel \<Rightarrow> nat \<Rightarrow> nl_sock \<Rightarrow> int list \<Rightarrow> ports \<Rightarrow> 'k \<Rightarrow> nl_sock \<times> int list \<times> ports \<times> 'k \<times> port_search" where
  "connect_loop K 0 sk used st k =
     (case nl_socket_set_local_port_no_release (sys_getpid K) (sys_time K k) sk False st of
        (sk, st, _) \<Rightarrow> (sk, used, st, k, Try_Bind))"
| "connect_loop K (Suc tries) sk used st k =
     (case nl_socket_set_local_port_no_release (sys_getpid K) (sys_time K k) sk True st of
        (sk, st, port) \<Rightarrow>
          if port = 0 then (sk, used, st, k, Try_Bind)
          else
            case sys_bind K (s_fd sk) (s_local sk) k of
              (errno, k) \<Rightarrow>
                if errno = 0 then (sk, used, st, k, Bound)
                else if errno = EADDRINUSE
                then connect_loop K tries sk (nl_socket_used_ports_set used port) st k
                else (sk, used, st, k, Failed errno))"

text \<open>The label \<open>errout\<close>.\<close>

definition connect_errout ::
  "'k kernel \<Rightarrow> nl_sock \<Rightarrow> ports \<Rightarrow> 'k \<Rightarrow> nle \<Rightarrow> (nl_sock \<times> ports \<times> 'k \<times> unit res) res" where
  "connect_errout K sk st k e =
     (if s_fd sk \<noteq> -1
      then Inr (sk\<lparr>s_fd := -1\<rparr>, st, sys_close K (s_fd sk) k, Inl (Err e))
      else Inr (sk, st, k, Inl (Err e)))"

text \<open>The part behind the binding: the address the kernel reports becomes the local one.\<close>

definition connect_finish ::
  "'k kernel \<Rightarrow> nl_sock \<Rightarrow> int \<Rightarrow> ports \<Rightarrow> 'k \<Rightarrow> (nl_sock \<times> ports \<times> 'k \<times> unit res) res" where
  "connect_finish K sk protocol st k =
     (case sys_getsockname K (s_fd sk) k of
        (errno, addrlen, local) \<Rightarrow>
          if errno \<noteq> 0 then connect_errout K sk st k (nl_syserr2nlerr errno)
          else if addrlen \<noteq> sizeof_sockaddr_nl then connect_errout K sk st k NLE_NOADDR
          else if nl_family local \<noteq> AF_NETLINK then connect_errout K sk st k NLE_AF_NOSUPPORT
          else
            case (if nl_pid (s_local sk) \<noteq> nl_pid local
                  then nl_socket_set_local_port sk (nl_pid local) st else Inr (sk, st)) of
              Inl e \<Rightarrow> Inl e
            | Inr (sk, st) \<Rightarrow> Inr (sk\<lparr>s_local := local, s_proto := protocol\<rparr>, st, k, Inr ()))"

definition connect_bind ::
  "'k kernel \<Rightarrow> nl_sock \<Rightarrow> int \<Rightarrow> ports \<Rightarrow> 'k \<Rightarrow> (nl_sock \<times> ports \<times> 'k \<times> unit res) res" where
  "connect_bind K sk protocol st k =
     (case sys_bind K (s_fd sk) (s_local sk) k of
        (errno, k) \<Rightarrow>
          if errno \<noteq> 0 then connect_errout K sk st k (nl_syserr2nlerr errno)
          else connect_finish K sk protocol st k)"

definition nl_connect ::
  "'k kernel \<Rightarrow> nl_sock \<Rightarrow> int \<Rightarrow> ports \<Rightarrow> 'k \<Rightarrow> (nl_sock \<times> ports \<times> 'k \<times> unit res) res" where
  "nl_connect K sk protocol st k =
     (if s_fd sk \<noteq> -1 then Inr (sk, st, k, Inl (Err NLE_BAD_SOCK))
      else
        case sys_socket K protocol k of
          ((fd, errno), k) \<Rightarrow>
            let sk = sk\<lparr>s_fd := fd\<rparr> in
            if fd < 0 then connect_errout K sk st k (nl_syserr2nlerr errno)
            else
              case nl_socket_set_buffer_size K sk 0 0 k of
                (k, Inl (Err e)) \<Rightarrow> connect_errout K sk st k e
              | (k, Inl e) \<Rightarrow> Inl e
              | (k, Inr _) \<Rightarrow>
                  if nl_socket_is_local_port_unspecified sk then
                    (case connect_loop K 6 sk (replicate 32 0) st k of
                       (sk, used, st, k, search) \<Rightarrow>
                         case nl_socket_used_ports_release_all used st of
                           Inl e \<Rightarrow> Inl e
                         | Inr st \<Rightarrow>
                             (case search of
                                Failed errno \<Rightarrow> connect_errout K sk st k (nl_syserr2nlerr errno)
                              | Bound \<Rightarrow> connect_finish K sk protocol st k
                              | Try_Bind \<Rightarrow> connect_bind K sk protocol st k))
                  else connect_bind K sk protocol st k)"

definition nl_close :: "'k kernel \<Rightarrow> nl_sock \<Rightarrow> 'k \<Rightarrow> nl_sock \<times> 'k" where
  "nl_close K sk k =
     (let (sk, k) = (if s_fd sk \<ge> 0 then (sk\<lparr>s_fd := -1\<rparr>, sys_close K (s_fd sk) k) else (sk, k))
      in (sk\<lparr>s_proto := 0\<rparr>, k))"

section \<open>Port accounting\<close>

text \<open>The port numbers a socket owns: it must release them, and nobody else may.\<close>

definition owned :: "nl_sock \<Rightarrow> nat set" where
  "owned sk = (if has_flag sk NL_OWN_PORT then {} else {port_nr (nl_pid (s_local sk))})"

definition sock_ok :: "nl_sock \<Rightarrow> ports \<Rightarrow> bool" where
  "sock_ok sk st \<longleftrightarrow> wf_ports st \<and> owned sk \<subseteq> held st \<and>
     (has_flag sk NL_OWN_PORT \<or> valid_port (nl_pid (s_local sk)))"

text \<open>
  An operation that turns \<open>(sk, st)\<close> into \<open>(sk', st')\<close> keeps the accounts when the ports in use
  that this socket does not own are the same before and after.
\<close>

definition accounts :: "nl_sock \<Rightarrow> ports \<Rightarrow> nl_sock \<Rightarrow> ports \<Rightarrow> bool" where
  "accounts sk st sk' st' \<longleftrightarrow> sock_ok sk' st' \<and> held st' - owned sk' = held st - owned sk"

lemma flag_simps [simp]:
  "(f OR NL_OWN_PORT) AND NL_OWN_PORT \<noteq> 0" "(f AND NOT NL_OWN_PORT) AND NL_OWN_PORT = 0"
proof -
  have "bit ((f OR NL_OWN_PORT) AND NL_OWN_PORT) 2" by (simp add: NL_OWN_PORT_def bit_simps)
  then show "(f OR NL_OWN_PORT) AND NL_OWN_PORT \<noteq> 0" by auto
  show "(f AND NOT NL_OWN_PORT) AND NL_OWN_PORT = 0" by (rule bit_eqI) (auto simp: bit_simps)
qed

lemma owned_upd [simp]:
  "owned (sk\<lparr>s_fd := fd\<rparr>) = owned sk" "owned (sk\<lparr>s_proto := pr\<rparr>) = owned sk"
  "owned (sk\<lparr>s_seq_next := x\<rparr>) = owned sk"
  by (simp_all add: owned_def)

lemma sock_ok_upd [simp]:
  "sock_ok (sk\<lparr>s_fd := fd\<rparr>) st = sock_ok sk st" "sock_ok (sk\<lparr>s_proto := pr\<rparr>) st = sock_ok sk st"
  "sock_ok (sk\<lparr>s_seq_next := x\<rparr>) st = sock_ok sk st"
  by (simp_all add: sock_ok_def)

lemma accounts_refl: "sock_ok sk st \<Longrightarrow> accounts sk st sk st"
  by (simp add: accounts_def)

lemma accounts_trans: "accounts a s b t \<Longrightarrow> accounts b t c u \<Longrightarrow> accounts a s c u"
  by (simp add: accounts_def)

lemma set_local_port_accounts:
  assumes ok: "sock_ok sk st"
  shows "\<exists>sk' st'. nl_socket_set_local_port sk port st = Inr (sk', st') \<and> accounts sk st sk' st' \<and>
    has_flag sk' NL_OWN_PORT \<and> nl_pid (s_local sk') = port \<and> s_fd sk' = s_fd sk"
proof (cases "has_flag sk NL_OWN_PORT")
  case True
  then show ?thesis using ok
    by (auto simp: nl_socket_set_local_port_def accounts_def sock_ok_def owned_def)
next
  case False
  then obtain st' where "release_local_port (nl_pid (s_local sk)) st = Inr st'" "wf_ports st'"
    "held st' = held st - {port_nr (nl_pid (s_local sk))}"
    using ok port_pool.give_ok [of st "nl_pid (s_local sk)"] by (auto simp: sock_ok_def owned_def)
  then show ?thesis using False
    by (auto simp: nl_socket_set_local_port_def accounts_def sock_ok_def owned_def)
qed

lemma get_local_port_accounts:
  assumes ok: "sock_ok sk st" and g: "nl_socket_get_local_port pid t sk st = (sk', st', p)"
  shows "accounts sk st sk' st' \<and> p = nl_pid (s_local sk') \<and> p \<noteq> 0 \<and>
    (nl_pid (s_local sk) \<noteq> 0 \<longrightarrow> sk' = sk \<and> st' = st)"
proof (cases "nl_pid (s_local sk) = 0")
  case True
  have own: "has_flag sk NL_OWN_PORT" using ok True by (auto simp: sock_ok_def valid_port_def)
  obtain s q where gen: "generate_local_port pid t st = (s, q)" by (cases "generate_local_port pid t st")
  have o: "owned sk = {}" using own by (simp add: owned_def)
  have gk: "wf_ports s \<and> 0 \<le> q \<and> q < 4294967296 \<and> (if q = 0 then held s = held st
      else port_nr q \<notin> held st \<and> held s = insert (port_nr q) (held st))"
    using generate_local_port_ok [OF _ gen] ok by (auto simp: sock_ok_def)
  let ?fail = "(set_pid 4294967295 sk)\<lparr>s_flags := s_flags sk OR NL_OWN_PORT\<rparr>"
  let ?succ = "(set_pid q sk)\<lparr>s_flags := s_flags sk AND NOT NL_OWN_PORT\<rparr>"
  show ?thesis
  proof (cases "q = 0")
    case q: True
    then have "sk' = ?fail" "st' = s" "p = 4294967295"
      using g gen True by (auto simp: nl_socket_get_local_port_def Let_def)
    moreover have "owned ?fail = {}" "sock_ok ?fail s" using gk by (simp_all add: owned_def sock_ok_def)
    ultimately show ?thesis using gk q True o by (simp add: accounts_def)
  next
    case q: False
    then have "sk' = ?succ" "st' = s" "p = q"
      using g gen True by (auto simp: nl_socket_get_local_port_def Let_def)
    moreover have "owned ?succ = {port_nr q}" "sock_ok ?succ s"
      using gk q by (simp_all add: owned_def sock_ok_def valid_port_def)
    ultimately show ?thesis using gk q True o by (simp add: accounts_def)
  qed
next
  case False
  then show ?thesis using ok g by (auto simp: nl_socket_get_local_port_def accounts_refl)
qed

text \<open>One attempt: the socket trades whatever port it had for a fresh one, or for none.\<close>

lemma set_local_port_no_release_ok:
  assumes wf: "wf_ports st" and r: "nl_socket_set_local_port_no_release pid t sk gen st = (sk', st', p)"
  shows "wf_ports st' \<and> s_fd sk' = s_fd sk \<and> nl_pid (s_local sk') = p \<and>
    (if p = 0 then held st' = held st \<and> has_flag sk' NL_OWN_PORT \<and> owned sk' = {}
     else valid_port p \<and> port_nr p \<notin> held st \<and> held st' = insert (port_nr p) (held st) \<and>
       \<not> has_flag sk' NL_OWN_PORT \<and> owned sk' = {port_nr p})"
proof -
  let ?g = "if gen then generate_local_port pid t st else (st, 0)"
  obtain s q where g: "?g = (s, q)" by (cases ?g)
  have gk: "wf_ports s \<and> 0 \<le> q \<and> q < 4294967296 \<and> (if q = 0 then held s = held st
      else port_nr q \<notin> held st \<and> held s = insert (port_nr q) (held st))"
  proof (cases gen)
    case True
    then show ?thesis using generate_local_port_ok [OF wf, of pid t s q] g by auto
  next
    case False
    then show ?thesis using g wf by simp
  qed
  have "st' = s" "p = q" "sk' = (if q = 0 then (set_pid 0 sk)\<lparr>s_flags := s_flags sk OR NL_OWN_PORT\<rparr>
      else (set_pid q sk)\<lparr>s_flags := s_flags sk AND NOT NL_OWN_PORT\<rparr>)"
    using r g by (auto simp: nl_socket_set_local_port_no_release_def Let_def)
  then show ?thesis using gk by (cases "q = 0") (simp_all add: owned_def valid_port_def)
qed

lemma connect_loop_ok:
  assumes "connect_loop K n sk used st k = (sk', used', st', k', r)"
    and "wf_ports st" "wf_map used" "held st = base \<union> bits_of used" "base \<inter> bits_of used = {}"
  shows "wf_ports st' \<and> wf_map used' \<and> base \<inter> bits_of used' = {} \<and>
    held st' = base \<union> bits_of used' \<union> owned sk' \<and> owned sk' \<inter> (base \<union> bits_of used') = {} \<and>
    s_fd sk' = s_fd sk \<and> (has_flag sk' NL_OWN_PORT \<or> valid_port (nl_pid (s_local sk')))"
  using assms
proof (induction n arbitrary: sk used st k)
  case 0
  obtain a b c where l: "nl_socket_set_local_port_no_release (sys_getpid K) (sys_time K k) sk False st = (a, b, c)"
    by (cases "nl_socket_set_local_port_no_release (sys_getpid K) (sys_time K k) sk False st")
  have "c = 0" using l by (auto simp: nl_socket_set_local_port_no_release_def Let_def)
  then show ?case using set_local_port_no_release_ok [OF 0(2) l] 0 l by auto
next
  case (Suc n)
  obtain a b c where l: "nl_socket_set_local_port_no_release (sys_getpid K) (sys_time K k) sk True st = (a, b, c)"
    by (cases "nl_socket_set_local_port_no_release (sys_getpid K) (sys_time K k) sk True st")
  note lo = set_local_port_no_release_ok [OF Suc.prems(2) l]
  obtain e k1 where b: "sys_bind K (s_fd a) (s_local a) k = (e, k1)" by fastforce
  consider (none) "c = 0" | (retry) "c \<noteq> 0" "e = EADDRINUSE" "e \<noteq> 0"
    | (stop) "c \<noteq> 0" "e = 0 \<or> e \<noteq> EADDRINUSE" by auto
  then show ?case
  proof cases
    case none
    then show ?thesis using lo Suc.prems l by auto
  next
    case retry
    let ?u = "nl_socket_used_ports_set used c"
    have c: "0 < c" "c < 4294967296" using lo retry by (auto simp: valid_port_def)
    note us = used_ports_set_ok [OF Suc.prems(3) c]
    have "connect_loop K n a ?u b k1 = (sk', used', st', k', r)"
      using Suc.prems(1) l b retry by simp
    then show ?thesis using Suc.IH [of a ?u b k1] lo us retry Suc.prems(4,5) by auto
  next
    case stop
    then have "sk' = a \<and> used' = used \<and> st' = b" using Suc.prems(1) l b by (auto split: if_splits)
    then show ?thesis using lo stop Suc.prems by auto
  qed
qed

text \<open>The pieces of \<open>nl_connect\<close> keep the accounts.\<close>

definition conn_post :: "nl_sock \<Rightarrow> ports \<Rightarrow> (nl_sock \<times> ports \<times> 'k \<times> unit res) res \<Rightarrow> bool" where
  "conn_post sk st r \<longleftrightarrow> (\<exists>sk' st' k' e. r = Inr (sk', st', k', e) \<and> accounts sk st sk' st' \<and>
     (e \<noteq> Inr () \<longrightarrow> s_fd sk' = -1 \<and> (\<exists>c. e = Inl (Err c))) \<and>
     (e = Inr () \<longrightarrow> s_fd sk' = s_fd sk))"

lemma connect_errout_post: "sock_ok sk st \<Longrightarrow> conn_post sk st (connect_errout K sk st k e)"
  by (auto simp: conn_post_def connect_errout_def accounts_def)

lemma accounts_local:
  assumes "accounts sk st sk' st'" "nl_pid local = nl_pid (s_local sk')"
  shows "accounts sk st (sk'\<lparr>s_local := local, s_proto := p\<rparr>) st'"
proof -
  let ?sk = "sk'\<lparr>s_local := local, s_proto := p\<rparr>"
  have "owned ?sk = owned sk'" using assms(2) by (simp add: owned_def)
  moreover from this have "sock_ok ?sk st' = sock_ok sk' st'" using assms(2) by (simp add: sock_ok_def)
  ultimately show ?thesis using assms(1) by (simp add: accounts_def)
qed

lemma connect_finish_post:
  assumes ok: "sock_ok sk st"
  shows "conn_post sk st (connect_finish K sk protocol st k)"
proof -
  obtain errno addrlen loc where n: "sys_getsockname K (s_fd sk) k = (errno, addrlen, loc)"
    by (cases "sys_getsockname K (s_fd sk) k")
  obtain sk' st' where p: "(if nl_pid (s_local sk) \<noteq> nl_pid loc
      then nl_socket_set_local_port sk (nl_pid loc) st else Inr (sk, st)) = Inr (sk', st')"
    "accounts sk st sk' st'" "nl_pid (s_local sk') = nl_pid loc" "s_fd sk' = s_fd sk"
    using set_local_port_accounts [OF ok, of "nl_pid loc"] accounts_refl [OF ok]
    by (cases "nl_pid (s_local sk) \<noteq> nl_pid loc") auto
  have "conn_post sk st (Inr (sk'\<lparr>s_local := loc, s_proto := protocol\<rparr>, st', k, Inr ()))"
    using accounts_local [OF p(2)] p(3,4) by (simp add: conn_post_def)
  then show ?thesis
    using n p(1) connect_errout_post [OF ok, of K k]
    by (simp add: connect_finish_def)
qed

lemma connect_bind_post:
  assumes ok: "sock_ok sk st"
  shows "conn_post sk st (connect_bind K sk protocol st k)"
  using connect_errout_post [OF ok, of K] connect_finish_post [OF ok, of K]
  by (cases "sys_bind K (s_fd sk) (s_local sk) k") (simp add: connect_bind_def)

lemma conn_post_trans:
  "accounts sk st sk' st' \<Longrightarrow> s_fd sk' = s_fd sk \<Longrightarrow> conn_post sk' st' r \<Longrightarrow> conn_post sk st r"
  by (auto simp: conn_post_def intro: accounts_trans)

text \<open>After the search for a port, the ports found in use elsewhere are given back.\<close>

lemma connect_search_ok:
  assumes ok: "sock_ok sk st" and un: "nl_socket_is_local_port_unspecified sk"
    and l: "connect_loop K n sk (replicate 32 0) st k = (sk2, used, st2, k3, r)"
  shows "\<exists>st3. nl_socket_used_ports_release_all used st2 = Inr st3 \<and> accounts sk st sk2 st3 \<and>
    s_fd sk2 = s_fd sk"
proof -
  have none: "owned sk = {}" using ok un
    by (auto simp: sock_ok_def owned_def valid_port_def nl_socket_is_local_port_unspecified_def)
  have lp: "wf_ports st2" "wf_map used" "bits_of used \<subseteq> held st2"
    "held st2 - bits_of used = held st \<union> owned sk2" "owned sk2 \<inter> held st = {}"
    "s_fd sk2 = s_fd sk" "has_flag sk2 NL_OWN_PORT \<or> valid_port (nl_pid (s_local sk2))"
    using connect_loop_ok [OF l, of "held st"] ok empty_map by (auto simp: sock_ok_def)
  obtain st3 where st3: "nl_socket_used_ports_release_all used st2 = Inr st3" "wf_ports st3"
    "held st3 = held st \<union> owned sk2"
    using release_all_ok [OF lp(1-3)] lp(4) by auto
  have "accounts sk st sk2 st3" using st3 lp none by (auto simp: accounts_def sock_ok_def)
  then show ?thesis using st3(1) lp(6) by simp
qed

lemma nl_connect_post:
  assumes ok: "sock_ok sk st" and fd: "s_fd sk = -1"
  shows "\<exists>sk' st' k' e. nl_connect K sk protocol st k = Inr (sk', st', k', e) \<and>
    accounts sk st sk' st' \<and> (e = Inr () \<longrightarrow> 0 \<le> s_fd sk') \<and>
    (e \<noteq> Inr () \<longrightarrow> s_fd sk' = -1 \<and> (\<exists>c. e = Inl (Err c)))"
proof -
  obtain fd' errno k1 where so: "sys_socket K protocol k = ((fd', errno), k1)"
    by (metis prod.exhaust)
  let ?sk = "sk\<lparr>s_fd := fd'\<rparr>"
  have ok1: "sock_ok ?sk st" using ok by simp
  have ac1: "accounts sk st ?sk st" using ok by (simp add: accounts_def)
  have lift: "\<exists>sk' st' k' e. r = Inr (sk', st', k', e) \<and> accounts sk st sk' st' \<and>
      (e = Inr () \<longrightarrow> 0 \<le> s_fd sk') \<and> (e \<noteq> Inr () \<longrightarrow> s_fd sk' = -1 \<and> (\<exists>c. e = Inl (Err c)))"
    if "conn_post ?sk st r" "0 \<le> fd'" for r :: "(nl_sock \<times> ports \<times> 'a \<times> unit res) res"
    using that accounts_trans [OF ac1] by (fastforce simp: conn_post_def)
  show ?thesis
  proof (cases "fd' < 0")
    case True
    then show ?thesis using so fd ac1 by (auto simp: nl_connect_def connect_errout_def accounts_def Let_def)
  next
    case pos: False
    obtain k2 b where bs: "nl_socket_set_buffer_size K ?sk 0 0 k1 = (k2, b)" by fastforce
    have bcases: "(\<exists>c. b = Inl (Err c)) \<or> b = Inr ()"
      using bs by (auto simp: nl_socket_set_buffer_size_def Let_def split: if_splits prod.splits)
    have "conn_post ?sk st (nl_connect K sk protocol st k)"
    proof (cases b)
      case (Inl f)
      then show ?thesis using bcases so fd pos bs connect_errout_post [OF ok1, of K k2]
        by (auto simp: nl_connect_def Let_def)
    next
      case (Inr u)
      show ?thesis
      proof (cases "nl_socket_is_local_port_unspecified ?sk")
        case False
        then show ?thesis using Inr so fd pos bs connect_bind_post [OF ok1, of K]
          by (simp add: nl_connect_def Let_def)
      next
        case True
        obtain sk2 used st2 k3 r where l:
          "connect_loop K 6 ?sk (replicate 32 0) st k2 = (sk2, used, st2, k3, r)"
          by (metis prod.exhaust)
        obtain st3 where st3: "nl_socket_used_ports_release_all used st2 = Inr st3"
          "accounts ?sk st sk2 st3" "s_fd sk2 = fd'"
          using connect_search_ok [OF ok1 True l] by auto
        then have ok2: "sock_ok sk2 st3" unfolding accounts_def by (simp add: accounts_def)
        have "conn_post sk2 st3 (case r of Failed errno \<Rightarrow> connect_errout K sk2 st3 k3 (nl_syserr2nlerr errno)
            | Bound \<Rightarrow> connect_finish K sk2 protocol st3 k3 | Try_Bind \<Rightarrow> connect_bind K sk2 protocol st3 k3)"
          using connect_errout_post [OF ok2] connect_finish_post [OF ok2] connect_bind_post [OF ok2]
          by (auto split: port_search.splits)
        then show ?thesis using Inr so fd pos bs True l st3(1) conn_post_trans [OF st3(2)] st3(3)
          by (simp add: nl_connect_def Let_def)
      qed
    qed
    then show ?thesis using lift pos by auto
  qed
qed

lemma set_fd_accounts:
  assumes ok: "sock_ok sk st"
  shows "\<exists>sk' st' e. nl_socket_set_fd K sk protocol fd st k = Inr (sk', st', e) \<and> accounts sk st sk' st'"
proof -
  obtain errno len loc where n: "sys_getsockname K fd k = (errno, len, loc)"
    by (cases "sys_getsockname K fd k")
  obtain sk1 st1 where p: "nl_socket_set_local_port sk (nl_pid loc) st = Inr (sk1, st1)"
    "accounts sk st sk1 st1" "nl_pid (s_local sk1) = nl_pid loc"
    using set_local_port_accounts [OF ok] by metis
  have fin: "accounts sk st (sk1\<lparr>s_local := loc, s_fd := fd, s_proto := pr\<rparr>) st1" for pr
    using accounts_local [OF p(2), of loc pr] p(3) by (simp add: accounts_def)
  show ?thesis using accounts_refl [OF ok] p(1) fin n
    by (auto simp: nl_socket_set_fd_def Let_def split: prod.splits sum.splits)
qed

lemma socket_free_accounts:
  assumes ok: "sock_ok sk st" and f: "nl_socket_free K (Some sk) st h k = Inr (st', h', k')"
  shows "wf_ports st' \<and> held st' = held st - owned sk"
proof (cases "has_flag sk NL_OWN_PORT")
  case True
  then show ?thesis using ok f
    by (auto simp: nl_socket_free_def Let_def sock_ok_def owned_def split: sum.splits)
next
  case False
  then obtain s where "release_local_port (nl_pid (s_local sk)) st = Inr s" "wf_ports s"
    "held s = held st - {port_nr (nl_pid (s_local sk))}"
    using ok port_pool.give_ok [of st "nl_pid (s_local sk)"] by (auto simp: sock_ok_def owned_def)
  then show ?thesis using False f
    by (auto simp: nl_socket_free_def Let_def owned_def split: sum.splits)
qed

section \<open>Open descriptors\<close>

text \<open>
  What the system calls do to the descriptors of the process, as their documentation has it: \<open>fds\<close> is the set of open ones. A socket
  gets a descriptor that is not open, a failing \<open>socket\<close> opens none, and only \<open>close\<close> closes one.
\<close>

definition counts_fds :: "'k kernel \<Rightarrow> ('k \<Rightarrow> int set) \<Rightarrow> bool" where
  "counts_fds K fds \<longleftrightarrow>
     (\<forall>protocol k. case sys_socket K protocol k of ((fd, errno), k') \<Rightarrow>
        fd \<notin> fds k \<and> fds k' = (if 0 \<le> fd then insert fd (fds k) else fds k)) \<and>
     (\<forall>fd level opt val k. fds (snd (sys_setsockopt K fd level opt val k)) = fds k) \<and>
     (\<forall>fd local k. fds (snd (sys_bind K fd local k)) = fds k) \<and>
     (\<forall>fd k. fds (sys_close K fd k) = fds k - {fd})"

lemma counts_fdsD:
  assumes "counts_fds K fds"
  shows "sys_socket K protocol k = ((fd, errno), k') \<Longrightarrow> fd \<notin> fds k \<and> fds k' = (if 0 \<le> fd then insert fd (fds k) else fds k)"
    "sys_setsockopt K fd level opt val k = (errno, k') \<Longrightarrow> fds k' = fds k"
    "sys_bind K fd local k = (errno, k') \<Longrightarrow> fds k' = fds k"
    "fds (sys_close K fd k) = fds k - {fd}"
proof -
  note a = assms [unfolded counts_fds_def]
  have c: "\<forall>protocol k. case sys_socket K protocol k of ((fd, errno), k') \<Rightarrow>
        fd \<notin> fds k \<and> fds k' = (if 0 \<le> fd then insert fd (fds k) else fds k)"
    "\<forall>fd level opt val k. fds (snd (sys_setsockopt K fd level opt val k)) = fds k"
    "\<forall>fd local k. fds (snd (sys_bind K fd local k)) = fds k" "\<forall>fd k. fds (sys_close K fd k) = fds k - {fd}"
    by (rule a [THEN conjunct1], rule a [THEN conjunct2, THEN conjunct1], rule a [THEN conjunct2, THEN conjunct2, THEN conjunct1],
        rule a [THEN conjunct2, THEN conjunct2, THEN conjunct2])
  show "fd \<notin> fds k \<and> fds k' = (if 0 \<le> fd then insert fd (fds k) else fds k)" if "sys_socket K protocol k = ((fd, errno), k')"
    using spec [OF spec [OF c(1), of protocol], of k] that by simp
  show "fds k' = fds k" if "sys_setsockopt K fd level opt val k = (errno, k')" using c(2) that by (metis snd_conv)
  show "fds k' = fds k" if "sys_bind K fd local k = (errno, k')" using c(3) that by (metis snd_conv)
  show "fds (sys_close K fd k) = fds k - {fd}" using c(4) by blast
qed

text \<open>The end of \<open>nl_connect\<close>, from a state with the descriptor \<open>fd\<close>: it is kept, or it is closed.\<close>

definition fd_post :: "('k \<Rightarrow> int set) \<Rightarrow> int \<Rightarrow> int set \<Rightarrow> (nl_sock \<times> ports \<times> 'k \<times> unit res) res \<Rightarrow> bool" where
  "fd_post fds fd F r \<longleftrightarrow> (\<forall>sk' st' k' e. r = Inr (sk', st', k', e) \<longrightarrow>
     (if e = Inr () then s_fd sk' = fd \<and> fds k' = F else fds k' = F - {fd}))"

lemma connect_errout_fds: "counts_fds K fds \<Longrightarrow> s_fd sk \<noteq> -1 \<Longrightarrow> fd_post fds (s_fd sk) (fds k) (connect_errout K sk st k e)"
  using counts_fdsD(4) [of K fds] by (auto simp: fd_post_def connect_errout_def)

lemma connect_finish_fds:
  assumes K: "counts_fds K fds" "s_fd sk \<noteq> -1"
  shows "fd_post fds (s_fd sk) (fds k) (connect_finish K sk protocol st k)"
proof -
  have fd: "nl_socket_set_local_port sk p st = Inr (sk', st') \<Longrightarrow> s_fd sk' = s_fd sk" for p sk' st'
    by (auto simp: nl_socket_set_local_port_def split: sum.splits)
  have ok: "fd_post fds (s_fd sk) (fds k) (case x of Inl e \<Rightarrow> Inl e | Inr (sk, st) \<Rightarrow> Inr (sk\<lparr>s_local := l, s_proto := protocol\<rparr>, st, k, Inr ()))"
    if "\<And>sk' st'. x = Inr (sk', st') \<Longrightarrow> s_fd sk' = s_fd sk" for x :: "(nl_sock \<times> ports) res" and l
  proof (cases x)
    case (Inr y)
    obtain sk' st' where y: "y = (sk', st')" by (cases y)
    have "s_fd sk' = s_fd sk" using that Inr y by blast
    then show ?thesis by (simp add: Inr y fd_post_def)
  qed (simp add: fd_post_def)
  obtain errno len loc where n: "sys_getsockname K (s_fd sk) k = (errno, len, loc)" by (cases "sys_getsockname K (s_fd sk) k")
  have "fd_post fds (s_fd sk) (fds k) (case (if nl_pid (s_local sk) \<noteq> nl_pid loc
      then nl_socket_set_local_port sk (nl_pid loc) st else Inr (sk, st)) of
        Inl e \<Rightarrow> Inl e | Inr (sk, st) \<Rightarrow> Inr (sk\<lparr>s_local := loc, s_proto := protocol\<rparr>, st, k, Inr ()))"
  proof (rule ok)
    fix sk' st' assume "(if nl_pid (s_local sk) \<noteq> nl_pid loc then nl_socket_set_local_port sk (nl_pid loc) st else Inr (sk, st)) = Inr (sk', st')"
    then show "s_fd sk' = s_fd sk" using fd [of "nl_pid loc" sk' st'] by (cases "nl_pid (s_local sk) = nl_pid loc") simp_all
  qed
  then show ?thesis
    unfolding connect_finish_def n prod.case
    by (cases "errno \<noteq> 0"; cases "len \<noteq> sizeof_sockaddr_nl"; cases "nl_family loc \<noteq> AF_NETLINK")
      (simp_all only: if_True if_False not_not simp_thms connect_errout_fds [OF K])
qed

lemma connect_bind_fds:
  assumes K: "counts_fds K fds" "s_fd sk \<noteq> -1"
  shows "fd_post fds (s_fd sk) (fds k) (connect_bind K sk protocol st k)"
proof -
  obtain errno k' where b: "sys_bind K (s_fd sk) (s_local sk) k = (errno, k')" by fastforce
  show ?thesis
    using connect_errout_fds [OF K, of k'] connect_finish_fds [OF K, of k'] counts_fdsD(3) [OF K(1) b]
    by (simp add: connect_bind_def b)
qed

lemma connect_loop_fds:
  assumes K: "counts_fds K fds"
  shows "connect_loop K n sk used st k = (sk', used', st', k', r) \<Longrightarrow> s_fd sk' = s_fd sk \<and> fds k' = fds k"
proof (induction n arbitrary: sk used st k)
  case 0
  then show ?case by (auto simp: nl_socket_set_local_port_no_release_def Let_def)
next
  case (Suc n)
  obtain a b c where l: "nl_socket_set_local_port_no_release (sys_getpid K) (sys_time K k) sk True st = (a, b, c)"
    by (cases "nl_socket_set_local_port_no_release (sys_getpid K) (sys_time K k) sk True st")
  have a: "s_fd a = s_fd sk" using l by (auto simp: nl_socket_set_local_port_no_release_def Let_def split: prod.splits)
  obtain e k1 where b: "sys_bind K (s_fd a) (s_local a) k = (e, k1)" by fastforce
  note f = counts_fdsD(3) [OF K b]
  show ?case using Suc.prems Suc.IH [of a _ _ k1] l a b f by (auto split: if_splits)
qed

lemma nl_connect_fds:
  assumes K: "counts_fds K fds" and c: "nl_connect K sk protocol st k = Inr (sk', st', k', e)" and sk: "s_fd sk = -1"
  shows "if e = Inr () then s_fd sk' \<notin> fds k \<and> fds k' = insert (s_fd sk') (fds k) else fds k' = fds k"
proof -
  obtain fd errno k1 where so: "sys_socket K protocol k = ((fd, errno), k1)" by (metis prod.exhaust)
  let ?sk = "sk\<lparr>s_fd := fd\<rparr>"
  note f1 = counts_fdsD(1) [OF K so]
  show ?thesis
  proof (cases "fd < 0")
    case True
    then show ?thesis using so sk c f1 counts_fdsD(4) [OF K] by (auto simp: nl_connect_def connect_errout_def Let_def split: if_splits)
  next
    case False
    then have fd: "s_fd ?sk \<noteq> -1" by simp
    obtain k2 b where bs: "nl_socket_set_buffer_size K ?sk 0 0 k1 = (k2, b)" by fastforce
    have k2: "fds k2 = fds k1"
      using bs counts_fdsD(2) [OF K] by (auto simp: nl_socket_set_buffer_size_def Let_def split: if_splits prod.splits)
    have "fd_post fds fd (fds k2) (nl_connect K sk protocol st k)"
    proof (cases b)
      case (Inl x)
      then show ?thesis using so sk False bs connect_errout_fds [OF K fd, of k2]
        by (cases x) (simp_all add: nl_connect_def Let_def, simp_all add: fd_post_def)
    next
      case (Inr u)
      show ?thesis
      proof (cases "nl_socket_is_local_port_unspecified ?sk")
        case False
        then show ?thesis using Inr so sk \<open>\<not> fd < 0\<close> bs connect_bind_fds [OF K fd, of k2] by (simp add: nl_connect_def Let_def)
      next
        case True
        obtain sk2 used st2 k3 r where l: "connect_loop K 6 ?sk (replicate 32 0) st k2 = (sk2, used, st2, k3, r)"
          by (metis prod.exhaust)
        have s2: "s_fd sk2 = fd" "fds k3 = fds k2" "s_fd sk2 \<noteq> -1" using connect_loop_fds [OF K l] fd by simp_all
        have "fd_post fds fd (fds k2) (case nl_socket_used_ports_release_all used st2 of Inl e \<Rightarrow> Inl e
            | Inr st \<Rightarrow> (case r of Failed errno \<Rightarrow> connect_errout K sk2 st k3 (nl_syserr2nlerr errno)
                | Bound \<Rightarrow> connect_finish K sk2 protocol st k3 | Try_Bind \<Rightarrow> connect_bind K sk2 protocol st k3))"
          using connect_errout_fds [OF K s2(3), of k3] connect_finish_fds [OF K s2(3), of k3] connect_bind_fds [OF K s2(3), of k3] s2(1,2)
          by (cases "nl_socket_used_ports_release_all used st2") (auto simp: fd_post_def [of fds fd "fds k2" "Inl _"] split: port_search.split)
        then show ?thesis using Inr so sk False bs True l by (simp add: nl_connect_def Let_def)
      qed
    qed
    then show ?thesis using c f1 k2 False by (auto simp: fd_post_def split: if_splits)
  qed
qed

section \<open>All sockets of a process\<close>

text \<open>
  The sockets of a process share the port map, the heap of callback sets and the kernel. A
  step is one library call on one of them, with any arguments.
\<close>

type_synonym socks = "nat \<Rightarrow> nl_sock option"

inductive sock_step ::
  "'k kernel \<Rightarrow> socks \<times> ports \<times> ('a, 'u) cb_heap \<times> 'k \<Rightarrow> socks \<times> ports \<times> ('a, 'u) cb_heap \<times> 'k \<Rightarrow> bool"
  for K :: "'k kernel" where
  step_alloc: "S i = None \<Longrightarrow> alloc_socket a1 (sys_time K k) cb h = Inr (Some sk, h') \<Longrightarrow>
    sock_step K (S, st, h, k) (S(i := Some sk), st, h', k)"
| step_get_port: "S i = Some sk \<Longrightarrow>
    nl_socket_get_local_port (sys_getpid K) (sys_time K k) sk st = (sk', st', p) \<Longrightarrow>
    sock_step K (S, st, h, k) (S(i := Some sk'), st', h, k)"
| step_set_port: "S i = Some sk \<Longrightarrow> nl_socket_set_local_port sk port st = Inr (sk', st') \<Longrightarrow>
    sock_step K (S, st, h, k) (S(i := Some sk'), st', h, k)"
| step_connect: "S i = Some sk \<Longrightarrow> nl_connect K sk protocol st k = Inr (sk', st', k', e) \<Longrightarrow>
    sock_step K (S, st, h, k) (S(i := Some sk'), st', h, k')"
| step_set_fd: "S i = Some sk \<Longrightarrow> nl_socket_set_fd K sk protocol fd st k = Inr (sk', st', e) \<Longrightarrow>
    sock_step K (S, st, h, k) (S(i := Some sk'), st', h, k)"
| step_close: "S i = Some sk \<Longrightarrow> nl_close K sk k = (sk', k') \<Longrightarrow>
    sock_step K (S, st, h, k) (S(i := Some sk'), st, h, k')"
| step_free: "S i = Some sk \<Longrightarrow> nl_socket_free K (Some sk) st h k = Inr (st', h', k') \<Longrightarrow>
    sock_step K (S, st, h, k) (S(i := None), st', h', k')"

definition socks_inv :: "socks \<Rightarrow> ports \<Rightarrow> bool" where
  "socks_inv S st \<longleftrightarrow>
     wf_ports st \<and> (\<forall>i sk. S i = Some sk \<longrightarrow> sock_ok sk st) \<and>
     (\<forall>i j a b. S i = Some a \<longrightarrow> S j = Some b \<longrightarrow> i \<noteq> j \<longrightarrow> owned a \<inter> owned b = {}) \<and>
     held st = (\<Union>sk \<in> {sk. \<exists>i. S i = Some sk}. owned sk)"

lemma socks_inv_update:
  assumes inv: "socks_inv S st" and i: "S i = Some sk" and ac: "accounts sk st sk' st'"
  shows "socks_inv (S(i := Some sk')) st'"
proof -
  have ok: "sock_ok sk' st'" and hd: "held st' - owned sk' = held st - owned sk"
    using ac by (auto simp: accounts_def)
  have other: "owned a \<subseteq> held st' - owned sk'" if "S j = Some a" "j \<noteq> i" for j a
    using inv that i unfolding hd socks_inv_def by (fastforce simp: sock_ok_def)
  have "sock_ok a st'" if "S j = Some a" "j \<noteq> i" for j a
    using inv other [OF that] that ok by (auto simp: socks_inv_def sock_ok_def)
  moreover have "owned a \<inter> owned sk' = {}" if "S j = Some a" "j \<noteq> i" for j a
    using other [OF that] by auto
  moreover have "held st' = (\<Union>a \<in> {a. \<exists>j. (S(i := Some sk')) j = Some a}. owned a)" (is "_ = ?U")
  proof
    show "?U \<subseteq> held st'" using other ok by (fastforce simp: sock_ok_def split: if_splits)
    show "held st' \<subseteq> ?U"
    proof
      fix x assume "x \<in> held st'"
      then consider "x \<in> owned sk'" | "x \<in> held st - owned sk" using hd by auto
      then show "x \<in> ?U"
      proof cases
        case 2
        then obtain j a where "S j = Some a" "x \<in> owned a" using inv by (auto simp: socks_inv_def)
        then show ?thesis using 2 i by (cases "j = i") auto
      qed auto
    qed
  qed
  moreover have "owned a \<inter> owned b = {}"
    if "(S(i := Some sk')) j = Some a" "(S(i := Some sk')) l = Some b" "j \<noteq> l" for j l a b
    using other that inv by (cases "j = i"; cases "l = i") (auto simp: socks_inv_def)
  ultimately show ?thesis using ok unfolding socks_inv_def by (auto simp: sock_ok_def split: if_splits)
qed

lemma socks_inv_alloc:
  assumes "socks_inv S st" "S i = None" "owned sk = {}" "has_flag sk NL_OWN_PORT"
  shows "socks_inv (S(i := Some sk)) st"
proof -
  have "{a. \<exists>j. (S(i := Some sk)) j = Some a} = insert sk {a. \<exists>j. S j = Some a}"
    using assms(2) by (auto split: if_splits) (metis option.distinct(1))
  then show ?thesis using assms by (auto simp: socks_inv_def sock_ok_def)
qed

lemma socks_inv_free:
  assumes inv: "socks_inv S st" and i: "S i = Some sk"
    and h: "wf_ports st'" "held st' = held st - owned sk"
  shows "socks_inv (S(i := None)) st'"
proof -
  have other: "owned a \<subseteq> held st'" if "S j = Some a" "j \<noteq> i" for j a
    using inv that i unfolding h(2) socks_inv_def by (fastforce simp: sock_ok_def)
  moreover have "held st' = (\<Union>a \<in> {a. \<exists>j. (S(i := None)) j = Some a}. owned a)" (is "_ = ?U")
  proof
    show "?U \<subseteq> held st'" using other by (fastforce split: if_splits)
    show "held st' \<subseteq> ?U"
    proof
      fix x assume "x \<in> held st'"
      then obtain j a where "S j = Some a" "x \<in> owned a" "x \<notin> owned sk"
        using inv h by (auto simp: socks_inv_def)
      then show "x \<in> ?U" using i by (cases "j = i") auto
    qed
  qed
  ultimately show ?thesis using inv h by (auto simp: socks_inv_def sock_ok_def split: if_splits)
qed

lemma nl_connect_accounts:
  assumes ok: "sock_ok sk st" and c: "nl_connect K sk protocol st k = Inr (sk', st', k', e)"
  shows "accounts sk st sk' st'"
proof (cases "s_fd sk = -1")
  case True
  then show ?thesis using nl_connect_post [OF ok True, of K protocol k] c by auto
next
  case False
  then show ?thesis using c accounts_refl [OF ok] by (auto simp: nl_connect_def)
qed

lemma socks_inv_step:
  assumes "sock_step K (S, st, h, k) (S', st', h', k')" and inv: "socks_inv S st"
  shows "socks_inv S' st'"
proof -
  have ok: "sock_ok sk st" if "S i = Some sk" for i sk using inv that by (auto simp: socks_inv_def)
  show ?thesis using assms(1)
  proof (cases rule: sock_step.cases)
    case (step_alloc i a1 cb sk)
    have "owned sk = {}" "has_flag sk NL_OWN_PORT"
      using step_alloc by (auto simp: alloc_socket_def owned_def NL_OWN_PORT_def split: sum.splits if_splits)
    then show ?thesis using socks_inv_alloc [OF inv] step_alloc by auto
  next
    case (step_get_port i sk sk' p)
    then show ?thesis using socks_inv_update [OF inv] get_local_port_accounts [OF ok] by auto
  next
    case (step_set_port i sk port sk')
    then show ?thesis using socks_inv_update [OF inv] set_local_port_accounts [OF ok, of i sk port] by auto
  next
    case (step_connect i sk protocol sk' e)
    then show ?thesis using socks_inv_update [OF inv] nl_connect_accounts [OF ok, of i sk K] by auto
  next
    case (step_set_fd i sk protocol fd sk' e)
    then show ?thesis using socks_inv_update [OF inv] set_fd_accounts [OF ok, of i sk K protocol fd k] by auto
  next
    case (step_close i sk sk')
    then have "accounts sk st sk' st"
      using ok by (auto simp: accounts_def nl_close_def Let_def split: if_splits)
    then show ?thesis using socks_inv_update [OF inv] step_close by auto
  next
    case (step_free i sk)
    then show ?thesis using socks_inv_free [OF inv] socket_free_accounts [OF ok, of i sk K h k] by auto
  qed
qed

section \<open>Properties\<close>

text \<open>
  C27. \<open>nl_connect\<close> on an unconnected socket, whatever the kernel answers: it trips no
  \<open>BUG_ON\<close>; the ports in use that do not belong to this socket are the same before and after, so that every port the
  search tried and rejected is released, and the port the socket owns afterwards is valid
  and marked as used. When it fails \<open>s_fd\<close> is -1 again. If the system calls treat descriptors as documented, a
  failing call has closed the descriptor that it opened, and a successful one has opened exactly the one in \<open>s_fd\<close>.
\<close>

theorem nl_connect_no_port_leak:
  assumes "sock_ok sk st" "s_fd sk = -1"
  shows "\<exists>sk' st' k' e. nl_connect K sk protocol st k = Inr (sk', st', k', e) \<and>
    sock_ok sk' st' \<and> held st' - owned sk' = held st - owned sk \<and>
    (e = Inr () \<longrightarrow> 0 \<le> s_fd sk') \<and>
    (e \<noteq> Inr () \<longrightarrow> s_fd sk' = -1 \<and> (\<exists>c. e = Inl (Err c))) \<and>
    (\<forall>fds. counts_fds K fds \<longrightarrow>
      (if e = Inr () then s_fd sk' \<notin> fds k \<and> fds k' = insert (s_fd sk') (fds k) else fds k' = fds k))"
  using nl_connect_post [OF assms, of K protocol k] nl_connect_fds [OF _ _ assms(2), of K] by (fastforce simp: accounts_def)

text \<open>A kernel for the witnesses: every bind finds its address in use.\<close>

definition busy_kernel :: "unit kernel" where
  "busy_kernel = \<lparr>sys_getpid = 77, sys_time = (\<lambda>_. 5), sys_socket = (\<lambda>_ k. ((3, 0), k)),
     sys_setsockopt = (\<lambda>_ _ _ _ k. (0, k)), sys_getsockopt = (\<lambda>_ _ _. (0, 4, 3)),
     sys_bind = (\<lambda>_ _ k. (98, k)), sys_getsockname = (\<lambda>_ _. (0, 12, no_addr)),
     sys_set_nonblock = (\<lambda>_ k. (0, k)), sys_close = (\<lambda>_ k. k)\<rparr>"

definition fresh_sock :: nl_sock where
  "fresh_sock = \<lparr>s_local = no_addr\<lparr>nl_family := AF_NETLINK\<rparr>, s_peer = no_addr\<lparr>nl_family := AF_NETLINK\<rparr>,
     s_fd = -1, s_proto = 0, s_seq_next = 5, s_seq_expect = 5,
     s_flags = NL_OWN_PORT, s_cb = 0, s_bufsize = 0\<rparr>"

lemma fresh_sock_ok: "sock_ok fresh_sock no_ports" "s_fd fresh_sock = -1" "owned fresh_sock = {}"
  using wf_no_ports by (simp_all add: sock_ok_def owned_def fresh_sock_def NL_OWN_PORT_def)

text \<open>A kernel that hands out the descriptor 3, which is its state, and finds every address in use.\<close>

definition fd_kernel :: "bool kernel" where
  "fd_kernel = \<lparr>sys_getpid = 77, sys_time = (\<lambda>_. 5), sys_socket = (\<lambda>_ k. if k then ((-1, 24), k) else ((3, 0), True)),
     sys_setsockopt = (\<lambda>_ _ _ _ k. (0, k)), sys_getsockopt = (\<lambda>_ _ _. (0, 4, 3)),
     sys_bind = (\<lambda>_ _ k. (98, k)), sys_getsockname = (\<lambda>_ _. (0, 12, no_addr)),
     sys_set_nonblock = (\<lambda>_ k. (0, k)), sys_close = (\<lambda>fd k. k \<and> fd \<noteq> 3)\<rparr>"

lemma fd_kernel_counts: "counts_fds fd_kernel (\<lambda>k. if k then {3} else {})"
  by (auto simp: counts_fds_def fd_kernel_def)

theorem nl_connect_no_port_leak_witness:
  "\<exists>sk' st' e. nl_connect fd_kernel fresh_sock 0 no_ports False = Inr (sk', st', False, e) \<and>
     held st' - owned sk' = {} \<and> s_fd sk' = -1"
proof -
  have "case nl_connect fd_kernel fresh_sock 0 no_ports False of Inr (_, _, _, Inl _) \<Rightarrow> True | _ \<Rightarrow> False" by code_simp
  then show ?thesis
    using nl_connect_no_port_leak [OF fresh_sock_ok(1,2), of fd_kernel 0 False] fd_kernel_counts fresh_sock_ok(3) wf_no_ports(2)
    by (auto split: if_splits)
qed

text \<open>
  C21. In every state reachable from a process without sockets by allocating, connecting,
  closing, freeing sockets and reading or setting their local ports, in any order and against
  any kernel: no two sockets own the same port, and the ports marked as used are exactly
  those the sockets own. So ports are neither shared nor leaked.
\<close>

theorem sockets_never_share_ports:
  assumes "(sock_step K)\<^sup>*\<^sup>* (\<lambda>_. None, no_ports, h0, k0) (S, st, h, k)"
  shows "(\<forall>i j a b. S i = Some a \<longrightarrow> S j = Some b \<longrightarrow> i \<noteq> j \<longrightarrow> owned a \<inter> owned b = {}) \<and>
    held st = (\<Union>sk \<in> {sk. \<exists>i. S i = Some sk}. owned sk)"
proof -
  have "socks_inv S st" using assms
  proof (induction "(S, st, h, k)" arbitrary: S st h k rule: rtranclp_induct)
    case base
    then show ?case using wf_no_ports by (simp add: socks_inv_def)
  next
    case (step y)
    obtain S1 st1 h1 k1 where y: "y = (S1, st1, h1, k1)" by (cases y)
    show ?case by (rule socks_inv_step [OF step(2) [unfolded y] step(3) [OF y]])
  qed
  then show ?thesis by (simp add: socks_inv_def)
qed

theorem sockets_never_share_ports_witness:
  "\<exists>(S :: socks) (h :: (unit, unit) cb_heap) sk.
     (sock_step busy_kernel)\<^sup>*\<^sup>* (\<lambda>_. None, no_ports, (\<lambda>_. nl_cb_alloc True 0), ()) (S, no_ports, h, ()) \<and>
     S 0 = Some sk \<and> held no_ports = owned sk"
proof -
  let ?h = "(\<lambda>_. nl_cb_alloc True 0) :: (unit, unit) cb_heap"
  let ?h' = "?h(0 := map_option nl_cb_get (?h 0))"
  obtain c where "?h 0 = Some c"
    by (simp add: nl_cb_alloc_def Let_def NL_CB_KIND_MAX_def)
  then have a: "alloc_socket True (sys_time busy_kernel ()) 0 ?h = Inr (Some fresh_sock, ?h')"
    by (auto simp: alloc_socket_def cb_get_at_def fresh_sock_def busy_kernel_def)
  have st: "sock_step busy_kernel (\<lambda>_. None, no_ports, ?h, ()) ((\<lambda>_. None)(0 := Some fresh_sock), no_ports, ?h', ())"
    by (rule step_alloc [OF _ a]) simp
  have r: "(sock_step busy_kernel)\<^sup>*\<^sup>* (\<lambda>_. None, no_ports, ?h, ()) ((\<lambda>_. None)(0 := Some fresh_sock), no_ports, ?h', ())"
    using st by (rule r_into_rtranclp)
  have "held no_ports = owned fresh_sock"
    using sockets_never_share_ports [OF r] by auto
  then show ?thesis using r by (intro exI [of _ "(\<lambda>_. None)(0 := Some fresh_sock)"] exI [of _ ?h'] exI [of _ fresh_sock]) simp
qed

end
