(* ===== verification/Nl_Send.thy ===== *)
theory Nl_Send
  imports Nl_Socket
begin

unbundle bit_operations_syntax

text \<open>
  The sending half of \<open>lib/nl.c\<close>. The system calls \<open>sendto\<close> and \<open>sendmsg\<close> are one function
  argument \<open>sys_send\<close>: from descriptor, destination, data and credentials, and the state \<open>'u\<close> that
  callbacks see too, to a byte count or a negative \<open>errno\<close>.
\<close>

type_synonym 'u sendfun = "int \<Rightarrow> sockaddr_nl \<Rightarrow> byte list \<Rightarrow> ucred option \<Rightarrow> 'u \<Rightarrow> int \<times> 'u"

definition NLM_F_REQUEST :: int where "NLM_F_REQUEST = 1"
definition NLM_F_MULTI :: int where "NLM_F_MULTI = 2"
definition NLM_F_ACK :: int where "NLM_F_ACK = 4"
definition NLM_F_DUMP_INTR :: int where "NLM_F_DUMP_INTR = 16"
definition NLM_F_DUMP :: int where "NLM_F_DUMP = 0x300"

definition nl_sendto ::
  "'u sendfun \<Rightarrow> nl_sock \<Rightarrow> byte list option \<Rightarrow> int \<Rightarrow> 'u \<Rightarrow> int \<times> 'u" where
  "nl_sendto sys_send sk buf sz u =
     (case buf of
        None \<Rightarrow> (neg_err NLE_INVAL, u)
      | Some b \<Rightarrow>
          if s_fd sk < 0 then (neg_err NLE_BAD_SOCK, u)
          else
            case sys_send (s_fd sk) (s_peer sk) (rd b 0 sz) None u of
              (ret, u) \<Rightarrow> if ret < 0 then (neg_err (nl_syserr2nlerr (- ret)), u) else (ret, u))"

text \<open>The parts of \<open>struct msghdr\<close> that are used: destination, data, credentials.\<close>

record msghdr =
  msg_name :: sockaddr_nl
  msg_data :: "byte list"
  msg_creds :: "ucred option"

definition nl_sendmsg ::
  "'u sendfun \<Rightarrow> ('a, 'u) nl_cb \<Rightarrow> nl_sock \<Rightarrow> nl_msg \<Rightarrow> msghdr \<Rightarrow> 'u \<Rightarrow> int \<times> nl_msg \<times> 'u" where
  "nl_sendmsg sys_send cb sk msg hdr u =
     (if s_fd sk < 0 then (neg_err NLE_BAD_SOCK, msg, u)
      else
        let msg = nlmsg_set_src (s_local sk) msg;
            (ret, u) = (case cb_set cb ! NL_CB_MSG_OUT of
                          None \<Rightarrow> (NL_OK, u)
                        | Some f \<Rightarrow> f msg (cb_args cb ! NL_CB_MSG_OUT) u) in
        if ret \<noteq> NL_OK then (ret, msg, u)
        else
          case sys_send (s_fd sk) (msg_name hdr) (msg_data hdr) (msg_creds hdr) u of
            (ret, u) \<Rightarrow>
              if ret < 0 then (neg_err (nl_syserr2nlerr (- ret)), msg, u) else (ret, msg, u))"

text \<open>\<open>data\<close>: the bytes the io vector describes.\<close>

definition nl_send_iovec ::
  "'u sendfun \<Rightarrow> ('a, 'u) nl_cb \<Rightarrow> nl_sock \<Rightarrow> nl_msg \<Rightarrow> byte list \<Rightarrow> 'u \<Rightarrow> int \<times> nl_msg \<times> 'u" where
  "nl_send_iovec sys_send cb sk msg data u =
     (let hdr = \<lparr>msg_name = s_peer sk, msg_data = data, msg_creds = None\<rparr>;
          dst = nlmsg_get_dst msg;
          hdr = (if nl_family dst = AF_NETLINK then hdr\<lparr>msg_name := dst\<rparr> else hdr);
          hdr = (case nlmsg_get_creds msg of None \<Rightarrow> hdr | Some c \<Rightarrow> hdr\<lparr>msg_creds := Some c\<rparr>)
      in nl_sendmsg sys_send cb sk msg hdr u)"

definition nl_send ::
  "'u sendfun \<Rightarrow> ('a, 'u) nl_cb \<Rightarrow> nl_sock \<Rightarrow> nl_msg \<Rightarrow> 'u \<Rightarrow> int \<times> nl_sock \<times> nl_msg \<times> 'u" where
  "nl_send sys_send cb sk msg u =
     (case cb_send_ow cb of
        Some f \<Rightarrow> f sk msg u
      | None \<Rightarrow>
          (case nl_send_iovec sys_send cb sk msg (rd (nm_nlh msg) 0 (nlmsg_len (nlmsg_hdr msg))) u of
             (ret, msg, u) \<Rightarrow> (ret, sk, msg, u)))"

text \<open>\<open>getpid\<close> and \<open>t\<close> are for the case that a local port has to be generated.\<close>

definition nl_complete_msg ::
  "int \<Rightarrow> int \<Rightarrow> nl_sock \<Rightarrow> nl_msg \<Rightarrow> ports \<Rightarrow> nl_sock \<times> nl_msg \<times> ports" where
  "nl_complete_msg getpid t sk msg st =
     (let (sk, st, msg) =
            (if nlmsg_pid (nlmsg_hdr msg) = 0 then
               (let (sk, st, port) = nl_socket_get_local_port getpid t sk st
                in (sk, st, msg\<lparr>nm_nlh := put32 (nm_nlh msg) 12 port\<rparr>))
             else (sk, st, msg));
          (sk, msg) =
            (if nlmsg_seq (nlmsg_hdr msg) = 0
             then (sk\<lparr>s_seq_next := u32 (s_seq_next sk + 1)\<rparr>,
                   msg\<lparr>nm_nlh := put32 (nm_nlh msg) 8 (s_seq_next sk)\<rparr>)
             else (sk, msg));
          msg = (if nm_protocol msg = -1 then msg\<lparr>nm_protocol := s_proto sk\<rparr> else msg);
          msg = msg\<lparr>nm_nlh := put16 (nm_nlh msg) 6 (nlmsg_flags (nlmsg_hdr msg) OR NLM_F_REQUEST)\<rparr>;
          msg = (if \<not> has_flag sk NL_NO_AUTO_ACK
                 then msg\<lparr>nm_nlh := put16 (nm_nlh msg) 6 (nlmsg_flags (nlmsg_hdr msg) OR NLM_F_ACK)\<rparr>
                 else msg)
      in (sk, msg, st))"

definition nl_send_auto ::
  "'u sendfun \<Rightarrow> int \<Rightarrow> int \<Rightarrow> ('a, 'u) nl_cb \<Rightarrow> nl_sock \<Rightarrow> nl_msg \<Rightarrow> ports \<Rightarrow> 'u \<Rightarrow>
   int \<times> nl_sock \<times> nl_msg \<times> ports \<times> 'u" where
  "nl_send_auto sys_send getpid t cb sk msg st u =
     (case nl_complete_msg getpid t sk msg st of
        (sk, msg, st) \<Rightarrow>
          (case nl_send sys_send cb sk msg u of (ret, sk, msg, u) \<Rightarrow> (ret, sk, msg, st, u)))"

definition nl_auto_complete ::
  "int \<Rightarrow> int \<Rightarrow> nl_sock \<Rightarrow> nl_msg \<Rightarrow> ports \<Rightarrow> nl_sock \<times> nl_msg \<times> ports" where
  "nl_auto_complete getpid t sk msg st = nl_complete_msg getpid t sk msg st"

definition nl_send_auto_complete ::
  "'u sendfun \<Rightarrow> int \<Rightarrow> int \<Rightarrow> ('a, 'u) nl_cb \<Rightarrow> nl_sock \<Rightarrow> nl_msg \<Rightarrow> ports \<Rightarrow> 'u \<Rightarrow>
   int \<times> nl_sock \<times> nl_msg \<times> ports \<times> 'u" where
  "nl_send_auto_complete sys_send getpid t cb sk msg st u = nl_send_auto sys_send getpid t cb sk msg st u"

text \<open>
  \<open>nl_send_simple\<close>: \<open>a1\<close>, \<open>a2\<close> are the two allocations of the message, \<open>dsz\<close> the default message
  size. The message is freed on both paths (it has one reference), so it is not returned.
\<close>

definition nl_send_simple ::
  "'u sendfun \<Rightarrow> bool \<Rightarrow> bool \<Rightarrow> int \<Rightarrow> int \<Rightarrow> int \<Rightarrow> ('a, 'u) nl_cb \<Rightarrow> nl_sock \<Rightarrow> int \<Rightarrow> int \<Rightarrow>
   byte list option \<Rightarrow> ports \<Rightarrow> 'u \<Rightarrow> (int \<times> nl_sock \<times> ports \<times> 'u) res" where
  "nl_send_simple sys_send a1 a2 dsz getpid t cb sk type flags buf st u =
     (case nlmsg_alloc_simple a1 a2 dsz type flags of
        None \<Rightarrow> Inr (neg_err NLE_NOMEM, sk, st, u)
      | Some msg \<Rightarrow>
          (case (case buf of
                   Some b \<Rightarrow> if b \<noteq> [] then nlmsg_append msg b 4 else Inr msg
                 | None \<Rightarrow> Inr msg) of
             Inl (Err e) \<Rightarrow>
               (case nlmsg_free (Some msg) of Inl f \<Rightarrow> Inl f | Inr _ \<Rightarrow> Inr (neg_err e, sk, st, u))
           | Inl f \<Rightarrow> Inl f
           | Inr msg \<Rightarrow>
               (case nl_send_auto sys_send getpid t cb sk msg st u of
                  (ret, sk, msg, st, u) \<Rightarrow>
                    (case nlmsg_free (Some msg) of
                       Inl f \<Rightarrow> Inl f
                     | Inr _ \<Rightarrow> Inr (ret, sk, st, u)))))"

section \<open>Completing a message\<close>

text \<open>What completing does to the header: the specification.\<close>

definition completed_hdr :: "nl_sock \<Rightarrow> int \<Rightarrow> nlmsghdr \<Rightarrow> nlmsghdr" where
  "completed_hdr sk port h =
     h\<lparr>nlmsg_pid := (if nlmsg_pid h = 0 then u32 port else nlmsg_pid h),
       nlmsg_seq := (if nlmsg_seq h = 0 then u32 (s_seq_next sk) else nlmsg_seq h),
       nlmsg_flags := u16 ((nlmsg_flags h OR NLM_F_REQUEST) OR
         (if has_flag sk NL_NO_AUTO_ACK then 0 else NLM_F_ACK))\<rparr>"

lemma nlh_put_fields:
  assumes "16 \<le> blen buf"
  shows "nlh (put32 buf 12 v) 0 = (nlh buf 0)\<lparr>nlmsg_pid := u32 v\<rparr>"
    "nlh (put32 buf 8 v) 0 = (nlh buf 0)\<lparr>nlmsg_seq := u32 v\<rparr>"
    "nlh (put16 buf 6 v) 0 = (nlh buf 0)\<lparr>nlmsg_flags := u16 v\<rparr>"
  using assms by (simp_all add: nlh_def mem_simps)

lemma u16_or: "u16 (u16 x OR y) = u16 (x OR y)"
  by (simp add: u16_def take_bit_or flip: take_bit_eq_mod [of 16, simplified])

lemma nl_complete_msg_hdr:
  assumes wf: "wf_msg msg" and c: "nl_complete_msg pid t sk msg st = (sk', msg', st')"
    and p: "nlmsg_pid (nlmsg_hdr msg) = 0 \<Longrightarrow> nl_socket_get_local_port pid t sk st = (sk1, st1, port)"
  shows "nlmsg_hdr msg' = completed_hdr (if nlmsg_pid (nlmsg_hdr msg) = 0 then sk1 else sk) port (nlmsg_hdr msg)"
    "blen (nm_nlh msg') = blen (nm_nlh msg)"
    "rd (nm_nlh msg') 16 l = rd (nm_nlh msg) 16 l"
    "nm_size msg' = nm_size msg" "nm_refcnt msg' = nm_refcnt msg"
    "nm_protocol msg' = (if nm_protocol msg = -1 then s_proto sk' else nm_protocol msg)"
    "nm_dst msg' = nm_dst msg" "nm_flags msg' = nm_flags msg"
    "st' = (if nlmsg_pid (nlmsg_hdr msg) = 0 then st1 else st)"
    "sk' = (let s = (if nlmsg_pid (nlmsg_hdr msg) = 0 then sk1 else sk) in
       if nlmsg_seq (nlmsg_hdr msg) = 0 then s\<lparr>s_seq_next := u32 (s_seq_next s + 1)\<rparr> else s)"
proof -
  let ?b = "nm_nlh msg" and ?h = "nlmsg_hdr msg"
  let ?s = "if nlmsg_pid ?h = 0 then sk1 else sk"
  let ?b1 = "if nlmsg_pid ?h = 0 then put32 ?b 12 port else ?b"
  let ?b2 = "if nlmsg_seq ?h = 0 then put32 ?b1 8 (s_seq_next ?s) else ?b1"
  let ?f = "nlmsg_flags ?h"
  let ?b3 = "put16 ?b2 6 (?f OR NLM_F_REQUEST)"
  let ?b4 = "if has_flag ?s NL_NO_AUTO_ACK then ?b3 else put16 ?b3 6 (u16 (?f OR NLM_F_REQUEST) OR NLM_F_ACK)"
  have len: "16 \<le> blen ?b" using wf_msgD [OF wf] by simp
  have l: "length ?b1 = length ?b" "length ?b2 = length ?b" "length ?b3 = length ?b" "length ?b4 = length ?b"
    using len by (simp_all add: mem_simps)
  have h1: "nlh ?b1 0 = (if nlmsg_pid ?h = 0 then ?h\<lparr>nlmsg_pid := u32 port\<rparr> else ?h)"
    using len by (simp add: nlh_put_fields nlmsg_hdr_def)
  have h2: "nlh ?b2 0 = (if nlmsg_seq ?h = 0 then (nlh ?b1 0)\<lparr>nlmsg_seq := u32 (s_seq_next ?s)\<rparr> else nlh ?b1 0)"
    using len l by (simp add: nlh_put_fields)
  have f2: "nlmsg_flags (nlh ?b2 0) = ?f" "nlmsg_seq (nlh ?b1 0) = nlmsg_seq ?h" unfolding h2 h1 by simp_all
  have h3: "nlh ?b3 0 = (nlh ?b2 0)\<lparr>nlmsg_flags := u16 (?f OR NLM_F_REQUEST)\<rparr>"
    using len l by (simp add: nlh_put_fields)
  have h4: "nlh ?b4 0 = completed_hdr ?s port ?h"
    using len l h3 h2 h1 by (simp add: nlh_put_fields u16_or completed_hdr_def)
  have e: "msg' = msg\<lparr>nm_nlh := ?b4, nm_protocol := (if nm_protocol msg = -1 then s_proto ?s else nm_protocol msg)\<rparr>"
    and sk': "sk' = (if nlmsg_seq ?h = 0 then ?s\<lparr>s_seq_next := u32 (s_seq_next ?s + 1)\<rparr> else ?s)"
    and st': "st' = (if nlmsg_pid ?h = 0 then st1 else st)"
    using c p f2 h3 by (auto simp: nl_complete_msg_def nlmsg_hdr_def Let_def split: if_splits)
  have nb: "nm_nlh msg' = ?b4" by (simp add: e)
  show "nlmsg_hdr msg' = completed_hdr ?s port ?h" unfolding nlmsg_hdr_def [of msg'] nb by (rule h4)
  show "blen (nm_nlh msg') = blen ?b" "rd (nm_nlh msg') 16 l = rd ?b 16 l"
    using len l by (simp_all add: e mem_simps)
  show "nm_size msg' = nm_size msg" "nm_refcnt msg' = nm_refcnt msg" "nm_dst msg' = nm_dst msg"
    "nm_flags msg' = nm_flags msg" by (simp_all add: e)
  show "nm_protocol msg' = (if nm_protocol msg = -1 then s_proto sk' else nm_protocol msg)"
    by (simp add: e sk')
  show "st' = (if nlmsg_pid ?h = 0 then st1 else st)"
    "sk' = (let s = ?s in if nlmsg_seq ?h = 0 then s\<lparr>s_seq_next := u32 (s_seq_next s + 1)\<rparr> else s)"
    by (simp_all add: st' sk' Let_def)
qed

lemma get_local_port_frame:
  assumes "nl_socket_get_local_port pid t sk st = (sk', st', p)"
  shows "s_seq_next sk' = s_seq_next sk \<and> s_proto sk' = s_proto sk \<and> s_fd sk' = s_fd sk \<and>
    (has_flag sk' NL_NO_AUTO_ACK \<longleftrightarrow> has_flag sk NL_NO_AUTO_ACK)"
proof -
  have z: "NL_OWN_PORT AND NL_NO_AUTO_ACK = 0" by (simp add: NL_OWN_PORT_def NL_NO_AUTO_ACK_def)
  have d: "\<not> (bit NL_OWN_PORT n \<and> bit NL_NO_AUTO_ACK n)" for n
    using arg_cong [OF z, of "\<lambda>x. bit x n"] by (simp add: bit_and_iff)
  have "(f OR NL_OWN_PORT) AND NL_NO_AUTO_ACK = f AND NL_NO_AUTO_ACK"
    "(f AND NOT NL_OWN_PORT) AND NL_NO_AUTO_ACK = f AND NL_NO_AUTO_ACK" for f :: int
    by (rule bit_eqI, use d in \<open>auto simp: bit_and_iff bit_or_iff bit_not_iff\<close>)+
  then show ?thesis
    using assms by (auto simp: nl_socket_get_local_port_def Let_def split: if_splits prod.splits)
qed

text \<open>
  \<open>nl_complete_msg\<close> fills in what the caller left open and nothing else: a port of 0
  becomes the local port of the socket (never 0), a sequence number of 0 becomes the next one
  of the socket, which is then advanced by one modulo \<open>2^32\<close>; an explicit port or number is
  kept. \<open>NLM_F_REQUEST\<close> is set, and \<open>NLM_F_ACK\<close> unless automatic acknowledgements are off.
  Length, type and payload of the message and the accounts of the port map are unchanged.
\<close>

theorem nl_complete_msg_spec:
  assumes wf: "wf_msg msg" and ok: "sock_ok sk st"
    and c: "nl_complete_msg pid t sk msg st = (sk', msg', st')"
  shows "wf_msg msg' \<and> nlmsg_type (nlmsg_hdr msg') = nlmsg_type (nlmsg_hdr msg) \<and> mlen msg' = mlen msg \<and>
    rd (nm_nlh msg') 16 (mlen msg - 16) = rd (nm_nlh msg) 16 (mlen msg - 16) \<and>
    nlmsg_pid (nlmsg_hdr msg') =
      (if nlmsg_pid (nlmsg_hdr msg) = 0 then u32 (nl_pid (s_local sk')) else nlmsg_pid (nlmsg_hdr msg)) \<and>
    (nlmsg_pid (nlmsg_hdr msg) = 0 \<longrightarrow> nl_pid (s_local sk') \<noteq> 0) \<and>
    (nlmsg_seq (nlmsg_hdr msg'), s_seq_next sk') =
      (if nlmsg_seq (nlmsg_hdr msg) = 0 then (u32 (s_seq_next sk), u32 (s_seq_next sk + 1))
       else (nlmsg_seq (nlmsg_hdr msg), s_seq_next sk)) \<and>
    nlmsg_flags (nlmsg_hdr msg') = u16 ((nlmsg_flags (nlmsg_hdr msg) OR NLM_F_REQUEST) OR
      (if has_flag sk NL_NO_AUTO_ACK then 0 else NLM_F_ACK)) \<and>
    accounts sk st sk' st'"
proof -
  obtain sk1 st1 port where p: "nl_socket_get_local_port pid t sk st = (sk1, st1, port)"
    by (metis prod.exhaust)
  note h = nl_complete_msg_hdr [OF wf c p]
  note a = get_local_port_accounts [OF ok p] and fr = get_local_port_frame [OF p]
  let ?s = "if nlmsg_pid (nlmsg_hdr msg) = 0 then sk1 else sk"
  have s: "s_seq_next ?s = s_seq_next sk" "has_flag ?s NL_NO_AUTO_ACK = has_flag sk NL_NO_AUTO_ACK"
    using fr by auto
  have m: "mlen msg' = mlen msg" unfolding h(1) by (simp add: completed_hdr_def)
  have "wf_msg msg'" using wf m h(2,4) by (simp add: wf_msg_def)
  moreover have "accounts sk st sk' st'"
    using a accounts_refl [OF ok] unfolding h(9,10) Let_def by (auto simp: accounts_def)
  moreover have "nl_pid (s_local sk') = nl_pid (s_local ?s)" unfolding h(10) Let_def by simp
  moreover have "s_seq_next sk' = (if nlmsg_seq (nlmsg_hdr msg) = 0 then u32 (s_seq_next sk + 1) else s_seq_next sk)"
    unfolding h(10) Let_def using s by auto
  ultimately show ?thesis
    using m h(3) [of "mlen msg - 16"] s a unfolding h(1) by (auto simp: completed_hdr_def)
qed

theorem nl_complete_msg_spec_witness:
  "\<exists>sk' msg' st'. nl_complete_msg 77 5 (set_pid 99 fresh_sock) msg32 no_ports = (sk', msg', st') \<and>
     nlmsg_pid (nlmsg_hdr msg') = 99 \<and> nlmsg_seq (nlmsg_hdr msg') = 5 \<and>
     nlmsg_flags (nlmsg_hdr msg') = 5 \<and> s_seq_next sk' = 6"
proof -
  let ?sk = "set_pid 99 fresh_sock"
  obtain sk' msg' st' where c: "nl_complete_msg 77 5 ?sk msg32 no_ports = (sk', msg', st')"
    by (metis prod.exhaust)
  have ok: "sock_ok ?sk no_ports"
    using wf_no_ports by (simp add: sock_ok_def owned_def fresh_sock_def NL_OWN_PORT_def)
  have h: "nlmsg_hdr msg32 = \<lparr>nlmsg_len = 16, nlmsg_type = 0, nlmsg_flags = 0, nlmsg_seq = 0, nlmsg_pid = 0\<rparr>"
    unfolding nlmsg_hdr_def msg32_simps by code_simp
  have f: "\<not> has_flag ?sk NL_NO_AUTO_ACK" by (simp add: fresh_sock_def NL_OWN_PORT_def NL_NO_AUTO_ACK_def)
  have "sk' = ?sk\<lparr>s_seq_next := 6\<rparr>"
    using c h by (auto simp: nl_complete_msg_def nl_socket_get_local_port_def fresh_sock_def Let_def
        nlmsg_hdr_def nlh_def mem_simps split: if_splits)
  then show ?thesis using nl_complete_msg_spec [OF wf_msg32(1) ok c] c h f
    by (auto simp: fresh_sock_def NLM_F_REQUEST_def NLM_F_ACK_def)
qed

text \<open>The message \<open>nl_send_simple\<close> builds before it is completed.\<close>

lemma nlmsg_alloc_simple_ok:
  assumes "nlmsg_alloc_simple True True dsz type flags = Some m" "dsz < 2147483648"
  shows "wf_msg m" "nm_size m = max 16 dsz" "nm_refcnt m = 1" "nm_dst m = no_addr" "nm_flags m = 0"
    "nlmsg_hdr m = \<lparr>nlmsg_len = 16, nlmsg_type = u16 type, nlmsg_flags = u16 flags, nlmsg_seq = 0, nlmsg_pid = 0\<rparr>"
proof -
  obtain n where n: "nlmsg_alloc_len True True dsz = Some n"
    "nm_dst n = no_addr" "nm_flags n = 0"
    by (simp add: nlmsg_alloc_len_def Let_def)
  note w = nlmsg_alloc_len_wf [OF n(1) assms(2)]
  have m: "m = set_hdr_fields n (u16 type) (u16 flags) 0 0"
    using assms(1) n(1) by (simp add: nlmsg_alloc_simple_def nlmsg_inherit_def nlmsg_alloc_def)
  have b: "16 \<le> blen (nm_nlh n)" using w wf_msgD(1,3,4) [of n] by simp
  show "wf_msg m" using w m wf_set_hdr_fields by simp
  show "nm_size m = max 16 dsz" "nm_refcnt m = 1" "nm_dst m = no_addr" "nm_flags m = 0"
    using w n(2,3) by (simp_all add: m set_hdr_fields_def)
  show "nlmsg_hdr m = \<lparr>nlmsg_len = 16, nlmsg_type = u16 type, nlmsg_flags = u16 flags, nlmsg_seq = 0, nlmsg_pid = 0\<rparr>"
    unfolding m nlh_set_hdr_fields [OF b] using w by simp
qed

lemma nlmsg_append_frame:
  assumes wf: "wf_msg n" and a: "nlmsg_append n data 4 = Inr n'"
  shows "wf_msg n'" "mlen n' = mlen n + align4 (blen data)"
    "rd (nm_nlh n') (mlen n) (align4 (blen data)) = data @ zeros (align4 (blen data) - blen data)"
    "nlmsg_hdr n' = (nlmsg_hdr n)\<lparr>nlmsg_len := mlen n'\<rparr>"
    "nm_refcnt n' = nm_refcnt n" "nm_dst n' = nm_dst n" "nm_flags n' = nm_flags n"
proof -
  have c: "wf_msg n' \<and> mlen n' = mlen n + align4 (blen data) \<and>
      rd (nm_nlh n') 4 (mlen n - 4) = rd (nm_nlh n) 4 (mlen n - 4) \<and>
      rd (nm_nlh n') (mlen n) (mlen n' - mlen n) = data @ zeros (align4 (blen data) - blen data)"
    using nlmsg_append_cases [OF wf, of 4 data] a by auto
  then show "wf_msg n'" "mlen n' = mlen n + align4 (blen data)"
    "rd (nm_nlh n') (mlen n) (align4 (blen data)) = data @ zeros (align4 (blen data) - blen data)"
    by auto
  have "rd (nm_nlh n') 4 12 = rd (nm_nlh n) 4 12"
    using c rd_prefix [of "nm_nlh n'" 4 "mlen n - 4" "nm_nlh n" 4 0 12] wf_msgD [OF wf] by simp
  then show "nlmsg_hdr n' = (nlmsg_hdr n)\<lparr>nlmsg_len := mlen n'\<rparr>"
    unfolding nlmsg_hdr_def by (rule nlh_cong) simp
  show "nm_refcnt n' = nm_refcnt n" "nm_dst n' = nm_dst n" "nm_flags n' = nm_flags n"
    using a by (auto simp: nlmsg_append_def nlmsg_reserve_def Let_def split: option.splits if_splits prod.splits)
qed

lemma nl_send_plain:
  assumes "cb_send_ow cb = None" "cb_set cb ! NL_CB_MSG_OUT = None" "0 \<le> s_fd sk"
    "nm_dst msg = no_addr" "nm_flags msg = 0"
  shows "nl_send sys_send cb sk msg u =
    (case sys_send (s_fd sk) (s_peer sk) (rd (nm_nlh msg) 0 (mlen msg)) None u of
       (ret, u) \<Rightarrow> (if ret < 0 then neg_err (nl_syserr2nlerr (- ret)) else ret, sk,
         nlmsg_set_src (s_local sk) msg, u))"
  using assms
  by (simp add: nl_send_def nl_send_iovec_def nl_sendmsg_def nlmsg_get_dst_def nlmsg_get_creds_def
      no_addr_def AF_NETLINK_def Let_def split: prod.splits)

text \<open>Sending a message that has no address, port or sequence number of its own.\<close>

lemma nl_send_auto_plain:
  assumes wf: "wf_msg n" "nlmsg_seq (nlmsg_hdr n) = 0" "nlmsg_pid (nlmsg_hdr n) = 0" "nm_dst n = no_addr" "nm_flags n = 0"
    and fd: "0 \<le> s_fd sk" and pid: "0 < nl_pid (s_local sk)" "nl_pid (s_local sk) < 4294967296"
    and cb: "cb_send_ow cb = None" "cb_set cb ! NL_CB_MSG_OUT = None"
  shows "\<exists>d n'. (\<forall>u. nl_send_auto sys_send getpid t cb sk n st u =
      (case sys_send (s_fd sk) (s_peer sk) d None u of (ret, u) \<Rightarrow>
         (if ret < 0 then neg_err (nl_syserr2nlerr (- ret)) else ret, sk\<lparr>s_seq_next := u32 (s_seq_next sk + 1)\<rparr>, n', st, u))) \<and>
    blen d = mlen n \<and> nlh d 0 = completed_hdr sk (nl_pid (s_local sk)) (nlmsg_hdr n) \<and>
    rd d 16 (mlen n - 16) = rd (nm_nlh n) 16 (mlen n - 16) \<and> nm_refcnt n' = nm_refcnt n"
proof -
  let ?sk = "sk\<lparr>s_seq_next := u32 (s_seq_next sk + 1)\<rparr>"
  obtain sk' msg' st' where c: "nl_complete_msg getpid t sk n st = (sk', msg', st')" by (metis prod.exhaust)
  have p: "nl_socket_get_local_port getpid t sk st = (sk, st, nl_pid (s_local sk))"
    using pid by (simp add: nl_socket_get_local_port_def)
  note h = nl_complete_msg_hdr [OF wf(1) c p]
  have sk': "sk' = ?sk" "st' = st" using h(9,10) wf(2,3) by simp_all
  let ?d = "rd (nm_nlh msg') 0 (mlen n)"
  have hm: "nlmsg_hdr msg' = completed_hdr sk (nl_pid (s_local sk)) (nlmsg_hdr n)" using h(1) wf(3) by simp
  then have ml: "mlen msg' = mlen n" by (simp add: completed_hdr_def)
  have m: "16 \<le> mlen n" "mlen n \<le> blen (nm_nlh msg')" using h(2) wf_msgD [OF wf(1)] by simp_all
  have sub: "rd ?d a k = rd (nm_nlh msg') a k" if "0 \<le> a" "a + k \<le> mlen n" for a k
    using rd_rd [of 0 a k "mlen n" "nm_nlh msg'"] that by simp
  have "nlh (rd b 0 L) 0 = nlh b 0" if "16 \<le> L" for b L
    using that rd_rd [of 0 _ _ L b] by (simp add: nlh_def get16_def get32_def)
  then have dh: "nlh ?d 0 = nlmsg_hdr msg'" using m(1) by (simp add: nlmsg_hdr_def)
  have "rd ?d 16 (mlen n - 16) = rd (nm_nlh n) 16 (mlen n - 16)" using sub [of 16 "mlen n - 16"] h(3) by simp
  moreover have "blen ?d = mlen n" using m by (simp add: length_rd)
  moreover have "nl_send_auto sys_send getpid t cb sk n st u =
      (case sys_send (s_fd sk) (s_peer sk) ?d None u of (ret, u) \<Rightarrow>
         (if ret < 0 then neg_err (nl_syserr2nlerr (- ret)) else ret, ?sk, nlmsg_set_src (s_local sk) msg', st, u))" for u
    using c nl_send_plain [OF cb, of sk' msg' sys_send u] h(7,8) wf(4,5) fd sk'
    unfolding ml by (simp add: nl_send_auto_def split: prod.splits)
  moreover have "nm_refcnt (nlmsg_set_src (s_local sk) msg') = nm_refcnt n" using h(5) by (simp add: nlmsg_set_src_def)
  ultimately show ?thesis using dh hm by (intro exI [of _ ?d] exI [of _ "nlmsg_set_src (s_local sk) msg'"]) simp
qed


definition quiet_cb :: "(unit, byte list list) nl_cb" where
  "quiet_cb = the (nl_cb_alloc True 0)"


end
