(* ===== verification/Nl_Recv.thy ===== *)
theory Nl_Recv
  imports Nl_Send
begin

unbundle bit_operations_syntax

text \<open>
  The receiving half of \<open>lib/nl.c\<close>: \<open>nl_recv\<close>, which fetches one datagram, and \<open>recvmsgs\<close>,
  which walks the messages of the datagrams it reads and runs the callbacks. Both contain
  loops that depend on the kernel and may run forever; they take fuel and return \<open>None\<close> when
  it is used up.
\<close>

section \<open>Fetching a datagram\<close>

text \<open>
  The result of \<open>recvmsg\<close>: byte count or negative \<open>errno\<close>, data, the \<open>msghdr\<close> fields the kernel
  updates, and the control messages as (level, type, credentials).
\<close>

record recvres =
  rr_n :: int
  rr_data :: "byte list"
  rr_name :: sockaddr_nl
  rr_namelen :: int
  rr_controllen :: int
  rr_ctrunc :: bool
  rr_trunc :: bool
  rr_cmsgs :: "(int \<times> int \<times> ucred) list"

text \<open>Arguments: peek (the flags are \<open>MSG_PEEK | MSG_TRUNC\<close> or 0), buffer size, name length,
  control buffer size.\<close>

type_synonym 'u recvfun = "int \<Rightarrow> bool \<Rightarrow> int \<Rightarrow> int \<Rightarrow> int \<Rightarrow> 'u \<Rightarrow> recvres \<times> 'u"

definition SCM_CREDENTIALS :: int where "SCM_CREDENTIALS = 2"
definition EINTR :: int where "EINTR = 4"

text \<open>\<open>CMSG_SPACE(sizeof(struct ucred))\<close> on a 64-bit system.\<close>

definition CRED_SPACE :: int where "CRED_SPACE = 32"

fun first_creds :: "(int \<times> int \<times> ucred) list \<Rightarrow> ucred option" where
  "first_creds [] = None"
| "first_creds ((level, type, c) # cs) =
     (if level \<noteq> SOL_SOCKET then first_creds cs
      else if type \<noteq> SCM_CREDENTIALS then first_creds cs
      else Some c)"

text \<open>
  The loop from \<open>retry\<close>. \<open>mem\<close> says whether the allocations inside it succeed; \<open>want\<close> that the
  caller asks for credentials and the socket has them enabled.
\<close>

fun nl_recv_loop ::
  "nat \<Rightarrow> 'u recvfun \<Rightarrow> bool \<Rightarrow> bool \<Rightarrow> int \<Rightarrow> bool \<Rightarrow> int \<Rightarrow> int \<Rightarrow> int \<Rightarrow> 'u \<Rightarrow>
   (recv_result \<times> 'u) option" where
  "nl_recv_loop 0 recvmsg mem want fd peek iovlen namelen ctrllen u = None"
| "nl_recv_loop (Suc fuel) recvmsg mem want fd peek iovlen namelen ctrllen u =
     (case recvmsg fd peek iovlen namelen ctrllen u of
        (r, u) \<Rightarrow>
          let n = rr_n r; namelen = rr_namelen r; ctrllen = rr_controllen r;
              abort = (\<lambda>ret. Some ((ret, rr_name r, [], None), u)) in
          if n = 0 then abort 0
          else if n < 0 then
            (if - n = EINTR then nl_recv_loop fuel recvmsg mem want fd peek iovlen namelen ctrllen u
             else abort (neg_err (nl_syserr2nlerr (- n))))
          else if rr_ctrunc r then
            (if ctrllen = 0 then abort (neg_err NLE_MSG_TRUNC)
             else if \<not> mem then abort (neg_err NLE_NOMEM)
             else nl_recv_loop fuel recvmsg mem want fd peek iovlen namelen (ctrllen * 2) u)
          else if iovlen < n \<or> rr_trunc r then
            (if \<not> peek then abort (neg_err NLE_MSG_TRUNC)
             else if \<not> mem then abort (neg_err NLE_NOMEM)
             else nl_recv_loop fuel recvmsg mem want fd False n namelen ctrllen u)
          else if peek then nl_recv_loop fuel recvmsg mem want fd False iovlen namelen ctrllen u
          else if namelen \<noteq> sizeof_sockaddr_nl then abort (neg_err NLE_NOADDR)
          else if want then
            (case first_creds (rr_cmsgs r) of
               None \<Rightarrow> Some ((n, rr_name r, rd (rr_data r) 0 n, None), u)
             | Some c \<Rightarrow> if \<not> mem then abort (neg_err NLE_NOMEM)
                         else Some ((n, rr_name r, rd (rr_data r) 0 n, Some c), u))
          else Some ((n, rr_name r, rd (rr_data r) 0 n, None), u))"

text \<open>\<open>page\<close> is \<open>getpagesize()\<close>; \<open>a1\<close>, \<open>a2\<close> are the initial allocations; \<open>creds\<close> says whether the
  caller passed a place for credentials.\<close>

definition nl_recv ::
  "nat \<Rightarrow> 'u recvfun \<Rightarrow> bool \<Rightarrow> bool \<Rightarrow> bool \<Rightarrow> int \<Rightarrow> bool \<Rightarrow> nl_sock \<Rightarrow> 'u \<Rightarrow>
   (recv_result \<times> nl_sock \<times> 'u) option" where
  "nl_recv fuel recvmsg a1 a2 mem page creds sk u =
     (let peek = (has_flag sk NL_MSG_PEEK \<or> (\<not> has_flag sk NL_MSG_PEEK_EXPLICIT \<and> s_bufsize sk = 0));
          iovlen = (if s_bufsize sk \<noteq> 0 then s_bufsize sk else page * 4);
          want = (creds \<and> has_flag sk NL_SOCK_PASSCRED);
          abort = (\<lambda>ret. Some ((ret, no_addr, [], None), sk, u)) in
      if \<not> a1 then abort (neg_err NLE_NOMEM)
      else if want \<and> \<not> a2 then abort (neg_err NLE_NOMEM)
      else
        case nl_recv_loop fuel recvmsg mem want (s_fd sk) peek iovlen sizeof_sockaddr_nl
               (if want then CRED_SPACE else 0) u of
          None \<Rightarrow> None
        | Some (r, u) \<Rightarrow> Some (r, sk, u))"

section \<open>Processing a message\<close>

definition NLMSG_NOOP :: int where "NLMSG_NOOP = 1"
definition NLMSG_ERROR :: int where "NLMSG_ERROR = 2"
definition NLMSG_DONE :: int where "NLMSG_DONE = 3"
definition NLMSG_OVERRUN :: int where "NLMSG_OVERRUN = 4"

text \<open>The local variables of \<open>recvmsgs\<close> that survive a round, with socket and user state.\<close>

record 'u rstate =
  rs_sk :: nl_sock
  rs_u :: 'u
  rs_multipart :: bool
  rs_interrupted :: bool
  rs_nrecv :: int

text \<open>Where the processing of a message ends: the labels \<open>skip\<close>, \<open>stop\<close> and \<open>out\<close>.\<close>

datatype flow = Skip | Stop | Out int

text \<open>
  The macro \<open>NL_CB_CALL\<close>, guarded by the test that the callback is set: \<open>dflt\<close> is the \<open>else\<close>
  branch, \<open>k\<close> what follows when the callback returns \<open>NL_OK\<close>.
\<close>

definition NL_CB_CALL ::
  "('a, 'u) nl_cb \<Rightarrow> nat \<Rightarrow> nl_msg \<Rightarrow> 'u rstate \<Rightarrow> ('u rstate \<Rightarrow> 'u rstate \<times> flow) \<Rightarrow>
   ('u rstate \<Rightarrow> 'u rstate \<times> flow) \<Rightarrow> 'u rstate \<times> flow" where
  "NL_CB_CALL cb type msg st dflt k =
     (case cb_set cb ! type of
        None \<Rightarrow> dflt st
      | Some f \<Rightarrow>
          (case f msg (cb_args cb ! type) (rs_u st) of
             (err, u) \<Rightarrow>
               (let st = st\<lparr>rs_u := u\<rparr> in
                if err = NL_OK then k st
                else if err = NL_SKIP then (st, Skip)
                else if err = NL_STOP then (st, Stop)
                else (st, Out err))))"

abbreviation to_skip :: "'u rstate \<Rightarrow> 'u rstate \<times> flow" where
  "to_skip st \<equiv> (st, Skip)"

abbreviation to_out :: "nle \<Rightarrow> 'u rstate \<Rightarrow> 'u rstate \<times> flow" where
  "to_out e st \<equiv> (st, Out (neg_err e))"

text \<open>The case of a message that carries a \<open>struct nlmsgerr\<close>; \<open>e\<close> is its error number.\<close>

definition recv_error ::
  "('a, 'u) nl_cb \<Rightarrow> sockaddr_nl \<Rightarrow> nlmsghdr \<Rightarrow> int \<Rightarrow> nl_msg \<Rightarrow> 'u rstate \<Rightarrow> 'u rstate \<times> flow" where
  "recv_error cb nla hdr e msg st =
     (if nlmsg_len hdr < nlmsg_size 20 then
        NL_CB_CALL cb NL_CB_INVALID msg st (to_out NLE_MSG_TRUNC) to_skip
      else if e \<noteq> 0 then
        (case cb_err cb of
           Some f \<Rightarrow>
             (case f nla e (cb_err_arg cb) (rs_u st) of
                (err, u) \<Rightarrow>
                  (let st = st\<lparr>rs_u := u\<rparr> in
                   if err < 0 then (st, Out err)
                   else if err = NL_SKIP then to_skip st
                   else if err = NL_STOP then to_out (nl_syserr2nlerr e) st
                   else to_skip st))
         | None \<Rightarrow> to_out (nl_syserr2nlerr e) st)
      else NL_CB_CALL cb NL_CB_ACK msg st to_skip to_skip)"

definition recv_dispatch ::
  "('a, 'u) nl_cb \<Rightarrow> sockaddr_nl \<Rightarrow> nlmsghdr \<Rightarrow> int \<Rightarrow> nl_msg \<Rightarrow> 'u rstate \<Rightarrow> 'u rstate \<times> flow" where
  "recv_dispatch cb nla hdr e msg st =
     (if nlmsg_type hdr = NLMSG_DONE then
        NL_CB_CALL cb NL_CB_FINISH msg (st\<lparr>rs_multipart := False\<rparr>) to_skip to_skip
      else if nlmsg_type hdr = NLMSG_NOOP then
        NL_CB_CALL cb NL_CB_SKIPPED msg st to_skip to_skip
      else if nlmsg_type hdr = NLMSG_OVERRUN then
        NL_CB_CALL cb NL_CB_OVERRUN msg st (to_out NLE_MSG_OVERFLOW) to_skip
      else if nlmsg_type hdr = NLMSG_ERROR then recv_error cb nla hdr e msg st
      else NL_CB_CALL cb NL_CB_VALID msg st to_skip to_skip)"

definition recv_ack ::
  "('a, 'u) nl_cb \<Rightarrow> sockaddr_nl \<Rightarrow> nlmsghdr \<Rightarrow> int \<Rightarrow> nl_msg \<Rightarrow> 'u rstate \<Rightarrow> 'u rstate \<times> flow" where
  "recv_ack cb nla hdr e msg st =
     (if nlmsg_flags hdr AND NLM_F_ACK \<noteq> 0
      then NL_CB_CALL cb NL_CB_SEND_ACK msg st
             (recv_dispatch cb nla hdr e msg) (recv_dispatch cb nla hdr e msg)
      else recv_dispatch cb nla hdr e msg st)"

definition recv_intr ::
  "('a, 'u) nl_cb \<Rightarrow> sockaddr_nl \<Rightarrow> nlmsghdr \<Rightarrow> int \<Rightarrow> nl_msg \<Rightarrow> 'u rstate \<Rightarrow> 'u rstate \<times> flow" where
  "recv_intr cb nla hdr e msg st =
     (if nlmsg_flags hdr AND NLM_F_DUMP_INTR \<noteq> 0
      then NL_CB_CALL cb NL_CB_DUMP_INTR msg st
             (\<lambda>st. recv_ack cb nla hdr e msg (st\<lparr>rs_interrupted := True\<rparr>))
             (recv_ack cb nla hdr e msg)
      else recv_ack cb nla hdr e msg st)"

definition is_control :: "int \<Rightarrow> bool" where
  "is_control type \<longleftrightarrow> type = NLMSG_DONE \<or> type = NLMSG_ERROR \<or> type = NLMSG_NOOP \<or> type = NLMSG_OVERRUN"

definition recv_expect ::
  "('a, 'u) nl_cb \<Rightarrow> sockaddr_nl \<Rightarrow> nlmsghdr \<Rightarrow> int \<Rightarrow> nl_msg \<Rightarrow> 'u rstate \<Rightarrow> 'u rstate \<times> flow" where
  "recv_expect cb nla hdr e msg st =
     (let sk = rs_sk st;
          st = (if is_control (nlmsg_type hdr)
                then st\<lparr>rs_sk := sk\<lparr>s_seq_expect := u32 (s_seq_expect sk + 1)\<rparr>\<rparr> else st);
          st = (if nlmsg_flags hdr AND NLM_F_MULTI \<noteq> 0 then st\<lparr>rs_multipart := True\<rparr> else st)
      in recv_intr cb nla hdr e msg st)"

definition recv_seq ::
  "('a, 'u) nl_cb \<Rightarrow> sockaddr_nl \<Rightarrow> nlmsghdr \<Rightarrow> int \<Rightarrow> nl_msg \<Rightarrow> 'u rstate \<Rightarrow> 'u rstate \<times> flow" where
  "recv_seq cb nla hdr e msg st =
     NL_CB_CALL cb NL_CB_SEQ_CHECK msg st
       (\<lambda>st. if \<not> has_flag (rs_sk st) NL_NO_AUTO_ACK \<and> nlmsg_seq hdr \<noteq> s_seq_expect (rs_sk st)
             then NL_CB_CALL cb NL_CB_INVALID msg st (to_out NLE_SEQ_MISMATCH)
                    (recv_expect cb nla hdr e msg)
             else recv_expect cb nla hdr e msg st)
       (recv_expect cb nla hdr e msg)"

definition recv_msg ::
  "('a, 'u) nl_cb \<Rightarrow> sockaddr_nl \<Rightarrow> nlmsghdr \<Rightarrow> int \<Rightarrow> nl_msg \<Rightarrow> 'u rstate \<Rightarrow> 'u rstate \<times> flow" where
  "recv_msg cb nla hdr e msg st =
     (let st = st\<lparr>rs_nrecv := rs_nrecv st + 1\<rparr> in
      NL_CB_CALL cb NL_CB_MSG_IN msg st (recv_seq cb nla hdr e msg) (recv_seq cb nla hdr e msg))"

text \<open>
  The copy of a message that the callbacks get; \<open>a\<close> says whether its allocations succeed.
\<close>

definition recv_copy ::
  "bool \<Rightarrow> nl_sock \<Rightarrow> sockaddr_nl \<Rightarrow> ucred option \<Rightarrow> byte list \<Rightarrow> int \<Rightarrow> nl_msg option" where
  "recv_copy a sk nla creds buf p =
     (case nlmsg_convert a a buf p of
        None \<Rightarrow> None
      | Some msg \<Rightarrow>
          (let msg = nlmsg_set_src nla (nlmsg_set_proto (s_proto sk) msg)
           in Some (case creds of None \<Rightarrow> msg | Some c \<Rightarrow> nlmsg_set_creds c msg)))"

text \<open>The \<open>while (nlmsg_ok(hdr, n))\<close> loop; \<open>Skip\<close> at its end means that it ran to completion.\<close>

fun recv_loop ::
  "('a, 'u) nl_cb \<Rightarrow> bool \<Rightarrow> sockaddr_nl \<Rightarrow> ucred option \<Rightarrow> byte list \<Rightarrow> (int \<times> int) list \<Rightarrow> 'u rstate \<Rightarrow>
   'u rstate \<times> flow" where
  "recv_loop cb a nla creds buf [] st = (st, Skip)"
| "recv_loop cb a nla creds buf ((p, r) # ps) st =
     (case recv_copy a (rs_sk st) nla creds buf p of
        None \<Rightarrow> to_out NLE_NOMEM st
      | Some msg \<Rightarrow>
          (case recv_msg cb nla (nlh buf p) (s32 (get32 buf (p + 16))) msg st of
             (st, Skip) \<Rightarrow> recv_loop cb a nla creds buf ps st
           | (st, fl) \<Rightarrow> (st, fl)))"

definition recv_finish :: "int \<Rightarrow> 'u rstate \<Rightarrow> int \<times> nl_sock \<times> 'u" where
  "recv_finish err st =
     (let err = (if rs_interrupted st then neg_err NLE_DUMP_INTR else err);
          err = (if err = 0 then rs_nrecv st else err)
      in (err, rs_sk st, rs_u st))"

text \<open>\<open>recv\<close> is \<open>nl_recv\<close> or the function that overrides it.\<close>

fun recvmsgs_loop ::
  "nat \<Rightarrow> (nl_sock \<Rightarrow> 'u \<Rightarrow> (recv_result \<times> nl_sock \<times> 'u) option) \<Rightarrow> bool \<Rightarrow> ('a, 'u) nl_cb \<Rightarrow>
   'u rstate \<Rightarrow> (int \<times> nl_sock \<times> 'u) option" where
  "recvmsgs_loop 0 recv a cb st = None"
| "recvmsgs_loop (Suc fuel) recv a cb st =
     (case recv (rs_sk st) (rs_u st) of
        None \<Rightarrow> None
      | Some ((n, nla, buf, creds), sk, u) \<Rightarrow>
          (let st = st\<lparr>rs_sk := sk, rs_u := u\<rparr> in
           if n \<le> 0 then Some (n, sk, u)
           else
             case recv_loop cb a nla creds buf (nlmsg_positions buf 0 n) st of
               (st, Skip) \<Rightarrow>
                 if rs_multipart st then recvmsgs_loop fuel recv a cb st
                 else Some (recv_finish 0 st)
             | (st, Stop) \<Rightarrow> Some (recv_finish 0 st)
             | (st, Out err) \<Rightarrow> Some (recv_finish err st)))"

definition recvmsgs ::
  "nat \<Rightarrow> (nl_sock \<Rightarrow> 'u \<Rightarrow> (recv_result \<times> nl_sock \<times> 'u) option) \<Rightarrow> bool \<Rightarrow> ('a, 'u) nl_cb \<Rightarrow>
   nl_sock \<Rightarrow> 'u \<Rightarrow> (int \<times> nl_sock \<times> 'u) option" where
  "recvmsgs fuel recv a cb sk u =
     recvmsgs_loop fuel
       (case cb_recv_ow cb of Some f \<Rightarrow> (\<lambda>sk u. Some (f sk u)) | None \<Rightarrow> recv) a cb
       \<lparr>rs_sk = sk, rs_u = u, rs_multipart = False, rs_interrupted = False, rs_nrecv = 0\<rparr>"

definition nl_recvmsgs_report ::
  "nat \<Rightarrow> (nl_sock \<Rightarrow> 'u \<Rightarrow> (recv_result \<times> nl_sock \<times> 'u) option) \<Rightarrow> bool \<Rightarrow> ('a, 'u) nl_cb \<Rightarrow>
   nl_sock \<Rightarrow> 'u \<Rightarrow> (int \<times> nl_sock \<times> 'u) option" where
  "nl_recvmsgs_report fuel recv a cb sk u =
     (case cb_recvmsgs_ow cb of
        Some f \<Rightarrow> Some (f sk u)
      | None \<Rightarrow> recvmsgs fuel recv a cb sk u)"

definition nl_recvmsgs ::
  "nat \<Rightarrow> (nl_sock \<Rightarrow> 'u \<Rightarrow> (recv_result \<times> nl_sock \<times> 'u) option) \<Rightarrow> bool \<Rightarrow> ('a, 'u) nl_cb \<Rightarrow>
   nl_sock \<Rightarrow> 'u \<Rightarrow> (int \<times> nl_sock \<times> 'u) option" where
  "nl_recvmsgs fuel recv a cb sk u =
     (case nl_recvmsgs_report fuel recv a cb sk u of
        None \<Rightarrow> None
      | Some (err, sk, u) \<Rightarrow> Some (if err > 0 then 0 else err, sk, u))"

definition nl_recvmsgs_default ::
  "nat \<Rightarrow> (nl_sock \<Rightarrow> 'u \<Rightarrow> (recv_result \<times> nl_sock \<times> 'u) option) \<Rightarrow> bool \<Rightarrow> ('a, 'u) cb_heap \<Rightarrow>
   nl_sock \<Rightarrow> 'u \<Rightarrow> (int \<times> nl_sock \<times> 'u) option res" where
  "nl_recvmsgs_default fuel recv a h sk u =
     (case h (s_cb sk) of
        None \<Rightarrow> Inl Undef
      | Some cb \<Rightarrow> Inr (nl_recvmsgs fuel recv a cb sk u))"

section \<open>Waiting for an acknowledgement\<close>

definition ack_wait_handler :: "('a, 'u) msg_cb" where
  "ack_wait_handler msg arg u = (NL_STOP, u)"

text \<open>The cloned set is private to the call and freed at its end (it has one reference).\<close>

definition nl_wait_for_ack ::
  "nat \<Rightarrow> (nl_sock \<Rightarrow> 'u \<Rightarrow> (recv_result \<times> nl_sock \<times> 'u) option) \<Rightarrow> bool \<Rightarrow> bool \<Rightarrow> ('a, 'u) nl_cb \<Rightarrow>
   nl_sock \<Rightarrow> 'u \<Rightarrow> (int \<times> nl_sock \<times> 'u) option" where
  "nl_wait_for_ack fuel recv a1 a scb sk u =
     (case nl_cb_clone a1 scb of
        None \<Rightarrow> Some (neg_err NLE_NOMEM, sk, u)
      | Some cb \<Rightarrow>
          (let cb = ignore_err cb (nl_cb_set cb (int NL_CB_ACK) NL_CB_CUSTOM (Some ack_wait_handler) None)
           in nl_recvmsgs fuel recv a cb sk u))"

definition wait_for_ack ::
  "nat \<Rightarrow> (nl_sock \<Rightarrow> 'u \<Rightarrow> (recv_result \<times> nl_sock \<times> 'u) option) \<Rightarrow> bool \<Rightarrow> bool \<Rightarrow> ('a, 'u) nl_cb \<Rightarrow>
   nl_sock \<Rightarrow> 'u \<Rightarrow> (int \<times> nl_sock \<times> 'u) option" where
  "wait_for_ack fuel recv a1 a scb sk u =
     (if has_flag sk NL_NO_AUTO_ACK then Some (0, sk, u)
      else nl_wait_for_ack fuel recv a1 a scb sk u)"

text \<open>The message is freed after sending, whatever the result (\<open>Inl Bug\<close> without a reference).\<close>

definition nl_send_sync ::
  "nat \<Rightarrow> 'u sendfun \<Rightarrow> (nl_sock \<Rightarrow> 'u \<Rightarrow> (recv_result \<times> nl_sock \<times> 'u) option) \<Rightarrow> bool \<Rightarrow> bool \<Rightarrow>
   int \<Rightarrow> int \<Rightarrow> ('a, 'u) nl_cb \<Rightarrow> nl_sock \<Rightarrow> nl_msg \<Rightarrow> ports \<Rightarrow> 'u \<Rightarrow>
   ((int \<times> nl_sock \<times> 'u) option \<times> ports) res" where
  "nl_send_sync fuel sys_send recv a1 a getpid t cb sk msg st u =
     (case nl_send_auto sys_send getpid t cb sk msg st u of
        (err, sk, msg, st, u) \<Rightarrow>
          (case nlmsg_free (Some msg) of
             Inl f \<Rightarrow> Inl f
           | Inr _ \<Rightarrow>
               if err < 0 then Inr (Some (err, sk, u), st)
               else Inr (wait_for_ack fuel recv a1 a cb sk u, st)))"

section \<open>What callbacks see\<close>

text \<open>
  \<open>cb_keeps cb Q P\<close>: every callback of the set, called with a message that satisfies \<open>Q\<close> in a
  state that satisfies \<open>P\<close>, ends in a state that satisfies \<open>P\<close>; so does the error callback.
\<close>

definition cb_keeps :: "('a, 'u) nl_cb \<Rightarrow> (nl_msg \<Rightarrow> bool) \<Rightarrow> ('u \<Rightarrow> bool) \<Rightarrow> bool" where
  "cb_keeps cb Q P \<longleftrightarrow>
     (\<forall>type \<le> NL_CB_TYPE_MAX. \<forall>f msg arg u. cb_set cb ! type = Some f \<longrightarrow> Q msg \<longrightarrow> P u \<longrightarrow> P (snd (f msg arg u))) \<and>
     (\<forall>f nla e arg u. cb_err cb = Some f \<longrightarrow> P u \<longrightarrow> P (snd (f nla e arg u)))"

lemma cb_types [simp]:
  "NL_CB_VALID \<le> NL_CB_TYPE_MAX" "NL_CB_FINISH \<le> NL_CB_TYPE_MAX" "NL_CB_OVERRUN \<le> NL_CB_TYPE_MAX"
  "NL_CB_SKIPPED \<le> NL_CB_TYPE_MAX" "NL_CB_ACK \<le> NL_CB_TYPE_MAX" "NL_CB_MSG_IN \<le> NL_CB_TYPE_MAX"
  "NL_CB_INVALID \<le> NL_CB_TYPE_MAX" "NL_CB_SEQ_CHECK \<le> NL_CB_TYPE_MAX"
  "NL_CB_SEND_ACK \<le> NL_CB_TYPE_MAX" "NL_CB_DUMP_INTR \<le> NL_CB_TYPE_MAX"
  by (simp_all add: cb_consts)

lemma NL_CB_CALL_keeps:
  assumes "cb_keeps cb Q P" "Q msg" "type \<le> NL_CB_TYPE_MAX" "P (rs_u st)"
    "P (rs_u (fst (dflt st)))" "\<And>st'. P (rs_u st') \<Longrightarrow> P (rs_u (fst (k st')))"
  shows "P (rs_u (fst (NL_CB_CALL cb type msg st dflt k)))"
proof (cases "cb_set cb ! type")
  case None
  then show ?thesis using assms by (simp add: NL_CB_CALL_def)
next
  case (Some f)
  obtain err u where f: "f msg (cb_args cb ! type) (rs_u st) = (err, u)" by fastforce
  have "P u" using assms(1-4) Some f unfolding cb_keeps_def by (metis snd_conv)
  then show ?thesis using Some f assms(6) by (simp add: NL_CB_CALL_def Let_def)
qed

lemma recv_error_keeps:
  assumes "cb_keeps cb Q P" "Q msg" "P (rs_u st)"
  shows "P (rs_u (fst (recv_error cb nla hdr e msg st)))"
proof -
  have "P (snd (f nla e (cb_err_arg cb) (rs_u st)))" if "cb_err cb = Some f" for f
    using assms(1,3) that by (simp add: cb_keeps_def)
  then show ?thesis
    unfolding recv_error_def
    by (auto simp: assms Let_def intro!: NL_CB_CALL_keeps [OF assms(1,2)] split: option.split prod.split)
qed

lemma recv_dispatch_keeps:
  assumes "cb_keeps cb Q P" "Q msg" "P (rs_u st)"
  shows "P (rs_u (fst (recv_dispatch cb nla hdr e msg st)))"
  unfolding recv_dispatch_def
  by (auto simp: assms intro!: NL_CB_CALL_keeps [OF assms(1,2)] recv_error_keeps [OF assms])

lemma recv_ack_keeps:
  assumes "cb_keeps cb Q P" "Q msg" "P (rs_u st)"
  shows "P (rs_u (fst (recv_ack cb nla hdr e msg st)))"
  unfolding recv_ack_def
  by (auto simp: assms intro!: NL_CB_CALL_keeps [OF assms(1,2)] recv_dispatch_keeps [OF assms(1,2)])

lemma recv_intr_keeps:
  assumes "cb_keeps cb Q P" "Q msg" "P (rs_u st)"
  shows "P (rs_u (fst (recv_intr cb nla hdr e msg st)))"
  unfolding recv_intr_def
  by (auto simp: assms intro!: NL_CB_CALL_keeps [OF assms(1,2)] recv_ack_keeps [OF assms(1,2)])

lemma recv_expect_keeps:
  assumes "cb_keeps cb Q P" "Q msg" "P (rs_u st)"
  shows "P (rs_u (fst (recv_expect cb nla hdr e msg st)))"
  unfolding recv_expect_def Let_def
  by (auto simp: assms intro!: recv_intr_keeps [OF assms(1,2)])

lemma recv_seq_keeps:
  assumes "cb_keeps cb Q P" "Q msg" "P (rs_u st)"
  shows "P (rs_u (fst (recv_seq cb nla hdr e msg st)))"
  unfolding recv_seq_def
  by (auto simp: assms intro!: NL_CB_CALL_keeps [OF assms(1,2)] recv_expect_keeps [OF assms(1,2)])

lemma recv_msg_keeps:
  assumes "cb_keeps cb Q P" "Q msg" "P (rs_u st)"
  shows "P (rs_u (fst (recv_msg cb nla hdr e msg st)))"
  unfolding recv_msg_def Let_def
  by (auto simp: assms intro!: NL_CB_CALL_keeps [OF assms(1,2)] recv_seq_keeps [OF assms(1,2)])

lemma recv_loop_keeps:
  assumes cb: "cb_keeps cb Q P" and P: "P (rs_u st)"
    and Q: "\<forall>(p, r) \<in> set ps. \<forall>sk msg. recv_copy a sk nla creds buf p = Some msg \<longrightarrow> Q msg"
  shows "P (rs_u (fst (recv_loop cb a nla creds buf ps st)))"
  using P Q
proof (induction ps arbitrary: st)
  case (Cons x ps)
  obtain p r where x: "x = (p, r)" by (cases x)
  show ?case
  proof (cases "recv_copy a (rs_sk st) nla creds buf p")
    case (Some msg)
    let ?r = "recv_msg cb nla (nlh buf p) (s32 (get32 buf (p + 16))) msg st"
    have "Q msg" using Cons.prems(2) x Some by auto
    then have "P (rs_u (fst ?r))" using recv_msg_keeps [OF cb _ Cons.prems(1)] by simp
    then show ?thesis using Some x Cons.IH [of "fst ?r"] Cons.prems(2)
      by (auto split: prod.splits flow.splits)
  qed (use Cons.prems x in simp)
qed simp

text \<open>
  What a receive function must deliver: a positive result counts the bytes of the buffer that
  were filled, as documented for \<open>nl_recv\<close> and for functions that override it.
\<close>

definition recv_sound :: "(nl_sock \<Rightarrow> 'u \<Rightarrow> (recv_result \<times> nl_sock \<times> 'u) option) \<Rightarrow> bool" where
  "recv_sound recv \<longleftrightarrow> (\<forall>sk u n nla buf creds sk' u'.
     recv sk u = Some ((n, nla, buf, creds), sk', u') \<longrightarrow> n \<le> blen buf \<and> n \<le> STREAM_MAX)"

definition recv_keeps ::
  "(nl_sock \<Rightarrow> 'u \<Rightarrow> (recv_result \<times> nl_sock \<times> 'u) option) \<Rightarrow> ('u \<Rightarrow> bool) \<Rightarrow> bool" where
  "recv_keeps recv P \<longleftrightarrow> (\<forall>sk u r sk' u'. recv sk u = Some (r, sk', u') \<longrightarrow> P u \<longrightarrow> P u')"

lemma recv_copy_wf:
  assumes "n \<le> blen buf" "n \<le> STREAM_MAX" "(p, r) \<in> set (nlmsg_positions buf 0 n)"
    "recv_copy True sk nla creds buf p = Some msg"
  shows "wf_msg msg \<and> nlmsg_hdr msg = nlh buf p \<and>
    rd (nm_nlh msg) 0 (mlen msg) = rd buf p (nlmsg_len (nlh buf p)) \<and> nm_refcnt msg = 1"
proof -
  have i: "0 \<le> p" "p + r = n" "nlmsg_ok (nlh buf p) r"
    using nlmsgs.each_inside [OF assms(2,3)] by auto
  then obtain m where m: "nlmsg_convert True True buf p = Some m" "wf_msg m"
    "nlmsg_hdr m = nlh buf p" "rd (nm_nlh m) 0 (mlen m) = rd buf p (nlmsg_len (nlh buf p))" "nm_refcnt m = 1"
    using nlmsg_convert_ok [of buf p r] assms(1,2) i by auto
  have "nm_nlh msg = nm_nlh m \<and> nm_size msg = nm_size m \<and> nm_refcnt msg = nm_refcnt m"
    using assms(4) m(1)
    by (auto simp: recv_copy_def Let_def nlmsg_set_src_def nlmsg_set_proto_def nlmsg_set_creds_def
        split: option.splits)
  moreover from this have "nlmsg_hdr msg = nlmsg_hdr m" by (simp add: nlmsg_hdr_def)
  ultimately show ?thesis using m(2-5) by (simp add: wf_msg_def)
qed

lemma recvmsgs_loop_keeps:
  assumes sound: "recv_sound recv" and cb: "cb_keeps cb (\<lambda>msg. wf_msg msg \<and> nm_refcnt msg = 1) P"
    and rP: "recv_keeps recv P"
    and P: "P (rs_u st)" and ret: "recvmsgs_loop fuel recv True cb st = Some (ret, sk', u')"
  shows "P u'"
  using P ret
proof (induction fuel arbitrary: st)
  case (Suc fuel)
  obtain n nla buf creds sk u where r: "recv (rs_sk st) (rs_u st) = Some ((n, nla, buf, creds), sk, u)"
    using Suc.prems(2) by (auto split: option.splits)
  have Pu: "P u" using rP r Suc.prems(1) unfolding recv_keeps_def by blast
  let ?st = "st\<lparr>rs_sk := sk, rs_u := u\<rparr>"
  show ?case
  proof (cases "n \<le> 0")
    case True
    then show ?thesis using Suc.prems(2) r Pu by simp
  next
    case False
    let ?l = "recv_loop cb True nla creds buf (nlmsg_positions buf 0 n) ?st"
    have "n \<le> blen buf" "n \<le> STREAM_MAX" using sound r unfolding recv_sound_def by blast+
    then have Pl: "P (rs_u (fst ?l))"
      using recv_copy_wf [of n buf] Pu by (intro recv_loop_keeps [OF cb]) auto
    show ?thesis
      using Suc.prems(2) Suc.IH [of "fst ?l"] Pl r False
      by (auto simp: recv_finish_def Let_def split: prod.splits flow.splits if_splits)
  qed
qed simp

text \<open>
  A measure of the pending input: receiving uses some up, callbacks add none. Then the loop
  ends within that many rounds.
\<close>

lemma recvmsgs_loop_returns:
  assumes dec: "\<And>sk u. \<exists>n nla buf creds sk' u'. recv sk u = Some ((n, nla, buf, creds), sk', u') \<and>
      (0 < n \<longrightarrow> \<mu> u' < \<mu> u)"
    and cb: "\<And>m. cb_keeps cb (\<lambda>_. True) (\<lambda>u. \<mu> u \<le> (m::nat))"
    and fuel: "\<mu> (rs_u st) < fuel"
  shows "recvmsgs_loop fuel recv a cb st \<noteq> None"
  using fuel
proof (induction fuel arbitrary: st)
  case (Suc fuel)
  obtain n nla buf creds sk u where r: "recv (rs_sk st) (rs_u st) = Some ((n, nla, buf, creds), sk, u)"
    "0 < n \<longrightarrow> \<mu> u < \<mu> (rs_u st)" using dec by blast
  let ?st = "st\<lparr>rs_sk := sk, rs_u := u\<rparr>"
  let ?l = "recv_loop cb a nla creds buf (nlmsg_positions buf 0 n) ?st"
  obtain s fl where l: "?l = (s, fl)" by (cases ?l)
  have "\<mu> (rs_u s) \<le> \<mu> u"
    using recv_loop_keeps [OF cb [of "\<mu> u"], of ?st "nlmsg_positions buf 0 n" a nla creds buf] l by auto
  then have "0 < n \<Longrightarrow> recvmsgs_loop fuel recv a cb s \<noteq> None"
    using Suc.IH [of s] Suc.prems r(2) by simp
  then show ?case using r(1) l by (cases fl) (simp_all add: Let_def recv_finish_def)
qed simp

section \<open>Single messages under quiet callback sets\<close>

text \<open>No user callback interferes with the checks: what most programs run with.\<close>

definition quiet :: "('a, 'u) nl_cb \<Rightarrow> bool" where
  "quiet cb \<longleftrightarrow> cb_set cb ! NL_CB_MSG_IN = None \<and> cb_set cb ! NL_CB_SEQ_CHECK = None \<and>
     cb_set cb ! NL_CB_INVALID = None \<and> cb_set cb ! NL_CB_SEND_ACK = None \<and>
     cb_set cb ! NL_CB_DUMP_INTR = None \<and> cb_err cb = None"

lemma NL_CB_CALL_None: "cb_set cb ! type = None \<Longrightarrow> NL_CB_CALL cb type msg st dflt k = dflt st"
  by (simp add: NL_CB_CALL_def)

lemma recv_msg_seq_mismatch:
  assumes "quiet cb" "\<not> has_flag (rs_sk st) NL_NO_AUTO_ACK" "nlmsg_seq hdr \<noteq> s_seq_expect (rs_sk st)"
  shows "recv_msg cb nla hdr e msg st =
    (st\<lparr>rs_nrecv := rs_nrecv st + 1\<rparr>, Out (neg_err NLE_SEQ_MISMATCH))"
  using assms by (simp add: recv_msg_def recv_seq_def quiet_def NL_CB_CALL_None Let_def)

text \<open>A message in sequence: everything up to the dispatch.\<close>

lemma recv_msg_in_seq:
  assumes "quiet cb" "has_flag (rs_sk st) NL_NO_AUTO_ACK \<or> nlmsg_seq hdr = s_seq_expect (rs_sk st)"
  shows "recv_msg cb nla hdr e msg st = recv_dispatch cb nla hdr e msg
    (st\<lparr>rs_nrecv := rs_nrecv st + 1,
        rs_sk := (if is_control (nlmsg_type hdr) then
          (rs_sk st)\<lparr>s_seq_expect := u32 (s_seq_expect (rs_sk st) + 1)\<rparr> else rs_sk st),
        rs_multipart := (nlmsg_flags hdr AND NLM_F_MULTI \<noteq> 0 \<or> rs_multipart st),
        rs_interrupted := (nlmsg_flags hdr AND NLM_F_DUMP_INTR \<noteq> 0 \<or> rs_interrupted st)\<rparr>)"
  using assms
  by (auto simp: recv_msg_def recv_seq_def recv_expect_def recv_intr_def recv_ack_def quiet_def
      NL_CB_CALL_None Let_def intro!: arg_cong [of _ _ "recv_dispatch cb nla hdr e msg"])

section \<open>Properties\<close>

text \<open>
  C10. Whatever bytes arrive, every message that \<open>recvmsgs\<close> hands to a callback is well formed
  and has exactly one reference: any property of the user state that the callbacks keep when
  called with such messages (and that receiving keeps) holds when \<open>recvmsgs\<close> returns.
\<close>

theorem recvmsgs_callbacks_safe:
  assumes "recv_sound recv" "cb_recv_ow cb = None"
    and "cb_keeps cb (\<lambda>msg. wf_msg msg \<and> nm_refcnt msg = 1) P"
    and "recv_keeps recv P" "P u" "recvmsgs fuel recv True cb sk u = Some (ret, sk', u')"
  shows "P u'"
proof -
  let ?st = "\<lparr>rs_sk = sk, rs_u = u, rs_multipart = False, rs_interrupted = False, rs_nrecv = 0\<rparr>"
  have "recvmsgs_loop fuel recv True cb ?st = Some (ret, sk', u')"
    using assms(2,6) by (simp add: recvmsgs_def)
  from recvmsgs_loop_keeps [OF assms(1,3,4) _ this] assms(5) show ?thesis by simp
qed

text \<open>
  For the witnesses: a callback for valid messages that records whether all were well formed,
  and a receive function that takes the next datagram from a list (-4 is \<open>-NLE_AGAIN\<close>).
\<close>

definition check_cb :: "(unit, byte list list \<times> bool) nl_cb" where
  "check_cb = \<lparr>cb_set = (replicate 11 None)[0 := Some (\<lambda>msg arg (ds, b).
       (NL_OK, ds, b \<and> wf_msg msg \<and> nm_refcnt msg = 1))],
     cb_args = replicate 11 None, cb_err = None, cb_err_arg = None, cb_recvmsgs_ow = None,
     cb_recv_ow = None, cb_send_ow = None, cb_refcnt = 1, cb_active = 11\<rparr>"

definition queue_recv ::
  "nl_sock \<Rightarrow> byte list list \<times> bool \<Rightarrow> (recv_result \<times> nl_sock \<times> byte list list \<times> bool) option" where
  "queue_recv sk u = (case u of
     ([], b) \<Rightarrow> Some ((-4, no_addr, [], None), sk, [], b)
   | (d # ds, b) \<Rightarrow> Some ((min (blen d) STREAM_MAX, no_addr, d, None), sk, ds, b))"

lemma queue_recv_sound: "recv_sound queue_recv" "recv_keeps queue_recv snd"
  by (auto simp: recv_sound_def recv_keeps_def queue_recv_def STREAM_MAX_def
      split: prod.splits list.splits)

lemma check_cb_set: "type \<le> 10 \<Longrightarrow> cb_set check_cb ! type = (if type = 0 then
    Some (\<lambda>msg arg (ds, b). (NL_OK, ds, b \<and> wf_msg msg \<and> nm_refcnt msg = 1)) else None)"
  by (simp add: check_cb_def nth_list_update)

lemma check_cb_simps [simp]: "cb_err check_cb = None" "cb_recv_ow check_cb = None"
    "cb_recvmsgs_ow check_cb = None"
  by (simp_all add: check_cb_def)

lemma check_cb_quiet: "quiet check_cb"
  by (simp add: quiet_def check_cb_set cb_consts)

lemma check_cb_keeps: "cb_keeps check_cb (\<lambda>msg. wf_msg msg \<and> nm_refcnt msg = 1) snd"
  "cb_keeps check_cb (\<lambda>_. True) (\<lambda>u. length (fst u) \<le> m)"
  by (auto simp: cb_keeps_def check_cb_set NL_CB_TYPE_MAX_def split: if_splits)

lemma queue_recv_returns: "recvmsgs (Suc (length ds)) queue_recv a check_cb sk (ds, b) \<noteq> None"
proof -
  have dec: "\<exists>n nla buf creds sk' u'. queue_recv sk u = Some ((n, nla, buf, creds), sk', u') \<and>
      (0 < n \<longrightarrow> length (fst u') < length (fst u))" for sk u
    by (cases u; cases "fst u") (auto simp: queue_recv_def)
  show ?thesis unfolding recvmsgs_def check_cb_simps option.case
    by (rule recvmsgs_loop_returns [OF dec check_cb_keeps(2)]) simp
qed

definition valid_dgram :: "byte list" where
  "valid_dgram = [16, 0, 0, 0, 24, 0, 0, 0, 5, 0, 0, 0, 0, 0, 0, 0]"

theorem recvmsgs_callbacks_safe_witness:
  "\<exists>ret sk' ds. recvmsgs 2 queue_recv True check_cb fresh_sock ([valid_dgram], True) = Some (ret, sk', ds, True)"
proof -
  obtain ret sk' ds b where r:
    "recvmsgs 2 queue_recv True check_cb fresh_sock ([valid_dgram], True) = Some (ret, sk', ds, b)"
    using queue_recv_returns [of "[valid_dgram]" True fresh_sock True] by (auto simp: numeral_eq_Suc)
  have "snd (ds, b)"
    using recvmsgs_callbacks_safe [OF queue_recv_sound(1) _ check_cb_keeps(1) queue_recv_sound(2) _ r] by simp
  then show ?thesis using r by auto
qed

text \<open>
  C25. \<open>recvmsgs\<close> returns: when every successful receive uses up some of the pending input and
  callbacks add none, as many rounds as there is input, plus one, are enough.
\<close>

theorem recvmsgs_returns:
  assumes "\<And>sk u. \<exists>n nla buf creds sk' u'. recv sk u = Some ((n, nla, buf, creds), sk', u') \<and>
      (0 < n \<longrightarrow> \<mu> u' < \<mu> u)"
    and "\<And>m. cb_keeps cb (\<lambda>_. True) (\<lambda>u. \<mu> u \<le> (m::nat))" "cb_recv_ow cb = None"
  shows "\<exists>r. recvmsgs (Suc (\<mu> u)) recv a cb sk u = Some r"
  using recvmsgs_loop_returns [of recv \<mu> cb _ "Suc (\<mu> u)" a, OF assms(1,2)] assms(3)
  by (simp add: recvmsgs_def del: recvmsgs_loop.simps)

theorem recvmsgs_returns_witness:
  "\<exists>r. recvmsgs (Suc (length (fst ([valid_dgram, []], True)))) queue_recv True check_cb fresh_sock
     ([valid_dgram, []], True) = Some r"
proof (rule recvmsgs_returns [where \<mu> = "\<lambda>u. length (fst u)"])
  show "\<exists>n nla buf creds sk' u'. queue_recv sk u = Some ((n, nla, buf, creds), sk', u') \<and>
      (0 < n \<longrightarrow> length (fst u') < length (fst u))" for sk u
    by (cases u; cases "fst u") (auto simp: queue_recv_def)
qed (simp_all add: check_cb_keeps)

lemma recv_copy_some:
  assumes "n \<le> blen buf" "n \<le> STREAM_MAX" "nlmsg_ok (nlh buf 0) n"
  shows "\<exists>msg. recv_copy True sk nla creds buf 0 = Some msg"
  using nlmsg_convert_ok [of buf 0 n] assms by (auto simp: recv_copy_def Let_def)

text \<open>The first message of a datagram, when it decides the result.\<close>

lemma recvmsgs_first_copy:
  assumes r: "recv sk u = Some ((n, nla, buf, creds), sk1, u1)" and ow: "cb_recv_ow cb = None"
    and b: "n \<le> blen buf" "n \<le> STREAM_MAX" "nlmsg_ok (nlh buf 0) n"
    and m: "\<And>msg. recv_copy True sk1 nla creds buf 0 = Some msg \<Longrightarrow> recv_msg cb nla (nlh buf 0) (s32 (get32 buf 16)) msg
        \<lparr>rs_sk = sk1, rs_u = u1, rs_multipart = False, rs_interrupted = False, rs_nrecv = 0\<rparr> = (st, fl)"
    and fl: "fl \<noteq> Skip"
  shows "recvmsgs (Suc fuel) recv True cb sk u = Some (recv_finish (case fl of Out e \<Rightarrow> e | _ \<Rightarrow> 0) st)"
proof -
  let ?st = "\<lparr>rs_sk = sk1, rs_u = u1, rs_multipart = False, rs_interrupted = False, rs_nrecv = 0\<rparr>"
  obtain msg where c: "recv_copy True sk1 nla creds buf 0 = Some msg" using recv_copy_some [OF b] by blast
  have e: "nlmsg_positions buf 0 n = (0, n) # tl (nlmsg_positions buf 0 n)"
    using nlmsgs.each_step [OF b(2,3)] by simp
  have "recv_loop cb True nla creds buf (nlmsg_positions buf 0 n) ?st = (st, fl)"
    by (subst e) (use c m [OF c] fl in \<open>simp split: flow.split\<close>)
  moreover have "\<not> n \<le> 0" using b(3) by (simp add: nlmsg_ok_def)
  ultimately show ?thesis using r ow fl by (cases fl) (simp_all add: recvmsgs_def)
qed

lemma recvmsgs_first:
  assumes r: "recv sk u = Some ((n, nla, buf, creds), sk1, u1)" and ow: "cb_recv_ow cb = None"
    and b: "n \<le> blen buf" "n \<le> STREAM_MAX" "nlmsg_ok (nlh buf 0) n"
    and m: "\<And>msg. recv_msg cb nla (nlh buf 0) (s32 (get32 buf 16)) msg
        \<lparr>rs_sk = sk1, rs_u = u1, rs_multipart = False, rs_interrupted = False, rs_nrecv = 0\<rparr> = (st, fl)"
    and fl: "fl \<noteq> Skip"
  shows "recvmsgs (Suc fuel) recv True cb sk u = Some (recv_finish (case fl of Out e \<Rightarrow> e | _ \<Rightarrow> 0) st)"
  by (rule recvmsgs_first_copy [where recv = recv and sk = sk and u = u, OF r ow b _ fl]) (rule m)

text \<open>
  C31. Sequence numbers: with the default checks in place and automatic acknowledgements on, a
  datagram whose first message does not carry the expected sequence number makes \<open>recvmsgs\<close>
  return \<open>-NLE_SEQ_MISMATCH\<close>; no callback runs and the expected number stays.
\<close>

theorem recvmsgs_rejects_bad_seq:
  assumes "quiet cb" "cb_recv_ow cb = None" "recv sk u = Some ((n, nla, buf, creds), sk1, u1)"
    and "n \<le> blen buf" "n \<le> STREAM_MAX" "nlmsg_ok (nlh buf 0) n"
    and "\<not> has_flag sk1 NL_NO_AUTO_ACK" "nlmsg_seq (nlh buf 0) \<noteq> s_seq_expect sk1"
  shows "recvmsgs (Suc fuel) recv True cb sk u = Some (neg_err NLE_SEQ_MISMATCH, sk1, u1)"
proof -
  let ?st = "\<lparr>rs_sk = sk1, rs_u = u1, rs_multipart = False, rs_interrupted = False, rs_nrecv = 0\<rparr>"
  let ?st' = "\<lparr>rs_sk = sk1, rs_u = u1, rs_multipart = False, rs_interrupted = False, rs_nrecv = 1\<rparr>"
  have m: "recv_msg cb nla (nlh buf 0) (s32 (get32 buf 16)) msg ?st =
      (?st', Out (neg_err NLE_SEQ_MISMATCH))" for msg
    using recv_msg_seq_mismatch [OF assms(1), of ?st "nlh buf 0" nla "s32 (get32 buf 16)" msg] assms(7,8)
    by simp
  have "recvmsgs (Suc fuel) recv True cb sk u = Some (recv_finish
      (case Out (neg_err NLE_SEQ_MISMATCH) of Out e \<Rightarrow> e | _ \<Rightarrow> 0) ?st')"
    by (rule recvmsgs_first [where recv = recv and sk = sk and u = u, OF assms(3,2,4-6) m]) simp
  then show ?thesis by (simp add: recv_finish_def neg_err_def)
qed

theorem recvmsgs_rejects_bad_seq_witness:
  "recvmsgs 1 queue_recv True check_cb (fresh_sock\<lparr>s_seq_expect := 9\<rparr>) ([valid_dgram], True) =
     Some (-16, fresh_sock\<lparr>s_seq_expect := 9\<rparr>, [], True)"
proof -
  let ?sk = "fresh_sock\<lparr>s_seq_expect := 9\<rparr>"
  have r: "queue_recv ?sk ([valid_dgram], True) = Some ((16, no_addr, valid_dgram, None), ?sk, [], True)"
    by (simp add: queue_recv_def valid_dgram_def STREAM_MAX_def)
  have h: "nlmsg_ok (nlh valid_dgram 0) 16" "nlmsg_seq (nlh valid_dgram 0) = 5" by code_simp+
  show ?thesis
    using recvmsgs_rejects_bad_seq [where recv = queue_recv and sk = ?sk and u = "([valid_dgram], True)" and fuel = 0,
        OF check_cb_quiet _ r] h
    by (simp add: valid_dgram_def STREAM_MAX_def fresh_sock_def NL_OWN_PORT_def NL_NO_AUTO_ACK_def neg_err_def)
qed

lemma ack_cb:
  assumes "wf_cb cb" "quiet cb"
  defines "cb' \<equiv> ignore_err (cb\<lparr>cb_refcnt := 1\<rparr>)
    (nl_cb_set (cb\<lparr>cb_refcnt := 1\<rparr>) (int NL_CB_ACK) NL_CB_CUSTOM (Some ack_wait_handler) None)"
  shows "quiet cb'" "cb_set cb' ! NL_CB_ACK = Some ack_wait_handler"
    "cb_recv_ow cb' = cb_recv_ow cb" "cb_recvmsgs_ow cb' = cb_recvmsgs_ow cb"
  using assms by (auto simp: nl_cb_set_def wf_cb_def quiet_def cb_consts)

lemma nl_wait_for_ack_answer:
  assumes wf: "wf_cb cb" and q: "quiet cb" and ow: "cb_recv_ow cb = None" "cb_recvmsgs_ow cb = None"
    and r: "recv sk u = Some ((n, nla, buf, creds), sk1, u1)"
    and b: "n \<le> blen buf" "n \<le> STREAM_MAX" "nlmsg_ok (nlh buf 0) n"
    and h: "nlmsg_type (nlh buf 0) = NLMSG_ERROR" "36 \<le> nlmsg_len (nlh buf 0)" "nlmsg_seq (nlh buf 0) = s_seq_expect sk1"
  defines "e \<equiv> s32 (get32 buf 16)"
  shows "nl_wait_for_ack (Suc fuel) recv True True cb sk u =
    Some (if nlmsg_flags (nlh buf 0) AND NLM_F_DUMP_INTR \<noteq> 0 then neg_err NLE_DUMP_INTR
          else if e = 0 then 0 else neg_err (nl_syserr2nlerr e),
          sk1\<lparr>s_seq_expect := u32 (s_seq_expect sk1 + 1)\<rparr>, u1)"
proof -
  let ?cb = "ignore_err (cb\<lparr>cb_refcnt := 1\<rparr>)
    (nl_cb_set (cb\<lparr>cb_refcnt := 1\<rparr>) (int NL_CB_ACK) NL_CB_CUSTOM (Some ack_wait_handler) None)"
  note a = ack_cb [OF wf q]
  let ?fs = "nlmsg_flags (nlh buf 0)"
  let ?st = "\<lparr>rs_sk = sk1, rs_u = u1, rs_multipart = False, rs_interrupted = False, rs_nrecv = 0\<rparr>"
  let ?sk = "sk1\<lparr>s_seq_expect := u32 (s_seq_expect sk1 + 1)\<rparr>"
  let ?st' = "\<lparr>rs_sk = ?sk, rs_u = u1, rs_multipart = ?fs AND NLM_F_MULTI \<noteq> 0, rs_interrupted = ?fs AND NLM_F_DUMP_INTR \<noteq> 0, rs_nrecv = 1\<rparr>"
  let ?fl = "if e = 0 then Stop else Out (neg_err (nl_syserr2nlerr e))"
  have err: "cb_err ?cb = None" using a(1) by (simp add: quiet_def)
  have "recv_msg ?cb nla (nlh buf 0) e msg ?st = (?st', ?fl)" for msg
    using recv_msg_in_seq [OF a(1), of ?st "nlh buf 0" nla e msg] h a(2) err
    by (simp add: recv_dispatch_def recv_error_def is_control_def NL_CB_CALL_def ack_wait_handler_def
        NLMSG_ERROR_def NLMSG_DONE_def NLMSG_NOOP_def NLMSG_OVERRUN_def NL_OK_def NL_SKIP_def NL_STOP_def)
  then have m: "recv_msg ?cb nla (nlh buf 0) (s32 (get32 buf 16)) msg ?st = (?st', ?fl)" for msg
    by (simp add: e_def)
  have "cb_recv_ow ?cb = None" using a(3) ow(1) by simp
  then have "recvmsgs (Suc fuel) recv True ?cb sk u =
      Some (recv_finish (case ?fl of Out e \<Rightarrow> e | _ \<Rightarrow> 0) ?st')"
    by (rule recvmsgs_first [where recv = recv and sk = sk and u = u, OF r _ b m]) simp
  moreover have pos: "nle_code c \<noteq> 0" "\<not> nle_code c < 0" for c by (cases c, simp_all)+
  ultimately have "nl_recvmsgs (Suc fuel) recv True ?cb sk u =
      Some (if ?fs AND NLM_F_DUMP_INTR \<noteq> 0 then neg_err NLE_DUMP_INTR
            else if e = 0 then 0 else neg_err (nl_syserr2nlerr e), ?sk, u1)"
    using a(4) ow(2)
    by (simp add: nl_recvmsgs_def nl_recvmsgs_report_def recv_finish_def neg_err_def pos)
  moreover have "nl_cb_clone True cb = Some (cb\<lparr>cb_refcnt := 1\<rparr>)"
    by (simp add: nl_cb_clone_def nl_cb_alloc_default)
  ultimately show ?thesis by (simp add: nl_wait_for_ack_def)
qed

text \<open>
  C32. \<open>nl_wait_for_ack\<close> on the kernel's answer, for callback sets that have no error callback, no overriding functions and
  no callbacks for incoming, invalid and acknowledging messages, sequence checks and interruptions, when no allocation fails: a datagram whose first message is in
  sequence and carries a whole \<open>struct nlmsgerr\<close>, with any flags, makes it return 0 if the code is 0 (an
  acknowledgement) and the translated negative error otherwise, or \<open>-NLE_DUMP_INTR\<close> if it has the flag of an interrupted dump. In
  each case the expected sequence number advances by one.
\<close>

theorem nl_wait_for_ack_result:
  assumes wf: "wf_cb cb" and q: "quiet cb" and ow: "cb_recv_ow cb = None" "cb_recvmsgs_ow cb = None"
    and r: "recv sk u = Some ((n, nla, buf, creds), sk1, u1)"
    and b: "n \<le> blen buf" "n \<le> STREAM_MAX" "nlmsg_ok (nlh buf 0) n"
    and h: "nlmsg_type (nlh buf 0) = NLMSG_ERROR" "36 \<le> nlmsg_len (nlh buf 0)" "nlmsg_seq (nlh buf 0) = s_seq_expect sk1"
  defines "e \<equiv> s32 (get32 buf 16)"
  shows "nl_wait_for_ack (Suc fuel) recv True True cb sk u =
    Some (if nlmsg_flags (nlh buf 0) AND NLM_F_DUMP_INTR \<noteq> 0 then neg_err NLE_DUMP_INTR
          else if e = 0 then 0 else neg_err (nl_syserr2nlerr e),
          sk1\<lparr>s_seq_expect := u32 (s_seq_expect sk1 + 1)\<rparr>, u1)"
  unfolding e_def by (rule nl_wait_for_ack_answer [where recv = recv and sk = sk and u = u, OF wf q ow r b h])

definition error_dgram :: "byte list" where
  "error_dgram = [36, 0, 0, 0, 2, 0, 0, 0, 5, 0, 0, 0, 0, 0, 0, 0, 239, 255, 255, 255] @ replicate 16 0"

theorem nl_wait_for_ack_result_witness:
  "nl_wait_for_ack 1 queue_recv True True check_cb (fresh_sock\<lparr>s_seq_expect := 5\<rparr>) ([error_dgram], True) =
     Some (-6, fresh_sock\<lparr>s_seq_expect := 6\<rparr>, [], True)"
proof -
  let ?sk = "fresh_sock\<lparr>s_seq_expect := 5\<rparr>"
  have r: "queue_recv ?sk ([error_dgram], True) = Some ((36, no_addr, error_dgram, None), ?sk, [], True)"
    by (simp add: queue_recv_def error_dgram_def STREAM_MAX_def)
  have h: "nlmsg_ok (nlh error_dgram 0) 36" "nlmsg_seq (nlh error_dgram 0) = 5"
    "nlmsg_len (nlh error_dgram 0) = 36" "nlmsg_type (nlh error_dgram 0) = 2" "nlmsg_flags (nlh error_dgram 0) = 0"
    "s32 (get32 error_dgram 16) = -17" "blen error_dgram = 36" "nl_syserr2nlerr (-17) = NLE_EXIST"
    by code_simp+
  have w: "wf_cb check_cb" by (simp add: wf_cb_def check_cb_def cb_consts)
  show ?thesis
    using nl_wait_for_ack_result [where recv = queue_recv and sk = ?sk and u = "([error_dgram], True)"
        and fuel = 0, OF w check_cb_quiet _ _ r] h
    by (simp add: STREAM_MAX_def NLMSG_ERROR_def neg_err_def u32_def)
qed

text \<open>
  What a netlink socket documents of \<open>recvmsg\<close> while datagram \<open>d\<close> from \<open>nm\<close> is the first in its
  queue: peeking with \<open>MSG_TRUNC\<close> reports the full length and leaves the queue as it is, reading
  copies what fits and takes the datagram off the queue; both flag a buffer that is too small. Credentials \<open>cr\<close> come
  with the datagram if the option \<open>SO_PASSCRED\<close> is set, and need room in the control buffer.
\<close>

definition serves :: "'u recvfun \<Rightarrow> int \<Rightarrow> sockaddr_nl \<Rightarrow> ucred option \<Rightarrow> byte list \<Rightarrow> 'u \<Rightarrow> 'u \<Rightarrow> bool" where
  "serves recvmsg fd nm cr d u u' \<longleftrightarrow> (\<forall>peek l cl. 0 < l \<longrightarrow> recvmsg fd peek l sizeof_sockaddr_nl cl u =
     (\<lparr>rr_n = if peek then blen d else min l (blen d), rr_data = take (nat l) d, rr_name = nm,
       rr_namelen = sizeof_sockaddr_nl, rr_controllen = (if cr \<noteq> None \<and> CRED_SPACE \<le> cl then CRED_SPACE else 0),
       rr_ctrunc = (cr \<noteq> None \<and> cl < CRED_SPACE), rr_trunc = l < blen d,
       rr_cmsgs = (case cr of Some c \<Rightarrow> if CRED_SPACE \<le> cl then [(SOL_SOCKET, SCM_CREDENTIALS, c)] else [] | None \<Rightarrow> [])\<rparr>,
      if peek then u else u'))"

text \<open>The default buffer has four pages; the documentation of \<open>nl_recv\<close> says one.\<close>

lemma nl_recv_datagram:
  fixes sk :: nl_sock
  assumes "serves recvmsg (s_fd sk) nm cr d u u'" "d \<noteq> []" "0 < page" "0 \<le> s_bufsize sk"
    and "cr \<noteq> None \<longleftrightarrow> has_flag sk NL_SOCK_PASSCRED" "cr \<noteq> None \<longrightarrow> creds"
  defines "peek \<equiv> has_flag sk NL_MSG_PEEK \<or> \<not> has_flag sk NL_MSG_PEEK_EXPLICIT \<and> s_bufsize sk = 0"
    and "l \<equiv> if s_bufsize sk = 0 then page * 4 else s_bufsize sk"
  shows "nl_recv (Suc (Suc fuel)) recvmsg True True True page creds sk u =
    Some (if peek \<or> blen d \<le> l then (blen d, nm, d, cr) else (neg_err NLE_MSG_TRUNC, nm, [], None), sk, u')"
proof -
  have l: "0 < l" "(if s_bufsize sk \<noteq> 0 then s_bufsize sk else page * 4) = l" and d: "0 < blen d"
    using assms(2-4) by (auto simp: l_def)
  have "rd (take (nat n) d) 0 (blen d) = d" if "blen d \<le> n" for n
    using that by (simp add: rd_def)
  moreover have "(creds \<and> has_flag sk NL_SOCK_PASSCRED) = (cr \<noteq> None)" using assms(5,6) by blast
  moreover have "first_creds [(SOL_SOCKET, SCM_CREDENTIALS, c)] = Some c" for c by simp
  ultimately show ?thesis
    using assms(1) l d unfolding nl_recv_def serves_def peek_def [symmetric]
    by (cases cr) (auto simp: Let_def CRED_SPACE_def)
qed

text \<open>
  C33. \<open>nl_recv\<close> on the next datagram, when no allocation fails and the caller takes the credentials if they are enabled: the result
  is the whole datagram with its credentials, or \<open>-NLE_MSG_TRUNC\<close>, never a truncated datagram. With peeking on (the default while no
  buffer size is set) two calls of \<open>recvmsg\<close> return it whole, whatever its length; without peeking it is
  returned whole when it fits the configured buffer, or a page if none is configured, and refused if it is longer than the configured
  buffer.
\<close>

theorem nl_recv_whole_or_error:
  fixes sk :: nl_sock
  assumes "serves recvmsg (s_fd sk) nm cr d u u'" "d \<noteq> []" "0 < page" "0 \<le> s_bufsize sk"
    and "cr \<noteq> None \<longleftrightarrow> has_flag sk NL_SOCK_PASSCRED" "cr \<noteq> None \<longrightarrow> creds"
  defines "peek \<equiv> has_flag sk NL_MSG_PEEK \<or> \<not> has_flag sk NL_MSG_PEEK_EXPLICIT \<and> s_bufsize sk = 0"
    and "l \<equiv> if s_bufsize sk = 0 then page else s_bufsize sk"
    and "whole \<equiv> (blen d, nm, d, cr)" and "refused \<equiv> (neg_err NLE_MSG_TRUNC, nm, [] :: byte list, None :: ucred option)"
  shows "\<exists>r. nl_recv (Suc (Suc fuel)) recvmsg True True True page creds sk u = Some (r, sk, u') \<and>
    (r = whole \<or> r = refused) \<and> (peek \<or> blen d \<le> l \<longrightarrow> r = whole) \<and>
    (\<not> peek \<and> s_bufsize sk \<noteq> 0 \<and> s_bufsize sk < blen d \<longrightarrow> r = refused)"
  using nl_recv_datagram [OF assms(1-6), of fuel] assms(3) unfolding peek_def l_def whole_def refused_def by auto

theorem nl_recv_whole_or_error_witness:
  "let recvmsg = \<lambda>fd peek l nl cl u. (\<lparr>rr_n = if peek then 2 else min l 2, rr_data = take (nat l) [7, 8],
       rr_name = no_addr, rr_namelen = 12, rr_controllen = 0, rr_ctrunc = False, rr_trunc = l < 2,
       rr_cmsgs = []\<rparr>, if peek then u else Suc u)
   in nl_recv 2 recvmsg True True True 4096 False fresh_sock 0 = Some ((2, no_addr, [7, 8], None), fresh_sock, 1)
    \<and> nl_recv 2 recvmsg True True True 4096 False (fresh_sock\<lparr>s_bufsize := 1\<rparr>) 0 =
        Some ((-18, no_addr, [], None), fresh_sock\<lparr>s_bufsize := 1\<rparr>, 1)"
proof -
  let ?r = "\<lambda>fd peek l nl cl u. (\<lparr>rr_n = if peek then 2 else min l 2, rr_data = take (nat l) [7, 8],
       rr_name = no_addr, rr_namelen = 12, rr_controllen = 0, rr_ctrunc = False, rr_trunc = l < 2,
       rr_cmsgs = []\<rparr>, if peek then u else Suc u)"
  have s: "serves ?r fd no_addr None [7, 8] 0 1" for fd
    by (simp add: serves_def sizeof_sockaddr_nl_def)
  show ?thesis
    using nl_recv_whole_or_error [of ?r fresh_sock no_addr None "[7, 8]" 0 1 4096 False 0, OF s]
      nl_recv_whole_or_error [of ?r "fresh_sock\<lparr>s_bufsize := 1\<rparr>" no_addr None "[7, 8]" 0 1 4096 False 0, OF s]
    by (simp add: numeral_2_eq_2 fresh_sock_def NL_MSG_PEEK_def NL_MSG_PEEK_EXPLICIT_def NL_SOCK_PASSCRED_def
        NL_OWN_PORT_def neg_err_def)
qed

end
