(* ===== verification/Nl_Hash.thy ===== *)
theory Nl_Hash
  imports Nl_Prelude
begin

unbundle bit_operations_syntax

text \<open>
  The hash function of \<open>lib/hash.c\<close> (Jenkins' lookup3), at its width: 32-bit words with
  wrap-around. \<open>hashlittle\<close> has three code paths, for keys aligned to four bytes, to two bytes,
  and not at all; each is modelled as it is written. The host's byte order (\<open>big\<close>) and the
  macros \<open>HASH_LITTLE_ENDIAN\<close> and \<open>HASH_BIG_ENDIAN\<close> (\<open>hle\<close>, \<open>hbe\<close>) are parameters.
\<close>

section \<open>The code\<close>

type_synonym abc = "32 word \<times> 32 word \<times> 32 word"

definition rot :: "32 word \<Rightarrow> nat \<Rightarrow> 32 word" where
  "rot x k = push_bit k x OR drop_bit (32 - k) x"

definition mix :: "abc \<Rightarrow> abc" where
  "mix = (\<lambda>(a, b, c).
     let a = a - c; a = a XOR rot c 4; c = c + b;
         b = b - a; b = b XOR rot a 6; a = a + c;
         c = c - b; c = c XOR rot b 8; b = b + a;
         a = a - c; a = a XOR rot c 16; c = c + b;
         b = b - a; b = b XOR rot a 19; a = a + c;
         c = c - b; c = c XOR rot b 4; b = b + a
     in (a, b, c))"

definition final :: "abc \<Rightarrow> abc" where
  "final = (\<lambda>(a, b, c).
     let c = c XOR b; c = c - rot b 14;
         a = a XOR c; a = a - rot c 11;
         b = b XOR a; b = b - rot a 25;
         c = c XOR b; c = c - rot b 16;
         a = a XOR c; a = a - rot c 4;
         b = b XOR a; b = b - rot a 14;
         c = c XOR b; c = c - rot b 24
     in (a, b, c))"

text \<open>\<open>k8[i]\<close>, and \<open>k[i]\<close> through a \<open>uint16_t *\<close> and a \<open>uint32_t *\<close> on a host of either byte order.\<close>

definition k8 :: "byte list \<Rightarrow> nat \<Rightarrow> 32 word" where
  "k8 k i = ucast (k ! i)"

definition host_word :: "bool \<Rightarrow> byte list \<Rightarrow> 32 word" where
  "host_word big bs = word_of_int (le_int (if big then rev bs else bs))"

definition k16 :: "bool \<Rightarrow> byte list \<Rightarrow> nat \<Rightarrow> 32 word" where
  "k16 big k i = host_word big (take 2 (drop (2 * i) k))"

definition k32 :: "bool \<Rightarrow> byte list \<Rightarrow> nat \<Rightarrow> 32 word" where
  "k32 big k i = host_word big (take 4 (drop (4 * i) k))"

text \<open>
  A \<open>switch\<close> with fall-through: the cases in source order, each with its label, its statements
  and whether a \<open>break\<close> ends it.
\<close>

fun run_cases :: "(nat \<times> ('s \<Rightarrow> 's) \<times> bool) list \<Rightarrow> 's \<Rightarrow> 's" where
  "run_cases [] s = s"
| "run_cases ((l, f, brk) # cs) s = (if brk then f s else run_cases cs (f s))"

fun switch_on :: "nat \<Rightarrow> (nat \<times> ('s \<Rightarrow> 's) \<times> bool) list \<Rightarrow> 's \<Rightarrow> 's" where
  "switch_on n [] s = s"
| "switch_on n ((l, f, brk) # cs) s =
     (if l = n then run_cases ((l, f, brk) # cs) s else switch_on n cs s)"

definition add_a :: "32 word \<Rightarrow> abc \<Rightarrow> abc" where "add_a x = (\<lambda>(a, b, c). (a + x, b, c))"
definition add_b :: "32 word \<Rightarrow> abc \<Rightarrow> abc" where "add_b x = (\<lambda>(a, b, c). (a, b + x, c))"
definition add_c :: "32 word \<Rightarrow> abc \<Rightarrow> abc" where "add_c x = (\<lambda>(a, b, c). (a, b, c + x))"

text \<open>The \<open>while (length > 12)\<close> loop; \<open>blk\<close> is what it adds before \<open>mix\<close>.\<close>

fun hash_loop :: "(byte list \<Rightarrow> abc \<Rightarrow> abc) \<Rightarrow> byte list \<Rightarrow> abc \<Rightarrow> byte list \<times> abc" where
  "hash_loop blk k s =
     (if 12 < length k then hash_loop blk (drop 12 k) (mix (blk k s)) else (k, s))"

declare hash_loop.simps [simp del]

definition words_block :: "bool \<Rightarrow> byte list \<Rightarrow> abc \<Rightarrow> abc" where
  "words_block big k s = add_c (k32 big k 2) (add_b (k32 big k 1) (add_a (k32 big k 0) s))"

definition words_tail :: "bool \<Rightarrow> byte list \<Rightarrow> abc \<Rightarrow> abc" where
  "words_tail big k = switch_on (length k)
     [(12, \<lambda>s. add_a (k32 big k 0) (add_b (k32 big k 1) (add_c (k32 big k 2) s)), True),
      (11, add_c (push_bit 16 (k8 k 10)), False),
      (10, add_c (push_bit 8 (k8 k 9)), False),
      (9, add_c (k8 k 8), False),
      (8, \<lambda>s. add_a (k32 big k 0) (add_b (k32 big k 1) s), True),
      (7, add_b (push_bit 16 (k8 k 6)), False),
      (6, add_b (push_bit 8 (k8 k 5)), False),
      (5, add_b (k8 k 4), False),
      (4, add_a (k32 big k 0), True),
      (3, add_a (push_bit 16 (k8 k 2)), False),
      (2, add_a (push_bit 8 (k8 k 1)), False),
      (1, add_a (k8 k 0), True)]"

definition halves_block :: "bool \<Rightarrow> byte list \<Rightarrow> abc \<Rightarrow> abc" where
  "halves_block big k s =
     add_c (k16 big k 4 + push_bit 16 (k16 big k 5))
       (add_b (k16 big k 2 + push_bit 16 (k16 big k 3))
         (add_a (k16 big k 0 + push_bit 16 (k16 big k 1)) s))"

definition halves_tail :: "bool \<Rightarrow> byte list \<Rightarrow> abc \<Rightarrow> abc" where
  "halves_tail big k =
     (let a01 = add_a (k16 big k 0 + push_bit 16 (k16 big k 1));
          b23 = add_b (k16 big k 2 + push_bit 16 (k16 big k 3)) in
      switch_on (length k)
     [(12, \<lambda>s. a01 (b23 (add_c (k16 big k 4 + push_bit 16 (k16 big k 5)) s)), True),
      (11, add_c (push_bit 16 (k8 k 10)), False),
      (10, \<lambda>s. a01 (b23 (add_c (k16 big k 4) s)), True),
      (9, add_c (k8 k 8), False),
      (8, \<lambda>s. a01 (b23 s), True),
      (7, add_b (push_bit 16 (k8 k 6)), False),
      (6, \<lambda>s. a01 (add_b (k16 big k 2) s), True),
      (5, add_b (k8 k 4), False),
      (4, a01, True),
      (3, add_a (push_bit 16 (k8 k 2)), False),
      (2, add_a (k16 big k 0), True),
      (1, add_a (k8 k 0), True)])"

definition bytes_block :: "byte list \<Rightarrow> abc \<Rightarrow> abc" where
  "bytes_block k s =
     fold (\<lambda>f. f)
       [add_a (k8 k 0), add_a (push_bit 8 (k8 k 1)), add_a (push_bit 16 (k8 k 2)), add_a (push_bit 24 (k8 k 3)),
        add_b (k8 k 4), add_b (push_bit 8 (k8 k 5)), add_b (push_bit 16 (k8 k 6)), add_b (push_bit 24 (k8 k 7)),
        add_c (k8 k 8), add_c (push_bit 8 (k8 k 9)), add_c (push_bit 16 (k8 k 10)), add_c (push_bit 24 (k8 k 11))] s"

definition bytes_tail :: "byte list \<Rightarrow> abc \<Rightarrow> abc" where
  "bytes_tail k = switch_on (length k)
     [(12, add_c (push_bit 24 (k8 k 11)), False),
      (11, add_c (push_bit 16 (k8 k 10)), False),
      (10, add_c (push_bit 8 (k8 k 9)), False),
      (9, add_c (k8 k 8), False),
      (8, add_b (push_bit 24 (k8 k 7)), False),
      (7, add_b (push_bit 16 (k8 k 6)), False),
      (6, add_b (push_bit 8 (k8 k 5)), False),
      (5, add_b (k8 k 4), False),
      (4, add_a (push_bit 24 (k8 k 3)), False),
      (3, add_a (push_bit 16 (k8 k 2)), False),
      (2, add_a (push_bit 8 (k8 k 1)), False),
      (1, add_a (k8 k 0), True)]"

text \<open>A path of either function: the loop, the \<open>switch\<close>, \<open>final\<close>; length 0 returns \<open>c\<close> at once and
  leaves \<open>*val2\<close> alone. The result is the hash and the new \<open>*val2\<close>.\<close>

definition hash_path ::
  "(byte list \<Rightarrow> abc \<Rightarrow> abc) \<Rightarrow> (byte list \<Rightarrow> abc \<Rightarrow> abc) \<Rightarrow> byte list \<Rightarrow> 32 word \<Rightarrow> 32 word \<times> 32 word" where
  "hash_path blk tail key val2 =
     (let i = 0xdeadbeef + of_nat (length key) + val2;
          (k, s) = hash_loop blk key (i, i, i) in
      if k = [] then (case s of (a, b, c) \<Rightarrow> (c, val2))
      else case final (tail k s) of (a, b, c) \<Rightarrow> (c, b))"

text \<open>\<open>addr\<close> is the address of the key, \<open>u.i\<close>.\<close>

definition hashlittle :: "bool \<Rightarrow> bool \<Rightarrow> nat \<Rightarrow> byte list \<Rightarrow> 32 word \<Rightarrow> 32 word \<times> 32 word" where
  "hashlittle big hle addr key val2 =
     (if hle \<and> addr AND 3 = 0 then hash_path (words_block big) (words_tail big) key val2
      else if hle \<and> addr AND 1 = 0 then hash_path (halves_block big) (halves_tail big) key val2
      else hash_path bytes_block bytes_tail key val2)"

definition big_words_tail :: "bool \<Rightarrow> byte list \<Rightarrow> abc \<Rightarrow> abc" where
  "big_words_tail big k = switch_on (length k)
     [(12, \<lambda>s. add_a (k32 big k 0) (add_b (k32 big k 1) (add_c (k32 big k 2) s)), True),
      (11, add_c (push_bit 8 (k8 k 10)), False),
      (10, add_c (push_bit 16 (k8 k 9)), False),
      (9, add_c (push_bit 24 (k8 k 8)), False),
      (8, \<lambda>s. add_a (k32 big k 0) (add_b (k32 big k 1) s), True),
      (7, add_b (push_bit 8 (k8 k 6)), False),
      (6, add_b (push_bit 16 (k8 k 5)), False),
      (5, add_b (push_bit 24 (k8 k 4)), False),
      (4, add_a (k32 big k 0), True),
      (3, add_a (push_bit 8 (k8 k 2)), False),
      (2, add_a (push_bit 16 (k8 k 1)), False),
      (1, add_a (push_bit 24 (k8 k 0)), True)]"

definition big_bytes_block :: "byte list \<Rightarrow> abc \<Rightarrow> abc" where
  "big_bytes_block k s =
     fold (\<lambda>f. f)
       [add_a (push_bit 24 (k8 k 0)), add_a (push_bit 16 (k8 k 1)), add_a (push_bit 8 (k8 k 2)), add_a (k8 k 3),
        add_b (push_bit 24 (k8 k 4)), add_b (push_bit 16 (k8 k 5)), add_b (push_bit 8 (k8 k 6)), add_b (k8 k 7),
        add_c (push_bit 24 (k8 k 8)), add_c (push_bit 16 (k8 k 9)), add_c (push_bit 8 (k8 k 10)), add_c (k8 k 11)] s"

definition big_bytes_tail :: "byte list \<Rightarrow> abc \<Rightarrow> abc" where
  "big_bytes_tail k = switch_on (length k)
     [(12, add_c (k8 k 11), False),
      (11, add_c (push_bit 8 (k8 k 10)), False),
      (10, add_c (push_bit 16 (k8 k 9)), False),
      (9, add_c (push_bit 24 (k8 k 8)), False),
      (8, add_b (k8 k 7), False),
      (7, add_b (push_bit 8 (k8 k 6)), False),
      (6, add_b (push_bit 16 (k8 k 5)), False),
      (5, add_b (push_bit 24 (k8 k 4)), False),
      (4, add_a (k8 k 3), False),
      (3, add_a (push_bit 8 (k8 k 2)), False),
      (2, add_a (push_bit 16 (k8 k 1)), False),
      (1, add_a (push_bit 24 (k8 k 0)), True)]"

definition hashbig :: "bool \<Rightarrow> bool \<Rightarrow> nat \<Rightarrow> byte list \<Rightarrow> 32 word \<Rightarrow> 32 word \<times> 32 word" where
  "hashbig big hbe addr key val2 =
     (if hbe \<and> addr AND 3 = 0 then hash_path (words_block big) (big_words_tail big) key val2
      else hash_path big_bytes_block big_bytes_tail key val2)"

text \<open>The headers define exactly one of the two macros as 1.\<close>

definition nl_hash_any :: "bool \<Rightarrow> bool \<Rightarrow> nat \<Rightarrow> byte list \<Rightarrow> 32 word \<Rightarrow> 32 word" where
  "nl_hash_any big hbe addr key base =
     (if hbe then fst (hashbig big hbe addr key base)
      else fst (hashlittle big (\<not> hbe) addr key base))"

definition nl_hash :: "bool \<Rightarrow> bool \<Rightarrow> nat \<Rightarrow> byte list \<Rightarrow> 32 word \<Rightarrow> 32 word" where
  "nl_hash big hbe addr k initval = nl_hash_any big hbe addr k initval"

section \<open>Mixing is reversible\<close>

text \<open>\<open>mix\<close> is six rounds of one shape, with the roles of the three words rotating.\<close>

definition mix_round :: "nat \<Rightarrow> abc \<Rightarrow> abc" where
  "mix_round k = (\<lambda>(x, y, z). (y, z + y, (x - z) XOR rot z k))"

definition unmix_round :: "nat \<Rightarrow> abc \<Rightarrow> abc" where
  "unmix_round k = (\<lambda>(y, z, x). ((x XOR rot (z - y) k) + (z - y), y, z - y))"

lemma mix_rounds: "mix s = fold mix_round [4, 6, 8, 16, 19, 4] s"
  by (cases s) (simp only: mix_def mix_round_def Let_def prod.case fold_simps o_apply id_apply)

definition unmix :: "abc \<Rightarrow> abc" where
  "unmix = fold unmix_round [4, 19, 16, 8, 6, 4]"

lemma unmix_mix_round [simp]:
  "unmix_round k (mix_round k s) = s" "mix_round k (unmix_round k s) = s"
  by (cases s, simp add: mix_round_def unmix_round_def xor.assoc)+

lemma unmix_mix: "unmix (mix s) = s" and mix_unmix: "mix (unmix s) = s"
  by (simp_all add: unmix_def mix_rounds)

text \<open>\<open>final\<close> is seven rounds of another shape.\<close>

definition final_round :: "nat \<Rightarrow> abc \<Rightarrow> abc" where
  "final_round k = (\<lambda>(x, y, z). (z, (x XOR y) - rot y k, y))"

lemma final_rounds:
  "final (a, b, c) = (case fold final_round [14, 11, 25, 16, 4, 14, 24] (c, b, a) of (x, y, z) \<Rightarrow> (x, z, y))"
  by (simp only: final_def final_round_def Let_def prod.case fold_simps o_apply id_apply)

section \<open>The three paths agree\<close>

lemma host_word_bytes:
  "host_word False [x, y] = ucast x + push_bit 8 (ucast y)"
  "host_word False [x, y, z, w] =
     ucast x + push_bit 8 (ucast y) + push_bit 16 (ucast z) + push_bit 24 (ucast w)"
  "host_word True [x, y, z, w] =
     push_bit 24 (ucast x) + push_bit 16 (ucast y) + push_bit 8 (ucast z) + ucast w"
  by (simp_all add: host_word_def push_bit_eq_mult algebra_simps)

lemma take_drop_2: "Suc i < length k \<Longrightarrow> take 2 (drop i k) = [k ! i, k ! Suc i]"
  by (simp add: Cons_nth_drop_Suc [symmetric] numeral_2_eq_2)

lemma take_drop_4:
  "i + 3 < length k \<Longrightarrow> take 4 (drop i k) = [k ! i, k ! Suc i, k ! Suc (Suc i), k ! Suc (Suc (Suc i))]"
  by (simp add: Cons_nth_drop_Suc [symmetric] eval_nat_numeral)

lemma k16_bytes: "Suc (2 * i) < length k \<Longrightarrow> k16 False k i = k8 k (2 * i) + push_bit 8 (k8 k (Suc (2 * i)))"
  by (simp add: k16_def k8_def take_drop_2 host_word_bytes)

lemma k32_bytes: "4 * i + 3 < length k \<Longrightarrow> k32 False k i =
    k8 k (4 * i) + push_bit 8 (k8 k (Suc (4 * i))) + push_bit 16 (k8 k (Suc (Suc (4 * i)))) +
    push_bit 24 (k8 k (Suc (Suc (Suc (4 * i)))))"
  by (simp add: k32_def k8_def take_drop_4 host_word_bytes)

lemma k32_bytes_big: "4 * i + 3 < length k \<Longrightarrow> k32 True k i =
    push_bit 24 (k8 k (4 * i)) + push_bit 16 (k8 k (Suc (4 * i))) + push_bit 8 (k8 k (Suc (Suc (4 * i)))) +
    k8 k (Suc (Suc (Suc (4 * i))))"
  by (simp add: k32_def k8_def take_drop_4 host_word_bytes)

text \<open>The positions that the code reads, with the indices as it writes them.\<close>

lemma k16_at:
  "1 < length k \<Longrightarrow> k16 False k 0 = k8 k 0 + push_bit 8 (k8 k 1)"
  "3 < length k \<Longrightarrow> k16 False k 1 = k8 k 2 + push_bit 8 (k8 k 3)"
  "5 < length k \<Longrightarrow> k16 False k 2 = k8 k 4 + push_bit 8 (k8 k 5)"
  "7 < length k \<Longrightarrow> k16 False k 3 = k8 k 6 + push_bit 8 (k8 k 7)"
  "9 < length k \<Longrightarrow> k16 False k 4 = k8 k 8 + push_bit 8 (k8 k 9)"
  "11 < length k \<Longrightarrow> k16 False k 5 = k8 k 10 + push_bit 8 (k8 k 11)"
  by (simp_all add: k16_bytes eval_nat_numeral del: push_bit_of_Suc_0)

lemma k32_at:
  "3 < length k \<Longrightarrow> k32 False k 0 =
    k8 k 0 + push_bit 8 (k8 k 1) + push_bit 16 (k8 k 2) + push_bit 24 (k8 k 3)"
  "7 < length k \<Longrightarrow> k32 False k 1 =
    k8 k 4 + push_bit 8 (k8 k 5) + push_bit 16 (k8 k 6) + push_bit 24 (k8 k 7)"
  "11 < length k \<Longrightarrow> k32 False k 2 =
    k8 k 8 + push_bit 8 (k8 k 9) + push_bit 16 (k8 k 10) + push_bit 24 (k8 k 11)"
  "3 < length k \<Longrightarrow> k32 True k 0 =
    push_bit 24 (k8 k 0) + push_bit 16 (k8 k 1) + push_bit 8 (k8 k 2) + k8 k 3"
  "7 < length k \<Longrightarrow> k32 True k 1 =
    push_bit 24 (k8 k 4) + push_bit 16 (k8 k 5) + push_bit 8 (k8 k 6) + k8 k 7"
  "11 < length k \<Longrightarrow> k32 True k 2 =
    push_bit 24 (k8 k 8) + push_bit 16 (k8 k 9) + push_bit 8 (k8 k 10) + k8 k 11"
  by (simp_all add: k32_bytes k32_bytes_big eval_nat_numeral)

lemma push_bit_add_word: "push_bit n (x + y :: 32 word) = push_bit n x + push_bit n y"
  by (simp add: push_bit_eq_mult algebra_simps)

lemma push_bit_16_8: "push_bit 16 (push_bit 8 (x :: 32 word)) = push_bit 24 x"
  by (simp add: push_bit_push_bit)

lemmas hash_sums = k16_at k32_at push_bit_add_word push_bit_16_8
  add_a_def add_b_def add_c_def

lemma tails_agree:
  assumes "k \<noteq> []" "length k \<le> 12"
  shows "words_tail False k s = bytes_tail k s" "halves_tail False k s = bytes_tail k s"
    "big_words_tail True k s = big_bytes_tail k s"
proof -
  have n: "length k \<in> {12, 11, 10, 9, 8, 7, 6, 5, 4, 3, 2, 1}"
  proof -
    have "0 < length k" using assms(1) by simp
    with assms(2) show ?thesis by (simp del: length_greater_0_conv) presburger
  qed
  obtain a b c where s: "s = (a, b, c)" by (cases s)
  show "words_tail False k s = bytes_tail k s"
    using n unfolding s by (elim insertE emptyE) (simp_all add: words_tail_def bytes_tail_def hash_sums ac_simps del: One_nat_def)
  show "halves_tail False k s = bytes_tail k s"
    using n unfolding s by (elim insertE emptyE) (simp_all add: halves_tail_def Let_def bytes_tail_def hash_sums ac_simps del: One_nat_def)
  show "big_words_tail True k s = big_bytes_tail k s"
    using n unfolding s by (elim insertE emptyE) (simp_all add: big_words_tail_def big_bytes_tail_def hash_sums ac_simps del: One_nat_def)
qed

lemma blocks_agree:
  assumes "12 < length k"
  shows "words_block False k s = bytes_block k s" "halves_block False k s = bytes_block k s"
    "words_block True k s = big_bytes_block k s"
proof -
  obtain a b c where s: "s = (a, b, c)" by (cases s)
  have l: "i < length k" if "i \<le> 12" for i using assms that by simp
  show "words_block False k s = bytes_block k s"
    unfolding s words_block_def bytes_block_def
    by (simp add: l k32_at add_a_def add_b_def add_c_def add.assoc del: One_nat_def)
  show "halves_block False k s = bytes_block k s"
    unfolding s halves_block_def bytes_block_def
    by (simp add: l k16_at push_bit_add_word push_bit_16_8 add_a_def add_b_def add_c_def add.assoc del: One_nat_def)
  show "words_block True k s = big_bytes_block k s"
    unfolding s words_block_def big_bytes_block_def
    by (simp add: l k32_at add_a_def add_b_def add_c_def add.assoc del: One_nat_def)
qed

lemma hash_loop_cong:
  assumes "\<And>k s. 12 < length k \<Longrightarrow> blk k s = blk' k s"
  shows "hash_loop blk k s = hash_loop blk' k s"
proof (induction "length k" arbitrary: k s rule: less_induct)
  case less
  show ?case
    by (subst (1 2) hash_loop.simps) (simp add: assms less)
qed

lemma hash_loop_length: "length (fst (hash_loop blk k s)) \<le> 12"
  by (induction blk k s rule: hash_loop.induct) (subst hash_loop.simps, simp)

lemma hash_loop_short: "length k \<le> 12 \<Longrightarrow> hash_loop blk k s = (k, s)"
  by (subst hash_loop.simps) simp

lemma hash_path_cong:
  assumes "\<And>k s. 12 < length k \<Longrightarrow> blk k s = blk' k s"
    and "\<And>k s. k \<noteq> [] \<Longrightarrow> length k \<le> 12 \<Longrightarrow> tail k s = tail' k s"
  shows "hash_path blk tail key v = hash_path blk' tail' key v"
proof -
  let ?i = "0xdeadbeef + of_nat (length key) + v"
  obtain k s where k: "hash_loop blk key (?i, ?i, ?i) = (k, s)" by (rule prod.exhaust)
  then have "hash_loop blk' key (?i, ?i, ?i) = (k, s)" using hash_loop_cong [of blk blk', OF assms(1)] by simp
  moreover have "length k \<le> 12" using hash_loop_length [of blk key "(?i, ?i, ?i)"] k by simp
  ultimately show ?thesis using k assms(2) [of k s] by (simp add: hash_path_def Let_def)
qed

lemma hashlittle_bytes: "hashlittle False hle addr key v = hash_path bytes_block bytes_tail key v"
  unfolding hashlittle_def
  by (auto intro!: hash_path_cong simp: blocks_agree tails_agree)

lemma hashbig_bytes: "hashbig True hbe addr key v = hash_path big_bytes_block big_bytes_tail key v"
  unfolding hashbig_def
  by (auto intro!: hash_path_cong simp: blocks_agree tails_agree)

section \<open>Properties\<close>

text \<open>
  C24. The optimised paths of \<open>nl_hash_any\<close> are equivalent to the one that reads byte by byte,
  as long as the compile-time byte order is that of the host: equal keys hash to the same
  value wherever they are stored.
\<close>

theorem nl_hash_any_address_independent:
  "nl_hash_any big big addr key base =
     fst (if big then hash_path big_bytes_block big_bytes_tail key base
          else hash_path bytes_block bytes_tail key base)"
  by (cases big) (simp_all add: nl_hash_any_def hashlittle_bytes hashbig_bytes)

text \<open>
  \<open>mix\<close> loses no information, as its comment promises: it is a bijection on the internal
  state.
\<close>

lemma mix_bijective: "bij mix"
  by (rule o_bij [of unmix]) (simp_all add: fun_eq_iff unmix_mix mix_unmix)

text \<open>
  \<open>include/netlink/hash.h\<close> tests \<open>#ifdef __LITTLE_ENDIAN\<close>, a macro that the C library's
  \<open>endian.h\<close> defines on every host, so \<open>HASH_BIG_ENDIAN\<close> is 0 on big-endian hosts as well.
  There the hash of a key depends on where it is stored.
\<close>

theorem hash_depends_on_address:
  "nl_hash_any True False 0 [1, 0, 0, 0] 0 \<noteq> nl_hash_any True False 1 [1, 0, 0, 0] 0"
proof -
  let ?k = "[1, 0, 0, 0] :: byte list" and ?s = "(0xdeadbef3, 0xdeadbef3, 0xdeadbef3) :: abc"
  have t: "words_tail True ?k ?s = (0xdfadbef3, 0xdeadbef3, 0xdeadbef3)"
    "bytes_tail ?k ?s = (0xdeadbef4, 0xdeadbef3, 0xdeadbef3)"
    by (simp_all add: words_tail_def bytes_tail_def k32_def k8_def host_word_def add_a_def)
  have "snd (snd (final (0xdfadbef3, 0xdeadbef3, 0xdeadbef3))) \<noteq> snd (snd (final (0xdeadbef4, 0xdeadbef3, 0xdeadbef3)))"
    by (simp add: final_rounds final_round_def rot_def)
  then show ?thesis
    by (simp add: nl_hash_any_def hashlittle_def hash_path_def hash_loop_short t split_beta)
qed

end
