(* ===== verification/Nl_Text.thy ===== *)
theory Nl_Text
  imports Nl_Prelude
begin

text \<open>
  The functions of the C library that the textual parts of libnl use: \<open>strtol\<close> and \<open>strtoul\<close>,
  \<open>strcasecmp\<close>, the conversions \<open>%u\<close> and \<open>%02x\<close>, and \<open>snprintf\<close> and \<open>strncat\<close> on a buffer. Strings
  are \<open>string\<close>s (lists of characters without the final NUL), in the locale \<open>C\<close>; \<open>long\<close> has 64 bits.
\<close>

section \<open>Characters\<close>

definition isspace :: "char \<Rightarrow> bool" where
  "isspace c \<longleftrightarrow> of_char c = (32::nat) \<or> (9 \<le> (of_char c :: nat) \<and> of_char c \<le> (13::nat))"

definition tolower :: "char \<Rightarrow> char" where
  "tolower c = (let n = of_char c :: nat in if 65 \<le> n \<and> n \<le> 90 then char_of (n + 32) else c)"

text \<open>The value of a digit in bases up to 36, 99 for other characters.\<close>

definition digit_val :: "char \<Rightarrow> nat" where
  "digit_val c =
     (let n = of_char (tolower c) :: nat in
      if 48 \<le> n \<and> n \<le> 57 then n - 48 else if 97 \<le> n \<and> n \<le> 122 then n - 87 else 99)"

definition digit_char :: "nat \<Rightarrow> char" where
  "digit_char d = char_of (if d < 10 then 48 + d else 87 + d)"

lemma code_digit: "d < 16 \<Longrightarrow> (of_char (digit_char d) :: nat) = (if d < 10 then 48 + d else 87 + d)"
  by (simp add: digit_char_def)

lemma tolower_digit [simp]: "d < 16 \<Longrightarrow> tolower (digit_char d) = digit_char d"
  by (simp add: tolower_def Let_def code_digit)

lemma digit_val_char [simp]: "d < 16 \<Longrightarrow> digit_val (digit_char d) = d"
  by (simp add: digit_val_def Let_def code_digit)

lemma digit_char_plain:
  assumes "d < 16"
  shows "\<not> isspace (digit_char d)" "digit_char d \<noteq> CHR ''-''" "digit_char d \<noteq> CHR ''+''"
    "digit_char d \<noteq> CHR ''x''" "digit_char d \<noteq> CHR ''X''" "digit_char d \<noteq> CHR '':''" "digit_char d \<noteq> CHR ''/''"
    "digit_char d \<noteq> CHR ''.''" "digit_char d \<noteq> CHR '',''" "digit_char d \<noteq> CHR 0x00"
proof -
  have ne: "digit_char d \<noteq> c" if "(of_char c :: nat) \<notin> {48..57} \<union> {97..102}" for c
    using code_digit [OF assms] that assms by (auto split: if_splits)
  show "\<not> isspace (digit_char d)" using code_digit [OF assms] by (simp add: isspace_def split: if_splits)
  show "digit_char d \<noteq> CHR ''-''" "digit_char d \<noteq> CHR ''+''"
    "digit_char d \<noteq> CHR ''x''" "digit_char d \<noteq> CHR ''X''" "digit_char d \<noteq> CHR '':''" "digit_char d \<noteq> CHR ''/''"
    "digit_char d \<noteq> CHR ''.''" "digit_char d \<noteq> CHR '',''" "digit_char d \<noteq> CHR 0x00"
    by (rule ne; simp)+
qed

lemma digit_char_not_zero: "0 < d \<Longrightarrow> d < 16 \<Longrightarrow> digit_char d \<noteq> CHR ''0''"
  using code_digit [of d] by (auto split: if_splits)

lemma digit_char_0 [simp]: "digit_char 0 = CHR ''0''"
  by (simp add: digit_char_def char_of_def bit_0)

definition strcaseeq :: "string \<Rightarrow> string \<Rightarrow> bool" where
  "strcaseeq s t \<longleftrightarrow> map tolower s = map tolower t"

section \<open>Reading numbers\<close>

text \<open>The longest prefix of digits of a base: its value, the number of digits and the rest.\<close>

fun scan_digits :: "nat \<Rightarrow> nat \<Rightarrow> nat \<Rightarrow> string \<Rightarrow> nat \<times> nat \<times> string" where
  "scan_digits base acc n [] = (acc, n, [])"
| "scan_digits base acc n (c # cs) =
     (if digit_val c < base then scan_digits base (acc * base + digit_val c) (Suc n) cs
      else (acc, n, c # cs))"

text \<open>The prefix \<open>0x\<close> counts only if a hexadecimal digit follows.\<close>

definition has_0x :: "string \<Rightarrow> bool" where
  "has_0x s = (case s of c0 # c1 # c2 # _ \<Rightarrow> c0 = CHR ''0'' \<and> tolower c1 = CHR ''x'' \<and> digit_val c2 < 16 | _ \<Rightarrow> False)"

definition scan_base :: "nat \<Rightarrow> string \<Rightarrow> nat \<times> string" where
  "scan_base base s =
     (if base = 0 then
        if has_0x s then (16, drop 2 s)
        else if s \<noteq> [] \<and> hd s = CHR ''0'' then (8, s)
        else (10, s)
      else if base = 16 \<and> has_0x s then (16, drop 2 s)
      else (base, s))"

definition scan_sign :: "string \<Rightarrow> bool \<times> string" where
  "scan_sign s =
     (case s of [] \<Rightarrow> (False, s)
      | c # cs \<Rightarrow> if c = CHR ''-'' then (True, cs) else if c = CHR ''+'' then (False, cs) else (False, s))"

text \<open>Sign, magnitude and the rest of the string; \<open>None\<close> if there is no number, where C sets
  \<open>endp\<close> to the start of the string.\<close>

definition scan_num :: "nat \<Rightarrow> string \<Rightarrow> (bool \<times> nat \<times> string) option" where
  "scan_num base s =
     (case scan_sign (dropWhile isspace s) of (neg, s) \<Rightarrow>
      case scan_base base s of (b, s) \<Rightarrow>
      case scan_digits b 0 0 s of (v, n, rest) \<Rightarrow> if n = 0 then None else Some (neg, v, rest))"

definition LONG_MAX :: int where "LONG_MAX = 9223372036854775807"
definition LONG_MIN :: int where "LONG_MIN = - 9223372036854775808"
definition ULONG_MAX :: int where "ULONG_MAX = 18446744073709551615"

definition strtol :: "nat \<Rightarrow> string \<Rightarrow> (int \<times> string) option" where
  "strtol base s =
     (case scan_num base s of None \<Rightarrow> None
      | Some (neg, v, rest) \<Rightarrow>
          Some (max LONG_MIN (min LONG_MAX (if neg then - int v else int v)), rest))"

definition strtoul :: "nat \<Rightarrow> string \<Rightarrow> (int \<times> string) option" where
  "strtoul base s =
     (case scan_num base s of None \<Rightarrow> None
      | Some (neg, v, rest) \<Rightarrow>
          Some (if int v > ULONG_MAX then ULONG_MAX else if neg then u64 (- int v) else int v, rest))"

section \<open>Writing numbers\<close>

function digits :: "nat \<Rightarrow> nat \<Rightarrow> string" where
  "digits base n =
     (if base < 2 \<or> n < base then [digit_char n] else digits base (n div base) @ [digit_char (n mod base)])"
  by pat_completeness auto

termination
  by (relation "measure snd") auto

declare digits.simps [simp del]

text \<open>\<open>%u\<close> and \<open>%x\<close>.\<close>

definition show_dec :: "nat \<Rightarrow> string" where "show_dec n = digits 10 n"
definition show_hex :: "nat \<Rightarrow> string" where "show_hex n = digits 16 n"

text \<open>\<open>%02x\<close> of a byte.\<close>

definition show_byte :: "byte \<Rightarrow> string" where
  "show_byte b = [digit_char (unat b div 16), digit_char (unat b mod 16)]"

lemma digits_set:
  assumes "1 < base" "base \<le> 16"
  shows "c \<in> set (digits base n) \<Longrightarrow> \<exists>d < base. c = digit_char d"
  using assms
proof (induction base n arbitrary: c rule: digits.induct)
  case (1 base n)
  have "\<exists>d < base. digit_char (n mod base) = digit_char d" using 1 by (intro exI [of _ "n mod base"]) simp
  then show ?case using 1 by (cases "n < base") (auto simp: digits.simps [of base n])
qed

lemma digits_plain:
  assumes "1 < base" "base \<le> 16" "\<And>d. d < 16 \<Longrightarrow> digit_char d \<noteq> c"
  shows "c \<notin> set (digits base n)"
proof
  assume "c \<in> set (digits base n)"
  then obtain d where "d < base" "c = digit_char d" using digits_set [OF assms(1,2)] by blast
  then show False using assms(2) assms(3) [of d] by simp
qed

lemma show_dec_plain [simp]:
  "CHR 0x00 \<notin> set (show_dec n)" "CHR ''/'' \<notin> set (show_dec n)" "CHR '':'' \<notin> set (show_dec n)"
  "CHR ''.'' \<notin> set (show_dec n)"
  unfolding show_dec_def by (rule digits_plain; simp add: digit_char_plain)+

lemma digits_not_Nil [simp]: "digits base n \<noteq> []"
  by (simp add: digits.simps)

text \<open>No leading zero, except for zero itself.\<close>

lemma hd_digits:
  assumes "1 < base" "base \<le> 16" "0 < n"
  shows "\<exists>d. 0 < d \<and> d < base \<and> hd (digits base n) = digit_char d"
  using assms
proof (induction base n rule: digits.induct)
  case (1 base n)
  show ?case
  proof (cases "n < base")
    case True
    then show ?thesis using 1 by (auto simp: digits.simps [of base n])
  next
    case False
    then have "0 < n div base" using 1 by (simp add: div_greater_zero_iff)
    then obtain d where "0 < d \<and> d < base \<and> hd (digits base (n div base)) = digit_char d" using 1 False by auto
    then show ?thesis using 1 False by (intro exI [of _ d]) (simp add: digits.simps [of base n])
  qed
qed

lemma scan_digits_digits:
  assumes "1 < base" "base \<le> 16"
  shows "scan_digits base acc k (digits base n @ t) =
    scan_digits base (acc * base ^ length (digits base n) + n) (k + length (digits base n)) t"
  using assms
proof (induction base n arbitrary: acc k t rule: digits.induct)
  case (1 base n)
  show ?case
  proof (cases "n < base")
    case True
    then show ?thesis using 1 by (simp add: digits.simps [of base n])
  next
    case False
    have m: "n mod base < base" using 1 by simp
    then have m16: "n mod base < 16" using 1 by linarith
    let ?l = "length (digits base (n div base))"
    have "(acc * base ^ ?l + n div base) * base + n mod base = acc * base ^ Suc ?l + n"
      by (simp add: algebra_simps)
    then show ?thesis using 1 False m m16 by (simp add: digits.simps [of base n])
  qed
qed

definition stops :: "nat \<Rightarrow> string \<Rightarrow> bool" where
  "stops base t \<longleftrightarrow> t = [] \<or> base \<le> digit_val (hd t)"

lemma scan_digits_stop: "stops base t \<Longrightarrow> scan_digits base acc k t = (acc, k, t)"
  by (cases t) (auto simp: stops_def)

text \<open>Reading back in base 0 what \<open>%u\<close> wrote.\<close>

lemma scan_num_dec:
  assumes "stops 10 t" "t = [] \<or> tolower (hd t) \<noteq> CHR ''x''"
  shows "scan_num 0 (show_dec n @ t) = Some (False, n, t)"
proof (cases "n = 0")
  case True
  have z: "show_dec 0 = [CHR ''0'']" by (simp add: show_dec_def digits.simps [of 10 0])
  have "\<not> has_0x (CHR ''0'' # t)" using assms(2) by (cases t) (auto simp: has_0x_def split: list.splits)
  moreover have "digit_val (CHR ''0'') = 0" "\<not> isspace (CHR ''0'')" using digit_val_char [of 0] digit_char_plain [of 0] by simp_all
  moreover have "stops 8 t" using assms(1) by (auto simp: stops_def)
  ultimately show ?thesis using True
    by (simp add: z scan_num_def scan_sign_def scan_base_def scan_digits_stop)
next
  case False
  then obtain d where d: "0 < d" "d < 10" "hd (digits 10 n) = digit_char d" using hd_digits [of 10 n] by auto
  then obtain cs where cs: "show_dec n = digit_char d # cs" by (cases "digits 10 n") (auto simp: show_dec_def)
  have "\<not> has_0x (digit_char d # cs @ t)" using digit_char_not_zero [of d] d by (auto simp: has_0x_def split: list.splits)
  then have "scan_num 0 (show_dec n @ t) = (case scan_digits 10 0 0 (show_dec n @ t) of (v, n, rest) \<Rightarrow> if n = 0 then None else Some (False, v, rest))"
    using digit_char_plain [of d] digit_char_not_zero [of d] d
    by (simp add: cs scan_num_def scan_sign_def scan_base_def)
  then show ?thesis
    by (simp add: show_dec_def scan_digits_digits scan_digits_stop [OF assms(1)])
qed

lemma strtoul_dec:
  "stops 10 t \<Longrightarrow> t = [] \<or> tolower (hd t) \<noteq> CHR ''x'' \<Longrightarrow> int n \<le> ULONG_MAX \<Longrightarrow>
    strtoul 0 (show_dec n @ t) = Some (int n, t)"
  by (simp add: strtoul_def scan_num_dec)

lemma strtol_dec:
  "stops 10 t \<Longrightarrow> t = [] \<or> tolower (hd t) \<noteq> CHR ''x'' \<Longrightarrow> int n \<le> LONG_MAX \<Longrightarrow>
    strtol 0 (show_dec n @ t) = Some (int n, t)"
  by (simp add: strtol_def scan_num_dec LONG_MIN_def)

lemma byte_digits: "unat (b :: byte) div 16 < 16" "unat b mod 16 < 16" "unat b < 256"
proof -
  show "unat b < 256" using unsigned_less [of b, where ?'a = nat] by simp
  then show "unat b div 16 < 16" by (simp add: less_mult_imp_div_less)
qed simp

lemma scan_digits_byte:
  "scan_digits 16 acc k (show_byte b @ t) = scan_digits 16 (acc * 256 + unat b) (k + 2) t"
  using byte_digits [of b] by (simp add: show_byte_def mult.commute add.commute)

lemma show_byte_Cons:
  "\<exists>c d. show_byte b = [c, d] \<and> \<not> isspace c \<and> c \<noteq> CHR ''-'' \<and> c \<noteq> CHR ''+'' \<and> tolower d \<noteq> CHR ''x'' \<and> digit_val c < 16 \<and> digit_val d < 16"
  using byte_digits [of b] digit_char_plain [of "unat b div 16"] digit_char_plain [of "unat b mod 16"]
  by (simp add: show_byte_def)

lemma strtol_byte:
  assumes "stops 16 t"
  shows "strtol 16 (show_byte b @ t) = Some (int (unat b), t)"
proof -
  obtain c d where cd: "show_byte b = [c, d]" "\<not> isspace c" "c \<noteq> CHR ''-''" "c \<noteq> CHR ''+''" "tolower d \<noteq> CHR ''x''"
    using show_byte_Cons by blast
  have "\<not> has_0x (c # d # t)" using cd(5) by (auto simp: has_0x_def split: list.splits)
  then have "scan_num 16 (show_byte b @ t) =
      (case scan_digits 16 0 0 (show_byte b @ t) of (v, n, rest) \<Rightarrow> if n = 0 then None else Some (False, v, rest))"
    using cd by (simp add: scan_num_def scan_sign_def scan_base_def)
  moreover have "int (unat b) \<le> LONG_MAX" using uint_byte_lt [of b] by (simp add: LONG_MAX_def)
  moreover have "LONG_MIN \<le> int (unat b)" unfolding LONG_MIN_def by (rule order_trans [of _ 0]) simp_all
  ultimately show ?thesis
    by (simp add: scan_digits_byte scan_digits_stop [OF assms] strtol_def)
qed

section \<open>Buffers\<close>

text \<open>A buffer of characters; \<open>cstr\<close> is the string it holds, if it is terminated.\<close>

definition cstr :: "string \<Rightarrow> string res" where
  "cstr buf = (if CHR 0x00 \<in> set buf then Inr (takeWhile (\<lambda>c. c \<noteq> CHR 0x00) buf) else Inl Undef)"

text \<open>Overwriting from a position on.\<close>

definition put_at :: "nat \<Rightarrow> string \<Rightarrow> string \<Rightarrow> string" where
  "put_at pos s buf = take pos buf @ s @ drop (pos + length s) buf"

definition snprintf :: "string \<Rightarrow> nat \<Rightarrow> string \<Rightarrow> string" where
  "snprintf buf sz s = (if sz = 0 then buf else put_at 0 (take (sz - 1) s @ [CHR 0x00]) buf)"

definition strncat :: "string \<Rightarrow> string \<Rightarrow> nat \<Rightarrow> string res" where
  "strncat buf s n = and_then (cstr buf) (\<lambda>d. Inr (put_at (length d) (take n s @ [CHR 0x00]) buf))"

lemma length_put_at: "pos + length s \<le> length buf \<Longrightarrow> length (put_at pos s buf) = length buf"
  by (simp add: put_at_def)

lemma takeWhile_cstr: "CHR 0x00 \<notin> set s \<Longrightarrow> takeWhile (\<lambda>c. c \<noteq> CHR 0x00) (s @ CHR 0x00 # r) = s"
  by (induction s) auto

lemma cstr_put_0: "CHR 0x00 \<notin> set s \<Longrightarrow> cstr (put_at 0 (s @ [CHR 0x00]) buf) = Inr s"
  by (simp add: cstr_def put_at_def takeWhile_cstr)

lemma cstr_snprintf: "CHR 0x00 \<notin> set s \<Longrightarrow> 0 < sz \<Longrightarrow> cstr (snprintf buf sz s) = Inr (take (sz - 1) s)"
  by (auto simp: snprintf_def intro!: cstr_put_0 dest: in_set_takeD)

lemma length_snprintf: "sz \<le> length buf \<Longrightarrow> length (snprintf buf sz s) = length buf"
  by (auto simp: snprintf_def length_put_at)

lemma strncat_spec:
  assumes "cstr buf = Inr d" "CHR 0x00 \<notin> set s"
  shows "\<exists>buf'. strncat buf s n = Inr buf' \<and> cstr buf' = Inr (d @ take n s) \<and>
    (length d + min n (length s) < length buf \<longrightarrow> length buf' = length buf)"
proof -
  have d: "d = takeWhile (\<lambda>c. c \<noteq> CHR 0x00) buf" using assms(1) by (auto simp: cstr_def split: if_splits)
  then have nul: "CHR 0x00 \<notin> set d" by (auto dest: set_takeWhileD)
  have "take (length d) buf = d" by (simp add: d takeWhile_eq_take [symmetric])
  then have "put_at (length d) (take n s @ [CHR 0x00]) buf = put_at 0 ((d @ take n s) @ [CHR 0x00]) buf"
    by (simp add: put_at_def add.commute add.left_commute)
  moreover have "CHR 0x00 \<notin> set (d @ take n s)" using nul assms(2) by (auto dest: in_set_takeD)
  ultimately show ?thesis
    using assms(1) cstr_put_0 [of "d @ take n s" buf] length_put_at [of 0 "(d @ take n s) @ [CHR 0x00]" buf]
    by (auto simp: strncat_def)
qed

end
