(* ===== verification/Nl_Mpls.thy ===== *)
theory Nl_Mpls
  imports Nl_Text
begin

unbundle bit_operations_syntax

text \<open>
  The textual form of MPLS label stacks (\<open>lib/mpls.c\<close>): labels in decimal, separated by slashes.
  A stack in memory is a list of big-endian 32-bit entries; the last one has the bottom-of-stack
  bit. \<open>mpls_ntop\<close> reads entries until it finds that bit, wherever the memory ends.
\<close>

section \<open>Definitions\<close>

definition MPLS_LS_LABEL_MASK :: int where "MPLS_LS_LABEL_MASK = 0xFFFFF000"
definition MPLS_LS_LABEL_SHIFT :: nat where "MPLS_LS_LABEL_SHIFT = 12"
definition MPLS_LS_S_MASK :: int where "MPLS_LS_S_MASK = 0x100"
definition MPLS_LS_S_SHIFT :: nat where "MPLS_LS_S_SHIFT = 8"

text \<open>\<open>htonl\<close> followed by a store, and \<open>ntohl\<close> of what is stored.\<close>

definition be32 :: "int \<Rightarrow> byte list" where "be32 v = rev (le_bytes 4 v)"
definition of_be :: "byte list \<Rightarrow> int" where "of_be bs = le_int (rev bs)"

text \<open>The loop of \<open>mpls_ntop1\<close>: the buffer and whether the result is the buffer (or \<open>NULL\<close>). \<open>dest\<close> and
  \<open>destlen\<close> are the position and the room that is left.\<close>

fun mpls_ntop1 :: "byte list \<Rightarrow> string \<Rightarrow> nat \<Rightarrow> nat \<Rightarrow> (string \<times> bool) res" where
  "mpls_ntop1 (b0 # b1 # b2 # b3 # addr) buf dest destlen =
     (let entry = of_be [b0, b1, b2, b3];
          label = drop_bit MPLS_LS_LABEL_SHIFT (entry AND MPLS_LS_LABEL_MASK);
          s = show_dec (nat label);
          buf = (if destlen = 0 then buf else put_at dest (take (destlen - 1) s @ [CHR 0x00]) buf) in
      if length s \<ge> destlen then Inr (buf, False)
      else if entry AND MPLS_LS_S_MASK \<noteq> 0 then Inr (buf, True)
      else
        let dest = dest + length s; destlen = destlen - length s in
        if destlen \<noteq> 0 then mpls_ntop1 addr (put_at dest ''/'' buf) (dest + 1) (destlen - 1)
        else mpls_ntop1 addr buf dest destlen)"
| "mpls_ntop1 _ buf dest destlen = Inl Undef"

definition mpls_ntop :: "int \<Rightarrow> byte list \<Rightarrow> string \<Rightarrow> nat \<Rightarrow> (string \<times> bool) res" where
  "mpls_ntop af addr buf buflen = (if af = AF_MPLS then mpls_ntop1 addr buf 0 buflen else Inr (buf, False))"

text \<open>The loop of \<open>mpls_pton1\<close> with \<open>n\<close> labels left; \<open>addr\<close> is what has been stored. \<open>None\<close> is the result 0.\<close>

fun mpls_pton1 :: "nat \<Rightarrow> string \<Rightarrow> byte list \<Rightarrow> byte list option" where
  "mpls_pton1 0 name addr = None"
| "mpls_pton1 (Suc n) name addr =
     (case strtoul 0 name of
        None \<Rightarrow> None
      | Some (label, endp) \<Rightarrow>
          if label \<ge> 2 ^ 20 then None
          else
            let entry = push_bit MPLS_LS_LABEL_SHIFT label in
            if endp = [] then Some (addr @ be32 (entry OR push_bit MPLS_LS_S_SHIFT 1))
            else if hd endp \<noteq> CHR ''/'' then None
            else mpls_pton1 n (tl endp) (addr @ be32 entry))"

text \<open>\<open>Inl\<close> for the result -1, \<open>Inr None\<close> for 0.\<close>

definition mpls_pton :: "int \<Rightarrow> string \<Rightarrow> nat \<Rightarrow> unit + byte list option" where
  "mpls_pton af src alen = (if af = AF_MPLS then Inr (mpls_pton1 (alen div 4) src []) else Inl ())"

section \<open>Stacks and their text\<close>

fun mpls_stack :: "int list \<Rightarrow> byte list" where
  "mpls_stack [] = []"
| "mpls_stack [l] = be32 (l * 4096 + 256)"
| "mpls_stack (l # ls) = be32 (l * 4096) @ mpls_stack ls"

fun mpls_text :: "int list \<Rightarrow> string" where
  "mpls_text [] = []"
| "mpls_text [l] = show_dec (nat l)"
| "mpls_text (l # ls) = show_dec (nat l) @ ''/'' @ mpls_text ls"

definition is_label :: "int \<Rightarrow> bool" where "is_label l \<longleftrightarrow> 0 \<le> l \<and> l < 2 ^ 20"

lemma of_be_be32: "0 \<le> v \<Longrightarrow> v < 4294967296 \<Longrightarrow> of_be (be32 v) = v"
  by (simp add: of_be_def be32_def le_int_bytes)

lemma length_be32 [simp]: "length (be32 v) = 4"
  by (simp add: be32_def)

lemma be32_Cons: "\<exists>b0 b1 b2 b3. be32 v = [b0, b1, b2, b3]"
  by (simp add: be32_def numeral_eq_Suc)

text \<open>The fields of an entry.\<close>

lemma entry_label:
  assumes "is_label l" "0 \<le> r" "r < 4096"
  shows "drop_bit 12 (l * 4096 + r) AND 0xFFFFF = l"
proof -
  have "drop_bit 12 (l * 4096 + r) = l" using assms by (simp add: drop_bit_eq_div)
  moreover have "0xFFFFF = (mask 20 :: int)" by (simp add: mask_eq_exp_minus_1)
  moreover have "l AND mask 20 = l" using assms(1) by (simp add: take_bit_eq_mask [symmetric] take_bit_eq_mod is_label_def)
  ultimately show ?thesis by simp
qed

lemma bit_256: "bit (256::int) n \<longleftrightarrow> n = 8"
  using bit_exp_iff [of 8 n, where ?'a = int] by (simp add: possible_bit_def)

lemma entry_bottom: "(l * 4096 + 256) AND 0x100 \<noteq> (0::int)" "l * 4096 AND 0x100 = (0::int)"
proof -
  have a: "(x::int) AND 0x100 = 0 \<longleftrightarrow> \<not> bit x 8" for x
    using and_exp_eq_0_iff_not_bit [of x 8] by simp
  show "(l * 4096 + 256) AND 0x100 \<noteq> (0::int)" unfolding a by (simp add: bit_iff_odd)
  show "l * 4096 AND 0x100 = (0::int)" unfolding a by (simp add: bit_iff_odd)
qed

lemma pton1_stack:
  assumes "ls \<noteq> []" "\<forall>l \<in> set ls. is_label l" "length ls \<le> n"
  shows "mpls_pton1 n (mpls_text ls) addr = Some (addr @ mpls_stack ls)"
  using assms
proof (induction ls arbitrary: n addr rule: mpls_text.induct)
  case (2 l)
  then obtain m where m: "n = Suc m" by (cases n) auto
  have l: "0 \<le> l" "l < 1048576" using 2 by (auto simp: is_label_def)
  then have "strtoul 0 (show_dec (nat l)) = Some (l, [])"
    using strtoul_dec [of "[]" "nat l"] by (simp add: stops_def ULONG_MAX_def)
  moreover have "push_bit 12 l OR push_bit 8 1 = l * 4096 + 256"
  proof -
    have "push_bit 12 l OR push_bit 8 (1::int) = push_bit 12 l + push_bit 8 1"
      by (rule disjunctive_add [symmetric]) (auto simp: bit_simps bit_256)
    then show ?thesis by (simp add: push_bit_eq_mult)
  qed
  ultimately show ?case using l m by (simp add: Let_def MPLS_LS_LABEL_SHIFT_def MPLS_LS_S_SHIFT_def)
next
  case (3 l k ks)
  then obtain m where m: "n = Suc m" by (cases n) auto
  have l: "0 \<le> l" "l < 1048576" using 3 by (auto simp: is_label_def)
  have "strtoul 0 (show_dec (nat l) @ CHR ''/'' # mpls_text (k # ks)) = Some (l, CHR ''/'' # mpls_text (k # ks))"
    using strtoul_dec [of "CHR ''/'' # mpls_text (k # ks)" "nat l"] l
    by (simp add: stops_def ULONG_MAX_def digit_val_def tolower_def)
  moreover have "mpls_pton1 m (mpls_text (k # ks)) (addr @ be32 (l * 4096)) = Some ((addr @ be32 (l * 4096)) @ mpls_stack (k # ks))"
    using 3 m by auto
  ultimately show ?case using l m by (simp add: Let_def MPLS_LS_LABEL_SHIFT_def push_bit_eq_mult)
qed simp

lemma ntop1_step:
  assumes "is_label l" "0 \<le> r" "r < 4096" "length (show_dec (nat l)) < destlen"
  shows "mpls_ntop1 (be32 (l * 4096 + r) @ addr) buf dest destlen =
    (let buf = put_at dest (show_dec (nat l) @ [CHR 0x00]) buf; n = length (show_dec (nat l)) in
     if (l * 4096 + r) AND MPLS_LS_S_MASK \<noteq> 0 then Inr (buf, True)
     else mpls_ntop1 addr (put_at (dest + n) ''/'' buf) (dest + n + 1) (destlen - n - 1))"
proof -
  obtain b0 b1 b2 b3 where b: "be32 (l * 4096 + r) = [b0, b1, b2, b3]" using be32_Cons by blast
  have e: "of_be [b0, b1, b2, b3] = l * 4096 + r"
    using of_be_be32 [of "l * 4096 + r"] assms b by (simp add: is_label_def)
  have "take (destlen - 1) (show_dec (nat l)) = show_dec (nat l)" using assms(4) by simp
  then show ?thesis
    using assms(4) by (auto simp: b e Let_def MPLS_LS_LABEL_SHIFT_def MPLS_LS_LABEL_MASK_def entry_label [OF assms(1-3)])
qed

lemma put_at_inside:
  assumes "length buf = pos + length t + length u" "take pos buf = p"
  shows "\<exists>r. put_at pos t buf = p @ t @ r \<and> length r = length u"
  using assms by (intro exI [of _ "drop (pos + length t) buf"]) (simp add: put_at_def)

lemma ntop1_stack:
  assumes "ls \<noteq> []" "\<forall>l \<in> set ls. is_label l" "length (mpls_text ls) < destlen" "dest + destlen \<le> length buf"
  shows "\<exists>r. mpls_ntop1 (mpls_stack ls) buf dest destlen = Inr (take dest buf @ mpls_text ls @ [CHR 0x00] @ r, True) \<and>
    dest + length (mpls_text ls) + 1 + length r = length buf"
  using assms
proof (induction ls arbitrary: buf dest destlen rule: mpls_text.induct)
  case (2 l)
  have "mpls_ntop1 (mpls_stack [l]) buf dest destlen = Inr (put_at dest (show_dec (nat l) @ [CHR 0x00]) buf, True)"
    using ntop1_step [of l 256 destlen "[]"] 2 entry_bottom by (simp add: MPLS_LS_S_MASK_def)
  then show ?case using 2
    by (intro exI [of _ "drop (dest + length (show_dec (nat l)) + 1) buf"]) (simp add: put_at_def)
next
  case (3 l k ks)
  let ?s = "show_dec (nat l)" and ?t = "mpls_text (k # ks)"
  let ?buf = "put_at (dest + length ?s) ''/'' (put_at dest (?s @ [CHR 0x00]) buf)"
  have len: "length ?s + 1 + length ?t < destlen" using 3 by simp
  have step: "mpls_ntop1 (mpls_stack (l # k # ks)) buf dest destlen =
      mpls_ntop1 (mpls_stack (k # ks)) ?buf (dest + length ?s + 1) (destlen - length ?s - 1)"
    using ntop1_step [of l 0 destlen] 3 entry_bottom len by (simp add: MPLS_LS_S_MASK_def Let_def)
  have b: "length ?buf = length buf" "take (dest + length ?s + 1) ?buf = take dest buf @ ?s @ ''/''"
    using 3 len by (simp_all add: put_at_def)
  from 3 len b have "\<exists>r. mpls_ntop1 (mpls_stack (k # ks)) ?buf (dest + length ?s + 1) (destlen - length ?s - 1) =
      Inr (take (dest + length ?s + 1) ?buf @ ?t @ [CHR 0x00] @ r, True) \<and>
      dest + length ?s + 1 + length ?t + 1 + length r = length ?buf"
    by (intro 3) auto
  then show ?case using step b by auto
qed simp

lemma text_no_nul: "CHR 0x00 \<notin> set (mpls_text ls)"
  by (induction ls rule: mpls_text.induct) auto

section \<open>Properties\<close>

text \<open>
  C40. Label stacks survive printing and parsing: for every non-empty stack of 20-bit labels that
  fits the buffers, \<open>mpls_ntop\<close> writes its labels separated by slashes, stays inside the buffer and
  terminates the string, and \<open>mpls_pton\<close> reads the same stack back from that string.
\<close>

theorem mpls_print_parse:
  assumes "ls \<noteq> []" "\<forall>l \<in> set ls. is_label l" "length ls \<le> alen div 4"
    and "length (mpls_text ls) < buflen" "buflen \<le> length buf"
  shows "(\<exists>buf'. mpls_ntop AF_MPLS (mpls_stack ls) buf buflen = Inr (buf', True) \<and>
      length buf' = length buf \<and> cstr buf' = Inr (mpls_text ls)) \<and>
    mpls_pton AF_MPLS (mpls_text ls) alen = Inr (Some (mpls_stack ls))"
proof -
  obtain r where r: "mpls_ntop1 (mpls_stack ls) buf 0 buflen = Inr (mpls_text ls @ [CHR 0x00] @ r, True)"
      "length (mpls_text ls) + 1 + length r = length buf"
    using ntop1_stack [OF assms(1,2,4), of 0 buf] assms(5) by auto
  moreover have "cstr (mpls_text ls @ [CHR 0x00] @ r) = Inr (mpls_text ls)"
    using takeWhile_cstr [OF text_no_nul] by (simp add: cstr_def)
  ultimately show ?thesis using pton1_stack [OF assms(1-3), of "[]"]
    by (simp add: mpls_ntop_def mpls_pton_def)
qed

theorem mpls_print_parse_witness:
  "mpls_pton AF_MPLS (mpls_text [16, 1048575]) 8 = Inr (Some (mpls_stack [16, 1048575]))"
  using mpls_print_parse [of "[16, 1048575]" 8 11 "replicate 16 CHR 0x00"]
  by (simp add: is_label_def show_dec_def digits.simps)

end
