(* ===== verification/Nl_Utils.thy ===== *)
theory Nl_Utils
  imports Nl_Text Nl_Error
begin

unbundle bit_operations_syntax

text \<open>
  Utilities (\<open>lib/utils.c\<close>): sizes and times as text, translation tables between numbers and names,
  sets of flags, capabilities. Conversions that produce floating point text and the settings of the
  packet scheduler are not modelled. Functions that print into a buffer map its old contents to
  the new ones; a list that has grown means a write past the end of the buffer.
\<close>

section \<open>Sizes\<close>

text \<open>Multiplication of \<open>long\<close>s, whose overflow is undefined.\<close>

definition long_mul :: "int \<Rightarrow> int \<Rightarrow> int res" where
  "long_mul a b = (if LONG_MIN \<le> a * b \<and> a * b \<le> LONG_MAX then Inr (a * b) else Inl Undef)"

text \<open>Division of signed integers truncates.\<close>

definition c_div :: "int \<Rightarrow> int \<Rightarrow> int" where
  "c_div a b = sgn a * sgn b * (\<bar>a\<bar> div \<bar>b\<bar>)"

definition nl_size2int :: "string \<Rightarrow> int res" where
  "nl_size2int str =
     (case strtol 0 str of
        None \<Rightarrow> Inr (neg_err NLE_INVAL)
      | Some (l, p) \<Rightarrow>
          if p = [] then Inr l
          else if strcaseeq p ''kb'' \<or> strcaseeq p ''k'' then long_mul l 1024
          else if strcaseeq p ''gb'' \<or> strcaseeq p ''g'' then long_mul l (1024 * 1024 * 1024)
          else if strcaseeq p ''gbit'' then long_mul l (c_div 1000000000 8)
          else if strcaseeq p ''mb'' \<or> strcaseeq p ''m'' then long_mul l (1024 * 1024)
          else if strcaseeq p ''mbit'' then long_mul l (c_div 1000000 8)
          else if strcaseeq p ''kbit'' then long_mul l (c_div 1000 8)
          else if strcaseeq p ''bit'' then Inr (c_div l 8)
          else if \<not> strcaseeq p ''b'' then Inr (neg_err NLE_INVAL)
          else Inr l)"

section \<open>Times\<close>

definition strncaseeq :: "string \<Rightarrow> string \<Rightarrow> nat \<Rightarrow> bool" where
  "strncaseeq s t n \<longleftrightarrow> strcaseeq (take n s) (take n t)"

definition strcspn :: "string \<Rightarrow> string \<Rightarrow> nat" where
  "strcspn s reject = length (takeWhile (\<lambda>c. c \<notin> set reject) s)"

text \<open>The factor of a unit, \<open>None\<close> for an unknown one.\<close>

definition msec_unit :: "string \<Rightarrow> nat \<Rightarrow> int option" where
  "msec_unit p plen =
     (if plen = 0 then Some 1
      else if strncaseeq p ''sec'' plen then Some 1000
      else if strncaseeq p ''min'' plen then Some (1000 * 60)
      else if strncaseeq p ''hour'' plen then Some (1000 * 60 * 60)
      else if strncaseeq p ''day'' plen then Some (1000 * 60 * 60 * 24)
      else None)"

lemma length_scan_digits:
  "scan_digits base acc k s = (v, n, rest) \<Longrightarrow> n - k + length rest = length s \<and> k \<le> n"
  by (induction base acc k s rule: scan_digits.induct) (fastforce split: if_splits)+

lemma strtoul_shorter: "strtoul base s = Some (v, rest) \<Longrightarrow> length rest < length s"
proof -
  assume "strtoul base s = Some (v, rest)"
  then obtain neg m where n: "scan_num base s = Some (neg, m, rest)"
    by (auto simp: strtoul_def split: option.splits)
  obtain neg' s1 where s1: "scan_sign (dropWhile isspace s) = (neg', s1)" by fastforce
  obtain b s2 where s2: "scan_base base s1 = (b, s2)" by fastforce
  obtain v' k r where d: "scan_digits b 0 0 s2 = (v', k, r)" by (cases "scan_digits b 0 0 s2") auto
  have "r = rest" "0 < k" using n s1 s2 d by (auto simp: scan_num_def split: if_splits)
  moreover have "scan_sign w = (neg', s1) \<Longrightarrow> length s1 \<le> length w" for w
    by (cases w) (auto simp: scan_sign_def split: if_splits)
  then have "length s1 \<le> length (dropWhile isspace s)" using s1 by blast
  moreover have "length s2 \<le> length s1" using s2 by (auto simp: scan_base_def split: if_splits)
  ultimately show "length rest < length s"
    using length_scan_digits [OF d] length_dropWhile_le [of isspace s] by simp
qed

function str2msec_loop :: "string \<Rightarrow> int \<Rightarrow> int res" where
  "str2msec_loop str tot =
     (case strtoul 0 str of
        None \<Rightarrow> Inl (Err NLE_INVAL)
      | Some (l, p) \<Rightarrow>
          if p = [] then Inr (u64 (tot + l))
          else
            let plen = strcspn p [CHR '' '', CHR 0x09] in
            case msec_unit p plen of
              None \<Rightarrow> Inl (Err NLE_INVAL)
            | Some f \<Rightarrow>
                let tot = u64 (tot + u64 (l * f)); str = drop plen p in
                if str = [] then Inr tot else str2msec_loop str tot)"
  by pat_completeness auto

termination
  by (relation "measure (\<lambda>(str, tot). length str)") (auto dest: strtoul_shorter)

declare str2msec_loop.simps [simp del]

text \<open>The result is stored through \<open>result\<close>.\<close>

definition nl_str2msec :: "string \<Rightarrow> int res" where
  "nl_str2msec str = str2msec_loop str 0"

definition msec_units :: "string list" where
  "msec_units = [''d'', ''h'', ''m'', ''s'', ''msec'']"

definition msec_split :: "nat \<Rightarrow> nat list" where
  "msec_split msec =
     [msec div 86400000, msec mod 86400000 div 3600000, msec mod 3600000 div 60000, msec mod 60000 div 1000, msec mod 1000]"

text \<open>The loop: \<open>pos\<close> is \<open>buf - buf_orig\<close>. \<open>len\<close> is a \<open>size_t\<close> and wraps around when a part was
  truncated.\<close>

fun msec2str_loop :: "(nat \<times> string) list \<Rightarrow> string \<Rightarrow> nat \<Rightarrow> int \<Rightarrow> string" where
  "msec2str_loop [] buf pos len = buf"
| "msec2str_loop ((v, u) # rest) buf pos len =
     (if len = 0 then buf
      else if v = 0 then msec2str_loop rest buf pos len
      else
        let s = (if pos = 0 then [] else '' '') @ show_dec v @ u;
            buf = put_at pos (take (nat (len - 1)) s @ [CHR 0x00]) buf in
        msec2str_loop rest buf (pos + length s) (u64 (len - int (length s))))"

definition nl_msec2str :: "nat \<Rightarrow> string \<Rightarrow> nat \<Rightarrow> string" where
  "nl_msec2str msec buf len =
     (if msec = 0 then snprintf buf len ''0msec''
      else msec2str_loop (zip (msec_split msec) msec_units) buf 0 (int len))"

section \<open>Translation tables\<close>

text \<open>Entries of \<open>struct trans_tbl\<close>: an unsigned 64-bit number and a name.\<close>

type_synonym trans_tbl = "int \<times> string"

definition type2str :: "int \<Rightarrow> string \<Rightarrow> nat \<Rightarrow> trans_tbl list \<Rightarrow> string" where
  "type2str type buf len tbl =
     (case List.find (\<lambda>(i, a). i = u64 type) tbl of
        Some (i, a) \<Rightarrow> snprintf buf len a
      | None \<Rightarrow> snprintf buf len (''0x'' @ show_hex (nat (u32 type))))"

text \<open>The end of \<open>__str2type\<close>: a number in any base. Without digits \<open>end\<close> is the start of the string.\<close>

definition str2num :: "string \<Rightarrow> int" where
  "str2num buf =
     (case strtoul 0 buf of
        None \<Rightarrow> if buf = [] then 0 else neg_err NLE_OBJ_NOTFOUND
      | Some (l, endp) \<Rightarrow> if l = ULONG_MAX \<or> endp \<noteq> [] then neg_err NLE_OBJ_NOTFOUND else s32 l)"

definition str2type :: "string \<Rightarrow> trans_tbl list \<Rightarrow> int" where
  "str2type buf tbl =
     (if buf = [] then neg_err NLE_INVAL
      else case List.find (\<lambda>(i, a). strcaseeq a buf) tbl of
        Some (i, a) \<Rightarrow> s32 i
      | None \<Rightarrow> str2num buf)"

text \<open>The same on lists that are built at run time; \<open>None\<close> is a name that \<open>strdup\<close> could not copy.\<close>

type_synonym trans_list = "int \<times> string option"

definition trans_list_add :: "bool \<Rightarrow> bool \<Rightarrow> int \<Rightarrow> string \<Rightarrow> trans_list list \<Rightarrow> int \<times> trans_list list" where
  "trans_list_add a s i name head =
     (if \<not> a then (neg_err NLE_NOMEM, head) else (0, head @ [(i, if s then Some name else None)]))"

definition trans_list_clear :: "trans_list list \<Rightarrow> trans_list list" where
  "trans_list_clear head = []"

definition list_type2str :: "int \<Rightarrow> string \<Rightarrow> nat \<Rightarrow> trans_list list \<Rightarrow> string res" where
  "list_type2str type buf len head =
     (case List.find (\<lambda>(i, a). i = type) head of
        Some (i, Some a) \<Rightarrow> Inr (snprintf buf len a)
      | Some (i, None) \<Rightarrow> Inl Undef
      | None \<Rightarrow> Inr (snprintf buf len (''0x'' @ show_hex (nat (u32 type)))))"

fun list_find :: "string \<Rightarrow> trans_list list \<Rightarrow> int option res" where
  "list_find buf [] = Inr None"
| "list_find buf ((i, a) # head) =
     (case a of None \<Rightarrow> Inl Undef
      | Some a \<Rightarrow> if strcaseeq a buf then Inr (Some i) else list_find buf head)"

definition list_str2type :: "string \<Rightarrow> trans_list list \<Rightarrow> int res" where
  "list_str2type buf head =
     (if buf = [] then Inr (neg_err NLE_INVAL)
      else and_then (list_find buf head) (\<lambda>r. Inr (case r of Some i \<Rightarrow> i | None \<Rightarrow> str2num buf)))"

text \<open>Sets of flags. \<open>n\<close> is the \<open>size_t\<close> value of \<open>len - strlen(buf) - 1\<close>.\<close>

definition strncat_room :: "string \<Rightarrow> string \<Rightarrow> nat \<Rightarrow> string res" where
  "strncat_room buf s len =
     and_then (cstr buf) (\<lambda>d. strncat buf s (nat (u64 (int len - int (length d) - 1))))"

fun flags2str_loop :: "int \<Rightarrow> int \<Rightarrow> string \<Rightarrow> nat \<Rightarrow> trans_tbl list \<Rightarrow> string res" where
  "flags2str_loop flags tmp buf len [] = Inr buf"
| "flags2str_loop flags tmp buf len ((i, a) # tbl) =
     (if i AND u64 tmp \<noteq> 0 then
        let tmp = s32 (u64 tmp AND NOT i) in
        and_then (strncat_room buf a len) (\<lambda>buf.
        and_then (if tmp AND flags \<noteq> 0 then strncat_room buf '','' len else Inr buf) (\<lambda>buf.
          flags2str_loop flags tmp buf len tbl))
      else flags2str_loop flags tmp buf len tbl)"

definition flags2str :: "int \<Rightarrow> string \<Rightarrow> nat \<Rightarrow> trans_tbl list \<Rightarrow> string res" where
  "flags2str flags buf len tbl =
     flags2str_loop flags flags (put_at 0 (replicate len (CHR 0x00)) buf) len tbl"

text \<open>The flags whose name is the first \<open>len\<close> characters of \<open>p\<close>.\<close>

fun match_flags :: "string \<Rightarrow> nat \<Rightarrow> int \<Rightarrow> trans_tbl list \<Rightarrow> int" where
  "match_flags p len flags [] = flags"
| "match_flags p len flags ((i, a) # tbl) =
     match_flags p len (if len = length a \<and> strncaseeq a p len then s32 (flags OR i) else flags) tbl"

function str2flags_loop :: "string \<Rightarrow> int \<Rightarrow> trans_tbl list \<Rightarrow> int" where
  "str2flags_loop p flags tbl =
     (let p = (if p \<noteq> [] \<and> hd p = CHR '' '' then tl p else p);
          len = strcspn p '','';
          flags = match_flags p len flags tbl in
      if len = length p then flags else str2flags_loop (drop (len + 1) p) flags tbl)"
  by pat_completeness auto

termination
proof (relation "measure (\<lambda>(p, flags, tbl). length p)")
  fix p p' :: string and flags flags' :: int and tbl :: "trans_tbl list" and len :: nat
  assume "p' = (if p \<noteq> [] \<and> hd p = CHR '' '' then tl p else p)" "len = strcspn p' '',''" "len \<noteq> length p'"
  moreover have "strcspn p' '','' \<le> length p'" by (simp add: strcspn_def length_takeWhile_le)
  moreover have "length p' \<le> length p" using calculation(1) by simp
  ultimately show "((drop (len + 1) p', flags', tbl), (p, flags, tbl)) \<in> measure (\<lambda>(p, flags, tbl). length p)" by simp
qed simp

declare str2flags_loop.simps [simp del]

definition str2flags :: "string \<Rightarrow> trans_tbl list \<Rightarrow> int" where
  "str2flags buf tbl = str2flags_loop buf 0 tbl"

section \<open>The tables\<close>

definition nlfamilies :: "trans_tbl list" where
  "nlfamilies =
     [(0, ''route''), (2, ''usersock''), (3, ''firewall''), (4, ''inetdiag''), (5, ''nflog''),
      (6, ''xfrm''), (7, ''selinux''), (8, ''iscsi''), (9, ''audit''), (10, ''fib_lookup''),
      (11, ''connector''), (12, ''netfilter''), (13, ''ip6_fw''), (14, ''dnrtmsg''),
      (15, ''kobject_uevent''), (16, ''generic''), (18, ''scsitransport''), (19, ''ecryptfs''),
      (20, ''rdma''), (21, ''crypto'')]"

definition llprotos :: "trans_tbl list" where
  "llprotos =
     [(0, ''generic''), (0, ''netrom''), (1, ''ether''), (2, ''eether''), (3, ''ax25''), (4, ''pronet''),
      (5, ''chaos''), (6, ''ieee802''), (7, ''arcnet''), (8, ''atalk''), (15, ''dlci''), (19, ''atm''),
      (23, ''metricom''), (24, ''ieee1394''), (27, ''eui64''), (32, ''infiniband''), (256, ''slip''),
      (257, ''cslip''), (258, ''slip6''), (259, ''cslip6''), (260, ''rsrvd''), (264, ''adapt''),
      (270, ''rose''), (271, ''x25''), (272, ''hwx25''), (280, ''can''), (512, ''ppp''),
      (513, ''cisco''), (513, ''hdlc''), (516, ''lapb''), (517, ''ddcmp''), (518, ''rawhdlc''),
      (768, ''ipip''), (769, ''tunnel6''), (770, ''frad''), (771, ''skip''), (772, ''loopback''),
      (773, ''localtlk''), (774, ''fddi''), (775, ''bif''), (776, ''sit''), (777, ''ip/ddp''),
      (778, ''gre''), (779, ''pimreg''), (780, ''hippi''), (781, ''ash''), (782, ''econet''),
      (783, ''irda''), (784, ''fcpp''), (785, ''fcal''), (786, ''fcpl''), (787, ''fcfb_0''),
      (788, ''fcfb_1''), (789, ''fcfb_2''), (790, ''fcfb_3''), (791, ''fcfb_4''), (792, ''fcfb_5''),
      (793, ''fcfb_6''), (794, ''fcfb_7''), (795, ''fcfb_8''), (796, ''fcfb_9''), (797, ''fcfb_10''),
      (798, ''fcfb_11''), (799, ''fcfb_12''), (800, ''tr''), (801, ''ieee802.11''),
      (802, ''ieee802.11_prism''), (803, ''ieee802.11_radiotap''), (804, ''ieee802.15.4''),
      (805, ''ieee802.15.4_monitor''), (820, ''phonet''), (821, ''phonet_pipe''), (822, ''caif''),
      (823, ''ip6gre''), (824, ''netlink''), (825, ''6lowpan''), (65535, ''void''), (65534, ''nohdr'')]"

definition ether_protos :: "trans_tbl list" where
  "ether_protos =
     [(96, ''loop''), (512, ''pup''), (513, ''pupat''), (2048, ''ip''), (2053, ''x25''), (2054, ''arp''),
      (2303, ''bpq''), (2560, ''ieeepup''), (2561, ''ieeepupat''), (24576, ''dec''), (24577, ''dna_dl''),
      (24578, ''dna_rc''), (24579, ''dna_rt''), (24580, ''lat''), (24581, ''diag''), (24582, ''cust''),
      (24583, ''sca''), (25944, ''teb''), (32821, ''rarp''), (32923, ''atalk''), (33011, ''aarp''),
      (33024, ''802.1q''), (33079, ''ipx''), (34525, ''ipv6''), (34824, ''pause''), (34825, ''slow''),
      (34878, ''wccp''), (34915, ''ppp_disc''), (34916, ''ppp_ses''), (34887, ''mpls_uc''),
      (34888, ''mpls_mc''), (34892, ''atmmpoa''), (34924, ''link_ctl''), (34948, ''atmfate''),
      (34958, ''pae''), (34978, ''aoe''), (35018, ''tipc''), (35063, ''ieee1588''), (35078, ''fcoe''),
      (35092, ''fip''), (56026, ''edsa''), (34978, ''edp2''), (1, ''802.3''), (2, ''ax25''),
      (3, ''all''), (4, ''802.2''), (5, ''snap''), (6, ''ddcmp''), (7, ''wan_ppp''), (8, ''ppp_mp''),
      (9, ''localtalk''), (12, ''can''), (16, ''ppptalk''), (17, ''tr_802.2''), (21, ''mobitex''),
      (22, ''control''), (23, ''irda''), (24, ''econet''), (25, ''hdlc''), (26, ''arcnet''),
      (27, ''dsa''), (28, ''trailer''), (245, ''phonet''), (246, ''ieee802154''), (247, ''caif'')]"

definition nl_nlfamily2str :: "int \<Rightarrow> string \<Rightarrow> nat \<Rightarrow> string" where
  "nl_nlfamily2str family buf sz = type2str family buf sz nlfamilies"

definition nl_str2nlfamily :: "string \<Rightarrow> int" where
  "nl_str2nlfamily name = str2type name nlfamilies"

definition nl_llproto2str :: "int \<Rightarrow> string \<Rightarrow> nat \<Rightarrow> string" where
  "nl_llproto2str llproto buf len = type2str llproto buf len llprotos"

definition nl_str2llproto :: "string \<Rightarrow> int" where
  "nl_str2llproto name = str2type name llprotos"

definition nl_ether_proto2str :: "int \<Rightarrow> string \<Rightarrow> nat \<Rightarrow> string" where
  "nl_ether_proto2str eproto buf len = type2str eproto buf len ether_protos"

definition nl_str2ether_proto :: "string \<Rightarrow> int" where
  "nl_str2ether_proto name = str2type name ether_protos"

text \<open>The database of IP protocols is a parameter.\<close>

definition nl_ip_proto2str :: "(int \<Rightarrow> string option) \<Rightarrow> int \<Rightarrow> string \<Rightarrow> nat \<Rightarrow> string" where
  "nl_ip_proto2str getprotobynumber proto buf len =
     (case getprotobynumber proto of
        Some name \<Rightarrow> snprintf buf len name
      | None \<Rightarrow> snprintf buf len (''0x'' @ show_hex (nat (u32 proto))))"

definition nl_str2ip_proto :: "(string \<Rightarrow> int option) \<Rightarrow> string \<Rightarrow> int" where
  "nl_str2ip_proto getprotobyname name =
     (case getprotobyname name of Some p \<Rightarrow> p | None \<Rightarrow> str2num name)"

text \<open>Files of numbers and names: \<open>lines\<close> are the results of \<open>fgets\<close>; the callback has a state.\<close>

fun read_num_str_lines :: "(int \<Rightarrow> string \<Rightarrow> 'u \<Rightarrow> int \<times> 'u) \<Rightarrow> string list \<Rightarrow> 'u \<Rightarrow> int \<times> 'u" where
  "read_num_str_lines cb [] u = (0, u)"
| "read_num_str_lines cb (buf # lines) u =
     (if buf \<noteq> [] \<and> hd buf \<in> {CHR ''#'', CHR 0x0A, CHR 0x0D} then read_num_str_lines cb lines u
      else case strtol 0 buf of
        None \<Rightarrow> (neg_err NLE_INVAL, u)
      | Some (num, endp) \<Rightarrow>
          if num = LONG_MIN \<or> num = LONG_MAX then (neg_err NLE_RANGE, u)
          else
            let endp = dropWhile (\<lambda>c. c = CHR '' '' \<or> c = CHR 0x09) endp;
                goodlen = strcspn endp [CHR ''#'', CHR 0x0D, CHR 0x0A, CHR 0x09, CHR '' ''] in
            if goodlen = 0 then (neg_err NLE_INVAL, u)
            else case cb num (take goodlen endp) u of
              (err, u) \<Rightarrow> if err < 0 then (err, u) else read_num_str_lines cb lines u)"

definition nl_read_num_str_file ::
  "(string \<Rightarrow> int + string list) \<Rightarrow> string \<Rightarrow> (int \<Rightarrow> string \<Rightarrow> 'u \<Rightarrow> int \<times> 'u) \<Rightarrow> 'u \<Rightarrow> int \<times> 'u" where
  "nl_read_num_str_file fopen path cb u =
     (case fopen path of
        Inl errno \<Rightarrow> (neg_err (nl_syserr2nlerr errno), u)
      | Inr lines \<Rightarrow> read_num_str_lines cb lines u)"

text \<open>The capabilities 1 to 30 are set.\<close>

definition NL_CAPABILITY_MAX :: int where "NL_CAPABILITY_MAX = 30"

definition caps :: "int list" where "caps = [0xFF, 0xFF, 0xFF, 0x3F]"

definition nl_has_capability :: "int \<Rightarrow> bool" where
  "nl_has_capability capability \<longleftrightarrow>
     (if capability \<le> 0 \<or> capability > NL_CAPABILITY_MAX then False
      else
        let capability = capability - 1 in
        caps ! nat (capability div 8) AND push_bit (nat (capability mod 8)) 1 \<noteq> 0)"

section \<open>Names and numbers\<close>

text \<open>Tables in which every name stands for one number and cannot be taken for a number itself.\<close>

definition good_table :: "trans_tbl list \<Rightarrow> bool" where
  "good_table tbl \<longleftrightarrow> distinct (map (\<lambda>(i, a). map tolower a) tbl) \<and>
     list_all (\<lambda>(i, a). a \<noteq> [] \<and> 0 \<le> i \<and> i < 2147483648 \<and> CHR 0x00 \<notin> set a \<and> take 2 (map tolower a) \<noteq> ''0x'') tbl"

definition type_text :: "int \<Rightarrow> trans_tbl list \<Rightarrow> string" where
  "type_text t tbl = (case List.find (\<lambda>(i, a). i = u64 t) tbl of
     Some (i, a) \<Rightarrow> a | None \<Rightarrow> ''0x'' @ show_hex (nat (u32 t)))"

lemma find_Some_in: "List.find P xs = Some x \<Longrightarrow> x \<in> set xs \<and> P x"
  by (induction xs) (auto split: if_splits)

lemma find_unique:
  assumes "x \<in> set xs" "P x" "\<And>y. y \<in> set xs \<Longrightarrow> P y \<Longrightarrow> y = x"
  shows "List.find P xs = Some x"
  using assms
proof (induction xs)
  case (Cons y ys)
  show ?case
  proof (cases "P y")
    case True
    then have "y = x" by (intro Cons.prems(3)) simp_all
    then show ?thesis using True by simp
  next
    case False
    then have "x \<in> set ys" using Cons.prems(1,2) by auto
    moreover have "y = x" if "y \<in> set ys" "P y" for y by (rule Cons.prems(3)) (use that in simp_all)
    ultimately have "List.find P ys = Some x" by (rule Cons.IH [OF _ Cons.prems(2)])
    then show ?thesis using False by simp
  qed
qed simp

lemma scan_num_hex:
  assumes "stops 16 t"
  shows "scan_num 0 (''0x'' @ show_hex n @ t) = Some (False, n, t)"
proof -
  obtain d cs where d: "d < 16" "digits 16 n = digit_char d # cs"
    using digits_set [of 16 "hd (digits 16 n)" n] by (cases "digits 16 n") auto
  have "has_0x (''0x'' @ show_hex n @ t)" using d by (simp add: has_0x_def show_hex_def tolower_def)
  then show ?thesis
    using scan_digits_digits [of 16 0 0 n t] scan_digits_stop [OF assms]
    by (simp add: scan_num_def scan_sign_def scan_base_def isspace_def show_hex_def)
qed

lemma show_hex_plain [simp]: "CHR 0x00 \<notin> set (show_hex n)"
  unfolding show_hex_def by (rule digits_plain; simp add: digit_char_plain)

lemma find_same_name:
  assumes "distinct (map (\<lambda>(i, a). map tolower a) tbl)" "(i, a) \<in> set tbl"
  shows "List.find (\<lambda>(i, x). strcaseeq x a) tbl = Some (i, a)"
proof (rule find_unique [OF assms(2)])
  fix y assume "y \<in> set tbl" "case y of (i, x) \<Rightarrow> strcaseeq x a"
  then show "y = (i, a)" using assms by (auto simp: strcaseeq_def distinct_map inj_on_def)
qed (simp add: strcaseeq_def)

lemma u64_small: "- 2147483648 \<le> t \<Longrightarrow> t < 2147483648 \<Longrightarrow> u64 t < 2147483648 \<Longrightarrow> u64 t = t"
  using u64_neg [of t] by (cases "0 \<le> t") auto

text \<open>
  Numbers survive translation to names and back: for every table whose names are distinct and
  cannot be read as hexadecimal numbers, and every 32-bit number, \<open>__type2str\<close> writes the first name
  of the number, or the number in hexadecimal if it has none, and \<open>__str2type\<close> of that string is the
  number again. The buffer must have room for the string.
\<close>

theorem type2str_str2type:
  assumes "good_table tbl" "- 2147483648 \<le> t" "t < 2147483648" "length (type_text t tbl) < len"
  shows "cstr (type2str t buf len tbl) = Inr (type_text t tbl) \<and> str2type (type_text t tbl) tbl = t"
proof (cases "List.find (\<lambda>(i, a). i = u64 t) tbl")
  case None
  let ?s = "''0x'' @ show_hex (nat (u32 t))"
  have s: "type_text t tbl = ?s" using None by (simp add: type_text_def)
  have "List.find (\<lambda>(i, a). strcaseeq a ?s) tbl = None"
  proof (rule ccontr)
    assume "List.find (\<lambda>(i, a). strcaseeq a ?s) tbl \<noteq> None"
    then obtain i a where a: "(i, a) \<in> set tbl" "strcaseeq a ?s" using find_Some_in by fastforce
    have "take 2 (map tolower ?s) = ''0x''" by (simp add: tolower_def)
    moreover have "take 2 (map tolower a) \<noteq> ''0x''" using assms(1) a(1) by (auto simp: good_table_def list_all_iff)
    ultimately show False using a(2) by (simp add: strcaseeq_def)
  qed
  moreover have "str2num ?s = t"
  proof -
    have "int (nat (u32 t)) = u32 t" "u32 t < ULONG_MAX"
      using u32_range(1) [of t] less_trans [OF u32_range(2) [of t], of ULONG_MAX] by (simp_all add: ULONG_MAX_def)
    then have "strtoul 0 ?s = Some (u32 t, [])"
      using scan_num_hex [of "[]" "nat (u32 t)"] by (simp add: strtoul_def stops_def)
    moreover have "s32 (u32 t) = t" using assms(2,3) by (simp add: u32_def)
    ultimately show ?thesis using \<open>u32 t < ULONG_MAX\<close> by (simp add: str2num_def)
  qed
  moreover have "cstr (snprintf buf len ?s) = Inr ?s" using cstr_snprintf [of ?s len buf] assms(4) s by simp
  ultimately show ?thesis using None s by (simp add: type2str_def str2type_def)
next
  case (Some x)
  then obtain i a where x: "x = (i, a)" "(i, a) \<in> set tbl" "i = u64 t" using find_Some_in by fastforce
  have s: "type_text t tbl = a" using Some x by (simp add: type_text_def)
  have g: "a \<noteq> []" "i < 2147483648" "CHR 0x00 \<notin> set a" using assms(1) x(2) by (auto simp: good_table_def list_all_iff)
  have "u64 t = t" using u64_small [OF assms(2,3)] g(2) x(3) by simp
  moreover have "cstr (snprintf buf len a) = Inr a" using cstr_snprintf [of a len buf] assms(4) s g by simp
  moreover have "List.find (\<lambda>(i, x). strcaseeq x a) tbl = Some (i, a)"
    using find_same_name [OF _ x(2)] assms(1) by (simp add: good_table_def)
  ultimately show ?thesis using Some x s g assms by (simp add: type2str_def str2type_def)
qed

lemma good_nlfamilies: "good_table nlfamilies"
  by (simp add: good_table_def nlfamilies_def tolower_def)

theorem type2str_str2type_witness:
  "cstr (type2str 16 (replicate 16 CHR 0x00) 16 nlfamilies) = Inr ''generic'' \<and> str2type ''generic'' nlfamilies = 16"
proof -
  have "type_text 16 nlfamilies = ''generic''" by (simp add: type_text_def nlfamilies_def)
  then show ?thesis using type2str_str2type [OF good_nlfamilies, of 16 16 "replicate 16 CHR 0x00"] by simp
qed

section \<open>Times as text\<close>

fun msec_text :: "(nat \<times> string) list \<Rightarrow> bool \<Rightarrow> string" where
  "msec_text [] first = []"
| "msec_text ((v, u) # parts) first =
     (if v = 0 then msec_text parts first
      else (if first then [] else '' '') @ show_dec v @ u @ msec_text parts False)"

text \<open>As long as everything fits, the loop appends the parts and stays inside the buffer.\<close>

lemma msec2str_loop_fits:
  assumes "length (msec_text parts (pos = 0)) < len" "pos + len \<le> length buf" "int len < 18446744073709551616"
  shows "\<exists>r. msec2str_loop parts buf pos (int len) =
      (if msec_text parts (pos = 0) = [] then buf else take pos buf @ msec_text parts (pos = 0) @ CHR 0x00 # r) \<and>
    length (msec2str_loop parts buf pos (int len)) = length buf"
  using assms
proof (induction parts arbitrary: buf pos len)
  case (Cons part parts)
  obtain v u where p: "part = (v, u)" by fastforce
  show ?case
  proof (cases "v = 0")
    case True
    then have "msec2str_loop (part # parts) buf pos (int len) = msec2str_loop parts buf pos (int len)"
        "msec_text (part # parts) (pos = 0) = msec_text parts (pos = 0)"
      using Cons.prems(1) p by auto
    with Cons.IH [of pos len buf] Cons.prems show ?thesis by (simp only:)
  next
    case False
    let ?s = "(if pos = 0 then [] else '' '') @ show_dec v @ u"
    let ?rest = "msec_text parts False"
    let ?buf = "put_at pos (?s @ [CHR 0x00]) buf"
    have dec: "show_dec v \<noteq> []" by (simp add: show_dec_def)
    have n: "length ?s + length ?rest < len" using Cons.prems(1) p False by simp
    have "take (nat (int len - 1)) ?s = ?s" using n by simp
    moreover have "u64 (int len - int (length ?s)) = int (len - length ?s)" using n Cons.prems(3) by simp
    ultimately have step: "msec2str_loop (part # parts) buf pos (int len) =
        msec2str_loop parts ?buf (pos + length ?s) (int (len - length ?s))"
      using p False n by (simp add: Let_def)
    have pos: "(pos + length ?s = 0) = False" using dec by simp
    have buf: "length ?buf = length buf" "take (pos + length ?s) ?buf = take pos buf @ ?s" "?buf = take pos buf @ ?s @ CHR 0x00 # drop (pos + length ?s + 1) buf"
      using n Cons.prems(2) by (simp_all add: put_at_def)
    have "length (msec_text parts (pos + length ?s = 0)) < len - length ?s" unfolding pos using n by simp
    moreover have "pos + length ?s + (len - length ?s) \<le> length ?buf" using n Cons.prems(2) buf(1) by simp
    moreover have "int (len - length ?s) < 18446744073709551616" using Cons.prems(3) by simp
    ultimately obtain r where r: "msec2str_loop parts ?buf (pos + length ?s) (int (len - length ?s)) =
        (if ?rest = [] then ?buf else take (pos + length ?s) ?buf @ ?rest @ CHR 0x00 # r)"
        "length (msec2str_loop parts ?buf (pos + length ?s) (int (len - length ?s))) = length ?buf"
      using Cons.IH [of "pos + length ?s" "len - length ?s" ?buf] unfolding pos by blast
    have t: "msec_text (part # parts) (pos = 0) = ?s @ ?rest" using p False by simp
    show ?thesis
    proof (cases "?rest = []")
      case True
      then show ?thesis using step r buf t dec
        by (intro exI [of _ "drop (pos + length ?s + 1) buf"]) auto
    next
      case False
      then show ?thesis using step r buf t dec by (intro exI [of _ r]) auto
    qed
  qed
qed simp

lemma scan_num_space: "scan_num base (CHR '' '' # s) = scan_num base s"
  by (simp add: scan_num_def isspace_def)

text \<open>What the parser makes of one part.\<close>

lemma msec_unit_1:
  "msec_unit (''d'' @ r) 1 = Some 86400000" "msec_unit (''h'' @ r) 1 = Some 3600000"
  "msec_unit (''m'' @ r) 1 = Some 60000" "msec_unit (''s'' @ r) 1 = Some 1000"
  by (simp_all add: msec_unit_def strncaseeq_def strcaseeq_def tolower_def)

definition msec_factor :: "string \<Rightarrow> int option" where
  "msec_factor u = (if u \<in> {''d'', ''h'', ''m'', ''s''} then msec_unit u 1 else None)"

fun parts_value :: "(nat \<times> string) list \<Rightarrow> int" where
  "parts_value [] = 0"
| "parts_value ((v, u) # parts) = int v * (case msec_factor u of None \<Rightarrow> 0 | Some f \<Rightarrow> f) + parts_value parts"

lemma msec_text_False: "msec_text parts False \<noteq> [] \<Longrightarrow> hd (msec_text parts False) = CHR '' ''"
  by (induction parts) (auto split: if_splits)

lemma str2msec_parts:
  assumes "\<forall>(v, u) \<in> set parts. v = 0 \<or> (msec_factor u \<noteq> None \<and> int v \<le> ULONG_MAX)" "msec_text parts b \<noteq> []"
  shows "str2msec_loop (msec_text parts b) tot = Inr (u64 (tot + parts_value parts))"
  using assms
proof (induction parts arbitrary: b tot)
  case (Cons part parts)
  obtain v u where p: "part = (v, u)" by fastforce
  show ?case
  proof (cases "v = 0")
    case True
    then show ?thesis using Cons p by simp
  next
    case False
    let ?rest = "msec_text parts False"
    have u: "u \<in> {''d'', ''h'', ''m'', ''s''}" "int v \<le> ULONG_MAX"
      using Cons.prems(1) p False by (auto simp: msec_factor_def split: if_splits)
    then obtain c where c: "u = [c]" "c \<in> {CHR ''d'', CHR ''h'', CHR ''m'', CHR ''s''}" by auto
    obtain f where f: "msec_factor u = Some f" "msec_unit (u @ ?rest) 1 = Some f"
      using u msec_unit_1 [of "[]"] msec_unit_1 [of ?rest] by (auto simp: msec_factor_def)
    have "stops 10 (u @ ?rest)" "tolower c \<noteq> CHR ''x''"
      using c by (auto simp: stops_def digit_val_def tolower_def)
    then have "strtoul 0 (show_dec v @ u @ ?rest) = Some (int v, u @ ?rest)"
      using strtoul_dec [of "u @ ?rest" v] u(2) c(1) by simp
    then have s: "strtoul 0 (msec_text (part # parts) b) = Some (int v, u @ ?rest)"
      using p False by (simp add: strtoul_def scan_num_space)
    have "c \<notin> {CHR '' '', CHR 0x09}" using c(2) by auto
    then have span: "strcspn (u @ ?rest) [CHR '' '', CHR 0x09] = 1"
      using msec_text_False [of parts] c(1) by (cases ?rest) (auto simp: strcspn_def)
    have step: "str2msec_loop (msec_text (part # parts) b) tot =
        (if ?rest = [] then Inr (u64 (tot + u64 (int v * f))) else str2msec_loop ?rest (u64 (tot + u64 (int v * f))))"
    proof -
      have "u @ ?rest \<noteq> []" "drop 1 (u @ ?rest) = ?rest" using c(1) by auto
      then show ?thesis by (subst str2msec_loop.simps) (simp only: s span f(2) Let_def option.case prod.case if_False)
    qed
    show ?thesis
    proof (cases "?rest = []")
      case True
      have z: "parts_value parts = 0" if "msec_text parts False = []" for parts
        using that by (induction parts) (auto simp: show_dec_def split: if_splits)
      show ?thesis using step True z [OF True] p f(1) by (simp add: u64_def mod_simps)
    next
      case False
      then have "str2msec_loop ?rest (u64 (tot + u64 (int v * f))) = Inr (u64 (u64 (tot + u64 (int v * f)) + parts_value parts))"
        using Cons by auto
      then show ?thesis using step False p f(1) by (simp add: u64_def mod_simps add.assoc)
    qed
  qed
qed simp

lemma msec_text_no_nul:
  "\<forall>(v, u) \<in> set parts. CHR 0x00 \<notin> set u \<Longrightarrow> CHR 0x00 \<notin> set (msec_text parts b)"
  by (induction parts b rule: msec_text.induct) auto

definition msec_parts :: "nat \<Rightarrow> (nat \<times> string) list" where
  "msec_parts msec = zip (msec_split msec) msec_units"

lemma msec_parts_value:
  assumes "msec mod 1000 = 0"
  shows "parts_value (msec_parts msec) = int msec"
proof -
  have "msec mod 86400000 mod 3600000 = msec mod 3600000" "msec mod 3600000 mod 60000 = msec mod 60000"
    "msec mod 60000 mod 1000 = msec mod 1000"
    by (simp_all add: mod_mod_cancel)
  moreover have "msec = msec div 86400000 * 86400000 + msec mod 86400000"
    "msec mod 86400000 = msec mod 86400000 div 3600000 * 3600000 + msec mod 86400000 mod 3600000"
    "msec mod 3600000 = msec mod 3600000 div 60000 * 60000 + msec mod 3600000 mod 60000"
    "msec mod 60000 = msec mod 60000 div 1000 * 1000 + msec mod 60000 mod 1000"
    by (simp_all only: div_mult_mod_eq)
  ultimately have "msec = msec div 86400000 * 86400000 + msec mod 86400000 div 3600000 * 3600000 +
      msec mod 3600000 div 60000 * 60000 + msec mod 60000 div 1000 * 1000"
    using assms by linarith
  then have "int msec = int (msec div 86400000) * 86400000 + int (msec mod 86400000 div 3600000) * 3600000 +
      int (msec mod 3600000 div 60000) * 60000 + int (msec mod 60000 div 1000) * 1000"
    by linarith
  then show ?thesis
    using assms msec_unit_1 [of "[]"]
    by (simp add: msec_parts_def msec_split_def msec_units_def msec_factor_def)
qed

text \<open>
  Times survive printing and parsing: for a positive number of milliseconds that is a whole
  number of seconds, \<open>nl_msec2str\<close> writes days, hours, minutes and seconds into the buffer, if they
  fit, terminates the string and stays inside the buffer, and \<open>nl_str2msec\<close> of that string is the
  number again.
\<close>

theorem msec2str_str2msec:
  assumes "0 < msec" "int msec \<le> ULONG_MAX" "msec mod 1000 = 0"
    and "length (msec_text (msec_parts msec) True) < len" "len \<le> length buf" "int len \<le> ULONG_MAX"
  shows "cstr (nl_msec2str msec buf len) = Inr (msec_text (msec_parts msec) True) \<and>
    length (nl_msec2str msec buf len) = length buf \<and>
    nl_str2msec (msec_text (msec_parts msec) True) = Inr (int msec)"
proof -
  let ?t = "msec_text (msec_parts msec) True"
  have "parts_value parts = 0" if "msec_text parts True = []" for parts
    using that by (induction parts) (auto simp: show_dec_def split: if_splits)
  then have ne: "?t \<noteq> []" using msec_parts_value [OF assms(3)] assms(1) by fastforce
  have "CHR 0x00 \<notin> set ?t"
    by (rule msec_text_no_nul) (simp add: msec_parts_def msec_split_def msec_units_def)
  note nul = takeWhile_cstr [OF this]
  obtain r where r: "msec2str_loop (msec_parts msec) buf 0 (int len) = ?t @ CHR 0x00 # r"
      "length (msec2str_loop (msec_parts msec) buf 0 (int len)) = length buf"
    using msec2str_loop_fits [of "msec_parts msec" 0 len buf] ne assms(4-6) by (auto simp: ULONG_MAX_def)
  have "nl_msec2str msec buf len = ?t @ CHR 0x00 # r" using r(1) assms(1) by (simp add: nl_msec2str_def msec_parts_def)
  moreover have "cstr (?t @ CHR 0x00 # r) = Inr ?t" using nul by (simp add: cstr_def)
  moreover have "nl_str2msec ?t = Inr (int msec)"
  proof -
    have "int (msec div n) \<le> ULONG_MAX" "int (msec mod n div k) \<le> ULONG_MAX" for n k
      using assms(2) div_le_dividend [of msec n] mod_less_eq_dividend [of msec n] div_le_dividend [of "msec mod n" k]
      by linarith+
    then have "\<forall>(v, u) \<in> set (msec_parts msec). v = 0 \<or> (msec_factor u \<noteq> None \<and> int v \<le> ULONG_MAX)"
      using assms(3) msec_unit_1 [of "[]"]
      by (simp add: msec_parts_def msec_split_def msec_units_def msec_factor_def)
    from str2msec_parts [OF this ne, of 0] show ?thesis
      using msec_parts_value [OF assms(3)] assms(2) by (simp add: nl_str2msec_def ULONG_MAX_def)
  qed
  ultimately show ?thesis using r by (simp add: nl_msec2str_def msec_parts_def assms(1))
qed

lemma show_dec_1: "n < 10 \<Longrightarrow> show_dec n = [digit_char n]"
  by (simp add: show_dec_def digits.simps [of 10 n])

lemma digit_char_1 [simp]: "digit_char 1 = CHR ''1''" "digit_char (Suc 0) = CHR ''1''"
  by (simp_all add: digit_char_def char_of_def bit_iff_odd)

theorem msec2str_str2msec_witness: "nl_str2msec ''1d 1m'' = Inr 86460000"
proof -
  have "msec_text (msec_parts 86460000) True = ''1d 1m''"
    by (simp add: msec_parts_def msec_split_def msec_units_def show_dec_1)
  then show ?thesis
    using msec2str_str2msec [of 86460000 8 "replicate 8 CHR 0x00"] by (simp add: ULONG_MAX_def)
qed

text \<open>
  With a buffer that is too small the room wraps around to a huge number and later parts are
  written behind the buffer: one day, one hour and one minute into three bytes.
\<close>

lemma nl_msec2str_overflows: "length (nl_msec2str 90060000 (replicate 3 CHR 0x00) 3) = 7"
  by (simp add: nl_msec2str_def msec_split_def msec_units_def show_dec_1 Let_def put_at_def u64_neg)

text \<open>Milliseconds are printed with a unit that the parser does not know.\<close>

lemma nl_str2msec_rejects_msec: "nl_str2msec ''1msec'' = Inl (Err NLE_INVAL)"
proof -
  have d: "show_dec 1 = ''1''" by (simp add: show_dec_1)
  have "strtoul 0 (show_dec 1 @ ''msec'') = Some (int 1, ''msec'')"
    by (rule strtoul_dec) (simp_all add: stops_def digit_val_def tolower_def ULONG_MAX_def)
  then have "strtoul 0 ''1msec'' = Some (1, ''msec'')" unfolding d by simp
  moreover have "strcspn ''msec'' [CHR '' '', CHR 0x09] = 4" by (simp add: strcspn_def)
  moreover have "msec_unit ''msec'' 4 = None"
    by (simp add: msec_unit_def strncaseeq_def strcaseeq_def tolower_def)
  ultimately show ?thesis by (simp add: nl_str2msec_def str2msec_loop.simps [of "''1msec''"])
qed

section \<open>Capabilities\<close>

text \<open>
  C?. The library reports exactly the capabilities that it defines: the numbers 1 to 30.
\<close>

theorem nl_has_capability_spec: "nl_has_capability c \<longleftrightarrow> 1 \<le> c \<and> c \<le> 30"
proof (cases "1 \<le> c \<and> c \<le> 30")
  case True
  then have "c \<in> set [1..30]" by simp
  moreover have "list_all nl_has_capability [1..30]"
    by code_simp
  ultimately show ?thesis using True by (simp add: list_all_iff del: set_upto)
next
  case False
  then show ?thesis by (auto simp: nl_has_capability_def NL_CAPABILITY_MAX_def)
qed

end
