(* ===== verification/Nl_Object.thy ===== *)
theory Nl_Object
  imports Nl_Error
begin

unbundle bit_operations_syntax

text \<open>
  Objects (\<open>lib/object.c\<close>): the reference-counted records that caches hold. An object has the
  header \<open>NLHDR_COMMON\<close> and data of its own type \<open>'d\<close>; the operations of a type are the record
  \<open>nl_object_ops\<close>, reached through a table (\<open>ops\<close>) from the pointer \<open>ce_ops\<close>. Objects live in a
  heap, and so do the caches that refer to them. A pointer to freed memory gives \<open>Inl Undef\<close>.

  The list link \<open>ce_list\<close> is the flag \<open>ce_linked\<close>, the negation of
  \<open>nl_list_empty(&obj->ce_list)\<close>; as in \<open>include/netlink/list.h\<close>, removing an object from a list
  leaves its own pointers (and so the flag) as they were. The members of a list are the list
  \<open>c_items\<close> of their cache. What \<open>oo_free_data\<close> frees belongs to the type and is not part of the
  heap; the flag \<open>oo_free_data\<close> says whether it is set.
\<close>

section \<open>Data\<close>

record 'd nl_object =
  ce_refcnt :: int
  ce_ops :: "nat option"
  ce_cache :: "nat option"
  ce_linked :: bool
  ce_msgtype :: int
  ce_flags :: int
  ce_mask :: int
  ce_data :: 'd

record 'd nl_object_ops =
  oo_name :: string
  oo_size :: int
  oo_id_attrs :: int
  oo_zero :: 'd
  oo_constructor :: "('d \<Rightarrow> 'd) option"
  oo_free_data :: bool
  oo_clone :: "('d nl_object \<Rightarrow> 'd nl_object \<Rightarrow> int \<times> 'd nl_object) option"
  oo_compare :: "('d nl_object \<Rightarrow> 'd nl_object \<Rightarrow> int \<Rightarrow> int \<Rightarrow> int) option"
  oo_update :: "('d nl_object \<Rightarrow> 'd nl_object \<Rightarrow> int \<times> 'd nl_object) option"
  oo_keygen :: "('d nl_object \<Rightarrow> int \<Rightarrow> int) option"
  oo_id_attrs_get :: "('d nl_object \<Rightarrow> int) option"

record nl_hash_node =
  hn_key :: int
  hn_key_size :: int
  hn_obj :: nat

record nl_hash_table =
  ht_size :: int
  ht_nodes :: "nl_hash_node list list"

record nl_cache =
  c_items :: "nat list"
  c_nitems :: int
  c_iarg1 :: int
  c_iarg2 :: int
  c_refcnt :: int
  c_flags :: int
  c_hashtable :: "nl_hash_table option"
  c_ops :: nat

record 'd heap =
  h_obj :: "nat \<Rightarrow> 'd nl_object option"
  h_cache :: "nat \<Rightarrow> nl_cache option"

type_synonym 'd ops = "nat \<Rightarrow> 'd nl_object_ops"

abbreviation set_obj :: "nat \<Rightarrow> 'd nl_object \<Rightarrow> 'd heap \<Rightarrow> 'd heap" where
  "set_obj p obj h \<equiv> h\<lparr>h_obj := (h_obj h)(p \<mapsto> obj)\<rparr>"

abbreviation set_cache :: "nat \<Rightarrow> nl_cache \<Rightarrow> 'd heap \<Rightarrow> 'd heap" where
  "set_cache c cache h \<equiv> h\<lparr>h_cache := (h_cache h)(c \<mapsto> cache)\<rparr>"

definition deref :: "(nat \<Rightarrow> 'x option) \<Rightarrow> nat \<Rightarrow> 'x res" where
  "deref m p = (case m p of None \<Rightarrow> Inl Undef | Some x \<Rightarrow> Inr x)"

lemma deref_simps [simp]:
  "m p = Some x \<Longrightarrow> deref m p = Inr x" "m p = None \<Longrightarrow> deref m p = Inl Undef"
  "deref m p = Inr x \<longleftrightarrow> m p = Some x"
  by (auto simp: deref_def split: option.splits)

definition NL_OBJ_MARK :: int where "NL_OBJ_MARK = 1"
definition LOOSE_COMPARISON :: int where "LOOSE_COMPARISON = 1"
definition ID_COMPARISON :: int where "ID_COMPARISON = 2"

text \<open>\<open>sizeof(struct nl_object)\<close>, which is also the offset of the derived data.\<close>

definition SIZEOF_NL_OBJECT :: int where "SIZEOF_NL_OBJECT = 56"

text \<open>The macros that the comparison functions are made of.\<close>

definition AVAILABLE :: "'d nl_object \<Rightarrow> 'd nl_object \<Rightarrow> int \<Rightarrow> int" where
  "AVAILABLE a b attr = (ce_mask a AND ce_mask b) AND attr"

definition AVAILABLE_MISMATCH :: "'d nl_object \<Rightarrow> 'd nl_object \<Rightarrow> int \<Rightarrow> int" where
  "AVAILABLE_MISMATCH a b attr = (ce_mask a XOR ce_mask b) AND attr"

definition ATTR_MISMATCH :: "'d nl_object \<Rightarrow> 'd nl_object \<Rightarrow> int \<Rightarrow> bool \<Rightarrow> bool" where
  "ATTR_MISMATCH a b attr expr \<longleftrightarrow> AVAILABLE_MISMATCH a b attr \<noteq> 0 \<or> (AVAILABLE a b attr \<noteq> 0 \<and> expr)"

definition ATTR_DIFF :: "int \<Rightarrow> int \<Rightarrow> 'd nl_object \<Rightarrow> 'd nl_object \<Rightarrow> bool \<Rightarrow> int" where
  "ATTR_DIFF list attr a b expr = (if list AND attr \<noteq> 0 \<and> ATTR_MISMATCH a b attr expr then attr else 0)"

section \<open>Operations\<close>

definition obj_ops :: "'d ops \<Rightarrow> 'd nl_object \<Rightarrow> 'd nl_object_ops res" where
  "obj_ops ops obj = (case ce_ops obj of None \<Rightarrow> Inl Bug | Some i \<Rightarrow> Inr (ops i))"

text \<open>\<open>a\<close> is the result of \<open>calloc\<close>, here and below: an unused address or \<open>None\<close>.\<close>

definition nl_object_alloc :: "'d ops \<Rightarrow> nat option \<Rightarrow> nat \<Rightarrow> 'd heap \<Rightarrow> (nat option \<times> 'd heap) res" where
  "nl_object_alloc ops a i h =
     (if oo_size (ops i) < SIZEOF_NL_OBJECT then Inl Bug
      else case a of
        None \<Rightarrow> Inr (None, h)
      | Some p \<Rightarrow>
          (let data = (case oo_constructor (ops i) of None \<Rightarrow> oo_zero (ops i) | Some f \<Rightarrow> f (oo_zero (ops i)))
           in Inr (Some p, set_obj p \<lparr>ce_refcnt = 1, ce_ops = Some i, ce_cache = None, ce_linked = False,
                ce_msgtype = 0, ce_flags = 0, ce_mask = 0, ce_data = data\<rparr> h)))"

definition nl_object_get :: "nat \<Rightarrow> 'd heap \<Rightarrow> 'd heap res" where
  "nl_object_get p h =
     and_then (deref (h_obj h) p) (\<lambda>obj. Inr (set_obj p (obj\<lparr>ce_refcnt := ce_refcnt obj + 1\<rparr>) h))"

text \<open>
  \<open>nl_object_free\<close> as \<open>nl_object_put\<close> reaches it, with a reference count of 0. If the object is
  still in a cache, the call of \<open>nl_cache_remove\<close> ends in another \<open>nl_object_put\<close>, whose count
  is then -1: an assertion failure.
\<close>

definition object_release :: "'d ops \<Rightarrow> nat \<Rightarrow> 'd nl_object \<Rightarrow> 'd heap \<Rightarrow> 'd heap res" where
  "object_release ops p obj h =
     and_then (obj_ops ops obj) (\<lambda>_.
       if ce_cache obj \<noteq> None then Inl Bug else Inr (h\<lparr>h_obj := (h_obj h)(p := None)\<rparr>))"

definition nl_object_put :: "'d ops \<Rightarrow> nat option \<Rightarrow> 'd heap \<Rightarrow> 'd heap res" where
  "nl_object_put ops op h =
     (case op of None \<Rightarrow> Inr h
      | Some p \<Rightarrow>
          and_then (deref (h_obj h) p) (\<lambda>obj.
            let obj = obj\<lparr>ce_refcnt := ce_refcnt obj - 1\<rparr>; h = set_obj p obj h in
            if ce_refcnt obj < 0 then Inl Bug
            else if ce_refcnt obj \<le> 0 then object_release ops p obj h
            else Inr h))"

definition nl_object_clone ::
  "'d ops \<Rightarrow> nat option \<Rightarrow> nat option \<Rightarrow> 'd heap \<Rightarrow> (nat option \<times> 'd heap) res" where
  "nl_object_clone ops a op h =
     (case op of None \<Rightarrow> Inr (None, h)
      | Some p \<Rightarrow>
          and_then (deref (h_obj h) p) (\<lambda>obj.
          case ce_ops obj of None \<Rightarrow> Inl Bug
          | Some i \<Rightarrow>
              and_then (nl_object_alloc ops a i h) (\<lambda>(new, h').
              case new of None \<Rightarrow> Inr (None, h')
              | Some q \<Rightarrow>
                  and_then (deref (h_obj h') q) (\<lambda>nobj.
                  let size = oo_size (ops i) - SIZEOF_NL_OBJECT in
                  if size < 0 then Inl Bug
                  else
                    let nobj = nobj\<lparr>ce_ops := ce_ops obj, ce_msgtype := ce_msgtype obj, ce_mask := ce_mask obj\<rparr>;
                        nobj = (if size \<noteq> 0 then nobj\<lparr>ce_data := ce_data obj\<rparr> else nobj) in
                    case oo_clone (ops i) of
                      Some f \<Rightarrow>
                        (case f nobj obj of (err, nobj) \<Rightarrow>
                           if err < 0 then Inr (None, h'\<lparr>h_obj := (h_obj h')(q := None)\<rparr>)
                           else Inr (Some q, set_obj q nobj h'))
                    | None \<Rightarrow>
                        if size \<noteq> 0 \<and> oo_free_data (ops i) then Inl Bug
                        else Inr (Some q, set_obj q nobj h')))))"

text \<open>The result of \<open>oo_update\<close> is its error code and the new contents of \<open>dst\<close>.\<close>

definition nl_object_update :: "'d ops \<Rightarrow> nat \<Rightarrow> nat \<Rightarrow> 'd heap \<Rightarrow> (int \<times> 'd heap) res" where
  "nl_object_update ops dst src h =
     and_then (deref (h_obj h) dst) (\<lambda>d. and_then (deref (h_obj h) src) (\<lambda>s.
     and_then (obj_ops ops d) (\<lambda>oo.
       case oo_update oo of
         None \<Rightarrow> Inr (neg_err NLE_OPNOTSUPP, h)
       | Some f \<Rightarrow> (case f d s of (err, d) \<Rightarrow> Inr (err, set_obj dst d h)))))"

definition nl_object_shared :: "'d nl_object \<Rightarrow> bool" where
  "nl_object_shared obj \<longleftrightarrow> ce_refcnt obj > 1"

definition nl_object_mark :: "'d nl_object \<Rightarrow> 'd nl_object" where
  "nl_object_mark obj = obj\<lparr>ce_flags := ce_flags obj OR NL_OBJ_MARK\<rparr>"

definition nl_object_unmark :: "'d nl_object \<Rightarrow> 'd nl_object" where
  "nl_object_unmark obj = obj\<lparr>ce_flags := ce_flags obj AND NOT NL_OBJ_MARK\<rparr>"

definition nl_object_is_marked :: "'d nl_object \<Rightarrow> bool" where
  "nl_object_is_marked obj \<longleftrightarrow> ce_flags obj AND NL_OBJ_MARK \<noteq> 0"

text \<open>The required attributes; \<open>None\<close> when the two objects disagree about them.\<close>

definition req_attrs :: "'d nl_object_ops \<Rightarrow> 'd nl_object \<Rightarrow> 'd nl_object \<Rightarrow> int option" where
  "req_attrs oo a b =
     (let req = (case oo_id_attrs_get oo of
                   Some g \<Rightarrow> if s32 (g a) \<noteq> s32 (g b) then None else Some (u32 (g a))
                 | None \<Rightarrow> if oo_id_attrs oo \<noteq> 0 then Some (u32 (oo_id_attrs oo)) else Some 0xFFFFFFFF) in
      case req of None \<Rightarrow> None
      | Some r \<Rightarrow> if r = 0xFFFFFFFF then Some (u32 (ce_mask a AND ce_mask b)) else Some r)"

definition nl_object_identical :: "'d ops \<Rightarrow> 'd nl_object \<Rightarrow> 'd nl_object \<Rightarrow> bool res" where
  "nl_object_identical ops a b =
     and_then (obj_ops ops a) (\<lambda>oo. and_then (obj_ops ops b) (\<lambda>_.
       if ce_ops a \<noteq> ce_ops b then Inr False
       else case req_attrs oo a b of
         None \<Rightarrow> Inr False
       | Some r \<Rightarrow>
           if ce_mask a AND r \<noteq> r \<or> ce_mask b AND r \<noteq> r then Inr False
           else case oo_compare oo of
             None \<Rightarrow> Inr False
           | Some cmp \<Rightarrow> Inr (cmp a b r ID_COMPARISON = 0)))"

definition nl_object_diff64 :: "'d ops \<Rightarrow> 'd nl_object \<Rightarrow> 'd nl_object \<Rightarrow> int res" where
  "nl_object_diff64 ops a b =
     and_then (obj_ops ops a) (\<lambda>oo. and_then (obj_ops ops b) (\<lambda>_.
       if ce_ops a \<noteq> ce_ops b then Inr 0xFFFFFFFFFFFFFFFF
       else case oo_compare oo of
         None \<Rightarrow> Inr 0xFFFFFFFFFFFFFFFF
       | Some cmp \<Rightarrow> Inr (u64 (cmp a b (u64 (- 1)) 0))))"

definition nl_object_diff :: "'d ops \<Rightarrow> 'd nl_object \<Rightarrow> 'd nl_object \<Rightarrow> int res" where
  "nl_object_diff ops a b =
     and_then (nl_object_diff64 ops a b) (\<lambda>diff.
       Inr (if diff AND NOT 0xFFFFFFFF \<noteq> 0 then u32 diff OR 0x80000000 else u32 diff))"

definition nl_object_match_filter :: "'d ops \<Rightarrow> 'd nl_object \<Rightarrow> 'd nl_object \<Rightarrow> bool res" where
  "nl_object_match_filter ops obj filt =
     and_then (obj_ops ops obj) (\<lambda>oo. and_then (obj_ops ops filt) (\<lambda>_.
       if ce_ops obj \<noteq> ce_ops filt then Inr False
       else case oo_compare oo of
         None \<Rightarrow> Inr False
       | Some cmp \<Rightarrow> Inr (cmp obj filt (ce_mask filt) LOOSE_COMPARISON = 0)))"

definition nl_object_keygen :: "'d ops \<Rightarrow> 'd nl_object \<Rightarrow> int \<Rightarrow> int res" where
  "nl_object_keygen ops obj sz =
     and_then (obj_ops ops obj) (\<lambda>oo. case oo_keygen oo of None \<Rightarrow> Inr 0 | Some f \<Rightarrow> Inr (f obj (u32 sz)))"

definition nl_object_get_refcnt :: "'d nl_object \<Rightarrow> int" where
  "nl_object_get_refcnt obj = ce_refcnt obj"

definition nl_object_get_cache :: "'d nl_object \<Rightarrow> nat option" where
  "nl_object_get_cache obj = ce_cache obj"

definition nl_object_get_type :: "'d ops \<Rightarrow> 'd nl_object \<Rightarrow> string res" where
  "nl_object_get_type ops obj = and_then (obj_ops ops obj) (\<lambda>oo. Inr (oo_name oo))"

definition nl_object_get_msgtype :: "'d nl_object \<Rightarrow> int" where
  "nl_object_get_msgtype obj = ce_msgtype obj"

definition nl_object_get_ops :: "'d nl_object \<Rightarrow> nat option" where
  "nl_object_get_ops obj = ce_ops obj"

definition nl_object_get_id_attrs :: "'d ops \<Rightarrow> 'd nl_object \<Rightarrow> int res" where
  "nl_object_get_id_attrs ops obj =
     and_then (obj_ops ops obj) (\<lambda>oo.
       Inr (case oo_id_attrs_get oo of Some g \<Rightarrow> u32 (g obj) | None \<Rightarrow> u32 (oo_id_attrs oo)))"

end
