(* ===== verification/Nl_Hashtable.thy ===== *)
theory Nl_Hashtable
  imports Nl_Object Nl_Hash "HOL-Library.Multiset"
begin

text \<open>
  Hash tables of objects (\<open>lib/hashtable.c\<close>). A table has one list of nodes per hash value; a
  node holds a reference to its object. The hash value and the test for identity come from the
  object's type (\<open>oo_keygen\<close>, \<open>oo_compare\<close>).
\<close>

section \<open>Operations\<close>

definition NL_MAX_HASH_ENTRIES :: int where "NL_MAX_HASH_ENTRIES = 1024"

definition nl_hash_table_alloc :: "bool \<Rightarrow> bool \<Rightarrow> int \<Rightarrow> nl_hash_table option" where
  "nl_hash_table_alloc a1 a2 sz =
     (if \<not> a1 then None
      else if \<not> a2 then None
      else Some \<lparr>ht_size = sz, ht_nodes = replicate (nat sz) []\<rparr>)"

fun put_nodes :: "'d ops \<Rightarrow> nl_hash_node list \<Rightarrow> 'd heap \<Rightarrow> 'd heap res" where
  "put_nodes ops [] h = Inr h"
| "put_nodes ops (n # ns) h = and_then (nl_object_put ops (Some (hn_obj n)) h) (put_nodes ops ns)"

definition nl_hash_table_free :: "'d ops \<Rightarrow> nl_hash_table \<Rightarrow> 'd heap \<Rightarrow> 'd heap res" where
  "nl_hash_table_free ops ht h = put_nodes ops (concat (ht_nodes ht)) h"

text \<open>\<open>ht->nodes[key_hash]\<close>.\<close>

definition bucket :: "nl_hash_table \<Rightarrow> int \<Rightarrow> nl_hash_node list res" where
  "bucket ht k = (if 0 \<le> k \<and> k < ht_size ht then Inr (ht_nodes ht ! nat k) else Inl Undef)"

text \<open>The loop that looks for a node with an identical object: its position, if there is one.\<close>

fun find_node :: "'d ops \<Rightarrow> 'd heap \<Rightarrow> 'd nl_object \<Rightarrow> nl_hash_node list \<Rightarrow> nat option res" where
  "find_node ops h obj [] = Inr None"
| "find_node ops h obj (n # ns) =
     and_then (deref (h_obj h) (hn_obj n)) (\<lambda>nobj.
     and_then (nl_object_identical ops nobj obj) (\<lambda>eq.
       if eq then Inr (Some 0)
       else and_then (find_node ops h obj ns) (\<lambda>r. Inr (map_option Suc r))))"

definition nl_hash_table_lookup :: "'d ops \<Rightarrow> nl_hash_table \<Rightarrow> nat \<Rightarrow> 'd heap \<Rightarrow> nat option res" where
  "nl_hash_table_lookup ops ht p h =
     and_then (deref (h_obj h) p) (\<lambda>obj.
     and_then (nl_object_keygen ops obj (ht_size ht)) (\<lambda>key_hash.
     and_then (bucket ht key_hash) (\<lambda>ns.
     and_then (find_node ops h obj ns) (\<lambda>r. Inr (map_option (\<lambda>i. hn_obj (ns ! i)) r)))))"

text \<open>\<open>a\<close> says whether the allocation of the node succeeds.\<close>

definition nl_hash_table_add ::
  "'d ops \<Rightarrow> bool \<Rightarrow> nl_hash_table \<Rightarrow> nat \<Rightarrow> 'd heap \<Rightarrow> (int \<times> nl_hash_table \<times> 'd heap) res" where
  "nl_hash_table_add ops a ht p h =
     and_then (deref (h_obj h) p) (\<lambda>obj.
     and_then (nl_object_keygen ops obj (ht_size ht)) (\<lambda>key_hash.
     and_then (bucket ht key_hash) (\<lambda>ns.
     and_then (find_node ops h obj ns) (\<lambda>r.
       if r \<noteq> None then Inr (neg_err NLE_EXIST, ht, h)
       else if \<not> a then Inr (neg_err NLE_NOMEM, ht, h)
       else and_then (nl_object_get p h) (\<lambda>h.
         let node = \<lparr>hn_key = key_hash, hn_key_size = 4, hn_obj = p\<rparr> in
         Inr (0, ht\<lparr>ht_nodes := (ht_nodes ht)[nat key_hash := node # ns]\<rparr>, h))))))"

definition nl_hash_table_del ::
  "'d ops \<Rightarrow> nl_hash_table \<Rightarrow> nat \<Rightarrow> 'd heap \<Rightarrow> (int \<times> nl_hash_table \<times> 'd heap) res" where
  "nl_hash_table_del ops ht p h =
     and_then (deref (h_obj h) p) (\<lambda>obj.
     and_then (nl_object_keygen ops obj (ht_size ht)) (\<lambda>key_hash.
     and_then (bucket ht key_hash) (\<lambda>ns.
     and_then (find_node ops h obj ns) (\<lambda>r.
       case r of
         None \<Rightarrow> Inr (neg_err NLE_OBJ_NOTFOUND, ht, h)
       | Some i \<Rightarrow>
           and_then (nl_object_put ops (Some p) h) (\<lambda>h.
             Inr (0, ht\<lparr>ht_nodes := (ht_nodes ht)[nat key_hash := take i ns @ drop (Suc i) ns]\<rparr>, h))))))"

section \<open>Identity of objects\<close>

definition ident :: "'d ops \<Rightarrow> 'd nl_object \<Rightarrow> 'd nl_object \<Rightarrow> bool" where
  "ident ops a b \<longleftrightarrow> nl_object_identical ops a b = Inr True"

text \<open>Two objects that differ only in the parts of the header that the library maintains.\<close>

definition same_contents :: "'d nl_object \<Rightarrow> 'd nl_object \<Rightarrow> bool" where
  "same_contents a b \<longleftrightarrow> ce_ops a = ce_ops b \<and> ce_mask a = ce_mask b \<and> ce_data a = ce_data b"

lemma same_contents_hdr [simp]:
  "same_contents a a" "same_contents (a\<lparr>ce_refcnt := n\<rparr>) a" "same_contents (a\<lparr>ce_cache := c\<rparr>) a"
  "same_contents (a\<lparr>ce_linked := l\<rparr>) a" "same_contents (a\<lparr>ce_flags := f\<rparr>) a"
  by (simp_all add: same_contents_def)

lemma identical_Inr:
  assumes "ce_ops a = Some i" "ce_ops b = Some j"
  shows "nl_object_identical ops a b = Inr (ident ops a b)"
  using assms by (auto simp: ident_def nl_object_identical_def obj_ops_def split: option.split)

lemma ident_ops: "ident ops a b \<Longrightarrow> ce_ops a = ce_ops b"
  by (auto simp: ident_def nl_object_identical_def and_then_Inr_iff split: if_splits)

section \<open>Lists of buckets\<close>

lemma mset_concat_update:
  "k < length xss \<Longrightarrow> mset (concat (xss[k := ys])) + mset (xss ! k) = mset (concat xss) + mset ys"
proof (induction xss arbitrary: k)
  case (Cons xs xss)
  then show ?case by (cases k) (auto simp: ac_simps)
qed simp

definition table_objs :: "nl_hash_table \<Rightarrow> nat multiset" where
  "table_objs ht = image_mset hn_obj (mset (concat (ht_nodes ht)))"

lemma table_objs_update:
  assumes "k < length (ht_nodes ht)"
  shows "table_objs (ht\<lparr>ht_nodes := (ht_nodes ht)[k := ys]\<rparr>) + image_mset hn_obj (mset (ht_nodes ht ! k)) =
    table_objs ht + image_mset hn_obj (mset ys)"
  using arg_cong [OF mset_concat_update [OF assms, of ys], of "image_mset hn_obj"]
  by (simp add: table_objs_def)

lemma in_table_objs:
  "p \<in># table_objs ht \<longleftrightarrow> (\<exists>k < length (ht_nodes ht). \<exists>n \<in> set (ht_nodes ht ! k). hn_obj n = p)"
  by (simp add: table_objs_def image_iff) (metis in_set_conv_nth)

lemma find_node_spec:
  assumes "\<forall>n \<in> set ns. \<exists>obj. h_obj h (hn_obj n) = Some obj \<and> ce_ops obj \<noteq> None" "ce_ops needle \<noteq> None"
  shows "\<exists>r. find_node ops h needle ns = Inr r \<and>
    (case r of
       None \<Rightarrow> \<forall>n \<in> set ns. \<not> ident ops (the (h_obj h (hn_obj n))) needle
     | Some j \<Rightarrow> j < length ns \<and> ident ops (the (h_obj h (hn_obj (ns ! j)))) needle)"
  using assms
proof (induction ns)
  case (Cons n ns)
  then obtain obj where obj: "h_obj h (hn_obj n) = Some obj" "ce_ops obj \<noteq> None" by auto
  then have id: "nl_object_identical ops obj needle = Inr (ident ops obj needle)"
    using Cons.prems(2) identical_Inr by blast
  obtain r where r: "find_node ops h needle ns = Inr r"
    "case r of None \<Rightarrow> \<forall>n \<in> set ns. \<not> ident ops (the (h_obj h (hn_obj n))) needle
     | Some j \<Rightarrow> j < length ns \<and> ident ops (the (h_obj h (hn_obj (ns ! j)))) needle"
    using Cons by auto
  show ?case
    using r obj id by (cases "ident ops obj needle") (auto split: option.splits)
qed simp

section \<open>The interface of object types with a hash function\<close>

text \<open>
  What the hash table needs of an object type \<open>i\<close>: the hash function stays below the table size
  and, like the comparison, depends on the contents alone; on objects that carry the attributes
  of their identity (\<open>keyed\<close>), being identical is an equivalence, and identical objects have the
  same hash value.
\<close>

locale keyed_type =
  fixes ops :: "'d ops" and i :: nat and keyed :: "'d nl_object \<Rightarrow> bool"
    and kg :: "'d nl_object \<Rightarrow> int \<Rightarrow> int"
  assumes kg_set: "oo_keygen (ops i) = Some kg"
    and kg_range: "0 < sz \<Longrightarrow> 0 \<le> kg a sz \<and> kg a sz < sz"
    and kg_contents: "same_contents a b \<Longrightarrow> kg a sz = kg b sz"
    and keyed_contents: "same_contents a b \<Longrightarrow> keyed a = keyed b"
    and ident_contents: "same_contents a a' \<Longrightarrow> same_contents b b' \<Longrightarrow> ident ops a b = ident ops a' b'"
    and ident_refl: "ce_ops a = Some i \<Longrightarrow> keyed a \<Longrightarrow> ident ops a a"
    and ident_sym: "ce_ops a = Some i \<Longrightarrow> keyed a \<Longrightarrow> keyed b \<Longrightarrow> ident ops a b \<Longrightarrow> ident ops b a"
    and ident_trans: "ce_ops a = Some i \<Longrightarrow> keyed a \<Longrightarrow> keyed b \<Longrightarrow> keyed c \<Longrightarrow> ident ops a b \<Longrightarrow> ident ops b c \<Longrightarrow> ident ops a c"
    and ident_kg: "ce_ops a = Some i \<Longrightarrow> keyed a \<Longrightarrow> keyed b \<Longrightarrow> ident ops a b \<Longrightarrow> kg a sz = kg b sz"

text \<open>A table that holds exactly the objects \<open>M\<close>, each in the bucket of its hash value.\<close>

definition node_ok :: "'d ops \<Rightarrow> ('d nl_object \<Rightarrow> bool) \<Rightarrow> nat \<Rightarrow> 'd heap \<Rightarrow> int \<Rightarrow> nat \<Rightarrow> nl_hash_node \<Rightarrow> bool" where
  "node_ok ops keyed i h sz k n \<longleftrightarrow> (\<exists>obj. h_obj h (hn_obj n) = Some obj \<and> ce_ops obj = Some i \<and> keyed obj \<and>
     nl_object_keygen ops obj sz = Inr (int k))"

definition wf_table :: "'d ops \<Rightarrow> ('d nl_object \<Rightarrow> bool) \<Rightarrow> nat \<Rightarrow> 'd heap \<Rightarrow> nl_hash_table \<Rightarrow> nat multiset \<Rightarrow> bool" where
  "wf_table ops keyed i h ht M \<longleftrightarrow>
     0 < ht_size ht \<and> ht_size ht < 2147483648 \<and> int (length (ht_nodes ht)) = ht_size ht \<and>
     table_objs ht = M \<and>
     (\<forall>k < length (ht_nodes ht). \<forall>n \<in> set (ht_nodes ht ! k). node_ok ops keyed i h (ht_size ht) k n)"

lemma wf_table_node:
  assumes "wf_table ops keyed i h ht M" "p \<in># M"
  shows "\<exists>k < length (ht_nodes ht). \<exists>n \<in> set (ht_nodes ht ! k). hn_obj n = p \<and> node_ok ops keyed i h (ht_size ht) k n"
  using assms in_table_objs [of p ht] unfolding wf_table_def by blast

lemma wf_table_in:
  assumes "wf_table ops keyed i h ht M" "k < length (ht_nodes ht)" "n \<in> set (ht_nodes ht ! k)"
  shows "hn_obj n \<in># M" "node_ok ops keyed i h (ht_size ht) k n"
  using assms in_table_objs [of "hn_obj n" ht] unfolding wf_table_def by blast+

lemma nodes_update:
  assumes "\<forall>k < length xss. \<forall>x \<in> set (xss ! k). P k x" "\<forall>x \<in> set ys. P j x"
  shows "\<forall>k < length (xss[j := ys]). \<forall>x \<in> set (xss[j := ys] ! k). P k x"
proof (intro allI impI ballI)
  fix k x assume "k < length (xss[j := ys])" "x \<in> set (xss[j := ys] ! k)"
  then show "P k x" using assms by (cases "k = j") auto
qed

text \<open>A set of objects in which only an object itself is identical to it.\<close>

definition distinct_ids :: "'d ops \<Rightarrow> 'd heap \<Rightarrow> nat set \<Rightarrow> bool" where
  "distinct_ids ops h S \<longleftrightarrow>
     (\<forall>p \<in> S. \<forall>q \<in> S. ident ops (the (h_obj h p)) (the (h_obj h q)) \<longleftrightarrow> p = q)"

lemma wf_table_update:
  assumes "wf_table ops keyed i h ht M" "\<forall>n \<in> set ys. node_ok ops keyed i h (ht_size ht) k n"
    and "table_objs (ht\<lparr>ht_nodes := (ht_nodes ht)[k := ys]\<rparr>) = M'"
  shows "wf_table ops keyed i h (ht\<lparr>ht_nodes := (ht_nodes ht)[k := ys]\<rparr>) M'"
proof -
  have "\<forall>k < length (ht_nodes ht). \<forall>n \<in> set (ht_nodes ht ! k). node_ok ops keyed i h (ht_size ht) k n"
    using assms(1) by (simp add: wf_table_def)
  from nodes_update [OF this assms(2)] show ?thesis using assms(1,3) by (simp add: wf_table_def)
qed

lemma mset_remove_nth: "j < length xs \<Longrightarrow> mset xs = add_mset (xs ! j) (mset (take j xs @ drop (Suc j) xs))"
proof (induction xs arbitrary: j)
  case (Cons x xs)
  then show ?case by (cases j) auto
qed simp

text \<open>Two objects that a table cannot tell apart.\<close>

definition same_key ::
  "'d ops \<Rightarrow> ('d nl_object \<Rightarrow> bool) \<Rightarrow> ('d nl_object \<Rightarrow> int \<Rightarrow> int) \<Rightarrow> 'd nl_object \<Rightarrow> 'd nl_object \<Rightarrow> bool" where
  "same_key ops keyed kg a b \<longleftrightarrow> ce_ops a = ce_ops b \<and> keyed a = keyed b \<and> (\<forall>sz. kg a sz = kg b sz) \<and>
     (\<forall>x. ident ops a x = ident ops b x \<and> ident ops x a = ident ops x b)"

context keyed_type begin

lemma same_key_contents:
  assumes "same_contents a b"
  shows "same_key ops keyed kg a b"
proof -
  have "ident ops a x = ident ops b x" "ident ops x a = ident ops x b" for x
    using ident_contents [OF assms, of x x] ident_contents [of x x, OF _ assms] by simp_all
  moreover have "ce_ops a = ce_ops b" using assms by (simp add: same_contents_def)
  ultimately show ?thesis
    unfolding same_key_def using keyed_contents [OF assms] kg_contents [OF assms] by blast
qed

lemma same_key_hdr [simp]:
  "same_key ops keyed kg a a" "same_key ops keyed kg (a\<lparr>ce_refcnt := n\<rparr>) a"
  "same_key ops keyed kg (a\<lparr>ce_cache := c\<rparr>) a" "same_key ops keyed kg (a\<lparr>ce_linked := l\<rparr>) a"
  "same_key ops keyed kg (a\<lparr>ce_flags := f\<rparr>) a"
  by (simp_all add: same_key_contents)

lemma keygen_Inr:
  assumes "ce_ops a = Some i" "0 < sz" "sz < 2147483648"
  shows "nl_object_keygen ops a sz = Inr (kg a sz)"
  using assms by (simp add: nl_object_keygen_def obj_ops_def kg_set)

lemma bucket_Inr:
  assumes "wf_table ops keyed i h ht M" "ce_ops a = Some i"
  shows "bucket ht (kg a (ht_size ht)) = Inr (ht_nodes ht ! nat (kg a (ht_size ht)))"
    "nat (kg a (ht_size ht)) < length (ht_nodes ht)"
  using assms kg_range [of "ht_size ht" a] by (auto simp: wf_table_def bucket_def)

text \<open>An object identical to the needle can only be in the needle's bucket.\<close>

lemma in_bucket:
  assumes "wf_table ops keyed i h ht M" "p \<in># M" "ident ops (the (h_obj h p)) needle" "ce_ops needle = Some i" "keyed needle"
  shows "\<exists>n \<in> set (ht_nodes ht ! nat (kg needle (ht_size ht))). hn_obj n = p"
proof -
  obtain k n obj where n: "n \<in> set (ht_nodes ht ! k)" "hn_obj n = p"
      and obj: "h_obj h p = Some obj" "ce_ops obj = Some i" "nl_object_keygen ops obj (ht_size ht) = Inr (int k)" "keyed obj"
    using wf_table_node [OF assms(1,2)] by (auto simp: node_ok_def)
  then have "kg obj (ht_size ht) = int k" using keygen_Inr [OF obj(2)] assms(1) by (auto simp: wf_table_def)
  then have "kg needle (ht_size ht) = int k" using ident_kg [of obj needle] assms(3,5) obj by simp
  then show ?thesis using n by auto
qed

lemma imp_keyed: "keyed a \<Longrightarrow> (keyed a \<longrightarrow> P) = P"
  by simp

lemma find_in_bucket:
  assumes wf: "wf_table ops keyed i h ht M" and needle: "ce_ops needle = Some i"
  defines "ns \<equiv> ht_nodes ht ! nat (kg needle (ht_size ht))"
  shows "\<exists>r. find_node ops h needle ns = Inr r \<and>
    (case r of
       None \<Rightarrow> keyed needle \<longrightarrow> (\<forall>p \<in># M. \<not> ident ops (the (h_obj h p)) needle)
     | Some j \<Rightarrow> j < length ns \<and> hn_obj (ns ! j) \<in># M \<and> ident ops (the (h_obj h (hn_obj (ns ! j)))) needle)"
proof -
  have k: "nat (kg needle (ht_size ht)) < length (ht_nodes ht)" using bucket_Inr [OF wf needle] by simp
  have M: "hn_obj n \<in># M" if "n \<in> set ns" for n
    using wf_table_in [OF wf k] that by (simp add: ns_def)
  have "\<forall>n \<in> set ns. \<exists>obj. h_obj h (hn_obj n) = Some obj \<and> ce_ops obj \<noteq> None"
    using wf_table_in(2) [OF wf k] unfolding ns_def node_ok_def by blast
  from find_node_spec [OF this, of needle ops] needle obtain r where
    "find_node ops h needle ns = Inr r" "case r of
       None \<Rightarrow> \<forall>n \<in> set ns. \<not> ident ops (the (h_obj h (hn_obj n))) needle
     | Some j \<Rightarrow> j < length ns \<and> ident ops (the (h_obj h (hn_obj (ns ! j)))) needle"
    by auto
  then show ?thesis
    using M in_bucket [OF wf _ _ needle] unfolding ns_def by (fastforce split: option.splits)
qed

text \<open>The lookup finds an identical object exactly if the table has one.\<close>

lemma lookup_spec:
  assumes "wf_table ops keyed i h ht M" "h_obj h p = Some needle" "ce_ops needle = Some i"
  shows "\<exists>r. nl_hash_table_lookup ops ht p h = Inr r \<and>
    (case r of
       None \<Rightarrow> keyed needle \<longrightarrow> (\<forall>q \<in># M. \<not> ident ops (the (h_obj h q)) needle)
     | Some q \<Rightarrow> q \<in># M \<and> ident ops (the (h_obj h q)) needle)"
  using find_in_bucket [OF assms(1,3)] bucket_Inr [OF assms(1,3)] keygen_Inr [OF assms(3)] assms(1,2)
  by (auto simp: nl_hash_table_lookup_def wf_table_def split: option.splits)

text \<open>The table does not care about the parts of the header that the library maintains.\<close>

lemma wf_table_heap:
  assumes "wf_table ops keyed i h ht M"
    and "\<And>p obj. p \<in># M \<Longrightarrow> h_obj h p = Some obj \<Longrightarrow> \<exists>obj'. h_obj h' p = Some obj' \<and> same_key ops keyed kg obj' obj"
  shows "wf_table ops keyed i h' ht M"
proof -
  have "node_ok ops keyed i h' (ht_size ht) k n"
    if n: "k < length (ht_nodes ht)" "n \<in> set (ht_nodes ht ! k)" for k n
  proof -
    obtain obj where obj: "h_obj h (hn_obj n) = Some obj" "ce_ops obj = Some i"
        "nl_object_keygen ops obj (ht_size ht) = Inr (int k)" "keyed obj"
      using wf_table_in(2) [OF assms(1) n] by (auto simp: node_ok_def)
    then obtain obj' where obj': "h_obj h' (hn_obj n) = Some obj'" "same_key ops keyed kg obj' obj"
      using assms(2) wf_table_in(1) [OF assms(1) n] by blast
    then have "ce_ops obj' = Some i" using obj(2) by (simp add: same_key_def)
    then show ?thesis
      using obj' obj assms(1) keygen_Inr by (auto simp: wf_table_def node_ok_def same_key_def)
  qed
  then show ?thesis using assms(1) by (auto simp: wf_table_def)
qed

lemma add_spec:
  assumes wf: "wf_table ops keyed i h ht M" and p: "h_obj h p = Some obj" "ce_ops obj = Some i" "keyed obj"
  shows "if \<exists>q \<in># M. ident ops (the (h_obj h q)) obj
    then nl_hash_table_add ops a ht p h = Inr (neg_err NLE_EXIST, ht, h)
    else if \<not> a then nl_hash_table_add ops a ht p h = Inr (neg_err NLE_NOMEM, ht, h)
    else \<exists>ht'. nl_hash_table_add ops a ht p h = Inr (0, ht', set_obj p (obj\<lparr>ce_refcnt := ce_refcnt obj + 1\<rparr>) h) \<and>
      wf_table ops keyed i (set_obj p (obj\<lparr>ce_refcnt := ce_refcnt obj + 1\<rparr>) h) ht' (add_mset p M)"
proof -
  let ?k = "kg obj (ht_size ht)"
  let ?ns = "ht_nodes ht ! nat ?k"
  let ?node = "\<lparr>hn_key = ?k, hn_key_size = 4, hn_obj = p\<rparr>"
  let ?ht = "ht\<lparr>ht_nodes := (ht_nodes ht)[nat ?k := ?node # ?ns]\<rparr>"
  let ?obj = "obj\<lparr>ce_refcnt := ce_refcnt obj + 1\<rparr>"
  have b: "bucket ht ?k = Inr ?ns" "nat ?k < length (ht_nodes ht)" using bucket_Inr [OF wf p(2)] by auto
  have sz: "0 < ht_size ht" "ht_size ht < 2147483648" using wf by (auto simp: wf_table_def)
  obtain r where r: "find_node ops h obj ?ns = Inr r" "case r of
       None \<Rightarrow> \<forall>p \<in># M. \<not> ident ops (the (h_obj h p)) obj
     | Some j \<Rightarrow> j < length ?ns \<and> hn_obj (?ns ! j) \<in># M \<and> ident ops (the (h_obj h (hn_obj (?ns ! j)))) obj"
    using find_in_bucket [OF wf p(2)] unfolding imp_keyed [OF p(3)] by blast
  have dup: "r \<noteq> None \<longleftrightarrow> (\<exists>q \<in># M. ident ops (the (h_obj h q)) obj)" using r(2) by (auto split: option.splits)
  have "wf_table ops keyed i (set_obj p ?obj h) ht M" by (rule wf_table_heap [OF wf]) (use p in \<open>auto split: if_splits\<close>)
  moreover have "table_objs ?ht = add_mset p M"
    using table_objs_update [OF b(2), of "?node # ?ns"] wf by (simp add: wf_table_def)
  moreover have "nl_object_keygen ops ?obj (ht_size ht) = Inr ?k"
    using keygen_Inr [of ?obj] kg_contents [of ?obj obj] p(2) sz by simp
  moreover have "0 \<le> ?k" using kg_range sz by simp
  ultimately have wf': "wf_table ops keyed i (set_obj p ?obj h) ht M" and objs: "table_objs ?ht = add_mset p M"
    and ok: "node_ok ops keyed i (set_obj p ?obj h) (ht_size ht) (nat ?k) ?node"
    using p(2,3) keyed_contents [of ?obj obj] by (auto simp: node_ok_def)
  have "\<forall>n \<in> set ?ns. node_ok ops keyed i (set_obj p ?obj h) (ht_size ht) (nat ?k) n"
    using wf_table_in(2) [OF wf' b(2)] by blast
  with ok have "wf_table ops keyed i (set_obj p ?obj h) ?ht (add_mset p M)"
    by (intro wf_table_update [OF wf' _ objs]) simp
  moreover have "nl_hash_table_add ops a ht p h =
      (if r \<noteq> None then Inr (neg_err NLE_EXIST, ht, h)
       else if \<not> a then Inr (neg_err NLE_NOMEM, ht, h) else Inr (0, ?ht, set_obj p ?obj h))"
    using r(1) p b(1) keygen_Inr [OF p(2) sz] by (simp add: nl_hash_table_add_def nl_object_get_def Let_def)
  ultimately show ?thesis using dup by (cases "r = None") auto
qed

lemma del_spec:
  assumes wf: "wf_table ops keyed i h ht M" and p: "h_obj h p = Some obj" "p \<in># M"
    and ids: "distinct_ids ops h (set_mset M)" and rc: "1 < ce_refcnt obj"
  shows "\<exists>ht'. nl_hash_table_del ops ht p h = Inr (0, ht', set_obj p (obj\<lparr>ce_refcnt := ce_refcnt obj - 1\<rparr>) h) \<and>
      wf_table ops keyed i (set_obj p (obj\<lparr>ce_refcnt := ce_refcnt obj - 1\<rparr>) h) ht' (M - {#p#})"
proof -
  have o: "ce_ops obj = Some i" "keyed obj" using wf_table_node [OF wf p(2)] p(1) by (auto simp: node_ok_def)
  let ?k = "kg obj (ht_size ht)"
  let ?ns = "ht_nodes ht ! nat ?k"
  let ?obj = "obj\<lparr>ce_refcnt := ce_refcnt obj - 1\<rparr>"
  have b: "bucket ht ?k = Inr ?ns" "nat ?k < length (ht_nodes ht)" using bucket_Inr [OF wf o(1)] by auto
  have sz: "0 < ht_size ht" "ht_size ht < 2147483648" using wf by (auto simp: wf_table_def)
  have "ident ops (the (h_obj h p)) obj" using ids p unfolding distinct_ids_def by force
  moreover obtain r where r: "find_node ops h obj ?ns = Inr r" "case r of
       None \<Rightarrow> \<forall>p \<in># M. \<not> ident ops (the (h_obj h p)) obj
     | Some j \<Rightarrow> j < length ?ns \<and> hn_obj (?ns ! j) \<in># M \<and> ident ops (the (h_obj h (hn_obj (?ns ! j)))) obj"
    using find_in_bucket [OF wf o(1)] unfolding imp_keyed [OF o(2)] by blast
  ultimately obtain j where j: "r = Some j" "j < length ?ns" "hn_obj (?ns ! j) \<in># M"
      "ident ops (the (h_obj h (hn_obj (?ns ! j)))) obj"
    using p(2) by (auto split: option.splits)
  then have jp: "hn_obj (?ns ! j) = p" using ids p unfolding distinct_ids_def by force
  let ?ns' = "take j ?ns @ drop (Suc j) ?ns"
  let ?ht = "ht\<lparr>ht_nodes := (ht_nodes ht)[nat ?k := ?ns']\<rparr>"
  have ns: "image_mset hn_obj (mset ?ns) = add_mset p (image_mset hn_obj (mset ?ns'))"
    using arg_cong [OF mset_remove_nth [OF j(2)], of "image_mset hn_obj"] jp by simp
  have sub: "set ?ns' \<subseteq> set ?ns" by (auto dest: in_set_takeD in_set_dropD)
  have "wf_table ops keyed i (set_obj p ?obj h) ht M" by (rule wf_table_heap [OF wf]) (use p in \<open>auto split: if_splits\<close>)
  moreover have "table_objs ?ht = M - {#p#}"
    using table_objs_update [OF b(2), of ?ns'] ns wf by (auto simp: wf_table_def)
  ultimately have wf': "wf_table ops keyed i (set_obj p ?obj h) ht M" and objs: "table_objs ?ht = M - {#p#}" by auto
  have "\<forall>n \<in> set ?ns'. node_ok ops keyed i (set_obj p ?obj h) (ht_size ht) (nat ?k) n"
    using wf_table_in(2) [OF wf' b(2)] sub by blast
  then have "wf_table ops keyed i (set_obj p ?obj h) ?ht (M - {#p#})"
    by (intro wf_table_update [OF wf' _ objs])
  then show ?thesis
    using r(1) j(1) p(1) b(1) keygen_Inr [OF o(1) sz] rc
    by (auto simp: nl_hash_table_del_def nl_object_put_def Let_def)
qed

end

end
