(* ===== verification/Nl_Cache.thy ===== *)
theory Nl_Cache
  imports Nl_Hashtable
begin

unbundle bit_operations_syntax

text \<open>
  Caches (\<open>lib/cache.c\<close>): lists of objects of one type, with a hash table when the type has a
  hash function. A cache holds one reference to each object in its list and the hash table
  another one. \<open>ops\<close> is the table of object types, \<open>cops\<close> that of cache types; \<open>c\<close> and \<open>p\<close> are the
  addresses of a cache and an object. Functions that fail return their code with the heap;
  \<open>Inl\<close> is an assertion failure or an access to freed memory.
\<close>

section \<open>Data\<close>

record nl_msgtype =
  mt_id :: int
  mt_act :: int
  mt_name :: string

record nl_cache_ops =
  co_name :: "string option"
  co_hdrsize :: int
  co_protocol :: int
  co_hash_size :: int
  co_flags :: int
  co_groups :: "(int \<times> int) list option"
  co_obj_ops :: "nat option"
  co_msgtypes :: "nl_msgtype list"

type_synonym cops = "nat \<Rightarrow> nl_cache_ops"

definition NL_ACT_UNSPEC :: int where "NL_ACT_UNSPEC = 0"
definition NL_ACT_NEW :: int where "NL_ACT_NEW = 1"
definition NL_ACT_DEL :: int where "NL_ACT_DEL = 2"
definition NL_ACT_CHANGE :: int where "NL_ACT_CHANGE = 5"
definition NL_CACHE_AF_ITER :: int where "NL_CACHE_AF_ITER = 1"

section \<open>Access\<close>

definition nl_cache_nitems :: "nl_cache \<Rightarrow> int" where
  "nl_cache_nitems cache = c_nitems cache"

fun count_matching :: "'d ops \<Rightarrow> 'd heap \<Rightarrow> nat option \<Rightarrow> nat list \<Rightarrow> int res" where
  "count_matching ops h filt [] = Inr 0"
| "count_matching ops h filt (p # ps) =
     and_then (deref (h_obj h) p) (\<lambda>obj.
     and_then (case filt of None \<Rightarrow> Inr True
       | Some f \<Rightarrow> and_then (deref (h_obj h) f) (nl_object_match_filter ops obj)) (\<lambda>m.
     and_then (count_matching ops h filt ps) (\<lambda>n. Inr (if m then n + 1 else n))))"

definition nl_cache_nitems_filter :: "'d ops \<Rightarrow> nl_cache \<Rightarrow> nat option \<Rightarrow> 'd heap \<Rightarrow> int res" where
  "nl_cache_nitems_filter ops cache filt h = count_matching ops h filt (c_items cache)"

definition nl_cache_is_empty :: "nl_cache \<Rightarrow> bool" where
  "nl_cache_is_empty cache \<longleftrightarrow> c_items cache = []"

definition nl_cache_get_ops :: "nl_cache \<Rightarrow> nat" where
  "nl_cache_get_ops cache = c_ops cache"

definition nl_cache_get_first :: "nl_cache \<Rightarrow> nat option" where
  "nl_cache_get_first cache = (case c_items cache of [] \<Rightarrow> None | p # _ \<Rightarrow> Some p)"

definition nl_cache_get_last :: "nl_cache \<Rightarrow> nat option" where
  "nl_cache_get_last cache = (if c_items cache = [] then None else Some (last (c_items cache)))"

text \<open>The element after \<open>p\<close> in a list.\<close>

fun next_in :: "nat list \<Rightarrow> nat \<Rightarrow> nat option" where
  "next_in [] p = None"
| "next_in [x] p = None"
| "next_in (x # y # xs) p = (if x = p then Some y else next_in (y # xs) p)"

definition nl_cache_get_next :: "nat \<Rightarrow> 'd heap \<Rightarrow> nat option res" where
  "nl_cache_get_next p h =
     and_then (deref (h_obj h) p) (\<lambda>obj.
       case ce_cache obj of None \<Rightarrow> Inl Undef
       | Some c \<Rightarrow> and_then (deref (h_cache h) c) (\<lambda>cache. Inr (next_in (c_items cache) p)))"

definition nl_cache_get_prev :: "nat \<Rightarrow> 'd heap \<Rightarrow> nat option res" where
  "nl_cache_get_prev p h =
     and_then (deref (h_obj h) p) (\<lambda>obj.
       case ce_cache obj of None \<Rightarrow> Inl Undef
       | Some c \<Rightarrow> and_then (deref (h_cache h) c) (\<lambda>cache. Inr (next_in (rev (c_items cache)) p)))"

definition nl_cache_set_arg1 :: "nl_cache \<Rightarrow> int \<Rightarrow> nl_cache" where
  "nl_cache_set_arg1 cache arg = cache\<lparr>c_iarg1 := arg\<rparr>"

definition nl_cache_set_arg2 :: "nl_cache \<Rightarrow> int \<Rightarrow> nl_cache" where
  "nl_cache_set_arg2 cache arg = cache\<lparr>c_iarg2 := arg\<rparr>"

definition nl_cache_set_flags :: "nl_cache \<Rightarrow> int \<Rightarrow> nl_cache" where
  "nl_cache_set_flags cache flags = cache\<lparr>c_flags := c_flags cache OR flags\<rparr>"

section \<open>Adding, moving and removing objects\<close>

text \<open>\<open>a\<close> is the result of \<open>calloc\<close> for the cache, \<open>a1\<close> and \<open>a2\<close> those for its hash table.\<close>

definition nl_cache_alloc ::
  "'d ops \<Rightarrow> cops \<Rightarrow> nat option \<Rightarrow> bool \<Rightarrow> bool \<Rightarrow> nat \<Rightarrow> 'd heap \<Rightarrow> (nat option \<times> 'd heap) res" where
  "nl_cache_alloc ops cops a a1 a2 i h =
     (case a of None \<Rightarrow> Inr (None, h)
      | Some c \<Rightarrow>
          (case co_obj_ops (cops i) of None \<Rightarrow> Inl Undef | Some t \<Rightarrow>
           let sz = (if co_hash_size (cops i) \<noteq> 0 then co_hash_size (cops i) else NL_MAX_HASH_ENTRIES);
               ht = (if oo_keygen (ops t) \<noteq> None
                     then nl_hash_table_alloc a1 a2 sz else None) in
           Inr (Some c, set_cache c \<lparr>c_items = [], c_nitems = 0, c_iarg1 = 0, c_iarg2 = 0, c_refcnt = 1,
              c_flags = co_flags (cops i), c_hashtable = ht, c_ops = i\<rparr> h)))"

definition cache_add :: "'d ops \<Rightarrow> bool \<Rightarrow> nat \<Rightarrow> nat \<Rightarrow> 'd heap \<Rightarrow> (int \<times> 'd heap) res" where
  "cache_add ops a c p h =
     and_then (deref (h_cache h) c) (\<lambda>cache.
     and_then (deref (h_obj h) p) (\<lambda>obj.
     let h = set_obj p (obj\<lparr>ce_cache := Some c\<rparr>) h in
     and_then (case c_hashtable cache of
         None \<Rightarrow> Inr (0, None, h)
       | Some ht \<Rightarrow> and_then (nl_hash_table_add ops a ht p h) (\<lambda>(ret, ht, h). Inr (ret, Some ht, h)))
       (\<lambda>(ret, ht, h).
     and_then (deref (h_obj h) p) (\<lambda>obj.
       if ret < 0 then Inr (ret, set_obj p (obj\<lparr>ce_cache := None\<rparr>) h)
       else
         Inr (0, set_cache c (cache\<lparr>c_items := c_items cache @ [p], c_nitems := c_nitems cache + 1,
                   c_hashtable := ht\<rparr>) (set_obj p (obj\<lparr>ce_linked := True\<rparr>) h))))))"

text \<open>\<open>a\<close> is the allocation of the hash node, \<open>b\<close> that of a clone.\<close>

definition nl_cache_add ::
  "'d ops \<Rightarrow> cops \<Rightarrow> bool \<Rightarrow> nat option \<Rightarrow> nat \<Rightarrow> nat \<Rightarrow> 'd heap \<Rightarrow> (int \<times> 'd heap) res" where
  "nl_cache_add ops cops a b c p h =
     and_then (deref (h_cache h) c) (\<lambda>cache.
     and_then (deref (h_obj h) p) (\<lambda>obj.
       if co_obj_ops (cops (c_ops cache)) \<noteq> ce_ops obj then Inr (neg_err NLE_OBJ_MISMATCH, h)
       else
         and_then (if ce_linked obj then nl_object_clone ops b (Some p) h
                   else and_then (nl_object_get p h) (\<lambda>h. Inr (Some p, h))) (\<lambda>(new, h).
         case new of None \<Rightarrow> Inr (neg_err NLE_NOMEM, h)
         | Some q \<Rightarrow>
             and_then (cache_add ops a c q h) (\<lambda>(ret, h).
               if ret < 0 then and_then (nl_object_put ops (Some q) h) (\<lambda>h. Inr (ret, h))
               else Inr (ret, h)))))"

definition nl_cache_remove :: "'d ops \<Rightarrow> nat \<Rightarrow> 'd heap \<Rightarrow> 'd heap res" where
  "nl_cache_remove ops p h =
     and_then (deref (h_obj h) p) (\<lambda>obj.
       case ce_cache obj of None \<Rightarrow> Inr h
       | Some c \<Rightarrow>
           and_then (deref (h_cache h) c) (\<lambda>cache.
           and_then (case c_hashtable cache of
               None \<Rightarrow> Inr (None, h)
             | Some ht \<Rightarrow> and_then (nl_hash_table_del ops ht p h) (\<lambda>(ret, ht, h). Inr (Some ht, h)))
             (\<lambda>(ht, h).
           and_then (deref (h_obj h) p) (\<lambda>obj.
           let cache = cache\<lparr>c_items := remove1 p (c_items cache), c_hashtable := ht\<rparr>;
               h = set_obj p (obj\<lparr>ce_cache := None\<rparr>) (set_cache c cache h) in
           and_then (nl_object_put ops (Some p) h) (\<lambda>h.
             Inr (set_cache c (cache\<lparr>c_nitems := c_nitems cache - 1\<rparr>) h))))))"

definition nl_cache_move ::
  "'d ops \<Rightarrow> cops \<Rightarrow> bool \<Rightarrow> nat \<Rightarrow> nat \<Rightarrow> 'd heap \<Rightarrow> (int \<times> 'd heap) res" where
  "nl_cache_move ops cops a c p h =
     and_then (deref (h_cache h) c) (\<lambda>cache.
     and_then (deref (h_obj h) p) (\<lambda>obj.
       if co_obj_ops (cops (c_ops cache)) \<noteq> ce_ops obj then Inr (neg_err NLE_OBJ_MISMATCH, h)
       else
         and_then (nl_object_get p h) (\<lambda>h.
         and_then (if ce_linked obj then nl_cache_remove ops p h else Inr h) (\<lambda>h.
           cache_add ops a c p h))))"

text \<open>The public \<open>nl_object_free\<close>, which takes an object out of its cache first.\<close>

definition nl_object_free :: "'d ops \<Rightarrow> nat option \<Rightarrow> 'd heap \<Rightarrow> 'd heap res" where
  "nl_object_free ops op h =
     (case op of None \<Rightarrow> Inr h
      | Some p \<Rightarrow>
          and_then (deref (h_obj h) p) (\<lambda>obj.
          and_then (obj_ops ops obj) (\<lambda>_.
          and_then (if ce_cache obj \<noteq> None then nl_cache_remove ops p h else Inr h) (\<lambda>h.
          and_then (deref (h_obj h) p) (\<lambda>_.
            Inr (h\<lparr>h_obj := (h_obj h)(p := None)\<rparr>))))))"

fun remove_all :: "'d ops \<Rightarrow> nat list \<Rightarrow> 'd heap \<Rightarrow> 'd heap res" where
  "remove_all ops [] h = Inr h"
| "remove_all ops (p # ps) h = and_then (nl_cache_remove ops p h) (remove_all ops ps)"

definition nl_cache_clear :: "'d ops \<Rightarrow> nat \<Rightarrow> 'd heap \<Rightarrow> 'd heap res" where
  "nl_cache_clear ops c h =
     and_then (deref (h_cache h) c) (\<lambda>cache. remove_all ops (c_items cache) h)"

definition cache_free :: "'d ops \<Rightarrow> nat \<Rightarrow> 'd heap \<Rightarrow> 'd heap res" where
  "cache_free ops c h =
     and_then (nl_cache_clear ops c h) (\<lambda>h.
     and_then (deref (h_cache h) c) (\<lambda>cache.
     and_then (case c_hashtable cache of None \<Rightarrow> Inr h | Some ht \<Rightarrow> nl_hash_table_free ops ht h) (\<lambda>h.
       Inr (h\<lparr>h_cache := (h_cache h)(c := None)\<rparr>))))"

definition nl_cache_get :: "nat \<Rightarrow> 'd heap \<Rightarrow> 'd heap res" where
  "nl_cache_get c h =
     and_then (deref (h_cache h) c) (\<lambda>cache. Inr (set_cache c (cache\<lparr>c_refcnt := c_refcnt cache + 1\<rparr>) h))"

definition nl_cache_free :: "'d ops \<Rightarrow> nat option \<Rightarrow> 'd heap \<Rightarrow> 'd heap res" where
  "nl_cache_free ops oc h =
     (case oc of None \<Rightarrow> Inr h
      | Some c \<Rightarrow>
          and_then (deref (h_cache h) c) (\<lambda>cache.
          let cache = cache\<lparr>c_refcnt := c_refcnt cache - 1\<rparr>; h = set_cache c cache h in
          if c_refcnt cache \<le> 0 then cache_free ops c h else Inr h))"

definition nl_cache_put :: "'d ops \<Rightarrow> nat option \<Rightarrow> 'd heap \<Rightarrow> 'd heap res" where
  "nl_cache_put ops oc h = nl_cache_free ops oc h"

section \<open>Searching\<close>

definition cache_fast_lookup :: "'d ops \<Rightarrow> nl_hash_table \<Rightarrow> nat \<Rightarrow> 'd heap \<Rightarrow> (nat option \<times> 'd heap) res" where
  "cache_fast_lookup ops ht needle h =
     and_then (nl_hash_table_lookup ops ht needle h) (\<lambda>r.
       case r of None \<Rightarrow> Inr (None, h)
       | Some p \<Rightarrow> and_then (nl_object_get p h) (\<lambda>h. Inr (Some p, h)))"

text \<open>The loop over the list: the first object that \<open>test\<close> accepts, with a new reference.\<close>

fun search_list :: "('d nl_object \<Rightarrow> bool res) \<Rightarrow> nat list \<Rightarrow> 'd heap \<Rightarrow> (nat option \<times> 'd heap) res" where
  "search_list test [] h = Inr (None, h)"
| "search_list test (p # ps) h =
     and_then (deref (h_obj h) p) (\<lambda>obj.
     and_then (test obj) (\<lambda>b.
       if b then and_then (nl_object_get p h) (\<lambda>h. Inr (Some p, h))
       else search_list test ps h))"

definition nl_cache_search :: "'d ops \<Rightarrow> nat \<Rightarrow> nat \<Rightarrow> 'd heap \<Rightarrow> (nat option \<times> 'd heap) res" where
  "nl_cache_search ops c needle h =
     and_then (deref (h_cache h) c) (\<lambda>cache.
       case c_hashtable cache of
         Some ht \<Rightarrow> cache_fast_lookup ops ht needle h
       | None \<Rightarrow>
           and_then (deref (h_obj h) needle) (\<lambda>nobj.
             search_list (\<lambda>obj. nl_object_identical ops obj nobj) (c_items cache) h))"

definition nl_cache_find :: "'d ops \<Rightarrow> nat \<Rightarrow> nat \<Rightarrow> 'd heap \<Rightarrow> (nat option \<times> 'd heap) res" where
  "nl_cache_find ops c filt h =
     and_then (deref (h_cache h) c) (\<lambda>cache.
     and_then (deref (h_obj h) filt) (\<lambda>fobj.
     and_then (nl_object_get_id_attrs ops fobj) (\<lambda>attrs.
       case c_hashtable cache of
         Some ht \<Rightarrow>
           if attrs = ce_mask fobj then cache_fast_lookup ops ht filt h
           else search_list (\<lambda>obj. nl_object_match_filter ops obj fobj) (c_items cache) h
       | None \<Rightarrow> search_list (\<lambda>obj. nl_object_match_filter ops obj fobj) (c_items cache) h)))"

fun mark_objs :: "nat list \<Rightarrow> 'd heap \<Rightarrow> 'd heap res" where
  "mark_objs [] h = Inr h"
| "mark_objs (p # ps) h =
     and_then (deref (h_obj h) p) (\<lambda>obj. mark_objs ps (set_obj p (nl_object_mark obj) h))"

definition nl_cache_mark_all :: "nat \<Rightarrow> 'd heap \<Rightarrow> 'd heap res" where
  "nl_cache_mark_all c h = and_then (deref (h_cache h) c) (\<lambda>cache. mark_objs (c_items cache) h)"

section \<open>Copies of caches\<close>

text \<open>\<open>allocs\<close> supplies the allocations (node, clone) of each \<open>nl_cache_add\<close>.\<close>

fun add_matching ::
  "'d ops \<Rightarrow> cops \<Rightarrow> (nat \<Rightarrow> bool \<times> nat option) \<Rightarrow> nat \<Rightarrow> ('d nl_object \<Rightarrow> bool res) \<Rightarrow> nat list \<Rightarrow> 'd heap \<Rightarrow> 'd heap res" where
  "add_matching ops cops allocs c test [] h = Inr h"
| "add_matching ops cops allocs c test (p # ps) h =
     and_then (deref (h_obj h) p) (\<lambda>obj.
     and_then (test obj) (\<lambda>b.
       if \<not> b then add_matching ops cops allocs c test ps h
       else case allocs p of (a, q) \<Rightarrow>
         and_then (nl_cache_add ops cops a q c p h) (\<lambda>(_, h).
           add_matching ops cops allocs c test ps h)))"

definition nl_cache_subset ::
  "'d ops \<Rightarrow> cops \<Rightarrow> nat option \<Rightarrow> bool \<Rightarrow> bool \<Rightarrow> (nat \<Rightarrow> bool \<times> nat option) \<Rightarrow> nat \<Rightarrow> nat option \<Rightarrow> 'd heap \<Rightarrow>
   (nat option \<times> 'd heap) res" where
  "nl_cache_subset ops cops a a1 a2 allocs orig filt h =
     (case filt of None \<Rightarrow> Inl Bug
      | Some f \<Rightarrow>
          and_then (deref (h_cache h) orig) (\<lambda>cache.
          and_then (nl_cache_alloc ops cops a a1 a2 (c_ops cache) h) (\<lambda>(c, h).
          case c of
            None \<Rightarrow> Inr (None, h)
          | Some c \<Rightarrow>
              and_then (deref (h_obj h) f) (\<lambda>fobj.
              and_then (add_matching ops cops allocs c (\<lambda>obj. nl_object_match_filter ops obj fobj) (c_items cache) h)
                (\<lambda>h. Inr (Some c, h))))))"

definition nl_cache_clone ::
  "'d ops \<Rightarrow> cops \<Rightarrow> nat option \<Rightarrow> bool \<Rightarrow> bool \<Rightarrow> (nat \<Rightarrow> bool \<times> nat option) \<Rightarrow> nat \<Rightarrow> 'd heap \<Rightarrow>
   (nat option \<times> 'd heap) res" where
  "nl_cache_clone ops cops a a1 a2 allocs orig h =
     and_then (deref (h_cache h) orig) (\<lambda>cache.
     and_then (nl_cache_alloc ops cops a a1 a2 (c_ops cache) h) (\<lambda>(c, h).
     case c of
       None \<Rightarrow> Inr (None, h)
     | Some c \<Rightarrow>
         and_then (add_matching ops cops allocs c (\<lambda>_. Inr True) (c_items cache) h) (\<lambda>h. Inr (Some c, h))))"

section \<open>Iterating\<close>

text \<open>The callback may change the heap and has a state \<open>'u\<close> of its own.\<close>

fun foreach_objs ::
  "'d ops \<Rightarrow> nat option \<Rightarrow> (nat \<Rightarrow> 'd heap \<Rightarrow> 'u \<Rightarrow> ('d heap \<times> 'u) res) \<Rightarrow> nat list \<Rightarrow> 'd heap \<Rightarrow> 'u \<Rightarrow>
   ('d heap \<times> 'u) res" where
  "foreach_objs ops filt cb [] h u = Inr (h, u)"
| "foreach_objs ops filt cb (p # ps) h u =
     and_then (deref (h_obj h) p) (\<lambda>obj.
     and_then (case filt of None \<Rightarrow> Inr True
       | Some f \<Rightarrow> and_then (deref (h_obj h) f) (nl_object_match_filter ops obj)) (\<lambda>m.
       if \<not> m then foreach_objs ops filt cb ps h u
       else
         and_then (nl_object_get p h) (\<lambda>h.
         and_then (cb p h u) (\<lambda>(h, u).
         and_then (nl_object_put ops (Some p) h) (\<lambda>h.
           foreach_objs ops filt cb ps h u)))))"

definition nl_cache_foreach_filter ::
  "'d ops \<Rightarrow> nat \<Rightarrow> nat option \<Rightarrow> (nat \<Rightarrow> 'd heap \<Rightarrow> 'u \<Rightarrow> ('d heap \<times> 'u) res) \<Rightarrow> 'd heap \<Rightarrow> 'u \<Rightarrow>
   ('d heap \<times> 'u) res" where
  "nl_cache_foreach_filter ops c filt cb h u =
     and_then (deref (h_cache h) c) (\<lambda>cache. foreach_objs ops filt cb (c_items cache) h u)"

definition nl_cache_foreach ::
  "'d ops \<Rightarrow> nat \<Rightarrow> (nat \<Rightarrow> 'd heap \<Rightarrow> 'u \<Rightarrow> ('d heap \<times> 'u) res) \<Rightarrow> 'd heap \<Rightarrow> 'u \<Rightarrow> ('d heap \<times> 'u) res" where
  "nl_cache_foreach ops c cb h u = nl_cache_foreach_filter ops c None cb h u"

section \<open>Including events\<close>

text \<open>
  The change callbacks of the two interfaces: cache, object and action; and cache, old and new
  object, differing attributes and action.
\<close>

type_synonym ('d, 'u) change_func = "nat \<Rightarrow> nat \<Rightarrow> int \<Rightarrow> 'd heap \<Rightarrow> 'u \<Rightarrow> ('d heap \<times> 'u) res"

type_synonym ('d, 'u) change_func_v2 =
  "nat \<Rightarrow> nat option \<Rightarrow> nat option \<Rightarrow> int \<Rightarrow> int \<Rightarrow> 'd heap \<Rightarrow> 'u \<Rightarrow> ('d heap \<times> 'u) res"

text \<open>\<open>if (cb_v2) cb_v2(...) else if (cb) cb(...)\<close>.\<close>

definition notify ::
  "('d, 'u) change_func option \<Rightarrow> ('d, 'u) change_func_v2 option \<Rightarrow> nat \<Rightarrow> nat \<Rightarrow> nat option \<Rightarrow> nat option \<Rightarrow>
   int \<Rightarrow> int \<Rightarrow> 'd heap \<Rightarrow> 'u \<Rightarrow> ('d heap \<times> 'u) res" where
  "notify cb cb_v2 c p old new diff act h u =
     (case cb_v2 of Some f \<Rightarrow> f c old new diff act h u
      | None \<Rightarrow> (case cb of Some f \<Rightarrow> f c p act h u | None \<Rightarrow> Inr (h, u)))"

definition diff64_at :: "'d ops \<Rightarrow> nat \<Rightarrow> nat \<Rightarrow> 'd heap \<Rightarrow> int res" where
  "diff64_at ops p q h =
     and_then (deref (h_obj h) p) (\<lambda>a. and_then (deref (h_obj h) q) (nl_object_diff64 ops a))"

text \<open>The end of the branch \<open>NL_ACT_NEW\<close>: \<open>obj\<close> is put into the cache, in place of \<open>old\<close> if it is set.\<close>

definition include_new ::
  "'d ops \<Rightarrow> cops \<Rightarrow> bool \<Rightarrow> ('d, 'u) change_func option \<Rightarrow> ('d, 'u) change_func_v2 option \<Rightarrow> nat \<Rightarrow> nat \<Rightarrow>
   nat option \<Rightarrow> 'd heap \<Rightarrow> 'u \<Rightarrow> ('d heap \<times> 'u) res" where
  "include_new ops cops a cb cb_v2 c p old h u =
     and_then (nl_cache_move ops cops a c p h) (\<lambda>(_, h).
     case old of
       None \<Rightarrow> notify cb cb_v2 c p None (Some p) 0 NL_ACT_NEW h u
     | Some q \<Rightarrow>
         and_then (if cb \<noteq> None \<or> cb_v2 \<noteq> None then diff64_at ops q p h else Inr 0) (\<lambda>diff.
         and_then (if diff \<noteq> 0 then notify cb cb_v2 c p (Some q) (Some p) diff NL_ACT_CHANGE h u
                   else Inr (h, u)) (\<lambda>(h, u).
         and_then (nl_object_put ops (Some q) h) (\<lambda>h. Inr (h, u)))))"

text \<open>\<open>a\<close> is the allocation of a hash node, \<open>b\<close> that of the clone for the version 2 callback.\<close>

definition cache_include ::
  "'d ops \<Rightarrow> cops \<Rightarrow> bool \<Rightarrow> nat option \<Rightarrow> nat \<Rightarrow> nat \<Rightarrow> int \<Rightarrow> ('d, 'u) change_func option \<Rightarrow>
   ('d, 'u) change_func_v2 option \<Rightarrow> 'd heap \<Rightarrow> 'u \<Rightarrow> (int \<times> 'd heap \<times> 'u) res" where
  "cache_include ops cops a b c p act cb cb_v2 h u =
     (if act = NL_ACT_NEW \<or> act = NL_ACT_DEL then
        and_then (nl_cache_search ops c p h) (\<lambda>(old, h).
        case old of
          None \<Rightarrow>
            if act = NL_ACT_NEW
            then and_then (include_new ops cops a cb cb_v2 c p None h u) (\<lambda>(h, u). Inr (0, h, u))
            else Inr (0, h, u)
        | Some q \<Rightarrow>
            and_then (deref (h_obj h) q) (\<lambda>oobj.
            and_then (obj_ops ops oobj) (\<lambda>oo.
            and_then (if cb_v2 \<noteq> None \<and> oo_update oo \<noteq> None
                      then and_then (nl_object_clone ops b (Some q) h) (\<lambda>(clone, h).
                             and_then (diff64_at ops q p h) (\<lambda>diff. Inr (clone, diff, h)))
                      else Inr (None, 0, h)) (\<lambda>(clone, diff, h).
            and_then (nl_object_update ops q p h) (\<lambda>(err, h).
              if err = 0 then
                and_then (notify cb cb_v2 c q clone (Some p) diff NL_ACT_CHANGE h u) (\<lambda>(h, u).
                and_then (if cb_v2 \<noteq> None then nl_object_put ops clone h else Inr h) (\<lambda>h.
                and_then (nl_object_put ops (Some q) h) (\<lambda>h. Inr (0, h, u))))
              else
                and_then (nl_object_put ops clone h) (\<lambda>h.
                and_then (nl_cache_remove ops q h) (\<lambda>h.
                  if act = NL_ACT_DEL then
                    and_then (notify cb cb_v2 c q (Some q) None 0 NL_ACT_DEL h u) (\<lambda>(h, u).
                    and_then (nl_object_put ops (Some q) h) (\<lambda>h. Inr (0, h, u)))
                  else
                    and_then (include_new ops cops a cb cb_v2 c p (Some q) h u) (\<lambda>(h, u). Inr (0, h, u)))))))))
      else Inr (0, h, u))"

text \<open>The loop over \<open>co_msgtypes\<close>, which ends at a negative \<open>mt_id\<close>: the action of a message type.\<close>

fun msgtype_act :: "nl_msgtype list \<Rightarrow> int \<Rightarrow> int option" where
  "msgtype_act [] t = None"
| "msgtype_act (m # ms) t =
     (if mt_id m < 0 then None else if mt_id m = t then Some (mt_act m) else msgtype_act ms t)"

definition include_any ::
  "'d ops \<Rightarrow> cops \<Rightarrow> bool \<Rightarrow> nat option \<Rightarrow> nat \<Rightarrow> nat \<Rightarrow> ('d, 'u) change_func option \<Rightarrow>
   ('d, 'u) change_func_v2 option \<Rightarrow> 'd heap \<Rightarrow> 'u \<Rightarrow> (int \<times> 'd heap \<times> 'u) res" where
  "include_any ops cops a b c p cb cb_v2 h u =
     and_then (deref (h_cache h) c) (\<lambda>cache.
     and_then (deref (h_obj h) p) (\<lambda>obj.
       if co_obj_ops (cops (c_ops cache)) \<noteq> ce_ops obj then Inr (neg_err NLE_OBJ_MISMATCH, h, u)
       else case msgtype_act (co_msgtypes (cops (c_ops cache))) (ce_msgtype obj) of
         Some act \<Rightarrow> cache_include ops cops a b c p act cb cb_v2 h u
       | None \<Rightarrow> Inr (neg_err NLE_MSGTYPE_NOSUPPORT, h, u)))"

definition nl_cache_include ::
  "'d ops \<Rightarrow> cops \<Rightarrow> bool \<Rightarrow> nat option \<Rightarrow> nat \<Rightarrow> nat \<Rightarrow> ('d, 'u) change_func option \<Rightarrow> 'd heap \<Rightarrow> 'u \<Rightarrow>
   (int \<times> 'd heap \<times> 'u) res" where
  "nl_cache_include ops cops a b c p change_cb h u = include_any ops cops a b c p change_cb None h u"

definition nl_cache_include_v2 ::
  "'d ops \<Rightarrow> cops \<Rightarrow> bool \<Rightarrow> nat option \<Rightarrow> nat \<Rightarrow> nat \<Rightarrow> ('d, 'u) change_func_v2 option \<Rightarrow> 'd heap \<Rightarrow> 'u \<Rightarrow>
   (int \<times> 'd heap \<times> 'u) res" where
  "nl_cache_include_v2 ops cops a b c p change_cb h u = include_any ops cops a b c p None change_cb h u"

section \<open>Searching a list\<close>

lemma find_SomeD: "List.find P xs = Some x \<Longrightarrow> x \<in> set xs \<and> P x"
  by (auto simp: find_Some_iff)

lemma search_list_spec:
  assumes "\<forall>p \<in> set ps. \<exists>obj. h_obj h p = Some obj \<and> test obj = Inr (P obj)"
  shows "search_list test ps h =
    (case List.find (\<lambda>p. P (the (h_obj h p))) ps of
       None \<Rightarrow> Inr (None, h)
     | Some q \<Rightarrow> Inr (Some q, set_obj q ((the (h_obj h q))\<lparr>ce_refcnt := ce_refcnt (the (h_obj h q)) + 1\<rparr>) h))"
  using assms by (induction ps) (auto simp: nl_object_get_def)

end
