(* ===== verification/Nl_Cache_Refs.thy ===== *)
theory Nl_Cache_Refs
  imports Nl_Cache
begin

text \<open>
  Reference counting of cached objects. The invariant \<open>wf_heap\<close> of a heap with objects and caches
  of one type says that lists, hash tables and back pointers agree and that the count of each
  object is the number of references its users hold (\<open>refs\<close>) plus those of its cache. Every
  operation keeps it, never runs into \<open>BUG()\<close> or freed memory, and changes \<open>refs\<close> as documented.
\<close>

section \<open>The invariant\<close>

definition wf_cache :: "'d ops \<Rightarrow> ('d nl_object \<Rightarrow> bool) \<Rightarrow> nat \<Rightarrow> 'd heap \<Rightarrow> nat \<Rightarrow> nl_cache \<Rightarrow> bool" where
  "wf_cache ops keyed i h c cache \<longleftrightarrow>
     distinct (c_items cache) \<and> c_nitems cache = int (length (c_items cache)) \<and>
     (\<forall>p \<in> set (c_items cache). \<exists>obj. h_obj h p = Some obj \<and> ce_cache obj = Some c \<and> ce_linked obj) \<and>
     (\<forall>ht. c_hashtable cache = Some ht \<longrightarrow>
        wf_table ops keyed i h ht (mset (c_items cache)) \<and> distinct_ids ops h (set (c_items cache)))"

text \<open>What the user configured of a cache; no operation on its objects changes it.\<close>

definition cache_cfg :: "nl_cache \<Rightarrow> nat \<times> int \<times> int \<times> int" where
  "cache_cfg cache = (c_ops cache, c_flags cache, c_iarg1 cache, c_iarg2 cache)"

lemma cache_cfg_simps [simp]:
  "cache_cfg (cache\<lparr>c_items := x\<rparr>) = cache_cfg cache" "cache_cfg (cache\<lparr>c_nitems := n\<rparr>) = cache_cfg cache"
  "cache_cfg (cache\<lparr>c_hashtable := ht\<rparr>) = cache_cfg cache" "cache_cfg (cache\<lparr>c_refcnt := n\<rparr>) = cache_cfg cache"
  by (simp_all add: cache_cfg_def)

definition cache_refs :: "'d heap \<Rightarrow> 'd nl_object \<Rightarrow> int" where
  "cache_refs h obj =
     (case ce_cache obj of None \<Rightarrow> 0
      | Some c \<Rightarrow> (case h_cache h c of None \<Rightarrow> 0 | Some cache \<Rightarrow> if c_hashtable cache = None then 1 else 2))"

lemma cache_refs_set_obj [simp]: "cache_refs (h\<lparr>h_obj := m\<rparr>) obj = cache_refs h obj"
  by (simp add: cache_refs_def split: option.split)

lemma cache_refs_cong: "ce_cache a = ce_cache b \<Longrightarrow> cache_refs h a = cache_refs h b"
  by (simp add: cache_refs_def)

lemma cache_refs_uncached [simp]: "ce_cache obj = None \<Longrightarrow> cache_refs h obj = 0"
  by (simp add: cache_refs_def)

definition wf_obj :: "nat \<Rightarrow> 'd heap \<Rightarrow> (nat \<Rightarrow> int) \<Rightarrow> nat \<Rightarrow> 'd nl_object \<Rightarrow> bool" where
  "wf_obj i h refs p obj \<longleftrightarrow>
     ce_ops obj = Some i \<and> 0 \<le> refs p \<and> 0 < ce_refcnt obj \<and> ce_refcnt obj = refs p + cache_refs h obj \<and>
     (\<forall>c. ce_cache obj = Some c \<longrightarrow> (\<exists>cache. h_cache h c = Some cache \<and> p \<in> set (c_items cache)))"

definition wf_heap :: "'d ops \<Rightarrow> ('d nl_object \<Rightarrow> bool) \<Rightarrow> nat \<Rightarrow> cops \<Rightarrow> 'd heap \<Rightarrow> (nat \<Rightarrow> int) \<Rightarrow> bool" where
  "wf_heap ops keyed i cops h refs \<longleftrightarrow>
     (\<forall>p obj. h_obj h p = Some obj \<longrightarrow> wf_obj i h refs p obj) \<and>
     (\<forall>p. h_obj h p = None \<longrightarrow> refs p = 0) \<and>
     (\<forall>c cache. h_cache h c = Some cache \<longrightarrow>
        co_obj_ops (cops (c_ops cache)) = Some i \<and> wf_cache ops keyed i h c cache)"

lemma wf_heapD:
  assumes "wf_heap ops keyed i cops h refs"
  shows "h_obj h p = Some obj \<Longrightarrow> wf_obj i h refs p obj" "h_obj h p = None \<Longrightarrow> refs p = 0"
    "h_cache h c = Some cache \<Longrightarrow> co_obj_ops (cops (c_ops cache)) = Some i"
    "h_cache h c = Some cache \<Longrightarrow> wf_cache ops keyed i h c cache"
  using assms by (auto simp: wf_heap_def)

lemma wf_heap_alive: "wf_heap ops keyed i cops h refs \<Longrightarrow> 0 < refs p \<Longrightarrow> \<exists>obj. h_obj h p = Some obj"
  using wf_heapD(2) by fastforce

lemma wf_heap_item:
  assumes "wf_heap ops keyed i cops h refs" "h_cache h c = Some cache" "p \<in> set (c_items cache)"
  shows "\<exists>obj. h_obj h p = Some obj \<and> ce_cache obj = Some c \<and> wf_obj i h refs p obj"
  using wf_heapD(4) [OF assms(1,2)] wf_heapD(1) [OF assms(1)] assms(3) by (auto simp: wf_cache_def)

lemma cached_item:
  assumes "wf_heap ops keyed i cops h refs" "h_obj h p = Some obj" "ce_cache obj = Some c"
  shows "\<exists>cache. h_cache h c = Some cache \<and> p \<in> set (c_items cache)"
  using wf_heapD(1) [OF assms(1,2)] assms(3) by (auto simp: wf_obj_def)

section \<open>Changes that keep the contents\<close>

text \<open>What a change must keep of an object for its cache not to notice.\<close>

definition same_place ::
  "'d ops \<Rightarrow> ('d nl_object \<Rightarrow> bool) \<Rightarrow> ('d nl_object \<Rightarrow> int \<Rightarrow> int) \<Rightarrow> 'd nl_object \<Rightarrow> 'd nl_object \<Rightarrow> bool" where
  "same_place ops keyed kg a b \<longleftrightarrow>
     same_key ops keyed kg a b \<and> ce_cache a = ce_cache b \<and> ce_linked a = ce_linked b"

context keyed_type begin

lemma same_place_hdr [simp]:
  "same_place ops keyed kg a a" "same_place ops keyed kg (a\<lparr>ce_refcnt := n\<rparr>) a"
  "same_place ops keyed kg (a\<lparr>ce_flags := f\<rparr>) a"
  by (simp_all add: same_place_def)

lemma distinct_ids_heap:
  assumes "distinct_ids ops h S"
    and "\<And>p. p \<in> S \<Longrightarrow> same_key ops keyed kg (the (h_obj h' p)) (the (h_obj h p))"
  shows "distinct_ids ops h' S"
  unfolding distinct_ids_def
proof (intro ballI)
  fix p q assume "p \<in> S" "q \<in> S"
  then show "ident ops (the (h_obj h' p)) (the (h_obj h' q)) \<longleftrightarrow> p = q"
    using assms(2) [of p] assms(2) [of q] assms(1) by (simp add: distinct_ids_def same_key_def)
qed

lemma wf_cache_heap:
  assumes "wf_cache ops keyed i h c cache"
    and "\<And>p obj. p \<in> set (c_items cache) \<Longrightarrow> h_obj h p = Some obj \<Longrightarrow>
      \<exists>obj'. h_obj h' p = Some obj' \<and> same_place ops keyed kg obj' obj"
  shows "wf_cache ops keyed i h' c cache"
proof -
  have ex: "\<exists>obj'. h_obj h' p = Some obj' \<and> same_place ops keyed kg obj' (the (h_obj h p)) \<and> ce_cache obj' = Some c \<and> ce_linked obj'"
    if "p \<in> set (c_items cache)" for p
    using assms that by (fastforce simp: wf_cache_def same_place_def)
  have "wf_table ops keyed i h' ht (mset (c_items cache)) \<and> distinct_ids ops h' (set (c_items cache))"
    if "c_hashtable cache = Some ht" for ht
  proof
    have t: "wf_table ops keyed i h ht (mset (c_items cache))" "distinct_ids ops h (set (c_items cache))"
      using assms(1) that by (auto simp: wf_cache_def)
    show "wf_table ops keyed i h' ht (mset (c_items cache))"
      by (rule wf_table_heap [OF t(1)]) (use ex in \<open>force simp: same_place_def\<close>)
    show "distinct_ids ops h' (set (c_items cache))"
      by (rule distinct_ids_heap [OF t(2)]) (use ex in \<open>force simp: same_place_def\<close>)
  qed
  then show ?thesis using assms(1) ex by (fastforce simp: wf_cache_def)
qed

text \<open>Replacing one object by another with the same place and contents; the count may change with the
  references of its users.\<close>

lemma wf_heap_set_obj:
  assumes wf: "wf_heap ops keyed i cops h refs" and p: "h_obj h p = Some obj" "same_place ops keyed kg obj' obj"
    and r: "0 \<le> r" "0 < ce_refcnt obj'" "ce_refcnt obj' = ce_refcnt obj - refs p + r"
  shows "wf_heap ops keyed i cops (set_obj p obj' h) (refs(p := r))"
  unfolding wf_heap_def
proof (intro conjI allI impI)
  fix q obj0 assume q: "h_obj (set_obj p obj' h) q = Some obj0"
  have "cache_refs h obj' = cache_refs h obj" using p(2) by (simp add: same_place_def cong: cache_refs_cong)
  then show "wf_obj i (set_obj p obj' h) (refs(p := r)) q obj0"
    using q p(2) r wf_heapD(1) [OF wf p(1)] wf_heapD(1) [OF wf, of q]
    by (cases "q = p") (auto simp: wf_obj_def same_place_def same_key_def)
next
  fix q assume "h_obj (set_obj p obj' h) q = None"
  then show "(refs(p := r)) q = 0" using wf_heapD(2) [OF wf] by (auto split: if_splits)
next
  fix c cache assume c: "h_cache (set_obj p obj' h) c = Some cache"
  then show "co_obj_ops (cops (c_ops cache)) = Some i" using wf_heapD(3) [OF wf] by simp
  show "wf_cache ops keyed i (set_obj p obj' h) c cache"
    by (rule wf_cache_heap [OF wf_heapD(4) [OF wf]]) (use c p in auto)
qed

lemma get_wf:
  assumes "wf_heap ops keyed i cops h refs" "h_obj h p = Some obj"
  shows "nl_object_get p h = Inr (set_obj p (obj\<lparr>ce_refcnt := ce_refcnt obj + 1\<rparr>) h)"
    "wf_heap ops keyed i cops (set_obj p (obj\<lparr>ce_refcnt := ce_refcnt obj + 1\<rparr>) h) (refs(p := refs p + 1))"
proof -
  show "nl_object_get p h = Inr (set_obj p (obj\<lparr>ce_refcnt := ce_refcnt obj + 1\<rparr>) h)"
    using assms by (simp add: nl_object_get_def)
  show "wf_heap ops keyed i cops (set_obj p (obj\<lparr>ce_refcnt := ce_refcnt obj + 1\<rparr>) h) (refs(p := refs p + 1))"
    using wf_heapD(1) [OF assms] by (intro wf_heap_set_obj [OF assms]) (auto simp: wf_obj_def)
qed

text \<open>An object enters or leaves cache \<open>c\<close>; everything else stays as it is.\<close>

lemma wf_heap_relink:
  assumes wf: "wf_heap ops keyed i cops h refs"
    and c: "h_cache h c = Some cache" "h_cache h' = (h_cache h)(c \<mapsto> cache')" "c_ops cache' = c_ops cache"
      "c_hashtable cache' = None \<longleftrightarrow> c_hashtable cache = None"
      "set (c_items cache') - {p} = set (c_items cache) - {p}" "wf_cache ops keyed i h' c cache'"
    and p: "h_obj h p = Some obj" "ce_cache obj = None \<or> ce_cache obj = Some c"
      "\<And>q. q \<noteq> p \<Longrightarrow> h_obj h' q = h_obj h q"
      "case h_obj h' p of None \<Rightarrow> r = 0 | Some obj' \<Rightarrow> wf_obj i h' (refs(p := r)) p obj'"
  shows "wf_heap ops keyed i cops h' (refs(p := r))"
  unfolding wf_heap_def
proof (intro conjI allI impI)
  fix q obj0 assume q: "h_obj h' q = Some obj0"
  show "wf_obj i h' (refs(p := r)) q obj0"
  proof (cases "q = p")
    case True
    then show ?thesis using q p(4) by simp
  next
    case False
    then have w: "wf_obj i h refs q obj0" using wf_heapD(1) [OF wf] p(3) q by simp
    have "cache_refs h' obj0 = cache_refs h obj0"
      using c(1,2,4) by (auto simp: cache_refs_def split: option.split)
    then show ?thesis using w False c(1,2,5) by (auto simp: wf_obj_def)
  qed
next
  fix q assume "h_obj h' q = None"
  then show "(refs(p := r)) q = 0" using wf_heapD(2) [OF wf] p(3,4) by (cases "q = p") auto
next
  fix d cache0 assume d: "h_cache h' d = Some cache0"
  then show "co_obj_ops (cops (c_ops cache0)) = Some i"
    using c(1-3) wf_heapD(3) [OF wf] by (auto split: if_splits)
  show "wf_cache ops keyed i h' d cache0"
  proof (cases "d = c")
    case True
    then show ?thesis using c(2,6) d by simp
  next
    case False
    then have w: "wf_cache ops keyed i h d cache0" using wf_heapD(4) [OF wf] c(2) d by simp
    then have "p \<notin> set (c_items cache0)" using p(1,2) False by (auto simp: wf_cache_def)
    then have "h_obj h' q = h_obj h q" if "q \<in> set (c_items cache0)" for q using that p(3) by metis
    then show ?thesis by (intro wf_cache_heap [OF w]) auto
  qed
qed

lemma wf_heap_free:
  assumes wf: "wf_heap ops keyed i cops h refs" and p: "h_obj h p = Some obj" "ce_cache obj = None"
  shows "wf_heap ops keyed i cops (h\<lparr>h_obj := (h_obj h)(p := None)\<rparr>) (refs(p := 0))"
  unfolding wf_heap_def
proof (intro conjI allI impI)
  fix q obj0 assume "h_obj (h\<lparr>h_obj := (h_obj h)(p := None)\<rparr>) q = Some obj0"
  then show "wf_obj i (h\<lparr>h_obj := (h_obj h)(p := None)\<rparr>) (refs(p := 0)) q obj0"
    using wf_heapD(1) [OF wf, of q] by (auto simp: wf_obj_def split: if_splits)
next
  fix q assume "h_obj (h\<lparr>h_obj := (h_obj h)(p := None)\<rparr>) q = None"
  then show "(refs(p := 0)) q = 0" using wf_heapD(2) [OF wf] by (auto split: if_splits)
next
  fix c cache assume "h_cache (h\<lparr>h_obj := (h_obj h)(p := None)\<rparr>) c = Some cache"
  then have c: "h_cache h c = Some cache" by simp
  then show "co_obj_ops (cops (c_ops cache)) = Some i" using wf_heapD(3) [OF wf] by simp
  have "q \<noteq> p" if "q \<in> set (c_items cache)" for q using wf_heap_item [OF wf c that] p by auto
  then show "wf_cache ops keyed i (h\<lparr>h_obj := (h_obj h)(p := None)\<rparr>) c cache"
    by (intro wf_cache_heap [OF wf_heapD(4) [OF wf c]]) auto
qed

lemma put_wf:
  assumes wf: "wf_heap ops keyed i cops h refs" and p: "h_obj h p = Some obj" "0 < refs p"
  defines "h' \<equiv> h\<lparr>h_obj := (h_obj h)(p := if refs p = 1 \<and> ce_cache obj = None then None
      else Some (obj\<lparr>ce_refcnt := ce_refcnt obj - 1\<rparr>))\<rparr>"
  shows "nl_object_put ops (Some p) h = Inr h'" "wf_heap ops keyed i cops h' (refs(p := refs p - 1))"
proof -
  note w = wf_heapD(1) [OF wf p(1)]
  have "nl_object_put ops (Some p) h = Inr h' \<and> wf_heap ops keyed i cops h' (refs(p := refs p - 1))"
  proof (cases "refs p = 1 \<and> ce_cache obj = None")
    case True
    then show ?thesis using w p wf_heap_free [OF wf p(1)]
      by (simp add: h'_def nl_object_put_def object_release_def obj_ops_def wf_obj_def Let_def)
  next
    case False
    have "ce_cache obj \<noteq> None \<Longrightarrow> 0 < cache_refs h obj"
      using w by (auto simp: wf_obj_def cache_refs_def split: option.splits if_splits)
    then have "1 < ce_refcnt obj" using w p(2) False by (cases "ce_cache obj") (auto simp: wf_obj_def)
    moreover have "h' = set_obj p (obj\<lparr>ce_refcnt := ce_refcnt obj - 1\<rparr>) h" using False by (auto simp: h'_def)
    ultimately show ?thesis
      using p by (auto intro!: wf_heap_set_obj [OF wf p(1)] simp: nl_object_put_def Let_def)
  qed
  then show "nl_object_put ops (Some p) h = Inr h'" "wf_heap ops keyed i cops h' (refs(p := refs p - 1))" by auto
qed

lemma distinct_ids_insert:
  assumes "distinct_ids ops h S" "p \<notin> S" "ident ops (the (h_obj h p)) (the (h_obj h p))"
    and "\<And>q. q \<in> S \<Longrightarrow> \<not> ident ops (the (h_obj h q)) (the (h_obj h p))"
    and "ce_ops (the (h_obj h p)) = Some i" "keyed (the (h_obj h p))" "\<And>q. q \<in> S \<Longrightarrow> keyed (the (h_obj h q))"
  shows "distinct_ids ops h (insert p S)"
proof -
  have "\<not> ident ops (the (h_obj h p)) (the (h_obj h q))" if "q \<in> S" for q
    using ident_sym [OF assms(5,6) assms(7) [OF that]] assms(4) [OF that] by blast
  then show ?thesis using assms(1-4) by (auto simp: distinct_ids_def)
qed

lemma table_keyed: "wf_table ops keyed i h ht M \<Longrightarrow> q \<in># M \<Longrightarrow> keyed (the (h_obj h q))"
  by (drule (1) wf_table_node) (auto simp: node_ok_def)

lemma cache_keyed:
  "wf_cache ops keyed i h c cache \<Longrightarrow> c_hashtable cache \<noteq> None \<Longrightarrow> q \<in> set (c_items cache) \<Longrightarrow> keyed (the (h_obj h q))"
  by (auto simp: wf_cache_def intro: table_keyed)

lemma link_wf:
  assumes wf: "wf_heap ops keyed i cops h refs" and c: "h_cache h c = Some cache"
    and p: "h_obj h p = Some obj" "ce_cache obj = None" "0 < refs p" "keyed obj"
    and ht: "ht = None \<longleftrightarrow> c_hashtable cache = None"
  defines "obj' \<equiv> obj\<lparr>ce_cache := Some c, ce_linked := True, ce_refcnt := refs p - 1 + (if ht = None then 1 else 2)\<rparr>"
    and "cache' \<equiv> cache\<lparr>c_items := c_items cache @ [p], c_nitems := c_nitems cache + 1, c_hashtable := ht\<rparr>"
  assumes t: "\<And>ht'. ht = Some ht' \<Longrightarrow> wf_table ops keyed i (set_obj p obj' h) ht' (add_mset p (mset (c_items cache))) \<and>
      (\<forall>q \<in> set (c_items cache). \<not> ident ops (the (h_obj h q)) obj)"
  shows "wf_heap ops keyed i cops (set_cache c cache' (set_obj p obj' h)) (refs(p := refs p - 1))"
proof -
  let ?h = "set_cache c cache' (set_obj p obj' h)"
  note w = wf_heapD(1) [OF wf p(1)] and wc = wf_heapD(4) [OF wf c]
  have notin: "p \<notin> set (c_items cache)" using wc p(1,2) by (auto simp: wf_cache_def)
  have same: "same_contents obj' obj" by (simp add: obj'_def same_contents_def)
  have o: "ce_ops obj' = Some i" "keyed obj'" using w p(4) keyed_contents [OF same] by (auto simp: obj'_def wf_obj_def)
  have "wf_table ops keyed i ?h ht' (mset (c_items cache')) \<and> distinct_ids ops ?h (set (c_items cache'))"
    if "ht = Some ht'" for ht'
  proof
    show "wf_table ops keyed i ?h ht' (mset (c_items cache'))"
      using wf_table_heap [OF conjunct1 [OF t [OF that]], of ?h] by (auto simp: cache'_def)
    have "distinct_ids ops h (set (c_items cache))" using wc ht that by (auto simp: wf_cache_def)
    then have "distinct_ids ops ?h (set (c_items cache))"
      by (rule distinct_ids_heap) (use notin in auto)
    moreover have "\<not> ident ops (the (h_obj ?h q)) obj'" if "q \<in> set (c_items cache)" for q
      using t [OF \<open>ht = Some ht'\<close>] that notin ident_contents [OF same_contents_hdr(1) same] by auto
    moreover have "keyed (the (h_obj ?h q))" if "q \<in> set (c_items cache)" for q
      using cache_keyed [OF wc _ that] ht \<open>ht = Some ht'\<close> that notin by auto
    ultimately show "distinct_ids ops ?h (set (c_items cache'))"
      using notin o ident_refl by (simp add: cache'_def distinct_ids_insert)
  qed
  then have "wf_cache ops keyed i ?h c cache'"
    using wc notin by (auto simp: wf_cache_def cache'_def obj'_def)
  moreover have "wf_obj i ?h (refs(p := refs p - 1)) p obj'"
    using w p(3) ht o(1) by (auto simp: wf_obj_def cache_refs_def obj'_def cache'_def)
  ultimately show ?thesis
    using notin ht by (intro wf_heap_relink [OF wf c _ _ _ _ _ p(1)]) (auto simp: p(2) cache'_def)
qed

text \<open>Adding: the cache takes over one of the caller's references.\<close>

lemma cache_add_wf:
  assumes wf: "wf_heap ops keyed i cops h refs" and c: "h_cache h c = Some cache"
    and p: "h_obj h p = Some obj" "ce_cache obj = None" "0 < refs p" "keyed obj"
  shows "if c_hashtable cache \<noteq> None \<and> (\<exists>q \<in> set (c_items cache). ident ops (the (h_obj h q)) obj)
    then cache_add ops a c p h = Inr (neg_err NLE_EXIST, h)
    else if c_hashtable cache \<noteq> None \<and> \<not> a then cache_add ops a c p h = Inr (neg_err NLE_NOMEM, h)
    else \<exists>h' cache'. cache_add ops a c p h = Inr (0, h') \<and> wf_heap ops keyed i cops h' (refs(p := refs p - 1)) \<and>
      h_cache h' = (h_cache h)(c \<mapsto> cache') \<and> c_items cache' = c_items cache @ [p] \<and>
      cache_cfg cache' = cache_cfg cache \<and>
      h_obj h' = (h_obj h)(p \<mapsto> obj\<lparr>ce_cache := Some c, ce_linked := True,
        ce_refcnt := refs p - 1 + (if c_hashtable cache = None then 1 else 2)\<rparr>)"
proof -
  let ?obj1 = "obj\<lparr>ce_cache := Some c\<rparr>"
  let ?h1 = "set_obj p ?obj1 h"
  have undo: "set_obj p (?obj1\<lparr>ce_cache := None\<rparr>) ?h1 = h"
    using p(1,2) by (cases h; cases obj) (auto simp: fun_upd_idem)
  note w = wf_heapD(1) [OF wf p(1)] and wc = wf_heapD(4) [OF wf c]
  have n: "ce_refcnt obj = refs p" "ce_ops obj = Some i" using w p(2) by (auto simp: wf_obj_def)
  have k: "keyed ?obj1" using p(4) keyed_contents [of ?obj1 obj] by (simp add: same_contents_def)
  show ?thesis
  proof (cases "c_hashtable cache")
    case None
    let ?cache' = "cache\<lparr>c_items := c_items cache @ [p], c_nitems := c_nitems cache + 1, c_hashtable := None\<rparr>"
    let ?obj' = "obj\<lparr>ce_cache := Some c, ce_linked := True, ce_refcnt := refs p - 1 + 1\<rparr>"
    have "obj\<lparr>ce_cache := Some c, ce_linked := True\<rparr> = ?obj'" using n(1) by (cases obj) auto
    then have "cache_add ops a c p h = Inr (0, set_cache c ?cache' (set_obj p ?obj' h))"
      using None c p(1) by (simp add: cache_add_def Let_def)
    then show ?thesis
      using link_wf [OF wf c p, of None] None
      by (auto intro!: exI [of _ "set_cache c ?cache' (set_obj p ?obj' h)"] exI [of _ ?cache'])
  next
    case (Some ht)
    have "wf_table ops keyed i h ht (mset (c_items cache))" using wc Some by (simp add: wf_cache_def)
    then have t1: "wf_table ops keyed i ?h1 ht (mset (c_items cache))"
      by (rule wf_table_heap) (auto simp: p(1))
    have "p \<notin> set (c_items cache)" using wc p(1,2) by (auto simp: wf_cache_def)
    then have id: "ident ops (the (h_obj ?h1 q)) ?obj1 = ident ops (the (h_obj h q)) obj" if "q \<in> set (c_items cache)" for q
      using that ident_contents [of "the (h_obj h q)" "the (h_obj h q)" ?obj1 obj] by auto
    consider (dup) "\<exists>q \<in> set (c_items cache). ident ops (the (h_obj h q)) obj"
      | (nomem) "\<forall>q \<in> set (c_items cache). \<not> ident ops (the (h_obj h q)) obj" "\<not> a"
      | (ok) "\<forall>q \<in> set (c_items cache). \<not> ident ops (the (h_obj h q)) obj" a by blast
    then show ?thesis
    proof cases
      case dup
      then have "nl_hash_table_add ops a ht p ?h1 = Inr (neg_err NLE_EXIST, ht, ?h1)"
        using add_spec [OF t1, of p ?obj1 a] id n(2) k by (auto split: if_splits)
      then show ?thesis using dup Some c p(1) undo by (simp add: cache_add_def Let_def neg_err_def)
    next
      case nomem
      then have "nl_hash_table_add ops a ht p ?h1 = Inr (neg_err NLE_NOMEM, ht, ?h1)"
        using add_spec [OF t1, of p ?obj1 a] id n(2) k by (auto split: if_splits)
      then show ?thesis using nomem Some c p(1) undo by (simp add: cache_add_def Let_def neg_err_def)
    next
      case ok
      let ?obj2 = "?obj1\<lparr>ce_refcnt := ce_refcnt obj + 1\<rparr>"
      obtain ht' where ht': "nl_hash_table_add ops a ht p ?h1 = Inr (0, ht', set_obj p ?obj2 ?h1)"
          "wf_table ops keyed i (set_obj p ?obj2 ?h1) ht' (add_mset p (mset (c_items cache)))"
        using add_spec [OF t1, of p ?obj1 a] id n(2) k ok by (auto split: if_splits)
      have "wf_table ops keyed i (set_obj p (?obj2\<lparr>ce_linked := True\<rparr>) h) ht' (add_mset p (mset (c_items cache)))"
        by (rule wf_table_heap [OF ht'(2)]) auto
      moreover have eq: "?obj2\<lparr>ce_linked := True\<rparr> = obj\<lparr>ce_cache := Some c, ce_linked := True, ce_refcnt := refs p - 1 + 2\<rparr>"
        using n(1) by simp
      moreover let ?cache' = "cache\<lparr>c_items := c_items cache @ [p], c_nitems := c_nitems cache + 1, c_hashtable := Some ht'\<rparr>"
      let ?h' = "set_cache c ?cache' (set_obj p (?obj2\<lparr>ce_linked := True\<rparr>) h)"
      have "cache_add ops a c p h = Inr (0, ?h')" using ht'(1) Some c p(1) by (simp add: cache_add_def Let_def)
      ultimately show ?thesis
        using link_wf [OF wf c p, of "Some ht'"] ok Some
        by (auto intro!: exI [of _ ?h'] exI [of _ ?cache'])
    qed
  qed
qed

text \<open>Removing: the references of the cache go away, those of the users stay.\<close>

definition unlinked :: "(nat \<Rightarrow> int) \<Rightarrow> nat \<Rightarrow> 'd nl_object \<Rightarrow> 'd nl_object option" where
  "unlinked refs p obj = (if refs p = 0 then None else Some (obj\<lparr>ce_cache := None, ce_refcnt := refs p\<rparr>))"

lemma unlink_wf:
  assumes wf: "wf_heap ops keyed i cops h refs" and c: "h_cache h c = Some cache" "p \<in> set (c_items cache)"
    and p: "h_obj h p = Some obj" "ce_cache obj = Some c"
    and ht: "ht = None \<longleftrightarrow> c_hashtable cache = None"
  defines "cache' \<equiv> cache\<lparr>c_items := remove1 p (c_items cache), c_hashtable := ht, c_nitems := c_nitems cache - 1\<rparr>"
  assumes t: "\<And>ht'. ht = Some ht' \<Longrightarrow> \<exists>obj'. wf_table ops keyed i (set_obj p obj' h) ht' (mset (c_items cache) - {#p#})"
  shows "wf_heap ops keyed i cops (h\<lparr>h_obj := (h_obj h)(p := unlinked refs p obj), h_cache := (h_cache h)(c \<mapsto> cache')\<rparr>) refs"
proof -
  let ?h = "h\<lparr>h_obj := (h_obj h)(p := unlinked refs p obj), h_cache := (h_cache h)(c \<mapsto> cache')\<rparr>"
  note w = wf_heapD(1) [OF wf p(1)] and wc = wf_heapD(4) [OF wf c(1)]
  have items: "set (c_items cache') = set (c_items cache) - {p}" "p \<notin> set (c_items cache')"
    "mset (c_items cache') = mset (c_items cache) - {#p#}" "int (length (c_items cache')) = int (length (c_items cache)) - 1"
    using wc c(2) length_pos_if_in_set [OF c(2)]
    by (auto simp: wf_cache_def cache'_def length_remove1 of_nat_diff Suc_leI)
  have "wf_table ops keyed i ?h ht' (mset (c_items cache')) \<and> distinct_ids ops ?h (set (c_items cache'))"
    if "ht = Some ht'" for ht'
  proof
    obtain obj' where "wf_table ops keyed i (set_obj p obj' h) ht' (mset (c_items cache'))"
      using t [OF \<open>ht = Some ht'\<close>] items(3) by auto
    then show "wf_table ops keyed i ?h ht' (mset (c_items cache'))"
      by (rule wf_table_heap) (use items(2) in auto)
    have "distinct_ids ops h (set (c_items cache))" using wc ht that by (auto simp: wf_cache_def)
    then have "distinct_ids ops h (set (c_items cache'))" using items(1) by (auto simp: distinct_ids_def)
    then show "distinct_ids ops ?h (set (c_items cache'))"
      by (rule distinct_ids_heap) (use items(2) in auto)
  qed
  then have "wf_cache ops keyed i ?h c cache'"
    using wc items by (auto simp: wf_cache_def cache'_def)
  moreover have "case h_obj ?h p of None \<Rightarrow> refs p = 0 | Some obj' \<Rightarrow> wf_obj i ?h (refs(p := refs p)) p obj'"
    using w by (auto simp: unlinked_def wf_obj_def)
  ultimately have "wf_heap ops keyed i cops ?h (refs(p := refs p))"
    using items(1) ht p(2) by (intro wf_heap_relink [OF wf c(1) _ _ _ _ _ p(1)]) (auto simp: cache'_def)
  then show ?thesis by simp
qed

lemma remove_wf:
  assumes wf: "wf_heap ops keyed i cops h refs" and p: "h_obj h p = Some obj" "ce_cache obj = Some c"
  shows "\<exists>cache h' cache'. h_cache h c = Some cache \<and> nl_cache_remove ops p h = Inr h' \<and> wf_heap ops keyed i cops h' refs \<and>
    h_cache h' = (h_cache h)(c \<mapsto> cache') \<and> c_items cache' = remove1 p (c_items cache) \<and> cache_cfg cache' = cache_cfg cache \<and>
    (c_hashtable cache' = None \<longleftrightarrow> c_hashtable cache = None) \<and> h_obj h' = (h_obj h)(p := unlinked refs p obj)"
proof -
  obtain cache where c: "h_cache h c = Some cache" "p \<in> set (c_items cache)" using cached_item [OF wf p] by blast
  note w = wf_heapD(1) [OF wf p(1)] and wc = wf_heapD(4) [OF wf c(1)]
  let ?dec = "\<lambda>o1 ht. (case c_hashtable cache of None \<Rightarrow> Inr (None, h)
      | Some ht \<Rightarrow> and_then (nl_hash_table_del ops ht p h) (\<lambda>(ret, ht, h). Inr (Some ht, h))) =
    Inr (ht, set_obj p o1 h)"
  have ex: "\<exists>ht. ?dec (obj\<lparr>ce_refcnt := refs p + 1\<rparr>) ht \<and> (ht = None \<longleftrightarrow> c_hashtable cache = None) \<and>
    (\<forall>ht'. ht = Some ht' \<longrightarrow> (\<exists>obj'. wf_table ops keyed i (set_obj p obj' h) ht' (mset (c_items cache) - {#p#})))"
  proof (cases "c_hashtable cache")
    case None
    then have "obj\<lparr>ce_refcnt := refs p + 1\<rparr> = obj" using w p(2) c(1) by (auto simp: wf_obj_def cache_refs_def)
    moreover have "set_obj p obj h = h" using p(1) by (cases h) (simp add: fun_upd_idem)
    ultimately show ?thesis using None by simp
  next
    case (Some ht)
    then have n: "ce_refcnt obj - 1 = refs p + 1" "1 < ce_refcnt obj" using w p(2) c(1) by (auto simp: wf_obj_def cache_refs_def)
    have "wf_table ops keyed i h ht (mset (c_items cache))" "distinct_ids ops h (set (c_items cache))"
      using wc Some by (auto simp: wf_cache_def)
    from del_spec [OF this(1) p(1) _ _ n(2), unfolded n(1)] this(2) c(2) obtain ht' where
      "nl_hash_table_del ops ht p h = Inr (0, ht', set_obj p (obj\<lparr>ce_refcnt := refs p + 1\<rparr>) h)"
      "wf_table ops keyed i (set_obj p (obj\<lparr>ce_refcnt := refs p + 1\<rparr>) h) ht' (mset (c_items cache) - {#p#})"
      by auto
    then show ?thesis using Some by auto
  qed
  obtain ht where d: "?dec (obj\<lparr>ce_refcnt := refs p + 1\<rparr>) ht" "ht = None \<longleftrightarrow> c_hashtable cache = None"
    "\<forall>ht'. ht = Some ht' \<longrightarrow> (\<exists>obj'. wf_table ops keyed i (set_obj p obj' h) ht' (mset (c_items cache) - {#p#}))"
    using ex by (elim exE conjE) (rule that)
  let ?cache' = "cache\<lparr>c_items := remove1 p (c_items cache), c_hashtable := ht, c_nitems := c_nitems cache - 1\<rparr>"
  let ?h' = "h\<lparr>h_obj := (h_obj h)(p := unlinked refs p obj), h_cache := (h_cache h)(c \<mapsto> ?cache')\<rparr>"
  have "nl_cache_remove ops p h = Inr ?h'"
    using d(1) c(1) p w
    by (auto simp: nl_cache_remove_def Let_def nl_object_put_def object_release_def obj_ops_def unlinked_def wf_obj_def)
  moreover have "wf_heap ops keyed i cops ?h' refs" by (rule unlink_wf [OF wf c p d(2)]) (use d(3) in blast)
  ultimately show ?thesis
    using c(1) d(2) by (intro exI [of _ cache] exI [of _ ?h'] exI [of _ ?cache']) simp
qed

lemma unlinked_uncached:
  assumes "wf_heap ops keyed i cops h refs" "h_obj h p = Some obj" "\<not> ce_linked obj"
  shows "ce_cache obj = None"
  using cached_item [OF assms(1,2)] wf_heapD(4) [OF assms(1)] assms(2,3)
  by (cases "ce_cache obj") (fastforce simp: wf_cache_def)+

lemma add_wf:
  assumes wf: "wf_heap ops keyed i cops h refs" and c: "h_cache h c = Some cache"
    and p: "h_obj h p = Some obj" "\<not> ce_linked obj" "0 < refs p" "keyed obj"
  shows "if c_hashtable cache \<noteq> None \<and> (\<exists>q \<in> set (c_items cache). ident ops (the (h_obj h q)) obj)
    then nl_cache_add ops cops a b c p h = Inr (neg_err NLE_EXIST, h)
    else if c_hashtable cache \<noteq> None \<and> \<not> a then nl_cache_add ops cops a b c p h = Inr (neg_err NLE_NOMEM, h)
    else \<exists>h' cache'. nl_cache_add ops cops a b c p h = Inr (0, h') \<and> wf_heap ops keyed i cops h' refs \<and>
      h_cache h' = (h_cache h)(c \<mapsto> cache') \<and> c_items cache' = c_items cache @ [p] \<and>
      cache_cfg cache' = cache_cfg cache \<and>
      h_obj h' = (h_obj h)(p \<mapsto> obj\<lparr>ce_cache := Some c, ce_linked := True,
        ce_refcnt := refs p + (if c_hashtable cache = None then 1 else 2)\<rparr>)"
proof -
  note un = unlinked_uncached [OF wf p(1,2)] and w = wf_heapD(1) [OF wf p(1)]
  let ?obj1 = "obj\<lparr>ce_refcnt := ce_refcnt obj + 1\<rparr>"
  let ?h1 = "set_obj p ?obj1 h" and ?refs1 = "refs(p := refs p + 1)"
  note g = get_wf [OF wf p(1)]
  have notin: "p \<notin> set (c_items cache)" using wf_heap_item [OF wf c] un p(1) by fastforce
  have id: "ident ops (the (h_obj ?h1 q)) ?obj1 = ident ops (the (h_obj h q)) obj" if "q \<in> set (c_items cache)" for q
    using that notin ident_contents [of "the (h_obj h q)" "the (h_obj h q)" ?obj1 obj] by auto
  have "keyed ?obj1" using keyed_contents [of ?obj1 obj] p(4) by simp
  then have k: "h_cache ?h1 c = Some cache" "h_obj ?h1 p = Some ?obj1" "ce_cache ?obj1 = None" "0 < ?refs1 p" "keyed ?obj1"
    using c un p(3) by auto
  have "set_obj p (?obj1\<lparr>ce_refcnt := ce_refcnt ?obj1 - 1\<rparr>) ?h1 = h"
    using p(1) by (cases h; cases obj) (auto simp: fun_upd_idem)
  then have put: "nl_object_put ops (Some p) ?h1 = Inr h"
    using put_wf(1) [OF g(2) k(2)] p(3) by simp
  have eq: "nl_cache_add ops cops a b c p h =
      and_then (cache_add ops a c p ?h1) (\<lambda>(ret, h). if ret < 0
        then and_then (nl_object_put ops (Some p) h) (\<lambda>h. Inr (ret, h)) else Inr (ret, h))"
    using c p(1,2) g(1) wf_heapD(3) [OF wf c] w by (simp add: nl_cache_add_def wf_obj_def)
  note A = cache_add_wf [OF g(2) k, of a]
  show ?thesis
  proof (cases "c_hashtable cache \<noteq> None \<and> (\<exists>q \<in> set (c_items cache). ident ops (the (h_obj h q)) obj)")
    case True
    then have "cache_add ops a c p ?h1 = Inr (neg_err NLE_EXIST, ?h1)" using A id by auto
    then show ?thesis using True put eq by (simp add: neg_err_def)
  next
    case False
    then have dup: "\<not> (c_hashtable cache \<noteq> None \<and> (\<exists>q \<in> set (c_items cache). ident ops (the (h_obj ?h1 q)) ?obj1))"
      using id by auto
    show ?thesis
    proof (cases "c_hashtable cache \<noteq> None \<and> \<not> a")
      case True
      then have "cache_add ops a c p ?h1 = Inr (neg_err NLE_NOMEM, ?h1)" using A dup by presburger
      then show ?thesis using False True put eq by (simp add: neg_err_def)
    next
      case na: False
      obtain h' cache' where h': "cache_add ops a c p ?h1 = Inr (0, h')"
          "wf_heap ops keyed i cops h' (?refs1(p := ?refs1 p - 1))" "h_cache h' = (h_cache ?h1)(c \<mapsto> cache')"
          "c_items cache' = c_items cache @ [p]" "cache_cfg cache' = cache_cfg cache"
          "h_obj h' = (h_obj ?h1)(p \<mapsto> ?obj1\<lparr>ce_cache := Some c, ce_linked := True,
            ce_refcnt := ?refs1 p - 1 + (if c_hashtable cache = None then 1 else 2)\<rparr>)"
        using A unfolding if_not_P [OF dup] if_not_P [OF na] by (elim exE conjE) (rule that)
      then have "wf_heap ops keyed i cops h' refs" by simp
      with h' eq False na show ?thesis by (auto intro!: exI [of _ h'] exI [of _ cache'])
    qed
  qed
qed

text \<open>Searching: with or without a hash table, an identical object is found exactly if there is one.\<close>

lemma search_wf:
  assumes wf: "wf_heap ops keyed i cops h refs" and c: "h_cache h c = Some cache" and p: "h_obj h p = Some needle"
  shows "(\<exists>q obj. q \<in> set (c_items cache) \<and> h_obj h q = Some obj \<and> ident ops obj needle \<and>
      nl_cache_search ops c p h = Inr (Some q, set_obj q (obj\<lparr>ce_refcnt := ce_refcnt obj + 1\<rparr>) h)) \<or>
    (nl_cache_search ops c p h = Inr (None, h) \<and>
      (keyed needle \<longrightarrow> (\<forall>q \<in> set (c_items cache). \<not> ident ops (the (h_obj h q)) needle)))"
proof (cases "c_hashtable cache")
  case None
  have o: "ce_ops needle = Some i" using wf_heapD(1) [OF wf p] by (simp add: wf_obj_def)
  have "\<forall>q \<in> set (c_items cache). \<exists>obj. h_obj h q = Some obj \<and>
      nl_object_identical ops obj needle = Inr (ident ops obj needle)"
    using wf_heap_item [OF wf c] identical_Inr [OF _ o] by (fastforce simp: wf_obj_def)
  note S = search_list_spec [OF this]
  show ?thesis
  proof (cases "List.find (\<lambda>q. ident ops (the (h_obj h q)) needle) (c_items cache)")
    case no: None
    then have "\<forall>q \<in> set (c_items cache). \<not> ident ops (the (h_obj h q)) needle"
      by (simp add: find_None_iff)
    then show ?thesis using S no None c p by (intro disjI2) (simp add: nl_cache_search_def)
  next
    case (Some q)
    obtain obj where "h_obj h q = Some obj" using find_SomeD [OF Some] wf_heap_item [OF wf c] by blast
    then show ?thesis using S Some find_SomeD [OF Some] None c p
      by (intro disjI1 exI [of _ q] exI [of _ obj]) (simp add: nl_cache_search_def)
  qed
next
  case (Some ht)
  have o: "ce_ops needle = Some i" using wf_heapD(1) [OF wf p] by (simp add: wf_obj_def)
  have "wf_table ops keyed i h ht (mset (c_items cache))" using wf_heapD(4) [OF wf c] Some by (simp add: wf_cache_def)
  from lookup_spec [OF this p o] obtain r where r: "nl_hash_table_lookup ops ht p h = Inr r"
    "case r of None \<Rightarrow> keyed needle \<longrightarrow> (\<forall>q \<in># mset (c_items cache). \<not> ident ops (the (h_obj h q)) needle)
       | Some q \<Rightarrow> q \<in># mset (c_items cache) \<and> ident ops (the (h_obj h q)) needle"
    by blast
  show ?thesis
  proof (cases r)
    case None
    then show ?thesis using r Some c
      by (intro disjI2) (simp add: nl_cache_search_def cache_fast_lookup_def)
  next
    case q: (Some q)
    obtain obj where "h_obj h q = Some obj" using q r(2) wf_heap_item [OF wf c, of q] by auto
    then show ?thesis using r q Some c
      by (intro disjI1 exI [of _ q] exI [of _ obj])
        (simp add: nl_cache_search_def cache_fast_lookup_def nl_object_get_def)
  qed
qed

text \<open>
  Moving an object that is in no cache: on success as adding it; on failure the reference that
  \<open>nl_cache_move\<close> took is not given back.
\<close>

lemma move_wf:
  assumes wf: "wf_heap ops keyed i cops h refs" and c: "h_cache h c = Some cache"
    and p: "h_obj h p = Some obj" "ce_cache obj = None" "keyed obj"
  shows "if c_hashtable cache \<noteq> None \<and> ((\<exists>q \<in> set (c_items cache). ident ops (the (h_obj h q)) obj) \<or> \<not> a)
    then \<exists>ret. nl_cache_move ops cops a c p h = Inr (ret, set_obj p (obj\<lparr>ce_refcnt := ce_refcnt obj + 1\<rparr>) h) \<and> ret < 0 \<and>
      wf_heap ops keyed i cops (set_obj p (obj\<lparr>ce_refcnt := ce_refcnt obj + 1\<rparr>) h) (refs(p := refs p + 1))
    else \<exists>h' cache'. nl_cache_move ops cops a c p h = Inr (0, h') \<and> wf_heap ops keyed i cops h' refs \<and>
      h_cache h' = (h_cache h)(c \<mapsto> cache') \<and> c_items cache' = c_items cache @ [p] \<and>
      cache_cfg cache' = cache_cfg cache \<and>
      h_obj h' = (h_obj h)(p \<mapsto> obj\<lparr>ce_cache := Some c, ce_linked := True,
        ce_refcnt := refs p + (if c_hashtable cache = None then 1 else 2)\<rparr>)"
proof -
  note w = wf_heapD(1) [OF wf p(1)] and g = get_wf [OF wf p(1)]
  let ?obj1 = "obj\<lparr>ce_refcnt := ce_refcnt obj + 1\<rparr>"
  let ?h1 = "set_obj p ?obj1 h" and ?refs1 = "refs(p := refs p + 1)"
  have notin: "p \<notin> set (c_items cache)" using wf_heap_item [OF wf c] p by fastforce
  have id: "ident ops (the (h_obj ?h1 q)) ?obj1 = ident ops (the (h_obj h q)) obj" if "q \<in> set (c_items cache)" for q
    using that notin ident_contents [of "the (h_obj h q)" "the (h_obj h q)" ?obj1 obj] by auto
  have "keyed ?obj1" using keyed_contents [of ?obj1 obj] p(3) by simp
  moreover have "0 < refs p + 1" using w by (simp add: wf_obj_def)
  ultimately have k: "h_cache ?h1 c = Some cache" "h_obj ?h1 p = Some ?obj1" "ce_cache ?obj1 = None" "0 < ?refs1 p" "keyed ?obj1"
    using c p(2) by auto
  have eq: "nl_cache_move ops cops a c p h = cache_add ops a c p ?h1"
    using c p(1,2) g(1) wf_heapD(3) [OF wf c] w by (simp add: nl_cache_move_def nl_cache_remove_def wf_obj_def)
  note A = cache_add_wf [OF g(2) k, of a]
  show ?thesis
  proof (cases "c_hashtable cache \<noteq> None \<and> (\<exists>q \<in> set (c_items cache). ident ops (the (h_obj h q)) obj)")
    case True
    then have "cache_add ops a c p ?h1 = Inr (neg_err NLE_EXIST, ?h1)" using A id by auto
    then show ?thesis using True eq g(2) by (simp add: neg_err_def)
  next
    case False
    then have dup: "\<not> (c_hashtable cache \<noteq> None \<and> (\<exists>q \<in> set (c_items cache). ident ops (the (h_obj ?h1 q)) ?obj1))"
      using id by auto
    show ?thesis
    proof (cases "c_hashtable cache \<noteq> None \<and> \<not> a")
      case True
      then have "cache_add ops a c p ?h1 = Inr (neg_err NLE_NOMEM, ?h1)" using A dup by presburger
      then show ?thesis using True eq g(2) by (simp add: neg_err_def)
    next
      case na: False
      obtain h' cache' where h': "cache_add ops a c p ?h1 = Inr (0, h')"
          "wf_heap ops keyed i cops h' (?refs1(p := ?refs1 p - 1))" "h_cache h' = (h_cache ?h1)(c \<mapsto> cache')"
          "c_items cache' = c_items cache @ [p]" "cache_cfg cache' = cache_cfg cache"
          "h_obj h' = (h_obj ?h1)(p \<mapsto> ?obj1\<lparr>ce_cache := Some c, ce_linked := True,
            ce_refcnt := ?refs1 p - 1 + (if c_hashtable cache = None then 1 else 2)\<rparr>)"
        using A unfolding if_not_P [OF dup] if_not_P [OF na] by (elim exE conjE) (rule that)
      then have "wf_heap ops keyed i cops h' refs" by simp
      moreover have nif: "\<not> (c_hashtable cache \<noteq> None \<and> ((\<exists>q \<in> set (c_items cache). ident ops (the (h_obj h q)) obj) \<or> \<not> a))"
        using False na by blast
      ultimately show ?thesis unfolding if_not_P [OF nif]
        using h' eq by (intro exI [of _ h'] exI [of _ cache']) auto
    qed
  qed
qed

lemma remove_all_wf:
  assumes "wf_heap ops keyed i cops h refs" "h_cache h c = Some cache" "c_items cache = ps @ qs"
  shows "\<exists>h' cache'. remove_all ops ps h = Inr h' \<and> wf_heap ops keyed i cops h' refs \<and>
    h_cache h' = (h_cache h)(c \<mapsto> cache') \<and> c_items cache' = qs \<and> cache_cfg cache' = cache_cfg cache \<and>
    (\<forall>q. q \<notin> set ps \<longrightarrow> h_obj h' q = h_obj h q)"
  using assms
proof (induction ps arbitrary: h cache)
  case (Cons p ps)
  obtain obj where obj: "h_obj h p = Some obj" "ce_cache obj = Some c"
    using wf_heap_item [OF Cons.prems(1,2), of p] Cons.prems(3) by auto
  obtain h1 cache1 where h1: "nl_cache_remove ops p h = Inr h1" "wf_heap ops keyed i cops h1 refs"
      "h_cache h1 = (h_cache h)(c \<mapsto> cache1)" "c_items cache1 = remove1 p (c_items cache)"
      "cache_cfg cache1 = cache_cfg cache" "h_obj h1 = (h_obj h)(p := unlinked refs p obj)"
    using remove_wf [OF Cons.prems(1) obj] Cons.prems(2) by auto
  have "h_cache h1 c = Some cache1" "c_items cache1 = ps @ qs" using h1 Cons.prems(3) by auto
  from Cons.IH [OF h1(2) this] obtain h2 cache2 where
    "remove_all ops ps h1 = Inr h2" "wf_heap ops keyed i cops h2 refs" "h_cache h2 = (h_cache h1)(c \<mapsto> cache2)"
    "c_items cache2 = qs" "cache_cfg cache2 = cache_cfg cache1" "\<forall>q. q \<notin> set ps \<longrightarrow> h_obj h2 q = h_obj h1 q"
    by blast
  then show ?case using h1 by (intro exI [of _ h2] exI [of _ cache2]) simp
next
  case Nil
  then show ?case by (intro exI [of _ h] exI [of _ cache]) (simp add: fun_upd_idem)
qed

lemma clear_wf:
  assumes "wf_heap ops keyed i cops h refs" "h_cache h c = Some cache"
  shows "\<exists>h' cache'. nl_cache_clear ops c h = Inr h' \<and> wf_heap ops keyed i cops h' refs \<and>
    h_cache h' = (h_cache h)(c \<mapsto> cache') \<and> c_items cache' = []"
  using remove_all_wf [OF assms, of "c_items cache" "[]"] assms(2) by (auto simp: nl_cache_clear_def)

end

end
