(* ===== verification/Nl_Cache_Include.thy ===== *)
theory Nl_Cache_Include
  imports Nl_Cache_Refs
begin

text \<open>
  Event processing (\<open>cache_include\<close> in \<open>lib/cache.c\<close>) as updates of a map: seen as a map from
  identities to objects, a cache with a hash table takes a new object for the identity of an
  event \<open>NL_ACT_NEW\<close> and loses the one of an event \<open>NL_ACT_DEL\<close>.
\<close>

text \<open>Types whose update function changes neither the identity nor the header of an object.\<close>

locale updatable_type = keyed_type +
  assumes update_keeps: "oo_update (ops i) = Some f \<Longrightarrow> ident ops a b \<Longrightarrow>
    same_place ops keyed kg (snd (f a b)) a \<and> ce_refcnt (snd (f a b)) = ce_refcnt a"

text \<open>A callback that looks but does not touch.\<close>

definition observer :: "(nat \<Rightarrow> nat \<Rightarrow> int \<Rightarrow> 'u \<Rightarrow> 'u) \<Rightarrow> ('d, 'u) change_func" where
  "observer g = (\<lambda>c p act h u. Inr (h, g c p act u))"

lemma notify_observer: "notify (Some (observer g)) None c p old new diff act h u = Inr (h, g c p act u)"
  by (simp add: notify_def observer_def)

context keyed_type begin

lemma diff64_Inr:
  assumes "wf_heap ops keyed i cops h refs" "h_obj h p = Some a" "h_obj h q = Some b"
  shows "\<exists>d. diff64_at ops p q h = Inr d"
  using wf_heapD(1) [OF assms(1,2)] wf_heapD(1) [OF assms(1,3)] assms(2,3)
  by (auto simp: diff64_at_def nl_object_diff64_def obj_ops_def wf_obj_def split: option.split)

text \<open>Putting the object in, once no identical one is left.\<close>

lemma include_new_wf:
  assumes wf: "wf_heap ops keyed i cops h refs" and c: "h_cache h c = Some cache"
    and p: "h_obj h p = Some obj" "ce_cache obj = None" "keyed obj"
    and no: "\<forall>q \<in> set (c_items cache). \<not> ident ops (the (h_obj h q)) obj"
    and old: "\<And>q. old = Some q \<Longrightarrow> 0 < refs q \<and> q \<noteq> p \<and> (\<exists>qobj. h_obj h q = Some qobj \<and> ce_cache qobj = None)"
  shows "\<exists>h' u' cache' obj'. include_new ops cops True (Some (observer g)) None c p old h u = Inr (h', u') \<and>
    wf_heap ops keyed i cops h' (case old of None \<Rightarrow> refs | Some q \<Rightarrow> refs(q := refs q - 1)) \<and>
    h_cache h' c = Some cache' \<and> c_items cache' = c_items cache @ [p] \<and> cache_cfg cache' = cache_cfg cache \<and>
    h_obj h' p = Some obj' \<and> same_contents obj' obj \<and>
    obj' = obj\<lparr>ce_cache := Some c, ce_linked := True, ce_refcnt := refs p + (if c_hashtable cache = None then 1 else 2)\<rparr> \<and>
    (\<forall>q. q \<noteq> p \<longrightarrow> old \<noteq> Some q \<longrightarrow> h_obj h' q = h_obj h q)"
proof -
  have nif: "\<not> (c_hashtable cache \<noteq> None \<and> ((\<exists>q \<in> set (c_items cache). ident ops (the (h_obj h q)) obj) \<or> \<not> True))"
    using no by blast
  let ?obj' = "obj\<lparr>ce_cache := Some c, ce_linked := True, ce_refcnt := refs p + (if c_hashtable cache = None then 1 else 2)\<rparr>"
  obtain h1 cache1 where m: "nl_cache_move ops cops True c p h = Inr (0, h1)" "wf_heap ops keyed i cops h1 refs"
      "h_cache h1 = (h_cache h)(c \<mapsto> cache1)" "c_items cache1 = c_items cache @ [p]"
      "h_obj h1 = (h_obj h)(p \<mapsto> ?obj')" "cache_cfg cache1 = cache_cfg cache"
    using move_wf [OF wf c p, of True] unfolding if_not_P [OF nif] by (elim exE conjE) (rule that)
  have same: "same_contents ?obj' obj" by (simp add: same_contents_def)
  show ?thesis
  proof (cases old)
    case None
    then have "include_new ops cops True (Some (observer g)) None c p old h u = Inr (h1, g c p NL_ACT_NEW u)"
      using m(1) by (simp add: include_new_def notify_observer)
    then show ?thesis using None m same
      by (intro exI [of _ h1] exI [of _ "g c p NL_ACT_NEW u"] exI [of _ cache1] exI [of _ ?obj']) simp
  next
    case (Some q)
    obtain qobj where q: "h_obj h1 q = Some qobj" "0 < refs q" "q \<noteq> p" "ce_cache qobj = None"
      using old [OF Some] m(5) by auto
    obtain d where d: "diff64_at ops q p h1 = Inr d" using diff64_Inr [OF m(2) q(1), of p ?obj'] m(5) by auto
    let ?u = "if d \<noteq> 0 then g c p NL_ACT_CHANGE u else u"
    note pw = put_wf [OF m(2) q(1,2)]
    let ?h' = "h1\<lparr>h_obj := (h_obj h1)(q := if refs q = 1 \<and> ce_cache qobj = None then None
      else Some (qobj\<lparr>ce_refcnt := ce_refcnt qobj - 1\<rparr>))\<rparr>"
    have "include_new ops cops True (Some (observer g)) None c p old h u = Inr (?h', ?u)"
      using m(1) Some d pw(1) by (simp add: include_new_def notify_observer)
    moreover have "h_cache ?h' c = Some cache1" "h_obj ?h' p = Some ?obj'" using m q(3) by auto
    moreover have "\<forall>x. x \<noteq> p \<longrightarrow> old \<noteq> Some x \<longrightarrow> h_obj ?h' x = h_obj h x" using m(5) Some by auto
    ultimately show ?thesis
      using Some pw(2) m(4,6) same
      by (intro exI [of _ ?h'] exI [of _ ?u] exI [of _ cache1] exI [of _ ?obj']) simp
  qed
qed

end

text \<open>
  What an event did to the objects of a cache, given that of the object \<open>obj\<close>: others stay, and
  afterwards there is exactly one identical object (\<open>one\<close>) or none.
\<close>

definition map_changed ::
  "'d ops \<Rightarrow> 'd nl_object \<Rightarrow> bool \<Rightarrow> 'd heap \<Rightarrow> nl_cache \<Rightarrow> 'd heap \<Rightarrow> nl_cache \<Rightarrow> bool" where
  "map_changed ops obj one h cache h' cache' \<longleftrightarrow>
     (\<forall>q \<in> set (c_items cache). \<not> ident ops (the (h_obj h q)) obj \<longrightarrow>
        q \<in> set (c_items cache') \<and> h_obj h' q = h_obj h q) \<and>
     (\<forall>q \<in> set (c_items cache'). ident ops (the (h_obj h' q)) obj \<or> q \<in> set (c_items cache)) \<and>
     card {q \<in> set (c_items cache'). ident ops (the (h_obj h' q)) obj} = (if one then 1 else 0)"

lemma map_changed_insert:
  assumes "set (c_items cache') = insert p S" "S = {q \<in> set (c_items cache). \<not> ident ops (the (h_obj h q)) obj}"
    and "ident ops (the (h_obj h' p)) obj" "\<And>q. q \<in> S \<Longrightarrow> h_obj h' q = h_obj h q"
  shows "map_changed ops obj True h cache h' cache'"
proof -
  have "{q \<in> set (c_items cache'). ident ops (the (h_obj h' q)) obj} = {p}"
    using assms by auto
  then show ?thesis using assms by (auto simp: map_changed_def)
qed

lemma map_changed_delete:
  assumes "set (c_items cache') = S" "S = {q \<in> set (c_items cache). \<not> ident ops (the (h_obj h q)) obj}"
    and "\<And>q. q \<in> S \<Longrightarrow> h_obj h' q = h_obj h q"
  shows "map_changed ops obj False h cache h' cache'"
proof -
  have "{q \<in> set (c_items cache'). ident ops (the (h_obj h' q)) obj} = {}" using assms by auto
  then show ?thesis using assms by (auto simp: map_changed_def)
qed

context updatable_type begin

text \<open>At most one object of a cache with a hash table is identical to a given one.\<close>

lemma unique_ident:
  assumes wf: "wf_heap ops keyed i cops h refs" and c: "h_cache h c = Some cache" "c_hashtable cache \<noteq> None"
    and q: "q \<in> set (c_items cache)" "q' \<in> set (c_items cache)"
    and id: "ident ops (the (h_obj h q)) obj" "ident ops (the (h_obj h q')) obj" and obj: "keyed obj"
  shows "q = q'"
proof -
  have o: "ce_ops (the (h_obj h q)) = Some i" "ce_ops (the (h_obj h q')) = Some i"
    using wf_heap_item [OF wf c(1)] q by (fastforce simp: wf_obj_def)+
  note k = cache_keyed [OF wf_heapD(4) [OF wf c(1)] c(2) q(1)] cache_keyed [OF wf_heapD(4) [OF wf c(1)] c(2) q(2)]
  have "ident ops (the (h_obj h q')) (the (h_obj h q))"
    using ident_trans [OF o(2) k(2) obj k(1) id(2)] ident_sym [OF o(1) k(1) obj id(1)] by blast
  moreover have "distinct_ids ops h (set (c_items cache))"
    using wf_heapD(4) [OF wf c(1)] c(2) by (auto simp: wf_cache_def)
  ultimately show ?thesis using q by (auto simp: distinct_ids_def)
qed

lemma update_wf:
  assumes wf: "wf_heap ops keyed i cops h refs" and q: "h_obj h q = Some qobj" and p: "h_obj h p = Some obj"
    and id: "ident ops qobj obj"
  shows "\<exists>err d. nl_object_update ops q p h = Inr (err, set_obj q d h) \<and> same_place ops keyed kg d qobj \<and>
    ce_refcnt d = ce_refcnt qobj \<and> wf_heap ops keyed i cops (set_obj q d h) refs \<and>
    (err = 0 \<longrightarrow> (\<exists>f. oo_update (ops i) = Some f \<and> fst (f qobj obj) = 0))"
proof -
  have o: "ce_ops qobj = Some i" "0 < ce_refcnt qobj" "0 \<le> refs q"
    using wf_heapD(1) [OF wf q] by (auto simp: wf_obj_def)
  have wf': "wf_heap ops keyed i cops (set_obj q d h) refs"
    if "same_place ops keyed kg d qobj" "ce_refcnt d = ce_refcnt qobj" for d
    using wf_heap_set_obj [OF wf q that(1), of "refs q"] that(2) o by simp
  show ?thesis
  proof (cases "oo_update (ops i)")
    case None
    have "set_obj q qobj h = h" using q by (cases h) (simp add: fun_upd_idem)
    then show ?thesis using None p q o wf
      by (intro exI [of _ "neg_err NLE_OPNOTSUPP"] exI [of _ qobj])
        (simp add: nl_object_update_def obj_ops_def neg_err_def)
  next
    case (Some f)
    obtain err d where f: "f qobj obj = (err, d)" by fastforce
    then have "same_place ops keyed kg d qobj" "ce_refcnt d = ce_refcnt qobj"
      using update_keeps [OF Some id] by auto
    then show ?thesis using Some f p q o wf'
      by (intro exI [of _ err] exI [of _ d]) (simp add: nl_object_update_def obj_ops_def)
  qed
qed

lemma include_absent:
  assumes wf: "wf_heap ops keyed i cops h refs" and c: "h_cache h c = Some cache"
    and p: "h_obj h p = Some obj" "ce_cache obj = None" "keyed obj"
    and act: "act = NL_ACT_NEW \<or> act = NL_ACT_DEL"
    and no: "\<forall>q \<in> set (c_items cache). \<not> ident ops (the (h_obj h q)) obj"
  shows "\<exists>h' u' cache'. cache_include ops cops True b c p act (Some (observer g)) None h u = Inr (0, h', u') \<and>
    wf_heap ops keyed i cops h' refs \<and> h_cache h' c = Some cache' \<and> map_changed ops obj (act = NL_ACT_NEW) h cache h' cache'"
proof -
  have s: "nl_cache_search ops c p h = Inr (None, h)" using search_wf [OF wf c p(1)] p(3) no by auto
  have notin: "p \<notin> set (c_items cache)" using wf_heap_item [OF wf c] p(1,2) by fastforce
  show ?thesis
  proof (cases "act = NL_ACT_NEW")
    case True
    obtain h' u' cache' obj' where n: "include_new ops cops True (Some (observer g)) None c p None h u = Inr (h', u')"
        "wf_heap ops keyed i cops h' refs" "h_cache h' c = Some cache'" "c_items cache' = c_items cache @ [p]"
        "h_obj h' p = Some obj'" "same_contents obj' obj" "\<forall>q. q \<noteq> p \<longrightarrow> h_obj h' q = h_obj h q"
      using include_new_wf [OF wf c p no, of None g u] by auto
    have "ce_ops obj' = Some i" using wf_heapD(1) [OF n(2,5)] by (simp add: wf_obj_def)
    then have "ident ops obj' obj"
      using ident_refl ident_contents [OF same_contents_hdr(1) n(6)] keyed_contents [OF n(6)] p(3) by blast
    then have "map_changed ops obj True h cache h' cache'"
      using n(4,5,7) notin no by (intro map_changed_insert [of _ p "set (c_items cache)"]) auto
    then show ?thesis using True s n(1-3) by (auto simp: cache_include_def)
  next
    case False
    have "map_changed ops obj False h cache h cache"
      using no by (intro map_changed_delete [of _ "set (c_items cache)"]) auto
    then show ?thesis using False act s wf c by (auto simp: cache_include_def)
  qed
qed

lemma search_present:
  assumes wf: "wf_heap ops keyed i cops h refs" and c: "h_cache h c = Some cache" "c_hashtable cache \<noteq> None"
    and p: "h_obj h p = Some obj" "keyed obj"
    and q: "q \<in> set (c_items cache)" "ident ops (the (h_obj h q)) obj" "h_obj h q = Some qobj"
  shows "nl_cache_search ops c p h = Inr (Some q, set_obj q (qobj\<lparr>ce_refcnt := ce_refcnt qobj + 1\<rparr>) h)"
  using search_wf [OF wf c(1) p(1)]
proof
  assume "\<exists>q obj'. q \<in> set (c_items cache) \<and> h_obj h q = Some obj' \<and> ident ops obj' obj \<and>
      nl_cache_search ops c p h = Inr (Some q, set_obj q (obj'\<lparr>ce_refcnt := ce_refcnt obj' + 1\<rparr>) h)"
  then obtain q' obj' where q': "q' \<in> set (c_items cache)" "h_obj h q' = Some obj'" "ident ops obj' obj"
      "nl_cache_search ops c p h = Inr (Some q', set_obj q' (obj'\<lparr>ce_refcnt := ce_refcnt obj' + 1\<rparr>) h)"
    by (elim exE conjE) (rule that)
  have "q' = q" using unique_ident [OF wf c q'(1) q(1) _ q(2) p(2)] q'(2,3) by simp
  then show ?thesis using q'(2,4) q(3) by simp
next
  assume "nl_cache_search ops c p h = Inr (None, h) \<and>
    (keyed obj \<longrightarrow> (\<forall>q \<in> set (c_items cache). \<not> ident ops (the (h_obj h q)) obj))"
  then show ?thesis using q(1,2) p(2) by blast
qed

lemma others_differ:
  assumes "wf_heap ops keyed i cops h refs" "h_cache h c = Some cache" "c_hashtable cache \<noteq> None"
    "q \<in> set (c_items cache)" "ident ops (the (h_obj h q)) obj" "keyed obj"
  shows "{x \<in> set (c_items cache). \<not> ident ops (the (h_obj h x)) obj} = set (c_items cache) - {q}"
proof (rule set_eqI)
  fix x
  show "x \<in> {x \<in> set (c_items cache). \<not> ident ops (the (h_obj h x)) obj} \<longleftrightarrow> x \<in> set (c_items cache) - {q}"
    using unique_ident [OF assms(1-3) _ assms(4) _ assms(5,6), of x] assms(5) by (cases "x = q") auto
qed

lemma include_present:
  assumes wf: "wf_heap ops keyed i cops h refs" and c: "h_cache h c = Some cache" "c_hashtable cache \<noteq> None"
    and p: "h_obj h p = Some obj" "ce_cache obj = None" "keyed obj"
    and act: "act = NL_ACT_NEW \<or> act = NL_ACT_DEL"
    and del: "act = NL_ACT_DEL \<longrightarrow> (\<forall>f a. oo_update (ops i) = Some f \<longrightarrow> fst (f a obj) \<noteq> 0)"
    and q: "q \<in> set (c_items cache)" "ident ops (the (h_obj h q)) obj"
  shows "\<exists>h' u' cache'. cache_include ops cops True b c p act (Some (observer g)) None h u = Inr (0, h', u') \<and>
    wf_heap ops keyed i cops h' refs \<and> h_cache h' c = Some cache' \<and> map_changed ops obj (act = NL_ACT_NEW) h cache h' cache'"
proof -
  have notin: "p \<notin> set (c_items cache)" using wf_heap_item [OF wf c(1)] p(1,2) by fastforce
  let ?S = "{x \<in> set (c_items cache). \<not> ident ops (the (h_obj h x)) obj}"
  have S: "?S = set (c_items cache) - {q}" by (rule others_differ [OF wf c q p(3)])
  obtain qobj where qo: "h_obj h q = Some qobj" "ce_cache qobj = Some c" "ce_ops qobj = Some i"
    using wf_heap_item [OF wf c(1) q(1)] by (auto simp: wf_obj_def)
  let ?q1 = "qobj\<lparr>ce_refcnt := ce_refcnt qobj + 1\<rparr>"
  let ?h1 = "set_obj q ?q1 h" and ?refs1 = "refs(q := refs q + 1)"
  have s: "nl_cache_search ops c p h = Inr (Some q, ?h1)"
    using search_present [OF wf c p(1,3) q qo(1)] .
  have r: "0 \<le> refs q" using wf_heapD(1) [OF wf qo(1)] by (simp add: wf_obj_def)
  have re: "?refs1(q := ?refs1 q - 1) = refs" by auto
  have pq: "p \<noteq> q" using notin q(1) by blast
  have wf1: "wf_heap ops keyed i cops ?h1 ?refs1" using get_wf(2) [OF wf qo(1)] .
  have h1: "h_obj ?h1 q = Some ?q1" "h_obj ?h1 p = Some obj" using p(1) pq by auto
  have "ident ops ?q1 obj" using ident_contents [of ?q1 qobj obj obj] q(2) qo(1) by simp
  from update_wf [OF wf1 h1 this] obtain err d where
    u: "nl_object_update ops q p ?h1 = Inr (err, set_obj q d ?h1)" "same_place ops keyed kg d ?q1"
      "ce_refcnt d = ce_refcnt ?q1" "wf_heap ops keyed i cops (set_obj q d ?h1) ?refs1"
      "err = 0 \<Longrightarrow> \<exists>f. oo_update (ops i) = Some f \<and> fst (f ?q1 obj) = 0"
    by blast
  let ?h2 = "set_obj q d ?h1"
  have d: "h_obj ?h2 q = Some d" "ce_cache d = Some c" "0 < ?refs1 q"
    using u(2) qo(2) r by (auto simp: same_place_def)
  have inc: "cache_include ops cops True b c p act (Some (observer g)) None h u =
      (if err = 0 then and_then (nl_object_put ops (Some q) ?h2) (\<lambda>h. Inr (0, h, g c q NL_ACT_CHANGE u))
       else and_then (nl_cache_remove ops q ?h2) (\<lambda>h.
         if act = NL_ACT_DEL then and_then (nl_object_put ops (Some q) h) (\<lambda>h. Inr (0, h, g c q NL_ACT_DEL u))
         else and_then (include_new ops cops True (Some (observer g)) None c p (Some q) h u) (\<lambda>(h, u). Inr (0, h, u))))"
    using s qo(3) u(1) act h1
    by (simp add: cache_include_def obj_ops_def notify_observer nl_object_put_def [of _ None] cong: if_cong)
  show ?thesis
  proof (cases "err = 0")
    case True
    then have new: "act = NL_ACT_NEW" using u(5) del act by blast
    let ?h3 = "?h2\<lparr>h_obj := (h_obj ?h2)(q := Some (d\<lparr>ce_refcnt := ce_refcnt d - 1\<rparr>))\<rparr>"
    have put: "nl_object_put ops (Some q) ?h2 = Inr ?h3" "wf_heap ops keyed i cops ?h3 refs"
      using put_wf [OF u(4) d(1,3), unfolded re] d(2) by auto
    have "ident ops (d\<lparr>ce_refcnt := ce_refcnt d - 1\<rparr>) obj = ident ops qobj obj"
      using ident_contents [of "d\<lparr>ce_refcnt := ce_refcnt d - 1\<rparr>" d obj obj] u(2) ident_contents [of ?q1 qobj obj obj]
      by (simp add: same_place_def same_key_def)
    then have "map_changed ops obj True h cache ?h3 cache"
      using S q qo(1) by (intro map_changed_insert [of _ q ?S]) auto
    then show ?thesis using True new inc put c(1) by auto
  next
    case False
    let ?d = "d\<lparr>ce_cache := None, ce_refcnt := refs q + 1\<rparr>"
    have "unlinked ?refs1 q d = Some ?d" using r by (simp add: unlinked_def)
    then obtain h3 cache3 where rm: "nl_cache_remove ops q ?h2 = Inr h3" "wf_heap ops keyed i cops h3 ?refs1"
        "h_cache h3 = (h_cache ?h2)(c \<mapsto> cache3)" "c_items cache3 = remove1 q (c_items cache)"
        "h_obj h3 = (h_obj ?h2)(q \<mapsto> ?d)"
      using remove_wf [OF u(4) d(1,2)] c(1) by auto
    have items: "set (c_items cache3) = ?S"
      using rm(4) S wf_heapD(4) [OF wf c(1)] by (simp add: wf_cache_def)
    have h3: "h_obj h3 q = Some ?d" "h_cache h3 c = Some cache3" "h_obj h3 p = Some obj" "0 < ?refs1 q"
      and oth: "\<And>x. x \<noteq> q \<Longrightarrow> h_obj h3 x = h_obj h x" using rm pq p(1) r by auto
    show ?thesis
    proof (cases "act = NL_ACT_DEL")
      case True
      note pw = put_wf [OF rm(2) h3(1,4), unfolded re]
      have "map_changed ops obj False h cache (h3\<lparr>h_obj := (h_obj h3)(q := x)\<rparr>) cache3" for x
        using items oth S by (intro map_changed_delete [of _ ?S]) auto
      then show ?thesis using True False inc rm(1) pw h3(2) by (auto simp: NL_ACT_DEL_def NL_ACT_NEW_def)
    next
      case nd: False
      have no: "\<forall>x \<in> set (c_items cache3). \<not> ident ops (the (h_obj h3 x)) obj" using items oth S by auto
      note new = include_new_wf [OF rm(2) h3(2,3) p(2,3) no, where old = "Some q" and g = g and u = u,
          unfolded option.case re]
      obtain h' u' cache' obj' where n: "include_new ops cops True (Some (observer g)) None c p (Some q) h3 u = Inr (h', u')"
          "wf_heap ops keyed i cops h' refs" "h_cache h' c = Some cache'" "c_items cache' = c_items cache3 @ [p]"
          "h_obj h' p = Some obj'" "same_contents obj' obj" "\<forall>x. x \<noteq> p \<longrightarrow> x \<noteq> q \<longrightarrow> h_obj h' x = h_obj h3 x"
        using new h3 pq by auto
      have oth': "h_obj h' x = h_obj h x" if x: "x \<in> ?S" for x
      proof -
        have "x \<noteq> p" "x \<noteq> q" using x notin q(2) by auto
        then show ?thesis using n(7) oth by simp
      qed
      have "ce_ops obj' = Some i" using wf_heapD(1) [OF n(2,5)] by (simp add: wf_obj_def)
      then have "ident ops obj' obj"
        using ident_refl ident_contents [OF same_contents_hdr(1) n(6)] keyed_contents [OF n(6)] p(3) by blast
      then have "map_changed ops obj True h cache h' cache'"
        using n(4,5) items oth' by (intro map_changed_insert [of _ p ?S]) auto
      then show ?thesis using nd act False inc rm(1) n(1-3) by auto
    qed
  qed
qed

end

end
