(* ===== verification/Nl_Netconf.thy ===== *)
theory Nl_Netconf
  imports Nl_Cache_Include Nl_Attr
begin

unbundle bit_operations_syntax

text \<open>
  The object type \<open>route/netconf\<close> (\<open>lib/route/netconf.c\<close>): per-interface settings, keyed by address
  family and interface index. It is a small but complete object type, with a parser, a hash
  function, comparison, cloning and in-place update, and shows that the laws of the locale
  \<open>keyed_type\<close> hold of real types.
\<close>

section \<open>Data\<close>

definition NETCONF_ATTR_FAMILY :: int where "NETCONF_ATTR_FAMILY = 1"
definition NETCONF_ATTR_IFINDEX :: int where "NETCONF_ATTR_IFINDEX = 2"
definition NETCONF_ATTR_RP_FILTER :: int where "NETCONF_ATTR_RP_FILTER = 4"
definition NETCONF_ATTR_FWDING :: int where "NETCONF_ATTR_FWDING = 8"
definition NETCONF_ATTR_MC_FWDING :: int where "NETCONF_ATTR_MC_FWDING = 16"
definition NETCONF_ATTR_PROXY_NEIGH :: int where "NETCONF_ATTR_PROXY_NEIGH = 32"
definition NETCONF_ATTR_IGNORE_RT_LINKDWN :: int where "NETCONF_ATTR_IGNORE_RT_LINKDWN = 64"
definition NETCONF_ATTR_INPUT :: int where "NETCONF_ATTR_INPUT = 128"

lemmas netconf_attr_defs = NETCONF_ATTR_FAMILY_def NETCONF_ATTR_IFINDEX_def NETCONF_ATTR_RP_FILTER_def
  NETCONF_ATTR_FWDING_def NETCONF_ATTR_MC_FWDING_def NETCONF_ATTR_PROXY_NEIGH_def
  NETCONF_ATTR_IGNORE_RT_LINKDWN_def NETCONF_ATTR_INPUT_def

record rtnl_netconf =
  nc_family :: int
  nc_ifindex :: int
  nc_rp_filter :: int
  nc_forwarding :: int
  nc_mc_forwarding :: int
  nc_proxy_neigh :: int
  nc_ignore_routes_linkdown :: int
  nc_input :: int

type_synonym netconf_obj = "rtnl_netconf nl_object"

definition RTM_NEWNETCONF :: int where "RTM_NEWNETCONF = 80"
definition RTM_DELNETCONF :: int where "RTM_DELNETCONF = 81"
definition RTM_GETNETCONF :: int where "RTM_GETNETCONF = 82"
definition NETCONFA_MAX :: int where "NETCONFA_MAX = 8"
definition NLA_S32 :: int where "NLA_S32 = 14"

section \<open>The operations of the type\<close>

text \<open>\<open>*dst = *src\<close>, header included.\<close>

definition netconf_clone :: "netconf_obj \<Rightarrow> netconf_obj \<Rightarrow> int \<times> netconf_obj" where
  "netconf_clone dst src = (0, src)"

text \<open>\<open>addr\<close> is the address of the key on the stack; the host is little endian.\<close>

definition netconf_keygen :: "nat \<Rightarrow> netconf_obj \<Rightarrow> int \<Rightarrow> int" where
  "netconf_keygen addr obj table_sz =
     (let nc = ce_data obj; nckey = le_bytes 4 (nc_family nc) @ le_bytes 4 (nc_ifindex nc)
      in uint (nl_hash False False addr nckey 0) mod table_sz)"

definition netconf_compare :: "netconf_obj \<Rightarrow> netconf_obj \<Rightarrow> int \<Rightarrow> int \<Rightarrow> int" where
  "netconf_compare oa ob attrs flags =
     (let a = ce_data oa; b = ce_data ob; d = (\<lambda>attr expr. ATTR_DIFF attrs attr oa ob expr) in
      d NETCONF_ATTR_FAMILY (nc_family a \<noteq> nc_family b) OR
      d NETCONF_ATTR_IFINDEX (nc_ifindex a \<noteq> nc_ifindex b) OR
      d NETCONF_ATTR_RP_FILTER (nc_rp_filter a \<noteq> nc_rp_filter b) OR
      d NETCONF_ATTR_FWDING (nc_forwarding a \<noteq> nc_forwarding b) OR
      d NETCONF_ATTR_MC_FWDING (nc_mc_forwarding a \<noteq> nc_mc_forwarding b) OR
      d NETCONF_ATTR_PROXY_NEIGH (nc_proxy_neigh a \<noteq> nc_proxy_neigh b) OR
      d NETCONF_ATTR_IGNORE_RT_LINKDWN (nc_ignore_routes_linkdown a \<noteq> nc_ignore_routes_linkdown b) OR
      d NETCONF_ATTR_INPUT (nc_input a \<noteq> nc_input b))"

definition netconf_update :: "netconf_obj \<Rightarrow> netconf_obj \<Rightarrow> int \<times> netconf_obj" where
  "netconf_update old new =
     (let o1 = ce_data old; n = ce_data new; m = ce_mask new in
      if ce_msgtype new = RTM_NEWNETCONF then
        if nc_family n \<noteq> nc_family o1 \<or> nc_ifindex n \<noteq> nc_ifindex o1 then (neg_err NLE_OPNOTSUPP, old)
        else
          let o1 = (if m AND NETCONF_ATTR_RP_FILTER \<noteq> 0 then o1\<lparr>nc_rp_filter := nc_rp_filter n\<rparr> else o1);
              o1 = (if m AND NETCONF_ATTR_FWDING \<noteq> 0 then o1\<lparr>nc_forwarding := nc_forwarding n\<rparr> else o1);
              o1 = (if m AND NETCONF_ATTR_MC_FWDING \<noteq> 0 then o1\<lparr>nc_mc_forwarding := nc_mc_forwarding n\<rparr> else o1);
              o1 = (if m AND NETCONF_ATTR_PROXY_NEIGH \<noteq> 0 then o1\<lparr>nc_proxy_neigh := nc_proxy_neigh n\<rparr> else o1);
              o1 = (if m AND NETCONF_ATTR_IGNORE_RT_LINKDWN \<noteq> 0
                    then o1\<lparr>nc_ignore_routes_linkdown := nc_ignore_routes_linkdown n\<rparr> else o1)
          in (0, old\<lparr>ce_data := o1\<rparr>)
      else (neg_err NLE_OPNOTSUPP, old))"

definition netconf_obj_ops :: "nat \<Rightarrow> rtnl_netconf nl_object_ops" where
  "netconf_obj_ops addr =
     \<lparr>oo_name = ''route/netconf'', oo_size = 88, oo_id_attrs = NETCONF_ATTR_FAMILY OR NETCONF_ATTR_IFINDEX,
      oo_zero = \<lparr>nc_family = 0, nc_ifindex = 0, nc_rp_filter = 0, nc_forwarding = 0, nc_mc_forwarding = 0,
        nc_proxy_neigh = 0, nc_ignore_routes_linkdown = 0, nc_input = 0\<rparr>,
      oo_constructor = None, oo_free_data = False, oo_clone = Some netconf_clone,
      oo_compare = Some netconf_compare, oo_update = Some netconf_update,
      oo_keygen = Some (netconf_keygen addr), oo_id_attrs_get = None\<rparr>"

definition rtnl_netconf_ops :: nl_cache_ops where
  "rtnl_netconf_ops =
     \<lparr>co_name = Some ''route/netconf'', co_hdrsize = 1, co_protocol = 0, co_hash_size = 0, co_flags = 0,
      co_groups = Some [(AF_INET, 24), (AF_INET6, 25), (AF_MPLS, 29), (0, 0)], co_obj_ops = Some 0,
      co_msgtypes = [\<lparr>mt_id = RTM_NEWNETCONF, mt_act = NL_ACT_NEW, mt_name = ''new''\<rparr>,
        \<lparr>mt_id = RTM_DELNETCONF, mt_act = NL_ACT_DEL, mt_name = ''del''\<rparr>,
        \<lparr>mt_id = RTM_GETNETCONF, mt_act = 3, mt_name = ''get''\<rparr>,
        \<lparr>mt_id = -1, mt_act = -1, mt_name = []\<rparr>]\<rparr>"

section \<open>Parsing\<close>

definition no_pol :: nla_policy where "no_pol = \<lparr>pol_type = 0, pol_minlen = 0, pol_maxlen = 0\<rparr>"
definition s32_pol :: nla_policy where "s32_pol = \<lparr>pol_type = NLA_S32, pol_minlen = 0, pol_maxlen = 0\<rparr>"

definition devconf_ipv4_policy :: "nla_policy list" where
  "devconf_ipv4_policy = [no_pol, s32_pol, s32_pol, s32_pol, s32_pol, s32_pol, s32_pol, no_pol, no_pol]"

definition devconf_ipv6_policy :: "nla_policy list" where
  "devconf_ipv6_policy = [no_pol, s32_pol, s32_pol, no_pol, s32_pol, s32_pol, s32_pol, no_pol, no_pol]"

definition devconf_mpls_policy :: "nla_policy list" where
  "devconf_mpls_policy = [no_pol, s32_pol, no_pol, no_pol, no_pol, no_pol, no_pol, s32_pol, no_pol]"

definition netconf_policy :: "int \<Rightarrow> nla_policy list option" where
  "netconf_policy fam =
     (if fam = AF_INET then Some devconf_ipv4_policy
      else if fam = AF_INET6 then Some devconf_ipv6_policy
      else if fam = AF_MPLS then Some devconf_mpls_policy
      else None)"

text \<open>One of the blocks \<open>if (tb[...]) { nc->... = nla_get_s32(attr); nc->ce_mask |= ...; }\<close>.\<close>

definition set_attr ::
  "byte list \<Rightarrow> int option \<Rightarrow> int \<Rightarrow> ((int \<Rightarrow> int) \<Rightarrow> rtnl_netconf \<Rightarrow> rtnl_netconf) \<Rightarrow> netconf_obj \<Rightarrow> netconf_obj" where
  "set_attr buf attr flag upd nc =
     (case attr of None \<Rightarrow> nc
      | Some p \<Rightarrow> nc\<lparr>ce_data := upd (\<lambda>_. nla_get_s32 buf p) (ce_data nc), ce_mask := ce_mask nc OR flag\<rparr>)"

text \<open>The object that the parser builds from its table of attributes.\<close>

definition netconf_fill :: "byte list \<Rightarrow> int \<Rightarrow> int \<Rightarrow> int option list \<Rightarrow> int \<Rightarrow> netconf_obj \<Rightarrow> netconf_obj" where
  "netconf_fill buf type fam tb idx nc =
     (let nc = nc\<lparr>ce_msgtype := type,
            ce_data := (ce_data nc)\<lparr>nc_family := fam, nc_ifindex := nla_get_s32 buf idx\<rparr>,
            ce_mask := NETCONF_ATTR_FAMILY OR NETCONF_ATTR_IFINDEX\<rparr>;
          nc = set_attr buf (tb ! 3) NETCONF_ATTR_RP_FILTER nc_rp_filter_update nc;
          nc = set_attr buf (tb ! 2) NETCONF_ATTR_FWDING nc_forwarding_update nc;
          nc = set_attr buf (tb ! 4) NETCONF_ATTR_MC_FWDING nc_mc_forwarding_update nc;
          nc = set_attr buf (tb ! 5) NETCONF_ATTR_PROXY_NEIGH nc_proxy_neigh_update nc;
          nc = set_attr buf (tb ! 6) NETCONF_ATTR_IGNORE_RT_LINKDWN nc_ignore_routes_linkdown_update nc
      in set_attr buf (tb ! 7) NETCONF_ATTR_INPUT nc_input_update nc)"

text \<open>
  The message parser: the message is at \<open>off\<close> in \<open>buf\<close>, \<open>a\<close> is the allocation of the object and
  \<open>pp_cb\<close> the callback that gets it.
\<close>

definition netconf_msg_parser ::
  "nat \<Rightarrow> nat option \<Rightarrow> byte list \<Rightarrow> int \<Rightarrow> (nat \<Rightarrow> rtnl_netconf heap \<Rightarrow> 'u \<Rightarrow> (int \<times> rtnl_netconf heap \<times> 'u) res) \<Rightarrow>
   rtnl_netconf heap \<Rightarrow> 'u \<Rightarrow> (int \<times> rtnl_netconf heap \<times> 'u) res" where
  "netconf_msg_parser addr a buf off pp_cb h u =
     (let fam = le_int (rd buf (nlmsg_data off) 1) in
      case netconf_policy fam of
        None \<Rightarrow> Inr (-1, h, u)
      | Some policy \<Rightarrow>
          (case nlmsg_parse buf off 1 NETCONFA_MAX (Some policy) of
             (_, Inl (Err e)) \<Rightarrow> Inr (neg_err e, h, u)
           | (_, Inl f) \<Rightarrow> Inl f
           | (None, Inr _) \<Rightarrow> Inl Undef
           | (Some tb, Inr _) \<Rightarrow>
               (case tb ! 1 of
                  None \<Rightarrow> Inr (-1, h, u)
                | Some idx \<Rightarrow>
                    and_then (nl_object_alloc (\<lambda>_. netconf_obj_ops addr) a 0 h) (\<lambda>(new, h).
                    case new of
                      None \<Rightarrow> Inr (neg_err NLE_NOMEM, h, u)
                    | Some p \<Rightarrow>
                        and_then (deref (h_obj h) p) (\<lambda>nc.
                        and_then (pp_cb p (set_obj p (netconf_fill buf (nlmsg_type (nlh buf off)) fam tb idx nc) h) u)
                          (\<lambda>(err, h, u).
                        and_then (nl_object_put (\<lambda>_. netconf_obj_ops addr) (Some p) h) (\<lambda>h.
                          Inr (err, h, u))))))))"

section \<open>Access\<close>

text \<open>The getters: \<open>Inl\<close> the error code, \<open>Inr\<close> the value stored through \<open>val\<close>.\<close>

definition netconf_get :: "int \<Rightarrow> (rtnl_netconf \<Rightarrow> int) \<Rightarrow> netconf_obj option \<Rightarrow> int + int" where
  "netconf_get attr f nc =
     (case nc of None \<Rightarrow> Inl (neg_err NLE_INVAL)
      | Some obj \<Rightarrow> if ce_mask obj AND attr = 0 then Inl (neg_err NLE_MISSING_ATTR) else Inr (f (ce_data obj)))"

definition rtnl_netconf_get_family :: "netconf_obj option \<Rightarrow> int + int" where
  "rtnl_netconf_get_family nc = netconf_get NETCONF_ATTR_FAMILY nc_family nc"

definition rtnl_netconf_get_ifindex :: "netconf_obj option \<Rightarrow> int + int" where
  "rtnl_netconf_get_ifindex nc = netconf_get NETCONF_ATTR_IFINDEX nc_ifindex nc"

definition rtnl_netconf_get_forwarding :: "netconf_obj option \<Rightarrow> int + int" where
  "rtnl_netconf_get_forwarding nc = netconf_get NETCONF_ATTR_FWDING nc_forwarding nc"

definition rtnl_netconf_get_mc_forwarding :: "netconf_obj option \<Rightarrow> int + int" where
  "rtnl_netconf_get_mc_forwarding nc = netconf_get NETCONF_ATTR_MC_FWDING nc_mc_forwarding nc"

definition rtnl_netconf_get_rp_filter :: "netconf_obj option \<Rightarrow> int + int" where
  "rtnl_netconf_get_rp_filter nc = netconf_get NETCONF_ATTR_RP_FILTER nc_rp_filter nc"

definition rtnl_netconf_get_proxy_neigh :: "netconf_obj option \<Rightarrow> int + int" where
  "rtnl_netconf_get_proxy_neigh nc = netconf_get NETCONF_ATTR_PROXY_NEIGH nc_proxy_neigh nc"

definition rtnl_netconf_get_ignore_routes_linkdown :: "netconf_obj option \<Rightarrow> int + int" where
  "rtnl_netconf_get_ignore_routes_linkdown nc = netconf_get NETCONF_ATTR_IGNORE_RT_LINKDWN nc_ignore_routes_linkdown nc"

definition rtnl_netconf_get_input :: "netconf_obj option \<Rightarrow> int + int" where
  "rtnl_netconf_get_input nc = netconf_get NETCONF_ATTR_INPUT nc_input nc"

text \<open>The comparison of \<open>c_ops\<close> with \<open>&rtnl_netconf_ops\<close> is one of indices into the table of cache
  types, where it has index \<open>nc\<close>.\<close>

definition rtnl_netconf_get_by_idx ::
  "nat \<Rightarrow> nat \<Rightarrow> int \<Rightarrow> int \<Rightarrow> rtnl_netconf heap \<Rightarrow> (nat option \<times> rtnl_netconf heap) res" where
  "rtnl_netconf_get_by_idx nc c fam idx h =
     and_then (deref (h_cache h) c) (\<lambda>cache.
       if idx = 0 \<or> fam = 0 \<or> c_ops cache \<noteq> nc then Inr (None, h)
       else search_list (\<lambda>obj. Inr (nc_ifindex (ce_data obj) = idx \<and> nc_family (ce_data obj) = fam))
              (c_items cache) h)"

definition rtnl_netconf_get_all ::
  "nat \<Rightarrow> nat \<Rightarrow> int \<Rightarrow> rtnl_netconf heap \<Rightarrow> (nat option \<times> rtnl_netconf heap) res" where
  "rtnl_netconf_get_all nc c fam h = rtnl_netconf_get_by_idx nc c fam (-1) h"

definition rtnl_netconf_get_default ::
  "nat \<Rightarrow> nat \<Rightarrow> int \<Rightarrow> rtnl_netconf heap \<Rightarrow> (nat option \<times> rtnl_netconf heap) res" where
  "rtnl_netconf_get_default nc c fam h = rtnl_netconf_get_by_idx nc c fam (-2) h"

section \<open>The laws of object types\<close>

definition nc_keyed :: "netconf_obj \<Rightarrow> bool" where
  "nc_keyed obj \<longleftrightarrow> ce_mask obj AND 3 = 3"

lemma keyed_bits:
  assumes "(m::int) AND 3 = 3"
  shows "m AND 1 = 1" "m AND 2 = 2"
proof -
  have "m AND 1 = (m AND 3) AND 1" "m AND 2 = (m AND 3) AND 2" by (simp_all add: and.assoc)
  then show "m AND 1 = 1" "m AND 2 = 2" using assms by simp_all
qed

lemma xor_and: "((x::int) XOR y) AND z = (x AND z) XOR (y AND z)"
  by (rule bit_eqI) (auto simp: bit_simps)

text \<open>With both keys present, the identifying attributes differ exactly if the keys do.\<close>

lemma netconf_compare_id:
  assumes "nc_keyed a" "nc_keyed b"
  shows "netconf_compare a b 3 f = 0 \<longleftrightarrow>
    nc_family (ce_data a) = nc_family (ce_data b) \<and> nc_ifindex (ce_data a) = nc_ifindex (ce_data b)"
  using keyed_bits [OF assms(1) [unfolded nc_keyed_def]] keyed_bits [OF assms(2) [unfolded nc_keyed_def]]
  by (simp add: netconf_compare_def Let_def ATTR_DIFF_def ATTR_MISMATCH_def AVAILABLE_def AVAILABLE_MISMATCH_def
      netconf_attr_defs xor_and and.assoc)

lemma netconf_ident:
  "ident (\<lambda>_. netconf_obj_ops addr) a b \<longleftrightarrow> (\<exists>j. ce_ops a = Some j \<and> ce_ops b = Some j) \<and> nc_keyed a \<and> nc_keyed b \<and>
     nc_family (ce_data a) = nc_family (ce_data b) \<and> nc_ifindex (ce_data a) = nc_ifindex (ce_data b)"
proof -
  have r: "req_attrs (netconf_obj_ops addr) a b = Some 3"
    by (simp add: req_attrs_def netconf_obj_ops_def netconf_attr_defs)
  have c: "oo_compare (netconf_obj_ops addr) = Some netconf_compare" by (simp add: netconf_obj_ops_def)
  show ?thesis
    using netconf_compare_id [of a b ID_COMPARISON]
    by (auto simp: ident_def nl_object_identical_def obj_ops_def r c nc_keyed_def split: option.splits)
qed

interpretation netconf: keyed_type "\<lambda>_. netconf_obj_ops addr" 0 nc_keyed "netconf_keygen addr"
proof
  show "oo_keygen (netconf_obj_ops addr) = Some (netconf_keygen addr)" by (simp add: netconf_obj_ops_def)
qed (auto simp: netconf_ident netconf_keygen_def Let_def same_contents_def nc_keyed_def)

text \<open>An update keeps the keys, the mask and the header.\<close>

lemma netconf_update_keeps:
  "same_place (\<lambda>_. netconf_obj_ops addr) nc_keyed (netconf_keygen addr) (snd (netconf_update a b)) a"
  "ce_refcnt (snd (netconf_update a b)) = ce_refcnt a"
proof -
  define a' where "a' = snd (netconf_update a b)"
  have k: "nc_family (ce_data a') = nc_family (ce_data a)" "nc_ifindex (ce_data a') = nc_ifindex (ce_data a)"
    "ce_mask a' = ce_mask a" "ce_ops a' = ce_ops a" "ce_cache a' = ce_cache a" "ce_linked a' = ce_linked a"
    "ce_refcnt a' = ce_refcnt a"
    by (simp_all add: a'_def netconf_update_def Let_def)
  then show "ce_refcnt (snd (netconf_update a b)) = ce_refcnt a" by (simp add: a'_def)
  have "same_place (\<lambda>_. netconf_obj_ops addr) nc_keyed (netconf_keygen addr) a' a"
    using k by (simp add: same_place_def same_key_def netconf_ident nc_keyed_def netconf_keygen_def Let_def)
  then show "same_place (\<lambda>_. netconf_obj_ops addr) nc_keyed (netconf_keygen addr) (snd (netconf_update a b)) a"
    by (simp add: a'_def)
qed

interpretation netconf: updatable_type "\<lambda>_. netconf_obj_ops addr" 0 nc_keyed "netconf_keygen addr"
proof
  show "same_place (\<lambda>_. netconf_obj_ops addr) nc_keyed (netconf_keygen addr) (snd (f a b)) a \<and>
      ce_refcnt (snd (f a b)) = ce_refcnt a" if "oo_update (netconf_obj_ops addr) = Some f" for f a b
    using that netconf_update_keeps by (auto simp: netconf_obj_ops_def)
qed

text \<open>An object that is updated in place stays marked.\<close>

lemma netconf_update_keeps_mark: "nl_object_is_marked (snd (netconf_update old new)) = nl_object_is_marked old"
  by (simp add: netconf_update_def nl_object_is_marked_def Let_def)

section \<open>Properties\<close>

text \<open>A newly allocated object, and what a getter should return for an attribute.\<close>

definition new_netconf :: "nat \<Rightarrow> netconf_obj" where
  "new_netconf addr = \<lparr>ce_refcnt = 1, ce_ops = Some 0, ce_cache = None, ce_linked = False, ce_msgtype = 0,
    ce_flags = 0, ce_mask = 0, ce_data = oo_zero (netconf_obj_ops addr)\<rparr>"

definition attr_value :: "byte list \<Rightarrow> int option \<Rightarrow> int + int" where
  "attr_value buf at = (case at of None \<Rightarrow> Inl (neg_err NLE_MISSING_ATTR) | Some p \<Rightarrow> Inr (nla_get_s32 buf p))"

lemma set_attr_mask: "ce_mask (set_attr buf at flag upd nc) = ce_mask nc OR (if at = None then 0 else flag)"
  by (simp add: set_attr_def split: option.split)

lemma set_attr_data:
  "ce_data (set_attr buf at flag upd nc) =
    (if at = None then ce_data nc else upd (\<lambda>_. nla_get_s32 buf (the at)) (ce_data nc))"
  by (simp add: set_attr_def split: option.split)

lemma and_if: "(if c then 0 else a) AND (b::int) = (if c then 0 else a AND b)"
  by simp

text \<open>
  What the parser stores the getters return: for the object that \<open>netconf_msg_parser\<close> builds in
  a newly allocated object, each getter of an optional setting returns the value of its attribute
  if the message has the attribute and \<open>-NLE_MISSING_ATTR\<close> otherwise; family and interface index
  are always set, so that the object has its keys.
\<close>

theorem netconf_getters_return_attributes:
  "let nc = netconf_fill buf type fam tb idx (new_netconf addr) in
    nc_keyed nc \<and>
    rtnl_netconf_get_family (Some nc) = Inr fam \<and> rtnl_netconf_get_ifindex (Some nc) = Inr (nla_get_s32 buf idx) \<and>
    rtnl_netconf_get_forwarding (Some nc) = attr_value buf (tb ! 2) \<and> rtnl_netconf_get_rp_filter (Some nc) = attr_value buf (tb ! 3) \<and>
    rtnl_netconf_get_mc_forwarding (Some nc) = attr_value buf (tb ! 4) \<and> rtnl_netconf_get_proxy_neigh (Some nc) = attr_value buf (tb ! 5) \<and>
    rtnl_netconf_get_ignore_routes_linkdown (Some nc) = attr_value buf (tb ! 6) \<and> rtnl_netconf_get_input (Some nc) = attr_value buf (tb ! 7)"
proof -
  define nc where "nc = netconf_fill buf type fam tb idx (new_netconf addr)"
  have m: "ce_mask nc AND 1 = 1" "ce_mask nc AND 2 = 2" "ce_mask nc AND 3 = 3"
    "ce_mask nc AND 4 = (if tb ! 3 = None then 0 else 4)" "ce_mask nc AND 8 = (if tb ! 2 = None then 0 else 8)"
    "ce_mask nc AND 16 = (if tb ! 4 = None then 0 else 16)" "ce_mask nc AND 32 = (if tb ! 5 = None then 0 else 32)"
    "ce_mask nc AND 64 = (if tb ! 6 = None then 0 else 64)" "ce_mask nc AND 128 = (if tb ! 7 = None then 0 else 128)"
    by (simp_all add: nc_def netconf_fill_def set_attr_mask netconf_attr_defs Let_def new_netconf_def bit.conj_disj_distrib2 and_if)
  have d: "nc_family (ce_data nc) = fam" "nc_ifindex (ce_data nc) = nla_get_s32 buf idx"
    "tb ! 2 = Some p \<Longrightarrow> nc_forwarding (ce_data nc) = nla_get_s32 buf p"
    "tb ! 3 = Some p \<Longrightarrow> nc_rp_filter (ce_data nc) = nla_get_s32 buf p"
    "tb ! 4 = Some p \<Longrightarrow> nc_mc_forwarding (ce_data nc) = nla_get_s32 buf p"
    "tb ! 5 = Some p \<Longrightarrow> nc_proxy_neigh (ce_data nc) = nla_get_s32 buf p"
    "tb ! 6 = Some p \<Longrightarrow> nc_ignore_routes_linkdown (ce_data nc) = nla_get_s32 buf p"
    "tb ! 7 = Some p \<Longrightarrow> nc_input (ce_data nc) = nla_get_s32 buf p" for p
    by (simp_all add: nc_def netconf_fill_def set_attr_data Let_def)
  have "nc_keyed nc" using m by (simp add: nc_keyed_def)
  moreover have "rtnl_netconf_get_family (Some nc) = Inr fam" "rtnl_netconf_get_ifindex (Some nc) = Inr (nla_get_s32 buf idx)"
    using m d(1,2) by (simp_all add: rtnl_netconf_get_family_def rtnl_netconf_get_ifindex_def netconf_get_def netconf_attr_defs)
  moreover have "rtnl_netconf_get_forwarding (Some nc) = attr_value buf (tb ! 2)" "rtnl_netconf_get_rp_filter (Some nc) = attr_value buf (tb ! 3)"
      "rtnl_netconf_get_mc_forwarding (Some nc) = attr_value buf (tb ! 4)" "rtnl_netconf_get_proxy_neigh (Some nc) = attr_value buf (tb ! 5)"
      "rtnl_netconf_get_ignore_routes_linkdown (Some nc) = attr_value buf (tb ! 6)" "rtnl_netconf_get_input (Some nc) = attr_value buf (tb ! 7)"
    using m d(3-)
    by (simp_all add: rtnl_netconf_get_forwarding_def rtnl_netconf_get_rp_filter_def rtnl_netconf_get_mc_forwarding_def
        rtnl_netconf_get_proxy_neigh_def rtnl_netconf_get_ignore_routes_linkdown_def rtnl_netconf_get_input_def
        netconf_get_def netconf_attr_defs attr_value_def split: option.split)
  ultimately show ?thesis by (simp add: nc_def Let_def)
qed

end
