(* ===== verification/Nl_Addr.thy ===== *)
theory Nl_Addr
  imports Nl_Mpls Nl_Utils Nl_Attr
begin

unbundle bit_operations_syntax

text \<open>
  Abstract data (\<open>lib/data.c\<close>) and abstract addresses (\<open>lib/addr.c\<close>). An address has a family, room
  for a binary address (\<open>a_addr\<close>, \<open>a_maxsize\<close> bytes) of which \<open>a_len\<close> bytes are in use, and a prefix
  length. \<open>inet_pton\<close>, \<open>inet_ntop\<close>, \<open>getaddrinfo\<close> and \<open>getnameinfo\<close> are parameters. Results of
  \<open>malloc\<close>, \<open>calloc\<close> and \<open>strdup\<close> are boolean arguments.
\<close>

section \<open>Abstract data\<close>

record nl_data =
  d_size :: int
  d_data :: "byte list"

text \<open>\<open>buf\<close> is \<open>None\<close> for a null pointer.\<close>

definition nl_data_alloc :: "bool \<Rightarrow> bool \<Rightarrow> byte list option \<Rightarrow> int \<Rightarrow> nl_data option" where
  "nl_data_alloc a1 a2 buf sz =
     (if \<not> a1 then None
      else if \<not> a2 then None
      else Some \<lparr>d_size = sz, d_data = (case buf of None \<Rightarrow> zeros sz | Some b \<Rightarrow> rd b 0 sz)\<rparr>)"

definition nl_data_alloc_attr :: "bool \<Rightarrow> bool \<Rightarrow> byte list \<Rightarrow> int \<Rightarrow> nl_data option" where
  "nl_data_alloc_attr a1 a2 buf nla =
     nl_data_alloc a1 a2 (Some (drop (nat (nla_data nla)) buf)) (nla_len buf nla)"

definition nl_data_clone :: "bool \<Rightarrow> bool \<Rightarrow> nl_data \<Rightarrow> nl_data option" where
  "nl_data_clone a1 a2 src = nl_data_alloc a1 a2 (Some (d_data src)) (d_size src)"

definition nl_data_append :: "bool \<Rightarrow> nl_data \<Rightarrow> byte list option \<Rightarrow> int \<Rightarrow> int \<times> nl_data" where
  "nl_data_append a data buf sz =
     (if sz > 0 then
        if \<not> a then (neg_err NLE_NOMEM, data)
        else (0, data\<lparr>d_data := d_data data @ (case buf of None \<Rightarrow> zeros sz | Some b \<Rightarrow> rd b 0 sz),
                      d_size := d_size data + sz\<rparr>)
      else (0, data))"

definition nl_data_get :: "nl_data \<Rightarrow> byte list option" where
  "nl_data_get data = (if d_size data > 0 then Some (d_data data) else None)"

definition nl_data_get_size :: "nl_data \<Rightarrow> int" where
  "nl_data_get_size data = d_size data"

text \<open>The comparison reads \<open>d_size a\<close> bytes of both.\<close>

definition nl_data_cmp :: "nl_data \<Rightarrow> nl_data \<Rightarrow> int res" where
  "nl_data_cmp a b =
     (case (nl_data_get a, nl_data_get b) of
        (Some x, Some y) \<Rightarrow>
          if d_size a > blen y then Inl Undef
          else Inr (memcmp_bytes (rd x 0 (d_size a)) (rd y 0 (d_size a)))
      | _ \<Rightarrow> Inr (-1))"

section \<open>DECnet addresses\<close>

text \<open>On a little-endian host the conversion is the identity.\<close>

definition dn_ntohs :: "int \<Rightarrow> int" where
  "dn_ntohs addr = (case le_bytes 2 addr of [b0, b1] \<Rightarrow> uint b0 OR push_bit 8 (uint b1) | _ \<Rightarrow> 0)"

text \<open>The state of the printer: buffer, position, what is left of the number, whether a digit has been
  written. \<open>None\<close> is the result 1: the buffer is full.\<close>

type_synonym dnet_state = "string \<times> nat \<times> int \<times> bool"

definition do_digit :: "int \<Rightarrow> nat \<Rightarrow> dnet_state \<Rightarrow> dnet_state option" where
  "do_digit scale len st =
     (case st of (str, pos, addr, started) \<Rightarrow>
        let tmp = addr div scale in
        if pos = len then None
        else if tmp > 0 \<or> started \<or> scale = 1
        then Some (put_at pos [char_of (nat (tmp + 48))] str, pos + 1, u16 (addr - tmp * scale), True)
        else Some st)"

text \<open>A sequence of calls that ends at the first failure: the state and whether all succeeded.\<close>

fun do_digits :: "int list \<Rightarrow> nat \<Rightarrow> dnet_state \<Rightarrow> dnet_state \<times> bool" where
  "do_digits [] len st = (st, True)"
| "do_digits (scale # scales) len st =
     (case do_digit scale len st of None \<Rightarrow> (st, False) | Some st \<Rightarrow> do_digits scales len st)"

definition dnet_ntop :: "byte list \<Rightarrow> int \<Rightarrow> string \<Rightarrow> nat \<Rightarrow> string" where
  "dnet_ntop addrbuf addrlen str len =
     (let addr = dn_ntohs (le_int (rd addrbuf 0 2)); area = drop_bit 10 addr in
      if addrlen \<noteq> 2 then str
      else
        let addr = addr AND 0x3FF in
        if len = 0 then str
        else case do_digits [10, 1] len (str, 0, area, False) of
          ((str, pos, _, _), ok) \<Rightarrow>
            if \<not> ok \<or> pos = len then str
            else
              let str = put_at pos ''.'' str; pos = pos + 1 in
              case do_digits [1000, 100, 10, 1] len (str, pos, addr, False) of
                ((str, pos, _, _), ok) \<Rightarrow>
                  if \<not> ok \<or> pos = len then str else put_at pos [CHR 0x00] str)"

text \<open>Number of digits and their value.\<close>

fun dnet_num_loop :: "string \<Rightarrow> int \<Rightarrow> int \<Rightarrow> int \<times> int" where
  "dnet_num_loop [] rv dst = (rv, dst)"
| "dnet_num_loop (c # src) rv dst =
     (let tmp = int (of_char c) - 48 in
      if tmp < 0 \<or> tmp > 9 then (rv, dst)
      else dnet_num_loop src (rv + 1) (u16 (u16 (dst * 10) + tmp)))"

definition dnet_num :: "string \<Rightarrow> int \<times> int" where
  "dnet_num src = dnet_num_loop src 0 0"

definition dnet_pton :: "string \<Rightarrow> byte list option" where
  "dnet_pton src =
     (case dnet_num src of (pos, area) \<Rightarrow>
        if pos = 0 \<or> area > 63 \<or> nat pos \<ge> length src \<or> (src ! nat pos \<noteq> CHR ''.'' \<and> src ! nat pos \<noteq> CHR '','')
        then None
        else case dnet_num (drop (nat pos + 1) src) of (pos, node) \<Rightarrow>
          if pos = 0 \<or> node > 1023 then None
          else Some (le_bytes 2 (dn_ntohs (push_bit 10 area OR node))))"

section \<open>Creating addresses\<close>

record nl_addr =
  a_family :: int
  a_maxsize :: int
  a_len :: int
  a_prefixlen :: int
  a_refcnt :: int
  a_addr :: "byte list"

definition nl_addr_alloc :: "bool \<Rightarrow> int \<Rightarrow> nl_addr option" where
  "nl_addr_alloc a maxsize =
     (if \<not> a then None
      else Some \<lparr>a_family = 0, a_maxsize = u32 maxsize, a_len = 0, a_prefixlen = 0, a_refcnt = 1,
                 a_addr = zeros maxsize\<rparr>)"

definition nl_addr_build :: "bool \<Rightarrow> int \<Rightarrow> byte list \<Rightarrow> int \<Rightarrow> nl_addr option" where
  "nl_addr_build a family buf sz =
     (case nl_addr_alloc a sz of
        None \<Rightarrow> None
      | Some addr \<Rightarrow>
          let addr = addr\<lparr>a_family := family, a_len := u32 sz,
                          a_prefixlen := (if family = AF_MPLS then 20 else s32 (sz * 8))\<rparr> in
          if sz \<noteq> 0 then Some (addr\<lparr>a_addr := wr (a_addr addr) 0 (rd buf 0 sz)\<rparr>) else Some addr)"

definition nl_addr_alloc_attr :: "bool \<Rightarrow> byte list \<Rightarrow> int \<Rightarrow> int \<Rightarrow> nl_addr option" where
  "nl_addr_alloc_attr a buf nla family =
     nl_addr_build a family (drop (nat (nla_data nla)) buf) (nla_len buf nla)"

definition nl_addr_clone :: "bool \<Rightarrow> nl_addr \<Rightarrow> nl_addr option" where
  "nl_addr_clone a addr =
     map_option (\<lambda>new. new\<lparr>a_prefixlen := a_prefixlen addr\<rparr>)
       (nl_addr_build a (a_family addr) (a_addr addr) (a_len addr))"

definition nl_addr_get :: "nl_addr \<Rightarrow> nl_addr" where
  "nl_addr_get addr = addr\<lparr>a_refcnt := a_refcnt addr + 1\<rparr>"

definition addr_destroy :: "nl_addr option \<Rightarrow> unit res" where
  "addr_destroy addr =
     (case addr of None \<Rightarrow> Inr () | Some a \<Rightarrow> if a_refcnt a \<noteq> 1 then Inl Bug else Inr ())"

text \<open>\<open>None\<close> if the address has been freed.\<close>

definition nl_addr_put :: "nl_addr option \<Rightarrow> nl_addr option res" where
  "nl_addr_put addr =
     (case addr of None \<Rightarrow> Inr None
      | Some a \<Rightarrow>
          if a_refcnt a = 1 then and_then (addr_destroy addr) (\<lambda>_. Inr None)
          else Inr (Some (a\<lparr>a_refcnt := a_refcnt a - 1\<rparr>)))"

definition nl_addr_shared :: "nl_addr \<Rightarrow> bool" where
  "nl_addr_shared addr \<longleftrightarrow> a_refcnt addr > 1"

definition nl_addr_set_family :: "nl_addr \<Rightarrow> int \<Rightarrow> nl_addr" where
  "nl_addr_set_family addr family = addr\<lparr>a_family := family\<rparr>"

definition nl_addr_get_family :: "nl_addr \<Rightarrow> int" where
  "nl_addr_get_family addr = a_family addr"

definition nl_addr_set_binary_addr :: "nl_addr \<Rightarrow> byte list \<Rightarrow> int \<Rightarrow> int \<times> nl_addr" where
  "nl_addr_set_binary_addr addr buf len =
     (if len > a_maxsize addr then (neg_err NLE_RANGE, addr)
      else
        let addr = addr\<lparr>a_len := len, a_addr := wr (a_addr addr) 0 (zeros (a_maxsize addr))\<rparr> in
        if len \<noteq> 0 then (0, addr\<lparr>a_addr := wr (a_addr addr) 0 (rd buf 0 len)\<rparr>) else (0, addr))"

definition nl_addr_get_binary_addr :: "nl_addr \<Rightarrow> byte list" where
  "nl_addr_get_binary_addr addr = a_addr addr"

definition nl_addr_get_len :: "nl_addr \<Rightarrow> int" where
  "nl_addr_get_len addr = a_len addr"

definition nl_addr_set_prefixlen :: "nl_addr \<Rightarrow> int \<Rightarrow> nl_addr" where
  "nl_addr_set_prefixlen addr prefixlen = addr\<lparr>a_prefixlen := s32 prefixlen\<rparr>"

definition nl_addr_get_prefixlen :: "nl_addr \<Rightarrow> int" where
  "nl_addr_get_prefixlen addr = u32 (a_prefixlen addr)"

section \<open>Parsing\<close>

text \<open>
  The conversion \<open>%02x\<close> of \<open>sscanf\<close>: white space, then the longest sequence of at most two
  characters that begins a hexadecimal number with optional sign and \<open>0x\<close>; it fails unless that
  sequence is a number.
\<close>

definition scan_x2 :: "string \<Rightarrow> (int \<times> string) option" where
  "scan_x2 s =
     (case dropWhile isspace s of
        [] \<Rightarrow> None
      | c # cs \<Rightarrow>
          if c = CHR ''-'' \<or> c = CHR ''+'' then
            (case cs of [] \<Rightarrow> None
             | d # ds \<Rightarrow>
                 if digit_val d < 16
                 then Some (if c = CHR ''-'' then u32 (- int (digit_val d)) else int (digit_val d), ds)
                 else None)
          else if digit_val c < 16 then
            (case cs of [] \<Rightarrow> Some (int (digit_val c), [])
             | d # ds \<Rightarrow>
                 if digit_val d < 16 then Some (int (digit_val c * 16 + digit_val d), ds)
                 else if c = CHR ''0'' \<and> tolower d = CHR ''x'' then None
                 else Some (int (digit_val c), cs))
          else None)"

text \<open>\<open>n + 1\<close> such numbers with colons between them, stored as \<open>unsigned char\<close>s.\<close>

fun scan_hex_fields :: "nat \<Rightarrow> string \<Rightarrow> byte list option" where
  "scan_hex_fields 0 s = (case scan_x2 s of None \<Rightarrow> None | Some (v, _) \<Rightarrow> Some [word_of_int v])"
| "scan_hex_fields (Suc n) s =
     (case scan_x2 s of
        Some (v, c # rest) \<Rightarrow>
          if c = CHR '':'' then map_option (\<lambda>bs. word_of_int v # bs) (scan_hex_fields n rest) else None
      | _ \<Rightarrow> None)"

text \<open>The loop over \<open>HH:HH:...\<close> of any length up to the 256 bytes of the buffer. The character after
  each number is skipped, whatever it is.\<close>

lemma strtol_shorter: "strtol base s = Some (v, rest) \<Longrightarrow> length rest < length s"
  using strtoul_shorter [of base s _ rest] by (auto simp: strtol_def strtoul_def split: option.splits)

function parse_hex_bytes :: "string \<Rightarrow> byte list \<Rightarrow> byte list option" where
  "parse_hex_bytes s buf =
     (case strtol 16 s of
        None \<Rightarrow> None
      | Some (l, p) \<Rightarrow>
          if l > 255 \<or> length buf \<ge> 256 then None
          else
            let buf = buf @ [word_of_int l] in
            if p = [] then Some buf else parse_hex_bytes (tl p) buf)"
  by pat_completeness auto

termination
  by (relation "measure (\<lambda>(s, buf). length s)") (auto dest!: strtol_shorter)

declare parse_hex_bytes.simps [simp del]

text \<open>
  The recognition of the formats: family, binary address (\<open>None\<close> if it is not copied) and prefix
  length (0 if it follows from the length).
\<close>

type_synonym parsed = "int \<times> byte list option \<times> int"

definition parse_special :: "int \<Rightarrow> nle + parsed" where
  "parse_special hint =
     (if hint = AF_INET \<or> hint = AF_UNSPEC then Inr (AF_INET, None, 0)
      else if hint = AF_INET6 then Inr (AF_INET6, None, 0)
      else if hint = AF_LLC then Inr (AF_LLC, None, 0)
      else Inl NLE_AF_NOSUPPORT)"

text \<open>\<open>try\<close> is one of the blocks: the next format is tried unless the hint asks for this one.\<close>

definition try_format :: "bool \<Rightarrow> byte list option \<Rightarrow> int \<Rightarrow> bool \<Rightarrow> (nle + parsed) \<Rightarrow> nle + parsed" where
  "try_format applies bytes family only next =
     (if applies then
        case bytes of Some b \<Rightarrow> Inr (family, Some b, 0)
        | None \<Rightarrow> if only then Inl NLE_NOADDR else next
      else next)"

definition parse_addr ::
  "(int \<Rightarrow> string \<Rightarrow> byte list option) \<Rightarrow> int \<Rightarrow> string \<Rightarrow> nle + parsed" where
  "parse_addr inet_pton hint str =
     (if strcaseeq str ''none'' then Inr (hint, None, 0)
      else if strcaseeq str ''default'' \<or> strcaseeq str ''all'' \<or> strcaseeq str ''any'' then parse_special hint
      else
        try_format (hint = AF_INET \<or> hint = AF_UNSPEC) (inet_pton AF_INET str) AF_INET (hint = AF_INET)
       (try_format (hint = AF_INET6 \<or> hint = AF_UNSPEC) (inet_pton AF_INET6 str) AF_INET6 (hint = AF_INET6)
       (try_format ((hint = AF_LLC \<or> hint = AF_UNSPEC) \<and> CHR '':'' \<in> set str) (scan_hex_fields 5 str) AF_LLC (hint = AF_LLC)
       (try_format ((hint = AF_DECnet \<or> hint = AF_UNSPEC) \<and> (CHR ''.'' \<in> set str \<or> CHR '','' \<in> set str))
          (dnet_pton str) AF_DECnet (hint = AF_DECnet)
       (if hint = AF_MPLS then
          case mpls_pton AF_MPLS str 256 of
            Inr (Some b) \<Rightarrow> Inr (AF_MPLS, Some b, 20)
          | _ \<Rightarrow> Inl NLE_INVAL
        else if hint = AF_UNSPEC \<and> CHR '':'' \<in> set str then
          case parse_hex_bytes str [] of
            Some b \<Rightarrow> Inr (AF_UNSPEC, Some b, 0)
          | None \<Rightarrow> Inl NLE_INVAL
        else Inl NLE_NOADDR)))))"

text \<open>The address string up to a slash, and what follows it.\<close>

definition split_prefix :: "int \<Rightarrow> string \<Rightarrow> string \<times> string option" where
  "split_prefix hint s =
     (if hint \<noteq> AF_MPLS \<and> CHR ''/'' \<in> set s
      then (takeWhile (\<lambda>c. c \<noteq> CHR ''/'') s, Some (tl (dropWhile (\<lambda>c. c \<noteq> CHR ''/'') s)))
      else (s, None))"

definition nl_addr_parse ::
  "(int \<Rightarrow> string \<Rightarrow> byte list option) \<Rightarrow> bool \<Rightarrow> bool \<Rightarrow> string \<Rightarrow> int \<Rightarrow> nl_addr res" where
  "nl_addr_parse inet_pton a1 a2 addrstr hint =
     (if \<not> a1 then Inl (Err NLE_NOMEM)
      else case split_prefix hint addrstr of (str, prefix) \<Rightarrow>
        case parse_addr inet_pton hint str of
          Inl e \<Rightarrow> Inl (Err e)
        | Inr (family, bytes, plen) \<Rightarrow>
            let len = (case bytes of None \<Rightarrow> 0 | Some b \<Rightarrow> blen b) in
            case nl_addr_alloc a2 len of
              None \<Rightarrow> Inl (Err NLE_NOMEM)
            | Some addr \<Rightarrow>
                let addr = nl_addr_set_family addr family;
                    addr = (case bytes of None \<Rightarrow> addr | Some b \<Rightarrow> snd (nl_addr_set_binary_addr addr b len)) in
                case prefix of
                  Some p \<Rightarrow>
                    (case strtol 0 p of
                       None \<Rightarrow> and_then (addr_destroy (Some addr)) (\<lambda>_. Inl (Err NLE_INVAL))
                     | Some (pl, _) \<Rightarrow> Inr (nl_addr_set_prefixlen addr pl))
                | None \<Rightarrow> Inr (nl_addr_set_prefixlen addr (if plen = 0 then len * 8 else plen)))"

text \<open>All conversions of the format \<open>%*02x:...\<close> are suppressed, so that \<open>sscanf\<close> counts none of them; at
  the end of the input it returns \<open>EOF\<close>.\<close>

definition scan_suppressed :: "string \<Rightarrow> int" where
  "scan_suppressed s = (if dropWhile isspace s = [] then -1 else 0)"

definition nl_addr_valid :: "(int \<Rightarrow> string \<Rightarrow> byte list option) \<Rightarrow> string \<Rightarrow> int \<Rightarrow> bool" where
  "nl_addr_valid inet_pton addr family \<longleftrightarrow>
     (if family = AF_INET \<or> family = AF_INET6 then inet_pton family addr \<noteq> None
      else if family = AF_MPLS then (case mpls_pton family addr 256 of Inr (Some _) \<Rightarrow> True | _ \<Rightarrow> False)
      else if family = AF_DECnet then dnet_pton addr \<noteq> None
      else if family = AF_LLC then scan_suppressed addr = 6
      else True)"

section \<open>Comparing\<close>

text \<open>Pointers may be null; \<open>same\<close> says whether they are equal.\<close>

definition nl_addr_cmp :: "bool \<Rightarrow> nl_addr option \<Rightarrow> nl_addr option \<Rightarrow> int" where
  "nl_addr_cmp same a b =
     (if same then 0
      else case (a, b) of
        (None, _) \<Rightarrow> -1
      | (_, None) \<Rightarrow> 1
      | (Some a, Some b) \<Rightarrow>
          let d = a_family a - a_family b in
          if d = 0 then
            let d = s32 (a_len a - a_len b) in
            if a_len a \<noteq> 0 \<and> d = 0 then
              let d = memcmp_bytes (rd (a_addr a) 0 (a_len a)) (rd (a_addr b) 0 (a_len a)) in
              if d = 0 then a_prefixlen a - a_prefixlen b else d
            else d
          else d)"

text \<open>
  Prefixes: \<open>memcmp\<close> and the access to the last byte are undefined outside either buffer, and so is the shift by a
  negative number.
\<close>

definition nl_addr_cmp_prefix :: "nl_addr \<Rightarrow> nl_addr \<Rightarrow> int res" where
  "nl_addr_cmp_prefix a b =
     (let d = a_family a - a_family b in
      if d = 0 then
        let len = min (a_prefixlen a) (a_prefixlen b);
            bytes = c_div len 8;
            rest = len - 8 * bytes in
        if bytes < 0 \<or> blen (a_addr a) < bytes \<or> blen (a_addr b) < bytes then Inl Undef
        else
          let d = memcmp_bytes (rd (a_addr a) 0 bytes) (rd (a_addr b) 0 bytes) in
          if d = 0 \<and> rest \<noteq> 0 then
            if rest < 0 \<or> blen (a_addr a) \<le> bytes \<or> blen (a_addr b) \<le> bytes then Inl Undef
            else
              let mask = drop_bit (nat rest) 0xFF00 AND 0xFF in
              Inr ((le_int (rd (a_addr a) bytes 1) AND mask) - (le_int (rd (a_addr b) bytes 1) AND mask))
          else Inr d
      else Inr d)"

definition nl_addr_iszero :: "nl_addr \<Rightarrow> bool" where
  "nl_addr_iszero addr \<longleftrightarrow> list_all (\<lambda>b. b = 0) (rd (a_addr addr) 0 (a_len addr))"

definition nl_addr_guess_family :: "nl_addr \<Rightarrow> int" where
  "nl_addr_guess_family addr =
     (if a_len addr = 4 then AF_INET else if a_len addr = 6 then AF_LLC
      else if a_len addr = 16 then AF_INET6 else AF_UNSPEC)"

section \<open>Socket addresses and names\<close>

text \<open>\<open>struct sockaddr_in\<close> has 16 bytes, the address at offset 4; \<open>struct sockaddr_in6\<close> has 28 bytes, the
  address at offset 8; the family is in the first two. The result has the code, the new contents
  of \<open>sa\<close> and \<open>*salen\<close>.\<close>

definition fill_sockaddr :: "nl_addr \<Rightarrow> byte list \<Rightarrow> int \<Rightarrow> int \<Rightarrow> int \<Rightarrow> int \<Rightarrow> int \<times> byte list \<times> int" where
  "fill_sockaddr addr sa salen size_sa off alen =
     (if salen < size_sa then (neg_err NLE_INVAL, sa, salen)
      else if a_len addr \<noteq> alen \<and> a_len addr \<noteq> 0 then (neg_err NLE_INVAL, sa, salen)
      else
        let sa = wr sa off (if a_len addr = alen then rd (a_addr addr) 0 alen else zeros alen) in
        (0, wr sa 0 (le_bytes 2 (a_family addr)), size_sa))"

definition nl_addr_fill_sockaddr :: "nl_addr \<Rightarrow> byte list \<Rightarrow> int \<Rightarrow> int \<times> byte list \<times> int" where
  "nl_addr_fill_sockaddr addr sa salen =
     (if a_family addr = AF_INET then fill_sockaddr addr sa salen 16 4 4
      else if a_family addr = AF_INET6 then fill_sockaddr addr sa salen 28 8 16
      else (neg_err NLE_INVAL, sa, salen))"

text \<open>\<open>getnameinfo\<close> returns 0 and a name or an \<open>EAI_...\<close> code, which is negative.\<close>

definition nl_addr_resolve ::
  "(byte list \<Rightarrow> int \<Rightarrow> int \<times> string) \<Rightarrow> nl_addr \<Rightarrow> byte list \<Rightarrow> int \<times> string" where
  "nl_addr_resolve getnameinfo addr stack =
     (case nl_addr_fill_sockaddr addr stack 28 of
        (err, buf, salen) \<Rightarrow>
          if err < 0 then (err, [])
          else case getnameinfo buf salen of
            (err, host) \<Rightarrow> if err < 0 then (nle_code (nl_syserr2nlerr err), host) else (0, host))"

section \<open>Printing\<close>

text \<open>The bytes as hexadecimal numbers with colons.\<close>

fun hex_loop :: "string \<Rightarrow> nat \<Rightarrow> byte list \<Rightarrow> string res" where
  "hex_loop buf sz [] = Inr buf"
| "hex_loop buf sz (b # bs) = and_then (strncat_room buf ('':'' @ show_byte b) sz) (\<lambda>buf. hex_loop buf sz bs)"

definition print_hex :: "byte list \<Rightarrow> string \<Rightarrow> nat \<Rightarrow> string res" where
  "print_hex bs buf sz =
     (case bs of [] \<Rightarrow> Inl Undef | b # bs \<Rightarrow> hex_loop (snprintf buf sz (show_byte b)) sz bs)"

text \<open>\<open>inet_ntop\<close> reads \<open>n\<close> bytes and gives their text; it leaves the buffer alone if that does not fit.\<close>

definition print_inet ::
  "(int \<Rightarrow> byte list \<Rightarrow> string) \<Rightarrow> int \<Rightarrow> int \<Rightarrow> byte list \<Rightarrow> string \<Rightarrow> nat \<Rightarrow> string res" where
  "print_inet inet_ntop af n addr buf sz =
     (if blen addr < n then Inl Undef
      else let s = inet_ntop af (rd addr 0 n) in Inr (if length s < sz then snprintf buf sz s else buf))"

definition nl_addr2str ::
  "(int \<Rightarrow> byte list \<Rightarrow> string) \<Rightarrow> nl_addr option \<Rightarrow> string \<Rightarrow> nat \<Rightarrow> string res" where
  "nl_addr2str inet_ntop oaddr buf sz =
     (case oaddr of
        None \<Rightarrow> Inr (snprintf buf sz ''none'')
      | Some addr \<Rightarrow>
          let bytes = rd (a_addr addr) 0 (a_len addr);
              prefix = (\<lambda>buf. strncat_room buf (take 15 (''/'' @ show_dec (nat (u32 (a_prefixlen addr))))) sz) in
          if a_len addr = 0 then prefix (snprintf buf sz ''none'')
          else if a_family addr = AF_INET then and_then (print_inet inet_ntop AF_INET 4 (a_addr addr) buf sz) prefix
          else if a_family addr = AF_INET6 then and_then (print_inet inet_ntop AF_INET6 16 (a_addr addr) buf sz) prefix
          else if a_family addr = AF_MPLS
          then and_then (mpls_ntop AF_MPLS (a_addr addr) buf sz) (\<lambda>(buf, _). prefix buf)
          else if a_family addr = AF_DECnet then prefix (dnet_ntop (a_addr addr) (a_len addr) buf sz)
          else print_hex bytes buf sz)"

definition nl_addr2str_nopref ::
  "(int \<Rightarrow> byte list \<Rightarrow> string) \<Rightarrow> nl_addr option \<Rightarrow> string \<Rightarrow> nat \<Rightarrow> string res" where
  "nl_addr2str_nopref inet_ntop oaddr buf sz =
     (case oaddr of
        None \<Rightarrow> Inr (snprintf buf sz ''none'')
      | Some addr \<Rightarrow>
          let bytes = rd (a_addr addr) 0 (a_len addr) in
          if a_len addr = 0 then Inr (snprintf buf sz ''none'')
          else if a_family addr = AF_INET then print_inet inet_ntop AF_INET 4 (a_addr addr) buf sz
          else if a_family addr = AF_INET6 then print_inet inet_ntop AF_INET6 16 (a_addr addr) buf sz
          else if a_family addr = AF_DECnet then Inr (dnet_ntop (a_addr addr) (a_len addr) buf sz)
          else print_hex bytes buf sz)"

text \<open>\<open>getaddrinfo\<close> gets the printed address and the family and returns 0 or an \<open>EAI_...\<close> code.\<close>

definition eai_error :: "int \<Rightarrow> nle" where
  "eai_error err =
     (if err = -9 then NLE_AF_NOSUPPORT
      else if err = -3 then NLE_AGAIN
      else if err = -1 then NLE_INVAL
      else if err = -4 then NLE_NOADDR
      else if err = -6 then NLE_AF_NOSUPPORT
      else if err = -10 then NLE_NOMEM
      else if err = -5 then NLE_NOADDR
      else if err = -2 then NLE_OBJ_NOTFOUND
      else if err = -8 then NLE_OPNOTSUPP
      else if err = -7 then NLE_BAD_SOCK
      else NLE_FAILURE)"

definition nl_addr_info ::
  "(int \<Rightarrow> byte list \<Rightarrow> string) \<Rightarrow> (string \<Rightarrow> int \<Rightarrow> int \<times> 'r) \<Rightarrow> nl_addr \<Rightarrow> string \<Rightarrow> (int \<times> 'r) res" where
  "nl_addr_info inet_ntop getaddrinfo addr stack =
     and_then (nl_addr2str inet_ntop (Some addr) stack 51) (\<lambda>buf.
     and_then (cstr buf) (\<lambda>s.
       case getaddrinfo s (a_family addr) of
         (err, r) \<Rightarrow> if err \<noteq> 0 then Inr (neg_err (eai_error err), r) else Inr (0, r)))"

section \<open>Address families\<close>

definition afs :: "trans_tbl list" where
  "afs =
     [(0, ''unspec''), (1, ''unix''), (2, ''inet''), (3, ''ax25''), (4, ''ipx''), (5, ''appletalk''),
      (6, ''netrom''), (7, ''bridge''), (8, ''atmpvc''), (9, ''x25''), (10, ''inet6''), (11, ''rose''),
      (12, ''decnet''), (13, ''netbeui''), (14, ''security''), (15, ''key''), (16, ''netlink''),
      (17, ''packet''), (18, ''ash''), (19, ''econet''), (20, ''atmsvc''), (21, ''rds''), (22, ''sna''),
      (23, ''irda''), (24, ''pppox''), (25, ''wanpipe''), (26, ''llc''), (29, ''can''), (30, ''tipc''),
      (31, ''bluetooth''), (32, ''iucv''), (33, ''rxrpc''), (34, ''isdn''), (35, ''phonet''),
      (36, ''ieee802154''), (37, ''caif''), (38, ''alg''), (39, ''nfc''), (40, ''vsock''), (28, ''mpls'')]"

definition nl_af2str :: "int \<Rightarrow> string \<Rightarrow> nat \<Rightarrow> string" where
  "nl_af2str family buf sz = type2str family buf sz afs"

definition EINVAL :: int where "EINVAL = 22"

definition nl_str2af :: "string \<Rightarrow> int" where
  "nl_str2af name = (let fam = str2type name afs in if fam \<ge> 0 then fam else - EINVAL)"

section \<open>Hexadecimal addresses\<close>

fun hex_text :: "byte list \<Rightarrow> string" where
  "hex_text [] = []"
| "hex_text [b] = show_byte b"
| "hex_text (b # bs) = show_byte b @ '':'' @ hex_text bs"

lemma hex_text_Cons: "bs \<noteq> [] \<Longrightarrow> hex_text (b # bs) = show_byte b @ '':'' @ hex_text bs"
  by (cases bs) auto

lemma stops_colon: "stops 16 (CHR '':'' # s)"
  by (simp add: stops_def digit_val_def tolower_def)

lemma show_byte_plain [simp]:
  "CHR 0x00 \<notin> set (show_byte b)" "CHR ''/'' \<notin> set (show_byte b)"
  using byte_digits [of b] digit_char_plain(7,10) [of "unat b div 16"] digit_char_plain(7,10) [of "unat b mod 16"]
  by (auto simp: show_byte_def)

lemma length_show_byte [simp]: "length (show_byte b) = 2"
  by (simp add: show_byte_def)

lemma hex_text_plain [simp]: "CHR 0x00 \<notin> set (hex_text bs)" "CHR ''/'' \<notin> set (hex_text bs)"
  by (induction bs rule: hex_text.induct) auto

lemma hex_text_colon: "1 < length bs \<Longrightarrow> CHR '':'' \<in> set (hex_text bs)"
  by (cases bs rule: hex_text.cases) auto

lemma length_hex_text: "bs \<noteq> [] \<Longrightarrow> length (hex_text bs) = 3 * length bs - 1"
  by (induction bs rule: hex_text.induct) (auto simp: show_byte_def)

lemma scan_x2_byte: "scan_x2 (show_byte b @ t) = Some (uint b, t)"
proof -
  obtain c d where cd: "show_byte b = [c, d]" "\<not> isspace c" "c \<noteq> CHR ''-''" "c \<noteq> CHR ''+''" "digit_val c < 16" "digit_val d < 16"
    using show_byte_Cons by blast
  have "digit_val c * 16 + digit_val d = unat b"
    using cd(1) byte_digits [of b] by (auto simp: show_byte_def)
  then show ?thesis using cd by (simp add: scan_x2_def)
qed

lemma scan_hex_fields_text:
  "n < length bs \<Longrightarrow> scan_hex_fields n (hex_text bs) = Some (take (Suc n) bs)"
proof (induction n arbitrary: bs)
  case 0
  then obtain b rest where bs: "bs = b # rest" by (cases bs) auto
  then have "\<exists>t. hex_text bs = show_byte b @ t" by (cases rest) auto
  then show ?case using bs scan_x2_byte [of b] by auto
next
  case (Suc n)
  then obtain b rest where bs: "bs = b # rest" "n < length rest" by (cases bs) auto
  then have "hex_text bs = show_byte b @ CHR '':'' # hex_text rest" by (cases rest) auto
  then show ?case using bs Suc.IH [OF bs(2)] by (simp add: scan_x2_byte)
qed

lemma parse_hex_bytes_text:
  "bs \<noteq> [] \<Longrightarrow> length buf + length bs \<le> 256 \<Longrightarrow> parse_hex_bytes (hex_text bs) buf = Some (buf @ bs)"
proof (induction bs arbitrary: buf rule: hex_text.induct)
  case (2 b)
  have "uint b \<le> 255" using uint_byte_lt [of b] by simp
  moreover have "strtol 16 (show_byte b) = Some (uint b, [])" using strtol_byte [of "[]" b] by (simp add: stops_def)
  ultimately show ?case using 2 by (simp add: parse_hex_bytes.simps [of "show_byte b"])
next
  case (3 b c cs)
  have "uint b \<le> 255" using uint_byte_lt [of b] by simp
  moreover have "strtol 16 (show_byte b @ CHR '':'' # hex_text (c # cs)) = Some (uint b, CHR '':'' # hex_text (c # cs))"
    using strtol_byte [OF stops_colon, of b] by simp
  moreover have "parse_hex_bytes (hex_text (c # cs)) (buf @ [b]) = Some ((buf @ [b]) @ c # cs)" using 3 by auto
  ultimately show ?case using 3 by (simp add: parse_hex_bytes.simps [of "show_byte b @ _"])
qed simp

text \<open>Appending to a string that fits.\<close>

lemma strncat_room_fits:
  assumes "cstr buf = Inr d" "CHR 0x00 \<notin> set s" "length d + length s < sz" "sz \<le> length buf" "int sz \<le> ULONG_MAX"
  shows "\<exists>buf'. strncat_room buf s sz = Inr buf' \<and> cstr buf' = Inr (d @ s) \<and> length buf' = length buf"
proof -
  have "nat (u64 (int sz - int (length d) - 1)) = sz - length d - 1"
    using assms(3,5) by (simp add: ULONG_MAX_def)
  moreover have "take (sz - length d - 1) s = s" using assms(3) by simp
  ultimately show ?thesis
    using strncat_spec [OF assms(1,2), of "sz - length d - 1"] assms(1,3,4) by (auto simp: strncat_room_def)
qed

lemma hex_loop_text:
  assumes "cstr buf = Inr (hex_text (bs @ [b]))" "length (hex_text (bs @ b # cs)) < sz" "sz \<le> length buf" "int sz \<le> ULONG_MAX"
  shows "\<exists>buf'. hex_loop buf sz cs = Inr buf' \<and> cstr buf' = Inr (hex_text (bs @ b # cs)) \<and> length buf' = length buf"
  using assms
proof (induction cs arbitrary: buf bs b)
  case (Cons c cs)
  have app: "hex_text (bs @ [b, c]) = hex_text (bs @ [b]) @ '':'' @ show_byte c" for bs
    by (induction bs) (auto simp: hex_text_Cons)
  have "length (hex_text (bs @ [b])) + length ('':'' @ show_byte c) < sz"
    using Cons.prems(2) by (simp add: length_hex_text show_byte_def)
  from strncat_room_fits [OF Cons.prems(1) _ this Cons.prems(3,4)] obtain buf1 where
    b1: "strncat_room buf ('':'' @ show_byte c) sz = Inr buf1" "cstr buf1 = Inr (hex_text ((bs @ [b]) @ [c]))" "length buf1 = length buf"
    by (auto simp: app)
  have "\<exists>buf'. hex_loop buf1 sz cs = Inr buf' \<and> cstr buf' = Inr (hex_text ((bs @ [b]) @ c # cs)) \<and> length buf' = length buf1"
    using Cons.prems b1 by (intro Cons.IH) auto
  then show ?case using b1 by simp
qed simp

lemma print_hex_text:
  assumes "bs \<noteq> []" "length (hex_text bs) < sz" "sz \<le> length buf" "int sz \<le> ULONG_MAX"
  shows "\<exists>buf'. print_hex bs buf sz = Inr buf' \<and> cstr buf' = Inr (hex_text bs) \<and> length buf' = length buf"
proof -
  obtain b cs where bs: "bs = b # cs" using assms(1) by (cases bs) auto
  have sz: "2 < sz" using assms(1,2) by (cases cs) (auto simp: bs length_hex_text show_byte_def)
  then have "cstr (snprintf buf sz (show_byte b)) = Inr (hex_text ([] @ [b]))"
    using cstr_snprintf [of "show_byte b" sz buf] by simp
  from hex_loop_text [OF this] show ?thesis
    using assms bs length_snprintf [OF assms(3)] by (simp add: print_hex_def)
qed

section \<open>DECnet addresses as text\<close>

lemma dn_ntohs_id: "0 \<le> x \<Longrightarrow> x < 65536 \<Longrightarrow> dn_ntohs x = x"
proof -
  assume x: "0 \<le> x" "x < 65536"
  have "le_bytes 2 x = [word_of_int x, word_of_int (x div 256)]"
    by (simp add: numeral_eq_Suc)
  then have "dn_ntohs x = (x mod 256) OR push_bit 8 (x div 256 mod 256)"
    by (simp add: dn_ntohs_def uint_word_of_int)
  also have "\<dots> = x mod 256 + push_bit 8 (x div 256 mod 256)"
  proof (rule disjunctive_add [symmetric])
    fix n
    have "x mod 256 = take_bit 8 x" by (simp add: take_bit_eq_mod)
    then show "\<not> bit (x mod 256) n \<or> \<not> bit (push_bit 8 (x div 256 mod 256)) n" by (simp add: bit_simps)
  qed
  also have "\<dots> = x" using x by (simp add: push_bit_eq_mult)
  finally show ?thesis .
qed

lemma char_of_digit: "d < 10 \<Longrightarrow> char_of (nat (int d + 48)) = digit_char d"
  by (simp add: digit_char_def nat_add_distrib add.commute)

lemma put_at_append:
  "pos \<le> length str \<Longrightarrow> put_at (pos + length s) t (put_at pos s str) = put_at pos (s @ t) str"
  by (simp add: put_at_def ac_simps)

text \<open>One digit of a number below \<open>scale * 10\<close>.\<close>

lemma do_digit_write:
  assumes "pos < len" "x < 10 * scale" "0 < scale" "int scale < 65536" "scale \<le> x \<or> started \<or> scale = 1"
  shows "do_digit (int scale) len (str, pos, int x, started) =
    Some (put_at pos [digit_char (x div scale)] str, pos + 1, int (x mod scale), True)"
proof -
  have d: "x div scale < 10" using assms(2) by (simp add: less_mult_imp_div_less mult.commute)
  have t: "int x div int scale = int (x div scale)" by (simp add: zdiv_int)
  have m: "int x - int (x div scale) * int scale = int (x mod scale)"
    by (simp add: minus_div_mult_eq_mod [symmetric] of_nat_mod zdiv_int)
  have "int (x mod scale) < 65536" using assms(3,4) by (smt (verit) mod_less_divisor of_nat_less_iff)
  moreover have "0 < int (x div scale) \<longleftrightarrow> scale \<le> x" using assms(3) by (simp add: div_greater_zero_iff)
  ultimately show ?thesis
    using assms(1,5) char_of_digit [OF d] by (auto simp: do_digit_def t m Let_def)
qed

lemma do_digit_skip:
  "pos < len \<Longrightarrow> x < scale \<Longrightarrow> scale \<noteq> 1 \<Longrightarrow>
    do_digit (int scale) len (str, pos, int x, False) = Some (str, pos, int x, False)"
  by (simp add: do_digit_def)

text \<open>The scales of numbers with \<open>k\<close> digits, and such numbers with leading zeros.\<close>

fun scales :: "nat \<Rightarrow> int list" where
  "scales 0 = []"
| "scales (Suc k) = int (10 ^ k) # scales k"

fun pad :: "nat \<Rightarrow> nat \<Rightarrow> string" where
  "pad 0 x = []"
| "pad (Suc k) x = digit_char (x div 10 ^ k) # pad k (x mod 10 ^ k)"

lemma length_pad [simp]: "length (pad k x) = k"
  by (induction k arbitrary: x) auto

lemma pow10_small: "k \<le> 4 \<Longrightarrow> int (10 ^ k) < 65536"
  using power_increasing [of k 4 "10::int"] by simp

lemma do_digits_started:
  assumes "x < 10 ^ k" "pos + k \<le> len" "pos + k \<le> length str" "k \<le> 5"
  shows "\<exists>r. do_digits (scales k) len (str, pos, int x, True) = ((put_at pos (pad k x) str, pos + k, r, True), True)"
  using assms
proof (induction k arbitrary: x pos str)
  case 0
  then show ?case by (simp add: put_at_def)
next
  case (Suc k)
  let ?str = "put_at pos [digit_char (x div 10 ^ k)] str"
  have "do_digit (int (10 ^ k)) len (str, pos, int x, True) = Some (?str, pos + 1, int (x mod 10 ^ k), True)"
    using Suc.prems pow10_small [of k] by (intro do_digit_write) auto
  moreover have "\<exists>r. do_digits (scales k) len (?str, pos + 1, int (x mod 10 ^ k), True) =
      ((put_at (pos + 1) (pad k (x mod 10 ^ k)) ?str, pos + 1 + k, r, True), True)"
    using Suc.prems by (intro Suc.IH) (auto simp: length_put_at)
  ultimately show ?case
    using put_at_append [of pos str "[digit_char (x div 10 ^ k)]" "pad k (x mod 10 ^ k)"] Suc.prems by auto
qed

lemma pad_snoc: "x < 10 ^ Suc k \<Longrightarrow> pad (Suc k) x = pad k (x div 10) @ [digit_char (x mod 10)]"
proof (induction k arbitrary: x)
  case (Suc k)
  have m: "x mod 10 ^ Suc k < 10 ^ Suc k" by simp
  have "x mod 10 ^ Suc k div 10 = x div 10 mod 10 ^ k" "x mod 10 ^ Suc k mod 10 = x mod 10"
    by (simp_all add: mod_mult2_eq mod_mod_cancel)
  moreover have "x div 10 div 10 ^ k = x div 10 ^ Suc k" by (simp add: div_mult2_eq)
  ultimately show ?case using Suc.IH [OF m] by simp
qed simp

lemma show_dec_pad: "x < 10 ^ Suc k \<Longrightarrow> 10 ^ k \<le> x \<or> k = 0 \<Longrightarrow> show_dec x = pad (Suc k) x"
  unfolding show_dec_def
proof (induction k arbitrary: x)
  case 0
  then show ?case by (simp add: digits.simps [of 10 x])
next
  case (Suc k)
  have "x div 10 < 10 ^ Suc k" "10 ^ k \<le> x div 10" using Suc.prems
    by (simp_all add: less_mult_imp_div_less less_eq_div_iff_mult_less_eq mult.commute)
  then have "digits 10 (x div 10) = pad (Suc k) (x div 10)" using Suc.IH by blast
  moreover have "10 \<le> x" using Suc.prems(2) by (simp add: le_trans [of 10 "10 * 10 ^ k"])
  ultimately show ?case using pad_snoc [OF Suc.prems(1)] by (simp add: digits.simps [of 10 x])
qed

lemma do_digits_dec:
  assumes "x < 10 ^ Suc k" "pos + length (show_dec x) \<le> len" "pos + length (show_dec x) \<le> length str" "k \<le> 4"
  shows "\<exists>r. do_digits (scales (Suc k)) len (str, pos, int x, False) =
    ((put_at pos (show_dec x) str, pos + length (show_dec x), r, True), True)"
  using assms
proof (induction k)
  case 0
  have s: "show_dec x = pad 1 x" using show_dec_pad [of x 0] 0 by simp
  have "do_digit (int (10 ^ 0)) len (str, pos, int x, False) = Some (put_at pos [digit_char (x div 10 ^ 0)] str, pos + 1, int (x mod 10 ^ 0), True)"
    using 0 s by (intro do_digit_write) auto
  then show ?case using s by simp
next
  case (Suc k)
  show ?case
  proof (cases "x < 10 ^ Suc k")
    case True
    have "0 < length (show_dec x)" by (simp add: show_dec_def)
    then have "pos < len" using Suc.prems(2) by linarith
    then have "do_digit (int (10 ^ Suc k)) len (str, pos, int x, False) = Some (str, pos, int x, False)"
      using True by (intro do_digit_skip) auto
    then show ?thesis using Suc True by simp
  next
    case False
    then have s: "show_dec x = pad (Suc (Suc k)) x" using show_dec_pad [of x "Suc k"] Suc.prems(1) by simp
    let ?str = "put_at pos [digit_char (x div 10 ^ Suc k)] str"
    have "do_digit (int (10 ^ Suc k)) len (str, pos, int x, False) = Some (?str, pos + 1, int (x mod 10 ^ Suc k), True)"
      using Suc.prems s False pow10_small [of "Suc k"] by (intro do_digit_write) auto
    moreover have "\<exists>r. do_digits (scales (Suc k)) len (?str, pos + 1, int (x mod 10 ^ Suc k), True) =
        ((put_at (pos + 1) (pad (Suc k) (x mod 10 ^ Suc k)) ?str, pos + 1 + Suc k, r, True), True)"
      using Suc.prems s by (intro do_digits_started) (auto simp: length_put_at)
    ultimately show ?thesis
      using put_at_append [of pos str "[digit_char (x div 10 ^ Suc k)]" "pad (Suc k) (x mod 10 ^ Suc k)"] Suc.prems s by auto
  qed
qed

lemma dnet_num_digit:
  "d < 10 \<Longrightarrow> dnet_num_loop (digit_char d # t) rv dst = dnet_num_loop t (rv + 1) (u16 (dst * 10 + int d))"
  using code_digit [of d] by (simp add: Let_def u16_def mod_simps)

lemma dnet_num_digits:
  "dnet_num_loop (digits 10 n @ t) rv dst =
    dnet_num_loop t (rv + int (length (digits 10 n))) (u16 (dst * 10 ^ length (digits 10 n) + int n))"
proof (induction n arbitrary: rv dst t rule: less_induct)
  case (less n)
  show ?case
  proof (cases "n < 10")
    case True
    then show ?thesis using dnet_num_digit [of n t rv dst] by (simp add: digits.simps [of 10 n])
  next
    case False
    let ?l = "length (digits 10 (n div 10))"
    have "(dst * 10 ^ ?l + int (n div 10)) * 10 + int (n mod 10) = dst * 10 ^ Suc ?l + int n"
      by (simp add: algebra_simps) (simp add: zdiv_int zmod_int)
    then have "u16 (u16 (dst * 10 ^ ?l + int (n div 10)) * 10 + int (n mod 10)) = u16 (dst * 10 ^ Suc ?l + int n)"
      by (metis (no_types) u16_def mod_add_left_eq mod_mult_left_eq)
    then show ?thesis
      using False less [of "n div 10" "digit_char (n mod 10) # t"] dnet_num_digit [of "n mod 10" t]
      by (simp add: digits.simps [of 10 n] add.assoc add.commute [of 1])
  qed
qed

text \<open>A number ends where no digit follows.\<close>

lemma dnet_num_dec:
  assumes "n < 65536" "t = [] \<or> (of_char (hd t) :: nat) < 48 \<or> 57 < (of_char (hd t) :: nat)"
  shows "dnet_num (show_dec n @ t) = (int (length (show_dec n)), int n)"
proof -
  have "dnet_num_loop t rv dst = (rv, dst)" for rv dst
    using assms(2) by (cases t) (auto simp: Let_def)
  then show ?thesis using assms(1) dnet_num_digits [of n t 0 0] by (simp add: dnet_num_def show_dec_def)
qed

definition dnet_text :: "byte list \<Rightarrow> string" where
  "dnet_text bs = show_dec (nat (le_int bs) div 1024) @ ''.'' @ show_dec (nat (le_int bs) mod 1024)"

lemma dnet_value:
  assumes "length bs = 2"
  shows "0 \<le> le_int bs" "le_int bs < 65536" "nat (le_int bs) div 1024 < 64" "nat (le_int bs) mod 1024 < 1024"
proof -
  show "0 \<le> le_int bs" "le_int bs < 65536" using le_int_less [of bs] assms by (simp_all)
  then show "nat (le_int bs) div 1024 < 64" by (simp add: less_mult_imp_div_less)
qed simp

lemma dnet_pton_text:
  assumes "length bs = 2"
  shows "dnet_pton (dnet_text bs) = Some bs"
proof -
  let ?v = "nat (le_int bs)"
  let ?area = "?v div 1024" and ?node = "?v mod 1024"
  note v = dnet_value [OF assms]
  have area: "dnet_num (dnet_text bs) = (int (length (show_dec ?area)), int ?area)"
    unfolding dnet_text_def using v(3) by (intro dnet_num_dec) auto
  have node: "dnet_num (show_dec ?node) = (int (length (show_dec ?node)), int ?node)"
    using dnet_num_dec [of ?node "[]"] v(4) by simp
  have ne: "show_dec n \<noteq> []" for n by (simp add: show_dec_def)
  have "push_bit 10 (int ?area) OR int ?node = push_bit 10 (int ?area) + int ?node"
  proof (rule disjunctive_add [symmetric])
    fix n
    have "int ?node = take_bit 10 (int ?v)" by (simp add: take_bit_eq_mod zmod_int)
    then show "\<not> bit (push_bit 10 (int ?area)) n \<or> \<not> bit (int ?node) n" by (auto simp: bit_simps)
  qed
  also have "\<dots> = le_int bs" using v(1) by (simp add: push_bit_eq_mult zdiv_int zmod_int)
  finally have "dn_ntohs (push_bit 10 (int ?area) OR int ?node) = le_int bs" using dn_ntohs_id v(1,2) by simp
  moreover have "dnet_text bs ! length (show_dec ?area) = CHR ''.''" "length (show_dec ?area) < length (dnet_text bs)"
    "drop (length (show_dec ?area) + 1) (dnet_text bs) = show_dec ?node"
    by (simp_all add: dnet_text_def nth_append)
  moreover have "\<not> 1023 < ?node" using v(4) by linarith
  ultimately show ?thesis
    using area node v(3) ne le_bytes_int [OF assms] by (simp add: dnet_pton_def)
qed

lemma scales_4: "scales (Suc 3) = [1000, 100, 10, 1]"
  by (simp add: eval_nat_numeral)

lemma dnet_ntop_text:
  assumes "blen addrbuf \<ge> 2" "length (dnet_text (rd addrbuf 0 2)) < len" "len \<le> length str"
  shows "cstr (dnet_ntop addrbuf 2 str len) = Inr (dnet_text (rd addrbuf 0 2)) \<and> length (dnet_ntop addrbuf 2 str len) = length str"
proof -
  let ?bs = "rd addrbuf 0 2"
  let ?v = "nat (le_int ?bs)"
  let ?a = "show_dec (?v div 1024)" and ?n = "show_dec (?v mod 1024)"
  have l2: "length ?bs = 2" using length_rd [of 0 2 addrbuf] assms(1) by simp
  note v = dnet_value [OF l2]
  have dn: "dn_ntohs (le_int ?bs) = int ?v" using dn_ntohs_id v(1,2) by simp
  have area: "drop_bit 10 (int ?v) = int (?v div 1024)" by (simp add: drop_bit_eq_div zdiv_int)
  have node: "int ?v AND 0x3FF = int (?v mod 1024)"
  proof -
    have "(0x3FF::int) = mask 10" by (simp add: mask_eq_exp_minus_1)
    then show ?thesis by (simp only: take_bit_eq_mask [symmetric]) (simp add: take_bit_eq_mod zmod_int)
  qed
  have len: "length ?a + 1 + length ?n < len" using assms(2) by (simp add: dnet_text_def)
  have "\<exists>r. do_digits (scales (Suc 1)) len (str, 0, int (?v div 1024), False) = ((put_at 0 ?a str, 0 + length ?a, r, True), True)"
    using v(3) len assms(3) by (intro do_digits_dec) auto
  then obtain r1 where r1: "do_digits [10, 1] len (str, 0, int (?v div 1024), False) = ((put_at 0 ?a str, length ?a, r1, True), True)"
    by auto
  let ?str = "put_at (length ?a) ''.'' (put_at 0 ?a str)"
  have str: "?str = put_at 0 (?a @ ''.'') str" "length ?str = length str"
    using put_at_append [of 0 str ?a "''.''"] len assms(3) by (simp_all add: length_put_at)
  have "\<exists>r. do_digits (scales (Suc 3)) len (?str, length ?a + 1, int (?v mod 1024), False) =
      ((put_at (length ?a + 1) ?n ?str, length ?a + 1 + length ?n, r, True), True)"
    using less_trans [OF v(4), of 10000] len assms(3) str(2) by (intro do_digits_dec) auto
  then obtain r2 where r2: "do_digits [1000, 100, 10, 1] len (?str, length ?a + 1, int (?v mod 1024), False) =
      ((put_at (length ?a + 1) ?n ?str, length ?a + 1 + length ?n, r2, True), True)"
    unfolding scales_4 by (elim exE) (rule that)
  have str2: "put_at (length ?a + 1) ?n ?str = put_at 0 (dnet_text ?bs) str"
    using put_at_append [of 0 str "?a @ ''.''" ?n] unfolding str(1) by (simp add: dnet_text_def)
  have t: "length ?a + 1 + length ?n = length (dnet_text ?bs)" by (simp add: dnet_text_def)
  have "dnet_ntop addrbuf 2 str len = put_at (length (dnet_text ?bs)) [CHR 0x00] (put_at 0 (dnet_text ?bs) str)"
  proof -
    have c: "len \<noteq> 0" "length ?a \<noteq> len" "length ?a + 1 + length ?n \<noteq> len" using len by auto
    show ?thesis
      unfolding dnet_ntop_def Let_def dn area node r1 prod.case r2 str2
      using c t by (simp del: do_digits.simps)
  qed
  also have "\<dots> = put_at 0 (dnet_text ?bs @ [CHR 0x00]) str" using put_at_append [of 0 str "dnet_text ?bs" "[CHR 0x00]"] by simp
  finally have eq: "dnet_ntop addrbuf 2 str len = put_at 0 (dnet_text ?bs @ [CHR 0x00]) str" .
  have "CHR 0x00 \<notin> set (dnet_text ?bs)" by (simp add: dnet_text_def)
  then show ?thesis using eq cstr_put_0 length_put_at [of 0 "dnet_text ?bs @ [CHR 0x00]" str] assms(2,3) by simp
qed

section \<open>Printing and parsing\<close>

lemma length_digits: "n < 10 ^ Suc k \<Longrightarrow> length (show_dec n) \<le> Suc k"
  unfolding show_dec_def
proof (induction k arbitrary: n)
  case (Suc k)
  have "n div 10 < 10 ^ Suc k" using Suc.prems by (simp add: less_mult_imp_div_less)
  then show ?case using Suc.IH [of "n div 10"] by (cases "n < 10") (simp_all add: digits.simps [of 10 n])
qed (simp add: digits.simps [of 10])

text \<open>What is documented of \<open>inet_pton\<close> and \<open>inet_ntop\<close>: the text of an address has at most 47 characters (45 in fact),
  contains a dot or a colon, no slash and no NUL, and is converted back to the address.\<close>

definition inet_inverse :: "(int \<Rightarrow> byte list \<Rightarrow> string) \<Rightarrow> (int \<Rightarrow> string \<Rightarrow> byte list option) \<Rightarrow> bool" where
  "inet_inverse ntop pton \<longleftrightarrow>
     (\<forall>af bs. (af = AF_INET \<and> length bs = 4) \<or> (af = AF_INET6 \<and> length bs = 16) \<longrightarrow>
        (let s = ntop af bs in
         pton af s = Some bs \<and> length s \<le> 47 \<and> CHR ''/'' \<notin> set s \<and> CHR 0x00 \<notin> set s \<and>
         (CHR ''.'' \<in> set s \<or> CHR '':'' \<in> set s)))"

definition addr_ok :: "nl_addr \<Rightarrow> bool" where
  "addr_ok addr \<longleftrightarrow> a_maxsize addr = blen (a_addr addr) \<and> 0 \<le> a_len addr \<and> a_len addr \<le> a_maxsize addr \<and>
     a_maxsize addr < 4294967296 \<and> 1 \<le> a_refcnt addr"

definition addr_bytes :: "nl_addr \<Rightarrow> byte list" where
  "addr_bytes addr = rd (a_addr addr) 0 (a_len addr)"

text \<open>The text of the address proper.\<close>

definition addr_text :: "(int \<Rightarrow> byte list \<Rightarrow> string) \<Rightarrow> nl_addr \<Rightarrow> string" where
  "addr_text ntop addr =
     (if a_family addr = AF_DECnet then dnet_text (addr_bytes addr)
      else if a_family addr = AF_LLC then hex_text (addr_bytes addr)
      else ntop (a_family addr) (addr_bytes addr))"

definition std_addr :: "nl_addr \<Rightarrow> bool" where
  "std_addr addr \<longleftrightarrow> addr_ok addr \<and> (a_family addr, a_len addr) \<in> {(AF_INET, 4), (AF_INET6, 16), (AF_DECnet, 2), (AF_LLC, 6)} \<and>
     0 \<le> a_prefixlen addr \<and> a_prefixlen addr < 2147483648 \<and> (a_family addr = AF_LLC \<longrightarrow> a_prefixlen addr = 48)"

lemma length_addr_bytes: "addr_ok addr \<Longrightarrow> int (length (addr_bytes addr)) = a_len addr"
  using length_rd [of 0 "a_len addr" "a_addr addr"] by (simp add: addr_ok_def addr_bytes_def)

lemma not_word:
  assumes "CHR ''.'' \<in> set s \<or> CHR '':'' \<in> set s" "CHR ''.'' \<notin> set w" "CHR '':'' \<notin> set w" "map tolower w = w"
  shows "\<not> strcaseeq s w"
proof
  assume "strcaseeq s w"
  then have "set (map tolower s) = set w" using assms(4) by (simp add: strcaseeq_def)
  moreover have "tolower (CHR ''.'') = CHR ''.''" "tolower (CHR '':'') = CHR '':''" by (simp_all add: tolower_def)
  then have "CHR ''.'' \<in> set (map tolower s) \<or> CHR '':'' \<in> set (map tolower s)" using assms(1) by force
  ultimately show False using assms(2,3) by blast
qed

lemma no_words:
  assumes "CHR ''.'' \<in> set s \<or> CHR '':'' \<in> set s"
  shows "\<not> strcaseeq s ''none''" "\<not> strcaseeq s ''default''" "\<not> strcaseeq s ''all''" "\<not> strcaseeq s ''any''"
  by (rule not_word [OF assms]; simp add: tolower_def)+

lemma inet_inverseD:
  assumes "inet_inverse ntop pton" "(af = AF_INET \<and> length bs = 4) \<or> (af = AF_INET6 \<and> length bs = 16)"
  shows "pton af (ntop af bs) = Some bs" "length (ntop af bs) \<le> 47" "CHR ''/'' \<notin> set (ntop af bs)"
    "CHR 0x00 \<notin> set (ntop af bs)" "CHR ''.'' \<in> set (ntop af bs) \<or> CHR '':'' \<in> set (ntop af bs)"
  using assms(1) [unfolded inet_inverse_def Let_def, rule_format, OF assms(2)] by simp_all

text \<open>The formats that a hint asks for.\<close>

lemma parse_hints:
  assumes w: "CHR ''.'' \<in> set s \<or> CHR '':'' \<in> set s"
  shows "pton AF_INET s = Some b \<Longrightarrow> parse_addr pton AF_INET s = Inr (AF_INET, Some b, 0)"
    "pton AF_INET6 s = Some b \<Longrightarrow> parse_addr pton AF_INET6 s = Inr (AF_INET6, Some b, 0)"
    "dnet_pton s = Some b \<Longrightarrow> CHR ''.'' \<in> set s \<Longrightarrow> parse_addr pton AF_DECnet s = Inr (AF_DECnet, Some b, 0)"
    "scan_hex_fields 5 s = Some b \<Longrightarrow> CHR '':'' \<in> set s \<Longrightarrow> parse_addr pton AF_LLC s = Inr (AF_LLC, Some b, 0)"
  using no_words [OF w] by (simp_all add: parse_addr_def try_format_def af_defs del: scan_hex_fields.simps)

lemma std_addr_cases:
  assumes "std_addr addr"
  obtains (inet) "a_family addr = AF_INET \<and> length (addr_bytes addr) = 4 \<or> a_family addr = AF_INET6 \<and> length (addr_bytes addr) = 16"
  | (dnet) "a_family addr = AF_DECnet" "length (addr_bytes addr) = 2"
  | (llc) "a_family addr = AF_LLC" "length (addr_bytes addr) = 6"
proof -
  have "int (length (addr_bytes addr)) = a_len addr" using assms length_addr_bytes by (simp add: std_addr_def)
  moreover have "a_family addr = AF_INET \<and> a_len addr = 4 \<or> a_family addr = AF_INET6 \<and> a_len addr = 16 \<or>
      a_family addr = AF_DECnet \<and> a_len addr = 2 \<or> a_family addr = AF_LLC \<and> a_len addr = 6"
    using assms by (simp add: std_addr_def)
  ultimately show thesis using that by linarith
qed

lemma addr_text_spec:
  assumes "std_addr addr" "inet_inverse ntop pton"
  shows "length (addr_text ntop addr) \<le> 47 \<and> CHR ''/'' \<notin> set (addr_text ntop addr) \<and>
    CHR 0x00 \<notin> set (addr_text ntop addr) \<and>
    parse_addr pton (a_family addr) (addr_text ntop addr) = Inr (a_family addr, Some (addr_bytes addr), 0)"
  using assms(1)
proof (cases rule: std_addr_cases)
  case inet
  then have s: "addr_text ntop addr = ntop (a_family addr) (addr_bytes addr)" by (auto simp: addr_text_def af_defs)
  note i = inet_inverseD [OF assms(2) inet]
  show ?thesis using inet i parse_hints(1,2) [OF i(5)] unfolding s by auto
next
  case dnet
  let ?s = "dnet_text (addr_bytes addr)"
  have s: "addr_text ntop addr = ?s" using dnet by (simp add: addr_text_def)
  note v = dnet_value [OF dnet(2)]
  have "length ?s \<le> 47"
    unfolding dnet_text_def using length_digits [of "nat (le_int (addr_bytes addr)) div 1024" 1] v(3)
      length_digits [of "nat (le_int (addr_bytes addr)) mod 1024" 3] less_trans [OF v(4), of 10000] by simp
  moreover have c: "CHR ''/'' \<notin> set ?s" "CHR 0x00 \<notin> set ?s" "CHR ''.'' \<in> set ?s" by (simp_all add: dnet_text_def)
  moreover have "parse_addr pton AF_DECnet ?s = Inr (AF_DECnet, Some (addr_bytes addr), 0)"
    by (rule parse_hints(3)) (use c dnet_pton_text [OF dnet(2)] in simp_all)
  ultimately show ?thesis using dnet(1) by (simp add: s)
next
  case llc
  let ?s = "hex_text (addr_bytes addr)"
  have s: "addr_text ntop addr = ?s" using llc by (simp add: addr_text_def af_defs)
  have ne: "addr_bytes addr \<noteq> []" using llc by auto
  have "length ?s \<le> 47" using length_hex_text [OF ne] llc by simp
  moreover have c: "CHR '':'' \<in> set ?s" using hex_text_colon llc by simp
  moreover have "parse_addr pton AF_LLC ?s = Inr (AF_LLC, Some (addr_bytes addr), 0)"
    by (rule parse_hints(4)) (use c scan_hex_fields_text [of 5 "addr_bytes addr"] llc in simp_all)
  ultimately show ?thesis using llc(1) by (simp add: s)
qed

text \<open>The text with the prefix length, which hardware addresses do not show.\<close>

definition full_text :: "(int \<Rightarrow> byte list \<Rightarrow> string) \<Rightarrow> nl_addr \<Rightarrow> string" where
  "full_text ntop addr =
     (if a_family addr = AF_LLC then addr_text ntop addr
      else addr_text ntop addr @ ''/'' @ show_dec (nat (a_prefixlen addr)))"

text \<open>The address that the parser builds from a recognised text.\<close>

lemma built_addr:
  fixes fam :: int and bs :: "byte list"
  assumes "blen bs < 4294967296"
  defines "addr \<equiv> snd (nl_addr_set_binary_addr (nl_addr_set_family (the (nl_addr_alloc True (blen bs))) fam) bs (blen bs))"
  shows "addr_ok addr" "a_family addr = fam" "a_len addr = blen bs" "addr_bytes addr = bs"
proof -
  have "wr (wr (zeros (blen bs)) 0 (zeros (blen bs))) 0 bs = bs" by (simp add: wr_def zeros_def)
  then have a: "addr = \<lparr>a_family = fam, a_maxsize = blen bs, a_len = blen bs, a_prefixlen = 0, a_refcnt = 1, a_addr = bs\<rparr>"
    using assms(1) by (cases "bs = []") (auto simp: addr_def nl_addr_alloc_def nl_addr_set_family_def nl_addr_set_binary_addr_def Let_def)
  show "addr_ok addr" "a_family addr = fam" "a_len addr = blen bs" "addr_bytes addr = bs"
    using assms(1) by (simp_all add: a addr_ok_def addr_bytes_def)
qed

lemma split_prefix_slash:
  assumes "hint \<noteq> AF_MPLS" "CHR ''/'' \<notin> set s"
  shows "split_prefix hint (s @ CHR ''/'' # p) = (s, Some p)" "split_prefix hint s = (s, None)"
proof -
  have "takeWhile (\<lambda>c. c \<noteq> CHR ''/'') (s @ CHR ''/'' # p) = s" "dropWhile (\<lambda>c. c \<noteq> CHR ''/'') (s @ CHR ''/'' # p) = CHR ''/'' # p"
    using assms(2) by (induction s) auto
  then show "split_prefix hint (s @ CHR ''/'' # p) = (s, Some p)" "split_prefix hint s = (s, None)"
    using assms by (auto simp: split_prefix_def)
qed

lemma addr2str_text:
  assumes "std_addr addr" "inet_inverse ntop pton" "64 \<le> sz" "sz \<le> length buf" "int sz \<le> ULONG_MAX"
  shows "\<exists>buf'. nl_addr2str ntop (Some addr) buf sz = Inr buf' \<and> cstr buf' = Inr (full_text ntop addr) \<and> length buf' = length buf"
proof -
  let ?s = "addr_text ntop addr" and ?p = "''/'' @ show_dec (nat (a_prefixlen addr))"
  note t = addr_text_spec [OF assms(1,2)]
  have ok: "addr_ok addr" "a_len addr \<noteq> 0" "0 \<le> a_prefixlen addr" "a_prefixlen addr < 2147483648"
    using assms(1) by (auto simp: std_addr_def)
  have pl: "length ?p \<le> 11" using length_digits [of "nat (a_prefixlen addr)" 9] ok(3,4) by simp
  have u: "u32 (a_prefixlen addr) = a_prefixlen addr" "take 15 ?p = ?p" using ok pl by auto
  have app: "\<exists>buf'. strncat_room b (take 15 (''/'' @ show_dec (nat (u32 (a_prefixlen addr))))) sz = Inr buf' \<and>
      cstr buf' = Inr (?s @ ?p) \<and> length buf' = length buf" if "cstr b = Inr ?s" "length b = length buf" for b
  proof -
    have nul: "CHR 0x00 \<notin> set ?p" by simp
    have "length ?s + length ?p < sz" using t pl assms(3) by linarith
    from strncat_room_fits [OF that(1) nul this] show ?thesis using that(2) assms(4,5) u by simp
  qed
  show ?thesis using assms(1)
  proof (cases rule: std_addr_cases)
    case inet
    have n: "a_len addr = int (length (addr_bytes addr))" using length_addr_bytes [OF ok(1)] by simp
    have s: "?s = ntop (a_family addr) (addr_bytes addr)" using inet by (auto simp: addr_text_def af_defs)
    have fits: "length ?s < sz" using t assms(3) by linarith
    have "print_inet ntop (a_family addr) (a_len addr) (a_addr addr) buf sz = Inr (snprintf buf sz ?s)"
      using ok(1) fits by (simp add: print_inet_def s addr_bytes_def addr_ok_def Let_def)
    moreover have "cstr (snprintf buf sz ?s) = Inr ?s" using cstr_snprintf [of ?s sz buf] t fits by simp
    moreover have "nl_addr2str ntop (Some addr) buf sz = and_then (print_inet ntop (a_family addr) (a_len addr) (a_addr addr) buf sz)
        (\<lambda>buf. strncat_room buf (take 15 (''/'' @ show_dec (nat (u32 (a_prefixlen addr))))) sz)"
      using inet n by (auto simp: nl_addr2str_def Let_def af_defs)
    moreover have "full_text ntop addr = ?s @ ?p" using inet by (auto simp: full_text_def af_defs)
    ultimately show ?thesis using app [of "snprintf buf sz ?s"] length_snprintf [OF assms(4)] by simp
  next
    case dnet
    have n: "a_len addr = 2" using length_addr_bytes [OF ok(1)] dnet by simp
    have s: "?s = dnet_text (rd (a_addr addr) 0 2)" using dnet n by (simp add: addr_text_def addr_bytes_def)
    have "length (dnet_text (rd (a_addr addr) 0 2)) < sz" using t assms(3) unfolding s by linarith
    from dnet_ntop_text [OF _ this assms(4)] ok(1) n
    have d: "cstr (dnet_ntop (a_addr addr) 2 buf sz) = Inr ?s" "length (dnet_ntop (a_addr addr) 2 buf sz) = length buf"
      by (auto simp: addr_ok_def s)
    moreover have "nl_addr2str ntop (Some addr) buf sz =
        strncat_room (dnet_ntop (a_addr addr) 2 buf sz) (take 15 (''/'' @ show_dec (nat (u32 (a_prefixlen addr))))) sz"
      using dnet n by (simp add: nl_addr2str_def Let_def af_defs)
    moreover have "full_text ntop addr = ?s @ ?p" using dnet by (simp add: full_text_def af_defs)
    ultimately show ?thesis using app [OF d] by simp
  next
    case llc
    have n: "a_len addr = 6" using length_addr_bytes [OF ok(1)] llc by simp
    have s: "?s = hex_text (addr_bytes addr)" using llc by (simp add: addr_text_def af_defs)
    have "length (hex_text (addr_bytes addr)) < sz" using t assms(3) unfolding s by linarith
    moreover have "addr_bytes addr \<noteq> []" using llc by auto
    ultimately show ?thesis
      using print_hex_text [of "addr_bytes addr" sz buf] assms(4,5) llc(1) n s
      by (simp add: nl_addr2str_def Let_def af_defs full_text_def addr_bytes_def)
  qed
qed

lemma nl_addr_parse_built:
  assumes "split_prefix hint s = (str, prefix)" "parse_addr pton hint str = Inr (fam, Some bs, plen)"
  defines "addr \<equiv> snd (nl_addr_set_binary_addr (nl_addr_set_family (the (nl_addr_alloc True (blen bs))) fam) bs (blen bs))"
  shows "nl_addr_parse pton True True s hint =
    (case prefix of
       Some p \<Rightarrow> (case strtol 0 p of
           None \<Rightarrow> and_then (addr_destroy (Some addr)) (\<lambda>_. Inl (Err NLE_INVAL))
         | Some (pl, _) \<Rightarrow> Inr (nl_addr_set_prefixlen addr pl))
     | None \<Rightarrow> Inr (nl_addr_set_prefixlen addr (if plen = 0 then blen bs * 8 else plen)))"
proof -
  obtain a where "nl_addr_alloc True (blen bs) = Some a" by (simp add: nl_addr_alloc_def)
  moreover from this have the: "the (nl_addr_alloc True (blen bs)) = a" by simp
  ultimately show ?thesis unfolding addr_def the using assms(1,2) by (cases prefix) (simp_all add: nl_addr_parse_def Let_def)
qed

lemma parse_full_text:
  assumes "std_addr addr" "inet_inverse ntop pton"
  shows "\<exists>addr'. nl_addr_parse pton True True (full_text ntop addr) (a_family addr) = Inr addr' \<and> addr_ok addr' \<and>
    a_family addr' = a_family addr \<and> a_len addr' = a_len addr \<and> addr_bytes addr' = addr_bytes addr \<and> a_prefixlen addr' = a_prefixlen addr"
proof -
  let ?s = "addr_text ntop addr" and ?p = "show_dec (nat (a_prefixlen addr))" and ?f = "a_family addr"
  note t = addr_text_spec [OF assms]
  have ok: "addr_ok addr" "?f \<noteq> AF_MPLS" "0 \<le> a_prefixlen addr" "a_prefixlen addr < 2147483648"
    "?f = AF_LLC \<longrightarrow> a_prefixlen addr = 48 \<and> a_len addr = 6"
    using assms(1) by (auto simp: std_addr_def af_defs)
  have n: "blen (addr_bytes addr) = a_len addr" using length_addr_bytes [OF ok(1)] .
  have lt: "blen (addr_bytes addr) < 4294967296" using ok(1) n by (simp add: addr_ok_def)
  let ?b = "snd (nl_addr_set_binary_addr (nl_addr_set_family (the (nl_addr_alloc True (blen (addr_bytes addr)))) ?f) (addr_bytes addr) (blen (addr_bytes addr)))"
  note b = built_addr [OF lt, of ?f]
  have parsed: "parse_addr pton ?f ?s = Inr (?f, Some (addr_bytes addr), 0)" using t by blast
  have "nl_addr_parse pton True True (full_text ntop addr) ?f = Inr (nl_addr_set_prefixlen ?b (a_prefixlen addr))"
  proof (cases "?f = AF_LLC")
    case True
    have sp: "split_prefix ?f (full_text ntop addr) = (?s, None)"
      using split_prefix_slash(2) ok(2) t True by (simp add: full_text_def)
    have "blen (addr_bytes addr) * 8 = a_prefixlen addr" using ok(5) True n by simp
    then show ?thesis using nl_addr_parse_built [OF sp parsed] by simp
  next
    case False
    have sp: "split_prefix ?f (full_text ntop addr) = (?s, Some ?p)"
      using split_prefix_slash(1) [OF ok(2), of ?s ?p] t False by (simp add: full_text_def)
    have "int (nat (a_prefixlen addr)) \<le> LONG_MAX" using ok(3,4) by (simp add: LONG_MAX_def)
    then have "strtol 0 ?p = Some (a_prefixlen addr, [])"
      using strtol_dec [of "[]" "nat (a_prefixlen addr)"] ok(3) by (simp add: stops_def)
    then show ?thesis using nl_addr_parse_built [OF sp parsed] by simp
  qed
  moreover have "s32 (a_prefixlen addr) = a_prefixlen addr" using ok by simp
  ultimately show ?thesis using b n
    by (intro exI [of _ "nl_addr_set_prefixlen ?b (a_prefixlen addr)"])
      (simp add: nl_addr_set_prefixlen_def addr_ok_def addr_bytes_def)
qed

text \<open>
  C38. Addresses survive printing and parsing: an IPv4, IPv6, DECnet or hardware address (the latter
  with its full prefix length) that \<open>nl_addr2str\<close> prints into a buffer of at least 64 bytes is read
  back by \<open>nl_addr_parse\<close>, with the family as hint, as an address with the same family, length, bytes
  and prefix length. For IPv4 and IPv6 this rests on \<open>inet_pton\<close> being the inverse of \<open>inet_ntop\<close>.
\<close>

theorem addr_print_parse:
  assumes "std_addr addr" "inet_inverse ntop pton" "64 \<le> sz" "sz \<le> length buf" "int sz \<le> ULONG_MAX"
  shows "\<exists>buf' s addr'. nl_addr2str ntop (Some addr) buf sz = Inr buf' \<and> length buf' = length buf \<and> cstr buf' = Inr s \<and>
    nl_addr_parse pton True True s (a_family addr) = Inr addr' \<and>
    a_family addr' = a_family addr \<and> a_len addr' = a_len addr \<and> addr_bytes addr' = addr_bytes addr \<and>
    a_prefixlen addr' = a_prefixlen addr"
  using addr2str_text [OF assms] parse_full_text [OF assms(1,2)] by blast

text \<open>A simple pair of conversions with the required property: hexadecimal bytes.\<close>

definition hex_pton :: "int \<Rightarrow> string \<Rightarrow> byte list option" where
  "hex_pton af s = parse_hex_bytes s []"

lemma hex_inverse: "inet_inverse (\<lambda>af. hex_text) hex_pton"
  unfolding inet_inverse_def Let_def
proof (intro allI impI)
  fix af :: int and bs :: "byte list"
  assume "af = AF_INET \<and> length bs = 4 \<or> af = AF_INET6 \<and> length bs = 16"
  then have bs: "bs \<noteq> []" "1 < length bs" "length bs \<le> 15 + 1" by auto
  then show "hex_pton af (hex_text bs) = Some bs \<and> length (hex_text bs) \<le> 47 \<and> CHR ''/'' \<notin> set (hex_text bs) \<and>
      CHR 0x00 \<notin> set (hex_text bs) \<and> (CHR ''.'' \<in> set (hex_text bs) \<or> CHR '':'' \<in> set (hex_text bs))"
    using parse_hex_bytes_text [of bs "[]"] hex_text_colon [of bs] length_hex_text [of bs] by (simp add: hex_pton_def)
qed

theorem addr_print_parse_witness:
  defines "addr \<equiv> \<lparr>a_family = AF_INET, a_maxsize = 4, a_len = 4, a_prefixlen = 24, a_refcnt = 1, a_addr = [10, 0, 0, 7]\<rparr>"
  shows "\<exists>buf' s addr'. nl_addr2str (\<lambda>af. hex_text) (Some addr) (replicate 100 (CHR 0x00)) 100 = Inr buf' \<and> cstr buf' = Inr s \<and>
    nl_addr_parse hex_pton True True s AF_INET = Inr addr' \<and> addr_bytes addr' = [10, 0, 0, 7] \<and> a_prefixlen addr' = 24"
proof -
  have "std_addr addr" by (simp add: addr_def std_addr_def addr_ok_def af_defs)
  moreover have "addr_bytes addr = [10, 0, 0, 7]" by (simp add: addr_def addr_bytes_def rd_def)
  ultimately show ?thesis
    using addr_print_parse [OF _ hex_inverse, of addr 100 "replicate 100 (CHR 0x00)"]
    by (auto simp: addr_def ULONG_MAX_def)
qed

end
