(* ===== verification/Nl_Addr_Cmp.thy ===== *)
theory Nl_Addr_Cmp
  imports Nl_Addr
begin

unbundle bit_operations_syntax

text \<open>
  Comparison of abstract addresses (\<open>lib/addr.c\<close>): \<open>nl_addr_cmp_prefix\<close> against a bit-by-bit
  definition, \<open>nl_addr_cmp\<close> as equality, and the shape of the addresses that the parser and the
  constructors build.
\<close>

section \<open>Comparison of prefixes\<close>

text \<open>Bit \<open>i\<close> of an address in network order, and the addresses with room for their prefix.\<close>

definition addr_bit :: "nl_addr \<Rightarrow> nat \<Rightarrow> bool" where
  "addr_bit addr i \<longleftrightarrow> bit (a_addr addr ! (i div 8)) (7 - i mod 8)"

definition prefix_ok :: "nl_addr \<Rightarrow> bool" where
  "prefix_ok addr \<longleftrightarrow> addr_ok addr \<and> 0 \<le> a_prefixlen addr \<and> a_prefixlen addr \<le> 8 * a_maxsize addr"

lemma prefix_mask_bit:
  assumes "k \<le> 8"
  shows "bit (drop_bit k 0xFF00 AND (0xFF :: int)) n \<longleftrightarrow> 8 - k \<le> n \<and> n < 8"
proof -
  have e: "(0xFF00 :: int) = push_bit 8 (mask 8)" "(0xFF :: int) = mask 8"
    by (simp_all add: mask_eq_exp_minus_1 push_bit_eq_mult)
  show ?thesis unfolding e using assms by (auto simp: bit_simps)
qed

lemma masked_bytes_eq:
  fixes x y :: byte
  assumes "k \<le> 8"
  defines "m \<equiv> drop_bit k 0xFF00 AND (0xFF :: int)"
  shows "(uint x AND m) - (uint y AND m) = 0 \<longleftrightarrow> (\<forall>i<k. bit x (7 - i) = bit y (7 - i))"
proof -
  have "uint x AND m = uint y AND m \<longleftrightarrow> (\<forall>n. 8 - k \<le> n \<and> n < 8 \<longrightarrow> bit x n = bit y n)"
    unfolding bit_eq_iff using prefix_mask_bit [OF assms(1)] by (auto simp: bit_and_iff bit_uint_iff m_def)
  also have "\<dots> \<longleftrightarrow> (\<forall>i<k. bit x (7 - i) = bit y (7 - i))" (is "?l = ?r")
  proof
    show "?l \<Longrightarrow> ?r"
    proof (intro allI impI)
      fix i assume l: ?l and i: "i < k"
      have "8 - k \<le> 7 - i \<and> 7 - i < 8" using i assms(1) by arith
      then show "bit x (7 - i) = bit y (7 - i)" using l by blast
    qed
    show "?r \<Longrightarrow> ?l"
    proof (intro allI impI)
      fix n assume r: ?r and n: "8 - k \<le> n \<and> n < 8"
      then have "7 - n < k" "7 - (7 - n) = n" by arith+
      then show "bit x n = bit y n" using r by metis
    qed
  qed
  finally show ?thesis by simp
qed

lemma byte_eq_bits: "(x :: byte) = y \<longleftrightarrow> (\<forall>i<8. bit x (7 - i) = bit y (7 - i))"
proof
  assume r: "\<forall>i<8. bit x (7 - i) = bit y (7 - i)"
  show "x = y"
  proof (rule bit_word_eqI)
    fix n assume "n < LENGTH(8)"
    then show "bit x n = bit y n" using r [rule_format, of "7 - n"] by simp
  qed
qed simp

lemma all_less_split: "(\<forall>i < 8 * n + (k::nat). P i) \<longleftrightarrow> (\<forall>j<n. \<forall>i<8. P (8 * j + i)) \<and> (\<forall>i<k. P (8 * n + i))"
proof (intro iffI conjI allI impI)
  fix i assume r: "(\<forall>j<n. \<forall>i<8. P (8 * j + i)) \<and> (\<forall>i<k. P (8 * n + i))" and i: "i < 8 * n + k"
  show "P i"
  proof (cases "i < 8 * n")
    case True
    then have "i div 8 < n" "i mod 8 < 8" by auto
    then have "P (8 * (i div 8) + i mod 8)" using r by blast
    then show ?thesis by simp
  next
    case False
    then have "P (8 * n + (i - 8 * n))" using r i by (metis add_diff_inverse_nat nat_add_left_cancel_less)
    then show ?thesis using False by simp
  qed
qed auto

lemma bytes_eq_bits:
  assumes "n \<le> length a" "n \<le> length b"
  shows "take n a = take n b \<longleftrightarrow> (\<forall>j<n. \<forall>i<8. bit (a ! j :: byte) (7 - i) = bit (b ! j) (7 - i))"
  using assms by (simp add: list_eq_iff_nth_eq byte_eq_bits)

text \<open>
  C39. For two addresses whose prefix lengths fit into their buffers \<open>nl_addr_cmp_prefix\<close> returns, without reading
  a byte outside the buffers (which its model turns into \<open>Undef\<close>), and its result is 0 exactly if they
  have the same family and agree on each of the bits covered by the shorter prefix length.
\<close>

theorem nl_addr_cmp_prefix_spec:
  assumes "prefix_ok a" "prefix_ok b"
  shows "\<exists>c. nl_addr_cmp_prefix a b = Inr c \<and>
    (c = 0 \<longleftrightarrow> a_family a = a_family b \<and> (\<forall>i. int i < min (a_prefixlen a) (a_prefixlen b) \<longrightarrow> addr_bit a i = addr_bit b i))"
proof -
  define len where "len = nat (min (a_prefixlen a) (a_prefixlen b))"
  define n k where "n = len div 8" and "k = len mod 8"
  have len: "min (a_prefixlen a) (a_prefixlen b) = int len" using assms by (simp add: len_def prefix_ok_def)
  have nk: "len = 8 * n + k" "k < 8" by (simp_all add: n_def k_def)
  have room: "len \<le> 8 * length (a_addr a)" "len \<le> 8 * length (a_addr b)"
    using assms by (auto simp: prefix_ok_def addr_ok_def len_def)
  then have n: "n \<le> length (a_addr a)" "n \<le> length (a_addr b)"
    and k: "k \<noteq> 0 \<Longrightarrow> n < length (a_addr a) \<and> n < length (a_addr b)" using nk by auto
  have div: "c_div (int len) 8 = int n" by (simp add: c_div_def n_def zdiv_int sgn_if)
  have bits: "(\<forall>i<len. addr_bit a i = addr_bit b i) \<longleftrightarrow> take n (a_addr a) = take n (a_addr b) \<and>
      (\<forall>i<k. bit (a_addr a ! n) (7 - i) = bit (a_addr b ! n) (7 - i))"
    unfolding nk(1) all_less_split bytes_eq_bits [OF n] addr_bit_def using nk(2) by simp
  have last: "k \<noteq> 0 \<Longrightarrow> le_int (rd x (int n) 1) = uint (x ! n)" if "n < length x" for x
    using that by (simp add: rd_def take_Suc_conv_app_nth hd_drop_conv_nth take_Suc)
  have rest: "int len - 8 * int n = int k" using nk(1) by simp
  have lens: "length (take n (a_addr a)) = length (take n (a_addr b))" using n by simp
  show ?thesis
    unfolding nl_addr_cmp_prefix_def len Let_def div rest
    using n k last masked_bytes_eq [of k "a_addr a ! n" "a_addr b ! n"] nk(2) bits memcmp_bytes_0 [OF lens]
    by (auto simp: rd_def)
qed

theorem nl_addr_cmp_prefix_spec_witness:
  defines "a \<equiv> \<lparr>a_family = AF_INET, a_maxsize = 4, a_len = 4, a_prefixlen = 12, a_refcnt = 1, a_addr = [10, 0x1F, 0, 7]\<rparr>"
    and "b \<equiv> \<lparr>a_family = AF_INET, a_maxsize = 4, a_len = 4, a_prefixlen = 32, a_refcnt = 1, a_addr = [10, 0x17, 1, 8]\<rparr>"
  shows "map (addr_bit a) [0..<12] = map (addr_bit b) [0..<12]"
proof -
  have ok: "prefix_ok a" "prefix_ok b" by (simp_all add: a_def b_def prefix_ok_def addr_ok_def)
  have "nl_addr_cmp_prefix a b = Inr 0" by (simp add: a_def b_def nl_addr_cmp_prefix_def c_div_def Let_def rd_def)
  then have "\<forall>i. int i < 12 \<longrightarrow> addr_bit a i = addr_bit b i"
    using nl_addr_cmp_prefix_spec [OF ok] by (simp add: a_def b_def)
  then show ?thesis by simp
qed

section \<open>Equality\<close>

lemma s32_diff_0: "0 \<le> x \<Longrightarrow> x < 4294967296 \<Longrightarrow> 0 \<le> y \<Longrightarrow> y < 4294967296 \<Longrightarrow> s32 (x - y) = 0 \<longleftrightarrow> x = y"
proof
  let ?m = "4294967296 :: int"
  assume r: "0 \<le> x" "x < ?m" "0 \<le> y" "y < ?m" and "s32 (x - y) = 0"
  then have "(x - y + 2147483648) mod ?m = 2147483648" by (simp add: s32_def)
  then have "x - y = ?m * ((x - y + 2147483648) div ?m)"
    using mult_div_mod_eq [of ?m "x - y + 2147483648"] by linarith
  then obtain c where c: "x - y = ?m * c" ..
  then have "- 1 < c" "c < 1" using r by linarith+
  then show "x = y" using c by simp
qed (simp add: s32_def)

lemma nl_addr_cmp_eq:
  assumes "addr_ok a" "addr_ok b" "a_len a \<noteq> 0"
  shows "nl_addr_cmp same (Some a) (Some b) = 0 \<longleftrightarrow> same \<or>
    (a_family a = a_family b \<and> a_len a = a_len b \<and> addr_bytes a = addr_bytes b \<and> a_prefixlen a = a_prefixlen b)"
proof -
  have d: "s32 (a_len a - a_len b) = 0 \<longleftrightarrow> a_len a = a_len b"
    using assms(1,2) by (intro s32_diff_0) (auto simp: addr_ok_def)
  have "a_len a = a_len b \<Longrightarrow> length (rd (a_addr a) 0 (a_len a)) = length (rd (a_addr b) 0 (a_len a))"
    using length_addr_bytes [OF assms(1)] length_addr_bytes [OF assms(2)] by (simp add: addr_bytes_def)
  then show ?thesis
    using assms(3) d memcmp_bytes_0 by (auto simp: nl_addr_cmp_def Let_def addr_bytes_def)
qed

text \<open>Addresses without bytes are equal whatever their prefix lengths are.\<close>

lemma nl_addr_cmp_empty_ignores_prefix:
  "a_len a = 0 \<Longrightarrow> a_len b = 0 \<Longrightarrow> a_family a = a_family b \<Longrightarrow> nl_addr_cmp False (Some a) (Some b) = 0"
  by (simp add: nl_addr_cmp_def s32_def)

section \<open>The shape of parsed addresses\<close>

text \<open>The sizes of the binary addresses of a family; the empty address stands for \<open>none\<close> and \<open>any\<close>.\<close>

definition family_len :: "int \<Rightarrow> int \<Rightarrow> bool" where
  "family_len family len \<longleftrightarrow> len = 0 \<or>
     (if family = AF_INET then len = 4
      else if family = AF_INET6 then len = 16
      else if family = AF_LLC then len = 6
      else if family = AF_DECnet then len = 2
      else if family = AF_MPLS then 4 dvd len \<and> len \<le> 256
      else family = AF_UNSPEC \<and> len \<le> 256)"

definition pton_sized :: "(int \<Rightarrow> string \<Rightarrow> byte list option) \<Rightarrow> bool" where
  "pton_sized pton \<longleftrightarrow> (\<forall>s bs. (pton AF_INET s = Some bs \<longrightarrow> length bs = 4) \<and> (pton AF_INET6 s = Some bs \<longrightarrow> length bs = 16))"

lemma mpls_pton1_length:
  "mpls_pton1 n name addr = Some bs \<Longrightarrow> 4 dvd length addr \<Longrightarrow> 4 dvd length bs \<and> length bs \<le> length addr + 4 * n"
proof (induction n name addr rule: mpls_pton1.induct)
  case (2 n name addr)
  from 2(2,3) show ?case by (auto simp: Let_def split: option.splits if_splits dest!: 2(1))
qed simp

lemma scan_hex_fields_length: "scan_hex_fields n s = Some bs \<Longrightarrow> length bs = Suc n"
  by (induction n s arbitrary: bs rule: scan_hex_fields.induct) (auto split: option.splits list.splits if_splits)

lemma parse_hex_bytes_length: "parse_hex_bytes s buf = Some bs \<Longrightarrow> length buf \<le> 256 \<Longrightarrow> length bs \<le> 256"
proof (induction s buf rule: parse_hex_bytes.induct)
  case (1 s buf)
  from 1(2,3) show ?case
    by (subst (asm) parse_hex_bytes.simps) (auto simp: Let_def split: option.splits if_splits dest!: 1(1))
qed

lemma dnet_pton_length: "dnet_pton s = Some bs \<Longrightarrow> length bs = 2"
  by (auto simp: dnet_pton_def split: prod.splits if_splits)

lemma parse_addr_sized:
  assumes "pton_sized pton" "parse_addr pton hint s = Inr (fam, bytes, plen)"
  shows "family_len fam (case bytes of None \<Rightarrow> 0 | Some b \<Rightarrow> blen b)" "plen \<noteq> 0 \<longrightarrow> fam = AF_MPLS \<and> plen = 20"
  using assms mpls_pton1_length [of 64 s "[]"] scan_hex_fields_length [of 5 s] parse_hex_bytes_length [of s "[]"] dnet_pton_length [of s]
  by (auto simp: parse_addr_def try_format_def parse_special_def family_len_def pton_sized_def mpls_pton_def af_defs
      split: if_splits option.splits sum.splits)

text \<open>
  Whatever the text and the hint are, an address that \<open>nl_addr_parse\<close> returns is well formed:
  the length in use is one that its family can have (or 0), lies within the buffer, and the caller
  holds the only reference. This rests on \<open>inet_pton\<close> storing 4 or 16 bytes.
\<close>

theorem nl_addr_parse_typed:
  assumes "pton_sized pton" "nl_addr_parse pton a1 a2 s hint = Inr addr"
  shows "addr_ok addr \<and> family_len (a_family addr) (a_len addr) \<and> a_maxsize addr = a_len addr \<and> \<not> nl_addr_shared addr"
proof -
  obtain str prefix where sp: "split_prefix hint s = (str, prefix)" by fastforce
  obtain fam bytes plen where p: "parse_addr pton hint str = Inr (fam, bytes, plen)"
    using assms(2) sp by (auto simp: nl_addr_parse_def split: if_splits sum.splits)
  note sized = parse_addr_sized [OF assms(1) p]
  let ?len = "case bytes of None \<Rightarrow> 0 | Some b \<Rightarrow> blen b"
  have len: "0 \<le> ?len" "?len < 4294967296" using sized(1)
    by (auto simp: family_len_def split: option.splits if_splits)
  obtain pl where "addr = nl_addr_set_prefixlen
      (case bytes of None \<Rightarrow> nl_addr_set_family (the (nl_addr_alloc True 0)) fam
       | Some b \<Rightarrow> snd (nl_addr_set_binary_addr (nl_addr_set_family (the (nl_addr_alloc True (blen b))) fam) b (blen b))) pl"
    using assms(2) sp p
    by (cases bytes; cases a2)
      (auto simp: nl_addr_parse_def nl_addr_alloc_def Let_def and_then_def split: if_splits option.splits sum.splits)
  then show ?thesis using len sized(1) built_addr
    by (cases bytes) (auto simp: nl_addr_set_prefixlen_def nl_addr_alloc_def nl_addr_set_family_def addr_ok_def nl_addr_shared_def
      nl_addr_set_binary_addr_def Let_def zeros_def wr_def)
qed

theorem nl_addr_parse_typed_witness:
  defines "addr \<equiv> \<lparr>a_family = AF_DECnet, a_maxsize = 2, a_len = 2, a_prefixlen = 16, a_refcnt = 1, a_addr = [5, 4]\<rparr>"
  shows "addr_ok addr \<and> family_len AF_DECnet 2"
proof -
  have "nl_addr_parse (\<lambda>_ _. None) True True ''1.5'' AF_DECnet = Inr addr" unfolding addr_def by code_simp
  then show ?thesis using nl_addr_parse_typed [of "\<lambda>_ _. None" True True "''1.5''" AF_DECnet addr]
    by (simp add: pton_sized_def addr_def)
qed

section \<open>Further behaviour\<close>

text \<open>No hardware address is ever valid, because the \<open>sscanf\<close> format suppresses every assignment.\<close>

lemma nl_addr_valid_rejects_llc: "\<not> nl_addr_valid pton s AF_LLC"
  by (simp add: nl_addr_valid_def scan_suppressed_def af_defs)

text \<open>Without a hint the text of an eight-byte hardware address is read as its first six bytes.\<close>

lemma nl_addr_parse_truncates:
  "parse_addr (\<lambda>_ _. None) AF_UNSPEC ''1:2:3:4:5:6:7:8'' = Inr (AF_LLC, Some [1, 2, 3, 4, 5, 6], 0)"
  by code_simp

text \<open>Two empty data objects are different.\<close>

lemma nl_data_cmp_empty: "d_size a = 0 \<Longrightarrow> d_size b = 0 \<Longrightarrow> nl_data_cmp a b = Inr (- 1)"
  by (simp add: nl_data_cmp_def nl_data_get_def)

text \<open>A data object equals its clone, and is compared beyond the end of a shorter one.\<close>

lemma nl_data_cmp_clone:
  "0 < d_size a \<Longrightarrow> blen (d_data a) = d_size a \<Longrightarrow> nl_data_clone True True a = Some b \<Longrightarrow> nl_data_cmp a b = Inr 0"
  by (auto simp: nl_data_clone_def nl_data_alloc_def nl_data_cmp_def nl_data_get_def rd_def memcmp_bytes_0)

lemma nl_data_cmp_overruns:
  "0 < d_size b \<Longrightarrow> d_size b < d_size a \<Longrightarrow> blen (d_data b) = d_size b \<Longrightarrow> nl_data_cmp a b = Inl Undef"
  by (simp add: nl_data_cmp_def nl_data_get_def)

text \<open>A clone of an address is equal to it.\<close>

lemma nl_addr_clone_eq:
  assumes "addr_ok a" "nl_addr_clone True a = Some b"
  shows "addr_ok b \<and> nl_addr_cmp False (Some a) (Some b) = 0"
proof -
  have "a_len b = a_len a" "a_family b = a_family a" "a_prefixlen b = a_prefixlen a" "addr_ok b" "addr_bytes b = addr_bytes a"
    using assms length_addr_bytes [OF assms(1)]
    by (auto simp: nl_addr_clone_def nl_addr_build_def nl_addr_alloc_def Let_def addr_ok_def addr_bytes_def wr_def rd_def zeros_def
      split: if_splits)
  then show ?thesis using nl_addr_cmp_eq [OF assms(1), of b False] nl_addr_cmp_empty_ignores_prefix [of a b] by auto
qed

end
