(* ===== verification/Nl_Cache_Steps.thy ===== *)
theory Nl_Cache_Steps
  imports Nl_Netconf
begin

text \<open>
  Programs that use objects and caches: sequences of library calls on a heap, each allowed by the
  documented rules (an object is used only by someone who holds a reference or through a cache that
  holds one). The ghost map \<open>refs\<close> counts the references of an object that belong to no cache: those
  that the program holds and those that failing moves leak, which \<open>user_reach\<close> tells apart.
\<close>

section \<open>Calls\<close>

datatype 'd cache_op =
  ObjAlloc nat
| ObjFill nat 'd int int
| ObjGet nat
| ObjPut nat
| CacheAlloc nat bool bool nat
| CacheGet nat
| CacheFree nat
| CacheAdd bool nat nat
| CacheMove bool nat nat
| CacheRemove nat
| CacheSearch nat nat
| CacheClear nat

text \<open>
  The effect of a call. \<open>ObjFill\<close> is the code of an application or a parser that fills an object
  in. \<open>CacheMove\<close> keeps the reference it took when it fails; see \<open>nl_cache_move_leaks\<close> below.
\<close>

fun run_op :: "'d ops \<Rightarrow> nat \<Rightarrow> cops \<Rightarrow> 'd cache_op \<Rightarrow> 'd heap \<Rightarrow> (nat \<Rightarrow> int) \<Rightarrow> ('d heap \<times> (nat \<Rightarrow> int)) res" where
  "run_op ops i cops (ObjAlloc p) h refs =
     and_then (nl_object_alloc ops (Some p) i h) (\<lambda>(_, h). Inr (h, refs(p := 1)))"
| "run_op ops i cops (ObjFill p d m t) h refs =
     and_then (deref (h_obj h) p) (\<lambda>obj.
       Inr (set_obj p (obj\<lparr>ce_data := d, ce_mask := m, ce_msgtype := t\<rparr>) h, refs))"
| "run_op ops i cops (ObjGet p) h refs = and_then (nl_object_get p h) (\<lambda>h. Inr (h, refs(p := refs p + 1)))"
| "run_op ops i cops (ObjPut p) h refs = and_then (nl_object_put ops (Some p) h) (\<lambda>h. Inr (h, refs(p := refs p - 1)))"
| "run_op ops i cops (CacheAlloc c a1 a2 j) h refs =
     and_then (nl_cache_alloc ops cops (Some c) a1 a2 j h) (\<lambda>(_, h). Inr (h, refs))"
| "run_op ops i cops (CacheGet c) h refs = and_then (nl_cache_get c h) (\<lambda>h. Inr (h, refs))"
| "run_op ops i cops (CacheFree c) h refs = and_then (nl_cache_free ops (Some c) h) (\<lambda>h. Inr (h, refs))"
| "run_op ops i cops (CacheAdd a c p) h refs =
     and_then (nl_cache_add ops cops a None c p h) (\<lambda>(_, h). Inr (h, refs))"
| "run_op ops i cops (CacheMove a c p) h refs =
     and_then (nl_cache_move ops cops a c p h) (\<lambda>(ret, h). Inr (h, if ret < 0 then refs(p := refs p + 1) else refs))"
| "run_op ops i cops (CacheRemove p) h refs = and_then (nl_cache_remove ops p h) (\<lambda>h. Inr (h, refs))"
| "run_op ops i cops (CacheSearch c p) h refs =
     and_then (nl_cache_search ops c p h) (\<lambda>(q, h).
       Inr (h, case q of None \<Rightarrow> refs | Some q \<Rightarrow> refs(q := refs q + 1)))"
| "run_op ops i cops (CacheClear c) h refs = and_then (nl_cache_clear ops c h) (\<lambda>h. Inr (h, refs))"

text \<open>
  When a call is allowed. Objects that go into a cache have their keys (\<open>keyed\<close>); adding an object
  whose list link is set makes a copy, which is left out here because the clone function of some
  types copies the header (see \<open>netconf_clone_copies_header\<close>).
\<close>

fun allowed :: "'d ops \<Rightarrow> nat \<Rightarrow> cops \<Rightarrow> ('d nl_object \<Rightarrow> bool) \<Rightarrow> 'd cache_op \<Rightarrow> 'd heap \<Rightarrow> (nat \<Rightarrow> int) \<Rightarrow> bool" where
  "allowed ops i cops keyed (ObjAlloc p) h refs \<longleftrightarrow> h_obj h p = None"
| "allowed ops i cops keyed (ObjFill p d m t) h refs \<longleftrightarrow>
     0 < refs p \<and> (case h_obj h p of None \<Rightarrow> False | Some obj \<Rightarrow> ce_cache obj = None)"
| "allowed ops i cops keyed (ObjGet p) h refs \<longleftrightarrow> h_obj h p \<noteq> None"
| "allowed ops i cops keyed (ObjPut p) h refs \<longleftrightarrow> 0 < refs p"
| "allowed ops i cops keyed (CacheAlloc c a1 a2 j) h refs \<longleftrightarrow> h_cache h c = None \<and> co_obj_ops (cops j) = Some i"
| "allowed ops i cops keyed (CacheGet c) h refs \<longleftrightarrow> h_cache h c \<noteq> None"
| "allowed ops i cops keyed (CacheFree c) h refs \<longleftrightarrow> h_cache h c \<noteq> None"
| "allowed ops i cops keyed (CacheAdd a c p) h refs \<longleftrightarrow>
     h_cache h c \<noteq> None \<and> 0 < refs p \<and>
     (case h_obj h p of None \<Rightarrow> False | Some obj \<Rightarrow> \<not> ce_linked obj \<and> keyed obj)"
| "allowed ops i cops keyed (CacheMove a c p) h refs \<longleftrightarrow>
     h_cache h c \<noteq> None \<and> (case h_obj h p of None \<Rightarrow> False | Some obj \<Rightarrow> keyed obj)"
| "allowed ops i cops keyed (CacheRemove p) h refs \<longleftrightarrow> h_obj h p \<noteq> None"
| "allowed ops i cops keyed (CacheSearch c p) h refs \<longleftrightarrow> h_cache h c \<noteq> None \<and> h_obj h p \<noteq> None"
| "allowed ops i cops keyed (CacheClear c) h refs \<longleftrightarrow> h_cache h c \<noteq> None"

text \<open>The states that allowed calls reach from an empty heap.\<close>

inductive cache_reach :: "'d ops \<Rightarrow> nat \<Rightarrow> cops \<Rightarrow> ('d nl_object \<Rightarrow> bool) \<Rightarrow> 'd heap \<Rightarrow> (nat \<Rightarrow> int) \<Rightarrow> bool"
  for ops i cops keyed where
  start: "cache_reach ops i cops keyed \<lparr>h_obj = (\<lambda>_. None), h_cache = (\<lambda>_. None)\<rparr> (\<lambda>_. 0)"
| step: "cache_reach ops i cops keyed h refs \<Longrightarrow> allowed ops i cops keyed opn h refs \<Longrightarrow>
    run_op ops i cops opn h refs = Inr (h', refs') \<Longrightarrow> cache_reach ops i cops keyed h' refs'"

inductive_cases cache_reachE: "cache_reach ops i cops keyed h refs"

text \<open>
  The same programs with two ghost counts: the references that the program holds, and the ones that are lost, each by
  a call of \<open>nl_cache_move\<close> that fails after it took a reference. What the program may do depends on what it holds alone.
\<close>

definition failing_move :: "'d ops \<Rightarrow> cops \<Rightarrow> 'd cache_op \<Rightarrow> 'd heap \<Rightarrow> bool" where
  "failing_move ops cops opn h \<longleftrightarrow>
     (case opn of
        CacheMove a c p \<Rightarrow> (case nl_cache_move ops cops a c p h of Inr (ret, _) \<Rightarrow> ret < 0 | Inl _ \<Rightarrow> False)
      | _ \<Rightarrow> False)"

inductive user_reach ::
  "'d ops \<Rightarrow> nat \<Rightarrow> cops \<Rightarrow> ('d nl_object \<Rightarrow> bool) \<Rightarrow> 'd heap \<Rightarrow> (nat \<Rightarrow> int) \<Rightarrow> (nat \<Rightarrow> int) \<Rightarrow> bool"
  for ops i cops keyed where
  start: "user_reach ops i cops keyed \<lparr>h_obj = (\<lambda>_. None), h_cache = (\<lambda>_. None)\<rparr> (\<lambda>_. 0) (\<lambda>_. 0)"
| call: "user_reach ops i cops keyed h held lost \<Longrightarrow> allowed ops i cops keyed opn h held \<Longrightarrow> \<not> failing_move ops cops opn h \<Longrightarrow>
    run_op ops i cops opn h held = Inr (h', held') \<Longrightarrow> user_reach ops i cops keyed h' held' lost"
| leak: "user_reach ops i cops keyed h held lost \<Longrightarrow> allowed ops i cops keyed (CacheMove a c p) h held \<Longrightarrow>
    nl_cache_move ops cops a c p h = Inr (ret, h') \<Longrightarrow> ret < 0 \<Longrightarrow> user_reach ops i cops keyed h' held (lost(p := lost p + 1))"

text \<open>What is assumed of the tables of types: objects are at least as large as their header and
  hash tables have a sensible size.\<close>

definition sane_types :: "'d ops \<Rightarrow> nat \<Rightarrow> cops \<Rightarrow> bool" where
  "sane_types ops i cops \<longleftrightarrow> SIZEOF_NL_OBJECT \<le> oo_size (ops i) \<and>
     (\<forall>j. 0 \<le> co_hash_size (cops j) \<and> co_hash_size (cops j) < 2147483648)"

section \<open>Each call keeps the invariant\<close>

lemma wf_heap_empty: "wf_heap ops keyed i cops \<lparr>h_obj = (\<lambda>_. None), h_cache = (\<lambda>_. None)\<rparr> (\<lambda>_. 0)"
  by (simp add: wf_heap_def)

context keyed_type begin

lemma alloc_wf:
  assumes wf: "wf_heap ops keyed i cops h refs" and p: "h_obj h p = None" "ce_refcnt obj = 1" "ce_ops obj = Some i" "ce_cache obj = None"
  shows "wf_heap ops keyed i cops (set_obj p obj h) (refs(p := 1))"
  unfolding wf_heap_def
proof (intro conjI allI impI)
  fix q o1 assume "h_obj (set_obj p obj h) q = Some o1"
  then show "wf_obj i (set_obj p obj h) (refs(p := 1)) q o1"
    using wf_heapD(1) [OF wf, of q] p by (cases "q = p") (auto simp: wf_obj_def)
next
  fix q assume "h_obj (set_obj p obj h) q = None"
  then show "(refs(p := 1)) q = 0" using wf_heapD(2) [OF wf] by (auto split: if_splits)
next
  fix c cache assume "h_cache (set_obj p obj h) c = Some cache"
  then have c: "h_cache h c = Some cache" by simp
  then show "co_obj_ops (cops (c_ops cache)) = Some i" using wf_heapD(3) [OF wf] by simp
  have "q \<noteq> p" if "q \<in> set (c_items cache)" for q using wf_heap_item [OF wf c that] p by auto
  then show "wf_cache ops keyed i (set_obj p obj h) c cache"
    by (intro wf_cache_heap [OF wf_heapD(4) [OF wf c]]) auto
qed

text \<open>An object in no cache may be filled in freely.\<close>

lemma fill_wf:
  assumes wf: "wf_heap ops keyed i cops h refs" and p: "h_obj h p = Some obj" "ce_cache obj = None"
    and obj': "ce_refcnt obj' = ce_refcnt obj" "ce_ops obj' = ce_ops obj" "ce_cache obj' = None"
  shows "wf_heap ops keyed i cops (set_obj p obj' h) refs"
  unfolding wf_heap_def
proof (intro conjI allI impI)
  fix q o1 assume "h_obj (set_obj p obj' h) q = Some o1"
  then show "wf_obj i (set_obj p obj' h) refs q o1"
    using wf_heapD(1) [OF wf, of q] p obj' by (cases "q = p") (auto simp: wf_obj_def)
next
  fix q assume "h_obj (set_obj p obj' h) q = None"
  then show "refs q = 0" using wf_heapD(2) [OF wf] by (auto split: if_splits)
next
  fix c cache assume "h_cache (set_obj p obj' h) c = Some cache"
  then have c: "h_cache h c = Some cache" by simp
  then show "co_obj_ops (cops (c_ops cache)) = Some i" using wf_heapD(3) [OF wf] by simp
  have "q \<noteq> p" if "q \<in> set (c_items cache)" for q using wf_heap_item [OF wf c that] p by auto
  then show "wf_cache ops keyed i (set_obj p obj' h) c cache"
    by (intro wf_cache_heap [OF wf_heapD(4) [OF wf c]]) auto
qed

text \<open>A cache without objects may appear, change and go away.\<close>

lemma set_empty_cache_wf:
  assumes wf: "wf_heap ops keyed i cops h refs"
    and c: "h_cache h c = None \<or> (\<exists>cache. h_cache h c = Some cache \<and> c_items cache = [])"
    and new: "\<And>cache. nc = Some cache \<Longrightarrow> co_obj_ops (cops (c_ops cache)) = Some i \<and> wf_cache ops keyed i h c cache"
  shows "wf_heap ops keyed i cops (h\<lparr>h_cache := (h_cache h)(c := nc)\<rparr>) refs"
  unfolding wf_heap_def
proof (intro conjI allI impI)
  let ?h = "h\<lparr>h_cache := (h_cache h)(c := nc)\<rparr>"
  have keep: "wf_cache ops keyed i ?h d cache" if "wf_cache ops keyed i h d cache" for d cache
    by (rule wf_cache_heap [OF that]) simp
  fix d cache assume "h_cache ?h d = Some cache"
  then show "co_obj_ops (cops (c_ops cache)) = Some i" "wf_cache ops keyed i ?h d cache"
    using wf_heapD(3,4) [OF wf, of d] new keep by (auto split: if_splits)
next
  fix p obj assume "h_obj (h\<lparr>h_cache := (h_cache h)(c := nc)\<rparr>) p = Some obj"
  then have w: "wf_obj i h refs p obj" using wf_heapD(1) [OF wf] by simp
  then have "ce_cache obj \<noteq> Some c" using c by (auto simp: wf_obj_def)
  then show "wf_obj i (h\<lparr>h_cache := (h_cache h)(c := nc)\<rparr>) refs p obj"
    using w by (auto simp: wf_obj_def cache_refs_def split: option.splits)
next
  fix q assume "h_obj (h\<lparr>h_cache := (h_cache h)(c := nc)\<rparr>) q = None"
  then show "refs q = 0" using wf_heapD(2) [OF wf] by simp
qed

text \<open>The count of users of a cache and its flags do not matter to its objects.\<close>

lemma cache_hdr_wf:
  assumes wf: "wf_heap ops keyed i cops h refs" and c: "h_cache h c = Some cache"
  shows "wf_heap ops keyed i cops (set_cache c (cache\<lparr>c_refcnt := n\<rparr>) h) refs"
  unfolding wf_heap_def
proof (intro conjI allI impI)
  let ?h = "set_cache c (cache\<lparr>c_refcnt := n\<rparr>) h"
  have keep: "wf_cache ops keyed i ?h d cache" if "wf_cache ops keyed i h d cache" for d cache
    by (rule wf_cache_heap [OF that]) simp
  have hdr: "wf_cache ops keyed i ?h c (cache\<lparr>c_refcnt := n\<rparr>)" using keep [OF wf_heapD(4) [OF wf c]] by (simp add: wf_cache_def)
  fix d cache' assume "h_cache ?h d = Some cache'"
  then show "co_obj_ops (cops (c_ops cache')) = Some i" "wf_cache ops keyed i ?h d cache'"
    using wf_heapD(3,4) [OF wf, of d] wf_heapD(3) [OF wf c] hdr keep by (auto split: if_splits)
next
  fix p obj assume "h_obj (set_cache c (cache\<lparr>c_refcnt := n\<rparr>) h) p = Some obj"
  then have w: "wf_obj i h refs p obj" using wf_heapD(1) [OF wf] by simp
  then show "wf_obj i (set_cache c (cache\<lparr>c_refcnt := n\<rparr>) h) refs p obj"
    using c by (auto simp: wf_obj_def cache_refs_def split: option.splits)
next
  fix q assume "h_obj (set_cache c (cache\<lparr>c_refcnt := n\<rparr>) h) q = None"
  then show "refs q = 0" using wf_heapD(2) [OF wf] by simp
qed

lemma empty_table_wf:
  assumes "0 < sz" "sz < 2147483648"
  shows "wf_table ops keyed i h \<lparr>ht_size = sz, ht_nodes = replicate (nat sz) []\<rparr> {#}"
  using assms by (auto simp: wf_table_def table_objs_def)

lemma cache_alloc_wf:
  assumes wf: "wf_heap ops keyed i cops h refs" and t: "sane_types ops i cops"
    and c: "h_cache h c = None" "co_obj_ops (cops j) = Some i"
  shows "\<exists>h'. nl_cache_alloc ops cops (Some c) a1 a2 j h = Inr (Some c, h') \<and> wf_heap ops keyed i cops h' refs"
proof -
  let ?sz = "if co_hash_size (cops j) \<noteq> 0 then co_hash_size (cops j) else NL_MAX_HASH_ENTRIES"
  let ?cache = "\<lparr>c_items = [], c_nitems = 0, c_iarg1 = 0, c_iarg2 = 0, c_refcnt = 1, c_flags = co_flags (cops j),
    c_hashtable = nl_hash_table_alloc a1 a2 ?sz, c_ops = j\<rparr>"
  have "0 \<le> co_hash_size (cops j) \<and> co_hash_size (cops j) < 2147483648" using t by (simp add: sane_types_def)
  then have "0 < ?sz" "?sz < 2147483648" by (auto simp: NL_MAX_HASH_ENTRIES_def)
  note T = empty_table_wf [OF this]
  have "wf_cache ops keyed i h c ?cache"
    using T by (auto simp: wf_cache_def nl_hash_table_alloc_def distinct_ids_def split: if_splits)
  then have "wf_heap ops keyed i cops (set_cache c ?cache h) refs" using c by (intro set_empty_cache_wf [OF wf]) auto
  then show ?thesis using c(2) kg_set by (simp add: nl_cache_alloc_def Let_def)
qed

lemma cache_free_wf:
  assumes wf: "wf_heap ops keyed i cops h refs" and c: "h_cache h c = Some cache"
  shows "\<exists>h'. nl_cache_free ops (Some c) h = Inr h' \<and> wf_heap ops keyed i cops h' refs"
proof -
  let ?h1 = "set_cache c (cache\<lparr>c_refcnt := c_refcnt cache - 1\<rparr>) h"
  have wf1: "wf_heap ops keyed i cops ?h1 refs" by (rule cache_hdr_wf [OF wf c])
  show ?thesis
  proof (cases "c_refcnt cache - 1 \<le> 0")
    case True
    obtain h2 cache2 where h2: "nl_cache_clear ops c ?h1 = Inr h2" "wf_heap ops keyed i cops h2 refs"
        "h_cache h2 c = Some cache2" "c_items cache2 = []"
      using clear_wf [OF wf1] by fastforce
    have "nl_hash_table_free ops ht h2 = Inr h2" if "c_hashtable cache2 = Some ht" for ht
    proof -
      have "image_mset hn_obj (mset (concat (ht_nodes ht))) = {#}"
        using wf_heapD(4) [OF h2(2,3)] h2(4) that by (simp add: wf_cache_def wf_table_def table_objs_def)
      then have "concat (ht_nodes ht) = []" by (simp only: image_mset_is_empty_iff mset_zero_iff)
      then show ?thesis by (simp only: nl_hash_table_free_def put_nodes.simps)
    qed
    then have "(case c_hashtable cache2 of None \<Rightarrow> Inr h2 | Some ht \<Rightarrow> nl_hash_table_free ops ht h2) = Inr h2"
      by (cases "c_hashtable cache2") auto
    then have "cache_free ops c ?h1 = Inr (h2\<lparr>h_cache := (h_cache h2)(c := None)\<rparr>)"
      using h2(1,3) by (simp add: cache_free_def)
    then show ?thesis using True c set_empty_cache_wf [OF h2(2), of c None] h2(3,4)
      by (simp add: nl_cache_free_def Let_def)
  next
    case False
    then show ?thesis using c wf1 by (simp add: nl_cache_free_def Let_def)
  qed
qed

text \<open>What \<open>cache_add_wf\<close> says of the invariant, success or not.\<close>

lemma cache_add_any_wf:
  assumes "wf_heap ops keyed i cops h refs" "h_cache h c = Some cache"
    and "h_obj h p = Some obj" "ce_cache obj = None" "0 < refs p" "keyed obj"
  shows "\<exists>ret h'. cache_add ops a c p h = Inr (ret, h') \<and>
    wf_heap ops keyed i cops h' (if ret < 0 then refs else refs(p := refs p - 1))"
proof -
  note A = cache_add_wf [OF assms, of a]
  show ?thesis
  proof (cases "c_hashtable cache \<noteq> None \<and> (\<exists>q \<in> set (c_items cache). ident ops (the (h_obj h q)) obj)")
    case True
    then have "cache_add ops a c p h = Inr (neg_err NLE_EXIST, h)" using A by presburger
    then show ?thesis using assms(1) by (simp add: neg_err_def)
  next
    case dup: False
    show ?thesis
    proof (cases "c_hashtable cache \<noteq> None \<and> \<not> a")
      case True
      then have "cache_add ops a c p h = Inr (neg_err NLE_NOMEM, h)" using A dup by presburger
      then show ?thesis using assms(1) by (simp add: neg_err_def)
    next
      case False
      obtain h' where "cache_add ops a c p h = Inr (0, h')" "wf_heap ops keyed i cops h' (refs(p := refs p - 1))"
        using A unfolding if_not_P [OF dup] if_not_P [OF False] by (elim exE conjE) (rule that)
      then show ?thesis by simp
    qed
  qed
qed

lemma move_any_wf:
  assumes wf: "wf_heap ops keyed i cops h refs" and c: "h_cache h c = Some cache"
    and p: "h_obj h p = Some obj" "keyed obj"
  shows "\<exists>ret h'. nl_cache_move ops cops a c p h = Inr (ret, h') \<and>
    wf_heap ops keyed i cops h' (if ret < 0 then refs(p := refs p + 1) else refs)"
proof -
  note w = wf_heapD(1) [OF wf p(1)] and g = get_wf [OF wf p(1)]
  let ?obj1 = "obj\<lparr>ce_refcnt := ce_refcnt obj + 1\<rparr>"
  let ?h1 = "set_obj p ?obj1 h" and ?refs1 = "refs(p := refs p + 1)"
  have o: "ce_ops obj = Some i" using w by (simp add: wf_obj_def)
  have pos: "0 < ?refs1 p" using w by (simp add: wf_obj_def)
  obtain h2 obj2 cache2 where h2: "(if ce_linked obj then nl_cache_remove ops p ?h1 else Inr ?h1) = Inr h2"
      "wf_heap ops keyed i cops h2 ?refs1" "h_cache h2 c = Some cache2" "h_obj h2 p = Some obj2" "ce_cache obj2 = None" "keyed obj2"
  proof (cases "ce_cache obj")
    case None
    then have "nl_cache_remove ops p ?h1 = Inr ?h1" by (simp add: nl_cache_remove_def)
    then show ?thesis using that [of ?h1 cache ?obj1] g(2) c None keyed_contents [of ?obj1 obj] p(2) by simp
  next
    case (Some d)
    have l: "ce_linked obj" using unlinked_uncached [OF wf p(1)] Some by auto
    let ?obj2 = "?obj1\<lparr>ce_cache := None, ce_refcnt := refs p + 1\<rparr>"
    have "unlinked ?refs1 p ?obj1 = Some ?obj2" using pos by (simp add: unlinked_def)
    then obtain h2 cache' where "nl_cache_remove ops p ?h1 = Inr h2" "wf_heap ops keyed i cops h2 ?refs1"
        "h_cache h2 = (h_cache ?h1)(d \<mapsto> cache')" "h_obj h2 = (h_obj ?h1)(p \<mapsto> ?obj2)"
      using remove_wf [OF g(2), of p ?obj1 d] Some by auto
    then show ?thesis
      using that [of h2 "if c = d then cache' else cache" ?obj2] l c keyed_contents [of ?obj2 obj] p(2)
      by (simp add: same_contents_def)
  qed
  have "nl_cache_move ops cops a c p h = cache_add ops a c p h2"
    using c p(1) g(1) wf_heapD(3) [OF wf c] o h2(1) by (simp add: nl_cache_move_def split: if_splits)
  moreover have "?refs1(p := ?refs1 p - 1) = refs" by auto
  ultimately show ?thesis using cache_add_any_wf [OF h2(2-5) pos h2(6), of a] by (simp only:)
qed

lemma add_any_wf:
  assumes wf: "wf_heap ops keyed i cops h refs" and c: "h_cache h c = Some cache"
    and p: "h_obj h p = Some obj" "\<not> ce_linked obj" "0 < refs p" "keyed obj"
  shows "\<exists>ret h'. nl_cache_add ops cops a b c p h = Inr (ret, h') \<and> wf_heap ops keyed i cops h' refs"
proof -
  note A = add_wf [OF assms, of a b]
  show ?thesis
  proof (cases "c_hashtable cache \<noteq> None \<and> (\<exists>q \<in> set (c_items cache). ident ops (the (h_obj h q)) obj)")
    case True
    then show ?thesis using A wf by auto
  next
    case dup: False
    show ?thesis
    proof (cases "c_hashtable cache \<noteq> None \<and> \<not> a")
      case True
      then show ?thesis using A dup wf by auto
    next
      case False
      obtain h' where "nl_cache_add ops cops a b c p h = Inr (0, h')" "wf_heap ops keyed i cops h' refs"
        using A unfolding if_not_P [OF dup] if_not_P [OF False] by (elim exE conjE) (rule that)
      then show ?thesis by simp
    qed
  qed
qed

lemma run_op_wf:
  assumes wf: "wf_heap ops keyed i cops h refs" and t: "sane_types ops i cops" and al: "allowed ops i cops keyed opn h refs"
  shows "\<exists>h' refs'. run_op ops i cops opn h refs = Inr (h', refs') \<and> wf_heap ops keyed i cops h' refs'"
proof (cases opn)
  case (ObjAlloc p)
  then show ?thesis using al t alloc_wf [OF wf]
    by (auto simp: nl_object_alloc_def sane_types_def Let_def)
next
  case (ObjFill p d m t)
  then show ?thesis using al fill_wf [OF wf, of p] by (auto split: option.splits)
next
  case (ObjGet p)
  then show ?thesis using al get_wf [OF wf] by auto
next
  case (ObjPut p)
  then obtain obj where "h_obj h p = Some obj" "0 < refs p" using al wf_heap_alive [OF wf] by auto
  then show ?thesis using ObjPut put_wf [OF wf] by auto
next
  case (CacheAlloc c a1 a2 j)
  then show ?thesis using al cache_alloc_wf [OF wf t, of c j a1 a2] by auto
next
  case (CacheGet c)
  then show ?thesis using al cache_hdr_wf [OF wf, of c] by (auto simp: nl_cache_get_def)
next
  case (CacheFree c)
  then show ?thesis using al cache_free_wf [OF wf, of c] by auto
next
  case (CacheAdd a c p)
  then obtain cache obj where "h_cache h c = Some cache" "h_obj h p = Some obj" "\<not> ce_linked obj" "0 < refs p" "keyed obj"
    using al by (auto split: option.splits)
  then show ?thesis using CacheAdd add_any_wf [OF wf, of c cache p obj a None] by auto
next
  case (CacheMove a c p)
  then obtain cache obj where "h_cache h c = Some cache" "h_obj h p = Some obj" "keyed obj"
    using al by (auto split: option.splits)
  then obtain ret h' where "nl_cache_move ops cops a c p h = Inr (ret, h')"
      "wf_heap ops keyed i cops h' (if ret < 0 then refs(p := refs p + 1) else refs)"
    using move_any_wf [OF wf, of c cache p obj a] by blast
  then show ?thesis using CacheMove by simp
next
  case (CacheRemove p)
  then obtain obj where obj: "h_obj h p = Some obj" using al by auto
  show ?thesis
  proof (cases "ce_cache obj")
    case None
    then show ?thesis using CacheRemove obj wf by (simp add: nl_cache_remove_def)
  next
    case (Some c)
    then show ?thesis using CacheRemove remove_wf [OF wf obj Some] by auto
  qed
next
  case (CacheSearch c p)
  then obtain cache obj where c: "h_cache h c = Some cache" "h_obj h p = Some obj" using al by auto
  from search_wf [OF wf c] show ?thesis
  proof
    assume "\<exists>q obj'. q \<in> set (c_items cache) \<and> h_obj h q = Some obj' \<and> ident ops obj' obj \<and>
      nl_cache_search ops c p h = Inr (Some q, set_obj q (obj'\<lparr>ce_refcnt := ce_refcnt obj' + 1\<rparr>) h)"
    then obtain q obj' where q: "h_obj h q = Some obj'"
      "nl_cache_search ops c p h = Inr (Some q, set_obj q (obj'\<lparr>ce_refcnt := ce_refcnt obj' + 1\<rparr>) h)"
      by (elim exE conjE) (rule that)
    then show ?thesis using CacheSearch get_wf(2) [OF wf q(1)] by simp
  next
    assume "nl_cache_search ops c p h = Inr (None, h) \<and>
      (keyed obj \<longrightarrow> (\<forall>q \<in> set (c_items cache). \<not> ident ops (the (h_obj h q)) obj))"
    then show ?thesis using CacheSearch wf by simp
  qed
next
  case (CacheClear c)
  then show ?thesis using al clear_wf [OF wf, of c] by fastforce
qed

lemma reach_wf:
  assumes "cache_reach ops i cops keyed h refs" "sane_types ops i cops"
  shows "wf_heap ops keyed i cops h refs"
  using assms
proof (induction rule: cache_reach.induct)
  case start
  show ?case by (rule wf_heap_empty)
next
  case (step h refs opn h' refs')
  then show ?case using run_op_wf [of cops h refs opn] by auto
qed

text \<open>Held and lost references together are those that no cache has.\<close>

lemma run_op_lost:
  assumes "run_op ops i cops opn h held = Inr (h', held')" "allowed ops i cops keyed opn h held" "\<not> failing_move ops cops opn h"
    and "\<And>p. h_obj h p = None \<Longrightarrow> lost p = 0"
  shows "run_op ops i cops opn h (\<lambda>p. held p + lost p) = Inr (h', \<lambda>p. held' p + lost p)"
proof (cases opn)
  case (ObjAlloc p)
  then have "lost p = 0" using assms(2,4) by simp
  moreover have "held' = held(p := 1)" "nl_object_alloc ops (Some p) i h = Inr (Some p, h') \<or> nl_object_alloc ops (Some p) i h = Inr (None, h')"
    using assms(1) ObjAlloc by (auto simp: and_then_Inr_iff nl_object_alloc_def Let_def split: if_splits)
  ultimately show ?thesis using ObjAlloc by (auto simp: fun_eq_iff)
next
  case (CacheMove a c p)
  then show ?thesis using assms(1,3) by (auto simp: and_then_Inr_iff fun_eq_iff failing_move_def)
next
  case (CacheSearch c p)
  then obtain q where "nl_cache_search ops c p h = Inr (q, h')" "held' = (case q of None \<Rightarrow> held | Some q \<Rightarrow> held(q := held q + 1))"
    using assms(1) by (auto simp: and_then_Inr_iff)
  then show ?thesis using CacheSearch by (auto simp: fun_eq_iff split: option.splits)
next
  case (ObjGet p)
  then have "nl_object_get p h = Inr h'" "held' = held(p := held p + 1)" using assms(1) by (auto simp: and_then_Inr_iff)
  then show ?thesis using ObjGet by (auto simp: fun_eq_iff)
next
  case (ObjPut p)
  then have "nl_object_put ops (Some p) h = Inr h'" "held' = held(p := held p - 1)" using assms(1) by (auto simp: and_then_Inr_iff)
  then show ?thesis using ObjPut by (auto simp: fun_eq_iff)
qed (use assms(1) in \<open>auto simp: and_then_Inr_iff fun_eq_iff\<close>)

lemma run_op_held:
  assumes "run_op ops i cops opn h held = Inr (h', held')" "allowed ops i cops keyed opn h held" "\<not> failing_move ops cops opn h"
    and "\<And>p. 0 \<le> held p"
  shows "0 \<le> held' p"
proof (cases opn)
  case (ObjPut q)
  then have "held' = held(q := held q - 1)" "0 < held q" using assms(1,2) by (auto simp: and_then_Inr_iff)
  then show ?thesis using assms(4) [of p] by simp
next
  case (CacheMove a c q)
  then show ?thesis using assms(1,3) assms(4) [of p] by (auto simp: failing_move_def and_then_Inr_iff)
next
  case (CacheSearch c q)
  then show ?thesis using assms(1) assms(4) [of p] by (auto simp: and_then_Inr_iff split: option.splits)
qed (use assms(1) assms(4) [of p] in \<open>auto simp: and_then_Inr_iff split: option.splits\<close>)

lemma allowed_mono:
  assumes "allowed ops i cops keyed opn h held" "\<And>p. held p \<le> refs p"
  shows "allowed ops i cops keyed opn h refs"
proof -
  have "0 < held p \<Longrightarrow> 0 < refs p" for p using assms(2) [of p] by linarith
  then show ?thesis using assms(1) by (cases opn) auto
qed

lemma user_reach_counts:
  assumes "user_reach ops i cops keyed h held lost" "sane_types ops i cops"
  shows "cache_reach ops i cops keyed h (\<lambda>p. held p + lost p) \<and> (\<forall>p. 0 \<le> held p \<and> 0 \<le> lost p)"
  using assms
proof (induction rule: user_reach.induct)
  case start
  show ?case by (simp add: cache_reach.start)
next
  case (call h held lost opn h' held')
  let ?refs = "\<lambda>p. held p + lost p"
  have r: "cache_reach ops i cops keyed h ?refs" and n: "\<And>p. 0 \<le> held p" "\<And>p. 0 \<le> lost p" using call by auto
  have "lost p = 0" if "h_obj h p = None" for p
    using wf_heapD(2) [OF reach_wf [OF r call.prems] that] n [of p] by simp
  from run_op_lost [OF call(4,2,3) this] have "cache_reach ops i cops keyed h' (\<lambda>p. held' p + lost p)"
    using allowed_mono [OF call(2), of ?refs] n by (intro cache_reach.step [OF r]) auto
  then show ?case using run_op_held [OF call(4,2,3) n(1)] n(2) by simp
next
  case (leak h held lost a c p ret h')
  let ?refs = "\<lambda>p. held p + lost p"
  have r: "cache_reach ops i cops keyed h ?refs" and n: "\<And>p. 0 \<le> held p" "\<And>p. 0 \<le> lost p" using leak by auto
  have "?refs(p := ?refs p + 1) = (\<lambda>x. held x + (lost(p := lost p + 1)) x)" by auto
  then have "run_op ops i cops (CacheMove a c p) h ?refs = Inr (h', \<lambda>x. held x + (lost(p := lost p + 1)) x)"
    using leak(3,4) by simp
  then have "cache_reach ops i cops keyed h' (\<lambda>x. held x + (lost(p := lost p + 1)) x)"
    using allowed_mono [OF leak(2), of ?refs] n by (intro cache_reach.step [OF r, where opn = "CacheMove a c p"]) auto
  moreover have "0 \<le> (lost(p := lost p + 1)) x" for x using n(2) [of p] n(2) [of x] by simp
  ultimately show ?case using n(1) by blast
qed

end

section \<open>Properties\<close>

text \<open>The types of the examples: the object type and the cache type \<open>route/netconf\<close>.\<close>

abbreviation nc_ops :: "rtnl_netconf ops" where "nc_ops \<equiv> \<lambda>_. netconf_obj_ops 0"
abbreviation nc_cops :: cops where "nc_cops \<equiv> \<lambda>_. rtnl_netconf_ops"

abbreviation nc_data :: "int \<Rightarrow> int \<Rightarrow> rtnl_netconf" where
  "nc_data idx fwd \<equiv> \<lparr>nc_family = AF_INET, nc_ifindex = idx, nc_rp_filter = 0, nc_forwarding = fwd, nc_mc_forwarding = 0,
    nc_proxy_neigh = 0, nc_ignore_routes_linkdown = 0, nc_input = 0\<rparr>"

lemma nc_sane: "sane_types nc_ops 0 nc_cops"
  by (simp add: sane_types_def netconf_obj_ops_def rtnl_netconf_ops_def SIZEOF_NL_OBJECT_def)

text \<open>A heap with a cache (address 0) and, in no cache, two objects for interface 7 (addresses 1 and 2).\<close>

definition nc_obj :: "int \<Rightarrow> int \<Rightarrow> netconf_obj" where
  "nc_obj fwd n = \<lparr>ce_refcnt = n, ce_ops = Some 0, ce_cache = None, ce_linked = False, ce_msgtype = RTM_NEWNETCONF,
    ce_flags = 0, ce_mask = 11, ce_data = nc_data 7 fwd\<rparr>"

definition nc_cache :: "bool \<Rightarrow> nl_cache" where
  "nc_cache a = \<lparr>c_items = [], c_nitems = 0, c_iarg1 = 0, c_iarg2 = 0, c_refcnt = 1, c_flags = 0,
    c_hashtable = nl_hash_table_alloc a True NL_MAX_HASH_ENTRIES, c_ops = 0\<rparr>"

definition nc_heap :: "bool \<Rightarrow> rtnl_netconf heap" where
  "nc_heap a = \<lparr>h_obj = [1 \<mapsto> nc_obj 0 1, 2 \<mapsto> nc_obj 1 1], h_cache = [0 \<mapsto> nc_cache a]\<rparr>"

definition nc_refs :: "nat \<Rightarrow> int" where "nc_refs = (\<lambda>_. 0)(1 := 1, 2 := 1)"

lemmas nc_run = nl_object_alloc_def nl_cache_alloc_def netconf_obj_ops_def rtnl_netconf_ops_def SIZEOF_NL_OBJECT_def
  nc_heap_def nc_refs_def nc_obj_def nc_cache_def

fun run_ops :: "'d ops \<Rightarrow> nat \<Rightarrow> cops \<Rightarrow> ('d nl_object \<Rightarrow> bool) \<Rightarrow> 'd cache_op list \<Rightarrow> 'd heap \<Rightarrow> (nat \<Rightarrow> int) \<Rightarrow>
    ('d heap \<times> (nat \<Rightarrow> int)) option" where
  "run_ops ops i cops keyed [] h refs = Some (h, refs)"
| "run_ops ops i cops keyed (opn # opns) h refs =
     (if allowed ops i cops keyed opn h refs
      then case run_op ops i cops opn h refs of Inl _ \<Rightarrow> None
        | Inr (h, refs) \<Rightarrow> run_ops ops i cops keyed opns h refs
      else None)"

lemma run_ops_reach:
  "run_ops ops i cops keyed opns h refs = Some (h', refs') \<Longrightarrow> cache_reach ops i cops keyed h refs \<Longrightarrow>
    cache_reach ops i cops keyed h' refs'"
  by (induction opns arbitrary: h refs) (auto split: if_splits sum.splits intro: cache_reach.step)

lemma nc_reach: "cache_reach nc_ops 0 nc_cops nc_keyed (nc_heap a) nc_refs"
proof (rule run_ops_reach [OF _ cache_reach.start])
  let ?opns = "[CacheAlloc 0 a True 0, ObjAlloc 1, ObjFill 1 (nc_data 7 0) 11 RTM_NEWNETCONF,
    ObjAlloc 2, ObjFill 2 (nc_data 7 1) 11 RTM_NEWNETCONF]"
  show "run_ops nc_ops 0 nc_cops nc_keyed ?opns \<lparr>h_obj = (\<lambda>_. None), h_cache = (\<lambda>_. None)\<rparr> (\<lambda>_. 0) =
      Some (nc_heap a, nc_refs)"
    by (simp add: nc_run Let_def fun_upd_twist)
qed

text \<open>
  C11. Memory safety of objects and caches: in every state that a program reaches by allowed calls,
  every allowed call returns; no assertion of the library fails and no freed object or cache is
  touched. This holds for every object type whose hash and comparison functions agree
  (\<open>keyed_type\<close>).
\<close>

theorem cache_calls_never_fault:
  assumes "keyed_type ops i keyed kg" "sane_types ops i cops"
    and "cache_reach ops i cops keyed h refs" "allowed ops i cops keyed opn h refs"
  shows "\<exists>h' refs'. run_op ops i cops opn h refs = Inr (h', refs')"
  using keyed_type.run_op_wf [OF assms(1) keyed_type.reach_wf [OF assms(1,3,2)] assms(2,4)] by blast

theorem cache_calls_never_fault_witness:
  "\<exists>h' refs'. run_op nc_ops 0 nc_cops (CacheAdd True 0 1) (nc_heap True) nc_refs = Inr (h', refs')"
proof (rule cache_calls_never_fault [OF netconf.keyed_type_axioms nc_sane nc_reach])
  show "allowed nc_ops 0 nc_cops nc_keyed (CacheAdd True 0 1) (nc_heap True) nc_refs"
    by (simp add: nc_heap_def nc_refs_def nc_obj_def nc_keyed_def)
qed

text \<open>
  C12. Reference counts are exact: in every state that a program reaches, the count of an object is the number of
  references its users hold, plus one for the list of its cache and one more for the hash table of
  that cache, plus the number of references that calls of \<open>nl_cache_move\<close> for it have leaked by failing (the function
  takes a reference and does not give it back when it cannot add the object, for instance because the new cache has
  an identical one). So without such calls the counts are those of users and caches alone, and in every case an object
  that has no users, is in no cache and has lost no reference has been freed.
\<close>

theorem cache_refcounts_exact:
  assumes "keyed_type ops i keyed kg" "sane_types ops i cops" "user_reach ops i cops keyed h held lost"
    and "h_obj h p = Some obj"
  shows "ce_refcnt obj = held p + cache_refs h obj + lost p \<and> 0 \<le> held p \<and> 0 \<le> lost p \<and>
    (held p = 0 \<and> lost p = 0 \<longrightarrow> ce_cache obj \<noteq> None)"
proof -
  note u = keyed_type.user_reach_counts [OF assms(1,3,2)]
  show ?thesis
    using wf_heapD(1) [OF keyed_type.reach_wf [OF assms(1) conjunct1 [OF u] assms(2)] assms(4)] u by (cases "ce_cache obj") (auto simp: wf_obj_def cache_refs_def)
qed

text \<open>A program that fails to move an object into a cache that has an identical one.\<close>

lemma user_reach_no_moves:
  assumes "run_ops ops i cops keyed opns h held = Some (h', held')" "user_reach ops i cops keyed h held lost"
    and "\<forall>opn \<in> set opns. \<forall>a c p. opn \<noteq> CacheMove a c p"
  shows "user_reach ops i cops keyed h' held' lost"
  using assms
proof (induction opns arbitrary: h held)
  case (Cons opn opns)
  then have "\<not> failing_move ops cops opn h" by (cases opn) (auto simp: failing_move_def)
  then show ?case using Cons by (auto split: if_splits sum.splits intro: user_reach.call)
qed simp

theorem cache_refcounts_exact_witness:
  "\<exists>ret h' obj. nl_cache_move nc_ops nc_cops False 0 1 (nc_heap True) = Inr (ret, h') \<and> ret < 0 \<and> h_obj h' 1 = Some obj \<and>
    ce_refcnt obj = 1 + cache_refs h' obj + 1"
proof -
  let ?opns = "[CacheAlloc 0 True True 0, ObjAlloc 1, ObjFill 1 (nc_data 7 0) 11 RTM_NEWNETCONF,
    ObjAlloc 2, ObjFill 2 (nc_data 7 1) 11 RTM_NEWNETCONF]"
  have "run_ops nc_ops 0 nc_cops nc_keyed ?opns \<lparr>h_obj = (\<lambda>_. None), h_cache = (\<lambda>_. None)\<rparr> (\<lambda>_. 0) =
      Some (nc_heap True, nc_refs)"
    by (simp add: nc_run Let_def fun_upd_twist)
  then have u: "user_reach nc_ops 0 nc_cops nc_keyed (nc_heap True) nc_refs (\<lambda>_. 0)"
    by (rule user_reach_no_moves [OF _ user_reach.start]) auto
  obtain ret h' where m: "ret < 0" "nl_cache_move nc_ops nc_cops False 0 1 (nc_heap True) = Inr (ret, h')"
      "h_obj h' 1 \<noteq> None"
  proof -
    have c: "h_cache (nc_heap True) 0 = Some (nc_cache True)" "h_obj (nc_heap True) 1 = Some (nc_obj 0 1)" "ce_cache (nc_obj 0 1) = None"
      "nc_keyed (nc_obj 0 1)" "c_hashtable (nc_cache True) \<noteq> None"
      by (simp_all add: nc_heap_def nc_cache_def nc_obj_def nc_keyed_def nl_hash_table_alloc_def)
    then show thesis
      using netconf.move_wf [OF netconf.reach_wf [OF nc_reach nc_sane] c(1-4), of False] that by auto
  qed
  have al: "allowed nc_ops 0 nc_cops nc_keyed (CacheMove False 0 1) (nc_heap True) nc_refs"
    by (simp add: nc_heap_def nc_refs_def nc_obj_def nc_keyed_def)
  obtain obj where "h_obj h' 1 = Some obj" using m(3) by blast
  then show ?thesis
    using cache_refcounts_exact [OF netconf.keyed_type_axioms nc_sane user_reach.leak [OF u al m(2,1)], of 1 obj] m(1,2)
    by (auto simp: nc_refs_def)
qed

text \<open>
  C22. Searching with and without a hash table comes to the same: in every reachable state
  \<open>nl_cache_search\<close> returns an object of the cache that is identical to the needle, with one more
  reference, if the list has one, and nothing otherwise.
\<close>

theorem cache_search_complete:
  assumes "keyed_type ops i keyed kg" "sane_types ops i cops" "cache_reach ops i cops keyed h refs"
    and "h_cache h c = Some cache" "h_obj h p = Some needle" "keyed needle"
  shows "if \<exists>q \<in> set (c_items cache). ident ops (the (h_obj h q)) needle
    then \<exists>q obj. q \<in> set (c_items cache) \<and> h_obj h q = Some obj \<and> ident ops obj needle \<and>
      nl_cache_search ops c p h = Inr (Some q, set_obj q (obj\<lparr>ce_refcnt := ce_refcnt obj + 1\<rparr>) h)
    else nl_cache_search ops c p h = Inr (None, h)"
  using keyed_type.search_wf [OF assms(1) keyed_type.reach_wf [OF assms(1,3,2)] assms(4,5)] assms(6) by force

theorem cache_search_complete_witness:
  "nl_cache_search nc_ops 0 1 (nc_heap True) = Inr (None, nc_heap True)"
  using cache_search_complete [OF netconf.keyed_type_axioms nc_sane nc_reach [of True], of 0 "nc_cache True" 1 "nc_obj 0 1"]
  by (simp add: nc_heap_def nc_cache_def nc_keyed_def nc_obj_def)

text \<open>
  C23. Events update a cache as a map from identities to objects: with a hash table, including an
  event \<open>NL_ACT_NEW\<close> leaves exactly one object with the identity of the event's object, in place of
  an older one if there was one; including \<open>NL_ACT_DEL\<close> leaves none; all objects with another
  identity stay as they were, and all references that the operation takes are given back. The
  callback is any one that only observes; the update function of the type refuses delete events.
\<close>

theorem cache_include_updates_map:
  assumes "updatable_type ops i keyed kg" "sane_types ops i cops" "cache_reach ops i cops keyed h refs"
    and "h_cache h c = Some cache" "c_hashtable cache \<noteq> None"
    and "h_obj h p = Some obj" "ce_cache obj = None" "keyed obj"
    and "act = NL_ACT_NEW \<or> act = NL_ACT_DEL"
    and "act = NL_ACT_DEL \<longrightarrow> (\<forall>f a. oo_update (ops i) = Some f \<longrightarrow> fst (f a obj) \<noteq> 0)"
  shows "\<exists>h' u' cache'. cache_include ops cops True b c p act (Some (observer g)) None h u = Inr (0, h', u') \<and>
    wf_heap ops keyed i cops h' refs \<and> h_cache h' c = Some cache' \<and> map_changed ops obj (act = NL_ACT_NEW) h cache h' cache'"
proof -
  note wf = keyed_type.reach_wf [OF updatable_type.axioms(1) [OF assms(1)] assms(3,2)]
  show ?thesis
  proof (cases "\<exists>q \<in> set (c_items cache). ident ops (the (h_obj h q)) obj")
    case True
    then obtain q where "q \<in> set (c_items cache)" "ident ops (the (h_obj h q)) obj" by blast
    then show ?thesis by (rule updatable_type.include_present [OF assms(1) wf assms(4-10)])
  next
    case False
    then have "\<forall>q \<in> set (c_items cache). \<not> ident ops (the (h_obj h q)) obj" by blast
    from updatable_type.include_absent [OF assms(1) wf assms(4,6-9) this] show ?thesis .
  qed
qed

theorem cache_include_updates_map_witness:
  "\<exists>h' u' cache'. cache_include nc_ops nc_cops True None 0 2 NL_ACT_NEW (Some (observer (\<lambda>c p act u. u + (1::int)))) None
      (nc_heap True) 0 = Inr (0, h', u') \<and>
    wf_heap nc_ops nc_keyed 0 nc_cops h' nc_refs \<and> h_cache h' 0 = Some cache' \<and>
    map_changed nc_ops (nc_obj 1 1) (NL_ACT_NEW = NL_ACT_NEW) (nc_heap True) (nc_cache True) h' cache'"
  by (rule cache_include_updates_map [OF netconf.updatable_type_axioms nc_sane nc_reach])
    (simp_all add: nc_heap_def nc_cache_def nc_obj_def nc_keyed_def nl_hash_table_alloc_def NL_ACT_NEW_def NL_ACT_DEL_def)

section \<open>Two defects\<close>

text \<open>
  A failing \<open>nl_cache_move\<close> keeps the reference it took: with an object for interface 7 in the cache,
  moving another one there fails and its count stays raised, although no one owns the reference.
\<close>

theorem nl_cache_move_leaks:
  assumes "keyed_type ops i keyed kg" "wf_heap ops keyed i cops h refs" "h_cache h c = Some cache" "c_hashtable cache \<noteq> None"
    and "h_obj h p = Some obj" "ce_cache obj = None" "keyed obj"
    and "q \<in> set (c_items cache)" "ident ops (the (h_obj h q)) obj"
  shows "\<exists>ret. ret < 0 \<and>
    nl_cache_move ops cops a c p h = Inr (ret, set_obj p (obj\<lparr>ce_refcnt := ce_refcnt obj + 1\<rparr>) h)"
proof -
  have c: "c_hashtable cache \<noteq> None \<and> ((\<exists>q \<in> set (c_items cache). ident ops (the (h_obj h q)) obj) \<or> \<not> a)"
    using assms(4,8,9) by blast
  show ?thesis using keyed_type.move_wf [OF assms(1-3,5-7), of a] unfolding if_P [OF c] by blast
qed

text \<open>
  Cloning an object of type \<open>route/netconf\<close> that is in a cache gives an object whose header says that
  it is in that cache and that it has as many references as the original.
\<close>

theorem netconf_clone_copies_header:
  assumes "h_obj h p = Some obj" "ce_ops obj = Some 0" "p \<noteq> q"
  shows "\<exists>h' new. nl_object_clone nc_ops (Some q) (Some p) h = Inr (Some q, h') \<and> h_obj h' q = Some new \<and>
    ce_refcnt new = ce_refcnt obj \<and> ce_cache new = ce_cache obj \<and> ce_linked new = ce_linked obj"
  using assms
  by (simp add: nl_object_clone_def nl_object_alloc_def netconf_obj_ops_def netconf_clone_def SIZEOF_NL_OBJECT_def Let_def)

end
