(* ===== verification/Nl_Cache_Sync.thy ===== *)
theory Nl_Cache_Sync
  imports Nl_Cache_Steps Nl_Recv
begin

unbundle bit_operations_syntax

text \<open>
  The exchange of caches with the kernel (\<open>lib/cache.c\<close>: parsing, picking up, refilling and
  resynchronising; \<open>lib/nl.c\<close>: \<open>nl_pickup\<close>). The functions of a cache type that are not data,
  \<open>co_msg_parser\<close> and \<open>co_request_update\<close>, are arguments. The state that the callbacks of
  \<open>recvmsgs\<close> work on is a heap with a user state \<open>'u\<close>, or the fault that stopped the program.
  The results of the loops that ask the kernel again after an interrupted dump are \<open>None\<close> when
  their fuel is used up.
\<close>

section \<open>Parsing messages\<close>

type_synonym ('d, 'u) hstate = "('d heap \<times> 'u) res"

text \<open>\<open>pp_cb\<close> gets a parsed object; a parser gets a message and a \<open>pp_cb\<close>.\<close>

type_synonym ('d, 'u) pp_cb = "nat \<Rightarrow> 'd heap \<Rightarrow> 'u \<Rightarrow> (int \<times> 'd heap \<times> 'u) res"

type_synonym ('d, 'u) msg_parser = "byte list \<Rightarrow> ('d, 'u) pp_cb \<Rightarrow> 'd heap \<Rightarrow> 'u \<Rightarrow> (int \<times> 'd heap \<times> 'u) res"

text \<open>The entry of a message type.\<close>

fun nl_msgtype_lookup :: "nl_msgtype list \<Rightarrow> int \<Rightarrow> nl_msgtype option" where
  "nl_msgtype_lookup [] t = None"
| "nl_msgtype_lookup (m # ms) t =
     (if mt_id m < 0 then None else if mt_id m = t then Some m else nl_msgtype_lookup ms t)"

fun parse_types ::
  "('d, 'u) msg_parser \<Rightarrow> nl_msgtype list \<Rightarrow> byte list \<Rightarrow> ('d, 'u) pp_cb \<Rightarrow> 'd heap \<Rightarrow> 'u \<Rightarrow> (int \<times> 'd heap \<times> 'u) res" where
  "parse_types parser [] buf pp h u = Inr (neg_err NLE_MSGTYPE_NOSUPPORT, h, u)"
| "parse_types parser (m # ms) buf pp h u =
     (if mt_id m < 0 then Inr (neg_err NLE_MSGTYPE_NOSUPPORT, h, u)
      else if mt_id m = nlmsg_type (nlh buf 0) then
        and_then (parser buf pp h u) (\<lambda>(err, h, u).
          if err \<noteq> neg_err NLE_OPNOTSUPP then Inr (err, h, u) else parse_types parser ms buf pp h u)
      else parse_types parser ms buf pp h u)"

definition nl_cache_parse ::
  "('d, 'u) msg_parser \<Rightarrow> nl_cache_ops \<Rightarrow> byte list \<Rightarrow> ('d, 'u) pp_cb \<Rightarrow> 'd heap \<Rightarrow> 'u \<Rightarrow> (int \<times> 'd heap \<times> 'u) res" where
  "nl_cache_parse parser cop buf pp h u =
     (if \<not> nlmsg_valid_hdr (nlh buf 0) (co_hdrsize cop) then Inr (neg_err NLE_MSG_TOOSHORT, h, u)
      else parse_types parser (co_msgtypes cop) buf pp h u)"

text \<open>\<open>allocs\<close> supplies the allocations (hash node, clone) that adding an object needs.\<close>

type_synonym 'd allocs = "nat \<Rightarrow> 'd heap \<Rightarrow> bool \<times> nat option"

definition pickup_cb :: "'d ops \<Rightarrow> cops \<Rightarrow> 'd allocs \<Rightarrow> nat \<Rightarrow> ('d, 'u) pp_cb" where
  "pickup_cb ops cops allocs c p h u =
     (case allocs p h of (a, b) \<Rightarrow>
        and_then (nl_cache_add ops cops a b c p h) (\<lambda>(err, h). Inr (err, h, u)))"

definition pickup_checkdup_cb :: "'d ops \<Rightarrow> cops \<Rightarrow> 'd allocs \<Rightarrow> nat \<Rightarrow> ('d, 'u) pp_cb" where
  "pickup_checkdup_cb ops cops allocs c p h u =
     and_then (nl_cache_search ops c p h) (\<lambda>(old, h).
     case old of
       None \<Rightarrow> pickup_cb ops cops allocs c p h u
     | Some q \<Rightarrow>
         and_then (nl_object_update ops q p h) (\<lambda>(err, h).
           if err = 0 then and_then (nl_object_put ops (Some q) h) (\<lambda>h. Inr (0, h, u))
           else
             and_then (nl_cache_remove ops q h) (\<lambda>h.
             and_then (nl_object_put ops (Some q) h) (\<lambda>h.
               pickup_cb ops cops allocs c p h u))))"

definition resync_cb ::
  "'d ops \<Rightarrow> cops \<Rightarrow> 'd allocs \<Rightarrow> nat \<Rightarrow> ('d, 'u) change_func option \<Rightarrow> ('d, 'u) change_func_v2 option \<Rightarrow> ('d, 'u) pp_cb" where
  "resync_cb ops cops allocs c change change_v2 p h u =
     (case allocs p h of (a, b) \<Rightarrow>
        (case change_v2 of
           Some f \<Rightarrow> nl_cache_include_v2 ops cops a b c p (Some f) h u
         | None \<Rightarrow> nl_cache_include ops cops a b c p change h u))"

definition nl_cache_parse_and_add ::
  "'d ops \<Rightarrow> cops \<Rightarrow> ('d, 'u) msg_parser \<Rightarrow> 'd allocs \<Rightarrow> nat \<Rightarrow> nl_msg \<Rightarrow> 'd heap \<Rightarrow> 'u \<Rightarrow> (int \<times> 'd heap \<times> 'u) res" where
  "nl_cache_parse_and_add ops cops parser allocs c msg h u =
     and_then (deref (h_cache h) c) (\<lambda>cache.
       nl_cache_parse parser (cops (c_ops cache)) (nm_nlh msg) (pickup_cb ops cops allocs c) h u)"

section \<open>Receiving\<close>

definition update_msg_parser ::
  "('d, 'u) msg_parser \<Rightarrow> nl_cache_ops \<Rightarrow> ('d, 'u) pp_cb \<Rightarrow> ('a, ('d, 'u) hstate) msg_cb" where
  "update_msg_parser parser cop pp msg arg s =
     (case s of Inl f \<Rightarrow> (NL_STOP, Inl f)
      | Inr (h, u) \<Rightarrow>
          (case nl_cache_parse parser cop (nm_nlh msg) pp h u of
             Inl f \<Rightarrow> (NL_STOP, Inl f)
           | Inr (ret, h, u) \<Rightarrow> (if ret = neg_err NLE_EXIST then NL_SKIP else ret, Inr (h, u))))"

text \<open>What the functions below return: error code, socket, heap and user state.\<close>

type_synonym ('d, 'u) synced = "(int \<times> nl_sock \<times> 'd heap \<times> 'u) res option"

definition sthen ::
  "('d, 'u) synced \<Rightarrow> (int \<Rightarrow> nl_sock \<Rightarrow> 'd heap \<Rightarrow> 'u \<Rightarrow> ('d, 'u) synced) \<Rightarrow> ('d, 'u) synced" where
  "sthen r k =
     (case r of None \<Rightarrow> None
      | Some (Inl f) \<Rightarrow> Some (Inl f)
      | Some (Inr (err, sk, h, u)) \<Rightarrow> k err sk h u)"

lemma sthen_simps [simp]:
  "sthen None k = None" "sthen (Some (Inl f)) k = Some (Inl f)"
  "sthen (Some (Inr (err, sk, h, u))) k = k err sk h u"
  by (simp_all add: sthen_def)

definition from_recv :: "(int \<times> nl_sock \<times> ('d, 'u) hstate) option \<Rightarrow> ('d, 'u) synced" where
  "from_recv r =
     (case r of None \<Rightarrow> None
      | Some (err, sk, s) \<Rightarrow> Some (case s of Inl f \<Rightarrow> Inl f | Inr (h, u) \<Rightarrow> Inr (err, sk, h, u)))"

text \<open>The socket layer as the functions see it: fuel, receive function, results of its allocations, and the
  callback set of the socket.\<close>

record ('a, 'd, 'u) link_layer =
  ll_fuel :: nat
  ll_recv :: "nl_sock \<Rightarrow> ('d, 'u) hstate \<Rightarrow> (recv_result \<times> nl_sock \<times> ('d, 'u) hstate) option"
  ll_clone :: bool
  ll_mem :: bool
  ll_cb :: "('a, ('d, 'u) hstate) nl_cb"

definition cache_pickup ::
  "('a, 'd, 'u) link_layer \<Rightarrow> ('d, 'u) msg_parser \<Rightarrow> cops \<Rightarrow> nat \<Rightarrow> ('d, 'u) pp_cb \<Rightarrow> nl_sock \<Rightarrow> 'd heap \<Rightarrow> 'u \<Rightarrow>
   ('d, 'u) synced" where
  "cache_pickup ll parser cops c pp sk h u =
     (case h_cache h c of
        None \<Rightarrow> Some (Inl Undef)
      | Some cache \<Rightarrow>
          (case nl_cb_clone (ll_clone ll) (ll_cb ll) of
             None \<Rightarrow> Some (Inr (neg_err NLE_NOMEM, sk, h, u))
           | Some cb \<Rightarrow>
               (let cb = ignore_err cb (nl_cb_set cb (int NL_CB_VALID) NL_CB_CUSTOM
                           (Some (update_msg_parser parser (cops (c_ops cache)) pp)) None)
                in from_recv (nl_recvmsgs (ll_fuel ll) (ll_recv ll) (ll_mem ll) cb sk (Inr (h, u))))))"

definition proto_ok :: "cops \<Rightarrow> nat \<Rightarrow> nl_sock \<Rightarrow> 'd heap \<Rightarrow> bool res" where
  "proto_ok cops c sk h =
     and_then (deref (h_cache h) c) (\<lambda>cache. Inr (s_proto sk = co_protocol (cops (c_ops cache))))"

definition nl_cache_pickup_dup ::
  "'d ops \<Rightarrow> cops \<Rightarrow> 'd allocs \<Rightarrow> ('a, 'd, 'u) link_layer \<Rightarrow> ('d, 'u) msg_parser \<Rightarrow> bool \<Rightarrow> nat \<Rightarrow> nl_sock \<Rightarrow> 'd heap \<Rightarrow> 'u \<Rightarrow>
   ('d, 'u) synced" where
  "nl_cache_pickup_dup ops cops allocs ll parser checkdup c sk h u =
     (case proto_ok cops c sk h of
        Inl f \<Rightarrow> Some (Inl f)
      | Inr ok \<Rightarrow>
          if \<not> ok then Some (Inr (neg_err NLE_PROTO_MISMATCH, sk, h, u))
          else cache_pickup ll parser cops c
                 (if checkdup then pickup_checkdup_cb ops cops allocs c else pickup_cb ops cops allocs c) sk h u)"

definition nl_cache_pickup_checkdup ::
  "'d ops \<Rightarrow> cops \<Rightarrow> 'd allocs \<Rightarrow> ('a, 'd, 'u) link_layer \<Rightarrow> ('d, 'u) msg_parser \<Rightarrow> nat \<Rightarrow> nl_sock \<Rightarrow> 'd heap \<Rightarrow> 'u \<Rightarrow>
   ('d, 'u) synced" where
  "nl_cache_pickup_checkdup ops cops allocs ll parser c sk h u = nl_cache_pickup_dup ops cops allocs ll parser True c sk h u"

definition nl_cache_pickup ::
  "'d ops \<Rightarrow> cops \<Rightarrow> 'd allocs \<Rightarrow> ('a, 'd, 'u) link_layer \<Rightarrow> ('d, 'u) msg_parser \<Rightarrow> nat \<Rightarrow> nl_sock \<Rightarrow> 'd heap \<Rightarrow> 'u \<Rightarrow>
   ('d, 'u) synced" where
  "nl_cache_pickup ops cops allocs ll parser c sk h u = nl_cache_pickup_dup ops cops allocs ll parser False c sk h u"

section \<open>Dumps\<close>

text \<open>\<open>req\<close> is \<open>co_request_update\<close>, \<open>None\<close> if the type has none.\<close>

type_synonym ('d, 'u) requester = "nat \<Rightarrow> nl_sock \<Rightarrow> 'd heap \<Rightarrow> 'u \<Rightarrow> ('d, 'u) synced"

definition nl_cache_request_full_dump ::
  "cops \<Rightarrow> ('d, 'u) requester option \<Rightarrow> nat \<Rightarrow> nl_sock \<Rightarrow> 'd heap \<Rightarrow> 'u \<Rightarrow> ('d, 'u) synced" where
  "nl_cache_request_full_dump cops req c sk h u =
     (case proto_ok cops c sk h of
        Inl f \<Rightarrow> Some (Inl f)
      | Inr ok \<Rightarrow>
          if \<not> ok then Some (Inr (neg_err NLE_PROTO_MISMATCH, sk, h, u))
          else case req of
            None \<Rightarrow> Some (Inr (neg_err NLE_OPNOTSUPP, sk, h, u))
          | Some f \<Rightarrow> f c sk h u)"

text \<open>The part from the label \<open>restart\<close>: request and answer, again after an interrupted dump.\<close>

fun dump_restart ::
  "nat \<Rightarrow> (nl_sock \<Rightarrow> 'd heap \<Rightarrow> 'u \<Rightarrow> ('d, 'u) synced) \<Rightarrow> (nl_sock \<Rightarrow> 'd heap \<Rightarrow> 'u \<Rightarrow> ('d, 'u) synced) \<Rightarrow>
   nl_sock \<Rightarrow> 'd heap \<Rightarrow> 'u \<Rightarrow> ('d, 'u) synced" where
  "dump_restart 0 request pickup sk h u = None"
| "dump_restart (Suc fuel) request pickup sk h u =
     sthen (request sk h u) (\<lambda>err sk h u.
       if err < 0 then Some (Inr (err, sk, h, u))
       else sthen (pickup sk h u) (\<lambda>err sk h u.
         if err = neg_err NLE_DUMP_INTR then dump_restart fuel request pickup sk h u
         else Some (Inr (err, sk, h, u))))"

text \<open>The loop over the groups of the type, one dump per address family if the cache wants that.\<close>

definition af_iter :: "nat \<Rightarrow> 'd heap \<Rightarrow> bool res" where
  "af_iter c h = and_then (deref (h_cache h) c) (\<lambda>cache. Inr (c_flags cache AND NL_CACHE_AF_ITER \<noteq> 0))"

definition set_family :: "nat \<Rightarrow> int \<times> int \<Rightarrow> 'd heap \<Rightarrow> 'd heap res" where
  "set_family c grp h =
     and_then (deref (h_cache h) c) (\<lambda>cache.
       if snd grp \<noteq> 0 \<and> c_flags cache AND NL_CACHE_AF_ITER \<noteq> 0
       then Inr (set_cache c (nl_cache_set_arg1 cache (fst grp)) h) else Inr h)"

fun dump_groups ::
  "(nl_sock \<Rightarrow> 'd heap \<Rightarrow> 'u \<Rightarrow> ('d, 'u) synced) \<Rightarrow> nat \<Rightarrow> (int \<times> int) list \<Rightarrow> nl_sock \<Rightarrow> 'd heap \<Rightarrow> 'u \<Rightarrow> ('d, 'u) synced" where
  "dump_groups dump c [] sk h u = Some (Inl Undef)"
| "dump_groups dump c (grp # grps) sk h u =
     (case set_family c grp h of
        Inl f \<Rightarrow> Some (Inl f)
      | Inr h \<Rightarrow>
          sthen (dump sk h u) (\<lambda>err sk h u.
            if err < 0 then Some (Inr (err, sk, h, u))
            else case grps of
              [] \<Rightarrow> Some (Inl Undef)
            | next # _ \<Rightarrow>
                (case af_iter c h of
                   Inl f \<Rightarrow> Some (Inl f)
                 | Inr iter \<Rightarrow>
                     if snd next \<noteq> 0 \<and> iter then dump_groups dump c grps sk h u
                     else Some (Inr (err, sk, h, u)))))"

definition dump_all ::
  "cops \<Rightarrow> (nl_sock \<Rightarrow> 'd heap \<Rightarrow> 'u \<Rightarrow> ('d, 'u) synced) \<Rightarrow> nat \<Rightarrow> nl_sock \<Rightarrow> 'd heap \<Rightarrow> 'u \<Rightarrow> ('d, 'u) synced" where
  "dump_all cops dump c sk h u =
     (case h_cache h c of
        None \<Rightarrow> Some (Inl Undef)
      | Some cache \<Rightarrow>
          (case co_groups (cops (c_ops cache)) of
             None \<Rightarrow> dump sk h u
           | Some grps \<Rightarrow> dump_groups dump c grps sk h u))"

definition nl_cache_refill ::
  "'d ops \<Rightarrow> cops \<Rightarrow> 'd allocs \<Rightarrow> ('a, 'd, 'u) link_layer \<Rightarrow> ('d, 'u) msg_parser \<Rightarrow> ('d, 'u) requester option \<Rightarrow>
   nat \<Rightarrow> nat \<Rightarrow> nl_sock \<Rightarrow> 'd heap \<Rightarrow> 'u \<Rightarrow> ('d, 'u) synced" where
  "nl_cache_refill ops cops allocs ll parser req fuel c sk h u =
     (case proto_ok cops c sk h of
        Inl f \<Rightarrow> Some (Inl f)
      | Inr ok \<Rightarrow>
          if \<not> ok then Some (Inr (neg_err NLE_PROTO_MISMATCH, sk, h, u))
          else
            case nl_cache_clear ops c h of
              Inl f \<Rightarrow> Some (Inl f)
            | Inr h \<Rightarrow>
                dump_all cops (dump_restart fuel (nl_cache_request_full_dump cops req c)
                  (nl_cache_pickup ops cops allocs ll parser c)) c sk h u)"

text \<open>\<open>a\<close>, \<open>a1\<close>, \<open>a2\<close> as in \<open>nl_cache_alloc\<close>; \<open>sk\<close> is \<open>None\<close> for a null pointer. The cache is returned through
  \<open>result\<close>.\<close>

definition nl_cache_alloc_and_fill ::
  "'d ops \<Rightarrow> cops \<Rightarrow> 'd allocs \<Rightarrow> ('a, 'd, 'u) link_layer \<Rightarrow> ('d, 'u) msg_parser \<Rightarrow> ('d, 'u) requester option \<Rightarrow>
   nat \<Rightarrow> nat option \<Rightarrow> bool \<Rightarrow> bool \<Rightarrow> nat \<Rightarrow> nl_sock option \<Rightarrow> 'd heap \<Rightarrow> 'u \<Rightarrow>
   (int \<times> nat option \<times> nl_sock option \<times> 'd heap \<times> 'u) res option" where
  "nl_cache_alloc_and_fill ops cops allocs ll parser req fuel a a1 a2 i sk h u =
     (case nl_cache_alloc ops cops a a1 a2 i h of
        Inl f \<Rightarrow> Some (Inl f)
      | Inr (None, h) \<Rightarrow> Some (Inr (neg_err NLE_NOMEM, None, sk, h, u))
      | Inr (Some c, h) \<Rightarrow>
          (case sk of
             None \<Rightarrow> Some (Inr (0, Some c, None, h, u))
           | Some s \<Rightarrow>
               (case nl_cache_refill ops cops allocs ll parser req fuel c s h u of
                  None \<Rightarrow> None
                | Some (Inl f) \<Rightarrow> Some (Inl f)
                | Some (Inr (err, s, h, u)) \<Rightarrow>
                    if err < 0 then
                      Some (and_then (nl_cache_free ops (Some c) h) (\<lambda>h. Inr (err, None, Some s, h, u)))
                    else Some (Inr (0, Some c, Some s, h, u)))))"

section \<open>Resynchronisation\<close>

text \<open>The loop that removes the objects that are still marked.\<close>

fun remove_marked ::
  "'d ops \<Rightarrow> ('d, 'u) change_func option \<Rightarrow> nat \<Rightarrow> nat list \<Rightarrow> 'd heap \<Rightarrow> 'u \<Rightarrow> ('d heap \<times> 'u) res" where
  "remove_marked ops change c [] h u = Inr (h, u)"
| "remove_marked ops change c (p # ps) h u =
     and_then (deref (h_obj h) p) (\<lambda>obj.
       if \<not> nl_object_is_marked obj then remove_marked ops change c ps h u
       else
         and_then (nl_object_get p h) (\<lambda>h.
         and_then (nl_cache_remove ops p h) (\<lambda>h.
         and_then (case change of None \<Rightarrow> Inr (h, u) | Some f \<Rightarrow> f c p NL_ACT_DEL h u) (\<lambda>(h, u).
         and_then (nl_object_put ops (Some p) h) (\<lambda>h.
           remove_marked ops change c ps h u)))))"

definition nl_cache_resync ::
  "'d ops \<Rightarrow> cops \<Rightarrow> 'd allocs \<Rightarrow> ('a, 'd, 'u) link_layer \<Rightarrow> ('d, 'u) msg_parser \<Rightarrow> ('d, 'u) requester option \<Rightarrow>
   nat \<Rightarrow> ('d, 'u) change_func option \<Rightarrow> nat \<Rightarrow> nl_sock \<Rightarrow> 'd heap \<Rightarrow> 'u \<Rightarrow> ('d, 'u) synced" where
  "nl_cache_resync ops cops allocs ll parser req fuel change c sk h u =
     (case proto_ok cops c sk h of
        Inl f \<Rightarrow> Some (Inl f)
      | Inr ok \<Rightarrow>
          if \<not> ok then Some (Inr (neg_err NLE_PROTO_MISMATCH, sk, h, u))
          else
            case nl_cache_mark_all c h of
              Inl f \<Rightarrow> Some (Inl f)
            | Inr h \<Rightarrow>
                sthen (dump_all cops (dump_restart fuel (nl_cache_request_full_dump cops req c)
                         (cache_pickup ll parser cops c (resync_cb ops cops allocs c change None))) c sk h u)
                  (\<lambda>err sk h u.
                     if err < 0 then Some (Inr (err, sk, h, u))
                     else
                       Some (and_then (deref (h_cache h) c) (\<lambda>cache.
                             and_then (remove_marked ops change c (c_items cache) h u) (\<lambda>(h, u).
                               Inr (0, sk, h, u))))))"

section \<open>Picking up one object\<close>

record pickup_param =
  pk_result :: "nat option"
  pk_syserror :: "int option"

definition store_answer :: "('d, pickup_param \<times> 'u) pp_cb" where
  "store_answer p h s =
     (case s of (pk, u) \<Rightarrow>
        and_then (nl_object_get p h) (\<lambda>h. Inr (0, h, pk\<lparr>pk_result := Some p\<rparr>, u)))"

definition pickup_answer ::
  "('d, pickup_param \<times> 'u) msg_parser \<Rightarrow> ('a, ('d, pickup_param \<times> 'u) hstate) msg_cb" where
  "pickup_answer parser msg arg s =
     (case s of Inl f \<Rightarrow> (NL_STOP, Inl f)
      | Inr (h, u) \<Rightarrow>
          (case parser (nm_nlh msg) store_answer h u of
             Inl f \<Rightarrow> (NL_STOP, Inl f)
           | Inr (ret, h, u) \<Rightarrow> (ret, Inr (h, u))))"

definition pickup_answer_syserr :: "('a, ('d, pickup_param \<times> 'u) hstate) err_cb" where
  "pickup_answer_syserr nla e arg s =
     (neg_err (nl_syserr2nlerr e),
      case s of Inl f \<Rightarrow> Inl f | Inr (h, pk, u) \<Rightarrow> Inr (h, pk\<lparr>pk_syserror := Some e\<rparr>, u))"

text \<open>\<open>want\<close> says that the caller asks for the system error. The object is returned through \<open>result\<close>, which
  keeps its old value in case of an error.\<close>

definition nl_pickup_keep_syserr ::
  "('a, 'd, pickup_param \<times> 'u) link_layer \<Rightarrow> ('d, pickup_param \<times> 'u) msg_parser \<Rightarrow> bool \<Rightarrow> nl_sock \<Rightarrow> 'd heap \<Rightarrow> 'u \<Rightarrow>
   (int \<times> nat option \<times> int option \<times> nl_sock \<times> 'd heap \<times> 'u) res option" where
  "nl_pickup_keep_syserr ll parser want sk h u =
     (case nl_cb_clone (ll_clone ll) (ll_cb ll) of
        None \<Rightarrow> Some (Inr (neg_err NLE_NOMEM, None, None, sk, h, u))
      | Some cb \<Rightarrow>
          (let cb = ignore_err cb (nl_cb_set cb (int NL_CB_VALID) NL_CB_CUSTOM (Some (pickup_answer parser)) None);
               cb = (if want then ignore_err cb (nl_cb_err cb NL_CB_CUSTOM (Some pickup_answer_syserr) None) else cb);
               pk = \<lparr>pk_result = None, pk_syserror = (if want then Some 0 else None)\<rparr>
           in case from_recv (nl_recvmsgs (ll_fuel ll) (ll_recv ll) (ll_mem ll) cb sk (Inr (h, pk, u))) of
                None \<Rightarrow> None
              | Some (Inl f) \<Rightarrow> Some (Inl f)
              | Some (Inr (err, sk, h, pk, u)) \<Rightarrow>
                  Some (Inr (err, if err < 0 then None else pk_result pk, pk_syserror pk, sk, h, u))))"

definition nl_pickup ::
  "('a, 'd, pickup_param \<times> 'u) link_layer \<Rightarrow> ('d, pickup_param \<times> 'u) msg_parser \<Rightarrow> nl_sock \<Rightarrow> 'd heap \<Rightarrow> 'u \<Rightarrow>
   (int \<times> nat option \<times> int option \<times> nl_sock \<times> 'd heap \<times> 'u) res option" where
  "nl_pickup ll parser sk h u = nl_pickup_keep_syserr ll parser False sk h u"

end
