(* ===== verification/Nl_Resync.thy ===== *)
theory Nl_Resync
  imports Nl_Cache_Sync
begin

text \<open>
  What a resynchronisation does to a cache, for object types that are replaced and not merged
  (no \<open>oo_update\<close>): after \<open>nl_cache_resync\<close> the cache holds the last announced version of each
  identity and nothing else.
\<close>

section \<open>Types that are replaced\<close>

locale replaced_type = keyed_type +
  assumes no_update: "oo_update (ops i) = None"

text \<open>The value of an object, without the header fields that depend on where it is.\<close>

definition value_of :: "'d nl_object \<Rightarrow> 'd nl_object" where
  "value_of obj = obj\<lparr>ce_refcnt := 0, ce_cache := None, ce_linked := False, ce_flags := 0\<rparr>"

text \<open>The effect of an announcement on a list of values.\<close>

definition announce :: "'d ops \<Rightarrow> 'd nl_object \<Rightarrow> 'd nl_object list \<Rightarrow> 'd nl_object list" where
  "announce ops x xs = filter (\<lambda>y. \<not> ident ops y x) xs @ [x]"

text \<open>The values of the objects of a cache that are not marked, in order, and of all its objects.\<close>

definition fresh_values :: "'d heap \<Rightarrow> nl_cache \<Rightarrow> 'd nl_object list" where
  "fresh_values h cache =
     map (\<lambda>p. value_of (the (h_obj h p))) (filter (\<lambda>p. \<not> nl_object_is_marked (the (h_obj h p))) (c_items cache))"

definition cache_values :: "'d heap \<Rightarrow> nl_cache \<Rightarrow> 'd nl_object list" where
  "cache_values h cache = map (\<lambda>p. value_of (the (h_obj h p))) (c_items cache)"

text \<open>The common end of all message parsers: a new object is filled in, handed to \<open>pp_cb\<close> and released.\<close>

definition deliver ::
  "'d ops \<Rightarrow> nat \<Rightarrow> nat option \<Rightarrow> ('d nl_object \<Rightarrow> 'd nl_object) \<Rightarrow> ('d, 'u) pp_cb \<Rightarrow> 'd heap \<Rightarrow> 'u \<Rightarrow>
   (int \<times> 'd heap \<times> 'u) res" where
  "deliver ops i a fill pp h u =
     and_then (nl_object_alloc ops a i h) (\<lambda>(new, h).
     case new of
       None \<Rightarrow> Inr (neg_err NLE_NOMEM, h, u)
     | Some p \<Rightarrow>
         and_then (deref (h_obj h) p) (\<lambda>obj.
         and_then (pp p (set_obj p (fill obj) h) u) (\<lambda>(err, h, u).
         and_then (nl_object_put ops (Some p) h) (\<lambda>h. Inr (err, h, u)))))"

lemma value_of_hdr [simp]:
  "value_of (obj\<lparr>ce_refcnt := n\<rparr>) = value_of obj" "value_of (obj\<lparr>ce_cache := c\<rparr>) = value_of obj"
  "value_of (obj\<lparr>ce_linked := b\<rparr>) = value_of obj" "value_of (obj\<lparr>ce_flags := f\<rparr>) = value_of obj"
  by (cases obj; simp add: value_of_def)+

lemma same_contents_value: "same_contents (value_of obj) obj"
  by (simp add: same_contents_def value_of_def)

lemma marked_hdr [simp]:
  "nl_object_is_marked (obj\<lparr>ce_refcnt := n\<rparr>) = nl_object_is_marked obj"
  "nl_object_is_marked (obj\<lparr>ce_cache := c\<rparr>) = nl_object_is_marked obj"
  "nl_object_is_marked (obj\<lparr>ce_linked := b\<rparr>) = nl_object_is_marked obj"
  by (simp_all add: nl_object_is_marked_def)

context keyed_type begin

lemma ident_value [simp]: "ident ops (value_of a) (value_of b) = ident ops a b"
  using ident_contents [OF same_contents_value same_contents_value] .

end

section \<open>Removing what is still marked\<close>

context keyed_type begin

lemma remove_one_marked:
  assumes wf: "wf_heap ops keyed i cops h refs" and c: "h_cache h c = Some cache" "p \<in> set (c_items cache)"
  shows "\<exists>h1 h2 h3 cache' obj obj'. h_obj h p = Some obj \<and> nl_object_get p h = Inr h1 \<and> nl_cache_remove ops p h1 = Inr h2 \<and>
    nl_object_put ops (Some p) h2 = Inr h3 \<and> wf_heap ops keyed i cops h3 refs \<and> h_cache h3 = (h_cache h)(c \<mapsto> cache') \<and>
    c_items cache' = remove1 p (c_items cache) \<and> h_obj h3 = (h_obj h)(p := obj')"
proof -
  obtain obj where p: "h_obj h p = Some obj" "ce_cache obj = Some c" "wf_obj i h refs p obj"
    using wf_heap_item [OF wf c] by blast
  note g = get_wf [OF wf p(1)]
  let ?obj1 = "obj\<lparr>ce_refcnt := ce_refcnt obj + 1\<rparr>"
  let ?h1 = "set_obj p ?obj1 h" and ?refs1 = "refs(p := refs p + 1)"
  have h1: "h_obj ?h1 p = Some ?obj1" "ce_cache ?obj1 = Some c" using p by auto
  have r: "0 \<le> refs p" using p(3) by (simp add: wf_obj_def)
  obtain h2 cache' where rm: "nl_cache_remove ops p ?h1 = Inr h2" "wf_heap ops keyed i cops h2 ?refs1"
      "h_cache h2 = (h_cache ?h1)(c \<mapsto> cache')" "c_items cache' = remove1 p (c_items cache)"
      "h_obj h2 = (h_obj ?h1)(p := unlinked ?refs1 p ?obj1)"
    using remove_wf [OF g(2) h1] c(1) by auto
  have "h_obj h2 p = unlinked ?refs1 p ?obj1" using rm(5) by simp
  then obtain obj2 where o2: "h_obj h2 p = Some obj2" using r by (auto simp: unlinked_def)
  have "0 < ?refs1 p" using r by simp
  note pw = put_wf [OF rm(2) o2 this]
  have re: "?refs1(p := ?refs1 p - 1) = refs" by auto
  show ?thesis using p(1) g(1) rm pw [unfolded re] by (auto simp: fun_upd_twist)
qed

lemma remove_marked_wf:
  assumes "wf_heap ops keyed i cops h refs" "h_cache h c = Some cache" "c_items cache = qs @ ps"
  shows "\<exists>h' u' cache'. remove_marked ops (Some (observer g)) c ps h u = Inr (h', u') \<and> wf_heap ops keyed i cops h' refs \<and>
    h_cache h' = (h_cache h)(c \<mapsto> cache') \<and>
    c_items cache' = qs @ filter (\<lambda>p. \<not> nl_object_is_marked (the (h_obj h p))) ps \<and>
    (\<forall>q \<in> set (c_items cache'). h_obj h' q = h_obj h q)"
  using assms
proof (induction ps arbitrary: h u cache qs)
  case Nil
  then show ?case by (intro exI [of _ h] exI [of _ u] exI [of _ cache]) (simp add: fun_upd_idem)
next
  case (Cons p ps)
  obtain obj where p: "h_obj h p = Some obj"
    using wf_heap_item [OF Cons.prems(1,2), of p] Cons.prems(3) by auto
  have dist: "distinct (qs @ p # ps)"
    using wf_heapD(4) [OF Cons.prems(1,2)] Cons.prems(3) by (simp add: wf_cache_def)
  show ?case
  proof (cases "nl_object_is_marked obj")
    case False
    have it: "c_items cache = (qs @ [p]) @ ps" using Cons.prems(3) by simp
    obtain h' u' cache' where "remove_marked ops (Some (observer g)) c ps h u = Inr (h', u')" "wf_heap ops keyed i cops h' refs"
      "h_cache h' = (h_cache h)(c \<mapsto> cache')"
      "c_items cache' = (qs @ [p]) @ filter (\<lambda>p. \<not> nl_object_is_marked (the (h_obj h p))) ps"
      "\<forall>q \<in> set (c_items cache'). h_obj h' q = h_obj h q"
      using Cons.IH [OF Cons.prems(1,2) it, of u] by (elim exE conjE) (rule that)
    then show ?thesis using p False by (intro exI [of _ h'] exI [of _ u'] exI [of _ cache']) simp
  next
    case True
    obtain h1 h2 h3 cache3 obj3 where r: "nl_object_get p h = Inr h1" "nl_cache_remove ops p h1 = Inr h2"
        "nl_object_put ops (Some p) h2 = Inr h3" "wf_heap ops keyed i cops h3 refs" "h_cache h3 = (h_cache h)(c \<mapsto> cache3)"
        "c_items cache3 = remove1 p (c_items cache)" "h_obj h3 = (h_obj h)(p := obj3)"
      using remove_one_marked [OF Cons.prems(1,2), of p] Cons.prems(3) by auto
    have items: "c_items cache3 = qs @ ps" using r(6) Cons.prems(3) dist by (simp add: remove1_append)
    have same: "filter (\<lambda>p. \<not> nl_object_is_marked (the (h_obj h3 p))) ps = filter (\<lambda>p. \<not> nl_object_is_marked (the (h_obj h p))) ps"
      using r(7) dist by (intro filter_cong) auto
    have "h_cache h3 c = Some cache3" using r(5) by simp
    note IH = Cons.IH [OF r(4) this items, of "g c p NL_ACT_DEL u", unfolded same]
    obtain h' u' cache' where
      i: "remove_marked ops (Some (observer g)) c ps h3 (g c p NL_ACT_DEL u) = Inr (h', u')" "wf_heap ops keyed i cops h' refs"
      "h_cache h' = (h_cache h3)(c \<mapsto> cache')"
      "c_items cache' = qs @ filter (\<lambda>p. \<not> nl_object_is_marked (the (h_obj h p))) ps"
      "\<forall>q \<in> set (c_items cache'). h_obj h' q = h_obj h3 q"
      using IH by (elim exE conjE) (rule that)
    have "p \<notin> set (c_items cache')" using i(4) dist by auto
    then have "\<forall>q \<in> set (c_items cache'). h_obj h' q = h_obj h q" using i(5) r(7) by auto
    then show ?thesis using p True r(1-3,5) i
      by (intro exI [of _ h'] exI [of _ u'] exI [of _ cache']) (simp add: observer_def)
  qed
qed

end

section \<open>Replacing an object\<close>

sublocale replaced_type \<subseteq> updatable_type
  by unfold_locales (simp add: no_update)

context replaced_type begin

lemma remove_others:
  assumes "wf_heap ops keyed i cops h refs" "h_cache h c = Some cache" "c_hashtable cache \<noteq> None"
    "q \<in> set (c_items cache)" "ident ops (the (h_obj h q)) obj" "keyed obj"
  shows "remove1 q (c_items cache) = filter (\<lambda>x. \<not> ident ops (the (h_obj h x)) obj) (c_items cache)"
proof -
  have "distinct (c_items cache)" using wf_heapD(4) [OF assms(1,2)] by (simp add: wf_cache_def)
  then have "remove1 q (c_items cache) = filter (\<lambda>x. x \<noteq> q) (c_items cache)" by (simp add: distinct_remove1_removeAll removeAll_filter_not_eq neq_commute)
  also have "\<dots> = filter (\<lambda>x. \<not> ident ops (the (h_obj h x)) obj) (c_items cache)"
    using others_differ [OF assms] by (intro filter_cong) auto
  finally show ?thesis .
qed

text \<open>An event for an object that is in the cache: the old version goes first.\<close>

lemma include_drops_old:
  assumes wf: "wf_heap ops keyed i cops h refs" and c: "h_cache h c = Some cache" "c_hashtable cache \<noteq> None"
    and p: "h_obj h p = Some obj" "keyed obj" "p \<noteq> q"
    and q: "q \<in> set (c_items cache)" "ident ops (the (h_obj h q)) obj" and act: "act = NL_ACT_NEW \<or> act = NL_ACT_DEL"
  shows "\<exists>h1 cache1 d. cache_include ops cops True b c p act (Some (observer g)) None h u =
      (if act = NL_ACT_DEL then and_then (nl_object_put ops (Some q) h1) (\<lambda>h. Inr (0, h, g c q NL_ACT_DEL u))
       else and_then (include_new ops cops True (Some (observer g)) None c p (Some q) h1 u) (\<lambda>(h, u). Inr (0, h, u))) \<and>
    wf_heap ops keyed i cops h1 (refs(q := refs q + 1)) \<and> h_cache h1 = (h_cache h)(c \<mapsto> cache1) \<and> cache_cfg cache1 = cache_cfg cache \<and>
    c_hashtable cache1 \<noteq> None \<and> c_items cache1 = filter (\<lambda>q. \<not> ident ops (the (h_obj h q)) obj) (c_items cache) \<and>
    h_obj h1 = (h_obj h)(q \<mapsto> d) \<and> ce_cache d = None \<and> 0 \<le> refs q"
proof -
  obtain qobj where qo: "h_obj h q = Some qobj" "ce_cache qobj = Some c" "ce_ops qobj = Some i"
    using wf_heap_item [OF wf c(1) q(1)] by (auto simp: wf_obj_def)
  let ?q1 = "qobj\<lparr>ce_refcnt := ce_refcnt qobj + 1\<rparr>"
  let ?h1 = "set_obj q ?q1 h" and ?refs1 = "refs(q := refs q + 1)"
  have s: "nl_cache_search ops c p h = Inr (Some q, ?h1)" using search_present [OF wf c p(1,2) q qo(1)] .
  have wf1: "wf_heap ops keyed i cops ?h1 ?refs1" using get_wf(2) [OF wf qo(1)] .
  have r: "0 \<le> refs q" using wf_heapD(1) [OF wf qo(1)] by (simp add: wf_obj_def)
  let ?d = "?q1\<lparr>ce_cache := None, ce_refcnt := refs q + 1\<rparr>"
  have "unlinked ?refs1 q ?q1 = Some ?d" using r by (simp add: unlinked_def)
  then obtain h3 cache3 where rm: "nl_cache_remove ops q ?h1 = Inr h3" "wf_heap ops keyed i cops h3 ?refs1"
      "h_cache h3 = (h_cache ?h1)(c \<mapsto> cache3)" "c_items cache3 = remove1 q (c_items cache)" "cache_cfg cache3 = cache_cfg cache"
      "c_hashtable cache3 \<noteq> None" "h_obj h3 = (h_obj ?h1)(q \<mapsto> ?d)"
    using remove_wf [OF wf1, of q ?q1 c] c qo(2) by auto
  have "cache_include ops cops True b c p act (Some (observer g)) None h u =
      (if act = NL_ACT_DEL then and_then (nl_object_put ops (Some q) h3) (\<lambda>h. Inr (0, h, g c q NL_ACT_DEL u))
       else and_then (include_new ops cops True (Some (observer g)) None c p (Some q) h3 u) (\<lambda>(h, u). Inr (0, h, u)))"
    using s qo(3) p(1,3) rm(1) act
    by (simp add: cache_include_def obj_ops_def nl_object_update_def no_update nl_object_put_def [of _ None] notify_observer neg_err_def
        cong: if_cong)
  then show ?thesis using rm(2-7) r remove_others [OF wf c q p(2)]
    by (intro exI [of _ h3] exI [of _ cache3] exI [of _ ?d]) simp
qed

lemma include_delete:
  assumes wf: "wf_heap ops keyed i cops h refs" and c: "h_cache h c = Some cache" "c_hashtable cache \<noteq> None"
    and p: "h_obj h p = Some obj" "ce_cache obj = None" "keyed obj"
  shows "\<exists>h' u' cache'. cache_include ops cops True b c p NL_ACT_DEL (Some (observer g)) None h u = Inr (0, h', u') \<and>
    wf_heap ops keyed i cops h' refs \<and> h_cache h' c = Some cache' \<and> c_hashtable cache' \<noteq> None \<and> cache_cfg cache' = cache_cfg cache \<and>
    c_items cache' = filter (\<lambda>q. \<not> ident ops (the (h_obj h q)) obj) (c_items cache) \<and> h_obj h' p = Some obj \<and>
    (\<forall>q \<in> set (c_items cache). \<not> ident ops (the (h_obj h q)) obj \<longrightarrow> h_obj h' q = h_obj h q) \<and>
    dom (h_obj h') \<subseteq> dom (h_obj h)"
proof (cases "\<exists>q \<in> set (c_items cache). ident ops (the (h_obj h q)) obj")
  case False
  then have no: "\<forall>q \<in> set (c_items cache). \<not> ident ops (the (h_obj h q)) obj" by blast
  have "nl_cache_search ops c p h = Inr (None, h)" using search_wf [OF wf c(1) p(1)] p(3) no by auto
  then show ?thesis using wf c p no
    by (intro exI [of _ h] exI [of _ u] exI [of _ cache]) (simp add: cache_include_def NL_ACT_NEW_def NL_ACT_DEL_def)
next
  case True
  then obtain q where q: "q \<in> set (c_items cache)" "ident ops (the (h_obj h q)) obj" by blast
  have pq: "p \<noteq> q" using wf_heap_item [OF wf c(1) q(1)] p(1,2) by auto
  obtain h1 cache1 d where i: "cache_include ops cops True b c p NL_ACT_DEL (Some (observer g)) None h u =
        and_then (nl_object_put ops (Some q) h1) (\<lambda>h. Inr (0, h, g c q NL_ACT_DEL u))"
      "wf_heap ops keyed i cops h1 (refs(q := refs q + 1))" "h_cache h1 = (h_cache h)(c \<mapsto> cache1)" "cache_cfg cache1 = cache_cfg cache"
      "c_hashtable cache1 \<noteq> None" "c_items cache1 = filter (\<lambda>q. \<not> ident ops (the (h_obj h q)) obj) (c_items cache)"
      "h_obj h1 = (h_obj h)(q \<mapsto> d)" "0 \<le> refs q"
    using include_drops_old [OF wf c p(1,3) pq q, of NL_ACT_DEL b g u] by auto
  have re: "(refs(q := refs q + 1))(q := (refs(q := refs q + 1)) q - 1) = refs" by auto
  obtain x where put: "nl_object_put ops (Some q) h1 = Inr (h1\<lparr>h_obj := (h_obj h1)(q := x)\<rparr>)"
      "wf_heap ops keyed i cops (h1\<lparr>h_obj := (h_obj h1)(q := x)\<rparr>) refs"
    using put_wf [OF i(2), of q d, unfolded re] i(7,8) by auto
  let ?h = "h1\<lparr>h_obj := (h_obj h1)(q := x)\<rparr>"
  have "dom (h_obj ?h) \<subseteq> dom (h_obj h)" using i(7) wf_heap_item [OF wf c(1) q(1)] by (auto split: if_splits)
  moreover have "\<forall>y \<in> set (c_items cache). \<not> ident ops (the (h_obj h y)) obj \<longrightarrow> h_obj ?h y = h_obj h y" using i(7) q(2) by auto
  moreover have "h_obj ?h p = Some obj" "h_cache ?h c = Some cache1" using i(3,7) pq p(1) by auto
  ultimately show ?thesis using i(1,4-6) put
    by (intro exI [of _ ?h] exI [of _ "g c q NL_ACT_DEL u"] exI [of _ cache1]) simp
qed

lemma include_replace:
  assumes wf: "wf_heap ops keyed i cops h refs" and c: "h_cache h c = Some cache" "c_hashtable cache \<noteq> None"
    and p: "h_obj h p = Some obj" "ce_cache obj = None" "keyed obj"
  shows "\<exists>h' u' cache'. cache_include ops cops True b c p NL_ACT_NEW (Some (observer g)) None h u = Inr (0, h', u') \<and>
    wf_heap ops keyed i cops h' refs \<and> h_cache h' c = Some cache' \<and> c_hashtable cache' \<noteq> None \<and> cache_cfg cache' = cache_cfg cache \<and>
    c_items cache' = filter (\<lambda>q. \<not> ident ops (the (h_obj h q)) obj) (c_items cache) @ [p] \<and>
    h_obj h' p = Some (obj\<lparr>ce_cache := Some c, ce_linked := True, ce_refcnt := refs p + 2\<rparr>) \<and>
    (\<forall>q \<in> set (c_items cache). \<not> ident ops (the (h_obj h q)) obj \<longrightarrow> h_obj h' q = h_obj h q) \<and>
    dom (h_obj h') \<subseteq> dom (h_obj h)"
proof -
  let ?obj' = "obj\<lparr>ce_cache := Some c, ce_linked := True, ce_refcnt := refs p + 2\<rparr>"
  have notin: "p \<notin> set (c_items cache)" using wf_heap_item [OF wf c(1)] p(1,2) by fastforce
  have table: "c_hashtable cache' \<noteq> None"
    if "wf_heap ops keyed i cops h' refs" "h_cache h' c = Some cache'" "h_obj h' p = Some ?obj'" for h' cache'
    using wf_heapD(1) [OF that(1,3)] that(2) by (auto simp: wf_obj_def cache_refs_def split: if_splits)
  have "\<exists>h' u' cache' old. cache_include ops cops True b c p NL_ACT_NEW (Some (observer g)) None h u = Inr (0, h', u') \<and>
      wf_heap ops keyed i cops h' refs \<and> h_cache h' c = Some cache' \<and> cache_cfg cache' = cache_cfg cache \<and>
      c_items cache' = filter (\<lambda>q. \<not> ident ops (the (h_obj h q)) obj) (c_items cache) @ [p] \<and> h_obj h' p = Some ?obj' \<and>
      (\<forall>q. q \<noteq> p \<longrightarrow> old \<noteq> Some q \<longrightarrow> h_obj h' q = h_obj h q) \<and> (\<forall>q. old = Some q \<longrightarrow> ident ops (the (h_obj h q)) obj \<and> q \<in> dom (h_obj h))"
  proof (cases "\<exists>q \<in> set (c_items cache). ident ops (the (h_obj h q)) obj")
    case False
    then have no: "\<forall>q \<in> set (c_items cache). \<not> ident ops (the (h_obj h q)) obj" by blast
    have s: "nl_cache_search ops c p h = Inr (None, h)" using search_wf [OF wf c(1) p(1)] p(3) no by auto
    have n: "\<exists>h' u' cache'. include_new ops cops True (Some (observer g)) None c p None h u = Inr (h', u') \<and> wf_heap ops keyed i cops h' refs \<and>
        h_cache h' c = Some cache' \<and> c_items cache' = c_items cache @ [p] \<and> cache_cfg cache' = cache_cfg cache \<and>
        h_obj h' p = Some ?obj' \<and> (\<forall>q. q \<noteq> p \<longrightarrow> h_obj h' q = h_obj h q)"
      using include_new_wf [OF wf c(1) p no, of None g u] c(2) by auto
    then obtain h' u' cache' where "include_new ops cops True (Some (observer g)) None c p None h u = Inr (h', u')" "wf_heap ops keyed i cops h' refs"
        "h_cache h' c = Some cache'" "c_items cache' = c_items cache @ [p]" "cache_cfg cache' = cache_cfg cache"
        "h_obj h' p = Some ?obj'" "\<forall>q. q \<noteq> p \<longrightarrow> h_obj h' q = h_obj h q" by blast
    then show ?thesis using s no
      by (intro exI [of _ h'] exI [of _ u'] exI [of _ cache'] exI [of _ None]) (simp add: cache_include_def)
  next
    case True
    then obtain q where q: "q \<in> set (c_items cache)" "ident ops (the (h_obj h q)) obj" by blast
    have pq: "p \<noteq> q" using notin q(1) by blast
    obtain h1 cache1 d where i: "cache_include ops cops True b c p NL_ACT_NEW (Some (observer g)) None h u =
          and_then (include_new ops cops True (Some (observer g)) None c p (Some q) h1 u) (\<lambda>(h, u). Inr (0, h, u))"
        "wf_heap ops keyed i cops h1 (refs(q := refs q + 1))" "h_cache h1 = (h_cache h)(c \<mapsto> cache1)" "cache_cfg cache1 = cache_cfg cache"
        "c_hashtable cache1 \<noteq> None" "c_items cache1 = filter (\<lambda>q. \<not> ident ops (the (h_obj h q)) obj) (c_items cache)"
        "h_obj h1 = (h_obj h)(q \<mapsto> d)" "ce_cache d = None" "0 \<le> refs q"
      using include_drops_old [OF wf c p(1,3) pq q, of NL_ACT_NEW b g u] by (auto simp: NL_ACT_NEW_def NL_ACT_DEL_def)
    have re: "(refs(q := refs q + 1))(q := (refs(q := refs q + 1)) q - 1) = refs" by auto
    have h1: "h_cache h1 c = Some cache1" "h_obj h1 p = Some obj" using i(3,7) p(1) pq by auto
    have no: "\<forall>x \<in> set (c_items cache1). \<not> ident ops (the (h_obj h1 x)) obj" using i(6,7) q(2) by auto
    have old: "0 < (refs(q := refs q + 1)) q' \<and> q' \<noteq> p \<and> (\<exists>qobj. h_obj h1 q' = Some qobj \<and> ce_cache qobj = None)" if "Some q = Some q'" for q'
      using that i(7-9) pq by auto
    obtain h' u' cache' where n: "include_new ops cops True (Some (observer g)) None c p (Some q) h1 u = Inr (h', u')"
        "wf_heap ops keyed i cops h' refs" "h_cache h' c = Some cache'" "c_items cache' = c_items cache1 @ [p]"
        "cache_cfg cache' = cache_cfg cache1" "h_obj h' p = Some ?obj'" "\<forall>x. x \<noteq> p \<longrightarrow> x \<noteq> q \<longrightarrow> h_obj h' x = h_obj h1 x"
      using include_new_wf [where old = "Some q" and g = g and u = u, OF i(2) h1 p(2,3) no old, unfolded option.case re] i(5) pq by auto
    then show ?thesis using i(1,4,6,7) q wf_heap_item [OF wf c(1) q(1)]
      by (intro exI [of _ h'] exI [of _ u'] exI [of _ cache'] exI [of _ "Some q"]) auto
  qed
  then obtain h' u' cache' old where r: "cache_include ops cops True b c p NL_ACT_NEW (Some (observer g)) None h u = Inr (0, h', u')"
      "wf_heap ops keyed i cops h' refs" "h_cache h' c = Some cache'" "cache_cfg cache' = cache_cfg cache"
      "c_items cache' = filter (\<lambda>q. \<not> ident ops (the (h_obj h q)) obj) (c_items cache) @ [p]" "h_obj h' p = Some ?obj'"
      "\<forall>q. q \<noteq> p \<longrightarrow> old \<noteq> Some q \<longrightarrow> h_obj h' q = h_obj h q"
      "\<forall>q. old = Some q \<longrightarrow> ident ops (the (h_obj h q)) obj \<and> q \<in> dom (h_obj h)"
    by (elim exE conjE) (rule that)
  have "h_obj h' q = h_obj h q" if "q \<in> set (c_items cache)" "\<not> ident ops (the (h_obj h q)) obj" for q
    using r(7,8) that notin by (metis)
  moreover have "dom (h_obj h') \<subseteq> dom (h_obj h)"
  proof
    fix x assume "x \<in> dom (h_obj h')"
    then show "x \<in> dom (h_obj h)" using r(7,8) p(1) by (cases "x = p"; cases "old = Some x") auto
  qed
  ultimately show ?thesis using r(1-6) table [OF r(2,3,6)]
    by (intro exI [of _ h'] exI [of _ u'] exI [of _ cache']) simp
qed

end

section \<open>Announcements\<close>

definition new_object :: "'d ops \<Rightarrow> nat \<Rightarrow> 'd nl_object" where
  "new_object ops i =
     \<lparr>ce_refcnt = 1, ce_ops = Some i, ce_cache = None, ce_linked = False, ce_msgtype = 0, ce_flags = 0, ce_mask = 0,
      ce_data = (case oo_constructor (ops i) of None \<Rightarrow> oo_zero (ops i) | Some f \<Rightarrow> f (oo_zero (ops i)))\<rparr>"

text \<open>A parser fills in the type, the attributes and the data, and leaves the rest of the header alone.\<close>

definition hdr_kept :: "'d nl_object \<Rightarrow> 'd nl_object \<Rightarrow> bool" where
  "hdr_kept x obj \<longleftrightarrow> ce_refcnt x = ce_refcnt obj \<and> ce_ops x = ce_ops obj \<and> ce_cache x = ce_cache obj \<and>
     ce_linked x = ce_linked obj \<and> ce_flags x = ce_flags obj"

lemma deliver_eq:
  assumes "SIZEOF_NL_OBJECT \<le> oo_size (ops i)"
  shows "deliver ops i (Some p) fill pp h u =
    and_then (pp p (set_obj p (fill (new_object ops i)) h) u) (\<lambda>(err, h, u).
      and_then (nl_object_put ops (Some p) h) (\<lambda>h. Inr (err, h, u)))"
  using assms by (simp add: deliver_def nl_object_alloc_def new_object_def Let_def)

lemma fresh_values_snoc:
  assumes "c_items cache = xs @ [p]" "\<And>q. q \<in> set xs \<Longrightarrow> h_obj h' q = h_obj h q"
    and "h_obj h' p = Some y" "\<not> nl_object_is_marked y"
  shows "fresh_values h' cache =
    map (\<lambda>q. value_of (the (h_obj h q))) (filter (\<lambda>q. \<not> nl_object_is_marked (the (h_obj h q))) xs) @ [value_of y]"
proof -
  have "filter (\<lambda>q. \<not> nl_object_is_marked (the (h_obj h' q))) xs = filter (\<lambda>q. \<not> nl_object_is_marked (the (h_obj h q))) xs"
    by (rule filter_cong) (simp_all add: assms(2))
  then show ?thesis using assms by (simp add: fresh_values_def)
qed

lemma filter_values:
  "map f (filter P (filter Q xs)) = filter Q' (map f (filter P xs))" if "\<And>x. x \<in> set xs \<Longrightarrow> Q x = Q' (f x)"
  using that by (induction xs) auto

context replaced_type begin

text \<open>One event about an object, from the parser to the cache.\<close>

lemma deliver_include:
  fixes fill :: "'a nl_object \<Rightarrow> 'a nl_object"
  assumes wf: "wf_heap ops keyed i cops h refs" and c: "h_cache h c = Some cache" "c_hashtable cache \<noteq> None"
    and p: "h_obj h p = None" and size: "SIZEOF_NL_OBJECT \<le> oo_size (ops i)" and mem: "\<And>p h. fst (allocs p h)"
  defines "x \<equiv> fill (new_object ops i)"
  assumes x: "hdr_kept x (new_object ops i)" "keyed x"
    and act: "msgtype_act (co_msgtypes (cops (c_ops cache))) (ce_msgtype x) = Some act" "act = NL_ACT_NEW \<or> act = NL_ACT_DEL"
  shows "\<exists>h' u' cache'. deliver ops i (Some p) fill (resync_cb ops cops allocs c (Some (observer g)) None) h u = Inr (0, h', u') \<and>
    wf_heap ops keyed i cops h' refs \<and> h_cache h' c = Some cache' \<and> c_hashtable cache' \<noteq> None \<and> cache_cfg cache' = cache_cfg cache \<and>
    c_items cache' = filter (\<lambda>q. \<not> ident ops (the (h_obj h q)) x) (c_items cache) @ (if act = NL_ACT_NEW then [p] else []) \<and>
    (act = NL_ACT_NEW \<longrightarrow> h_obj h' p = Some (x\<lparr>ce_cache := Some c, ce_linked := True, ce_refcnt := 2\<rparr>)) \<and>
    (\<forall>q \<in> set (c_items cache). \<not> ident ops (the (h_obj h q)) x \<longrightarrow> h_obj h' q = h_obj h q) \<and> dom (h_obj h') \<subseteq> insert p (dom (h_obj h))"
proof -
  have hdr: "ce_refcnt x = 1" "ce_ops x = Some i" "ce_cache x = None"
    using x(1) by (simp_all add: hdr_kept_def new_object_def)
  let ?h1 = "set_obj p x h" and ?refs1 = "refs(p := 1)"
  let ?x = "if act = NL_ACT_NEW then x\<lparr>ce_cache := Some c, ce_linked := True, ce_refcnt := ?refs1 p + 2\<rparr> else x"
  have wf1: "wf_heap ops keyed i cops ?h1 ?refs1" by (rule alloc_wf [OF wf p hdr(1-3)])
  have h1: "h_cache ?h1 c = Some cache" "h_obj ?h1 p = Some x" using c by auto
  have notin: "p \<notin> set (c_items cache)" using wf_heap_item [OF wf c(1)] p by fastforce
  obtain b where b: "allocs p ?h1 = (True, b)" using mem [of p ?h1] by (cases "allocs p ?h1") auto
  note R = include_replace [OF wf1 h1(1) c(2) h1(2) hdr(3) x(2), of b g u] include_delete [OF wf1 h1(1) c(2) h1(2) hdr(3) x(2), of b g u]
  obtain h2 u2 cache2 where r: "cache_include ops cops True b c p act (Some (observer g)) None ?h1 u = Inr (0, h2, u2)"
      "wf_heap ops keyed i cops h2 ?refs1" "h_cache h2 c = Some cache2" "c_hashtable cache2 \<noteq> None" "cache_cfg cache2 = cache_cfg cache"
      "c_items cache2 = filter (\<lambda>q. \<not> ident ops (the (h_obj ?h1 q)) x) (c_items cache) @ (if act = NL_ACT_NEW then [p] else [])"
      "h_obj h2 p = Some ?x" "\<forall>q \<in> set (c_items cache). \<not> ident ops (the (h_obj ?h1 q)) x \<longrightarrow> h_obj h2 q = h_obj ?h1 q"
      "dom (h_obj h2) \<subseteq> dom (h_obj ?h1)"
  proof (cases "act = NL_ACT_NEW")
    case True
    then show ?thesis using that R(1) by (elim exE conjE) simp
  next
    case False
    then show ?thesis using that act(2) R(2) by (elim exE conjE) simp
  qed
  obtain y where put: "nl_object_put ops (Some p) h2 = Inr (h2\<lparr>h_obj := (h_obj h2)(p := y)\<rparr>)"
      "wf_heap ops keyed i cops (h2\<lparr>h_obj := (h_obj h2)(p := y)\<rparr>) refs"
      "act = NL_ACT_NEW \<Longrightarrow> y = Some (x\<lparr>ce_cache := Some c, ce_linked := True, ce_refcnt := 2\<rparr>)"
  proof
    have re: "?refs1(p := ?refs1 p - 1) = refs" using wf_heapD(2) [OF wf p] by auto
    let ?y = "if ?refs1 p = 1 \<and> ce_cache ?x = None then None else Some (?x\<lparr>ce_refcnt := ce_refcnt ?x - 1\<rparr>)"
    show "nl_object_put ops (Some p) h2 = Inr (h2\<lparr>h_obj := (h_obj h2)(p := ?y)\<rparr>)"
      "wf_heap ops keyed i cops (h2\<lparr>h_obj := (h_obj h2)(p := ?y)\<rparr>) refs"
      using put_wf [OF r(2,7), unfolded re] by simp_all
  qed simp
  let ?h3 = "h2\<lparr>h_obj := (h_obj h2)(p := y)\<rparr>"
  have "c_items cache2 = filter (\<lambda>q. \<not> ident ops (the (h_obj h q)) x) (c_items cache) @ (if act = NL_ACT_NEW then [p] else [])"
    using r(6) notin by (auto intro!: filter_cong)
  moreover have "\<forall>q \<in> set (c_items cache). \<not> ident ops (the (h_obj h q)) x \<longrightarrow> h_obj ?h3 q = h_obj h q" using r(8) notin by auto
  moreover have "include_any ops cops True b c p (Some (observer g)) None ?h1 u = Inr (0, h2, u2)"
    using h1 hdr(2) wf_heapD(3) [OF wf c(1)] act(1) r(1) by (simp add: include_any_def)
  then have "deliver ops i (Some p) fill (resync_cb ops cops allocs c (Some (observer g)) None) h u = Inr (0, ?h3, u2)"
    unfolding deliver_eq [where ops = ops and i = i, OF size] x_def [symmetric] using b put(1) by (simp add: resync_cb_def nl_cache_include_def)
  moreover have "dom (h_obj ?h3) \<subseteq> insert p (dom (h_obj h))" using r(9) by (auto split: if_splits)
  ultimately show ?thesis using put(2,3) r(3-5)
    by (intro exI [of _ ?h3] exI [of _ u2] exI [of _ cache2]) simp
qed

text \<open>One announcement of an object during a resynchronisation.\<close>

lemma deliver_resync:
  fixes fill :: "'a nl_object \<Rightarrow> 'a nl_object"
  assumes wf: "wf_heap ops keyed i cops h refs" and c: "h_cache h c = Some cache" "c_hashtable cache \<noteq> None"
    and p: "h_obj h p = None" and size: "SIZEOF_NL_OBJECT \<le> oo_size (ops i)" and mem: "\<And>p h. fst (allocs p h)"
  defines "x \<equiv> fill (new_object ops i)"
  assumes x: "hdr_kept x (new_object ops i)" "keyed x"
    and act: "msgtype_act (co_msgtypes (cops (c_ops cache))) (ce_msgtype x) = Some NL_ACT_NEW"
  shows "\<exists>h' u' cache'. deliver ops i (Some p) fill (resync_cb ops cops allocs c (Some (observer g)) None) h u = Inr (0, h', u') \<and>
    wf_heap ops keyed i cops h' refs \<and> h_cache h' c = Some cache' \<and> c_hashtable cache' \<noteq> None \<and> cache_cfg cache' = cache_cfg cache \<and>
    fresh_values h' cache' = announce ops (value_of x) (fresh_values h cache) \<and> dom (h_obj h') \<subseteq> insert p (dom (h_obj h))"
proof -
  let ?x = "x\<lparr>ce_cache := Some c, ce_linked := True, ce_refcnt := 2\<rparr>"
  have "\<not> nl_object_is_marked ?x" using x(1) by (simp add: hdr_kept_def new_object_def nl_object_is_marked_def)
  moreover have "\<exists>h' u' cache'. deliver ops i (Some p) fill (resync_cb ops cops allocs c (Some (observer g)) None) h u = Inr (0, h', u') \<and>
    wf_heap ops keyed i cops h' refs \<and> h_cache h' c = Some cache' \<and> c_hashtable cache' \<noteq> None \<and> cache_cfg cache' = cache_cfg cache \<and>
    c_items cache' = filter (\<lambda>q. \<not> ident ops (the (h_obj h q)) x) (c_items cache) @ [p] \<and> h_obj h' p = Some ?x \<and>
    (\<forall>q \<in> set (c_items cache). \<not> ident ops (the (h_obj h q)) x \<longrightarrow> h_obj h' q = h_obj h q) \<and> dom (h_obj h') \<subseteq> insert p (dom (h_obj h))"
    using deliver_include [where fill = fill and act = NL_ACT_NEW and g = g and u = u and allocs = allocs, OF wf c p size mem, folded x_def] x act by simp
  ultimately show ?thesis
  proof (elim exE conjE, intro exI conjI)
    fix h' :: "'a heap" and u' and cache' :: nl_cache
    assume m: "\<not> nl_object_is_marked ?x" and items: "c_items cache' = filter (\<lambda>q. \<not> ident ops (the (h_obj h q)) x) (c_items cache) @ [p]"
      and px: "h_obj h' p = Some ?x"
      and oth: "\<forall>q \<in> set (c_items cache). \<not> ident ops (the (h_obj h q)) x \<longrightarrow> h_obj h' q = h_obj h q"
    have "fresh_values h' cache' = map (\<lambda>q. value_of (the (h_obj h q))) (filter (\<lambda>q. \<not> nl_object_is_marked (the (h_obj h q)))
        (filter (\<lambda>q. \<not> ident ops (the (h_obj h q)) x) (c_items cache))) @ [value_of x]"
      by (subst fresh_values_snoc [OF items, where h = h and y = ?x]) (use oth m px in auto)
    also have "\<dots> = announce ops (value_of x) (fresh_values h cache)"
      unfolding announce_def fresh_values_def by (subst filter_values [where Q' = "\<lambda>y. \<not> ident ops y (value_of x)"]) auto
    finally show "fresh_values h' cache' = announce ops (value_of x) (fresh_values h cache)" .
  qed assumption+
qed

end

end
