(* ===== verification/Nl_Neigh.thy ===== *)
theory Nl_Neigh
  imports Nl_Resync Nl_Addr_Cmp
begin

unbundle bit_operations_syntax

text \<open>
  The object type \<open>route/neigh\<close> (\<open>lib/route/neigh.c\<close>): neighbour entries (ARP, NDP) and forwarding
  database entries of bridges. Which attributes identify an entry depends on the entry itself.
  The addresses of an entry are held by value: their reference counts are the subject of the
  model of \<open>lib/addr.c\<close>. Objects of this type are replaced as a whole by events.
\<close>

section \<open>Data\<close>

definition NEIGH_ATTR_FLAGS :: int where "NEIGH_ATTR_FLAGS = 0x01"
definition NEIGH_ATTR_STATE :: int where "NEIGH_ATTR_STATE = 0x02"
definition NEIGH_ATTR_LLADDR :: int where "NEIGH_ATTR_LLADDR = 0x04"
definition NEIGH_ATTR_DST :: int where "NEIGH_ATTR_DST = 0x08"
definition NEIGH_ATTR_CACHEINFO :: int where "NEIGH_ATTR_CACHEINFO = 0x10"
definition NEIGH_ATTR_IFINDEX :: int where "NEIGH_ATTR_IFINDEX = 0x20"
definition NEIGH_ATTR_FAMILY :: int where "NEIGH_ATTR_FAMILY = 0x40"
definition NEIGH_ATTR_TYPE :: int where "NEIGH_ATTR_TYPE = 0x80"
definition NEIGH_ATTR_PROBES :: int where "NEIGH_ATTR_PROBES = 0x100"
definition NEIGH_ATTR_MASTER :: int where "NEIGH_ATTR_MASTER = 0x200"
definition NEIGH_ATTR_VLAN :: int where "NEIGH_ATTR_VLAN = 0x400"
definition NEIGH_ATTR_ENTRY_STATE :: int where "NEIGH_ATTR_ENTRY_STATE = 0x800"

lemmas neigh_attr_defs = NEIGH_ATTR_FLAGS_def NEIGH_ATTR_STATE_def NEIGH_ATTR_LLADDR_def NEIGH_ATTR_DST_def
  NEIGH_ATTR_CACHEINFO_def NEIGH_ATTR_IFINDEX_def NEIGH_ATTR_FAMILY_def NEIGH_ATTR_TYPE_def NEIGH_ATTR_PROBES_def
  NEIGH_ATTR_MASTER_def NEIGH_ATTR_VLAN_def NEIGH_ATTR_ENTRY_STATE_def

definition RTM_NEWNEIGH :: int where "RTM_NEWNEIGH = 28"
definition RTM_DELNEIGH :: int where "RTM_DELNEIGH = 29"
definition RTM_GETNEIGH :: int where "RTM_GETNEIGH = 30"
definition RTM_LCKNEIGH :: int where "RTM_LCKNEIGH = 31"
definition NDA_MAX :: int where "NDA_MAX = 12"
definition NTF_SELF :: int where "NTF_SELF = 2"
definition NUD_PERMANENT :: int where "NUD_PERMANENT = 0x80"
definition AF_BRIDGE :: int where "AF_BRIDGE = 7"

record rtnl_ncacheinfo =
  nci_confirmed :: int
  nci_used :: int
  nci_updated :: int
  nci_refcnt :: int

record rtnl_neigh =
  n_family :: int
  n_ifindex :: int
  n_state :: int
  n_flags :: int
  n_type :: int
  n_lladdr :: "nl_addr option"
  n_dst :: "nl_addr option"
  n_probes :: int
  n_cacheinfo :: rtnl_ncacheinfo
  n_state_mask :: int
  n_flag_mask :: int
  n_master :: int
  n_vlan :: int
  entry_state :: int

type_synonym neigh_obj = "rtnl_neigh nl_object"

section \<open>The operations of the type\<close>

text \<open>\<open>neigh_free_data\<close> releases both addresses.\<close>

definition neigh_free_data :: "rtnl_neigh \<Rightarrow> (nl_addr option \<times> nl_addr option) res" where
  "neigh_free_data n =
     and_then (nl_addr_put (n_lladdr n)) (\<lambda>lladdr. and_then (nl_addr_put (n_dst n)) (\<lambda>dst. Inr (lladdr, dst)))"

definition neigh_clone :: "bool \<Rightarrow> bool \<Rightarrow> neigh_obj \<Rightarrow> neigh_obj \<Rightarrow> int \<times> neigh_obj" where
  "neigh_clone a1 a2 dst src =
     (case (case n_lladdr (ce_data src) of None \<Rightarrow> Some dst
            | Some l \<Rightarrow> map_option (\<lambda>l'. dst\<lparr>ce_data := (ce_data dst)\<lparr>n_lladdr := Some l'\<rparr>\<rparr>) (nl_addr_clone a1 l)) of
        None \<Rightarrow> (neg_err NLE_NOMEM, dst\<lparr>ce_data := (ce_data dst)\<lparr>n_lladdr := None\<rparr>\<rparr>)
      | Some dst \<Rightarrow>
          (case n_dst (ce_data src) of None \<Rightarrow> (0, dst)
           | Some d \<Rightarrow>
               (case nl_addr_clone a2 d of
                  None \<Rightarrow> (neg_err NLE_NOMEM, dst\<lparr>ce_data := (ce_data dst)\<lparr>n_dst := None\<rparr>\<rparr>)
                | Some d' \<Rightarrow> (0, dst\<lparr>ce_data := (ce_data dst)\<lparr>n_dst := Some d'\<rparr>\<rparr>))))"

text \<open>\<open>a\<close> is the success of allocating the key, \<open>addr\<close> its address; the host is little endian.\<close>

definition neigh_keygen :: "nat \<Rightarrow> bool \<Rightarrow> neigh_obj \<Rightarrow> int \<Rightarrow> int" where
  "neigh_keygen addr a obj table_sz =
     (let n = ce_data obj;
          ad = (if n_family n = AF_BRIDGE then n_lladdr n else n_dst n);
          ifindex = (if n_family n = AF_BRIDGE
                     then if n_flags n AND NTF_SELF \<noteq> 0 then n_ifindex n else n_master n
                     else n_ifindex n);
          vlan = (if n_family n = AF_BRIDGE then n_vlan n else 0);
          nkey = le_bytes 4 (n_family n) @ le_bytes 4 ifindex @ le_bytes 2 vlan @
            (case ad of None \<Rightarrow> [] | Some x \<Rightarrow> rd (nl_addr_get_binary_addr x) 0 (nl_addr_get_len x))
      in if \<not> a then 0 else uint (nl_hash False False addr nkey 0) mod table_sz)"

text \<open>The two arguments of \<open>nl_addr_cmp\<close> are the same pointer only if they are equal, and equal
  arguments compare equal in either case.\<close>

definition addr_differs :: "nl_addr option \<Rightarrow> nl_addr option \<Rightarrow> bool" where
  "addr_differs a b \<longleftrightarrow> nl_addr_cmp (a = b) a b \<noteq> 0"

definition neigh_compare :: "neigh_obj \<Rightarrow> neigh_obj \<Rightarrow> int \<Rightarrow> int \<Rightarrow> int" where
  "neigh_compare oa ob attrs flags =
     (let a = ce_data oa; b = ce_data ob; d = (\<lambda>attr expr. ATTR_DIFF attrs attr oa ob expr) in
      d NEIGH_ATTR_IFINDEX (n_ifindex a \<noteq> n_ifindex b) OR
      d NEIGH_ATTR_FAMILY (n_family a \<noteq> n_family b) OR
      d NEIGH_ATTR_TYPE (n_type a \<noteq> n_type b) OR
      d NEIGH_ATTR_LLADDR (addr_differs (n_lladdr a) (n_lladdr b)) OR
      d NEIGH_ATTR_DST (addr_differs (n_dst a) (n_dst b)) OR
      d NEIGH_ATTR_MASTER (n_master a \<noteq> n_master b) OR
      d NEIGH_ATTR_VLAN (n_vlan a \<noteq> n_vlan b) OR
      (if flags AND LOOSE_COMPARISON \<noteq> 0 then
         d NEIGH_ATTR_STATE ((n_state a XOR n_state b) AND n_state_mask b \<noteq> 0) OR
         d NEIGH_ATTR_FLAGS ((n_flags a XOR n_flags b) AND n_flag_mask b \<noteq> 0)
       else
         d NEIGH_ATTR_STATE (n_state a \<noteq> n_state b) OR
         d NEIGH_ATTR_FLAGS (n_flags a \<noteq> n_flags b)))"

definition neigh_id_attrs_get :: "neigh_obj \<Rightarrow> int" where
  "neigh_id_attrs_get obj =
     (let n = ce_data obj in
      if n_family n = AF_BRIDGE then
        if n_flags n AND NTF_SELF \<noteq> 0 then
          NEIGH_ATTR_LLADDR OR NEIGH_ATTR_FAMILY OR NEIGH_ATTR_IFINDEX OR
          (if ce_mask obj AND NEIGH_ATTR_DST \<noteq> 0 then NEIGH_ATTR_DST else 0) OR
          (if ce_mask obj AND NEIGH_ATTR_VLAN \<noteq> 0 then NEIGH_ATTR_VLAN else 0)
        else NEIGH_ATTR_LLADDR OR NEIGH_ATTR_FAMILY OR NEIGH_ATTR_MASTER OR NEIGH_ATTR_VLAN
      else NEIGH_ATTR_IFINDEX OR NEIGH_ATTR_DST OR NEIGH_ATTR_FAMILY)"

definition neigh_obj_ops :: "nat \<Rightarrow> rtnl_neigh nl_object_ops" where
  "neigh_obj_ops addr =
     \<lparr>oo_name = ''route/neigh'', oo_size = 128,
      oo_id_attrs = NEIGH_ATTR_IFINDEX OR NEIGH_ATTR_DST OR NEIGH_ATTR_FAMILY,
      oo_zero = \<lparr>n_family = 0, n_ifindex = 0, n_state = 0, n_flags = 0, n_type = 0, n_lladdr = None, n_dst = None,
        n_probes = 0, n_cacheinfo = \<lparr>nci_confirmed = 0, nci_used = 0, nci_updated = 0, nci_refcnt = 0\<rparr>,
        n_state_mask = 0, n_flag_mask = 0, n_master = 0, n_vlan = 0, entry_state = 0\<rparr>,
      oo_constructor = None, oo_free_data = True, oo_clone = Some (neigh_clone True True),
      oo_compare = Some neigh_compare, oo_update = None,
      oo_keygen = Some (neigh_keygen addr True), oo_id_attrs_get = Some neigh_id_attrs_get\<rparr>"

definition rtnl_neigh_ops :: nl_cache_ops where
  "rtnl_neigh_ops =
     \<lparr>co_name = Some ''route/neigh'', co_hdrsize = 12, co_protocol = 0, co_hash_size = 0, co_flags = 0,
      co_groups = Some [(AF_UNSPEC, 3), (AF_BRIDGE, 3), (0, 0)], co_obj_ops = Some 0,
      co_msgtypes = [\<lparr>mt_id = RTM_NEWNEIGH, mt_act = NL_ACT_NEW, mt_name = ''new''\<rparr>,
        \<lparr>mt_id = RTM_DELNEIGH, mt_act = NL_ACT_DEL, mt_name = ''del''\<rparr>,
        \<lparr>mt_id = RTM_GETNEIGH, mt_act = 3, mt_name = ''get''\<rparr>,
        \<lparr>mt_id = RTM_LCKNEIGH, mt_act = 3, mt_name = ''lck''\<rparr>,
        \<lparr>mt_id = -1, mt_act = -1, mt_name = []\<rparr>]\<rparr>"

definition neigh_attrs :: "trans_tbl list" where
  "neigh_attrs =
     [(NEIGH_ATTR_FLAGS, ''flags''), (NEIGH_ATTR_STATE, ''state''), (NEIGH_ATTR_LLADDR, ''lladdr''), (NEIGH_ATTR_DST, ''dst''),
      (NEIGH_ATTR_CACHEINFO, ''cacheinfo''), (NEIGH_ATTR_IFINDEX, ''ifindex''), (NEIGH_ATTR_FAMILY, ''family''),
      (NEIGH_ATTR_TYPE, ''type''), (NEIGH_ATTR_PROBES, ''probes''), (NEIGH_ATTR_MASTER, ''master''),
      (NEIGH_ATTR_VLAN, ''vlan''), (NEIGH_ATTR_ENTRY_STATE, ''entry_state'')]"

definition neigh_attrs2str :: "int \<Rightarrow> string \<Rightarrow> nat \<Rightarrow> string res" where
  "neigh_attrs2str attrs buf len = flags2str attrs buf len neigh_attrs"

section \<open>Parsing\<close>

definition neigh_policy :: "nla_policy list" where
  "neigh_policy =
     (replicate 13 \<lparr>pol_type = NLA_UNSPEC, pol_minlen = 0, pol_maxlen = 0\<rparr>)
       [3 := \<lparr>pol_type = NLA_UNSPEC, pol_minlen = 16, pol_maxlen = 0\<rparr>,
        4 := \<lparr>pol_type = NLA_U32, pol_minlen = 0, pol_maxlen = 0\<rparr>]"

text \<open>The assignments from \<open>struct ndmsg\<close>.\<close>

definition neigh_from_hdr :: "byte list \<Rightarrow> int \<Rightarrow> neigh_obj \<Rightarrow> neigh_obj" where
  "neigh_from_hdr buf nm obj =
     obj\<lparr>ce_data := (ce_data obj)\<lparr>n_family := le_int (rd buf nm 1), n_ifindex := get32 buf (nm + 4),
            n_state := get16 buf (nm + 8), n_flags := le_int (rd buf (nm + 10) 1), n_type := le_int (rd buf (nm + 11) 1)\<rparr>,
         ce_mask := ce_mask obj OR NEIGH_ATTR_FAMILY OR NEIGH_ATTR_IFINDEX OR NEIGH_ATTR_STATE OR NEIGH_ATTR_FLAGS OR
            NEIGH_ATTR_TYPE\<rparr>"

text \<open>The address of an attribute, with the family that its length suggests.\<close>

definition attr_addr :: "byte list \<Rightarrow> int \<Rightarrow> nl_addr" where
  "attr_addr buf p =
     (let ad = the (nl_addr_alloc_attr True buf p AF_UNSPEC) in nl_addr_set_family ad (nl_addr_guess_family ad))"

text \<open>One block \<open>if (tb[...]) { ...; neigh->ce_mask |= ...; }\<close>.\<close>

definition neigh_attr :: "int option \<Rightarrow> int \<Rightarrow> (int \<Rightarrow> rtnl_neigh \<Rightarrow> rtnl_neigh) \<Rightarrow> neigh_obj \<Rightarrow> neigh_obj" where
  "neigh_attr attr flag upd obj =
     (case attr of None \<Rightarrow> obj
      | Some p \<Rightarrow> obj\<lparr>ce_data := upd p (ce_data obj), ce_mask := ce_mask obj OR flag\<rparr>)"

definition neigh_cacheinfo :: "byte list \<Rightarrow> int \<Rightarrow> rtnl_ncacheinfo" where
  "neigh_cacheinfo buf p =
     (let ci = nla_data p in
      \<lparr>nci_confirmed = get32 buf ci, nci_used = get32 buf (ci + 4), nci_updated = get32 buf (ci + 8),
       nci_refcnt = get32 buf (ci + 12)\<rparr>)"

text \<open>
  The bridge of an entry: \<open>master\<close> is the lookup of the interface in the cache \<open>route/link\<close>, which
  fails without that cache or interface.
\<close>

definition neigh_bridge :: "(int \<Rightarrow> int option) \<Rightarrow> byte list \<Rightarrow> int option \<Rightarrow> neigh_obj \<Rightarrow> neigh_obj" where
  "neigh_bridge master buf attr obj =
     (let set = (\<lambda>m. obj\<lparr>ce_data := (ce_data obj)\<lparr>n_master := m\<rparr>, ce_mask := ce_mask obj OR NEIGH_ATTR_MASTER\<rparr>) in
      if n_family (ce_data obj) = AF_BRIDGE then
        case attr of
          Some p \<Rightarrow> set (nla_get_u32 buf p)
        | None \<Rightarrow> (case master (n_ifindex (ce_data obj)) of None \<Rightarrow> obj | Some m \<Rightarrow> set m)
      else obj)"

text \<open>All attributes, if no allocation fails.\<close>

definition neigh_fill ::
  "(int \<Rightarrow> int option) \<Rightarrow> byte list \<Rightarrow> int \<Rightarrow> int option list \<Rightarrow> neigh_obj \<Rightarrow> neigh_obj" where
  "neigh_fill master buf off tb obj =
     (let obj = obj\<lparr>ce_msgtype := nlmsg_type (nlh buf off)\<rparr>;
          obj = neigh_from_hdr buf (nlmsg_data off) obj;
          obj = neigh_attr (tb ! 2) NEIGH_ATTR_LLADDR (\<lambda>p d. d\<lparr>n_lladdr := Some (attr_addr buf p)\<rparr>) obj;
          obj = neigh_attr (tb ! 1) NEIGH_ATTR_DST (\<lambda>p d. d\<lparr>n_dst := Some (attr_addr buf p)\<rparr>) obj;
          obj = neigh_attr (tb ! 3) NEIGH_ATTR_CACHEINFO (\<lambda>p d. d\<lparr>n_cacheinfo := neigh_cacheinfo buf p\<rparr>) obj;
          obj = neigh_attr (tb ! 4) NEIGH_ATTR_PROBES (\<lambda>p d. d\<lparr>n_probes := nla_get_u32 buf p\<rparr>) obj;
          obj = neigh_attr (tb ! 5) NEIGH_ATTR_VLAN (\<lambda>p d. d\<lparr>n_vlan := nla_get_u16 buf p\<rparr>) obj;
          obj = neigh_attr (tb ! 12) NEIGH_ATTR_ENTRY_STATE (\<lambda>p d. d\<lparr>entry_state := nla_get_u16 buf p\<rparr>) obj
      in neigh_bridge master buf (tb ! 9) obj)"

text \<open>
  The parser: \<open>a\<close> is the allocation of the object, \<open>a1\<close> and \<open>a2\<close> those of the link layer and of the
  destination address. In case of an error the object is released.
\<close>

definition rtnl_neigh_parse ::
  "nat \<Rightarrow> nat option \<Rightarrow> bool \<Rightarrow> bool \<Rightarrow> (int \<Rightarrow> int option) \<Rightarrow> byte list \<Rightarrow> int \<Rightarrow> rtnl_neigh heap \<Rightarrow>
   (int \<times> nat option \<times> rtnl_neigh heap) res" where
  "rtnl_neigh_parse addr a a1 a2 master buf off h =
     (let ops = (\<lambda>_. neigh_obj_ops addr) in
      and_then (nl_object_alloc ops a 0 h) (\<lambda>(new, h).
      case new of
        None \<Rightarrow> Inr (neg_err NLE_NOMEM, None, h)
      | Some p \<Rightarrow>
          (let errout = (\<lambda>e. and_then (nl_object_put ops (Some p) h) (\<lambda>h. Inr (neg_err e, None, h))) in
           case nlmsg_parse buf off 12 NDA_MAX (Some neigh_policy) of
             (_, Inl (Err e)) \<Rightarrow> errout e
           | (_, Inl f) \<Rightarrow> Inl f
           | (None, Inr _) \<Rightarrow> Inl Undef
           | (Some tb, Inr _) \<Rightarrow>
               if (tb ! 2 \<noteq> None \<and> \<not> a1) \<or> (tb ! 1 \<noteq> None \<and> \<not> a2) then errout NLE_NOMEM
               else
                 and_then (deref (h_obj h) p) (\<lambda>obj.
                   Inr (0, Some p, set_obj p (neigh_fill master buf off tb obj) h)))))"

definition neigh_msg_parser ::
  "nat \<Rightarrow> nat option \<Rightarrow> bool \<Rightarrow> bool \<Rightarrow> (int \<Rightarrow> int option) \<Rightarrow> byte list \<Rightarrow> int \<Rightarrow> (rtnl_neigh, 'u) pp_cb \<Rightarrow>
   rtnl_neigh heap \<Rightarrow> 'u \<Rightarrow> (int \<times> rtnl_neigh heap \<times> 'u) res" where
  "neigh_msg_parser addr a a1 a2 master buf off pp_cb h u =
     and_then (rtnl_neigh_parse addr a a1 a2 master buf off h) (\<lambda>(err, neigh, h).
     if err < 0 then Inr (err, h, u)
     else
       case neigh of
         None \<Rightarrow> Inl Undef
       | Some p \<Rightarrow>
           and_then (pp_cb p h u) (\<lambda>(err, h, u).
           and_then (nl_object_put (\<lambda>_. neigh_obj_ops addr) (Some p) h) (\<lambda>h. Inr (err, h, u))))"

section \<open>Requests\<close>

text \<open>\<open>struct ifinfomsg\<close> with the family of the cache (\<open>c_iarg1\<close>) and zeros.\<close>

definition neigh_request_update ::
  "'u sendfun \<Rightarrow> bool \<Rightarrow> bool \<Rightarrow> int \<Rightarrow> int \<Rightarrow> int \<Rightarrow> ('a, 'u) nl_cb \<Rightarrow> nl_cache \<Rightarrow> nl_sock \<Rightarrow> ports \<Rightarrow> 'u \<Rightarrow>
   (int \<times> nl_sock \<times> ports \<times> 'u) res" where
  "neigh_request_update sys_send a1 a2 dsz getpid t cb c sk st u =
     (let family = c_iarg1 c; hdr = le_bytes 1 family @ zeros 15 in
      if family = AF_UNSPEC then nl_send_simple sys_send a1 a2 dsz getpid t cb sk RTM_GETNEIGH NLM_F_DUMP (Some hdr) st u
      else if family = AF_BRIDGE then
        case nlmsg_alloc_simple a1 a2 dsz RTM_GETNEIGH (NLM_F_REQUEST OR NLM_F_DUMP) of
          None \<Rightarrow> Inr (neg_err NLE_NOMEM, sk, st, u)
        | Some msg \<Rightarrow>
            (case nlmsg_append msg hdr 4 of
               Inl (Err _) \<Rightarrow> and_then (nlmsg_free (Some msg)) (\<lambda>_. Inr (neg_err NLE_MSGSIZE, sk, st, u))
             | Inl f \<Rightarrow> Inl f
             | Inr msg \<Rightarrow>
                 (case nl_send_auto sys_send getpid t cb sk msg st u of
                    (err, sk, msg, st, u) \<Rightarrow>
                      and_then (nlmsg_free (Some msg)) (\<lambda>_. Inr (if err > 0 then 0 else err, sk, st, u))))
      else Inr (neg_err NLE_INVAL, sk, st, u))"

text \<open>\<open>NLA_PUT\<close> and its variants: any failure ends in \<open>nla_put_failure\<close>.\<close>

definition put_or_msgsize :: "nl_msg res \<Rightarrow> nl_msg res" where
  "put_or_msgsize r = (case r of Inl (Err _) \<Rightarrow> Inl (Err NLE_MSGSIZE) | _ \<Rightarrow> r)"

definition NLA_PUT_ADDR :: "nl_msg \<Rightarrow> int \<Rightarrow> nl_addr option \<Rightarrow> nl_msg res" where
  "NLA_PUT_ADDR msg attrtype addr =
     (case addr of None \<Rightarrow> Inl Undef
      | Some ad \<Rightarrow>
          put_or_msgsize (nla_put msg attrtype (s32 (nl_addr_get_len ad)) (nl_addr_get_binary_addr ad)))"

text \<open>\<open>struct ndmsg\<close> as the code fills it in.\<close>

definition neigh_hdr :: "neigh_obj \<Rightarrow> byte list res" where
  "neigh_hdr tmpl =
     (let n = ce_data tmpl; m = ce_mask tmpl;
          state = (if m AND NEIGH_ATTR_STATE \<noteq> 0 then n_state n else NUD_PERMANENT);
          flags = (if m AND NEIGH_ATTR_FLAGS \<noteq> 0 then n_flags n else 0);
          bytes = (\<lambda>fam. le_bytes 1 fam @ zeros 3 @ le_bytes 4 (n_ifindex n) @ le_bytes 2 state @ le_bytes 1 flags @ zeros 1) in
      if n_family n \<noteq> AF_BRIDGE then
        if m AND NEIGH_ATTR_DST = 0 then Inl (Err NLE_MISSING_ATTR)
        else case n_dst n of None \<Rightarrow> Inl Undef | Some d \<Rightarrow> Inr (bytes (nl_addr_get_family d))
      else Inr (bytes AF_BRIDGE))"

text \<open>On failure the message, to which nobody else has a reference, is freed.\<close>

definition build_neigh_msg :: "bool \<Rightarrow> bool \<Rightarrow> int \<Rightarrow> neigh_obj \<Rightarrow> int \<Rightarrow> int \<Rightarrow> nl_msg res" where
  "build_neigh_msg a1 a2 dsz tmpl cmd flags =
     (let n = ce_data tmpl; m = ce_mask tmpl in
      and_then (neigh_hdr tmpl) (\<lambda>nhdr.
      case nlmsg_alloc_simple a1 a2 dsz cmd flags of
        None \<Rightarrow> Inl (Err NLE_NOMEM)
      | Some msg \<Rightarrow>
          and_then (put_or_msgsize (nlmsg_append msg nhdr 4)) (\<lambda>msg.
          and_then (if n_family n \<noteq> AF_BRIDGE then NLA_PUT_ADDR msg 1 (n_dst n) else Inr msg) (\<lambda>msg.
          and_then (if m AND NEIGH_ATTR_LLADDR \<noteq> 0 then NLA_PUT_ADDR msg 2 (n_lladdr n) else Inr msg) (\<lambda>msg.
            if m AND NEIGH_ATTR_VLAN \<noteq> 0 then put_or_msgsize (nla_put_u16 msg 5 (n_vlan n)) else Inr msg)))))"

definition rtnl_neigh_build_add_request :: "bool \<Rightarrow> bool \<Rightarrow> int \<Rightarrow> neigh_obj \<Rightarrow> int \<Rightarrow> nl_msg res" where
  "rtnl_neigh_build_add_request a1 a2 dsz tmpl flags = build_neigh_msg a1 a2 dsz tmpl RTM_NEWNEIGH flags"

definition rtnl_neigh_build_delete_request :: "bool \<Rightarrow> bool \<Rightarrow> int \<Rightarrow> neigh_obj \<Rightarrow> int \<Rightarrow> nl_msg res" where
  "rtnl_neigh_build_delete_request a1 a2 dsz neigh flags = build_neigh_msg a1 a2 dsz neigh RTM_DELNEIGH flags"

text \<open>Sending a request that has been built and waiting for the acknowledgement; \<open>b1\<close> and \<open>b2\<close> are
  allocations of the receiving side.\<close>

definition send_built ::
  "nat \<Rightarrow> 'u sendfun \<Rightarrow> (nl_sock \<Rightarrow> 'u \<Rightarrow> (recv_result \<times> nl_sock \<times> 'u) option) \<Rightarrow> bool \<Rightarrow> bool \<Rightarrow> int \<Rightarrow> int \<Rightarrow>
   ('a, 'u) nl_cb \<Rightarrow> nl_msg res \<Rightarrow> nl_sock \<Rightarrow> ports \<Rightarrow> 'u \<Rightarrow> ((int \<times> nl_sock \<times> 'u) option \<times> ports) res" where
  "send_built fuel sys_send recv b1 b2 getpid t cb built sk st u =
     (case built of
        Inl (Err e) \<Rightarrow> Inr (Some (neg_err e, sk, u), st)
      | Inl f \<Rightarrow> Inl f
      | Inr msg \<Rightarrow>
          (case nl_send_auto_complete sys_send getpid t cb sk msg st u of
             (err, sk, msg, st, u) \<Rightarrow>
               and_then (nlmsg_free (Some msg)) (\<lambda>_.
                 if err < 0 then Inr (Some (err, sk, u), st)
                 else Inr (wait_for_ack fuel recv b1 b2 cb sk u, st))))"

definition rtnl_neigh_add ::
  "nat \<Rightarrow> 'u sendfun \<Rightarrow> (nl_sock \<Rightarrow> 'u \<Rightarrow> (recv_result \<times> nl_sock \<times> 'u) option) \<Rightarrow> bool \<Rightarrow> bool \<Rightarrow> bool \<Rightarrow> bool \<Rightarrow> int \<Rightarrow>
   int \<Rightarrow> int \<Rightarrow> ('a, 'u) nl_cb \<Rightarrow> nl_sock \<Rightarrow> neigh_obj \<Rightarrow> int \<Rightarrow> ports \<Rightarrow> 'u \<Rightarrow>
   ((int \<times> nl_sock \<times> 'u) option \<times> ports) res" where
  "rtnl_neigh_add fuel sys_send recv a1 a2 b1 b2 dsz getpid t cb sk tmpl flags st u =
     send_built fuel sys_send recv b1 b2 getpid t cb (rtnl_neigh_build_add_request a1 a2 dsz tmpl flags) sk st u"

definition rtnl_neigh_delete ::
  "nat \<Rightarrow> 'u sendfun \<Rightarrow> (nl_sock \<Rightarrow> 'u \<Rightarrow> (recv_result \<times> nl_sock \<times> 'u) option) \<Rightarrow> bool \<Rightarrow> bool \<Rightarrow> bool \<Rightarrow> bool \<Rightarrow> int \<Rightarrow>
   int \<Rightarrow> int \<Rightarrow> ('a, 'u) nl_cb \<Rightarrow> nl_sock \<Rightarrow> neigh_obj \<Rightarrow> int \<Rightarrow> ports \<Rightarrow> 'u \<Rightarrow>
   ((int \<times> nl_sock \<times> 'u) option \<times> ports) res" where
  "rtnl_neigh_delete fuel sys_send recv a1 a2 b1 b2 dsz getpid t cb sk neigh flags st u =
     send_built fuel sys_send recv b1 b2 getpid t cb (rtnl_neigh_build_delete_request a1 a2 dsz neigh flags) sk st u"

section \<open>Caches\<close>

definition rtnl_neigh_get ::
  "nat \<Rightarrow> int \<Rightarrow> nl_addr \<Rightarrow> rtnl_neigh heap \<Rightarrow> (nat option \<times> rtnl_neigh heap) res" where
  "rtnl_neigh_get c ifindex dst h =
     and_then (deref (h_cache h) c) (\<lambda>cache.
       search_list (\<lambda>obj. let n = ce_data obj in
         Inr (n_ifindex n = u32 ifindex \<and> n_family n = u32 (a_family dst) \<and> \<not> addr_differs (n_dst n) (Some dst)))
       (c_items cache) h)"

definition rtnl_neigh_get_by_vlan ::
  "nat \<Rightarrow> int \<Rightarrow> nl_addr option \<Rightarrow> int \<Rightarrow> rtnl_neigh heap \<Rightarrow> (nat option \<times> rtnl_neigh heap) res" where
  "rtnl_neigh_get_by_vlan c ifindex lladdr vlan h =
     and_then (deref (h_cache h) c) (\<lambda>cache.
       search_list (\<lambda>obj. let n = ce_data obj in
         Inr (n_ifindex n = u32 ifindex \<and> n_vlan n = vlan \<and> n_lladdr n \<noteq> None \<and> \<not> addr_differs (n_lladdr n) lladdr))
       (c_items cache) h)"

text \<open>\<open>refill\<close> is \<open>nl_cache_refill\<close> with the arguments that \<open>nl_cache_alloc_and_fill\<close> gets; \<open>i\<close> is the index of
  the cache type.\<close>

definition rtnl_neigh_alloc_cache_flags ::
  "rtnl_neigh ops \<Rightarrow> cops \<Rightarrow> (nat \<Rightarrow> nl_sock \<Rightarrow> rtnl_neigh heap \<Rightarrow> 'u \<Rightarrow> (rtnl_neigh, 'u) synced) \<Rightarrow> nat option \<Rightarrow> bool \<Rightarrow> bool \<Rightarrow>
   nat \<Rightarrow> nl_sock option \<Rightarrow> int \<Rightarrow> rtnl_neigh heap \<Rightarrow> 'u \<Rightarrow>
   (int \<times> nat option \<times> nl_sock option \<times> rtnl_neigh heap \<times> 'u) res option" where
  "rtnl_neigh_alloc_cache_flags ops cops refill a a1 a2 i sk flags h u =
     (case nl_cache_alloc ops cops a a1 a2 i h of
        Inl f \<Rightarrow> Some (Inl f)
      | Inr (None, h) \<Rightarrow> Some (Inr (neg_err NLE_NOMEM, None, sk, h, u))
      | Inr (Some c, h) \<Rightarrow>
          (case h_cache h c of
             None \<Rightarrow> Some (Inl Undef)
           | Some cache \<Rightarrow>
               (let h = set_cache c (nl_cache_set_flags cache flags) h in
                case sk of
                  None \<Rightarrow> Some (Inr (0, Some c, None, h, u))
                | Some s \<Rightarrow>
                    (case refill c s h u of
                       None \<Rightarrow> None
                     | Some (Inl f) \<Rightarrow> Some (Inl f)
                     | Some (Inr (err, s, h, u)) \<Rightarrow>
                         if err < 0 then
                           Some (and_then (nl_cache_free ops (Some c) h) (\<lambda>h. Inr (err, None, Some s, h, u)))
                         else Some (Inr (0, Some c, Some s, h, u))))))"

definition rtnl_neigh_alloc_cache ::
  "rtnl_neigh ops \<Rightarrow> cops \<Rightarrow> rtnl_neigh allocs \<Rightarrow> ('a, rtnl_neigh, 'u) link_layer \<Rightarrow> (rtnl_neigh, 'u) msg_parser \<Rightarrow>
   (rtnl_neigh, 'u) requester option \<Rightarrow> nat \<Rightarrow> nat option \<Rightarrow> bool \<Rightarrow> bool \<Rightarrow> nat \<Rightarrow> nl_sock option \<Rightarrow> rtnl_neigh heap \<Rightarrow> 'u \<Rightarrow>
   (int \<times> nat option \<times> nl_sock option \<times> rtnl_neigh heap \<times> 'u) res option" where
  "rtnl_neigh_alloc_cache ops cops allocs ll parser req fuel a a1 a2 i sk h u =
     nl_cache_alloc_and_fill ops cops allocs ll parser req fuel a a1 a2 i sk h u"

section \<open>Names of states and flags\<close>

definition neigh_states :: "trans_tbl list" where
  "neigh_states =
     [(0x01, ''incomplete''), (0x02, ''reachable''), (0x04, ''stale''), (0x08, ''delay''), (0x10, ''probe''),
      (0x20, ''failed''), (0x40, ''noarp''), (NUD_PERMANENT, ''permanent''), (0x40, ''norarp'')]"

definition neigh_flags :: "trans_tbl list" where
  "neigh_flags =
     [(0x01, ''use''), (0x08, ''proxy''), (0x80, ''router''), (NTF_SELF, ''self''), (0x04, ''master''),
      (0x10, ''ext_learned''), (0x20, ''offloaded'')]"

definition rtnl_neigh_state2str :: "int \<Rightarrow> string \<Rightarrow> nat \<Rightarrow> string res" where
  "rtnl_neigh_state2str state buf len = flags2str state buf len (take 8 neigh_states)"

definition rtnl_neigh_str2state :: "string \<Rightarrow> int" where
  "rtnl_neigh_str2state name = str2type name neigh_states"

definition rtnl_neigh_flags2str :: "int \<Rightarrow> string \<Rightarrow> nat \<Rightarrow> string res" where
  "rtnl_neigh_flags2str flags buf len = flags2str flags buf len neigh_flags"

definition rtnl_neigh_str2flag :: "string \<Rightarrow> int" where
  "rtnl_neigh_str2flag name = str2type name neigh_flags"

section \<open>Attributes\<close>

text \<open>\<open>neigh->... = ...; neigh->ce_mask |= flag\<close>.\<close>

abbreviation set_field :: "int \<Rightarrow> (rtnl_neigh \<Rightarrow> rtnl_neigh) \<Rightarrow> neigh_obj \<Rightarrow> neigh_obj" where
  "set_field flag upd neigh \<equiv> neigh\<lparr>ce_data := upd (ce_data neigh), ce_mask := ce_mask neigh OR flag\<rparr>"

definition rtnl_neigh_set_state :: "neigh_obj \<Rightarrow> int \<Rightarrow> neigh_obj" where
  "rtnl_neigh_set_state neigh state =
     set_field NEIGH_ATTR_STATE
       (\<lambda>n. n\<lparr>n_state_mask := u32 (n_state_mask n OR state), n_state := u16 (n_state n OR state)\<rparr>) neigh"

definition rtnl_neigh_get_state :: "neigh_obj \<Rightarrow> int" where
  "rtnl_neigh_get_state neigh = (if ce_mask neigh AND NEIGH_ATTR_STATE \<noteq> 0 then n_state (ce_data neigh) else - 1)"

definition rtnl_neigh_get_entry_state :: "neigh_obj \<Rightarrow> int" where
  "rtnl_neigh_get_entry_state neigh =
     (if ce_mask neigh AND NEIGH_ATTR_ENTRY_STATE \<noteq> 0 then entry_state (ce_data neigh) else - 1)"

definition rtnl_neigh_get_updated :: "neigh_obj \<Rightarrow> int" where
  "rtnl_neigh_get_updated neigh =
     (if ce_mask neigh AND NEIGH_ATTR_CACHEINFO \<noteq> 0 then s32 (nci_updated (n_cacheinfo (ce_data neigh))) else - 1)"

definition rtnl_neigh_unset_state :: "neigh_obj \<Rightarrow> int \<Rightarrow> neigh_obj" where
  "rtnl_neigh_unset_state neigh state =
     set_field NEIGH_ATTR_STATE
       (\<lambda>n. n\<lparr>n_state_mask := u32 (n_state_mask n OR state), n_state := u16 (n_state n AND NOT state)\<rparr>) neigh"

definition rtnl_neigh_set_flags :: "neigh_obj \<Rightarrow> int \<Rightarrow> neigh_obj" where
  "rtnl_neigh_set_flags neigh flags =
     set_field NEIGH_ATTR_FLAGS
       (\<lambda>n. n\<lparr>n_flag_mask := u32 (n_flag_mask n OR flags), n_flags := u8 (n_flags n OR flags)\<rparr>) neigh"

definition rtnl_neigh_get_flags :: "neigh_obj \<Rightarrow> int" where
  "rtnl_neigh_get_flags neigh = n_flags (ce_data neigh)"

definition rtnl_neigh_unset_flags :: "neigh_obj \<Rightarrow> int \<Rightarrow> neigh_obj" where
  "rtnl_neigh_unset_flags neigh flags =
     set_field NEIGH_ATTR_FLAGS
       (\<lambda>n. n\<lparr>n_flag_mask := u32 (n_flag_mask n OR flags), n_flags := u8 (n_flags n AND NOT flags)\<rparr>) neigh"

definition rtnl_neigh_set_ifindex :: "neigh_obj \<Rightarrow> int \<Rightarrow> neigh_obj" where
  "rtnl_neigh_set_ifindex neigh ifindex = set_field NEIGH_ATTR_IFINDEX (n_ifindex_update (\<lambda>_. u32 ifindex)) neigh"

definition rtnl_neigh_get_ifindex :: "neigh_obj \<Rightarrow> int" where
  "rtnl_neigh_get_ifindex neigh = s32 (n_ifindex (ce_data neigh))"

text \<open>\<open>__assign_addr\<close> without the reference counts; \<open>upd\<close> stores through \<open>pos\<close>.\<close>

definition assign_addr ::
  "neigh_obj \<Rightarrow> (nl_addr option \<Rightarrow> rtnl_neigh \<Rightarrow> rtnl_neigh) \<Rightarrow> nl_addr \<Rightarrow> int \<Rightarrow> bool \<Rightarrow> int \<times> neigh_obj" where
  "assign_addr neigh upd new flag nocheck =
     (if \<not> nocheck \<and> ce_mask neigh AND NEIGH_ATTR_FAMILY \<noteq> 0 \<and> u32 (a_family new) \<noteq> n_family (ce_data neigh)
      then (neg_err NLE_AF_MISMATCH, neigh)
      else
        let neigh = (if \<not> nocheck \<and> ce_mask neigh AND NEIGH_ATTR_FAMILY = 0
                     then set_field NEIGH_ATTR_FAMILY (n_family_update (\<lambda>_. u32 (a_family new))) neigh else neigh)
        in (0, set_field flag (upd (Some new)) neigh))"

definition rtnl_neigh_set_lladdr :: "neigh_obj \<Rightarrow> nl_addr \<Rightarrow> neigh_obj" where
  "rtnl_neigh_set_lladdr neigh addr = snd (assign_addr neigh (\<lambda>x. n_lladdr_update (\<lambda>_. x)) addr NEIGH_ATTR_LLADDR True)"

definition rtnl_neigh_get_lladdr :: "neigh_obj \<Rightarrow> nl_addr option" where
  "rtnl_neigh_get_lladdr neigh = (if ce_mask neigh AND NEIGH_ATTR_LLADDR \<noteq> 0 then n_lladdr (ce_data neigh) else None)"

definition rtnl_neigh_set_dst :: "neigh_obj \<Rightarrow> nl_addr \<Rightarrow> int \<times> neigh_obj" where
  "rtnl_neigh_set_dst neigh addr = assign_addr neigh (\<lambda>x. n_dst_update (\<lambda>_. x)) addr NEIGH_ATTR_DST False"

definition rtnl_neigh_get_dst :: "neigh_obj \<Rightarrow> nl_addr option" where
  "rtnl_neigh_get_dst neigh = (if ce_mask neigh AND NEIGH_ATTR_DST \<noteq> 0 then n_dst (ce_data neigh) else None)"

definition rtnl_neigh_set_family :: "neigh_obj \<Rightarrow> int \<Rightarrow> neigh_obj" where
  "rtnl_neigh_set_family neigh family = set_field NEIGH_ATTR_FAMILY (n_family_update (\<lambda>_. u32 family)) neigh"

definition rtnl_neigh_get_family :: "neigh_obj \<Rightarrow> int" where
  "rtnl_neigh_get_family neigh = s32 (n_family (ce_data neigh))"

text \<open>The only setter that assigns to the mask.\<close>

definition rtnl_neigh_set_type :: "neigh_obj \<Rightarrow> int \<Rightarrow> neigh_obj" where
  "rtnl_neigh_set_type neigh type =
     neigh\<lparr>ce_data := (ce_data neigh)\<lparr>n_type := u8 type\<rparr>, ce_mask := NEIGH_ATTR_TYPE\<rparr>"

definition rtnl_neigh_get_type :: "neigh_obj \<Rightarrow> int" where
  "rtnl_neigh_get_type neigh = (if ce_mask neigh AND NEIGH_ATTR_TYPE \<noteq> 0 then n_type (ce_data neigh) else - 1)"

definition rtnl_neigh_set_vlan :: "neigh_obj \<Rightarrow> int \<Rightarrow> neigh_obj" where
  "rtnl_neigh_set_vlan neigh vlan = set_field NEIGH_ATTR_VLAN (n_vlan_update (\<lambda>_. u16 vlan)) neigh"

definition rtnl_neigh_get_vlan :: "neigh_obj \<Rightarrow> int" where
  "rtnl_neigh_get_vlan neigh = (if ce_mask neigh AND NEIGH_ATTR_VLAN \<noteq> 0 then n_vlan (ce_data neigh) else - 1)"

definition rtnl_neigh_set_master :: "neigh_obj \<Rightarrow> int \<Rightarrow> neigh_obj" where
  "rtnl_neigh_set_master neigh ifindex = set_field NEIGH_ATTR_MASTER (n_master_update (\<lambda>_. u32 ifindex)) neigh"

definition rtnl_neigh_get_master :: "neigh_obj \<Rightarrow> int" where
  "rtnl_neigh_get_master neigh = s32 (n_master (ce_data neigh))"

end
