(* ===== verification/Nl_Neigh_Type.thy ===== *)
theory Nl_Neigh_Type
  imports Nl_Neigh
begin

unbundle bit_operations_syntax

text \<open>
  The laws of object types for \<open>route/neigh\<close>: identity of entries is an equivalence that the hash
  function respects, for entries whose identifying attributes are present.
\<close>

section \<open>Equality of addresses\<close>

definition opt_addr_ok :: "nl_addr option \<Rightarrow> bool" where
  "opt_addr_ok a = (case a of None \<Rightarrow> True | Some x \<Rightarrow> addr_ok x)"

text \<open>What \<open>nl_addr_cmp\<close> compares: family, bytes, and the prefix length of addresses that have bytes.\<close>

definition addr_key :: "nl_addr \<Rightarrow> int \<times> byte list \<times> int" where
  "addr_key a = (a_family a, addr_bytes a, if a_len a = 0 then 0 else a_prefixlen a)"

lemma addr_differs_key:
  assumes "opt_addr_ok a" "opt_addr_ok b"
  shows "addr_differs a b \<longleftrightarrow> map_option addr_key a \<noteq> map_option addr_key b"
proof (cases "a = None \<or> b = None")
  case True
  then show ?thesis by (cases a; cases b) (auto simp: addr_differs_def nl_addr_cmp_def)
next
  case False
  then obtain x y where xy: "a = Some x" "b = Some y" by auto
  then have ok: "addr_ok x" "addr_ok y" using assms by (auto simp: opt_addr_ok_def)
  have len: "addr_bytes x = addr_bytes y \<Longrightarrow> a_len x = a_len y" and empty: "a_len x = 0 \<Longrightarrow> a_len y = 0 \<Longrightarrow> addr_bytes x = addr_bytes y"
    using length_addr_bytes [OF ok(1)] length_addr_bytes [OF ok(2)] by (metis, simp add: addr_bytes_def)
  show ?thesis
  proof (cases "a_len x = 0")
    case False
    have "addr_differs a b \<longleftrightarrow> \<not> (x = y \<or>
        (a_family x = a_family y \<and> a_len x = a_len y \<and> addr_bytes x = addr_bytes y \<and> a_prefixlen x = a_prefixlen y))"
      using nl_addr_cmp_eq [OF ok False] xy by (simp add: addr_differs_def)
    then show ?thesis using len False xy by (auto simp: addr_key_def)
  next
    case True
    have "s32 (a_len x - a_len y) = 0 \<longleftrightarrow> a_len x = a_len y"
      using ok by (intro s32_diff_0) (auto simp: addr_ok_def)
    then have "addr_differs a b \<longleftrightarrow> \<not> (x = y \<or> (a_family x = a_family y \<and> a_len x = a_len y))"
      using True xy by (auto simp: addr_differs_def nl_addr_cmp_def)
    then show ?thesis using True len empty xy by (auto simp: addr_key_def)
  qed
qed

section \<open>Identity\<close>

definition neigh_keyed :: "neigh_obj \<Rightarrow> bool" where
  "neigh_keyed obj \<longleftrightarrow>
     (let n = ce_data obj; r = neigh_id_attrs_get obj in
      ce_mask obj AND r = r \<and> opt_addr_ok (n_lladdr n) \<and> opt_addr_ok (n_dst n) \<and>
      (ce_mask obj AND NEIGH_ATTR_VLAN = 0 \<longrightarrow> n_vlan n = 0))"

lemma id_attrs_cases:
  "neigh_id_attrs_get obj \<in> {0x64, 0x6C, 0x464, 0x46C, 0x644, 0x68}"
  by (simp add: neigh_id_attrs_get_def neigh_attr_defs Let_def)

lemma id_attrs_bridge:
  assumes "n_family (ce_data obj) = AF_BRIDGE"
  shows "neigh_id_attrs_get obj AND 4 \<noteq> 0"
    "neigh_id_attrs_get obj AND 0x20 \<noteq> 0 \<longleftrightarrow> n_flags (ce_data obj) AND NTF_SELF \<noteq> 0"
    "neigh_id_attrs_get obj AND 0x200 \<noteq> 0 \<longleftrightarrow> n_flags (ce_data obj) AND NTF_SELF = 0"
    "neigh_id_attrs_get obj AND 0x400 = 0 \<longrightarrow> ce_mask obj AND NEIGH_ATTR_VLAN = 0"
  using assms by (simp_all add: neigh_id_attrs_get_def neigh_attr_defs Let_def)

lemma id_attrs_plain:
  assumes "n_family (ce_data obj) \<noteq> AF_BRIDGE"
  shows "neigh_id_attrs_get obj AND 8 \<noteq> 0" "neigh_id_attrs_get obj AND 0x20 \<noteq> 0"
  using assms by (simp_all add: neigh_id_attrs_get_def neigh_attr_defs Let_def)

lemma mask_contains:
  assumes "m AND r = r" "r AND b = b"
  shows "m AND b = (b::int)"
proof -
  have "m AND b = (m AND r) AND b" using assms(2) by (simp add: and.assoc)
  then show ?thesis using assms by simp
qed

lemma ATTR_DIFF_0:
  assumes "ce_mask a AND r = r" "ce_mask b AND r = r" "r AND attr = attr \<or> r AND attr = 0"
  shows "ATTR_DIFF r attr a b e = 0 \<longleftrightarrow> \<not> (r AND attr \<noteq> 0 \<and> e)"
  using assms mask_contains [OF assms(1), of attr] mask_contains [OF assms(2), of attr]
  by (auto simp: ATTR_DIFF_def ATTR_MISMATCH_def AVAILABLE_def AVAILABLE_MISMATCH_def xor_and and.assoc)

text \<open>The identifying attributes of two entries agree, given that the same ones identify both.\<close>

definition same_id :: "int \<Rightarrow> rtnl_neigh \<Rightarrow> rtnl_neigh \<Rightarrow> bool" where
  "same_id r a b \<longleftrightarrow> n_family a = n_family b \<and>
     (r AND 0x20 \<noteq> 0 \<longrightarrow> n_ifindex a = n_ifindex b) \<and>
     (r AND 4 \<noteq> 0 \<longrightarrow> \<not> addr_differs (n_lladdr a) (n_lladdr b)) \<and>
     (r AND 8 \<noteq> 0 \<longrightarrow> \<not> addr_differs (n_dst a) (n_dst b)) \<and>
     (r AND 0x200 \<noteq> 0 \<longrightarrow> n_master a = n_master b) \<and>
     (r AND 0x400 \<noteq> 0 \<longrightarrow> n_vlan a = n_vlan b)"

lemma neigh_compare_id:
  assumes "ce_mask a AND r = r" "ce_mask b AND r = r" "r \<in> {0x64, 0x6C, 0x464, 0x46C, 0x644, 0x68}"
  shows "neigh_compare a b r ID_COMPARISON = 0 \<longleftrightarrow> same_id r (ce_data a) (ce_data b)"
proof -
  have d: "ATTR_DIFF r attr a b e = 0 \<longleftrightarrow> \<not> (r AND attr \<noteq> 0 \<and> e)" if "attr \<in> {1, 2, 4, 8, 0x20, 0x40, 0x80, 0x200, 0x400}" for attr e
    using that assms(3) by (intro ATTR_DIFF_0 [OF assms(1,2)]) auto
  have z: "r AND 1 = 0" "r AND 2 = 0" "r AND 0x80 = 0" "r AND 0x40 \<noteq> 0" using assms(3) by auto
  show ?thesis
    by (simp add: neigh_compare_def same_id_def Let_def or_eq_0_iff d z neigh_attr_defs ID_COMPARISON_def LOOSE_COMPARISON_def)
      blast
qed

lemma neigh_ident:
  "ident (\<lambda>_. neigh_obj_ops addr) a b \<longleftrightarrow> (\<exists>j. ce_ops a = Some j \<and> ce_ops b = Some j) \<and>
     neigh_id_attrs_get a = neigh_id_attrs_get b \<and>
     ce_mask a AND neigh_id_attrs_get a = neigh_id_attrs_get a \<and> ce_mask b AND neigh_id_attrs_get a = neigh_id_attrs_get a \<and>
     same_id (neigh_id_attrs_get a) (ce_data a) (ce_data b)"
proof -
  let ?r = "neigh_id_attrs_get"
  have small: "s32 (?r x) = ?r x" "u32 (?r x) = ?r x" "?r x \<noteq> 0xFFFFFFFF" for x
    using id_attrs_cases [of x] by (auto simp: s32_def u32_def)
  have r: "req_attrs (neigh_obj_ops addr) a b = (if ?r a = ?r b then Some (?r a) else None)"
    by (simp add: req_attrs_def neigh_obj_ops_def small)
  have c: "oo_compare (neigh_obj_ops addr) = Some neigh_compare" by (simp add: neigh_obj_ops_def)
  show ?thesis
    using neigh_compare_id [of a "?r a" b] id_attrs_cases [of a]
    by (auto simp: ident_def nl_object_identical_def obj_ops_def r c split: option.splits)
qed

lemma same_id_key:
  assumes "neigh_keyed a" "neigh_keyed b"
  shows "same_id r (ce_data a) (ce_data b) \<longleftrightarrow> n_family (ce_data a) = n_family (ce_data b) \<and>
     (r AND 0x20 \<noteq> 0 \<longrightarrow> n_ifindex (ce_data a) = n_ifindex (ce_data b)) \<and>
     (r AND 4 \<noteq> 0 \<longrightarrow> map_option addr_key (n_lladdr (ce_data a)) = map_option addr_key (n_lladdr (ce_data b))) \<and>
     (r AND 8 \<noteq> 0 \<longrightarrow> map_option addr_key (n_dst (ce_data a)) = map_option addr_key (n_dst (ce_data b))) \<and>
     (r AND 0x200 \<noteq> 0 \<longrightarrow> n_master (ce_data a) = n_master (ce_data b)) \<and>
     (r AND 0x400 \<noteq> 0 \<longrightarrow> n_vlan (ce_data a) = n_vlan (ce_data b))"
  using assms by (simp add: same_id_def addr_differs_key neigh_keyed_def Let_def)

text \<open>The bytes of an address that go into the hash key.\<close>

lemma key_bytes:
  assumes "map_option addr_key x = map_option addr_key y"
  shows "(case x of None \<Rightarrow> [] | Some x \<Rightarrow> rd (nl_addr_get_binary_addr x) 0 (nl_addr_get_len x)) =
    (case y of None \<Rightarrow> [] | Some x \<Rightarrow> rd (nl_addr_get_binary_addr x) 0 (nl_addr_get_len x))"
  using assms
  by (cases x; cases y) (auto simp: addr_key_def addr_bytes_def nl_addr_get_binary_addr_def nl_addr_get_len_def)

lemma neigh_ident_keygen:
  assumes k: "neigh_keyed a" "neigh_keyed b" and id: "ident (\<lambda>_. neigh_obj_ops addr) a b"
  shows "neigh_keygen ad m a sz = neigh_keygen ad m b sz"
proof -
  let ?r = "neigh_id_attrs_get a"
  have r: "?r = neigh_id_attrs_get b" and s: "same_id ?r (ce_data a) (ce_data b)" using id by (auto simp: neigh_ident)
  note e = s [unfolded same_id_key [OF k]]
  show ?thesis
  proof (cases "n_family (ce_data a) = AF_BRIDGE")
    case True
    then have b: "n_family (ce_data b) = AF_BRIDGE" using e by simp
    note i = id_attrs_bridge [OF True] id_attrs_bridge [OF b, folded r]
    have "n_vlan (ce_data a) = n_vlan (ce_data b)"
    proof (cases "?r AND 0x400 = 0")
      case True
      then show ?thesis using i(4,8) k by (simp add: neigh_keyed_def Let_def)
    qed (use e in blast)
    moreover have "n_flags (ce_data a) AND NTF_SELF \<noteq> 0 \<longleftrightarrow> n_flags (ce_data b) AND NTF_SELF \<noteq> 0" using i(2,6) by blast
    moreover note key_bytes [of "n_lladdr (ce_data a)" "n_lladdr (ce_data b)"]
    ultimately show ?thesis using True b e i by (auto simp: neigh_keygen_def Let_def)
  next
    case False
    then have b: "n_family (ce_data b) \<noteq> AF_BRIDGE" using e by simp
    note key_bytes [of "n_dst (ce_data a)" "n_dst (ce_data b)"]
    then show ?thesis using False b e id_attrs_plain [OF False] by (auto simp: neigh_keygen_def Let_def)
  qed
qed

interpretation neigh: keyed_type "\<lambda>_. neigh_obj_ops addr" 0 neigh_keyed "neigh_keygen addr True"
proof
  let ?ops = "\<lambda>_. neigh_obj_ops addr"
  show "oo_keygen (neigh_obj_ops addr) = Some (neigh_keygen addr True)" by (simp add: neigh_obj_ops_def)
  show "0 \<le> neigh_keygen addr True a sz \<and> neigh_keygen addr True a sz < sz" if "0 < sz" for a sz
    using that by (simp add: neigh_keygen_def Let_def)
  show "neigh_keygen addr True a sz = neigh_keygen addr True b sz" if "same_contents a b" for a b sz
    using that by (simp add: neigh_keygen_def same_contents_def)
  show "neigh_keyed a = neigh_keyed b" if "same_contents a b" for a b
    using that by (simp add: neigh_keyed_def neigh_id_attrs_get_def same_contents_def)
  show "ident ?ops a b = ident ?ops a' b'" if "same_contents a a'" "same_contents b b'" for a a' b b'
    using that by (simp add: neigh_ident neigh_id_attrs_get_def same_contents_def)
  show "ident ?ops a a" if "ce_ops a = Some 0" "neigh_keyed a" for a
    using that by (simp add: neigh_ident same_id_key) (simp add: neigh_keyed_def Let_def)
  show "ident ?ops b a" if "ce_ops a = Some 0" "neigh_keyed a" "neigh_keyed b" "ident ?ops a b" for a b
    using that by (auto simp: neigh_ident same_id_key)
  show "ident ?ops a c" if "ce_ops a = Some 0" "neigh_keyed a" "neigh_keyed b" "neigh_keyed c" "ident ?ops a b" "ident ?ops b c" for a b c
    using that(1) that(5,6) [unfolded neigh_ident same_id_key [OF that(2,3)] same_id_key [OF that(3,4)]]
    unfolding neigh_ident same_id_key [OF that(2,4)] by (elim conjE exE) (intro conjI impI; simp)
  show "neigh_keygen addr True a sz = neigh_keygen addr True b sz" if "ce_ops a = Some 0" "neigh_keyed a" "neigh_keyed b" "ident ?ops a b" for a b sz
    using neigh_ident_keygen that(2-4) .
qed

interpretation neigh: replaced_type "\<lambda>_. neigh_obj_ops addr" 0 neigh_keyed "neigh_keygen addr True"
  by unfold_locales (simp add: neigh_obj_ops_def)

end
