(* ===== verification/Nl_Dump.thy ===== *)
theory Nl_Dump
  imports Nl_Resync
begin

unbundle bit_operations_syntax

text \<open>
  Receiving the answer to a dump request: a multipart answer of several datagrams drives the callback for
  valid messages through all its messages, and the receive loop returns when the end of the dump arrives.
\<close>

section \<open>Receiving a multipart answer\<close>

text \<open>The memory of the copy that the callbacks get of the message at \<open>p\<close>, and of all messages of a datagram.\<close>

definition msg_bytes :: "byte list \<Rightarrow> int \<Rightarrow> byte list" where
  "msg_bytes buf p = (case nlmsg_convert True True buf p of None \<Rightarrow> [] | Some m \<Rightarrow> nm_nlh m)"

definition dgram_msgs :: "byte list \<Rightarrow> byte list list" where
  "dgram_msgs d = map (\<lambda>(p, r). msg_bytes d p) (nlmsg_positions d 0 (blen d))"

text \<open>A message of a dump in sequence, and a datagram of such messages.\<close>

definition dump_part :: "int \<Rightarrow> nlmsghdr \<Rightarrow> bool" where
  "dump_part seq hdr \<longleftrightarrow> \<not> is_control (nlmsg_type hdr) \<and> nlmsg_seq hdr = seq \<and>
     nlmsg_flags hdr AND NLM_F_MULTI \<noteq> 0 \<and> nlmsg_flags hdr AND NLM_F_DUMP_INTR = 0"

definition dump_dgram :: "int \<Rightarrow> byte list \<Rightarrow> bool" where
  "dump_dgram seq d \<longleftrightarrow> nlmsg_positions d 0 (blen d) \<noteq> [] \<and> blen d \<le> STREAM_MAX \<and>
     list_all (\<lambda>(p, r). dump_part seq (nlh d p)) (nlmsg_positions d 0 (blen d))"

text \<open>The datagram that ends a dump.\<close>

definition done_dgram :: "int \<Rightarrow> byte list \<Rightarrow> bool" where
  "done_dgram seq d \<longleftrightarrow> blen d \<le> STREAM_MAX \<and> nlmsg_type (nlh d 0) = NLMSG_DONE \<and> nlmsg_seq (nlh d 0) = seq \<and>
     nlmsg_flags (nlh d 0) AND NLM_F_DUMP_INTR = 0 \<and> nlmsg_positions d 0 (blen d) = [(0, blen d)]"

text \<open>
  \<open>J xs u\<close> says what the user state is after the messages \<open>xs\<close>; the callback for valid messages
  accepts the messages that satisfy \<open>G\<close>.
\<close>

lemma recv_copy_bytes:
  assumes "nlmsg_ok (nlh buf p) r" "0 \<le> p" "p + r \<le> blen buf" "r \<le> STREAM_MAX"
  shows "\<exists>msg. recv_copy True sk nla creds buf p = Some msg \<and> nm_nlh msg = msg_bytes buf p"
  using nlmsg_convert_ok [OF assms]
  by (auto simp: recv_copy_def msg_bytes_def Let_def nlmsg_set_src_def nlmsg_set_proto_def nlmsg_set_creds_def split: option.split)

lemma recv_part:
  assumes "quiet cb" "cb_set cb ! NL_CB_VALID = Some f" "dump_part (s_seq_expect (rs_sk st)) hdr"
    and "f msg (cb_args cb ! NL_CB_VALID) (rs_u st) = (NL_OK, u)"
  shows "recv_msg cb nla hdr e msg st = (st\<lparr>rs_nrecv := rs_nrecv st + 1, rs_u := u, rs_multipart := True\<rparr>, Skip)"
  using assms
  by (simp add: recv_msg_in_seq dump_part_def is_control_def recv_dispatch_def NL_CB_CALL_def)

lemma recv_copy_proto: "recv_copy a sk nla creds buf p = Some msg \<Longrightarrow> nm_protocol msg = s_proto sk"
  by (auto simp: recv_copy_def Let_def nlmsg_set_src_def nlmsg_set_proto_def nlmsg_set_creds_def split: option.splits)

text \<open>A datagram of messages with headers that satisfy \<open>A\<close>, each of which is handled without leaving the loop.\<close>

lemma recv_loop_msgs:
  assumes step: "\<And>hdr e msg xs st. A hdr \<Longrightarrow> J xs (rs_u st) \<Longrightarrow> rs_sk st = sk \<Longrightarrow> G (nm_nlh msg) \<Longrightarrow> nm_protocol msg = s_proto sk \<Longrightarrow>
      \<exists>u. recv_msg cb nla hdr e msg st =
        (st\<lparr>rs_nrecv := rs_nrecv st + 1, rs_u := u, rs_multipart := mp \<or> rs_multipart st\<rparr>, Skip) \<and> J (xs @ [nm_nlh msg]) u"
    and ps: "\<forall>(p, r) \<in> set ps. nlmsg_ok (nlh d p) r \<and> 0 \<le> p \<and> p + r \<le> blen d \<and> r \<le> STREAM_MAX \<and> A (nlh d p) \<and> G (msg_bytes d p)"
    and st: "J xs (rs_u st)" "rs_sk st = sk"
  shows "\<exists>st'. recv_loop cb True nla creds d ps st = (st', Skip) \<and> J (xs @ map (\<lambda>(p, r). msg_bytes d p) ps) (rs_u st') \<and>
    rs_sk st' = sk \<and> rs_interrupted st' = rs_interrupted st \<and> rs_nrecv st' = rs_nrecv st + int (length ps) \<and>
    (rs_multipart st' \<longleftrightarrow> mp \<and> ps \<noteq> [] \<or> rs_multipart st)"
  using ps st
proof (induction ps arbitrary: st xs)
  case (Cons x ps)
  obtain p r where x: "x = (p, r)" by (cases x)
  then have m: "nlmsg_ok (nlh d p) r" "0 \<le> p" "p + r \<le> blen d" "r \<le> STREAM_MAX" "A (nlh d p)" "G (msg_bytes d p)"
    using Cons.prems(1) by auto
  obtain msg where msg: "recv_copy True (rs_sk st) nla creds d p = Some msg" "nm_nlh msg = msg_bytes d p"
    using recv_copy_bytes [OF m(1-4)] by blast
  have pr: "nm_protocol msg = s_proto sk" using recv_copy_proto [OF msg(1)] Cons.prems(3) by simp
  obtain u where one: "recv_msg cb nla (nlh d p) (s32 (get32 d (p + 16))) msg st =
      (st\<lparr>rs_nrecv := rs_nrecv st + 1, rs_u := u, rs_multipart := mp \<or> rs_multipart st\<rparr>, Skip)" "J (xs @ [msg_bytes d p]) u"
    using step [OF m(5) Cons.prems(2,3), of msg] msg(2) m(6) pr by auto
  let ?st = "st\<lparr>rs_nrecv := rs_nrecv st + 1, rs_u := u, rs_multipart := mp \<or> rs_multipart st\<rparr>"
  have "\<exists>st'. recv_loop cb True nla creds d ps ?st = (st', Skip) \<and> J ((xs @ [msg_bytes d p]) @ map (\<lambda>(p, r). msg_bytes d p) ps) (rs_u st') \<and>
    rs_sk st' = sk \<and> rs_interrupted st' = rs_interrupted ?st \<and> rs_nrecv st' = rs_nrecv ?st + int (length ps) \<and>
    (rs_multipart st' \<longleftrightarrow> mp \<and> ps \<noteq> [] \<or> rs_multipart ?st)"
    by (rule Cons.IH) (use one(2) Cons.prems in simp_all)
  then show ?case using x msg(1) one(1) by auto
qed simp

lemma recv_loop_dump:
  assumes cb: "quiet cb" "cb_set cb ! NL_CB_VALID = Some f"
    and J: "\<And>msg xs u. J xs u \<Longrightarrow> G (nm_nlh msg) \<Longrightarrow>
      \<exists>u'. f msg (cb_args cb ! NL_CB_VALID) u = (NL_OK, u') \<and> J (xs @ [nm_nlh msg]) u'"
    and ps: "\<forall>(p, r) \<in> set ps. nlmsg_ok (nlh d p) r \<and> 0 \<le> p \<and> p + r \<le> blen d \<and> r \<le> STREAM_MAX \<and>
      dump_part seq (nlh d p) \<and> G (msg_bytes d p)"
    and st: "J xs (rs_u st)" "s_seq_expect (rs_sk st) = seq"
  shows "\<exists>st'. recv_loop cb True nla creds d ps st = (st', Skip) \<and> J (xs @ map (\<lambda>(p, r). msg_bytes d p) ps) (rs_u st') \<and>
    rs_sk st' = rs_sk st \<and> rs_interrupted st' = rs_interrupted st \<and> rs_nrecv st' = rs_nrecv st + int (length ps) \<and>
    (rs_multipart st' \<longleftrightarrow> ps \<noteq> [] \<or> rs_multipart st)"
proof -
  have "\<exists>u. recv_msg cb nla hdr e msg st1 = (st1\<lparr>rs_nrecv := rs_nrecv st1 + 1, rs_u := u, rs_multipart := True \<or> rs_multipart st1\<rparr>, Skip) \<and>
      J (ys @ [nm_nlh msg]) u"
    if "dump_part seq hdr" "J ys (rs_u st1)" "rs_sk st1 = rs_sk st" "G (nm_nlh msg)" for hdr e msg ys st1
    using J [OF that(2,4)] recv_part [OF cb, of st1 hdr msg] that(1,3) st(2) by auto
  from recv_loop_msgs [of "dump_part seq" J "rs_sk st" G cb nla True ps d xs st, OF this ps st(1)] show ?thesis by simp
qed

lemma each_msg:
  assumes "(p, r) \<in> set (nlmsg_positions d 0 (blen d))" "blen d \<le> STREAM_MAX"
  shows "nlmsg_ok (nlh d p) r \<and> 0 \<le> p \<and> p + r \<le> blen d \<and> r \<le> STREAM_MAX \<and> 0 < blen d"
  using nlmsgs.each_inside [OF assms(2,1)] assms(2) by (auto simp: nlmsg_ok_def)

lemma recv_done:
  assumes "quiet cb" "cb_set cb ! NL_CB_FINISH = None" "done_dgram (s_seq_expect (rs_sk st)) d"
  shows "recv_loop cb True nla creds d (nlmsg_positions d 0 (blen d)) st =
    (st\<lparr>rs_nrecv := rs_nrecv st + 1, rs_sk := (rs_sk st)\<lparr>s_seq_expect := u32 (s_seq_expect (rs_sk st) + 1)\<rparr>,
        rs_multipart := False\<rparr>, Skip)"
proof -
  have e: "nlmsg_positions d 0 (blen d) = [(0, blen d)]" using assms(3) by (simp add: done_dgram_def)
  then have "nlmsg_ok (nlh d 0) (blen d)" "blen d \<le> STREAM_MAX"
    using each_msg [of 0 "blen d" d] assms(3) by (auto simp: done_dgram_def)
  then obtain msg where "recv_copy True (rs_sk st) nla creds d 0 = Some msg"
    using recv_copy_bytes [of d 0 "blen d" "rs_sk st" nla creds] by auto
  then show ?thesis using assms unfolding e
    by (simp add: recv_msg_in_seq done_dgram_def recv_dispatch_def is_control_def NL_CB_CALL_None)
qed

text \<open>\<open>q u\<close> are the datagrams that wait to be received.\<close>

lemma recvmsgs_loop_dump:
  assumes cb: "quiet cb" "cb_set cb ! NL_CB_VALID = Some f" "cb_set cb ! NL_CB_FINISH = None"
    and J: "\<And>msg xs u. J xs u \<Longrightarrow> G (nm_nlh msg) \<Longrightarrow>
      \<exists>u'. f msg (cb_args cb ! NL_CB_VALID) u = (NL_OK, u') \<and> J (xs @ [nm_nlh msg]) u' \<and> q u' = q u"
    and recv: "\<And>sk xs u d ds. J xs u \<Longrightarrow> q u = d # ds \<Longrightarrow>
      \<exists>nla creds u'. recv sk u = Some ((blen d, nla, d, creds), sk, u') \<and> J xs u' \<and> q u' = ds"
    and ds: "\<forall>d \<in> set ds. dump_dgram seq d \<and> list_all G (dgram_msgs d)" "done_dgram seq dn" "length ds < fuel"
    and st: "J xs (rs_u st)" "q (rs_u st) = ds @ [dn]" "s_seq_expect (rs_sk st) = seq" "\<not> rs_interrupted st" "0 \<le> rs_nrecv st"
  shows "\<exists>n u. recvmsgs_loop fuel recv True cb st = Some (n, (rs_sk st)\<lparr>s_seq_expect := u32 (seq + 1)\<rparr>, u) \<and> 0 < n \<and>
    J (xs @ concat (map dgram_msgs ds)) u \<and> q u = []"
  using ds(1,3) st
proof (induction ds arbitrary: st xs fuel)
  case Nil
  obtain fuel' where f: "fuel = Suc fuel'" using Nil.prems(2) by (cases fuel) auto
  obtain nla creds u' where r: "recv (rs_sk st) (rs_u st) = Some ((blen dn, nla, dn, creds), rs_sk st, u')" "J xs u'" "q u' = []"
    using recv [OF Nil.prems(3)] Nil.prems(4) by fastforce
  have pos: "0 < blen dn" using each_msg [of 0 "blen dn" dn] ds(2) by (auto simp: done_dgram_def)
  let ?st = "st\<lparr>rs_sk := rs_sk st, rs_u := u'\<rparr>"
  have "done_dgram (s_seq_expect (rs_sk ?st)) dn" using ds(2) Nil.prems(5) by simp
  note d = recv_done [OF cb(1,3) this, of nla creds]
  show ?case unfolding f recvmsgs_loop.simps r(1) option.case prod.case Let_def
    using pos d Nil.prems(5-7) r(2,3) by (simp add: recv_finish_def)
next
  case (Cons d ds)
  obtain fuel' where f: "fuel = Suc fuel'" "length ds < fuel'" using Cons.prems(2) by (cases fuel) auto
  obtain nla creds u' where r: "recv (rs_sk st) (rs_u st) = Some ((blen d, nla, d, creds), rs_sk st, u')" "J xs u'" "q u' = ds @ [dn]"
    using recv [OF Cons.prems(3)] Cons.prems(4) by fastforce
  let ?st = "st\<lparr>rs_sk := rs_sk st, rs_u := u'\<rparr>" and ?ps = "nlmsg_positions d 0 (blen d)"
  have dd: "dump_dgram seq d" "list_all G (dgram_msgs d)" using Cons.prems(1) by auto
  then have ne: "?ps \<noteq> []" "blen d \<le> STREAM_MAX" by (auto simp: dump_dgram_def)
  then have pos: "0 < blen d" using each_msg [of _ _ d] by (cases ?ps) auto
  have ps: "\<forall>(p, r) \<in> set ?ps. nlmsg_ok (nlh d p) r \<and> 0 \<le> p \<and> p + r \<le> blen d \<and> r \<le> STREAM_MAX \<and>
      dump_part seq (nlh d p) \<and> G (msg_bytes d p)"
    using each_msg [OF _ ne(2)] dd by (fastforce simp: dump_dgram_def dgram_msgs_def list_all_iff)
  let ?J = "\<lambda>ys u. J ys u \<and> q u = ds @ [dn]"
  have "\<exists>st'. recv_loop cb True nla creds d ?ps ?st = (st', Skip) \<and> ?J (xs @ map (\<lambda>(p, r). msg_bytes d p) ?ps) (rs_u st') \<and>
    rs_sk st' = rs_sk ?st \<and> rs_interrupted st' = rs_interrupted ?st \<and> rs_nrecv st' = rs_nrecv ?st + int (length ?ps) \<and>
    (rs_multipart st' \<longleftrightarrow> ?ps \<noteq> [] \<or> rs_multipart ?st)"
    by (rule recv_loop_dump [OF cb(1,2) _ ps]) (use J r Cons.prems(5) in fastforce)+
  then obtain st' where l: "recv_loop cb True nla creds d ?ps ?st = (st', Skip)"
      "J (xs @ dgram_msgs d) (rs_u st')" "q (rs_u st') = ds @ [dn]" "rs_sk st' = rs_sk st" "\<not> rs_interrupted st'"
      "0 \<le> rs_nrecv st'" "rs_multipart st'"
    using ne(1) Cons.prems(6,7) by (auto simp: dgram_msgs_def)
  have "\<exists>n u. recvmsgs_loop fuel' recv True cb st' = Some (n, (rs_sk st')\<lparr>s_seq_expect := u32 (seq + 1)\<rparr>, u) \<and> 0 < n \<and>
    J ((xs @ dgram_msgs d) @ concat (map dgram_msgs ds)) u \<and> q u = []"
    by (rule Cons.IH) (use Cons.prems(1,5) f(2) l in auto)
  then show ?case unfolding f(1) recvmsgs_loop.simps r(1) option.case prod.case Let_def using pos l(1,4,7) by simp
qed

end
