(* ===== verification/Nl_Mirror.thy ===== *)
theory Nl_Mirror
  imports Nl_Dump
begin

unbundle bit_operations_syntax

text \<open>
  The resynchronisation of a cache as a whole: whatever the cache held before, after a successful
  \<open>nl_cache_resync\<close> it holds the objects that the kernel announced in its dump, each identity once
  and with its last announced value. This puts together the receive loop, the parser of a type,
  the hash table, the event processing and the removal of marked objects.
\<close>

section \<open>Observing callbacks\<close>

text \<open>A change callback that keeps a part \<open>q\<close> of the user state keeps it during the processing of events.\<close>

lemma include_new_keeps:
  assumes "\<forall>c p act u. q (g c p act u) = q u"
    and "include_new ops cops a (Some (observer g)) None c p old h u = Inr (h', u')"
  shows "q u' = q u"
  using assms(2) by (auto simp: include_new_def notify_observer and_then_Inr_iff assms(1) split: option.splits if_splits)

lemma cache_include_keeps:
  assumes "\<forall>c p act u. q (g c p act u) = q u"
    and "cache_include ops cops a b c p act (Some (observer g)) None h u = Inr (r, h', u')"
  shows "q u' = q u"
  using assms(2) include_new_keeps [where q = q and g = g, OF assms(1)]
  by (auto simp: cache_include_def notify_observer and_then_Inr_iff assms(1) split: option.splits if_splits)

lemma resync_cb_keeps:
  assumes "\<forall>c p act u. q (g c p act u) = q u"
    and "resync_cb ops cops allocs c (Some (observer g)) None p h u = Inr (r, h', u')"
  shows "q u' = q u"
proof -
  obtain a b where "allocs p h = (a, b)" by fastforce
  then show ?thesis using assms(2) cache_include_keeps [where q = q and g = g, OF assms(1)]
    by (auto simp: resync_cb_def nl_cache_include_def include_any_def and_then_Inr_iff split: option.splits if_splits)
qed

lemma deliver_keeps:
  assumes "\<forall>c p act u. q (g c p act u) = q u"
    and "deliver ops i a fill (resync_cb ops cops allocs c (Some (observer g)) None) h u = Inr (r, h', u')"
  shows "q u' = q u"
  using assms(2) resync_cb_keeps [where q = q and g = g, OF assms(1)]
  by (auto simp: deliver_def and_then_Inr_iff split: option.splits)

section \<open>Marking\<close>

context keyed_type begin

lemma mark_objs_wf:
  assumes "wf_heap ops keyed i cops h refs" "set ps \<subseteq> dom (h_obj h)"
  shows "\<exists>h'. mark_objs ps h = Inr h' \<and> wf_heap ops keyed i cops h' refs \<and> h_cache h' = h_cache h \<and>
    dom (h_obj h') = dom (h_obj h) \<and>
    (\<forall>p. p \<in> set ps \<or> nl_object_is_marked (the (h_obj h p)) \<longrightarrow> nl_object_is_marked (the (h_obj h' p)))"
  using assms
proof (induction ps arbitrary: h)
  case (Cons p ps)
  then obtain obj where p: "h_obj h p = Some obj" by auto
  let ?h = "set_obj p (nl_object_mark obj) h"
  have m: "nl_object_is_marked (nl_object_mark obj)"
    by (simp add: nl_object_is_marked_def nl_object_mark_def NL_OBJ_MARK_def bit.conj_disj_distrib2 or_eq_0_iff)
  have "same_place ops keyed kg (nl_object_mark obj) obj"
    using same_key_contents [of "nl_object_mark obj" obj] by (simp add: same_place_def nl_object_mark_def)
  then have "wf_heap ops keyed i cops ?h (refs(p := refs p))"
    using wf_heapD(1) [OF Cons.prems(1) p]
    by (intro wf_heap_set_obj [OF Cons.prems(1) p]) (auto simp: wf_obj_def nl_object_mark_def)
  then have wf: "wf_heap ops keyed i cops ?h refs" by simp
  have sub: "set ps \<subseteq> dom (h_obj ?h)" using Cons.prems(2) by auto
  obtain h' where h': "mark_objs ps ?h = Inr h'" "wf_heap ops keyed i cops h' refs" "h_cache h' = h_cache ?h"
      "dom (h_obj h') = dom (h_obj ?h)"
      "\<forall>q. q \<in> set ps \<or> nl_object_is_marked (the (h_obj ?h q)) \<longrightarrow> nl_object_is_marked (the (h_obj h' q))"
    using Cons.IH [OF wf sub] by blast
  have "nl_object_is_marked (the (h_obj h' q))" if "q \<in> set (p # ps) \<or> nl_object_is_marked (the (h_obj h q))" for q
    using h'(5) [rule_format, of q] that m by auto
  then show ?case using p h'(1-4) by (intro exI [of _ h']) auto
qed auto

lemma mark_all_wf:
  assumes wf: "wf_heap ops keyed i cops h refs" and c: "h_cache h c = Some cache"
  shows "\<exists>h'. nl_cache_mark_all c h = Inr h' \<and> wf_heap ops keyed i cops h' refs \<and> h_cache h' = h_cache h \<and>
    dom (h_obj h') = dom (h_obj h) \<and> fresh_values h' cache = []"
proof -
  have "set (c_items cache) \<subseteq> dom (h_obj h)" using wf_heap_item [OF wf c] by blast
  from mark_objs_wf [OF wf this] show ?thesis using c by (auto simp: nl_cache_mark_all_def fresh_values_def)
qed

end

section \<open>Parsers\<close>

text \<open>
  A parser of messages into objects of a type that is replaced: \<open>decode\<close> is the object that it
  builds in newly allocated memory, or nothing if it rejects the message. \<open>alloc\<close> finds memory
  for objects as long as there are finitely many of them.
\<close>

locale object_parser = replaced_type ops i keyed kg
  for ops :: "'d ops" and i and keyed :: "'d nl_object \<Rightarrow> bool" and kg +
  fixes parser :: "('d, 'u) msg_parser" and decode :: "byte list \<Rightarrow> 'd nl_object option" and alloc :: "'d heap \<Rightarrow> nat"
  assumes parses: "decode buf = Some x \<Longrightarrow> parser buf pp h u = deliver ops i (Some (alloc h)) (\<lambda>_. x) pp h u"
    and decode_hdr: "decode buf = Some x \<Longrightarrow> hdr_kept x (new_object ops i) \<and> ce_msgtype x = nlmsg_type (nlh buf 0)"
    and alloc_unused: "finite (dom (h_obj h)) \<Longrightarrow> h_obj h (alloc h) = None"
    and obj_size: "SIZEOF_NL_OBJECT \<le> oo_size (ops i)"

text \<open>The messages that announce an object with its keys.\<close>

definition announces :: "('d nl_object \<Rightarrow> bool) \<Rightarrow> (byte list \<Rightarrow> 'd nl_object option) \<Rightarrow> nl_cache_ops \<Rightarrow> byte list \<Rightarrow> bool" where
  "announces keyed decode cop buf \<longleftrightarrow> nlmsg_valid_hdr (nlh buf 0) (co_hdrsize cop) \<and>
     msgtype_act (co_msgtypes cop) (nlmsg_type (nlh buf 0)) = Some NL_ACT_NEW \<and>
     (case decode buf of None \<Rightarrow> False | Some x \<Rightarrow> keyed x)"

text \<open>The values that a sequence of announcements leaves.\<close>

definition announced :: "'d ops \<Rightarrow> (byte list \<Rightarrow> 'd nl_object option) \<Rightarrow> byte list list \<Rightarrow> 'd nl_object list" where
  "announced ops decode msgs = fold (\<lambda>buf. announce ops (value_of (the (decode buf)))) msgs []"

lemma parse_types_found:
  assumes "msgtype_act ms (nlmsg_type (nlh buf 0)) = Some act" "parser buf pp h u = Inr (err, h', u')" "err \<noteq> neg_err NLE_OPNOTSUPP"
  shows "parse_types parser ms buf pp h u = Inr (err, h', u')"
  using assms by (induction ms) (auto split: if_splits)

text \<open>The state while a dump is received: the heap is well formed, and the objects of the cache that
  are not marked are those that the messages so far announced.\<close>

definition in_sync ::
  "'d ops \<Rightarrow> nat \<Rightarrow> ('d nl_object \<Rightarrow> bool) \<Rightarrow> cops \<Rightarrow> (byte list \<Rightarrow> 'd nl_object option) \<Rightarrow> (nat \<Rightarrow> int) \<Rightarrow> nat \<Rightarrow> nl_cache \<Rightarrow>
   byte list list \<Rightarrow> ('d, 'u) hstate \<Rightarrow> bool" where
  "in_sync ops i keyed cops decode refs c cache0 xs s \<longleftrightarrow>
     (\<exists>h u cache. s = Inr (h, u) \<and> finite (dom (h_obj h)) \<and> wf_heap ops keyed i cops h refs \<and>
        h_cache h c = Some cache \<and> c_hashtable cache \<noteq> None \<and> cache_cfg cache = cache_cfg cache0 \<and>
        fresh_values h cache = announced ops decode xs)"

text \<open>The queue of datagrams is a part of the user state.\<close>

definition in_user :: "('u \<Rightarrow> 'q list) \<Rightarrow> ('d, 'u) hstate \<Rightarrow> 'q list" where
  "in_user q s = (case s of Inl _ \<Rightarrow> [] | Inr (h, u) \<Rightarrow> q u)"

context object_parser begin

lemma parse_step:
  assumes s: "in_sync ops i keyed cops decode refs c cache0 xs s" and G: "announces keyed decode (cops (c_ops cache0)) (nm_nlh msg)"
    and mem: "\<forall>p h. fst (allocs p h)" and q: "\<forall>c p act u. q (g c p act u) = q u"
  shows "\<exists>s'. update_msg_parser parser (cops (c_ops cache0)) (resync_cb ops cops allocs c (Some (observer g)) None) msg arg s = (NL_OK, s') \<and>
    in_sync ops i keyed cops decode refs c cache0 (xs @ [nm_nlh msg]) s' \<and> in_user q s' = in_user q s"
proof -
  obtain h u cache where h: "s = Inr (h, u)" "finite (dom (h_obj h))" "wf_heap ops keyed i cops h refs"
      "h_cache h c = Some cache" "c_hashtable cache \<noteq> None" "cache_cfg cache = cache_cfg cache0"
      "fresh_values h cache = announced ops decode xs"
    using s unfolding in_sync_def by (elim exE conjE) (rule that)
  obtain x where x: "decode (nm_nlh msg) = Some x" "keyed x" "nlmsg_valid_hdr (nlh (nm_nlh msg) 0) (co_hdrsize (cops (c_ops cache0)))"
      "msgtype_act (co_msgtypes (cops (c_ops cache0))) (nlmsg_type (nlh (nm_nlh msg) 0)) = Some NL_ACT_NEW"
    using G by (auto simp: announces_def split: option.splits)
  let ?pp = "resync_cb ops cops allocs c (Some (observer g)) None"
  have act: "msgtype_act (co_msgtypes (cops (c_ops cache))) (ce_msgtype x) = Some NL_ACT_NEW"
    using decode_hdr [OF x(1)] x(4) h(6) by (simp add: cache_cfg_def)
  note D = deliver_resync [OF h(3-5) alloc_unused [OF h(2)] obj_size, where allocs = allocs and fill = "\<lambda>_. x" and g = g and u = u]
  obtain h' u' cache' where d: "deliver ops i (Some (alloc h)) (\<lambda>_. x) ?pp h u = Inr (0, h', u')"
      "wf_heap ops keyed i cops h' refs" "h_cache h' c = Some cache'" "c_hashtable cache' \<noteq> None" "cache_cfg cache' = cache_cfg cache"
      "fresh_values h' cache' = announce ops (value_of x) (fresh_values h cache)" "dom (h_obj h') \<subseteq> insert (alloc h) (dom (h_obj h))"
    using D [OF mem [rule_format]] decode_hdr [OF x(1)] x(2) act by blast
  have "parser (nm_nlh msg) ?pp h u = Inr (0, h', u')" using parses [OF x(1)] d(1) by simp
  from parse_types_found [where parser = parser, OF x(4) this] have "nl_cache_parse parser (cops (c_ops cache0)) (nm_nlh msg) ?pp h u = Inr (0, h', u')"
    using x(3) by (simp add: nl_cache_parse_def neg_err_def)
  then have "update_msg_parser parser (cops (c_ops cache0)) ?pp msg arg s = (NL_OK, Inr (h', u'))"
    using h(1) by (simp add: update_msg_parser_def neg_err_def NL_OK_def)
  moreover have "in_sync ops i keyed cops decode refs c cache0 (xs @ [nm_nlh msg]) (Inr (h', u'))"
    using d h x(1) finite_subset [OF d(7)] by (auto simp: in_sync_def announced_def)
  moreover have "q u' = q u" using deliver_keeps [where q = q and g = g, OF q d(1)] .
  ultimately show ?thesis using h(1) by (auto simp: in_user_def)
qed

end

section \<open>The exchange\<close>

text \<open>A socket that delivers the queued datagrams one by one, without user callbacks for the message loop.\<close>

definition serves_queue :: "('u \<Rightarrow> byte list list) \<Rightarrow> ('a, 'd, 'u) link_layer \<Rightarrow> bool" where
  "serves_queue q ll \<longleftrightarrow> ll_clone ll \<and> ll_mem ll \<and> wf_cb (ll_cb ll) \<and> quiet (ll_cb ll) \<and> cb_set (ll_cb ll) ! NL_CB_FINISH = None \<and>
     cb_recv_ow (ll_cb ll) = None \<and> cb_recvmsgs_ow (ll_cb ll) = None \<and>
     (\<forall>sk h u d ds. q u = d # ds \<longrightarrow> (\<exists>nla creds u'.
        ll_recv ll sk (Inr (h, u)) = Some ((blen d, nla, d, creds), sk, Inr (h, u')) \<and> q u' = ds))"

text \<open>A complete answer: datagrams of announcements, and one that ends the dump.\<close>

definition complete_dump ::
  "('d nl_object \<Rightarrow> bool) \<Rightarrow> (byte list \<Rightarrow> 'd nl_object option) \<Rightarrow> nl_cache_ops \<Rightarrow> int \<Rightarrow> byte list list \<Rightarrow> byte list \<Rightarrow> bool" where
  "complete_dump keyed decode cop seq ds dn \<longleftrightarrow> done_dgram seq dn \<and>
     list_all (\<lambda>d. dump_dgram seq d \<and> list_all (announces keyed decode cop) (dgram_msgs d)) ds"

lemma valid_cb:
  fixes cb :: "('a, 'u) nl_cb" and f :: "('a, 'u) msg_cb"
  assumes "wf_cb cb" "quiet cb"
  defines "cb' \<equiv> ignore_err (cb\<lparr>cb_refcnt := 1\<rparr>) (nl_cb_set (cb\<lparr>cb_refcnt := 1\<rparr>) (int NL_CB_VALID) NL_CB_CUSTOM (Some f) None)"
  shows "quiet cb'" "cb_set cb' ! NL_CB_VALID = Some f" "cb_set cb' ! NL_CB_FINISH = cb_set cb ! NL_CB_FINISH"
    "cb_recv_ow cb' = cb_recv_ow cb" "cb_recvmsgs_ow cb' = cb_recvmsgs_ow cb"
  using assms by (auto simp: nl_cb_set_def wf_cb_def quiet_def cb_consts)

context object_parser begin

lemma resync_pickup:
  assumes s: "in_sync ops i keyed cops decode refs c cache0 [] (Inr (h, u))" and ll: "serves_queue q ll"
    and mem: "\<forall>p h. fst (allocs p h)" and q: "\<forall>c p act u. q (g c p act u) = q u"
    and ds: "complete_dump keyed decode (cops (c_ops cache0)) (s_seq_expect sk) ds dn" "length ds < ll_fuel ll" "q u = ds @ [dn]"
  shows "\<exists>sk' h' u'. cache_pickup ll parser cops c (resync_cb ops cops allocs c (Some (observer g)) None) sk h u =
      Some (Inr (0, sk', h', u')) \<and> in_sync ops i keyed cops decode refs c cache0 (concat (map dgram_msgs ds)) (Inr (h', u'))"
proof -
  let ?J = "in_sync ops i keyed cops decode refs c cache0"
  let ?f = "update_msg_parser parser (cops (c_ops cache0)) (resync_cb ops cops allocs c (Some (observer g)) None)"
  let ?cb0 = "(ll_cb ll)\<lparr>cb_refcnt := 1\<rparr>"
  define cb where "cb = ignore_err ?cb0 (nl_cb_set ?cb0 (int NL_CB_VALID) NL_CB_CUSTOM (Some ?f) None)"
  have l: "ll_clone ll" "ll_mem ll" "wf_cb (ll_cb ll)" "quiet (ll_cb ll)" "cb_set (ll_cb ll) ! NL_CB_FINISH = None"
      "cb_recv_ow (ll_cb ll) = None" "cb_recvmsgs_ow (ll_cb ll) = None" using ll by (auto simp: serves_queue_def)
  note v = valid_cb [OF l(3,4), of ?f, folded cb_def]
  obtain cache where c: "h_cache h c = Some cache" "c_ops cache = c_ops cache0" using s by (auto simp: in_sync_def cache_cfg_def)
  let ?st = "\<lparr>rs_sk = sk, rs_u = Inr (h, u) :: ('d, 'u) hstate, rs_multipart = False, rs_interrupted = False, rs_nrecv = 0\<rparr>"
  have J: "\<exists>u'. ?f msg (cb_args cb ! NL_CB_VALID) w = (NL_OK, u') \<and> ?J (xs @ [nm_nlh msg]) u' \<and> in_user q u' = in_user q w"
    if "?J xs w" "announces keyed decode (cops (c_ops cache0)) (nm_nlh msg)" for msg xs w
    using parse_step [OF that mem q] .
  have R: "\<exists>nla creds u'. ll_recv ll sk' w = Some ((blen d, nla, d, creds), sk', u') \<and> ?J xs u' \<and> in_user q u' = ds'"
    if w: "?J xs w" "in_user q w = d # ds'" for sk' xs w d ds'
  proof -
    obtain h1 u1 where w1: "w = Inr (h1, u1)" using w(1) by (auto simp: in_sync_def)
    then obtain nla creds u2 where "ll_recv ll sk' (Inr (h1, u1)) = Some ((blen d, nla, d, creds), sk', Inr (h1, u2))" "q u2 = ds'"
      using ll w(2) unfolding serves_queue_def by (fastforce simp: in_user_def)
    then show ?thesis using w1 w(1) by (auto simp: in_user_def in_sync_def)
  qed
  have D: "\<forall>d \<in> set ds. dump_dgram (s_seq_expect sk) d \<and> list_all (announces keyed decode (cops (c_ops cache0))) (dgram_msgs d)" "done_dgram (s_seq_expect sk) dn"
    using ds(1) by (auto simp: complete_dump_def list_all_iff)
  have "\<exists>n w. recvmsgs_loop (ll_fuel ll) (ll_recv ll) True cb ?st = Some (n, (rs_sk ?st)\<lparr>s_seq_expect := u32 (s_seq_expect sk + 1)\<rparr>, w) \<and>
      0 < n \<and> ?J ([] @ concat (map dgram_msgs ds)) w \<and> in_user q w = []"
  proof (rule recvmsgs_loop_dump [where G = "announces keyed decode (cops (c_ops cache0))" and J = ?J and q = "in_user q", OF v(1,2) _ _ _ _ D(2)])
    show "\<exists>u'. ?f msg (cb_args cb ! NL_CB_VALID) w = (NL_OK, u') \<and> ?J (xs @ [nm_nlh msg]) u' \<and> in_user q u' = in_user q w"
      if "?J xs w" "announces keyed decode (cops (c_ops cache0)) (nm_nlh msg)" for msg xs w by (rule J [OF that])
    show "\<exists>nla creds u'. ll_recv ll sk' w = Some ((blen d, nla, d, creds), sk', u') \<and> ?J xs u' \<and> in_user q u' = ds'"
      if "?J xs w" "in_user q w = d # ds'" for sk' xs w d ds' by (rule R [OF that])
  qed (use ds(2,3) D(1) v(3) l(5) s in \<open>auto simp: in_user_def\<close>)
  then obtain n w where r: "recvmsgs_loop (ll_fuel ll) (ll_recv ll) True cb ?st = Some (n, sk\<lparr>s_seq_expect := u32 (s_seq_expect sk + 1)\<rparr>, w)"
      "0 < n" "?J (concat (map dgram_msgs ds)) w" by auto
  obtain h' u' where w: "w = Inr (h', u')" using r(3) by (auto simp: in_sync_def)
  have "nl_cb_clone (ll_clone ll) (ll_cb ll) = Some ?cb0" using l(1) by (simp add: nl_cb_clone_def nl_cb_alloc_default)
  then show ?thesis using c l(2,6,7) r v(4,5) w
    by (simp add: cache_pickup_def cb_def [symmetric] nl_recvmsgs_def nl_recvmsgs_report_def recvmsgs_def from_recv_def)
qed

end

text \<open>Without iteration over address families one dump is made, whatever groups the type has.\<close>

lemma dump_all_once:
  assumes "h_cache h c = Some cache" "c_flags cache AND NL_CACHE_AF_ITER = 0"
    and "co_groups (cops (c_ops cache)) = None \<or> 2 \<le> length (the (co_groups (cops (c_ops cache))))"
    and "dump sk h u = Some (Inr (err, sk', h', u'))"
    and "h_cache h' c = Some cache'" "c_flags cache' AND NL_CACHE_AF_ITER = 0"
  shows "dump_all cops dump c sk h u = Some (Inr (err, sk', h', u'))"
proof (cases "co_groups (cops (c_ops cache))")
  case (Some grps)
  then obtain g g' rest where "grps = g # g' # rest" using assms(3) by (cases grps; cases "tl grps") auto
  then show ?thesis using assms Some by (simp add: dump_all_def set_family_def af_iter_def)
qed (use assms in \<open>simp add: dump_all_def\<close>)

context object_parser begin

lemma resync_mirrors:
  assumes wf: "wf_heap ops keyed i cops h refs" "finite (dom (h_obj h))"
    and c: "h_cache h c = Some cache" "c_hashtable cache \<noteq> None" "c_flags cache AND NL_CACHE_AF_ITER = 0"
      "co_groups (cops (c_ops cache)) = None \<or> 2 \<le> length (the (co_groups (cops (c_ops cache))))"
      "s_proto sk = co_protocol (cops (c_ops cache))"
    and ll: "serves_queue q ll" "length ds < ll_fuel ll" "\<forall>p h. fst (allocs p h)" "\<forall>c p act u. q (g c p act u) = q u"
    and request: "\<forall>h. req c sk h u = Some (Inr (r, sk1, h, u1))" "0 \<le> r" "q u1 = ds @ [dn]"
    and answer: "complete_dump keyed decode (cops (c_ops cache)) (s_seq_expect sk1) ds dn"
  shows "\<exists>sk' h' u' cache'. nl_cache_resync ops cops allocs ll parser (Some req) (Suc fuel) (Some (observer g)) c sk h u =
      Some (Inr (0, sk', h', u')) \<and> wf_heap ops keyed i cops h' refs \<and> h_cache h' c = Some cache' \<and>
    cache_values h' cache' = announced ops decode (concat (map dgram_msgs ds))"
proof -
  let ?pick = "cache_pickup ll parser cops c (resync_cb ops cops allocs c (Some (observer g)) None)"
  let ?dump = "dump_restart (Suc fuel) (nl_cache_request_full_dump cops (Some req) c) ?pick"
  let ?xs = "concat (map dgram_msgs ds)"
  obtain h1 where m: "nl_cache_mark_all c h = Inr h1" "wf_heap ops keyed i cops h1 refs" "h_cache h1 = h_cache h"
      "dom (h_obj h1) = dom (h_obj h)" "fresh_values h1 cache = []" using mark_all_wf [OF wf(1) c(1)] by blast
  have "in_sync ops i keyed cops decode refs c cache [] (Inr (h1, u1))"
    using m wf(2) c(1,2) by (simp add: in_sync_def announced_def)
  from resync_pickup [OF this ll(1,3,4) answer ll(2) request(3)] obtain sk2 h2 u2 where
    p: "?pick sk1 h1 u1 = Some (Inr (0, sk2, h2, u2))" "in_sync ops i keyed cops decode refs c cache ?xs (Inr (h2, u2))" by blast
  obtain cache2 where s2: "wf_heap ops keyed i cops h2 refs" "h_cache h2 c = Some cache2" "cache_cfg cache2 = cache_cfg cache"
      "fresh_values h2 cache2 = announced ops decode ?xs" using p(2) by (auto simp: in_sync_def)
  have "?dump sk h1 u = Some (Inr (0, sk2, h2, u2))"
    using p(1) request(1,2) c(1,5) m(3) by (simp add: nl_cache_request_full_dump_def proto_ok_def neg_err_def)
  moreover have "c_flags cache2 AND NL_CACHE_AF_ITER = 0" using s2(3) c(3) by (simp add: cache_cfg_def)
  ultimately have d: "dump_all cops ?dump c sk h1 u = Some (Inr (0, sk2, h2, u2))"
    using m(3) c(1,3,4) s2(2) by (intro dump_all_once) auto
  have "c_items cache2 = [] @ c_items cache2" by simp
  from remove_marked_wf [OF s2(1,2) this, where g = g and u = u2, unfolded append_Nil] obtain h3 u3 cache3 where
    r: "remove_marked ops (Some (observer g)) c (c_items cache2) h2 u2 = Inr (h3, u3)" "wf_heap ops keyed i cops h3 refs"
      "h_cache h3 = (h_cache h2)(c \<mapsto> cache3)"
      "c_items cache3 = filter (\<lambda>p. \<not> nl_object_is_marked (the (h_obj h2 p))) (c_items cache2)"
      "\<forall>q \<in> set (c_items cache3). h_obj h3 q = h_obj h2 q"
    by (elim exE conjE) (rule that)
  have "cache_values h3 cache3 = fresh_values h2 cache2" using r(4,5) by (simp add: cache_values_def fresh_values_def)
  moreover have "nl_cache_resync ops cops allocs ll parser (Some req) (Suc fuel) (Some (observer g)) c sk h u = Some (Inr (0, sk2, h3, u3))"
    using c(1,5) m(1) d s2(2) r(1) by (simp add: nl_cache_resync_def proto_ok_def)
  ultimately show ?thesis using r(2,3) s2(4) by auto
qed

end

end
