(* ===== verification/Nl_Neigh_Sync.thy ===== *)
theory Nl_Neigh_Sync
  imports Nl_Neigh_Type Nl_Mirror
begin

unbundle bit_operations_syntax

text \<open>
  The message parser of \<open>route/neigh\<close> fits the interface of the resynchronisation, so that neighbour
  caches mirror the tables of the kernel; and what the parser makes of messages.
\<close>

section \<open>The parser as an object parser\<close>

text \<open>The object that the parser builds; \<open>None\<close> for messages that it rejects.\<close>

definition neigh_decode :: "nat \<Rightarrow> (int \<Rightarrow> int option) \<Rightarrow> byte list \<Rightarrow> neigh_obj option" where
  "neigh_decode addr master buf =
     (case nlmsg_parse buf 0 12 NDA_MAX (Some neigh_policy) of
        (Some tb, Inr _) \<Rightarrow> Some (neigh_fill master buf 0 tb (new_object (\<lambda>_. neigh_obj_ops addr) 0))
      | _ \<Rightarrow> None)"

text \<open>An address that no object has, if there are finitely many objects.\<close>

definition next_free :: "'d heap \<Rightarrow> nat" where
  "next_free h = Suc (Max (insert 0 (dom (h_obj h))))"

lemma next_free_unused: "finite (dom (h_obj h)) \<Longrightarrow> h_obj h (next_free h) = None"
  using Max_ge [of "insert 0 (dom (h_obj h))" "next_free h"] by (fastforce simp: next_free_def)

text \<open>The parser with enough memory.\<close>

definition neigh_parser :: "nat \<Rightarrow> (int \<Rightarrow> int option) \<Rightarrow> (rtnl_neigh, 'u) msg_parser" where
  "neigh_parser addr master buf pp h u = neigh_msg_parser addr (Some (next_free h)) True True master buf 0 pp h u"

lemma neigh_hdr_kept [simp]:
  "hdr_kept (neigh_attr at flag upd obj) obj0 = hdr_kept obj obj0" "hdr_kept (neigh_bridge master buf at obj) obj0 = hdr_kept obj obj0"
  "hdr_kept (neigh_from_hdr buf nm obj) obj0 = hdr_kept obj obj0" "hdr_kept (obj\<lparr>ce_msgtype := t\<rparr>) obj0 = hdr_kept obj obj0"
  "ce_msgtype (neigh_attr at flag upd obj) = ce_msgtype obj" "ce_msgtype (neigh_bridge master buf at obj) = ce_msgtype obj"
  "ce_msgtype (neigh_from_hdr buf nm obj) = ce_msgtype obj"
  by (simp_all add: hdr_kept_def neigh_attr_def neigh_bridge_def neigh_from_hdr_def Let_def split: option.split)

lemma neigh_parser_delivers:
  assumes "neigh_decode addr master buf = Some x"
  shows "neigh_parser addr master buf pp h u = deliver (\<lambda>_. neigh_obj_ops addr) 0 (Some (next_free h)) (\<lambda>_. x) pp h u"
proof -
  have sz: "SIZEOF_NL_OBJECT \<le> oo_size (neigh_obj_ops addr)" by (simp add: SIZEOF_NL_OBJECT_def neigh_obj_ops_def)
  obtain tb where tb: "nlmsg_parse buf 0 12 NDA_MAX (Some neigh_policy) = (Some tb, Inr ())"
      "x = neigh_fill master buf 0 tb (new_object (\<lambda>_. neigh_obj_ops addr) 0)"
    using assms by (auto simp: neigh_decode_def split: prod.splits option.splits sum.splits)
  have alloc: "nl_object_alloc (\<lambda>_. neigh_obj_ops addr) (Some p) 0 h = Inr (Some p, set_obj p (new_object (\<lambda>_. neigh_obj_ops addr) 0) h)" for p
    using sz by (simp add: nl_object_alloc_def new_object_def Let_def)
  show ?thesis
    using tb(1) by (simp add: neigh_parser_def neigh_msg_parser_def rtnl_neigh_parse_def alloc deliver_eq [where ops = "\<lambda>_. neigh_obj_ops addr", OF sz] tb(2) Let_def)
qed

interpretation neigh: object_parser "\<lambda>_. neigh_obj_ops addr" 0 neigh_keyed "neigh_keygen addr True"
  "neigh_parser addr master" "neigh_decode addr master" next_free
proof
  show "neigh_parser addr master buf pp h u = deliver (\<lambda>_. neigh_obj_ops addr) 0 (Some (next_free h)) (\<lambda>_. x) pp h u"
    if "neigh_decode addr master buf = Some x" for buf x and pp :: "(rtnl_neigh, 'a) pp_cb" and h u
    using that by (rule neigh_parser_delivers)
  show "hdr_kept x (new_object (\<lambda>_. neigh_obj_ops addr) 0) \<and> ce_msgtype x = nlmsg_type (nlh buf 0)"
    if "neigh_decode addr master buf = Some x" for buf x
    using that by (auto simp: neigh_decode_def neigh_fill_def Let_def hdr_kept_def [of "new_object a b" for a b] split: prod.splits option.splits sum.splits)
  show "h_obj h (next_free h) = None" if "finite (dom (h_obj h))" for h :: "rtnl_neigh heap" using that by (rule next_free_unused)
  show "SIZEOF_NL_OBJECT \<le> oo_size (neigh_obj_ops addr)" by (simp add: SIZEOF_NL_OBJECT_def neigh_obj_ops_def)
qed

section \<open>What the parser builds\<close>

lemma nla_each_ok: "(p, q) \<in> set (nla_for_each buf pos rem) \<Longrightarrow> nla_ok buf p q"
proof (induction buf pos rem rule: nla_for_each.induct)
  case (1 buf pos rem)
  from 1(2) show ?case by (subst (asm) nla_for_each.simps) (auto split: if_splits prod.splits dest!: 1(1))
qed

lemma nla_each_pos: "(p, q) \<in> set (nla_for_each buf pos rem) \<Longrightarrow> pos \<le> p"
proof (induction buf pos rem rule: nla_for_each.induct)
  case (1 buf pos rem)
  show ?case
  proof (cases "nla_ok buf pos rem")
    case True
    obtain pos' rem' where n: "nla_next buf pos rem = (pos', rem')" by fastforce
    have "pos \<le> pos'" using n align4_ge [of "nla_len_fld buf pos"] get16_range [of buf pos] by (auto simp: nla_next_def nla_len_fld_def Let_def)
    moreover have "(p, q) = (pos, rem) \<or> (p, q) \<in> set (nla_for_each buf pos' rem')"
      using 1(2) True n by (subst (asm) nla_for_each.simps) simp
    ultimately show ?thesis using 1(1) [OF True n [symmetric]] by auto
  next
    case False
    then show ?thesis using 1(2) by (subst (asm) nla_for_each.simps) simp
  qed
qed

lemma parsed_attr:
  assumes "nlmsg_parse buf off hdr maxtype policy = (Some tb, Inr r)" "k < length tb" "tb ! k = Some p"
  shows "\<exists>q. (p, q) \<in> set (nla_for_each buf (nlmsg_attrdata off hdr) (nlmsg_attrlen (nlh buf off) hdr))"
proof -
  let ?ps = "nla_for_each buf (nlmsg_attrdata off hdr) (nlmsg_attrlen (nlh buf off) hdr)"
  have "nla_parse_loop buf maxtype policy (replicate (nat (maxtype + 1)) None) ?ps = (tb, Inr ())"
    using assms(1) by (auto simp: nlmsg_parse_def nla_parse_def split: if_splits prod.splits)
  note l = nla_parse_loop_Inr [OF this]
  have "nla_last buf (nla_known buf maxtype ?ps) k = Some p"
    using l(2) l(3) [of k] assms(2,3) by (auto split: option.splits)
  then show ?thesis using nla_last_SomeD by (fastforce simp: nla_known_def)
qed

lemma parsed_attr_len:
  assumes "nlmsg_parse buf off hdr maxtype policy = (Some tb, Inr r)" "k < length tb" "tb ! k = Some p"
  shows "0 \<le> nla_len buf p" "nlmsg_attrdata off hdr \<le> p"
proof -
  obtain q where q: "(p, q) \<in> set (nla_for_each buf (nlmsg_attrdata off hdr) (nlmsg_attrlen (nlh buf off) hdr))"
    using parsed_attr [OF assms] by blast
  then have "nla_ok buf p q" by (rule nla_each_ok)
  then show "0 \<le> nla_len buf p" by (simp add: nla_ok_def nla_len_def)
  show "nlmsg_attrdata off hdr \<le> p" by (rule nla_each_pos [OF q])
qed

lemma parsed_length: "nlmsg_parse buf off hdr maxtype policy = (Some tb, Inr r) \<Longrightarrow> length tb = nat (maxtype + 1)"
  using nla_parse_loop_Inr(2) by (fastforce simp: nlmsg_parse_def nla_parse_def split: if_splits prod.splits)

lemma attr_addr_ok: "0 \<le> nla_len buf p \<Longrightarrow> addr_ok (attr_addr buf p)"
proof -
  have "nla_len buf p < 65536" using get16_range [of buf p] unfolding nla_len_def nla_len_fld_def NLA_HDRLEN_eq by linarith
  moreover assume "0 \<le> nla_len buf p"
  moreover have "length (rd buf' 0 (nla_len buf p)) \<le> nat (nla_len buf p)" for buf' :: "byte list"
    by (simp add: rd_def)
  ultimately show ?thesis
    by (auto simp: attr_addr_def nl_addr_alloc_attr_def nl_addr_build_def nl_addr_alloc_def nl_addr_set_family_def addr_ok_def Let_def
        zeros_def wr_def)
qed

lemma neigh_attr_mask: "ce_mask (neigh_attr at flag upd obj) = ce_mask obj OR (if at = None then 0 else flag)"
  by (simp add: neigh_attr_def split: option.split)

lemma neigh_attr_keep:
  "(\<And>p d. f (upd p d) = f d) \<Longrightarrow> f (ce_data (neigh_attr at flag upd obj)) = f (ce_data obj)"
  by (simp add: neigh_attr_def split: option.split)

lemmas neigh_attr_other = neigh_attr_keep [where f = n_family] neigh_attr_keep [where f = n_ifindex] neigh_attr_keep [where f = n_flags]
  neigh_attr_keep [where f = n_lladdr] neigh_attr_keep [where f = n_dst] neigh_attr_keep [where f = n_vlan]

lemma neigh_attr_own:
  "n_lladdr (ce_data (neigh_attr at flag (\<lambda>p d. d\<lparr>n_lladdr := g p\<rparr>) obj)) = (if at = None then n_lladdr (ce_data obj) else g (the at))"
  "n_dst (ce_data (neigh_attr at flag (\<lambda>p d. d\<lparr>n_dst := g p\<rparr>) obj)) = (if at = None then n_dst (ce_data obj) else g (the at))"
  "n_vlan (ce_data (neigh_attr at flag (\<lambda>p d. d\<lparr>n_vlan := k p\<rparr>) obj)) = (if at = None then n_vlan (ce_data obj) else k (the at))"
  by (simp_all add: neigh_attr_def split: option.split)

text \<open>The bridge is known from the message or from the link cache.\<close>

definition master_known :: "(int \<Rightarrow> int option) \<Rightarrow> int option \<Rightarrow> int \<Rightarrow> bool" where
  "master_known master at ifindex \<longleftrightarrow> at \<noteq> None \<or> master ifindex \<noteq> None"

lemma neigh_bridge_simps:
  "ce_mask (neigh_bridge master buf at obj) = ce_mask obj OR
     (if n_family (ce_data obj) = AF_BRIDGE \<and> master_known master at (n_ifindex (ce_data obj)) then NEIGH_ATTR_MASTER else 0)"
  "n_family (ce_data (neigh_bridge master buf at obj)) = n_family (ce_data obj)"
  "n_ifindex (ce_data (neigh_bridge master buf at obj)) = n_ifindex (ce_data obj)"
  "n_flags (ce_data (neigh_bridge master buf at obj)) = n_flags (ce_data obj)"
  "n_lladdr (ce_data (neigh_bridge master buf at obj)) = n_lladdr (ce_data obj)"
  "n_dst (ce_data (neigh_bridge master buf at obj)) = n_dst (ce_data obj)"
  "n_vlan (ce_data (neigh_bridge master buf at obj)) = n_vlan (ce_data obj)"
  by (simp_all add: neigh_bridge_def master_known_def Let_def split: option.split)

lemma neigh_fill_simps:
  assumes "ce_mask obj = 0" and x_def: "x = neigh_fill master buf off tb obj"
  shows "ce_mask x = 0xE3 OR (if tb ! 2 = None then 0 else 4) OR (if tb ! 1 = None then 0 else 8) OR (if tb ! 3 = None then 0 else 0x10) OR
      (if tb ! 4 = None then 0 else 0x100) OR (if tb ! 5 = None then 0 else 0x400) OR (if tb ! 12 = None then 0 else 0x800) OR
      (if n_family (ce_data x) = AF_BRIDGE \<and> master_known master (tb ! 9) (n_ifindex (ce_data x)) then 0x200 else 0)"
    "n_lladdr (ce_data x) = (if tb ! 2 = None then n_lladdr (ce_data obj) else Some (attr_addr buf (the (tb ! 2))))"
    "n_dst (ce_data x) = (if tb ! 1 = None then n_dst (ce_data obj) else Some (attr_addr buf (the (tb ! 1))))"
    "n_vlan (ce_data x) = (if tb ! 5 = None then n_vlan (ce_data obj) else nla_get_u16 buf (the (tb ! 5)))"
  using assms(1)
  by (simp_all add: x_def neigh_fill_def Let_def neigh_bridge_simps neigh_attr_mask neigh_attr_own neigh_attr_other neigh_from_hdr_def
      neigh_attr_defs or.assoc)

lemma neigh_decode_parts:
  assumes "neigh_decode addr master buf = Some x"
  shows "ce_ops x = Some 0" "opt_addr_ok (n_lladdr (ce_data x))" "opt_addr_ok (n_dst (ce_data x))"
    "ce_mask x AND NEIGH_ATTR_VLAN = 0 \<longrightarrow> n_vlan (ce_data x) = 0"
    "ce_mask x AND 0x60 = 0x60" "ce_mask x AND 4 \<noteq> 0 \<longleftrightarrow> n_lladdr (ce_data x) \<noteq> None" "ce_mask x AND 8 \<noteq> 0 \<longleftrightarrow> n_dst (ce_data x) \<noteq> None"
proof -
  let ?new = "new_object (\<lambda>_. neigh_obj_ops addr) 0"
  obtain tb r where tb: "nlmsg_parse buf 0 12 NDA_MAX (Some neigh_policy) = (Some tb, Inr r)" and x: "x = neigh_fill master buf 0 tb ?new"
    using assms by (auto simp: neigh_decode_def split: prod.splits option.splits sum.splits)
  have new: "ce_mask ?new = 0" "n_lladdr (ce_data ?new) = None" "n_dst (ce_data ?new) = None" "n_vlan (ce_data ?new) = 0"
    by (simp_all add: new_object_def neigh_obj_ops_def)
  note f = neigh_fill_simps [OF new(1) x, unfolded new]
  show "ce_ops x = Some 0" using neigh.decode_hdr [OF assms] by (simp add: hdr_kept_def new_object_def)
  have "0 \<le> nla_len buf p" if "tb ! k = Some p" "k < 13" for k p
    using parsed_attr_len(1) [OF tb _ that(1)] that(2) parsed_length [OF tb] by (simp add: NDA_MAX_def)
  then show "opt_addr_ok (n_lladdr (ce_data x))" "opt_addr_ok (n_dst (ce_data x))"
    by (auto simp: f(2,3) opt_addr_ok_def attr_addr_ok)
  show "ce_mask x AND NEIGH_ATTR_VLAN = 0 \<longrightarrow> n_vlan (ce_data x) = 0"
    by (simp add: f(1,4) NEIGH_ATTR_VLAN_def bit.conj_disj_distrib2)
  show "ce_mask x AND 0x60 = 0x60" "ce_mask x AND 4 \<noteq> 0 \<longleftrightarrow> n_lladdr (ce_data x) \<noteq> None" "ce_mask x AND 8 \<noteq> 0 \<longleftrightarrow> n_dst (ce_data x) \<noteq> None"
    by (simp_all add: f(1-3) bit.conj_disj_distrib2)
qed

lemma bit_subset: "b \<in> {4, 8, 0x200, 0x400} \<Longrightarrow> (m::int) AND b = b \<longleftrightarrow> m AND b \<noteq> 0"
proof -
  have "m AND 2 ^ n = (if bit m n then 2 ^ n else 0)" for n by (rule bit_eqI) (auto simp: bit_simps)
  then have "m AND 2 ^ n = 2 ^ n \<longleftrightarrow> m AND 2 ^ n \<noteq> 0" for n by simp
  from this [of 2] this [of 3] this [of 9] this [of 10] show "b \<in> {4, 8, 0x200, 0x400} \<Longrightarrow> m AND b = b \<longleftrightarrow> m AND b \<noteq> 0" by auto
qed

lemma and_or_iff: "(m::int) AND (a OR b) = (a OR b) \<longleftrightarrow> m AND a = a \<and> m AND b = b"
  unfolding bit_eq_iff by (auto simp: bit_simps)

lemma id_attrs_present:
  assumes "ce_mask x AND 0x60 = 0x60"
  shows "ce_mask x AND neigh_id_attrs_get x = neigh_id_attrs_get x \<longleftrightarrow>
    (if n_family (ce_data x) = AF_BRIDGE
     then ce_mask x AND 4 \<noteq> 0 \<and> (n_flags (ce_data x) AND NTF_SELF \<noteq> 0 \<or> (ce_mask x AND 0x200 \<noteq> 0 \<and> ce_mask x AND 0x400 \<noteq> 0))
     else ce_mask x AND 8 \<noteq> 0)"
proof -
  have m: "ce_mask x AND 0x20 = 0x20" "ce_mask x AND 0x40 = 0x40" using mask_contains [OF assms] by simp_all
  show ?thesis unfolding neigh_id_attrs_get_def Let_def neigh_attr_defs
    by (simp only: and_or_iff m bit_subset if_split_eq1 simp_thms refl if_True if_False insert_iff split: if_split) simp
qed

text \<open>
  What a message says: the family, the index of the interface and the flags are those of \<open>struct ndmsg\<close> behind the header, and
  \<open>NDA_DST\<close> (1), \<open>NDA_LLADDR\<close> (2), \<open>NDA_VLAN\<close> (5) and \<open>NDA_MASTER\<close> (9) are entries of the table of attributes \<open>tb\<close>. The
  function \<open>master\<close> is the lookup of a bridge in the cache of interfaces.
\<close>

definition neigh_recognisable :: "(int \<Rightarrow> int option) \<Rightarrow> byte list \<Rightarrow> int option list \<Rightarrow> bool" where
  "neigh_recognisable master buf tb \<longleftrightarrow>
     (let family = le_int (rd buf 16 1); ifindex = get32 buf 20; flags = le_int (rd buf 26 1) in
      if family = AF_BRIDGE
      then tb ! 2 \<noteq> None \<and> (flags AND NTF_SELF \<noteq> 0 \<or> (tb ! 9 \<noteq> None \<or> master ifindex \<noteq> None) \<and> tb ! 5 \<noteq> None)
      else tb ! 1 \<noteq> None)"

text \<open>An address that has the bytes of an attribute, and is there exactly if the attribute is.\<close>

definition addr_of_attr :: "byte list \<Rightarrow> int option \<Rightarrow> nl_addr option \<Rightarrow> bool" where
  "addr_of_attr buf at a \<longleftrightarrow>
     (case (at, a) of
        (None, None) \<Rightarrow> True
      | (Some p, Some x) \<Rightarrow>
          a_len x = nla_len buf p \<and> (nla_data p + nla_len buf p \<le> blen buf \<longrightarrow> addr_bytes x = rd buf (nla_data p) (nla_len buf p))
      | _ \<Rightarrow> False)"

lemma addr_of_attr_addr:
  assumes "0 \<le> nla_len buf p" "0 \<le> p"
  shows "addr_of_attr buf (Some p) (Some (attr_addr buf p))"
proof -
  have "nla_len buf p < 65536" using get16_range [of buf p] unfolding nla_len_def nla_len_fld_def NLA_HDRLEN_eq by linarith
  then show ?thesis
    using assms
    by (auto simp: addr_of_attr_def attr_addr_def nl_addr_alloc_attr_def nl_addr_build_def nl_addr_alloc_def nl_addr_set_family_def
        addr_bytes_def Let_def zeros_def wr_def rd_def nla_data_def NLA_HDRLEN_eq)
qed

text \<open>
  C37. Which neighbour entries a cache can recognise again: for every message that \<open>nlmsg_parse\<close> accepts with the policy for
  neighbours the parser builds, if no allocation fails, an object that has the family, index and flags of the message, and its
  destination and link layer address, with their bytes, if they are there. This object is identical to itself and has the keys that later
  events find it by (\<open>neigh_keyed\<close>) exactly if the message has a destination address, or for entries of a bridge a link layer
  address and, unless the entry belongs to the device itself, a bridge (in the message or in the cache of interfaces) and a VLAN.
\<close>

theorem neigh_parse_identity:
  assumes tb: "nlmsg_parse buf 0 12 NDA_MAX (Some neigh_policy) = (Some tb, Inr ())"
  shows "\<exists>x. neigh_decode addr master buf = Some x \<and>
    n_family (ce_data x) = le_int (rd buf 16 1) \<and> rtnl_neigh_get_ifindex x = s32 (get32 buf 20) \<and> rtnl_neigh_get_flags x = le_int (rd buf 26 1) \<and>
    addr_of_attr buf (tb ! 1) (rtnl_neigh_get_dst x) \<and> addr_of_attr buf (tb ! 2) (rtnl_neigh_get_lladdr x) \<and>
    nl_object_identical (\<lambda>_. neigh_obj_ops addr) x x = Inr (neigh_recognisable master buf tb) \<and>
    neigh_keyed x = neigh_recognisable master buf tb"
proof -
  let ?new = "new_object (\<lambda>_. neigh_obj_ops addr) 0"
  define x where "x = neigh_fill master buf 0 tb ?new"
  have x: "neigh_decode addr master buf = Some x" by (simp add: neigh_decode_def tb x_def)
  note d = neigh_decode_parts [OF x]
  have new: "ce_mask ?new = 0" "n_lladdr (ce_data ?new) = None" "n_dst (ce_data ?new) = None" "n_vlan (ce_data ?new) = 0"
    by (simp_all add: new_object_def neigh_obj_ops_def)
  note f = neigh_fill_simps [OF new(1) x_def, unfolded new]
  have h: "n_family (ce_data x) = le_int (rd buf 16 1)" "n_ifindex (ce_data x) = get32 buf 20" "n_flags (ce_data x) = le_int (rd buf 26 1)"
    by (simp_all add: x_def neigh_fill_def Let_def neigh_bridge_simps neigh_attr_other neigh_from_hdr_def nlmsg_data_def)
  have g: "rtnl_neigh_get_dst x = n_dst (ce_data x)" "rtnl_neigh_get_lladdr x = n_lladdr (ce_data x)"
    "rtnl_neigh_get_ifindex x = s32 (n_ifindex (ce_data x))" "rtnl_neigh_get_flags x = n_flags (ce_data x)"
    using d(6,7)
    by (auto simp: rtnl_neigh_get_dst_def rtnl_neigh_get_lladdr_def rtnl_neigh_get_ifindex_def rtnl_neigh_get_flags_def neigh_attr_defs)
  have p: "0 \<le> nla_len buf p \<and> 0 \<le> p" if "tb ! k = Some p" "k < 13" for k p
    using parsed_attr_len [OF tb _ that(1)] that(2) parsed_length [OF tb] by (simp add: NDA_MAX_def nlmsg_attrdata_def nlmsg_data_def NLMSG_ALIGN_def align4_eq)
  have a: "addr_of_attr buf (tb ! 1) (rtnl_neigh_get_dst x)" "addr_of_attr buf (tb ! 2) (rtnl_neigh_get_lladdr x)"
    using p [of 1] p [of 2] addr_of_attr_addr [of buf] by (cases "tb ! 1"; cases "tb ! 2"; simp add: g f(2,3) addr_of_attr_def)+
  have "ce_mask x AND neigh_id_attrs_get x = neigh_id_attrs_get x \<longleftrightarrow> neigh_recognisable master buf tb"
    unfolding id_attrs_present [OF d(5)] neigh_recognisable_def Let_def h [symmetric] master_known_def
    by (auto simp: f(1) master_known_def bit.conj_disj_distrib2)
  moreover have k: "neigh_keyed x \<longleftrightarrow> ce_mask x AND neigh_id_attrs_get x = neigh_id_attrs_get x"
    using d(2-4) by (simp add: neigh_keyed_def Let_def)
  moreover have "nl_object_identical (\<lambda>_. neigh_obj_ops addr) x x = Inr (ident (\<lambda>_. neigh_obj_ops addr) x x)"
    by (rule identical_Inr [OF d(1,1)])
  moreover have "ident (\<lambda>_. neigh_obj_ops addr) x x \<longleftrightarrow> neigh_keyed x"
    using neigh.ident_refl [OF d(1)] k by (auto simp: neigh_ident)
  ultimately show ?thesis using x h g a by (intro exI [of _ x]) simp
qed

text \<open>An entry of a bridge without VLAN, on interface 3 of bridge 4.\<close>

definition fdb_msg :: "byte list" where
  "fdb_msg = [48, 0, 0, 0, 28, 0, 2, 0, 5, 0, 0, 0, 9, 0, 0, 0, 7, 0, 0, 0, 3, 0, 0, 0, 2, 0, 0, 0,
     10, 0, 2, 0, 2, 0, 0, 0, 0, 1, 0, 0, 8, 0, 9, 0, 4, 0, 0, 0]"

theorem neigh_parse_identity_witness:
  "\<exists>x. neigh_decode 0 (\<lambda>_. None) fdb_msg = Some x \<and> rtnl_neigh_get_ifindex x = 3 \<and> rtnl_neigh_get_dst x = None \<and>
    map_option addr_bytes (rtnl_neigh_get_lladdr x) = Some [2, 0, 0, 0, 0, 1] \<and> nl_object_identical (\<lambda>_. neigh_obj_ops 0) x x = Inr False"
proof -
  let ?tb = "(replicate 13 None)[2 := Some 28, 9 := Some 40]"
  have tb: "nlmsg_parse fdb_msg 0 12 NDA_MAX (Some neigh_policy) = (Some ?tb, Inr ())" by code_simp
  have v: "\<not> neigh_recognisable (\<lambda>_. None) fdb_msg ?tb" "s32 (get32 fdb_msg 20) = 3" "nla_data 28 + nla_len fdb_msg 28 \<le> blen fdb_msg"
    "rd fdb_msg (nla_data 28) (nla_len fdb_msg 28) = [2, 0, 0, 0, 0, 1]"
    by code_simp+
  obtain x where x: "neigh_decode 0 (\<lambda>_. None) fdb_msg = Some x" "rtnl_neigh_get_ifindex x = 3"
    "addr_of_attr fdb_msg None (rtnl_neigh_get_dst x)" "addr_of_attr fdb_msg (Some 28) (rtnl_neigh_get_lladdr x)"
    "nl_object_identical (\<lambda>_. neigh_obj_ops 0) x x = Inr False"
    using neigh_parse_identity [OF tb, of 0 "\<lambda>_. None"] v(1,2) by (auto simp: numeral_eq_Suc)
  have "rtnl_neigh_get_dst x = None" "map_option addr_bytes (rtnl_neigh_get_lladdr x) = Some [2, 0, 0, 0, 0, 1]"
    using x(3,4) v(3,4) by (auto simp: addr_of_attr_def split: option.splits)
  then show ?thesis using x(1,2,5) by blast
qed

section \<open>Further behaviour\<close>

text \<open>Setting the type forgets all attributes that were set before.\<close>

lemma rtnl_neigh_set_type_clears:
  "rtnl_neigh_get_dst (rtnl_neigh_set_type neigh t) = None" "rtnl_neigh_get_state (rtnl_neigh_set_type neigh t) = - 1"
  by (simp_all add: rtnl_neigh_set_type_def rtnl_neigh_get_dst_def rtnl_neigh_get_state_def neigh_attr_defs)

text \<open>When the first allocation of a clone fails, the clone that is then freed still has the destination address of
  its source.\<close>

lemma neigh_clone_failure_shares:
  assumes "n_lladdr (ce_data src) = Some l" "n_dst (ce_data dst) = n_dst (ce_data src)"
  shows "neigh_clone False a2 dst src = (neg_err NLE_NOMEM, dst\<lparr>ce_data := (ce_data dst)\<lparr>n_lladdr := None\<rparr>\<rparr>)"
    "n_dst (ce_data (snd (neigh_clone False a2 dst src))) = n_dst (ce_data src)"
  using assms by (simp_all add: neigh_clone_def nl_addr_clone_def nl_addr_build_def nl_addr_alloc_def)

section \<open>An exchange\<close>

text \<open>An announcement of the IPv4 neighbour 10.0.0.\<open>n\<close> on interface 3 with state \<open>st\<close>, answering request 5.\<close>

definition neigh_msg :: "byte \<Rightarrow> byte \<Rightarrow> byte list" where
  "neigh_msg n st = [36, 0, 0, 0, 28, 0, 2, 0, 5, 0, 0, 0, 9, 0, 0, 0, 2, 0, 0, 0, 3, 0, 0, 0, st, 0, 0, 1,
     8, 0, 1, 0, 10, 0, 0, n]"

definition done_msg :: "byte list" where
  "done_msg = [20, 0, 0, 0, 3, 0, 2, 0, 5, 0, 0, 0, 9, 0, 0, 0, 0, 0, 0, 0]"

abbreviation neigh_ops :: "rtnl_neigh ops" where "neigh_ops \<equiv> \<lambda>_. neigh_obj_ops 0"
abbreviation neigh_cops :: cops where "neigh_cops \<equiv> \<lambda>_. rtnl_neigh_ops"

definition neigh_cache :: nl_cache where
  "neigh_cache = \<lparr>c_items = [], c_nitems = 0, c_iarg1 = 0, c_iarg2 = 0, c_refcnt = 1, c_flags = 0,
    c_hashtable = nl_hash_table_alloc True True NL_MAX_HASH_ENTRIES, c_ops = 0\<rparr>"

definition neigh_heap :: "rtnl_neigh heap" where
  "neigh_heap = \<lparr>h_obj = (\<lambda>_. None), h_cache = [0 \<mapsto> neigh_cache]\<rparr>"

lemma neigh_heap_wf: "wf_heap neigh_ops neigh_keyed 0 neigh_cops neigh_heap (\<lambda>_. 0)"
proof -
  have sane: "sane_types neigh_ops 0 neigh_cops"
    by (simp add: sane_types_def neigh_obj_ops_def rtnl_neigh_ops_def SIZEOF_NL_OBJECT_def)
  have "run_ops neigh_ops 0 neigh_cops neigh_keyed [CacheAlloc 0 True True 0] \<lparr>h_obj = (\<lambda>_. None), h_cache = (\<lambda>_. None)\<rparr> (\<lambda>_. 0) =
      Some (neigh_heap, \<lambda>_. 0)"
    by (simp add: nl_cache_alloc_def neigh_obj_ops_def rtnl_neigh_ops_def neigh_heap_def neigh_cache_def)
  from run_ops_reach [OF this cache_reach.start] show ?thesis using neigh.reach_wf [OF _ sane] by blast
qed

lemma neigh_groups: "length (the (co_groups rtnl_neigh_ops)) = 3" "co_groups rtnl_neigh_ops \<noteq> None" "co_protocol rtnl_neigh_ops = 0"
  by (simp_all add: rtnl_neigh_ops_def)

text \<open>A socket whose user state is the queue of datagrams.\<close>

definition queue_layer :: "(unit, 'd, byte list list) link_layer" where
  "queue_layer = \<lparr>ll_fuel = 3,
     ll_recv = (\<lambda>sk s. case s of
        Inr (h, d # ds) \<Rightarrow> Some ((blen d, no_addr, d, None), sk, Inr (h, ds))
      | _ \<Rightarrow> Some ((-4, no_addr, [], None), sk, s)),
     ll_clone = True, ll_mem = True, ll_cb = the (nl_cb_alloc True NL_CB_DEFAULT)\<rparr>"

lemma queue_layer_serves: "serves_queue id queue_layer"
  unfolding serves_queue_def queue_layer_def nl_cb_alloc_default by (simp add: wf_cb_def quiet_def cb_consts)

abbreviation neigh_dump :: "byte list list" where
  "neigh_dump \<equiv> [neigh_msg 1 2 @ neigh_msg 2 2, neigh_msg 1 4]"

lemma neigh_dump_complete: "complete_dump neigh_keyed (neigh_decode 0 (\<lambda>_. None)) rtnl_neigh_ops 5 neigh_dump done_msg"
  by code_simp

text \<open>
  C1. A resynchronisation makes a cache mirror the kernel. Let the objects of the type be replaced
  and not merged by events, let the kernel answer the dump request of \<open>nl_cache_resync\<close> with
  datagrams of announcements followed by an end-of-dump message, and let the change callback only
  observe. Then \<open>nl_cache_resync\<close> returns 0, the heap of objects and caches stays well formed with
  all references given back, and the cache holds exactly the values that the kernel announced, an
  object announced twice once and with its last value, whatever the cache held before.
\<close>

theorem resync_mirrors_kernel:
  assumes parser: "object_parser ops i keyed kg parser decode alloc"
    and wf: "wf_heap ops keyed i cops h refs" "finite (dom (h_obj h))"
    and c: "h_cache h c = Some cache" "c_hashtable cache \<noteq> None" "c_flags cache AND NL_CACHE_AF_ITER = 0"
      "co_groups (cops (c_ops cache)) = None \<or> 2 \<le> length (the (co_groups (cops (c_ops cache))))"
      "s_proto sk = co_protocol (cops (c_ops cache))"
    and ll: "serves_queue q ll" "length ds < ll_fuel ll" "\<forall>p h. fst (allocs p h)" "\<forall>c p act u. q (g c p act u) = q u"
    and request: "\<forall>h. req c sk h u = Some (Inr (r, sk1, h, u1))" "0 \<le> r" "q u1 = ds @ [dn]"
    and answer: "complete_dump keyed decode (cops (c_ops cache)) (s_seq_expect sk1) ds dn"
  shows "\<exists>sk' h' u' cache'. nl_cache_resync ops cops allocs ll parser (Some req) (Suc fuel) (Some (observer g)) c sk h u =
      Some (Inr (0, sk', h', u')) \<and> wf_heap ops keyed i cops h' refs \<and> h_cache h' c = Some cache' \<and>
    cache_values h' cache' = announced ops decode (concat (map dgram_msgs ds))"
  using object_parser.resync_mirrors [where req = req and q = q and g = g and cops = cops, OF parser wf c ll request answer] .

theorem resync_mirrors_kernel_witness:
  "\<exists>sk' h' u' cache'. nl_cache_resync neigh_ops neigh_cops (\<lambda>_ _. (True, None)) queue_layer (neigh_parser 0 (\<lambda>_. None))
      (Some (\<lambda>c sk h u. Some (Inr (36, sk, h, neigh_dump @ [done_msg])))) 1 (Some (observer (\<lambda>_ _ _ u. u))) 0
      fresh_sock neigh_heap [] = Some (Inr (0, sk', h', u')) \<and>
    h_cache h' 0 = Some cache' \<and>
    map (\<lambda>x. (addr_bytes (the (n_dst (ce_data x))), n_state (ce_data x))) (cache_values h' cache') = [([10, 0, 0, 2], 2), ([10, 0, 0, 1], 4)]"
proof -
  have v: "map (\<lambda>x. (addr_bytes (the (n_dst (ce_data x))), n_state (ce_data x)))
      (announced neigh_ops (neigh_decode 0 (\<lambda>_. None)) (concat (map dgram_msgs neigh_dump))) = [([10, 0, 0, 2], 2), ([10, 0, 0, 1], 4)]"
    by code_simp
  have "\<exists>sk' h' u' cache'. nl_cache_resync neigh_ops neigh_cops (\<lambda>_ _. (True, None)) queue_layer (neigh_parser 0 (\<lambda>_. None))
      (Some (\<lambda>c sk h u. Some (Inr (36, sk, h, neigh_dump @ [done_msg])))) (Suc 0) (Some (observer (\<lambda>_ _ _ u. u))) 0
      fresh_sock neigh_heap [] = Some (Inr (0, sk', h', u')) \<and>
    wf_heap neigh_ops neigh_keyed 0 neigh_cops h' (\<lambda>_. 0) \<and> h_cache h' 0 = Some cache' \<and>
    cache_values h' cache' = announced neigh_ops (neigh_decode 0 (\<lambda>_. None)) (concat (map dgram_msgs neigh_dump))"
    by (rule resync_mirrors_kernel [OF neigh.object_parser_axioms neigh_heap_wf _ _ _ _ _ _ queue_layer_serves, where cache = neigh_cache
        and ds = neigh_dump and dn = done_msg and r = 36 and ?sk1.0 = fresh_sock and ?u1.0 = "neigh_dump @ [done_msg]"])
      (simp_all add: neigh_dump_complete neigh_heap_def neigh_cache_def nl_hash_table_alloc_def fresh_sock_def queue_layer_def neigh_groups)
  then show ?thesis using v by auto
qed

end
