(* ===== verification/Nl_Rule.thy ===== *)
theory Nl_Rule
  imports Nl_Neigh
begin

unbundle bit_operations_syntax

text \<open>
  The object type \<open>route/rule\<close> (\<open>lib/route/rule.c\<close>), the rules that select routing tables, and the helpers of
  \<open>lib/route/rtnl.c\<close>. Addresses are held by value, as in the model of neighbours; the names of interfaces
  are blocks of \<open>IFNAMSIZ\<close> bytes.
\<close>

section \<open>Requests and names of the routing family\<close>

definition nl_rtgen_request ::
  "'u sendfun \<Rightarrow> bool \<Rightarrow> bool \<Rightarrow> int \<Rightarrow> int \<Rightarrow> int \<Rightarrow> ('a, 'u) nl_cb \<Rightarrow> nl_sock \<Rightarrow> int \<Rightarrow> int \<Rightarrow> int \<Rightarrow> ports \<Rightarrow> 'u \<Rightarrow>
   (int \<times> nl_sock \<times> ports \<times> 'u) res" where
  "nl_rtgen_request sys_send a1 a2 dsz getpid t cb sk type family flags st u =
     and_then (nl_send_simple sys_send a1 a2 dsz getpid t cb sk type flags (Some (le_bytes 1 family)) st u)
       (\<lambda>(err, sk, st, u). Inr (if err \<ge> 0 then 0 else err, sk, st, u))"

definition rtntypes :: "trans_tbl list" where
  "rtntypes =
     [(0, ''unspec''), (1, ''unicast''), (2, ''local''), (3, ''broadcast''), (4, ''anycast''), (5, ''multicast''),
      (6, ''blackhole''), (7, ''unreachable''), (8, ''prohibit''), (9, ''throw''), (10, ''nat''), (11, ''xresolve'')]"

definition nl_rtntype2str :: "int \<Rightarrow> string \<Rightarrow> nat \<Rightarrow> string" where
  "nl_rtntype2str type buf len = type2str type buf len rtntypes"

definition nl_str2rtntype :: "string \<Rightarrow> int" where
  "nl_str2rtntype name = str2type name rtntypes"

definition scopes :: "trans_tbl list" where
  "scopes = [(255, ''nowhere''), (254, ''host''), (253, ''link''), (200, ''site''), (0, ''global'')]"

definition rtnl_scope2str :: "int \<Rightarrow> string \<Rightarrow> nat \<Rightarrow> string" where
  "rtnl_scope2str scope buf len = type2str scope buf len scopes"

definition rtnl_str2scope :: "string \<Rightarrow> int" where
  "rtnl_str2scope name = str2type name scopes"

text \<open>The macros work on \<open>uint32_t\<close>.\<close>

definition RTNL_REALM_FROM :: "int \<Rightarrow> int" where "RTNL_REALM_FROM realm = drop_bit 16 (u32 realm)"
definition RTNL_REALM_TO :: "int \<Rightarrow> int" where "RTNL_REALM_TO realm = u32 realm AND 0xFFFF"

definition RTNL_MAKE_REALM :: "int \<Rightarrow> int \<Rightarrow> int" where
  "RTNL_MAKE_REALM from to = u32 (push_bit 16 (RTNL_REALM_TO from)) AND RTNL_REALM_TO to"

definition rtnl_realms2str :: "int \<Rightarrow> string \<Rightarrow> nat \<Rightarrow> string" where
  "rtnl_realms2str realms buf len =
     snprintf buf len (show_dec (nat (RTNL_REALM_FROM realms)) @ ''/'' @ show_dec (nat (RTNL_REALM_TO realms)))"

section \<open>Data\<close>

definition RULE_ATTR_FAMILY :: int where "RULE_ATTR_FAMILY = 0x000001"
definition RULE_ATTR_TABLE :: int where "RULE_ATTR_TABLE = 0x000002"
definition RULE_ATTR_ACTION :: int where "RULE_ATTR_ACTION = 0x000004"
definition RULE_ATTR_FLAGS :: int where "RULE_ATTR_FLAGS = 0x000008"
definition RULE_ATTR_IIFNAME :: int where "RULE_ATTR_IIFNAME = 0x000010"
definition RULE_ATTR_OIFNAME :: int where "RULE_ATTR_OIFNAME = 0x000020"
definition RULE_ATTR_PRIO :: int where "RULE_ATTR_PRIO = 0x000040"
definition RULE_ATTR_MARK :: int where "RULE_ATTR_MARK = 0x000080"
definition RULE_ATTR_MASK :: int where "RULE_ATTR_MASK = 0x000100"
definition RULE_ATTR_GOTO :: int where "RULE_ATTR_GOTO = 0x000200"
definition RULE_ATTR_SRC :: int where "RULE_ATTR_SRC = 0x000400"
definition RULE_ATTR_DST :: int where "RULE_ATTR_DST = 0x000800"
definition RULE_ATTR_DSFIELD :: int where "RULE_ATTR_DSFIELD = 0x001000"
definition RULE_ATTR_FLOW :: int where "RULE_ATTR_FLOW = 0x002000"
definition RULE_ATTR_L3MDEV :: int where "RULE_ATTR_L3MDEV = 0x004000"
definition RULE_ATTR_PROTOCOL :: int where "RULE_ATTR_PROTOCOL = 0x008000"
definition RULE_ATTR_IP_PROTO :: int where "RULE_ATTR_IP_PROTO = 0x010000"
definition RULE_ATTR_SPORT :: int where "RULE_ATTR_SPORT = 0x020000"
definition RULE_ATTR_DPORT :: int where "RULE_ATTR_DPORT = 0x040000"

lemmas rule_attr_defs = RULE_ATTR_FAMILY_def RULE_ATTR_TABLE_def RULE_ATTR_ACTION_def RULE_ATTR_FLAGS_def
  RULE_ATTR_IIFNAME_def RULE_ATTR_OIFNAME_def RULE_ATTR_PRIO_def RULE_ATTR_MARK_def RULE_ATTR_MASK_def
  RULE_ATTR_GOTO_def RULE_ATTR_SRC_def RULE_ATTR_DST_def RULE_ATTR_DSFIELD_def RULE_ATTR_FLOW_def
  RULE_ATTR_L3MDEV_def RULE_ATTR_PROTOCOL_def RULE_ATTR_IP_PROTO_def RULE_ATTR_SPORT_def RULE_ATTR_DPORT_def

definition RTM_NEWRULE :: int where "RTM_NEWRULE = 32"
definition RTM_DELRULE :: int where "RTM_DELRULE = 33"
definition RTM_GETRULE :: int where "RTM_GETRULE = 34"
definition FRA_MAX :: int where "FRA_MAX = 24"
definition IFNAMSIZ :: int where "IFNAMSIZ = 16"
definition NLM_F_CREATE :: int where "NLM_F_CREATE = 0x400"

record fib_rule_port_range =
  pr_start :: int
  pr_end :: int

record rtnl_rule =
  r_family :: int
  r_action :: int
  r_dsfield :: int
  r_l3mdev :: int
  r_protocol :: int
  r_ip_proto :: int
  r_table :: int
  r_flags :: int
  r_prio :: int
  r_mark :: int
  r_mask :: int
  r_goto :: int
  r_flow :: int
  r_src :: "nl_addr option"
  r_dst :: "nl_addr option"
  r_iifname :: "byte list"
  r_oifname :: "byte list"
  r_sport :: fib_rule_port_range
  r_dport :: fib_rule_port_range

type_synonym rule_obj = "rtnl_rule nl_object"

section \<open>The operations of the type\<close>

definition rule_free_data :: "rtnl_rule \<Rightarrow> (nl_addr option \<times> nl_addr option) res" where
  "rule_free_data r =
     and_then (nl_addr_put (r_src r)) (\<lambda>src. and_then (nl_addr_put (r_dst r)) (\<lambda>dst. Inr (src, dst)))"

definition rule_clone :: "bool \<Rightarrow> bool \<Rightarrow> rule_obj \<Rightarrow> rule_obj \<Rightarrow> int \<times> rule_obj" where
  "rule_clone a1 a2 dst src =
     (case (case r_src (ce_data src) of None \<Rightarrow> Some dst
            | Some l \<Rightarrow> map_option (\<lambda>l'. dst\<lparr>ce_data := (ce_data dst)\<lparr>r_src := Some l'\<rparr>\<rparr>) (nl_addr_clone a1 l)) of
        None \<Rightarrow> (neg_err NLE_NOMEM, dst\<lparr>ce_data := (ce_data dst)\<lparr>r_src := None\<rparr>\<rparr>)
      | Some dst \<Rightarrow>
          (case r_dst (ce_data src) of None \<Rightarrow> (0, dst)
           | Some d \<Rightarrow>
               (case nl_addr_clone a2 d of
                  None \<Rightarrow> (neg_err NLE_NOMEM, dst\<lparr>ce_data := (ce_data dst)\<lparr>r_dst := None\<rparr>\<rparr>)
                | Some d' \<Rightarrow> (0, dst\<lparr>ce_data := (ce_data dst)\<lparr>r_dst := Some d'\<rparr>\<rparr>))))"

text \<open>The text in a block of bytes; \<open>strcmp\<close> compares the texts.\<close>

definition text_of :: "byte list \<Rightarrow> byte list" where
  "text_of s = takeWhile (\<lambda>c. c \<noteq> 0) s"

definition rule_compare :: "rule_obj \<Rightarrow> rule_obj \<Rightarrow> int \<Rightarrow> int \<Rightarrow> int" where
  "rule_compare oa ob attrs flags =
     (let a = ce_data oa; b = ce_data ob; d = (\<lambda>attr expr. ATTR_DIFF attrs attr oa ob expr) in
      d RULE_ATTR_FAMILY (r_family a \<noteq> r_family b) OR
      d RULE_ATTR_TABLE (r_table a \<noteq> r_table b) OR
      d RULE_ATTR_ACTION (r_action a \<noteq> r_action b) OR
      d RULE_ATTR_IIFNAME (text_of (r_iifname a) \<noteq> text_of (r_iifname b)) OR
      d RULE_ATTR_OIFNAME (text_of (r_oifname a) \<noteq> text_of (r_oifname b)) OR
      d RULE_ATTR_PRIO (r_prio a \<noteq> r_prio b) OR
      d RULE_ATTR_MARK (r_mark a \<noteq> r_mark b) OR
      d RULE_ATTR_MASK (r_mask a \<noteq> r_mask b) OR
      d RULE_ATTR_GOTO (r_goto a \<noteq> r_goto b) OR
      d RULE_ATTR_SRC (addr_differs (r_src a) (r_src b)) OR
      d RULE_ATTR_DST (addr_differs (r_dst a) (r_dst b)) OR
      d RULE_ATTR_DSFIELD (r_dsfield a \<noteq> r_dsfield b) OR
      d RULE_ATTR_FLOW (r_flow a \<noteq> r_flow b))"

definition no_port_range :: fib_rule_port_range where "no_port_range = \<lparr>pr_start = 0, pr_end = 0\<rparr>"

definition rule_obj_ops :: "rtnl_rule nl_object_ops" where
  "rule_obj_ops =
     \<lparr>oo_name = ''route/rule'', oo_size = 152, oo_id_attrs = NOT 0,
      oo_zero = \<lparr>r_family = 0, r_action = 0, r_dsfield = 0, r_l3mdev = 0, r_protocol = 0, r_ip_proto = 0, r_table = 0,
        r_flags = 0, r_prio = 0, r_mark = 0, r_mask = 0, r_goto = 0, r_flow = 0, r_src = None, r_dst = None,
        r_iifname = zeros IFNAMSIZ, r_oifname = zeros IFNAMSIZ, r_sport = no_port_range, r_dport = no_port_range\<rparr>,
      oo_constructor = None, oo_free_data = True, oo_clone = Some (rule_clone True True),
      oo_compare = Some rule_compare, oo_update = None, oo_keygen = None, oo_id_attrs_get = None\<rparr>"

definition rtnl_rule_ops :: nl_cache_ops where
  "rtnl_rule_ops =
     \<lparr>co_name = Some ''route/rule'', co_hdrsize = 12, co_protocol = 0, co_hash_size = 0, co_flags = 0,
      co_groups = Some [(AF_INET, 8), (AF_INET6, 19), (0, 0)], co_obj_ops = Some 0,
      co_msgtypes = [\<lparr>mt_id = RTM_NEWRULE, mt_act = NL_ACT_NEW, mt_name = ''new''\<rparr>,
        \<lparr>mt_id = RTM_DELRULE, mt_act = NL_ACT_DEL, mt_name = ''del''\<rparr>,
        \<lparr>mt_id = RTM_GETRULE, mt_act = 3, mt_name = ''get''\<rparr>,
        \<lparr>mt_id = -1, mt_act = -1, mt_name = []\<rparr>]\<rparr>"

definition rule_attrs :: "trans_tbl list" where
  "rule_attrs =
     [(RULE_ATTR_FAMILY, ''family''), (RULE_ATTR_TABLE, ''table''), (RULE_ATTR_ACTION, ''action''),
      (RULE_ATTR_IIFNAME, ''iifname''), (RULE_ATTR_OIFNAME, ''oifname''), (RULE_ATTR_PRIO, ''prio''),
      (RULE_ATTR_MARK, ''mark''), (RULE_ATTR_MASK, ''mask''), (RULE_ATTR_GOTO, ''goto''), (RULE_ATTR_SRC, ''src''),
      (RULE_ATTR_DST, ''dst''), (RULE_ATTR_DSFIELD, ''dsfield''), (RULE_ATTR_FLOW, ''flow'')]"

definition rule_attrs2str :: "int \<Rightarrow> string \<Rightarrow> nat \<Rightarrow> string res" where
  "rule_attrs2str attrs buf len = flags2str attrs buf len rule_attrs"

section \<open>Parsing\<close>

definition rule_policy :: "nla_policy list" where
  "rule_policy =
     (let pol = (\<lambda>t mi ma. \<lparr>pol_type = t, pol_minlen = mi, pol_maxlen = ma\<rparr>); u32 = pol NLA_U32 0 0; u8 = pol NLA_U8 0 0 in
      (replicate 25 (pol NLA_UNSPEC 0 0))
        [15 := u32, 3 := pol NLA_STRING 0 IFNAMSIZ, 17 := pol NLA_STRING 0 IFNAMSIZ, 6 := u32, 10 := u32, 16 := u32, 4 := u32,
         11 := u32, 19 := u8, 21 := u8, 22 := u8, 23 := pol NLA_UNSPEC 4 4, 24 := pol NLA_UNSPEC 4 4])"

text \<open>The assignments from \<open>struct fib_rule_hdr\<close>.\<close>

definition rule_from_hdr :: "byte list \<Rightarrow> int \<Rightarrow> rule_obj \<Rightarrow> rule_obj" where
  "rule_from_hdr buf frh obj =
     (let r = (ce_data obj)\<lparr>r_family := le_int (rd buf frh 1), r_table := le_int (rd buf (frh + 4) 1),
                r_action := le_int (rd buf (frh + 7) 1), r_flags := get32 buf (frh + 8)\<rparr>;
          tos = le_int (rd buf (frh + 3) 1) in
      obj\<lparr>ce_data := (if tos \<noteq> 0 then r\<lparr>r_dsfield := tos\<rparr> else r),
          ce_mask := RULE_ATTR_FAMILY OR RULE_ATTR_ACTION OR RULE_ATTR_FLAGS OR
            (if r_table r \<noteq> 0 then RULE_ATTR_TABLE else 0) OR (if tos \<noteq> 0 then RULE_ATTR_DSFIELD else 0)\<rparr>)"

text \<open>One block \<open>if (tb[...]) { ...; rule->ce_mask |= ...; }\<close>.\<close>

definition if_attr :: "int option \<Rightarrow> int \<Rightarrow> (int \<Rightarrow> 'd \<Rightarrow> 'd) \<Rightarrow> 'd nl_object \<Rightarrow> 'd nl_object" where
  "if_attr attr flag upd obj =
     (case attr of None \<Rightarrow> obj
      | Some p \<Rightarrow> obj\<lparr>ce_data := upd p (ce_data obj), ce_mask := ce_mask obj OR flag\<rparr>)"

text \<open>The table attribute sets its flag only for tables other than 0.\<close>

definition rule_table :: "byte list \<Rightarrow> int option \<Rightarrow> rule_obj \<Rightarrow> rule_obj" where
  "rule_table buf attr obj =
     (case attr of None \<Rightarrow> obj
      | Some p \<Rightarrow> obj\<lparr>ce_data := (ce_data obj)\<lparr>r_table := nla_get_u32 buf p\<rparr>,
          ce_mask := (if nla_get_u32 buf p \<noteq> 0 then ce_mask obj OR RULE_ATTR_TABLE else ce_mask obj)\<rparr>)"

definition rule_addr :: "byte list \<Rightarrow> int \<Rightarrow> int \<Rightarrow> int \<Rightarrow> nl_addr" where
  "rule_addr buf p family plen = nl_addr_set_prefixlen (the (nl_addr_alloc_attr True buf p family)) plen"

definition rule_ports :: "byte list \<Rightarrow> int \<Rightarrow> fib_rule_port_range" where
  "rule_ports buf p = \<lparr>pr_start = get16 buf (nla_data p), pr_end = get16 buf (nla_data p + 2)\<rparr>"

text \<open>All attributes, if no allocation fails.\<close>

definition rule_fill :: "byte list \<Rightarrow> int \<Rightarrow> int option list \<Rightarrow> rule_obj \<Rightarrow> rule_obj" where
  "rule_fill buf off tb obj =
     (let frh = nlmsg_data off;
          family = le_int (rd buf frh 1);
          obj = obj\<lparr>ce_msgtype := nlmsg_type (nlh buf off)\<rparr>;
          obj = rule_from_hdr buf frh obj;
          obj = rule_table buf (tb ! 15) obj;
          obj = if_attr (tb ! 3) RULE_ATTR_IIFNAME (\<lambda>p r. r\<lparr>r_iifname := fst (nla_strlcpy (r_iifname r) buf p IFNAMSIZ)\<rparr>) obj;
          obj = if_attr (tb ! 17) RULE_ATTR_OIFNAME (\<lambda>p r. r\<lparr>r_oifname := fst (nla_strlcpy (r_oifname r) buf p IFNAMSIZ)\<rparr>) obj;
          obj = if_attr (tb ! 6) RULE_ATTR_PRIO (\<lambda>p r. r\<lparr>r_prio := nla_get_u32 buf p\<rparr>) obj;
          obj = if_attr (tb ! 10) RULE_ATTR_MARK (\<lambda>p r. r\<lparr>r_mark := nla_get_u32 buf p\<rparr>) obj;
          obj = if_attr (tb ! 16) RULE_ATTR_MASK (\<lambda>p r. r\<lparr>r_mask := nla_get_u32 buf p\<rparr>) obj;
          obj = if_attr (tb ! 4) RULE_ATTR_GOTO (\<lambda>p r. r\<lparr>r_goto := nla_get_u32 buf p\<rparr>) obj;
          obj = if_attr (tb ! 2) RULE_ATTR_SRC (\<lambda>p r. r\<lparr>r_src := Some (rule_addr buf p family (le_int (rd buf (frh + 2) 1)))\<rparr>) obj;
          obj = if_attr (tb ! 1) RULE_ATTR_DST (\<lambda>p r. r\<lparr>r_dst := Some (rule_addr buf p family (le_int (rd buf (frh + 1) 1)))\<rparr>) obj;
          obj = if_attr (tb ! 11) RULE_ATTR_FLOW (\<lambda>p r. r\<lparr>r_flow := nla_get_u32 buf p\<rparr>) obj;
          obj = if_attr (tb ! 19) RULE_ATTR_L3MDEV (\<lambda>p r. r\<lparr>r_l3mdev := nla_get_u8 buf p\<rparr>) obj;
          obj = if_attr (tb ! 21) RULE_ATTR_PROTOCOL (\<lambda>p r. r\<lparr>r_protocol := nla_get_u8 buf p\<rparr>) obj;
          obj = if_attr (tb ! 22) RULE_ATTR_IP_PROTO (\<lambda>p r. r\<lparr>r_ip_proto := nla_get_u8 buf p\<rparr>) obj;
          obj = if_attr (tb ! 23) RULE_ATTR_SPORT (\<lambda>p r. r\<lparr>r_sport := rule_ports buf p\<rparr>) obj
      in if_attr (tb ! 24) RULE_ATTR_DPORT (\<lambda>p r. r\<lparr>r_dport := rule_ports buf p\<rparr>) obj)"

text \<open>
  The parser: \<open>a\<close> is the allocation of the object, \<open>a1\<close> and \<open>a2\<close> those of the source and destination
  address. In case of an error the object is released.
\<close>

definition rule_msg_parser ::
  "nat option \<Rightarrow> bool \<Rightarrow> bool \<Rightarrow> byte list \<Rightarrow> int \<Rightarrow> (rtnl_rule, 'u) pp_cb \<Rightarrow> rtnl_rule heap \<Rightarrow> 'u \<Rightarrow>
   (int \<times> rtnl_rule heap \<times> 'u) res" where
  "rule_msg_parser a a1 a2 buf off pp_cb h u =
     (let ops = (\<lambda>_. rule_obj_ops) in
      and_then (nl_object_alloc ops a 0 h) (\<lambda>(new, h).
      case new of
        None \<Rightarrow> Inr (neg_err NLE_NOMEM, h, u)
      | Some p \<Rightarrow>
          (let errout = (\<lambda>err h u. and_then (nl_object_put ops (Some p) h) (\<lambda>h. Inr (err, h, u))) in
           case nlmsg_parse buf off 12 FRA_MAX (Some rule_policy) of
             (_, Inl (Err e)) \<Rightarrow> errout (neg_err e) h u
           | (_, Inl f) \<Rightarrow> Inl f
           | (None, Inr _) \<Rightarrow> Inl Undef
           | (Some tb, Inr _) \<Rightarrow>
               if (tb ! 2 \<noteq> None \<and> \<not> a1) \<or> (tb ! 1 \<noteq> None \<and> \<not> a2) then errout (neg_err NLE_NOMEM) h u
               else
                 and_then (deref (h_obj h) p) (\<lambda>obj.
                 and_then (pp_cb p (set_obj p (rule_fill buf off tb obj) h) u) (\<lambda>(err, h, u). errout err h u)))))"

section \<open>Requests\<close>

definition rule_request_update ::
  "'u sendfun \<Rightarrow> bool \<Rightarrow> bool \<Rightarrow> int \<Rightarrow> int \<Rightarrow> int \<Rightarrow> ('a, 'u) nl_cb \<Rightarrow> nl_cache \<Rightarrow> nl_sock \<Rightarrow> ports \<Rightarrow> 'u \<Rightarrow>
   (int \<times> nl_sock \<times> ports \<times> 'u) res" where
  "rule_request_update sys_send a1 a2 dsz getpid t cb c sk st u =
     nl_rtgen_request sys_send a1 a2 dsz getpid t cb sk RTM_GETRULE AF_UNSPEC NLM_F_DUMP st u"

text \<open>A part of the message that depends on a flag, and the length of a prefix that does.\<close>

definition put_if :: "bool \<Rightarrow> (nl_msg \<Rightarrow> nl_msg res) \<Rightarrow> nl_msg \<Rightarrow> nl_msg res" where
  "put_if b put msg = (if b then put msg else Inr msg)"

definition prefix_if :: "bool \<Rightarrow> nl_addr option \<Rightarrow> int res" where
  "prefix_if b addr =
     (if \<not> b then Inr 0 else case addr of None \<Rightarrow> Inl Undef | Some a \<Rightarrow> Inr (nl_addr_get_prefixlen a))"

text \<open>\<open>struct fib_rule_hdr\<close> as the code fills it in.\<close>

definition rule_hdr :: "rtnl_rule \<Rightarrow> int \<Rightarrow> int \<Rightarrow> byte list" where
  "rule_hdr r src_len dst_len =
     le_bytes 1 (r_family r) @ le_bytes 1 dst_len @ le_bytes 1 src_len @ le_bytes 1 (r_dsfield r) @
     le_bytes 1 (r_table r) @ zeros 2 @ le_bytes 1 (r_action r) @ le_bytes 4 (r_flags r)"

definition ports_bytes :: "fib_rule_port_range \<Rightarrow> byte list" where
  "ports_bytes pr = le_bytes 2 (pr_start pr) @ le_bytes 2 (pr_end pr)"

text \<open>On failure the message, to which nobody else has a reference, is freed.\<close>

definition build_rule_msg :: "bool \<Rightarrow> bool \<Rightarrow> int \<Rightarrow> rule_obj \<Rightarrow> int \<Rightarrow> int \<Rightarrow> nl_msg res" where
  "build_rule_msg a1 a2 dsz tmpl cmd flags =
     (let r = ce_data tmpl; has = (\<lambda>attr. ce_mask tmpl AND attr \<noteq> 0) in
      if \<not> has RULE_ATTR_FAMILY then Inl (Err NLE_MISSING_ATTR)
      else case nlmsg_alloc_simple a1 a2 dsz cmd flags of
        None \<Rightarrow> Inl (Err NLE_NOMEM)
      | Some msg \<Rightarrow>
          and_then (prefix_if (has RULE_ATTR_SRC) (r_src r)) (\<lambda>src_len.
          and_then (prefix_if (has RULE_ATTR_DST) (r_dst r)) (\<lambda>dst_len.
          and_then (put_or_msgsize (nlmsg_append msg (rule_hdr r src_len dst_len) 4)) (\<lambda>msg.
          and_then (put_or_msgsize (nla_put_u32 msg 15 (r_table r))) (\<lambda>msg.
          and_then (put_if (has RULE_ATTR_SRC) (\<lambda>msg. NLA_PUT_ADDR msg 2 (r_src r)) msg) (\<lambda>msg.
          and_then (put_if (has RULE_ATTR_DST) (\<lambda>msg. NLA_PUT_ADDR msg 1 (r_dst r)) msg) (\<lambda>msg.
          and_then (put_if (has RULE_ATTR_IIFNAME) (\<lambda>msg. put_or_msgsize (nla_put_string msg 3 (r_iifname r))) msg) (\<lambda>msg.
          and_then (put_if (has RULE_ATTR_OIFNAME) (\<lambda>msg. put_or_msgsize (nla_put_string msg 17 (r_oifname r))) msg) (\<lambda>msg.
          and_then (put_if (has RULE_ATTR_PRIO) (\<lambda>msg. put_or_msgsize (nla_put_u32 msg 6 (r_prio r))) msg) (\<lambda>msg.
          and_then (put_if (has RULE_ATTR_MARK) (\<lambda>msg. put_or_msgsize (nla_put_u32 msg 10 (r_mark r))) msg) (\<lambda>msg.
          and_then (put_if (has RULE_ATTR_MASK) (\<lambda>msg. put_or_msgsize (nla_put_u32 msg 16 (r_mask r))) msg) (\<lambda>msg.
          and_then (put_if (has RULE_ATTR_GOTO) (\<lambda>msg. put_or_msgsize (nla_put_u32 msg 4 (r_goto r))) msg) (\<lambda>msg.
          and_then (put_if (has RULE_ATTR_FLOW) (\<lambda>msg. put_or_msgsize (nla_put_u32 msg 11 (r_flow r))) msg) (\<lambda>msg.
          and_then (put_if (has RULE_ATTR_L3MDEV) (\<lambda>msg. put_or_msgsize (nla_put_u8 msg 19 (r_l3mdev r))) msg) (\<lambda>msg.
          and_then (put_if (has RULE_ATTR_IP_PROTO) (\<lambda>msg. put_or_msgsize (nla_put_u8 msg 22 (r_ip_proto r))) msg) (\<lambda>msg.
          and_then (put_if (has RULE_ATTR_SPORT) (\<lambda>msg. put_or_msgsize (nla_put msg 23 4 (ports_bytes (r_sport r)))) msg) (\<lambda>msg.
          and_then (put_if (has RULE_ATTR_DPORT) (\<lambda>msg. put_or_msgsize (nla_put msg 24 4 (ports_bytes (r_dport r)))) msg) (\<lambda>msg.
            put_if (has RULE_ATTR_PROTOCOL) (\<lambda>msg. put_or_msgsize (nla_put_u8 msg 21 (r_protocol r))) msg))))))))))))))))))"

definition rtnl_rule_build_add_request :: "bool \<Rightarrow> bool \<Rightarrow> int \<Rightarrow> rule_obj \<Rightarrow> int \<Rightarrow> nl_msg res" where
  "rtnl_rule_build_add_request a1 a2 dsz tmpl flags = build_rule_msg a1 a2 dsz tmpl RTM_NEWRULE (NLM_F_CREATE OR flags)"

definition rtnl_rule_build_delete_request :: "bool \<Rightarrow> bool \<Rightarrow> int \<Rightarrow> rule_obj \<Rightarrow> int \<Rightarrow> nl_msg res" where
  "rtnl_rule_build_delete_request a1 a2 dsz rule flags = build_rule_msg a1 a2 dsz rule RTM_DELRULE flags"

definition rtnl_rule_add ::
  "nat \<Rightarrow> 'u sendfun \<Rightarrow> (nl_sock \<Rightarrow> 'u \<Rightarrow> (recv_result \<times> nl_sock \<times> 'u) option) \<Rightarrow> bool \<Rightarrow> bool \<Rightarrow> bool \<Rightarrow> bool \<Rightarrow> int \<Rightarrow>
   int \<Rightarrow> int \<Rightarrow> ('a, 'u) nl_cb \<Rightarrow> nl_sock \<Rightarrow> rule_obj \<Rightarrow> int \<Rightarrow> ports \<Rightarrow> 'u \<Rightarrow>
   ((int \<times> nl_sock \<times> 'u) option \<times> ports) res" where
  "rtnl_rule_add fuel sys_send recv a1 a2 b1 b2 dsz getpid t cb sk tmpl flags st u =
     send_built fuel sys_send recv b1 b2 getpid t cb (rtnl_rule_build_add_request a1 a2 dsz tmpl flags) sk st u"

definition rtnl_rule_delete ::
  "nat \<Rightarrow> 'u sendfun \<Rightarrow> (nl_sock \<Rightarrow> 'u \<Rightarrow> (recv_result \<times> nl_sock \<times> 'u) option) \<Rightarrow> bool \<Rightarrow> bool \<Rightarrow> bool \<Rightarrow> bool \<Rightarrow> int \<Rightarrow>
   int \<Rightarrow> int \<Rightarrow> ('a, 'u) nl_cb \<Rightarrow> nl_sock \<Rightarrow> rule_obj \<Rightarrow> int \<Rightarrow> ports \<Rightarrow> 'u \<Rightarrow>
   ((int \<times> nl_sock \<times> 'u) option \<times> ports) res" where
  "rtnl_rule_delete fuel sys_send recv a1 a2 b1 b2 dsz getpid t cb sk rule flags st u =
     send_built fuel sys_send recv b1 b2 getpid t cb (rtnl_rule_build_delete_request a1 a2 dsz rule flags) sk st u"

section \<open>Caches\<close>

text \<open>After a failed dump the cache is released with \<open>free\<close>: its objects stay behind.\<close>

definition rtnl_rule_alloc_cache ::
  "cops \<Rightarrow> (nat \<Rightarrow> nl_sock \<Rightarrow> rtnl_rule heap \<Rightarrow> 'u \<Rightarrow> (rtnl_rule, 'u) synced) \<Rightarrow> nat option \<Rightarrow> bool \<Rightarrow> bool \<Rightarrow>
   nat \<Rightarrow> nl_sock option \<Rightarrow> int \<Rightarrow> rtnl_rule heap \<Rightarrow> 'u \<Rightarrow>
   (int \<times> nat option \<times> nl_sock option \<times> rtnl_rule heap \<times> 'u) res option" where
  "rtnl_rule_alloc_cache cops refill a a1 a2 i sk family h u =
     (case nl_cache_alloc (\<lambda>_. rule_obj_ops) cops a a1 a2 i h of
        Inl f \<Rightarrow> Some (Inl f)
      | Inr (None, h) \<Rightarrow> Some (Inr (neg_err NLE_NOMEM, None, sk, h, u))
      | Inr (Some c, h) \<Rightarrow>
          (case h_cache h c of
             None \<Rightarrow> Some (Inl Undef)
           | Some cache \<Rightarrow>
               (let h = set_cache c (cache\<lparr>c_iarg1 := family\<rparr>) h in
                case sk of
                  None \<Rightarrow> Some (Inr (0, Some c, None, h, u))
                | Some s \<Rightarrow>
                    (case refill c s h u of
                       None \<Rightarrow> None
                     | Some (Inl f) \<Rightarrow> Some (Inl f)
                     | Some (Inr (err, s, h, u)) \<Rightarrow>
                         if err < 0 then Some (Inr (err, None, Some s, h\<lparr>h_cache := (h_cache h)(c := None)\<rparr>, u))
                         else Some (Inr (0, Some c, Some s, h, u))))))"

section \<open>Attributes\<close>

text \<open>\<open>rule->... = ...; rule->ce_mask |= flag\<close>, and the opposite, which keeps the lower half of the mask only.\<close>

abbreviation set_rule :: "int \<Rightarrow> (rtnl_rule \<Rightarrow> rtnl_rule) \<Rightarrow> rule_obj \<Rightarrow> rule_obj" where
  "set_rule flag upd rule \<equiv> rule\<lparr>ce_data := upd (ce_data rule), ce_mask := ce_mask rule OR flag\<rparr>"

abbreviation unset_rule :: "int \<Rightarrow> (rtnl_rule \<Rightarrow> rtnl_rule) \<Rightarrow> rule_obj \<Rightarrow> rule_obj" where
  "unset_rule flag upd rule \<equiv> rule\<lparr>ce_data := upd (ce_data rule), ce_mask := ce_mask rule AND u32 (NOT flag)\<rparr>"

definition rtnl_rule_set_family :: "rule_obj \<Rightarrow> int \<Rightarrow> rule_obj" where
  "rtnl_rule_set_family rule family = set_rule RULE_ATTR_FAMILY (r_family_update (\<lambda>_. u8 family)) rule"

definition rtnl_rule_get_family :: "rule_obj \<Rightarrow> int" where
  "rtnl_rule_get_family rule = (if ce_mask rule AND RULE_ATTR_FAMILY \<noteq> 0 then r_family (ce_data rule) else AF_UNSPEC)"

definition rtnl_rule_set_prio :: "rule_obj \<Rightarrow> int \<Rightarrow> rule_obj" where
  "rtnl_rule_set_prio rule prio = set_rule RULE_ATTR_PRIO (r_prio_update (\<lambda>_. u32 prio)) rule"

definition rtnl_rule_get_prio :: "rule_obj \<Rightarrow> int" where
  "rtnl_rule_get_prio rule = r_prio (ce_data rule)"

definition rtnl_rule_set_mark :: "rule_obj \<Rightarrow> int \<Rightarrow> rule_obj" where
  "rtnl_rule_set_mark rule mark = set_rule RULE_ATTR_MARK (r_mark_update (\<lambda>_. u32 mark)) rule"

definition rtnl_rule_get_mark :: "rule_obj \<Rightarrow> int" where
  "rtnl_rule_get_mark rule = r_mark (ce_data rule)"

definition rtnl_rule_set_mask :: "rule_obj \<Rightarrow> int \<Rightarrow> rule_obj" where
  "rtnl_rule_set_mask rule msk = set_rule RULE_ATTR_MASK (r_mask_update (\<lambda>_. u32 msk)) rule"

definition rtnl_rule_get_mask :: "rule_obj \<Rightarrow> int" where
  "rtnl_rule_get_mask rule = r_mask (ce_data rule)"

definition rtnl_rule_set_table :: "rule_obj \<Rightarrow> int \<Rightarrow> rule_obj" where
  "rtnl_rule_set_table rule table = set_rule RULE_ATTR_TABLE (r_table_update (\<lambda>_. u32 table)) rule"

definition rtnl_rule_get_table :: "rule_obj \<Rightarrow> int" where
  "rtnl_rule_get_table rule = r_table (ce_data rule)"

definition rtnl_rule_set_dsfield :: "rule_obj \<Rightarrow> int \<Rightarrow> rule_obj" where
  "rtnl_rule_set_dsfield rule dsfield = set_rule RULE_ATTR_DSFIELD (r_dsfield_update (\<lambda>_. u8 dsfield)) rule"

definition rtnl_rule_get_dsfield :: "rule_obj \<Rightarrow> int" where
  "rtnl_rule_get_dsfield rule = r_dsfield (ce_data rule)"

text \<open>\<open>__assign_addr\<close> without the reference counts; \<open>upd\<close> stores through \<open>pos\<close>.\<close>

definition rule_assign_addr ::
  "rule_obj \<Rightarrow> (nl_addr option \<Rightarrow> rtnl_rule \<Rightarrow> rtnl_rule) \<Rightarrow> nl_addr \<Rightarrow> int \<Rightarrow> int \<times> rule_obj" where
  "rule_assign_addr rule upd new flag =
     (let known = ce_mask rule AND RULE_ATTR_FAMILY \<noteq> 0 in
      if known \<and> a_family new \<noteq> r_family (ce_data rule) then (neg_err NLE_AF_MISMATCH, rule)
      else
        let r = (if known then ce_data rule else (ce_data rule)\<lparr>r_family := u8 (a_family new)\<rparr>)
        in (0, rule\<lparr>ce_data := upd (Some new) r, ce_mask := ce_mask rule OR (flag OR RULE_ATTR_FAMILY)\<rparr>))"

definition rtnl_rule_set_src :: "rule_obj \<Rightarrow> nl_addr \<Rightarrow> int \<times> rule_obj" where
  "rtnl_rule_set_src rule src = rule_assign_addr rule (\<lambda>x. r_src_update (\<lambda>_. x)) src RULE_ATTR_SRC"

definition rtnl_rule_get_src :: "rule_obj \<Rightarrow> nl_addr option" where
  "rtnl_rule_get_src rule = r_src (ce_data rule)"

definition rtnl_rule_set_dst :: "rule_obj \<Rightarrow> nl_addr \<Rightarrow> int \<times> rule_obj" where
  "rtnl_rule_set_dst rule dst = rule_assign_addr rule (\<lambda>x. r_dst_update (\<lambda>_. x)) dst RULE_ATTR_DST"

definition rtnl_rule_get_dst :: "rule_obj \<Rightarrow> nl_addr option" where
  "rtnl_rule_get_dst rule = r_dst (ce_data rule)"

text \<open>\<open>dev\<close> is the text without its terminator.\<close>

definition rtnl_rule_set_iif :: "rule_obj \<Rightarrow> byte list \<Rightarrow> int \<times> rule_obj" where
  "rtnl_rule_set_iif rule dev =
     (if blen dev > IFNAMSIZ - 1 then (neg_err NLE_RANGE, rule)
      else (0, set_rule RULE_ATTR_IIFNAME (\<lambda>r. r\<lparr>r_iifname := wr (r_iifname r) 0 (dev @ [0])\<rparr>) rule))"

definition rtnl_rule_get_iif :: "rule_obj \<Rightarrow> byte list option" where
  "rtnl_rule_get_iif rule =
     (if ce_mask rule AND RULE_ATTR_IIFNAME \<noteq> 0 then Some (text_of (r_iifname (ce_data rule))) else None)"

definition rtnl_rule_set_oif :: "rule_obj \<Rightarrow> byte list \<Rightarrow> int \<times> rule_obj" where
  "rtnl_rule_set_oif rule dev =
     (if blen dev > IFNAMSIZ - 1 then (neg_err NLE_RANGE, rule)
      else (0, set_rule RULE_ATTR_OIFNAME (\<lambda>r. r\<lparr>r_oifname := wr (r_oifname r) 0 (dev @ [0])\<rparr>) rule))"

definition rtnl_rule_get_oif :: "rule_obj \<Rightarrow> byte list option" where
  "rtnl_rule_get_oif rule =
     (if ce_mask rule AND RULE_ATTR_OIFNAME \<noteq> 0 then Some (text_of (r_oifname (ce_data rule))) else None)"

definition rtnl_rule_set_action :: "rule_obj \<Rightarrow> int \<Rightarrow> rule_obj" where
  "rtnl_rule_set_action rule action = set_rule RULE_ATTR_ACTION (r_action_update (\<lambda>_. u8 action)) rule"

definition rtnl_rule_get_action :: "rule_obj \<Rightarrow> int" where
  "rtnl_rule_get_action rule = r_action (ce_data rule)"

definition rtnl_rule_set_l3mdev :: "rule_obj \<Rightarrow> int \<Rightarrow> rule_obj" where
  "rtnl_rule_set_l3mdev rule value =
     (if value \<ge> 0 then set_rule RULE_ATTR_L3MDEV (r_l3mdev_update (\<lambda>_. u8 value)) rule
      else unset_rule RULE_ATTR_L3MDEV (r_l3mdev_update (\<lambda>_. 0)) rule)"

definition rtnl_rule_get_l3mdev :: "rule_obj option \<Rightarrow> int" where
  "rtnl_rule_get_l3mdev rule =
     (case rule of None \<Rightarrow> neg_err NLE_INVAL
      | Some rule \<Rightarrow>
          if ce_mask rule AND RULE_ATTR_L3MDEV = 0 then neg_err NLE_MISSING_ATTR else r_l3mdev (ce_data rule))"

definition rtnl_rule_set_protocol :: "rule_obj \<Rightarrow> int \<Rightarrow> int \<times> rule_obj" where
  "rtnl_rule_set_protocol rule protocol =
     (0, if u8 protocol \<noteq> 0 then set_rule RULE_ATTR_PROTOCOL (r_protocol_update (\<lambda>_. u8 protocol)) rule
         else unset_rule RULE_ATTR_PROTOCOL (r_protocol_update (\<lambda>_. 0)) rule)"

definition rtnl_rule_get_protocol :: "rule_obj \<Rightarrow> int res" where
  "rtnl_rule_get_protocol rule =
     (if ce_mask rule AND RULE_ATTR_PROTOCOL = 0 then Inl (Err NLE_INVAL) else Inr (r_protocol (ce_data rule)))"

definition rtnl_rule_set_ipproto :: "rule_obj \<Rightarrow> int \<Rightarrow> int \<times> rule_obj" where
  "rtnl_rule_set_ipproto rule ip_proto =
     (0, if u8 ip_proto \<noteq> 0 then set_rule RULE_ATTR_IP_PROTO (r_ip_proto_update (\<lambda>_. u8 ip_proto)) rule
         else unset_rule RULE_ATTR_IP_PROTO (r_ip_proto_update (\<lambda>_. 0)) rule)"

definition rtnl_rule_get_ipproto :: "rule_obj \<Rightarrow> int res" where
  "rtnl_rule_get_ipproto rule =
     (if ce_mask rule AND RULE_ATTR_IP_PROTO = 0 then Inl (Err NLE_INVAL) else Inr (r_ip_proto (ce_data rule)))"

text \<open>The result, the range and the mask.\<close>

definition rtnl_rule_set_port :: "fib_rule_port_range \<Rightarrow> int \<Rightarrow> int \<Rightarrow> int \<Rightarrow> int \<Rightarrow> int \<times> fib_rule_port_range \<times> int" where
  "rtnl_rule_set_port prange start end attr msk =
     (if (start \<noteq> 0 \<and> end < start) \<or> (end \<noteq> 0 \<and> start = 0) then (neg_err NLE_INVAL, prange, msk)
      else if start \<noteq> 0 then (0, \<lparr>pr_start = start, pr_end = end\<rparr>, msk OR attr)
      else (0, no_port_range, msk AND NOT attr))"

definition rtnl_rule_set_sport_range :: "rule_obj \<Rightarrow> int \<Rightarrow> int \<Rightarrow> int \<times> rule_obj" where
  "rtnl_rule_set_sport_range rule start end =
     (case rtnl_rule_set_port (r_sport (ce_data rule)) (u16 start) (u16 end) RULE_ATTR_SPORT (ce_mask rule) of
        (err, pr, msk) \<Rightarrow> (err, rule\<lparr>ce_data := (ce_data rule)\<lparr>r_sport := pr\<rparr>, ce_mask := msk\<rparr>))"

definition rtnl_rule_set_sport :: "rule_obj \<Rightarrow> int \<Rightarrow> int \<times> rule_obj" where
  "rtnl_rule_set_sport rule sport = rtnl_rule_set_sport_range rule sport sport"

definition rtnl_rule_get_sport :: "rule_obj \<Rightarrow> (int \<times> int) res" where
  "rtnl_rule_get_sport rule =
     (if ce_mask rule AND RULE_ATTR_SPORT = 0 then Inl (Err NLE_INVAL)
      else Inr (pr_start (r_sport (ce_data rule)), pr_end (r_sport (ce_data rule))))"

definition rtnl_rule_set_dport_range :: "rule_obj \<Rightarrow> int \<Rightarrow> int \<Rightarrow> int \<times> rule_obj" where
  "rtnl_rule_set_dport_range rule start end =
     (case rtnl_rule_set_port (r_dport (ce_data rule)) (u16 start) (u16 end) RULE_ATTR_DPORT (ce_mask rule) of
        (err, pr, msk) \<Rightarrow> (err, rule\<lparr>ce_data := (ce_data rule)\<lparr>r_dport := pr\<rparr>, ce_mask := msk\<rparr>))"

definition rtnl_rule_set_dport :: "rule_obj \<Rightarrow> int \<Rightarrow> int \<times> rule_obj" where
  "rtnl_rule_set_dport rule dport = rtnl_rule_set_dport_range rule dport dport"

definition rtnl_rule_get_dport :: "rule_obj \<Rightarrow> (int \<times> int) res" where
  "rtnl_rule_get_dport rule =
     (if ce_mask rule AND RULE_ATTR_DPORT = 0 then Inl (Err NLE_INVAL)
      else Inr (pr_start (r_dport (ce_data rule)), pr_end (r_dport (ce_data rule))))"

definition rtnl_rule_set_realms :: "rule_obj \<Rightarrow> int \<Rightarrow> rule_obj" where
  "rtnl_rule_set_realms rule realms = set_rule RULE_ATTR_FLOW (r_flow_update (\<lambda>_. u32 realms)) rule"

definition rtnl_rule_get_realms :: "rule_obj \<Rightarrow> int" where
  "rtnl_rule_get_realms rule = r_flow (ce_data rule)"

definition rtnl_rule_set_goto :: "rule_obj \<Rightarrow> int \<Rightarrow> rule_obj" where
  "rtnl_rule_set_goto rule ref = set_rule RULE_ATTR_GOTO (r_goto_update (\<lambda>_. u32 ref)) rule"

definition rtnl_rule_get_goto :: "rule_obj \<Rightarrow> int" where
  "rtnl_rule_get_goto rule = r_goto (ce_data rule)"

end
