(* ===== verification/Nl_Genl_Msg.thy ===== *)
theory Nl_Genl_Msg
  imports Nl_Attr Nl_Recv
begin

unbundle bit_operations_syntax

text \<open>
  Messages of generic netlink (\<open>lib/genl/genl.c\<close>): behind the netlink header they have a header with
  command and version, then a header of the family and attributes. As elsewhere, a pointer into a
  message is the offset in its buffer.
\<close>

section \<open>Definitions\<close>

definition NETLINK_GENERIC :: int where "NETLINK_GENERIC = 16"

text \<open>\<open>NLMSG_ALIGN(sizeof(struct genlmsghdr))\<close>: command, version and two reserved bytes.\<close>

definition GENL_HDRLEN :: int where "GENL_HDRLEN = NLMSG_ALIGN 4"

definition GENL_HDRSIZE :: "int \<Rightarrow> int" where "GENL_HDRSIZE hdrlen = GENL_HDRLEN + hdrlen"

definition genlmsghdr :: "int \<Rightarrow> int \<Rightarrow> byte list" where
  "genlmsghdr cmd version = le_bytes 1 cmd @ le_bytes 1 version @ zeros 2"

definition genl_cmd_fld :: "byte list \<Rightarrow> int \<Rightarrow> int" where "genl_cmd_fld buf g = le_int (rd buf g 1)"
definition genl_version_fld :: "byte list \<Rightarrow> int \<Rightarrow> int" where "genl_version_fld buf g = le_int (rd buf (g + 1) 1)"

definition genl_connect :: "'k kernel \<Rightarrow> nl_sock \<Rightarrow> ports \<Rightarrow> 'k \<Rightarrow> (nl_sock \<times> ports \<times> 'k \<times> unit res) res" where
  "genl_connect K sk st k = nl_connect K sk NETLINK_GENERIC st k"

definition genl_send_simple ::
  "'u sendfun \<Rightarrow> bool \<Rightarrow> bool \<Rightarrow> int \<Rightarrow> int \<Rightarrow> int \<Rightarrow> ('a, 'u) nl_cb \<Rightarrow> nl_sock \<Rightarrow> int \<Rightarrow> int \<Rightarrow> int \<Rightarrow> int \<Rightarrow> ports \<Rightarrow> 'u \<Rightarrow>
   (int \<times> nl_sock \<times> ports \<times> 'u) res" where
  "genl_send_simple sys_send a1 a2 dsz getpid t cb sk family cmd version flags st u =
     nl_send_simple sys_send a1 a2 dsz getpid t cb sk family flags (Some (genlmsghdr cmd version)) st u"

definition genlmsg_hdr :: "int \<Rightarrow> int" where "genlmsg_hdr off = nlmsg_data off"

text \<open>The length field is read 16 bytes in front of the generic header; the difference is converted to \<open>int\<close>.\<close>

definition genlmsg_len :: "byte list \<Rightarrow> int \<Rightarrow> int" where
  "genlmsg_len buf g = s32 (nlmsg_len (nlh buf (g - NLMSG_HDRLEN)) - GENL_HDRLEN - NLMSG_HDRLEN)"

definition genlmsg_data :: "int \<Rightarrow> int" where "genlmsg_data g = g + GENL_HDRLEN"

definition genlmsg_user_hdr :: "int \<Rightarrow> int" where "genlmsg_user_hdr g = genlmsg_data g"

definition genlmsg_user_data :: "int \<Rightarrow> int \<Rightarrow> int" where
  "genlmsg_user_data g hdrlen = genlmsg_user_hdr g + NLMSG_ALIGN hdrlen"

definition genlmsg_user_datalen :: "byte list \<Rightarrow> int \<Rightarrow> int \<Rightarrow> int" where
  "genlmsg_user_datalen buf g hdrlen = s32 (u32 (genlmsg_len buf g - NLMSG_ALIGN hdrlen))"

definition genlmsg_attrdata :: "int \<Rightarrow> int \<Rightarrow> int" where "genlmsg_attrdata g hdrlen = genlmsg_user_data g hdrlen"

definition genlmsg_attrlen :: "byte list \<Rightarrow> int \<Rightarrow> int \<Rightarrow> int" where
  "genlmsg_attrlen buf g hdrlen = s32 (u32 (genlmsg_len buf g - NLMSG_ALIGN hdrlen))"

text \<open>The comparison with the unsigned \<open>NLMSG_ALIGN(hdrlen)\<close> converts the length to unsigned.\<close>

definition genlmsg_valid_hdr :: "byte list \<Rightarrow> int \<Rightarrow> int \<Rightarrow> bool" where
  "genlmsg_valid_hdr buf off hdrlen \<longleftrightarrow>
     nlmsg_valid_hdr (nlh buf off) GENL_HDRLEN \<and>
     \<not> u32 (genlmsg_len buf (nlmsg_data off)) < NLMSG_ALIGN hdrlen"

definition genlmsg_validate :: "byte list \<Rightarrow> int \<Rightarrow> int \<Rightarrow> int \<Rightarrow> nla_policy list \<Rightarrow> unit res" where
  "genlmsg_validate buf off hdrlen maxtype policy =
     (if \<not> genlmsg_valid_hdr buf off hdrlen then Inl (Err NLE_MSG_TOOSHORT)
      else
        let g = nlmsg_data off in
        nla_validate buf (genlmsg_attrdata g hdrlen) (genlmsg_attrlen buf g hdrlen) maxtype policy)"

text \<open>As in \<open>nlmsg_parse\<close> the table is \<open>None\<close> if it is not touched.\<close>

definition genlmsg_parse ::
  "byte list \<Rightarrow> int \<Rightarrow> int \<Rightarrow> int \<Rightarrow> nla_policy list option \<Rightarrow> int option list option \<times> unit res" where
  "genlmsg_parse buf off hdrlen maxtype policy =
     (if \<not> genlmsg_valid_hdr buf off hdrlen then (None, Inl (Err NLE_MSG_TOOSHORT))
      else
        let g = nlmsg_data off in
        case nla_parse maxtype buf (genlmsg_attrdata g hdrlen) (genlmsg_attrlen buf g hdrlen) policy of
          (tb, r) \<Rightarrow> (Some tb, r))"

text \<open>The returned pointer is that of the header of the family.\<close>

definition genlmsg_put ::
  "nl_msg \<Rightarrow> int \<Rightarrow> int \<Rightarrow> int \<Rightarrow> int \<Rightarrow> int \<Rightarrow> int \<Rightarrow> int \<Rightarrow> (nl_msg \<times> int option) res" where
  "genlmsg_put msg port seq family hdrlen flags cmd version =
     and_then (nlmsg_put msg port seq family (GENL_HDRLEN + hdrlen) flags) (\<lambda>(msg, nlh).
       case nlh of
         None \<Rightarrow> Inr (msg, None)
       | Some off \<Rightarrow>
           Inr (msg\<lparr>nm_nlh := wr (nm_nlh msg) (nlmsg_data off) (genlmsghdr cmd version)\<rparr>,
                Some (nlmsg_data off + GENL_HDRLEN)))"

section \<open>Generic messages as netlink messages\<close>

lemma GENL_HDRLEN_eq [simp]: "GENL_HDRLEN = 4"
  by (simp add: GENL_HDRLEN_def NLMSG_ALIGN_eq align4_eq)

lemma length_genlmsghdr [simp]: "length (genlmsghdr cmd version) = 4"
  by (simp add: genlmsghdr_def zeros_def)

lemma genlmsghdr_flds:
  "genl_cmd_fld (genlmsghdr cmd version) 0 = u8 cmd" "genl_version_fld (genlmsghdr cmd version) 0 = u8 version"
proof -
  have "rd (genlmsghdr cmd version) 0 1 = le_bytes 1 cmd" "rd (genlmsghdr cmd version) 1 1 = le_bytes 1 version"
    by (simp_all add: genlmsghdr_def rd_def)
  then show "genl_cmd_fld (genlmsghdr cmd version) 0 = u8 cmd" "genl_version_fld (genlmsghdr cmd version) 0 = u8 version"
    by (simp_all only: genl_cmd_fld_def genl_version_fld_def le_int_bytes u8_def add_0 power_one_right)
qed

lemma u32_s32: "u32 (s32 x) = u32 x"
  by (simp add: u32_def s32_def mod_simps)

text \<open>The generic length is the netlink length less both headers.\<close>

lemma genlmsg_len_eq: "genlmsg_len buf (off + 16) = s32 (get32 buf off - 20)"
  by (simp add: genlmsg_len_def nlmsg_data_def)

lemma u32_genlmsg_len:
  assumes "20 \<le> get32 buf off"
  shows "u32 (genlmsg_len buf (off + 16)) = get32 buf off - 20"
proof -
  have "get32 buf off - 20 < 4294967296" using get32_range(2) [of buf off] by linarith
  then show ?thesis using assms by (simp add: genlmsg_len_eq u32_s32)
qed

lemma genlmsg_valid_hdr_eq:
  assumes "0 \<le> hdrlen" "hdrlen < 2147483620"
  shows "genlmsg_valid_hdr buf off hdrlen \<longleftrightarrow> 20 + align4 hdrlen \<le> get32 buf off"
proof -
  have "NLMSG_ALIGN hdrlen = align4 hdrlen" "0 \<le> align4 hdrlen" using assms by (simp_all add: NLMSG_ALIGN_eq)
  then show ?thesis using u32_genlmsg_len [of buf off]
    by (auto simp: genlmsg_valid_hdr_def nlmsg_valid_hdr_def nlmsg_msg_size_def nlmsg_size_def)
qed

lemma genlmsg_attrdata_eq:
  assumes "0 \<le> hdrlen" "hdrlen < 2147483620"
  shows "genlmsg_attrdata (nlmsg_data off) hdrlen = nlmsg_attrdata off (GENL_HDRSIZE hdrlen)"
  using assms align4_add [of 4 hdrlen]
  by (simp add: genlmsg_attrdata_def genlmsg_user_data_def genlmsg_user_hdr_def genlmsg_data_def nlmsg_attrdata_def
      GENL_HDRSIZE_def NLMSG_ALIGN_eq)

lemma genlmsg_attrlen_eq:
  assumes "0 \<le> hdrlen" "hdrlen < 2147483620"
  shows "nlmsg_attrlen (nlh buf off) (GENL_HDRSIZE hdrlen) = max (genlmsg_attrlen buf (nlmsg_data off) hdrlen) 0"
proof -
  have a: "NLMSG_ALIGN hdrlen = align4 hdrlen" "NLMSG_ALIGN (4 + hdrlen) = 4 + align4 hdrlen"
    using assms align4_add [of 4 hdrlen] by (simp_all add: NLMSG_ALIGN_eq)
  have "u32 (s32 (u32 (get32 buf off - 16)) - (4 + align4 hdrlen)) = u32 (s32 (get32 buf off - 20) - align4 hdrlen)"
    by (simp add: u32_def s32_def mod_simps algebra_simps)
  then show ?thesis
    by (simp add: nlmsg_attrlen_def genlmsg_attrlen_def nlmsg_datalen_def GENL_HDRSIZE_def genlmsg_len_eq a)
qed

lemma nla_for_each_max: "nla_for_each buf pos (max len 0) = nla_for_each buf pos len"
  by (subst (1 2) nla_for_each.simps) (auto simp: nla_ok_def max_def)

section \<open>Building\<close>

lemma nla_put_all_keeps:
  assumes "has_attrs n hl as" "\<forall>a \<in> set bs. attr_fits a" "nla_put_all n bs = Inr n'"
  shows "rd (nm_nlh n') 4 (hl - 4) = rd (nm_nlh n) 4 (hl - 4)"
  using assms
proof (induction n bs arbitrary: as rule: nla_put_all.induct)
  case (2 n t d bs)
  obtain n1 where n1: "nla_put n t (blen d) d = Inr n1" "nla_put_all n1 bs = Inr n'"
    using 2(4) by (auto split: sum.splits)
  have "blen d \<le> 65531" using 2(3) attr_fits_u16 [of t d] by simp
  from nla_put_refines [OF 2(2) this, of t] n1(1)
  have "has_attrs n1 hl (as @ [(u16 t, d)])" "rd (nm_nlh n1) 4 (hl - 4) = rd (nm_nlh n) 4 (hl - 4)" by auto
  then show ?case using 2(1) [OF n1(1)] 2(3) n1(2) by simp
qed simp

lemma genlmsg_put_Some:
  assumes wf: "wf_msg n" "mlen n = 16" and hl: "0 \<le> hdrlen" "hdrlen < 2147483620"
    and put: "genlmsg_put n port seq family hdrlen flags cmd version = Inr (n', Some p)"
  shows "p = 20" "has_attrs n' (20 + align4 hdrlen) []" "nlmsg_type (nlmsg_hdr n') = u16 family"
    "rd (nm_nlh n') 16 4 = genlmsghdr cmd version"
proof -
  obtain n1 where n1: "nlmsg_put n port seq family (4 + hdrlen) flags = Inr (n1, Some 0)" "wf_msg n1"
      "mlen n1 = 16 + align4 (4 + hdrlen)" "nlmsg_type (nlmsg_hdr n1) = u16 family"
      "n' = n1\<lparr>nm_nlh := wr (nm_nlh n1) 16 (genlmsghdr cmd version)\<rparr>" "p = 20"
    using nlmsg_put_spec [OF wf(1), of "4 + hdrlen" port seq family flags] hl put wf(2)
    by (auto simp: genlmsg_put_def nlmsg_data_def max_def split: if_splits)
  have a: "align4 (4 + hdrlen) = 4 + align4 hdrlen" "0 \<le> align4 hdrlen" using align4_add [of 4 hdrlen] hl by simp_all
  have b: "blen (nm_nlh n1) = nm_size n1" "20 + align4 hdrlen \<le> nm_size n1" "nm_size n1 < 2147483648"
    using wf_msgD [OF n1(2)] n1(3) a by auto
  have h: "nlmsg_hdr n' = nlmsg_hdr n1"
    using b a by (simp add: nlmsg_hdr_def nlh_def n1(5) get16_def get32_def mem_simps)
  have "wf_msg n'" using n1(2) b a unfolding wf_msg_def h by (simp add: n1(5) mem_simps)
  then show "has_attrs n' (20 + align4 hdrlen) []" using h n1(3) a align4_mod [of "20 + hdrlen"] align4_add [of 20 hdrlen]
    by (simp add: has_attrs_def attrs_bytes_def)
  show "p = 20" "nlmsg_type (nlmsg_hdr n') = u16 family" using n1 h by simp_all
  show "rd (nm_nlh n') 16 4 = genlmsghdr cmd version" using b a by (simp add: n1(5) rd_wr_same)
qed

lemma genlmsg_put_fits:
  assumes "wf_msg n" "mlen n = 16" "0 \<le> hdrlen" "20 + align4 hdrlen \<le> nm_size n"
  shows "\<exists>n'. genlmsg_put n port seq family hdrlen flags cmd version = Inr (n', Some 20) \<and> nm_size n' = nm_size n"
proof -
  have "hdrlen \<le> align4 hdrlen" "nm_size n < 2147483648" using align4_ge wf_msgD(2) [OF assms(1)] by auto
  then have "4 + hdrlen < 2147483648" using assms(4) by linarith
  moreover have "align4 (4 + hdrlen) = 4 + align4 hdrlen" by (simp add: align4_add)
  ultimately obtain n' where "nlmsg_put n port seq family (4 + hdrlen) flags = Inr (n', Some 0)" "nm_size n' = nm_size n"
    using nlmsg_put_spec [OF assms(1), of "4 + hdrlen" port seq family flags] assms(2-4) by (auto simp: max_def split: if_splits)
  then show ?thesis by (simp add: genlmsg_put_def nlmsg_data_def)
qed

text \<open>What the sending side looks at beside the bytes.\<close>

lemma genlmsg_put_frame:
  assumes "genlmsg_put n port seq family hdrlen flags cmd version = Inr (n', p)"
  shows "nm_dst n' = nm_dst n" "nm_flags n' = nm_flags n"
  using assms
  by (auto simp: genlmsg_put_def nlmsg_put_def nlmsg_reserve_def set_hdr_fields_def Let_def
      split: option.splits if_splits prod.splits)

lemma nla_put_frame:
  assumes "nla_put n t l d = Inr n'"
  shows "nm_dst n' = nm_dst n" "nm_flags n' = nm_flags n"
  using assms
  by (auto simp: nla_put_def nla_reserve_def Let_def split: option.splits if_splits prod.splits sum.splits)

lemma genlmsg_put_hdr:
  assumes wf: "wf_msg n" "mlen n = 16" and hl: "0 \<le> hdrlen" "hdrlen < 2147483620"
    and put: "genlmsg_put n port seq family hdrlen flags cmd version = Inr (n', Some p)"
  shows "nlmsg_hdr n' = \<lparr>nlmsg_len = 20 + align4 hdrlen, nlmsg_type = u16 family, nlmsg_flags = u16 flags,
    nlmsg_seq = u32 seq, nlmsg_pid = u32 port\<rparr>"
proof -
  have a: "align4 (4 + hdrlen) = 4 + align4 hdrlen" "0 \<le> align4 hdrlen" using align4_add [of 4 hdrlen] hl by simp_all
  obtain n1 where n1: "wf_msg n1" "nlmsg_hdr n1 = \<lparr>nlmsg_len = 20 + align4 hdrlen, nlmsg_type = u16 family, nlmsg_flags = u16 flags,
      nlmsg_seq = u32 seq, nlmsg_pid = u32 port\<rparr>" "n' = n1\<lparr>nm_nlh := wr (nm_nlh n1) 16 (genlmsghdr cmd version)\<rparr>"
    using nlmsg_put_spec [OF wf(1), of "4 + hdrlen" port seq family flags] hl put wf(2) a
    by (auto simp: genlmsg_put_def nlmsg_data_def max_def split: if_splits)
  moreover have "20 \<le> blen (nm_nlh n1)" using wf_msgD [OF n1(1)] n1(2) a(2) by simp
  then have "nlmsg_hdr n' = nlmsg_hdr n1"
    by (simp add: nlmsg_hdr_def nlh_def n1(3) get16_def get32_def mem_simps)
  ultimately show ?thesis by simp
qed

text \<open>The fields of a message that was built with \<open>genlmsg_put\<close> and attributes.\<close>

lemma genlmsg_put_facts:
  assumes "wf_msg n" "mlen n = 16" "0 \<le> hdrlen" "hdrlen < 2147483620"
    and "genlmsg_put n port seq family hdrlen flags cmd version = Inr (n1, Some p)"
    and "\<forall>a \<in> set as. attr_fits a" "nla_put_all n1 as = Inr n2"
  shows "nlmsg_type (nlmsg_hdr n2) = u16 family" "genl_cmd_fld (nm_nlh n2) 16 = u8 cmd" "p = 20"
    "20 + align4 hdrlen \<le> get32 (nm_nlh n2) 0" "genl_version_fld (nm_nlh n2) 16 = u8 version"
    "nla_list (nm_nlh n2) (genlmsg_attrdata 16 hdrlen) (genlmsg_attrlen (nm_nlh n2) 16 hdrlen) = as"
proof -
  let ?hl = "20 + align4 hdrlen"
  note f = genlmsg_put_Some [OF assms(1-5)]
  have h: "has_attrs n2 ?hl as" using nla_put_all_Inr [OF f(2) assms(6,7)] by simp
  note k = nla_put_all_keeps [OF f(2) assms(6,7)]
  have a: "0 \<le> align4 hdrlen" "NLMSG_ALIGN hdrlen = align4 hdrlen" using assms(3,4) by (simp_all add: NLMSG_ALIGN_eq)
  have t: "nlmsg_type (nlmsg_hdr n2) = nlmsg_type (nlmsg_hdr n1)"
    using rd_prefix [OF k, of 0 2] a by (simp add: nlmsg_hdr_def nlh_def get16_def)
  have g: "rd (nm_nlh n2) 16 4 = genlmsghdr cmd version" using rd_prefix [OF k, of 12 4] a f(4) by simp
  have c: "genl_cmd_fld (nm_nlh n2) 16 = u8 cmd" "genl_version_fld (nm_nlh n2) 16 = u8 version"
    using rd_rd [of 16 0 1 4 "nm_nlh n2"] rd_rd [of 16 1 1 4 "nm_nlh n2"] genlmsghdr_flds [of cmd version]
    unfolding g by (simp_all add: genl_cmd_fld_def genl_version_fld_def)
  have m: "?hl \<le> mlen n2" "mlen n2 < 2147483648" using has_attrsD(4) [OF h] wf_msgD [OF has_attrsD(1) [OF h]] by auto
  have "genlmsg_attrlen (nm_nlh n2) 16 hdrlen = mlen n2 - ?hl"
    using m a genlmsg_len_eq [of "nm_nlh n2" 0] by (simp add: genlmsg_attrlen_def nlmsg_hdr_def)
  then have l: "nla_list (nm_nlh n2) (genlmsg_attrdata 16 hdrlen) (genlmsg_attrlen (nm_nlh n2) 16 hdrlen) = as"
    using nla_list_has_attrs [OF h] a
    by (simp add: genlmsg_attrdata_def genlmsg_user_data_def genlmsg_user_hdr_def genlmsg_data_def)
  show "nlmsg_type (nlmsg_hdr n2) = u16 family" "p = 20" using t f(1,3) by simp_all
  show "genl_cmd_fld (nm_nlh n2) 16 = u8 cmd" "genl_version_fld (nm_nlh n2) 16 = u8 version" by (rule c)+
  show "20 + align4 hdrlen \<le> get32 (nm_nlh n2) 0" using m by (simp add: nlmsg_hdr_def)
  show "nla_list (nm_nlh n2) (genlmsg_attrdata 16 hdrlen) (genlmsg_attrlen (nm_nlh n2) 16 hdrlen) = as" by (rule l)
qed

section \<open>Properties\<close>

text \<open>
  Parsing a generic message is parsing a netlink message whose header is the generic header
  followed by that of the family: for every header length of whole words \<open>genlmsg_parse\<close> and
  \<open>nlmsg_parse\<close> accept the same messages and give the same table of attributes, whatever the length
  field of the message says.
\<close>

theorem genlmsg_parse_is_nlmsg_parse:
  assumes "0 \<le> hdrlen" "hdrlen < 2147483620" "hdrlen mod 4 = 0"
  shows "genlmsg_parse buf off hdrlen maxtype policy = nlmsg_parse buf off (GENL_HDRSIZE hdrlen) maxtype policy"
proof -
  have "nlmsg_valid_hdr (nlh buf off) (GENL_HDRSIZE hdrlen) = genlmsg_valid_hdr buf off hdrlen"
    using assms by (auto simp: genlmsg_valid_hdr_eq nlmsg_valid_hdr_def nlmsg_msg_size_def nlmsg_size_def GENL_HDRSIZE_def align4_id)
  then show ?thesis
    unfolding genlmsg_parse_def nlmsg_parse_def Let_def nla_parse_def genlmsg_attrdata_eq [OF assms(1,2)]
      genlmsg_attrlen_eq [OF assms(1,2)] nla_for_each_max by simp
qed

theorem genlmsg_parse_is_nlmsg_parse_witness:
  "genlmsg_parse [24, 0, 0, 0, 16, 0, 0, 0, 0, 0, 0, 0, 0, 0, 0, 0, 3, 1, 0, 0, 4, 0, 1, 0] 0 0 2 None = (Some [None, Some 20, None], Inr ())"
  by (subst genlmsg_parse_is_nlmsg_parse) (simp, simp, simp, code_simp)

text \<open>
  A generic message reads back as it was built: \<open>genlmsg_put\<close> on a fresh message and then any
  attributes give a message with that family, command and version, that every reader accepts, and in
  which the attributes stand behind the header of the family in the order they were put.
\<close>

theorem genlmsg_put_then_parse:
  assumes "wf_msg n" "mlen n = 16" "0 \<le> hdrlen" "hdrlen < 2147483620"
    and "genlmsg_put n port seq family hdrlen flags cmd version = Inr (n1, Some p)"
    and "\<forall>a \<in> set as. attr_fits a" "nla_put_all n1 as = Inr n2"
  shows "nlmsg_type (nlmsg_hdr n2) = u16 family \<and>
    genl_cmd_fld (nm_nlh n2) (genlmsg_hdr 0) = u8 cmd \<and> genl_version_fld (nm_nlh n2) (genlmsg_hdr 0) = u8 version \<and>
    p = genlmsg_user_hdr (genlmsg_hdr 0) \<and> genlmsg_valid_hdr (nm_nlh n2) 0 hdrlen \<and>
    nla_list (nm_nlh n2) (genlmsg_attrdata (genlmsg_hdr 0) hdrlen) (genlmsg_attrlen (nm_nlh n2) (genlmsg_hdr 0) hdrlen) = as"
  using genlmsg_put_facts [OF assms]
  by (simp add: genlmsg_valid_hdr_eq [OF assms(3,4)] genlmsg_hdr_def genlmsg_user_hdr_def genlmsg_data_def)

theorem genlmsg_put_then_parse_witness:
  "\<exists>n1 n2. genlmsg_put msg32 0 0 16 0 0 3 1 = Inr (n1, Some 20) \<and> nla_put_all n1 [(1, [7])] = Inr n2 \<and>
    genl_cmd_fld (nm_nlh n2) (genlmsg_hdr 0) = 3 \<and>
    nla_list (nm_nlh n2) (genlmsg_attrdata (genlmsg_hdr 0) 0) (genlmsg_attrlen (nm_nlh n2) (genlmsg_hdr 0) 0) = [(1, [7])]"
proof -
  obtain n1 where n1: "genlmsg_put msg32 0 0 16 0 0 3 1 = Inr (n1, Some 20)" "nm_size n1 = 32"
    using genlmsg_put_fits [OF wf_msg32, of 0 0 0 16 0 3 1] by (auto simp: align4_eq)
  note put = genlmsg_put_Some [OF wf_msg32 _ _ n1(1)]
  have fits: "\<forall>a \<in> set [(1::int, [7 :: byte])]. attr_fits a" by (simp add: attr_fits_def)
  obtain n2 where n2: "nla_put_all n1 [(1, [7])] = Inr n2"
    using nla_put_all_fits [OF put(2) fits] n1(2) has_attrsD(4) [OF put(2)] by (auto simp: align4_eq)
  show ?thesis
    using genlmsg_put_then_parse [OF wf_msg32 _ _ n1(1) fits n2] n1(1) n2 by auto
qed

end
