(* ===== verification/Nl_Readback.thy ===== *)
theory Nl_Readback
  imports Nl_Rule Nl_Genl_Msg
begin

unbundle bit_operations_syntax

text \<open>
  Messages that a builder of this library wrote, seen by a parser: the attributes that were put are found in the
  table, with their payloads. Shared by the object types that are sent as well as received.
\<close>

section \<open>The table of a message\<close>

text \<open>A policy entry on the payload.\<close>

definition payload_ok :: "nla_policy \<Rightarrow> byte list \<Rightarrow> bool" where
  "payload_ok pt d \<longleftrightarrow>
     pol_type pt \<le> NLA_TYPE_MAX \<and>
     (if pol_minlen pt \<noteq> 0 then pol_minlen pt else nla_attr_minlen (pol_type pt)) \<le> blen d \<and>
     (pol_maxlen pt = 0 \<or> blen d \<le> pol_maxlen pt) \<and>
     (pol_type pt = NLA_STRING \<longrightarrow> d \<noteq> [] \<and> last d = 0)"

text \<open>The attribute at \<open>p\<close> has a payload; what a table entry says: there is no attribute, or it has this payload.\<close>

definition reads :: "byte list \<Rightarrow> int \<Rightarrow> byte list \<Rightarrow> bool" where
  "reads buf p d \<longleftrightarrow> 0 \<le> p \<and> nla_len buf p = blen d \<and> rd buf (nla_data p) (blen d) = d"

definition entry_is :: "byte list \<Rightarrow> int option \<Rightarrow> byte list option \<Rightarrow> bool" where
  "entry_is buf e d \<longleftrightarrow> (case d of None \<Rightarrow> e = None | Some d \<Rightarrow> (\<exists>p. e = Some p \<and> reads buf p d))"

lemma rd_last:
  assumes "rd buf a (blen d) = d" "d \<noteq> []" "0 \<le> a"
  shows "rd buf (a + blen d - 1) 1 = [last d]"
proof -
  have "rd buf a (blen (butlast d @ [last d])) = butlast d @ [last d]" using assms(1,2) by simp
  then have "rd buf (a + blen (butlast d)) (blen [last d]) = [last d]"
    using rd_append_iff [OF assms(3), of buf "butlast d" "[last d]"] by (simp add: add.commute del: append_butlast_last_id)
  then show ?thesis using assms(2) by (simp add: of_nat_diff Suc_leI add_diff_eq)
qed

lemma payload_ok_policy_ok:
  assumes "payload_ok pt d" "rd buf (q + 4) (nla_len buf q) = d" "blen d = nla_len buf q" "0 \<le> q"
  shows "policy_ok buf q pt"
proof -
  have "d \<noteq> [] \<Longrightarrow> rd buf (q + 4 + nla_len buf q - 1) 1 = [last d]"
    using rd_last [of buf "q + 4" d] assms(2-4) by simp
  then show ?thesis using assms(1,3) by (auto simp: policy_ok_def payload_ok_def Let_def)
qed

lemma nla_last_map_of:
  assumes "distinct (map (nla_type buf) ps)"
  shows "nla_last buf ps t = map_of (map (\<lambda>p. (nla_type buf p, p)) ps) (int t)"
  using assms
proof (induction ps)
  case (Cons p ps)
  have "List.find (\<lambda>q. nla_type buf q = nla_type buf p) (rev ps) = None"
    using Cons.prems by (auto simp: find_None_iff image_iff)
  then show ?case using Cons
    by (cases "nla_type buf p = int t") (auto simp: nla_last_def find_append split: option.split)
qed (simp add: nla_last_def)

text \<open>The types without the flags in their upper bits, as the parser sees them.\<close>

definition base_types :: "attr list \<Rightarrow> attr list" where
  "base_types as = map (\<lambda>(t, d). (t mod 16384, d)) as"

lemma base_types_id: "\<forall>a \<in> set as. 0 \<le> fst a \<and> fst a < 16384 \<Longrightarrow> base_types as = as"
  by (induction as) (auto simp: base_types_def)

text \<open>
  The attributes of a stream, each known to the parser and in accordance with the policy, are the entries of its
  table.
\<close>

lemma nla_parse_list:
  assumes m: "len \<le> STREAM_MAX" "0 \<le> off" "off + len \<le> blen buf" and as: "nla_list buf off len = as"
    and dist: "distinct (map fst (base_types as))" and max: "0 \<le> maxtype"
    and known: "\<forall>(t, d) \<in> set (base_types as). t \<le> maxtype \<and> (case policy of None \<Rightarrow> True | Some pol \<Rightarrow> payload_ok (pol ! nat t) d)"
  obtains tb where "nla_parse maxtype buf off len policy = (tb, Inr ())"
    "\<And>t. int t \<le> maxtype \<Longrightarrow> entry_is buf (tb ! t) (map_of (base_types as) (int t))"
proof -
  let ?fe = "nla_for_each buf off len"
  let ?ps = "map fst ?fe"
  have as: "base_types as = map (\<lambda>p. (nla_type buf p, rd buf (p + 4) (nla_len buf p))) ?ps"
    using as by (auto simp: base_types_def nla_list_def nla_type_eq)
  have p: "0 \<le> p \<and> (\<exists>r. nla_ok buf p r) \<and> blen (rd buf (p + 4) (nla_len buf p)) = nla_len buf p \<and> nla_type buf p \<le> maxtype
      \<and> (case policy of None \<Rightarrow> True | Some pol \<Rightarrow> payload_ok (pol ! nat (nla_type buf p)) (rd buf (p + 4) (nla_len buf p)))"
    if pin: "p \<in> set ?ps" for p
  proof -
    obtain r where r: "(p, r) \<in> set ?fe" using pin by force
    note i = nlas.each_inside [OF m(1) r]
    have "(nla_type buf p, rd buf (p + 4) (nla_len buf p)) \<in> set (base_types as)" using pin by (subst as) auto
    moreover have "0 \<le> p" using i m(2) by auto
    moreover have "blen (rd buf (p + 4) (nla_len buf p)) = nla_len buf p"
      using i m(2,3) by (intro length_rd) (auto simp: nla_len_def)
    ultimately show ?thesis using i known by auto
  qed
  have ok: "\<forall>p \<in> set (nla_known buf maxtype ?fe). nla_check buf maxtype policy p = Inr ()"
  proof
    fix q assume "q \<in> set (nla_known buf maxtype ?fe)"
    then have "q \<in> set ?ps" by (auto simp: nla_known_def)
    note q = p [OF this]
    have "policy = Some pol \<Longrightarrow> policy_ok buf q (pol ! nat (nla_type buf q))" for pol
      using q payload_ok_policy_ok by (metis option.simps(5))
    then show "nla_check buf maxtype policy q = Inr ()"
      using q validate_nla_policy_ok [of buf q _ maxtype] by (auto simp: nla_check_def payload_ok_def split: option.splits)
  qed
  have nil: "dropWhile (\<lambda>p. nla_check buf maxtype policy p = Inr ()) (nla_known buf maxtype ?fe) = []"
    using ok by (simp add: dropWhile_eq_Nil_conv)
  obtain tb where tb: "nla_parse maxtype buf off len policy = (tb, Inr ())"
    by (simp add: nla_parse_def nla_parse_loop_eq Let_def nil)
  have d: "distinct (map (nla_type buf) ?ps)" using dist by (simp add: as comp_def)
  have "base_types as = map (\<lambda>(k, q). (k, rd buf (nla_data q) (nla_len buf q))) (map (\<lambda>q. (nla_type buf q, q)) ?ps)"
    by (subst as) auto
  then have m: "map_of (base_types as) = map_option (\<lambda>q. rd buf (nla_data q) (nla_len buf q)) \<circ> map_of (map (\<lambda>q. (nla_type buf q, q)) ?ps)"
    by (simp only: map_of_map)
  show ?thesis
  proof (rule that [OF tb])
    fix t assume t: "int t \<le> maxtype"
    have l: "tb ! t = nla_last buf ?ps t"
      using nla_parse_loop_Inr(3) [OF tb [unfolded nla_parse_def], of t] t max nla_last_known [OF t, of buf ?fe]
      by (auto split: option.splits)
    have "q \<in> set ?ps" if "nla_last buf ?ps t = Some q" for q using nla_last_SomeD [OF that] by simp
    then show "entry_is buf (tb ! t) (map_of (base_types as) (int t))"
      using p unfolding l m nla_last_map_of [OF d, symmetric] comp_def
      by (cases "nla_last buf ?ps t") (auto simp: entry_is_def reads_def nla_last_map_of [OF d, symmetric])
  qed
qed

lemma nla_parse_has_attrs:
  assumes h: "has_attrs n hl as" and dist: "distinct (map fst (base_types as))"
    and known: "\<forall>(t, d) \<in> set (base_types as). t \<le> maxtype \<and> payload_ok (policy ! nat t) d" and max: "0 \<le> maxtype"
  obtains tb where "nla_parse maxtype (nm_nlh n) hl (mlen n - hl) (Some policy) = (tb, Inr ())"
    "\<And>t. int t \<le> maxtype \<Longrightarrow> entry_is (nm_nlh n) (tb ! t) (map_of (base_types as) (int t))"
proof -
  note a = has_attrsD [OF h]
  have m: "mlen n - hl \<le> STREAM_MAX" "0 \<le> hl" "hl + (mlen n - hl) \<le> blen (nm_nlh n)"
    using wf_msgD [OF a(1)] a(2,7) by (auto simp: STREAM_MAX_def) (presburger?)
  show ?thesis using nla_parse_list [OF m nla_list_has_attrs [OF h] dist max, of "Some policy"] known that by auto
qed

section \<open>A message from its parts\<close>

text \<open>What the builders do: allocate, append the family header, put attributes.\<close>

lemma built_message:
  assumes n0: "nlmsg_alloc_simple True True dsz cmd flags = Some n0" "dsz < 2147483648"
    and n1: "nlmsg_append n0 hdr 4 = Inr n1" "align4 (blen hdr) = blen hdr" "hl = 16 + blen hdr"
    and n2: "nla_put_all n1 as = Inr n2" "\<forall>a \<in> set as. attr_fits a"
  shows "has_attrs n2 hl as" "rd (nm_nlh n2) 16 (blen hdr) = hdr"
    "nlmsg_type (nlmsg_hdr n2) = u16 cmd" "nlmsg_flags (nlmsg_hdr n2) = u16 flags"
proof -
  note a0 = nlmsg_alloc_simple_ok [OF n0]
  note a1 = nlmsg_append_frame [OF a0(1) n1(1)]
  have l: "blen hdr mod 4 = 0" using align4_mod [of "blen hdr"] n1(2) by simp
  have h1: "has_attrs n1 hl []" using a1(1,2) a0(6) n1(2,3) l by (simp add: has_attrs_def) presburger
  show h2: "has_attrs n2 hl as" using nla_put_all_Inr [OF h1 n2(2,1)] by simp
  note k = nla_put_all_keeps [OF h1 n2(2,1)]
  show "rd (nm_nlh n2) 16 (blen hdr) = hdr"
    using rd_inside [OF k, of 16 "blen hdr"] a1(3) a0(6) n1(2,3) by simp
  have "rd (nm_nlh n2) 4 12 = rd (nm_nlh n1) 4 12" using rd_inside [OF k, of 4 12] n1(3) by simp
  then have e: "nlmsg_hdr n2 = (nlmsg_hdr n1)\<lparr>nlmsg_len := mlen n2\<rparr>" unfolding nlmsg_hdr_def by (rule nlh_cong) simp
  show "nlmsg_type (nlmsg_hdr n2) = u16 cmd" "nlmsg_flags (nlmsg_hdr n2) = u16 flags"
    using arg_cong [OF e, of nlmsg_type] arg_cong [OF e, of nlmsg_flags] arg_cong [OF a1(4), of nlmsg_type] arg_cong [OF a1(4), of nlmsg_flags] a0(6)
    by simp_all
qed

lemma message_fits:
  assumes "\<forall>a \<in> set as. attr_fits a" "16 + blen hdr + blen (attrs_bytes as) \<le> dsz" "dsz < 2147483648" "align4 (blen hdr) = blen hdr"
  obtains n0 n1 n2 where "nlmsg_alloc_simple True True dsz cmd flags = Some n0" "nlmsg_append n0 hdr 4 = Inr n1" "nla_put_all n1 as = Inr n2"
proof -
  obtain n0 where n0: "nlmsg_alloc_simple True True dsz cmd flags = Some n0"
    by (simp add: nlmsg_alloc_simple_def nlmsg_inherit_def nlmsg_alloc_def nlmsg_alloc_len_def Let_def)
  note a0 = nlmsg_alloc_simple_ok [OF n0 assms(3)]
  have l: "blen hdr mod 4 = 0" using align4_mod [of "blen hdr"] assms(4) by simp
  obtain n1 where n1: "nlmsg_append n0 hdr 4 = Inr n1" "nm_size n1 = nm_size n0"
    using nlmsg_append_cases [OF a0(1), of 4 hdr] assms(2,4) a0(2,6) by auto
  note a1 = nlmsg_append_frame [OF a0(1) n1(1)]
  have h1: "has_attrs n1 (16 + blen hdr) []" using a1(1,2) a0(6) assms(4) l by (simp add: has_attrs_def) presburger
  have m1: "mlen n1 = 16 + blen hdr" using a1(2) a0(6) assms(4) by simp
  have "mlen n1 + blen (attrs_bytes as) \<le> nm_size n1" using assms(2) unfolding m1 n1(2) a0(2) by simp
  from nla_put_all_fits [OF h1 assms(1) this] show ?thesis using that [OF n0 n1(1)] by auto
qed

text \<open>Parsing such a message gives a table with the attributes that were put.\<close>

lemma nlmsg_parse_built:
  assumes h: "has_attrs n hl as" and hl: "hl = 16 + hdrlen" and dist: "distinct (map fst (base_types as))"
    and known: "\<forall>(t, d) \<in> set (base_types as). t \<le> maxtype \<and> payload_ok (policy ! nat t) d" and max: "0 \<le> maxtype"
  obtains tb where "nlmsg_parse (nm_nlh n) 0 hdrlen maxtype (Some policy) = (Some tb, Inr ())"
    "\<And>t. int t \<le> maxtype \<Longrightarrow> entry_is (nm_nlh n) (tb ! t) (map_of (base_types as) (int t))"
proof -
  note a = has_attrsD [OF h] and w = wf_msgD [OF has_attrsD(1) [OF h]]
  have l: "0 \<le> hdrlen" "hdrlen mod 4 = 0" using a(2,3) hl by (auto simp: mod_add_eq) presburger
  then have al: "align4 hdrlen = hdrlen" by (simp add: align4_id)
  have b: "hl \<le> mlen n" "mlen n < 2147483648" using a(4) w by simp_all
  have na: "NLMSG_ALIGN hdrlen = hdrlen" using NLMSG_ALIGN_eq [of hdrlen] l al b hl by simp
  have nh: "nlh (nm_nlh n) 0 = nlmsg_hdr n" by (simp add: nlmsg_hdr_def)
  have u: "u32 (mlen n - 16) = mlen n - 16" "s32 (mlen n - 16) = mlen n - 16" "u32 (mlen n - 16 - hdrlen) = mlen n - 16 - hdrlen"
    "s32 (mlen n - 16 - hdrlen) = mlen n - 16 - hdrlen" "u32 (16 + hdrlen) = 16 + hdrlen" "s32 (16 + hdrlen) = 16 + hdrlen"
    using b hl l by simp_all
  have v: "nlmsg_valid_hdr (nlh (nm_nlh n) 0) hdrlen"
    unfolding nh nlmsg_valid_hdr_def nlmsg_msg_size_def nlmsg_size_def using u(5,6) b(1) hl by simp
  have d: "nlmsg_attrdata 0 hdrlen = hl"
    unfolding nlmsg_attrdata_def nlmsg_data_def NLMSG_HDRLEN_eq na hl by simp
  have e: "nlmsg_attrlen (nlh (nm_nlh n) 0) hdrlen = mlen n - hl"
    unfolding nh nlmsg_attrlen_def nlmsg_datalen_def NLMSG_HDRLEN_eq na u using b(1) hl by simp
  obtain tb where tb: "nla_parse maxtype (nm_nlh n) hl (mlen n - hl) (Some policy) = (tb, Inr ())"
    "\<And>t. int t \<le> maxtype \<Longrightarrow> entry_is (nm_nlh n) (tb ! t) (map_of (base_types as) (int t))"
    using nla_parse_has_attrs [OF h dist known max] by metis
  have "nlmsg_parse (nm_nlh n) 0 hdrlen maxtype (Some policy) = (Some tb, Inr ())"
    unfolding nlmsg_parse_def d e tb(1) using v by simp
  then show ?thesis using tb(2) by (rule that)
qed

text \<open>A request whose header and attributes fit is made, and its table has the attributes.\<close>

lemma request_parsed:
  assumes fits: "\<forall>a \<in> set as. attr_fits a" "16 + blen hdr + blen (attrs_bytes as) \<le> dsz" "dsz < 2147483648" and hdr: "align4 (blen hdr) = blen hdr"
    and known: "list_all (\<lambda>(t, d). t \<le> maxtype \<and> payload_ok (policy ! nat t) d) as" and dist: "distinct (map fst as)"
    and max: "0 \<le> maxtype" "maxtype < 16384"
  obtains msg tb where
    "(case nlmsg_alloc_simple True True dsz cmd flags of None \<Rightarrow> Inl (Err NLE_NOMEM)
      | Some msg \<Rightarrow> and_then (put_or_msgsize (nlmsg_append msg hdr 4)) (\<lambda>msg. put_or_msgsize (nla_put_all msg as))) = Inr msg"
    "rd (nm_nlh msg) 16 (blen hdr) = hdr" "nlmsg_type (nlmsg_hdr msg) = u16 cmd"
    "nlmsg_parse (nm_nlh msg) 0 (blen hdr) maxtype (Some policy) = (Some tb, Inr ())"
    "\<And>t. int t \<le> maxtype \<Longrightarrow> entry_is (nm_nlh msg) (tb ! t) (map_of as (int t))"
proof -
  obtain n0 n1 n2 where n: "nlmsg_alloc_simple True True dsz cmd flags = Some n0" "nlmsg_append n0 hdr 4 = Inr n1" "nla_put_all n1 as = Inr n2"
    using message_fits [OF fits hdr, of cmd flags] by blast
  note m = built_message [OF n(1) fits(3) n(2) hdr refl n(3) fits(1)]
  have bt: "base_types as = as" using known fits(1) max by (intro base_types_id) (fastforce simp: list_all_iff attr_fits_def)
  have "\<forall>(t, d) \<in> set as. t \<le> maxtype \<and> payload_ok (policy ! nat t) d" using known by (auto simp: list_all_iff)
  from nlmsg_parse_built [OF m(1) refl, unfolded bt, OF dist this max(1)] obtain tb where
    tb: "nlmsg_parse (nm_nlh n2) 0 (blen hdr) maxtype (Some policy) = (Some tb, Inr ())"
      "\<And>t. int t \<le> maxtype \<Longrightarrow> entry_is (nm_nlh n2) (tb ! t) (map_of as (int t))" by metis
  show ?thesis by (rule that [OF _ m(2,3) tb]) (simp add: n put_or_msgsize_def)
qed

section \<open>Reading payloads\<close>

lemma reads_u32: "reads buf p (le_bytes 4 v) \<Longrightarrow> nla_get_u32 buf p = u32 v"
  by (simp add: reads_def nla_get_u32_def le_int_bytes u32_def)

lemma reads_u8: "reads buf p (le_bytes 1 v) \<Longrightarrow> nla_get_u8 buf p = u8 v"
  by (simp add: reads_def nla_get_u8_def u8_def uint_word_of_int)

lemma reads_u16: "reads buf p (le_bytes 2 v) \<Longrightarrow> nla_get_u16 buf p = u16 v"
  by (simp add: reads_def nla_get_u16_def le_int_bytes u16_def)

lemma reads_string:
  assumes "reads buf p (s @ [0])" "blen s < dstsize" "blen dst = dstsize" "dstsize < 65536"
  shows "fst (nla_strlcpy dst buf p dstsize) = s @ zeros (dstsize - blen s)"
proof -
  have r: "rd buf (p + 4) (blen s) = s" "rd buf (4 + (p + blen s)) 1 = [0]" "nla_len buf p = blen s + 1"
    using assms(1) rd_append_iff [of "p + 4" buf s "[0]"] by (simp_all add: reads_def ac_simps)
  have "wr (wr dst 0 (zeros dstsize)) 0 s = s @ zeros (dstsize - blen s)"
    using assms(2-4) by (simp add: wr_def zeros_def)
  then show ?thesis using r assms(2,4) by (simp add: nla_strlcpy_def Let_def add.assoc)
qed

text \<open>An address that is read from an attribute.\<close>

lemma reads_addr:
  assumes "reads buf p d" "blen d < 65536"
  shows "nl_addr_set_prefixlen (the (nl_addr_alloc_attr True buf p family)) plen =
    \<lparr>a_family = family, a_maxsize = blen d, a_len = blen d, a_prefixlen = s32 plen, a_refcnt = 1, a_addr = d\<rparr>"
proof -
  have "rd (drop (nat (p + 4)) buf) 0 (blen d) = d" using assms(1) by (simp add: reads_def rd_def)
  then show ?thesis using assms
    by (simp add: reads_def nl_addr_alloc_attr_def nl_addr_build_def nl_addr_alloc_def nl_addr_set_prefixlen_def Let_def wr_def zeros_def)
qed

text \<open>An address as the parsers make it from the payload of an attribute.\<close>

definition raw_addr :: "int \<Rightarrow> byte list \<Rightarrow> nl_addr" where
  "raw_addr family d =
     \<lparr>a_family = family, a_maxsize = blen d, a_len = blen d, a_prefixlen = blen d * 8, a_refcnt = 1, a_addr = d\<rparr>"

lemma reads_raw_addr:
  assumes "reads buf p d" "blen d < 65536" "family \<noteq> AF_MPLS"
  shows "nl_addr_alloc_attr True buf p family = Some (raw_addr family d)"
proof -
  have "rd (drop (nat (p + 4)) buf) 0 (blen d) = d" using assms(1) by (simp add: reads_def rd_def)
  then show ?thesis using assms
    by (simp add: reads_def raw_addr_def nl_addr_alloc_attr_def nl_addr_build_def nl_addr_alloc_def Let_def wr_def zeros_def)
qed

lemma raw_addr_differs:
  assumes "blen d \<le> 64" "blen d' \<le> 64"
  shows "addr_differs (Some (raw_addr family d)) (Some (raw_addr family d')) \<longleftrightarrow> d \<noteq> d'"
proof (cases "d = d'")
  case True
  then show ?thesis by (simp add: addr_differs_def nl_addr_cmp_def)
next
  case False
  have "s32 (blen d - blen d') = blen d - blen d'" using assms by simp
  moreover have "length d = length d' \<Longrightarrow> rd d 0 (blen d') = d" using rd_whole [of d] by simp
  ultimately show ?thesis using False memcmp_bytes_0 [of d d']
    by (auto simp: addr_differs_def nl_addr_cmp_def raw_addr_def Let_def)
qed

section \<open>Optional attributes\<close>

definition opt :: "bool \<Rightarrow> attr \<Rightarrow> attr list" where
  "opt b a = (if b then [a] else [])"

lemma map_of_opt: "map_of (opt b (t, d) @ as) k = (if b \<and> k = t then Some d else map_of as k)"
  by (simp add: opt_def)

definition small_addr :: "nl_addr \<Rightarrow> bool" where
  "small_addr a \<longleftrightarrow> 0 \<le> a_len a \<and> a_len a \<le> 64 \<and> a_len a \<le> blen (a_addr a)"

definition addr_bytes_of :: "nl_addr option \<Rightarrow> byte list" where
  "addr_bytes_of a = (case a of None \<Rightarrow> [] | Some a \<Rightarrow> rd (a_addr a) 0 (a_len a))"

definition has_attr :: "'d nl_object \<Rightarrow> int \<Rightarrow> bool" where
  "has_attr obj attr \<longleftrightarrow> ce_mask obj AND attr \<noteq> 0"

lemma nla_put_block:
  assumes "0 \<le> l" "l \<le> blen d"
  shows "nla_put n t l d = nla_put n t (blen (rd d 0 l)) (rd d 0 l)"
  using assms rd_rd [of 0 0 l l d] by (simp add: nla_put_def length_rd split: option.split)

lemma nla_put_text:
  assumes "0 \<in> set s"
  shows "nla_put_string n t s = nla_put n t (blen (text_of s @ [0])) (text_of s @ [0])"
proof -
  have "\<exists>r. s = text_of s @ 0 # r" using split_list_first [OF assms] by (auto simp: text_of_def)
  then obtain r where r: "s = text_of s @ 0 # r" by blast
  have "rd s 0 (blen (text_of s) + 1) = text_of s @ [0]" by (subst r) (simp add: rd_def nat_add_distrib)
  moreover have "blen (text_of s) + 1 \<le> blen s" by (subst (2) r) simp
  ultimately show ?thesis using nla_put_block [of "blen (text_of s) + 1" s n t]
    by (simp add: nla_put_string_def strlen_def text_of_def [symmetric])
qed

text \<open>A chain of \<open>NLA_PUT\<close> is one list of attributes.\<close>

abbreviation put_attrs :: "attr list \<Rightarrow> nl_msg \<Rightarrow> nl_msg res" where
  "put_attrs as msg \<equiv> put_or_msgsize (nla_put_all msg as)"

lemma put_attrs_one: "put_or_msgsize (nla_put msg t (blen d) d) = put_attrs [(t, d)] msg"
  by (simp split: sum.split)

lemma put_if_attrs: "put_if b (\<lambda>msg. put_attrs [a] msg) msg = put_attrs (opt b a) msg"
  by (simp add: put_if_def opt_def put_or_msgsize_def)

lemma nla_put_all_append:
  "nla_put_all msg (as @ bs) = (case nla_put_all msg as of Inl e \<Rightarrow> Inl e | Inr msg \<Rightarrow> nla_put_all msg bs)"
  by (induction msg as rule: nla_put_all.induct) (auto split: sum.splits)

lemma put_attrs_append: "and_then (put_attrs as msg) (\<lambda>msg. put_attrs bs msg) = put_attrs (as @ bs) msg"
  by (auto simp: nla_put_all_append put_or_msgsize_def split: sum.splits fail.splits)

lemma put_if_cong: "(b \<Longrightarrow> put msg = put' msg) \<Longrightarrow> put_if b put msg = put_if b put' msg"
  by (simp add: put_if_def)

lemma put_if_one: "put_if b (\<lambda>msg. put_or_msgsize (nla_put msg t (blen d) d)) msg = put_attrs (opt b (t, d)) msg"
  unfolding put_attrs_one by (rule put_if_attrs)

lemma put_if_u32: "put_if b (\<lambda>msg. put_or_msgsize (nla_put_u32 msg t v)) msg = put_attrs (opt b (t, le_bytes 4 v)) msg"
  using put_if_one [of b t "le_bytes 4 v" msg] by (simp add: nla_put_u32_def)

lemma put_if_u8: "put_if b (\<lambda>msg. put_or_msgsize (nla_put_u8 msg t v)) msg = put_attrs (opt b (t, le_bytes 1 v)) msg"
  using put_if_one [of b t "le_bytes 1 v" msg] by (simp add: nla_put_u8_def)

lemma put_if_text:
  "0 \<in> set s \<Longrightarrow> put_if b (\<lambda>msg. put_or_msgsize (nla_put_string msg t s)) msg = put_attrs (opt b (t, text_of s @ [0])) msg"
  unfolding nla_put_text by (rule put_if_one)

lemma put_if_addr:
  assumes "b \<Longrightarrow> \<exists>a. x = Some a \<and> small_addr a"
  shows "put_if b (\<lambda>msg. NLA_PUT_ADDR msg t x) msg = put_attrs (opt b (t, addr_bytes_of x)) msg"
proof -
  have "NLA_PUT_ADDR msg t x = put_or_msgsize (nla_put msg t (blen (addr_bytes_of x)) (addr_bytes_of x))" if bb: b
  proof -
    obtain a where a: "x = Some a" "0 \<le> a_len a" "a_len a \<le> 64" "a_len a \<le> blen (a_addr a)"
      using assms [OF bb] by (auto simp: small_addr_def)
    then show ?thesis using nla_put_block [OF a(2,4), of msg t]
      by (simp add: NLA_PUT_ADDR_def addr_bytes_of_def nl_addr_get_len_def nl_addr_get_binary_addr_def)
  qed
  then show ?thesis unfolding put_if_one [symmetric] by (rule put_if_cong)
qed

lemma blen_text: "0 \<in> set s \<Longrightarrow> blen (text_of s) < blen s"
  unfolding text_of_def by (induction s) auto

lemma blen_addr_bytes_of: "\<exists>a. x = Some a \<and> small_addr a \<Longrightarrow> blen (addr_bytes_of x) \<le> 64"
  unfolding addr_bytes_of_def small_addr_def using order_trans [OF length_rd_le] by fastforce

text \<open>Optional attributes one by one, without a case distinction on which are there.\<close>

lemma fst_opt: "t \<in> fst ` set (opt b (t', d) @ as) \<longleftrightarrow> (b \<and> t = t') \<or> t \<in> fst ` set as"
  "t \<in> fst ` set (opt b (t', d)) \<longleftrightarrow> b \<and> t = t'"
  by (auto simp: opt_def)

lemma distinct_opt: "distinct (map fst (opt b (t, d) @ as)) \<longleftrightarrow> (b \<longrightarrow> t \<notin> fst ` set as) \<and> distinct (map fst as)"
  "distinct (map fst (opt b a))"
  by (auto simp: opt_def)

lemma list_all_opt: "list_all P (opt b a @ as) \<longleftrightarrow> (b \<longrightarrow> P a) \<and> list_all P as" "list_all P (opt b a) \<longleftrightarrow> (b \<longrightarrow> P a)"
  by (auto simp: opt_def)

definition sent_name :: "byte list \<Rightarrow> byte list" where
  "sent_name s = text_of s @ zeros (IFNAMSIZ - blen (text_of s))"

lemma has_attr_bit: "A = 2 ^ k \<Longrightarrow> (if has_attr rule A then A else 0) = ce_mask rule AND A"
  by (auto simp: has_attr_def and_exp_eq_0_iff_not_bit bit_and_iff bit_exp_iff intro!: bit_eqI)

text \<open>One block of the parser on an entry; \<open>sett\<close> and \<open>get\<close> are the field.\<close>

lemma if_attr_entry:
  assumes e: "entry_is buf e (if b then Some d else None)" and u: "\<And>p. reads buf p d \<Longrightarrow> upd p (ce_data obj) = sett v (ce_data obj)"
    and id: "sett (get (ce_data obj)) (ce_data obj) = ce_data obj"
  shows "if_attr e flag upd obj =
    obj\<lparr>ce_data := sett (if b then v else get (ce_data obj)) (ce_data obj), ce_mask := ce_mask obj OR (if b then flag else 0)\<rparr>"
proof (cases b)
  case True
  then obtain p where p: "e = Some p" "reads buf p d" using e by (auto simp: entry_is_def)
  then show ?thesis using True u [OF p(2)] by (simp add: if_attr_def)
next
  case False
  then show ?thesis using e id by (simp add: if_attr_def entry_is_def)
qed

lemma if_attr_u32:
  assumes "entry_is buf e (if b then Some (le_bytes 4 v) else None)" "0 \<le> v" "v < 4294967296" "sett (get (ce_data obj)) (ce_data obj) = ce_data obj"
  shows "if_attr e flag (\<lambda>p. sett (nla_get_u32 buf p)) obj =
    obj\<lparr>ce_data := sett (if b then v else get (ce_data obj)) (ce_data obj), ce_mask := ce_mask obj OR (if b then flag else 0)\<rparr>"
  using assms reads_u32 [of buf _ v] by (intro if_attr_entry) auto

lemma if_attr_u8:
  assumes "entry_is buf e (if b then Some (le_bytes 1 v) else None)" "0 \<le> v" "v < 256" "sett (get (ce_data obj)) (ce_data obj) = ce_data obj"
  shows "if_attr e flag (\<lambda>p. sett (nla_get_u8 buf p)) obj =
    obj\<lparr>ce_data := sett (if b then v else get (ce_data obj)) (ce_data obj), ce_mask := ce_mask obj OR (if b then flag else 0)\<rparr>"
  using assms reads_u8 [of buf _ v] by (intro if_attr_entry) auto

lemma if_attr_text:
  assumes "entry_is buf e (if b then Some (text_of s @ [0]) else None)" "0 \<in> set s" "blen s = IFNAMSIZ" "blen (get (ce_data obj)) = IFNAMSIZ"
    "sett (get (ce_data obj)) (ce_data obj) = ce_data obj"
  shows "if_attr e flag (\<lambda>p r. sett (fst (nla_strlcpy (get r) buf p IFNAMSIZ)) r) obj =
    obj\<lparr>ce_data := sett (if b then sent_name s else get (ce_data obj)) (ce_data obj), ce_mask := ce_mask obj OR (if b then flag else 0)\<rparr>"
  using assms blen_text [of s] reads_string [of buf _ "text_of s" IFNAMSIZ "get (ce_data obj)"]
  by (intro if_attr_entry) (auto simp: sent_name_def IFNAMSIZ_def)

text \<open>A request is short.\<close>

lemma length_opt: "length as \<le> n \<Longrightarrow> length (opt b a @ as) \<le> Suc n" "length (opt b a) \<le> Suc 0"
  by (simp_all add: opt_def)

lemma blen_attrs_le: "list_all (\<lambda>(t, d). blen d \<le> 64) as \<Longrightarrow> blen (attrs_bytes as) \<le> 68 * int (length as)"
proof (induction as)
  case (Cons a as)
  have "align4 (blen (snd a)) \<le> 64" using Cons.prems align4_least [of "blen (snd a)" 64] by (auto simp: split_def)
  then show ?case using Cons by (simp add: split_def)
qed simp

lemma mask_or: "(m OR f) AND A \<noteq> 0 \<longleftrightarrow> m AND A \<noteq> 0 \<or> f AND A \<noteq> (0 :: int)"
  by (simp add: bit.conj_disj_distrib2 or_eq_0_iff)

lemma mask_and: "(m AND f) AND A \<noteq> (0 :: int) \<Longrightarrow> m AND A \<noteq> 0"
  by (metis and.assoc and.commute and_zero_eq)

lemma u_ranges: "0 \<le> u8 v" "u8 v < 256" "0 \<le> u16 v" "u16 v < 65536" "0 \<le> u32 v" "u32 v < 4294967296"
  by (simp_all add: u8_def u16_def u32_def)

lemma name_stored:
  assumes "blen dev \<le> IFNAMSIZ - 1" "blen s = IFNAMSIZ"
  shows "blen (wr s 0 (dev @ [0])) = IFNAMSIZ" "0 \<in> set (wr s 0 (dev @ [0]))"
  using assms by (auto simp: wr_def IFNAMSIZ_def)

end
