(* ===== verification/Nl_Rule_Msg.thy ===== *)
theory Nl_Rule_Msg
  imports Nl_Readback
begin

unbundle bit_operations_syntax

text \<open>
  Rules on the wire: what \<open>build_rule_msg\<close> writes is what \<open>rule_msg_parser\<close> reads. The setters keep rules well
  formed, so that every rule a client can make is sent completely.
\<close>

section \<open>The attributes of a request\<close>

definition rule_attr_list :: "rule_obj \<Rightarrow> attr list" where
  "rule_attr_list tmpl =
     (let r = ce_data tmpl; has = (\<lambda>attr. ce_mask tmpl AND attr \<noteq> 0) in
      opt True (15, le_bytes 4 (r_table r)) @
      opt (has RULE_ATTR_SRC) (2, addr_bytes_of (r_src r)) @ opt (has RULE_ATTR_DST) (1, addr_bytes_of (r_dst r)) @
      opt (has RULE_ATTR_IIFNAME) (3, text_of (r_iifname r) @ [0]) @ opt (has RULE_ATTR_OIFNAME) (17, text_of (r_oifname r) @ [0]) @
      opt (has RULE_ATTR_PRIO) (6, le_bytes 4 (r_prio r)) @ opt (has RULE_ATTR_MARK) (10, le_bytes 4 (r_mark r)) @
      opt (has RULE_ATTR_MASK) (16, le_bytes 4 (r_mask r)) @ opt (has RULE_ATTR_GOTO) (4, le_bytes 4 (r_goto r)) @
      opt (has RULE_ATTR_FLOW) (11, le_bytes 4 (r_flow r)) @ opt (has RULE_ATTR_L3MDEV) (19, le_bytes 1 (r_l3mdev r)) @
      opt (has RULE_ATTR_IP_PROTO) (22, le_bytes 1 (r_ip_proto r)) @ opt (has RULE_ATTR_SPORT) (23, ports_bytes (r_sport r)) @
      opt (has RULE_ATTR_DPORT) (24, ports_bytes (r_dport r)) @ opt (has RULE_ATTR_PROTOCOL) (21, le_bytes 1 (r_protocol r)))"

text \<open>The values a rule can have: numbers of their widths, terminated names, addresses where the mask says so.\<close>

definition wf_rule :: "rule_obj \<Rightarrow> bool" where
  "wf_rule rule \<longleftrightarrow>
     (let r = ce_data rule in
      (\<forall>v \<in> set [r_family r, r_action r, r_dsfield r, r_l3mdev r, r_protocol r, r_ip_proto r]. 0 \<le> v \<and> v < 256) \<and>
      (\<forall>v \<in> set [r_table r, r_flags r, r_prio r, r_mark r, r_mask r, r_goto r, r_flow r]. 0 \<le> v \<and> v < 4294967296) \<and>
      (\<forall>pr \<in> set [r_sport r, r_dport r]. 0 \<le> pr_start pr \<and> pr_start pr < 65536 \<and> 0 \<le> pr_end pr \<and> pr_end pr < 65536) \<and>
      (\<forall>s \<in> set [r_iifname r, r_oifname r]. blen s = IFNAMSIZ \<and> 0 \<in> set s) \<and>
      (has_attr rule RULE_ATTR_SRC \<longrightarrow> (case r_src r of None \<Rightarrow> False | Some a \<Rightarrow> small_addr a)) \<and>
      (has_attr rule RULE_ATTR_DST \<longrightarrow> (case r_dst r of None \<Rightarrow> False | Some a \<Rightarrow> small_addr a)))"

lemma wf_rule_addrs:
  assumes "wf_rule rule"
  shows "has_attr rule RULE_ATTR_SRC \<Longrightarrow> \<exists>a. r_src (ce_data rule) = Some a \<and> small_addr a"
    "has_attr rule RULE_ATTR_DST \<Longrightarrow> \<exists>a. r_dst (ce_data rule) = Some a \<and> small_addr a"
  using assms by (auto simp: wf_rule_def Let_def split: option.splits)

lemma put_if_ports: "put_if b (\<lambda>msg. put_or_msgsize (nla_put msg t 4 (ports_bytes pr))) msg = put_attrs (opt b (t, ports_bytes pr)) msg"
  using put_if_one [of b t "ports_bytes pr" msg] by (simp add: ports_bytes_def)

definition plen_of :: "bool \<Rightarrow> nl_addr option \<Rightarrow> int" where
  "plen_of b a = (if b then nl_addr_get_prefixlen (the a) else 0)"

lemma prefix_if_eq: "(b \<Longrightarrow> x \<noteq> None) \<Longrightarrow> prefix_if b x = Inr (plen_of b x)"
  by (auto simp: prefix_if_def plen_of_def)

text \<open>The request for a well-formed rule, as a header and a list of attributes.\<close>

lemma build_rule_msg_eq:
  assumes wf: "wf_rule tmpl" and fam: "has_attr tmpl RULE_ATTR_FAMILY"
  shows "build_rule_msg True True dsz tmpl cmd flags =
    (case nlmsg_alloc_simple True True dsz cmd flags of
       None \<Rightarrow> Inl (Err NLE_NOMEM)
     | Some msg \<Rightarrow>
         and_then (put_or_msgsize (nlmsg_append msg (rule_hdr (ce_data tmpl)
             (plen_of (has_attr tmpl RULE_ATTR_SRC) (r_src (ce_data tmpl)))
             (plen_of (has_attr tmpl RULE_ATTR_DST) (r_dst (ce_data tmpl)))) 4)) (put_attrs (rule_attr_list tmpl)))"
proof -
  have src: "has_attr tmpl RULE_ATTR_SRC \<Longrightarrow> \<exists>a. r_src (ce_data tmpl) = Some a \<and> small_addr a"
    and dst: "has_attr tmpl RULE_ATTR_DST \<Longrightarrow> \<exists>a. r_dst (ce_data tmpl) = Some a \<and> small_addr a"
    and nam: "0 \<in> set (r_iifname (ce_data tmpl))" "0 \<in> set (r_oifname (ce_data tmpl))"
    using wf wf_rule_addrs [OF wf] by (simp_all add: wf_rule_def Let_def)
  have tab: "put_or_msgsize (nla_put_u32 msg 15 v) = put_attrs (opt True (15, le_bytes 4 v)) msg" for msg v
    using put_if_u32 [of True 15 v msg] by (simp add: put_if_def)
  have pre: "prefix_if (has_attr tmpl RULE_ATTR_SRC) (r_src (ce_data tmpl)) =
      Inr (plen_of (has_attr tmpl RULE_ATTR_SRC) (r_src (ce_data tmpl)))"
    "prefix_if (has_attr tmpl RULE_ATTR_DST) (r_dst (ce_data tmpl)) =
      Inr (plen_of (has_attr tmpl RULE_ATTR_DST) (r_dst (ce_data tmpl)))"
    using src dst by (auto intro!: prefix_if_eq)
  note pa = put_if_addr [OF src] put_if_addr [OF dst]
  show ?thesis
    using fam
    by (simp only: build_rule_msg_def Let_def has_attr_def [symmetric] if_not_P not_not simp_thms pre and_then_simps tab put_if_u32 put_if_u8
        put_if_ports put_if_text [OF nam(1)] put_if_text [OF nam(2)] pa put_attrs_append rule_attr_list_def append_assoc if_False not_True_eq_False)
qed

section \<open>The attributes seen by the parser\<close>

lemma rule_policy_nth:
  "rule_policy ! Suc 0 = \<lparr>pol_type = 0, pol_minlen = 0, pol_maxlen = 0\<rparr>" "rule_policy ! 2 = \<lparr>pol_type = 0, pol_minlen = 0, pol_maxlen = 0\<rparr>"
  "rule_policy ! 3 = \<lparr>pol_type = 5, pol_minlen = 0, pol_maxlen = 16\<rparr>" "rule_policy ! 17 = \<lparr>pol_type = 5, pol_minlen = 0, pol_maxlen = 16\<rparr>"
  "\<forall>t \<in> {4, 6, 10, 11, 15, 16}. rule_policy ! t = \<lparr>pol_type = 3, pol_minlen = 0, pol_maxlen = 0\<rparr>"
  "\<forall>t \<in> {19, 21, 22}. rule_policy ! t = \<lparr>pol_type = 1, pol_minlen = 0, pol_maxlen = 0\<rparr>"
  "\<forall>t \<in> {23, 24}. rule_policy ! t = \<lparr>pol_type = 0, pol_minlen = 4, pol_maxlen = 4\<rparr>"
  by code_simp+

lemma rule_attrs_distinct: "distinct (map fst (rule_attr_list tmpl))"
  unfolding rule_attr_list_def Let_def distinct_opt fst_opt by (simp add: distinct_opt(2))

lemma rule_attrs_ok:
  assumes wf: "wf_rule tmpl"
  shows "list_all (\<lambda>(t, d). 0 \<le> t \<and> t \<le> FRA_MAX \<and> payload_ok (rule_policy ! nat t) d \<and> blen d \<le> 64) (rule_attr_list tmpl)"
proof -
  have l: "has_attr tmpl RULE_ATTR_SRC \<Longrightarrow> blen (addr_bytes_of (r_src (ce_data tmpl))) \<le> 64"
    "has_attr tmpl RULE_ATTR_DST \<Longrightarrow> blen (addr_bytes_of (r_dst (ce_data tmpl))) \<le> 64"
    using wf_rule_addrs [OF wf] blen_addr_bytes_of by blast+
  have t: "blen (text_of (r_iifname (ce_data tmpl))) < 16" "blen (text_of (r_oifname (ce_data tmpl))) < 16"
    using wf blen_text [of "r_iifname (ce_data tmpl)"] blen_text [of "r_oifname (ce_data tmpl)"]
    by (simp_all add: wf_rule_def Let_def IFNAMSIZ_def)
  show ?thesis
    unfolding rule_attr_list_def Let_def has_attr_def [symmetric] list_all_opt prod.case using l t
    by (simp add: rule_policy_nth payload_ok_def nla_attr_minlen_def ports_bytes_def FRA_MAX_def
        NLA_TYPE_MAX_def NLA_U8_def NLA_U16_def NLA_U32_def NLA_U64_def NLA_STRING_def NLA_FLAG_def)
qed

text \<open>
  The rule that arrives: attributes that are not in the mask have their initial values, addresses take the
  family of the rule.
\<close>

definition sent_addr :: "int \<Rightarrow> nl_addr \<Rightarrow> nl_addr" where
  "sent_addr family a =
     \<lparr>a_family = family, a_maxsize = a_len a, a_len = a_len a, a_prefixlen = u8 (a_prefixlen a), a_refcnt = 1,
      a_addr = rd (a_addr a) 0 (a_len a)\<rparr>"

definition sent_rule :: "rule_obj \<Rightarrow> rtnl_rule" where
  "sent_rule tmpl =
     (let r = ce_data tmpl; has = has_attr tmpl in
      \<lparr>r_family = r_family r, r_action = r_action r, r_dsfield = r_dsfield r,
       r_l3mdev = (if has RULE_ATTR_L3MDEV then r_l3mdev r else 0),
       r_protocol = (if has RULE_ATTR_PROTOCOL then r_protocol r else 0),
       r_ip_proto = (if has RULE_ATTR_IP_PROTO then r_ip_proto r else 0),
       r_table = r_table r, r_flags = r_flags r,
       r_prio = (if has RULE_ATTR_PRIO then r_prio r else 0), r_mark = (if has RULE_ATTR_MARK then r_mark r else 0),
       r_mask = (if has RULE_ATTR_MASK then r_mask r else 0), r_goto = (if has RULE_ATTR_GOTO then r_goto r else 0),
       r_flow = (if has RULE_ATTR_FLOW then r_flow r else 0),
       r_src = (if has RULE_ATTR_SRC then map_option (sent_addr (r_family r)) (r_src r) else None),
       r_dst = (if has RULE_ATTR_DST then map_option (sent_addr (r_family r)) (r_dst r) else None),
       r_iifname = (if has RULE_ATTR_IIFNAME then sent_name (r_iifname r) else zeros IFNAMSIZ),
       r_oifname = (if has RULE_ATTR_OIFNAME then sent_name (r_oifname r) else zeros IFNAMSIZ),
       r_sport = (if has RULE_ATTR_SPORT then r_sport r else no_port_range),
       r_dport = (if has RULE_ATTR_DPORT then r_dport r else no_port_range)\<rparr>)"

definition sent_mask :: "rule_obj \<Rightarrow> int" where
  "sent_mask tmpl =
     RULE_ATTR_FAMILY OR RULE_ATTR_ACTION OR RULE_ATTR_FLAGS OR
     (if r_table (ce_data tmpl) \<noteq> 0 then RULE_ATTR_TABLE else 0) OR (if r_dsfield (ce_data tmpl) \<noteq> 0 then RULE_ATTR_DSFIELD else 0) OR
     (ce_mask tmpl AND (RULE_ATTR_IIFNAME OR RULE_ATTR_OIFNAME OR RULE_ATTR_PRIO OR RULE_ATTR_MARK OR RULE_ATTR_MASK OR RULE_ATTR_GOTO OR
        RULE_ATTR_SRC OR RULE_ATTR_DST OR RULE_ATTR_FLOW OR RULE_ATTR_L3MDEV OR RULE_ATTR_PROTOCOL OR RULE_ATTR_IP_PROTO OR
        RULE_ATTR_SPORT OR RULE_ATTR_DPORT))"

text \<open>The mask as the parser collects it.\<close>

lemma sent_mask_eq:
  defines "f \<equiv> \<lambda>b (A :: int). if b then A else 0"
  shows "sent_mask tmpl =
    RULE_ATTR_FAMILY OR RULE_ATTR_ACTION OR RULE_ATTR_FLAGS OR f (r_table (ce_data tmpl) \<noteq> 0) RULE_ATTR_TABLE OR
    f (r_dsfield (ce_data tmpl) \<noteq> 0) RULE_ATTR_DSFIELD OR
    f (has_attr tmpl RULE_ATTR_IIFNAME) RULE_ATTR_IIFNAME OR f (has_attr tmpl RULE_ATTR_OIFNAME) RULE_ATTR_OIFNAME OR
    f (has_attr tmpl RULE_ATTR_PRIO) RULE_ATTR_PRIO OR f (has_attr tmpl RULE_ATTR_MARK) RULE_ATTR_MARK OR
    f (has_attr tmpl RULE_ATTR_MASK) RULE_ATTR_MASK OR f (has_attr tmpl RULE_ATTR_GOTO) RULE_ATTR_GOTO OR
    f (has_attr tmpl RULE_ATTR_SRC) RULE_ATTR_SRC OR f (has_attr tmpl RULE_ATTR_DST) RULE_ATTR_DST OR
    f (has_attr tmpl RULE_ATTR_FLOW) RULE_ATTR_FLOW OR f (has_attr tmpl RULE_ATTR_L3MDEV) RULE_ATTR_L3MDEV OR
    f (has_attr tmpl RULE_ATTR_PROTOCOL) RULE_ATTR_PROTOCOL OR f (has_attr tmpl RULE_ATTR_IP_PROTO) RULE_ATTR_IP_PROTO OR
    f (has_attr tmpl RULE_ATTR_SPORT) RULE_ATTR_SPORT OR f (has_attr tmpl RULE_ATTR_DPORT) RULE_ATTR_DPORT"
proof -
  have k: "RULE_ATTR_IIFNAME = 2 ^ 4" "RULE_ATTR_OIFNAME = 2 ^ 5" "RULE_ATTR_PRIO = 2 ^ 6" "RULE_ATTR_MARK = 2 ^ 7" "RULE_ATTR_MASK = 2 ^ 8"
    "RULE_ATTR_GOTO = 2 ^ 9" "RULE_ATTR_SRC = 2 ^ 10" "RULE_ATTR_DST = 2 ^ 11" "RULE_ATTR_FLOW = 2 ^ 13" "RULE_ATTR_L3MDEV = 2 ^ 14"
    "RULE_ATTR_PROTOCOL = 2 ^ 15" "RULE_ATTR_IP_PROTO = 2 ^ 16" "RULE_ATTR_SPORT = 2 ^ 17" "RULE_ATTR_DPORT = 2 ^ 18"
    by (simp_all add: rule_attr_defs)
  show ?thesis unfolding sent_mask_def f_def bit.conj_disj_distrib k [THEN has_attr_bit] or.assoc ..
qed

lemma reads_ports:
  assumes "reads buf p (ports_bytes pr)" "0 \<le> pr_start pr" "pr_start pr < 65536" "0 \<le> pr_end pr" "pr_end pr < 65536"
  shows "rule_ports buf p = pr"
proof -
  have "rd buf (p + 4) 2 = le_bytes 2 (pr_start pr)" "rd buf (6 + p) 2 = le_bytes 2 (pr_end pr)"
    using assms(1) rd_append_iff [of "p + 4" buf "le_bytes 2 (pr_start pr)" "le_bytes 2 (pr_end pr)"] by (simp_all add: reads_def ports_bytes_def)
  then show ?thesis using assms(2-5) by (simp add: rule_ports_def get16_def le_int_bytes)
qed

lemma if_attr_ports:
  assumes "entry_is buf e (if b then Some (ports_bytes pr) else None)" "0 \<le> pr_start pr" "pr_start pr < 65536" "0 \<le> pr_end pr" "pr_end pr < 65536"
    "sett (get (ce_data obj)) (ce_data obj) = ce_data obj"
  shows "if_attr e flag (\<lambda>p. sett (rule_ports buf p)) obj =
    obj\<lparr>ce_data := sett (if b then pr else get (ce_data obj)) (ce_data obj), ce_mask := ce_mask obj OR (if b then flag else 0)\<rparr>"
  using assms reads_ports [of buf _ pr] by (intro if_attr_entry) auto

lemma if_attr_addr:
  assumes "entry_is buf e (if b then Some (addr_bytes_of x) else None)" "b \<Longrightarrow> \<exists>a. x = Some a \<and> small_addr a"
    "plen = u8 (plen_of b x)" "sett (get (ce_data obj)) (ce_data obj) = ce_data obj"
  shows "if_attr e flag (\<lambda>p. sett (Some (rule_addr buf p family plen))) obj =
    obj\<lparr>ce_data := sett (if b then map_option (sent_addr family) x else get (ce_data obj)) (ce_data obj), ce_mask := ce_mask obj OR (if b then flag else 0)\<rparr>"
proof (cases b)
  case True
  then obtain a where a: "x = Some a" "small_addr a" using assms(2) by blast
  have l: "blen (rd (a_addr a) 0 (a_len a)) = a_len a" "a_len a \<le> 64" using a(2) by (auto simp: small_addr_def length_rd)
  have "0 \<le> u8 (a_prefixlen a)" "u8 (a_prefixlen a) < 256" by (simp_all add: u8_def)
  then have "s32 (u8 (a_prefixlen a)) = u8 (a_prefixlen a)" by simp
  moreover have "u8 (u32 (a_prefixlen a)) = u8 (a_prefixlen a)" by (simp add: u8_def u32_def mod_mod_cancel)
  ultimately have "rule_addr buf p family plen = sent_addr family a" if "reads buf p (addr_bytes_of x)" for p
    using reads_addr [OF that, of family plen] l True a assms(3)
    by (simp add: rule_addr_def sent_addr_def addr_bytes_of_def plen_of_def nl_addr_get_prefixlen_def)
  then show ?thesis using assms(1,4) a(1) by (intro if_attr_entry) auto
next
  case False
  then show ?thesis using assms(1,4) by (simp add: if_attr_def entry_is_def)
qed

text \<open>The table attribute is always there.\<close>

lemma rule_table_entry:
  assumes "entry_is buf e (Some (le_bytes 4 v))" "0 \<le> v" "v < 4294967296"
  shows "rule_table buf e obj = obj\<lparr>ce_data := (ce_data obj)\<lparr>r_table := v\<rparr>, ce_mask := ce_mask obj OR (if v \<noteq> 0 then RULE_ATTR_TABLE else 0)\<rparr>"
  using assms reads_u32 [of buf _ v] by (auto simp: rule_table_def entry_is_def)

text \<open>The header.\<close>

lemma rule_hdr_fields:
  assumes "rd buf 16 12 = rule_hdr r sl dl"
  shows "le_int (rd buf 16 1) = u8 (r_family r)" "le_int (rd buf 17 1) = u8 dl" "le_int (rd buf 18 1) = u8 sl"
    "le_int (rd buf 19 1) = u8 (r_dsfield r)" "le_int (rd buf 20 1) = u8 (r_table r)" "le_int (rd buf 23 1) = u8 (r_action r)"
    "get32 buf 24 = u32 (r_flags r)"
proof -
  have sub: "rd buf (16 + k) m = rd (rule_hdr r sl dl) k m" if "0 \<le> k" "k + m \<le> 12" for k m
    using rd_rd [of 16 k m 12 buf] that assms by simp
  have h: "rd (rule_hdr r sl dl) 0 1 = le_bytes 1 (r_family r)" "rd (rule_hdr r sl dl) 1 1 = le_bytes 1 dl"
    "rd (rule_hdr r sl dl) 2 1 = le_bytes 1 sl" "rd (rule_hdr r sl dl) 3 1 = le_bytes 1 (r_dsfield r)"
    "rd (rule_hdr r sl dl) 4 1 = le_bytes 1 (r_table r)" "rd (rule_hdr r sl dl) 7 1 = le_bytes 1 (r_action r)"
    "rd (rule_hdr r sl dl) 8 4 = le_bytes 4 (r_flags r)"
    by (simp_all add: rule_hdr_def rd_def zeros_def numeral_eq_Suc)
  note f = sub [of 0 1] sub [of 1 1] sub [of 2 1] sub [of 3 1] sub [of 4 1] sub [of 7 1] sub [of 8 4]
  have "rd buf 16 1 = le_bytes 1 (r_family r)" "rd buf 17 1 = le_bytes 1 dl" "rd buf 18 1 = le_bytes 1 sl"
    "rd buf 19 1 = le_bytes 1 (r_dsfield r)" "rd buf 20 1 = le_bytes 1 (r_table r)" "rd buf 23 1 = le_bytes 1 (r_action r)"
    "rd buf 24 4 = le_bytes 4 (r_flags r)"
    using f unfolding h by simp_all
  then show "le_int (rd buf 16 1) = u8 (r_family r)" "le_int (rd buf 17 1) = u8 dl" "le_int (rd buf 18 1) = u8 sl"
    "le_int (rd buf 19 1) = u8 (r_dsfield r)" "le_int (rd buf 20 1) = u8 (r_table r)" "le_int (rd buf 23 1) = u8 (r_action r)"
    "get32 buf 24 = u32 (r_flags r)"
    by (simp_all only: get32_def le_int_bytes u8_def u32_def) simp_all
qed

lemma rule_from_hdr_eq:
  assumes h: "rd buf 16 12 = rule_hdr r sl dl" and obj: "r_dsfield (ce_data obj) = 0"
    and w: "0 \<le> r_family r" "r_family r < 256" "0 \<le> r_action r" "r_action r < 256" "0 \<le> r_dsfield r" "r_dsfield r < 256"
      "0 \<le> r_flags r" "r_flags r < 4294967296"
  shows "rule_from_hdr buf 16 obj =
    obj\<lparr>ce_data := (ce_data obj)\<lparr>r_family := r_family r, r_table := u8 (r_table r), r_action := r_action r, r_flags := r_flags r, r_dsfield := r_dsfield r\<rparr>,
        ce_mask := RULE_ATTR_FAMILY OR RULE_ATTR_ACTION OR RULE_ATTR_FLAGS OR (if u8 (r_table r) \<noteq> 0 then RULE_ATTR_TABLE else 0) OR
          (if r_dsfield r \<noteq> 0 then RULE_ATTR_DSFIELD else 0)\<rparr>"
  using rule_hdr_fields [OF h] w obj by (simp add: rule_from_hdr_def Let_def)

text \<open>All entries of the table for a request.\<close>

lemma rule_entries:
  assumes "\<And>t. int t \<le> FRA_MAX \<Longrightarrow> entry_is buf (tb ! t) (map_of (rule_attr_list tmpl) (int t))"
  defines "r \<equiv> ce_data tmpl" and "has \<equiv> has_attr tmpl"
  shows "entry_is buf (tb ! 15) (Some (le_bytes 4 (r_table r)))"
    "entry_is buf (tb ! 2) (if has RULE_ATTR_SRC then Some (addr_bytes_of (r_src r)) else None)"
    "entry_is buf (tb ! 1) (if has RULE_ATTR_DST then Some (addr_bytes_of (r_dst r)) else None)"
    "entry_is buf (tb ! 3) (if has RULE_ATTR_IIFNAME then Some (text_of (r_iifname r) @ [0]) else None)"
    "entry_is buf (tb ! 17) (if has RULE_ATTR_OIFNAME then Some (text_of (r_oifname r) @ [0]) else None)"
    "entry_is buf (tb ! 6) (if has RULE_ATTR_PRIO then Some (le_bytes 4 (r_prio r)) else None)"
    "entry_is buf (tb ! 10) (if has RULE_ATTR_MARK then Some (le_bytes 4 (r_mark r)) else None)"
    "entry_is buf (tb ! 16) (if has RULE_ATTR_MASK then Some (le_bytes 4 (r_mask r)) else None)"
    "entry_is buf (tb ! 4) (if has RULE_ATTR_GOTO then Some (le_bytes 4 (r_goto r)) else None)"
    "entry_is buf (tb ! 11) (if has RULE_ATTR_FLOW then Some (le_bytes 4 (r_flow r)) else None)"
    "entry_is buf (tb ! 19) (if has RULE_ATTR_L3MDEV then Some (le_bytes 1 (r_l3mdev r)) else None)"
    "entry_is buf (tb ! 22) (if has RULE_ATTR_IP_PROTO then Some (le_bytes 1 (r_ip_proto r)) else None)"
    "entry_is buf (tb ! 23) (if has RULE_ATTR_SPORT then Some (ports_bytes (r_sport r)) else None)"
    "entry_is buf (tb ! 24) (if has RULE_ATTR_DPORT then Some (ports_bytes (r_dport r)) else None)"
    "entry_is buf (tb ! 21) (if has RULE_ATTR_PROTOCOL then Some (le_bytes 1 (r_protocol r)) else None)"
proof -
  have m: "map_of (opt b (t, d)) k = (if b \<and> k = t then Some d else None)" for b t d k by (simp add: opt_def)
  note e = assms(1) [unfolded rule_attr_list_def Let_def map_of_opt m has_attr_def [symmetric] FRA_MAX_def, folded r_def has_def]
  show "entry_is buf (tb ! 15) (Some (le_bytes 4 (r_table r)))"
    "entry_is buf (tb ! 2) (if has RULE_ATTR_SRC then Some (addr_bytes_of (r_src r)) else None)"
    "entry_is buf (tb ! 1) (if has RULE_ATTR_DST then Some (addr_bytes_of (r_dst r)) else None)"
    "entry_is buf (tb ! 3) (if has RULE_ATTR_IIFNAME then Some (text_of (r_iifname r) @ [0]) else None)"
    "entry_is buf (tb ! 17) (if has RULE_ATTR_OIFNAME then Some (text_of (r_oifname r) @ [0]) else None)"
    using e [of 15] e [of 2] e [of 1] e [of 3] e [of 17] by (simp_all cong del: if_weak_cong)
  show "entry_is buf (tb ! 6) (if has RULE_ATTR_PRIO then Some (le_bytes 4 (r_prio r)) else None)"
    "entry_is buf (tb ! 10) (if has RULE_ATTR_MARK then Some (le_bytes 4 (r_mark r)) else None)"
    "entry_is buf (tb ! 16) (if has RULE_ATTR_MASK then Some (le_bytes 4 (r_mask r)) else None)"
    "entry_is buf (tb ! 4) (if has RULE_ATTR_GOTO then Some (le_bytes 4 (r_goto r)) else None)"
    "entry_is buf (tb ! 11) (if has RULE_ATTR_FLOW then Some (le_bytes 4 (r_flow r)) else None)"
    using e [of 6] e [of 10] e [of 16] e [of 4] e [of 11] by (simp_all cong del: if_weak_cong)
  show "entry_is buf (tb ! 19) (if has RULE_ATTR_L3MDEV then Some (le_bytes 1 (r_l3mdev r)) else None)"
    "entry_is buf (tb ! 22) (if has RULE_ATTR_IP_PROTO then Some (le_bytes 1 (r_ip_proto r)) else None)"
    "entry_is buf (tb ! 23) (if has RULE_ATTR_SPORT then Some (ports_bytes (r_sport r)) else None)"
    "entry_is buf (tb ! 24) (if has RULE_ATTR_DPORT then Some (ports_bytes (r_dport r)) else None)"
    "entry_is buf (tb ! 21) (if has RULE_ATTR_PROTOCOL then Some (le_bytes 1 (r_protocol r)) else None)"
    using e [of 19] e [of 22] e [of 23] e [of 24] e [of 21] by (simp_all cong del: if_weak_cong)
qed

text \<open>The parser on a request for a well-formed rule.\<close>

lemma rule_fill_sent:
  assumes wf: "wf_rule tmpl" and e: "\<And>t. int t \<le> FRA_MAX \<Longrightarrow> entry_is buf (tb ! t) (map_of (rule_attr_list tmpl) (int t))"
    and h: "rd buf 16 12 = rule_hdr (ce_data tmpl) (plen_of (has_attr tmpl RULE_ATTR_SRC) (r_src (ce_data tmpl)))
      (plen_of (has_attr tmpl RULE_ATTR_DST) (r_dst (ce_data tmpl)))"
    and obj: "ce_data obj = oo_zero rule_obj_ops"
  shows "rule_fill buf 0 tb obj = obj\<lparr>ce_msgtype := nlmsg_type (nlh buf 0), ce_data := sent_rule tmpl, ce_mask := sent_mask tmpl\<rparr>"
proof -
  let ?r = "ce_data tmpl"
  note E = rule_entries [OF e]
  have w8: "0 \<le> r_family ?r" "r_family ?r < 256" "0 \<le> r_action ?r" "r_action ?r < 256" "0 \<le> r_dsfield ?r" "r_dsfield ?r < 256"
    "0 \<le> r_l3mdev ?r" "r_l3mdev ?r < 256" "0 \<le> r_protocol ?r" "r_protocol ?r < 256" "0 \<le> r_ip_proto ?r" "r_ip_proto ?r < 256"
    using wf by (simp_all add: wf_rule_def Let_def)
  have w32: "0 \<le> r_table ?r" "r_table ?r < 4294967296" "0 \<le> r_flags ?r" "r_flags ?r < 4294967296"
    "0 \<le> r_prio ?r" "r_prio ?r < 4294967296" "0 \<le> r_mark ?r" "r_mark ?r < 4294967296" "0 \<le> r_mask ?r" "r_mask ?r < 4294967296"
    "0 \<le> r_goto ?r" "r_goto ?r < 4294967296" "0 \<le> r_flow ?r" "r_flow ?r < 4294967296"
    using wf by (simp_all add: wf_rule_def Let_def)
  note u32 = if_attr_u32 [where sett = "\<lambda>x r. r\<lparr>r_prio := x\<rparr>" and get = r_prio, OF E(6) w32(5,6)]
    if_attr_u32 [where sett = "\<lambda>x r. r\<lparr>r_mark := x\<rparr>" and get = r_mark, OF E(7) w32(7,8)]
    if_attr_u32 [where sett = "\<lambda>x r. r\<lparr>r_mask := x\<rparr>" and get = r_mask, OF E(8) w32(9,10)]
    if_attr_u32 [where sett = "\<lambda>x r. r\<lparr>r_goto := x\<rparr>" and get = r_goto, OF E(9) w32(11,12)]
    if_attr_u32 [where sett = "\<lambda>x r. r\<lparr>r_flow := x\<rparr>" and get = r_flow, OF E(10) w32(13,14)]
  note u8 = if_attr_u8 [where sett = "\<lambda>x r. r\<lparr>r_l3mdev := x\<rparr>" and get = r_l3mdev, OF E(11) w8(7,8)]
    if_attr_u8 [where sett = "\<lambda>x r. r\<lparr>r_ip_proto := x\<rparr>" and get = r_ip_proto, OF E(12) w8(11,12)]
    if_attr_u8 [where sett = "\<lambda>x r. r\<lparr>r_protocol := x\<rparr>" and get = r_protocol, OF E(15) w8(9,10)]
  have wp: "0 \<le> pr_start (r_sport ?r)" "pr_start (r_sport ?r) < 65536" "0 \<le> pr_end (r_sport ?r)" "pr_end (r_sport ?r) < 65536"
    "0 \<le> pr_start (r_dport ?r)" "pr_start (r_dport ?r) < 65536" "0 \<le> pr_end (r_dport ?r)" "pr_end (r_dport ?r) < 65536"
    and wn: "0 \<in> set (r_iifname ?r)" "blen (r_iifname ?r) = IFNAMSIZ" "0 \<in> set (r_oifname ?r)" "blen (r_oifname ?r) = IFNAMSIZ"
    and wa: "has_attr tmpl RULE_ATTR_SRC \<Longrightarrow> \<exists>a. r_src ?r = Some a \<and> small_addr a"
      "has_attr tmpl RULE_ATTR_DST \<Longrightarrow> \<exists>a. r_dst ?r = Some a \<and> small_addr a"
    using wf wf_rule_addrs [OF wf] by (simp_all add: wf_rule_def Let_def)
  note ports = if_attr_ports [where sett = "\<lambda>x r. r\<lparr>r_sport := x\<rparr>" and get = r_sport, OF E(13) wp(1-4)]
    if_attr_ports [where sett = "\<lambda>x r. r\<lparr>r_dport := x\<rparr>" and get = r_dport, OF E(14) wp(5-8)]
  note names = if_attr_text [where sett = "\<lambda>x r. r\<lparr>r_iifname := x\<rparr>" and get = r_iifname, OF E(4) wn(1,2)]
    if_attr_text [where sett = "\<lambda>x r. r\<lparr>r_oifname := x\<rparr>" and get = r_oifname, OF E(5) wn(3,4)]
  note addrs = if_attr_addr [where sett = "\<lambda>x r. r\<lparr>r_src := x\<rparr>" and get = r_src, OF E(2) wa(1) refl]
    if_attr_addr [where sett = "\<lambda>x r. r\<lparr>r_dst := x\<rparr>" and get = r_dst, OF E(3) wa(2) refl]
  note hf = rule_hdr_fields [OF h]
  have fam: "u8 (r_family ?r) = r_family ?r" using w8(1,2) by simp
  have t: "r_table ?r \<noteq> 0" if "u8 (r_table ?r) \<noteq> 0" using that by (auto simp: u8_def)
  have d: "nlmsg_data 0 = 16" "16 + 2 = (18 :: int)" "16 + 1 = (17 :: int)" by (simp_all add: nlmsg_data_def)
  have z: "blen (zeros IFNAMSIZ) = IFNAMSIZ" by (simp add: IFNAMSIZ_def)
  note hdr = rule_from_hdr_eq [OF h _ w8(1-6) w32(3,4)] and tab = rule_table_entry [OF E(1) w32(1,2)]
  note eqs = hdr tab names u32 u8 ports addrs(1) addrs(2) [unfolded One_nat_def] obj rule_obj_ops_def z sent_rule_def Let_def
  show ?thesis
    unfolding rule_fill_def Let_def d hf(1-3) fam sent_mask_eq
    using t by (cases "u8 (r_table ?r) = 0")
      (simp_all add: eqs or.assoc or.commute or.left_commute cong del: if_weak_cong split del: if_split)
qed

lemma rule_attrs_short:
  assumes "wf_rule tmpl"
  shows "blen (attrs_bytes (rule_attr_list tmpl)) \<le> 1020" "\<forall>a \<in> set (rule_attr_list tmpl). attr_fits a"
proof -
  have "length (rule_attr_list tmpl) \<le> Suc (Suc (Suc (Suc (Suc (Suc (Suc (Suc (Suc (Suc (Suc (Suc (Suc (Suc (Suc 0))))))))))))))"
    unfolding rule_attr_list_def Let_def by (intro length_opt)
  then have l: "length (rule_attr_list tmpl) \<le> 15" by simp
  have "list_all (\<lambda>(t, d). blen d \<le> 64) (rule_attr_list tmpl)" using rule_attrs_ok [OF assms] by (auto simp: list_all_iff)
  from blen_attrs_le [OF this] l show "blen (attrs_bytes (rule_attr_list tmpl)) \<le> 1020" by simp
  show "\<forall>a \<in> set (rule_attr_list tmpl). attr_fits a"
    using rule_attrs_ok [OF assms] by (auto simp: list_all_iff attr_fits_def FRA_MAX_def)
qed

lemma rule_parser_delivers:
  assumes "nlmsg_parse buf 0 12 FRA_MAX (Some rule_policy) = (Some tb, Inr ())"
  shows "rule_msg_parser (Some p) True True buf 0 pp_cb h u = deliver (\<lambda>_. rule_obj_ops) 0 (Some p) (\<lambda>obj. rule_fill buf 0 tb obj) pp_cb h u"
proof -
  have sz: "SIZEOF_NL_OBJECT \<le> oo_size rule_obj_ops" by (simp add: SIZEOF_NL_OBJECT_def rule_obj_ops_def)
  show ?thesis using assms sz by (simp add: rule_msg_parser_def deliver_def nl_object_alloc_def Let_def)
qed

section \<open>Rules a client can make\<close>

text \<open>The rules that come from \<open>rtnl_rule_alloc\<close> by calls of the setters.\<close>

inductive rule_made :: "rule_obj \<Rightarrow> bool" where
  made_new: "rule_made (new_object (\<lambda>_. rule_obj_ops) 0)"
| made_family: "rule_made r \<Longrightarrow> rule_made (rtnl_rule_set_family r v)"
| made_prio: "rule_made r \<Longrightarrow> rule_made (rtnl_rule_set_prio r v)"
| made_mark: "rule_made r \<Longrightarrow> rule_made (rtnl_rule_set_mark r v)"
| made_mask: "rule_made r \<Longrightarrow> rule_made (rtnl_rule_set_mask r v)"
| made_table: "rule_made r \<Longrightarrow> rule_made (rtnl_rule_set_table r v)"
| made_dsfield: "rule_made r \<Longrightarrow> rule_made (rtnl_rule_set_dsfield r v)"
| made_src: "rule_made r \<Longrightarrow> small_addr a \<Longrightarrow> rule_made (snd (rtnl_rule_set_src r a))"
| made_dst: "rule_made r \<Longrightarrow> small_addr a \<Longrightarrow> rule_made (snd (rtnl_rule_set_dst r a))"
| made_iif: "rule_made r \<Longrightarrow> rule_made (snd (rtnl_rule_set_iif r dev))"
| made_oif: "rule_made r \<Longrightarrow> rule_made (snd (rtnl_rule_set_oif r dev))"
| made_action: "rule_made r \<Longrightarrow> rule_made (rtnl_rule_set_action r v)"
| made_l3mdev: "rule_made r \<Longrightarrow> rule_made (rtnl_rule_set_l3mdev r v)"
| made_protocol: "rule_made r \<Longrightarrow> rule_made (snd (rtnl_rule_set_protocol r v))"
| made_ipproto: "rule_made r \<Longrightarrow> rule_made (snd (rtnl_rule_set_ipproto r v))"
| made_sport: "rule_made r \<Longrightarrow> rule_made (snd (rtnl_rule_set_sport_range r v w))"
| made_dport: "rule_made r \<Longrightarrow> rule_made (snd (rtnl_rule_set_dport_range r v w))"
| made_realms: "rule_made r \<Longrightarrow> rule_made (rtnl_rule_set_realms r v)"
| made_goto: "rule_made r \<Longrightarrow> rule_made (rtnl_rule_set_goto r v)"

lemmas rule_number_setters = rtnl_rule_set_family_def rtnl_rule_set_prio_def rtnl_rule_set_mark_def rtnl_rule_set_mask_def
  rtnl_rule_set_table_def rtnl_rule_set_dsfield_def rtnl_rule_set_action_def rtnl_rule_set_realms_def rtnl_rule_set_goto_def

lemmas rule_optional_setters = rtnl_rule_set_l3mdev_def rtnl_rule_set_protocol_def rtnl_rule_set_ipproto_def

lemmas wf_rule_simps = wf_rule_def has_attr_def Let_def mask_or u_ranges rule_attr_defs

section \<open>Properties\<close>

text \<open>
  C4. Sending and receiving rules are inverse: for every well-formed rule with a family \<open>build_rule_msg\<close> succeeds if the
  default message size is at least 1048 bytes, and \<open>rule_msg_parser\<close> on the message hands an object to its callback
  that has the data of the rule in every attribute of its mask, and the initial value in all others.
\<close>

theorem rule_build_then_parse:
  assumes wf: "wf_rule tmpl" and fam: "has_attr tmpl RULE_ATTR_FAMILY" and dsz: "1048 \<le> dsz" "dsz < 2147483648"
  shows "\<exists>msg. build_rule_msg True True dsz tmpl cmd flags = Inr msg \<and> nlmsg_type (nlmsg_hdr msg) = u16 cmd \<and>
    (\<forall>p pp_cb h u. rule_msg_parser (Some p) True True (nm_nlh msg) 0 pp_cb h (u :: 'u) =
       deliver (\<lambda>_. rule_obj_ops) 0 (Some p) (\<lambda>obj. obj\<lparr>ce_msgtype := u16 cmd, ce_data := sent_rule tmpl, ce_mask := sent_mask tmpl\<rparr>) pp_cb h u)"
proof -
  let ?as = "rule_attr_list tmpl"
  define hdr where "hdr = rule_hdr (ce_data tmpl) (plen_of (has_attr tmpl RULE_ATTR_SRC) (r_src (ce_data tmpl)))
      (plen_of (has_attr tmpl RULE_ATTR_DST) (r_dst (ce_data tmpl)))"
  note short = rule_attrs_short [OF wf]
  have hl: "blen hdr = 12" by (simp add: hdr_def rule_hdr_def)
  have known: "list_all (\<lambda>(t, d). t \<le> FRA_MAX \<and> payload_ok (rule_policy ! nat t) d) ?as"
    using rule_attrs_ok [OF wf] by (rule list.pred_mono_strong) auto
  obtain msg tb where m: "build_rule_msg True True dsz tmpl cmd flags = Inr msg" "rd (nm_nlh msg) 16 12 = hdr" "nlmsg_type (nlmsg_hdr msg) = u16 cmd"
    "nlmsg_parse (nm_nlh msg) 0 12 FRA_MAX (Some rule_policy) = (Some tb, Inr ())"
    "\<And>t. int t \<le> FRA_MAX \<Longrightarrow> entry_is (nm_nlh msg) (tb ! t) (map_of ?as (int t))"
    using request_parsed [OF short(2) _ dsz(2) _ known rule_attrs_distinct, of hdr cmd flags] short(1) dsz(1)
    unfolding build_rule_msg_eq [OF wf fam] hdr_def [symmetric] hl by (auto simp: FRA_MAX_def align4_eq)
  have sz: "SIZEOF_NL_OBJECT \<le> oo_size rule_obj_ops" by (simp add: SIZEOF_NL_OBJECT_def rule_obj_ops_def)
  have new: "ce_data (new_object (\<lambda>_. rule_obj_ops) 0) = oo_zero rule_obj_ops" by (simp add: new_object_def rule_obj_ops_def)
  note fill = rule_fill_sent [OF wf m(5) m(2) [unfolded hdr_def] new]
  have "nlmsg_type (nlh (nm_nlh msg) 0) = u16 cmd" using m(3) by (simp add: nlmsg_hdr_def)
  then have "rule_msg_parser (Some p) True True (nm_nlh msg) 0 pp_cb h (u :: 'u) =
      deliver (\<lambda>_. rule_obj_ops) 0 (Some p) (\<lambda>obj. obj\<lparr>ce_msgtype := u16 cmd, ce_data := sent_rule tmpl, ce_mask := sent_mask tmpl\<rparr>) pp_cb h u"
    for p pp_cb h u
    by (simp add: rule_parser_delivers [OF m(4)] deliver_eq [where ops = "\<lambda>_. rule_obj_ops", OF sz] fill)
  then show ?thesis using m(1,3) by blast
qed

text \<open>The rule for 10.0.0.0/8 and table 300.\<close>

definition one_rule :: rule_obj where
  "one_rule = rtnl_rule_set_table (snd (rtnl_rule_set_dst (new_object (\<lambda>_. rule_obj_ops) 0)
     \<lparr>a_family = AF_INET, a_maxsize = 4, a_len = 4, a_prefixlen = 8, a_refcnt = 1, a_addr = [10, 0, 0, 0]\<rparr>)) 300"

theorem rule_build_then_parse_witness:
  "\<exists>msg. build_rule_msg True True 4096 one_rule RTM_NEWRULE 0 = Inr msg \<and>
     (\<forall>pp_cb h. rule_msg_parser (Some 7) True True (nm_nlh msg) 0 pp_cb h () =
       deliver (\<lambda>_. rule_obj_ops) 0 (Some 7) (\<lambda>obj. obj\<lparr>ce_msgtype := 32, ce_data := sent_rule one_rule, ce_mask := 0x80F\<rparr>) pp_cb h ()) \<and>
     r_table (sent_rule one_rule) = 300 \<and> map_option (\<lambda>a. (a_addr a, a_prefixlen a)) (r_dst (sent_rule one_rule)) = Some ([10, 0, 0, 0], 8)"
proof -
  have w: "wf_rule one_rule" by (simp add: one_rule_def) code_simp
  have f: "has_attr one_rule RULE_ATTR_FAMILY" "sent_mask one_rule = 0x80F" "r_table (sent_rule one_rule) = 300"
    "map_option (\<lambda>a. (a_addr a, a_prefixlen a)) (r_dst (sent_rule one_rule)) = Some ([10, 0, 0, 0], 8)" "u16 RTM_NEWRULE = 32"
    by code_simp+
  show ?thesis using rule_build_then_parse [where ?'u = unit, OF w f(1), of 4096 RTM_NEWRULE 0] f(2-5) by auto
qed

lemma rule_made_wf:
  assumes "rule_made rule"
  shows "wf_rule rule"
  using assms
proof (induction rule: rule_made.induct)
  case made_new
  show ?case by code_simp
next
  case (made_src r a)
  then show ?case by (simp add: rtnl_rule_set_src_def rule_assign_addr_def wf_rule_simps)
next
  case (made_dst r a)
  then show ?case by (simp add: rtnl_rule_set_dst_def rule_assign_addr_def wf_rule_simps)
next
  case (made_iif r dev)
  then show ?case using name_stored [of dev "r_iifname (ce_data r)"] by (simp add: rtnl_rule_set_iif_def wf_rule_simps)
next
  case (made_oif r dev)
  then show ?case using name_stored [of dev "r_oifname (ce_data r)"] by (simp add: rtnl_rule_set_oif_def wf_rule_simps)
next
  case (made_sport r v w)
  then show ?case using mask_and [of "ce_mask r"]
    by (auto simp: rtnl_rule_set_sport_range_def rtnl_rule_set_port_def no_port_range_def wf_rule_simps)
next
  case (made_dport r v w)
  then show ?case using mask_and [of "ce_mask r"]
    by (auto simp: rtnl_rule_set_dport_range_def rtnl_rule_set_port_def no_port_range_def wf_rule_simps)
next
  case (made_l3mdev r v)
  then show ?case using mask_and [of "ce_mask r"] by (auto simp: rule_optional_setters wf_rule_simps)
next
  case (made_protocol r v)
  then show ?case using mask_and [of "ce_mask r"] by (auto simp: rule_optional_setters wf_rule_simps)
next
  case (made_ipproto r v)
  then show ?case using mask_and [of "ce_mask r"] by (auto simp: rule_optional_setters wf_rule_simps)
qed (simp_all add: rule_number_setters wf_rule_simps)

lemma rule_message_built:
  assumes wf: "wf_rule tmpl" and fam: "has_attr tmpl RULE_ATTR_FAMILY" and dsz: "1048 \<le> dsz" "dsz < 2147483648"
  shows "\<exists>msg tb. build_rule_msg True True dsz tmpl cmd flags = Inr msg \<and> nlmsg_type (nlmsg_hdr msg) = u16 cmd \<and>
    nlmsg_parse (nm_nlh msg) 0 12 FRA_MAX (Some rule_policy) = (Some tb, Inr ())"
proof -
  let ?as = "rule_attr_list tmpl"
  define hdr where "hdr = rule_hdr (ce_data tmpl) (plen_of (has_attr tmpl RULE_ATTR_SRC) (r_src (ce_data tmpl)))
      (plen_of (has_attr tmpl RULE_ATTR_DST) (r_dst (ce_data tmpl)))"
  note short = rule_attrs_short [OF wf]
  have hl: "blen hdr = 12" by (simp add: hdr_def rule_hdr_def)
  have known: "list_all (\<lambda>(t, d). t \<le> FRA_MAX \<and> payload_ok (rule_policy ! nat t) d) ?as"
    using rule_attrs_ok [OF wf] by (rule list.pred_mono_strong) auto
  obtain msg tb where "build_rule_msg True True dsz tmpl cmd flags = Inr msg" "rd (nm_nlh msg) 16 12 = hdr" "nlmsg_type (nlmsg_hdr msg) = u16 cmd"
    "nlmsg_parse (nm_nlh msg) 0 12 FRA_MAX (Some rule_policy) = (Some tb, Inr ())"
    "\<And>t. int t \<le> FRA_MAX \<Longrightarrow> entry_is (nm_nlh msg) (tb ! t) (map_of ?as (int t))"
    using request_parsed [OF short(2) _ dsz(2) _ known rule_attrs_distinct, of hdr cmd flags] short(1) dsz(1)
    unfolding build_rule_msg_eq [OF wf fam] hdr_def [symmetric] hl by (auto simp: FRA_MAX_def align4_eq)
  then show ?thesis by blast
qed

text \<open>
  C35. Every rule that a client makes with the setters is well formed, whatever their arguments are, addresses apart, which
  have at most 64 bytes: the fields have values of their types, names are terminated within their 16 bytes, and an address is announced
  in the mask only if there is one. If the client has set a family, a request for the rule can be built in a message of 1048 bytes or
  more, has the type that was asked for and is accepted by the attribute parser with the policy for rules; without a family
  building it fails with \<open>NLE_MISSING_ATTR\<close>.
\<close>

theorem rules_made_well_formed:
  assumes "rule_made rule" "1048 \<le> dsz" "dsz < 2147483648"
  shows "wf_rule rule \<and>
    (if has_attr rule RULE_ATTR_FAMILY
     then \<exists>msg tb. build_rule_msg True True dsz rule cmd flags = Inr msg \<and> nlmsg_type (nlmsg_hdr msg) = u16 cmd \<and>
       nlmsg_parse (nm_nlh msg) 0 12 FRA_MAX (Some rule_policy) = (Some tb, Inr ())
     else build_rule_msg True True dsz rule cmd flags = Inl (Err NLE_MISSING_ATTR))"
proof (cases "has_attr rule RULE_ATTR_FAMILY")
  case True
  then show ?thesis using rule_message_built [OF rule_made_wf [OF assms(1)] True assms(2,3), of cmd flags] rule_made_wf [OF assms(1)] by simp
next
  case False
  then show ?thesis using rule_made_wf [OF assms(1)] by (simp add: build_rule_msg_def has_attr_def Let_def)
qed

theorem rules_made_well_formed_witness:
  "rule_made one_rule \<and> wf_rule one_rule \<and> (\<exists>msg. build_rule_msg True True 4096 one_rule RTM_NEWRULE 0 = Inr msg) \<and>
   build_rule_msg True True 4096 (new_object (\<lambda>_. rule_obj_ops) 0) RTM_NEWRULE 0 = Inl (Err NLE_MISSING_ATTR)"
proof -
  have "small_addr \<lparr>a_family = AF_INET, a_maxsize = 4, a_len = 4, a_prefixlen = 8, a_refcnt = 1, a_addr = [10, 0, 0, 0]\<rparr>"
    by (simp add: small_addr_def)
  then have m: "rule_made one_rule" unfolding one_rule_def by (intro made_table made_dst made_new)
  have f: "has_attr one_rule RULE_ATTR_FAMILY" "\<not> has_attr (new_object (\<lambda>_. rule_obj_ops) 0) RULE_ATTR_FAMILY" by code_simp+
  show ?thesis
    using rules_made_well_formed [OF m, of 4096 RTM_NEWRULE 0] rules_made_well_formed [OF made_new, of 4096 RTM_NEWRULE 0] m f by auto
qed

section \<open>Which rules are the same\<close>

text \<open>
  The identity of rules: two rules with different ports, and a rule for traffic from a network and one for traffic
  to another, are taken for the same rule.
\<close>

lemma rules_with_other_ports_identical:
  "nl_object_identical (\<lambda>_. rule_obj_ops) (snd (rtnl_rule_set_dport one_rule 80)) (snd (rtnl_rule_set_dport one_rule 443)) = Inr True"
  by code_simp

lemma rules_with_other_selectors_identical:
  "nl_object_identical (\<lambda>_. rule_obj_ops) (rtnl_rule_set_prio one_rule 5)
     (rtnl_rule_set_prio (snd (rtnl_rule_set_iif (rtnl_rule_set_family (new_object (\<lambda>_. rule_obj_ops) 0) AF_INET) [101, 116, 104, 48])) 5) = Inr True"
  by code_simp

lemma RTNL_MAKE_REALM_zero: "RTNL_MAKE_REALM from to = 0"
proof -
  have m: "(0xFFFF :: int) = mask 16" by (simp add: mask_eq_exp_minus_1)
  have u: "u32 x = take_bit 32 x" for x by (simp add: u32_def take_bit_eq_mod)
  show ?thesis
    by (rule bit_eqI) (auto simp: RTNL_MAKE_REALM_def RTNL_REALM_TO_def u m bit_and_iff bit_take_bit_iff bit_push_bit_iff bit_mask_iff)
qed

end
