(* ===== verification/Nl_Ifaddr.thy ===== *)
theory Nl_Ifaddr
  imports Nl_Rule
begin

unbundle bit_operations_syntax

text \<open>
  The object type \<open>route/addr\<close> (\<open>lib/route/addr.c\<close>), the addresses of interfaces. Abstract addresses are held by
  value. The interface object of an address is the address of that object. The references to it are counted
  (\<open>link_refs\<close>) in the functions that release, set and return it; \<open>addr_clone\<close> and the parser, which take one reference each
  with the pointer, are modelled without the count. The cache of interfaces is an argument of the parser.
\<close>

section \<open>Data\<close>

definition ADDR_ATTR_FAMILY :: int where "ADDR_ATTR_FAMILY = 0x0001"
definition ADDR_ATTR_PREFIXLEN :: int where "ADDR_ATTR_PREFIXLEN = 0x0002"
definition ADDR_ATTR_FLAGS :: int where "ADDR_ATTR_FLAGS = 0x0004"
definition ADDR_ATTR_SCOPE :: int where "ADDR_ATTR_SCOPE = 0x0008"
definition ADDR_ATTR_IFINDEX :: int where "ADDR_ATTR_IFINDEX = 0x0010"
definition ADDR_ATTR_LABEL :: int where "ADDR_ATTR_LABEL = 0x0020"
definition ADDR_ATTR_CACHEINFO :: int where "ADDR_ATTR_CACHEINFO = 0x0040"
definition ADDR_ATTR_PEER :: int where "ADDR_ATTR_PEER = 0x0080"
definition ADDR_ATTR_LOCAL :: int where "ADDR_ATTR_LOCAL = 0x0100"
definition ADDR_ATTR_BROADCAST :: int where "ADDR_ATTR_BROADCAST = 0x0200"
definition ADDR_ATTR_MULTICAST :: int where "ADDR_ATTR_MULTICAST = 0x0400"
definition ADDR_ATTR_ANYCAST :: int where "ADDR_ATTR_ANYCAST = 0x0800"
definition ADDR_ATTR_ALIAS :: int where "ADDR_ATTR_ALIAS = 0x1000"

lemmas addr_attr_defs = ADDR_ATTR_FAMILY_def ADDR_ATTR_PREFIXLEN_def ADDR_ATTR_FLAGS_def ADDR_ATTR_SCOPE_def
  ADDR_ATTR_IFINDEX_def ADDR_ATTR_LABEL_def ADDR_ATTR_CACHEINFO_def ADDR_ATTR_PEER_def ADDR_ATTR_LOCAL_def
  ADDR_ATTR_BROADCAST_def ADDR_ATTR_MULTICAST_def ADDR_ATTR_ANYCAST_def ADDR_ATTR_ALIAS_def

definition RTM_NEWADDR :: int where "RTM_NEWADDR = 20"
definition RTM_DELADDR :: int where "RTM_DELADDR = 21"
definition RTM_GETADDR :: int where "RTM_GETADDR = 22"
definition IFA_MAX :: int where "IFA_MAX = 10"
definition RT_SCOPE_UNIVERSE :: int where "RT_SCOPE_UNIVERSE = 0"
definition RT_SCOPE_HOST :: int where "RT_SCOPE_HOST = 254"
definition RT_SCOPE_NOWHERE :: int where "RT_SCOPE_NOWHERE = 255"

record rtnl_addr_cacheinfo =
  aci_prefered :: int
  aci_valid :: int
  aci_cstamp :: int
  aci_tstamp :: int

record rtnl_addr =
  ia_family :: int
  ia_prefixlen :: int
  ia_scope :: int
  ia_flags :: int
  ia_ifindex :: int
  ia_peer :: "nl_addr option"
  ia_local :: "nl_addr option"
  ia_bcast :: "nl_addr option"
  ia_anycast :: "nl_addr option"
  ia_multicast :: "nl_addr option"
  ia_cacheinfo :: rtnl_addr_cacheinfo
  ia_alias :: "byte list"
  ia_label :: "byte list"
  ia_flag_mask :: int
  ia_link :: "nat option"

type_synonym addr_obj = "rtnl_addr nl_object"

type_synonym link_refs = "nat \<Rightarrow> int"

section \<open>The operations of the type\<close>

definition addr_constructor :: "rtnl_addr \<Rightarrow> rtnl_addr" where
  "addr_constructor addr = addr\<lparr>ia_scope := RT_SCOPE_NOWHERE\<rparr>"

text \<open>\<open>rtnl_link_put\<close> and the reference that is taken with \<open>nl_object_get\<close>.\<close>

definition link_put :: "nat option \<Rightarrow> link_refs \<Rightarrow> link_refs" where
  "link_put link refs = (case link of None \<Rightarrow> refs | Some l \<Rightarrow> refs(l := refs l - 1))"

definition link_get :: "nat \<Rightarrow> link_refs \<Rightarrow> link_refs" where
  "link_get l refs = refs(l := refs l + 1)"

text \<open>What is left of the addresses, and the references to the interface.\<close>

definition addr_free_data :: "rtnl_addr \<Rightarrow> link_refs \<Rightarrow> (nl_addr option list \<times> link_refs) res" where
  "addr_free_data addr refs =
     and_then (nl_addr_put (ia_peer addr)) (\<lambda>p.
     and_then (nl_addr_put (ia_local addr)) (\<lambda>l.
     and_then (nl_addr_put (ia_bcast addr)) (\<lambda>b.
     and_then (nl_addr_put (ia_multicast addr)) (\<lambda>m.
     and_then (nl_addr_put (ia_anycast addr)) (\<lambda>a. Inr ([p, l, b, m, a], link_put (ia_link addr) refs))))))"

text \<open>One block of \<open>addr_clone\<close>: the address of a field, \<open>get\<close>, is cloned and stored with \<open>sett\<close>.\<close>

definition clone_field ::
  "bool \<Rightarrow> (rtnl_addr \<Rightarrow> nl_addr option) \<Rightarrow> (nl_addr option \<Rightarrow> rtnl_addr \<Rightarrow> rtnl_addr) \<Rightarrow> rtnl_addr \<Rightarrow>
   int \<times> addr_obj \<Rightarrow> int \<times> addr_obj" where
  "clone_field a get sett src r =
     (case r of (err, dst) \<Rightarrow>
        if err < 0 then r
        else case get src of
          None \<Rightarrow> r
        | Some x \<Rightarrow>
            (let x' = nl_addr_clone a x in
             (if x' = None then neg_err NLE_NOMEM else 0, dst\<lparr>ce_data := sett x' (ce_data dst)\<rparr>)))"

definition addr_clone :: "bool \<Rightarrow> addr_obj \<Rightarrow> addr_obj \<Rightarrow> int \<times> addr_obj" where
  "addr_clone a dst src =
     (let s = ce_data src;
          dst = (if ia_link s \<noteq> None then dst\<lparr>ce_data := (ce_data dst)\<lparr>ia_link := ia_link s\<rparr>\<rparr> else dst) in
      clone_field a ia_anycast (\<lambda>x. ia_anycast_update (\<lambda>_. x)) s
      (clone_field a ia_multicast (\<lambda>x. ia_multicast_update (\<lambda>_. x)) s
      (clone_field a ia_bcast (\<lambda>x. ia_bcast_update (\<lambda>_. x)) s
      (clone_field a ia_local (\<lambda>x. ia_local_update (\<lambda>_. x)) s
      (clone_field a ia_peer (\<lambda>x. ia_peer_update (\<lambda>_. x)) s (0, dst))))))"

definition addr_id_attrs_get :: "addr_obj \<Rightarrow> int" where
  "addr_id_attrs_get obj =
     (let addr = ce_data obj in
      if ia_family addr = AF_INET then
        (ADDR_ATTR_FAMILY OR ADDR_ATTR_IFINDEX OR ADDR_ATTR_LOCAL OR ADDR_ATTR_PREFIXLEN) OR
        (if ia_peer addr \<noteq> None then ADDR_ATTR_PEER else 0)
      else if ia_family addr = AF_INET6 then ADDR_ATTR_FAMILY OR ADDR_ATTR_IFINDEX OR ADDR_ATTR_LOCAL
      else ADDR_ATTR_FAMILY OR ADDR_ATTR_IFINDEX OR ADDR_ATTR_LOCAL OR ADDR_ATTR_PREFIXLEN)"

text \<open>A comparison of prefixes that is undefined counts as a difference.\<close>

definition peer_differs :: "rtnl_addr \<Rightarrow> rtnl_addr \<Rightarrow> int \<Rightarrow> bool" where
  "peer_differs a b flags =
     (case (ia_peer a, ia_peer b) of
        (Some p, Some q) \<Rightarrow>
          if flags AND ID_COMPARISON \<noteq> 0 \<and> ia_family a = AF_INET \<and> ia_family b = AF_INET \<and> ia_prefixlen a = ia_prefixlen b
          then nl_addr_cmp_prefix p q \<noteq> Inr 0 else addr_differs (Some p) (Some q)
      | (x, y) \<Rightarrow> addr_differs x y)"

definition addr_compare :: "addr_obj \<Rightarrow> addr_obj \<Rightarrow> int \<Rightarrow> int \<Rightarrow> int" where
  "addr_compare oa ob attrs flags =
     (let a = ce_data oa; b = ce_data ob; d = (\<lambda>attr expr. ATTR_DIFF attrs attr oa ob expr) in
      d ADDR_ATTR_IFINDEX (ia_ifindex a \<noteq> ia_ifindex b) OR
      d ADDR_ATTR_FAMILY (ia_family a \<noteq> ia_family b) OR
      d ADDR_ATTR_SCOPE (ia_scope a \<noteq> ia_scope b) OR
      d ADDR_ATTR_LABEL (text_of (ia_label a) \<noteq> text_of (ia_label b)) OR
      (if attrs AND ADDR_ATTR_PEER \<noteq> 0 then d ADDR_ATTR_PEER (peer_differs a b flags) else 0) OR
      d ADDR_ATTR_LOCAL (addr_differs (ia_local a) (ia_local b)) OR
      d ADDR_ATTR_MULTICAST (addr_differs (ia_multicast a) (ia_multicast b)) OR
      d ADDR_ATTR_BROADCAST (addr_differs (ia_bcast a) (ia_bcast b)) OR
      d ADDR_ATTR_ANYCAST (addr_differs (ia_anycast a) (ia_anycast b)) OR
      d ADDR_ATTR_CACHEINFO (ia_cacheinfo a \<noteq> ia_cacheinfo b) OR
      (if flags AND LOOSE_COMPARISON \<noteq> 0
       then d ADDR_ATTR_FLAGS ((ia_flags a XOR ia_flags b) AND ia_flag_mask b \<noteq> 0)
       else d ADDR_ATTR_FLAGS (ia_flags a \<noteq> ia_flags b)))"

definition addr_obj_ops :: "rtnl_addr nl_object_ops" where
  "addr_obj_ops =
     \<lparr>oo_name = ''route/addr'', oo_size = 176,
      oo_id_attrs = ADDR_ATTR_FAMILY OR ADDR_ATTR_IFINDEX OR ADDR_ATTR_LOCAL OR ADDR_ATTR_PREFIXLEN,
      oo_zero = \<lparr>ia_family = 0, ia_prefixlen = 0, ia_scope = 0, ia_flags = 0, ia_ifindex = 0, ia_peer = None, ia_local = None,
        ia_bcast = None, ia_anycast = None, ia_multicast = None,
        ia_cacheinfo = \<lparr>aci_prefered = 0, aci_valid = 0, aci_cstamp = 0, aci_tstamp = 0\<rparr>,
        ia_alias = zeros IFNAMSIZ, ia_label = zeros IFNAMSIZ, ia_flag_mask = 0, ia_link = None\<rparr>,
      oo_constructor = Some addr_constructor, oo_free_data = True, oo_clone = Some (addr_clone True),
      oo_compare = Some addr_compare, oo_update = None, oo_keygen = None, oo_id_attrs_get = Some addr_id_attrs_get\<rparr>"

definition rtnl_addr_ops :: nl_cache_ops where
  "rtnl_addr_ops =
     \<lparr>co_name = Some ''route/addr'', co_hdrsize = 8, co_protocol = 0, co_hash_size = 0, co_flags = 0,
      co_groups = Some [(AF_INET, 5), (AF_INET6, 9), (0, 0)], co_obj_ops = Some 0,
      co_msgtypes = [\<lparr>mt_id = RTM_NEWADDR, mt_act = NL_ACT_NEW, mt_name = ''new''\<rparr>,
        \<lparr>mt_id = RTM_DELADDR, mt_act = NL_ACT_DEL, mt_name = ''del''\<rparr>,
        \<lparr>mt_id = RTM_GETADDR, mt_act = 3, mt_name = ''get''\<rparr>,
        \<lparr>mt_id = -1, mt_act = -1, mt_name = []\<rparr>]\<rparr>"

definition addr_attrs :: "trans_tbl list" where
  "addr_attrs =
     [(ADDR_ATTR_FAMILY, ''family''), (ADDR_ATTR_PREFIXLEN, ''prefixlen''), (ADDR_ATTR_FLAGS, ''flags''), (ADDR_ATTR_SCOPE, ''scope''),
      (ADDR_ATTR_IFINDEX, ''ifindex''), (ADDR_ATTR_LABEL, ''label''), (ADDR_ATTR_CACHEINFO, ''cacheinfo''), (ADDR_ATTR_PEER, ''peer''),
      (ADDR_ATTR_LOCAL, ''local''), (ADDR_ATTR_BROADCAST, ''broadcast''), (ADDR_ATTR_MULTICAST, ''multicast'')]"

definition addr_attrs2str :: "int \<Rightarrow> string \<Rightarrow> nat \<Rightarrow> string res" where
  "addr_attrs2str attrs buf len = flags2str attrs buf len addr_attrs"

section \<open>Parsing\<close>

definition addr_policy :: "nla_policy list" where
  "addr_policy =
     (replicate 11 \<lparr>pol_type = NLA_UNSPEC, pol_minlen = 0, pol_maxlen = 0\<rparr>)
       [10 := \<lparr>pol_type = NLA_STRING, pol_minlen = 0, pol_maxlen = IFNAMSIZ\<rparr>,
        3 := \<lparr>pol_type = NLA_STRING, pol_minlen = 0, pol_maxlen = IFNAMSIZ\<rparr>,
        6 := \<lparr>pol_type = NLA_UNSPEC, pol_minlen = 16, pol_maxlen = 0\<rparr>]"

text \<open>The assignments from \<open>struct ifaddrmsg\<close>; \<open>IFA_FLAGS\<close> has no policy.\<close>

definition addr_from_hdr :: "byte list \<Rightarrow> int \<Rightarrow> int option \<Rightarrow> addr_obj \<Rightarrow> addr_obj" where
  "addr_from_hdr buf ifa flags obj =
     obj\<lparr>ce_data := (ce_data obj)\<lparr>ia_family := le_int (rd buf ifa 1), ia_prefixlen := le_int (rd buf (ifa + 1) 1),
            ia_scope := le_int (rd buf (ifa + 3) 1),
            ia_flags := (case flags of Some p \<Rightarrow> nla_get_u32 buf p | None \<Rightarrow> le_int (rd buf (ifa + 2) 1)),
            ia_ifindex := get32 buf (ifa + 4)\<rparr>,
         ce_mask := ADDR_ATTR_FAMILY OR ADDR_ATTR_PREFIXLEN OR ADDR_ATTR_FLAGS OR ADDR_ATTR_SCOPE OR ADDR_ATTR_IFINDEX\<rparr>"

definition addr_cacheinfo :: "byte list \<Rightarrow> int \<Rightarrow> rtnl_addr_cacheinfo" where
  "addr_cacheinfo buf p =
     (let ca = nla_data p in
      \<lparr>aci_prefered = get32 buf ca, aci_valid = get32 buf (ca + 4), aci_cstamp = get32 buf (ca + 8), aci_tstamp = get32 buf (ca + 12)\<rparr>)"

definition attr_address :: "byte list \<Rightarrow> int \<Rightarrow> int \<Rightarrow> nl_addr" where
  "attr_address buf family p = the (nl_addr_alloc_attr True buf p family)"

text \<open>
  Local and peer address. Both attributes stand for 0.0.0.0 in IPv4 when they are missing, and a peer that equals the local
  address means that there is none. The length of the prefix goes to the address \<open>plen_addr\<close> points to.
\<close>

definition addr_inet :: "byte list \<Rightarrow> int option \<Rightarrow> int option \<Rightarrow> addr_obj \<Rightarrow> addr_obj" where
  "addr_inet buf loc adr obj =
     (let family = ia_family (ce_data obj); plen = ia_prefixlen (ce_data obj);
          any = the (nl_addr_build True family (zeros 4) 4);
          local = (case loc of Some p \<Rightarrow> attr_address buf family p | None \<Rightarrow> any);
          peer = (case adr of Some p \<Rightarrow> attr_address buf family p | None \<Rightarrow> any);
          same = \<not> addr_differs (Some local) (Some peer) in
      obj\<lparr>ce_data := (ce_data obj)\<lparr>ia_local := Some (nl_addr_set_prefixlen local plen), ia_peer := (if same then None else Some peer)\<rparr>,
          ce_mask := ce_mask obj OR ADDR_ATTR_LOCAL OR (if same then 0 else ADDR_ATTR_PEER)\<rparr>)"

definition addr_other :: "byte list \<Rightarrow> int option \<Rightarrow> int option \<Rightarrow> addr_obj \<Rightarrow> addr_obj" where
  "addr_other buf loc adr obj =
     (let family = ia_family (ce_data obj);
          plen = (\<lambda>a. nl_addr_set_prefixlen a (ia_prefixlen (ce_data obj)));
          local = (\<lambda>a. obj\<lparr>ce_data := (ce_data obj)\<lparr>ia_local := Some a\<rparr>, ce_mask := ce_mask obj OR ADDR_ATTR_LOCAL\<rparr>) in
      case (map_option (attr_address buf family) loc, map_option (attr_address buf family) adr) of
        (None, None) \<Rightarrow> obj
      | (Some l, None) \<Rightarrow> local (plen l)
      | (None, Some a) \<Rightarrow> local (plen a)
      | (Some l, Some a) \<Rightarrow>
          if \<not> addr_differs (Some a) (Some l) then local (plen a)
          else (local l)\<lparr>ce_data := (ce_data (local l))\<lparr>ia_peer := Some (plen a)\<rparr>, ce_mask := ce_mask (local l) OR ADDR_ATTR_PEER\<rparr>)"

text \<open>
  The interface: \<open>links\<close> is the lookup of an index in the cache \<open>route/link\<close>, which fails without that cache. The object
  that is found has that index; one reference to it stays with the address.
\<close>

definition addr_link :: "(int \<Rightarrow> nat option) \<Rightarrow> addr_obj \<Rightarrow> addr_obj" where
  "addr_link links obj =
     (case links (s32 (ia_ifindex (ce_data obj))) of None \<Rightarrow> obj
      | Some l \<Rightarrow> obj\<lparr>ce_data := (ce_data obj)\<lparr>ia_link := Some l\<rparr>, ce_mask := ce_mask obj OR ADDR_ATTR_IFINDEX\<rparr>)"

text \<open>All attributes, if no allocation fails.\<close>

definition addr_fill :: "(int \<Rightarrow> nat option) \<Rightarrow> byte list \<Rightarrow> int \<Rightarrow> int option list \<Rightarrow> addr_obj \<Rightarrow> addr_obj" where
  "addr_fill links buf off tb obj =
     (let ifa = nlmsg_data off;
          family = le_int (rd buf ifa 1);
          obj = obj\<lparr>ce_msgtype := nlmsg_type (nlh buf off)\<rparr>;
          obj = addr_from_hdr buf ifa (tb ! 8) obj;
          obj = if_attr (tb ! 10) ADDR_ATTR_ALIAS (\<lambda>p a. a\<lparr>ia_alias := fst (nla_strlcpy (ia_alias a) buf p IFNAMSIZ)\<rparr>) obj;
          obj = if_attr (tb ! 3) ADDR_ATTR_LABEL (\<lambda>p a. a\<lparr>ia_label := fst (nla_strlcpy (ia_label a) buf p IFNAMSIZ)\<rparr>) obj;
          obj = if_attr (tb ! 6) ADDR_ATTR_CACHEINFO (\<lambda>p a. a\<lparr>ia_cacheinfo := addr_cacheinfo buf p\<rparr>) obj;
          obj = (if family = AF_INET then addr_inet buf (tb ! 2) (tb ! 1) obj else addr_other buf (tb ! 2) (tb ! 1) obj);
          obj = if_attr (tb ! 4) ADDR_ATTR_BROADCAST (\<lambda>p a. a\<lparr>ia_bcast := Some (attr_address buf family p)\<rparr>) obj;
          obj = if_attr (tb ! 7) ADDR_ATTR_MULTICAST (\<lambda>p a. a\<lparr>ia_multicast := Some (attr_address buf family p)\<rparr>) obj;
          obj = if_attr (tb ! 5) ADDR_ATTR_ANYCAST (\<lambda>p a. a\<lparr>ia_anycast := Some (attr_address buf family p)\<rparr>) obj
      in addr_link links obj)"

text \<open>
  The parser: \<open>a\<close> is the allocation of the object, \<open>al\<close> those of the addresses, by the type of the attribute (\<open>1\<close> and \<open>2\<close>
  are needed for every IPv4 address). In case of an error the object is released.
\<close>

definition addr_msg_parser ::
  "(int \<Rightarrow> nat option) \<Rightarrow> nat option \<Rightarrow> (nat \<Rightarrow> bool) \<Rightarrow> byte list \<Rightarrow> int \<Rightarrow> (rtnl_addr, 'u) pp_cb \<Rightarrow> rtnl_addr heap \<Rightarrow> 'u \<Rightarrow>
   (int \<times> rtnl_addr heap \<times> 'u) res" where
  "addr_msg_parser links a al buf off pp_cb h u =
     (let ops = (\<lambda>_. addr_obj_ops) in
      and_then (nl_object_alloc ops a 0 h) (\<lambda>(new, h).
      case new of
        None \<Rightarrow> Inr (neg_err NLE_NOMEM, h, u)
      | Some p \<Rightarrow>
          (let errout = (\<lambda>err h u. and_then (nl_object_put ops (Some p) h) (\<lambda>h. Inr (err, h, u))) in
           case nlmsg_parse buf off 8 IFA_MAX (Some addr_policy) of
             (_, Inl (Err e)) \<Rightarrow> errout (neg_err e) h u
           | (_, Inl f) \<Rightarrow> Inl f
           | (None, Inr _) \<Rightarrow> Inl Undef
           | (Some tb, Inr _) \<Rightarrow>
               (let inet = (le_int (rd buf (nlmsg_data off) 1) = AF_INET) in
                if (\<exists>t \<in> set [1, 2]. (inet \<or> tb ! t \<noteq> None) \<and> \<not> al t) \<or> (\<exists>t \<in> set [4, 5, 7]. tb ! t \<noteq> None \<and> \<not> al t)
                then errout (neg_err NLE_NOMEM) h u
                else
                  and_then (deref (h_obj h) p) (\<lambda>obj.
                  and_then (pp_cb p (set_obj p (addr_fill links buf off tb obj) h) u) (\<lambda>(err, h, u). errout err h u))))))"

section \<open>Requests\<close>

definition addr_request_update ::
  "'u sendfun \<Rightarrow> bool \<Rightarrow> bool \<Rightarrow> int \<Rightarrow> int \<Rightarrow> int \<Rightarrow> ('a, 'u) nl_cb \<Rightarrow> nl_cache \<Rightarrow> nl_sock \<Rightarrow> ports \<Rightarrow> 'u \<Rightarrow>
   (int \<times> nl_sock \<times> ports \<times> 'u) res" where
  "addr_request_update sys_send a1 a2 dsz getpid t cb c sk st u =
     nl_rtgen_request sys_send a1 a2 dsz getpid t cb sk RTM_GETADDR AF_UNSPEC NLM_F_DUMP st u"

text \<open>The scope of the request; addresses of the network 127.0.0.0/8 get the scope host.\<close>

definition addr_scope :: "addr_obj \<Rightarrow> int res" where
  "addr_scope tmpl =
     (let a = ce_data tmpl in
      if ce_mask tmpl AND ADDR_ATTR_SCOPE \<noteq> 0 then Inr (ia_scope a)
      else if ia_family a = AF_INET \<and> ce_mask tmpl AND ADDR_ATTR_LOCAL \<noteq> 0 then
        case ia_local a of
          None \<Rightarrow> Inl Undef
        | Some l \<Rightarrow> (case rd (nl_addr_get_binary_addr l) 0 1 of
            [] \<Rightarrow> Inl Undef
          | x # _ \<Rightarrow> Inr (if x = 127 then RT_SCOPE_HOST else RT_SCOPE_UNIVERSE))
      else Inr RT_SCOPE_UNIVERSE)"

definition addr_hdr :: "rtnl_addr \<Rightarrow> int \<Rightarrow> byte list" where
  "addr_hdr a scope =
     le_bytes 1 (ia_family a) @ le_bytes 1 (ia_prefixlen a) @ le_bytes 1 (ia_flags a) @ le_bytes 1 scope @ le_bytes 4 (ia_ifindex a)"

definition cacheinfo_bytes :: "rtnl_addr_cacheinfo \<Rightarrow> byte list" where
  "cacheinfo_bytes c = le_bytes 4 (aci_prefered c) @ le_bytes 4 (aci_valid c) @ zeros 8"

text \<open>On failure the message, to which nobody else has a reference, is freed.\<close>

definition build_addr_msg :: "bool \<Rightarrow> bool \<Rightarrow> int \<Rightarrow> addr_obj \<Rightarrow> int \<Rightarrow> int \<Rightarrow> nl_msg res" where
  "build_addr_msg a1 a2 dsz tmpl cmd flags =
     (let a = ce_data tmpl; has = (\<lambda>attr. ce_mask tmpl AND attr \<noteq> 0) in
      and_then (addr_scope tmpl) (\<lambda>scope.
      case nlmsg_alloc_simple a1 a2 dsz cmd flags of
        None \<Rightarrow> Inl (Err NLE_NOMEM)
      | Some msg \<Rightarrow>
          and_then (put_or_msgsize (nlmsg_append msg (addr_hdr a scope) 4)) (\<lambda>msg.
          and_then (put_if (has ADDR_ATTR_LOCAL) (\<lambda>msg. NLA_PUT_ADDR msg 2 (ia_local a)) msg) (\<lambda>msg.
          and_then (put_if (has ADDR_ATTR_PEER \<or> has ADDR_ATTR_LOCAL)
              (\<lambda>msg. NLA_PUT_ADDR msg 1 (if has ADDR_ATTR_PEER then ia_peer a else ia_local a)) msg) (\<lambda>msg.
          and_then (put_if (has ADDR_ATTR_ALIAS) (\<lambda>msg. put_or_msgsize (nla_put_string msg 10 (ia_alias a))) msg) (\<lambda>msg.
          and_then (put_if (has ADDR_ATTR_LABEL) (\<lambda>msg. put_or_msgsize (nla_put_string msg 3 (ia_label a))) msg) (\<lambda>msg.
          and_then (put_if (has ADDR_ATTR_BROADCAST) (\<lambda>msg. NLA_PUT_ADDR msg 4 (ia_bcast a)) msg) (\<lambda>msg.
          and_then (put_if (has ADDR_ATTR_CACHEINFO) (\<lambda>msg. put_or_msgsize (nla_put msg 6 16 (cacheinfo_bytes (ia_cacheinfo a)))) msg) (\<lambda>msg.
            put_if (ia_flags a AND NOT 0xFF \<noteq> 0) (\<lambda>msg. put_or_msgsize (nla_put_u32 msg 8 (ia_flags a))) msg)))))))))"

definition rtnl_addr_build_add_request :: "bool \<Rightarrow> bool \<Rightarrow> int \<Rightarrow> addr_obj \<Rightarrow> int \<Rightarrow> nl_msg res" where
  "rtnl_addr_build_add_request a1 a2 dsz addr flags =
     (let required = ADDR_ATTR_IFINDEX OR ADDR_ATTR_FAMILY OR ADDR_ATTR_PREFIXLEN OR ADDR_ATTR_LOCAL in
      if ce_mask addr AND required \<noteq> required then Inl (Err NLE_MISSING_ATTR)
      else build_addr_msg a1 a2 dsz addr RTM_NEWADDR (NLM_F_CREATE OR flags))"

definition rtnl_addr_build_delete_request :: "bool \<Rightarrow> bool \<Rightarrow> int \<Rightarrow> addr_obj \<Rightarrow> int \<Rightarrow> nl_msg res" where
  "rtnl_addr_build_delete_request a1 a2 dsz addr flags =
     (let required = ADDR_ATTR_IFINDEX OR ADDR_ATTR_FAMILY in
      if ce_mask addr AND required \<noteq> required then Inl (Err NLE_MISSING_ATTR)
      else build_addr_msg a1 a2 dsz addr RTM_DELADDR flags)"

definition rtnl_addr_add ::
  "nat \<Rightarrow> 'u sendfun \<Rightarrow> (nl_sock \<Rightarrow> 'u \<Rightarrow> (recv_result \<times> nl_sock \<times> 'u) option) \<Rightarrow> bool \<Rightarrow> bool \<Rightarrow> bool \<Rightarrow> bool \<Rightarrow> int \<Rightarrow>
   int \<Rightarrow> int \<Rightarrow> ('a, 'u) nl_cb \<Rightarrow> nl_sock \<Rightarrow> addr_obj \<Rightarrow> int \<Rightarrow> ports \<Rightarrow> 'u \<Rightarrow>
   ((int \<times> nl_sock \<times> 'u) option \<times> ports) res" where
  "rtnl_addr_add fuel sys_send recv a1 a2 b1 b2 dsz getpid t cb sk addr flags st u =
     send_built fuel sys_send recv b1 b2 getpid t cb (rtnl_addr_build_add_request a1 a2 dsz addr flags) sk st u"

definition rtnl_addr_delete ::
  "nat \<Rightarrow> 'u sendfun \<Rightarrow> (nl_sock \<Rightarrow> 'u \<Rightarrow> (recv_result \<times> nl_sock \<times> 'u) option) \<Rightarrow> bool \<Rightarrow> bool \<Rightarrow> bool \<Rightarrow> bool \<Rightarrow> int \<Rightarrow>
   int \<Rightarrow> int \<Rightarrow> ('a, 'u) nl_cb \<Rightarrow> nl_sock \<Rightarrow> addr_obj \<Rightarrow> int \<Rightarrow> ports \<Rightarrow> 'u \<Rightarrow>
   ((int \<times> nl_sock \<times> 'u) option \<times> ports) res" where
  "rtnl_addr_delete fuel sys_send recv a1 a2 b1 b2 dsz getpid t cb sk addr flags st u =
     send_built fuel sys_send recv b1 b2 getpid t cb (rtnl_addr_build_delete_request a1 a2 dsz addr flags) sk st u"

section \<open>Caches\<close>

definition rtnl_addr_alloc_cache ::
  "rtnl_addr ops \<Rightarrow> cops \<Rightarrow> rtnl_addr allocs \<Rightarrow> ('a, rtnl_addr, 'u) link_layer \<Rightarrow> (rtnl_addr, 'u) msg_parser \<Rightarrow>
   (rtnl_addr, 'u) requester option \<Rightarrow> nat \<Rightarrow> nat option \<Rightarrow> bool \<Rightarrow> bool \<Rightarrow> nat \<Rightarrow> nl_sock option \<Rightarrow> rtnl_addr heap \<Rightarrow> 'u \<Rightarrow>
   (int \<times> nat option \<times> nl_sock option \<times> rtnl_addr heap \<times> 'u) res option" where
  "rtnl_addr_alloc_cache ops cops allocs ll parser req fuel a a1 a2 i sk h u =
     nl_cache_alloc_and_fill ops cops allocs ll parser req fuel a a1 a2 i sk h u"

text \<open>\<open>i\<close> is the index of the cache type \<open>rtnl_addr_ops\<close>.\<close>

definition rtnl_addr_get :: "nat \<Rightarrow> nat \<Rightarrow> int \<Rightarrow> nl_addr \<Rightarrow> rtnl_addr heap \<Rightarrow> (nat option \<times> rtnl_addr heap) res" where
  "rtnl_addr_get i c ifindex addr h =
     and_then (deref (h_cache h) c) (\<lambda>cache.
       if c_ops cache \<noteq> i then Inr (None, h)
       else search_list (\<lambda>obj. let a = ce_data obj in
         Inr ((ifindex = 0 \<or> ia_ifindex a = u32 ifindex) \<and> ce_mask obj AND ADDR_ATTR_LOCAL \<noteq> 0 \<and> \<not> addr_differs (ia_local a) (Some addr)))
       (c_items cache) h)"

section \<open>Attributes\<close>

abbreviation set_ifaddr :: "int \<Rightarrow> (rtnl_addr \<Rightarrow> rtnl_addr) \<Rightarrow> addr_obj \<Rightarrow> addr_obj" where
  "set_ifaddr flag upd addr \<equiv> addr\<lparr>ce_data := upd (ce_data addr), ce_mask := ce_mask addr OR flag\<rparr>"

text \<open>The texts are without their terminators.\<close>

definition rtnl_addr_set_alias :: "addr_obj \<Rightarrow> byte list \<Rightarrow> int \<times> addr_obj" where
  "rtnl_addr_set_alias addr s =
     (if blen s > IFNAMSIZ - 1 then (neg_err NLE_RANGE, addr)
      else (0, set_ifaddr ADDR_ATTR_ALIAS (\<lambda>a. a\<lparr>ia_alias := wr (ia_alias a) 0 (s @ [0])\<rparr>) addr))"

definition rtnl_addr_get_alias :: "addr_obj \<Rightarrow> byte list option" where
  "rtnl_addr_get_alias addr =
     (if ce_mask addr AND ADDR_ATTR_ALIAS \<noteq> 0 then Some (text_of (ia_alias (ce_data addr))) else None)"

definition rtnl_addr_set_label :: "addr_obj \<Rightarrow> byte list \<Rightarrow> int \<times> addr_obj" where
  "rtnl_addr_set_label addr s =
     (if blen s > IFNAMSIZ - 1 then (neg_err NLE_RANGE, addr)
      else (0, set_ifaddr ADDR_ATTR_LABEL (\<lambda>a. a\<lparr>ia_label := wr (ia_label a) 0 (s @ [0])\<rparr>) addr))"

definition rtnl_addr_get_label :: "addr_obj \<Rightarrow> byte list option" where
  "rtnl_addr_get_label addr =
     (if ce_mask addr AND ADDR_ATTR_LABEL \<noteq> 0 then Some (text_of (ia_label (ce_data addr))) else None)"

definition rtnl_addr_set_ifindex :: "addr_obj \<Rightarrow> int \<Rightarrow> addr_obj" where
  "rtnl_addr_set_ifindex addr ifindex = set_ifaddr ADDR_ATTR_IFINDEX (ia_ifindex_update (\<lambda>_. u32 ifindex)) addr"

definition rtnl_addr_get_ifindex :: "addr_obj \<Rightarrow> int" where
  "rtnl_addr_get_ifindex addr = s32 (ia_ifindex (ce_data addr))"

text \<open>\<open>link\<close> is the object and its index.\<close>

definition rtnl_addr_set_link :: "addr_obj \<Rightarrow> (nat \<times> int) option \<Rightarrow> link_refs \<Rightarrow> addr_obj \<times> link_refs" where
  "rtnl_addr_set_link addr link refs =
     (let refs = link_put (ia_link (ce_data addr)) refs in
      case link of
        None \<Rightarrow> (addr, refs)
      | Some (l, index) \<Rightarrow>
          (set_ifaddr ADDR_ATTR_IFINDEX (\<lambda>a. a\<lparr>ia_link := Some l, ia_ifindex := u32 index\<rparr>) addr, link_get l refs))"

definition rtnl_addr_get_link :: "addr_obj \<Rightarrow> link_refs \<Rightarrow> nat option \<times> link_refs" where
  "rtnl_addr_get_link addr refs =
     (case ia_link (ce_data addr) of None \<Rightarrow> (None, refs) | Some l \<Rightarrow> (Some l, link_get l refs))"

definition rtnl_addr_set_family :: "addr_obj \<Rightarrow> int \<Rightarrow> addr_obj" where
  "rtnl_addr_set_family addr family = set_ifaddr ADDR_ATTR_FAMILY (ia_family_update (\<lambda>_. u8 family)) addr"

definition rtnl_addr_get_family :: "addr_obj \<Rightarrow> int" where
  "rtnl_addr_get_family addr = ia_family (ce_data addr)"

definition rtnl_addr_set_prefixlen :: "addr_obj \<Rightarrow> int \<Rightarrow> addr_obj" where
  "rtnl_addr_set_prefixlen addr prefixlen =
     (let a = (ce_data addr)\<lparr>ia_prefixlen := u8 prefixlen\<rparr>;
          plen = (\<lambda>x. nl_addr_set_prefixlen x prefixlen) in
      addr\<lparr>ce_mask := (if prefixlen \<noteq> 0 then ce_mask addr OR ADDR_ATTR_PREFIXLEN else ce_mask addr AND NOT ADDR_ATTR_PREFIXLEN),
           ce_data := (case ia_peer a of
               Some p \<Rightarrow> a\<lparr>ia_peer := Some (plen p)\<rparr>
             | None \<Rightarrow> (case ia_local a of Some l \<Rightarrow> a\<lparr>ia_local := Some (plen l)\<rparr> | None \<Rightarrow> a))\<rparr>)"

definition rtnl_addr_get_prefixlen :: "addr_obj \<Rightarrow> int" where
  "rtnl_addr_get_prefixlen addr = ia_prefixlen (ce_data addr)"

definition rtnl_addr_set_scope :: "addr_obj \<Rightarrow> int \<Rightarrow> addr_obj" where
  "rtnl_addr_set_scope addr scope = set_ifaddr ADDR_ATTR_SCOPE (ia_scope_update (\<lambda>_. u8 scope)) addr"

definition rtnl_addr_get_scope :: "addr_obj \<Rightarrow> int" where
  "rtnl_addr_get_scope addr = ia_scope (ce_data addr)"

definition rtnl_addr_set_flags :: "addr_obj \<Rightarrow> int \<Rightarrow> addr_obj" where
  "rtnl_addr_set_flags addr flags =
     set_ifaddr ADDR_ATTR_FLAGS (\<lambda>a. a\<lparr>ia_flag_mask := u32 (ia_flag_mask a OR flags), ia_flags := u32 (ia_flags a OR flags)\<rparr>) addr"

definition rtnl_addr_unset_flags :: "addr_obj \<Rightarrow> int \<Rightarrow> addr_obj" where
  "rtnl_addr_unset_flags addr flags =
     set_ifaddr ADDR_ATTR_FLAGS (\<lambda>a. a\<lparr>ia_flag_mask := u32 (ia_flag_mask a OR flags), ia_flags := u32 (ia_flags a AND NOT flags)\<rparr>) addr"

definition rtnl_addr_get_flags :: "addr_obj \<Rightarrow> int" where
  "rtnl_addr_get_flags addr = ia_flags (ce_data addr)"

text \<open>\<open>__assign_addr\<close> without the reference counts; \<open>upd\<close> stores through \<open>pos\<close>.\<close>

definition ifaddr_assign ::
  "addr_obj \<Rightarrow> (nl_addr option \<Rightarrow> rtnl_addr \<Rightarrow> rtnl_addr) \<Rightarrow> nl_addr option \<Rightarrow> int \<Rightarrow> int \<times> addr_obj" where
  "ifaddr_assign addr upd new flag =
     (case new of
        None \<Rightarrow> (0, addr\<lparr>ce_data := upd None (ce_data addr), ce_mask := ce_mask addr AND NOT flag\<rparr>)
      | Some x \<Rightarrow>
          (let known = ce_mask addr AND ADDR_ATTR_FAMILY \<noteq> 0 in
           if known \<and> a_family x \<noteq> ia_family (ce_data addr) then (neg_err NLE_AF_MISMATCH, addr)
           else
             let a = (if known then ce_data addr else (ce_data addr)\<lparr>ia_family := u8 (a_family x)\<rparr>)
             in (0, addr\<lparr>ce_data := upd (Some x) a, ce_mask := ce_mask addr OR (flag OR ADDR_ATTR_FAMILY)\<rparr>)))"

abbreviation plen_arg :: "nl_addr option \<Rightarrow> int" where
  "plen_arg x \<equiv> (case x of None \<Rightarrow> 0 | Some a \<Rightarrow> s32 (nl_addr_get_prefixlen a))"

definition rtnl_addr_set_local :: "addr_obj \<Rightarrow> nl_addr option \<Rightarrow> int \<times> addr_obj" where
  "rtnl_addr_set_local addr local =
     (let peer = ce_mask addr AND ADDR_ATTR_PEER \<noteq> 0 in
      if peer \<and> local \<noteq> None \<and> plen_arg local \<noteq> 0 then (neg_err NLE_INVAL, addr)
      else case ifaddr_assign addr (\<lambda>x. ia_local_update (\<lambda>_. x)) local ADDR_ATTR_LOCAL of
        (err, addr) \<Rightarrow>
          if err < 0 then (err, addr)
          else (0, if peer then addr else rtnl_addr_set_prefixlen addr (plen_arg local)))"

definition rtnl_addr_get_local :: "addr_obj \<Rightarrow> nl_addr option" where
  "rtnl_addr_get_local addr = ia_local (ce_data addr)"

definition rtnl_addr_set_peer :: "addr_obj \<Rightarrow> nl_addr option \<Rightarrow> int \<times> addr_obj" where
  "rtnl_addr_set_peer addr peer =
     (if peer \<noteq> None \<and> a_family (the peer) \<noteq> AF_INET then (neg_err NLE_AF_NOSUPPORT, addr)
      else case ifaddr_assign addr (\<lambda>x. ia_peer_update (\<lambda>_. x)) peer ADDR_ATTR_PEER of
        (err, addr) \<Rightarrow> if err < 0 then (err, addr) else (0, rtnl_addr_set_prefixlen addr (plen_arg peer)))"

definition rtnl_addr_get_peer :: "addr_obj \<Rightarrow> nl_addr option" where
  "rtnl_addr_get_peer addr = ia_peer (ce_data addr)"

definition rtnl_addr_set_broadcast :: "addr_obj \<Rightarrow> nl_addr option \<Rightarrow> int \<times> addr_obj" where
  "rtnl_addr_set_broadcast addr bcast =
     (if bcast \<noteq> None \<and> a_family (the bcast) \<noteq> AF_INET then (neg_err NLE_AF_NOSUPPORT, addr)
      else ifaddr_assign addr (\<lambda>x. ia_bcast_update (\<lambda>_. x)) bcast ADDR_ATTR_BROADCAST)"

definition rtnl_addr_get_broadcast :: "addr_obj \<Rightarrow> nl_addr option" where
  "rtnl_addr_get_broadcast addr = ia_bcast (ce_data addr)"

definition rtnl_addr_set_multicast :: "addr_obj \<Rightarrow> nl_addr option \<Rightarrow> int \<times> addr_obj" where
  "rtnl_addr_set_multicast addr multicast =
     (if multicast \<noteq> None \<and> a_family (the multicast) \<noteq> AF_INET6 then (neg_err NLE_AF_NOSUPPORT, addr)
      else ifaddr_assign addr (\<lambda>x. ia_multicast_update (\<lambda>_. x)) multicast ADDR_ATTR_MULTICAST)"

definition rtnl_addr_get_multicast :: "addr_obj \<Rightarrow> nl_addr option" where
  "rtnl_addr_get_multicast addr = ia_multicast (ce_data addr)"

definition rtnl_addr_set_anycast :: "addr_obj \<Rightarrow> nl_addr option \<Rightarrow> int \<times> addr_obj" where
  "rtnl_addr_set_anycast addr anycast =
     (if anycast \<noteq> None \<and> a_family (the anycast) \<noteq> AF_INET6 then (neg_err NLE_AF_NOSUPPORT, addr)
      else ifaddr_assign addr (\<lambda>x. ia_anycast_update (\<lambda>_. x)) anycast ADDR_ATTR_ANYCAST)"

definition rtnl_addr_get_anycast :: "addr_obj \<Rightarrow> nl_addr option" where
  "rtnl_addr_get_anycast addr = ia_anycast (ce_data addr)"

definition rtnl_addr_get_valid_lifetime :: "addr_obj \<Rightarrow> int" where
  "rtnl_addr_get_valid_lifetime addr =
     (if ce_mask addr AND ADDR_ATTR_CACHEINFO \<noteq> 0 then aci_valid (ia_cacheinfo (ce_data addr)) else 0xFFFFFFFF)"

definition rtnl_addr_set_valid_lifetime :: "addr_obj \<Rightarrow> int \<Rightarrow> addr_obj" where
  "rtnl_addr_set_valid_lifetime addr lifetime =
     set_ifaddr ADDR_ATTR_CACHEINFO (\<lambda>a. a\<lparr>ia_cacheinfo := (ia_cacheinfo a)\<lparr>aci_valid := u32 lifetime\<rparr>\<rparr>) addr"

definition rtnl_addr_get_preferred_lifetime :: "addr_obj \<Rightarrow> int" where
  "rtnl_addr_get_preferred_lifetime addr =
     (if ce_mask addr AND ADDR_ATTR_CACHEINFO \<noteq> 0 then aci_prefered (ia_cacheinfo (ce_data addr)) else 0xFFFFFFFF)"

definition rtnl_addr_set_preferred_lifetime :: "addr_obj \<Rightarrow> int \<Rightarrow> addr_obj" where
  "rtnl_addr_set_preferred_lifetime addr lifetime =
     set_ifaddr ADDR_ATTR_CACHEINFO (\<lambda>a. a\<lparr>ia_cacheinfo := (ia_cacheinfo a)\<lparr>aci_prefered := u32 lifetime\<rparr>\<rparr>) addr"

definition rtnl_addr_get_create_time :: "addr_obj \<Rightarrow> int" where
  "rtnl_addr_get_create_time addr = aci_cstamp (ia_cacheinfo (ce_data addr))"

definition rtnl_addr_get_last_update_time :: "addr_obj \<Rightarrow> int" where
  "rtnl_addr_get_last_update_time addr = aci_tstamp (ia_cacheinfo (ce_data addr))"

section \<open>Flags\<close>

definition addr_flags :: "trans_tbl list" where
  "addr_flags =
     [(0x01, ''secondary''), (0x02, ''nodad''), (0x04, ''optimistic''), (0x10, ''homeaddress''), (0x20, ''deprecated''),
      (0x40, ''tentative''), (0x80, ''permanent''), (0x100, ''mngtmpaddr''), (0x200, ''noprefixroute'')]"

definition rtnl_addr_flags2str :: "int \<Rightarrow> string \<Rightarrow> nat \<Rightarrow> string res" where
  "rtnl_addr_flags2str flags buf len = flags2str flags buf len addr_flags"

definition rtnl_addr_str2flags :: "string \<Rightarrow> int" where
  "rtnl_addr_str2flags name = str2flags name addr_flags"

end
