(* ===== verification/Nl_Ifaddr_Msg.thy ===== *)
theory Nl_Ifaddr_Msg
  imports Nl_Ifaddr Nl_Readback
begin

unbundle bit_operations_syntax

text \<open>
  Addresses of interfaces on the wire: what \<open>build_addr_msg\<close> writes is what \<open>addr_msg_parser\<close> reads, the conventions about
  local and peer address included.
\<close>

section \<open>The attributes of a request\<close>

definition addr_attr_list :: "addr_obj \<Rightarrow> attr list" where
  "addr_attr_list tmpl =
     (let a = ce_data tmpl; has = has_attr tmpl in
      opt (has ADDR_ATTR_LOCAL) (2, addr_bytes_of (ia_local a)) @
      opt (has ADDR_ATTR_PEER \<or> has ADDR_ATTR_LOCAL) (1, addr_bytes_of (if has ADDR_ATTR_PEER then ia_peer a else ia_local a)) @
      opt (has ADDR_ATTR_ALIAS) (10, text_of (ia_alias a) @ [0]) @ opt (has ADDR_ATTR_LABEL) (3, text_of (ia_label a) @ [0]) @
      opt (has ADDR_ATTR_BROADCAST) (4, addr_bytes_of (ia_bcast a)) @
      opt (has ADDR_ATTR_CACHEINFO) (6, cacheinfo_bytes (ia_cacheinfo a)) @
      opt (ia_flags a AND NOT 0xFF \<noteq> 0) (8, le_bytes 4 (ia_flags a)))"

text \<open>Numbers of their widths, terminated names, addresses where the mask says so.\<close>

definition wf_ifaddr :: "addr_obj \<Rightarrow> bool" where
  "wf_ifaddr addr \<longleftrightarrow>
     (let a = ce_data addr; c = ia_cacheinfo a; there = (\<lambda>x. case x of None \<Rightarrow> False | Some y \<Rightarrow> small_addr y) in
      (\<forall>v \<in> set [ia_family a, ia_prefixlen a, ia_scope a]. 0 \<le> v \<and> v < 256) \<and>
      (\<forall>v \<in> set [ia_flags a, ia_ifindex a, aci_prefered c, aci_valid c]. 0 \<le> v \<and> v < 4294967296) \<and>
      (\<forall>s \<in> set [ia_alias a, ia_label a]. blen s = IFNAMSIZ \<and> 0 \<in> set s) \<and>
      (has_attr addr ADDR_ATTR_LOCAL \<longrightarrow> there (ia_local a)) \<and> (has_attr addr ADDR_ATTR_PEER \<longrightarrow> there (ia_peer a)) \<and>
      (has_attr addr ADDR_ATTR_BROADCAST \<longrightarrow> there (ia_bcast a)))"

lemma wf_ifaddr_addrs:
  assumes "wf_ifaddr addr"
  shows "has_attr addr ADDR_ATTR_LOCAL \<Longrightarrow> \<exists>x. ia_local (ce_data addr) = Some x \<and> small_addr x"
    "has_attr addr ADDR_ATTR_PEER \<Longrightarrow> \<exists>x. ia_peer (ce_data addr) = Some x \<and> small_addr x"
    "has_attr addr ADDR_ATTR_BROADCAST \<Longrightarrow> \<exists>x. ia_bcast (ce_data addr) = Some x \<and> small_addr x"
    "has_attr addr ADDR_ATTR_PEER \<or> has_attr addr ADDR_ATTR_LOCAL \<Longrightarrow>
      \<exists>x. (if has_attr addr ADDR_ATTR_PEER then ia_peer (ce_data addr) else ia_local (ce_data addr)) = Some x \<and> small_addr x"
  using assms by (auto simp: wf_ifaddr_def Let_def split: option.splits)

lemma put_if_cacheinfo:
  "put_if b (\<lambda>msg. put_or_msgsize (nla_put msg t 16 (cacheinfo_bytes c))) msg = put_attrs (opt b (t, cacheinfo_bytes c)) msg"
  using put_if_one [of b t "cacheinfo_bytes c" msg] by (simp add: cacheinfo_bytes_def zeros_def)

text \<open>The request for a well-formed address, as a header and a list of attributes.\<close>

lemma build_addr_msg_eq:
  assumes wf: "wf_ifaddr tmpl" and scope: "addr_scope tmpl = Inr scope"
  shows "build_addr_msg True True dsz tmpl cmd flags =
    (case nlmsg_alloc_simple True True dsz cmd flags of
       None \<Rightarrow> Inl (Err NLE_NOMEM)
     | Some msg \<Rightarrow> and_then (put_or_msgsize (nlmsg_append msg (addr_hdr (ce_data tmpl) scope) 4)) (put_attrs (addr_attr_list tmpl)))"
proof -
  have nam: "0 \<in> set (ia_alias (ce_data tmpl))" "0 \<in> set (ia_label (ce_data tmpl))"
    using wf by (simp_all add: wf_ifaddr_def Let_def)
  note pa = wf_ifaddr_addrs [OF wf, THEN put_if_addr]
  show ?thesis
    by (simp only: build_addr_msg_def Let_def has_attr_def [symmetric] scope and_then_simps put_if_u32 put_if_cacheinfo
        put_if_text [OF nam(1)] put_if_text [OF nam(2)] pa put_attrs_append addr_attr_list_def append_assoc)
qed

section \<open>The attributes seen by the parser\<close>

lemma addr_policy_nth:
  "\<forall>t \<in> {Suc 0, 2, 4, 8}. addr_policy ! t = \<lparr>pol_type = 0, pol_minlen = 0, pol_maxlen = 0\<rparr>"
  "\<forall>t \<in> {3, 10}. addr_policy ! t = \<lparr>pol_type = 5, pol_minlen = 0, pol_maxlen = 16\<rparr>"
  "addr_policy ! 6 = \<lparr>pol_type = 0, pol_minlen = 16, pol_maxlen = 0\<rparr>"
  by code_simp+

lemma addr_attrs_distinct: "distinct (map fst (addr_attr_list tmpl))"
  unfolding addr_attr_list_def Let_def distinct_opt fst_opt by (simp add: distinct_opt(2))

lemma addr_attrs_ok:
  assumes wf: "wf_ifaddr tmpl"
  shows "list_all (\<lambda>(t, d). 0 \<le> t \<and> t \<le> IFA_MAX \<and> payload_ok (addr_policy ! nat t) d \<and> blen d \<le> 64) (addr_attr_list tmpl)"
proof -
  note l = wf_ifaddr_addrs [OF wf, THEN blen_addr_bytes_of]
  have t: "blen (text_of (ia_alias (ce_data tmpl))) < 16" "blen (text_of (ia_label (ce_data tmpl))) < 16"
    using wf blen_text [of "ia_alias (ce_data tmpl)"] blen_text [of "ia_label (ce_data tmpl)"]
    by (simp_all add: wf_ifaddr_def Let_def IFNAMSIZ_def)
  show ?thesis
    unfolding addr_attr_list_def Let_def list_all_opt prod.case using l t
    by (simp add: addr_policy_nth payload_ok_def nla_attr_minlen_def cacheinfo_bytes_def zeros_def IFA_MAX_def
        NLA_TYPE_MAX_def NLA_U8_def NLA_U16_def NLA_U32_def NLA_U64_def NLA_STRING_def NLA_FLAG_def split del: if_split)
qed

lemma addr_attrs_short:
  assumes "wf_ifaddr tmpl"
  shows "blen (attrs_bytes (addr_attr_list tmpl)) \<le> 476" "\<forall>a \<in> set (addr_attr_list tmpl). attr_fits a"
proof -
  have "length (addr_attr_list tmpl) \<le> Suc (Suc (Suc (Suc (Suc (Suc (Suc 0))))))"
    unfolding addr_attr_list_def Let_def by (intro length_opt)
  then have l: "length (addr_attr_list tmpl) \<le> 7" by simp
  have "list_all (\<lambda>(t, d). blen d \<le> 64) (addr_attr_list tmpl)" using addr_attrs_ok [OF assms] by (auto simp: list_all_iff)
  from blen_attrs_le [OF this] l show "blen (attrs_bytes (addr_attr_list tmpl)) \<le> 476" by simp
  show "\<forall>a \<in> set (addr_attr_list tmpl). attr_fits a"
    using addr_attrs_ok [OF assms] by (auto simp: list_all_iff attr_fits_def IFA_MAX_def)
qed

text \<open>The address that arrives, on an interface that the cache of interfaces may know.\<close>

definition sent_ifaddr :: "(int \<Rightarrow> nat option) \<Rightarrow> int \<Rightarrow> addr_obj \<Rightarrow> rtnl_addr" where
  "sent_ifaddr links scope tmpl =
     (let a = ce_data tmpl; has = has_attr tmpl; c = ia_cacheinfo a; raw = (\<lambda>x. raw_addr (ia_family a) (addr_bytes_of x)) in
      \<lparr>ia_family = ia_family a, ia_prefixlen = ia_prefixlen a, ia_scope = scope, ia_flags = ia_flags a, ia_ifindex = ia_ifindex a,
       ia_peer = (if has ADDR_ATTR_PEER then Some (raw (ia_peer a)) else None),
       ia_local = Some (nl_addr_set_prefixlen (raw (ia_local a)) (ia_prefixlen a)),
       ia_bcast = (if has ADDR_ATTR_BROADCAST then Some (raw (ia_bcast a)) else None), ia_anycast = None, ia_multicast = None,
       ia_cacheinfo = (if has ADDR_ATTR_CACHEINFO
         then \<lparr>aci_prefered = aci_prefered c, aci_valid = aci_valid c, aci_cstamp = 0, aci_tstamp = 0\<rparr>
         else \<lparr>aci_prefered = 0, aci_valid = 0, aci_cstamp = 0, aci_tstamp = 0\<rparr>),
       ia_alias = (if has ADDR_ATTR_ALIAS then sent_name (ia_alias a) else zeros IFNAMSIZ),
       ia_label = (if has ADDR_ATTR_LABEL then sent_name (ia_label a) else zeros IFNAMSIZ),
       ia_flag_mask = 0, ia_link = links (s32 (ia_ifindex a))\<rparr>)"

definition sent_addr_mask :: "addr_obj \<Rightarrow> int" where
  "sent_addr_mask tmpl =
     ADDR_ATTR_FAMILY OR ADDR_ATTR_PREFIXLEN OR ADDR_ATTR_FLAGS OR ADDR_ATTR_SCOPE OR ADDR_ATTR_IFINDEX OR ADDR_ATTR_LOCAL OR
     (ce_mask tmpl AND (ADDR_ATTR_ALIAS OR ADDR_ATTR_LABEL OR ADDR_ATTR_CACHEINFO OR ADDR_ATTR_PEER OR ADDR_ATTR_BROADCAST))"

lemma sent_addr_mask_eq:
  defines "f \<equiv> \<lambda>b (A :: int). if b then A else 0"
  shows "sent_addr_mask tmpl =
    ADDR_ATTR_FAMILY OR ADDR_ATTR_PREFIXLEN OR ADDR_ATTR_FLAGS OR ADDR_ATTR_SCOPE OR ADDR_ATTR_IFINDEX OR ADDR_ATTR_LOCAL OR
    f (has_attr tmpl ADDR_ATTR_ALIAS) ADDR_ATTR_ALIAS OR f (has_attr tmpl ADDR_ATTR_LABEL) ADDR_ATTR_LABEL OR
    f (has_attr tmpl ADDR_ATTR_CACHEINFO) ADDR_ATTR_CACHEINFO OR f (has_attr tmpl ADDR_ATTR_PEER) ADDR_ATTR_PEER OR
    f (has_attr tmpl ADDR_ATTR_BROADCAST) ADDR_ATTR_BROADCAST"
proof -
  have k: "ADDR_ATTR_ALIAS = 2 ^ 12" "ADDR_ATTR_LABEL = 2 ^ 5" "ADDR_ATTR_CACHEINFO = 2 ^ 6" "ADDR_ATTR_PEER = 2 ^ 7" "ADDR_ATTR_BROADCAST = 2 ^ 9"
    by (simp_all add: addr_attr_defs)
  show ?thesis unfolding sent_addr_mask_def f_def bit.conj_disj_distrib k [THEN has_attr_bit] or.assoc ..
qed

lemma addr_hdr_fields:
  assumes "rd buf 16 8 = addr_hdr a scope"
  shows "le_int (rd buf 16 1) = u8 (ia_family a)" "le_int (rd buf 17 1) = u8 (ia_prefixlen a)" "le_int (rd buf 18 1) = u8 (ia_flags a)"
    "le_int (rd buf 19 1) = u8 scope" "get32 buf 20 = u32 (ia_ifindex a)"
proof -
  have sub: "rd buf (16 + k) m = rd (addr_hdr a scope) k m" if "0 \<le> k" "k + m \<le> 8" for k m
    using rd_rd [of 16 k m 8 buf] that assms by simp
  have h: "rd (addr_hdr a scope) 0 1 = le_bytes 1 (ia_family a)" "rd (addr_hdr a scope) 1 1 = le_bytes 1 (ia_prefixlen a)"
    "rd (addr_hdr a scope) 2 1 = le_bytes 1 (ia_flags a)" "rd (addr_hdr a scope) 3 1 = le_bytes 1 scope"
    "rd (addr_hdr a scope) 4 4 = le_bytes 4 (ia_ifindex a)"
    by (simp_all add: addr_hdr_def rd_def numeral_eq_Suc)
  have "rd buf 16 1 = le_bytes 1 (ia_family a)" "rd buf 17 1 = le_bytes 1 (ia_prefixlen a)" "rd buf 18 1 = le_bytes 1 (ia_flags a)"
    "rd buf 19 1 = le_bytes 1 scope" "rd buf 20 4 = le_bytes 4 (ia_ifindex a)"
    using sub [of 0 1] sub [of 1 1] sub [of 2 1] sub [of 3 1] sub [of 4 4] unfolding h by simp_all
  then show "le_int (rd buf 16 1) = u8 (ia_family a)" "le_int (rd buf 17 1) = u8 (ia_prefixlen a)" "le_int (rd buf 18 1) = u8 (ia_flags a)"
    "le_int (rd buf 19 1) = u8 scope" "get32 buf 20 = u32 (ia_ifindex a)"
    by (simp_all only: get32_def le_int_bytes u8_def u32_def) simp_all
qed

lemma addr_entries:
  assumes "\<And>t. int t \<le> IFA_MAX \<Longrightarrow> entry_is buf (tb ! t) (map_of (addr_attr_list tmpl) (int t))"
    and "has_attr tmpl ADDR_ATTR_LOCAL"
  defines "a \<equiv> ce_data tmpl" and "has \<equiv> has_attr tmpl"
  shows "entry_is buf (tb ! 2) (Some (addr_bytes_of (ia_local a)))"
    "entry_is buf (tb ! 1) (Some (addr_bytes_of (if has ADDR_ATTR_PEER then ia_peer a else ia_local a)))"
    "entry_is buf (tb ! 10) (if has ADDR_ATTR_ALIAS then Some (text_of (ia_alias a) @ [0]) else None)"
    "entry_is buf (tb ! 3) (if has ADDR_ATTR_LABEL then Some (text_of (ia_label a) @ [0]) else None)"
    "entry_is buf (tb ! 4) (if has ADDR_ATTR_BROADCAST then Some (addr_bytes_of (ia_bcast a)) else None)"
    "entry_is buf (tb ! 6) (if has ADDR_ATTR_CACHEINFO then Some (cacheinfo_bytes (ia_cacheinfo a)) else None)"
    "entry_is buf (tb ! 8) (if ia_flags a AND NOT 0xFF \<noteq> 0 then Some (le_bytes 4 (ia_flags a)) else None)"
    "entry_is buf (tb ! 7) None" "entry_is buf (tb ! 5) None"
proof -
  have m: "map_of (opt b (t, d)) k = (if b \<and> k = t then Some d else None)" for b t d k by (simp add: opt_def)
  note e = assms(1) [unfolded addr_attr_list_def Let_def map_of_opt m IFA_MAX_def, folded a_def has_def] and l = assms(2) [folded has_def]
  show "entry_is buf (tb ! 2) (Some (addr_bytes_of (ia_local a)))"
    "entry_is buf (tb ! 1) (Some (addr_bytes_of (if has ADDR_ATTR_PEER then ia_peer a else ia_local a)))"
    "entry_is buf (tb ! 10) (if has ADDR_ATTR_ALIAS then Some (text_of (ia_alias a) @ [0]) else None)"
    "entry_is buf (tb ! 3) (if has ADDR_ATTR_LABEL then Some (text_of (ia_label a) @ [0]) else None)"
    using l e [of 2] e [of 1] e [of 10] e [of 3] by (simp_all cong del: if_weak_cong)
  show "entry_is buf (tb ! 4) (if has ADDR_ATTR_BROADCAST then Some (addr_bytes_of (ia_bcast a)) else None)"
    "entry_is buf (tb ! 6) (if has ADDR_ATTR_CACHEINFO then Some (cacheinfo_bytes (ia_cacheinfo a)) else None)"
    "entry_is buf (tb ! 8) (if ia_flags a AND NOT 0xFF \<noteq> 0 then Some (le_bytes 4 (ia_flags a)) else None)"
    "entry_is buf (tb ! 7) None" "entry_is buf (tb ! 5) None"
    using e [of 4] e [of 6] e [of 8] e [of 7] e [of 5] by (simp_all cong del: if_weak_cong)
qed

text \<open>The blocks of the parser.\<close>

lemma attr_address_entry:
  assumes "entry_is buf e (Some d)" "blen d \<le> 64" "family \<noteq> AF_MPLS"
  shows "\<exists>p. e = Some p \<and> attr_address buf family p = raw_addr family d"
proof -
  obtain p where p: "e = Some p" "reads buf p d" using assms(1) by (auto simp: entry_is_def)
  show ?thesis using reads_raw_addr [OF p(2) _ assms(3)] assms(2) p(1) by (simp add: attr_address_def)
qed

lemma addr_inet_entry:
  assumes "entry_is buf e (Some d)" "entry_is buf e' (Some d')" "blen d \<le> 64" "blen d' \<le> 64" "ia_family (ce_data obj) \<noteq> AF_MPLS"
  shows "addr_inet buf e e' obj =
    obj\<lparr>ce_data := (ce_data obj)\<lparr>ia_local := Some (nl_addr_set_prefixlen (raw_addr (ia_family (ce_data obj)) d) (ia_prefixlen (ce_data obj))),
          ia_peer := (if d = d' then None else Some (raw_addr (ia_family (ce_data obj)) d'))\<rparr>,
        ce_mask := ce_mask obj OR ADDR_ATTR_LOCAL OR (if d = d' then 0 else ADDR_ATTR_PEER)\<rparr>"
  using attr_address_entry [OF assms(1,3,5)] attr_address_entry [OF assms(2,4,5)] raw_addr_differs [OF assms(3,4)]
  by (auto simp: addr_inet_def Let_def)

lemma addr_other_entry:
  assumes "entry_is buf e (Some d)" "entry_is buf e' (Some d)" "blen d \<le> 64" "ia_family (ce_data obj) \<noteq> AF_MPLS"
  shows "addr_other buf e e' obj =
    obj\<lparr>ce_data := (ce_data obj)\<lparr>ia_local := Some (nl_addr_set_prefixlen (raw_addr (ia_family (ce_data obj)) d) (ia_prefixlen (ce_data obj)))\<rparr>,
        ce_mask := ce_mask obj OR ADDR_ATTR_LOCAL\<rparr>"
  using attr_address_entry [OF assms(1,3,4)] attr_address_entry [OF assms(2,3,4)] raw_addr_differs [OF assms(3,3)]
  by (auto simp: addr_other_def Let_def)

lemma reads_cacheinfo:
  assumes "reads buf p (cacheinfo_bytes c)" "0 \<le> aci_prefered c" "aci_prefered c < 4294967296" "0 \<le> aci_valid c" "aci_valid c < 4294967296"
  shows "addr_cacheinfo buf p = \<lparr>aci_prefered = aci_prefered c, aci_valid = aci_valid c, aci_cstamp = 0, aci_tstamp = 0\<rparr>"
proof -
  have sub: "rd buf (p + 4 + k) m = rd (cacheinfo_bytes c) k m" if "0 \<le> k" "k + m \<le> 16" for k m
    using rd_rd [of "p + 4" k m 16 buf] that assms(1) by (simp add: reads_def cacheinfo_bytes_def zeros_def)
  have h: "rd (cacheinfo_bytes c) 0 4 = le_bytes 4 (aci_prefered c)" "rd (cacheinfo_bytes c) 4 4 = le_bytes 4 (aci_valid c)"
    "rd (cacheinfo_bytes c) 8 4 = le_bytes 4 0" "rd (cacheinfo_bytes c) 12 4 = le_bytes 4 0"
    by (simp_all add: cacheinfo_bytes_def rd_def zeros_def numeral_eq_Suc)
  have "rd buf (p + 4) 4 = le_bytes 4 (aci_prefered c)" "rd buf (8 + p) 4 = le_bytes 4 (aci_valid c)"
    "rd buf (12 + p) 4 = le_bytes 4 0" "rd buf (16 + p) 4 = le_bytes 4 0"
    using sub [of 0 4] sub [of 4 4] sub [of 8 4] sub [of 12 4] unfolding h by (simp_all add: ac_simps)
  then show ?thesis using assms(2-5) by (simp add: addr_cacheinfo_def Let_def nla_data_def get32_def le_int_bytes)
qed

lemma if_attr_cacheinfo:
  assumes "entry_is buf e (if b then Some (cacheinfo_bytes c) else None)" "0 \<le> aci_prefered c" "aci_prefered c < 4294967296"
    "0 \<le> aci_valid c" "aci_valid c < 4294967296" "sett (get (ce_data obj)) (ce_data obj) = ce_data obj"
  shows "if_attr e flag (\<lambda>p. sett (addr_cacheinfo buf p)) obj =
    obj\<lparr>ce_data := sett (if b then \<lparr>aci_prefered = aci_prefered c, aci_valid = aci_valid c, aci_cstamp = 0, aci_tstamp = 0\<rparr>
          else get (ce_data obj)) (ce_data obj), ce_mask := ce_mask obj OR (if b then flag else 0)\<rparr>"
  using assms reads_cacheinfo [of buf _ c] by (intro if_attr_entry) auto

lemma if_attr_address:
  assumes "entry_is buf e (if b then Some d else None)" "b \<Longrightarrow> blen d \<le> 64" "family \<noteq> AF_MPLS"
    "sett (get (ce_data obj)) (ce_data obj) = ce_data obj"
  shows "if_attr e flag (\<lambda>p. sett (Some (attr_address buf family p))) obj =
    obj\<lparr>ce_data := sett (if b then Some (raw_addr family d) else get (ce_data obj)) (ce_data obj), ce_mask := ce_mask obj OR (if b then flag else 0)\<rparr>"
proof (cases b)
  case True
  then show ?thesis using assms reads_raw_addr [of buf _ d family]
    by (intro if_attr_entry) (auto simp: attr_address_def)
next
  case False
  then show ?thesis using assms(1,4) by (simp add: if_attr_def entry_is_def)
qed

lemma if_attr_none: "entry_is buf e None \<Longrightarrow> if_attr e flag upd obj = obj"
  by (simp add: entry_is_def if_attr_def)

lemma addr_from_hdr_eq:
  assumes h: "rd buf 16 8 = addr_hdr a scope" and e: "entry_is buf e (if ia_flags a AND NOT 0xFF \<noteq> 0 then Some (le_bytes 4 (ia_flags a)) else None)"
    and w: "0 \<le> ia_family a" "ia_family a < 256" "0 \<le> ia_prefixlen a" "ia_prefixlen a < 256" "0 \<le> scope" "scope < 256"
      "0 \<le> ia_flags a" "ia_flags a < 4294967296" "0 \<le> ia_ifindex a" "ia_ifindex a < 4294967296"
  shows "addr_from_hdr buf 16 e obj =
    obj\<lparr>ce_data := (ce_data obj)\<lparr>ia_family := ia_family a, ia_prefixlen := ia_prefixlen a, ia_scope := scope, ia_flags := ia_flags a,
          ia_ifindex := ia_ifindex a\<rparr>,
        ce_mask := ADDR_ATTR_FAMILY OR ADDR_ATTR_PREFIXLEN OR ADDR_ATTR_FLAGS OR ADDR_ATTR_SCOPE OR ADDR_ATTR_IFINDEX\<rparr>"
proof -
  have "u8 (ia_flags a) = ia_flags a" if "ia_flags a AND NOT 0xFF = 0"
  proof -
    have m: "(0xFF :: int) = mask 8" by (simp add: mask_eq_exp_minus_1)
    have "ia_flags a = (ia_flags a AND mask 8) OR (ia_flags a AND NOT (mask 8))"
      by (simp add: bit.conj_disj_distrib [symmetric])
    then show ?thesis using that unfolding m by (simp add: u8_def take_bit_eq_mask [symmetric] take_bit_eq_mod)
  qed
  then have "(case e of Some p \<Rightarrow> nla_get_u32 buf p | None \<Rightarrow> le_int (rd buf 18 1)) = ia_flags a"
    using e w(7,8) reads_u32 [of buf _ "ia_flags a"] by (auto simp: entry_is_def addr_hdr_fields(3) [OF h] split: if_splits)
  moreover have "16 + 2 = (18 :: int)" by simp
  ultimately show ?thesis using w by (simp only: addr_from_hdr_def) (simp add: addr_hdr_fields [OF h])
qed

text \<open>
  What the conventions need: a peer has a family with peers and differs from the local address, as a peer that
  equals it is not reported.
\<close>

definition peer_ok :: "addr_obj \<Rightarrow> bool" where
  "peer_ok tmpl \<longleftrightarrow>
     (let a = ce_data tmpl in
      (ia_family a = AF_INET \<or> ia_family a = AF_INET6) \<and> has_attr tmpl ADDR_ATTR_LOCAL \<and>
      (has_attr tmpl ADDR_ATTR_PEER \<longrightarrow> ia_family a = AF_INET \<and> addr_bytes_of (ia_peer a) \<noteq> addr_bytes_of (ia_local a)))"

text \<open>Local and peer address together.\<close>

lemma addr_pair_entry:
  assumes wf: "wf_ifaddr tmpl" and ok: "peer_ok tmpl" and obj: "ia_family (ce_data obj) = ia_family (ce_data tmpl)"
    "ia_prefixlen (ce_data obj) = ia_prefixlen (ce_data tmpl)" "ia_peer (ce_data obj) = None"
    and e: "entry_is buf e (Some (addr_bytes_of (ia_local (ce_data tmpl))))"
    and e': "entry_is buf e' (Some (addr_bytes_of (if has_attr tmpl ADDR_ATTR_PEER then ia_peer (ce_data tmpl) else ia_local (ce_data tmpl))))"
  shows "(if ia_family (ce_data tmpl) = AF_INET then addr_inet buf e e' obj else addr_other buf e e' obj) =
    obj\<lparr>ce_data := (ce_data obj)\<lparr>
          ia_local := Some (nl_addr_set_prefixlen (raw_addr (ia_family (ce_data tmpl)) (addr_bytes_of (ia_local (ce_data tmpl)))) (ia_prefixlen (ce_data tmpl))),
          ia_peer := (if has_attr tmpl ADDR_ATTR_PEER then Some (raw_addr (ia_family (ce_data tmpl)) (addr_bytes_of (ia_peer (ce_data tmpl)))) else None)\<rparr>,
        ce_mask := ce_mask obj OR ADDR_ATTR_LOCAL OR (if has_attr tmpl ADDR_ATTR_PEER then ADDR_ATTR_PEER else 0)\<rparr>"
proof -
  have l: "has_attr tmpl ADDR_ATTR_LOCAL" using ok by (simp add: peer_ok_def Let_def)
  have s: "blen (addr_bytes_of (ia_local (ce_data tmpl))) \<le> 64" "has_attr tmpl ADDR_ATTR_PEER \<Longrightarrow> blen (addr_bytes_of (ia_peer (ce_data tmpl))) \<le> 64"
    using wf_ifaddr_addrs(1,2) [OF wf, THEN blen_addr_bytes_of] l by auto
  have m: "ia_family (ce_data obj) \<noteq> AF_MPLS" using ok obj(1) by (auto simp: peer_ok_def Let_def AF_INET_def AF_INET6_def AF_MPLS_def)
  show ?thesis
  proof (cases "has_attr tmpl ADDR_ATTR_PEER")
    case True
    then have p: "ia_family (ce_data tmpl) = AF_INET" "addr_bytes_of (ia_local (ce_data tmpl)) \<noteq> addr_bytes_of (ia_peer (ce_data tmpl))"
      using ok by (auto simp: peer_ok_def Let_def)
    show ?thesis using addr_inet_entry [OF e _ s(1,2) m, of e'] e' True p obj by simp
  next
    case False
    then show ?thesis using addr_inet_entry [OF e _ s(1,1) m, of e'] addr_other_entry [OF e _ s(1) m, of e'] e' obj by simp
  qed
qed

text \<open>The parser on a request for a well-formed address.\<close>

lemma addr_fill_sent:
  assumes wf: "wf_ifaddr tmpl" and ok: "peer_ok tmpl" and scope: "0 \<le> scope" "scope < 256"
    and e: "\<And>t. int t \<le> IFA_MAX \<Longrightarrow> entry_is buf (tb ! t) (map_of (addr_attr_list tmpl) (int t))"
    and h: "rd buf 16 8 = addr_hdr (ce_data tmpl) scope" and obj: "ce_data obj = addr_constructor (oo_zero addr_obj_ops)"
  shows "addr_fill links buf 0 tb obj =
    obj\<lparr>ce_msgtype := nlmsg_type (nlh buf 0), ce_data := sent_ifaddr links scope tmpl, ce_mask := sent_addr_mask tmpl\<rparr>"
proof -
  let ?a = "ce_data tmpl"
  let ?c = "ia_cacheinfo ?a"
  have l: "has_attr tmpl ADDR_ATTR_LOCAL" using ok by (simp add: peer_ok_def Let_def)
  note E = addr_entries [OF e l]
  have w8: "0 \<le> ia_family ?a" "ia_family ?a < 256" "0 \<le> ia_prefixlen ?a" "ia_prefixlen ?a < 256"
    and w32: "0 \<le> ia_flags ?a" "ia_flags ?a < 4294967296" "0 \<le> ia_ifindex ?a" "ia_ifindex ?a < 4294967296"
    and wc: "0 \<le> aci_prefered ?c" "aci_prefered ?c < 4294967296" "0 \<le> aci_valid ?c" "aci_valid ?c < 4294967296"
    and wn: "0 \<in> set (ia_alias ?a)" "blen (ia_alias ?a) = IFNAMSIZ" "0 \<in> set (ia_label ?a)" "blen (ia_label ?a) = IFNAMSIZ"
    using wf by (simp_all add: wf_ifaddr_def Let_def)
  have m: "ia_family ?a \<noteq> AF_MPLS" using ok by (auto simp: peer_ok_def Let_def AF_INET_def AF_INET6_def AF_MPLS_def)
  have s: "has_attr tmpl ADDR_ATTR_BROADCAST \<Longrightarrow> blen (addr_bytes_of (ia_bcast ?a)) \<le> 64"
    using wf_ifaddr_addrs(3) [OF wf, THEN blen_addr_bytes_of] by auto
  note names = if_attr_text [where sett = "\<lambda>x a. a\<lparr>ia_alias := x\<rparr>" and get = ia_alias, OF E(3) wn(1,2)]
    if_attr_text [where sett = "\<lambda>x a. a\<lparr>ia_label := x\<rparr>" and get = ia_label, OF E(4) wn(3,4)]
  note cache = if_attr_cacheinfo [where sett = "\<lambda>x a. a\<lparr>ia_cacheinfo := x\<rparr>" and get = ia_cacheinfo, OF E(6) wc]
  note bcast = if_attr_address [where sett = "\<lambda>x a. a\<lparr>ia_bcast := x\<rparr>" and get = ia_bcast, OF E(5) s m]
  note none = if_attr_none [OF E(8)] if_attr_none [OF E(9)]
  note pair = addr_pair_entry [OF wf ok _ _ _ E(1,2)]
  have fam: "le_int (rd buf 16 1) = ia_family ?a" using addr_hdr_fields(1) [OF h] w8(1,2) by simp
  have d: "nlmsg_data 0 = 16" by (simp add: nlmsg_data_def)
  have z: "blen (zeros IFNAMSIZ) = IFNAMSIZ" by (simp add: IFNAMSIZ_def)
  have idx: "ADDR_ATTR_IFINDEX OR (ADDR_ATTR_IFINDEX OR x) = ADDR_ATTR_IFINDEX OR x" for x by (simp add: or.assoc [symmetric])
  note hdr = addr_from_hdr_eq [OF h E(7) w8(1,2,3,4) scope w32]
  note eqs = hdr names cache bcast none obj addr_obj_ops_def addr_constructor_def z sent_ifaddr_def Let_def addr_link_def
  show ?thesis
    unfolding addr_fill_def Let_def d fam sent_addr_mask_eq
    by (cases "links (s32 (ia_ifindex ?a))")
      (simp_all add: eqs pair [unfolded One_nat_def] idx or.assoc or.commute or.left_commute cong del: if_weak_cong split del: if_split)
qed

lemma addr_parser_delivers:
  assumes "nlmsg_parse buf 0 8 IFA_MAX (Some addr_policy) = (Some tb, Inr ())"
  shows "addr_msg_parser links (Some p) (\<lambda>_. True) buf 0 pp_cb h u =
    deliver (\<lambda>_. addr_obj_ops) 0 (Some p) (\<lambda>obj. addr_fill links buf 0 tb obj) pp_cb h u"
proof -
  have sz: "SIZEOF_NL_OBJECT \<le> oo_size addr_obj_ops" by (simp add: SIZEOF_NL_OBJECT_def addr_obj_ops_def)
  show ?thesis using assms sz by (simp add: addr_msg_parser_def deliver_def nl_object_alloc_def Let_def)
qed

lemma addr_scope_range:
  assumes "wf_ifaddr tmpl" "addr_scope tmpl = Inr scope"
  shows "0 \<le> scope" "scope < 256"
  using assms by (auto simp: addr_scope_def wf_ifaddr_def Let_def RT_SCOPE_HOST_def RT_SCOPE_UNIVERSE_def split: if_splits option.splits list.splits)

section \<open>Properties\<close>

text \<open>
  What arrives of an address: the numbers of the header, the addresses with their bytes and in the family of the request, the
  names and the lifetimes, each if the request announces it. The times of creation and change are the kernel's to set.
\<close>

definition address_arrives :: "int \<Rightarrow> nl_addr option \<Rightarrow> nl_addr option \<Rightarrow> bool" where
  "address_arrives family x y \<longleftrightarrow> y \<noteq> None \<and> nl_addr_get_family (the y) = family \<and> addr_bytes_of y = addr_bytes_of x"

definition ifaddr_arrives :: "addr_obj \<Rightarrow> int \<Rightarrow> rtnl_addr \<Rightarrow> bool" where
  "ifaddr_arrives tmpl scope d \<longleftrightarrow>
     (let a = ce_data tmpl; has = has_attr tmpl; c = ia_cacheinfo a in
      ia_family d = ia_family a \<and> ia_prefixlen d = ia_prefixlen a \<and> ia_scope d = scope \<and> ia_flags d = ia_flags a \<and>
      ia_ifindex d = ia_ifindex a \<and> address_arrives (ia_family a) (ia_local a) (ia_local d) \<and>
      (if has ADDR_ATTR_PEER then address_arrives (ia_family a) (ia_peer a) (ia_peer d)
       else ia_peer d = None \<and> nl_addr_get_prefixlen (the (ia_local d)) = ia_prefixlen a) \<and>
      (if has ADDR_ATTR_BROADCAST then address_arrives (ia_family a) (ia_bcast a) (ia_bcast d) else ia_bcast d = None) \<and>
      ia_anycast d = None \<and> ia_multicast d = None \<and>
      (has ADDR_ATTR_CACHEINFO \<longrightarrow>
        aci_prefered (ia_cacheinfo d) = aci_prefered c \<and> aci_valid (ia_cacheinfo d) = aci_valid c) \<and>
      text_of (ia_alias d) = (if has ADDR_ATTR_ALIAS then text_of (ia_alias a) else []) \<and>
      text_of (ia_label d) = (if has ADDR_ATTR_LABEL then text_of (ia_label a) else []))"

lemma address_arrives_raw:
  assumes "x = Some a" "small_addr a"
  shows "address_arrives family x (Some (raw_addr family (addr_bytes_of x)))"
    "address_arrives family x (Some (nl_addr_set_prefixlen (raw_addr family (addr_bytes_of x)) plen))"
  using assms
  by (simp_all add: address_arrives_def raw_addr_def nl_addr_set_prefixlen_def nl_addr_get_family_def addr_bytes_of_def small_addr_def rd_def min_def)

lemma text_of_sent: "text_of (sent_name s) = text_of s" "text_of (zeros n) = []"
  by (simp_all add: text_of_def sent_name_def zeros_def takeWhile_append2 takeWhile_eq_Nil_iff takeWhile_append)

lemma sent_ifaddr_arrives:
  assumes wf: "wf_ifaddr tmpl" and l: "has_attr tmpl ADDR_ATTR_LOCAL"
  shows "ifaddr_arrives tmpl scope (sent_ifaddr links scope tmpl)"
proof -
  note a = wf_ifaddr_addrs [OF wf]
  have p: "u32 (s32 (ia_prefixlen (ce_data tmpl))) = ia_prefixlen (ce_data tmpl)"
    using wf by (simp add: wf_ifaddr_def Let_def s32_def u32_def)
  have loc: "address_arrives f (ia_local (ce_data tmpl)) (Some (nl_addr_set_prefixlen (raw_addr f (addr_bytes_of (ia_local (ce_data tmpl)))) plen))"
    for f plen using a(1) [OF l] address_arrives_raw(2) by blast
  have peer: "has_attr tmpl ADDR_ATTR_PEER \<Longrightarrow>
      address_arrives f (ia_peer (ce_data tmpl)) (Some (raw_addr f (addr_bytes_of (ia_peer (ce_data tmpl)))))" for f
    using a(2) address_arrives_raw(1) by blast
  have bc: "has_attr tmpl ADDR_ATTR_BROADCAST \<Longrightarrow>
      address_arrives f (ia_bcast (ce_data tmpl)) (Some (raw_addr f (addr_bytes_of (ia_bcast (ce_data tmpl)))))" for f
    using a(3) address_arrives_raw(1) by blast
  show ?thesis
    using loc peer bc p
    by (simp add: ifaddr_arrives_def sent_ifaddr_def Let_def text_of_sent nl_addr_set_prefixlen_def nl_addr_get_prefixlen_def)
qed

text \<open>
  C5. Sending and receiving addresses: for every IPv4 or IPv6 address with a local address of at most 64 bytes (and,
  in IPv4, perhaps another peer) whose fields have their widths and whose names are terminated, \<open>build_addr_msg\<close> succeeds if the default message size is at
  least 500 bytes, and \<open>addr_msg_parser\<close> on the message hands an object to its callback with the family, the length of the prefix,
  the flags and the index of the address, the scope of the request, the bytes of the local address, of the peer and of the
  broadcast address, the lifetimes, the label and the alias, each as far as the address announces it, and nothing else announced in
  its mask. Without a peer the local address has the length of the prefix. The object refers to the interface that the cache of
  interfaces has for its index. (Nothing is said of the times of creation and change, nor of the prefix of either address when there is
  a peer.)
\<close>

theorem addr_build_then_parse:
  assumes wf: "wf_ifaddr tmpl" and ok: "peer_ok tmpl" and scope: "addr_scope tmpl = Inr scope" and dsz: "500 \<le> dsz" "dsz < 2147483648"
  shows "\<exists>msg d. build_addr_msg True True dsz tmpl cmd flags = Inr msg \<and> nlmsg_type (nlmsg_hdr msg) = u16 cmd \<and>
    ifaddr_arrives tmpl scope d \<and>
    (\<forall>links p pp_cb h u. addr_msg_parser links (Some p) (\<lambda>_. True) (nm_nlh msg) 0 pp_cb h (u :: 'u) =
       deliver (\<lambda>_. addr_obj_ops) 0 (Some p)
         (\<lambda>obj. obj\<lparr>ce_msgtype := u16 cmd, ce_data := d\<lparr>ia_link := links (s32 (ia_ifindex d))\<rparr>, ce_mask := sent_addr_mask tmpl\<rparr>)
         pp_cb h u)"
proof -
  let ?as = "addr_attr_list tmpl"
  define hdr where "hdr = addr_hdr (ce_data tmpl) scope"
  note short = addr_attrs_short [OF wf]
  have hl: "blen hdr = 8" by (simp add: hdr_def addr_hdr_def)
  have known: "list_all (\<lambda>(t, d). t \<le> IFA_MAX \<and> payload_ok (addr_policy ! nat t) d) ?as"
    using addr_attrs_ok [OF wf] by (rule list.pred_mono_strong) auto
  obtain msg tb where m: "build_addr_msg True True dsz tmpl cmd flags = Inr msg" "rd (nm_nlh msg) 16 8 = hdr" "nlmsg_type (nlmsg_hdr msg) = u16 cmd"
    "nlmsg_parse (nm_nlh msg) 0 8 IFA_MAX (Some addr_policy) = (Some tb, Inr ())"
    "\<And>t. int t \<le> IFA_MAX \<Longrightarrow> entry_is (nm_nlh msg) (tb ! t) (map_of ?as (int t))"
    using request_parsed [OF short(2) _ dsz(2) _ known addr_attrs_distinct, of hdr cmd flags] short(1) dsz(1)
    unfolding build_addr_msg_eq [OF wf scope] hdr_def [symmetric] hl by (auto simp: IFA_MAX_def align4_eq)
  have sz: "SIZEOF_NL_OBJECT \<le> oo_size addr_obj_ops" by (simp add: SIZEOF_NL_OBJECT_def addr_obj_ops_def)
  have new: "ce_data (new_object (\<lambda>_. addr_obj_ops) 0) = addr_constructor (oo_zero addr_obj_ops)"
    by (simp add: new_object_def addr_obj_ops_def)
  note fill = addr_fill_sent [OF wf ok addr_scope_range [OF wf scope] m(5) m(2) [unfolded hdr_def] new]
  have t: "nlmsg_type (nlh (nm_nlh msg) 0) = u16 cmd" using m(3) by (simp add: nlmsg_hdr_def)
  let ?d = "sent_ifaddr (\<lambda>_. None) scope tmpl"
  have lnk: "sent_ifaddr links scope tmpl = ?d\<lparr>ia_link := links (s32 (ia_ifindex ?d))\<rparr>" for links
    by (simp add: sent_ifaddr_def Let_def)
  have "addr_msg_parser links (Some p) (\<lambda>_. True) (nm_nlh msg) 0 pp_cb h (u :: 'u) =
      deliver (\<lambda>_. addr_obj_ops) 0 (Some p)
        (\<lambda>obj. obj\<lparr>ce_msgtype := u16 cmd, ce_data := ?d\<lparr>ia_link := links (s32 (ia_ifindex ?d))\<rparr>, ce_mask := sent_addr_mask tmpl\<rparr>) pp_cb h u"
    for links p pp_cb h u
    unfolding lnk [of links, symmetric]
    by (simp add: addr_parser_delivers [OF m(4)] deliver_eq [where ops = "\<lambda>_. addr_obj_ops", OF sz] fill t)
  moreover have "ifaddr_arrives tmpl scope ?d"
    using ok by (intro sent_ifaddr_arrives [OF wf]) (simp add: peer_ok_def Let_def)
  ultimately show ?thesis using m(1,3) by blast
qed

text \<open>The address 10.0.0.1 with the peer 10.0.0.2/32 on the interface 3.\<close>

definition ip4 :: "byte list \<Rightarrow> int \<Rightarrow> nl_addr" where
  "ip4 bytes plen = \<lparr>a_family = AF_INET, a_maxsize = 4, a_len = 4, a_prefixlen = plen, a_refcnt = 1, a_addr = bytes\<rparr>"

definition one_ifaddr :: addr_obj where
  "one_ifaddr = rtnl_addr_set_ifindex (snd (rtnl_addr_set_peer (snd (rtnl_addr_set_local (new_object (\<lambda>_. addr_obj_ops) 0)
     (Some (ip4 [10, 0, 0, 1] 32)))) (Some (ip4 [10, 0, 0, 2] 32)))) 3"

theorem addr_build_then_parse_witness:
  "\<exists>msg d. build_addr_msg True True 4096 one_ifaddr RTM_NEWADDR 0 = Inr msg \<and>
     addr_bytes_of (ia_local d) = [10, 0, 0, 1] \<and> addr_bytes_of (ia_peer d) = [10, 0, 0, 2] \<and> ia_ifindex d = 3 \<and>
     (\<forall>pp_cb h. addr_msg_parser (\<lambda>i. if i = 3 then Some 5 else None) (Some 7) (\<lambda>_. True) (nm_nlh msg) 0 pp_cb h () =
       deliver (\<lambda>_. addr_obj_ops) 0 (Some 7)
         (\<lambda>obj. obj\<lparr>ce_msgtype := 20, ce_data := d\<lparr>ia_link := Some 5\<rparr>, ce_mask := 0x19F\<rparr>) pp_cb h ())"
proof -
  have w: "wf_ifaddr one_ifaddr" "peer_ok one_ifaddr" "addr_scope one_ifaddr = Inr 0" by code_simp+
  have f: "sent_addr_mask one_ifaddr = 0x19F" "u16 RTM_NEWADDR = 20" "s32 3 = 3" "has_attr one_ifaddr ADDR_ATTR_PEER"
    "addr_bytes_of (ia_local (ce_data one_ifaddr)) = [10, 0, 0, 1]" "addr_bytes_of (ia_peer (ce_data one_ifaddr)) = [10, 0, 0, 2]"
    "ia_ifindex (ce_data one_ifaddr) = 3"
    by code_simp+
  obtain msg d where m: "build_addr_msg True True 4096 one_ifaddr RTM_NEWADDR 0 = Inr msg" "ifaddr_arrives one_ifaddr 0 d"
    "\<And>links p pp_cb h. addr_msg_parser links (Some p) (\<lambda>_. True) (nm_nlh msg) 0 pp_cb h () =
       deliver (\<lambda>_. addr_obj_ops) 0 (Some p)
         (\<lambda>obj. obj\<lparr>ce_msgtype := 20, ce_data := d\<lparr>ia_link := links (s32 (ia_ifindex d))\<rparr>, ce_mask := 0x19F\<rparr>) pp_cb h ()"
    using addr_build_then_parse [where ?'u = unit, OF w, of 4096 RTM_NEWADDR 0] f(1,2) by auto
  have "addr_bytes_of (ia_local d) = [10, 0, 0, 1]" "addr_bytes_of (ia_peer d) = [10, 0, 0, 2]" "ia_ifindex d = 3"
    using m(2) f(4-7) by (simp_all add: ifaddr_arrives_def address_arrives_def Let_def)
  then show ?thesis using m(1) m(3) [of "\<lambda>i. if i = 3 then Some 5 else None" 7] f(3) by auto
qed

section \<open>Interfaces\<close>

text \<open>
  \<open>rtnl_addr_set_link\<close> without an interface gives back the reference of the address but keeps the pointer: the
  address refers to an object it has no reference to, and a second call gives the reference back again.
\<close>

lemma set_no_link_keeps_pointer:
  assumes "ia_link (ce_data addr) = Some l"
  shows "rtnl_addr_set_link addr None refs = (addr, refs(l := refs l - 1))"
  using assms by (simp add: rtnl_addr_set_link_def link_put_def)

text \<open>With an interface the references are exact.\<close>

lemma set_link_references:
  "snd (rtnl_addr_set_link addr (Some (l, index)) refs) =
    (\<lambda>x. refs x - (if ia_link (ce_data addr) = Some x then 1 else 0) + (if x = l then 1 else 0))"
  by (auto simp: rtnl_addr_set_link_def link_put_def link_get_def split: option.splits)

end
