(* ===== verification/Nl_Nexthop.thy ===== *)
theory Nl_Nexthop
  imports Nl_Ifaddr
begin

unbundle bit_operations_syntax

text \<open>
  Next hops of routes (\<open>lib/route/nexthop.c\<close>) and their encapsulation (\<open>lib/route/nexthop_encap.c\<close>,
  \<open>lib/route/nh_encap_mpls.c\<close>). A next hop is held by value, its addresses too; the only encapsulation with operations is MPLS,
  whose private data therefore is the type of all private data.
\<close>

section \<open>Data\<close>

definition NH_ATTR_FLAGS :: int where "NH_ATTR_FLAGS = 0x000001"
definition NH_ATTR_WEIGHT :: int where "NH_ATTR_WEIGHT = 0x000002"
definition NH_ATTR_IFINDEX :: int where "NH_ATTR_IFINDEX = 0x000004"
definition NH_ATTR_GATEWAY :: int where "NH_ATTR_GATEWAY = 0x000008"
definition NH_ATTR_REALMS :: int where "NH_ATTR_REALMS = 0x000010"
definition NH_ATTR_NEWDST :: int where "NH_ATTR_NEWDST = 0x000020"
definition NH_ATTR_VIA :: int where "NH_ATTR_VIA = 0x000040"
definition NH_ATTR_ENCAP :: int where "NH_ATTR_ENCAP = 0x000080"

lemmas nh_attr_defs = NH_ATTR_FLAGS_def NH_ATTR_WEIGHT_def NH_ATTR_IFINDEX_def NH_ATTR_GATEWAY_def NH_ATTR_REALMS_def
  NH_ATTR_NEWDST_def NH_ATTR_VIA_def NH_ATTR_ENCAP_def

definition LWTUNNEL_ENCAP_NONE :: int where "LWTUNNEL_ENCAP_NONE = 0"
definition LWTUNNEL_ENCAP_MPLS :: int where "LWTUNNEL_ENCAP_MPLS = 1"
definition LWTUNNEL_ENCAP_MAX :: int where "LWTUNNEL_ENCAP_MAX = 7"
definition MPLS_IPTUNNEL_MAX :: int where "MPLS_IPTUNNEL_MAX = 2"

record mpls_iptunnel_encap =
  mi_dst :: nl_addr
  mi_ttl :: int

text \<open>\<open>enc_ops\<close> is the type of the encapsulation, by which its operations are found.\<close>

record rtnl_nh_encap =
  enc_ops :: int
  enc_priv :: mpls_iptunnel_encap

record rtnl_nexthop =
  nh_flags :: int
  nh_flag_mask :: int
  nh_weight :: int
  nh_ifindex :: int
  nh_gateway :: "nl_addr option"
  nh_mask :: int
  nh_realms :: int
  nh_newdst :: "nl_addr option"
  nh_via :: "nl_addr option"
  nh_encap :: "rtnl_nh_encap option"

type_synonym pton = "int \<Rightarrow> string \<Rightarrow> byte list option"

text \<open>
  The operations of an encapsulation. \<open>parse_msg\<close> has the conversion \<open>inet_pton\<close> and the results of the allocations of the
  labels and of the encapsulation as arguments.
\<close>

record nh_encap_ops =
  encap_type :: int
  encap_build :: "nl_msg \<Rightarrow> mpls_iptunnel_encap \<Rightarrow> nl_msg res"
  encap_parse :: "pton \<Rightarrow> bool \<Rightarrow> bool \<Rightarrow> byte list \<Rightarrow> int \<Rightarrow> rtnl_nexthop \<Rightarrow> rtnl_nexthop res"
  encap_compare :: "mpls_iptunnel_encap \<Rightarrow> mpls_iptunnel_encap \<Rightarrow> bool"

section \<open>Allocation\<close>

definition new_nexthop :: rtnl_nexthop where
  "new_nexthop =
     \<lparr>nh_flags = 0, nh_flag_mask = 0, nh_weight = 0, nh_ifindex = 0, nh_gateway = None, nh_mask = 0, nh_realms = 0,
      nh_newdst = None, nh_via = None, nh_encap = None\<rparr>"

definition rtnl_route_nh_alloc :: "bool \<Rightarrow> rtnl_nexthop option" where
  "rtnl_route_nh_alloc a = (if a then Some new_nexthop else None)"

text \<open>The realms and the encapsulation are not copied, but the attribute mask is.\<close>

definition clone_addr :: "bool \<Rightarrow> nl_addr option \<Rightarrow> nl_addr option option" where
  "clone_addr a addr = (case addr of None \<Rightarrow> Some None | Some x \<Rightarrow> map_option Some (nl_addr_clone a x))"

definition rtnl_route_nh_clone :: "bool \<Rightarrow> bool \<Rightarrow> rtnl_nexthop \<Rightarrow> rtnl_nexthop option" where
  "rtnl_route_nh_clone a b src =
     (case rtnl_route_nh_alloc a of
        None \<Rightarrow> None
      | Some nh \<Rightarrow>
          (let nh = nh\<lparr>nh_flags := nh_flags src, nh_flag_mask := nh_flag_mask src, nh_weight := nh_weight src,
                 nh_ifindex := nh_ifindex src, nh_mask := nh_mask src\<rparr> in
           case (clone_addr b (nh_gateway src), clone_addr b (nh_newdst src), clone_addr b (nh_via src)) of
             (Some gateway, Some newdst, Some via) \<Rightarrow> Some (nh\<lparr>nh_gateway := gateway, nh_newdst := newdst, nh_via := via\<rparr>)
           | _ \<Rightarrow> None))"

text \<open>The destructor of the private data; what is left of its address.\<close>

definition mpls_encap_destructor :: "mpls_iptunnel_encap \<Rightarrow> nl_addr option res" where
  "mpls_encap_destructor priv = nl_addr_put (Some (mi_dst priv))"

definition encap_free :: "rtnl_nh_encap option \<Rightarrow> nl_addr option res" where
  "encap_free e = (case e of None \<Rightarrow> Inr None | Some e \<Rightarrow> mpls_encap_destructor (enc_priv e))"

definition rtnl_route_nh_free :: "rtnl_nexthop \<Rightarrow> nl_addr option list res" where
  "rtnl_route_nh_free nh =
     and_then (nl_addr_put (nh_gateway nh)) (\<lambda>g.
     and_then (nl_addr_put (nh_newdst nh)) (\<lambda>d.
     and_then (nl_addr_put (nh_via nh)) (\<lambda>v.
     and_then (encap_free (nh_encap nh)) (\<lambda>e. Inr [g, d, v, e]))))"

section \<open>Attributes\<close>

text \<open>Functions that can fail leave the next hop unchanged then.\<close>

definition nh_set_encap :: "rtnl_nexthop \<Rightarrow> rtnl_nh_encap option \<Rightarrow> rtnl_nexthop res" where
  "nh_set_encap nh e =
     and_then (encap_free (nh_encap nh)) (\<lambda>_.
       Inr (nh\<lparr>nh_encap := e, nh_mask := (if e \<noteq> None then nh_mask nh OR NH_ATTR_ENCAP else nh_mask nh AND NOT NH_ATTR_ENCAP)\<rparr>))"

definition rtnl_route_nh_set_weight :: "rtnl_nexthop \<Rightarrow> int \<Rightarrow> rtnl_nexthop" where
  "rtnl_route_nh_set_weight nh weight = nh\<lparr>nh_weight := u8 weight, nh_mask := nh_mask nh OR NH_ATTR_WEIGHT\<rparr>"

definition rtnl_route_nh_get_weight :: "rtnl_nexthop \<Rightarrow> int" where
  "rtnl_route_nh_get_weight nh = nh_weight nh"

definition rtnl_route_nh_set_ifindex :: "rtnl_nexthop \<Rightarrow> int \<Rightarrow> rtnl_nexthop" where
  "rtnl_route_nh_set_ifindex nh ifindex = nh\<lparr>nh_ifindex := u32 ifindex, nh_mask := nh_mask nh OR NH_ATTR_IFINDEX\<rparr>"

definition rtnl_route_nh_get_ifindex :: "rtnl_nexthop \<Rightarrow> int" where
  "rtnl_route_nh_get_ifindex nh = s32 (nh_ifindex nh)"

definition rtnl_route_nh_set_gateway :: "rtnl_nexthop \<Rightarrow> nl_addr option \<Rightarrow> rtnl_nexthop" where
  "rtnl_route_nh_set_gateway nh addr =
     nh\<lparr>nh_gateway := addr, nh_mask := (if addr \<noteq> None then nh_mask nh OR NH_ATTR_GATEWAY else nh_mask nh AND NOT NH_ATTR_GATEWAY)\<rparr>"

definition rtnl_route_nh_get_gateway :: "rtnl_nexthop \<Rightarrow> nl_addr option" where
  "rtnl_route_nh_get_gateway nh = nh_gateway nh"

definition rtnl_route_nh_set_flags :: "rtnl_nexthop \<Rightarrow> int \<Rightarrow> rtnl_nexthop" where
  "rtnl_route_nh_set_flags nh flags =
     nh\<lparr>nh_flag_mask := u8 (nh_flag_mask nh OR flags), nh_flags := u8 (nh_flags nh OR flags), nh_mask := nh_mask nh OR NH_ATTR_FLAGS\<rparr>"

definition rtnl_route_nh_unset_flags :: "rtnl_nexthop \<Rightarrow> int \<Rightarrow> rtnl_nexthop" where
  "rtnl_route_nh_unset_flags nh flags =
     nh\<lparr>nh_flag_mask := u8 (nh_flag_mask nh OR flags), nh_flags := u8 (nh_flags nh AND NOT flags), nh_mask := nh_mask nh OR NH_ATTR_FLAGS\<rparr>"

definition rtnl_route_nh_get_flags :: "rtnl_nexthop \<Rightarrow> int" where
  "rtnl_route_nh_get_flags nh = nh_flags nh"

definition rtnl_route_nh_set_realms :: "rtnl_nexthop \<Rightarrow> int \<Rightarrow> rtnl_nexthop" where
  "rtnl_route_nh_set_realms nh realms = nh\<lparr>nh_realms := u32 realms, nh_mask := nh_mask nh OR NH_ATTR_REALMS\<rparr>"

definition rtnl_route_nh_get_realms :: "rtnl_nexthop \<Rightarrow> int" where
  "rtnl_route_nh_get_realms nh = nh_realms nh"

text \<open>
  The check of new destinations: \<open>nl_addr_valid\<close> gets the bytes of the address as a text and their number as
  a family. It reads the text only if that number is one of the families it knows.
\<close>

definition bytes_valid :: "pton \<Rightarrow> nl_addr \<Rightarrow> bool res" where
  "bytes_valid inet_pton addr =
     (let b = nl_addr_get_binary_addr addr; family = s32 (nl_addr_get_len addr) in
      if family \<in> set [AF_INET, AF_INET6, AF_MPLS, AF_DECnet, AF_LLC] \<and> 0 \<notin> set b then Inl Undef
      else Inr (nl_addr_valid inet_pton (map (\<lambda>x. char_of (unat x)) (text_of b)) family))"

definition rtnl_route_nh_set_newdst :: "pton \<Rightarrow> rtnl_nexthop \<Rightarrow> nl_addr option \<Rightarrow> rtnl_nexthop res" where
  "rtnl_route_nh_set_newdst inet_pton nh addr =
     (case addr of
        None \<Rightarrow> Inl Undef
      | Some x \<Rightarrow>
          and_then (bytes_valid inet_pton x) (\<lambda>ok.
            if \<not> ok then Inl (Err NLE_INVAL) else Inr (nh\<lparr>nh_newdst := addr, nh_mask := nh_mask nh OR NH_ATTR_NEWDST\<rparr>)))"

definition rtnl_route_nh_get_newdst :: "rtnl_nexthop \<Rightarrow> nl_addr option" where
  "rtnl_route_nh_get_newdst nh = nh_newdst nh"

definition rtnl_route_nh_set_via :: "pton \<Rightarrow> rtnl_nexthop \<Rightarrow> nl_addr option \<Rightarrow> rtnl_nexthop res" where
  "rtnl_route_nh_set_via inet_pton nh addr =
     (case addr of
        None \<Rightarrow> Inl Undef
      | Some x \<Rightarrow>
          and_then (bytes_valid inet_pton x) (\<lambda>ok.
            if \<not> ok then Inl (Err NLE_INVAL) else Inr (nh\<lparr>nh_via := addr, nh_mask := nh_mask nh OR NH_ATTR_VIA\<rparr>)))"

definition rtnl_route_nh_get_via :: "rtnl_nexthop \<Rightarrow> nl_addr option" where
  "rtnl_route_nh_get_via nh = nh_via nh"

definition nh_flags_tbl :: "trans_tbl list" where
  "nh_flags_tbl = [(1, ''dead''), (2, ''pervasive''), (4, ''onlink'')]"

definition rtnl_route_nh_flags2str :: "int \<Rightarrow> string \<Rightarrow> nat \<Rightarrow> string res" where
  "rtnl_route_nh_flags2str flags buf len = flags2str flags buf len nh_flags_tbl"

definition rtnl_route_nh_str2flags :: "string \<Rightarrow> int" where
  "rtnl_route_nh_str2flags name = str2flags name nh_flags_tbl"

section \<open>MPLS\<close>

definition mpls_encap_build_msg :: "nl_msg \<Rightarrow> mpls_iptunnel_encap \<Rightarrow> nl_msg res" where
  "mpls_encap_build_msg msg priv =
     and_then (NLA_PUT_ADDR msg 1 (Some (mi_dst priv)))
       (put_if (mi_ttl priv \<noteq> 0) (\<lambda>msg. put_or_msgsize (nla_put_u8 msg 2 (mi_ttl priv))))"

text \<open>\<open>a\<close>: both allocations of the encapsulation.\<close>

definition rtnl_route_nh_encap_mpls ::
  "pton \<Rightarrow> bool \<Rightarrow> rtnl_nexthop \<Rightarrow> nl_addr option \<Rightarrow> int \<Rightarrow> rtnl_nexthop res" where
  "rtnl_route_nh_encap_mpls inet_pton a nh addr ttl =
     (case addr of
        None \<Rightarrow> Inl (Err NLE_INVAL)
      | Some x \<Rightarrow>
          and_then (bytes_valid inet_pton x) (\<lambda>ok.
            if \<not> ok then Inl (Err NLE_INVAL)
            else if \<not> a then Inl (Err NLE_NOMEM)
            else
              nh_set_encap nh (Some \<lparr>enc_ops = LWTUNNEL_ENCAP_MPLS, enc_priv = \<lparr>mi_dst = x, mi_ttl = u8 ttl\<rparr>\<rparr>)))"

definition mpls_encap_policy :: "nla_policy list" where
  "mpls_encap_policy =
     [\<lparr>pol_type = NLA_UNSPEC, pol_minlen = 0, pol_maxlen = 0\<rparr>, \<lparr>pol_type = NLA_U32, pol_minlen = 0, pol_maxlen = 0\<rparr>,
      \<lparr>pol_type = NLA_U8, pol_minlen = 0, pol_maxlen = 0\<rparr>]"

definition mpls_encap_parse_msg :: "pton \<Rightarrow> bool \<Rightarrow> bool \<Rightarrow> byte list \<Rightarrow> int \<Rightarrow> rtnl_nexthop \<Rightarrow> rtnl_nexthop res" where
  "mpls_encap_parse_msg inet_pton a1 a2 buf nla nh =
     (case nla_parse_nested MPLS_IPTUNNEL_MAX buf nla (Some mpls_encap_policy) of
        (_, Inl (Err e)) \<Rightarrow> Inl (Err e)
      | (_, Inl f) \<Rightarrow> Inl f
      | (tb, Inr _) \<Rightarrow>
          (case tb ! 1 of
             None \<Rightarrow> Inl (Err NLE_INVAL)
           | Some p \<Rightarrow>
               (case nl_addr_alloc_attr a1 buf p AF_MPLS of
                  None \<Rightarrow> Inl (Err NLE_NOMEM)
                | Some labels \<Rightarrow>
                    rtnl_route_nh_encap_mpls inet_pton a2 nh (Some labels) (case tb ! 2 of None \<Rightarrow> 0 | Some q \<Rightarrow> nla_get_u8 buf q))))"

text \<open>Whether the result is not zero.\<close>

definition mpls_encap_compare :: "mpls_iptunnel_encap \<Rightarrow> mpls_iptunnel_encap \<Rightarrow> bool" where
  "mpls_encap_compare a b \<longleftrightarrow> mi_ttl a \<noteq> mi_ttl b \<or> addr_differs (Some (mi_dst a)) (Some (mi_dst b))"

definition mpls_encap_ops :: nh_encap_ops where
  "mpls_encap_ops =
     \<lparr>encap_type = LWTUNNEL_ENCAP_MPLS, encap_build = mpls_encap_build_msg, encap_parse = mpls_encap_parse_msg,
      encap_compare = mpls_encap_compare\<rparr>"

section \<open>Any encapsulation\<close>

definition lwtunnel_encap_types :: "(string option \<times> nh_encap_ops option) list" where
  "lwtunnel_encap_types =
     [(Some ''none'', None), (Some ''mpls'', Some mpls_encap_ops), (Some ''ip'', None), (Some ''ila'', None), (Some ''ip6'', None),
      (None, None), (Some ''bpf'', None), (None, None)]"

definition nh_encap_type2str :: "int \<Rightarrow> string" where
  "nh_encap_type2str type =
     (if u32 type > LWTUNNEL_ENCAP_MAX then ''unknown''
      else case fst (lwtunnel_encap_types ! nat (u32 type)) of Some name \<Rightarrow> name | None \<Rightarrow> ''unknown'')"

definition nh_encap_build_msg :: "nl_msg \<Rightarrow> rtnl_nh_encap \<Rightarrow> nl_msg res" where
  "nh_encap_build_msg msg e =
     (case snd (lwtunnel_encap_types ! nat (enc_ops e)) of
        None \<Rightarrow> Inl (Err NLE_INVAL)
      | Some ops \<Rightarrow>
          and_then (put_or_msgsize (nla_put_u16 msg 21 (encap_type ops))) (\<lambda>msg.
          case nla_nest_start msg 22 of
            (_, None) \<Rightarrow> Inl (Err NLE_MSGSIZE)
          | (msg, Some encap) \<Rightarrow>
              and_then (encap_build ops msg (enc_priv e)) (\<lambda>msg.
              and_then (nla_nest_end msg encap) (\<lambda>(msg, _). Inr msg))))"

definition nh_encap_parse_msg ::
  "pton \<Rightarrow> bool \<Rightarrow> bool \<Rightarrow> byte list \<Rightarrow> int \<Rightarrow> int \<Rightarrow> rtnl_nexthop \<Rightarrow> rtnl_nexthop res" where
  "nh_encap_parse_msg inet_pton a1 a2 buf encap type_attr nh =
     (let e_type = nla_get_u16 buf type_attr in
      if e_type = LWTUNNEL_ENCAP_NONE then Inl (Err NLE_INVAL)
      else if e_type > LWTUNNEL_ENCAP_MAX then Inl (Err NLE_INVAL)
      else case snd (lwtunnel_encap_types ! nat e_type) of
        None \<Rightarrow> Inl (Err NLE_MSGTYPE_NOSUPPORT)
      | Some ops \<Rightarrow> encap_parse ops inet_pton a1 a2 buf encap nh)"

definition nh_encap_compare :: "rtnl_nh_encap option \<Rightarrow> rtnl_nh_encap option \<Rightarrow> bool" where
  "nh_encap_compare a b =
     (case (a, b) of
        (None, None) \<Rightarrow> False
      | (Some x, Some y) \<Rightarrow>
          if enc_ops x \<noteq> enc_ops y then True
          else (case snd (lwtunnel_encap_types ! nat (enc_ops x)) of
                  None \<Rightarrow> False
                | Some ops \<Rightarrow> encap_compare ops (enc_priv x) (enc_priv y))
      | _ \<Rightarrow> True)"

section \<open>Comparing\<close>

text \<open>The macro \<open>ATTR_DIFF\<close> on the attribute masks of next hops.\<close>

definition NH_DIFF :: "int \<Rightarrow> int \<Rightarrow> rtnl_nexthop \<Rightarrow> rtnl_nexthop \<Rightarrow> bool \<Rightarrow> int" where
  "NH_DIFF attrs attr a b expr =
     (if attrs AND attr \<noteq> 0 \<and>
        ((nh_mask a XOR nh_mask b) AND attr \<noteq> 0 \<or> ((nh_mask a AND nh_mask b) AND attr \<noteq> 0 \<and> expr)) then attr else 0)"

definition rtnl_route_nh_compare :: "rtnl_nexthop \<Rightarrow> rtnl_nexthop \<Rightarrow> int \<Rightarrow> bool \<Rightarrow> int" where
  "rtnl_route_nh_compare a b attrs loose =
     (let d = (\<lambda>attr expr. NH_DIFF attrs attr a b expr) in
      d NH_ATTR_IFINDEX (nh_ifindex a \<noteq> nh_ifindex b) OR
      d NH_ATTR_WEIGHT (nh_weight a \<noteq> nh_weight b) OR
      d NH_ATTR_REALMS (nh_realms a \<noteq> nh_realms b) OR
      d NH_ATTR_GATEWAY (addr_differs (nh_gateway a) (nh_gateway b)) OR
      d NH_ATTR_NEWDST (addr_differs (nh_newdst a) (nh_newdst b)) OR
      d NH_ATTR_VIA (addr_differs (nh_via a) (nh_via b)) OR
      d NH_ATTR_ENCAP (nh_encap_compare (nh_encap a) (nh_encap b)) OR
      d NH_ATTR_FLAGS (if loose then (nh_flags a XOR nh_flags b) AND nh_flag_mask b \<noteq> 0 else nh_flags a \<noteq> nh_flags b))"

end
