(* ===== verification/Nl_Route.thy ===== *)
theory Nl_Route
  imports Nl_Nexthop
begin

unbundle bit_operations_syntax

text \<open>
  The object type \<open>route/route\<close> (\<open>lib/route/route_obj.c\<close>) without its messages, and the names of tables, protocols
  and metrics (\<open>lib/route/route_utils.c\<close>). Addresses and next hops are held by value; a next hop of a route is addressed
  by its position. Functions that can fail leave the route unchanged then.
\<close>

section \<open>Data\<close>

definition ROUTE_ATTR_FAMILY :: int where "ROUTE_ATTR_FAMILY = 0x000001"
definition ROUTE_ATTR_TOS :: int where "ROUTE_ATTR_TOS = 0x000002"
definition ROUTE_ATTR_TABLE :: int where "ROUTE_ATTR_TABLE = 0x000004"
definition ROUTE_ATTR_PROTOCOL :: int where "ROUTE_ATTR_PROTOCOL = 0x000008"
definition ROUTE_ATTR_SCOPE :: int where "ROUTE_ATTR_SCOPE = 0x000010"
definition ROUTE_ATTR_TYPE :: int where "ROUTE_ATTR_TYPE = 0x000020"
definition ROUTE_ATTR_FLAGS :: int where "ROUTE_ATTR_FLAGS = 0x000040"
definition ROUTE_ATTR_DST :: int where "ROUTE_ATTR_DST = 0x000080"
definition ROUTE_ATTR_SRC :: int where "ROUTE_ATTR_SRC = 0x000100"
definition ROUTE_ATTR_IIF :: int where "ROUTE_ATTR_IIF = 0x000200"
definition ROUTE_ATTR_OIF :: int where "ROUTE_ATTR_OIF = 0x000400"
definition ROUTE_ATTR_GATEWAY :: int where "ROUTE_ATTR_GATEWAY = 0x000800"
definition ROUTE_ATTR_PRIO :: int where "ROUTE_ATTR_PRIO = 0x001000"
definition ROUTE_ATTR_PREF_SRC :: int where "ROUTE_ATTR_PREF_SRC = 0x002000"
definition ROUTE_ATTR_METRICS :: int where "ROUTE_ATTR_METRICS = 0x004000"
definition ROUTE_ATTR_MULTIPATH :: int where "ROUTE_ATTR_MULTIPATH = 0x008000"
definition ROUTE_ATTR_REALMS :: int where "ROUTE_ATTR_REALMS = 0x010000"
definition ROUTE_ATTR_CACHEINFO :: int where "ROUTE_ATTR_CACHEINFO = 0x020000"
definition ROUTE_ATTR_TTL_PROPAGATE :: int where "ROUTE_ATTR_TTL_PROPAGATE = 0x040000"

lemmas route_attr_defs = ROUTE_ATTR_FAMILY_def ROUTE_ATTR_TOS_def ROUTE_ATTR_TABLE_def ROUTE_ATTR_PROTOCOL_def ROUTE_ATTR_SCOPE_def
  ROUTE_ATTR_TYPE_def ROUTE_ATTR_FLAGS_def ROUTE_ATTR_DST_def ROUTE_ATTR_SRC_def ROUTE_ATTR_IIF_def ROUTE_ATTR_OIF_def
  ROUTE_ATTR_GATEWAY_def ROUTE_ATTR_PRIO_def ROUTE_ATTR_PREF_SRC_def ROUTE_ATTR_METRICS_def ROUTE_ATTR_MULTIPATH_def
  ROUTE_ATTR_REALMS_def ROUTE_ATTR_CACHEINFO_def ROUTE_ATTR_TTL_PROPAGATE_def

definition RTM_NEWROUTE :: int where "RTM_NEWROUTE = 24"
definition RTM_DELROUTE :: int where "RTM_DELROUTE = 25"
definition RTM_GETROUTE :: int where "RTM_GETROUTE = 26"
definition RT_TABLE_MAIN :: int where "RT_TABLE_MAIN = 254"
definition RT_TABLE_LOCAL :: int where "RT_TABLE_LOCAL = 255"
definition RTPROT_STATIC :: int where "RTPROT_STATIC = 4"
definition RTN_UNICAST :: int where "RTN_UNICAST = 1"
definition RTN_LOCAL :: int where "RTN_LOCAL = 2"
definition RTN_MAX :: int where "RTN_MAX = 11"
definition RTAX_MAX :: int where "RTAX_MAX = 17"
definition RT_SCOPE_LINK :: int where "RT_SCOPE_LINK = 253"
definition RTNL_FAMILY_IPMR :: int where "RTNL_FAMILY_IPMR = 128"

record rtnl_rtcacheinfo =
  rtci_clntref :: int
  rtci_last_use :: int
  rtci_expires :: int
  rtci_error :: int
  rtci_used :: int
  rtci_id :: int
  rtci_ts :: int
  rtci_tsage :: int

text \<open>The fields \<open>rt_dst_len\<close> and \<open>rt_src_len\<close>, which nothing uses, are left out.\<close>

record rtnl_route =
  rt_family :: int
  rt_tos :: int
  rt_protocol :: int
  rt_scope :: int
  rt_type :: int
  rt_nmetrics :: int
  rt_ttl_propagate :: int
  rt_flags :: int
  rt_dst :: "nl_addr option"
  rt_src :: "nl_addr option"
  rt_table :: int
  rt_iif :: int
  rt_prio :: int
  rt_metrics :: "int list"
  rt_metrics_mask :: int
  rt_nr_nh :: int
  rt_pref_src :: "nl_addr option"
  rt_nexthops :: "rtnl_nexthop list"
  rt_cacheinfo :: rtnl_rtcacheinfo
  rt_flag_mask :: int

type_synonym route_obj = "rtnl_route nl_object"

abbreviation set_route :: "int \<Rightarrow> (rtnl_route \<Rightarrow> rtnl_route) \<Rightarrow> route_obj \<Rightarrow> route_obj" where
  "set_route flag upd route \<equiv> route\<lparr>ce_data := upd (ce_data route), ce_mask := ce_mask route OR flag\<rparr>"

section \<open>Next hops of a route\<close>

definition rtnl_route_add_nexthop :: "route_obj \<Rightarrow> rtnl_nexthop \<Rightarrow> route_obj" where
  "rtnl_route_add_nexthop route nh =
     set_route ROUTE_ATTR_MULTIPATH (\<lambda>r. r\<lparr>rt_nexthops := rt_nexthops r @ [nh], rt_nr_nh := u32 (rt_nr_nh r + 1)\<rparr>) route"

text \<open>The next hop at the position \<open>i\<close>.\<close>

definition rtnl_route_remove_nexthop :: "route_obj \<Rightarrow> nat \<Rightarrow> route_obj" where
  "rtnl_route_remove_nexthop route i =
     (if ce_mask route AND ROUTE_ATTR_MULTIPATH \<noteq> 0
      then route\<lparr>ce_data := (ce_data route)\<lparr>rt_nr_nh := u32 (rt_nr_nh (ce_data route) - 1),
             rt_nexthops := take i (rt_nexthops (ce_data route)) @ drop (Suc i) (rt_nexthops (ce_data route))\<rparr>\<rparr>
      else route)"

definition rtnl_route_get_nexthops :: "route_obj \<Rightarrow> rtnl_nexthop list option" where
  "rtnl_route_get_nexthops route =
     (if ce_mask route AND ROUTE_ATTR_MULTIPATH \<noteq> 0 then Some (rt_nexthops (ce_data route)) else None)"

definition rtnl_route_get_nnexthops :: "route_obj \<Rightarrow> int" where
  "rtnl_route_get_nnexthops route = (if ce_mask route AND ROUTE_ATTR_MULTIPATH \<noteq> 0 then s32 (rt_nr_nh (ce_data route)) else 0)"

definition rtnl_route_foreach_nexthop :: "route_obj \<Rightarrow> (rtnl_nexthop \<Rightarrow> 'u \<Rightarrow> 'u) \<Rightarrow> 'u \<Rightarrow> 'u" where
  "rtnl_route_foreach_nexthop r cb u = (if ce_mask r AND ROUTE_ATTR_MULTIPATH \<noteq> 0 then fold cb (rt_nexthops (ce_data r)) u else u)"

definition rtnl_route_nexthop_n :: "route_obj \<Rightarrow> int \<Rightarrow> rtnl_nexthop option" where
  "rtnl_route_nexthop_n r n =
     (if ce_mask r AND ROUTE_ATTR_MULTIPATH \<noteq> 0 \<and> rt_nr_nh (ce_data r) > u32 n \<and> nat (u32 n) < length (rt_nexthops (ce_data r))
      then Some (rt_nexthops (ce_data r) ! nat (u32 n)) else None)"

section \<open>The operations of the type\<close>

definition route_constructor :: "rtnl_route \<Rightarrow> rtnl_route" where
  "route_constructor r =
     r\<lparr>rt_family := AF_UNSPEC, rt_scope := RT_SCOPE_NOWHERE, rt_table := RT_TABLE_MAIN, rt_protocol := RTPROT_STATIC,
       rt_type := RTN_UNICAST, rt_prio := 0, rt_nexthops := []\<rparr>"

text \<open>What is left of the addresses of the route, and of those of each next hop.\<close>

fun nexthops_free :: "rtnl_nexthop list \<Rightarrow> nl_addr option list list res" where
  "nexthops_free [] = Inr []"
| "nexthops_free (nh # nhs) = and_then (rtnl_route_nh_free nh) (\<lambda>x. and_then (nexthops_free nhs) (\<lambda>xs. Inr (x # xs)))"

definition route_free_data :: "rtnl_route \<Rightarrow> nl_addr option list list res" where
  "route_free_data r =
     and_then (nl_addr_put (rt_dst r)) (\<lambda>d.
     and_then (nl_addr_put (rt_src r)) (\<lambda>s.
     and_then (nl_addr_put (rt_pref_src r)) (\<lambda>p.
     and_then (nexthops_free (rt_nexthops r)) (\<lambda>nhs. Inr ([d, s, p] # nhs)))))"

text \<open>The loop of \<open>route_clone\<close>; \<open>a\<close> and \<open>b\<close> are the allocations of next hops and of addresses.\<close>

fun clone_nexthops :: "bool \<Rightarrow> bool \<Rightarrow> rtnl_nexthop list \<Rightarrow> route_obj \<Rightarrow> int \<times> route_obj" where
  "clone_nexthops a b [] dst = (0, dst)"
| "clone_nexthops a b (nh # nhs) dst =
     (case rtnl_route_nh_clone a b nh of
        None \<Rightarrow> (neg_err NLE_NOMEM, dst)
      | Some new \<Rightarrow> clone_nexthops a b nhs (rtnl_route_add_nexthop dst new))"

text \<open>\<open>dst\<close> is a copy of \<open>src\<close>, with the next hops of \<open>src\<close> as long as its list is not initialised.\<close>

definition route_clone :: "bool \<Rightarrow> bool \<Rightarrow> route_obj \<Rightarrow> route_obj \<Rightarrow> int \<times> route_obj" where
  "route_clone a b dst src =
     (let s = ce_data src; nomem = neg_err NLE_NOMEM;
          data = (\<lambda>upd (dst :: route_obj). dst\<lparr>ce_data := upd (ce_data dst)\<rparr>) in
      case clone_addr b (rt_dst s) of None \<Rightarrow> (nomem, data (rt_dst_update (\<lambda>_. None)) dst)
      | Some d \<Rightarrow>
        let dst = (if rt_dst s \<noteq> None then data (rt_dst_update (\<lambda>_. d)) dst else dst) in
      case clone_addr b (rt_src s) of None \<Rightarrow> (nomem, data (rt_src_update (\<lambda>_. None)) dst)
      | Some d \<Rightarrow>
        let dst = (if rt_src s \<noteq> None then data (rt_src_update (\<lambda>_. d)) dst else dst) in
      case clone_addr b (rt_pref_src s) of None \<Rightarrow> (nomem, data (rt_pref_src_update (\<lambda>_. None)) dst)
      | Some d \<Rightarrow>
        let dst = (if rt_pref_src s \<noteq> None then data (rt_pref_src_update (\<lambda>_. d)) dst else dst) in
        clone_nexthops a b (rt_nexthops s) (data (\<lambda>r. r\<lparr>rt_nr_nh := 0, rt_nexthops := []\<rparr>) dst))"

text \<open>\<open>a\<close> is the success of allocating the key, \<open>addr\<close> its address; the host is little endian.\<close>

definition route_keygen :: "nat \<Rightarrow> bool \<Rightarrow> route_obj \<Rightarrow> int \<Rightarrow> int" where
  "route_keygen addr a obj table_sz =
     (let r = ce_data obj;
          rkey = le_bytes 1 (rt_family r) @ le_bytes 1 (rt_tos r) @ le_bytes 4 (rt_table r) @ le_bytes 4 (rt_prio r) @
            (case rt_dst r of None \<Rightarrow> [] | Some x \<Rightarrow> rd (nl_addr_get_binary_addr x) 0 (nl_addr_get_len x))
      in if \<not> a then 0 else uint (nl_hash False False addr rkey 0) mod table_sz)"

definition ROUTE_ID_ATTRS :: int where
  "ROUTE_ID_ATTRS = ROUTE_ATTR_FAMILY OR ROUTE_ATTR_TOS OR ROUTE_ATTR_TABLE OR ROUTE_ATTR_DST OR ROUTE_ATTR_PRIO"

definition route_id_attrs_get :: "route_obj \<Rightarrow> int" where
  "route_id_attrs_get obj =
     (if rt_family (ce_data obj) = AF_MPLS then ROUTE_ID_ATTRS AND NOT ROUTE_ATTR_PRIO else ROUTE_ID_ATTRS)"

text \<open>Whether the next hops differ, in the loose and in the strict comparison.\<close>

definition nh_loose_mismatch :: "rtnl_route \<Rightarrow> rtnl_route \<Rightarrow> bool" where
  "nh_loose_mismatch a b \<longleftrightarrow>
     (\<exists>y \<in> set (rt_nexthops b). \<forall>x \<in> set (rt_nexthops a). rtnl_route_nh_compare x y (nh_mask y) True \<noteq> 0)"

definition nh_strict_mismatch :: "rtnl_route \<Rightarrow> rtnl_route \<Rightarrow> bool" where
  "nh_strict_mismatch a b \<longleftrightarrow>
     rt_nr_nh a \<noteq> rt_nr_nh b \<or>
     (\<exists>x \<in> set (rt_nexthops a). \<forall>y \<in> set (rt_nexthops b). rtnl_route_nh_compare x y 0xFFFFFFFF False \<noteq> 0) \<or>
     (\<exists>y \<in> set (rt_nexthops b). \<forall>x \<in> set (rt_nexthops a). rtnl_route_nh_compare x y 0xFFFFFFFF False \<noteq> 0)"

text \<open>The loops over the metrics; the last metric is at the index \<open>RTAX_MAX - 1\<close> and not compared.\<close>

definition metric_bit :: "rtnl_route \<Rightarrow> nat \<Rightarrow> bool" where
  "metric_bit r i \<longleftrightarrow> rt_metrics_mask r AND 2 ^ i \<noteq> 0"

definition metrics_loose_differ :: "rtnl_route \<Rightarrow> rtnl_route \<Rightarrow> bool" where
  "metrics_loose_differ a b \<longleftrightarrow>
     (\<exists>i \<in> set [0 ..< nat (RTAX_MAX - 1)]. metric_bit a i \<and> (\<not> metric_bit b i \<or> rt_metrics a ! i \<noteq> rt_metrics b ! i))"

definition metrics_strict_mask :: "rtnl_route \<Rightarrow> rtnl_route \<Rightarrow> bool" where
  "metrics_strict_mask a b \<longleftrightarrow> (\<exists>i \<in> set [0 ..< nat (RTAX_MAX - 1)]. metric_bit a i \<noteq> metric_bit b i \<or> rt_metrics a ! i \<noteq> rt_metrics b ! i)"

definition route_compare :: "route_obj \<Rightarrow> route_obj \<Rightarrow> int \<Rightarrow> int \<Rightarrow> int" where
  "route_compare oa ob attrs flags =
     (let a = ce_data oa; b = ce_data ob; d = (\<lambda>attr expr. ATTR_DIFF attrs attr oa ob expr) in
      d ROUTE_ATTR_FAMILY (rt_family a \<noteq> rt_family b) OR
      d ROUTE_ATTR_TOS (rt_tos a \<noteq> rt_tos b) OR
      d ROUTE_ATTR_TABLE (rt_table a \<noteq> rt_table b) OR
      d ROUTE_ATTR_PROTOCOL (rt_protocol a \<noteq> rt_protocol b) OR
      d ROUTE_ATTR_SCOPE (rt_scope a \<noteq> rt_scope b) OR
      d ROUTE_ATTR_TYPE (rt_type a \<noteq> rt_type b) OR
      d ROUTE_ATTR_PRIO (rt_prio a \<noteq> rt_prio b) OR
      d ROUTE_ATTR_DST (addr_differs (rt_dst a) (rt_dst b)) OR
      d ROUTE_ATTR_SRC (addr_differs (rt_src a) (rt_src b)) OR
      d ROUTE_ATTR_IIF (rt_iif a \<noteq> rt_iif b) OR
      d ROUTE_ATTR_PREF_SRC (addr_differs (rt_pref_src a) (rt_pref_src b)) OR
      d ROUTE_ATTR_TTL_PROPAGATE (rt_ttl_propagate a \<noteq> rt_ttl_propagate b) OR
      (if flags AND LOOSE_COMPARISON \<noteq> 0 then
         (if nh_loose_mismatch a b then d ROUTE_ATTR_MULTIPATH True
          else (if metrics_loose_differ a b then d ROUTE_ATTR_METRICS True else 0) OR
               d ROUTE_ATTR_FLAGS ((rt_flags a XOR rt_flags b) AND rt_flag_mask b \<noteq> 0))
       else
         (if nh_strict_mismatch a b then d ROUTE_ATTR_MULTIPATH True
          else d ROUTE_ATTR_METRICS (metrics_strict_mask a b) OR d ROUTE_ATTR_FLAGS (rt_flags a \<noteq> rt_flags b))))"

text \<open>The first next hop that is equal to \<open>nh\<close>.\<close>

fun find_nexthop :: "rtnl_nexthop \<Rightarrow> nat \<Rightarrow> rtnl_nexthop list \<Rightarrow> nat option" where
  "find_nexthop nh i [] = None"
| "find_nexthop nh i (x # xs) = (if rtnl_route_nh_compare x nh 0xFFFFFFFF False = 0 then Some i else find_nexthop nh (Suc i) xs)"

text \<open>Notifications about one next hop of an IPv6 route; \<open>a\<close> and \<open>b\<close> are the allocations of the clone.\<close>

definition route_update :: "bool \<Rightarrow> bool \<Rightarrow> route_obj \<Rightarrow> route_obj \<Rightarrow> int \<times> route_obj" where
  "route_update a b old new =
     (let unsupported = (neg_err NLE_OPNOTSUPP, old) in
      if rt_family (ce_data new) \<noteq> AF_INET6 \<or> rt_table (ce_data new) = RT_TABLE_LOCAL then unsupported
      else if rtnl_route_get_nnexthops new \<noteq> 1 then unsupported
      else case rtnl_route_nexthop_n new 0 of
        None \<Rightarrow> unsupported
      | Some nh \<Rightarrow>
          if rtnl_route_nh_get_gateway nh = None then unsupported
          else if ce_msgtype new = RTM_NEWROUTE then
            (case rtnl_route_nh_clone a b nh of
               None \<Rightarrow> (neg_err NLE_NOMEM, old)
             | Some cloned \<Rightarrow> (0, rtnl_route_add_nexthop old cloned))
          else if ce_msgtype new = RTM_DELROUTE then
            (if rtnl_route_get_nnexthops old \<le> 1 then unsupported
             else case find_nexthop nh 0 (rt_nexthops (ce_data old)) of
               None \<Rightarrow> (0, old)
             | Some i \<Rightarrow> (0, rtnl_route_remove_nexthop old i))
          else unsupported)"

definition zero_route :: rtnl_route where
  "zero_route =
     \<lparr>rt_family = 0, rt_tos = 0, rt_protocol = 0, rt_scope = 0, rt_type = 0, rt_nmetrics = 0, rt_ttl_propagate = 0, rt_flags = 0,
      rt_dst = None, rt_src = None, rt_table = 0, rt_iif = 0, rt_prio = 0, rt_metrics = replicate 17 0, rt_metrics_mask = 0,
      rt_nr_nh = 0, rt_pref_src = None, rt_nexthops = [],
      rt_cacheinfo = \<lparr>rtci_clntref = 0, rtci_last_use = 0, rtci_expires = 0, rtci_error = 0, rtci_used = 0, rtci_id = 0,
        rtci_ts = 0, rtci_tsage = 0\<rparr>, rt_flag_mask = 0\<rparr>"

definition route_obj_ops :: "nat \<Rightarrow> rtnl_route nl_object_ops" where
  "route_obj_ops addr =
     \<lparr>oo_name = ''route/route'', oo_size = 240, oo_id_attrs = ROUTE_ID_ATTRS, oo_zero = zero_route,
      oo_constructor = Some route_constructor, oo_free_data = True, oo_clone = Some (route_clone True True),
      oo_compare = Some route_compare, oo_update = Some (route_update True True), oo_keygen = Some (route_keygen addr True),
      oo_id_attrs_get = Some route_id_attrs_get\<rparr>"

definition route_attrs :: "trans_tbl list" where
  "route_attrs =
     [(ROUTE_ATTR_FAMILY, ''family''), (ROUTE_ATTR_TOS, ''tos''), (ROUTE_ATTR_TABLE, ''table''), (ROUTE_ATTR_PROTOCOL, ''protocol''),
      (ROUTE_ATTR_SCOPE, ''scope''), (ROUTE_ATTR_TYPE, ''type''), (ROUTE_ATTR_FLAGS, ''flags''), (ROUTE_ATTR_DST, ''dst''),
      (ROUTE_ATTR_SRC, ''src''), (ROUTE_ATTR_IIF, ''iif''), (ROUTE_ATTR_OIF, ''oif''), (ROUTE_ATTR_GATEWAY, ''gateway''),
      (ROUTE_ATTR_PRIO, ''prio''), (ROUTE_ATTR_PREF_SRC, ''pref_src''), (ROUTE_ATTR_METRICS, ''metrics''),
      (ROUTE_ATTR_MULTIPATH, ''multipath''), (ROUTE_ATTR_REALMS, ''realms''), (ROUTE_ATTR_CACHEINFO, ''cacheinfo''),
      (ROUTE_ATTR_TTL_PROPAGATE, ''ttl_propagate'')]"

definition route_attrs2str :: "int \<Rightarrow> string \<Rightarrow> nat \<Rightarrow> string res" where
  "route_attrs2str attrs buf len = flags2str attrs buf len route_attrs"

section \<open>Attributes\<close>

definition rtnl_route_set_table :: "route_obj \<Rightarrow> int \<Rightarrow> route_obj" where
  "rtnl_route_set_table route table = set_route ROUTE_ATTR_TABLE (rt_table_update (\<lambda>_. u32 table)) route"

definition rtnl_route_get_table :: "route_obj \<Rightarrow> int" where
  "rtnl_route_get_table route = rt_table (ce_data route)"

definition rtnl_route_set_scope :: "route_obj \<Rightarrow> int \<Rightarrow> route_obj" where
  "rtnl_route_set_scope route scope = set_route ROUTE_ATTR_SCOPE (rt_scope_update (\<lambda>_. u8 scope)) route"

definition rtnl_route_get_scope :: "route_obj \<Rightarrow> int" where
  "rtnl_route_get_scope route = rt_scope (ce_data route)"

definition rtnl_route_set_tos :: "route_obj \<Rightarrow> int \<Rightarrow> route_obj" where
  "rtnl_route_set_tos route tos = set_route ROUTE_ATTR_TOS (rt_tos_update (\<lambda>_. u8 tos)) route"

definition rtnl_route_get_tos :: "route_obj \<Rightarrow> int" where
  "rtnl_route_get_tos route = rt_tos (ce_data route)"

definition rtnl_route_set_protocol :: "route_obj \<Rightarrow> int \<Rightarrow> route_obj" where
  "rtnl_route_set_protocol route protocol = set_route ROUTE_ATTR_PROTOCOL (rt_protocol_update (\<lambda>_. u8 protocol)) route"

definition rtnl_route_get_protocol :: "route_obj \<Rightarrow> int" where
  "rtnl_route_get_protocol route = rt_protocol (ce_data route)"

definition rtnl_route_set_priority :: "route_obj \<Rightarrow> int \<Rightarrow> route_obj" where
  "rtnl_route_set_priority route prio = set_route ROUTE_ATTR_PRIO (rt_prio_update (\<lambda>_. u32 prio)) route"

definition rtnl_route_get_priority :: "route_obj \<Rightarrow> int" where
  "rtnl_route_get_priority route = rt_prio (ce_data route)"

definition rtnl_route_set_family :: "route_obj \<Rightarrow> int \<Rightarrow> route_obj res" where
  "rtnl_route_set_family route family =
     (if u8 family \<in> set [AF_INET, AF_INET6, AF_DECnet, AF_MPLS, RTNL_FAMILY_IPMR]
      then Inr (set_route ROUTE_ATTR_FAMILY (rt_family_update (\<lambda>_. u8 family)) route) else Inl (Err NLE_AF_NOSUPPORT))"

definition rtnl_route_get_family :: "route_obj \<Rightarrow> int" where
  "rtnl_route_get_family route = rt_family (ce_data route)"

text \<open>What the setters of addresses share; \<open>upd\<close> stores the address, without the reference counts.\<close>

definition route_assign ::
  "route_obj \<Rightarrow> nl_addr \<Rightarrow> (nl_addr option \<Rightarrow> rtnl_route \<Rightarrow> rtnl_route) \<Rightarrow> int \<Rightarrow> route_obj res" where
  "route_assign route addr upd flag =
     (let known = ce_mask route AND ROUTE_ATTR_FAMILY \<noteq> 0 in
      if known \<and> a_family addr \<noteq> rt_family (ce_data route) then Inl (Err NLE_AF_MISMATCH)
      else Inr (set_route (flag OR ROUTE_ATTR_FAMILY)
        (\<lambda>r. upd (Some addr) (if known then r else r\<lparr>rt_family := u8 (a_family addr)\<rparr>)) route))"

definition rtnl_route_set_dst :: "route_obj \<Rightarrow> nl_addr \<Rightarrow> route_obj res" where
  "rtnl_route_set_dst route addr = route_assign route addr (\<lambda>x. rt_dst_update (\<lambda>_. x)) ROUTE_ATTR_DST"

definition rtnl_route_get_dst :: "route_obj \<Rightarrow> nl_addr option" where
  "rtnl_route_get_dst route = rt_dst (ce_data route)"

definition rtnl_route_set_src :: "route_obj \<Rightarrow> nl_addr \<Rightarrow> route_obj res" where
  "rtnl_route_set_src route addr =
     (if a_family addr = AF_INET then Inl (Err NLE_SRCRT_NOSUPPORT)
      else route_assign route addr (\<lambda>x. rt_src_update (\<lambda>_. x)) ROUTE_ATTR_SRC)"

definition rtnl_route_get_src :: "route_obj \<Rightarrow> nl_addr option" where
  "rtnl_route_get_src route = rt_src (ce_data route)"

definition rtnl_route_set_pref_src :: "route_obj \<Rightarrow> nl_addr \<Rightarrow> route_obj res" where
  "rtnl_route_set_pref_src route addr = route_assign route addr (\<lambda>x. rt_pref_src_update (\<lambda>_. x)) ROUTE_ATTR_PREF_SRC"

definition rtnl_route_get_pref_src :: "route_obj \<Rightarrow> nl_addr option" where
  "rtnl_route_get_pref_src route = rt_pref_src (ce_data route)"

definition rtnl_route_set_type :: "route_obj \<Rightarrow> int \<Rightarrow> route_obj res" where
  "rtnl_route_set_type route type =
     (if u8 type > RTN_MAX then Inl (Err NLE_RANGE) else Inr (set_route ROUTE_ATTR_TYPE (rt_type_update (\<lambda>_. u8 type)) route))"

definition rtnl_route_get_type :: "route_obj \<Rightarrow> int" where
  "rtnl_route_get_type route = rt_type (ce_data route)"

definition rtnl_route_set_flags :: "route_obj \<Rightarrow> int \<Rightarrow> route_obj" where
  "rtnl_route_set_flags route flags =
     set_route ROUTE_ATTR_FLAGS (\<lambda>r. r\<lparr>rt_flag_mask := rt_flag_mask r OR u32 flags, rt_flags := rt_flags r OR u32 flags\<rparr>) route"

definition rtnl_route_unset_flags :: "route_obj \<Rightarrow> int \<Rightarrow> route_obj" where
  "rtnl_route_unset_flags route flags =
     set_route ROUTE_ATTR_FLAGS (\<lambda>r. r\<lparr>rt_flag_mask := rt_flag_mask r OR u32 flags, rt_flags := rt_flags r AND NOT (u32 flags)\<rparr>) route"

definition rtnl_route_get_flags :: "route_obj \<Rightarrow> int" where
  "rtnl_route_get_flags route = rt_flags (ce_data route)"

definition rtnl_route_set_metric :: "route_obj \<Rightarrow> int \<Rightarrow> int \<Rightarrow> route_obj res" where
  "rtnl_route_set_metric route metric value =
     (if metric > RTAX_MAX \<or> metric < 1 then Inl (Err NLE_RANGE)
      else Inr (set_route ROUTE_ATTR_METRICS (\<lambda>r.
        let i = nat (metric - 1); r' = r\<lparr>rt_metrics := (rt_metrics r)[i := u32 value]\<rparr> in
        if metric_bit r i then r'
        else r'\<lparr>rt_nmetrics := u8 (rt_nmetrics r + 1), rt_metrics_mask := rt_metrics_mask r OR 2 ^ i\<rparr>) route))"

definition rtnl_route_unset_metric :: "route_obj \<Rightarrow> int \<Rightarrow> route_obj res" where
  "rtnl_route_unset_metric route metric =
     (if metric > RTAX_MAX \<or> metric < 1 then Inl (Err NLE_RANGE)
      else
        let r = ce_data route; i = nat (metric - 1) in
        Inr (if metric_bit r i
             then route\<lparr>ce_data := r\<lparr>rt_nmetrics := u8 (rt_nmetrics r - 1), rt_metrics_mask := rt_metrics_mask r AND NOT (2 ^ i)\<rparr>\<rparr>
             else route))"

definition rtnl_route_get_metric :: "route_obj \<Rightarrow> int \<Rightarrow> int res" where
  "rtnl_route_get_metric route metric =
     (if metric > RTAX_MAX \<or> metric < 1 then Inl (Err NLE_RANGE)
      else if \<not> metric_bit (ce_data route) (nat (metric - 1)) then Inl (Err NLE_OBJ_NOTFOUND)
      else Inr (rt_metrics (ce_data route) ! nat (metric - 1)))"

definition rtnl_route_set_iif :: "route_obj \<Rightarrow> int \<Rightarrow> route_obj" where
  "rtnl_route_set_iif route ifindex = set_route ROUTE_ATTR_IIF (rt_iif_update (\<lambda>_. u32 ifindex)) route"

definition rtnl_route_get_iif :: "route_obj \<Rightarrow> int" where
  "rtnl_route_get_iif route = s32 (rt_iif (ce_data route))"

definition rtnl_route_set_ttl_propagate :: "route_obj \<Rightarrow> int \<Rightarrow> route_obj" where
  "rtnl_route_set_ttl_propagate route ttl_prop = set_route ROUTE_ATTR_TTL_PROPAGATE (rt_ttl_propagate_update (\<lambda>_. u8 ttl_prop)) route"

definition rtnl_route_get_ttl_propagate :: "route_obj option \<Rightarrow> int" where
  "rtnl_route_get_ttl_propagate route =
     (case route of
        None \<Rightarrow> neg_err NLE_INVAL
      | Some r \<Rightarrow> if ce_mask r AND ROUTE_ATTR_TTL_PROPAGATE = 0 then neg_err NLE_MISSING_ATTR else rt_ttl_propagate (ce_data r))"

definition rtnl_route_guess_scope :: "route_obj \<Rightarrow> int" where
  "rtnl_route_guess_scope route =
     (let r = ce_data route in
      if rt_type r = RTN_LOCAL then RT_SCOPE_HOST
      else if rt_family r = AF_MPLS then RT_SCOPE_UNIVERSE
      else if rt_family r = RTNL_FAMILY_IPMR then RT_SCOPE_UNIVERSE
      else if \<exists>nh \<in> set (rt_nexthops r). nh_gateway nh \<noteq> None then RT_SCOPE_UNIVERSE
      else RT_SCOPE_LINK)"

section \<open>Names\<close>

text \<open>The lists of names; \<open>a\<close> and \<open>s\<close> are the allocations of an entry and of its name.\<close>

definition init_routing_table_names :: "trans_list list" where
  "init_routing_table_names =
     map (\<lambda>(i, n). (i, Some n)) [(0, ''unspec''), (252, ''compat''), (253, ''default''), (254, ''main''), (255, ''local'')]"

definition add_routing_table_name :: "bool \<Rightarrow> bool \<Rightarrow> int \<Rightarrow> string \<Rightarrow> trans_list list \<Rightarrow> int \<times> trans_list list" where
  "add_routing_table_name a s i name head = trans_list_add a s i name head"

definition rtnl_route_read_table_names ::
  "bool \<Rightarrow> bool \<Rightarrow> (string \<Rightarrow> int + string list) \<Rightarrow> string \<Rightarrow> trans_list list \<Rightarrow> int \<times> trans_list list" where
  "rtnl_route_read_table_names a s fopen path head = nl_read_num_str_file fopen path (add_routing_table_name a s) (trans_list_clear head)"

definition rtnl_route_table2str :: "int \<Rightarrow> string \<Rightarrow> nat \<Rightarrow> trans_list list \<Rightarrow> string res" where
  "rtnl_route_table2str table buf len head = list_type2str table buf len head"

definition rtnl_route_str2table :: "string \<Rightarrow> trans_list list \<Rightarrow> int res" where
  "rtnl_route_str2table name head = list_str2type name head"

definition init_proto_names :: "trans_list list" where
  "init_proto_names =
     map (\<lambda>(i, n). (i, Some n)) [(0, ''unspec''), (1, ''redirect''), (2, ''kernel''), (3, ''boot''), (4, ''static'')]"

definition add_proto_name :: "bool \<Rightarrow> bool \<Rightarrow> int \<Rightarrow> string \<Rightarrow> trans_list list \<Rightarrow> int \<times> trans_list list" where
  "add_proto_name a s i name head = trans_list_add a s i name head"

definition rtnl_route_read_protocol_names ::
  "bool \<Rightarrow> bool \<Rightarrow> (string \<Rightarrow> int + string list) \<Rightarrow> string \<Rightarrow> trans_list list \<Rightarrow> int \<times> trans_list list" where
  "rtnl_route_read_protocol_names a s fopen path head = nl_read_num_str_file fopen path (add_proto_name a s) (trans_list_clear head)"

definition rtnl_route_proto2str :: "int \<Rightarrow> string \<Rightarrow> nat \<Rightarrow> trans_list list \<Rightarrow> string res" where
  "rtnl_route_proto2str proto buf len head = list_type2str proto buf len head"

definition rtnl_route_str2proto :: "string \<Rightarrow> trans_list list \<Rightarrow> int res" where
  "rtnl_route_str2proto name head = list_str2type name head"

definition route_metrices :: "trans_tbl list" where
  "route_metrices =
     [(0, ''unspec''), (1, ''lock''), (2, ''mtu''), (3, ''window''), (4, ''rtt''), (5, ''rttvar''), (6, ''ssthresh''), (7, ''cwnd''),
      (8, ''advmss''), (9, ''reordering''), (10, ''hoplimit''), (11, ''initcwnd''), (12, ''features'')]"

definition rtnl_route_metric2str :: "int \<Rightarrow> string \<Rightarrow> nat \<Rightarrow> string" where
  "rtnl_route_metric2str metric buf len = type2str metric buf len route_metrices"

definition rtnl_route_str2metric :: "string \<Rightarrow> int" where
  "rtnl_route_str2metric name = str2type name route_metrices"

end
