(* ===== verification/Nl_Route_Wire.thy ===== *)
theory Nl_Route_Wire
  imports Nl_Route
begin

unbundle bit_operations_syntax

text \<open>
  The messages of routes: parsing and building (\<open>lib/route/route_obj.c\<close>), requests and the cache type (\<open>lib/route/route.c\<close>).
\<close>

section \<open>Parsing next hops\<close>

definition RTA_MAX :: int where "RTA_MAX = 29"

definition route_policy :: "nla_policy list" where
  "route_policy =
     (let pol = (\<lambda>t. \<lparr>pol_type = t, pol_minlen = 0, pol_maxlen = 0\<rparr>) in
      (replicate 30 (pol NLA_UNSPEC))
        [3 := pol NLA_U32, 4 := pol NLA_U32, 6 := pol NLA_U32, 11 := pol NLA_U32,
         12 := \<lparr>pol_type = NLA_UNSPEC, pol_minlen = 32, pol_maxlen = 0\<rparr>, 8 := pol NLA_NESTED, 9 := pol NLA_NESTED,
         26 := pol NLA_U8, 22 := pol NLA_NESTED, 21 := pol NLA_U16])"

text \<open>
  What a parser depends on: the conversion \<open>inet_pton\<close>, the allocations for the attributes of the route (by the type of
  the attribute), of its own next hop, of the first \<open>pe_rooms\<close> next hops of a multipath attribute, and for the attributes of these, by
  their position. For the encapsulation the types 22 and 21 stand for the labels and the encapsulation itself.
\<close>

record parse_env =
  pe_pton :: pton
  pe_attr :: "nat \<Rightarrow> bool"
  pe_nh :: bool
  pe_rooms :: nat
  pe_mp :: "nat \<Rightarrow> nat \<Rightarrow> bool"

text \<open>An attribute shorter than the family gives a length that \<open>nl_addr_build\<close> takes for a huge one.\<close>

definition rtnl_route_parse_via :: "bool \<Rightarrow> byte list \<Rightarrow> int \<Rightarrow> nl_addr option res" where
  "rtnl_route_parse_via a buf nla =
     (let alen = nla_len buf nla - 2; via = nla_data nla in
      if alen < 0 then Inl Undef
      else Inr (nl_addr_build a (get16 buf via) (drop (nat (via + 2)) buf) alen))"

text \<open>The attributes \<open>RTA_NEWDST\<close> and \<open>RTA_VIA\<close>: \<open>None\<close> if the address could not be allocated.\<close>

definition newdst_attr :: "pton \<Rightarrow> bool \<Rightarrow> int \<Rightarrow> byte list \<Rightarrow> int \<Rightarrow> rtnl_nexthop \<Rightarrow> rtnl_nexthop option res" where
  "newdst_attr inet_pton a family buf p nh =
     (case nl_addr_alloc_attr a buf p family of
        None \<Rightarrow> Inr None
      | Some addr \<Rightarrow> and_then (rtnl_route_nh_set_newdst inet_pton nh (Some addr)) (\<lambda>nh. Inr (Some nh)))"

definition via_attr :: "pton \<Rightarrow> bool \<Rightarrow> byte list \<Rightarrow> int \<Rightarrow> rtnl_nexthop \<Rightarrow> rtnl_nexthop option res" where
  "via_attr inet_pton a buf p nh =
     and_then (rtnl_route_parse_via a buf p) (\<lambda>addr.
       case addr of
         None \<Rightarrow> Inr None
       | Some x \<Rightarrow> and_then (rtnl_route_nh_set_via inet_pton nh (Some x)) (\<lambda>nh. Inr (Some nh)))"

text \<open>
  The attributes of one next hop in a multipath attribute. An address for \<open>RTA_NEWDST\<close> or \<open>RTA_VIA\<close> that
  cannot be allocated ends the function with the code 0 (\<open>None\<close>).
\<close>

definition nh_then :: "rtnl_nexthop option res \<Rightarrow> (rtnl_nexthop \<Rightarrow> rtnl_nexthop option res) \<Rightarrow> rtnl_nexthop option res" where
  "nh_then r f = and_then r (\<lambda>nh. case nh of None \<Rightarrow> Inr None | Some nh \<Rightarrow> f nh)"

definition multipath_attrs ::
  "pton \<Rightarrow> (nat \<Rightarrow> bool) \<Rightarrow> int \<Rightarrow> byte list \<Rightarrow> int option list \<Rightarrow> rtnl_nexthop \<Rightarrow> rtnl_nexthop option res" where
  "multipath_attrs inet_pton al family buf ntb nh =
     nh_then (case ntb ! 5 of None \<Rightarrow> Inr (Some nh)
              | Some p \<Rightarrow> (case nl_addr_alloc_attr (al 5) buf p family of
                  None \<Rightarrow> Inl (Err NLE_NOMEM)
                | Some addr \<Rightarrow> Inr (Some (rtnl_route_nh_set_gateway nh (Some addr))))) (\<lambda>nh.
     let nh = (case ntb ! 11 of None \<Rightarrow> nh | Some p \<Rightarrow> rtnl_route_nh_set_realms nh (nla_get_u32 buf p)) in
     nh_then (case ntb ! 19 of None \<Rightarrow> Inr (Some nh) | Some p \<Rightarrow> newdst_attr inet_pton (al 19) family buf p nh) (\<lambda>nh.
     nh_then (case ntb ! 18 of None \<Rightarrow> Inr (Some nh) | Some p \<Rightarrow> via_attr inet_pton (al 18) buf p nh) (\<lambda>nh.
       case (ntb ! 22, ntb ! 21) of
         (Some p, Some q) \<Rightarrow> and_then (nh_encap_parse_msg inet_pton (al 22) (al 21) buf p q nh) (\<lambda>nh. Inr (Some nh))
       | _ \<Rightarrow> Inr (Some nh))))"

text \<open>The fields of \<open>struct rtnexthop\<close> and the attributes behind it.\<close>

definition nexthop_at :: "pton \<Rightarrow> (nat \<Rightarrow> bool) \<Rightarrow> int \<Rightarrow> byte list \<Rightarrow> int \<Rightarrow> rtnl_nexthop option res" where
  "nexthop_at inet_pton al family buf rtnh =
     (let rtnh_len = get16 buf rtnh;
          nh = rtnl_route_nh_set_weight new_nexthop (le_int (rd buf (rtnh + 3) 1));
          nh = rtnl_route_nh_set_ifindex nh (s32 (get32 buf (rtnh + 4)));
          nh = rtnl_route_nh_set_flags nh (le_int (rd buf (rtnh + 2) 1)) in
      if rtnh_len > 8 then
        (case nla_parse RTA_MAX buf (rtnh + 8) (rtnh_len - 8) (Some route_policy) of
           (_, Inl f) \<Rightarrow> Inl f
         | (ntb, Inr _) \<Rightarrow> multipath_attrs inet_pton al family buf ntb nh)
      else Inr (Some nh))"

text \<open>
  The loop of \<open>rtnl_route_parse_multipath\<close>: \<open>rooms\<close> next hops can be allocated. The remaining length is a
  \<open>size_t\<close> and wraps around when the padding of the last next hop is missing; an entry with the length 0 is
  read again and again. Reading behind the message is undefined, which is taken here for the whole entry.
\<close>

definition RTNH_ALIGN :: "int \<Rightarrow> int" where
  "RTNH_ALIGN len = (len + 3) AND NOT 3"

fun multipath_loop ::
  "nat \<Rightarrow> pton \<Rightarrow> (nat \<Rightarrow> nat \<Rightarrow> bool) \<Rightarrow> nat \<Rightarrow> byte list \<Rightarrow> int \<Rightarrow> int \<Rightarrow> route_obj \<Rightarrow> route_obj \<times> unit res" where
  "multipath_loop rooms inet_pton al i buf rtnh tlen route =
     (if tlen < 8 then (route, Inr ())
      else if rtnh + 8 > blen buf then (route, Inl Undef)
      else if tlen < get16 buf rtnh then (route, Inr ())
      else if rtnh + get16 buf rtnh > blen buf then (route, Inl Undef)
      else case rooms of
        0 \<Rightarrow> (route, Inl (Err NLE_NOMEM))
      | Suc rooms' \<Rightarrow>
          (case nexthop_at inet_pton (al i) (rt_family (ce_data route)) buf rtnh of
             Inl f \<Rightarrow> (route, Inl f)
           | Inr None \<Rightarrow> (route, Inr ())
           | Inr (Some nh) \<Rightarrow>
               multipath_loop rooms' inet_pton al (Suc i) buf (rtnh + RTNH_ALIGN (get16 buf rtnh))
                 (u64 (tlen - RTNH_ALIGN (get16 buf rtnh))) (rtnl_route_add_nexthop route nh)))"

declare multipath_loop.simps [simp del]

definition rtnl_route_parse_multipath :: "parse_env \<Rightarrow> byte list \<Rightarrow> int \<Rightarrow> route_obj \<Rightarrow> route_obj \<times> unit res" where
  "rtnl_route_parse_multipath env buf attr route =
     multipath_loop (pe_rooms env) (pe_pton env) (pe_mp env) 0 buf (nla_data attr) (nla_len buf attr) route"

section \<open>Parsing routes\<close>

definition route_from_hdr :: "byte list \<Rightarrow> int \<Rightarrow> route_obj \<Rightarrow> route_obj" where
  "route_from_hdr buf rtm obj =
     (let family = le_int (rd buf rtm 1) in
      set_route (ROUTE_ATTR_FAMILY OR ROUTE_ATTR_TOS OR ROUTE_ATTR_TABLE OR ROUTE_ATTR_TYPE OR ROUTE_ATTR_SCOPE OR ROUTE_ATTR_PROTOCOL OR
          ROUTE_ATTR_FLAGS OR (if family \<noteq> AF_MPLS then ROUTE_ATTR_PRIO else 0))
        (\<lambda>r. r\<lparr>rt_family := family, rt_tos := le_int (rd buf (rtm + 3) 1), rt_table := le_int (rd buf (rtm + 4) 1),
           rt_type := le_int (rd buf (rtm + 7) 1), rt_scope := le_int (rd buf (rtm + 6) 1), rt_protocol := le_int (rd buf (rtm + 5) 1),
           rt_flags := get32 buf (rtm + 8), rt_prio := 0\<rparr>) obj)"

text \<open>Destination and source. What \<open>rtnl_route_set_src\<close> returns is ignored.\<close>

definition addr_attr :: "bool \<Rightarrow> byte list \<Rightarrow> int \<Rightarrow> int \<Rightarrow> nl_addr res" where
  "addr_attr a buf p family = (case nl_addr_alloc_attr a buf p family of None \<Rightarrow> Inl (Err NLE_NOMEM) | Some addr \<Rightarrow> Inr addr)"

definition alloc_empty :: "bool \<Rightarrow> nl_addr res" where
  "alloc_empty a = (case nl_addr_alloc a 0 of None \<Rightarrow> Inl (Err NLE_NOMEM) | Some addr \<Rightarrow> Inr addr)"

definition route_dst_attr :: "(nat \<Rightarrow> bool) \<Rightarrow> byte list \<Rightarrow> int \<Rightarrow> int option \<Rightarrow> route_obj \<Rightarrow> route_obj res" where
  "route_dst_attr al buf rtm e obj =
     (let family = le_int (rd buf rtm 1) in
      and_then (case e of Some p \<Rightarrow> addr_attr (al 1) buf p family
                | None \<Rightarrow> and_then (alloc_empty (al 1)) (\<lambda>dst. Inr (nl_addr_set_family dst family))) (\<lambda>dst.
        rtnl_route_set_dst obj (nl_addr_set_prefixlen dst (le_int (rd buf (rtm + 1) 1)))))"

definition ignore_code :: "'a \<Rightarrow> 'a res \<Rightarrow> 'a res" where
  "ignore_code old r = (case r of Inl (Err _) \<Rightarrow> Inr old | _ \<Rightarrow> r)"

definition route_src_attr :: "(nat \<Rightarrow> bool) \<Rightarrow> byte list \<Rightarrow> int \<Rightarrow> int option \<Rightarrow> route_obj \<Rightarrow> route_obj res" where
  "route_src_attr al buf rtm e obj =
     (let len = le_int (rd buf (rtm + 2) 1);
          store = (\<lambda>src. ignore_code obj (rtnl_route_set_src obj (nl_addr_set_prefixlen src len))) in
      case e of
        Some p \<Rightarrow> and_then (addr_attr (al 2) buf p (le_int (rd buf rtm 1))) store
      | None \<Rightarrow> if len \<noteq> 0 then and_then (alloc_empty (al 2)) store else Inr obj)"

fun metrics_loop :: "byte list \<Rightarrow> int option list \<Rightarrow> int list \<Rightarrow> route_obj \<Rightarrow> route_obj res" where
  "metrics_loop buf mtb [] obj = Inr obj"
| "metrics_loop buf mtb (i # is) obj =
     (case mtb ! nat i of
        Some p \<Rightarrow>
          if nla_len buf p \<ge> 4 then and_then (rtnl_route_set_metric obj i (nla_get_u32 buf p)) (metrics_loop buf mtb is)
          else metrics_loop buf mtb is obj
      | None \<Rightarrow> metrics_loop buf mtb is obj)"

definition metrics_attr :: "byte list \<Rightarrow> int \<Rightarrow> route_obj \<Rightarrow> route_obj res" where
  "metrics_attr buf p obj =
     (case nla_parse_nested RTAX_MAX buf p None of
        (_, Inl f) \<Rightarrow> Inl f
      | (mtb, Inr _) \<Rightarrow> metrics_loop buf mtb [1 .. RTAX_MAX] obj)"

definition route_cacheinfo :: "byte list \<Rightarrow> int \<Rightarrow> rtnl_rtcacheinfo" where
  "route_cacheinfo buf p =
     (let ci = nla_data p in
      \<lparr>rtci_clntref = get32 buf ci, rtci_last_use = get32 buf (ci + 4), rtci_expires = get32 buf (ci + 8),
       rtci_error = s32 (get32 buf (ci + 12)), rtci_used = get32 buf (ci + 16), rtci_id = get32 buf (ci + 20),
       rtci_ts = get32 buf (ci + 24), rtci_tsage = get32 buf (ci + 28)\<rparr>)"

text \<open>An attribute that goes to the next hop of the route itself, which is allocated when the first one is met.\<close>

definition with_nh ::
  "bool \<Rightarrow> int option \<Rightarrow> (int \<Rightarrow> rtnl_nexthop \<Rightarrow> rtnl_nexthop res) \<Rightarrow> rtnl_nexthop option \<Rightarrow> rtnl_nexthop option res" where
  "with_nh a e f old =
     (case e of
        None \<Rightarrow> Inr old
      | Some p \<Rightarrow>
          and_then (case old of Some nh \<Rightarrow> Inr nh
                    | None \<Rightarrow> (case rtnl_route_nh_alloc a of None \<Rightarrow> Inl (Err NLE_NOMEM) | Some nh \<Rightarrow> Inr nh)) (\<lambda>nh.
          and_then (f p nh) (\<lambda>nh. Inr (Some nh))))"

definition or_nomem :: "'a option res \<Rightarrow> 'a res" where
  "or_nomem r = and_then r (\<lambda>x. case x of None \<Rightarrow> Inl (Err NLE_NOMEM) | Some x \<Rightarrow> Inr x)"

definition own_nexthop :: "parse_env \<Rightarrow> byte list \<Rightarrow> int \<Rightarrow> int option list \<Rightarrow> rtnl_nexthop option res" where
  "own_nexthop env buf family tb =
     (let al = pe_attr env; with = with_nh (pe_nh env) in
      and_then (with (tb ! 4) (\<lambda>p nh. Inr (rtnl_route_nh_set_ifindex nh (nla_get_u32 buf p))) None) (\<lambda>old.
      and_then (with (tb ! 5) (\<lambda>p nh. and_then (addr_attr (al 5) buf p family) (\<lambda>addr.
          Inr (rtnl_route_nh_set_gateway nh (Some addr)))) old) (\<lambda>old.
      and_then (with (tb ! 11) (\<lambda>p nh. Inr (rtnl_route_nh_set_realms nh (nla_get_u32 buf p))) old) (\<lambda>old.
      and_then (with (tb ! 19) (\<lambda>p nh. or_nomem (newdst_attr (pe_pton env) (al 19) family buf p nh)) old) (\<lambda>old.
      and_then (with (tb ! 18) (\<lambda>p nh. or_nomem (via_attr (pe_pton env) (al 18) buf p nh)) old) (\<lambda>old.
        case tb ! 21 of
          None \<Rightarrow> Inr old
        | Some q \<Rightarrow> with (tb ! 22) (\<lambda>p nh. nh_encap_parse_msg (pe_pton env) (al 22) (al 21) buf p q nh) old))))))"

text \<open>
  The end: without a multipath attribute the next hop becomes that of the route; otherwise it has to agree with the first one.
\<close>

definition merge_nexthop :: "byte list \<Rightarrow> int \<Rightarrow> rtnl_nexthop option \<Rightarrow> route_obj \<Rightarrow> route_obj res" where
  "merge_nexthop buf rtm old obj =
     (case old of
        None \<Rightarrow> Inr obj
      | Some nh \<Rightarrow>
          (let nh = rtnl_route_nh_set_flags nh (get32 buf (rtm + 8) AND 0xFF) in
           if rt_nr_nh (ce_data obj) = 0 then Inr (rtnl_route_add_nexthop obj nh)
           else case rt_nexthops (ce_data obj) of
             [] \<Rightarrow> Inl Undef
           | first # _ \<Rightarrow> if rtnl_route_nh_compare nh first (nh_mask nh) False \<noteq> 0 then Inl (Err NLE_INVAL) else Inr obj))"

abbreviation opt_attr :: "int option \<Rightarrow> (int \<Rightarrow> 'a \<Rightarrow> 'a res) \<Rightarrow> 'a \<Rightarrow> 'a res" where
  "opt_attr e f obj \<equiv> (case e of None \<Rightarrow> Inr obj | Some p \<Rightarrow> f p obj)"

definition route_fill :: "parse_env \<Rightarrow> byte list \<Rightarrow> int \<Rightarrow> int option list \<Rightarrow> route_obj \<Rightarrow> route_obj res" where
  "route_fill env buf off tb obj =
     (let rtm = nlmsg_data off; family = le_int (rd buf rtm 1); al = pe_attr env;
          obj = route_from_hdr buf rtm (obj\<lparr>ce_msgtype := nlmsg_type (nlh buf off)\<rparr>) in
      and_then (route_dst_attr al buf rtm (tb ! 1) obj) (\<lambda>obj.
      and_then (route_src_attr al buf rtm (tb ! 2) obj) (\<lambda>obj.
      and_then (opt_attr (tb ! 15) (\<lambda>p obj. Inr (rtnl_route_set_table obj (nla_get_u32 buf p))) obj) (\<lambda>obj.
      and_then (opt_attr (tb ! 3) (\<lambda>p obj. Inr (rtnl_route_set_iif obj (nla_get_u32 buf p))) obj) (\<lambda>obj.
      and_then (opt_attr (tb ! 6) (\<lambda>p obj. Inr (rtnl_route_set_priority obj (nla_get_u32 buf p))) obj) (\<lambda>obj.
      and_then (opt_attr (tb ! 7) (\<lambda>p obj. and_then (addr_attr (al 7) buf p family) (\<lambda>addr.
          ignore_code obj (rtnl_route_set_pref_src obj addr))) obj) (\<lambda>obj.
      and_then (opt_attr (tb ! 8) (\<lambda>p. metrics_attr buf p) obj) (\<lambda>obj.
      and_then (opt_attr (tb ! 9) (\<lambda>p obj. case rtnl_route_parse_multipath env buf p obj of (obj, r) \<Rightarrow> and_then r (\<lambda>_. Inr obj)) obj) (\<lambda>obj.
      and_then (opt_attr (tb ! 12) (\<lambda>p obj.
          Inr (set_route ROUTE_ATTR_CACHEINFO (\<lambda>r. r\<lparr>rt_cacheinfo := route_cacheinfo buf p\<rparr>) obj)) obj) (\<lambda>obj.
      and_then (own_nexthop env buf family tb) (\<lambda>old.
      and_then (opt_attr (tb ! 26) (\<lambda>p obj. Inr (rtnl_route_set_ttl_propagate obj (nla_get_u8 buf p))) obj) (\<lambda>obj.
        merge_nexthop buf rtm old obj))))))))))))"

text \<open>
  The return code and the new route. \<open>addr\<close> is where the key of a hash is computed; \<open>a\<close> the allocation of the route, which is
  released after an error.
\<close>

definition rtnl_route_parse ::
  "nat \<Rightarrow> nat option \<Rightarrow> parse_env \<Rightarrow> byte list \<Rightarrow> int \<Rightarrow> rtnl_route heap \<Rightarrow> (int \<times> nat option \<times> rtnl_route heap) res" where
  "rtnl_route_parse addr a env buf off h =
     (let ops = (\<lambda>_. route_obj_ops addr) in
      and_then (nl_object_alloc ops a 0 h) (\<lambda>(new, h).
      case new of
        None \<Rightarrow> Inr (neg_err NLE_NOMEM, None, h)
      | Some p \<Rightarrow>
          (let errout = (\<lambda>err h. and_then (nl_object_put ops (Some p) h) (\<lambda>h. Inr (err, None, h))) in
           case nlmsg_parse buf off 12 RTA_MAX (Some route_policy) of
             (_, Inl (Err e)) \<Rightarrow> errout (neg_err e) h
           | (_, Inl f) \<Rightarrow> Inl f
           | (None, Inr _) \<Rightarrow> Inl Undef
           | (Some tb, Inr _) \<Rightarrow>
               and_then (deref (h_obj h) p) (\<lambda>obj.
                 case route_fill env buf off tb obj of
                   Inl (Err e) \<Rightarrow> errout (neg_err e) h
                 | Inl f \<Rightarrow> Inl f
                 | Inr obj \<Rightarrow> Inr (0, Some p, set_obj p obj h)))))"

definition route_msg_parser ::
  "nat \<Rightarrow> nat option \<Rightarrow> parse_env \<Rightarrow> byte list \<Rightarrow> int \<Rightarrow> (rtnl_route, 'u) pp_cb \<Rightarrow> rtnl_route heap \<Rightarrow> 'u \<Rightarrow>
   (int \<times> rtnl_route heap \<times> 'u) res" where
  "route_msg_parser addr a env buf off pp_cb h u =
     and_then (rtnl_route_parse addr a env buf off h) (\<lambda>(err, route, h).
       if err < 0 then Inr (err, h, u)
       else case route of
         None \<Rightarrow> Inl Undef
       | Some p \<Rightarrow>
           and_then (pp_cb p h u) (\<lambda>(err, h, u).
           and_then (nl_object_put (\<lambda>_. route_obj_ops addr) (Some p) h) (\<lambda>h. Inr (err, h, u))))"

section \<open>Building\<close>

text \<open>\<open>None\<close> is the code \<open>-EMSGSIZE\<close>.\<close>

definition rtnl_route_put_via :: "nl_msg \<Rightarrow> nl_addr \<Rightarrow> nl_msg option" where
  "rtnl_route_put_via msg addr =
     (let alen = nl_addr_get_len addr in
      case nla_reserve msg 18 (s32 (u32 (alen + 2))) of
        None \<Rightarrow> None
      | Some (msg, nla) \<Rightarrow>
          Some (msg\<lparr>nm_nlh := wr (nm_nlh msg) (nla_data nla)
            (le_bytes 2 (nl_addr_get_family addr) @ rd (nl_addr_get_binary_addr addr) 0 alen)\<rparr>))"

definition put_addr_opt :: "int \<Rightarrow> nl_addr option \<Rightarrow> nl_msg \<Rightarrow> nl_msg res" where
  "put_addr_opt t addr msg = put_if (addr \<noteq> None) (\<lambda>msg. NLA_PUT_ADDR msg t addr) msg"

definition put_via_opt :: "nl_addr option \<Rightarrow> nl_msg \<Rightarrow> nl_msg res" where
  "put_via_opt via msg =
     (case via of None \<Rightarrow> Inr msg
      | Some v \<Rightarrow> (case rtnl_route_put_via msg v of None \<Rightarrow> Inl (Err NLE_MSGSIZE) | Some msg \<Rightarrow> Inr msg))"

definition put_encap_opt :: "rtnl_nh_encap option \<Rightarrow> nl_msg \<Rightarrow> nl_msg res" where
  "put_encap_opt e msg = (case e of None \<Rightarrow> Inr msg | Some e \<Rightarrow> put_or_msgsize (nh_encap_build_msg msg e))"

definition route_hdr :: "route_obj \<Rightarrow> int \<Rightarrow> int \<Rightarrow> int \<Rightarrow> int \<Rightarrow> byte list" where
  "route_hdr route dst_len src_len scope flags =
     (let r = ce_data route in
      le_bytes 1 (rt_family r) @ le_bytes 1 dst_len @ le_bytes 1 src_len @ le_bytes 1 (rt_tos r) @ le_bytes 1 (rt_table r) @
      le_bytes 1 (rt_protocol r) @ le_bytes 1 scope @ le_bytes 1 (rt_type r) @ le_bytes 4 flags)"

fun put_metrics :: "route_obj \<Rightarrow> int list \<Rightarrow> nl_msg \<Rightarrow> nl_msg res" where
  "put_metrics route [] msg = Inr msg"
| "put_metrics route (i # is) msg =
     (case rtnl_route_get_metric route i of
        Inl _ \<Rightarrow> put_metrics route is msg
      | Inr v \<Rightarrow> and_then (put_or_msgsize (nla_put_u32 msg i v)) (put_metrics route is))"

text \<open>A nested attribute around what \<open>put\<close> writes; the result of \<open>nla_nest_end\<close> is not looked at.\<close>

definition put_nest :: "int \<Rightarrow> (nl_msg \<Rightarrow> nl_msg res) \<Rightarrow> nl_msg \<Rightarrow> nl_msg res" where
  "put_nest t put msg =
     (case nla_nest_start msg t of
        (_, None) \<Rightarrow> Inl (Err NLE_MSGSIZE)
      | (msg, Some start) \<Rightarrow> and_then (put msg) (\<lambda>msg. and_then (nla_nest_end msg start) (\<lambda>(msg, _). Inr msg)))"

definition put_own_nexthop :: "rtnl_nexthop \<Rightarrow> nl_msg \<Rightarrow> nl_msg res" where
  "put_own_nexthop nh msg =
     and_then (put_addr_opt 5 (nh_gateway nh) msg) (\<lambda>msg.
     and_then (put_if (nh_ifindex nh \<noteq> 0) (\<lambda>msg. put_or_msgsize (nla_put_u32 msg 4 (nh_ifindex nh))) msg) (\<lambda>msg.
     and_then (put_if (nh_realms nh \<noteq> 0) (\<lambda>msg. put_or_msgsize (nla_put_u32 msg 11 (nh_realms nh))) msg) (\<lambda>msg.
     and_then (put_addr_opt 19 (nh_newdst nh) msg) (\<lambda>msg.
     and_then (put_via_opt (nh_via nh) msg) (\<lambda>msg. put_encap_opt (nh_encap nh) msg)))))"

text \<open>One \<open>struct rtnexthop\<close> with its attributes; the length is written last.\<close>

definition put_mp_nexthop :: "rtnl_nexthop \<Rightarrow> nl_msg \<Rightarrow> nl_msg res" where
  "put_mp_nexthop nh msg =
     (case nlmsg_reserve msg 8 4 of
        None \<Rightarrow> Inl (Err NLE_MSGSIZE)
      | Some (msg, rtnh) \<Rightarrow>
          (let msg = msg\<lparr>nm_nlh := wr (nm_nlh msg) (rtnh + 2)
                 (le_bytes 1 (nh_flags nh) @ le_bytes 1 (nh_weight nh) @ le_bytes 4 (nh_ifindex nh))\<rparr> in
           and_then (put_addr_opt 5 (nh_gateway nh) msg) (\<lambda>msg.
           and_then (put_addr_opt 19 (nh_newdst nh) msg) (\<lambda>msg.
           and_then (put_via_opt (nh_via nh) msg) (\<lambda>msg.
           and_then (put_if (nh_realms nh \<noteq> 0) (\<lambda>msg. put_or_msgsize (nla_put_u32 msg 11 (nh_realms nh))) msg) (\<lambda>msg.
           and_then (put_encap_opt (nh_encap nh) msg) (\<lambda>msg.
             Inr (msg\<lparr>nm_nlh := put16 (nm_nlh msg) rtnh (nlmsg_tail 0 (nlmsg_hdr msg) - rtnh)\<rparr>)))))))) "

fun put_mp_nexthops :: "rtnl_nexthop list \<Rightarrow> nl_msg \<Rightarrow> nl_msg res" where
  "put_mp_nexthops [] msg = Inr msg"
| "put_mp_nexthops (nh # nhs) msg = and_then (put_mp_nexthop nh msg) (put_mp_nexthops nhs)"

definition rtnl_route_build_msg :: "nl_msg \<Rightarrow> route_obj \<Rightarrow> nl_msg res" where
  "rtnl_route_build_msg msg route =
     (let r = ce_data route; has = (\<lambda>attr. ce_mask route AND attr \<noteq> 0); n = rtnl_route_get_nnexthops route in
      case rt_dst r of
        None \<Rightarrow> Inl (Err NLE_MISSING_ATTR)
      | Some dst \<Rightarrow>
          if n = 1 \<and> rtnl_route_nexthop_n route 0 = None then Inl Undef
          else
            let nh = the (rtnl_route_nexthop_n route 0);
                hdr = route_hdr route (nl_addr_get_prefixlen dst) (case rt_src r of None \<Rightarrow> 0 | Some s \<Rightarrow> nl_addr_get_prefixlen s)
                  (if has ROUTE_ATTR_SCOPE then rt_scope r else rtnl_route_guess_scope route)
                  (if n = 1 then rt_flags r OR nh_flags nh else rt_flags r) in
            and_then (put_or_msgsize (nlmsg_append msg hdr 4)) (\<lambda>msg.
            and_then (put_if (rt_family r \<noteq> AF_MPLS) (\<lambda>msg. put_or_msgsize (nla_put_u32 msg 15 (rt_table r))) msg) (\<lambda>msg.
            and_then (put_if (nl_addr_get_len dst \<noteq> 0) (\<lambda>msg. NLA_PUT_ADDR msg 1 (rt_dst r)) msg) (\<lambda>msg.
            and_then (put_if (has ROUTE_ATTR_PRIO) (\<lambda>msg. put_or_msgsize (nla_put_u32 msg 6 (rt_prio r))) msg) (\<lambda>msg.
            and_then (put_if (has ROUTE_ATTR_SRC) (\<lambda>msg. NLA_PUT_ADDR msg 2 (rt_src r)) msg) (\<lambda>msg.
            and_then (put_if (has ROUTE_ATTR_PREF_SRC) (\<lambda>msg. NLA_PUT_ADDR msg 7 (rt_pref_src r)) msg) (\<lambda>msg.
            and_then (put_if (has ROUTE_ATTR_IIF) (\<lambda>msg. put_or_msgsize (nla_put_u32 msg 3 (rt_iif r))) msg) (\<lambda>msg.
            and_then (put_if (has ROUTE_ATTR_TTL_PROPAGATE) (\<lambda>msg. put_or_msgsize (nla_put_u8 msg 26 (rt_ttl_propagate r))) msg) (\<lambda>msg.
            and_then (put_if (rt_nmetrics r > 0) (put_nest 8 (put_metrics route [1 .. RTAX_MAX])) msg) (\<lambda>msg.
              if n = 1 then put_own_nexthop nh msg
              else if n > 1 then put_nest 9 (put_mp_nexthops (rt_nexthops r)) msg
              else Inr msg))))))))))"

section \<open>Requests\<close>

definition build_route_msg :: "bool \<Rightarrow> bool \<Rightarrow> int \<Rightarrow> route_obj \<Rightarrow> int \<Rightarrow> int \<Rightarrow> nl_msg res" where
  "build_route_msg a1 a2 dsz tmpl cmd flags =
     (case nlmsg_alloc_simple a1 a2 dsz cmd flags of
        None \<Rightarrow> Inl (Err NLE_NOMEM)
      | Some msg \<Rightarrow> rtnl_route_build_msg msg tmpl)"

definition rtnl_route_build_add_request :: "bool \<Rightarrow> bool \<Rightarrow> int \<Rightarrow> route_obj \<Rightarrow> int \<Rightarrow> nl_msg res" where
  "rtnl_route_build_add_request a1 a2 dsz tmpl flags = build_route_msg a1 a2 dsz tmpl RTM_NEWROUTE (NLM_F_CREATE OR flags)"

definition rtnl_route_build_del_request :: "bool \<Rightarrow> bool \<Rightarrow> int \<Rightarrow> route_obj \<Rightarrow> int \<Rightarrow> nl_msg res" where
  "rtnl_route_build_del_request a1 a2 dsz tmpl flags = build_route_msg a1 a2 dsz tmpl RTM_DELROUTE flags"

definition rtnl_route_add ::
  "nat \<Rightarrow> 'u sendfun \<Rightarrow> (nl_sock \<Rightarrow> 'u \<Rightarrow> (recv_result \<times> nl_sock \<times> 'u) option) \<Rightarrow> bool \<Rightarrow> bool \<Rightarrow> bool \<Rightarrow> bool \<Rightarrow> int \<Rightarrow>
   int \<Rightarrow> int \<Rightarrow> ('a, 'u) nl_cb \<Rightarrow> nl_sock \<Rightarrow> route_obj \<Rightarrow> int \<Rightarrow> ports \<Rightarrow> 'u \<Rightarrow>
   ((int \<times> nl_sock \<times> 'u) option \<times> ports) res" where
  "rtnl_route_add fuel sys_send recv a1 a2 b1 b2 dsz getpid t cb sk route flags st u =
     send_built fuel sys_send recv b1 b2 getpid t cb (rtnl_route_build_add_request a1 a2 dsz route flags) sk st u"

definition rtnl_route_delete ::
  "nat \<Rightarrow> 'u sendfun \<Rightarrow> (nl_sock \<Rightarrow> 'u \<Rightarrow> (recv_result \<times> nl_sock \<times> 'u) option) \<Rightarrow> bool \<Rightarrow> bool \<Rightarrow> bool \<Rightarrow> bool \<Rightarrow> int \<Rightarrow>
   int \<Rightarrow> int \<Rightarrow> ('a, 'u) nl_cb \<Rightarrow> nl_sock \<Rightarrow> route_obj \<Rightarrow> int \<Rightarrow> ports \<Rightarrow> 'u \<Rightarrow>
   ((int \<times> nl_sock \<times> 'u) option \<times> ports) res" where
  "rtnl_route_delete fuel sys_send recv a1 a2 b1 b2 dsz getpid t cb sk route flags st u =
     send_built fuel sys_send recv b1 b2 getpid t cb (rtnl_route_build_del_request a1 a2 dsz route flags) sk st u"

text \<open>
  The question for the route to an address. \<open>pickup\<close> is \<open>nl_pickup\<close> with the parser of routes (its result, the
  route received, the heap and the state), \<open>recv\<close> the receiving side of the acknowledgement. The template is a new object
  that nobody else has, so that only its data matters.
\<close>

definition rtnl_route_lookup ::
  "nat \<Rightarrow> 'u sendfun \<Rightarrow> (nl_sock \<Rightarrow> rtnl_route heap \<Rightarrow> 'u \<Rightarrow> (int \<times> nat option \<times> nl_sock \<times> rtnl_route heap \<times> 'u) res option) \<Rightarrow>
   (nl_sock \<Rightarrow> 'u \<Rightarrow> (recv_result \<times> nl_sock \<times> 'u) option) \<Rightarrow> nat \<Rightarrow> bool \<Rightarrow> bool \<Rightarrow> bool \<Rightarrow> bool \<Rightarrow> bool \<Rightarrow> int \<Rightarrow> int \<Rightarrow> int \<Rightarrow>
   ('a, 'u) nl_cb \<Rightarrow> nl_sock \<Rightarrow> nl_addr \<Rightarrow> rtnl_route heap \<Rightarrow> ports \<Rightarrow> 'u \<Rightarrow>
   ((int \<times> nat option \<times> nl_sock \<times> rtnl_route heap \<times> 'u) option \<times> ports) res" where
  "rtnl_route_lookup fuel sys_send pickup recv addr a a1 a2 b1 b2 dsz getpid t cb sk dst h st u =
     (if \<not> a then Inl Undef
      else
        let new = \<lparr>ce_refcnt = 1, ce_ops = Some 0, ce_cache = None, ce_linked = False, ce_msgtype = 0, ce_flags = 0, ce_mask = 0,
              ce_data = route_constructor zero_route\<rparr> in
        and_then (ignore_code new (rtnl_route_set_dst new dst)) (\<lambda>tmpl.
        case build_route_msg a1 a2 dsz tmpl RTM_GETROUTE 0 of
          Inl (Err e) \<Rightarrow> Inr (Some (neg_err e, None, sk, h, u), st)
        | Inl f \<Rightarrow> Inl f
        | Inr msg \<Rightarrow>
            (case nl_send_auto sys_send getpid t cb sk msg st u of
               (err, sk, msg, st, u) \<Rightarrow>
                 and_then (nlmsg_free (Some msg)) (\<lambda>_.
                   if err < 0 then Inr (Some (err, None, sk, h, u), st)
                   else case pickup sk h u of
                     None \<Rightarrow> Inr (None, st)
                   | Some (Inl f) \<Rightarrow> Inl f
                   | Some (Inr (err, obj, sk, h, u)) \<Rightarrow>
                       if err < 0 then Inr (Some (err, None, sk, h, u), st)
                       else Inr (map_option (\<lambda>(err, sk, u). (err, obj, sk, h, u)) (wait_for_ack fuel recv b1 b2 cb sk u), st)))))"

section \<open>Caches\<close>

definition route_request_update ::
  "'u sendfun \<Rightarrow> bool \<Rightarrow> bool \<Rightarrow> int \<Rightarrow> int \<Rightarrow> int \<Rightarrow> ('a, 'u) nl_cb \<Rightarrow> nl_cache \<Rightarrow> nl_sock \<Rightarrow> ports \<Rightarrow> 'u \<Rightarrow>
   (int \<times> nl_sock \<times> ports \<times> 'u) res" where
  "route_request_update sys_send a1 a2 dsz getpid t cb c sk st u =
     nl_send_simple sys_send a1 a2 dsz getpid t cb sk RTM_GETROUTE NLM_F_DUMP
       (Some (le_bytes 1 (c_iarg1 c) @ zeros 7 @ le_bytes 4 (if c_iarg2 c AND 1 \<noteq> 0 then 0x200 else 0))) st u"

text \<open>After a failed dump the cache is released with \<open>free\<close>, its objects stay.\<close>

definition rtnl_route_alloc_cache ::
  "nat \<Rightarrow> cops \<Rightarrow> (nat \<Rightarrow> nl_sock \<Rightarrow> rtnl_route heap \<Rightarrow> 'u \<Rightarrow> (rtnl_route, 'u) synced) \<Rightarrow> nat option \<Rightarrow> bool \<Rightarrow> bool \<Rightarrow>
   nat \<Rightarrow> nl_sock option \<Rightarrow> int \<Rightarrow> int \<Rightarrow> rtnl_route heap \<Rightarrow> 'u \<Rightarrow>
   (int \<times> nat option \<times> nl_sock option \<times> rtnl_route heap \<times> 'u) res option" where
  "rtnl_route_alloc_cache addr cops refill a a1 a2 i sk family flags h u =
     (case nl_cache_alloc (\<lambda>_. route_obj_ops addr) cops a a1 a2 i h of
        Inl f \<Rightarrow> Some (Inl f)
      | Inr (None, h) \<Rightarrow> Some (Inr (neg_err NLE_NOMEM, None, sk, h, u))
      | Inr (Some c, h) \<Rightarrow>
          (case h_cache h c of
             None \<Rightarrow> Some (Inl Undef)
           | Some cache \<Rightarrow>
               (let h = set_cache c (cache\<lparr>c_iarg1 := family, c_iarg2 := flags\<rparr>) h in
                case sk of
                  None \<Rightarrow> Some (Inr (0, Some c, None, h, u))
                | Some s \<Rightarrow>
                    (case refill c s h u of
                       None \<Rightarrow> None
                     | Some (Inl f) \<Rightarrow> Some (Inl f)
                     | Some (Inr (err, s, h, u)) \<Rightarrow>
                         if err < 0 then Some (Inr (err, None, Some s, h\<lparr>h_cache := (h_cache h)(c := None)\<rparr>, u))
                         else Some (Inr (0, Some c, Some s, h, u))))))"

definition rtnl_route_ops :: nl_cache_ops where
  "rtnl_route_ops =
     \<lparr>co_name = Some ''route/route'', co_hdrsize = 12, co_protocol = 0, co_hash_size = 0, co_flags = 0,
      co_groups = Some [(AF_INET, 7), (AF_INET6, 11), (AF_MPLS, 27), (AF_DECnet, 15), (0, 0)], co_obj_ops = Some 0,
      co_msgtypes = [\<lparr>mt_id = RTM_NEWROUTE, mt_act = NL_ACT_NEW, mt_name = ''new''\<rparr>,
        \<lparr>mt_id = RTM_DELROUTE, mt_act = NL_ACT_DEL, mt_name = ''del''\<rparr>,
        \<lparr>mt_id = RTM_GETROUTE, mt_act = 3, mt_name = ''get''\<rparr>,
        \<lparr>mt_id = -1, mt_act = -1, mt_name = []\<rparr>]\<rparr>"

end
