(* ===== verification/Nl_Build.thy ===== *)
theory Nl_Build
  imports Nl_Readback Nl_Route_Wire
begin

unbundle bit_operations_syntax

text \<open>
  What a builder adds to a message, as bytes: the builders of attributes, of nested attributes and of the structures inside them
  compose. Used for messages whose attributes are not a flat list.
\<close>

section \<open>Builders\<close>

named_theorems appends_intros \<open>what the builders append, one rule for each way to build\<close>

lemma and_then_assoc: "and_then (and_then m f) g = and_then m (\<lambda>x. and_then (f x) g)"
  by (cases m) simp_all

text \<open>On every message with room for them, \<open>f\<close> succeeds and adds the bytes \<open>bs\<close>, and nothing else changes.\<close>

definition appends :: "(nl_msg \<Rightarrow> nl_msg res) \<Rightarrow> byte list \<Rightarrow> bool" where
  "appends f bs \<longleftrightarrow> blen bs mod 4 = 0 \<and>
     (\<forall>n. wf_msg n \<and> mlen n mod 4 = 0 \<and> mlen n + blen bs \<le> nm_size n \<longrightarrow>
       (\<exists>n'. f n = Inr n' \<and> wf_msg n' \<and> nm_size n' = nm_size n \<and> mlen n' = mlen n + blen bs \<and>
         rd (nm_nlh n') 4 (mlen n - 4) = rd (nm_nlh n) 4 (mlen n - 4) \<and> rd (nm_nlh n') (mlen n) (blen bs) = bs))"

lemma appendsD:
  assumes "appends f bs" "wf_msg n" "mlen n mod 4 = 0" "mlen n + blen bs \<le> nm_size n"
  obtains n' where "f n = Inr n'" "wf_msg n'" "nm_size n' = nm_size n" "mlen n' = mlen n + blen bs" "mlen n' mod 4 = 0"
    "rd (nm_nlh n') 4 (mlen n - 4) = rd (nm_nlh n) 4 (mlen n - 4)" "rd (nm_nlh n') (mlen n) (blen bs) = bs"
proof -
  have "\<exists>n'. f n = Inr n' \<and> wf_msg n' \<and> nm_size n' = nm_size n \<and> mlen n' = mlen n + blen bs \<and>
      rd (nm_nlh n') 4 (mlen n - 4) = rd (nm_nlh n) 4 (mlen n - 4) \<and> rd (nm_nlh n') (mlen n) (blen bs) = bs"
    using assms by (simp add: appends_def)
  then obtain n' where n': "f n = Inr n'" "wf_msg n'" "nm_size n' = nm_size n" "mlen n' = mlen n + blen bs"
    "rd (nm_nlh n') 4 (mlen n - 4) = rd (nm_nlh n) 4 (mlen n - 4)" "rd (nm_nlh n') (mlen n) (blen bs) = bs" by blast
  have "blen bs mod 4 = 0" using assms(1) by (simp add: appends_def)
  then have "mlen n' mod 4 = 0" using assms(3) n'(4) by presburger
  then show ?thesis using that n' by simp
qed

lemma appendsI:
  assumes "blen bs mod 4 = 0"
    and "\<And>n. wf_msg n \<Longrightarrow> mlen n mod 4 = 0 \<Longrightarrow> mlen n + blen bs \<le> nm_size n \<Longrightarrow>
      \<exists>n'. f n = Inr n' \<and> wf_msg n' \<and> nm_size n' = nm_size n \<and> mlen n' = mlen n + blen bs \<and>
        rd (nm_nlh n') 4 (mlen n - 4) = rd (nm_nlh n) 4 (mlen n - 4) \<and> rd (nm_nlh n') (mlen n) (blen bs) = bs"
  shows "appends f bs"
  using assms by (simp add: appends_def)

lemma appends_eq: "(\<And>n. f n = g n) \<Longrightarrow> appends g bs \<Longrightarrow> appends f bs"
  by (simp add: appends_def)

lemma appends_Inr [appends_intros]: "appends Inr []"
  by (rule appendsI) auto

lemma appends_then [appends_intros]:
  assumes f: "appends f bs" and g: "appends g cs"
  shows "appends (\<lambda>n. and_then (f n) g) (bs @ cs)"
proof (rule appendsI)
  have "blen bs mod 4 = 0" "blen cs mod 4 = 0" using f g by (simp_all add: appends_def)
  then show "blen (bs @ cs) mod 4 = 0" unfolding length_append of_nat_add by presburger
next
  fix n assume n: "wf_msg n" "mlen n mod 4 = 0" "mlen n + blen (bs @ cs) \<le> nm_size n"
  have "mlen n + blen bs \<le> nm_size n" using n(3) by simp
  from appendsD [OF f n(1,2) this] obtain n1 where n1: "f n = Inr n1" "wf_msg n1" "nm_size n1 = nm_size n"
    "mlen n1 = mlen n + blen bs" "mlen n1 mod 4 = 0"
    "rd (nm_nlh n1) 4 (mlen n - 4) = rd (nm_nlh n) 4 (mlen n - 4)" "rd (nm_nlh n1) (mlen n) (blen bs) = bs" by metis
  have "mlen n1 + blen cs \<le> nm_size n1" using n(3) n1 by simp
  from appendsD [OF g n1(2,5) this] obtain n2 where n2: "g n1 = Inr n2" "wf_msg n2" "nm_size n2 = nm_size n1"
    "mlen n2 = mlen n1 + blen cs" "rd (nm_nlh n2) 4 (mlen n1 - 4) = rd (nm_nlh n1) 4 (mlen n1 - 4)"
    "rd (nm_nlh n2) (mlen n1) (blen cs) = cs" by metis
  have b: "16 \<le> mlen n" using wf_msgD [OF n(1)] by simp
  have "rd (nm_nlh n2) 4 (mlen n - 4) = rd (nm_nlh n) 4 (mlen n - 4)" "rd (nm_nlh n2) (mlen n) (blen bs) = bs"
    using rd_inside [OF n2(5), of 4 "mlen n - 4"] rd_inside [OF n2(5), of "mlen n" "blen bs"] n1 b by simp_all
  moreover have "rd (nm_nlh n2) (mlen n) (blen (bs @ cs)) = bs @ cs"
    using rd_append_iff [of "mlen n" "nm_nlh n2" bs cs] n2(6) n1(4) b calculation(2) by simp
  ultimately show "\<exists>n'. and_then (f n) g = Inr n' \<and> wf_msg n' \<and> nm_size n' = nm_size n \<and> mlen n' = mlen n + blen (bs @ cs) \<and>
      rd (nm_nlh n') 4 (mlen n - 4) = rd (nm_nlh n) 4 (mlen n - 4) \<and> rd (nm_nlh n') (mlen n) (blen (bs @ cs)) = bs @ cs"
    using n1 n2 by auto
qed

text \<open>Attributes, and optional ones.\<close>

lemma appends_attr:
  assumes "attr_fits (t, d)"
  shows "appends (\<lambda>n. put_or_msgsize (nla_put n t (blen d) d)) (attr_bytes (t, d))"
proof (rule appendsI)
  show "blen (attr_bytes (t, d)) mod 4 = 0" using blen_attrs_mod [of "[(t, d)]"] by simp
next
  fix n assume n: "wf_msg n" "mlen n mod 4 = 0" "mlen n + blen (attr_bytes (t, d)) \<le> nm_size n"
  note u = attr_fits_u16 [OF assms]
  show "\<exists>n'. put_or_msgsize (nla_put n t (blen d) d) = Inr n' \<and> wf_msg n' \<and> nm_size n' = nm_size n \<and>
      mlen n' = mlen n + blen (attr_bytes (t, d)) \<and>
      rd (nm_nlh n') 4 (mlen n - 4) = rd (nm_nlh n) 4 (mlen n - 4) \<and> rd (nm_nlh n') (mlen n) (blen (attr_bytes (t, d))) = attr_bytes (t, d)"
    using nla_put_cases [OF n(1) conjunct2 [OF u] n(2), of t] u n(3) by (auto simp: put_or_msgsize_def fits_room_def add.assoc)
qed

lemma appends_put_attrs:
  assumes "\<forall>a \<in> set as. attr_fits a"
  shows "appends (\<lambda>n. put_attrs as n) (attrs_bytes as)"
  using assms
proof (induction as)
  case Nil
  show ?case using appends_Inr by (simp add: put_or_msgsize_def)
next
  case (Cons a as)
  obtain t d where a: "a = (t, d)" by (cases a)
  have "put_attrs (a # as) n = and_then (put_or_msgsize (nla_put n t (blen d) d)) (\<lambda>n. put_attrs as n)" for n
    by (auto simp: a put_or_msgsize_def split: sum.splits fail.splits)
  then show ?case using appends_then [OF appends_attr [of t d] Cons.IH] Cons.prems a by simp
qed

lemma appends_if [appends_intros]: "(b \<Longrightarrow> appends f bs) \<Longrightarrow> appends (put_if b f) (if b then bs else [])"
  using appends_Inr by (cases b) (simp_all add: put_if_def [abs_def])

lemma appends_opt:
  assumes "\<And>msg. put_if b f msg = put_attrs (opt b (t, d)) msg" "b \<Longrightarrow> attr_fits (t, d)"
  shows "appends (put_if b f) (attrs_bytes (opt b (t, d)))"
  using assms by (intro appends_eq [OF assms(1)] appends_put_attrs) (simp add: opt_def)

lemma appends_u32 [appends_intros]:
  "0 \<le> t \<Longrightarrow> t < 65536 \<Longrightarrow> appends (put_if b (\<lambda>msg. put_or_msgsize (nla_put_u32 msg t v))) (attrs_bytes (opt b (t, le_bytes 4 v)))"
  by (rule appends_opt [OF put_if_u32]) (simp add: attr_fits_def)

lemma appends_u8 [appends_intros]:
  "0 \<le> t \<Longrightarrow> t < 65536 \<Longrightarrow> appends (put_if b (\<lambda>msg. put_or_msgsize (nla_put_u8 msg t v))) (attrs_bytes (opt b (t, le_bytes 1 v)))"
  by (rule appends_opt [OF put_if_u8]) (simp add: attr_fits_def)

lemma appends_addr [appends_intros]:
  assumes "0 \<le> t" "t < 65536" "b \<Longrightarrow> \<exists>a. x = Some a \<and> small_addr a"
  shows "appends (put_if b (\<lambda>msg. NLA_PUT_ADDR msg t x)) (attrs_bytes (opt b (t, addr_bytes_of x)))"
  using assms blen_addr_bytes_of [OF assms(3)] by (intro appends_opt [OF put_if_addr]) (simp_all add: attr_fits_def)

text \<open>A nest that is neither empty nor too long for its header is closed by writing its length.\<close>

lemma nest_end_closes:
  assumes wf: "wf_msg n" "mlen n mod 4 = 0" and len: "4 \<le> start" "4 < mlen n - start" "mlen n - start \<le> 65535"
  shows "nla_nest_end n start = Inr (n\<lparr>nm_nlh := put16 (nm_nlh n) start (mlen n - start)\<rparr>, Inr ())"
proof -
  note b = wf_msgD [OF wf(1)]
  have u: "u64 (nlmsg_tail 0 (nlmsg_hdr n) - start) = mlen n - start" using len b by (simp add: tail_aligned [OF wf])
  have "mlen (n\<lparr>nm_nlh := put16 (nm_nlh n) start (mlen n - start)\<rparr>) = mlen n"
    using len b by (simp add: nlmsg_hdr_def mem_simps)
  moreover have "NLMSG_ALIGN (mlen n) = mlen n" using wf(2) b by (simp add: NLMSG_ALIGN_eq align4_id)
  ultimately show ?thesis using len unfolding nla_nest_end_def nest_end_def u Let_def by (simp add: NLA_HDRLEN_eq)
qed

lemma appends_nest:
  assumes f: "appends f bs" and len: "bs \<noteq> []" "blen bs \<le> 65531" and t: "0 \<le> t" "t < 32768"
  shows "appends (put_nest t f) (attr_bytes (32768 + t, bs))"
proof (rule appendsI)
  have al: "align4 (blen bs) = blen bs" "blen bs mod 4 = 0" using f by (simp_all add: appends_def align4_id)
  show "blen (attr_bytes (32768 + t, bs)) mod 4 = 0" using al by (simp add: mod_add_eq)
next
  fix n assume n: "wf_msg n" "mlen n mod 4 = 0" "mlen n + blen (attr_bytes (32768 + t, bs)) \<le> nm_size n"
  have al: "align4 (blen bs) = blen bs" "blen bs mod 4 = 0" using f by (simp_all add: appends_def align4_id)
  have e: "attr_bytes (32768 + t, []) = le_bytes 2 4 @ le_bytes 2 (32768 + t)"
    "attr_bytes (32768 + t, bs) = le_bytes 2 (4 + blen bs) @ le_bytes 2 (32768 + t) @ bs"
    by (simp add: attr_bytes_def align4_eq) (simp add: attr_bytes_def al)
  have p: "0 < blen bs" using len(1) by simp
  obtain n1 where n1: "nla_put n (NLA_F_NESTED OR t) 0 [] = Inr n1" "wf_msg n1" "nm_size n1 = nm_size n" "mlen n1 = mlen n + 4"
    "rd (nm_nlh n1) 4 (mlen n - 4) = rd (nm_nlh n) 4 (mlen n - 4)" "rd (nm_nlh n1) (mlen n) 4 = attr_bytes (32768 + t, [])"
    using nla_put_cases [OF n(1) _ n(2), of "[]" "NLA_F_NESTED OR t"] n(3) p al
    by (auto simp: nested_type [OF t] fits_room_def align4_eq)
  have "mlen n1 mod 4 = 0" "mlen n1 + blen bs \<le> nm_size n1" using n(2,3) n1(3,4) al by (simp_all add: mod_add_eq)
  from appendsD [OF f n1(2) this] obtain n2 where n2: "f n1 = Inr n2" "wf_msg n2" "nm_size n2 = nm_size n1" "mlen n2 = mlen n1 + blen bs"
    "mlen n2 mod 4 = 0" "rd (nm_nlh n2) 4 (mlen n1 - 4) = rd (nm_nlh n1) 4 (mlen n1 - 4)" "rd (nm_nlh n2) (mlen n1) (blen bs) = bs" by metis
  note b = wf_msgD [OF n(1)] wf_msgD [OF n2(2)]
  let ?n = "n2\<lparr>nm_nlh := put16 (nm_nlh n2) (mlen n) (4 + blen bs)\<rparr>"
  have "nla_nest_end n2 (mlen n) = Inr (?n, Inr ())"
    using nest_end_closes [OF n2(2,5), of "mlen n"] b n1(4) n2(4) p len(2) by simp
  then have r: "put_nest t f n = Inr ?n"
    using n1(1) n2(1) by (simp add: put_nest_def nla_nest_start_def tail_aligned [OF n(1,2)])
  have "rd (nm_nlh n1) (mlen n + 2) 2 = rd (attr_bytes (32768 + t, [])) 2 2"
    using rd_rd [of "mlen n" 2 2 4 "nm_nlh n1"] n1(6) b by simp
  then have "rd (nm_nlh n1) (mlen n + 2) 2 = le_bytes 2 (32768 + t)" by (simp add: e rd_def)
  then have old: "rd (nm_nlh n2) 4 (mlen n - 4) = rd (nm_nlh n) 4 (mlen n - 4)" "rd (nm_nlh n2) (mlen n + 2) 2 = le_bytes 2 (32768 + t)"
    "rd (nm_nlh n2) (mlen n + 4) (blen bs) = bs"
    using rd_inside [OF n2(6), of 4 "mlen n - 4"] rd_inside [OF n2(6), of "mlen n + 2" 2] n1(4,5) n2(7) b by simp_all
  have new: "rd (nm_nlh ?n) 4 (mlen n - 4) = rd (nm_nlh n) 4 (mlen n - 4)" "rd (nm_nlh ?n) (mlen n) 2 = le_bytes 2 (4 + blen bs)"
    "rd (nm_nlh ?n) (mlen n + 2) 2 = le_bytes 2 (32768 + t)" "rd (nm_nlh ?n) (mlen n + 4) (blen bs) = bs"
    using old b n1(4) n2(4) by (simp_all add: mem_simps) (simp add: put16_def mem_simps)
  have "rd (nm_nlh ?n) (mlen n) (2 + (2 + blen bs)) = attr_bytes (32768 + t, bs)"
    using new(2-4) b rd_append_iff [of "mlen n" "nm_nlh ?n" "le_bytes 2 (4 + blen bs)" "le_bytes 2 (32768 + t) @ bs"]
      rd_append_iff [of "mlen n + 2" "nm_nlh ?n" "le_bytes 2 (32768 + t)" bs]
    by (simp add: e add.commute [of 4 "mlen n"])
  moreover have "mlen ?n = mlen n2" "blen (nm_nlh ?n) = blen (nm_nlh n2)"
    using b n1(4) n2(4) by (simp_all add: nlmsg_hdr_def mem_simps)
  ultimately show "\<exists>n'. put_nest t f n = Inr n' \<and> wf_msg n' \<and> nm_size n' = nm_size n \<and> mlen n' = mlen n + blen (attr_bytes (32768 + t, bs)) \<and>
      rd (nm_nlh n') 4 (mlen n - 4) = rd (nm_nlh n) 4 (mlen n - 4) \<and>
      rd (nm_nlh n') (mlen n) (blen (attr_bytes (32768 + t, bs))) = attr_bytes (32768 + t, bs)"
    using r new(1) n1(3,4) n2(3,4) b al by (simp add: wf_msg_def)
qed

section \<open>Requests\<close>

lemma appends_hdr:
  assumes "blen hdr mod 4 = 0"
  shows "appends (\<lambda>n. put_or_msgsize (nlmsg_append n hdr 4)) hdr"
proof (rule appendsI)
  fix n assume n: "wf_msg n" "mlen n mod 4 = 0" "mlen n + blen hdr \<le> nm_size n"
  have al: "align4 (blen hdr) = blen hdr" using assms by (simp add: align4_id)
  have "\<not> nm_size n < mlen n + align4 (blen hdr)" using n(3) al by simp
  then obtain n' where "nlmsg_append n hdr 4 = Inr n'" "wf_msg n'" "nm_size n' = nm_size n" "mlen n' = mlen n + align4 (blen hdr)"
    "rd (nm_nlh n') 4 (mlen n - 4) = rd (nm_nlh n) 4 (mlen n - 4)"
    "rd (nm_nlh n') (mlen n) (mlen n' - mlen n) = hdr @ zeros (align4 (blen hdr) - blen hdr)"
    using nlmsg_append_cases [OF n(1), of 4 hdr] unfolding reserve_tlen_4 by fastforce
  then show "\<exists>n'. put_or_msgsize (nlmsg_append n hdr 4) = Inr n' \<and> wf_msg n' \<and> nm_size n' = nm_size n \<and> mlen n' = mlen n + blen hdr \<and>
      rd (nm_nlh n') 4 (mlen n - 4) = rd (nm_nlh n) 4 (mlen n - 4) \<and> rd (nm_nlh n') (mlen n) (blen hdr) = hdr"
    by (intro exI [of _ n']) (simp add: put_or_msgsize_def zeros_def al)
qed (rule assms)

text \<open>A request made of a header and attributes that fit, as the parser sees it.\<close>

lemma appended_parsed:
  assumes f: "appends f (hdr @ attrs_bytes as)" and fits: "\<forall>a \<in> set as. attr_fits a"
    and room: "16 + blen hdr + blen (attrs_bytes as) \<le> dsz" "dsz < 2147483648" and hdr: "blen hdr mod 4 = 0"
    and known: "\<forall>(t, d) \<in> set (base_types as). t \<le> maxtype \<and> payload_ok (policy ! nat t) d"
    and dist: "distinct (map fst (base_types as))" and max: "0 \<le> maxtype"
  obtains msg tb where "(case nlmsg_alloc_simple True True dsz cmd flags of None \<Rightarrow> Inl (Err NLE_NOMEM) | Some msg \<Rightarrow> f msg) = Inr msg"
    "rd (nm_nlh msg) 16 (blen hdr) = hdr" "nlmsg_type (nlmsg_hdr msg) = u16 cmd"
    "nlmsg_parse (nm_nlh msg) 0 (blen hdr) maxtype (Some policy) = (Some tb, Inr ())"
    "\<And>t. int t \<le> maxtype \<Longrightarrow> entry_is (nm_nlh msg) (tb ! t) (map_of (base_types as) (int t))"
    "wf_msg msg" "mlen msg = 16 + blen hdr + blen (attrs_bytes as)"
proof -
  obtain n0 where n0: "nlmsg_alloc_simple True True dsz cmd flags = Some n0"
    by (simp add: nlmsg_alloc_simple_def nlmsg_inherit_def nlmsg_alloc_def nlmsg_alloc_len_def Let_def)
  note a0 = nlmsg_alloc_simple_ok [OF n0 room(2)]
  have m0: "mlen n0 = 16" using a0(6) by simp
  have "mlen n0 mod 4 = 0" "mlen n0 + blen (hdr @ attrs_bytes as) \<le> nm_size n0" using a0 room by simp_all
  from appendsD [OF f a0(1) this] obtain n where n: "f n0 = Inr n" "wf_msg n" "nm_size n = nm_size n0"
    "mlen n = mlen n0 + blen (hdr @ attrs_bytes as)" "rd (nm_nlh n) 4 (mlen n0 - 4) = rd (nm_nlh n0) 4 (mlen n0 - 4)"
    "rd (nm_nlh n) (mlen n0) (blen (hdr @ attrs_bytes as)) = hdr @ attrs_bytes as" by metis
  have b: "rd (nm_nlh n) 16 (blen hdr) = hdr" "rd (nm_nlh n) (16 + blen hdr) (blen (attrs_bytes as)) = attrs_bytes as"
    using n(6) a0(6) rd_append_iff [of 16 "nm_nlh n" hdr "attrs_bytes as"] by simp_all
  have h: "has_attrs n (16 + blen hdr) as"
    using n(2,4) a0(6) b(2) fits hdr mod_add_eq [of 16 4 "blen hdr"] by (simp add: has_attrs_def)
  have "nlmsg_hdr n = (nlmsg_hdr n0)\<lparr>nlmsg_len := mlen n\<rparr>" unfolding nlmsg_hdr_def 
    by (intro nlh_cong) (use n(5) m0 in \<open>simp_all add: nlmsg_hdr_def\<close>)
  from arg_cong [OF this, of nlmsg_type] have ty: "nlmsg_type (nlmsg_hdr n) = u16 cmd" using a0(6) by simp
  from nlmsg_parse_built [OF h refl dist known max] obtain tb where
    "nlmsg_parse (nm_nlh n) 0 (blen hdr) maxtype (Some policy) = (Some tb, Inr ())"
    "\<And>t. int t \<le> maxtype \<Longrightarrow> entry_is (nm_nlh n) (tb ! t) (map_of (base_types as) (int t))" by metis
  then show ?thesis using n(1,2,4) n0 b(1) ty a0(6) that [of n tb] by simp
qed

end
