(* ===== verification/Nl_Route_Type.thy ===== *)
theory Nl_Route_Type
  imports Nl_Route_Wire Nl_Addr_Cmp Nl_Neigh_Type Nl_Cache_Steps Nl_Readback
begin

unbundle bit_operations_syntax

text \<open>
  Routes as objects of caches: identity respects the hash, and an update keeps a route where it is in a
  cache. Updates collapse the notifications about the next hops of an IPv6 route. Metrics are a map.
\<close>

section \<open>Identity\<close>

text \<open>The priority is a part of the hash key of an MPLS route too, but not of its identity: such a route has none.\<close>

definition route_keyed :: "route_obj \<Rightarrow> bool" where
  "route_keyed obj \<longleftrightarrow> ce_mask obj AND route_id_attrs_get obj = route_id_attrs_get obj \<and> opt_addr_ok (rt_dst (ce_data obj)) \<and>
     (rt_family (ce_data obj) = AF_MPLS \<longrightarrow> rt_prio (ce_data obj) = 0)"

lemma route_id_cases: "route_id_attrs_get obj = (if rt_family (ce_data obj) = AF_MPLS then 0x87 else 0x1087)"
  by (simp add: route_id_attrs_get_def ROUTE_ID_ATTRS_def route_attr_defs)

definition same_route :: "int \<Rightarrow> rtnl_route \<Rightarrow> rtnl_route \<Rightarrow> bool" where
  "same_route r a b \<longleftrightarrow> rt_family a = rt_family b \<and> rt_tos a = rt_tos b \<and> rt_table a = rt_table b \<and>
     \<not> addr_differs (rt_dst a) (rt_dst b) \<and> (r AND 0x1000 \<noteq> 0 \<longrightarrow> rt_prio a = rt_prio b)"

lemma route_compare_id:
  assumes "ce_mask a AND r = r" "ce_mask b AND r = r" "r \<in> {0x87, 0x1087}"
  shows "route_compare a b r ID_COMPARISON = 0 \<longleftrightarrow> same_route r (ce_data a) (ce_data b)"
proof -
  have d: "ATTR_DIFF r attr a b e = 0 \<longleftrightarrow> \<not> (r AND attr \<noteq> 0 \<and> e)"
    if "attr \<in> {1, 2, 4, 8, 0x10, 0x20, 0x40, 0x80, 0x100, 0x200, 0x1000, 0x2000, 0x4000, 0x8000, 0x40000}" for attr e
    using that assms(3) by (intro ATTR_DIFF_0 [OF assms(1,2)]) auto
  have z: "r AND 1 \<noteq> 0" "r AND 2 \<noteq> 0" "r AND 4 \<noteq> 0" "r AND 8 = 0" "r AND 0x10 = 0" "r AND 0x20 = 0" "r AND 0x40 = 0"
    "r AND 0x80 \<noteq> 0" "r AND 0x100 = 0" "r AND 0x200 = 0" "r AND 0x2000 = 0" "r AND 0x4000 = 0" "r AND 0x8000 = 0" "r AND 0x40000 = 0"
    using assms(3) by auto
  show ?thesis
    by (simp add: route_compare_def same_route_def Let_def or_eq_0_iff d z route_attr_defs ID_COMPARISON_def LOOSE_COMPARISON_def)
      blast
qed

lemma route_ident:
  "ident (\<lambda>_. route_obj_ops addr) a b \<longleftrightarrow> (\<exists>j. ce_ops a = Some j \<and> ce_ops b = Some j) \<and>
     route_id_attrs_get a = route_id_attrs_get b \<and>
     ce_mask a AND route_id_attrs_get a = route_id_attrs_get a \<and> ce_mask b AND route_id_attrs_get a = route_id_attrs_get a \<and>
     same_route (route_id_attrs_get a) (ce_data a) (ce_data b)"
proof -
  let ?r = "route_id_attrs_get"
  have small: "s32 (?r x) = ?r x" "u32 (?r x) = ?r x" "?r x \<noteq> 0xFFFFFFFF" for x
    by (simp_all add: route_id_cases)
  have r: "req_attrs (route_obj_ops addr) a b = (if ?r a = ?r b then Some (?r a) else None)"
    by (simp add: req_attrs_def route_obj_ops_def small)
  have c: "oo_compare (route_obj_ops addr) = Some route_compare" by (simp add: route_obj_ops_def)
  have "?r a \<in> {0x87, 0x1087}" by (simp add: route_id_cases)
  then show ?thesis
    using route_compare_id [of a "?r a" b]
    by (auto simp: ident_def nl_object_identical_def obj_ops_def r c split: option.splits)
qed

lemma same_route_key:
  assumes "route_keyed a" "route_keyed b"
  shows "same_route r (ce_data a) (ce_data b) \<longleftrightarrow> rt_family (ce_data a) = rt_family (ce_data b) \<and> rt_tos (ce_data a) = rt_tos (ce_data b) \<and>
     rt_table (ce_data a) = rt_table (ce_data b) \<and> map_option addr_key (rt_dst (ce_data a)) = map_option addr_key (rt_dst (ce_data b)) \<and>
     (r AND 0x1000 \<noteq> 0 \<longrightarrow> rt_prio (ce_data a) = rt_prio (ce_data b))"
  using assms by (auto simp: same_route_def addr_differs_key route_keyed_def)

lemma route_ident_keygen:
  assumes k: "route_keyed a" "route_keyed b" and id: "ident (\<lambda>_. route_obj_ops addr) a b"
  shows "route_keygen ad m a sz = route_keygen ad m b sz"
proof -
  let ?r = "route_id_attrs_get a"
  have r: "?r = route_id_attrs_get b" and s: "same_route ?r (ce_data a) (ce_data b)" using id by (auto simp: route_ident)
  note e = s [unfolded same_route_key [OF k]]
  have "rt_prio (ce_data a) = rt_prio (ce_data b)"
    using e k by (cases "rt_family (ce_data a) = AF_MPLS") (simp_all add: route_id_cases route_keyed_def)
  then show ?thesis using e key_bytes [of "rt_dst (ce_data a)" "rt_dst (ce_data b)"] by (simp add: route_keygen_def Let_def)
qed

interpretation route: keyed_type "\<lambda>_. route_obj_ops addr" 0 route_keyed "route_keygen addr True"
proof
  let ?ops = "\<lambda>_. route_obj_ops addr"
  show "oo_keygen (route_obj_ops addr) = Some (route_keygen addr True)" by (simp add: route_obj_ops_def)
  show "0 \<le> route_keygen addr True a sz \<and> route_keygen addr True a sz < sz" if "0 < sz" for a sz
    using that by (simp add: route_keygen_def Let_def)
  show "route_keygen addr True a sz = route_keygen addr True b sz" if "same_contents a b" for a b sz
    using that by (simp add: route_keygen_def same_contents_def)
  show "route_keyed a = route_keyed b" if "same_contents a b" for a b
    using that by (simp add: route_keyed_def route_id_attrs_get_def same_contents_def)
  show "ident ?ops a b = ident ?ops a' b'" if "same_contents a a'" "same_contents b b'" for a a' b b'
    using that by (simp add: route_ident route_id_attrs_get_def same_contents_def)
  show "ident ?ops a a" if "ce_ops a = Some 0" "route_keyed a" for a
    using that by (simp add: route_ident same_route_key) (simp add: route_keyed_def)
  show "ident ?ops b a" if "ce_ops a = Some 0" "route_keyed a" "route_keyed b" "ident ?ops a b" for a b
    using that by (auto simp: route_ident same_route_key)
  show "ident ?ops a c" if "ce_ops a = Some 0" "route_keyed a" "route_keyed b" "route_keyed c" "ident ?ops a b" "ident ?ops b c" for a b c
    using that(1) that(5,6) [unfolded route_ident same_route_key [OF that(2,3)] same_route_key [OF that(3,4)]]
    unfolding route_ident same_route_key [OF that(2,4)] by (elim conjE exE) (intro conjI impI; simp)
  show "route_keygen addr True a sz = route_keygen addr True b sz" if "ce_ops a = Some 0" "route_keyed a" "route_keyed b" "ident ?ops a b" for a b sz
    using route_ident_keygen that(2-4) .
qed

section \<open>Updates\<close>

text \<open>An update changes the next hops only, and the bit of the mask that says that there are some.\<close>

lemma route_update_frame:
  "\<exists>nhs n m. snd (route_update a b old new) =
     old\<lparr>ce_data := (ce_data old)\<lparr>rt_nexthops := nhs, rt_nr_nh := n\<rparr>, ce_mask := ce_mask old OR m\<rparr> \<and> m \<in> {0, ROUTE_ATTR_MULTIPATH}"
proof -
  have same: "\<exists>nhs n m. old = old\<lparr>ce_data := (ce_data old)\<lparr>rt_nexthops := nhs, rt_nr_nh := n\<rparr>, ce_mask := ce_mask old OR m\<rparr> \<and> m \<in> {0, ROUTE_ATTR_MULTIPATH}"
    by (rule exI [of _ "rt_nexthops (ce_data old)"], rule exI [of _ "rt_nr_nh (ce_data old)"], rule exI [of _ 0]) simp
  have add: "\<exists>nhs n m. rtnl_route_add_nexthop old x =
      old\<lparr>ce_data := (ce_data old)\<lparr>rt_nexthops := nhs, rt_nr_nh := n\<rparr>, ce_mask := ce_mask old OR m\<rparr> \<and> m \<in> {0, ROUTE_ATTR_MULTIPATH}" for x
    by (rule exI, rule exI, rule exI [of _ ROUTE_ATTR_MULTIPATH]) (simp add: rtnl_route_add_nexthop_def)
  have del: "\<exists>nhs n m. rtnl_route_remove_nexthop old i =
      old\<lparr>ce_data := (ce_data old)\<lparr>rt_nexthops := nhs, rt_nr_nh := n\<rparr>, ce_mask := ce_mask old OR m\<rparr> \<and> m \<in> {0, ROUTE_ATTR_MULTIPATH}" for i
  proof (cases "ce_mask old AND ROUTE_ATTR_MULTIPATH \<noteq> 0")
    case True
    then have "rtnl_route_remove_nexthop old i = old\<lparr>ce_data := (ce_data old)\<lparr>
          rt_nexthops := take i (rt_nexthops (ce_data old)) @ drop (Suc i) (rt_nexthops (ce_data old)),
          rt_nr_nh := u32 (rt_nr_nh (ce_data old) - 1)\<rparr>, ce_mask := ce_mask old OR 0\<rparr>"
      by (simp add: rtnl_route_remove_nexthop_def)
    then show ?thesis by blast
  next
    case False
    then show ?thesis using same by (simp add: rtnl_route_remove_nexthop_def)
  qed
  show ?thesis using same add del by (simp add: route_update_def Let_def split: option.splits)
qed

lemma route_update_keeps:
  "same_place (\<lambda>_. route_obj_ops addr) route_keyed (route_keygen addr True) (snd (route_update x y a b)) a"
  "ce_refcnt (snd (route_update x y a b)) = ce_refcnt a"
proof -
  obtain nhs n m where u: "snd (route_update x y a b) =
      a\<lparr>ce_data := (ce_data a)\<lparr>rt_nexthops := nhs, rt_nr_nh := n\<rparr>, ce_mask := ce_mask a OR m\<rparr>" and m: "m \<in> {0, ROUTE_ATTR_MULTIPATH}"
    using route_update_frame by blast
  show "ce_refcnt (snd (route_update x y a b)) = ce_refcnt a" unfolding u by simp
  define a' where "a' = snd (route_update x y a b)"
  have r: "route_id_attrs_get a' = route_id_attrs_get a" by (simp add: a'_def u route_id_attrs_get_def)
  have mk: "ce_mask a' AND r = ce_mask a AND r" if "r \<in> {0x87, 0x1087}" for r
    using that m by (auto simp: a'_def u bit.conj_disj_distrib2 route_attr_defs)
  have d: "same_route r (ce_data a') z = same_route r (ce_data a) z" "same_route r z (ce_data a') = same_route r z (ce_data a)" for r z
    by (simp_all add: a'_def u same_route_def)
  have k: "route_keygen addr True a' sz = route_keygen addr True a sz" for sz by (simp add: a'_def u route_keygen_def Let_def)
  have h: "ce_ops a' = ce_ops a" "ce_cache a' = ce_cache a" "ce_linked a' = ce_linked a" "rt_dst (ce_data a') = rt_dst (ce_data a)"
    "rt_family (ce_data a') = rt_family (ce_data a)" "rt_prio (ce_data a') = rt_prio (ce_data a)"
    by (simp_all add: a'_def u)
  have c: "route_id_attrs_get z \<in> {0x87, 0x1087}" for z by (simp add: route_id_cases)
  show "same_place (\<lambda>_. route_obj_ops addr) route_keyed (route_keygen addr True) (snd (route_update x y a b)) a"
    unfolding a'_def [symmetric] same_place_def same_key_def route_ident r d k h(1) route_keyed_def mk [OF c] h
    by auto
qed

interpretation route: updatable_type "\<lambda>_. route_obj_ops addr" 0 route_keyed "route_keygen addr True"
proof
  show "same_place (\<lambda>_. route_obj_ops addr) route_keyed (route_keygen addr True) (snd (f a b)) a \<and>
      ce_refcnt (snd (f a b)) = ce_refcnt a" if "oo_update (route_obj_ops addr) = Some f" for f a b
    using that route_update_keeps by (auto simp: route_obj_ops_def)
qed

section \<open>Comparing next hops\<close>

text \<open>
  Next hops whose addresses are well formed, the one of an encapsulation included; the mask has eight attributes, and the only
  type of encapsulation with operations is MPLS.
\<close>

definition encap_ok :: "rtnl_nh_encap option \<Rightarrow> bool" where
  "encap_ok e \<longleftrightarrow> (case e of None \<Rightarrow> True | Some x \<Rightarrow> enc_ops x = LWTUNNEL_ENCAP_MPLS \<and> addr_ok (mi_dst (enc_priv x)))"

definition nh_ok :: "rtnl_nexthop \<Rightarrow> bool" where
  "nh_ok nh \<longleftrightarrow> 0 \<le> nh_mask nh \<and> nh_mask nh < 256 \<and>
     opt_addr_ok (nh_gateway nh) \<and> opt_addr_ok (nh_newdst nh) \<and> opt_addr_ok (nh_via nh) \<and> encap_ok (nh_encap nh)"

text \<open>What makes two of them equal: the attributes that are there and their values.\<close>

record nh_value =
  nv_mask :: int
  nv_numbers :: "int option list"
  nv_realms :: "int option"
  nv_addrs :: "(int \<times> byte list \<times> int) option option list"
  nv_encap :: "(int \<times> int \<times> byte list \<times> int) option option"

definition encap_key :: "rtnl_nh_encap \<Rightarrow> int \<times> int \<times> byte list \<times> int" where
  "encap_key e = (mi_ttl (enc_priv e), addr_key (mi_dst (enc_priv e)))"

definition nh_key :: "rtnl_nexthop \<Rightarrow> nh_value" where
  "nh_key nh =
     (let has = (\<lambda>attr. nh_mask nh AND attr \<noteq> 0); val = (\<lambda>attr x. if has attr then Some x else None) in
      \<lparr>nv_mask = nh_mask nh, nv_numbers = [val NH_ATTR_IFINDEX (nh_ifindex nh), val NH_ATTR_WEIGHT (nh_weight nh), val NH_ATTR_FLAGS (nh_flags nh)],
       nv_realms = val NH_ATTR_REALMS (nh_realms nh),
       nv_addrs = [if has NH_ATTR_GATEWAY then Some (map_option addr_key (nh_gateway nh)) else None,
         if has NH_ATTR_NEWDST then Some (map_option addr_key (nh_newdst nh)) else None,
         if has NH_ATTR_VIA then Some (map_option addr_key (nh_via nh)) else None],
       nv_encap = (if has NH_ATTR_ENCAP then Some (map_option encap_key (nh_encap nh)) else None)\<rparr>)"

text \<open>What a clone keeps of it: the mask still announces realms and an encapsulation, whose values are lost.\<close>

definition nv_cloned :: "nh_value \<Rightarrow> nh_value" where
  "nv_cloned k = k\<lparr>nv_realms := map_option (\<lambda>_. 0) (nv_realms k), nv_encap := map_option (\<lambda>_. None) (nv_encap k)\<rparr>"

lemma mask8_eq:
  assumes "0 \<le> a" "a < 256" "0 \<le> b" "b < (256 :: int)"
    and "\<And>k. k < 8 \<Longrightarrow> (a XOR b) AND 2 ^ k = 0"
  shows "a = b"
proof (rule bit_eqI)
  fix k
  have big: "\<not> bit x k" if "8 \<le> k" "0 \<le> x" "x < 256" for x :: int
  proof -
    have "x < 2 ^ k" using that power_increasing [of 8 k "2 :: int"] by simp
    then show ?thesis using that(2) by (simp add: bit_iff_odd div_pos_pos_trivial)
  qed
  show "bit a k = bit b k"
  proof (cases "k < 8")
    case True
    then have "\<not> bit (a XOR b) k" using assms(5) and_exp_eq_0_iff_not_bit by blast
    then show ?thesis by (simp add: bit_xor_iff)
  next
    case False
    then show ?thesis using big [of a] big [of b] assms(1-4) by simp
  qed
qed

lemma NH_DIFF_0:
  "NH_DIFF 0xFFFFFFFF attr a b e = 0 \<longleftrightarrow> (nh_mask a XOR nh_mask b) AND attr = 0 \<and> ((nh_mask a AND nh_mask b) AND attr \<noteq> 0 \<longrightarrow> \<not> e)"
  if "attr \<in> {1, 2, 4, 8, 0x10, 0x20, 0x40, 0x80}"
  using that by (auto simp: NH_DIFF_def)

lemma encap_differs_key:
  assumes "encap_ok a" "encap_ok b"
  shows "nh_encap_compare a b \<longleftrightarrow> map_option encap_key a \<noteq> map_option encap_key b"
proof (cases a; cases b)
  fix x y
  assume "a = Some x" "b = Some y"
  moreover from this have "addr_differs (Some (mi_dst (enc_priv x))) (Some (mi_dst (enc_priv y))) \<longleftrightarrow>
      addr_key (mi_dst (enc_priv x)) \<noteq> addr_key (mi_dst (enc_priv y))"
    using assms addr_differs_key [of "Some (mi_dst (enc_priv x))" "Some (mi_dst (enc_priv y))"] by (simp add: encap_ok_def opt_addr_ok_def)
  moreover have "snd (lwtunnel_encap_types ! nat LWTUNNEL_ENCAP_MPLS) = Some mpls_encap_ops"
    by (simp add: lwtunnel_encap_types_def LWTUNNEL_ENCAP_MPLS_def)
  ultimately show ?thesis
    using assms by (auto simp: nh_encap_compare_def encap_ok_def encap_key_def mpls_encap_ops_def mpls_encap_compare_def)
qed (simp_all add: nh_encap_compare_def)

lemma nh_compare_key:
  assumes a: "nh_ok a" and b: "nh_ok b"
  shows "rtnl_route_nh_compare a b 0xFFFFFFFF False = 0 \<longleftrightarrow> nh_key a = nh_key b"
proof -
  have bits: "nh_mask a = nh_mask b" if all: "\<forall>attr \<in> {1, 2, 4, 8, 0x10, 0x20, 0x40, 0x80}. (nh_mask a XOR nh_mask b) AND attr = 0"
  proof (rule mask8_eq)
    show "(nh_mask a XOR nh_mask b) AND 2 ^ k = 0" if k: "k < 8" for k
    proof -
      have "k \<in> {0, 1, 2, 3, 4, 5, 6, 7}" using k by auto
      then have "(2 :: int) ^ k \<in> {1, 2, 4, 8, 0x10, 0x20, 0x40, 0x80}" by auto
      then show ?thesis using bspec [OF all] by blast
    qed
  qed (use a b in \<open>simp_all add: nh_ok_def\<close>)
  have ad: "addr_differs (nh_gateway a) (nh_gateway b) \<longleftrightarrow> map_option addr_key (nh_gateway a) \<noteq> map_option addr_key (nh_gateway b)"
    "addr_differs (nh_newdst a) (nh_newdst b) \<longleftrightarrow> map_option addr_key (nh_newdst a) \<noteq> map_option addr_key (nh_newdst b)"
    "addr_differs (nh_via a) (nh_via b) \<longleftrightarrow> map_option addr_key (nh_via a) \<noteq> map_option addr_key (nh_via b)"
    "nh_encap_compare (nh_encap a) (nh_encap b) \<longleftrightarrow> map_option encap_key (nh_encap a) \<noteq> map_option encap_key (nh_encap b)"
    using a b by (simp_all add: addr_differs_key encap_differs_key nh_ok_def)
  note cmp = rtnl_route_nh_compare_def Let_def or_eq_0_iff nh_attr_defs NH_DIFF_0
  show ?thesis
  proof (cases "nh_mask a = nh_mask b")
    case True
    then show ?thesis by (simp add: cmp nh_key_def ad) blast
  next
    case False
    then have "rtnl_route_nh_compare a b 0xFFFFFFFF False \<noteq> 0" using bits by (auto simp: cmp)
    then show ?thesis using False by (simp add: nh_key_def Let_def)
  qed
qed

lemma clone_addr_ok:
  assumes "opt_addr_ok a"
  shows "\<exists>b. clone_addr True a = Some b \<and> opt_addr_ok b \<and> map_option addr_key b = map_option addr_key a"
proof (cases a)
  case (Some x)
  then have x: "addr_ok x" using assms by (simp add: opt_addr_ok_def)
  have "nl_addr_clone True x \<noteq> None" by (simp add: nl_addr_clone_def nl_addr_build_def nl_addr_alloc_def Let_def)
  then obtain y where y: "nl_addr_clone True x = Some y" by blast
  have "a_len y = a_len x" "a_family y = a_family x" "a_prefixlen y = a_prefixlen x" "addr_ok y" "addr_bytes y = addr_bytes x"
    using x y length_addr_bytes [OF x]
    by (auto simp: nl_addr_clone_def nl_addr_build_def nl_addr_alloc_def Let_def addr_ok_def addr_bytes_def wr_def rd_def zeros_def
      split: if_splits)
  then show ?thesis using Some y by (simp add: clone_addr_def opt_addr_ok_def addr_key_def)
qed (simp add: clone_addr_def opt_addr_ok_def)

lemma nh_clone_ok:
  assumes "nh_ok nh"
  shows "\<exists>new. rtnl_route_nh_clone True True nh = Some new \<and> nh_ok new \<and> nh_key new = nv_cloned (nh_key nh)"
proof -
  have ok: "opt_addr_ok (nh_gateway nh)" "opt_addr_ok (nh_newdst nh)" "opt_addr_ok (nh_via nh)" using assms by (simp_all add: nh_ok_def)
  obtain g d v where c: "clone_addr True (nh_gateway nh) = Some g" "clone_addr True (nh_newdst nh) = Some d" "clone_addr True (nh_via nh) = Some v"
    and k: "opt_addr_ok g" "opt_addr_ok d" "opt_addr_ok v" "map_option addr_key g = map_option addr_key (nh_gateway nh)"
      "map_option addr_key d = map_option addr_key (nh_newdst nh)" "map_option addr_key v = map_option addr_key (nh_via nh)"
    using ok [THEN clone_addr_ok] by blast
  show ?thesis
    using assms k
    by (simp add: rtnl_route_nh_clone_def rtnl_route_nh_alloc_def c nh_ok_def encap_ok_def nh_key_def nv_cloned_def new_nexthop_def Let_def)
qed

text \<open>Realms are lost, while the mask of the clone says that there are some: it differs from the original.\<close>

lemma nh_clone_loses_realms:
  assumes "nh_mask nh AND NH_ATTR_REALMS \<noteq> 0" "nh_realms nh \<noteq> 0" "rtnl_route_nh_clone a b nh = Some new"
  shows "nh_realms new = 0" "rtnl_route_nh_compare new nh 0xFFFFFFFF False \<noteq> 0"
proof -
  have n: "nh_realms new = 0" "nh_mask new = nh_mask nh"
    using assms(3) by (auto simp: rtnl_route_nh_clone_def rtnl_route_nh_alloc_def new_nexthop_def Let_def split: if_splits option.splits)
  then show "nh_realms new = 0" "rtnl_route_nh_compare new nh 0xFFFFFFFF False \<noteq> 0"
    using assms(1,2) by (auto simp: rtnl_route_nh_compare_def Let_def or_eq_0_iff nh_attr_defs NH_DIFF_0)
qed

section \<open>Notifications about next hops\<close>

text \<open>A notification about one next hop of an IPv6 route, and what it says: whether the next hop is new, and its key.\<close>

definition nh_event :: "route_obj \<Rightarrow> bool" where
  "nh_event obj \<longleftrightarrow>
     (let r = ce_data obj in
      rt_family r = AF_INET6 \<and> rt_table r \<noteq> RT_TABLE_LOCAL \<and> ce_mask obj AND ROUTE_ATTR_MULTIPATH \<noteq> 0 \<and> rt_nr_nh r = 1 \<and>
      length (rt_nexthops r) = 1 \<and> nh_gateway (hd (rt_nexthops r)) \<noteq> None \<and> nh_ok (hd (rt_nexthops r)) \<and>
      (ce_msgtype obj = RTM_NEWROUTE \<or> ce_msgtype obj = RTM_DELROUTE))"

definition told_by :: "route_obj \<Rightarrow> bool \<times> nh_value" where
  "told_by obj = (ce_msgtype obj = RTM_NEWROUTE, nh_key (hd (rt_nexthops (ce_data obj))))"

text \<open>
  The effect on the next hops: an announced one is added as its clone, a deleted one is removed if it is there with all its values;
  the last next hop is not removed, because that deletes the route.
\<close>

definition nh_step :: "bool \<times> nh_value \<Rightarrow> nh_value list \<Rightarrow> nh_value list" where
  "nh_step e ks = (case e of (new, k) \<Rightarrow> if new then ks @ [nv_cloned k] else if length ks \<le> 1 then ks else remove1 k ks)"

definition nhs_ok :: "route_obj \<Rightarrow> bool" where
  "nhs_ok route \<longleftrightarrow>
     (let r = ce_data route in
      (\<forall>nh \<in> set (rt_nexthops r). nh_ok nh) \<and> rt_nr_nh r = int (length (rt_nexthops r)) \<and>
      (rt_nexthops r \<noteq> [] \<longrightarrow> ce_mask route AND ROUTE_ATTR_MULTIPATH \<noteq> 0))"

abbreviation nh_keys :: "route_obj \<Rightarrow> nh_value list" where
  "nh_keys route \<equiv> map nh_key (rt_nexthops (ce_data route))"

lemma find_nexthop_remove1:
  assumes "\<forall>x \<in> set xs. nh_ok x" "nh_ok nh"
  shows "case find_nexthop nh j xs of
      None \<Rightarrow> remove1 (nh_key nh) (map nh_key xs) = map nh_key xs
    | Some i \<Rightarrow> j \<le> i \<and> i - j < length xs \<and>
        map nh_key (take (i - j) xs @ drop (Suc (i - j)) xs) = remove1 (nh_key nh) (map nh_key xs)"
  using assms
proof (induction xs arbitrary: j)
  case (Cons x xs)
  show ?case
  proof (cases "nh_key x = nh_key nh")
    case True
    then show ?thesis using Cons.prems nh_compare_key [of x nh] by simp
  next
    case False
    have ih: "case find_nexthop nh (Suc j) xs of None \<Rightarrow> remove1 (nh_key nh) (map nh_key xs) = map nh_key xs
      | Some i \<Rightarrow> Suc j \<le> i \<and> i - Suc j < length xs \<and> map nh_key (take (i - Suc j) xs @ drop (Suc (i - Suc j)) xs) = remove1 (nh_key nh) (map nh_key xs)"
      using Cons.IH [of "Suc j"] Cons.prems by simp
    have s: "i - j = Suc (i - Suc j)" if "Suc j \<le> i" for i using that by simp
    show ?thesis using False ih Cons.prems nh_compare_key [of x nh] by (auto simp: s split: option.splits)
  qed
qed simp

lemma route_update_step:
  assumes old: "nhs_ok old" and new: "nh_event new" and len: "int (length (rt_nexthops (ce_data old))) < 2147483647"
  shows "nhs_ok (snd (route_update True True old new))"
    "nh_keys (snd (route_update True True old new)) = nh_step (told_by new) (nh_keys old)"
proof -
  obtain nh where nh: "rt_nexthops (ce_data new) = [nh]" "nh_gateway nh \<noteq> None" "nh_ok nh"
    using new by (auto simp: nh_event_def Let_def length_Suc_conv)
  have n: "rt_family (ce_data new) = AF_INET6" "rt_table (ce_data new) \<noteq> RT_TABLE_LOCAL" "rtnl_route_get_nnexthops new = 1"
    "rtnl_route_nexthop_n new 0 = Some nh"
    using new nh(1) by (simp_all add: nh_event_def Let_def rtnl_route_get_nnexthops_def rtnl_route_nexthop_n_def)
  obtain cl where cl: "rtnl_route_nh_clone True True nh = Some cl" "nh_ok cl" "nh_key cl = nv_cloned (nh_key nh)"
    using nh_clone_ok [OF nh(3)] by blast
  have act: "ce_msgtype new = RTM_NEWROUTE \<or> ce_msgtype new = RTM_DELROUTE" using new by (simp add: nh_event_def Let_def)
  have o: "rt_nr_nh (ce_data old) = int (length (rt_nexthops (ce_data old)))" "\<forall>x \<in> set (rt_nexthops (ce_data old)). nh_ok x"
    "rt_nexthops (ce_data old) \<noteq> [] \<Longrightarrow> ce_mask old AND ROUTE_ATTR_MULTIPATH \<noteq> 0"
    using old by (simp_all add: nhs_ok_def Let_def)
  have g: "rtnl_route_get_nnexthops old \<le> 1 \<longleftrightarrow> length (rt_nexthops (ce_data old)) \<le> 1"
    using o len by (cases "rt_nexthops (ce_data old) = []") (simp_all add: rtnl_route_get_nnexthops_def)
  have bit: "ROUTE_ATTR_MULTIPATH AND ROUTE_ATTR_MULTIPATH \<noteq> 0" by (simp add: route_attr_defs)
  have add: "nhs_ok (rtnl_route_add_nexthop old cl)" "nh_keys (rtnl_route_add_nexthop old cl) = nh_keys old @ [nv_cloned (nh_key nh)]"
    using o cl len bit by (simp_all add: rtnl_route_add_nexthop_def nhs_ok_def bit.conj_disj_distrib2 or_eq_0_iff ball_Un)
  have del: "nhs_ok (rtnl_route_remove_nexthop old i) \<and> nh_keys (rtnl_route_remove_nexthop old i) = remove1 (nh_key nh) (nh_keys old)"
    if f: "find_nexthop nh 0 (rt_nexthops (ce_data old)) = Some i" for i
  proof -
    have i: "i < length (rt_nexthops (ce_data old))"
      "map nh_key (take i (rt_nexthops (ce_data old)) @ drop (Suc i) (rt_nexthops (ce_data old))) = remove1 (nh_key nh) (nh_keys old)"
      using find_nexthop_remove1 [OF o(2) nh(3), of 0] f by simp_all
    have m: "ce_mask old AND ROUTE_ATTR_MULTIPATH \<noteq> 0" using o(3) i(1) by fastforce
    have "0 \<le> int (length (rt_nexthops (ce_data old))) - 1" "int (length (rt_nexthops (ce_data old))) - 1 < 4294967296"
      using i(1) len by linarith+
    then have "u32 (int (length (rt_nexthops (ce_data old))) - 1) = int (length (rt_nexthops (ce_data old))) - 1" by simp
    moreover have "int (length (take i (rt_nexthops (ce_data old)) @ drop (Suc i) (rt_nexthops (ce_data old)))) = int (length (rt_nexthops (ce_data old))) - 1"
      using i(1) by simp
    moreover have "set (take i (rt_nexthops (ce_data old)) @ drop (Suc i) (rt_nexthops (ce_data old))) \<subseteq> set (rt_nexthops (ce_data old))"
      using set_take_subset set_drop_subset by fastforce
    ultimately show ?thesis using m o i(2) unfolding nhs_ok_def rtnl_route_remove_nexthop_def Let_def by (auto simp del: length_append map_append set_append)
  qed
  have t: "told_by new = (ce_msgtype new = RTM_NEWROUTE, nh_key nh)" by (simp add: told_by_def nh(1))
  have ne: "RTM_NEWROUTE \<noteq> RTM_DELROUTE" by (simp add: RTM_NEWROUTE_def RTM_DELROUTE_def)
  have find: "remove1 (nh_key nh) (nh_keys old) = nh_keys old" if "find_nexthop nh 0 (rt_nexthops (ce_data old)) = None"
    using find_nexthop_remove1 [OF o(2) nh(3), of 0] that by simp
  have u: "snd (route_update True True old new) =
    (if ce_msgtype new = RTM_NEWROUTE then rtnl_route_add_nexthop old cl
     else if length (rt_nexthops (ce_data old)) \<le> 1 then old
     else case find_nexthop nh 0 (rt_nexthops (ce_data old)) of None \<Rightarrow> old | Some i \<Rightarrow> rtnl_route_remove_nexthop old i)"
    using act ne nh(2) by (auto simp: route_update_def Let_def n cl(1) g rtnl_route_nh_get_gateway_def split: option.splits)
  show "nhs_ok (snd (route_update True True old new))" using old add(1) del unfolding u by (auto split: option.splits)
  show "nh_keys (snd (route_update True True old new)) = nh_step (told_by new) (nh_keys old)"
    using add(2) del find unfolding u t nh_step_def by (auto split: option.splits)
qed

section \<open>Metrics\<close>

text \<open>The metrics as a map, and what the counter of metrics counts.\<close>

definition metric_map :: "route_obj \<Rightarrow> int \<Rightarrow> int option" where
  "metric_map route k = (case rtnl_route_get_metric route k of Inl _ \<Rightarrow> None | Inr v \<Rightarrow> Some v)"

definition metrics_ok :: "route_obj \<Rightarrow> bool" where
  "metrics_ok route \<longleftrightarrow>
     (let r = ce_data route in
      length (rt_metrics r) = 17 \<and> rt_nmetrics r = int (card {i \<in> {..< 17}. metric_bit r i}))"

lemma metric_bit_iff: "metric_bit r i \<longleftrightarrow> bit (rt_metrics_mask r) i"
  by (simp add: metric_bit_def and_exp_eq_0_iff_not_bit)

lemma metric_map_eq:
  "metric_map route k = (if 1 \<le> k \<and> k \<le> 17 \<and> metric_bit (ce_data route) (nat (k - 1)) then Some (rt_metrics (ce_data route) ! nat (k - 1)) else None)"
  by (simp add: metric_map_def rtnl_route_get_metric_def RTAX_MAX_def)

lemma card_metric_bits: "card {i \<in> {..< 17 :: nat}. P i} \<le> 17"
  using card_mono [of "{..< 17 :: nat}" "{i \<in> {..< 17}. P i}"] by auto

lemma dom_metric_map: "int (card (dom (metric_map route))) = int (card {i \<in> {..< 17}. metric_bit (ce_data route) i})"
proof -
  have "dom (metric_map route) = (\<lambda>i. int i + 1) ` {i \<in> {..< 17}. metric_bit (ce_data route) i}"
  proof (intro equalityI subsetI)
    fix k assume "k \<in> dom (metric_map route)"
    then have "1 \<le> k" "k \<le> 17" "metric_bit (ce_data route) (nat (k - 1))" by (auto simp: metric_map_eq split: if_splits)
    then show "k \<in> (\<lambda>i. int i + 1) ` {i \<in> {..< 17}. metric_bit (ce_data route) i}" by (intro image_eqI [of _ _ "nat (k - 1)"]) auto
  qed (auto simp: metric_map_eq)
  moreover have "inj_on (\<lambda>i :: nat. int i + 1) {i \<in> {..< 17}. metric_bit (ce_data route) i}" by (simp add: inj_on_def)
  ultimately show ?thesis by (simp add: card_image)
qed

lemma set_metric_step:
  assumes ok: "metrics_ok route" and k: "1 \<le> k" "k \<le> 17"
  shows "\<exists>r'. rtnl_route_set_metric route k v = Inr r' \<and> metrics_ok r' \<and> metric_map r' = (metric_map route)(k \<mapsto> u32 v)"
proof -
  define i where "i = nat (k - 1)"
  have i: "i < 17" "k = int i + 1" using k by (simp_all add: i_def)
  obtain r' where r: "rtnl_route_set_metric route k v = Inr r'"
    using k by (simp add: rtnl_route_set_metric_def RTAX_MAX_def)
  have d: "rt_metrics (ce_data r') = (rt_metrics (ce_data route))[i := u32 v]"
    "metric_bit (ce_data r') j \<longleftrightarrow> j = i \<or> metric_bit (ce_data route) j"
    "rt_nmetrics (ce_data r') = (if metric_bit (ce_data route) i then rt_nmetrics (ce_data route) else u8 (rt_nmetrics (ce_data route) + 1))" for j
    using r k by (auto simp: rtnl_route_set_metric_def RTAX_MAX_def i_def Let_def metric_bit_iff bit_or_iff bit_exp_iff split: if_splits)
  have l: "length (rt_metrics (ce_data route)) = 17" and n: "rt_nmetrics (ce_data route) = int (card {i \<in> {..< 17}. metric_bit (ce_data route) i})"
    using ok by (simp_all add: metrics_ok_def Let_def)
  have c: "{j \<in> {..< 17}. metric_bit (ce_data r') j} = insert i {j \<in> {..< 17}. metric_bit (ce_data route) j}" using i(1) d(2) by auto
  have "rt_nmetrics (ce_data r') = int (card {j \<in> {..< 17}. metric_bit (ce_data r') j})"
    unfolding c d(3) n using card_metric_bits [of "metric_bit (ce_data route)"] i(1) by (auto simp: card_insert_if)
  then have "metrics_ok r'" using l d(1) by (simp add: metrics_ok_def Let_def)
  moreover have "metric_map r' = (metric_map route)(k \<mapsto> u32 v)"
  proof (rule ext)
    fix j
    have e: "nat (j - 1) = i \<longleftrightarrow> j = k" if "1 \<le> j" using that i(2) by auto
    have "rt_metrics (ce_data r') ! nat (j - 1) = (if j = k then u32 v else rt_metrics (ce_data route) ! nat (j - 1))" if "1 \<le> j" "j \<le> 17"
      using that e [OF that(1)] l i(1) unfolding d(1) by (auto simp: nth_list_update)
    then show "metric_map r' j = ((metric_map route)(k \<mapsto> u32 v)) j"
      using k e unfolding metric_map_eq d(2) fun_upd_apply by (auto simp: i_def)
  qed
  ultimately show ?thesis using r by blast
qed

lemma unset_metric_step:
  assumes ok: "metrics_ok route" and k: "1 \<le> k" "k \<le> 17"
  shows "\<exists>r'. rtnl_route_unset_metric route k = Inr r' \<and> metrics_ok r' \<and> metric_map r' = (metric_map route)(k := None)"
proof -
  define i where "i = nat (k - 1)"
  have i: "i < 17" "k = int i + 1" using k by (simp_all add: i_def)
  obtain r' where r: "rtnl_route_unset_metric route k = Inr r'"
    using k by (simp add: rtnl_route_unset_metric_def RTAX_MAX_def Let_def)
  have d: "rt_metrics (ce_data r') = rt_metrics (ce_data route)"
    "metric_bit (ce_data r') j \<longleftrightarrow> j \<noteq> i \<and> metric_bit (ce_data route) j"
    "rt_nmetrics (ce_data r') = (if metric_bit (ce_data route) i then u8 (rt_nmetrics (ce_data route) - 1) else rt_nmetrics (ce_data route))" for j
    using r k by (auto simp: rtnl_route_unset_metric_def RTAX_MAX_def i_def Let_def metric_bit_iff bit_and_iff bit_not_iff bit_exp_iff split: if_splits)
  have l: "length (rt_metrics (ce_data route)) = 17" and n: "rt_nmetrics (ce_data route) = int (card {i \<in> {..< 17}. metric_bit (ce_data route) i})"
    using ok by (simp_all add: metrics_ok_def Let_def)
  have c: "{j \<in> {..< 17}. metric_bit (ce_data r') j} = {j \<in> {..< 17}. metric_bit (ce_data route) j} - {i}" using d(2) by auto
  have "rt_nmetrics (ce_data r') = int (card {j \<in> {..< 17}. metric_bit (ce_data r') j})"
  proof (cases "metric_bit (ce_data route) i")
    case True
    then have m: "i \<in> {j \<in> {..< 17}. metric_bit (ce_data route) j}" using i(1) by simp
    then have "0 < card {j \<in> {..< 17}. metric_bit (ce_data route) j}" by (auto simp: card_gt_0_iff)
    then show ?thesis using True card_metric_bits [of "metric_bit (ce_data route)"] m unfolding c d(3) n by (simp add: card_Diff_singleton of_nat_diff)
  next
    case False
    then show ?thesis unfolding c d(3) n by simp
  qed
  then have "metrics_ok r'" using l d(1) by (simp add: metrics_ok_def Let_def)
  moreover have "metric_map r' = (metric_map route)(k := None)"
  proof (rule ext)
    fix j
    have "nat (j - 1) = i \<longleftrightarrow> j = k" if "1 \<le> j" using that i(2) by auto
    then show "metric_map r' j = ((metric_map route)(k := None)) j"
      unfolding metric_map_eq d fun_upd_apply by auto
  qed
  ultimately show ?thesis using r by blast
qed

section \<open>Properties\<close>

text \<open>
  C8. The metrics of a route are a map from the numbers 1 to 17 to 32-bit values: setting a metric updates the map at that
  number and nowhere else, removing it makes it undefined there, other numbers are refused by all three functions,
  and \<open>rt_nmetrics\<close> always is the number of metrics that are set.
\<close>

theorem route_metrics_refine_map:
  assumes "metrics_ok route"
  shows "(if 1 \<le> k \<and> k \<le> 17
      then (\<exists>r'. rtnl_route_set_metric route k v = Inr r' \<and> metrics_ok r' \<and> metric_map r' = (metric_map route)(k \<mapsto> u32 v)) \<and>
        (\<exists>r'. rtnl_route_unset_metric route k = Inr r' \<and> metrics_ok r' \<and> metric_map r' = (metric_map route)(k := None))
      else rtnl_route_set_metric route k v = Inl (Err NLE_RANGE) \<and> rtnl_route_unset_metric route k = Inl (Err NLE_RANGE) \<and>
        rtnl_route_get_metric route k = Inl (Err NLE_RANGE)) \<and>
    rt_nmetrics (ce_data route) = int (card (dom (metric_map route)))"
proof -
  have "rt_nmetrics (ce_data route) = int (card (dom (metric_map route)))"
    using assms unfolding dom_metric_map by (simp add: metrics_ok_def Let_def)
  moreover have "rtnl_route_set_metric route k v = Inl (Err NLE_RANGE) \<and> rtnl_route_unset_metric route k = Inl (Err NLE_RANGE) \<and>
      rtnl_route_get_metric route k = Inl (Err NLE_RANGE)" if "\<not> (1 \<le> k \<and> k \<le> 17)"
    using that by (auto simp: rtnl_route_set_metric_def rtnl_route_unset_metric_def rtnl_route_get_metric_def RTAX_MAX_def)
  ultimately show ?thesis using set_metric_step [OF assms] unset_metric_step [OF assms] by simp
qed

definition new_route :: route_obj where
  "new_route = new_object (\<lambda>_. route_obj_ops 0) 0"

lemma new_route_metrics: "metrics_ok new_route" "metric_map new_route = Map.empty"
proof -
  have m: "ce_data new_route = route_constructor zero_route" by (simp add: new_route_def new_object_def route_obj_ops_def)
  have b: "\<not> metric_bit (ce_data new_route) i" for i by (simp add: m route_constructor_def zero_route_def metric_bit_def)
  show "metrics_ok new_route" by (simp add: metrics_ok_def b) (simp add: m route_constructor_def zero_route_def)
  show "metric_map new_route = Map.empty" by (rule ext) (simp add: metric_map_eq b)
qed

theorem route_metrics_refine_map_witness:
  "(\<exists>r'. rtnl_route_set_metric new_route 2 1500 = Inr r' \<and> metrics_ok r' \<and> metric_map r' = [2 \<mapsto> 1500]) \<and>
   rtnl_route_set_metric new_route 18 1 = Inl (Err NLE_RANGE) \<and> rt_nmetrics (ce_data new_route) = 0"
  using route_metrics_refine_map [OF new_route_metrics(1), of 2 1500] route_metrics_refine_map [OF new_route_metrics(1), of 18 1]
  by (simp add: new_route_metrics(2))

text \<open>
  C7. Updates of an IPv6 route outside the local table by notifications that announce or delete a single next hop with a gateway,
  when no allocation fails: after any sequence of them the route has the next hops that result from adding each announced one
  and removing each deleted one that is there, except the last. Equality of next hops is that of their attributes and values; an
  announced one is added with all of them but the values of its realms and its encapsulation, which
  \<open>rtnl_route_nh_clone\<close> does not copy (so that a deletion that names them does not find it). The count of next hops is exact as long as
  it stays below \<open>2 ^ 31 - 1\<close>, and the route keeps its identity, its hash value and its place in a cache.
\<close>

theorem route_collapses_next_hops:
  assumes "nhs_ok route" "\<forall>obj \<in> set evs. nh_event obj" "int (length (rt_nexthops (ce_data route)) + length evs) < 2147483647"
  shows "let r' = fold (\<lambda>new old. snd (route_update True True old new)) evs route in
    nh_keys r' = fold nh_step (map told_by evs) (nh_keys route) \<and> rt_nr_nh (ce_data r') = int (length (nh_keys r')) \<and>
    same_place (\<lambda>_. route_obj_ops addr) route_keyed (route_keygen addr True) r' route"
  using assms
proof (induction evs arbitrary: route)
  case Nil
  then show ?case by (simp add: nhs_ok_def Let_def same_place_def same_key_def)
next
  case (Cons obj evs)
  define r where "r = snd (route_update True True route obj)"
  have o: "nhs_ok route" "nh_event obj" "int (length (rt_nexthops (ce_data route))) < 2147483647" using Cons.prems by auto
  have s: "nhs_ok r" "nh_keys r = nh_step (told_by obj) (nh_keys route)" unfolding r_def by (rule route_update_step [OF o])+
  have p: "same_place (\<lambda>_. route_obj_ops addr) route_keyed (route_keygen addr True) r route"
    unfolding r_def by (rule route_update_keeps)
  have "length (nh_step e ks) \<le> Suc (length ks)" for e ks by (auto simp: nh_step_def length_remove1 split: prod.splits)
  then have "length (nh_keys r) \<le> Suc (length (nh_keys route))" unfolding s(2) by blast
  then have "int (length (rt_nexthops (ce_data r)) + length evs) < 2147483647" using Cons.prems(3) by simp
  then have "let r' = fold (\<lambda>new old. snd (route_update True True old new)) evs r in
      nh_keys r' = fold nh_step (map told_by evs) (nh_keys r) \<and> rt_nr_nh (ce_data r') = int (length (nh_keys r')) \<and>
      same_place (\<lambda>_. route_obj_ops addr) route_keyed (route_keygen addr True) r' r"
    using Cons.IH [OF s(1)] Cons.prems(2) by simp
  then show ?case using p s(2) by (simp add: Let_def r_def [symmetric] same_place_def same_key_def)
qed

text \<open>A route to 2001:db8::/32 with two next hops, of which the first is deleted again.\<close>

definition ip6 :: "byte list \<Rightarrow> int \<Rightarrow> nl_addr" where
  "ip6 bytes plen = \<lparr>a_family = AF_INET6, a_maxsize = 16, a_len = 16, a_prefixlen = plen, a_refcnt = 1,
     a_addr = bytes @ replicate (16 - length bytes) 0\<rparr>"

definition via_route :: "int \<Rightarrow> byte \<Rightarrow> route_obj" where
  "via_route msgtype x = (rtnl_route_add_nexthop (rtnl_route_set_table
     (case rtnl_route_set_dst new_route (ip6 [0x20, 1, 0x0D, 0xB8] 32) of Inr r \<Rightarrow> r | Inl _ \<Rightarrow> new_route) 254)
     (rtnl_route_nh_set_ifindex (rtnl_route_nh_set_gateway new_nexthop (Some (ip6 [0xFE, 0x80, x] 128))) 2))\<lparr>ce_msgtype := msgtype\<rparr>"

theorem route_collapses_next_hops_witness:
  "let r' = fold (\<lambda>new old. snd (route_update True True old new)) [via_route RTM_NEWROUTE 2, via_route RTM_DELROUTE 1] (via_route RTM_NEWROUTE 1) in
    nh_keys r' = nh_keys (via_route RTM_NEWROUTE 2) \<and> rt_nr_nh (ce_data r') = 1 \<and>
    same_place (\<lambda>_. route_obj_ops 0) route_keyed (route_keygen 0 True) r' (via_route RTM_NEWROUTE 1)"
proof -
  have ok: "nhs_ok (via_route RTM_NEWROUTE 1)" "nh_event (via_route RTM_NEWROUTE 2)" "nh_event (via_route RTM_DELROUTE 1)"
    "length (rt_nexthops (ce_data (via_route RTM_NEWROUTE 1))) = 1"
    by code_simp+
  have r: "fold nh_step (map told_by [via_route RTM_NEWROUTE 2, via_route RTM_DELROUTE 1]) (nh_keys (via_route RTM_NEWROUTE 1)) =
      nh_keys (via_route RTM_NEWROUTE 2)" "length (nh_keys (via_route RTM_NEWROUTE 2)) = 1"
    by code_simp+
  have "\<forall>obj \<in> set [via_route RTM_NEWROUTE 2, via_route RTM_DELROUTE 1]. nh_event obj"
    "int (length (rt_nexthops (ce_data (via_route RTM_NEWROUTE 1))) + length [via_route RTM_NEWROUTE 2, via_route RTM_DELROUTE 1]) < 2147483647"
    using ok by simp_all
  note t = route_collapses_next_hops [OF ok(1) this, of 0, unfolded Let_def r(1)]
  then show ?thesis unfolding Let_def using arg_cong [OF conjunct1 [OF t], of length] r(2) by (simp only: simp_thms of_nat_1)
qed

section \<open>Defects\<close>

text \<open>A stack of three labels has 12 bytes, which is taken for the number of the family DECnet; it is refused.\<close>

lemma three_labels_refused:
  "rtnl_route_nh_encap_mpls inet_pton True new_nexthop
     (Some \<lparr>a_family = AF_MPLS, a_maxsize = 12, a_len = 12, a_prefixlen = 20, a_refcnt = 1,
        a_addr = [0, 1, 0, 0, 0, 1, 0x10, 0, 0, 1, 0x21, 0]\<rparr>) 0 = Inl (Err NLE_INVAL)"
  by code_simp

text \<open>The last metric, number 17, is not compared: these two routes are equal.\<close>

lemma last_metric_ignored:
  "case (rtnl_route_set_metric new_route 17 1, rtnl_route_set_metric new_route 17 2) of
     (Inr a, Inr b) \<Rightarrow> route_compare a b 0xFFFFFFFF 0 = 0 | _ \<Rightarrow> False"
  by code_simp

text \<open>A next hop of length 0 in a multipath attribute is added again and again, until no memory is left.\<close>

lemma zero_length_exhausts_memory:
  assumes "get16 buf rtnh = 0" "8 \<le> tlen" "tlen < 18446744073709551616" "rtnh + 8 \<le> blen buf"
  shows "snd (multipath_loop rooms inet_pton al i buf rtnh tlen route) = Inl (Err NLE_NOMEM)"
proof (induction rooms arbitrary: i route)
  case 0
  then show ?case using assms by (subst multipath_loop.simps) simp
next
  case (Suc rooms)
  have "nexthop_at inet_pton (al i) (rt_family (ce_data route)) buf rtnh =
      Inr (Some (rtnl_route_nh_set_flags (rtnl_route_nh_set_ifindex (rtnl_route_nh_set_weight new_nexthop (le_int (rd buf (rtnh + 3) 1)))
        (s32 (get32 buf (rtnh + 4)))) (le_int (rd buf (rtnh + 2) 1))))"
    using assms(1) by (simp add: nexthop_at_def Let_def)
  moreover have "RTNH_ALIGN 0 = 0" by (simp add: RTNH_ALIGN_def)
  ultimately show ?case using assms Suc.IH by (subst multipath_loop.simps) simp
qed

end
