(* ===== verification/Nl_Route_Msg.thy ===== *)
theory Nl_Route_Msg
  imports Nl_Build Nl_Route_Type
begin

unbundle bit_operations_syntax

text \<open>
  Routes on the wire: the bytes that \<open>rtnl_route_build_msg\<close> appends, and what the parser of routes makes of each nest in them, the
  metrics and the next hops.
\<close>

section \<open>Next hops\<close>

text \<open>The attributes of a next hop that has no other destination, no \<open>RTA_VIA\<close> and no encapsulation.\<close>

definition simple_nh :: "rtnl_nexthop \<Rightarrow> bool" where
  "simple_nh nh \<longleftrightarrow>
     nh_newdst nh = None \<and> nh_via nh = None \<and> nh_encap nh = None \<and> (case nh_gateway nh of None \<Rightarrow> True | Some a \<Rightarrow> small_addr a) \<and>
     (\<forall>v \<in> set [nh_flags nh, nh_weight nh]. 0 \<le> v \<and> v < 256) \<and> (\<forall>v \<in> set [nh_ifindex nh, nh_realms nh]. 0 \<le> v \<and> v < 4294967296)"

definition mp_attrs :: "rtnl_nexthop \<Rightarrow> attr list" where
  "mp_attrs nh = opt (nh_gateway nh \<noteq> None) (5, addr_bytes_of (nh_gateway nh)) @ opt (nh_realms nh \<noteq> 0) (11, le_bytes 4 (nh_realms nh))"

definition rtnh_bytes :: "rtnl_nexthop \<Rightarrow> byte list" where
  "rtnh_bytes nh =
     (let as = attrs_bytes (mp_attrs nh) in
      le_bytes 2 (8 + blen as) @ le_bytes 1 (nh_flags nh) @ le_bytes 1 (nh_weight nh) @ le_bytes 4 (nh_ifindex nh) @ as)"

lemma plain_gateway: "simple_nh nh \<Longrightarrow> nh_gateway nh \<noteq> None \<Longrightarrow> \<exists>a. nh_gateway nh = Some a \<and> small_addr a"
  by (auto simp: simple_nh_def)

lemma put_plain:
  assumes "simple_nh nh"
  shows "put_addr_opt 5 (nh_gateway nh) msg = put_attrs (opt (nh_gateway nh \<noteq> None) (5, addr_bytes_of (nh_gateway nh))) msg"
    "put_addr_opt 19 (nh_newdst nh) msg = Inr msg" "put_via_opt (nh_via nh) msg = Inr msg" "put_encap_opt (nh_encap nh) msg = Inr msg"
  using assms put_if_addr [of "nh_gateway nh \<noteq> None" "nh_gateway nh" 5 msg, OF plain_gateway [OF assms]]
  by (simp_all add: simple_nh_def put_addr_opt_def put_via_opt_def put_encap_opt_def) (simp add: put_if_def)

lemma mp_attrs_fit: "simple_nh nh \<Longrightarrow> \<forall>a \<in> set (mp_attrs nh). attr_fits a \<and> blen (snd a) \<le> 64"
  using blen_addr_bytes_of [OF plain_gateway [of nh]] by (auto simp: mp_attrs_def opt_def attr_fits_def)

lemma mp_attrs_length: "simple_nh nh \<Longrightarrow> blen (attrs_bytes (mp_attrs nh)) \<le> 136"
proof -
  assume "simple_nh nh"
  then have "list_all (\<lambda>(t, d). blen d \<le> 64) (mp_attrs nh)" using mp_attrs_fit [of nh] by (auto simp: list_all_iff)
  moreover have "length (mp_attrs nh) \<le> 2" by (simp add: mp_attrs_def opt_def)
  ultimately show ?thesis using blen_attrs_le [of "mp_attrs nh"] by simp
qed

lemma appends_nexthop:
  assumes nh: "simple_nh nh"
  shows "appends (put_mp_nexthop nh) (rtnh_bytes nh)"
proof (rule appendsI)
  show "blen (rtnh_bytes nh) mod 4 = 0"
    using blen_attrs_mod [of "mp_attrs nh"] mod_add_eq [of 8 4 "blen (attrs_bytes (mp_attrs nh))"] by (simp add: rtnh_bytes_def Let_def)
next
  fix n assume n: "wf_msg n" "mlen n mod 4 = 0" "mlen n + blen (rtnh_bytes nh) \<le> nm_size n"
  let ?as = "attrs_bytes (mp_attrs nh)"
  let ?h = "le_bytes 1 (nh_flags nh) @ le_bytes 1 (nh_weight nh) @ le_bytes 4 (nh_ifindex nh)"
  have room: "mlen n + 8 + blen ?as \<le> nm_size n" using n(3) by (simp add: rtnh_bytes_def Let_def)
  obtain n1 where r: "nlmsg_reserve n 8 4 = Some (n1, mlen n)"
    using nlmsg_reserve_None [OF n(1), of 8 4] nlmsg_reserve_Some(2) [OF n(1), of 8 4] room
    by (cases "nlmsg_reserve n 8 4") (fastforce simp: align4_eq)+
  note n1 = nlmsg_reserve_Some [OF n(1) _ _ _ r, simplified align4_eq reserve_tlen_4, simplified]
  let ?n1 = "n1\<lparr>nm_nlh := wr (nm_nlh n1) (mlen n + 2) ?h\<rparr>"
  note b = wf_msgD [OF n(1)] wf_msgD [OF n1(1)] mp_attrs_length [OF nh]
  have m: "mlen ?n1 = mlen n + 8" "mlen ?n1 mod 4 = 0" using b n1 n(2) room mod_add_eq [of "mlen n" 4 8]
    by (simp_all add: nlmsg_hdr_def mem_simps)
  have wf: "wf_msg ?n1" using b n1 m room by (simp add: wf_msg_def mem_simps)
  have fit: "\<forall>a \<in> set (mp_attrs nh). attr_fits a" using mp_attrs_fit [OF nh] by blast
  have "mlen ?n1 + blen ?as \<le> nm_size ?n1" using m n1(4) room by simp
  from appendsD [OF appends_put_attrs [OF fit] wf m(2) this] obtain n2 where n2: "put_attrs (mp_attrs nh) ?n1 = Inr n2" "wf_msg n2"
    "nm_size n2 = nm_size ?n1" "mlen n2 = mlen ?n1 + blen ?as" "mlen n2 mod 4 = 0"
    "rd (nm_nlh n2) 4 (mlen ?n1 - 4) = rd (nm_nlh ?n1) 4 (mlen ?n1 - 4)" "rd (nm_nlh n2) (mlen ?n1) (blen ?as) = ?as" by metis
  note b2 = wf_msgD [OF n2(2)]
  let ?n = "n2\<lparr>nm_nlh := put16 (nm_nlh n2) (mlen n) (8 + blen ?as)\<rparr>"
  have "nlmsg_tail 0 (nlmsg_hdr n2) - mlen n = 8 + blen ?as" using m n2(4) by (simp add: tail_aligned [OF n2(2,5)])
  moreover have "put_mp_nexthop nh n = and_then (put_attrs (mp_attrs nh) ?n1)
      (\<lambda>n'. Inr (n'\<lparr>nm_nlh := put16 (nm_nlh n') (mlen n) (nlmsg_tail 0 (nlmsg_hdr n') - mlen n)\<rparr>))"
    unfolding put_mp_nexthop_def r Let_def put_plain [OF nh] put_if_u32 and_then_simps mp_attrs_def put_attrs_append [symmetric] and_then_assoc
    by simp
  ultimately have r: "put_mp_nexthop nh n = Inr ?n" by (simp only: n2(1) and_then_simps)
  have "rd (nm_nlh ?n1) 4 (mlen n - 4) = rd (nm_nlh n) 4 (mlen n - 4)" "rd (nm_nlh ?n1) (mlen n + 2) 6 = ?h"
    using n1 b room by (simp_all add: mem_simps)
  then have "rd (nm_nlh n2) 4 (mlen n - 4) = rd (nm_nlh n) 4 (mlen n - 4)" "rd (nm_nlh n2) (mlen n + 2) 6 = ?h"
    "rd (nm_nlh n2) (mlen n + 8) (blen ?as) = ?as"
    using rd_inside [OF n2(6), of 4 "mlen n - 4"] rd_inside [OF n2(6), of "mlen n + 2" 6] m n2(7) b by simp_all
  then have new: "rd (nm_nlh ?n) 4 (mlen n - 4) = rd (nm_nlh n) 4 (mlen n - 4)" "rd (nm_nlh ?n) (mlen n) 2 = le_bytes 2 (8 + blen ?as)"
    "rd (nm_nlh ?n) (mlen n + 2) 6 = ?h" "rd (nm_nlh ?n) (mlen n + 8) (blen ?as) = ?as"
    using b b2 m n2(4) by (simp_all add: mem_simps) (simp add: put16_def mem_simps)
  have "rd (nm_nlh ?n) (mlen n) (2 + (6 + blen ?as)) = rtnh_bytes nh"
    using new(2-4) b rd_append_iff [of "mlen n" "nm_nlh ?n" "le_bytes 2 (8 + blen ?as)" "?h @ ?as"]
      rd_append_iff [of "mlen n + 2" "nm_nlh ?n" ?h ?as]
    by (simp add: rtnh_bytes_def Let_def add.commute [of 8 "mlen n"])
  moreover have "mlen ?n = mlen n2" "blen (nm_nlh ?n) = blen (nm_nlh n2)"
    using b b2 m n2(4) by (simp_all add: nlmsg_hdr_def mem_simps)
  ultimately show "\<exists>n'. put_mp_nexthop nh n = Inr n' \<and> wf_msg n' \<and> nm_size n' = nm_size n \<and> mlen n' = mlen n + blen (rtnh_bytes nh) \<and>
      rd (nm_nlh n') 4 (mlen n - 4) = rd (nm_nlh n) 4 (mlen n - 4) \<and> rd (nm_nlh n') (mlen n) (blen (rtnh_bytes nh)) = rtnh_bytes nh"
    using r new(1) n1(3,4) m n2(3,4) b2 by (simp add: wf_msg_def rtnh_bytes_def Let_def)
qed

lemma appends_nexthops:
  "list_all simple_nh nhs \<Longrightarrow> appends (put_mp_nexthops nhs) (concat (map rtnh_bytes nhs))"
proof (induction nhs)
  case Nil
  show ?case using appends_Inr by simp
next
  case (Cons nh nhs)
  then show ?case using appends_then [OF appends_nexthop [of nh] Cons.IH] by simp
qed

section \<open>Requests for routes\<close>

text \<open>The metrics, the next hop of a route that has one, and the next hops of a route that has more.\<close>

definition metric_attrs :: "route_obj \<Rightarrow> int list \<Rightarrow> attr list" where
  "metric_attrs route is = concat (map (\<lambda>i. case rtnl_route_get_metric route i of Inl _ \<Rightarrow> [] | Inr v \<Rightarrow> [(i, le_bytes 4 v)]) is)"

definition own_attrs :: "rtnl_nexthop \<Rightarrow> attr list" where
  "own_attrs nh =
     opt (nh_gateway nh \<noteq> None) (5, addr_bytes_of (nh_gateway nh)) @ opt (nh_ifindex nh \<noteq> 0) (4, le_bytes 4 (nh_ifindex nh)) @
     opt (nh_realms nh \<noteq> 0) (11, le_bytes 4 (nh_realms nh))"

definition nexthop_attrs :: "rtnl_nexthop list \<Rightarrow> attr list" where
  "nexthop_attrs nhs = (case nhs of [] \<Rightarrow> [] | [nh] \<Rightarrow> own_attrs nh | _ \<Rightarrow> [(32768 + 9, concat (map rtnh_bytes nhs))])"

abbreviation has_dst :: "rtnl_route \<Rightarrow> bool" where
  "has_dst r \<equiv> nl_addr_get_len (the (rt_dst r)) \<noteq> 0"

definition route_attr_list :: "route_obj \<Rightarrow> attr list" where
  "route_attr_list tmpl =
     (let r = ce_data tmpl; has = has_attr tmpl in
      opt True (15, le_bytes 4 (rt_table r)) @ opt (has_dst r) (1, addr_bytes_of (rt_dst r)) @
      opt (has ROUTE_ATTR_PRIO) (6, le_bytes 4 (rt_prio r)) @ opt (has ROUTE_ATTR_SRC) (2, addr_bytes_of (rt_src r)) @
      opt (has ROUTE_ATTR_PREF_SRC) (7, addr_bytes_of (rt_pref_src r)) @ opt (has ROUTE_ATTR_IIF) (3, le_bytes 4 (rt_iif r)) @
      opt (has ROUTE_ATTR_TTL_PROPAGATE) (26, le_bytes 1 (rt_ttl_propagate r)) @
      opt (rt_nmetrics r > 0) (32768 + 8, attrs_bytes (metric_attrs tmpl [1 .. RTAX_MAX])) @ nexthop_attrs (rt_nexthops r))"

text \<open>Numbers of their widths, addresses where the mask says so, counters that count, plain next hops.\<close>

definition wf_route :: "route_obj \<Rightarrow> bool" where
  "wf_route route \<longleftrightarrow>
     (let r = ce_data route; there = (\<lambda>x. case x of None \<Rightarrow> False | Some y \<Rightarrow> small_addr y) in
      (rt_family r = AF_INET \<or> rt_family r = AF_INET6) \<and>
      (\<forall>v \<in> set [rt_tos r, rt_protocol r, rt_scope r, rt_type r, rt_ttl_propagate r]. 0 \<le> v \<and> v < 256) \<and>
      (\<forall>v \<in> set [rt_table r, rt_flags r, rt_iif r, rt_prio r]. 0 \<le> v \<and> v < 4294967296) \<and>
      there (rt_dst r) \<and> (has_attr route ROUTE_ATTR_SRC \<longrightarrow> there (rt_src r)) \<and> (has_attr route ROUTE_ATTR_PREF_SRC \<longrightarrow> there (rt_pref_src r)) \<and>
      length (rt_metrics r) = 17 \<and> (\<forall>v \<in> set (rt_metrics r). 0 \<le> v \<and> v < 4294967296) \<and>
      0 \<le> rt_metrics_mask r \<and> rt_metrics_mask r < 2 ^ 17 \<and> rt_nmetrics r = blen (filter (metric_bit r) [0 ..< 17]) \<and>
      list_all simple_nh (rt_nexthops r) \<and> (rt_nexthops r \<noteq> [] \<longrightarrow> has_attr route ROUTE_ATTR_MULTIPATH) \<and>
      rt_nr_nh r = blen (rt_nexthops r) \<and> rt_nr_nh r < 2147483648)"

lemma wf_route_addrs:
  assumes "wf_route route"
  shows "\<exists>x. rt_dst (ce_data route) = Some x \<and> small_addr x"
    "has_attr route ROUTE_ATTR_SRC \<Longrightarrow> \<exists>x. rt_src (ce_data route) = Some x \<and> small_addr x"
    "has_attr route ROUTE_ATTR_PREF_SRC \<Longrightarrow> \<exists>x. rt_pref_src (ce_data route) = Some x \<and> small_addr x"
  using assms by (auto simp: wf_route_def Let_def split: option.splits)

lemma wf_route_nexthops:
  assumes "wf_route route"
  shows "rtnl_route_get_nnexthops route = blen (rt_nexthops (ce_data route))"
    "rt_nexthops (ce_data route) \<noteq> [] \<Longrightarrow> rtnl_route_nexthop_n route 0 = Some (hd (rt_nexthops (ce_data route)))"
  using assms by (auto simp: wf_route_def Let_def has_attr_def rtnl_route_get_nnexthops_def rtnl_route_nexthop_n_def hd_conv_nth)

text \<open>The header.\<close>

definition sent_scope :: "route_obj \<Rightarrow> int" where
  "sent_scope route = (if has_attr route ROUTE_ATTR_SCOPE then rt_scope (ce_data route) else rtnl_route_guess_scope route)"

definition sent_flags :: "rtnl_route \<Rightarrow> int" where
  "sent_flags r = (case rt_nexthops r of [nh] \<Rightarrow> rt_flags r OR nh_flags nh | _ \<Rightarrow> rt_flags r)"

definition addr_plen :: "nl_addr option \<Rightarrow> int" where
  "addr_plen a = (case a of None \<Rightarrow> 0 | Some x \<Rightarrow> nl_addr_get_prefixlen x)"

definition sent_hdr :: "route_obj \<Rightarrow> byte list" where
  "sent_hdr route =
     route_hdr route (addr_plen (rt_dst (ce_data route))) (addr_plen (rt_src (ce_data route))) (sent_scope route) (sent_flags (ce_data route))"

lemma appends_own_nexthop [appends_intros]:
  assumes nh: "simple_nh nh"
  shows "appends (put_own_nexthop nh) (attrs_bytes (own_attrs nh))"
proof -
  have e: "and_then x Inr = x" for x :: "nl_msg res" by (cases x) simp_all
  have "put_own_nexthop nh msg = put_attrs (own_attrs nh) msg" for msg
    unfolding put_own_nexthop_def put_plain [OF nh] put_if_u32 e and_then_simps own_attrs_def put_attrs_append append_assoc ..
  moreover have "\<forall>a \<in> set (own_attrs nh). attr_fits a"
    using blen_addr_bytes_of [OF plain_gateway [OF nh]] by (auto simp: own_attrs_def opt_def attr_fits_def)
  ultimately show ?thesis by (intro appends_eq [OF _ appends_put_attrs])
qed

lemma put_metrics_eq: "put_metrics route is msg = put_attrs (metric_attrs route is) msg"
proof (induction "is" arbitrary: msg)
  case (Cons i "is")
  have ih: "put_metrics route is = (\<lambda>msg. put_attrs (metric_attrs route is) msg)" by (rule ext) (rule Cons)
  show ?case
  proof (cases "rtnl_route_get_metric route i")
    case (Inr v)
    have "metric_attrs route (i # is) = [(i, le_bytes 4 v)] @ metric_attrs route is" by (simp add: metric_attrs_def Inr)
    moreover have "put_or_msgsize (nla_put_u32 msg i v) = put_attrs [(i, le_bytes 4 v)] msg"
      using put_if_u32 [of True i v msg] by (simp add: put_if_def opt_def)
    ultimately show ?thesis by (simp only: put_metrics.simps Inr sum.case ih put_attrs_append)
  qed (simp add: ih metric_attrs_def)
qed (simp add: metric_attrs_def put_or_msgsize_def)

lemma metric_attrs_fit: "\<forall>a \<in> set (metric_attrs route [1 .. RTAX_MAX]). attr_fits a"
  by (auto simp: metric_attrs_def attr_fits_def RTAX_MAX_def split: sum.splits)

lemma appends_metrics: "appends (put_metrics route [1 .. RTAX_MAX]) (attrs_bytes (metric_attrs route [1 .. RTAX_MAX]))"
  by (rule appends_eq [OF put_metrics_eq appends_put_attrs [OF metric_attrs_fit]])

text \<open>What the builder appends, from the header on.\<close>

lemma metric_attrs_nonempty: "metric_attrs tmpl [1 .. RTAX_MAX] = [] \<longleftrightarrow> filter (metric_bit (ce_data tmpl)) [0 ..< 17] = []"
proof -
  have "metric_attrs tmpl [1 .. RTAX_MAX] = [] \<longleftrightarrow> (\<forall>i \<in> {1 .. 17}. \<not> metric_bit (ce_data tmpl) (nat (i - 1)))"
    by (auto simp: metric_attrs_def rtnl_route_get_metric_def RTAX_MAX_def split: sum.splits if_splits)
  also have "\<dots> \<longleftrightarrow> (\<forall>k \<in> {..< 17}. \<not> metric_bit (ce_data tmpl) k)"
  proof (intro iffI ballI)
    fix k :: nat assume "\<forall>i \<in> {1 .. 17}. \<not> metric_bit (ce_data tmpl) (nat (i - 1))" "k \<in> {..< 17}"
    then show "\<not> metric_bit (ce_data tmpl) k" by (drule_tac bspec [of _ _ "int k + 1"]) auto
  qed auto
  also have "\<dots> \<longleftrightarrow> filter (metric_bit (ce_data tmpl)) [0 ..< 17] = []" by (auto simp: filter_empty_conv)
  finally show ?thesis .
qed

lemma appends_metrics_nest [appends_intros]:
  assumes n: "rt_nmetrics (ce_data tmpl) = blen (filter (metric_bit (ce_data tmpl)) [0 ..< 17])"
    and short: "0 < rt_nmetrics (ce_data tmpl) \<Longrightarrow> blen (attrs_bytes (metric_attrs tmpl [1 .. RTAX_MAX])) \<le> 65531"
  shows "appends (put_if (rt_nmetrics (ce_data tmpl) > 0) (put_nest 8 (put_metrics tmpl [1 .. RTAX_MAX])))
    (attrs_bytes (opt (rt_nmetrics (ce_data tmpl) > 0) (32768 + 8, attrs_bytes (metric_attrs tmpl [1 .. RTAX_MAX]))))"
proof -
  have e: "attrs_bytes (opt b a) = (if b then attr_bytes a else [])" for b a by (simp add: opt_def)
  have "attrs_bytes as \<noteq> []" if "as \<noteq> []" for as :: "attr list" using that by (cases as) (auto simp: attr_bytes_def numeral_eq_Suc)
  then show ?thesis
    unfolding e using n metric_attrs_nonempty [of tmpl] short by (intro appends_if appends_nest appends_metrics) auto
qed

definition put_nexthops :: "rtnl_nexthop list \<Rightarrow> nl_msg \<Rightarrow> nl_msg res" where
  "put_nexthops nhs msg =
     (case nhs of [] \<Rightarrow> Inr msg | [nh] \<Rightarrow> put_own_nexthop nh msg | _ \<Rightarrow> put_nest 9 (put_mp_nexthops nhs) msg)"

lemma appends_put_nexthops [appends_intros]:
  assumes nhs: "list_all simple_nh nhs" and short: "blen (attrs_bytes (nexthop_attrs nhs)) \<le> 65531"
  shows "appends (put_nexthops nhs) (attrs_bytes (nexthop_attrs nhs))"
proof (cases nhs rule: remdups_adj.cases)
  case 1
  then show ?thesis using appends_Inr by (simp add: put_nexthops_def [abs_def] nexthop_attrs_def)
next
  case (2 nh)
  then show ?thesis using appends_own_nexthop [of nh] nhs by (simp add: put_nexthops_def [abs_def] nexthop_attrs_def)
next
  case (3 a b xs)
  let ?bs = "concat (map rtnh_bytes nhs)"
  have e: "nexthop_attrs nhs = [(32768 + 9, ?bs)]" "put_nexthops nhs = put_nest 9 (put_mp_nexthops nhs)"
    by (simp_all add: 3 nexthop_attrs_def put_nexthops_def [abs_def])
  have "?bs \<noteq> []" by (simp add: 3 rtnh_bytes_def Let_def numeral_eq_Suc)
  moreover have "blen ?bs \<le> 65531" using short align4_ge [of "blen ?bs"] by (simp add: e)
  ultimately show ?thesis unfolding e using appends_nest [OF appends_nexthops [OF nhs], of 9] by simp
qed

lemma route_build_eq:
  assumes wf: "wf_route tmpl"
  defines "r \<equiv> ce_data tmpl" and "has \<equiv> has_attr tmpl"
  shows "rtnl_route_build_msg msg tmpl =
    and_then (put_or_msgsize (nlmsg_append msg (sent_hdr tmpl) 4)) (\<lambda>msg.
    and_then (put_if True (\<lambda>msg. put_or_msgsize (nla_put_u32 msg 15 (rt_table r))) msg) (\<lambda>msg.
    and_then (put_if (has_dst r) (\<lambda>msg. NLA_PUT_ADDR msg 1 (rt_dst r)) msg) (\<lambda>msg.
    and_then (put_if (has ROUTE_ATTR_PRIO) (\<lambda>msg. put_or_msgsize (nla_put_u32 msg 6 (rt_prio r))) msg) (\<lambda>msg.
    and_then (put_if (has ROUTE_ATTR_SRC) (\<lambda>msg. NLA_PUT_ADDR msg 2 (rt_src r)) msg) (\<lambda>msg.
    and_then (put_if (has ROUTE_ATTR_PREF_SRC) (\<lambda>msg. NLA_PUT_ADDR msg 7 (rt_pref_src r)) msg) (\<lambda>msg.
    and_then (put_if (has ROUTE_ATTR_IIF) (\<lambda>msg. put_or_msgsize (nla_put_u32 msg 3 (rt_iif r))) msg) (\<lambda>msg.
    and_then (put_if (has ROUTE_ATTR_TTL_PROPAGATE) (\<lambda>msg. put_or_msgsize (nla_put_u8 msg 26 (rt_ttl_propagate r))) msg) (\<lambda>msg.
    and_then (put_if (rt_nmetrics r > 0) (put_nest 8 (put_metrics tmpl [1 .. RTAX_MAX])) msg)
      (put_nexthops (rt_nexthops r))))))))))"
proof -
  obtain dst where dst: "rt_dst r = Some dst" using wf_route_addrs(1) [OF wf] unfolding r_def by blast
  have fam: "rt_family r \<noteq> AF_MPLS" using wf by (auto simp: r_def wf_route_def Let_def AF_INET_def AF_INET6_def AF_MPLS_def)
  note n = wf_route_nexthops [OF wf, folded r_def]
  note d = rtnl_route_build_msg_def Let_def put_nexthops_def [abs_def] sent_hdr_def sent_flags_def sent_scope_def addr_plen_def has_attr_def has_def
  show ?thesis
  proof (cases "rt_nexthops r" rule: remdups_adj.cases)
    case 1
    then show ?thesis using n(1) fam by (simp only: d r_def [symmetric] dst) (simp add: 1 dst)
  next
    case (2 nh)
    then show ?thesis using n fam by (simp only: d r_def [symmetric] dst) (simp add: 2 dst)
  next
    case (3 a b xs)
    then show ?thesis using n fam by (simp only: d r_def [symmetric] dst) (simp add: 3 dst)
  qed
qed

text \<open>Neither nest is longer than the whole.\<close>

lemma route_nests_short:
  assumes short: "blen (attrs_bytes (route_attr_list tmpl)) \<le> 65531"
  shows "0 < rt_nmetrics (ce_data tmpl) \<Longrightarrow> blen (attrs_bytes (metric_attrs tmpl [1 .. RTAX_MAX])) \<le> 65531"
    "blen (attrs_bytes (nexthop_attrs (rt_nexthops (ce_data tmpl)))) \<le> 65531"
    "1 < length (rt_nexthops (ce_data tmpl)) \<Longrightarrow> blen (concat (map rtnh_bytes (rt_nexthops (ce_data tmpl)))) \<le> 65531"
proof -
  let ?bs = "concat (map rtnh_bytes (rt_nexthops (ce_data tmpl)))"
  show "blen (attrs_bytes (metric_attrs tmpl [1 .. RTAX_MAX])) \<le> 65531" if "0 < rt_nmetrics (ce_data tmpl)"
    using short that align4_ge [of "blen (attrs_bytes (metric_attrs tmpl [1 .. RTAX_MAX]))"] align4_ge [of 4]
    by (simp add: route_attr_list_def Let_def opt_def)
  show l: "blen (attrs_bytes (nexthop_attrs (rt_nexthops (ce_data tmpl)))) \<le> 65531"
    using short by (simp add: route_attr_list_def Let_def)
  show "blen ?bs \<le> 65531" if "1 < length (rt_nexthops (ce_data tmpl))"
  proof -
    have "nexthop_attrs (rt_nexthops (ce_data tmpl)) = [(32768 + 9, ?bs)]"
      using that by (cases "rt_nexthops (ce_data tmpl)" rule: remdups_adj.cases) (simp_all add: nexthop_attrs_def)
    then show ?thesis using l align4_ge [of "blen ?bs"] by simp
  qed
qed

lemma appends_route:
  assumes wf: "wf_route tmpl" and short: "blen (attrs_bytes (route_attr_list tmpl)) \<le> 65531"
  shows "appends (\<lambda>msg. rtnl_route_build_msg msg tmpl) (sent_hdr tmpl @ attrs_bytes (route_attr_list tmpl))"
proof -
  let ?r = "ce_data tmpl"
  have sim: "list_all simple_nh (rt_nexthops ?r)" and n: "rt_nmetrics ?r = blen (filter (metric_bit ?r) [0 ..< 17])"
    using wf by (auto simp: wf_route_def Let_def)
  have h: "blen (sent_hdr tmpl) mod 4 = 0" by (simp add: sent_hdr_def route_hdr_def Let_def)
  show ?thesis
    unfolding route_build_eq [OF wf] route_attr_list_def Let_def attrs_bytes_simps
    using route_nests_short [OF short] by (intro appends_intros appends_hdr h sim n wf_route_addrs [OF wf]) auto
qed

section \<open>The attributes seen by the parser\<close>

text \<open>The next hop of a route, if it has one only.\<close>

definition own_nh :: "rtnl_route \<Rightarrow> rtnl_nexthop" where
  "own_nh r = (case rt_nexthops r of [nh] \<Rightarrow> nh | _ \<Rightarrow> new_nexthop)"

abbreviation many_nh :: "rtnl_route \<Rightarrow> bool" where
  "many_nh r \<equiv> 1 < length (rt_nexthops r)"

definition seen_attrs :: "route_obj \<Rightarrow> attr list" where
  "seen_attrs tmpl =
     (let r = ce_data tmpl; has = has_attr tmpl; nh = own_nh r in
      opt True (15, le_bytes 4 (rt_table r)) @ opt (has_dst r) (1, addr_bytes_of (rt_dst r)) @
      opt (has ROUTE_ATTR_PRIO) (6, le_bytes 4 (rt_prio r)) @ opt (has ROUTE_ATTR_SRC) (2, addr_bytes_of (rt_src r)) @
      opt (has ROUTE_ATTR_PREF_SRC) (7, addr_bytes_of (rt_pref_src r)) @ opt (has ROUTE_ATTR_IIF) (3, le_bytes 4 (rt_iif r)) @
      opt (has ROUTE_ATTR_TTL_PROPAGATE) (26, le_bytes 1 (rt_ttl_propagate r)) @
      opt (rt_nmetrics r > 0) (8, attrs_bytes (metric_attrs tmpl [1 .. RTAX_MAX])) @
      opt (nh_gateway nh \<noteq> None) (5, addr_bytes_of (nh_gateway nh)) @ opt (nh_ifindex nh \<noteq> 0) (4, le_bytes 4 (nh_ifindex nh)) @
      opt (nh_realms nh \<noteq> 0) (11, le_bytes 4 (nh_realms nh)) @ opt (many_nh r) (9, concat (map rtnh_bytes (rt_nexthops r))))"

lemma base_types_append: "base_types (as @ bs) = base_types as @ base_types bs" "base_types (opt b (t, d)) = opt b (t mod 16384, d)"
  by (simp_all add: base_types_def opt_def)

lemma base_types_nexthops:
  "base_types (nexthop_attrs (rt_nexthops r)) = (let nh = own_nh r in
     opt (nh_gateway nh \<noteq> None) (5, addr_bytes_of (nh_gateway nh)) @ opt (nh_ifindex nh \<noteq> 0) (4, le_bytes 4 (nh_ifindex nh)) @
     opt (nh_realms nh \<noteq> 0) (11, le_bytes 4 (nh_realms nh)) @ opt (many_nh r) (9, concat (map rtnh_bytes (rt_nexthops r))))"
proof (cases "rt_nexthops r" rule: remdups_adj.cases)
  case 1
  then show ?thesis by (simp add: nexthop_attrs_def own_nh_def new_nexthop_def opt_def base_types_def)
next
  case (2 nh)
  then show ?thesis by (simp add: nexthop_attrs_def own_nh_def own_attrs_def base_types_append Let_def) (simp add: opt_def)
next
  case (3 a b xs)
  then show ?thesis by (simp add: nexthop_attrs_def own_nh_def new_nexthop_def) (simp add: opt_def base_types_def)
qed

lemma base_types_route: "base_types (route_attr_list tmpl) = seen_attrs tmpl"
  unfolding route_attr_list_def seen_attrs_def Let_def base_types_append base_types_nexthops append_assoc by simp

lemma own_nh_simple: "list_all simple_nh (rt_nexthops r) \<Longrightarrow> simple_nh (own_nh r)"
proof -
  have n: "simple_nh new_nexthop" by (simp add: simple_nh_def new_nexthop_def)
  assume "list_all simple_nh (rt_nexthops r)"
  then show ?thesis using n by (cases "rt_nexthops r" rule: remdups_adj.cases) (simp_all add: own_nh_def)
qed

lemma seen_attrs_distinct: "distinct (map fst (seen_attrs tmpl))"
  unfolding seen_attrs_def Let_def distinct_opt fst_opt by (simp add: distinct_opt(2))

lemma route_policy_nth:
  "\<forall>t \<in> {Suc 0, 2, 5, 7, 15}. route_policy ! t = \<lparr>pol_type = 0, pol_minlen = 0, pol_maxlen = 0\<rparr>"
  "\<forall>t \<in> {3, 4, 6, 11}. route_policy ! t = \<lparr>pol_type = 3, pol_minlen = 0, pol_maxlen = 0\<rparr>"
  "\<forall>t \<in> {8, 9}. route_policy ! t = \<lparr>pol_type = 8, pol_minlen = 0, pol_maxlen = 0\<rparr>"
  "route_policy ! 26 = \<lparr>pol_type = 1, pol_minlen = 0, pol_maxlen = 0\<rparr>"
  by code_simp+

lemmas attr_type_defs = NLA_TYPE_MAX_def NLA_U8_def NLA_U16_def NLA_U32_def NLA_U64_def NLA_STRING_def NLA_FLAG_def

lemma seen_attrs_known: "list_all (\<lambda>(t, d). t \<le> RTA_MAX \<and> payload_ok (route_policy ! nat t) d) (seen_attrs tmpl)"
  unfolding seen_attrs_def Let_def list_all_opt prod.case
  by (simp add: route_policy_nth payload_ok_def nla_attr_minlen_def RTA_MAX_def attr_type_defs split del: if_split)

lemma route_attrs_fit:
  assumes wf: "wf_route tmpl" and short: "blen (attrs_bytes (route_attr_list tmpl)) \<le> 65531"
  shows "\<forall>a \<in> set (route_attr_list tmpl). attr_fits a"
proof -
  have l: "blen (attr_bytes a) \<le> blen (attrs_bytes as)" if "a \<in> set as" for a and as :: "attr list"
    using that
  proof (induction as)
    case (Cons b as)
    then show ?case using align4_ge [of "blen (snd b)"] by auto
  qed simp
  have "blen (snd a) \<le> 65531" if "a \<in> set (route_attr_list tmpl)" for a
    using l [OF that] short align4_ge [of "blen (snd a)"] by simp
  moreover have "list_all (\<lambda>(t, _). 0 \<le> t \<and> t < 65536) (nexthop_attrs nhs)" for nhs
    by (cases nhs rule: remdups_adj.cases) (simp_all add: nexthop_attrs_def own_attrs_def list_all_opt)
  then have "list_all (\<lambda>(t, _). 0 \<le> t \<and> t < 65536) (route_attr_list tmpl)" by (simp add: route_attr_list_def Let_def list_all_opt)
  ultimately show ?thesis by (auto simp: attr_fits_def list_all_iff)
qed

lemma route_entries:
  assumes "\<And>t. int t \<le> RTA_MAX \<Longrightarrow> entry_is buf (tb ! t) (map_of (seen_attrs tmpl) (int t))"
  defines "r \<equiv> ce_data tmpl" and "has \<equiv> has_attr tmpl" and "nh \<equiv> own_nh (ce_data tmpl)"
  shows "entry_is buf (tb ! 15) (Some (le_bytes 4 (rt_table r)))"
    "entry_is buf (tb ! 1) (if has_dst r then Some (addr_bytes_of (rt_dst r)) else None)"
    "entry_is buf (tb ! 6) (if has ROUTE_ATTR_PRIO then Some (le_bytes 4 (rt_prio r)) else None)"
    "entry_is buf (tb ! 2) (if has ROUTE_ATTR_SRC then Some (addr_bytes_of (rt_src r)) else None)"
    "entry_is buf (tb ! 7) (if has ROUTE_ATTR_PREF_SRC then Some (addr_bytes_of (rt_pref_src r)) else None)"
    "entry_is buf (tb ! 3) (if has ROUTE_ATTR_IIF then Some (le_bytes 4 (rt_iif r)) else None)"
    "entry_is buf (tb ! 26) (if has ROUTE_ATTR_TTL_PROPAGATE then Some (le_bytes 1 (rt_ttl_propagate r)) else None)"
    "entry_is buf (tb ! 8) (if rt_nmetrics r > 0 then Some (attrs_bytes (metric_attrs tmpl [1 .. RTAX_MAX])) else None)"
    "entry_is buf (tb ! 5) (if nh_gateway nh \<noteq> None then Some (addr_bytes_of (nh_gateway nh)) else None)"
    "entry_is buf (tb ! 4) (if nh_ifindex nh \<noteq> 0 then Some (le_bytes 4 (nh_ifindex nh)) else None)"
    "entry_is buf (tb ! 11) (if nh_realms nh \<noteq> 0 then Some (le_bytes 4 (nh_realms nh)) else None)"
    "entry_is buf (tb ! 9) (if many_nh r then Some (concat (map rtnh_bytes (rt_nexthops r))) else None)"
    "entry_is buf (tb ! 12) None" "entry_is buf (tb ! 19) None" "entry_is buf (tb ! 18) None" "entry_is buf (tb ! 21) None"
proof -
  have m: "map_of (opt b (t, d)) k = (if b \<and> k = t then Some d else None)" for b t d k by (simp add: opt_def)
  note e = assms(1) [unfolded seen_attrs_def Let_def map_of_opt m RTA_MAX_def, folded r_def has_def nh_def]
  show "entry_is buf (tb ! 15) (Some (le_bytes 4 (rt_table r)))"
    "entry_is buf (tb ! 1) (if has_dst r then Some (addr_bytes_of (rt_dst r)) else None)"
    "entry_is buf (tb ! 6) (if has ROUTE_ATTR_PRIO then Some (le_bytes 4 (rt_prio r)) else None)"
    "entry_is buf (tb ! 2) (if has ROUTE_ATTR_SRC then Some (addr_bytes_of (rt_src r)) else None)"
    using e [of 15] e [of 1] e [of 6] e [of 2] by (simp_all cong del: if_weak_cong)
  show "entry_is buf (tb ! 7) (if has ROUTE_ATTR_PREF_SRC then Some (addr_bytes_of (rt_pref_src r)) else None)"
    "entry_is buf (tb ! 3) (if has ROUTE_ATTR_IIF then Some (le_bytes 4 (rt_iif r)) else None)"
    "entry_is buf (tb ! 26) (if has ROUTE_ATTR_TTL_PROPAGATE then Some (le_bytes 1 (rt_ttl_propagate r)) else None)"
    "entry_is buf (tb ! 8) (if rt_nmetrics r > 0 then Some (attrs_bytes (metric_attrs tmpl [1 .. RTAX_MAX])) else None)"
    using e [of 7] e [of 3] e [of 26] e [of 8] by (simp_all add: RTAX_MAX_def cong del: if_weak_cong)
  show "entry_is buf (tb ! 5) (if nh_gateway nh \<noteq> None then Some (addr_bytes_of (nh_gateway nh)) else None)"
    "entry_is buf (tb ! 4) (if nh_ifindex nh \<noteq> 0 then Some (le_bytes 4 (nh_ifindex nh)) else None)"
    "entry_is buf (tb ! 11) (if nh_realms nh \<noteq> 0 then Some (le_bytes 4 (nh_realms nh)) else None)"
    "entry_is buf (tb ! 9) (if many_nh r then Some (concat (map rtnh_bytes (rt_nexthops r))) else None)"
    using e [of 5] e [of 4] e [of 11] e [of 9] by (simp_all cong del: if_weak_cong)
  show "entry_is buf (tb ! 12) None" "entry_is buf (tb ! 19) None" "entry_is buf (tb ! 18) None" "entry_is buf (tb ! 21) None"
    using e [of 12] e [of 19] e [of 18] e [of 21] by (simp_all cong del: if_weak_cong)
qed

section \<open>Metrics\<close>

text \<open>The payload of a nested attribute, parsed without a policy.\<close>

lemma reads_inside:
  assumes "reads buf p d" "d \<noteq> []"
  shows "p + 4 + blen d \<le> blen buf"
proof -
  have p: "0 \<le> p" "blen (rd buf (p + 4) (blen d)) = blen d" using assms(1) by (simp_all add: reads_def)
  have "length d \<le> length buf - nat (p + 4)" using p(2) by (simp add: rd_def min_def split: if_splits)
  moreover have "0 < length d" using assms(2) by simp
  ultimately show ?thesis using p(1) by linarith
qed

lemma parse_nested_reads:
  assumes r: "reads buf p (attrs_bytes as)" and fits: "\<forall>a \<in> set as. attr_fits a \<and> fst a \<le> maxtype" "distinct (map fst as)"
    and len: "blen (attrs_bytes as) \<le> 65531" "0 \<le> maxtype" "maxtype < 16384" and ne: "as \<noteq> []"
  obtains tb where "nla_parse_nested maxtype buf p None = (tb, Inr ())"
    "\<And>t. int t \<le> maxtype \<Longrightarrow> entry_is buf (tb ! t) (map_of as (int t))"
proof -
  have d: "0 \<le> p" "nla_len buf p = blen (attrs_bytes as)" "rd buf (p + 4) (blen (attrs_bytes as)) = attrs_bytes as"
    using r by (simp_all add: reads_def)
  have l: "blen (attrs_bytes as) \<le> STREAM_MAX" using len(1) by (simp add: STREAM_MAX_def)
  have "attrs_bytes as \<noteq> []" using ne by (cases as) (auto simp: attr_bytes_def numeral_eq_Suc)
  note inside = reads_inside [OF r this]
  have f: "\<forall>a \<in> set as. attr_fits a" and kn: "\<forall>(t, d) \<in> set as. t \<le> maxtype" using fits(1) by auto
  have bt: "base_types as = as" using fits(1) len(3) by (intro base_types_id) (auto simp: attr_fits_def)
  note n = nla_list_attrs_bytes [OF d(3) f _ l]
  obtain tb where "nla_parse maxtype buf (p + 4) (blen (attrs_bytes as)) None = (tb, Inr ())"
    "\<And>t. int t \<le> maxtype \<Longrightarrow> entry_is buf (tb ! t) (map_of (base_types as) (int t))"
    using nla_parse_list [OF l _ _ n, of maxtype None] d(1) inside len(2) fits bt kn by auto
  then show ?thesis using that d(2) bt by (simp add: nla_parse_nested_def)
qed

lemma metric_attrs_map:
  assumes "1 \<le> k" "k \<le> 17"
  shows "map_of (metric_attrs route [1 .. RTAX_MAX]) k =
    (if metric_bit (ce_data route) (nat (k - 1)) then Some (le_bytes 4 (rt_metrics (ce_data route) ! nat (k - 1))) else None)"
proof -
  have "map_of (metric_attrs route is) k = (if k \<in> set is then map_option (le_bytes 4) (metric_map route k) else None)" for "is"
    by (induction "is") (auto simp: metric_attrs_def metric_map_def split: sum.splits)
  then show ?thesis using assms by (simp add: metric_map_eq RTAX_MAX_def)
qed

lemma metric_attrs_distinct: "distinct (map fst (metric_attrs route [1 .. RTAX_MAX]))"
proof -
  have i: "fst ` set (metric_attrs route is) \<subseteq> set is" for "is" by (auto simp: metric_attrs_def split: sum.splits)
  have "distinct (map fst (metric_attrs route is))" if "distinct is" for "is"
    using that
  proof (induction "is")
    case (Cons k "is")
    then show ?case using i [of "is"] by (auto simp: metric_attrs_def split: sum.splits)
  qed (simp add: metric_attrs_def)
  then show ?thesis by simp
qed

text \<open>The first \<open>k\<close> metrics of \<open>r\<close>, stored in a route without metrics.\<close>

definition first_metrics :: "rtnl_route \<Rightarrow> nat \<Rightarrow> route_obj \<Rightarrow> route_obj" where
  "first_metrics r k obj =
     obj\<lparr>ce_data := (ce_data obj)\<lparr>rt_metrics := map (\<lambda>i. if i < k \<and> metric_bit r i then rt_metrics r ! i else 0) [0 ..< 17],
           rt_metrics_mask := take_bit k (rt_metrics_mask r), rt_nmetrics := blen (filter (metric_bit r) [0 ..< k])\<rparr>,
         ce_mask := ce_mask obj OR (if filter (metric_bit r) [0 ..< k] \<noteq> [] then ROUTE_ATTR_METRICS else 0)\<rparr>"

lemma first_metrics_Suc:
  assumes k: "k < 17" and v: "0 \<le> rt_metrics r ! k" "rt_metrics r ! k < 4294967296"
  shows "metric_bit r k \<Longrightarrow> rtnl_route_set_metric (first_metrics r k obj) (int k + 1) (rt_metrics r ! k) = Inr (first_metrics r (Suc k) obj)"
    "\<not> metric_bit r k \<Longrightarrow> first_metrics r (Suc k) obj = first_metrics r k obj"
proof -
  assume b: "metric_bit r k"
  have nb: "\<not> metric_bit (ce_data (first_metrics r k obj)) k" by (simp add: metric_bit_iff first_metrics_def bit_take_bit_iff)
  have m: "take_bit k (rt_metrics_mask r) OR 2 ^ k = take_bit (Suc k) (rt_metrics_mask r)"
    using b by (intro bit_eqI) (auto simp: metric_bit_iff bit_simps less_Suc_eq)
  have l: "(map (\<lambda>i. if i < k \<and> metric_bit r i then rt_metrics r ! i else 0) [0 ..< 17])[k := rt_metrics r ! k] =
      map (\<lambda>i. if i < Suc k \<and> metric_bit r i then rt_metrics r ! i else 0) [0 ..< 17]"
    using k b by (intro nth_equalityI) (auto simp: nth_list_update less_Suc_eq)
  have f: "length (filter (metric_bit r) [0 ..< k]) < 17" using k length_filter_le [of "metric_bit r" "[0 ..< k]"] by simp
  then have c: "u8 (blen (filter (metric_bit r) [0 ..< k]) + 1) = blen (filter (metric_bit r) [0 ..< Suc k])" using b by simp
  show "rtnl_route_set_metric (first_metrics r k obj) (int k + 1) (rt_metrics r ! k) = Inr (first_metrics r (Suc k) obj)"
    using k b v nb m l c unfolding rtnl_route_set_metric_def
    by (simp add: RTAX_MAX_def Let_def) (simp add: first_metrics_def or.assoc)
next
  assume b: "\<not> metric_bit r k"
  then have "take_bit (Suc k) (rt_metrics_mask r) = take_bit k (rt_metrics_mask r)"
    by (intro bit_eqI) (auto simp: metric_bit_iff bit_simps less_Suc_eq)
  moreover have "map (\<lambda>i. if i < Suc k \<and> metric_bit r i then rt_metrics r ! i else 0) [0 ..< 17] =
      map (\<lambda>i. if i < k \<and> metric_bit r i then rt_metrics r ! i else 0) [0 ..< 17]"
    using b by (intro map_cong) (auto simp: less_Suc_eq)
  ultimately show "first_metrics r (Suc k) obj = first_metrics r k obj" using b by (simp add: first_metrics_def del: upt_Suc) (simp add: b)
qed

lemma metrics_loop_reads:
  assumes e: "\<And>t. 1 \<le> t \<Longrightarrow> t \<le> 17 \<Longrightarrow>
      entry_is buf (mtb ! t) (if metric_bit r (t - 1) then Some (le_bytes 4 (rt_metrics r ! (t - 1))) else None)"
    and v: "\<And>k. k < 17 \<Longrightarrow> 0 \<le> rt_metrics r ! k \<and> rt_metrics r ! k < 4294967296" and k: "k \<le> 17"
  shows "metrics_loop buf mtb [int k + 1 .. RTAX_MAX] (first_metrics r k obj) = Inr (first_metrics r 17 obj)"
  using k
proof (induction k rule: inc_induct)
  case base
  show ?case by (simp add: RTAX_MAX_def)
next
  case (step k)
  have u: "[int k + 1 .. RTAX_MAX] = (int k + 1) # [int (Suc k) + 1 .. RTAX_MAX]"
    using step.hyps by (subst upto.simps) (simp add: RTAX_MAX_def add.commute)
  have t: "nat (int k + 1) = Suc k" by simp
  have e: "entry_is buf (mtb ! Suc k) (if metric_bit r k then Some (le_bytes 4 (rt_metrics r ! k)) else None)"
    using e [of "Suc k"] step.hyps by (simp cong del: if_weak_cong)
  note f = first_metrics_Suc [of k r obj] v [of k] step.hyps
  show ?case
  proof (cases "metric_bit r k")
    case True
    then obtain p where p: "mtb ! Suc k = Some p" "reads buf p (le_bytes 4 (rt_metrics r ! k))" using e by (auto simp: entry_is_def)
    then have "nla_get_u32 buf p = rt_metrics r ! k" "nla_len buf p = 4" using reads_u32 [OF p(2)] f by (simp_all add: reads_def)
    then show ?thesis using True step.IH f p(1) unfolding u by (simp add: t)
  next
    case False
    then show ?thesis using e step.IH f unfolding u by (simp add: t entry_is_def)
  qed
qed

lemma metrics_attr_reads:
  assumes e: "entry_is buf e (if rt_nmetrics (ce_data tmpl) > 0 then Some (attrs_bytes (metric_attrs tmpl [1 .. RTAX_MAX])) else None)"
    and wf: "wf_route tmpl" and len: "0 < rt_nmetrics (ce_data tmpl) \<Longrightarrow> blen (attrs_bytes (metric_attrs tmpl [1 .. RTAX_MAX])) \<le> 65531"
    and obj: "rt_metrics (ce_data obj) = replicate 17 0" "rt_metrics_mask (ce_data obj) = 0" "rt_nmetrics (ce_data obj) = 0"
  shows "opt_attr e (metrics_attr buf) obj = Inr (first_metrics (ce_data tmpl) 17 obj)"
proof -
  let ?r = "ce_data tmpl" and ?as = "metric_attrs tmpl [1 .. RTAX_MAX]"
  have n: "rt_nmetrics ?r = blen (filter (metric_bit ?r) [0 ..< 17])" and l: "length (rt_metrics ?r) = 17"
    and v: "\<And>x. x \<in> set (rt_metrics ?r) \<Longrightarrow> 0 \<le> x \<and> x < 4294967296"
    using wf by (auto simp: wf_route_def Let_def)
  have z: "(map (\<lambda>i. 0) [0 ..< 17] :: int list) = replicate 17 0" by (simp add: map_replicate_const)
  show ?thesis
  proof (cases "0 < rt_nmetrics ?r")
    case True
    then obtain p where p: "e = Some p" "reads buf p (attrs_bytes ?as)" using e by (auto simp: entry_is_def)
    have ne: "?as \<noteq> []" using True n metric_attrs_nonempty [of tmpl] by auto
    have fit: "\<forall>a \<in> set ?as. attr_fits a \<and> fst a \<le> RTAX_MAX"
      using metric_attrs_fit [of tmpl] by (auto simp: metric_attrs_def split: sum.splits)
    obtain mtb where m: "nla_parse_nested RTAX_MAX buf p None = (mtb, Inr ())"
      "\<And>t. int t \<le> RTAX_MAX \<Longrightarrow> entry_is buf (mtb ! t) (map_of ?as (int t))"
      using parse_nested_reads [OF p(2) fit metric_attrs_distinct len [OF True] _ _ ne] by (auto simp: RTAX_MAX_def)
    have "entry_is buf (mtb ! t) (if metric_bit ?r (t - 1) then Some (le_bytes 4 (rt_metrics ?r ! (t - 1))) else None)"
      if "1 \<le> t" "t \<le> 17" for t
      using m(2) [of t] metric_attrs_map [of "int t" tmpl] that by (simp add: RTAX_MAX_def nat_diff_distrib' cong del: if_weak_cong)
    moreover have "first_metrics ?r 0 obj = obj" using obj z by (simp add: first_metrics_def)
    ultimately show ?thesis
      using metrics_loop_reads [of buf mtb ?r 0 obj] v l by (simp add: p(1) metrics_attr_def m(1))
  next
    case False
    then have f: "\<And>i. i < 17 \<Longrightarrow> \<not> metric_bit ?r i" using n by (auto simp: filter_empty_conv)
    have "take_bit 17 (rt_metrics_mask ?r) = 0" using f by (intro bit_eqI) (auto simp: metric_bit_iff bit_take_bit_iff)
    moreover have "(map (\<lambda>i. if i < 17 \<and> metric_bit ?r i then rt_metrics ?r ! i else 0) [0 ..< 17]) = replicate 17 0"
      unfolding z [symmetric] using f by (intro map_cong) auto
    moreover have "filter (metric_bit ?r) [0 ..< 17] = []" using f by (simp add: filter_empty_conv)
    ultimately have "first_metrics ?r 17 obj = obj" using obj unfolding first_metrics_def by simp
    then show ?thesis using e False by (simp add: entry_is_def)
  qed
qed

section \<open>Multipath attributes\<close>

definition sent_gateway :: "int \<Rightarrow> rtnl_nexthop \<Rightarrow> nl_addr option" where
  "sent_gateway family nh = (if nh_gateway nh = None then None else Some (raw_addr family (addr_bytes_of (nh_gateway nh))))"

text \<open>A next hop of several, as it arrives.\<close>

definition mp_sent :: "int \<Rightarrow> rtnl_nexthop \<Rightarrow> rtnl_nexthop" where
  "mp_sent family nh =
     \<lparr>nh_flags = nh_flags nh, nh_flag_mask = nh_flags nh, nh_weight = nh_weight nh, nh_ifindex = nh_ifindex nh,
      nh_gateway = sent_gateway family nh,
      nh_mask = NH_ATTR_WEIGHT OR NH_ATTR_IFINDEX OR NH_ATTR_FLAGS OR (if nh_gateway nh \<noteq> None then NH_ATTR_GATEWAY else 0) OR
        (if nh_realms nh \<noteq> 0 then NH_ATTR_REALMS else 0),
      nh_realms = nh_realms nh, nh_newdst = None, nh_via = None, nh_encap = None\<rparr>"

lemma rtnh_fields:
  assumes r: "rd buf off (blen (rtnh_bytes nh)) = rtnh_bytes nh" and nh: "simple_nh nh" and off: "0 \<le> off"
  shows "get16 buf off = blen (rtnh_bytes nh)" "le_int (rd buf (off + 2) 1) = nh_flags nh" "le_int (rd buf (off + 3) 1) = nh_weight nh"
    "get32 buf (off + 4) = nh_ifindex nh"
    "rd buf (off + 8) (blen (attrs_bytes (mp_attrs nh))) = attrs_bytes (mp_attrs nh)" "blen (rtnh_bytes nh) = 8 + blen (attrs_bytes (mp_attrs nh))"
proof -
  let ?as = "attrs_bytes (mp_attrs nh)"
  show l: "blen (rtnh_bytes nh) = 8 + blen ?as" by (simp add: rtnh_bytes_def Let_def)
  have sub: "rd buf (off + k) m = rd (rtnh_bytes nh) k m" if "0 \<le> k" "k + m \<le> 8 + blen ?as" for k m
    using rd_rd [of off k m "8 + blen ?as" buf] that r off l by simp
  have h: "rd (rtnh_bytes nh) 0 2 = le_bytes 2 (8 + blen ?as)" "rd (rtnh_bytes nh) 2 1 = le_bytes 1 (nh_flags nh)"
    "rd (rtnh_bytes nh) 3 1 = le_bytes 1 (nh_weight nh)" "rd (rtnh_bytes nh) 4 4 = le_bytes 4 (nh_ifindex nh)"
    "rd (rtnh_bytes nh) 8 (blen ?as) = ?as"
    by (simp_all add: rtnh_bytes_def Let_def rd_def numeral_eq_Suc)
  have "rd buf off 2 = le_bytes 2 (8 + blen ?as)" "rd buf (off + 2) 1 = le_bytes 1 (nh_flags nh)"
    "rd buf (off + 3) 1 = le_bytes 1 (nh_weight nh)" "rd buf (off + 4) 4 = le_bytes 4 (nh_ifindex nh)"
    using sub [of 0 2] sub [of 2 1] sub [of 3 1] sub [of 4 4] unfolding h by simp_all
  then show "get16 buf off = blen (rtnh_bytes nh)" "le_int (rd buf (off + 2) 1) = nh_flags nh" "le_int (rd buf (off + 3) 1) = nh_weight nh"
    "get32 buf (off + 4) = nh_ifindex nh"
    using nh mp_attrs_length [OF nh] unfolding l by (simp_all add: get16_def get32_def le_int_bytes simple_nh_def uint_word_of_int)
  show "rd buf (off + 8) (blen ?as) = ?as" using sub [of 8 "blen ?as"] h(5) by simp
qed

lemma mp_attrs_types: "base_types (mp_attrs nh) = mp_attrs nh" "distinct (map fst (mp_attrs nh))"
  "list_all (\<lambda>(t, d). t \<le> RTA_MAX \<and> payload_ok (route_policy ! nat t) d) (mp_attrs nh)"
proof -
  show "base_types (mp_attrs nh) = mp_attrs nh" by (simp add: mp_attrs_def base_types_append)
  show "distinct (map fst (mp_attrs nh))" unfolding mp_attrs_def distinct_opt fst_opt by (simp add: distinct_opt(2))
  show "list_all (\<lambda>(t, d). t \<le> RTA_MAX \<and> payload_ok (route_policy ! nat t) d) (mp_attrs nh)"
    unfolding mp_attrs_def list_all_opt prod.case
    by (simp add: route_policy_nth payload_ok_def nla_attr_minlen_def RTA_MAX_def attr_type_defs split del: if_split)
qed

lemma mp_attrs_entries:
  assumes "\<And>t. int t \<le> RTA_MAX \<Longrightarrow> entry_is buf (tb ! t) (map_of (mp_attrs nh) (int t))"
  shows "entry_is buf (tb ! 5) (if nh_gateway nh \<noteq> None then Some (addr_bytes_of (nh_gateway nh)) else None)"
    "entry_is buf (tb ! 11) (if nh_realms nh \<noteq> 0 then Some (le_bytes 4 (nh_realms nh)) else None)"
    "entry_is buf (tb ! 19) None" "entry_is buf (tb ! 18) None" "entry_is buf (tb ! 21) None"
proof -
  have m: "map_of (opt b (t, d)) k = (if b \<and> k = t then Some d else None)" for b t d k by (simp add: opt_def)
  note e = assms [unfolded mp_attrs_def map_of_opt m RTA_MAX_def]
  show "entry_is buf (tb ! 5) (if nh_gateway nh \<noteq> None then Some (addr_bytes_of (nh_gateway nh)) else None)"
    "entry_is buf (tb ! 11) (if nh_realms nh \<noteq> 0 then Some (le_bytes 4 (nh_realms nh)) else None)"
    using e [of 5] e [of 11] by (simp_all cong del: if_weak_cong)
  show "entry_is buf (tb ! 19) None" "entry_is buf (tb ! 18) None" "entry_is buf (tb ! 21) None"
    using e [of 19] e [of 18] e [of 21] by (simp_all cong del: if_weak_cong)
qed

lemma gateway_entry:
  assumes e: "entry_is buf e (if nh_gateway nh \<noteq> None then Some (addr_bytes_of (nh_gateway nh)) else None)" and nh: "simple_nh nh"
    and fam: "family \<noteq> AF_MPLS"
  shows "nh_gateway nh = None \<Longrightarrow> e = None"
    "nh_gateway nh \<noteq> None \<Longrightarrow> \<exists>p. e = Some p \<and> nl_addr_alloc_attr True buf p family = Some (raw_addr family (addr_bytes_of (nh_gateway nh)))"
proof -
  show "nh_gateway nh = None \<Longrightarrow> e = None" using e by (simp add: entry_is_def)
  assume g: "nh_gateway nh \<noteq> None"
  then obtain p where p: "e = Some p" "reads buf p (addr_bytes_of (nh_gateway nh))" using e by (auto simp: entry_is_def)
  have "blen (addr_bytes_of (nh_gateway nh)) < 65536" using blen_addr_bytes_of [OF plain_gateway [OF nh g]] by simp
  from reads_raw_addr [OF p(2) this fam] p(1)
  show "\<exists>p. e = Some p \<and> nl_addr_alloc_attr True buf p family = Some (raw_addr family (addr_bytes_of (nh_gateway nh)))" by blast
qed

lemma realms_entry:
  assumes "entry_is buf e (if nh_realms nh \<noteq> 0 then Some (le_bytes 4 (nh_realms nh)) else None)" "simple_nh nh"
  shows "nh_realms nh = 0 \<Longrightarrow> e = None" "nh_realms nh \<noteq> 0 \<Longrightarrow> \<exists>p. e = Some p \<and> nla_get_u32 buf p = nh_realms nh"
  using assms reads_u32 [of buf _ "nh_realms nh"] by (auto simp: entry_is_def simple_nh_def)

lemma nexthop_at_reads:
  assumes r: "rd buf off (blen (rtnh_bytes nh)) = rtnh_bytes nh" and nh: "simple_nh nh" and off: "0 \<le> off" "off + blen (rtnh_bytes nh) \<le> blen buf"
    and fam: "family \<noteq> AF_MPLS"
  shows "nexthop_at inet_pton (\<lambda>_. True) family buf off = Inr (Some (mp_sent family nh))"
proof -
  let ?as = "attrs_bytes (mp_attrs nh)"
  note f = rtnh_fields [OF r nh off(1)] and l = mp_attrs_length [OF nh]
  have fit: "\<forall>a \<in> set (mp_attrs nh). attr_fits a" using mp_attrs_fit [OF nh] by blast
  have sl: "blen ?as \<le> STREAM_MAX" using l by (simp add: STREAM_MAX_def)
  have w: "0 \<le> nh_flags nh" "nh_flags nh < 256" "0 \<le> nh_weight nh" "nh_weight nh < 256" "0 \<le> nh_ifindex nh" "nh_ifindex nh < 4294967296"
    "0 \<le> nh_realms nh" "nh_realms nh < 4294967296" using nh by (simp_all add: simple_nh_def)
  have u: "u32 (s32 (nh_ifindex nh)) = nh_ifindex nh" 
    using w(5,6) mod_diff_left_eq [of "nh_ifindex nh + 2147483648" 4294967296 2147483648] by (simp add: s32_def u32_def)
  have "\<forall>(t, d) \<in> set (base_types (mp_attrs nh)). t \<le> RTA_MAX \<and> payload_ok (route_policy ! nat t) d"
    using mp_attrs_types(3) [of nh] by (simp add: mp_attrs_types(1) list_all_iff)
  then obtain tb where tb: "nla_parse RTA_MAX buf (off + 8) (blen ?as) (Some route_policy) = (tb, Inr ())"
    "\<And>t. int t \<le> RTA_MAX \<Longrightarrow> entry_is buf (tb ! t) (map_of (mp_attrs nh) (int t))"
    using nla_parse_list [OF sl _ _ nla_list_attrs_bytes [OF f(5) fit _ sl], of RTA_MAX "Some route_policy"] off f(6)
    by (auto simp: mp_attrs_types(1,2) RTA_MAX_def)
  note e = mp_attrs_entries [OF tb(2)]
  have none: "tb ! 19 = None" "tb ! 18 = None" "tb ! 21 = None" using e(3-5) by (simp_all add: entry_is_def)
  note g = gateway_entry [OF e(1) nh fam] and q = realms_entry [OF e(2) nh]
  have h: "rtnl_route_nh_set_flags (rtnl_route_nh_set_ifindex (rtnl_route_nh_set_weight new_nexthop (nh_weight nh)) (s32 (nh_ifindex nh))) (nh_flags nh) =
      new_nexthop\<lparr>nh_weight := nh_weight nh, nh_ifindex := nh_ifindex nh, nh_flags := nh_flags nh, nh_flag_mask := nh_flags nh,
        nh_mask := NH_ATTR_WEIGHT OR NH_ATTR_IFINDEX OR NH_ATTR_FLAGS\<rparr>"
    using w u by (simp add: rtnl_route_nh_set_flags_def rtnl_route_nh_set_ifindex_def rtnl_route_nh_set_weight_def new_nexthop_def or.assoc)
  note d = nh_then_def mp_sent_def sent_gateway_def rtnl_route_nh_set_gateway_def rtnl_route_nh_set_realms_def new_nexthop_def
  have att: "multipath_attrs inet_pton (\<lambda>_. True) family buf tb
      (new_nexthop\<lparr>nh_weight := nh_weight nh, nh_ifindex := nh_ifindex nh, nh_flags := nh_flags nh, nh_flag_mask := nh_flags nh,
        nh_mask := NH_ATTR_WEIGHT OR NH_ATTR_IFINDEX OR NH_ATTR_FLAGS\<rparr>) = Inr (Some (mp_sent family nh))"
  proof (cases "nh_gateway nh = None")
    case True
    then show ?thesis using g q none w
      by (cases "nh_realms nh = 0") (auto simp: multipath_attrs_def d or.assoc Let_def split: option.split)
  next
    case False
    then show ?thesis using g q none w
      by (cases "nh_realms nh = 0") (auto simp: multipath_attrs_def d or.assoc Let_def split: option.split)
  qed
  show ?thesis
  proof (cases "mp_attrs nh = []")
    case True
    then have "nh_gateway nh = None" "nh_realms nh = 0" by (auto simp: mp_attrs_def opt_def split: if_splits)
    then show ?thesis using True f h by (simp add: nexthop_at_def Let_def mp_sent_def sent_gateway_def new_nexthop_def)
  next
    case False
    then have "0 < blen ?as" by (cases "mp_attrs nh") (auto simp: attr_bytes_def numeral_eq_Suc)
    then show ?thesis using f h tb(1) att by (simp add: nexthop_at_def Let_def)
  qed
qed

text \<open>A route without next hops that gets some.\<close>

definition with_nexthops :: "rtnl_nexthop list \<Rightarrow> route_obj \<Rightarrow> route_obj" where
  "with_nexthops nhs obj =
     obj\<lparr>ce_data := (ce_data obj)\<lparr>rt_nexthops := nhs, rt_nr_nh := blen nhs\<rparr>,
         ce_mask := ce_mask obj OR (if nhs \<noteq> [] then ROUTE_ATTR_MULTIPATH else 0)\<rparr>"

lemma with_nexthops_add:
  "blen nhs + 1 < 4294967296 \<Longrightarrow> rtnl_route_add_nexthop (with_nexthops nhs obj) nh = with_nexthops (nhs @ [nh]) obj"
  by (simp add: rtnl_route_add_nexthop_def with_nexthops_def or.assoc)

lemma multipath_loop_reads:
  assumes "rd buf off (blen (concat (map rtnh_bytes nhs))) = concat (map rtnh_bytes nhs)" "list_all simple_nh nhs" "0 \<le> off"
    and "off + blen (concat (map rtnh_bytes nhs)) \<le> blen buf" "length nhs \<le> rooms" "rt_family (ce_data obj) \<noteq> AF_MPLS"
    and "blen (concat (map rtnh_bytes nhs)) \<le> 65531" "blen done + blen nhs < 4294967296"
  shows "multipath_loop rooms inet_pton (\<lambda>_ _. True) i buf off (blen (concat (map rtnh_bytes nhs))) (with_nexthops done obj) =
    (with_nexthops (done @ map (mp_sent (rt_family (ce_data obj))) nhs) obj, Inr ())"
  using assms
proof (induction nhs arbitrary: off rooms i "done")
  case Nil
  then show ?case by (subst multipath_loop.simps) simp
next
  case (Cons nh nhs)
  let ?h = "rtnh_bytes nh" and ?t = "concat (map rtnh_bytes nhs)" and ?f = "rt_family (ce_data obj)"
  obtain rooms' where rooms: "rooms = Suc rooms'" using Cons.prems(5) by (cases rooms) auto
  have nh: "simple_nh nh" "list_all simple_nh nhs" using Cons.prems(2) by simp_all
  have here: "rd buf off (blen ?h) = ?h" and rest: "rd buf (off + blen ?h) (blen ?t) = ?t"
    using Cons.prems(1) rd_append_iff [OF Cons.prems(3), of buf ?h ?t] by simp_all
  note f = rtnh_fields [OF here nh(1) Cons.prems(3)]
  have in1: "off + blen ?h \<le> blen buf" using Cons.prems(4) by simp
  have al: "RTNH_ALIGN (blen ?h) = blen ?h"
  proof -
    have "blen ?h mod 4 = 0" using appends_nexthop [OF nh(1)] unfolding appends_def by blast
    then have "align4 (blen ?h) = blen ?h" by (rule align4_id)
    moreover have "RTNH_ALIGN (blen ?h) = align4 (blen ?h)" by (simp add: RTNH_ALIGN_def align4_def add.commute)
    ultimately show ?thesis by simp
  qed
  have fam: "rt_family (ce_data (with_nexthops done obj)) = ?f" by (simp add: with_nexthops_def)
  have len: "blen (concat (map rtnh_bytes (nh # nhs))) = blen ?h + blen ?t" by simp
  have u: "u64 (blen ?t) = blen ?t" using Cons.prems(7) by simp
  note at = nexthop_at_reads [OF here nh(1) Cons.prems(3) in1 Cons.prems(6)]
  have ih: "multipath_loop rooms' inet_pton (\<lambda>_ _. True) (Suc i) buf (off + blen ?h) (blen ?t) (with_nexthops (done @ [mp_sent ?f nh]) obj) =
      (with_nexthops ((done @ [mp_sent ?f nh]) @ map (mp_sent ?f) nhs) obj, Inr ())"
    using Cons.prems rest nh(2) rooms by (intro Cons.IH) simp_all
  have "8 \<le> blen ?h" using f(6) by simp
  then show ?case
    using in1 ih with_nexthops_add [of "done" obj "mp_sent ?f nh"] Cons.prems(8) unfolding len
    by (subst multipath_loop.simps) (simp add: f(1) rooms fam at al u)
qed

lemma multipath_reads:
  assumes e: "entry_is buf e (if many_nh r then Some (concat (map rtnh_bytes (rt_nexthops r))) else None)"
    and nhs: "list_all simple_nh (rt_nexthops r)" "blen (rt_nexthops r) < 2147483648"
    and len: "many_nh r \<Longrightarrow> blen (concat (map rtnh_bytes (rt_nexthops r))) \<le> 65531"
    and env: "pe_mp env = (\<lambda>_ _. True)" "length (rt_nexthops r) \<le> pe_rooms env"
    and obj: "rt_family (ce_data obj) \<noteq> AF_MPLS" "rt_nexthops (ce_data obj) = []" "rt_nr_nh (ce_data obj) = 0"
  shows "opt_attr e (\<lambda>p obj. case rtnl_route_parse_multipath env buf p obj of (obj, r) \<Rightarrow> and_then r (\<lambda>_. Inr obj)) obj =
    Inr (with_nexthops (if many_nh r then map (mp_sent (rt_family (ce_data obj))) (rt_nexthops r) else []) obj)"
proof (cases "many_nh r")
  case True
  let ?bs = "concat (map rtnh_bytes (rt_nexthops r))"
  obtain p where p: "e = Some p" "reads buf p ?bs" using e True by (auto simp: entry_is_def)
  have "rt_nexthops r \<noteq> []" using True by auto
  then have ne: "?bs \<noteq> []" by (cases "rt_nexthops r") (auto simp: rtnh_bytes_def Let_def numeral_eq_Suc)
  have o: "with_nexthops [] obj = obj" using obj by (simp add: with_nexthops_def)
  have "rtnl_route_parse_multipath env buf p obj = (with_nexthops (map (mp_sent (rt_family (ce_data obj))) (rt_nexthops r)) obj, Inr ())"
    using multipath_loop_reads [of buf "p + 4" "rt_nexthops r" "pe_rooms env" obj "[]" "pe_pton env" 0] p(2) reads_inside [OF p(2) ne] nhs len [OF True] env obj
    by (simp add: rtnl_route_parse_multipath_def reads_def o)
  then show ?thesis using True p(1) by simp
next
  case False
  then show ?thesis using e obj by (simp add: entry_is_def with_nexthops_def)
qed

section \<open>The next hop of the route itself\<close>

definition own_seen :: "int \<Rightarrow> rtnl_nexthop \<Rightarrow> rtnl_nexthop option" where
  "own_seen family nh =
     (if nh_gateway nh = None \<and> nh_ifindex nh = 0 \<and> nh_realms nh = 0 then None
      else Some (new_nexthop\<lparr>nh_ifindex := nh_ifindex nh, nh_gateway := sent_gateway family nh, nh_realms := nh_realms nh,
        nh_mask := (if nh_ifindex nh \<noteq> 0 then NH_ATTR_IFINDEX else 0) OR (if nh_gateway nh \<noteq> None then NH_ATTR_GATEWAY else 0) OR
          (if nh_realms nh \<noteq> 0 then NH_ATTR_REALMS else 0)\<rparr>))"

lemma own_nexthop_reads:
  assumes e: "entry_is buf (tb ! 5) (if nh_gateway nh \<noteq> None then Some (addr_bytes_of (nh_gateway nh)) else None)"
      "entry_is buf (tb ! 4) (if nh_ifindex nh \<noteq> 0 then Some (le_bytes 4 (nh_ifindex nh)) else None)"
      "entry_is buf (tb ! 11) (if nh_realms nh \<noteq> 0 then Some (le_bytes 4 (nh_realms nh)) else None)"
      "entry_is buf (tb ! 19) None" "entry_is buf (tb ! 18) None" "entry_is buf (tb ! 21) None"
    and nh: "simple_nh nh" and fam: "family \<noteq> AF_MPLS" and env: "pe_attr env = (\<lambda>_. True)" "pe_nh env"
  shows "own_nexthop env buf family tb = Inr (own_seen family nh)"
proof -
  note g = gateway_entry [OF e(1) nh fam] and q = realms_entry [OF e(3) nh]
  have i: "nh_ifindex nh = 0 \<Longrightarrow> tb ! 4 = None" "nh_ifindex nh \<noteq> 0 \<Longrightarrow> \<exists>p. tb ! 4 = Some p \<and> nla_get_u32 buf p = nh_ifindex nh"
    using e(2) nh reads_u32 [of buf _ "nh_ifindex nh"] by (auto simp: entry_is_def simple_nh_def)
  have none: "tb ! 19 = None" "tb ! 18 = None" "tb ! 21 = None" using e(4-6) by (simp_all add: entry_is_def)
  have w: "0 \<le> nh_ifindex nh" "nh_ifindex nh < 4294967296" "0 \<le> nh_realms nh" "nh_realms nh < 4294967296" using nh by (simp_all add: simple_nh_def)
  note d = own_nexthop_def Let_def with_nh_def rtnl_route_nh_alloc_def addr_attr_def own_seen_def sent_gateway_def new_nexthop_def
    rtnl_route_nh_set_ifindex_def rtnl_route_nh_set_gateway_def rtnl_route_nh_set_realms_def
  show ?thesis
  proof (cases "nh_gateway nh = None"; cases "nh_ifindex nh = 0"; cases "nh_realms nh = 0")
  qed (use g i q none w env in \<open>auto simp: d or.assoc\<close>)
qed

end
