(* ===== verification/Nl_Route_Sent.thy ===== *)
theory Nl_Route_Sent
  imports Nl_Route_Msg
begin

unbundle bit_operations_syntax

text \<open>
  The route that arrives: the steps of the parser of routes on the message of \<open>Nl_Route_Msg\<close>, put together.
\<close>

section \<open>The header\<close>

lemma route_hdr_fields:
  assumes "rd buf 16 12 = route_hdr route dl sl scope flags"
  shows "le_int (rd buf 16 1) = u8 (rt_family (ce_data route))" "le_int (rd buf 17 1) = u8 dl" "le_int (rd buf 18 1) = u8 sl"
    "le_int (rd buf 19 1) = u8 (rt_tos (ce_data route))" "le_int (rd buf 20 1) = u8 (rt_table (ce_data route))"
    "le_int (rd buf 21 1) = u8 (rt_protocol (ce_data route))" "le_int (rd buf 22 1) = u8 scope"
    "le_int (rd buf 23 1) = u8 (rt_type (ce_data route))" "get32 buf 24 = u32 flags"
proof -
  let ?h = "route_hdr route dl sl scope flags" and ?r = "ce_data route"
  have sub: "rd buf (16 + k) m = rd ?h k m" if "0 \<le> k" "k + m \<le> 12" for k m
    using rd_rd [of 16 k m 12 buf] that assms by simp
  have h: "rd ?h 0 1 = le_bytes 1 (rt_family ?r)" "rd ?h 1 1 = le_bytes 1 dl" "rd ?h 2 1 = le_bytes 1 sl"
    "rd ?h 3 1 = le_bytes 1 (rt_tos ?r)" "rd ?h 4 1 = le_bytes 1 (rt_table ?r)" "rd ?h 5 1 = le_bytes 1 (rt_protocol ?r)"
    "rd ?h 6 1 = le_bytes 1 scope" "rd ?h 7 1 = le_bytes 1 (rt_type ?r)" "rd ?h 8 4 = le_bytes 4 flags"
    by (simp_all add: route_hdr_def Let_def rd_def numeral_eq_Suc)
  have "rd buf 16 1 = le_bytes 1 (rt_family ?r)" "rd buf 17 1 = le_bytes 1 dl" "rd buf 18 1 = le_bytes 1 sl"
    "rd buf 19 1 = le_bytes 1 (rt_tos ?r)" "rd buf 20 1 = le_bytes 1 (rt_table ?r)" "rd buf 21 1 = le_bytes 1 (rt_protocol ?r)"
    "rd buf 22 1 = le_bytes 1 scope" "rd buf 23 1 = le_bytes 1 (rt_type ?r)" "rd buf 24 4 = le_bytes 4 flags"
    using sub [of 0 1] sub [of 1 1] sub [of 2 1] sub [of 3 1] sub [of 4 1] sub [of 5 1] sub [of 6 1] sub [of 7 1] sub [of 8 4]
    unfolding h by simp_all
  then show "le_int (rd buf 16 1) = u8 (rt_family ?r)" "le_int (rd buf 17 1) = u8 dl" "le_int (rd buf 18 1) = u8 sl"
    "le_int (rd buf 19 1) = u8 (rt_tos ?r)" "le_int (rd buf 20 1) = u8 (rt_table ?r)" "le_int (rd buf 21 1) = u8 (rt_protocol ?r)"
    "le_int (rd buf 22 1) = u8 scope" "le_int (rd buf 23 1) = u8 (rt_type ?r)" "get32 buf 24 = u32 flags"
    by (simp_all only: get32_def le_int_bytes u8_def u32_def) simp_all
qed

text \<open>Scope and flags of a request fit into their fields.\<close>

lemma sent_scope_range: "wf_route tmpl \<Longrightarrow> 0 \<le> sent_scope tmpl \<and> sent_scope tmpl < 256"
  by (auto simp: sent_scope_def rtnl_route_guess_scope_def wf_route_def Let_def RT_SCOPE_HOST_def RT_SCOPE_UNIVERSE_def RT_SCOPE_LINK_def)

lemma or_lt_u32:
  fixes x y :: int
  assumes "0 \<le> x" "x < 4294967296" "0 \<le> y" "y < 4294967296"
  shows "0 \<le> x OR y \<and> x OR y < 4294967296"
  using assms OR_upper [of x 32 y] by simp

lemma sent_flags_range:
  assumes "wf_route tmpl"
  shows "0 \<le> sent_flags (ce_data tmpl) \<and> sent_flags (ce_data tmpl) < 4294967296"
proof -
  let ?r = "ce_data tmpl"
  have r: "0 \<le> rt_flags ?r" "rt_flags ?r < 4294967296" "list_all simple_nh (rt_nexthops ?r)" using assms by (auto simp: wf_route_def Let_def)
  show ?thesis
  proof (cases "rt_nexthops ?r" rule: remdups_adj.cases)
    case (2 nh)
    then have "0 \<le> nh_flags nh" "nh_flags nh < 256" using r(3) by (simp_all add: simple_nh_def)
    then show ?thesis using or_lt_u32 [of "rt_flags ?r" "nh_flags nh"] r(1,2) 2 by (simp add: sent_flags_def)
  qed (use r in \<open>simp_all add: sent_flags_def\<close>)
qed

lemma route_from_hdr_reads:
  assumes h: "rd buf 16 12 = sent_hdr tmpl" and wf: "wf_route tmpl"
  shows "route_from_hdr buf 16 obj =
    obj\<lparr>ce_data := (ce_data obj)\<lparr>rt_family := rt_family (ce_data tmpl), rt_tos := rt_tos (ce_data tmpl), rt_table := u8 (rt_table (ce_data tmpl)),
          rt_type := rt_type (ce_data tmpl), rt_scope := sent_scope tmpl, rt_protocol := rt_protocol (ce_data tmpl),
          rt_flags := sent_flags (ce_data tmpl), rt_prio := 0\<rparr>,
        ce_mask := ce_mask obj OR (ROUTE_ATTR_FAMILY OR ROUTE_ATTR_TOS OR ROUTE_ATTR_TABLE OR ROUTE_ATTR_TYPE OR ROUTE_ATTR_SCOPE OR
          ROUTE_ATTR_PROTOCOL OR ROUTE_ATTR_FLAGS OR ROUTE_ATTR_PRIO)\<rparr>"
    "le_int (rd buf 16 1) = rt_family (ce_data tmpl)" "le_int (rd buf 17 1) = u8 (addr_plen (rt_dst (ce_data tmpl)))"
    "le_int (rd buf 18 1) = u8 (addr_plen (rt_src (ce_data tmpl)))" "get32 buf 24 = sent_flags (ce_data tmpl)"
proof -
  let ?r = "ce_data tmpl"
  note f = route_hdr_fields [OF h [unfolded sent_hdr_def]]
  have w: "rt_family ?r = AF_INET \<or> rt_family ?r = AF_INET6" "0 \<le> rt_tos ?r" "rt_tos ?r < 256" "0 \<le> rt_type ?r" "rt_type ?r < 256"
    "0 \<le> rt_protocol ?r" "rt_protocol ?r < 256"
    using wf by (simp_all add: wf_route_def Let_def)
  have fam: "u8 (rt_family ?r) = rt_family ?r" "rt_family ?r \<noteq> AF_MPLS" using w(1) by (auto simp: AF_INET_def AF_INET6_def AF_MPLS_def)
  have k: "16 + 2 = (18 :: int)" "16 + 1 = (17 :: int)" "16 + 3 = (19 :: int)" "16 + 4 = (20 :: int)" "16 + 5 = (21 :: int)"
    "16 + 6 = (22 :: int)" "16 + 7 = (23 :: int)" "16 + 8 = (24 :: int)" by simp_all
  note u = sent_scope_range [OF wf] sent_flags_range [OF wf]
  show "route_from_hdr buf 16 obj =
    obj\<lparr>ce_data := (ce_data obj)\<lparr>rt_family := rt_family ?r, rt_tos := rt_tos ?r, rt_table := u8 (rt_table ?r),
          rt_type := rt_type ?r, rt_scope := sent_scope tmpl, rt_protocol := rt_protocol ?r,
          rt_flags := sent_flags ?r, rt_prio := 0\<rparr>,
        ce_mask := ce_mask obj OR (ROUTE_ATTR_FAMILY OR ROUTE_ATTR_TOS OR ROUTE_ATTR_TABLE OR ROUTE_ATTR_TYPE OR ROUTE_ATTR_SCOPE OR
          ROUTE_ATTR_PROTOCOL OR ROUTE_ATTR_FLAGS OR ROUTE_ATTR_PRIO)\<rparr>"
    unfolding route_from_hdr_def Let_def k f fam(1) using w u fam by (simp add: or.assoc)
  show "le_int (rd buf 16 1) = rt_family ?r" "le_int (rd buf 17 1) = u8 (addr_plen (rt_dst ?r))"
    "le_int (rd buf 18 1) = u8 (addr_plen (rt_src ?r))" "get32 buf 24 = sent_flags ?r"
    using f fam u by simp_all
qed

section \<open>Addresses and numbers\<close>

text \<open>Destination: the prefix length of the header is stored in the address, which is empty if it was not sent.\<close>

lemma family_known: "ROUTE_ATTR_FAMILY \<noteq> 0" "(ROUTE_ATTR_FAMILY OR x) AND ROUTE_ATTR_FAMILY = ROUTE_ATTR_FAMILY"
  by (simp add: ROUTE_ATTR_FAMILY_def) (rule bit_eqI, auto simp: bit_and_iff bit_or_iff)

lemma route_assign_known:
  assumes "ce_mask obj AND ROUTE_ATTR_FAMILY \<noteq> 0" "a_family a = rt_family (ce_data obj)"
  shows "route_assign obj a upd flag = Inr (set_route (flag OR ROUTE_ATTR_FAMILY) (upd (Some a)) obj)"
  using assms by (simp add: route_assign_def Let_def)

lemma raw_addr_family [simp]: "a_family (nl_addr_set_prefixlen (raw_addr family d) plen) = family" "a_family (raw_addr family d) = family"
  by (simp_all add: nl_addr_set_prefixlen_def raw_addr_def)

lemma empty_addr: "nl_addr_alloc True 0 = Some (raw_addr 0 [])" "nl_addr_set_family (raw_addr x []) family = raw_addr family []"
  by (simp_all add: nl_addr_alloc_def raw_addr_def zeros_def nl_addr_set_family_def)

lemma addr_bytes_empty: "nl_addr_get_len x = 0 \<Longrightarrow> addr_bytes_of (Some x) = []"
  by (simp add: addr_bytes_of_def nl_addr_get_len_def rd_def)

lemma route_dst_reads:
  assumes e: "entry_is buf e (if has_dst r then Some (addr_bytes_of (rt_dst r)) else None)" and d: "\<exists>x. rt_dst r = Some x \<and> small_addr x"
    and fam: "le_int (rd buf 16 1) = rt_family r" "rt_family (ce_data obj) = rt_family r" "rt_family r \<noteq> AF_MPLS"
    and plen: "le_int (rd buf 17 1) = plen" and known: "ce_mask obj AND ROUTE_ATTR_FAMILY \<noteq> 0"
  shows "route_dst_attr (\<lambda>_. True) buf 16 e obj =
    Inr (set_route (ROUTE_ATTR_DST OR ROUTE_ATTR_FAMILY)
      (rt_dst_update (\<lambda>_. Some (nl_addr_set_prefixlen (raw_addr (rt_family r) (addr_bytes_of (rt_dst r))) plen))) obj)"
proof -
  obtain x where x: "rt_dst r = Some x" "small_addr x" using d by blast
  have "blen (addr_bytes_of (rt_dst r)) < 65536" using blen_addr_bytes_of [OF d] by simp
  note raw = reads_raw_addr [OF _ this fam(3)]
  have k: "16 + 1 = (17 :: int)" by simp
  note set = route_assign_known [OF known] fam(2)
  show ?thesis
  proof (cases "has_dst r")
    case True
    then obtain p where "e = Some p" "reads buf p (addr_bytes_of (rt_dst r))" using e by (auto simp: entry_is_def)
    then show ?thesis
      unfolding route_dst_attr_def Let_def k fam(1) plen by (simp add: raw addr_attr_def rtnl_route_set_dst_def set)
  next
    case False
    then have "e = None" "addr_bytes_of (rt_dst r) = []" using e x addr_bytes_empty [of x] by (simp_all add: entry_is_def)
    then show ?thesis
      unfolding route_dst_attr_def Let_def k fam(1) plen
      by (simp add: alloc_empty_def empty_addr rtnl_route_set_dst_def set)
  qed
qed

text \<open>
  Source: only IPv6 has one. A prefix length without an address gives an empty address without a family, which is refused like a
  source in IPv4, and both refusals are ignored.
\<close>

lemma route_src_reads:
  assumes e: "entry_is buf e (if b then Some (addr_bytes_of (rt_src r)) else None)" and d: "b \<Longrightarrow> \<exists>x. rt_src r = Some x \<and> small_addr x"
    and fam: "le_int (rd buf 16 1) = rt_family r" "rt_family (ce_data obj) = rt_family r" "rt_family r = AF_INET \<or> rt_family r = AF_INET6"
    and plen: "le_int (rd buf 18 1) = plen" and known: "ce_mask obj AND ROUTE_ATTR_FAMILY \<noteq> 0"
  shows "route_src_attr (\<lambda>_. True) buf 16 e obj =
    Inr (obj\<lparr>ce_data := (ce_data obj)\<lparr>rt_src := if b \<and> rt_family r = AF_INET6
               then Some (nl_addr_set_prefixlen (raw_addr (rt_family r) (addr_bytes_of (rt_src r))) plen) else rt_src (ce_data obj)\<rparr>,
             ce_mask := ce_mask obj OR (if b \<and> rt_family r = AF_INET6 then ROUTE_ATTR_SRC OR ROUTE_ATTR_FAMILY else 0)\<rparr>)"
proof -
  have k: "16 + 2 = (18 :: int)" by simp
  have m: "rt_family r \<noteq> AF_MPLS" "AF_INET \<noteq> AF_INET6" "rt_family r \<noteq> 0" "AF_INET \<noteq> 0"
    using fam(3) by (auto simp: AF_INET_def AF_INET6_def AF_MPLS_def)
  note set = route_assign_known [OF known] fam(2)
  show ?thesis
  proof (cases b)
    case True
    then obtain p where p: "e = Some p" "reads buf p (addr_bytes_of (rt_src r))" using e by (auto simp: entry_is_def)
    have "blen (addr_bytes_of (rt_src r)) < 65536" using blen_addr_bytes_of [OF d [OF True]] by simp
    note raw = reads_raw_addr [OF p(2) this m(1)]
    show ?thesis
      unfolding route_src_attr_def Let_def k fam(1) plen using True p(1) m fam(3)
      by (auto simp: raw addr_attr_def rtnl_route_set_src_def ignore_code_def set)
  next
    case False
    then have "e = None" using e by (simp add: entry_is_def)
    then show ?thesis
      unfolding route_src_attr_def Let_def k fam(1) plen using False m fam known
      by (simp add: alloc_empty_def empty_addr rtnl_route_set_src_def ignore_code_def route_assign_def Let_def)
  qed
qed

text \<open>Attributes that may be there.\<close>

lemma opt_entry:
  assumes e: "entry_is buf e (if b then Some d else None)"
    and f: "\<And>p. b \<Longrightarrow> reads buf p d \<Longrightarrow> f p obj = Inr (set_route flag (sett x) obj)"
    and id: "sett (get (ce_data obj)) (ce_data obj) = ce_data obj"
  shows "opt_attr e f obj =
    Inr (obj\<lparr>ce_data := sett (if b then x else get (ce_data obj)) (ce_data obj), ce_mask := ce_mask obj OR (if b then flag else 0)\<rparr>)"
proof (cases b)
  case True
  then obtain p where "e = Some p" "reads buf p d" using e by (auto simp: entry_is_def)
  then show ?thesis using f True by simp
next
  case False
  then show ?thesis using e id by (simp add: entry_is_def)
qed

lemma opt_u32:
  assumes e: "entry_is buf e (if b then Some (le_bytes 4 v) else None)" and v: "0 \<le> v" "v < 4294967296"
    and f: "\<And>y. 0 \<le> y \<Longrightarrow> y < 4294967296 \<Longrightarrow> set_fn obj y = set_route flag (sett y) obj"
    and id: "sett (get (ce_data obj)) (ce_data obj) = ce_data obj"
  shows "opt_attr e (\<lambda>p obj. Inr (set_fn obj (nla_get_u32 buf p))) obj =
    Inr (obj\<lparr>ce_data := sett (if b then v else get (ce_data obj)) (ce_data obj), ce_mask := ce_mask obj OR (if b then flag else 0)\<rparr>)"
  by (rule opt_entry [where sett = sett and get = get, OF e _ id]) (simp add: reads_u32 v f)

lemma pref_src_reads:
  assumes e: "entry_is buf e (if b then Some (addr_bytes_of (rt_pref_src r)) else None)" and d: "b \<Longrightarrow> \<exists>x. rt_pref_src r = Some x \<and> small_addr x"
    and fam: "rt_family (ce_data obj) = rt_family r" "rt_family r \<noteq> AF_MPLS" and known: "ce_mask obj AND ROUTE_ATTR_FAMILY \<noteq> 0"
  shows "opt_attr e (\<lambda>p obj. and_then (addr_attr True buf p (rt_family r)) (\<lambda>addr. ignore_code obj (rtnl_route_set_pref_src obj addr))) obj =
    Inr (obj\<lparr>ce_data := (ce_data obj)\<lparr>rt_pref_src := if b then Some (raw_addr (rt_family r) (addr_bytes_of (rt_pref_src r))) else rt_pref_src (ce_data obj)\<rparr>,
             ce_mask := ce_mask obj OR (if b then ROUTE_ATTR_PREF_SRC OR ROUTE_ATTR_FAMILY else 0)\<rparr>)"
proof (rule opt_entry [where sett = "\<lambda>x r. r\<lparr>rt_pref_src := x\<rparr>" and get = rt_pref_src, OF e])
  fix p assume b: b and p: "reads buf p (addr_bytes_of (rt_pref_src r))"
  have "blen (addr_bytes_of (rt_pref_src r)) < 65536" using blen_addr_bytes_of [OF d [OF b]] by simp
  from reads_raw_addr [OF p this fam(2)]
  show "and_then (addr_attr True buf p (rt_family r)) (\<lambda>addr. ignore_code obj (rtnl_route_set_pref_src obj addr)) =
      Inr (set_route (ROUTE_ATTR_PREF_SRC OR ROUTE_ATTR_FAMILY)
        (\<lambda>r'. r'\<lparr>rt_pref_src := Some (raw_addr (rt_family r) (addr_bytes_of (rt_pref_src r)))\<rparr>) obj)"
    by (simp add: addr_attr_def rtnl_route_set_pref_src_def ignore_code_def route_assign_known [OF known] fam(1))
qed simp

section \<open>The route that arrives\<close>

text \<open>
  A route with one next hop has its fields in the route itself: the next hop gets the low flags of the route, and none is
  made if there is nothing but flags and weight to tell of it.
\<close>

definition sent_nexthops :: "rtnl_route \<Rightarrow> rtnl_nexthop list" where
  "sent_nexthops r =
     (if many_nh r then map (mp_sent (rt_family r)) (rt_nexthops r)
      else case own_seen (rt_family r) (own_nh r) of
        None \<Rightarrow> []
      | Some nh \<Rightarrow> [rtnl_route_nh_set_flags nh (sent_flags r AND 0xFF)])"

definition sent_addr :: "rtnl_route \<Rightarrow> nl_addr option \<Rightarrow> nl_addr" where
  "sent_addr r a = nl_addr_set_prefixlen (raw_addr (rt_family r) (addr_bytes_of a)) (u8 (addr_plen a))"

definition src_sent :: "route_obj \<Rightarrow> bool" where
  "src_sent tmpl \<longleftrightarrow> has_attr tmpl ROUTE_ATTR_SRC \<and> rt_family (ce_data tmpl) = AF_INET6"

definition sent_route :: "route_obj \<Rightarrow> rtnl_route" where
  "sent_route tmpl =
     (let r = ce_data tmpl; has = has_attr tmpl; nhs = sent_nexthops r in
      \<lparr>rt_family = rt_family r, rt_tos = rt_tos r, rt_protocol = rt_protocol r, rt_scope = sent_scope tmpl, rt_type = rt_type r,
       rt_nmetrics = rt_nmetrics r, rt_ttl_propagate = (if has ROUTE_ATTR_TTL_PROPAGATE then rt_ttl_propagate r else 0),
       rt_flags = sent_flags r, rt_dst = Some (sent_addr r (rt_dst r)), rt_src = (if src_sent tmpl then Some (sent_addr r (rt_src r)) else None),
       rt_table = rt_table r, rt_iif = (if has ROUTE_ATTR_IIF then rt_iif r else 0), rt_prio = (if has ROUTE_ATTR_PRIO then rt_prio r else 0),
       rt_metrics = map (\<lambda>i. if metric_bit r i then rt_metrics r ! i else 0) [0 ..< 17], rt_metrics_mask = rt_metrics_mask r,
       rt_nr_nh = blen nhs,
       rt_pref_src = (if has ROUTE_ATTR_PREF_SRC then Some (raw_addr (rt_family r) (addr_bytes_of (rt_pref_src r))) else None),
       rt_nexthops = nhs, rt_cacheinfo = rt_cacheinfo zero_route, rt_flag_mask = 0\<rparr>)"

definition sent_route_mask :: "route_obj \<Rightarrow> int" where
  "sent_route_mask tmpl =
     (let has = (\<lambda>attr. if has_attr tmpl attr then attr else 0) in
      ROUTE_ATTR_FAMILY OR ROUTE_ATTR_TOS OR ROUTE_ATTR_TABLE OR ROUTE_ATTR_TYPE OR ROUTE_ATTR_SCOPE OR ROUTE_ATTR_PROTOCOL OR
      ROUTE_ATTR_FLAGS OR ROUTE_ATTR_PRIO OR ROUTE_ATTR_DST OR (if src_sent tmpl then ROUTE_ATTR_SRC else 0) OR has ROUTE_ATTR_IIF OR
      has ROUTE_ATTR_PREF_SRC OR (if rt_nmetrics (ce_data tmpl) > 0 then ROUTE_ATTR_METRICS else 0) OR
      (if sent_nexthops (ce_data tmpl) \<noteq> [] then ROUTE_ATTR_MULTIPATH else 0) OR has ROUTE_ATTR_TTL_PROPAGATE)"

lemma merge_reads:
  assumes nhs: "rt_nexthops (ce_data obj) = (if many_nh r then map (mp_sent (rt_family r)) (rt_nexthops r) else [])"
    and nr: "rt_nr_nh (ce_data obj) = blen (rt_nexthops (ce_data obj))" and flags: "get32 buf 24 = sent_flags r"
  shows "merge_nexthop buf 16 (own_seen (rt_family r) (own_nh r)) obj =
    Inr (obj\<lparr>ce_data := (ce_data obj)\<lparr>rt_nexthops := sent_nexthops r, rt_nr_nh := blen (sent_nexthops r)\<rparr>,
             ce_mask := ce_mask obj OR (if \<not> many_nh r \<and> sent_nexthops r \<noteq> [] then ROUTE_ATTR_MULTIPATH else 0)\<rparr>)"
proof (cases "many_nh r")
  case True
  then have "own_nh r = new_nexthop" by (auto simp: own_nh_def split: list.splits)
  then have "own_seen (rt_family r) (own_nh r) = None" by (simp add: own_seen_def new_nexthop_def)
  then show ?thesis using True nhs nr by (simp add: merge_nexthop_def sent_nexthops_def)
next
  case False
  have k: "16 + 8 = (24 :: int)" by simp
  show ?thesis
    unfolding merge_nexthop_def k flags using False nhs nr
    by (simp add: sent_nexthops_def rtnl_route_add_nexthop_def Let_def split: option.split)
qed

lemma and_then_weak: "m = m' \<Longrightarrow> and_then m f = and_then m' f"
  by simp

lemma route_fill_sent:
  assumes wf: "wf_route tmpl" and short: "blen (attrs_bytes (route_attr_list tmpl)) \<le> 65531"
    and e: "\<And>t. int t \<le> RTA_MAX \<Longrightarrow> entry_is buf (tb ! t) (map_of (seen_attrs tmpl) (int t))"
    and h: "rd buf 16 12 = sent_hdr tmpl" and obj: "ce_data obj = route_constructor zero_route" "ce_mask obj = 0"
    and env: "pe_attr env = (\<lambda>_. True)" "pe_nh env" "pe_mp env = (\<lambda>_ _. True)" "length (rt_nexthops (ce_data tmpl)) \<le> pe_rooms env"
  shows "route_fill env buf 0 tb obj =
    Inr (obj\<lparr>ce_msgtype := nlmsg_type (nlh buf 0), ce_data := sent_route tmpl, ce_mask := sent_route_mask tmpl\<rparr>)"
proof -
  let ?r = "ce_data tmpl"
  let ?has = "has_attr tmpl"
  note E = route_entries [OF e]
  note hdr = route_from_hdr_reads [OF h wf]
  have w: "rt_family ?r = AF_INET \<or> rt_family ?r = AF_INET6" "0 \<le> rt_table ?r" "rt_table ?r < 4294967296"
    "0 \<le> rt_iif ?r" "rt_iif ?r < 4294967296" "0 \<le> rt_prio ?r" "rt_prio ?r < 4294967296" "0 \<le> rt_ttl_propagate ?r" "rt_ttl_propagate ?r < 256"
    "list_all simple_nh (rt_nexthops ?r)" "blen (rt_nexthops ?r) < 2147483648" "0 \<le> rt_metrics_mask ?r" "rt_metrics_mask ?r < 2 ^ 17"
    "rt_nmetrics ?r = blen (filter (metric_bit ?r) [0 ..< 17])"
    using wf by (simp_all add: wf_route_def Let_def)
  have fam: "rt_family ?r \<noteq> AF_MPLS" using w(1) by (auto simp: AF_INET_def AF_INET6_def AF_MPLS_def)
  note addrs = wf_route_addrs [OF wf]
  have lens: "0 < rt_nmetrics ?r \<Longrightarrow> blen (attrs_bytes (metric_attrs tmpl [1 .. RTAX_MAX])) \<le> 65531"
    "many_nh ?r \<Longrightarrow> blen (concat (map rtnh_bytes (rt_nexthops ?r))) \<le> 65531"
    using route_nests_short [OF short] by blast+
  have table: "opt_attr (tb ! 15) (\<lambda>p obj. Inr (rtnl_route_set_table obj (nla_get_u32 buf p))) obj =
      Inr (obj\<lparr>ce_data := (ce_data obj)\<lparr>rt_table := rt_table ?r\<rparr>, ce_mask := ce_mask obj OR ROUTE_ATTR_TABLE\<rparr>)" for obj
    using opt_u32 [where b = True and sett = "\<lambda>x r. r\<lparr>rt_table := x\<rparr>" and get = rt_table and set_fn = rtnl_route_set_table and flag = ROUTE_ATTR_TABLE,
        of buf "tb ! 15" "rt_table ?r" obj] E(1) w by (simp add: rtnl_route_set_table_def)
  have iif: "opt_attr (tb ! 3) (\<lambda>p obj. Inr (rtnl_route_set_iif obj (nla_get_u32 buf p))) obj =
      Inr (obj\<lparr>ce_data := (ce_data obj)\<lparr>rt_iif := if ?has ROUTE_ATTR_IIF then rt_iif ?r else rt_iif (ce_data obj)\<rparr>,
        ce_mask := ce_mask obj OR (if ?has ROUTE_ATTR_IIF then ROUTE_ATTR_IIF else 0)\<rparr>)" for obj
    by (rule opt_u32 [where sett = "\<lambda>x r. r\<lparr>rt_iif := x\<rparr>" and get = rt_iif and set_fn = rtnl_route_set_iif, OF E(6)])
      (simp_all add: w rtnl_route_set_iif_def)
  have prio: "opt_attr (tb ! 6) (\<lambda>p obj. Inr (rtnl_route_set_priority obj (nla_get_u32 buf p))) obj =
      Inr (obj\<lparr>ce_data := (ce_data obj)\<lparr>rt_prio := if ?has ROUTE_ATTR_PRIO then rt_prio ?r else rt_prio (ce_data obj)\<rparr>,
        ce_mask := ce_mask obj OR (if ?has ROUTE_ATTR_PRIO then ROUTE_ATTR_PRIO else 0)\<rparr>)" for obj
    by (rule opt_u32 [where sett = "\<lambda>x r. r\<lparr>rt_prio := x\<rparr>" and get = rt_prio and set_fn = rtnl_route_set_priority, OF E(3)])
      (simp_all add: w rtnl_route_set_priority_def)
  have ttl: "opt_attr (tb ! 26) (\<lambda>p obj. Inr (rtnl_route_set_ttl_propagate obj (nla_get_u8 buf p))) obj =
      Inr (obj\<lparr>ce_data := (ce_data obj)\<lparr>rt_ttl_propagate := if ?has ROUTE_ATTR_TTL_PROPAGATE then rt_ttl_propagate ?r else rt_ttl_propagate (ce_data obj)\<rparr>,
        ce_mask := ce_mask obj OR (if ?has ROUTE_ATTR_TTL_PROPAGATE then ROUTE_ATTR_TTL_PROPAGATE else 0)\<rparr>)" for obj
    by (rule opt_entry [where sett = "\<lambda>x r. r\<lparr>rt_ttl_propagate := x\<rparr>" and get = rt_ttl_propagate, OF E(7)])
      (simp_all add: w reads_u8 rtnl_route_set_ttl_propagate_def)
  have cache: "tb ! 12 = None" using E(13) by (simp add: entry_is_def)
  note dst = route_dst_reads [OF E(2) addrs(1) hdr(2) _ fam hdr(3)]
  note src = route_src_reads [OF E(4) addrs(2) hdr(2) _ w(1) hdr(4)]
  note pref = pref_src_reads [OF E(5) addrs(3) _ fam]
  note metrics = metrics_attr_reads [OF E(8) wf lens(1)]
  note mp = multipath_reads [OF E(12) w(10,11) lens(2) env(3,4)]
  note own = own_nexthop_reads [OF E(9,10,11,14,15,16) own_nh_simple [OF w(10)] fam env(1,2)]
  note merge = merge_reads [OF _ _ hdr(5)]
  have d: "nlmsg_data 0 = 16" by (simp add: nlmsg_data_def)
  have met: "map (\<lambda>i. if i < 17 \<and> metric_bit ?r i then rt_metrics ?r ! i else 0) [0 ..< 17] = map (\<lambda>i. if metric_bit ?r i then rt_metrics ?r ! i else 0) [0 ..< 17]"
    "take_bit 17 (rt_metrics_mask ?r) = rt_metrics_mask ?r"
    by (intro map_cong) (use w in \<open>auto simp: take_bit_int_eq_self\<close>)
  have mn: "Suc 0 < length (rt_nexthops ?r) \<Longrightarrow> rt_nexthops ?r \<noteq> [] \<and> sent_nexthops ?r \<noteq> []" by (auto simp: sent_nexthops_def)
  show ?thesis
    unfolding route_fill_def Let_def d hdr(1,2) env(1)
    by (simp add: dst [unfolded One_nat_def] src table iif prio pref metrics mp cache own ttl merge fam obj route_constructor_def zero_route_def
        family_known or.assoc first_metrics_def with_nexthops_def cong: and_then_weak cong del: if_weak_cong split del: if_split)
      (cases "Suc 0 < length (rt_nexthops ?r)"; cases "src_sent tmpl"; cases "?has ROUTE_ATTR_PREF_SRC"; cases "?has ROUTE_ATTR_PRIO";
       simp add: Let_def sent_route_def sent_route_mask_def sent_addr_def zero_route_def met mn w(14) src_sent_def [symmetric]
         or.assoc or.commute or.left_commute cong del: if_weak_cong split del: if_split)
qed


section \<open>Room\<close>

lemma metric_attrs_short: "blen (attrs_bytes (metric_attrs tmpl is)) \<le> 8 * blen is"
proof (induction "is")
  case (Cons i "is")
  then show ?case by (auto simp: metric_attrs_def align4_eq split: sum.splits)
qed (simp add: metric_attrs_def)

lemma rtnh_bytes_short: "list_all simple_nh nhs \<Longrightarrow> blen (concat (map rtnh_bytes nhs)) \<le> 144 * blen nhs"
proof (induction nhs)
  case (Cons nh nhs)
  then show ?case using mp_attrs_length [of nh] by (simp add: rtnh_bytes_def Let_def)
qed simp

lemma nexthop_attrs_short:
  assumes "list_all simple_nh nhs"
  shows "blen (attrs_bytes (nexthop_attrs nhs)) \<le> 208 + 144 * blen nhs"
proof (cases nhs rule: remdups_adj.cases)
  case (2 nh)
  have "list_all (\<lambda>(t, d). blen d \<le> 64) (own_attrs nh)"
    using blen_addr_bytes_of [OF plain_gateway [of nh]] assms 2 by (auto simp: own_attrs_def list_all_opt)
  moreover have "length (own_attrs nh) \<le> 3" by (simp add: own_attrs_def opt_def)
  ultimately show ?thesis using blen_attrs_le [of "own_attrs nh"] by (simp add: 2 nexthop_attrs_def)
next
  case (3 a b xs)
  have "nexthop_attrs nhs = [(32768 + 9, concat (map rtnh_bytes nhs))]" by (simp add: 3 nexthop_attrs_def)
  then show ?thesis using rtnh_bytes_short [OF assms] align4_lt [of "blen (concat (map rtnh_bytes nhs))"] by simp
qed (simp add: nexthop_attrs_def)

lemma route_attrs_short:
  assumes wf: "wf_route tmpl"
  shows "blen (attrs_bytes (route_attr_list tmpl)) \<le> 828 + 144 * blen (rt_nexthops (ce_data tmpl))"
proof -
  let ?r = "ce_data tmpl" and ?has = "has_attr tmpl"
  let ?as = "opt True (15, le_bytes 4 (rt_table ?r)) @ opt (has_dst ?r) (1, addr_bytes_of (rt_dst ?r)) @
    opt (?has ROUTE_ATTR_PRIO) (6, le_bytes 4 (rt_prio ?r)) @ opt (?has ROUTE_ATTR_SRC) (2, addr_bytes_of (rt_src ?r)) @
    opt (?has ROUTE_ATTR_PREF_SRC) (7, addr_bytes_of (rt_pref_src ?r)) @ opt (?has ROUTE_ATTR_IIF) (3, le_bytes 4 (rt_iif ?r)) @
    opt (?has ROUTE_ATTR_TTL_PROPAGATE) (26, le_bytes 1 (rt_ttl_propagate ?r))"
  let ?m = "opt (rt_nmetrics ?r > 0) (32768 + 8, attrs_bytes (metric_attrs tmpl [1 .. RTAX_MAX]))"
  have "list_all (\<lambda>(t, d). blen d \<le> 64) ?as"
    using wf_route_addrs [OF wf, THEN blen_addr_bytes_of] by (auto simp: list_all_opt)
  moreover have "length ?as \<le> 7" by (simp add: opt_def)
  ultimately have a: "blen (attrs_bytes ?as) \<le> 476" using blen_attrs_le [of ?as] by linarith
  have "blen (attrs_bytes (metric_attrs tmpl [1 .. RTAX_MAX])) \<le> 136" using metric_attrs_short [of tmpl "[1 .. RTAX_MAX]"] by (simp add: RTAX_MAX_def)
  moreover have "blen (attrs_bytes ?m) \<le> 4 + align4 (blen (attrs_bytes (metric_attrs tmpl [1 .. RTAX_MAX])))"
    using align4_ge [of "blen (attrs_bytes (metric_attrs tmpl [1 .. RTAX_MAX]))"]
    by (cases "rt_nmetrics ?r > 0") (simp_all add: opt_def del: of_nat_le_iff)
  ultimately have m: "blen (attrs_bytes ?m) \<le> 144"
    using align4_lt [of "blen (attrs_bytes (metric_attrs tmpl [1 .. RTAX_MAX]))"] by linarith
  have "list_all simple_nh (rt_nexthops ?r)" using wf by (simp add: wf_route_def Let_def)
  note n = nexthop_attrs_short [OF this]
  have "attrs_bytes (route_attr_list tmpl) = attrs_bytes ?as @ attrs_bytes ?m @ attrs_bytes (nexthop_attrs (rt_nexthops ?r))"
    by (simp add: route_attr_list_def Let_def)
  then show ?thesis using a m n by simp
qed

section \<open>Properties\<close>

lemma route_parser_delivers:
  assumes "nlmsg_parse buf 0 12 RTA_MAX (Some route_policy) = (Some tb, Inr ())"
    and "route_fill env buf 0 tb (new_object (\<lambda>_. route_obj_ops addr) 0) = Inr (fill (new_object (\<lambda>_. route_obj_ops addr) 0))"
  shows "route_msg_parser addr (Some p) env buf 0 pp_cb h u = deliver (\<lambda>_. route_obj_ops addr) 0 (Some p) fill pp_cb h u"
proof -
  have sz: "SIZEOF_NL_OBJECT \<le> oo_size (route_obj_ops addr)" by (simp add: SIZEOF_NL_OBJECT_def route_obj_ops_def)
  have "nl_object_alloc (\<lambda>_. route_obj_ops addr) (Some p) 0 h = Inr (Some p, set_obj p (new_object (\<lambda>_. route_obj_ops addr) 0) h)"
    using sz by (simp add: nl_object_alloc_def new_object_def Let_def)
  then show ?thesis
    using assms by (simp add: deliver_eq [where ops = "\<lambda>_. route_obj_ops addr", OF sz] route_msg_parser_def rtnl_route_parse_def Let_def)
qed

text \<open>
  C6. Sending and receiving routes are inverse: for every well-formed IPv4 or IPv6 route with any metrics and up to 400 next
  hops that have no encapsulation, no \<open>RTA_VIA\<close> and no new destination, \<open>build_route_msg\<close> succeeds if the message has 856 bytes and 144 more for each next hop, and
  \<open>route_msg_parser\<close> on the message, when no allocation fails, hands an object to its callback that has the data of the
  route in every attribute that was sent, each metric, and each next hop in its order; the scope is the one guessed if none was
  set, a source is kept in IPv6 only, the flags of a route with one next hop are joined with those of the next hop, and that next hop
  is not made if it has neither gateway nor interface nor realms.
\<close>

theorem route_build_then_parse:
  assumes wf: "wf_route tmpl" and hops: "length (rt_nexthops (ce_data tmpl)) \<le> 400"
    and dsz: "856 + 144 * blen (rt_nexthops (ce_data tmpl)) \<le> dsz" "dsz < 2147483648"
    and env: "pe_attr env = (\<lambda>_. True)" "pe_nh env" "pe_mp env = (\<lambda>_ _. True)" "length (rt_nexthops (ce_data tmpl)) \<le> pe_rooms env"
  shows "\<exists>msg. build_route_msg True True dsz tmpl cmd flags = Inr msg \<and> nlmsg_type (nlmsg_hdr msg) = u16 cmd \<and>
    (\<forall>addr p pp_cb h u. route_msg_parser addr (Some p) env (nm_nlh msg) 0 pp_cb h (u :: 'u) =
       deliver (\<lambda>_. route_obj_ops addr) 0 (Some p)
         (\<lambda>obj. obj\<lparr>ce_msgtype := u16 cmd, ce_data := sent_route tmpl, ce_mask := sent_route_mask tmpl\<rparr>) pp_cb h u)"
proof -
  let ?as = "route_attr_list tmpl"
  have l: "blen (attrs_bytes ?as) \<le> 828 + 144 * blen (rt_nexthops (ce_data tmpl))" by (rule route_attrs_short [OF wf])
  then have short: "blen (attrs_bytes ?as) \<le> 65531" using hops by linarith
  have hl: "blen (sent_hdr tmpl) = 12" by (simp add: sent_hdr_def route_hdr_def Let_def)
  have known: "\<forall>(t, d) \<in> set (seen_attrs tmpl). t \<le> RTA_MAX \<and> payload_ok (route_policy ! nat t) d"
    using seen_attrs_known [of tmpl] by (simp add: list_all_iff)
  have room: "16 + blen (sent_hdr tmpl) + blen (attrs_bytes ?as) \<le> dsz" "blen (sent_hdr tmpl) mod 4 = 0" "0 \<le> RTA_MAX"
    using l dsz(1) by (simp_all add: hl RTA_MAX_def)
  note built = appended_parsed [OF appends_route [OF wf short] route_attrs_fit [OF wf short] room(1) dsz(2) room(2) _ _ room(3),
      where policy = route_policy and cmd = cmd and flags = flags, unfolded hl base_types_route build_route_msg_def [symmetric], OF known seen_attrs_distinct]
  from built obtain msg tb where m: "build_route_msg True True dsz tmpl cmd flags = Inr msg" "rd (nm_nlh msg) 16 12 = sent_hdr tmpl"
    "nlmsg_type (nlmsg_hdr msg) = u16 cmd" "nlmsg_parse (nm_nlh msg) 0 12 RTA_MAX (Some route_policy) = (Some tb, Inr ())"
    "\<And>t. int t \<le> RTA_MAX \<Longrightarrow> entry_is (nm_nlh msg) (tb ! t) (map_of (seen_attrs tmpl) (int t))" by metis
  have fill: "route_fill env (nm_nlh msg) 0 tb (new_object (\<lambda>_. route_obj_ops addr) 0) =
      Inr (new_object (\<lambda>_. route_obj_ops addr) 0\<lparr>ce_msgtype := u16 cmd, ce_data := sent_route tmpl, ce_mask := sent_route_mask tmpl\<rparr>)" for addr
    using route_fill_sent [OF wf short m(5,2) _ _ env, of "new_object (\<lambda>_. route_obj_ops addr) 0"] m(3)
    by (simp add: new_object_def route_obj_ops_def nlmsg_hdr_def)
  note parsed = route_parser_delivers [OF m(4), where fill =
      "\<lambda>obj. obj\<lparr>ce_msgtype := u16 cmd, ce_data := sent_route tmpl, ce_mask := sent_route_mask tmpl\<rparr>", OF fill]
  show ?thesis using m(1,3) by (intro exI [of _ msg]) (simp add: parsed)
qed

text \<open>The route 10.0.0.0/8 with a metric and two gateways.\<close>

definition ip4_addr :: "byte list \<Rightarrow> int \<Rightarrow> nl_addr" where
  "ip4_addr bytes plen = \<lparr>a_family = AF_INET, a_maxsize = 4, a_len = 4, a_prefixlen = plen, a_refcnt = 1, a_addr = bytes\<rparr>"

definition gateway_nh :: "byte list \<Rightarrow> int \<Rightarrow> rtnl_nexthop" where
  "gateway_nh bytes weight = rtnl_route_nh_set_gateway (rtnl_route_nh_set_weight new_nexthop weight) (Some (ip4_addr bytes 32))"

definition ok_route :: "route_obj res \<Rightarrow> route_obj" where
  "ok_route r = (case r of Inr x \<Rightarrow> x | Inl _ \<Rightarrow> new_route)"

definition two_way_route :: route_obj where
  "two_way_route =
     rtnl_route_add_nexthop (rtnl_route_add_nexthop
       (ok_route (rtnl_route_set_metric (rtnl_route_set_priority (ok_route (rtnl_route_set_dst new_route (ip4_addr [10, 0, 0, 0] 8))) 7) 2 1500))
       (gateway_nh [192, 168, 0, 1] 5)) (gateway_nh [192, 168, 0, 2] 9)"

definition roomy :: parse_env where
  "roomy = \<lparr>pe_pton = (\<lambda>_ _. None), pe_attr = (\<lambda>_. True), pe_nh = True, pe_rooms = 8, pe_mp = (\<lambda>_ _. True)\<rparr>"

theorem route_build_then_parse_witness:
  "\<exists>msg. build_route_msg True True 4096 two_way_route RTM_NEWROUTE 0 = Inr msg \<and>
     (\<forall>pp_cb h. route_msg_parser 0 (Some 7) roomy (nm_nlh msg) 0 pp_cb h () =
       deliver (\<lambda>_. route_obj_ops 0) 0 (Some 7)
         (\<lambda>obj. obj\<lparr>ce_msgtype := 24, ce_data := sent_route two_way_route, ce_mask := 0xD0FF\<rparr>) pp_cb h ()) \<and>
     map (\<lambda>nh. (map_option a_addr (nh_gateway nh), nh_weight nh)) (rt_nexthops (sent_route two_way_route)) =
       [(Some [192, 168, 0, 1], 5), (Some [192, 168, 0, 2], 9)] \<and>
     rt_metrics (sent_route two_way_route) ! 1 = 1500 \<and> rt_prio (sent_route two_way_route) = 7 \<and>
     map_option (\<lambda>a. (a_addr a, a_prefixlen a)) (rt_dst (sent_route two_way_route)) = Some ([10, 0, 0, 0], 8)"
proof -
  have w: "wf_route two_way_route" "length (rt_nexthops (ce_data two_way_route)) = 2" by code_simp+
  have f: "sent_route_mask two_way_route = 0xD0FF" "u16 RTM_NEWROUTE = 24"
    "map (\<lambda>nh. (map_option a_addr (nh_gateway nh), nh_weight nh)) (rt_nexthops (sent_route two_way_route)) =
       [(Some [192, 168, 0, 1], 5), (Some [192, 168, 0, 2], 9)]"
    "rt_metrics (sent_route two_way_route) ! 1 = 1500" "rt_prio (sent_route two_way_route) = 7"
    "map_option (\<lambda>a. (a_addr a, a_prefixlen a)) (rt_dst (sent_route two_way_route)) = Some ([10, 0, 0, 0], 8)"
    by code_simp+
  have e: "pe_attr roomy = (\<lambda>_. True)" "pe_nh roomy" "pe_mp roomy = (\<lambda>_ _. True)" "pe_rooms roomy = 8" by (simp_all add: roomy_def)
  show ?thesis using route_build_then_parse [where ?'u = unit, OF w(1) _ _ _ e(1-3), of 4096 RTM_NEWROUTE 0] w(2) e(4) f by auto
qed

end
