(* ===== verification/Nl_List.thy ===== *)
theory Nl_List
  imports Nl_Prelude
begin

text \<open>
  Doubly linked lists (\<open>include/netlink/list.h\<close>). The rest of the development takes the lists of the
  library to be HOL lists; here they are cells in memory, with the pointers of \<open>struct nl_list_head\<close>,
  and the operations are shown to implement those on HOL lists.
\<close>

section \<open>Cells\<close>

record lcells =
  lnext :: "nat \<Rightarrow> nat"
  lprev :: "nat \<Rightarrow> nat"

definition NL_INIT_LIST_HEAD :: "nat \<Rightarrow> lcells \<Rightarrow> lcells" where
  "NL_INIT_LIST_HEAD l m = m\<lparr>lnext := (lnext m)(l := l), lprev := (lprev m)(l := l)\<rparr>"

text \<open>The four assignments in the order of the code.\<close>

definition nl_list_add :: "nat \<Rightarrow> nat \<Rightarrow> nat \<Rightarrow> lcells \<Rightarrow> lcells" where
  "nl_list_add obj prv nxt m =
     (let m = m\<lparr>lnext := (lnext m)(prv := obj)\<rparr>;
          m = m\<lparr>lprev := (lprev m)(obj := prv)\<rparr>;
          m = m\<lparr>lprev := (lprev m)(nxt := obj)\<rparr>
      in m\<lparr>lnext := (lnext m)(obj := nxt)\<rparr>)"

definition nl_list_add_tail :: "nat \<Rightarrow> nat \<Rightarrow> lcells \<Rightarrow> lcells" where
  "nl_list_add_tail obj head m = nl_list_add obj (lprev m head) head m"

definition nl_list_add_head :: "nat \<Rightarrow> nat \<Rightarrow> lcells \<Rightarrow> lcells" where
  "nl_list_add_head obj head m = nl_list_add obj head (lnext m head) m"

definition nl_list_del :: "nat \<Rightarrow> lcells \<Rightarrow> lcells" where
  "nl_list_del obj m =
     (let m = m\<lparr>lprev := (lprev m)(lnext m obj := lprev m obj)\<rparr>
      in m\<lparr>lnext := (lnext m)(lprev m obj := lnext m obj)\<rparr>)"

definition nl_list_empty :: "nat \<Rightarrow> lcells \<Rightarrow> bool" where
  "nl_list_empty head m \<longleftrightarrow> lnext m head = head"

definition nl_list_at_tail :: "nat \<Rightarrow> nat \<Rightarrow> lcells \<Rightarrow> bool" where
  "nl_list_at_tail pos head m \<longleftrightarrow> lnext m pos = head"

definition nl_list_at_head :: "nat \<Rightarrow> nat \<Rightarrow> lcells \<Rightarrow> bool" where
  "nl_list_at_head pos head m \<longleftrightarrow> lprev m pos = head"

definition nl_list_first_entry :: "nat \<Rightarrow> lcells \<Rightarrow> nat" where
  "nl_list_first_entry head m = lnext m head"

text \<open>The cells that \<open>nl_list_for_each_entry\<close> visits from \<open>pos\<close> on; \<open>None\<close> if the fuel is used up.\<close>

fun for_each_from :: "nat \<Rightarrow> nat \<Rightarrow> nat \<Rightarrow> lcells \<Rightarrow> nat list option" where
  "for_each_from 0 pos head m = None"
| "for_each_from (Suc fuel) pos head m =
     (if pos = head then Some []
      else map_option (Cons pos) (for_each_from fuel (lnext m pos) head m))"

definition nl_list_for_each_entry :: "nat \<Rightarrow> nat \<Rightarrow> lcells \<Rightarrow> nat list option" where
  "nl_list_for_each_entry fuel head m = for_each_from fuel (lnext m head) head m"

section \<open>Lists in memory\<close>

text \<open>\<open>seg m a xs b\<close>: from \<open>a\<close> the pointers lead through \<open>xs\<close> to \<open>b\<close> and back.\<close>

fun seg :: "lcells \<Rightarrow> nat \<Rightarrow> nat list \<Rightarrow> nat \<Rightarrow> bool" where
  "seg m a [] b \<longleftrightarrow> lnext m a = b \<and> lprev m b = a"
| "seg m a (x # xs) b \<longleftrightarrow> lnext m a = x \<and> lprev m x = a \<and> seg m x xs b"

definition dlist :: "lcells \<Rightarrow> nat \<Rightarrow> nat list \<Rightarrow> bool" where
  "dlist m head xs \<longleftrightarrow> seg m head xs head \<and> distinct (head # xs)"

lemma seg_append: "seg m a (xs @ y # ys) b \<longleftrightarrow> seg m a xs y \<and> seg m y ys b"
  by (induction xs arbitrary: a) auto

lemma seg_cong:
  assumes "seg m a xs b" "\<And>c. c \<in> insert a (set xs) \<Longrightarrow> lnext m' c = lnext m c"
    "\<And>c. c \<in> insert b (set xs) \<Longrightarrow> lprev m' c = lprev m c"
  shows "seg m' a xs b"
  using assms by (induction xs arbitrary: a) auto

lemma seg_last: "seg m a xs b \<Longrightarrow> lprev m b = last (a # xs)"
  by (induction xs arbitrary: a) auto

lemma seg_first: "seg m a xs b \<Longrightarrow> lnext m a = hd (xs @ [b])"
  by (cases xs) auto

lemma nl_list_add_simps:
  "lnext (nl_list_add obj prv nxt m) = (lnext m)(prv := obj, obj := nxt)"
  "lprev (nl_list_add obj prv nxt m) = (lprev m)(obj := prv, nxt := obj)"
  by (simp_all add: nl_list_add_def Let_def)

lemma seg_add_tail:
  assumes "seg m a xs b" "distinct (a # xs)" "b \<notin> set xs" "obj \<notin> set (a # b # xs)"
  shows "seg (nl_list_add obj (last (a # xs)) b m) a (xs @ [obj]) b"
  using assms
proof (induction xs arbitrary: a)
  case Nil
  then show ?case by (simp add: nl_list_add_simps)
next
  case (Cons x xs)
  have "seg (nl_list_add obj (last (x # xs)) b m) x (xs @ [obj]) b" using Cons by simp
  moreover have "a \<noteq> last (x # xs)" using Cons.prems(2) last_in_set [of "x # xs"] by force
  ultimately show ?case using Cons.prems by (auto simp: nl_list_add_simps)
qed

lemma seg_add_head:
  assumes "seg m a xs b" "distinct (a # xs)" "b \<notin> set xs" "obj \<notin> set (a # b # xs)"
  shows "seg (nl_list_add obj a (hd (xs @ [b])) m) a (obj # xs) b"
proof (cases xs)
  case Nil
  then show ?thesis using assms by (simp add: nl_list_add_simps)
next
  case (Cons x xs')
  then have h: "seg m x xs' b" "lnext m a = x" "lprev m x = a" and d: "a \<noteq> x" "x \<noteq> b" "x \<notin> set xs'" "a \<notin> set xs'"
    "b \<notin> set xs'" "obj \<notin> set (a # b # x # xs')"
    using assms by auto
  have "seg (nl_list_add obj a x m) x xs' b"
    using d by (intro seg_cong [OF h(1)]) (auto simp: nl_list_add_simps)
  then show ?thesis using d by (simp add: Cons nl_list_add_simps)
qed

lemma nl_list_del_simps:
  assumes "lprev m (lnext m obj) = obj" "lnext m (lprev m obj) = obj" "lprev m obj \<noteq> obj" "lnext m obj \<noteq> obj"
  shows "lnext (nl_list_del obj m) = (lnext m)(lprev m obj := lnext m obj)"
    "lprev (nl_list_del obj m) = (lprev m)(lnext m obj := lprev m obj)"
  using assms by (auto simp: nl_list_del_def Let_def)

text \<open>The two assignments of a deletion close the gap.\<close>

lemma seg_close:
  assumes "seg m a (xs @ obj # ys) b" "distinct (a # xs @ obj # ys)" "b \<notin> set (xs @ obj # ys)"
    and "lnext m' = (lnext m)(last (a # xs) := hd (ys @ [b]))" "lprev m' = (lprev m)(hd (ys @ [b]) := last (a # xs))"
  shows "seg m' a (xs @ ys) b"
  using assms
proof (induction xs arbitrary: a)
  case Nil
  show ?case
  proof (cases ys)
    case (Cons y ys')
    then have h: "seg m y ys' b" and d: "a \<notin> set (y # ys')" "y \<notin> set (b # ys')" using Nil by auto
    have "seg m' y ys' b" using d Nil(4,5) Cons by (intro seg_cong [OF h]) auto
    then show ?thesis using Nil(4,5) Cons by simp
  qed (use Nil in simp)
next
  case (Cons x xs)
  have "seg m' x (xs @ ys) b" using Cons by simp
  moreover have "a \<noteq> last (x # xs)" using Cons.prems(2) last_in_set [of "x # xs"] by force
  moreover have "x \<noteq> hd (ys @ [b])" using Cons.prems(2,3) by (cases ys) auto
  ultimately show ?case using Cons.prems by simp
qed

lemma seg_del:
  assumes "seg m a (xs @ obj # ys) b" "distinct (a # xs @ obj # ys)" "b \<notin> set (xs @ obj # ys)"
  shows "seg (nl_list_del obj m) a (xs @ ys) b"
proof (rule seg_close [OF assms])
  have s: "seg m a xs obj" "seg m obj ys b" using assms(1) by (simp_all add: seg_append)
  have pn: "lprev m obj = last (a # xs)" "lnext m obj = hd (ys @ [b])" using seg_last [OF s(1)] seg_first [OF s(2)] by auto
  have "last (a # xs) \<in> set (a # xs)" "hd (ys @ [b]) \<in> set (ys @ [b])" by (rule last_in_set, simp) (rule hd_in_set, simp)
  then have ne: "last (a # xs) \<noteq> obj" "hd (ys @ [b]) \<noteq> obj" using assms(2,3) by (auto split: if_splits)
  have "lnext m (last (a # xs)) = obj" using s(1) by (induction xs arbitrary: a) auto
  moreover have "lprev m (hd (ys @ [b])) = obj" using s(2) by (cases ys) auto
  ultimately show "lnext (nl_list_del obj m) = (lnext m)(last (a # xs) := hd (ys @ [b]))"
      "lprev (nl_list_del obj m) = (lprev m)(hd (ys @ [b]) := last (a # xs))"
    using pn ne nl_list_del_simps [of m obj] by auto
qed

lemma for_each_seg:
  "seg m a xs b \<Longrightarrow> b \<notin> set xs \<Longrightarrow> length xs < fuel \<Longrightarrow> for_each_from fuel (lnext m a) b m = Some xs"
proof (induction xs arbitrary: a fuel)
  case Nil
  then show ?case by (cases fuel) auto
next
  case (Cons x xs)
  then show ?case by (cases fuel) auto
qed

lemma dlist_ops:
  assumes "dlist m head xs"
  shows "obj \<notin> set (head # xs) \<Longrightarrow> dlist (nl_list_add_tail obj head m) head (xs @ [obj])"
    and "obj \<notin> set (head # xs) \<Longrightarrow> dlist (nl_list_add_head obj head m) head (obj # xs)"
    and "obj \<in> set xs \<Longrightarrow> dlist (nl_list_del obj m) head (remove1 obj xs)"
    and "dlist (NL_INIT_LIST_HEAD l m) l []"
    and "nl_list_empty head m \<longleftrightarrow> xs = []"
    and "nl_list_for_each_entry (Suc (length xs)) head m = Some xs"
proof -
  have s: "seg m head xs head" "distinct (head # xs)" "head \<notin> set xs" using assms by (auto simp: dlist_def)
  show "dlist (nl_list_add_tail obj head m) head (xs @ [obj])" if "obj \<notin> set (head # xs)"
    using seg_add_tail [OF s, of obj] that s(2) seg_last [OF s(1)] by (auto simp: dlist_def nl_list_add_tail_def)
  show "dlist (nl_list_add_head obj head m) head (obj # xs)" if "obj \<notin> set (head # xs)"
    using seg_add_head [OF s, of obj] that s(2) seg_first [OF s(1)] by (auto simp: dlist_def nl_list_add_head_def)
  show "dlist (nl_list_del obj m) head (remove1 obj xs)" if o: "obj \<in> set xs"
  proof -
    obtain ys zs where x: "xs = ys @ obj # zs" "obj \<notin> set ys" using split_list_first [OF o] by blast
    then show ?thesis using seg_del [of m head ys obj zs head] s by (auto simp: dlist_def remove1_append)
  qed
  show "dlist (NL_INIT_LIST_HEAD l m) l []" by (simp add: dlist_def NL_INIT_LIST_HEAD_def)
  show "nl_list_empty head m \<longleftrightarrow> xs = []" using s by (cases xs) (auto simp: nl_list_empty_def)
  show "nl_list_for_each_entry (Suc (length xs)) head m = Some xs"
    unfolding nl_list_for_each_entry_def by (rule for_each_seg [OF s(1,3)]) simp
qed

section \<open>Properties\<close>

text \<open>
  C18. The linked lists implement lists: if the cells at \<open>head\<close> represent \<open>xs\<close>, then adding a free cell
  at the tail or head, deleting a cell of the list and initialising a head give the representation of
  the corresponding HOL list, \<open>nl_list_empty\<close> tells whether there are elements, and the loop
  \<open>nl_list_for_each_entry\<close> ends and visits exactly the elements in order.
\<close>

theorem nl_list_refines:
  assumes "dlist m head xs"
  shows "(obj \<notin> set (head # xs) \<longrightarrow> dlist (nl_list_add_tail obj head m) head (xs @ [obj])) \<and>
    (obj \<notin> set (head # xs) \<longrightarrow> dlist (nl_list_add_head obj head m) head (obj # xs)) \<and>
    (obj \<in> set xs \<longrightarrow> dlist (nl_list_del obj m) head (remove1 obj xs)) \<and>
    dlist (NL_INIT_LIST_HEAD l m) l [] \<and>
    (nl_list_empty head m \<longleftrightarrow> xs = []) \<and>
    nl_list_for_each_entry (Suc (length xs)) head m = Some xs"
  using dlist_ops [OF assms] by blast

text \<open>The list with head 0 and the elements 1 and 2.\<close>

definition list12 :: lcells where
  "list12 = nl_list_add_tail 2 0 (nl_list_add_tail 1 0 (NL_INIT_LIST_HEAD 0 \<lparr>lnext = (\<lambda>_. 9), lprev = (\<lambda>_. 9)\<rparr>))"

theorem nl_list_refines_witness:
  "dlist (nl_list_del 1 list12) 0 [2] \<and> nl_list_for_each_entry 3 0 list12 = Some [1, 2]"
proof -
  have "dlist list12 0 [1, 2]"
    by (simp add: dlist_def list12_def nl_list_add_tail_def nl_list_add_simps NL_INIT_LIST_HEAD_def)
  from nl_list_refines [OF this, of 1 0] show ?thesis by (simp add: numeral_3_eq_3)
qed

end
