(* ===== verification/Nl_Mngt.thy ===== *)
theory Nl_Mngt
  imports Nl_Cache_Sync
begin

unbundle bit_operations_syntax

text \<open>
  Cache management (\<open>lib/cache_mngt.c\<close>; \<open>nl_cache_alloc_name\<close> of \<open>lib/cache.c\<close>): the list of registered
  cache types and the caches that are offered to other modules. The table \<open>cops\<close> holds the constant
  fields of \<open>struct nl_cache_ops\<close>; the fields that change, \<open>co_next\<close> (as the list), \<open>co_refcnt\<close> and
  \<open>co_major_cache\<close>, are in the record below. Each function holds the lock and is one step.
\<close>

section \<open>Data\<close>

record cache_mngt =
  cache_ops :: "nat list"
  co_refcnt :: "nat \<Rightarrow> int"
  co_major_cache :: "nat \<Rightarrow> nat option"

section \<open>Cache types\<close>

text \<open>The three loops over the list.\<close>

definition cache_ops_by_name :: "cops \<Rightarrow> string \<Rightarrow> cache_mngt \<Rightarrow> nat option" where
  "cache_ops_by_name cops name m = List.find (\<lambda>t. co_name (cops t) = Some name) (cache_ops m)"

definition cache_ops_by_msgtype :: "cops \<Rightarrow> int \<Rightarrow> int \<Rightarrow> cache_mngt \<Rightarrow> nat option" where
  "cache_ops_by_msgtype cops protocol msgtype m =
     List.find (\<lambda>t. co_protocol (cops t) = protocol \<and> nl_msgtype_lookup (co_msgtypes (cops t)) msgtype \<noteq> None) (cache_ops m)"

definition cache_ops_lookup_for_obj :: "cops \<Rightarrow> nat option \<Rightarrow> cache_mngt \<Rightarrow> nat option" where
  "cache_ops_lookup_for_obj cops oo m = List.find (\<lambda>t. co_obj_ops (cops t) = oo) (cache_ops m)"

text \<open>The counter is an \<open>unsigned int\<close>.\<close>

definition nl_cache_ops_get :: "nat \<Rightarrow> cache_mngt \<Rightarrow> cache_mngt" where
  "nl_cache_ops_get t m = m\<lparr>co_refcnt := (co_refcnt m)(t := (co_refcnt m t + 1) mod 2 ^ 32)\<rparr>"

definition nl_cache_ops_put :: "nat \<Rightarrow> cache_mngt \<Rightarrow> cache_mngt" where
  "nl_cache_ops_put t m = m\<lparr>co_refcnt := (co_refcnt m)(t := (co_refcnt m t - 1) mod 2 ^ 32)\<rparr>"

definition nl_cache_ops_lookup :: "cops \<Rightarrow> string \<Rightarrow> cache_mngt \<Rightarrow> nat option" where
  "nl_cache_ops_lookup cops name m = cache_ops_by_name cops name m"

definition nl_cache_ops_lookup_safe :: "cops \<Rightarrow> string \<Rightarrow> cache_mngt \<Rightarrow> nat option \<times> cache_mngt" where
  "nl_cache_ops_lookup_safe cops name m =
     (case cache_ops_by_name cops name m of None \<Rightarrow> (None, m) | Some t \<Rightarrow> (Some t, nl_cache_ops_get t m))"

definition nl_cache_ops_associate :: "cops \<Rightarrow> int \<Rightarrow> int \<Rightarrow> cache_mngt \<Rightarrow> nat option" where
  "nl_cache_ops_associate cops protocol msgtype m = cache_ops_by_msgtype cops protocol msgtype m"

definition nl_cache_ops_associate_safe :: "cops \<Rightarrow> int \<Rightarrow> int \<Rightarrow> cache_mngt \<Rightarrow> nat option \<times> cache_mngt" where
  "nl_cache_ops_associate_safe cops protocol msgtype m =
     (case cache_ops_by_msgtype cops protocol msgtype m of None \<Rightarrow> (None, m) | Some t \<Rightarrow> (Some t, nl_cache_ops_get t m))"

definition nl_cache_ops_foreach :: "(nat \<Rightarrow> 'u \<Rightarrow> 'u) \<Rightarrow> cache_mngt \<Rightarrow> 'u \<Rightarrow> 'u" where
  "nl_cache_ops_foreach cb m u = fold cb (cache_ops m) u"

definition nl_cache_ops_set_flags :: "nat \<Rightarrow> int \<Rightarrow> cops \<Rightarrow> cops" where
  "nl_cache_ops_set_flags t flags cops = cops(t := (cops t)\<lparr>co_flags := co_flags (cops t) OR flags\<rparr>)"

definition nl_cache_mngt_register :: "'d ops \<Rightarrow> cops \<Rightarrow> nat \<Rightarrow> cache_mngt \<Rightarrow> (int \<times> cache_mngt) res" where
  "nl_cache_mngt_register ops cops t m =
     (case (co_name (cops t), co_obj_ops (cops t)) of
        (Some name, Some i) \<Rightarrow>
          if oo_keygen (ops i) \<noteq> None \<and> oo_compare (ops i) = None then Inl Bug
          else if cache_ops_by_name cops name m \<noteq> None then Inr (neg_err NLE_EXIST, m)
          else Inr (0, m\<lparr>co_refcnt := (co_refcnt m)(t := 0), cache_ops := t # cache_ops m\<rparr>)
      | _ \<Rightarrow> Inr (neg_err NLE_INVAL, m))"

definition nl_cache_mngt_unregister :: "nat \<Rightarrow> cache_mngt \<Rightarrow> int \<times> cache_mngt" where
  "nl_cache_mngt_unregister t m =
     (if co_refcnt m t > 0 then (neg_err NLE_BUSY, m)
      else if t \<notin> set (cache_ops m) then (neg_err NLE_NOCACHE, m)
      else (0, m\<lparr>cache_ops := remove1 t (cache_ops m)\<rparr>))"

section \<open>Offered caches\<close>

definition nl_cache_mngt_provide :: "cops \<Rightarrow> nat \<Rightarrow> cache_mngt \<Rightarrow> 'd heap \<Rightarrow> (cache_mngt \<times> 'd heap) res" where
  "nl_cache_mngt_provide cops c m h =
     and_then (deref (h_cache h) c) (\<lambda>cache.
       case cache_ops_lookup_for_obj cops (co_obj_ops (cops (c_ops cache))) m of
         None \<Rightarrow> Inl Bug
       | Some t \<Rightarrow>
           and_then (nl_cache_get c h) (\<lambda>h.
             let m = (if co_major_cache m t = None then nl_cache_ops_get t m else m) in
             Inr (m\<lparr>co_major_cache := (co_major_cache m)(t \<mapsto> c)\<rparr>, h)))"

definition nl_cache_mngt_unprovide :: "'d ops \<Rightarrow> cops \<Rightarrow> nat \<Rightarrow> cache_mngt \<Rightarrow> 'd heap \<Rightarrow> (cache_mngt \<times> 'd heap) res" where
  "nl_cache_mngt_unprovide ops cops c m h =
     and_then (deref (h_cache h) c) (\<lambda>cache.
       case cache_ops_lookup_for_obj cops (co_obj_ops (cops (c_ops cache))) m of
         None \<Rightarrow> Inl Bug
       | Some t \<Rightarrow>
           if co_major_cache m t = Some c then
             and_then (nl_cache_free ops (co_major_cache m t) h) (\<lambda>h.
               let m = nl_cache_ops_put t m in
               Inr (m\<lparr>co_major_cache := (co_major_cache m)(t := None)\<rparr>, h))
           else Inr (m, h))"

text \<open>\<open>__nl_cache_mngt_require\<close>; \<open>nl_cache_mngt_require\<close> adds a debug message.\<close>

definition cache_mngt_require :: "cops \<Rightarrow> string \<Rightarrow> cache_mngt \<Rightarrow> nat option \<times> cache_mngt" where
  "cache_mngt_require cops name m =
     (case nl_cache_ops_lookup_safe cops name m of
        (None, m) \<Rightarrow> (None, m)
      | (Some t, m) \<Rightarrow> (co_major_cache m t, nl_cache_ops_put t m))"

definition nl_cache_mngt_require :: "cops \<Rightarrow> string \<Rightarrow> cache_mngt \<Rightarrow> nat option \<times> cache_mngt" where
  "nl_cache_mngt_require cops name m = cache_mngt_require cops name m"

definition nl_cache_mngt_require_safe ::
  "cops \<Rightarrow> string \<Rightarrow> cache_mngt \<Rightarrow> 'd heap \<Rightarrow> (nat option \<times> cache_mngt \<times> 'd heap) res" where
  "nl_cache_mngt_require_safe cops name m h =
     (case nl_cache_mngt_require cops name m of
        (None, m) \<Rightarrow> Inr (None, m, h)
      | (Some c, m) \<Rightarrow> and_then (nl_cache_get c h) (\<lambda>h. Inr (Some c, m, h)))"

text \<open>\<open>a\<close>, \<open>a1\<close>, \<open>a2\<close> as in \<open>nl_cache_alloc\<close>.\<close>

definition nl_cache_alloc_name ::
  "'d ops \<Rightarrow> cops \<Rightarrow> nat option \<Rightarrow> bool \<Rightarrow> bool \<Rightarrow> string \<Rightarrow> cache_mngt \<Rightarrow> 'd heap \<Rightarrow>
   (int \<times> nat option \<times> cache_mngt \<times> 'd heap) res" where
  "nl_cache_alloc_name ops cops a a1 a2 kind m h =
     (case nl_cache_ops_lookup_safe cops kind m of
        (None, m) \<Rightarrow> Inr (neg_err NLE_NOCACHE, None, m, h)
      | (Some t, m) \<Rightarrow>
          and_then (nl_cache_alloc ops cops a a1 a2 t h) (\<lambda>(c, h).
            let m = nl_cache_ops_put t m in
            case c of None \<Rightarrow> Inr (neg_err NLE_NOMEM, None, m, h) | Some c \<Rightarrow> Inr (0, Some c, m, h)))"

section \<open>Programs\<close>

text \<open>
  Sequences of calls, as in the theory of cache programs. The ghost fields count what the program
  holds: references to objects, to cache types and to caches; \<open>w_lost\<close> counts the references to caches
  that no one owns any more.
\<close>

record 'd world =
  w_mngt :: cache_mngt
  w_heap :: "'d heap"
  w_refs :: "nat \<Rightarrow> int"
  w_orefs :: "nat \<Rightarrow> int"
  w_crefs :: "nat \<Rightarrow> int"
  w_lost :: "nat \<Rightarrow> int"

datatype 'd mngt_op =
  Register nat
| Unregister nat
| LookupSafe string
| AssociateSafe int int
| OpsPut nat
| Provide nat
| Unprovide nat
| RequireSafe string
| AllocName nat bool bool string
| Call "'d cache_op"

text \<open>What a call on a cache does to the references of the program.\<close>

fun call_crefs :: "'d cache_op \<Rightarrow> (nat \<Rightarrow> int) \<Rightarrow> nat \<Rightarrow> int" where
  "call_crefs (CacheAlloc c a1 a2 j) cr = cr(c := 1)"
| "call_crefs (CacheGet c) cr = cr(c := cr c + 1)"
| "call_crefs (CacheFree c) cr = cr(c := cr c - 1)"
| "call_crefs _ cr = cr"

text \<open>The reference to a cache that \<open>nl_cache_mngt_provide\<close> overwrites is not given back.\<close>

definition overwritten :: "cops \<Rightarrow> nat \<Rightarrow> 'd world \<Rightarrow> nat option" where
  "overwritten cops i w =
     (case cache_ops_lookup_for_obj cops (Some i) (w_mngt w) of
        None \<Rightarrow> None | Some t \<Rightarrow> co_major_cache (w_mngt w) t)"

abbreviation taken :: "nat option \<Rightarrow> (nat \<Rightarrow> int) \<Rightarrow> nat \<Rightarrow> int" where
  "taken x f \<equiv> case x of None \<Rightarrow> f | Some y \<Rightarrow> f(y := f y + 1)"

fun run_mngt :: "'d ops \<Rightarrow> nat \<Rightarrow> cops \<Rightarrow> 'd mngt_op \<Rightarrow> 'd world \<Rightarrow> 'd world res" where
  "run_mngt ops i cops (Register t) w =
     and_then (nl_cache_mngt_register ops cops t (w_mngt w)) (\<lambda>(_, m). Inr (w\<lparr>w_mngt := m\<rparr>))"
| "run_mngt ops i cops (Unregister t) w = Inr (w\<lparr>w_mngt := snd (nl_cache_mngt_unregister t (w_mngt w))\<rparr>)"
| "run_mngt ops i cops (LookupSafe name) w =
     (case nl_cache_ops_lookup_safe cops name (w_mngt w) of (t, m) \<Rightarrow>
        Inr (w\<lparr>w_mngt := m, w_orefs := taken t (w_orefs w)\<rparr>))"
| "run_mngt ops i cops (AssociateSafe protocol msgtype) w =
     (case nl_cache_ops_associate_safe cops protocol msgtype (w_mngt w) of (t, m) \<Rightarrow>
        Inr (w\<lparr>w_mngt := m, w_orefs := taken t (w_orefs w)\<rparr>))"
| "run_mngt ops i cops (OpsPut t) w =
     Inr (w\<lparr>w_mngt := nl_cache_ops_put t (w_mngt w), w_orefs := (w_orefs w)(t := w_orefs w t - 1)\<rparr>)"
| "run_mngt ops i cops (Provide c) w =
     and_then (nl_cache_mngt_provide cops c (w_mngt w) (w_heap w)) (\<lambda>(m, h).
       Inr (w\<lparr>w_mngt := m, w_heap := h, w_lost := taken (overwritten cops i w) (w_lost w)\<rparr>))"
| "run_mngt ops i cops (Unprovide c) w =
     and_then (nl_cache_mngt_unprovide ops cops c (w_mngt w) (w_heap w)) (\<lambda>(m, h).
       Inr (w\<lparr>w_mngt := m, w_heap := h\<rparr>))"
| "run_mngt ops i cops (RequireSafe name) w =
     and_then (nl_cache_mngt_require_safe cops name (w_mngt w) (w_heap w)) (\<lambda>(c, m, h).
       Inr (w\<lparr>w_mngt := m, w_heap := h, w_crefs := taken c (w_crefs w)\<rparr>))"
| "run_mngt ops i cops (AllocName c a1 a2 kind) w =
     and_then (nl_cache_alloc_name ops cops (Some c) a1 a2 kind (w_mngt w) (w_heap w)) (\<lambda>(_, r, m, h).
       Inr (w\<lparr>w_mngt := m, w_heap := h, w_crefs := taken r (w_crefs w)\<rparr>))"
| "run_mngt ops i cops (Call opn) w =
     and_then (run_op ops i cops opn (w_heap w) (w_refs w)) (\<lambda>(h, refs).
       Inr (w\<lparr>w_heap := h, w_refs := refs, w_crefs := call_crefs opn (w_crefs w)\<rparr>))"

text \<open>
  The documented rules: a type that generates keys can compare; what is given back was taken;
  caches are offered while their type is registered. The counters of types do not wrap.
\<close>

definition room :: "cache_mngt \<Rightarrow> bool" where
  "room m \<longleftrightarrow> (\<forall>t \<in> set (cache_ops m). co_refcnt m t + 1 < 2 ^ 32)"

fun mngt_allowed :: "'d ops \<Rightarrow> nat \<Rightarrow> cops \<Rightarrow> ('d nl_object \<Rightarrow> bool) \<Rightarrow> 'd mngt_op \<Rightarrow> 'd world \<Rightarrow> bool" where
  "mngt_allowed ops i cops keyed (Register t) w \<longleftrightarrow>
     (case co_obj_ops (cops t) of None \<Rightarrow> True | Some j \<Rightarrow> oo_keygen (ops j) = None \<or> oo_compare (ops j) \<noteq> None)"
| "mngt_allowed ops i cops keyed (Unregister t) w \<longleftrightarrow> True"
| "mngt_allowed ops i cops keyed (LookupSafe name) w \<longleftrightarrow> room (w_mngt w)"
| "mngt_allowed ops i cops keyed (AssociateSafe protocol msgtype) w \<longleftrightarrow> room (w_mngt w)"
| "mngt_allowed ops i cops keyed (OpsPut t) w \<longleftrightarrow> 0 < w_orefs w t"
| "mngt_allowed ops i cops keyed (Provide c) w \<longleftrightarrow>
     room (w_mngt w) \<and> h_cache (w_heap w) c \<noteq> None \<and> cache_ops_lookup_for_obj cops (Some i) (w_mngt w) \<noteq> None"
| "mngt_allowed ops i cops keyed (Unprovide c) w \<longleftrightarrow>
     h_cache (w_heap w) c \<noteq> None \<and> cache_ops_lookup_for_obj cops (Some i) (w_mngt w) \<noteq> None"
| "mngt_allowed ops i cops keyed (RequireSafe name) w \<longleftrightarrow> True"
| "mngt_allowed ops i cops keyed (AllocName c a1 a2 kind) w \<longleftrightarrow>
     h_cache (w_heap w) c = None \<and>
     (case cache_ops_by_name cops kind (w_mngt w) of None \<Rightarrow> True | Some t \<Rightarrow> co_obj_ops (cops t) = Some i)"
| "mngt_allowed ops i cops keyed (Call opn) w \<longleftrightarrow>
     allowed ops i cops keyed opn (w_heap w) (w_refs w) \<and> (case opn of CacheFree c \<Rightarrow> 0 < w_crefs w c | _ \<Rightarrow> True)"

definition mngt_start :: "'d world" where
  "mngt_start = \<lparr>w_mngt = \<lparr>cache_ops = [], co_refcnt = (\<lambda>_. 0), co_major_cache = (\<lambda>_. None)\<rparr>,
     w_heap = \<lparr>h_obj = (\<lambda>_. None), h_cache = (\<lambda>_. None)\<rparr>,
     w_refs = (\<lambda>_. 0), w_orefs = (\<lambda>_. 0), w_crefs = (\<lambda>_. 0), w_lost = (\<lambda>_. 0)\<rparr>"

inductive mngt_reach :: "'d ops \<Rightarrow> nat \<Rightarrow> cops \<Rightarrow> ('d nl_object \<Rightarrow> bool) \<Rightarrow> 'd world \<Rightarrow> bool"
  for ops i cops keyed where
  start: "mngt_reach ops i cops keyed mngt_start"
| step: "mngt_reach ops i cops keyed w \<Longrightarrow> mngt_allowed ops i cops keyed opn w \<Longrightarrow>
    run_mngt ops i cops opn w = Inr w' \<Longrightarrow> mngt_reach ops i cops keyed w'"

section \<open>Reference counts of caches\<close>

definition cache_refcnts :: "'d heap \<Rightarrow> nat \<Rightarrow> int option" where
  "cache_refcnts h c = map_option c_refcnt (h_cache h c)"

lemma cache_refcnts_simps [simp]:
  "cache_refcnts (h\<lparr>h_obj := x\<rparr>) = cache_refcnts h"
  "cache_refcnts (set_cache c cache h) = (cache_refcnts h)(c \<mapsto> c_refcnt cache)"
  "cache_refcnts (h\<lparr>h_cache := (h_cache h)(c := None)\<rparr>) = (cache_refcnts h)(c := None)"
  by (auto simp: cache_refcnts_def fun_eq_iff)

lemma cache_refcnts_set_same:
  "h_cache h c = Some cache \<Longrightarrow> c_refcnt cache' = c_refcnt cache \<Longrightarrow>
    (cache_refcnts h)(c \<mapsto> c_refcnt cache') = cache_refcnts h"
  by (simp add: cache_refcnts_def fun_eq_iff)

text \<open>Operations on objects do not touch caches.\<close>

lemma object_put_caches: "nl_object_put ops p h = Inr h' \<Longrightarrow> h_cache h' = h_cache h"
  by (auto simp: nl_object_put_def object_release_def and_then_Inr_iff Let_def split: option.splits if_splits)

lemma object_get_caches: "nl_object_get p h = Inr h' \<Longrightarrow> h_cache h' = h_cache h"
  by (auto simp: nl_object_get_def and_then_Inr_iff)

lemma object_alloc_caches: "nl_object_alloc ops a i h = Inr x \<Longrightarrow> h_cache (snd x) = h_cache h"
  by (auto simp: nl_object_alloc_def Let_def split: if_splits option.splits)

lemma and_then_InrE: "and_then m f = Inr y \<Longrightarrow> (\<And>x. m = Inr x \<Longrightarrow> f x = Inr y \<Longrightarrow> P) \<Longrightarrow> P"
  by (auto simp: and_then_Inr_iff)

lemma object_clone_caches: "nl_object_clone ops a p h = Inr x \<Longrightarrow> h_cache (snd x) = h_cache h"
  by (auto simp: nl_object_clone_def Let_def elim!: and_then_InrE dest!: object_alloc_caches
      split: option.split_asm if_split_asm prod.split_asm)

lemma hash_table_add_caches: "nl_hash_table_add ops a ht p h = Inr (r, ht', h') \<Longrightarrow> h_cache h' = h_cache h"
  by (auto simp: nl_hash_table_add_def and_then_Inr_iff Let_def dest!: object_get_caches split: if_splits)

lemma hash_table_del_caches: "nl_hash_table_del ops ht p h = Inr (r, ht', h') \<Longrightarrow> h_cache h' = h_cache h"
  by (auto simp: nl_hash_table_del_def and_then_Inr_iff dest!: object_put_caches split: option.splits)

lemma search_list_caches: "search_list test ps h = Inr (r, h') \<Longrightarrow> h_cache h' = h_cache h"
  by (induction ps) (auto simp: and_then_Inr_iff dest!: object_get_caches split: if_splits)

lemma cache_search_caches: "nl_cache_search ops c p h = Inr (r, h') \<Longrightarrow> h_cache h' = h_cache h"
  by (auto simp: nl_cache_search_def cache_fast_lookup_def and_then_Inr_iff
      dest!: object_get_caches search_list_caches split: option.splits)

lemma put_nodes_caches: "put_nodes ops ns h = Inr h' \<Longrightarrow> h_cache h' = h_cache h"
  by (induction ns arbitrary: h) (fastforce simp: and_then_Inr_iff dest!: object_put_caches)+

text \<open>Operations on the objects of a cache keep the counts of all caches.\<close>

lemma cache_add_refcnts: "cache_add ops a c p h = Inr (r, h') \<Longrightarrow> cache_refcnts h' = cache_refcnts h"
  by (auto simp: cache_add_def and_then_Inr_iff Let_def cache_refcnts_def fun_eq_iff
      dest!: hash_table_add_caches split: option.splits if_splits)

lemma cache_remove_refcnts: "nl_cache_remove ops p h = Inr h' \<Longrightarrow> cache_refcnts h' = cache_refcnts h"
  by (auto simp: nl_cache_remove_def and_then_Inr_iff Let_def cache_refcnts_def fun_eq_iff
      dest!: hash_table_del_caches object_put_caches split: option.splits if_splits)

lemma nl_cache_add_refcnts: "nl_cache_add ops cops a b c p h = Inr (r, h') \<Longrightarrow> cache_refcnts h' = cache_refcnts h"
  by (auto simp: nl_cache_add_def and_then_Inr_iff cache_refcnts_def fun_eq_iff
      dest!: object_clone_caches object_get_caches cache_add_refcnts object_put_caches split: if_splits option.splits)

lemma cache_move_refcnts: "nl_cache_move ops cops a c p h = Inr (r, h') \<Longrightarrow> cache_refcnts h' = cache_refcnts h"
  by (auto simp: nl_cache_move_def and_then_Inr_iff cache_refcnts_def fun_eq_iff
      dest!: object_get_caches cache_add_refcnts cache_remove_refcnts split: if_splits)

lemma remove_all_refcnts: "remove_all ops ps h = Inr h' \<Longrightarrow> cache_refcnts h' = cache_refcnts h"
  by (induction ps arbitrary: h) (fastforce simp: and_then_Inr_iff dest!: cache_remove_refcnts)+

lemma cache_clear_refcnts: "nl_cache_clear ops c h = Inr h' \<Longrightarrow> cache_refcnts h' = cache_refcnts h"
  by (auto simp: nl_cache_clear_def and_then_Inr_iff dest!: remove_all_refcnts)

lemmas refcnts_same = nl_cache_add_refcnts cache_move_refcnts cache_remove_refcnts cache_clear_refcnts

text \<open>The three calls that change the counts.\<close>

definition dropped :: "int \<Rightarrow> int option" where
  "dropped n = (if n \<le> 1 then None else Some (n - 1))"

lemma cache_free_refcnts:
  assumes "nl_cache_free ops (Some c) h = Inr h'" "cache_refcnts h c = Some n"
  shows "cache_refcnts h' = (cache_refcnts h)(c := dropped n)"
proof -
  obtain cache where c: "h_cache h c = Some cache" "c_refcnt cache = n"
    using assms(2) by (auto simp: cache_refcnts_def)
  let ?h = "set_cache c (cache\<lparr>c_refcnt := n - 1\<rparr>) h"
  show ?thesis
  proof (cases "n \<le> 1")
    case True
    then have "cache_free ops c ?h = Inr h'" using assms(1) c by (simp add: nl_cache_free_def Let_def)
    then obtain h1 h2 where h: "nl_cache_clear ops c ?h = Inr h1" "h_cache h2 = h_cache h1"
        "h' = h2\<lparr>h_cache := (h_cache h2)(c := None)\<rparr>"
      by (auto simp: cache_free_def and_then_Inr_iff nl_hash_table_free_def dest!: put_nodes_caches split: option.splits)
    have "cache_refcnts h2 = cache_refcnts ?h"
      using h(2) cache_clear_refcnts [OF h(1)] by (simp add: cache_refcnts_def fun_eq_iff)
    then show ?thesis using h(3) True by (simp add: dropped_def)
  next
    case False
    then show ?thesis using assms(1) c by (auto simp: nl_cache_free_def Let_def dropped_def)
  qed
qed

lemma cache_get_refcnts:
  "nl_cache_get c h = Inr h' \<Longrightarrow> cache_refcnts h c = Some n \<Longrightarrow> cache_refcnts h' = (cache_refcnts h)(c \<mapsto> n + 1)"
  by (auto simp: nl_cache_get_def and_then_Inr_iff cache_refcnts_def fun_eq_iff)

lemma cache_alloc_refcnts:
  "nl_cache_alloc ops cops (Some c) a1 a2 j h = Inr (r, h') \<Longrightarrow> r = Some c \<and> cache_refcnts h' = (cache_refcnts h)(c \<mapsto> 1)"
  by (auto simp: nl_cache_alloc_def Let_def split: option.splits)

fun call_refcnts :: "'d cache_op \<Rightarrow> (nat \<Rightarrow> int option) \<Rightarrow> nat \<Rightarrow> int option" where
  "call_refcnts (CacheAlloc c a1 a2 j) rc = rc(c \<mapsto> 1)"
| "call_refcnts (CacheGet c) rc = rc(c := map_option (\<lambda>n. n + 1) (rc c))"
| "call_refcnts (CacheFree c) rc = rc(c := Option.bind (rc c) dropped)"
| "call_refcnts _ rc = rc"

lemma live_refcnt: "h_cache h c \<noteq> None \<longleftrightarrow> (\<exists>n. cache_refcnts h c = Some n)"
  by (simp add: cache_refcnts_def)

lemma run_op_refcnts:
  assumes "run_op ops i cops opn h refs = Inr (h', refs')"
  shows "cache_refcnts h' = call_refcnts opn (cache_refcnts h)"
proof (cases opn)
  case (CacheGet c)
  then obtain n where "nl_cache_get c h = Inr h'" "cache_refcnts h c = Some n"
    using assms by (auto simp: and_then_Inr_iff nl_cache_get_def cache_refcnts_def)
  then show ?thesis using cache_get_refcnts CacheGet by fastforce
next
  case (CacheFree c)
  then obtain n where "nl_cache_free ops (Some c) h = Inr h'" "cache_refcnts h c = Some n"
    using assms by (auto simp: and_then_Inr_iff nl_cache_free_def cache_refcnts_def)
  then show ?thesis using cache_free_refcnts CacheFree by fastforce
next
  case (CacheSearch c p)
  then show ?thesis using assms by (auto simp: and_then_Inr_iff cache_refcnts_def fun_eq_iff dest!: cache_search_caches)
next
  case (ObjAlloc p)
  then show ?thesis using assms by (auto simp: and_then_Inr_iff cache_refcnts_def fun_eq_iff dest!: object_alloc_caches)
next
  case (ObjGet p)
  then show ?thesis using assms by (auto simp: and_then_Inr_iff cache_refcnts_def fun_eq_iff dest!: object_get_caches)
next
  case (ObjPut p)
  then show ?thesis using assms by (auto simp: and_then_Inr_iff cache_refcnts_def fun_eq_iff dest!: object_put_caches)
qed (use assms in \<open>auto simp: and_then_Inr_iff dest!: cache_alloc_refcnts refcnts_same\<close>)

section \<open>The invariant\<close>

text \<open>How many types offer cache \<open>c\<close>.\<close>

definition provided :: "cache_mngt \<Rightarrow> nat \<Rightarrow> int" where
  "provided m c = (\<Sum>t \<leftarrow> cache_ops m. if co_major_cache m t = Some c then 1 else 0)"

definition wf_types :: "cops \<Rightarrow> cache_mngt \<Rightarrow> (nat \<Rightarrow> int) \<Rightarrow> bool" where
  "wf_types cops m orefs \<longleftrightarrow>
     distinct (cache_ops m) \<and> inj_on (\<lambda>t. co_name (cops t)) (set (cache_ops m)) \<and>
     (\<forall>t \<in> set (cache_ops m). 0 \<le> orefs t \<and> co_refcnt m t < 2 ^ 32 \<and>
        co_refcnt m t = orefs t + (if co_major_cache m t = None then 0 else 1)) \<and>
     (\<forall>t. t \<notin> set (cache_ops m) \<longrightarrow> orefs t = 0 \<and> co_major_cache m t = None \<and> co_refcnt m t = 0)"

definition wf_counts :: "(nat \<Rightarrow> int option) \<Rightarrow> (nat \<Rightarrow> int) \<Rightarrow> bool" where
  "wf_counts rc n \<longleftrightarrow> (\<forall>c. 0 \<le> n c \<and> rc c = (if n c = 0 then None else Some (n c)))"

text \<open>All references to a cache: those of the program, of the types and the lost ones.\<close>

definition all_crefs :: "'d world \<Rightarrow> nat \<Rightarrow> int" where
  "all_crefs w c = w_crefs w c + provided (w_mngt w) c + w_lost w c"

definition wf_world :: "'d ops \<Rightarrow> ('d nl_object \<Rightarrow> bool) \<Rightarrow> nat \<Rightarrow> cops \<Rightarrow> 'd world \<Rightarrow> bool" where
  "wf_world ops keyed i cops w \<longleftrightarrow>
     wf_heap ops keyed i cops (w_heap w) (w_refs w) \<and> wf_types cops (w_mngt w) (w_orefs w) \<and>
     wf_counts (cache_refcnts (w_heap w)) (all_crefs w) \<and> (\<forall>c. 0 \<le> w_crefs w c \<and> 0 \<le> w_lost w c)"

lemma by_nameD: "cache_ops_by_name cops name m = Some t \<Longrightarrow> t \<in> set (cache_ops m) \<and> co_name (cops t) = Some name"
  by (auto simp: cache_ops_by_name_def dest: find_SomeD)

lemma by_msgtypeD: "cache_ops_by_msgtype cops protocol msgtype m = Some t \<Longrightarrow> t \<in> set (cache_ops m)"
  by (auto simp: cache_ops_by_msgtype_def dest: find_SomeD)

lemma lookup_for_objD:
  "cache_ops_lookup_for_obj cops oo m = Some t \<Longrightarrow> t \<in> set (cache_ops m) \<and> co_obj_ops (cops t) = oo"
  by (auto simp: cache_ops_lookup_for_obj_def dest: find_SomeD)

lemma by_name_None:
  "cache_ops_by_name cops name m = None \<longleftrightarrow> (\<forall>t \<in> set (cache_ops m). co_name (cops t) \<noteq> Some name)"
  by (auto simp: cache_ops_by_name_def find_None_iff)

lemma by_name_eq:
  assumes "wf_types cops m orefs" "t \<in> set (cache_ops m)" "co_name (cops t) = Some name"
  shows "cache_ops_by_name cops name m = Some t"
proof (cases "cache_ops_by_name cops name m")
  case None
  then show ?thesis using assms(2,3) by (auto simp: by_name_None)
next
  case (Some s)
  have "inj_on (\<lambda>t. co_name (cops t)) (set (cache_ops m))" using assms(1) by (simp add: wf_types_def)
  then show ?thesis using Some by_nameD [OF Some] assms(2,3) by (simp add: inj_on_def)
qed

lemma provided_counter [simp]:
  "provided (m\<lparr>co_refcnt := f\<rparr>) = provided m" "provided (nl_cache_ops_get t m) = provided m"
  "provided (nl_cache_ops_put t m) = provided m"
  by (simp_all add: provided_def nl_cache_ops_get_def nl_cache_ops_put_def fun_eq_iff)

lemma mngt_counter [simp]:
  "cache_ops (nl_cache_ops_get t m) = cache_ops m" "cache_ops (nl_cache_ops_put t m) = cache_ops m"
  "co_major_cache (nl_cache_ops_get t m) = co_major_cache m" "co_major_cache (nl_cache_ops_put t m) = co_major_cache m"
  by (simp_all add: nl_cache_ops_get_def nl_cache_ops_put_def)

lemma provided_nonneg: "0 \<le> provided m c"
  unfolding provided_def by (intro sum_list_nonneg) auto

lemma sum_list_changed:
  fixes f :: "nat \<Rightarrow> int"
  shows "distinct xs \<Longrightarrow> t \<in> set xs \<Longrightarrow> (\<And>s. s \<noteq> t \<Longrightarrow> f s = g s) \<Longrightarrow>
    (\<Sum>x \<leftarrow> xs. f x) = (\<Sum>x \<leftarrow> xs. g x) - g t + f t"
  by (simp add: sum_list_distinct_conv_sum_set sum.remove [where x = t])

lemma provided_set:
  assumes "distinct (cache_ops m)" "t \<in> set (cache_ops m)"
  shows "provided (m\<lparr>co_major_cache := (co_major_cache m)(t := x)\<rparr>) c =
    provided m c - (if co_major_cache m t = Some c then 1 else 0) + (if x = Some c then 1 else 0)"
  unfolding provided_def using sum_list_changed [OF assms, of "\<lambda>s. if ((co_major_cache m)(t := x)) s = Some c then 1 else 0"
      "\<lambda>s. if co_major_cache m s = Some c then 1 else 0"] by simp

lemma wf_types_get:
  assumes "wf_types cops m orefs" "room m" "t \<in> set (cache_ops m)"
  shows "wf_types cops (nl_cache_ops_get t m) (orefs(t := orefs t + 1))"
proof -
  have "0 \<le> co_refcnt m t" "co_refcnt m t + 1 < 2 ^ 32"
    using assms by (auto simp: wf_types_def room_def)
  then have "(co_refcnt m t + 1) mod 2 ^ 32 = co_refcnt m t + 1" by (intro mod_pos_pos_trivial) auto
  then show ?thesis using assms by (auto simp: wf_types_def room_def nl_cache_ops_get_def)
qed

lemma wf_types_put:
  assumes "wf_types cops m orefs" "0 < orefs t"
  shows "wf_types cops (nl_cache_ops_put t m) (orefs(t := orefs t - 1))"
proof -
  have t: "t \<in> set (cache_ops m)" using assms by (auto simp: wf_types_def)
  then have "0 < co_refcnt m t" "co_refcnt m t < 2 ^ 32" using assms by (auto simp: wf_types_def)
  then have "(co_refcnt m t - 1) mod 2 ^ 32 = co_refcnt m t - 1" by (intro mod_pos_pos_trivial) auto
  then show ?thesis using assms t by (auto simp: wf_types_def nl_cache_ops_put_def)
qed

text \<open>Looking a type up and releasing it again changes nothing, even if the counter wraps in between.\<close>

lemma ops_get_put:
  assumes "wf_types cops m orefs" "t \<in> set (cache_ops m)"
  shows "nl_cache_ops_put t (nl_cache_ops_get t m) = m"
proof -
  have n: "0 \<le> co_refcnt m t" "co_refcnt m t < 2 ^ 32" using assms by (auto simp: wf_types_def)
  have "((co_refcnt m t + 1) mod 2 ^ 32 - 1) mod 2 ^ 32 = (co_refcnt m t + 1 - 1) mod 2 ^ 32"
    by (rule mod_diff_left_eq)
  also have "\<dots> = co_refcnt m t" using n by simp
  finally show ?thesis by (simp add: nl_cache_ops_put_def nl_cache_ops_get_def)
qed

text \<open>Setting and clearing the offered cache of a type.\<close>

lemma wf_types_major:
  assumes "wf_types cops m orefs" "t \<in> set (cache_ops m)"
    and "x \<noteq> None \<longleftrightarrow> co_major_cache m t \<noteq> None"
  shows "wf_types cops (m\<lparr>co_major_cache := (co_major_cache m)(t := x)\<rparr>) orefs"
  using assms by (auto simp: wf_types_def)

lemma wf_types_offer:
  assumes "wf_types cops m orefs" "room m" "t \<in> set (cache_ops m)" "co_major_cache m t = None"
  shows "wf_types cops ((nl_cache_ops_get t m)\<lparr>co_major_cache := (co_major_cache m)(t \<mapsto> c)\<rparr>) orefs"
  using wf_types_get [OF assms(1-3)] assms(1,3,4) by (auto simp: wf_types_def split: if_splits)

lemma wf_types_withdraw:
  assumes "wf_types cops m orefs" "t \<in> set (cache_ops m)" "co_major_cache m t \<noteq> None"
  shows "wf_types cops ((nl_cache_ops_put t m)\<lparr>co_major_cache := (co_major_cache m)(t := None)\<rparr>) orefs"
proof -
  have "0 < co_refcnt m t" "co_refcnt m t < 2 ^ 32" using assms by (auto simp: wf_types_def)
  then have "(co_refcnt m t - 1) mod 2 ^ 32 = co_refcnt m t - 1" by (intro mod_pos_pos_trivial) auto
  then show ?thesis using assms by (auto simp: wf_types_def nl_cache_ops_put_def)
qed

lemma wf_types_register:
  assumes "wf_types cops m orefs" "co_name (cops t) = Some name" "cache_ops_by_name cops name m = None"
  shows "t \<notin> set (cache_ops m)"
    "wf_types cops (m\<lparr>co_refcnt := (co_refcnt m)(t := 0), cache_ops := t # cache_ops m\<rparr>) orefs"
proof -
  show t: "t \<notin> set (cache_ops m)" using assms(2,3) by (auto simp: by_name_None)
  show "wf_types cops (m\<lparr>co_refcnt := (co_refcnt m)(t := 0), cache_ops := t # cache_ops m\<rparr>) orefs"
    using assms t by (auto simp: wf_types_def by_name_None dest: inj_onD)
qed

lemma wf_types_unregister:
  assumes "wf_types cops m orefs" "\<not> co_refcnt m t > 0" "t \<in> set (cache_ops m)"
  shows "co_major_cache m t = None" "orefs t = 0" "wf_types cops (m\<lparr>cache_ops := remove1 t (cache_ops m)\<rparr>) orefs"
proof -
  show t: "co_major_cache m t = None" "orefs t = 0"
    using assms by (auto simp: wf_types_def split: if_splits)
  show "wf_types cops (m\<lparr>cache_ops := remove1 t (cache_ops m)\<rparr>) orefs"
    using assms t by (auto simp: wf_types_def intro: inj_on_subset)
qed

lemma provided_register: "co_major_cache m t = None \<Longrightarrow> provided (m\<lparr>cache_ops := t # cache_ops m\<rparr>) = provided m"
  by (simp add: provided_def fun_eq_iff)

lemma provided_unregister:
  assumes "co_major_cache m t = None" "t \<in> set (cache_ops m)"
  shows "provided (m\<lparr>cache_ops := remove1 t (cache_ops m)\<rparr>) = provided m"
  using assms by (simp add: provided_def fun_eq_iff sum_list_map_remove1 [of t])

text \<open>One more and one less reference to a cache.\<close>

lemma wf_counts_get:
  "wf_counts rc n \<Longrightarrow> rc c = Some k \<Longrightarrow> wf_counts (rc(c \<mapsto> k + 1)) (n(c := n c + 1))"
  by (auto simp: wf_counts_def split: if_splits)

lemma wf_counts_drop:
  "wf_counts rc n \<Longrightarrow> rc c = Some k \<Longrightarrow> wf_counts (rc(c := dropped k)) (n(c := n c - 1))"
  by (auto simp: wf_counts_def dropped_def split: if_splits)

lemma wf_counts_new: "wf_counts rc n \<Longrightarrow> rc c = None \<Longrightarrow> wf_counts (rc(c \<mapsto> 1)) (n(c := n c + 1))"
  by (auto simp: wf_counts_def split: if_splits)

lemma wf_counts_live: "wf_counts rc n \<Longrightarrow> 0 < n c \<Longrightarrow> rc c = Some (n c)"
  by (simp add: wf_counts_def)

lemma wf_counts_some: "wf_counts rc n \<Longrightarrow> rc c = Some k \<Longrightarrow> k = n c \<and> 0 < k"
  unfolding wf_counts_def by (drule spec [of _ c]) (auto split: if_splits)

lemma wf_counts_dead: "wf_counts rc n \<Longrightarrow> rc c = None \<Longrightarrow> n c = 0"
  by (auto simp: wf_counts_def split: if_splits)

section \<open>Each call keeps the invariant\<close>

lemma wf_worldD:
  assumes "wf_world ops keyed i cops w"
  shows "wf_heap ops keyed i cops (w_heap w) (w_refs w)" "wf_types cops (w_mngt w) (w_orefs w)"
    "wf_counts (cache_refcnts (w_heap w)) (all_crefs w)" "0 \<le> w_crefs w c" "0 \<le> w_lost w c"
  using assms by (auto simp: wf_world_def)

text \<open>The count of a cache that someone refers to.\<close>

lemma world_live:
  assumes "wf_world ops keyed i cops w" "0 < w_crefs w c \<or> 0 < provided (w_mngt w) c"
  shows "cache_refcnts (w_heap w) c = Some (all_crefs w c)"
proof (rule wf_counts_live [OF wf_worldD(3) [OF assms(1)]])
  show "0 < all_crefs w c"
    using assms(2) wf_worldD(4,5) [OF assms(1), of c] provided_nonneg [of "w_mngt w" c] by (auto simp: all_crefs_def)
qed

lemma major_provided:
  assumes "t \<in> set (cache_ops m)" "co_major_cache m t = Some c"
  shows "0 < provided m c"
proof -
  obtain xs ys where "cache_ops m = xs @ t # ys" using assms(1) by (meson split_list)
  moreover have "0 \<le> (\<Sum>s \<leftarrow> zs. if co_major_cache m s = Some c then 1 else (0::int))" for zs
    by (intro sum_list_nonneg) auto
  from this [of xs] this [of ys] show ?thesis using assms(2) calculation by (simp add: provided_def)
qed

context keyed_type begin

lemma world_get:
  assumes "wf_world ops keyed i cops w" "h_cache (w_heap w) c \<noteq> None"
  shows "\<exists>h'. nl_cache_get c (w_heap w) = Inr h' \<and> wf_heap ops keyed i cops h' (w_refs w) \<and>
    wf_counts (cache_refcnts h') ((all_crefs w)(c := all_crefs w c + 1))"
proof -
  obtain cache where c: "h_cache (w_heap w) c = Some cache" using assms(2) by auto
  let ?h = "set_cache c (cache\<lparr>c_refcnt := c_refcnt cache + 1\<rparr>) (w_heap w)"
  have g: "nl_cache_get c (w_heap w) = Inr ?h" using c by (simp add: nl_cache_get_def)
  have n: "cache_refcnts (w_heap w) c = Some (c_refcnt cache)" using c by (simp add: cache_refcnts_def)
  have "wf_counts (cache_refcnts ?h) ((all_crefs w)(c := all_crefs w c + 1))"
    using wf_counts_get [OF wf_worldD(3) [OF assms(1)] n] cache_get_refcnts [OF g n] by (simp del: cache_refcnts_simps)
  then show ?thesis using g cache_hdr_wf [OF wf_worldD(1) [OF assms(1)] c] by blast
qed

lemma world_free:
  assumes "wf_world ops keyed i cops w" "0 < w_crefs w c \<or> 0 < provided (w_mngt w) c"
  shows "\<exists>h'. nl_cache_free ops (Some c) (w_heap w) = Inr h' \<and> wf_heap ops keyed i cops h' (w_refs w) \<and>
    wf_counts (cache_refcnts h') ((all_crefs w)(c := all_crefs w c - 1))"
proof -
  note n = world_live [OF assms]
  then obtain cache where c: "h_cache (w_heap w) c = Some cache" by (auto simp: cache_refcnts_def)
  obtain h' where h': "nl_cache_free ops (Some c) (w_heap w) = Inr h'" "wf_heap ops keyed i cops h' (w_refs w)"
    using cache_free_wf [OF wf_worldD(1) [OF assms(1)] c] by blast
  then show ?thesis
    using wf_counts_drop [OF wf_worldD(3) [OF assms(1)] n] cache_free_refcnts [OF h'(1) n] by simp
qed

lemma register_step:
  assumes w: "wf_world ops keyed i cops w" and al: "mngt_allowed ops i cops keyed (Register t) w"
  shows "\<exists>w'. run_mngt ops i cops (Register t) w = Inr w' \<and> wf_world ops keyed i cops w'"
proof (cases "\<exists>name j. co_name (cops t) = Some name \<and> co_obj_ops (cops t) = Some j")
  case False
  then have "nl_cache_mngt_register ops cops t (w_mngt w) = Inr (neg_err NLE_INVAL, w_mngt w)"
    by (auto simp: nl_cache_mngt_register_def split: option.splits)
  then show ?thesis using w by simp
next
  case True
  then obtain name j where t: "co_name (cops t) = Some name" "co_obj_ops (cops t) = Some j" by blast
  show ?thesis
  proof (cases "cache_ops_by_name cops name (w_mngt w)")
    case None
    let ?m = "(w_mngt w)\<lparr>co_refcnt := (co_refcnt (w_mngt w))(t := 0), cache_ops := t # cache_ops (w_mngt w)\<rparr>"
    note T = wf_types_register [OF wf_worldD(2) [OF w] t(1) None]
    have "provided ?m = provided (w_mngt w)"
      using T(1) wf_worldD(2) [OF w] provided_register [of "w_mngt w\<lparr>co_refcnt := (co_refcnt (w_mngt w))(t := 0)\<rparr>" t]
      by (simp add: wf_types_def)
    then have "wf_world ops keyed i cops (w\<lparr>w_mngt := ?m\<rparr>)"
      using w T(2) by (simp add: wf_world_def all_crefs_def [abs_def])
    moreover have "nl_cache_mngt_register ops cops t (w_mngt w) = Inr (0, ?m)"
      using t None al by (simp add: nl_cache_mngt_register_def)
    ultimately show ?thesis by simp
  next
    case (Some s)
    then have "nl_cache_mngt_register ops cops t (w_mngt w) = Inr (neg_err NLE_EXIST, w_mngt w)"
      using t al by (simp add: nl_cache_mngt_register_def)
    then show ?thesis using w by simp
  qed
qed

lemma unregister_step:
  assumes w: "wf_world ops keyed i cops w"
  shows "wf_world ops keyed i cops (w\<lparr>w_mngt := snd (nl_cache_mngt_unregister t (w_mngt w))\<rparr>)"
proof (cases "co_refcnt (w_mngt w) t > 0 \<or> t \<notin> set (cache_ops (w_mngt w))")
  case True
  then show ?thesis using w by (auto simp: nl_cache_mngt_unregister_def)
next
  case False
  then have f: "\<not> co_refcnt (w_mngt w) t > 0" "t \<in> set (cache_ops (w_mngt w))" by auto
  note T = wf_types_unregister [OF wf_worldD(2) [OF w] f]
  then show ?thesis
    using w f provided_unregister [OF T(1) f(2)]
    by (simp add: nl_cache_mngt_unregister_def wf_world_def all_crefs_def [abs_def])
qed

lemma take_type_step:
  assumes w: "wf_world ops keyed i cops w" and r: "room (w_mngt w)" and t: "t \<in> set (cache_ops (w_mngt w))"
  shows "wf_world ops keyed i cops
    (w\<lparr>w_mngt := nl_cache_ops_get t (w_mngt w), w_orefs := (w_orefs w)(t := w_orefs w t + 1)\<rparr>)"
  using w wf_types_get [OF wf_worldD(2) [OF w] r t] by (simp add: wf_world_def all_crefs_def [abs_def])

lemma provide_step:
  assumes w: "wf_world ops keyed i cops w" and al: "mngt_allowed ops i cops keyed (Provide c) w"
  shows "\<exists>w'. run_mngt ops i cops (Provide c) w = Inr w' \<and> wf_world ops keyed i cops w'"
proof -
  obtain cache where c: "h_cache (w_heap w) c = Some cache" using al by auto
  obtain t where lk: "cache_ops_lookup_for_obj cops (Some i) (w_mngt w) = Some t" using al by auto
  then have t: "t \<in> set (cache_ops (w_mngt w))" using lookup_for_objD by blast
  obtain h' where h': "nl_cache_get c (w_heap w) = Inr h'" "wf_heap ops keyed i cops h' (w_refs w)"
      "wf_counts (cache_refcnts h') ((all_crefs w)(c := all_crefs w c + 1))"
    using world_get [OF w, of c] c by auto
  let ?m1 = "if co_major_cache (w_mngt w) t = None then nl_cache_ops_get t (w_mngt w) else w_mngt w"
  let ?m = "?m1\<lparr>co_major_cache := (co_major_cache (w_mngt w))(t \<mapsto> c)\<rparr>"
  let ?w = "w\<lparr>w_mngt := ?m, w_heap := h', w_lost := taken (co_major_cache (w_mngt w) t) (w_lost w)\<rparr>"
  have "wf_types cops ?m (w_orefs w)"
    using al wf_types_offer [OF wf_worldD(2) [OF w] _ t] wf_types_major [OF wf_worldD(2) [OF w] t, of "Some c"] by simp
  moreover have "all_crefs ?w = (all_crefs w)(c := all_crefs w c + 1)"
  proof
    fix d
    have "distinct (cache_ops ?m1)" "t \<in> set (cache_ops ?m1)" "co_major_cache ?m1 = co_major_cache (w_mngt w)"
        "provided ?m1 = provided (w_mngt w)"
      using wf_worldD(2) [OF w] t by (auto simp: wf_types_def)
    then show "all_crefs ?w d = ((all_crefs w)(c := all_crefs w c + 1)) d"
      using provided_set [of ?m1 t "Some c" d] by (auto simp: all_crefs_def split: option.splits if_splits)
  qed
  ultimately have "wf_world ops keyed i cops ?w"
    using h'(2,3) wf_worldD(4,5) [OF w] by (auto simp: wf_world_def split: option.splits)
  moreover have "run_mngt ops i cops (Provide c) w = Inr ?w"
    using c lk h'(1) wf_heapD(3) [OF wf_worldD(1) [OF w] c]
    by (simp add: nl_cache_mngt_provide_def overwritten_def Let_def)
  ultimately show ?thesis by blast
qed

lemma unprovide_step:
  assumes w: "wf_world ops keyed i cops w" and al: "mngt_allowed ops i cops keyed (Unprovide c) w"
  shows "\<exists>w'. run_mngt ops i cops (Unprovide c) w = Inr w' \<and> wf_world ops keyed i cops w'"
proof -
  let ?m1 = "w_mngt w"
  obtain cache where c: "h_cache (w_heap w) c = Some cache" using al by auto
  obtain t where lk: "cache_ops_lookup_for_obj cops (Some i) ?m1 = Some t" using al by auto
  then have t: "t \<in> set (cache_ops ?m1)" using lookup_for_objD by blast
  note i = wf_heapD(3) [OF wf_worldD(1) [OF w] c]
  show ?thesis
  proof (cases "co_major_cache ?m1 t = Some c")
    case False
    then show ?thesis using c lk i w by (simp add: nl_cache_mngt_unprovide_def)
  next
    case True
    obtain h' where h': "nl_cache_free ops (Some c) (w_heap w) = Inr h'" "wf_heap ops keyed i cops h' (w_refs w)"
        "wf_counts (cache_refcnts h') ((all_crefs w)(c := all_crefs w c - 1))"
      using world_free [OF w] major_provided [OF t True] by blast
    let ?m = "(nl_cache_ops_put t ?m1)\<lparr>co_major_cache := (co_major_cache ?m1)(t := None)\<rparr>"
    let ?w = "w\<lparr>w_mngt := ?m, w_heap := h'\<rparr>"
    have "all_crefs ?w = (all_crefs w)(c := all_crefs w c - 1)"
      using provided_set [of "nl_cache_ops_put t ?m1" t None] True t wf_worldD(2) [OF w]
      by (auto simp: all_crefs_def wf_types_def fun_eq_iff)
    then have "wf_world ops keyed i cops ?w"
      using h'(2,3) w wf_types_withdraw [OF wf_worldD(2) [OF w] t] True by (simp add: wf_world_def)
    moreover have "run_mngt ops i cops (Unprovide c) w = Inr ?w"
      using c lk i True h'(1) by (simp add: nl_cache_mngt_unprovide_def Let_def)
    ultimately show ?thesis by blast
  qed
qed

lemma require_mngt:
  assumes "wf_types cops m orefs"
  shows "nl_cache_mngt_require cops name m =
    (case cache_ops_by_name cops name m of None \<Rightarrow> None | Some t \<Rightarrow> co_major_cache m t, m)"
  using assms ops_get_put [OF assms]
  by (auto simp: nl_cache_mngt_require_def cache_mngt_require_def nl_cache_ops_lookup_safe_def
      dest: by_nameD split: option.split)

lemma require_step:
  assumes w: "wf_world ops keyed i cops w"
  shows "\<exists>w'. run_mngt ops i cops (RequireSafe name) w = Inr w' \<and> wf_world ops keyed i cops w'"
proof (cases "fst (nl_cache_mngt_require cops name (w_mngt w))")
  case None
  then have "nl_cache_mngt_require cops name (w_mngt w) = (None, w_mngt w)"
    using require_mngt [OF wf_worldD(2) [OF w]] by auto
  then show ?thesis using w by (simp add: nl_cache_mngt_require_safe_def)
next
  case (Some c)
  then obtain t where t: "cache_ops_by_name cops name (w_mngt w) = Some t" "co_major_cache (w_mngt w) t = Some c"
      "nl_cache_mngt_require cops name (w_mngt w) = (Some c, w_mngt w)"
    using require_mngt [OF wf_worldD(2) [OF w], of name] by (auto split: option.splits)
  have "0 < provided (w_mngt w) c" using by_nameD [OF t(1)] major_provided t(2) by blast
  then have "h_cache (w_heap w) c \<noteq> None" using world_live [OF w] by (auto simp: cache_refcnts_def)
  then obtain h' where h': "nl_cache_get c (w_heap w) = Inr h'" "wf_heap ops keyed i cops h' (w_refs w)"
      "wf_counts (cache_refcnts h') ((all_crefs w)(c := all_crefs w c + 1))"
    using world_get [OF w] by blast
  let ?w = "w\<lparr>w_heap := h', w_crefs := (w_crefs w)(c := w_crefs w c + 1)\<rparr>"
  have "all_crefs ?w = (all_crefs w)(c := all_crefs w c + 1)" by (auto simp: all_crefs_def fun_eq_iff)
  then have "wf_world ops keyed i cops ?w" using h'(2,3) w by (auto simp: wf_world_def add_nonneg_nonneg)
  then show ?thesis using t(3) h'(1) by (simp add: nl_cache_mngt_require_safe_def)
qed

text \<open>A new cache, whether by type or by name.\<close>

lemma new_cache_world:
  assumes w: "wf_world ops keyed i cops w" and t: "sane_types ops i cops"
    and c: "h_cache (w_heap w) c = None" "co_obj_ops (cops j) = Some i"
  shows "\<exists>h'. nl_cache_alloc ops cops (Some c) a1 a2 j (w_heap w) = Inr (Some c, h') \<and>
    w_crefs w c = 0 \<and> wf_world ops keyed i cops (w\<lparr>w_heap := h', w_crefs := (w_crefs w)(c := 1)\<rparr>)"
proof -
  obtain h' where h': "nl_cache_alloc ops cops (Some c) a1 a2 j (w_heap w) = Inr (Some c, h')"
      "wf_heap ops keyed i cops h' (w_refs w)"
    using cache_alloc_wf [OF wf_worldD(1) [OF w] t c] by blast
  have rc: "cache_refcnts (w_heap w) c = None" using c(1) by (simp add: cache_refcnts_def)
  have n: "w_crefs w c = 0" "provided (w_mngt w) c = 0" "w_lost w c = 0"
    using wf_counts_dead [OF wf_worldD(3) [OF w] rc] wf_worldD(4,5) [OF w, of c] provided_nonneg [of "w_mngt w" c]
    by (auto simp: all_crefs_def)
  have "all_crefs (w\<lparr>w_heap := h', w_crefs := (w_crefs w)(c := 1)\<rparr>) = (all_crefs w)(c := all_crefs w c + 1)"
    using n by (auto simp: all_crefs_def fun_eq_iff)
  then have "wf_world ops keyed i cops (w\<lparr>w_heap := h', w_crefs := (w_crefs w)(c := 1)\<rparr>)"
    using h'(2) w wf_counts_new [OF wf_worldD(3) [OF w] rc] cache_alloc_refcnts [OF h'(1)] by (simp add: wf_world_def)
  then show ?thesis using h'(1) n(1) by blast
qed

lemma alloc_name_step:
  assumes w: "wf_world ops keyed i cops w" "sane_types ops i cops"
    and al: "mngt_allowed ops i cops keyed (AllocName c a1 a2 kind) w"
  shows "\<exists>w'. run_mngt ops i cops (AllocName c a1 a2 kind) w = Inr w' \<and> wf_world ops keyed i cops w'"
proof (cases "cache_ops_by_name cops kind (w_mngt w)")
  case None
  then show ?thesis using w(1) by (simp add: nl_cache_alloc_name_def nl_cache_ops_lookup_safe_def)
next
  case (Some t)
  then have c: "h_cache (w_heap w) c = None" "co_obj_ops (cops t) = Some i" using al by auto
  note P = ops_get_put [OF wf_worldD(2) [OF w(1)], of t]
  obtain h' where h': "nl_cache_alloc ops cops (Some c) a1 a2 t (w_heap w) = Inr (Some c, h')" "w_crefs w c = 0"
      "wf_world ops keyed i cops (w\<lparr>w_heap := h', w_crefs := (w_crefs w)(c := 1)\<rparr>)"
    using new_cache_world [OF w c] by blast
  then show ?thesis using Some P by_nameD [OF Some]
    by (simp add: nl_cache_alloc_name_def nl_cache_ops_lookup_safe_def Let_def)
qed

lemma call_step:
  assumes w: "wf_world ops keyed i cops w" "sane_types ops i cops"
    and al: "mngt_allowed ops i cops keyed (Call opn) w"
  shows "\<exists>w'. run_mngt ops i cops (Call opn) w = Inr w' \<and> wf_world ops keyed i cops w'"
proof -
  obtain h' refs' where r: "run_op ops i cops opn (w_heap w) (w_refs w) = Inr (h', refs')" "wf_heap ops keyed i cops h' refs'"
    using run_op_wf [OF wf_worldD(1) [OF w(1)] w(2)] al by fastforce
  let ?w = "w\<lparr>w_heap := h', w_refs := refs', w_crefs := call_crefs opn (w_crefs w)\<rparr>"
  note rc = run_op_refcnts [OF r(1)]
  have "wf_counts (cache_refcnts h') (all_crefs ?w) \<and> (\<forall>c. 0 \<le> call_crefs opn (w_crefs w) c)"
  proof (cases opn)
    case (CacheAlloc c a1 a2 j)
    then show ?thesis using new_cache_world [OF w, of c j a1 a2] al r wf_worldD(4) [OF w(1)]
      by (auto simp: wf_world_def all_crefs_def)
  next
    case (CacheGet c)
    then obtain n where n: "cache_refcnts (w_heap w) c = Some n" using al by (auto simp: cache_refcnts_def)
    have "all_crefs ?w = (all_crefs w)(c := all_crefs w c + 1)" using CacheGet by (auto simp: all_crefs_def fun_eq_iff)
    then show ?thesis using wf_counts_get [OF wf_worldD(3) [OF w(1)] n] CacheGet rc n wf_worldD(4) [OF w(1)]
      by (simp add: add_nonneg_nonneg)
  next
    case (CacheFree c)
    then have c: "0 < w_crefs w c" using al by simp
    then have n: "cache_refcnts (w_heap w) c = Some (all_crefs w c)" by (intro world_live [OF w(1)]) simp
    have "all_crefs ?w = (all_crefs w)(c := all_crefs w c - 1)" using CacheFree by (auto simp: all_crefs_def fun_eq_iff)
    then show ?thesis using wf_counts_drop [OF wf_worldD(3) [OF w(1)] n] CacheFree rc n c wf_worldD(4) [OF w(1)] by simp
  qed (use wf_worldD(3,4) [OF w(1)] rc in \<open>simp_all add: all_crefs_def [abs_def]\<close>)
  then have "wf_world ops keyed i cops ?w" using w(1) r(2) by (simp add: wf_world_def)
  then show ?thesis using r(1) by auto
qed

lemma run_mngt_wf:
  assumes w: "wf_world ops keyed i cops w" "sane_types ops i cops" and al: "mngt_allowed ops i cops keyed opn w"
  shows "\<exists>w'. run_mngt ops i cops opn w = Inr w' \<and> wf_world ops keyed i cops w'"
proof (cases opn)
  case (LookupSafe name)
  then show ?thesis using al w(1) take_type_step [OF w(1)] by_nameD
    by (cases "cache_ops_by_name cops name (w_mngt w)") (auto simp: nl_cache_ops_lookup_safe_def)
next
  case (AssociateSafe protocol msgtype)
  then show ?thesis using al w(1) take_type_step [OF w(1)] by_msgtypeD
    by (cases "cache_ops_by_msgtype cops protocol msgtype (w_mngt w)") (auto simp: nl_cache_ops_associate_safe_def)
next
  case (OpsPut t)
  then show ?thesis using al w(1) wf_types_put [OF wf_worldD(2) [OF w(1)], of t]
    by (simp add: wf_world_def all_crefs_def [abs_def])
qed (use al w in \<open>auto intro: register_step unregister_step provide_step unprovide_step require_step alloc_name_step call_step
  simp del: run_mngt.simps mngt_allowed.simps simp: run_mngt.simps(2)\<close>)

lemma mngt_reach_wf:
  assumes "mngt_reach ops i cops keyed w" "sane_types ops i cops"
  shows "wf_world ops keyed i cops w"
  using assms
proof (induction rule: mngt_reach.induct)
  case start
  show ?case
    by (simp add: wf_world_def mngt_start_def wf_heap_empty wf_types_def wf_counts_def all_crefs_def provided_def cache_refcnts_def)
next
  case (step w opn w')
  then show ?case using run_mngt_wf [of cops w opn] by auto
qed

end

section \<open>Properties\<close>

text \<open>The example: type \<open>route/netconf\<close> is registered and a cache of it (address 0) is offered \<open>n\<close> times.\<close>

fun run_mngts :: "'d ops \<Rightarrow> nat \<Rightarrow> cops \<Rightarrow> ('d nl_object \<Rightarrow> bool) \<Rightarrow> 'd mngt_op list \<Rightarrow> 'd world \<Rightarrow> 'd world option" where
  "run_mngts ops i cops keyed [] w = Some w"
| "run_mngts ops i cops keyed (opn # opns) w =
     (if mngt_allowed ops i cops keyed opn w
      then case run_mngt ops i cops opn w of Inl _ \<Rightarrow> None | Inr w \<Rightarrow> run_mngts ops i cops keyed opns w
      else None)"

lemma run_mngts_reach:
  "run_mngts ops i cops keyed opns w = Some w' \<Longrightarrow> mngt_reach ops i cops keyed w \<Longrightarrow> mngt_reach ops i cops keyed w'"
  by (induction opns arbitrary: w) (auto split: if_splits sum.splits intro: mngt_reach.step)

definition nc_world :: "nat \<Rightarrow> rtnl_netconf world" where
  "nc_world n = \<lparr>w_mngt = \<lparr>cache_ops = [0], co_refcnt = (\<lambda>_. 0)(0 := if n = 0 then 0 else 1),
       co_major_cache = if n = 0 then (\<lambda>_. None) else [0 \<mapsto> 0]\<rparr>,
     w_heap = \<lparr>h_obj = (\<lambda>_. None), h_cache = [0 \<mapsto> (nc_cache True)\<lparr>c_refcnt := int n + 1\<rparr>]\<rparr>,
     w_refs = (\<lambda>_. 0), w_orefs = (\<lambda>_. 0), w_crefs = (\<lambda>_. 0)(0 := 1), w_lost = (\<lambda>_. 0)(0 := int n - 1)\<rparr>"

lemma nc_world_reach: "mngt_reach nc_ops 0 nc_cops nc_keyed (nc_world 1)"
proof (rule run_mngts_reach [OF _ mngt_reach.start])
  show "run_mngts nc_ops 0 nc_cops nc_keyed [Register 0, Call (CacheAlloc 0 True True 0), Provide 0] mngt_start = Some (nc_world 1)"
    by (simp add: mngt_start_def nc_world_def nc_run nl_cache_mngt_register_def nl_cache_mngt_provide_def cache_ops_by_name_def
      cache_ops_lookup_for_obj_def nl_cache_ops_get_def nl_cache_get_def overwritten_def room_def fun_eq_iff)
qed

text \<open>
  C16. Memory safety of cache management: in every state that a program reaches by allowed calls,
  every allowed call of cache management, caches and objects returns. No assertion fails, and the
  caches that the registered types offer have not been freed.
\<close>

theorem mngt_calls_never_fault:
  assumes "keyed_type ops i keyed kg" "sane_types ops i cops" "mngt_reach ops i cops keyed w"
    and "mngt_allowed ops i cops keyed opn w"
  shows "\<exists>w'. run_mngt ops i cops opn w = Inr w'"
  using keyed_type.run_mngt_wf [OF assms(1) keyed_type.mngt_reach_wf [OF assms(1,3,2)] assms(2,4)] by blast

theorem mngt_calls_never_fault_witness:
  "\<exists>w'. run_mngt nc_ops 0 nc_cops (RequireSafe ''route/netconf'') (nc_world 1) = Inr w'"
  by (rule mngt_calls_never_fault [OF netconf.keyed_type_axioms nc_sane nc_world_reach]) simp

text \<open>
  C17. The counters of cache management are exact: a registered type is referred to by its users and by
  the cache it offers; a cache by its users, by the types that offer it and by the offers that were
  overwritten. The names of registered types are different.
\<close>

theorem mngt_counts_exact:
  assumes "keyed_type ops i keyed kg" "sane_types ops i cops" "mngt_reach ops i cops keyed w"
    and "t \<in> set (cache_ops (w_mngt w))" "h_cache (w_heap w) c = Some cache"
  shows "co_refcnt (w_mngt w) t = w_orefs w t + (if co_major_cache (w_mngt w) t = None then 0 else 1) \<and>
    c_refcnt cache = w_crefs w c + provided (w_mngt w) c + w_lost w c \<and> 0 < c_refcnt cache \<and>
    distinct (map (\<lambda>t. co_name (cops t)) (cache_ops (w_mngt w)))"
proof -
  note w = keyed_type.mngt_reach_wf [OF assms(1,3,2)]
  have "cache_refcnts (w_heap w) c = Some (c_refcnt cache)" using assms(5) by (simp add: cache_refcnts_def)
  then have "c_refcnt cache = all_crefs w c \<and> 0 < c_refcnt cache"
    by (rule wf_counts_some [OF wf_worldD(3) [OF w]])
  then show ?thesis using wf_worldD(2) [OF w] assms(4) by (simp add: wf_types_def all_crefs_def distinct_map)
qed

theorem mngt_counts_exact_witness:
  "co_refcnt (w_mngt (nc_world 1)) 0 = 1 \<and> provided (w_mngt (nc_world 1)) 0 = 1"
  using mngt_counts_exact [OF netconf.keyed_type_axioms nc_sane nc_world_reach, of 0 0 "(nc_cache True)\<lparr>c_refcnt := 2\<rparr>"]
  by (simp add: nc_world_def)

text \<open>
  An offered cache is found by the name of its type: after \<open>nl_cache_mngt_provide\<close>, requiring
  the name of the type gives exactly this cache, with a reference for the caller and one for the type.
\<close>

theorem provide_then_require:
  assumes "keyed_type ops i keyed kg" "sane_types ops i cops" "mngt_reach ops i cops keyed w"
    and "room (w_mngt w)" "h_cache (w_heap w) c = Some cache"
    and "cache_ops_lookup_for_obj cops (Some i) (w_mngt w) = Some t" "co_name (cops t) = Some name"
  shows "\<exists>m h h'. nl_cache_mngt_provide cops c (w_mngt w) (w_heap w) = Inr (m, h) \<and>
    nl_cache_mngt_require_safe cops name m h = Inr (Some c, m, h') \<and>
    h_cache h' c = Some (cache\<lparr>c_refcnt := c_refcnt cache + 2\<rparr>)"
proof -
  note w = keyed_type.mngt_reach_wf [OF assms(1,3,2)]
  have al: "mngt_allowed ops i cops keyed (Provide c) w" using assms(4-6) by simp
  obtain w' where w': "run_mngt ops i cops (Provide c) w = Inr w'" "wf_world ops keyed i cops w'"
    using keyed_type.provide_step [OF assms(1) w al] by blast
  let ?h = "set_cache c (cache\<lparr>c_refcnt := c_refcnt cache + 1\<rparr>) (w_heap w)"
  have p: "nl_cache_mngt_provide cops c (w_mngt w) (w_heap w) = Inr (w_mngt w', ?h)"
      "co_major_cache (w_mngt w') t = Some c" "cache_ops (w_mngt w') = cache_ops (w_mngt w)"
    using w'(1) assms(5,6) wf_heapD(3) [OF wf_worldD(1) [OF w] assms(5)]
    by (auto simp: nl_cache_mngt_provide_def nl_cache_get_def Let_def)
  have "cache_ops_by_name cops name (w_mngt w') = Some t"
    using by_name_eq [OF wf_worldD(2) [OF w'(2)]] p(3) lookup_for_objD [OF assms(6)] assms(7) by simp
  then have "nl_cache_mngt_require cops name (w_mngt w') = (Some c, w_mngt w')"
    using keyed_type.require_mngt [OF assms(1) wf_worldD(2) [OF w'(2)]] p(2) by simp
  then show ?thesis using p(1) by (simp add: nl_cache_mngt_require_safe_def nl_cache_get_def)
qed

theorem provide_then_require_witness:
  "\<exists>m h h'. nl_cache_mngt_provide nc_cops 0 (w_mngt (nc_world 1)) (w_heap (nc_world 1)) = Inr (m, h) \<and>
    nl_cache_mngt_require_safe nc_cops ''route/netconf'' m h = Inr (Some 0, m, h') \<and>
    h_cache h' 0 = Some ((nc_cache True)\<lparr>c_refcnt := 2, c_refcnt := c_refcnt ((nc_cache True)\<lparr>c_refcnt := 2\<rparr>) + 2\<rparr>)"
  by (rule provide_then_require [OF netconf.keyed_type_axioms nc_sane nc_world_reach])
    (simp_all add: nc_world_def room_def cache_ops_lookup_for_obj_def rtnl_netconf_ops_def)

text \<open>
  Unregistering a type fails with \<open>NLE_BUSY\<close> exactly while someone refers to the type or a cache of it
  is offered, and with \<open>NLE_NOCACHE\<close> when it is not registered; otherwise its name is free again and
  every other type stays registered.
\<close>

theorem unregister_spec:
  assumes "keyed_type ops i keyed kg" "sane_types ops i cops" "mngt_reach ops i cops keyed w"
  shows "nl_cache_mngt_unregister t (w_mngt w) =
    (if 0 < w_orefs w t \<or> co_major_cache (w_mngt w) t \<noteq> None then (neg_err NLE_BUSY, w_mngt w)
     else if t \<notin> set (cache_ops (w_mngt w)) then (neg_err NLE_NOCACHE, w_mngt w)
     else (0, w_mngt w\<lparr>cache_ops := filter (\<lambda>s. co_name (cops s) \<noteq> co_name (cops t)) (cache_ops (w_mngt w))\<rparr>))"
proof -
  note T = wf_worldD(2) [OF keyed_type.mngt_reach_wf [OF assms(1,3,2)]]
  have "co_refcnt (w_mngt w) t > 0 \<longleftrightarrow> 0 < w_orefs w t \<or> co_major_cache (w_mngt w) t \<noteq> None"
    using T by (cases "t \<in> set (cache_ops (w_mngt w))") (auto simp: wf_types_def)
  moreover have "remove1 t (cache_ops (w_mngt w)) = filter (\<lambda>s. co_name (cops s) \<noteq> co_name (cops t)) (cache_ops (w_mngt w))"
    if "t \<in> set (cache_ops (w_mngt w))"
    using T that by (auto simp: wf_types_def distinct_remove1_removeAll removeAll_filter_not_eq inj_on_def intro!: filter_cong)
  ultimately show ?thesis by (simp add: nl_cache_mngt_unregister_def)
qed

theorem unregister_spec_witness:
  "nl_cache_mngt_unregister 0 (w_mngt (nc_world 1)) = (neg_err NLE_BUSY, w_mngt (nc_world 1))"
  by (subst unregister_spec [OF netconf.keyed_type_axioms nc_sane nc_world_reach]) (simp add: nc_world_def)

text \<open>
  Offering a cache twice loses a reference: after both offers and the only withdrawal that has an effect,
  the cache still counts one user too many and is never freed.
\<close>

lemma provide_twice_leaks:
  "run_mngts nc_ops 0 nc_cops nc_keyed [Provide 0, Unprovide 0, Call (CacheFree 0)] (nc_world 1) =
    Some ((nc_world 0)\<lparr>w_heap := \<lparr>h_obj = (\<lambda>_. None), h_cache = [0 \<mapsto> nc_cache True]\<rparr>, w_crefs := (\<lambda>_. 0),
      w_lost := (\<lambda>_. 0)(0 := 1)\<rparr>)"
  by (simp add: nc_world_def nc_run nl_cache_mngt_provide_def nl_cache_mngt_unprovide_def nl_cache_free_def
    cache_ops_lookup_for_obj_def nl_cache_ops_put_def nl_cache_get_def overwritten_def room_def fun_eq_iff Let_def)

end
