(* ===== verification/Nl_Mngr.thy ===== *)
theory Nl_Mngr
  imports Nl_Mngt
begin

unbundle bit_operations_syntax

text \<open>
  The cache manager (\<open>lib/cache_mngr.c\<close>): it subscribes to the notifications of the caches it is given and
  applies the events that arrive to them. The functions of a cache type that the manager calls are the
  fields of \<open>cache_funs\<close>; \<open>ca_change_data\<close> is part of the change functions. The socket of the manager and
  the one for dumps are values in its record, \<open>None\<close> for a null pointer.
\<close>

section \<open>Data\<close>

definition NL_AUTO_PROVIDE :: int where "NL_AUTO_PROVIDE = 1"
definition NL_ALLOCATED_SOCK :: int where "NL_ALLOCATED_SOCK = 2"
definition NASSOC_INIT :: int where "NASSOC_INIT = 16"
definition NASSOC_EXPAND :: int where "NASSOC_EXPAND = 8"

record ('d, 'u) cache_funs =
  co_request_update :: "('d, 'u) requester option"
  co_msg_parser :: "('d, 'u) msg_parser"
  co_event_filter :: "(nat \<Rightarrow> nat \<Rightarrow> 'd heap \<Rightarrow> int res) option"
  co_include_event :: "(nat \<Rightarrow> nat \<Rightarrow> ('d, 'u) change_func option \<Rightarrow> ('d, 'u) change_func_v2 option \<Rightarrow>
    'd heap \<Rightarrow> 'u \<Rightarrow> (int \<times> 'd heap \<times> 'u) res) option"

record ('d, 'u) nl_cache_assoc =
  ca_cache :: "nat option"
  ca_change :: "('d, 'u) change_func option"
  ca_change_v2 :: "('d, 'u) change_func_v2 option"

record ('d, 'u) nl_cache_mngr =
  cm_protocol :: int
  cm_flags :: int
  cm_nassocs :: int
  cm_sock :: "nl_sock option"
  cm_sync_sock :: "nl_sock option"
  cm_assocs :: "('d, 'u) nl_cache_assoc list option"

abbreviation no_assoc :: "('d, 'u) nl_cache_assoc" where
  "no_assoc \<equiv> \<lparr>ca_cache = None, ca_change = None, ca_change_v2 = None\<rparr>"

text \<open>What \<open>cm_assocs[0], ..., cm_assocs[cm_nassocs - 1]\<close> are for the loops.\<close>

definition assocs :: "('d, 'u) nl_cache_mngr \<Rightarrow> ('d, 'u) nl_cache_assoc list res" where
  "assocs mngr =
     (case cm_assocs mngr of
        None \<Rightarrow> if cm_nassocs mngr \<le> 0 then Inr [] else Inl Undef
      | Some cas \<Rightarrow> if cm_nassocs mngr \<le> blen cas then Inr (take (nat (cm_nassocs mngr)) cas) else Inl Undef)"

section \<open>Events\<close>

definition include_cb ::
  "'d ops \<Rightarrow> cops \<Rightarrow> (nat \<Rightarrow> ('d, 'u) cache_funs) \<Rightarrow> 'd allocs \<Rightarrow> ('d, 'u) nl_cache_assoc \<Rightarrow> ('d, 'u) pp_cb" where
  "include_cb ops cops funs allocs ca p h u =
     (case ca_cache ca of
        None \<Rightarrow> Inl Undef
      | Some c \<Rightarrow>
          and_then (deref (h_cache h) c) (\<lambda>cache.
          and_then (case co_event_filter (funs (c_ops cache)) of None \<Rightarrow> Inr NL_OK | Some f \<Rightarrow> f c p h) (\<lambda>ok.
            if ok \<noteq> NL_OK then Inr (0, h, u)
            else
              case co_include_event (funs (c_ops cache)) of
                Some f \<Rightarrow> f c p (ca_change ca) (ca_change_v2 ca) h u
              | None \<Rightarrow>
                  (case allocs p h of (a, b) \<Rightarrow>
                     if ca_change_v2 ca \<noteq> None then nl_cache_include_v2 ops cops a b c p (ca_change_v2 ca) h u
                     else nl_cache_include ops cops a b c p (ca_change ca) h u))))"

text \<open>The loops of \<open>event_input\<close>: the first association whose type knows the message type, with that type.\<close>

fun find_assoc ::
  "cops \<Rightarrow> 'd heap \<Rightarrow> int \<Rightarrow> ('d, 'u) nl_cache_assoc list \<Rightarrow> (('d, 'u) nl_cache_assoc \<times> nat) option res" where
  "find_assoc cops h type [] = Inr None"
| "find_assoc cops h type (ca # cas) =
     (case ca_cache ca of
        None \<Rightarrow> find_assoc cops h type cas
      | Some c \<Rightarrow>
          and_then (deref (h_cache h) c) (\<lambda>cache.
            if nl_msgtype_lookup (co_msgtypes (cops (c_ops cache))) type \<noteq> None then Inr (Some (ca, c_ops cache))
            else find_assoc cops h type cas))"

definition event_input ::
  "'d ops \<Rightarrow> cops \<Rightarrow> (nat \<Rightarrow> ('d, 'u) cache_funs) \<Rightarrow> 'd allocs \<Rightarrow> ('d, 'u) nl_cache_mngr \<Rightarrow> ('a, ('d, 'u) hstate) msg_cb" where
  "event_input ops cops funs allocs mngr msg arg s =
     (case s of
        Inl f \<Rightarrow> (NL_STOP, Inl f)
      | Inr (h, u) \<Rightarrow>
          if cm_protocol mngr \<noteq> nlmsg_get_proto msg then (NL_STOP, Inl Bug)
          else
            case and_then (assocs mngr) (find_assoc cops h (nlmsg_type (nlmsg_hdr msg))) of
              Inl f \<Rightarrow> (NL_STOP, Inl f)
            | Inr None \<Rightarrow> (NL_SKIP, s)
            | Inr (Some (ca, t)) \<Rightarrow>
                (case nl_cache_parse (co_msg_parser (funs t)) (cops t) (nm_nlh msg) (include_cb ops cops funs allocs ca) h u of
                   Inl f \<Rightarrow> (NL_STOP, Inl f)
                 | Inr (ret, h, u) \<Rightarrow> (ret, Inr (h, u))))"

text \<open>The \<open>while\<close> loop of \<open>nl_cache_mngr_data_ready\<close>: last result, messages read, socket and state.\<close>

fun ready_loop ::
  "nat \<Rightarrow> (nl_sock \<Rightarrow> ('d, 'u) hstate \<Rightarrow> (int \<times> nl_sock \<times> ('d, 'u) hstate) option) \<Rightarrow> int \<Rightarrow> nl_sock \<Rightarrow> ('d, 'u) hstate \<Rightarrow>
   (int \<times> int \<times> nl_sock \<times> ('d, 'u) hstate) option" where
  "ready_loop 0 report nread sk s = None"
| "ready_loop (Suc fuel) report nread sk s =
     (case report sk s of
        None \<Rightarrow> None
      | Some (err, sk, Inl f) \<Rightarrow> Some (err, nread, sk, Inl f)
      | Some (err, sk, Inr s) \<Rightarrow>
          if err > 0 then ready_loop fuel report (nread + err) sk (Inr s) else Some (err, nread, sk, Inr s))"

definition nl_cache_mngr_data_ready ::
  "'d ops \<Rightarrow> cops \<Rightarrow> (nat \<Rightarrow> ('d, 'u) cache_funs) \<Rightarrow> 'd allocs \<Rightarrow> ('a, 'd, 'u) link_layer \<Rightarrow> nat \<Rightarrow> ('d, 'u) nl_cache_mngr \<Rightarrow>
   'd heap \<Rightarrow> 'u \<Rightarrow> (int \<times> ('d, 'u) nl_cache_mngr \<times> 'd heap \<times> 'u) res option" where
  "nl_cache_mngr_data_ready ops cops funs allocs ll fuel mngr h u =
     (case cm_sock mngr of
        None \<Rightarrow> Some (Inl Undef)
      | Some sk \<Rightarrow>
          (case nl_cb_clone (ll_clone ll) (ll_cb ll) of
             None \<Rightarrow> Some (Inr (neg_err NLE_NOMEM, mngr, h, u))
           | Some cb \<Rightarrow>
               (let cb = ignore_err cb (nl_cb_set cb (int NL_CB_VALID) NL_CB_CUSTOM
                           (Some (event_input ops cops funs allocs mngr)) None)
                in case ready_loop fuel (nl_recvmsgs_report (ll_fuel ll) (ll_recv ll) (ll_mem ll) cb) 0 sk (Inr (h, u)) of
                     None \<Rightarrow> None
                   | Some (err, nread, sk, Inl f) \<Rightarrow> Some (Inl f)
                   | Some (err, nread, sk, Inr (h, u)) \<Rightarrow>
                       Some (Inr (if err < 0 \<and> err \<noteq> neg_err NLE_AGAIN then err else nread, mngr\<lparr>cm_sock := Some sk\<rparr>, h, u)))))"

definition nl_cache_mngr_get_fd :: "('d, 'u) nl_cache_mngr \<Rightarrow> int res" where
  "nl_cache_mngr_get_fd mngr = (case cm_sock mngr of None \<Rightarrow> Inl Undef | Some sk \<Rightarrow> Inr (nl_socket_get_fd sk))"

text \<open>\<open>poll\<close> gives its result and \<open>errno\<close> for a descriptor and a timeout.\<close>

definition nl_cache_mngr_poll ::
  "'d ops \<Rightarrow> cops \<Rightarrow> (nat \<Rightarrow> ('d, 'u) cache_funs) \<Rightarrow> 'd allocs \<Rightarrow> ('a, 'd, 'u) link_layer \<Rightarrow> nat \<Rightarrow> (int \<Rightarrow> int \<Rightarrow> int \<times> int) \<Rightarrow>
   int \<Rightarrow> ('d, 'u) nl_cache_mngr \<Rightarrow> 'd heap \<Rightarrow> 'u \<Rightarrow> (int \<times> ('d, 'u) nl_cache_mngr \<times> 'd heap \<times> 'u) res option" where
  "nl_cache_mngr_poll ops cops funs allocs ll fuel poll timeout mngr h u =
     (case nl_cache_mngr_get_fd mngr of
        Inl f \<Rightarrow> Some (Inl f)
      | Inr fd \<Rightarrow>
          (case poll fd timeout of (ret, errno) \<Rightarrow>
             if ret < 0 then Some (Inr (neg_err (nl_syserr2nlerr errno), mngr, h, u))
             else if ret = 0 then Some (Inr (0, mngr, h, u))
             else nl_cache_mngr_data_ready ops cops funs allocs ll fuel mngr h u))"

section \<open>Caches\<close>

text \<open>The two loops over \<open>co_groups\<close>, which end at a group number 0; failures to leave a group are ignored.\<close>

fun join_groups :: "'k kernel \<Rightarrow> nl_sock \<Rightarrow> (int \<times> int) list \<Rightarrow> 'k \<Rightarrow> 'k \<times> unit res" where
  "join_groups K sk [] k = (k, Inl Undef)"
| "join_groups K sk (grp # grps) k =
     (if snd grp = 0 then (k, Inr ())
      else case nl_socket_add_membership K sk (snd grp) k of
        (k, Inl f) \<Rightarrow> (k, Inl f)
      | (k, Inr _) \<Rightarrow> join_groups K sk grps k)"

fun leave_groups :: "'k kernel \<Rightarrow> nl_sock \<Rightarrow> (int \<times> int) list \<Rightarrow> 'k \<Rightarrow> 'k" where
  "leave_groups K sk [] k = k"
| "leave_groups K sk (grp # grps) k =
     (if snd grp = 0 then k else leave_groups K sk grps (fst (nl_socket_drop_membership K sk (snd grp) k)))"

text \<open>The first loop of \<open>nl_cache_mngr_add_cache\<close>: is a cache of type \<open>t\<close> managed already?\<close>

fun type_managed :: "'d heap \<Rightarrow> nat \<Rightarrow> ('d, 'u) nl_cache_assoc list \<Rightarrow> bool res" where
  "type_managed h t [] = Inr False"
| "type_managed h t (ca # cas) =
     (case ca_cache ca of
        None \<Rightarrow> type_managed h t cas
      | Some c \<Rightarrow> and_then (deref (h_cache h) c) (\<lambda>cache. if c_ops cache = t then Inr True else type_managed h t cas))"

text \<open>The second loop: the index of the first free association, or the number of associations.\<close>

fun free_slot :: "('d, 'u) nl_cache_assoc list \<Rightarrow> nat" where
  "free_slot [] = 0"
| "free_slot (ca # cas) = (if ca_cache ca = None then 0 else Suc (free_slot cas))"

text \<open>Growing the array; \<open>ra\<close> is the result of \<open>realloc\<close>.\<close>

definition grow_assocs :: "bool \<Rightarrow> nat \<Rightarrow> ('d, 'u) nl_cache_mngr \<Rightarrow> ('d, 'u) nl_cache_assoc list \<Rightarrow> ('d, 'u) nl_cache_mngr option" where
  "grow_assocs ra i mngr cas =
     (if int i < cm_nassocs mngr then Some mngr
      else if \<not> ra then None
      else Some (mngr\<lparr>cm_assocs := Some (cas @ replicate (nat NASSOC_EXPAND) no_assoc),
                      cm_nassocs := cm_nassocs mngr + NASSOC_EXPAND\<rparr>))"

text \<open>
  \<open>c_ops\<close> is never null in the model, so that the first check of the code has no counterpart. \<open>ll\<close> is the
  link layer of the socket for dumps, \<open>m\<close> the state of the cache management. A manager from
  \<open>nl_cache_mngr_alloc\<close> has both sockets; without them nothing is said about this function.
\<close>

definition nl_cache_mngr_add_cache ::
  "'d ops \<Rightarrow> cops \<Rightarrow> (nat \<Rightarrow> ('d, 'u) cache_funs) \<Rightarrow> 'd allocs \<Rightarrow> ('a, 'd, 'u) link_layer \<Rightarrow> 'k kernel \<Rightarrow> bool \<Rightarrow> nat \<Rightarrow>
   ('d, 'u) nl_cache_mngr \<Rightarrow> nat \<Rightarrow> ('d, 'u) change_func option \<Rightarrow> cache_mngt \<Rightarrow> 'k \<Rightarrow> 'd heap \<Rightarrow> 'u \<Rightarrow>
   (int \<times> ('d, 'u) nl_cache_mngr \<times> cache_mngt \<times> 'k \<times> 'd heap \<times> 'u) res option" where
  "nl_cache_mngr_add_cache ops cops funs allocs ll K ra fuel mngr c cb m k h u =
     (case (h_cache h c, assocs mngr, cm_sock mngr, cm_sync_sock mngr) of
        (Some cache, Inr cas, Some sk, Some sync) \<Rightarrow>
          (let t = c_ops cache; cop = cops t in
           if co_protocol cop \<noteq> cm_protocol mngr then Some (Inr (neg_err NLE_PROTO_MISMATCH, mngr, m, k, h, u))
           else
             case co_groups cop of
               None \<Rightarrow> Some (Inr (neg_err NLE_OPNOTSUPP, mngr, m, k, h, u))
             | Some grps \<Rightarrow>
                 (case type_managed h t cas of
                    Inl f \<Rightarrow> Some (Inl f)
                  | Inr True \<Rightarrow> Some (Inr (neg_err NLE_EXIST, mngr, m, k, h, u))
                  | Inr False \<Rightarrow>
                      (let i = free_slot cas in
                       case grow_assocs ra i mngr cas of
                         None \<Rightarrow> Some (Inr (neg_err NLE_NOMEM, mngr, m, k, h, u))
                       | Some mngr \<Rightarrow>
                           (case join_groups K sk grps k of
                              (k, Inl (Err e)) \<Rightarrow> Some (Inr (neg_err e, mngr, m, k, h, u))
                            | (k, Inl f) \<Rightarrow> Some (Inl f)
                            | (k, Inr _) \<Rightarrow>
                                (case nl_cache_refill ops cops allocs ll (co_msg_parser (funs t)) (co_request_update (funs t)) fuel c sync h u of
                                   None \<Rightarrow> None
                                 | Some (Inl f) \<Rightarrow> Some (Inl f)
                                 | Some (Inr (err, sync, h, u)) \<Rightarrow>
                                     (let mngr = mngr\<lparr>cm_sync_sock := Some sync\<rparr> in
                                      if err < 0 then Some (Inr (err, mngr, m, leave_groups K sk grps k, h, u))
                                      else
                                        let mngr = mngr\<lparr>cm_assocs := map_option (\<lambda>cas. cas[i :=
                                              (cas ! i)\<lparr>ca_cache := Some c, ca_change := cb\<rparr>]) (cm_assocs mngr)\<rparr> in
                                        if cm_flags mngr AND NL_AUTO_PROVIDE \<noteq> 0
                                        then Some (and_then (nl_cache_mngt_provide cops c m h) (\<lambda>(m, h). Inr (0, mngr, m, k, h, u)))
                                        else Some (Inr (0, mngr, m, k, h, u))))))))
      | _ \<Rightarrow> Some (Inl Undef))"

text \<open>The index of the association of a cache, or the number of associations.\<close>

fun cache_slot :: "nat \<Rightarrow> ('d, 'u) nl_cache_assoc list \<Rightarrow> nat" where
  "cache_slot c [] = 0"
| "cache_slot c (ca # cas) = (if ca_cache ca = Some c then 0 else Suc (cache_slot c cas))"

definition nl_cache_mngr_set_change_func_v2 ::
  "cops \<Rightarrow> ('d, 'u) nl_cache_mngr \<Rightarrow> nat \<Rightarrow> ('d, 'u) change_func_v2 option \<Rightarrow> 'd heap \<Rightarrow> (int \<times> ('d, 'u) nl_cache_mngr) res" where
  "nl_cache_mngr_set_change_func_v2 cops mngr c cb h =
     and_then (deref (h_cache h) c) (\<lambda>cache.
     and_then (assocs mngr) (\<lambda>cas.
       let cop = cops (c_ops cache); i = cache_slot c cas in
       if co_protocol cop \<noteq> cm_protocol mngr then Inr (neg_err NLE_PROTO_MISMATCH, mngr)
       else if co_groups cop = None then Inr (neg_err NLE_OPNOTSUPP, mngr)
       else if int i \<ge> cm_nassocs mngr then Inr (neg_err NLE_RANGE, mngr)
       else Inr (0, mngr\<lparr>cm_assocs := map_option (\<lambda>cas. cas[i := (cas ! i)\<lparr>ca_change_v2 := cb\<rparr>]) (cm_assocs mngr)\<rparr>)))"

definition nl_cache_mngr_add_cache_v2 ::
  "'d ops \<Rightarrow> cops \<Rightarrow> (nat \<Rightarrow> ('d, 'u) cache_funs) \<Rightarrow> 'd allocs \<Rightarrow> ('a, 'd, 'u) link_layer \<Rightarrow> 'k kernel \<Rightarrow> bool \<Rightarrow> nat \<Rightarrow>
   ('d, 'u) nl_cache_mngr \<Rightarrow> nat \<Rightarrow> ('d, 'u) change_func_v2 option \<Rightarrow> cache_mngt \<Rightarrow> 'k \<Rightarrow> 'd heap \<Rightarrow> 'u \<Rightarrow>
   (int \<times> ('d, 'u) nl_cache_mngr \<times> cache_mngt \<times> 'k \<times> 'd heap \<times> 'u) res option" where
  "nl_cache_mngr_add_cache_v2 ops cops funs allocs ll K ra fuel mngr c cb m k h u =
     map_option (\<lambda>r. and_then r (\<lambda>(err, mngr, m, k, h, u).
         if err < 0 then Inr (err, mngr, m, k, h, u)
         else and_then (nl_cache_mngr_set_change_func_v2 cops mngr c cb h) (\<lambda>(err, mngr). Inr (err, mngr, m, k, h, u))))
       (nl_cache_mngr_add_cache ops cops funs allocs ll K ra fuel mngr c None m k h u)"

text \<open>\<open>a\<close>, \<open>a1\<close>, \<open>a2\<close> as in \<open>nl_cache_alloc\<close>; the cache is returned through \<open>result\<close>.\<close>

definition nl_cache_mngr_add ::
  "'d ops \<Rightarrow> cops \<Rightarrow> (nat \<Rightarrow> ('d, 'u) cache_funs) \<Rightarrow> 'd allocs \<Rightarrow> ('a, 'd, 'u) link_layer \<Rightarrow> 'k kernel \<Rightarrow> bool \<Rightarrow> nat \<Rightarrow>
   nat option \<Rightarrow> bool \<Rightarrow> bool \<Rightarrow> ('d, 'u) nl_cache_mngr \<Rightarrow> string \<Rightarrow> ('d, 'u) change_func option \<Rightarrow> cache_mngt \<Rightarrow> 'k \<Rightarrow> 'd heap \<Rightarrow> 'u \<Rightarrow>
   (int \<times> nat option \<times> ('d, 'u) nl_cache_mngr \<times> cache_mngt \<times> 'k \<times> 'd heap \<times> 'u) res option" where
  "nl_cache_mngr_add ops cops funs allocs ll K ra fuel a a1 a2 mngr name cb m k h u =
     (case nl_cache_ops_lookup_safe cops name m of
        (None, m) \<Rightarrow> Some (Inr (neg_err NLE_NOCACHE, None, mngr, m, k, h, u))
      | (Some t, m) \<Rightarrow>
          (case nl_cache_alloc ops cops a a1 a2 t h of
             Inl f \<Rightarrow> Some (Inl f)
           | Inr (c, h) \<Rightarrow>
               (let m = nl_cache_ops_put t m in
                case c of
                  None \<Rightarrow> Some (Inr (neg_err NLE_NOMEM, None, mngr, m, k, h, u))
                | Some c \<Rightarrow>
                    map_option (\<lambda>r. and_then r (\<lambda>(err, mngr, m, k, h, u).
                        if err < 0 then and_then (nl_cache_free ops (Some c) h) (\<lambda>h. Inr (err, None, mngr, m, k, h, u))
                        else Inr (0, Some c, mngr, m, k, h, u)))
                      (nl_cache_mngr_add_cache ops cops funs allocs ll K ra fuel mngr c cb m k h u))))"

section \<open>The manager\<close>

text \<open>Giving back the caches.\<close>

fun free_assocs :: "'d ops \<Rightarrow> cops \<Rightarrow> ('d, 'u) nl_cache_assoc list \<Rightarrow> cache_mngt \<Rightarrow> 'd heap \<Rightarrow> (cache_mngt \<times> 'd heap) res" where
  "free_assocs ops cops [] m h = Inr (m, h)"
| "free_assocs ops cops (ca # cas) m h =
     (case ca_cache ca of
        None \<Rightarrow> free_assocs ops cops cas m h
      | Some c \<Rightarrow>
          and_then (nl_cache_mngt_unprovide ops cops c m h) (\<lambda>(m, h).
          and_then (nl_cache_free ops (Some c) h) (\<lambda>h. free_assocs ops cops cas m h)))"

text \<open>
  The socket that the caller passed to \<open>nl_cache_mngr_alloc\<close> is closed but stays his; it is the first part of the
  result. \<open>st\<close>, \<open>ch\<close> and \<open>k\<close> are the local ports, the callback sets and the kernel.
\<close>

definition nl_cache_mngr_free ::
  "'d ops \<Rightarrow> cops \<Rightarrow> 'k kernel \<Rightarrow> ('d, 'u) nl_cache_mngr option \<Rightarrow> ports \<Rightarrow> ('a, 'v) cb_heap \<Rightarrow> 'k \<Rightarrow> cache_mngt \<Rightarrow> 'd heap \<Rightarrow>
   (nl_sock option \<times> ports \<times> ('a, 'v) cb_heap \<times> 'k \<times> cache_mngt \<times> 'd heap) res" where
  "nl_cache_mngr_free ops cops K mngr st ch k m h =
     (case mngr of
        None \<Rightarrow> Inr (None, st, ch, k, m, h)
      | Some mngr \<Rightarrow>
          (case (case cm_sock mngr of None \<Rightarrow> (None, k) | Some sk \<Rightarrow> apfst Some (nl_close K sk k)) of (sk, k) \<Rightarrow>
           case (case cm_sync_sock mngr of None \<Rightarrow> (None, k) | Some sk \<Rightarrow> apfst Some (nl_close K sk k)) of (sync, k) \<Rightarrow>
           and_then (nl_socket_free K sync st ch k) (\<lambda>(st, ch, k).
           and_then (if cm_flags mngr AND NL_ALLOCATED_SOCK \<noteq> 0 then nl_socket_free K sk st ch k else Inr (st, ch, k)) (\<lambda>(st, ch, k).
           and_then (assocs mngr) (\<lambda>cas.
           and_then (free_assocs ops cops cas m h) (\<lambda>(m, h).
             Inr (if cm_flags mngr AND NL_ALLOCATED_SOCK \<noteq> 0 then None else sk, st, ch, k, m, h)))))))"

text \<open>
  \<open>ma\<close> and \<open>aa\<close> are the allocations of the manager and of its associations; \<open>s1\<close> and \<open>s2\<close> allocate the two
  sockets. \<open>fail\<close> is the part from the label \<open>errout\<close>. On success the caller's socket is in the manager.
\<close>

definition nl_cache_mngr_alloc ::
  "'d ops \<Rightarrow> cops \<Rightarrow> 'k kernel \<Rightarrow> bool \<Rightarrow> bool \<Rightarrow> (('a, 'v) cb_heap \<Rightarrow> (nl_sock option \<times> ('a, 'v) cb_heap) res) \<Rightarrow>
   (('a, 'v) cb_heap \<Rightarrow> (nl_sock option \<times> ('a, 'v) cb_heap) res) \<Rightarrow> nl_sock option \<Rightarrow> int \<Rightarrow> int \<Rightarrow>
   ports \<Rightarrow> ('a, 'v) cb_heap \<Rightarrow> 'k \<Rightarrow> cache_mngt \<Rightarrow> 'd heap \<Rightarrow>
   (int \<times> ('d, 'u) nl_cache_mngr option \<times> nl_sock option \<times> ports \<times> ('a, 'v) cb_heap \<times> 'k \<times> cache_mngt \<times> 'd heap) res" where
  "nl_cache_mngr_alloc ops cops K ma aa s1 s2 sk protocol flags st ch k m h =
     (let fail = (\<lambda>err mngr st ch k.
            and_then (nl_cache_mngr_free ops cops K (Some mngr) st ch k m h) (\<lambda>(sk, st, ch, k, m, h).
              Inr (err, None, sk, st, ch, k, m, h)));
          mngr = \<lparr>cm_protocol = 0, cm_flags = 0, cm_nassocs = 0, cm_sock = None, cm_sync_sock = None, cm_assocs = None\<rparr> in
      if flags AND NL_ALLOCATED_SOCK \<noteq> 0 then Inl Bug
      else if \<not> ma then Inr (neg_err NLE_NOMEM, None, sk, st, ch, k, m, h)
      else
        and_then (case sk of Some s \<Rightarrow> Inr (Some s, ch) | None \<Rightarrow> s1 ch) (\<lambda>(new, ch).
        case new of
          None \<Rightarrow> fail (neg_err NLE_NOMEM) mngr st ch k
        | Some s \<Rightarrow>
            (let mngr = mngr\<lparr>cm_sock := Some s, cm_nassocs := NASSOC_INIT, cm_protocol := protocol,
                   cm_flags := (if sk = None then flags OR NL_ALLOCATED_SOCK else flags),
                   cm_assocs := (if aa then Some (replicate (nat NASSOC_INIT) no_assoc) else None)\<rparr> in
             if \<not> aa then fail (neg_err NLE_NOMEM) mngr st ch k
             else
               and_then (nl_socket_disable_seq_check s ch) (\<lambda>ch.
               and_then (nl_connect K s protocol st k) (\<lambda>(s, st, k, r).
               let mngr = mngr\<lparr>cm_sock := Some s\<rparr> in
               case r of
                 Inl (Err e) \<Rightarrow> fail (neg_err e) mngr st ch k
               | Inl f \<Rightarrow> Inl f
               | Inr _ \<Rightarrow>
                   (case nl_socket_set_nonblocking K s k of
                      (k, Inl (Err e)) \<Rightarrow> fail (neg_err e) mngr st ch k
                    | (k, Inl f) \<Rightarrow> Inl f
                    | (k, Inr _) \<Rightarrow>
                        and_then (s2 ch) (\<lambda>(new, ch).
                        case new of
                          None \<Rightarrow> fail (neg_err NLE_NOMEM) mngr st ch k
                        | Some sync \<Rightarrow>
                            and_then (nl_connect K sync protocol st k) (\<lambda>(sync, st, k, r).
                            let mngr = mngr\<lparr>cm_sync_sock := Some sync\<rparr> in
                            case r of
                              Inl (Err e) \<Rightarrow>
                                and_then (nl_socket_free K (Some sync) st ch k) (\<lambda>(st, ch, k).
                                  fail (neg_err e) mngr st ch k)
                            | Inl f \<Rightarrow> Inl f
                            | Inr _ \<Rightarrow> Inr (0, Some mngr, None, st, ch, k, m, h)))))))))"

end
