(* ===== verification/Nl_Events.thy ===== *)
theory Nl_Events
  imports Nl_Mngr Nl_Neigh_Sync
begin

unbundle bit_operations_syntax

text \<open>
  A managed cache follows the events of the kernel: whatever announcements and deletions wait at the
  socket, \<open>nl_cache_mngr_data_ready\<close> applies them in order, for every object type that keeps the contract of
  parsers and is replaced by events.
\<close>

section \<open>Events and their effect\<close>

definition reports :: "('d nl_object \<Rightarrow> bool) \<Rightarrow> (byte list \<Rightarrow> 'd nl_object option) \<Rightarrow> nl_cache_ops \<Rightarrow> byte list \<Rightarrow> bool" where
  "reports keyed decode cop buf \<longleftrightarrow> nlmsg_valid_hdr (nlh buf 0) (co_hdrsize cop) \<and>
     (case msgtype_act (co_msgtypes cop) (nlmsg_type (nlh buf 0)) of
        None \<Rightarrow> False | Some act \<Rightarrow> act = NL_ACT_NEW \<or> act = NL_ACT_DEL) \<and>
     (case decode buf of None \<Rightarrow> False | Some x \<Rightarrow> keyed x)"

definition apply_event ::
  "'d ops \<Rightarrow> (byte list \<Rightarrow> 'd nl_object option) \<Rightarrow> nl_cache_ops \<Rightarrow> byte list \<Rightarrow> 'd nl_object list \<Rightarrow> 'd nl_object list" where
  "apply_event ops decode cop buf vs =
     (let x = value_of (the (decode buf)) in
      if msgtype_act (co_msgtypes cop) (nlmsg_type (nlh buf 0)) = Some NL_ACT_NEW then announce ops x vs
      else filter (\<lambda>y. \<not> ident ops y x) vs)"

text \<open>The first cache of the manager is \<open>c\<close>, and its change callback only observes.\<close>

definition manages :: "('d, 'u) nl_cache_mngr \<Rightarrow> nat \<Rightarrow> (nat \<Rightarrow> nat \<Rightarrow> int \<Rightarrow> 'u \<Rightarrow> 'u) \<Rightarrow> bool" where
  "manages mngr c g \<longleftrightarrow> (\<exists>cas ca. assocs mngr = Inr cas \<and> List.find (\<lambda>ca. ca_cache ca \<noteq> None) cas = Some ca \<and>
     ca_cache ca = Some c \<and> ca_change ca = Some (observer g) \<and> ca_change_v2 ca = None)"

text \<open>Types without filter and without an event function of their own.\<close>

definition plain_funs :: "('d, 'u) msg_parser \<Rightarrow> nat \<Rightarrow> ('d, 'u) cache_funs" where
  "plain_funs parser t = \<lparr>co_request_update = None, co_msg_parser = parser, co_event_filter = None, co_include_event = None\<rparr>"

lemma include_cb_plain:
  assumes "ca_cache ca = Some c" "ca_change_v2 ca = None" "co_event_filter (funs (c_ops cache)) = None" "co_include_event (funs (c_ops cache)) = None"
    and "h_cache h c = Some cache"
  shows "include_cb ops cops funs allocs ca p h u = resync_cb ops cops allocs c (ca_change ca) None p h u"
  using assms by (simp add: include_cb_def resync_cb_def split: prod.split)

lemma find_assoc_first:
  assumes "List.find (\<lambda>ca. ca_cache ca \<noteq> None) cas = Some ca" "ca_cache ca = Some c" "h_cache h c = Some cache"
    and "msgtype_act (co_msgtypes (cops (c_ops cache))) type = Some act"
  shows "find_assoc cops h type cas = Inr (Some (ca, c_ops cache))"
proof -
  have "nl_msgtype_lookup ms type \<noteq> None" if "msgtype_act ms type = Some act" for ms
    using that by (induction ms) (auto split: if_splits)
  then show ?thesis using assms by (induction cas) (auto split: if_splits)
qed

text \<open>The state between two messages: the cache holds the values \<open>vs\<close>.\<close>

definition follows ::
  "'d ops \<Rightarrow> nat \<Rightarrow> ('d nl_object \<Rightarrow> bool) \<Rightarrow> cops \<Rightarrow> (nat \<Rightarrow> int) \<Rightarrow> nat \<Rightarrow> nl_cache \<Rightarrow> 'd nl_object list \<Rightarrow> ('d, 'u) hstate \<Rightarrow> bool" where
  "follows ops i keyed cops refs c cache0 vs s \<longleftrightarrow>
     (\<exists>h u cache. s = Inr (h, u) \<and> finite (dom (h_obj h)) \<and> wf_heap ops keyed i cops h refs \<and>
        h_cache h c = Some cache \<and> c_hashtable cache \<noteq> None \<and> cache_cfg cache = cache_cfg cache0 \<and> cache_values h cache = vs)"

context object_parser begin

lemma event_values:
  assumes "c_items cache' = filter (\<lambda>q. \<not> ident ops (the (h_obj h q)) x) (c_items cache) @ (if new then [p] else [])"
    and "new \<Longrightarrow> h_obj h' p = Some (x\<lparr>ce_cache := Some c, ce_linked := True, ce_refcnt := 2\<rparr>)"
    and "\<forall>q \<in> set (c_items cache). \<not> ident ops (the (h_obj h q)) x \<longrightarrow> h_obj h' q = h_obj h q"
  shows "cache_values h' cache' = (if new then announce ops (value_of x) (cache_values h cache)
    else filter (\<lambda>y. \<not> ident ops y (value_of x)) (cache_values h cache))"
proof -
  have "map (\<lambda>q. value_of (the (h_obj h' q))) (filter (\<lambda>q. \<not> ident ops (the (h_obj h q)) x) (c_items cache)) =
      filter (\<lambda>y. \<not> ident ops y (value_of x)) (cache_values h cache)"
    using assms(3) by (auto simp: cache_values_def filter_map o_def intro!: map_cong filter_cong)
  then show ?thesis using assms(1,2) by (simp add: cache_values_def [of h'] announce_def)
qed

lemma event_step:
  assumes s: "follows ops i keyed cops refs c cache0 vs s" and G: "reports keyed decode (cops (c_ops cache0)) (nm_nlh msg)"
    and m: "manages mngr c g" "nm_protocol msg = cm_protocol mngr" "funs (c_ops cache0) = plain_funs parser t"
    and mem: "\<forall>p h. fst (allocs p h)" and q: "\<forall>c p act u. q (g c p act u) = q u"
  shows "\<exists>s'. event_input ops cops funs allocs mngr msg arg s = (NL_OK, s') \<and>
    follows ops i keyed cops refs c cache0 (apply_event ops decode (cops (c_ops cache0)) (nm_nlh msg) vs) s' \<and> in_user q s' = in_user q s"
proof -
  let ?t = "c_ops cache0" and ?buf = "nm_nlh msg"
  obtain h u cache where h: "s = Inr (h, u)" "finite (dom (h_obj h))" "wf_heap ops keyed i cops h refs"
      "h_cache h c = Some cache" "c_hashtable cache \<noteq> None" "cache_cfg cache = cache_cfg cache0" "cache_values h cache = vs"
    using s unfolding follows_def by (elim exE conjE) (rule that)
  have t: "c_ops cache = ?t" using h(6) by (simp add: cache_cfg_def)
  obtain x act where x: "decode ?buf = Some x" "keyed x" "nlmsg_valid_hdr (nlh ?buf 0) (co_hdrsize (cops ?t))"
      "msgtype_act (co_msgtypes (cops ?t)) (nlmsg_type (nlh ?buf 0)) = Some act" "act = NL_ACT_NEW \<or> act = NL_ACT_DEL"
    using G by (auto simp: reports_def split: option.splits)
  obtain cas ca where ca: "assocs mngr = Inr cas" "List.find (\<lambda>ca. ca_cache ca \<noteq> None) cas = Some ca" "ca_cache ca = Some c"
      "ca_change ca = Some (observer g)" "ca_change_v2 ca = None" using m(1) by (auto simp: manages_def)
  let ?pp = "include_cb ops cops funs allocs ca" and ?rs = "resync_cb ops cops allocs c (Some (observer g)) None"
  have act: "msgtype_act (co_msgtypes (cops (c_ops cache))) (ce_msgtype x) = Some act"
    using decode_hdr [OF x(1)] x(4) t by simp
  note D = deliver_include [OF h(3-5) alloc_unused [OF h(2)] obj_size, where allocs = allocs and fill = "\<lambda>_. x" and g = g and u = u and act = act]
  obtain h' u' cache' where d: "deliver ops i (Some (alloc h)) (\<lambda>_. x) ?rs h u = Inr (0, h', u')"
      "wf_heap ops keyed i cops h' refs" "h_cache h' c = Some cache'" "c_hashtable cache' \<noteq> None" "cache_cfg cache' = cache_cfg cache"
      "c_items cache' = filter (\<lambda>q. \<not> ident ops (the (h_obj h q)) x) (c_items cache) @ (if act = NL_ACT_NEW then [alloc h] else [])"
      "act = NL_ACT_NEW \<longrightarrow> h_obj h' (alloc h) = Some (x\<lparr>ce_cache := Some c, ce_linked := True, ce_refcnt := 2\<rparr>)"
      "\<forall>q \<in> set (c_items cache). \<not> ident ops (the (h_obj h q)) x \<longrightarrow> h_obj h' q = h_obj h q"
      "dom (h_obj h') \<subseteq> insert (alloc h) (dom (h_obj h))"
    using D [OF mem [rule_format]] decode_hdr [OF x(1)] x(2,5) act by (elim meta_impE) blast+
  have "?pp (alloc h) (set_obj (alloc h) x h) u = ?rs (alloc h) (set_obj (alloc h) x h) u"
    using include_cb_plain [OF ca(3,5), of funs cache "set_obj (alloc h) x h"] m(3) t h(4) ca(4) by (simp add: plain_funs_def)
  then have "parser ?buf ?pp h u = Inr (0, h', u')"
    using d(1) unfolding parses [OF x(1)] deliver_eq [where ops = ops and i = i, OF obj_size] by simp
  from parse_types_found [where parser = parser, OF x(4) this] have "nl_cache_parse parser (cops ?t) ?buf ?pp h u = Inr (0, h', u')"
    using x(3) by (simp add: nl_cache_parse_def neg_err_def)
  then have "event_input ops cops funs allocs mngr msg arg s = (NL_OK, Inr (h', u'))"
    using h(1) m(2,3) ca(1) find_assoc_first [OF ca(2,3) h(4), of cops "nlmsg_type (nlmsg_hdr msg)" act] x(4) t
    by (simp add: event_input_def nlmsg_get_proto_def plain_funs_def nlmsg_hdr_def NL_OK_def)
  moreover have "cache_values h' cache' = apply_event ops decode (cops ?t) ?buf vs"
    using event_values [OF d(6) d(7) [rule_format] d(8)] h(7) x(1,4) by (simp add: apply_event_def Let_def)
  then have "follows ops i keyed cops refs c cache0 (apply_event ops decode (cops ?t) ?buf vs) (Inr (h', u'))"
    using d(2-5) h(6) finite_subset [OF d(9)] h(2) by (simp add: follows_def)
  moreover have "q u' = q u" using deliver_keeps [where q = q and g = g, OF q d(1)] .
  ultimately show ?thesis using h(1) by (auto simp: in_user_def)
qed

end

section \<open>Receiving events\<close>

text \<open>The callbacks of a manager's socket: no sequence numbers are checked, nothing else is changed.\<close>

definition event_cb :: "('a, 'u) nl_cb \<Rightarrow> bool" where
  "event_cb cb \<longleftrightarrow> cb_set cb ! NL_CB_MSG_IN = None \<and> cb_set cb ! NL_CB_SEQ_CHECK = Some noop_seq_check \<and>
     cb_set cb ! NL_CB_INVALID = None \<and> cb_set cb ! NL_CB_SEND_ACK = None \<and>
     cb_set cb ! NL_CB_DUMP_INTR = None \<and> cb_err cb = None"

definition event_hdr :: "nlmsghdr \<Rightarrow> bool" where
  "event_hdr hdr \<longleftrightarrow> \<not> is_control (nlmsg_type hdr) \<and> nlmsg_flags hdr AND NLM_F_MULTI = 0 \<and> nlmsg_flags hdr AND NLM_F_DUMP_INTR = 0"

definition event_dgram :: "byte list \<Rightarrow> bool" where
  "event_dgram d \<longleftrightarrow> nlmsg_positions d 0 (blen d) \<noteq> [] \<and> blen d \<le> STREAM_MAX \<and>
     list_all (\<lambda>(p, r). event_hdr (nlh d p)) (nlmsg_positions d 0 (blen d))"

lemma recv_event:
  assumes "event_cb cb" "cb_set cb ! NL_CB_VALID = Some f" "event_hdr hdr"
    and "f msg (cb_args cb ! NL_CB_VALID) (rs_u st) = (NL_OK, u)"
  shows "recv_msg cb nla hdr e msg st = (st\<lparr>rs_nrecv := rs_nrecv st + 1, rs_u := u, rs_multipart := False \<or> rs_multipart st\<rparr>, Skip)"
  using assms
  by (simp add: recv_msg_def recv_seq_def recv_expect_def recv_intr_def recv_ack_def event_cb_def event_hdr_def is_control_def
      recv_dispatch_def NL_CB_CALL_def noop_seq_check_def NL_OK_def Let_def)

lemma recvmsgs_event:
  assumes cb: "event_cb cb" "cb_set cb ! NL_CB_VALID = Some f" "cb_recv_ow cb = None"
    and J: "\<And>msg xs u. J xs u \<Longrightarrow> G (nm_nlh msg) \<Longrightarrow> nm_protocol msg = s_proto sk \<Longrightarrow>
      \<exists>u'. f msg (cb_args cb ! NL_CB_VALID) u = (NL_OK, u') \<and> J (xs @ [nm_nlh msg]) u'"
    and r: "recv sk u = Some ((blen d, nla, d, creds), sk, u1)" "J xs u1"
    and d: "event_dgram d" "list_all G (dgram_msgs d)"
  shows "\<exists>u'. recvmsgs (Suc fuel) recv True cb sk u = Some (int (length (dgram_msgs d)), sk, u') \<and> J (xs @ dgram_msgs d) u' \<and>
    0 < length (dgram_msgs d)"
proof -
  let ?st = "\<lparr>rs_sk = sk, rs_u = u1, rs_multipart = False, rs_interrupted = False, rs_nrecv = 0\<rparr>" and ?ps = "nlmsg_positions d 0 (blen d)"
  have ne: "?ps \<noteq> []" "blen d \<le> STREAM_MAX" using d(1) by (auto simp: event_dgram_def)
  then have pos: "0 < blen d" using each_msg [of _ _ d] by (cases ?ps) auto
  have ps: "\<forall>(p, r) \<in> set ?ps. nlmsg_ok (nlh d p) r \<and> 0 \<le> p \<and> p + r \<le> blen d \<and> r \<le> STREAM_MAX \<and> event_hdr (nlh d p) \<and> G (msg_bytes d p)"
    using each_msg [OF _ ne(2)] d by (fastforce simp: event_dgram_def dgram_msgs_def list_all_iff)
  have "\<exists>u. recv_msg cb nla hdr e msg st = (st\<lparr>rs_nrecv := rs_nrecv st + 1, rs_u := u, rs_multipart := False \<or> rs_multipart st\<rparr>, Skip) \<and>
      J (ys @ [nm_nlh msg]) u"
    if "event_hdr hdr" "J ys (rs_u st)" "rs_sk st = sk" "G (nm_nlh msg)" "nm_protocol msg = s_proto sk" for hdr e msg ys st
    using J [OF that(2,4,5)] recv_event [OF cb(1,2) that(1), of msg st] by blast
  from recv_loop_msgs [of event_hdr J sk G cb nla False ?ps d xs ?st creds, OF this ps]
  have "\<exists>st'. recv_loop cb True nla creds d ?ps ?st = (st', Skip) \<and> J (xs @ dgram_msgs d) (rs_u st') \<and> rs_sk st' = sk \<and>
      rs_interrupted st' = rs_interrupted ?st \<and> rs_nrecv st' = rs_nrecv ?st + int (length ?ps) \<and> (rs_multipart st' \<longleftrightarrow> False \<and> ?ps \<noteq> [] \<or> rs_multipart ?st)"
    unfolding dgram_msgs_def by (rule; use r(2) in simp)
  then obtain st' where l: "recv_loop cb True nla creds d ?ps ?st = (st', Skip)" "J (xs @ dgram_msgs d) (rs_u st')" "rs_sk st' = sk"
      "\<not> rs_interrupted st'" "rs_nrecv st' = int (length ?ps)" "\<not> rs_multipart st'" by (elim exE conjE) simp
  then show ?thesis using r(1) pos cb(3) ne(1) by (simp add: recvmsgs_def recv_finish_def dgram_msgs_def)
qed

text \<open>The loop of the manager over all datagrams \<open>ds\<close> that wait; \<open>q\<close> gives the waiting datagrams.\<close>

lemma ready_loop_events:
  assumes cb: "event_cb cb" "cb_set cb ! NL_CB_VALID = Some f" "cb_recv_ow cb = None" "cb_recvmsgs_ow cb = None"
    and J: "\<And>msg xs s. J xs s \<Longrightarrow> G (nm_nlh msg) \<Longrightarrow> nm_protocol msg = s_proto sk \<Longrightarrow>
      \<exists>s'. f msg (cb_args cb ! NL_CB_VALID) s = (NL_OK, s') \<and> J (xs @ [nm_nlh msg]) s' \<and> q s' = q s"
    and Inr: "\<And>xs s. J xs s \<Longrightarrow> \<exists>x. s = Inr x"
    and recv: "\<And>xs s d ds. J xs s \<Longrightarrow> q s = d # ds \<Longrightarrow>
      \<exists>nla creds s'. recv sk s = Some ((blen d, nla, d, creds), sk, s') \<and> J xs s' \<and> q s' = ds"
    and empty: "\<And>xs s. J xs s \<Longrightarrow> q s = [] \<Longrightarrow> \<exists>nla buf creds s'. recv sk s = Some ((neg_err NLE_AGAIN, nla, buf, creds), sk, s') \<and> J xs s'"
    and ds: "\<forall>d \<in> set ds. event_dgram d \<and> list_all G (dgram_msgs d)"
    and s: "J xs s" "q s = ds"
  shows "\<exists>s'. ready_loop (Suc (length ds)) (nl_recvmsgs_report (Suc fuel) recv True cb) n sk s =
      Some (neg_err NLE_AGAIN, n + int (length (concat (map dgram_msgs ds))), sk, s') \<and> J (xs @ concat (map dgram_msgs ds)) s'"
  using ds s
proof (induction ds arbitrary: xs s n)
  case Nil
  obtain nla buf creds s' where r: "recv sk s = Some ((neg_err NLE_AGAIN, nla, buf, creds), sk, s')" "J xs s'"
    using empty [OF Nil.prems(2,3)] by blast
  obtain x where "s' = Inr x" using Inr [OF r(2)] by blast
  then show ?case using r cb(3,4) by (auto simp: nl_recvmsgs_report_def recvmsgs_def neg_err_def split: sum.split)
next
  case (Cons d ds)
  obtain nla creds s1 where r: "recv sk s = Some ((blen d, nla, d, creds), sk, s1)" "J xs s1" "q s1 = ds"
    using recv [OF Cons.prems(2,3)] by blast
  let ?J = "\<lambda>ys s. J ys s \<and> q s = ds"
  have dd: "event_dgram d" "list_all G (dgram_msgs d)" using Cons.prems(1) by auto
  have "\<exists>u'. recvmsgs (Suc fuel) recv True cb sk s = Some (int (length (dgram_msgs d)), sk, u') \<and> ?J (xs @ dgram_msgs d) u' \<and>
      0 < length (dgram_msgs d)"
    by (rule recvmsgs_event [where J = ?J and G = G and recv = recv, OF cb(1-3) _ r(1) _ dd]) (use J r in fastforce)+
  then obtain s2 where s2: "recvmsgs (Suc fuel) recv True cb sk s = Some (int (length (dgram_msgs d)), sk, s2)"
      "J (xs @ dgram_msgs d) s2" "q s2 = ds" "0 < length (dgram_msgs d)" by blast
  obtain x where x: "s2 = Inr x" using Inr [OF s2(2)] by blast
  have "\<exists>s'. ready_loop (Suc (length ds)) (nl_recvmsgs_report (Suc fuel) recv True cb) (n + int (length (dgram_msgs d))) sk s2 =
      Some (neg_err NLE_AGAIN, n + int (length (dgram_msgs d)) + int (length (concat (map dgram_msgs ds))), sk, s') \<and>
      J ((xs @ dgram_msgs d) @ concat (map dgram_msgs ds)) s'"
    by (rule Cons.IH) (use Cons.prems(1) s2 in auto)
  moreover have "ready_loop (Suc (length (d # ds))) (nl_recvmsgs_report (Suc fuel) recv True cb) n sk s =
      ready_loop (Suc (length ds)) (nl_recvmsgs_report (Suc fuel) recv True cb) (n + int (length (dgram_msgs d))) sk s2"
    using s2(1,4) x cb(4) by (subst ready_loop.simps) (simp add: nl_recvmsgs_report_def)
  ultimately show ?case by (simp add: add.assoc)
qed

text \<open>A socket that delivers the queued datagrams and then has no more, with the callbacks of a manager's socket.\<close>

definition serves_events :: "('u \<Rightarrow> byte list list) \<Rightarrow> ('a, 'd, 'u) link_layer \<Rightarrow> bool" where
  "serves_events q ll \<longleftrightarrow> ll_clone ll \<and> ll_mem ll \<and> 0 < ll_fuel ll \<and> wf_cb (ll_cb ll) \<and> event_cb (ll_cb ll) \<and>
     cb_recv_ow (ll_cb ll) = None \<and> cb_recvmsgs_ow (ll_cb ll) = None \<and>
     (\<forall>sk h u. \<exists>nla buf creds u'. ll_recv ll sk (Inr (h, u)) =
        Some ((case q u of [] \<Rightarrow> neg_err NLE_AGAIN | d # _ \<Rightarrow> blen d, nla, buf, creds), sk, Inr (h, u')) \<and>
        q u' = tl (q u) \<and> (q u \<noteq> [] \<longrightarrow> buf = hd (q u)))"

lemma event_valid_cb:
  fixes cb :: "('a, 'u) nl_cb" and f :: "('a, 'u) msg_cb"
  assumes "wf_cb cb" "event_cb cb"
  defines "cb' \<equiv> ignore_err (cb\<lparr>cb_refcnt := 1\<rparr>) (nl_cb_set (cb\<lparr>cb_refcnt := 1\<rparr>) (int NL_CB_VALID) NL_CB_CUSTOM (Some f) None)"
  shows "event_cb cb'" "cb_set cb' ! NL_CB_VALID = Some f" "cb_recv_ow cb' = cb_recv_ow cb" "cb_recvmsgs_ow cb' = cb_recvmsgs_ow cb"
  using assms by (auto simp: nl_cb_set_def wf_cb_def event_cb_def cb_consts)

context object_parser begin

lemma events_followed:
  assumes wf: "wf_heap ops keyed i cops h refs" "finite (dom (h_obj h))"
    and c: "h_cache h c = Some cache" "c_hashtable cache \<noteq> None"
    and m: "manages mngr c g" "cm_sock mngr = Some sk" "s_proto sk = cm_protocol mngr" "funs (c_ops cache) = plain_funs parser t"
    and ll: "serves_events q ll" "\<forall>p h. fst (allocs p h)" "\<forall>c p act u. q (g c p act u) = q u"
    and ds: "\<forall>d \<in> set (q u). event_dgram d \<and> list_all (reports keyed decode (cops (c_ops cache))) (dgram_msgs d)"
  defines "msgs \<equiv> concat (map dgram_msgs (q u))"
  shows "\<exists>h' u' cache'. nl_cache_mngr_data_ready ops cops funs allocs ll (Suc (length (q u))) mngr h u =
      Some (Inr (int (length msgs), mngr, h', u')) \<and> wf_heap ops keyed i cops h' refs \<and> h_cache h' c = Some cache' \<and>
    cache_values h' cache' = fold (apply_event ops decode (cops (c_ops cache))) msgs (cache_values h cache)"
proof -
  let ?vs = "\<lambda>xs. fold (apply_event ops decode (cops (c_ops cache))) xs (cache_values h cache)"
  let ?J = "\<lambda>xs. follows ops i keyed cops refs c cache (?vs xs) :: ('d, 'u) hstate \<Rightarrow> bool"
  let ?f = "event_input ops cops funs allocs mngr" and ?cb0 = "(ll_cb ll)\<lparr>cb_refcnt := 1\<rparr>"
  define cb where "cb = ignore_err ?cb0 (nl_cb_set ?cb0 (int NL_CB_VALID) NL_CB_CUSTOM (Some ?f) None)"
  have l: "ll_clone ll" "ll_mem ll" "wf_cb (ll_cb ll)" "event_cb (ll_cb ll)" "cb_recv_ow (ll_cb ll) = None" "cb_recvmsgs_ow (ll_cb ll) = None"
    using ll(1) by (auto simp: serves_events_def)
  obtain fuel where fuel: "ll_fuel ll = Suc fuel" using ll(1) by (cases "ll_fuel ll") (auto simp: serves_events_def)
  note v = event_valid_cb [OF l(3,4), of ?f, folded cb_def]
  have J0: "?J [] (Inr (h, u))" using wf c by (auto simp: follows_def)
  have step: "\<exists>s'. ?f msg (cb_args cb ! NL_CB_VALID) s = (NL_OK, s') \<and> ?J (xs @ [nm_nlh msg]) s' \<and> in_user q s' = in_user q s"
    if "?J xs s" "reports keyed decode (cops (c_ops cache)) (nm_nlh msg)" "nm_protocol msg = s_proto sk" for msg xs s
    using event_step [where funs = funs and q = q, OF that(1,2) m(1) that(3) [unfolded m(3)] m(4) ll(2,3)] by simp
  have recv: "\<exists>nla buf creds s'. ll_recv ll sk s = Some ((case in_user q s of [] \<Rightarrow> neg_err NLE_AGAIN | d # _ \<Rightarrow> blen d, nla, buf, creds), sk, s') \<and>
      ?J xs s' \<and> in_user q s' = tl (in_user q s) \<and> (in_user q s \<noteq> [] \<longrightarrow> buf = hd (in_user q s))" if s: "?J xs s" for xs s
  proof -
    obtain h1 u1 where s1: "s = Inr (h1, u1)" using s by (auto simp: follows_def)
    obtain nla buf creds u2 where "ll_recv ll sk (Inr (h1, u1)) =
        Some ((case q u1 of [] \<Rightarrow> neg_err NLE_AGAIN | d # _ \<Rightarrow> blen d, nla, buf, creds), sk, Inr (h1, u2))"
        "q u2 = tl (q u1)" "q u1 \<noteq> [] \<longrightarrow> buf = hd (q u1)"
      using ll(1) unfolding serves_events_def by meson
    then show ?thesis using s s1 by (intro exI [of _ nla] exI [of _ buf] exI [of _ creds] exI [of _ "Inr (h1, u2)"]) (auto simp: in_user_def follows_def)
  qed
  have "\<exists>s'. ready_loop (Suc (length (q u))) (nl_recvmsgs_report (Suc fuel) (ll_recv ll) True cb) 0 sk (Inr (h, u)) =
      Some (neg_err NLE_AGAIN, 0 + int (length (concat (map dgram_msgs (q u)))), sk, s') \<and> ?J ([] @ concat (map dgram_msgs (q u))) s'"
  proof (rule ready_loop_events [where J = ?J and G = "reports keyed decode (cops (c_ops cache))" and q = "in_user q", OF v(1,2) _ _ step])
    show "\<exists>nla creds s'. ll_recv ll sk s = Some ((blen d, nla, d, creds), sk, s') \<and> ?J xs s' \<and> in_user q s' = ds"
      if "?J xs s" "in_user q s = d # ds" for xs s d ds using recv [OF that(1)] that(2) by force
    show "\<exists>nla buf creds s'. ll_recv ll sk s = Some ((neg_err NLE_AGAIN, nla, buf, creds), sk, s') \<and> ?J xs s'"
      if "?J xs s" "in_user q s = []" for xs s using recv [OF that(1)] that(2) by force
    show "\<exists>x. s = Inr x" if "?J xs s" for xs s using that by (auto simp: follows_def)
  qed (use J0 ds v(3,4) l(5,6) in \<open>auto simp: in_user_def\<close>)
  then obtain s' where r: "ready_loop (Suc (length (q u))) (nl_recvmsgs_report (Suc fuel) (ll_recv ll) True cb) 0 sk (Inr (h, u)) =
      Some (neg_err NLE_AGAIN, int (length msgs), sk, s')" "?J msgs s'" by (auto simp: msgs_def)
  then obtain h' u' cache' where s': "s' = Inr (h', u')" "wf_heap ops keyed i cops h' refs" "h_cache h' c = Some cache'" "cache_values h' cache' = ?vs msgs"
    by (auto simp: follows_def)
  have "nl_cb_clone (ll_clone ll) (ll_cb ll) = Some ?cb0" using l(1) by (simp add: nl_cb_clone_def nl_cb_alloc_default)
  then have "nl_cache_mngr_data_ready ops cops funs allocs ll (Suc (length (q u))) mngr h u = Some (Inr (int (length msgs), mngr, h', u'))"
    using r(1) s'(1) l(2) m(2) fuel
    by (simp add: nl_cache_mngr_data_ready_def cb_def [symmetric] Let_def del: ready_loop.simps)
  then show ?thesis using s'(2-4) by blast
qed

end

section \<open>Properties\<close>

text \<open>
  C2. A managed cache follows the kernel. Let the first cache of a manager hold objects of a type that is
  replaced by events, and let datagrams of announcements and deletions wait at the socket of the manager. Then
  \<open>nl_cache_mngr_data_ready\<close> reads them all, returns the number of messages, and leaves the cache with what
  these events, applied in their order, make of its former contents: an announced object replaces the one
  with its identity, a deleted one is gone. The heap stays well formed and all references are given back.
\<close>

theorem mngr_follows_events:
  assumes parser: "object_parser ops i keyed kg parser decode alloc"
    and wf: "wf_heap ops keyed i cops h refs" "finite (dom (h_obj h))"
    and c: "h_cache h c = Some cache" "c_hashtable cache \<noteq> None"
    and m: "manages mngr c g" "cm_sock mngr = Some sk" "s_proto sk = cm_protocol mngr" "funs (c_ops cache) = plain_funs parser t"
    and ll: "serves_events q ll" "\<forall>p h. fst (allocs p h)" "\<forall>c p act u. q (g c p act u) = q u"
    and ds: "\<forall>d \<in> set (q u). event_dgram d \<and> list_all (reports keyed decode (cops (c_ops cache))) (dgram_msgs d)"
  shows "\<exists>h' u' cache'. nl_cache_mngr_data_ready ops cops funs allocs ll (Suc (length (q u))) mngr h u =
      Some (Inr (int (length (concat (map dgram_msgs (q u)))), mngr, h', u')) \<and> wf_heap ops keyed i cops h' refs \<and> h_cache h' c = Some cache' \<and>
    cache_values h' cache' = fold (apply_event ops decode (cops (c_ops cache))) (concat (map dgram_msgs (q u))) (cache_values h cache)"
  using object_parser.events_followed [where funs = funs and q = q and cops = cops, OF parser wf c m ll ds] .

text \<open>Events about the IPv4 neighbour 10.0.0.\<open>n\<close> on interface 3, and a manager of a neighbour cache.\<close>

definition neigh_event :: "byte \<Rightarrow> byte \<Rightarrow> byte \<Rightarrow> byte list" where
  "neigh_event type n st = [36, 0, 0, 0, type, 0, 0, 0, 0, 0, 0, 0, 0, 0, 0, 0, 2, 0, 0, 0, 3, 0, 0, 0, st, 0, 0, 1,
     8, 0, 1, 0, 10, 0, 0, n]"

definition neigh_events :: "byte list list" where
  "neigh_events = [neigh_event 28 1 2 @ neigh_event 28 2 2, neigh_event 28 1 4, neigh_event 29 2 0]"

definition event_layer :: "(unit, 'd, byte list list) link_layer" where
  "event_layer = queue_layer\<lparr>ll_cb := (the (nl_cb_alloc True NL_CB_DEFAULT))\<lparr>cb_set := (replicate 11 None)[NL_CB_SEQ_CHECK := Some noop_seq_check]\<rparr>\<rparr>"

definition neigh_mngr :: "(rtnl_neigh, byte list list) nl_cache_mngr" where
  "neigh_mngr = \<lparr>cm_protocol = 0, cm_flags = 0, cm_nassocs = 2, cm_sock = Some fresh_sock, cm_sync_sock = None,
     cm_assocs = Some [no_assoc, \<lparr>ca_cache = Some 0, ca_change = Some (observer (\<lambda>_ _ _ u. u)), ca_change_v2 = None\<rparr>]\<rparr>"

lemma event_layer_serves: "serves_events id event_layer"
  unfolding serves_events_def event_layer_def queue_layer_def nl_cb_alloc_default
  by (auto simp: wf_cb_def event_cb_def cb_consts neg_err_def split: list.split)

theorem mngr_follows_events_witness:
  "\<exists>h' u' cache'. nl_cache_mngr_data_ready neigh_ops neigh_cops (plain_funs (neigh_parser 0 (\<lambda>_. None))) (\<lambda>_ _. (True, None)) event_layer 4
      neigh_mngr neigh_heap neigh_events = Some (Inr (4, neigh_mngr, h', u')) \<and> h_cache h' 0 = Some cache' \<and>
    map (\<lambda>x. (addr_bytes (the (n_dst (ce_data x))), n_state (ce_data x))) (cache_values h' cache') = [([10, 0, 0, 1], 4)]"
proof -
  let ?dec = "neigh_decode 0 (\<lambda>_. None)"
  have e: "\<forall>d \<in> set neigh_events. event_dgram d \<and> list_all (reports neigh_keyed ?dec rtnl_neigh_ops) (dgram_msgs d)"
    by (simp add: neigh_events_def) code_simp
  have v: "map (\<lambda>x. (addr_bytes (the (n_dst (ce_data x))), n_state (ce_data x)))
      (fold (apply_event neigh_ops ?dec rtnl_neigh_ops) (concat (map dgram_msgs neigh_events)) []) = [([10, 0, 0, 1], 4)]"
    "length (concat (map dgram_msgs neigh_events)) = 4" by code_simp+
  have m: "manages neigh_mngr 0 (\<lambda>_ _ _ u. u)" by (simp add: manages_def neigh_mngr_def assocs_def)
  have h: "h_cache neigh_heap 0 = Some neigh_cache" "cache_values neigh_heap neigh_cache = []" "c_hashtable neigh_cache \<noteq> None"
    "finite (dom (h_obj neigh_heap))"
    by (simp_all add: neigh_heap_def neigh_cache_def cache_values_def nl_hash_table_alloc_def)
  have n: "cm_sock neigh_mngr = Some fresh_sock" "s_proto fresh_sock = cm_protocol neigh_mngr" "length neigh_events = 3"
    by (simp_all add: neigh_mngr_def fresh_sock_def neigh_events_def)
  show ?thesis
    using mngr_follows_events [where funs = "plain_funs (neigh_parser 0 (\<lambda>_. None))" and allocs = "\<lambda>_ _. (True, None)" and u = neigh_events,
        OF neigh.object_parser_axioms [of 0 "\<lambda>_. None"] neigh_heap_wf h(4,1,3) m n(1,2) refl event_layer_serves] e v h(2) n(3)
    by (auto simp: numeral_eq_Suc)
qed

end
