(* ===== verification/Nl_Genl_Family.thy ===== *)
theory Nl_Genl_Family
  imports Nl_Cache Nl_List
begin

unbundle bit_operations_syntax

text \<open>
  Objects that describe generic netlink families (\<open>lib/genl/family.c\<close>) and their lookup in a cache
  (\<open>genl_ctrl_search\<close> and \<open>genl_ctrl_search_by_name\<close> of \<open>lib/genl/ctrl.c\<close>). Names are the bytes before the
  terminating zero. The copy function of the type cannot be a function of such values, because
  it works on list heads that \<open>nl_object_clone\<close> has copied; it is a parameter here and its loop is
  examined at the level of pointers at the end.
\<close>

section \<open>Data\<close>

record genl_family_op =
  fo_id :: int
  fo_flags :: int

record genl_family_grp =
  fg_name :: "byte list"
  fg_id :: int

record genl_family =
  gf_id :: int
  gf_name :: "byte list"
  gf_version :: int
  gf_hdrsize :: int
  gf_maxattr :: int
  gf_ops :: "genl_family_op list"
  gf_mc_grps :: "genl_family_grp list"

type_synonym family_obj = "genl_family nl_object"

definition GENL_NAMSIZ :: int where "GENL_NAMSIZ = 16"
definition FAMILY_ATTR_ID :: int where "FAMILY_ATTR_ID = 1"
definition FAMILY_ATTR_NAME :: int where "FAMILY_ATTR_NAME = 2"
definition FAMILY_ATTR_VERSION :: int where "FAMILY_ATTR_VERSION = 4"
definition FAMILY_ATTR_HDRSIZE :: int where "FAMILY_ATTR_HDRSIZE = 8"
definition FAMILY_ATTR_MAXATTR :: int where "FAMILY_ATTR_MAXATTR = 16"
definition FAMILY_ATTR_OPS :: int where "FAMILY_ATTR_OPS = 32"

lemmas family_attr_defs = FAMILY_ATTR_ID_def FAMILY_ATTR_NAME_def FAMILY_ATTR_VERSION_def FAMILY_ATTR_HDRSIZE_def
  FAMILY_ATTR_MAXATTR_def FAMILY_ATTR_OPS_def

section \<open>The object type\<close>

definition family_constructor :: "genl_family \<Rightarrow> genl_family" where
  "family_constructor family = family\<lparr>gf_ops := [], gf_mc_grps := []\<rparr>"

definition family_compare :: "family_obj \<Rightarrow> family_obj \<Rightarrow> int \<Rightarrow> int \<Rightarrow> int" where
  "family_compare oa ob attrs flags =
     (let a = ce_data oa; b = ce_data ob; d = (\<lambda>attr expr. ATTR_DIFF attrs attr oa ob expr) in
      d FAMILY_ATTR_ID (gf_id a \<noteq> gf_id b) OR
      d FAMILY_ATTR_VERSION (gf_version a \<noteq> gf_version b) OR
      d FAMILY_ATTR_HDRSIZE (gf_hdrsize a \<noteq> gf_hdrsize b) OR
      d FAMILY_ATTR_MAXATTR (gf_maxattr a \<noteq> gf_maxattr b) OR
      d FAMILY_ATTR_NAME (gf_name a \<noteq> gf_name b))"

definition genl_family_ops ::
  "(family_obj \<Rightarrow> family_obj \<Rightarrow> int \<times> family_obj) \<Rightarrow> genl_family nl_object_ops" where
  "genl_family_ops clone =
     \<lparr>oo_name = ''genl/family'', oo_size = 120, oo_id_attrs = FAMILY_ATTR_ID,
      oo_zero = \<lparr>gf_id = 0, gf_name = [], gf_version = 0, gf_hdrsize = 0, gf_maxattr = 0, gf_ops = [], gf_mc_grps = []\<rparr>,
      oo_constructor = Some family_constructor, oo_free_data = True, oo_clone = Some clone,
      oo_compare = Some family_compare, oo_update = None, oo_keygen = None, oo_id_attrs_get = None\<rparr>"

definition genl_family_alloc ::
  "genl_family ops \<Rightarrow> nat option \<Rightarrow> nat \<Rightarrow> genl_family heap \<Rightarrow> (nat option \<times> genl_family heap) res" where
  "genl_family_alloc ops a i h = nl_object_alloc ops a i h"

definition genl_family_put :: "genl_family ops \<Rightarrow> nat option \<Rightarrow> genl_family heap \<Rightarrow> genl_family heap res" where
  "genl_family_put ops p h = nl_object_put ops p h"

section \<open>Attributes\<close>

definition genl_family_get_id :: "family_obj \<Rightarrow> int" where
  "genl_family_get_id f = (if ce_mask f AND FAMILY_ATTR_ID \<noteq> 0 then gf_id (ce_data f) else 0)"

text \<open>\<open>gf_id\<close> has 16 bits.\<close>

definition genl_family_set_id :: "int \<Rightarrow> family_obj \<Rightarrow> family_obj" where
  "genl_family_set_id fid f = f\<lparr>ce_data := (ce_data f)\<lparr>gf_id := u16 fid\<rparr>, ce_mask := ce_mask f OR FAMILY_ATTR_ID\<rparr>"

definition genl_family_get_name :: "family_obj \<Rightarrow> byte list option" where
  "genl_family_get_name f = (if ce_mask f AND FAMILY_ATTR_NAME \<noteq> 0 then Some (gf_name (ce_data f)) else None)"

text \<open>\<open>strncpy\<close> of at most 15 bytes; the last byte of the array stays zero.\<close>

definition genl_family_set_name :: "byte list \<Rightarrow> family_obj \<Rightarrow> family_obj" where
  "genl_family_set_name name f =
     f\<lparr>ce_data := (ce_data f)\<lparr>gf_name := take (nat (GENL_NAMSIZ - 1)) name\<rparr>, ce_mask := ce_mask f OR FAMILY_ATTR_NAME\<rparr>"

text \<open>The version is kept in 32 bits, but both access functions have 8 bits.\<close>

definition genl_family_get_version :: "family_obj \<Rightarrow> int" where
  "genl_family_get_version f = (if ce_mask f AND FAMILY_ATTR_VERSION \<noteq> 0 then u8 (gf_version (ce_data f)) else 0)"

definition genl_family_set_version :: "int \<Rightarrow> family_obj \<Rightarrow> family_obj" where
  "genl_family_set_version version f =
     f\<lparr>ce_data := (ce_data f)\<lparr>gf_version := u8 version\<rparr>, ce_mask := ce_mask f OR FAMILY_ATTR_VERSION\<rparr>"

definition genl_family_get_hdrsize :: "family_obj \<Rightarrow> int" where
  "genl_family_get_hdrsize f = (if ce_mask f AND FAMILY_ATTR_HDRSIZE \<noteq> 0 then gf_hdrsize (ce_data f) else 0)"

definition genl_family_set_hdrsize :: "int \<Rightarrow> family_obj \<Rightarrow> family_obj" where
  "genl_family_set_hdrsize hdrsize f =
     f\<lparr>ce_data := (ce_data f)\<lparr>gf_hdrsize := u32 hdrsize\<rparr>, ce_mask := ce_mask f OR FAMILY_ATTR_HDRSIZE\<rparr>"

definition genl_family_get_maxattr :: "family_obj \<Rightarrow> int" where
  "genl_family_get_maxattr f = (if ce_mask f AND FAMILY_ATTR_MAXATTR \<noteq> 0 then gf_maxattr (ce_data f) else 0)"

definition genl_family_set_maxattr :: "int \<Rightarrow> family_obj \<Rightarrow> family_obj" where
  "genl_family_set_maxattr maxattr f =
     f\<lparr>ce_data := (ce_data f)\<lparr>gf_maxattr := u32 maxattr\<rparr>, ce_mask := ce_mask f OR FAMILY_ATTR_MAXATTR\<rparr>"

text \<open>\<open>a\<close> is the result of \<open>calloc\<close>.\<close>

definition genl_family_add_op :: "bool \<Rightarrow> int \<Rightarrow> int \<Rightarrow> family_obj \<Rightarrow> int \<times> family_obj" where
  "genl_family_add_op a oid flags f =
     (if \<not> a then (neg_err NLE_NOMEM, f)
      else (0, f\<lparr>ce_data := (ce_data f)\<lparr>gf_ops := gf_ops (ce_data f) @ [\<lparr>fo_id = u32 oid, fo_flags = u32 flags\<rparr>]\<rparr>,
                 ce_mask := ce_mask f OR FAMILY_ATTR_OPS\<rparr>))"

definition genl_family_add_grp :: "bool \<Rightarrow> int \<Rightarrow> byte list option \<Rightarrow> family_obj \<Rightarrow> int \<times> family_obj" where
  "genl_family_add_grp a gid name f =
     (case name of
        None \<Rightarrow> (neg_err NLE_INVAL, f)
      | Some s \<Rightarrow>
          if blen s \<ge> GENL_NAMSIZ then (neg_err NLE_INVAL, f)
          else if \<not> a then (neg_err NLE_NOMEM, f)
          else (0, f\<lparr>ce_data := (ce_data f)\<lparr>gf_mc_grps := gf_mc_grps (ce_data f) @ [\<lparr>fg_name = s, fg_id = u32 gid\<rparr>]\<rparr>\<rparr>))"

section \<open>Lookup in a cache\<close>

text \<open>\<open>t\<close> is the index of the type \<open>genl_ctrl_ops\<close>.\<close>

definition genl_ctrl_search :: "nat \<Rightarrow> nat \<Rightarrow> int \<Rightarrow> genl_family heap \<Rightarrow> (nat option \<times> genl_family heap) res" where
  "genl_ctrl_search t c fid h =
     and_then (deref (h_cache h) c) (\<lambda>cache.
       if c_ops cache \<noteq> t then Inl Bug
       else search_list (\<lambda>fam. Inr (gf_id (ce_data fam) = fid)) (c_items cache) h)"

definition genl_ctrl_search_by_name ::
  "nat \<Rightarrow> nat \<Rightarrow> byte list \<Rightarrow> genl_family heap \<Rightarrow> (nat option \<times> genl_family heap) res" where
  "genl_ctrl_search_by_name t c name h =
     and_then (deref (h_cache h) c) (\<lambda>cache.
       if c_ops cache \<noteq> t then Inl Bug
       else search_list (\<lambda>fam. Inr (gf_name (ce_data fam) = name)) (c_items cache) h)"

definition genl_ctrl_grp_by_name :: "family_obj \<Rightarrow> byte list \<Rightarrow> int" where
  "genl_ctrl_grp_by_name f name =
     (case List.find (\<lambda>grp. fg_name grp = name) (gf_mc_grps (ce_data f)) of
        None \<Rightarrow> neg_err NLE_OBJ_NOTFOUND
      | Some grp \<Rightarrow> s32 (fg_id grp))"

section \<open>Copying\<close>

text \<open>
  The first loop of \<open>family_clone\<close>, with its \<open>genl_family_add_op\<close>: \<open>src\<close> and \<open>dst\<close> are the addresses of
  the two list heads \<open>gf_ops\<close>, \<open>news\<close> the cells that \<open>calloc\<close> will return. The result is that of
  the loop and the cells it has not used.
\<close>

fun clone_ops :: "nat list \<Rightarrow> nat \<Rightarrow> nat \<Rightarrow> nat \<Rightarrow> lcells \<Rightarrow> nat \<Rightarrow> (int \<times> nat list) option" where
  "clone_ops news pos src dst m 0 = None"
| "clone_ops news pos src dst m (Suc fuel) =
     (if pos = src then Some (0, news)
      else case news of
        [] \<Rightarrow> Some (neg_err NLE_NOMEM, [])
      | n # news \<Rightarrow>
          (let m = nl_list_add_tail n dst m in clone_ops news (lnext m pos) src dst m fuel))"

text \<open>What \<open>nl_object_clone\<close> does to the head of the copy before it calls \<open>family_clone\<close>.\<close>

definition copied_head :: "nat \<Rightarrow> nat \<Rightarrow> lcells \<Rightarrow> lcells" where
  "copied_head src dst m = m\<lparr>lnext := (lnext m)(dst := lnext m src), lprev := (lprev m)(dst := lprev m src)\<rparr>"

text \<open>The cells that the loop still has in front of it.\<close>

fun npath :: "lcells \<Rightarrow> nat list \<Rightarrow> bool" where
  "npath m (x # y # zs) \<longleftrightarrow> lnext m x = y \<and> npath m (y # zs)"
| "npath m xs \<longleftrightarrow> True"

lemma npath_seg: "seg m a xs b \<Longrightarrow> npath m xs"
  by (induction xs arbitrary: a rule: npath.induct) auto

lemma npath_cong: "npath m xs \<Longrightarrow> (\<And>x. x \<in> set xs \<Longrightarrow> lnext m' x = lnext m x) \<Longrightarrow> npath m' xs"
  by (induction m xs rule: npath.induct) auto

lemma npath_snoc:
  assumes "npath m xs" "distinct xs" "xs \<noteq> []" "n \<notin> set xs" "lprev m dst = last xs"
  shows "npath (nl_list_add_tail n dst m) (xs @ [n])"
proof -
  have "npath (nl_list_add n (last xs) dst m) (xs @ [n])"
    using assms(1-4)
  proof (induction m xs rule: npath.induct)
    case (1 m x y zs)
    then show ?case by (auto simp: nl_list_add_simps split: if_splits)
  qed (auto simp: nl_list_add_simps)
  then show ?thesis using assms(5) by (simp add: nl_list_add_tail_def)
qed

lemma npath_tl: "npath m xs \<Longrightarrow> npath m (tl xs)"
  by (cases "(m, xs)" rule: npath.cases) auto

lemma npath_next: "npath m xs \<Longrightarrow> tl xs \<noteq> [] \<Longrightarrow> lnext m (hd xs) = hd (tl xs)"
  by (cases "(m, xs)" rule: npath.cases) auto

lemma clone_ops_path:
  assumes "npath m xs" "distinct (xs @ news)" "xs \<noteq> []" "lprev m dst = last xs" "src \<notin> set (xs @ news)" "dst \<notin> set (xs @ news)"
  shows "clone_ops news (hd xs) src dst m fuel = (if length news < fuel then Some (neg_err NLE_NOMEM, []) else None)"
  using assms
proof (induction fuel arbitrary: news m xs)
  case (Suc fuel)
  have pos: "hd xs \<noteq> src" using Suc.prems(3,5) hd_in_set [of xs] by auto
  show ?case
  proof (cases news)
    case (Cons n ns)
    let ?m = "nl_list_add_tail n dst m" and ?xs = "tl xs @ [n]"
    have p: "npath ?m (xs @ [n])" using Suc.prems Cons by (intro npath_snoc) auto
    then have "npath ?m ?xs" using npath_tl [OF p] Suc.prems(3) by simp
    moreover have "lnext ?m (hd xs) = hd ?xs" using npath_next [OF p] Suc.prems(3) by (cases xs) auto
    moreover have "distinct (?xs @ ns)" "src \<notin> set (?xs @ ns)" "dst \<notin> set (?xs @ ns)" "lprev ?m dst = last ?xs"
      using Suc.prems Cons by (cases xs; auto simp: nl_list_add_tail_def nl_list_add_simps)+
    ultimately show ?thesis using Suc.IH [of ?m ?xs ns] pos Cons by (simp add: Let_def)
  qed (use pos in simp)
qed simp

text \<open>
  The copy of a family with operations does not end before memory is exhausted: the copied head
  still refers to the last operation of the source, so each new operation is put behind the list that
  the loop runs over. However many cells there are, the loop uses them all and reports \<open>NLE_NOMEM\<close>.
\<close>

theorem family_clone_exhausts_memory:
  assumes "dlist m src xs" "xs \<noteq> []" "distinct news" "dst \<noteq> src" "dst \<notin> set xs"
    and "set news \<inter> insert src (insert dst (set xs)) = {}"
  shows "clone_ops news (lnext (copied_head src dst m) src) src dst (copied_head src dst m) (Suc (length news)) =
    Some (neg_err NLE_NOMEM, [])"
proof -
  let ?m = "copied_head src dst m"
  have s: "seg m src xs src" "distinct (src # xs)" using assms(1) by (auto simp: dlist_def)
  have "npath ?m xs" using npath_seg [OF s(1)] by (rule npath_cong) (use assms(5) in \<open>auto simp: copied_head_def\<close>)
  moreover have "lprev ?m dst = last xs" "lnext ?m src = hd xs"
    using seg_last [OF s(1)] seg_first [OF s(1)] assms(2,4) by (auto simp: copied_head_def)
  ultimately show ?thesis using clone_ops_path [of ?m xs news dst src "Suc (length news)"] s(2) assms(2-6)
    by (simp add: Int_commute del: clone_ops.simps)
qed

end
