(* ===== verification/Nl_Genl.thy ===== *)
theory Nl_Genl
  imports Nl_Genl_Msg Nl_Genl_Family Nl_Mngt
begin

unbundle bit_operations_syntax

text \<open>
  The registry of generic netlink families (\<open>lib/genl/mngt.c\<close>): registration, dispatch of messages to
  the parsers of commands, and resolution of the numbers that the kernel gives to families. The
  parsers of commands are part of the data; \<open>'arg\<close> is the type of their last argument and \<open>'s\<close> the
  state that they work on.
\<close>

section \<open>Data\<close>

record genl_info =
  gi_who :: sockaddr_nl
  gi_buf :: "byte list"
  gi_nlh :: int
  gi_genlhdr :: int
  gi_userhdr :: int
  gi_attrs :: "int option list"

text \<open>Arguments: cache type, number of the command, message, last argument.\<close>

type_synonym ('arg, 's) cmd_parser = "nat option \<Rightarrow> int \<Rightarrow> genl_info \<Rightarrow> 'arg \<Rightarrow> 's \<Rightarrow> (int \<times> 's) res"

record ('arg, 's) genl_cmd =
  c_id :: int
  c_name :: string
  c_maxattr :: int
  c_msg_parser :: "('arg, 's) cmd_parser option"
  c_attr_policy :: "nla_policy list option"

record ('arg, 's) genl_ops =
  o_hdrsize :: int
  o_id :: int
  o_name :: "byte list option"
  o_cache_ops :: "nat option"
  o_cmds :: "('arg, 's) genl_cmd list option"
  o_ncmds :: int

record ('arg, 's) genl_mngt =
  genl_ops_list :: "nat list"
  g_ops :: "nat \<Rightarrow> ('arg, 's) genl_ops"

definition str_bytes :: "string \<Rightarrow> byte list" where "str_bytes s = map of_char s"

section \<open>Dispatch\<close>

text \<open>The loop over \<open>o_cmds[0]\<close> to \<open>o_cmds[o_ncmds - 1]\<close>; behind the array the access is undefined.\<close>

fun cmd_loop :: "('arg, 's) genl_cmd list \<Rightarrow> nat \<Rightarrow> int \<Rightarrow> ('arg, 's) genl_cmd option res" where
  "cmd_loop cs 0 cmd_id = Inr None"
| "cmd_loop [] (Suc n) cmd_id = Inl Undef"
| "cmd_loop (c # cs) (Suc n) cmd_id = (if c_id c = cmd_id then Inr (Some c) else cmd_loop cs n cmd_id)"

definition lookup_cmd :: "('arg, 's) genl_ops \<Rightarrow> int \<Rightarrow> ('arg, 's) genl_cmd option res" where
  "lookup_cmd ops cmd_id = cmd_loop (case o_cmds ops of None \<Rightarrow> [] | Some cs \<Rightarrow> cs) (nat (o_ncmds ops)) cmd_id"

text \<open>\<open>a\<close> is the allocation of the table of attributes, which is on the stack if it is small.\<close>

definition cmd_msg_parser ::
  "bool \<Rightarrow> sockaddr_nl \<Rightarrow> byte list \<Rightarrow> int \<Rightarrow> ('arg, 's) genl_ops \<Rightarrow> nat option \<Rightarrow> 'arg \<Rightarrow> 's \<Rightarrow> (int \<times> 's) res" where
  "cmd_msg_parser a who buf off ops cot arg s =
     (let ghdr = genlmsg_hdr off in
      and_then (lookup_cmd ops (genl_cmd_fld buf ghdr)) (\<lambda>cmd.
      case cmd of
        None \<Rightarrow> Inr (neg_err NLE_MSGTYPE_NOSUPPORT, s)
      | Some cmd \<Rightarrow>
          (case c_msg_parser cmd of
             None \<Rightarrow> Inr (neg_err NLE_OPNOTSUPP, s)
           | Some parser \<Rightarrow>
               if \<not> a then Inr (neg_err NLE_NOMEM, s)
               else
                 (case nlmsg_parse buf off (GENL_HDRSIZE (o_hdrsize ops)) (c_maxattr cmd) (c_attr_policy cmd) of
                    (_, Inl (Err e)) \<Rightarrow> Inr (neg_err e, s)
                  | (_, Inl f) \<Rightarrow> Inl f
                  | (None, Inr _) \<Rightarrow> Inl Undef
                  | (Some tb, Inr _) \<Rightarrow>
                      parser cot (c_id cmd)
                        \<lparr>gi_who = who, gi_buf = buf, gi_nlh = off, gi_genlhdr = ghdr, gi_userhdr = genlmsg_user_hdr ghdr,
                         gi_attrs = tb\<rparr> arg s))))"

text \<open>\<open>t\<close> is the cache type and \<open>co_genl\<close> its family.\<close>

definition genl_msg_parser ::
  "bool \<Rightarrow> sockaddr_nl \<Rightarrow> nat \<Rightarrow> ('arg, 's) genl_ops option \<Rightarrow> byte list \<Rightarrow> int \<Rightarrow> 'arg \<Rightarrow> 's \<Rightarrow> (int \<times> 's) res" where
  "genl_msg_parser a who t co_genl buf off pp s =
     (case co_genl of None \<Rightarrow> Inl Bug | Some g \<Rightarrow> cmd_msg_parser a who buf off g (Some t) pp s)"

definition lookup_family :: "int \<Rightarrow> ('arg, 's) genl_mngt \<Rightarrow> nat option" where
  "lookup_family family gm = List.find (\<lambda>g. o_id (g_ops gm g) = family) (genl_ops_list gm)"

definition lookup_family_by_name :: "byte list \<Rightarrow> ('arg, 's) genl_mngt \<Rightarrow> nat option" where
  "lookup_family_by_name name gm = List.find (\<lambda>g. o_name (g_ops gm g) = Some name) (genl_ops_list gm)"

text \<open>\<open>strncpy(buf, str, len - 1)\<close>, which pads with zeros.\<close>

definition strncpy1 :: "byte list \<Rightarrow> byte list \<Rightarrow> int \<Rightarrow> byte list res" where
  "strncpy1 buf str len =
     (if len < 1 \<or> blen buf < len - 1 then Inl Undef
      else Inr (wr buf 0 (take (nat (len - 1)) (str @ zeros (len - 1)))))"

text \<open>The result says whether the name is known.\<close>

definition genl_op2name :: "('arg, 's) genl_mngt \<Rightarrow> int \<Rightarrow> int \<Rightarrow> byte list \<Rightarrow> int \<Rightarrow> (bool \<times> byte list) res" where
  "genl_op2name gm family opn buf len =
     and_then (case lookup_family family gm of None \<Rightarrow> Inr None | Some g \<Rightarrow> lookup_cmd (g_ops gm g) opn) (\<lambda>cmd.
       case cmd of
         Some c \<Rightarrow> and_then (strncpy1 buf (str_bytes (c_name c)) len) (\<lambda>buf. Inr (True, buf))
       | None \<Rightarrow> and_then (strncpy1 buf (str_bytes ''unknown'') len) (\<lambda>buf. Inr (False, buf)))"

definition genl_handle_msg ::
  "bool \<Rightarrow> ('arg, 's) genl_mngt \<Rightarrow> nl_msg \<Rightarrow> 'arg \<Rightarrow> 's \<Rightarrow> (int \<times> 's) res" where
  "genl_handle_msg a gm msg arg s =
     (let buf = nm_nlh msg in
      if \<not> genlmsg_valid_hdr buf 0 0 then Inr (neg_err NLE_INVAL, s)
      else
        case lookup_family (nlmsg_type (nlh buf 0)) gm of
          None \<Rightarrow> Inr (neg_err NLE_MSGTYPE_NOSUPPORT, s)
        | Some g \<Rightarrow> cmd_msg_parser a (nlmsg_get_src msg) buf 0 (g_ops gm g) None arg s)"

section \<open>Registration\<close>

definition genl_register_family :: "nat \<Rightarrow> ('arg, 's) genl_mngt \<Rightarrow> int \<times> ('arg, 's) genl_mngt" where
  "genl_register_family g gm =
     (let ops = g_ops gm g in
      case o_name ops of
        None \<Rightarrow> (neg_err NLE_INVAL, gm)
      | Some name \<Rightarrow>
          if o_cmds ops \<noteq> None \<and> o_ncmds ops \<le> 0 then (neg_err NLE_INVAL, gm)
          else if o_id ops \<noteq> 0 \<and> lookup_family (o_id ops) gm \<noteq> None then (neg_err NLE_EXIST, gm)
          else if lookup_family_by_name name gm \<noteq> None then (neg_err NLE_EXIST, gm)
          else (0, gm\<lparr>genl_ops_list := genl_ops_list gm @ [g]\<rparr>))"

text \<open>Deleting a cell that is in no list is undefined.\<close>

definition genl_unregister_family :: "nat \<Rightarrow> ('arg, 's) genl_mngt \<Rightarrow> (int \<times> ('arg, 's) genl_mngt) res" where
  "genl_unregister_family g gm =
     (if g \<in> set (genl_ops_list gm) then Inr (0, gm\<lparr>genl_ops_list := remove1 g (genl_ops_list gm)\<rparr>)
      else Inl Undef)"

text \<open>\<open>genl_of\<close> is the field \<open>co_genl\<close> of the cache types.\<close>

definition genl_register ::
  "'d ops \<Rightarrow> cops \<Rightarrow> (nat \<Rightarrow> nat option) \<Rightarrow> nat \<Rightarrow> cache_mngt \<Rightarrow> ('arg, 's) genl_mngt \<Rightarrow>
   (int \<times> cache_mngt \<times> ('arg, 's) genl_mngt) res" where
  "genl_register ops cops genl_of t m gm =
     (if co_protocol (cops t) \<noteq> NETLINK_GENERIC then Inr (neg_err NLE_PROTO_MISMATCH, m, gm)
      else if co_hdrsize (cops t) < GENL_HDRSIZE 0 then Inr (neg_err NLE_INVAL, m, gm)
      else
        case genl_of t of
          None \<Rightarrow> Inr (neg_err NLE_INVAL, m, gm)
        | Some g \<Rightarrow>
            (case co_msgtypes (cops t) of
               [] \<Rightarrow> Inl Undef
             | mt # _ \<Rightarrow>
                 (let ops' = (g_ops gm g)\<lparr>o_cache_ops := Some t, o_hdrsize := co_hdrsize (cops t) - GENL_HDRLEN,
                        o_name := Some (str_bytes (mt_name mt)), o_id := mt_id mt\<rparr>;
                      gm = gm\<lparr>g_ops := (g_ops gm)(g := ops')\<rparr> in
                  case genl_register_family g gm of (err, gm) \<Rightarrow>
                    if err < 0 then Inr (err, m, gm)
                    else and_then (nl_cache_mngt_register ops cops t m) (\<lambda>(err, m). Inr (err, m, gm)))))"

definition genl_unregister ::
  "(nat \<Rightarrow> nat option) \<Rightarrow> nat option \<Rightarrow> cache_mngt \<Rightarrow> ('arg, 's) genl_mngt \<Rightarrow> (cache_mngt \<times> ('arg, 's) genl_mngt) res" where
  "genl_unregister genl_of t m gm =
     (case t of
        None \<Rightarrow> Inr (m, gm)
      | Some t \<Rightarrow>
          (let m = snd (nl_cache_mngt_unregister t m) in
           case genl_of t of
             None \<Rightarrow> Inl Undef
           | Some g \<Rightarrow> and_then (genl_unregister_family g gm) (\<lambda>(_, gm). Inr (m, gm))))"

section \<open>Resolution\<close>

text \<open>\<open>__genl_ops_resolve\<close>: \<open>fops\<close> are the object types, \<open>tc\<close> the type \<open>genl_ctrl_ops\<close> and \<open>c\<close> the cache \<open>ctrl\<close>.\<close>

definition set_mt_id :: "int \<Rightarrow> nl_cache_ops \<Rightarrow> nl_cache_ops res" where
  "set_mt_id v co =
     (case co_msgtypes co of [] \<Rightarrow> Inl Undef | mt # mts \<Rightarrow> Inr (co\<lparr>co_msgtypes := mt\<lparr>mt_id := v\<rparr> # mts\<rparr>))"

definition ops_resolve ::
  "genl_family ops \<Rightarrow> nat \<Rightarrow> nat \<Rightarrow> nat \<Rightarrow> ('arg, 's) genl_mngt \<Rightarrow> cops \<Rightarrow> genl_family heap \<Rightarrow>
   (int \<times> ('arg, 's) genl_mngt \<times> cops \<times> genl_family heap) res" where
  "ops_resolve fops tc c g gm cops h =
     (case o_name (g_ops gm g) of
        None \<Rightarrow> Inl Undef
      | Some name \<Rightarrow>
          and_then (genl_ctrl_search_by_name tc c name h) (\<lambda>(family, h).
          case family of
            None \<Rightarrow> Inr (neg_err NLE_OBJ_NOTFOUND, gm, cops, h)
          | Some p \<Rightarrow>
              and_then (deref (h_obj h) p) (\<lambda>fam.
              let fid = genl_family_get_id fam;
                  gm = gm\<lparr>g_ops := (g_ops gm)(g := (g_ops gm g)\<lparr>o_id := fid\<rparr>)\<rparr> in
              and_then (case o_cache_ops (g_ops gm g) of
                  None \<Rightarrow> Inr cops
                | Some t \<Rightarrow> and_then (set_mt_id fid (cops t)) (\<lambda>co. Inr (cops(t := co)))) (\<lambda>cops.
              and_then (genl_family_put fops (Some p) h) (\<lambda>h. Inr (0, gm, cops, h))))))"

text \<open>
  \<open>alloc\<close> is \<open>genl_ctrl_alloc_cache\<close>: its result is a code, the cache, the socket and the new heap and
  user state.
\<close>

type_synonym 'u ctrl_alloc = "nl_sock \<Rightarrow> genl_family heap \<Rightarrow> 'u \<Rightarrow> (int \<times> nat option \<times> nl_sock \<times> genl_family heap \<times> 'u) res option"

definition genl_ops_resolve ::
  "genl_family ops \<Rightarrow> nat \<Rightarrow> 'u ctrl_alloc \<Rightarrow> nat \<Rightarrow> nl_sock \<Rightarrow> ('arg, 's) genl_mngt \<Rightarrow> cops \<Rightarrow> genl_family heap \<Rightarrow> 'u \<Rightarrow>
   (int \<times> nl_sock \<times> ('arg, 's) genl_mngt \<times> cops \<times> genl_family heap \<times> 'u) res option" where
  "genl_ops_resolve fops tc alloc g sk gm cops h u =
     (case alloc sk h u of
        None \<Rightarrow> None
      | Some r \<Rightarrow> Some (and_then r (\<lambda>(err, ctrl, sk, h, u).
          if err < 0 then Inr (err, sk, gm, cops, h, u)
          else
            case ctrl of
              None \<Rightarrow> Inl Undef
            | Some c \<Rightarrow>
                and_then (ops_resolve fops tc c g gm cops h) (\<lambda>(err, gm, cops, h).
                and_then (nl_cache_free fops (Some c) h) (\<lambda>h. Inr (err, sk, gm, cops, h, u))))))"

text \<open>The loop of \<open>genl_mngt_resolve\<close>; the code of the last family remains.\<close>

fun resolve_all ::
  "genl_family ops \<Rightarrow> nat \<Rightarrow> nat \<Rightarrow> nat list \<Rightarrow> int \<Rightarrow> ('arg, 's) genl_mngt \<Rightarrow> cops \<Rightarrow> genl_family heap \<Rightarrow>
   (int \<times> ('arg, 's) genl_mngt \<times> cops \<times> genl_family heap) res" where
  "resolve_all fops tc c [] err gm cops h = Inr (err, gm, cops, h)"
| "resolve_all fops tc c (g # gs) err gm cops h =
     and_then (ops_resolve fops tc c g gm cops h) (\<lambda>(err, gm, cops, h). resolve_all fops tc c gs err gm cops h)"

definition genl_mngt_resolve ::
  "genl_family ops \<Rightarrow> nat \<Rightarrow> 'u ctrl_alloc \<Rightarrow> nl_sock \<Rightarrow> ('arg, 's) genl_mngt \<Rightarrow> cops \<Rightarrow> genl_family heap \<Rightarrow> 'u \<Rightarrow>
   (int \<times> nl_sock \<times> ('arg, 's) genl_mngt \<times> cops \<times> genl_family heap \<times> 'u) res option" where
  "genl_mngt_resolve fops tc alloc sk gm cops h u =
     (case alloc sk h u of
        None \<Rightarrow> None
      | Some r \<Rightarrow> Some (and_then r (\<lambda>(err, ctrl, sk, h, u).
          if err < 0 then Inr (err, sk, gm, cops, h, u)
          else
            case ctrl of
              None \<Rightarrow> Inl Undef
            | Some c \<Rightarrow>
                and_then (resolve_all fops tc c (genl_ops_list gm) err gm cops h) (\<lambda>(err, gm, cops, h).
                and_then (nl_cache_free fops (Some c) h) (\<lambda>h. Inr (err, sk, gm, cops, h, u))))))"

text \<open>
  \<open>genl_resolve_id\<close> opens a socket of its own: \<open>sa\<close> and \<open>ca\<close> are the allocations of \<open>nl_socket_alloc\<close>,
  \<open>cbh\<close>, \<open>st\<close> and \<open>k\<close> the callback sets, ports and kernel state that sockets use.
\<close>

definition genl_resolve_id ::
  "genl_family ops \<Rightarrow> nat \<Rightarrow> 'u ctrl_alloc \<Rightarrow> 'k kernel \<Rightarrow> bool \<Rightarrow> bool \<Rightarrow> int \<Rightarrow> int \<Rightarrow> nat \<Rightarrow> nat \<Rightarrow>
   ('arg, 's) genl_mngt \<Rightarrow> cops \<Rightarrow> genl_family heap \<Rightarrow> 'u \<Rightarrow> ports \<Rightarrow> ('a, 'v) cb_heap \<Rightarrow> 'k \<Rightarrow>
   (int \<times> ('arg, 's) genl_mngt \<times> cops \<times> genl_family heap \<times> 'u \<times> ports \<times> ('a, 'v) cb_heap \<times> 'k) res option" where
  "genl_resolve_id fops tc alloc K ca sa default_cb t cb g gm cops h u st cbh k =
     (let ops = g_ops gm g; quit = (\<lambda>err cbh. Some (Inr (err, gm, cops, h, u, st, cbh, k))) in
      if o_id ops \<noteq> 0 then quit 0 cbh
      else if o_name ops = None then quit (neg_err NLE_INVAL) cbh
      else
        case nl_socket_alloc ca sa default_cb t cb cbh of
          Inl f \<Rightarrow> Some (Inl f)
        | Inr (None, cbh) \<Rightarrow> quit (neg_err NLE_NOMEM) cbh
        | Inr (Some sk, cbh) \<Rightarrow>
            (let close = (\<lambda>err sk gm cops h u st k.
                   Some (and_then (nl_socket_free K (Some sk) st cbh k) (\<lambda>(st, cbh, k).
                     Inr (err, gm, cops, h, u, st, cbh, k)))) in
             case genl_connect K sk st k of
               Inl f \<Rightarrow> Some (Inl f)
             | Inr (sk, st, k, Inl (Err e)) \<Rightarrow> close (neg_err e) sk gm cops h u st k
             | Inr (sk, st, k, Inl f) \<Rightarrow> Some (Inl f)
             | Inr (sk, st, k, Inr _) \<Rightarrow>
                 (case genl_ops_resolve fops tc alloc g sk gm cops h u of
                    None \<Rightarrow> None
                  | Some (Inl f) \<Rightarrow> Some (Inl f)
                  | Some (Inr (err, sk, gm, cops, h, u)) \<Rightarrow> close err sk gm cops h u st k)))"

section \<open>The registry in use\<close>

text \<open>
  Programs that use the registry: a family is filled in before it is registered, and only registered families
  are unregistered. \<open>Resolved g v\<close> is the assignment that resolution makes, of any number: nothing in the code keeps
  it from being the stale number of another family.
\<close>

datatype ('arg, 's) genl_step =
  FillFamily nat "('arg, 's) genl_ops"
| RegisterFamily nat
| UnregisterFamily nat
| Resolved nat int

fun genl_allowed :: "('arg, 's) genl_step \<Rightarrow> ('arg, 's) genl_mngt \<Rightarrow> bool" where
  "genl_allowed (FillFamily g ops) gm \<longleftrightarrow> g \<notin> set (genl_ops_list gm)"
| "genl_allowed (RegisterFamily g) gm \<longleftrightarrow> True"
| "genl_allowed (UnregisterFamily g) gm \<longleftrightarrow> g \<in> set (genl_ops_list gm)"
| "genl_allowed (Resolved g v) gm \<longleftrightarrow> True"

fun genl_run :: "('arg, 's) genl_step \<Rightarrow> ('arg, 's) genl_mngt \<Rightarrow> ('arg, 's) genl_mngt res" where
  "genl_run (FillFamily g ops) gm = Inr (gm\<lparr>g_ops := (g_ops gm)(g := ops)\<rparr>)"
| "genl_run (RegisterFamily g) gm = Inr (snd (genl_register_family g gm))"
| "genl_run (UnregisterFamily g) gm = and_then (genl_unregister_family g gm) (\<lambda>(_, gm). Inr gm)"
| "genl_run (Resolved g v) gm = Inr (gm\<lparr>g_ops := (g_ops gm)(g := (g_ops gm g)\<lparr>o_id := v\<rparr>)\<rparr>)"

inductive genl_reach :: "('arg, 's) genl_mngt \<Rightarrow> bool" where
  start: "genl_reach \<lparr>genl_ops_list = [], g_ops = ops\<rparr>"
| step: "genl_reach gm \<Longrightarrow> genl_allowed st gm \<Longrightarrow> genl_run st gm = Inr gm' \<Longrightarrow> genl_reach gm'"

text \<open>Each family is registered once, and each name belongs to one registered family.\<close>

definition wf_genl :: "('arg, 's) genl_mngt \<Rightarrow> bool" where
  "wf_genl gm \<longleftrightarrow> distinct (genl_ops_list gm) \<and>
     (\<forall>g \<in> set (genl_ops_list gm). o_name (g_ops gm g) \<noteq> None) \<and>
     inj_on (\<lambda>g. o_name (g_ops gm g)) (set (genl_ops_list gm))"

lemma wf_genl_cong:
  assumes "wf_genl gm" "genl_ops_list gm' = genl_ops_list gm"
    and "\<And>g. g \<in> set (genl_ops_list gm) \<Longrightarrow> o_name (g_ops gm' g) = o_name (g_ops gm g)"
  shows "wf_genl gm'"
  using assms by (simp add: wf_genl_def inj_on_def)

lemma lookup_family_None:
  "lookup_family v gm = None \<longleftrightarrow> (\<forall>g \<in> set (genl_ops_list gm). o_id (g_ops gm g) \<noteq> v)"
  by (auto simp: lookup_family_def find_None_iff)

lemma lookup_name_None:
  "lookup_family_by_name name gm = None \<longleftrightarrow> (\<forall>g \<in> set (genl_ops_list gm). o_name (g_ops gm g) \<noteq> Some name)"
  by (auto simp: lookup_family_by_name_def find_None_iff)

lemma genl_register_family_cases:
  "genl_register_family g gm = (0, gm\<lparr>genl_ops_list := genl_ops_list gm @ [g]\<rparr>) \<and>
     (\<exists>name. o_name (g_ops gm g) = Some name \<and> lookup_family_by_name name gm = None) \<and>
     (o_id (g_ops gm g) = 0 \<or> lookup_family (o_id (g_ops gm g)) gm = None) \<or>
   (\<exists>err. genl_register_family g gm = (err, gm))"
  by (auto simp: genl_register_family_def Let_def split: option.split)

lemma wf_genl_register:
  assumes wf: "wf_genl gm"
  shows "wf_genl (snd (genl_register_family g gm))"
proof -
  consider (ok) name where "genl_register_family g gm = (0, gm\<lparr>genl_ops_list := genl_ops_list gm @ [g]\<rparr>)"
      "o_name (g_ops gm g) = Some name" "lookup_family_by_name name gm = None"
      "o_id (g_ops gm g) = 0 \<or> lookup_family (o_id (g_ops gm g)) gm = None"
    | (err) err where "genl_register_family g gm = (err, gm)"
    using genl_register_family_cases [of g gm] by blast
  then show ?thesis
  proof cases
    case ok
    then have "g \<notin> set (genl_ops_list gm)" by (auto simp: lookup_name_None)
    then show ?thesis using ok wf by (auto simp: wf_genl_def lookup_name_None)
  qed (use wf in simp)
qed

lemma genl_reach_wf: "genl_reach gm \<Longrightarrow> wf_genl gm"
proof (induction rule: genl_reach.induct)
  case (start ops)
  show ?case by (simp add: wf_genl_def)
next
  case (step gm st gm')
  show ?case
  proof (cases st)
    case (FillFamily g ops)
    then have "gm' = gm\<lparr>g_ops := (g_ops gm)(g := ops)\<rparr>" "g \<notin> set (genl_ops_list gm)" using step by auto
    then show ?thesis by (intro wf_genl_cong [OF step.IH]) auto
  next
    case (RegisterFamily g)
    then show ?thesis using step wf_genl_register by auto
  next
    case (UnregisterFamily g)
    then have "gm' = gm\<lparr>genl_ops_list := remove1 g (genl_ops_list gm)\<rparr>" "distinct (genl_ops_list gm)"
      using step by (auto simp: genl_unregister_family_def wf_genl_def)
    then show ?thesis using step.IH by (auto simp: wf_genl_def elim: inj_on_subset)
  next
    case (Resolved g v)
    then show ?thesis using step by (intro wf_genl_cong [OF step.IH]) auto
  qed
qed

lemma find_first: "P x \<Longrightarrow> \<forall>y \<in> set pre. \<not> P y \<Longrightarrow> List.find P (pre @ x # post) = Some x"
  by (induction pre) auto

lemma cmd_loop_find:
  "cmd \<in> set cs \<Longrightarrow> distinct (map c_id cs) \<Longrightarrow> cmd_loop cs (length cs) (c_id cmd) = Inr (Some cmd)"
  by (induction cs) force+

text \<open>
  C19. Messages find their parser: if a message is built for a registered family, with one of its commands
  and any attributes that the policy of the command accepts, then \<open>genl_handle_msg\<close> calls exactly the
  parser of that command of that family, with the attributes of the message. This holds in every state of the registry,
  for the first family of the list that has its number: no family registered before it has the same one. (A number can
  occur twice: \<open>genl_register_family_cases\<close> shows that registration refuses a number that is taken, but resolution
  does not look for stale ones.)
\<close>

theorem genl_message_reaches_parser:
  assumes "genl_ops_list gm = pre @ g # post" "\<forall>g' \<in> set pre. o_id (g_ops gm g') \<noteq> o_id (g_ops gm g)"
    and "0 \<le> o_id (g_ops gm g)" "o_id (g_ops gm g) < 65536"
    and "o_cmds (g_ops gm g) = Some cs" "o_ncmds (g_ops gm g) = int (length cs)" "distinct (map c_id cs)"
    and "cmd \<in> set cs" "0 \<le> c_id cmd" "c_id cmd < 256" "c_msg_parser cmd = Some parser"
    and "wf_msg n" "mlen n = 16" "0 \<le> o_hdrsize (g_ops gm g)" "o_hdrsize (g_ops gm g) < 2147483620"
    and "genlmsg_put n port seq (o_id (g_ops gm g)) (o_hdrsize (g_ops gm g)) flags (c_id cmd) version = Inr (n1, Some p)"
    and "\<forall>a \<in> set as. attr_fits a" "nla_put_all n1 as = Inr n2"
    and "nlmsg_parse (nm_nlh n2) 0 (GENL_HDRSIZE (o_hdrsize (g_ops gm g))) (c_maxattr cmd) (c_attr_policy cmd) = (Some tb, Inr ())"
  shows "genl_handle_msg True gm n2 arg s =
    parser None (c_id cmd) \<lparr>gi_who = nlmsg_get_src n2, gi_buf = nm_nlh n2, gi_nlh = 0, gi_genlhdr = 16, gi_userhdr = p, gi_attrs = tb\<rparr> arg s"
proof -
  note built = genlmsg_put_facts [OF assms(12-18)]
  have "genlmsg_valid_hdr (nm_nlh n2) 0 0"
    using built(4) align4_ge [of "o_hdrsize (g_ops gm g)"] assms(14,15) by (simp add: genlmsg_valid_hdr_eq align4_eq)
  moreover have "lookup_family (nlmsg_type (nlh (nm_nlh n2) 0)) gm = Some g"
    using find_first [of "\<lambda>x. o_id (g_ops gm x) = o_id (g_ops gm g)" g pre post] assms(1-4) built(1)
    by (simp add: lookup_family_def nlmsg_hdr_def)
  moreover have "lookup_cmd (g_ops gm g) (genl_cmd_fld (nm_nlh n2) 16) = Inr (Some cmd)"
    using built(2) assms(5-10) cmd_loop_find [OF assms(8,7)] by (simp add: lookup_cmd_def)
  ultimately show ?thesis
    using assms(11,19) built(3) by (simp add: genl_handle_msg_def cmd_msg_parser_def genlmsg_hdr_def genlmsg_user_hdr_def genlmsg_data_def Let_def)
qed

text \<open>
  The example: a family with number 20 and one command (3), whose parser notes the attributes it gets, and a
  message with one attribute of type 1.
\<close>

definition echo_cmd :: "(unit, int option list list) genl_cmd" where
  "echo_cmd = \<lparr>c_id = 3, c_name = ''echo'', c_maxattr = 1,
     c_msg_parser = Some (\<lambda>cot cmd info arg s. Inr (0, gi_attrs info # s)), c_attr_policy = None\<rparr>"

definition echo_family :: "(unit, int option list list) genl_ops" where
  "echo_family = \<lparr>o_hdrsize = 0, o_id = 20, o_name = Some (str_bytes ''echo''), o_cache_ops = None,
     o_cmds = Some [echo_cmd], o_ncmds = 1\<rparr>"

definition echo_mngt :: "(unit, int option list list) genl_mngt" where
  "echo_mngt = \<lparr>genl_ops_list = [0], g_ops = (\<lambda>_. echo_family)\<rparr>"

lemma echo_reach: "genl_reach echo_mngt"
proof (rule genl_reach.step [OF genl_reach.start])
  show "genl_allowed (RegisterFamily 0) \<lparr>genl_ops_list = [], g_ops = (\<lambda>_. echo_family)\<rparr>" by simp
  show "genl_run (RegisterFamily 0) \<lparr>genl_ops_list = [], g_ops = (\<lambda>_. echo_family)\<rparr> = Inr echo_mngt"
    by (simp add: genl_register_family_def echo_family_def echo_mngt_def lookup_family_def lookup_family_by_name_def Let_def)
qed

definition echo_hdr :: nl_msg where
  "echo_hdr = msg32\<lparr>nm_nlh := [20, 0, 0, 0, 20, 0, 0, 0, 0, 0, 0, 0, 0, 0, 0, 0, 3, 1, 0, 0] @ replicate 12 0\<rparr>"

definition echo_msg :: nl_msg where
  "echo_msg = msg32\<lparr>nm_nlh := [28, 0, 0, 0, 20, 0, 0, 0, 0, 0, 0, 0, 0, 0, 0, 0, 3, 1, 0, 0, 5, 0, 1, 0, 7, 0, 0, 0, 0, 0, 0, 0]\<rparr>"

lemma echo_built:
  "genlmsg_put msg32 0 0 20 0 0 3 1 = Inr (echo_hdr, Some 20)" "nla_put_all echo_hdr [(1, [7])] = Inr echo_msg"
  "nlmsg_parse (nm_nlh echo_msg) 0 (GENL_HDRSIZE 0) 1 None = (Some [None, Some 20], Inr ())"
  by (code_simp, code_simp, code_simp)

theorem genl_message_reaches_parser_witness:
  "genl_handle_msg True echo_mngt echo_msg () [] = Inr (0, [[None, Some 20]])"
  using genl_message_reaches_parser [of echo_mngt "[]" 0 "[]" "[echo_cmd]" echo_cmd _ msg32 0 0 0 1 echo_hdr 20 "[(1, [7])]" echo_msg
      "[None, Some 20]" "()" "[]"] echo_built wf_msg32
  by (simp add: echo_mngt_def echo_family_def echo_cmd_def attr_fits_def)

section \<open>What resolution finds\<close>

text \<open>The number that a cache of families knows for a name.\<close>

definition known_id :: "genl_family heap \<Rightarrow> nl_cache \<Rightarrow> byte list \<Rightarrow> int option" where
  "known_id h cache name =
     map_option (\<lambda>p. genl_family_get_id (the (h_obj h p)))
       (List.find (\<lambda>p. gf_name (ce_data (the (h_obj h p))) = name) (c_items cache))"

definition live_items :: "genl_family heap \<Rightarrow> nl_cache \<Rightarrow> bool" where
  "live_items h cache \<longleftrightarrow> (\<forall>p \<in> set (c_items cache). \<exists>obj. h_obj h p = Some obj \<and> 0 < ce_refcnt obj)"

text \<open>The reference that the search takes is given back, so the heap is as before.\<close>

lemma get_put_same:
  assumes "h_obj h p = Some obj" "0 < ce_refcnt obj"
  shows "nl_object_put ops (Some p) (set_obj p (obj\<lparr>ce_refcnt := ce_refcnt obj + 1\<rparr>) h) = Inr h"
proof -
  have "(h_obj h)(p \<mapsto> obj) = h_obj h" using assms(1) by (auto simp: fun_eq_iff)
  then show ?thesis using assms(2) by (simp add: nl_object_put_def Let_def)
qed

definition new_ops :: "genl_family heap \<Rightarrow> nl_cache \<Rightarrow> ('arg, 's) genl_ops \<Rightarrow> ('arg, 's) genl_ops" where
  "new_ops h cache ops = ops\<lparr>o_id := (case known_id h cache (the (o_name ops)) of None \<Rightarrow> o_id ops | Some v \<Rightarrow> v)\<rparr>"

definition new_mts :: "genl_family heap \<Rightarrow> nl_cache \<Rightarrow> ('arg, 's) genl_ops \<Rightarrow> nl_msgtype list \<Rightarrow> nl_msgtype list" where
  "new_mts h cache ops mts =
     (case known_id h cache (the (o_name ops)) of None \<Rightarrow> mts | Some v \<Rightarrow> (hd mts)\<lparr>mt_id := v\<rparr> # tl mts)"

lemma ops_resolve_eq:
  assumes c: "h_cache h c = Some cache" "c_ops cache = tc" "live_items h cache"
    and g: "o_name (g_ops gm g) \<noteq> None" "\<And>t. o_cache_ops (g_ops gm g) = Some t \<Longrightarrow> co_msgtypes (cops t) \<noteq> []"
  shows "ops_resolve fops tc c g gm cops h =
    Inr (if known_id h cache (the (o_name (g_ops gm g))) = None then neg_err NLE_OBJ_NOTFOUND else 0,
         gm\<lparr>g_ops := (g_ops gm)(g := new_ops h cache (g_ops gm g))\<rparr>,
         case o_cache_ops (g_ops gm g) of None \<Rightarrow> cops
         | Some t \<Rightarrow> cops(t := (cops t)\<lparr>co_msgtypes := new_mts h cache (g_ops gm g) (co_msgtypes (cops t))\<rparr>), h)"
proof -
  obtain name where n: "o_name (g_ops gm g) = Some name" using g(1) by auto
  let ?P = "\<lambda>p. gf_name (ce_data (the (h_obj h p))) = name"
  have "\<forall>p \<in> set (c_items cache). \<exists>obj. h_obj h p = Some obj \<and> (Inr (gf_name (ce_data obj) = name) :: bool res) = Inr (gf_name (ce_data obj) = name)"
    using c(3) by (auto simp: live_items_def)
  note sl = search_list_spec [OF this]
  show ?thesis
  proof (cases "List.find ?P (c_items cache)")
    case None
    then have "known_id h cache name = None" by (simp add: known_id_def)
    then show ?thesis using c n sl None
      by (simp add: ops_resolve_def genl_ctrl_search_by_name_def new_ops_def new_mts_def split: option.split)
  next
    case (Some p)
    then obtain obj where p: "h_obj h p = Some obj" "0 < ce_refcnt obj"
      using find_SomeD [OF Some] c(3) by (auto simp: live_items_def)
    have k: "known_id h cache name = Some (genl_family_get_id obj)" using Some p by (simp add: known_id_def)
    have i: "genl_family_get_id (obj\<lparr>ce_refcnt := x\<rparr>) = genl_family_get_id obj" for x by (simp add: genl_family_get_id_def)
    show ?thesis using c n sl Some p k i g(2) get_put_same [OF p]
      by (auto simp: ops_resolve_def genl_ctrl_search_by_name_def new_ops_def new_mts_def genl_family_put_def set_mt_id_def Let_def
          split: option.splits list.splits)
  qed
qed

text \<open>
  The cache that \<open>genl_ctrl_alloc_cache\<close> delivers: nobody else refers to it, and it has no hash table, as families have no
  hash function. Families that somebody refers to survive it.
\<close>

definition fresh_ctrl :: "genl_family heap \<Rightarrow> nat \<Rightarrow> nat \<Rightarrow> nl_cache \<Rightarrow> bool" where
  "fresh_ctrl h c tc cache \<longleftrightarrow> h_cache h c = Some cache \<and> c_ops cache = tc \<and> c_hashtable cache = None \<and> c_refcnt cache = 1 \<and>
     distinct (c_items cache) \<and>
     (\<forall>p \<in> set (c_items cache). \<exists>obj. h_obj h p = Some obj \<and> ce_ops obj \<noteq> None \<and> ce_cache obj = Some c \<and> 0 < ce_refcnt obj)"

definition released :: "family_obj \<Rightarrow> family_obj option" where
  "released obj = (if ce_refcnt obj = 1 then None else Some (obj\<lparr>ce_cache := None, ce_refcnt := ce_refcnt obj - 1\<rparr>))"

definition release_all :: "nat list \<Rightarrow> (nat \<Rightarrow> family_obj option) \<Rightarrow> nat \<Rightarrow> family_obj option" where
  "release_all ps m p = (if p \<in> set ps then released (the (m p)) else m p)"

definition without_ctrl :: "genl_family heap \<Rightarrow> nat \<Rightarrow> nl_cache \<Rightarrow> genl_family heap" where
  "without_ctrl h c cache = \<lparr>h_obj = release_all (c_items cache) (h_obj h), h_cache = (h_cache h)(c := None)\<rparr>"

lemma remove_item:
  assumes "h_cache h c = Some cache" "c_hashtable cache = None" "c_items cache = p # ps"
    and "h_obj h p = Some obj" "ce_ops obj \<noteq> None" "ce_cache obj = Some c" "0 < ce_refcnt obj"
  shows "nl_cache_remove ops p h =
    Inr \<lparr>h_obj = (h_obj h)(p := released obj), h_cache = (h_cache h)(c \<mapsto> cache\<lparr>c_items := ps, c_nitems := c_nitems cache - 1\<rparr>)\<rparr>"
  using assms
  by (cases h; cases cache) (auto simp: nl_cache_remove_def nl_object_put_def object_release_def obj_ops_def released_def Let_def)

lemma remove_items:
  assumes "h_cache h c = Some cache" "c_hashtable cache = None" "c_items cache = ps" "distinct ps"
    and "\<forall>p \<in> set ps. \<exists>obj. h_obj h p = Some obj \<and> ce_ops obj \<noteq> None \<and> ce_cache obj = Some c \<and> 0 < ce_refcnt obj"
  shows "\<exists>cache'. remove_all ops ps h = Inr \<lparr>h_obj = release_all ps (h_obj h), h_cache = (h_cache h)(c \<mapsto> cache')\<rparr> \<and>
    c_hashtable cache' = None"
  using assms
proof (induction ps arbitrary: h cache)
  case Nil
  then have "(h_cache h)(c \<mapsto> cache) = h_cache h" "release_all [] (h_obj h) = h_obj h" by (auto simp: release_all_def fun_eq_iff)
  then show ?case using Nil(2) by (intro exI [of _ cache]) simp
next
  case (Cons p ps)
  obtain obj where obj: "h_obj h p = Some obj" "ce_ops obj \<noteq> None" "ce_cache obj = Some c" "0 < ce_refcnt obj"
    using Cons.prems(5) by auto
  let ?cache = "cache\<lparr>c_items := ps, c_nitems := c_nitems cache - 1\<rparr>"
  let ?h = "\<lparr>h_obj = (h_obj h)(p := released obj), h_cache = (h_cache h)(c \<mapsto> ?cache)\<rparr>"
  have h: "nl_cache_remove ops p h = Inr ?h" by (rule remove_item [OF Cons.prems(1,2,3) obj])
  have l: "\<forall>q \<in> set ps. \<exists>obj. h_obj ?h q = Some obj \<and> ce_ops obj \<noteq> None \<and> ce_cache obj = Some c \<and> 0 < ce_refcnt obj"
    using Cons.prems(4,5) by auto
  have m: "h_cache ?h c = Some ?cache" "c_hashtable ?cache = None" "c_items ?cache = ps" "distinct ps" using Cons.prems(2,4) by simp_all
  obtain cache' where c: "remove_all ops ps ?h = Inr \<lparr>h_obj = release_all ps (h_obj ?h), h_cache = (h_cache ?h)(c \<mapsto> cache')\<rparr>"
      "c_hashtable cache' = None"
    using Cons.IH [OF m l] by blast
  have "release_all ps (h_obj ?h) = release_all (p # ps) (h_obj h)"
    using obj(1) Cons.prems(4) by (auto simp: release_all_def fun_eq_iff)
  then have "remove_all ops (p # ps) h = Inr \<lparr>h_obj = release_all (p # ps) (h_obj h), h_cache = (h_cache h)(c \<mapsto> cache')\<rparr>"
    using h c(1) by (simp only: remove_all.simps and_then_simps) (simp add: fun_eq_iff)
  then show ?case using c(2) by blast
qed

lemma free_ctrl:
  assumes "fresh_ctrl h c tc cache"
  shows "nl_cache_free ops (Some c) h = Inr (without_ctrl h c cache)"
proof -
  note f = assms [unfolded fresh_ctrl_def]
  let ?h = "set_cache c (cache\<lparr>c_refcnt := c_refcnt cache - 1\<rparr>) h"
  obtain cache' where c: "remove_all ops (c_items cache) ?h =
      Inr \<lparr>h_obj = release_all (c_items cache) (h_obj ?h), h_cache = (h_cache ?h)(c \<mapsto> cache')\<rparr>" "c_hashtable cache' = None"
    using remove_items [of ?h c "cache\<lparr>c_refcnt := c_refcnt cache - 1\<rparr>" "c_items cache" ops] f by auto
  then show ?thesis
    using f by (simp add: nl_cache_free_def cache_free_def nl_cache_clear_def without_ctrl_def Let_def)
qed

lemma new_ops_simps [simp]:
  "o_name (new_ops h cache ops) = o_name ops" "o_cache_ops (new_ops h cache ops) = o_cache_ops ops"
  by (simp_all add: new_ops_def)

lemma new_mts_ne: "mts \<noteq> [] \<Longrightarrow> new_mts h cache ops mts \<noteq> []"
  by (simp add: new_mts_def split: option.split)

text \<open>What the families in \<open>gs\<close> need for being resolved: names, and cache types of their own.\<close>

definition resolvable :: "nat set \<Rightarrow> ('arg, 's) genl_mngt \<Rightarrow> cops \<Rightarrow> bool" where
  "resolvable G gm cops \<longleftrightarrow>
     (\<forall>g \<in> G. o_name (g_ops gm g) \<noteq> None \<and>
        (\<forall>t. o_cache_ops (g_ops gm g) = Some t \<longrightarrow> co_msgtypes (cops t) \<noteq> [] \<and>
           (\<forall>g' \<in> G. o_cache_ops (g_ops gm g') = Some t \<longrightarrow> g' = g)))"

lemma resolvableD:
  assumes "resolvable G gm cops" "g \<in> G"
  shows "o_name (g_ops gm g) \<noteq> None" "o_cache_ops (g_ops gm g) = Some t \<Longrightarrow> co_msgtypes (cops t) \<noteq> []"
    "o_cache_ops (g_ops gm g) = Some t \<Longrightarrow> g' \<in> G \<Longrightarrow> o_cache_ops (g_ops gm g') = Some t \<Longrightarrow> g' = g"
  using assms unfolding resolvable_def by blast+

definition resolved_to ::
  "genl_family heap \<Rightarrow> nl_cache \<Rightarrow> nat set \<Rightarrow> ('arg, 's) genl_mngt \<Rightarrow> cops \<Rightarrow> ('arg, 's) genl_mngt \<Rightarrow> cops \<Rightarrow> bool" where
  "resolved_to h cache G gm cops gm' cops' \<longleftrightarrow>
     genl_ops_list gm' = genl_ops_list gm \<and>
     (\<forall>g. g_ops gm' g = (if g \<in> G then new_ops h cache (g_ops gm g) else g_ops gm g)) \<and>
     (\<forall>g \<in> G. \<forall>t. o_cache_ops (g_ops gm g) = Some t \<longrightarrow>
        cops' t = (cops t)\<lparr>co_msgtypes := new_mts h cache (g_ops gm g) (co_msgtypes (cops t))\<rparr>) \<and>
     (\<forall>t. (\<forall>g \<in> G. o_cache_ops (g_ops gm g) \<noteq> Some t) \<longrightarrow> cops' t = cops t)"

text \<open>The registry and the cache types after one family.\<close>

definition one_gm :: "genl_family heap \<Rightarrow> nl_cache \<Rightarrow> nat \<Rightarrow> ('arg, 's) genl_mngt \<Rightarrow> ('arg, 's) genl_mngt" where
  "one_gm h cache g gm = gm\<lparr>g_ops := (g_ops gm)(g := new_ops h cache (g_ops gm g))\<rparr>"

definition one_cops :: "genl_family heap \<Rightarrow> nl_cache \<Rightarrow> ('arg, 's) genl_ops \<Rightarrow> cops \<Rightarrow> cops" where
  "one_cops h cache ops cops = (case o_cache_ops ops of None \<Rightarrow> cops
     | Some t \<Rightarrow> cops(t := (cops t)\<lparr>co_msgtypes := new_mts h cache ops (co_msgtypes (cops t))\<rparr>))"

lemma one_simps:
  "x \<noteq> g \<Longrightarrow> g_ops (one_gm h cache g gm) x = g_ops gm x" "g_ops (one_gm h cache g gm) g = new_ops h cache (g_ops gm g)"
  "genl_ops_list (one_gm h cache g gm) = genl_ops_list gm"
  "o_cache_ops ops \<noteq> Some t \<Longrightarrow> one_cops h cache ops cops t = cops t"
  "o_cache_ops ops = Some t \<Longrightarrow> one_cops h cache ops cops t = (cops t)\<lparr>co_msgtypes := new_mts h cache ops (co_msgtypes (cops t))\<rparr>"
  by (auto simp: one_gm_def one_cops_def split: option.split)

lemma resolvable_rest:
  assumes r: "resolvable (insert g G) gm cops" and g: "g \<notin> G"
  shows "resolvable G (one_gm h cache g gm) (one_cops h cache (g_ops gm g) cops)"
  unfolding resolvable_def
proof (intro ballI conjI allI impI)
  fix x assume x: "x \<in> G"
  then have ops: "g_ops (one_gm h cache g gm) x = g_ops gm x" using g by (intro one_simps(1)) auto
  note r' = resolvableD [OF r, of x]
  show "o_name (g_ops (one_gm h cache g gm) x) \<noteq> None" using r'(1) x ops by simp
  fix t assume "o_cache_ops (g_ops (one_gm h cache g gm) x) = Some t"
  then have xt: "o_cache_ops (g_ops gm x) = Some t" using ops by simp
  then have "o_cache_ops (g_ops gm g) \<noteq> Some t" using r'(3) [of t g] x g by auto
  then show "co_msgtypes (one_cops h cache (g_ops gm g) cops t) \<noteq> []" using r'(2) [OF _ xt] x by (simp add: one_simps(4))
  show "y = x" if "y \<in> G" "o_cache_ops (g_ops (one_gm h cache g gm) y) = Some t" for y
  proof (rule r'(3) [OF _ xt])
    have "y \<noteq> g" using that(1) g by auto
    then show "o_cache_ops (g_ops gm y) = Some t" using that(2) by (simp add: one_simps)
  qed (use x that(1) in simp_all)
qed

lemma resolved_to_insert:
  assumes r: "resolvable (insert g G) gm cops" and g: "g \<notin> G"
    and rest: "resolved_to h cache G (one_gm h cache g gm) (one_cops h cache (g_ops gm g) cops) gm' cops'"
  shows "resolved_to h cache (insert g G) gm cops gm' cops'"
proof -
  have ops: "g_ops (one_gm h cache g gm) x = g_ops gm x" if "x \<in> G" for x using that g by (intro one_simps(1)) auto
  have own: "o_cache_ops (g_ops gm x) \<noteq> Some t" if "x \<in> G" "o_cache_ops (g_ops gm g) = Some t" for x t
    using that g resolvableD(3) [OF r, of g t x] by auto
  show ?thesis unfolding resolved_to_def
  proof (intro conjI allI ballI impI)
    show "genl_ops_list gm' = genl_ops_list gm" using rest by (simp add: resolved_to_def one_simps)
    show "g_ops gm' x = (if x \<in> insert g G then new_ops h cache (g_ops gm x) else g_ops gm x)" for x
      using rest g by (cases "x = g") (simp_all add: resolved_to_def one_simps)
    show "cops' t = cops t" if "\<forall>x \<in> insert g G. o_cache_ops (g_ops gm x) \<noteq> Some t" for t
      using rest ops that by (simp add: resolved_to_def one_simps)
    fix x t assume x: "x \<in> insert g G" "o_cache_ops (g_ops gm x) = Some t"
    show "cops' t = (cops t)\<lparr>co_msgtypes := new_mts h cache (g_ops gm x) (co_msgtypes (cops t))\<rparr>"
    proof (cases "x = g")
      case True
      then have "cops' t = one_cops h cache (g_ops gm g) cops t" using rest ops own x(2) by (simp add: resolved_to_def)
      then show ?thesis using True x(2) by (simp add: one_simps)
    next
      case False
      then have "x \<in> G" "o_cache_ops (g_ops gm g) \<noteq> Some t" using x own by auto
      then show ?thesis using rest ops [of x] x(2) by (simp add: resolved_to_def one_simps)
    qed
  qed
qed

text \<open>Whether the cache knows all of them, and the code that remains.\<close>

definition all_known :: "genl_family heap \<Rightarrow> nl_cache \<Rightarrow> nat set \<Rightarrow> ('arg, 's) genl_mngt \<Rightarrow> bool" where
  "all_known h cache G gm \<longleftrightarrow> (\<forall>g \<in> G. known_id h cache (the (o_name (g_ops gm g))) \<noteq> None)"

lemma resolve_all_eq:
  assumes c: "h_cache h c = Some cache" "c_ops cache = tc" "live_items h cache"
  shows "distinct gs \<Longrightarrow> resolvable (set gs) gm cops \<Longrightarrow> err \<in> {0, neg_err NLE_OBJ_NOTFOUND} \<Longrightarrow>
    \<exists>err' gm' cops'. resolve_all fops tc c gs err gm cops h = Inr (err', gm', cops', h) \<and> resolved_to h cache (set gs) gm cops gm' cops' \<and>
      err' \<in> {0, neg_err NLE_OBJ_NOTFOUND} \<and> (all_known h cache (set gs) gm \<and> err = 0 \<longrightarrow> err' = 0)"
proof (induction gs arbitrary: err gm cops)
  case Nil
  then show ?case by (simp add: resolved_to_def)
next
  case (Cons g gs)
  let ?gm = "one_gm h cache g gm" and ?cops = "one_cops h cache (g_ops gm g) cops"
  have g: "g \<notin> set gs" "resolvable (insert g (set gs)) gm cops" using Cons.prems by simp_all
  define e where "e = (if known_id h cache (the (o_name (g_ops gm g))) = None then neg_err NLE_OBJ_NOTFOUND else 0)"
  have e: "ops_resolve fops tc c g gm cops h = Inr (e, ?gm, ?cops, h)"
    using ops_resolve_eq [OF c, of gm g cops] resolvableD [OF g(2), of g] by (simp add: one_gm_def one_cops_def e_def)
  have e2: "e \<in> {0, neg_err NLE_OBJ_NOTFOUND}" by (simp add: e_def)
  have dg: "distinct gs" using Cons.prems(1) by simp
  from Cons.IH [OF dg resolvable_rest [OF g(2,1), of h cache] e2]
  obtain e' gm' cops' where r: "resolve_all fops tc c gs e ?gm ?cops h = Inr (e', gm', cops', h)"
      "resolved_to h cache (set gs) ?gm ?cops gm' cops'" "e' \<in> {0, neg_err NLE_OBJ_NOTFOUND}"
      "all_known h cache (set gs) ?gm \<and> e = 0 \<longrightarrow> e' = 0" by blast
  have "all_known h cache (set gs) ?gm \<and> e = 0" if "all_known h cache (set (g # gs)) gm"
    using that g(1) by (auto simp: all_known_def e_def one_gm_def)
  then show ?case using e resolved_to_insert [OF g(2,1) r(2)] r(1,3,4) by auto
qed

text \<open>
  C20. Resolution: when \<open>genl_ctrl_alloc_cache\<close> delivered a cache of families of the caller's own, \<open>genl_mngt_resolve\<close> gives
  every registered family the number that this cache has for its name, in the registry and in the first message type of
  its cache type, if it has one (which has message types and belongs to no other registered family); families that the cache does not know keep their numbers.
  All other fields of the families, all other cache types and message types and the order of registration stay as they were. It
  returns 0 if the cache knows every family, and otherwise 0 or \<open>-NLE_OBJ_NOTFOUND\<close>. The cache is freed again: it is gone from
  the heap together with the families that nobody else refers to, every other family of it has one reference less and
  is in no cache, and the rest of the heap is as the allocation left it.
\<close>

theorem genl_mngt_resolve_spec:
  assumes "alloc sk h0 u0 = Some (Inr (0, Some c, sk', h, u))" "fresh_ctrl h c tc cache"
    and "genl_reach gm" "resolvable (set (genl_ops_list gm)) gm cops"
  shows "\<exists>err gm' cops'. genl_mngt_resolve fops tc alloc sk gm cops h0 u0 = Some (Inr (err, sk', gm', cops', without_ctrl h c cache, u)) \<and>
    resolved_to h cache (set (genl_ops_list gm)) gm cops gm' cops' \<and>
    err \<in> {0, neg_err NLE_OBJ_NOTFOUND} \<and> (all_known h cache (set (genl_ops_list gm)) gm \<longrightarrow> err = 0)"
proof -
  have c: "h_cache h c = Some cache" "c_ops cache = tc" "live_items h cache"
    using assms(2) by (auto simp: fresh_ctrl_def live_items_def)
  have d: "distinct (genl_ops_list gm)" using genl_reach_wf [OF assms(3)] by (simp add: wf_genl_def)
  from resolve_all_eq [OF c d assms(4), of 0 fops]
  obtain err gm' cops' where r: "resolve_all fops tc c (genl_ops_list gm) 0 gm cops h = Inr (err, gm', cops', h)"
      "resolved_to h cache (set (genl_ops_list gm)) gm cops gm' cops'" "err \<in> {0, neg_err NLE_OBJ_NOTFOUND}"
      "all_known h cache (set (genl_ops_list gm)) gm \<longrightarrow> err = 0"
    by auto
  have "genl_mngt_resolve fops tc alloc sk gm cops h0 u0 = Some (Inr (err, sk', gm', cops', without_ctrl h c cache, u))"
    using assms(1) r(1) free_ctrl [OF assms(2)] by (simp add: genl_mngt_resolve_def)
  then show ?thesis using r(2-4) by blast
qed

text \<open>A cache that knows the family of the example under the number 33.\<close>

definition fam33 :: family_obj where
  "fam33 = \<lparr>ce_refcnt = 1, ce_ops = Some 0, ce_cache = Some 5, ce_linked = True, ce_msgtype = 16, ce_flags = 0, ce_mask = 3,
     ce_data = \<lparr>gf_id = 33, gf_name = str_bytes ''echo'', gf_version = 1, gf_hdrsize = 0, gf_maxattr = 0, gf_ops = [], gf_mc_grps = []\<rparr>\<rparr>"

definition ctrl33 :: nl_cache where
  "ctrl33 = \<lparr>c_items = [4], c_nitems = 1, c_iarg1 = 0, c_iarg2 = 0, c_refcnt = 1, c_flags = 0, c_hashtable = None, c_ops = 0\<rparr>"

definition heap33 :: "genl_family heap" where
  "heap33 = \<lparr>h_obj = [4 \<mapsto> fam33], h_cache = [5 \<mapsto> ctrl33]\<rparr>"

theorem genl_mngt_resolve_spec_witness:
  "\<forall>sk cops h0 u0. \<exists>gm' cops'. genl_mngt_resolve (\<lambda>_. genl_family_ops (\<lambda>a b. (0, a))) 0 (\<lambda>sk h u. Some (Inr (0, Some 5, sk, heap33, u))) sk
      echo_mngt cops h0 u0 = Some (Inr (0, sk, gm', cops', \<lparr>h_obj = (\<lambda>_. None), h_cache = (\<lambda>_. None)\<rparr>, u0 :: unit)) \<and>
    o_id (g_ops gm' 0) = 33"
proof (intro allI)
  fix sk :: nl_sock and cops :: cops and h0 :: "genl_family heap" and u0 :: unit
  let ?fops = "\<lambda>_::nat. genl_family_ops (\<lambda>a b. (0, a))" and ?alloc = "\<lambda>sk h u. Some (Inr (0, Some 5, sk, heap33, u))"
  have f: "fresh_ctrl heap33 5 0 ctrl33" by (simp add: fresh_ctrl_def heap33_def ctrl33_def fam33_def)
  have w: "without_ctrl heap33 5 ctrl33 = \<lparr>h_obj = (\<lambda>_. None), h_cache = (\<lambda>_. None)\<rparr>"
    by (auto simp: without_ctrl_def heap33_def ctrl33_def fam33_def release_all_def released_def fun_eq_iff)
  have k: "known_id heap33 ctrl33 (str_bytes ''echo'') = Some 33"
    by (simp add: known_id_def heap33_def ctrl33_def fam33_def genl_family_get_id_def FAMILY_ATTR_ID_def)
  have a: "all_known heap33 ctrl33 (set (genl_ops_list echo_mngt)) echo_mngt"
    using k by (simp add: all_known_def echo_mngt_def echo_family_def)
  have rs: "resolvable (set (genl_ops_list echo_mngt)) echo_mngt cops" by (simp add: resolvable_def echo_mngt_def echo_family_def)
  obtain gm' cops' where r: "genl_mngt_resolve ?fops 0 ?alloc sk echo_mngt cops h0 u0 =
        Some (Inr (0, sk, gm', cops', \<lparr>h_obj = (\<lambda>_. None), h_cache = (\<lambda>_. None)\<rparr>, u0))"
      "resolved_to heap33 ctrl33 (set (genl_ops_list echo_mngt)) echo_mngt cops gm' cops'"
    using genl_mngt_resolve_spec [of ?alloc sk h0 u0 5 sk heap33 u0 0 ctrl33, OF refl f echo_reach rs, of ?fops] a w by auto
  have "o_id (g_ops gm' 0) = 33"
    using r(2) k by (simp add: resolved_to_def echo_mngt_def new_ops_def echo_family_def)
  then show "\<exists>gm' cops'. genl_mngt_resolve ?fops 0 ?alloc sk echo_mngt cops h0 u0 =
      Some (Inr (0, sk, gm', cops', \<lparr>h_obj = (\<lambda>_. None), h_cache = (\<lambda>_. None)\<rparr>, u0)) \<and> o_id (g_ops gm' 0) = 33" using r(1) by blast
qed

end
