(* ===== verification/Nl_Genl_Ctrl.thy ===== *)
theory Nl_Genl_Ctrl
  imports Nl_Genl Nl_Dump
begin

unbundle bit_operations_syntax

text \<open>
  The controller of generic netlink (\<open>lib/genl/ctrl.c\<close>): the cache of all families, the parser that fills it,
  and the lookup of a family by name at the kernel.
\<close>

section \<open>Constants and tables\<close>

definition GENL_ID_CTRL :: int where "GENL_ID_CTRL = 16"
definition CTRL_VERSION :: int where "CTRL_VERSION = 1"
definition CTRL_CMD_NEWFAMILY :: int where "CTRL_CMD_NEWFAMILY = 1"
definition CTRL_CMD_DELFAMILY :: int where "CTRL_CMD_DELFAMILY = 2"
definition CTRL_CMD_GETFAMILY :: int where "CTRL_CMD_GETFAMILY = 3"
definition CTRL_CMD_NEWOPS :: int where "CTRL_CMD_NEWOPS = 4"
definition CTRL_CMD_DELOPS :: int where "CTRL_CMD_DELOPS = 5"
definition CTRL_ATTR_FAMILY_ID :: nat where "CTRL_ATTR_FAMILY_ID = 1"
definition CTRL_ATTR_FAMILY_NAME :: nat where "CTRL_ATTR_FAMILY_NAME = 2"
definition CTRL_ATTR_VERSION :: nat where "CTRL_ATTR_VERSION = 3"
definition CTRL_ATTR_HDRSIZE :: nat where "CTRL_ATTR_HDRSIZE = 4"
definition CTRL_ATTR_MAXATTR :: nat where "CTRL_ATTR_MAXATTR = 5"
definition CTRL_ATTR_OPS :: nat where "CTRL_ATTR_OPS = 6"
definition CTRL_ATTR_MCAST_GROUPS :: nat where "CTRL_ATTR_MCAST_GROUPS = 7"
definition CTRL_ATTR_MAX :: int where "CTRL_ATTR_MAX = 7"

lemmas ctrl_attr_defs = CTRL_ATTR_FAMILY_ID_def CTRL_ATTR_FAMILY_NAME_def CTRL_ATTR_VERSION_def CTRL_ATTR_HDRSIZE_def
  CTRL_ATTR_MAXATTR_def CTRL_ATTR_OPS_def CTRL_ATTR_MCAST_GROUPS_def CTRL_ATTR_MAX_def

abbreviation pol :: "int \<Rightarrow> nla_policy" where "pol t \<equiv> \<lparr>pol_type = t, pol_minlen = 0, pol_maxlen = 0\<rparr>"

definition ctrl_policy :: "nla_policy list" where
  "ctrl_policy =
     [pol NLA_UNSPEC, pol NLA_U16, \<lparr>pol_type = NLA_STRING, pol_minlen = 0, pol_maxlen = GENL_NAMSIZ\<rparr>,
      pol NLA_U32, pol NLA_U32, pol NLA_U32, pol NLA_NESTED, pol NLA_NESTED]"

definition family_op_policy :: "nla_policy list" where
  "family_op_policy = [pol NLA_UNSPEC, pol NLA_U32, pol NLA_U32]"

definition family_grp_policy :: "nla_policy list" where
  "family_grp_policy = [pol NLA_UNSPEC, pol NLA_STRING, pol NLA_U32]"

section \<open>Parsing\<close>

text \<open>\<open>allocs\<close> says whether the allocation for the attribute at an offset succeeds.\<close>

fun mcast_loop :: "(int \<Rightarrow> bool) \<Rightarrow> byte list \<Rightarrow> (int \<times> int) list \<Rightarrow> family_obj \<Rightarrow> (int \<times> family_obj) res" where
  "mcast_loop allocs buf [] f = Inr (0, f)"
| "mcast_loop allocs buf ((nla, rem) # rest) f =
     (case nla_parse_nested 2 buf nla (Some family_grp_policy) of
        (_, Inl (Err e)) \<Rightarrow> Inr (neg_err e, f)
      | (_, Inl b) \<Rightarrow> Inl b
      | (tb, Inr _) \<Rightarrow>
          (case (tb ! 2, tb ! 1) of
             (Some gid, Some name) \<Rightarrow>
               (case genl_family_add_grp (allocs nla) (s32 (nla_get_u32 buf gid)) (Some (nla_get_string buf name)) f of
                  (err, f) \<Rightarrow> if err < 0 then Inr (err, f) else mcast_loop allocs buf rest f)
           | _ \<Rightarrow> Inr (neg_err NLE_MISSING_ATTR, f)))"

definition parse_mcast_grps :: "(int \<Rightarrow> bool) \<Rightarrow> byte list \<Rightarrow> int option \<Rightarrow> family_obj \<Rightarrow> (int \<times> family_obj) res" where
  "parse_mcast_grps allocs buf grp_attr f =
     (case grp_attr of
        None \<Rightarrow> Inl Bug
      | Some g \<Rightarrow> mcast_loop allocs buf (nla_for_each buf (nla_data g) (nla_len buf g)) f)"

text \<open>The loop over the operations in \<open>ctrl_msg_parser\<close>.\<close>

fun ops_loop :: "(int \<Rightarrow> bool) \<Rightarrow> byte list \<Rightarrow> (int \<times> int) list \<Rightarrow> family_obj \<Rightarrow> (int \<times> family_obj) res" where
  "ops_loop allocs buf [] f = Inr (0, f)"
| "ops_loop allocs buf ((nla, rem) # rest) f =
     (case nla_parse_nested 2 buf nla (Some family_op_policy) of
        (_, Inl (Err e)) \<Rightarrow> Inr (neg_err e, f)
      | (_, Inl b) \<Rightarrow> Inl b
      | (tb, Inr _) \<Rightarrow>
          (case tb ! 1 of
             None \<Rightarrow> Inr (neg_err NLE_MISSING_ATTR, f)
           | Some oid \<Rightarrow>
               (let flags = (case tb ! 2 of None \<Rightarrow> 0 | Some p \<Rightarrow> s32 (nla_get_u32 buf p)) in
                case genl_family_add_op (allocs nla) (s32 (nla_get_u32 buf oid)) flags f of
                  (err, f) \<Rightarrow> if err < 0 then Inr (err, f) else ops_loop allocs buf rest f)))"

text \<open>One block \<open>if (info->attrs[...]) { ... }\<close> with a 32-bit attribute.\<close>

definition u32_attr :: "byte list \<Rightarrow> int option \<Rightarrow> (int \<Rightarrow> family_obj \<Rightarrow> family_obj) \<Rightarrow> family_obj \<Rightarrow> family_obj" where
  "u32_attr buf attr upd f = (case attr of None \<Rightarrow> f | Some p \<Rightarrow> upd (nla_get_u32 buf p) f)"

text \<open>
  Everything between the allocation and the call of \<open>pp_cb\<close>, with its code; on failure the object is
  released by the caller.
\<close>

definition ctrl_fill :: "(int \<Rightarrow> bool) \<Rightarrow> genl_info \<Rightarrow> family_obj \<Rightarrow> (int \<times> family_obj) res" where
  "ctrl_fill allocs info f =
     (let attrs = gi_attrs info; buf = gi_buf info in
      case (attrs ! CTRL_ATTR_FAMILY_NAME, attrs ! CTRL_ATTR_FAMILY_ID) of
        (Some name, Some fid) \<Rightarrow>
          (let f = f\<lparr>ce_msgtype := nlmsg_type (nlh buf (gi_nlh info))\<rparr>;
               f = genl_family_set_id (nla_get_u16 buf fid) f;
               f = genl_family_set_name (nla_get_string buf name) f;
               f = u32_attr buf (attrs ! CTRL_ATTR_VERSION) genl_family_set_version f;
               f = u32_attr buf (attrs ! CTRL_ATTR_HDRSIZE) genl_family_set_hdrsize f;
               f = u32_attr buf (attrs ! CTRL_ATTR_MAXATTR) genl_family_set_maxattr f in
           and_then (case attrs ! CTRL_ATTR_OPS of
               None \<Rightarrow> Inr (0, f)
             | Some p \<Rightarrow> ops_loop allocs buf (nla_for_each buf (nla_data p) (nla_len buf p)) f) (\<lambda>(err, f).
           if err < 0 then Inr (err, f)
           else
             case attrs ! CTRL_ATTR_MCAST_GROUPS of
               None \<Rightarrow> Inr (0, f)
             | Some p \<Rightarrow> parse_mcast_grps allocs buf (Some p) f))
      | _ \<Rightarrow> Inr (neg_err NLE_MISSING_ATTR, f))"

text \<open>\<open>a\<close> supplies the address of the new object and \<open>i\<close> is the index of its type.\<close>

definition ctrl_msg_parser ::
  "genl_family ops \<Rightarrow> nat \<Rightarrow> (genl_family heap \<Rightarrow> nat option) \<Rightarrow> (int \<Rightarrow> bool) \<Rightarrow>
   ((genl_family, 'u) pp_cb, genl_family heap \<times> 'u) cmd_parser" where
  "ctrl_msg_parser fops i a allocs cot cmd info pp s =
     (case s of (h, u) \<Rightarrow>
      and_then (genl_family_alloc fops (a h) i h) (\<lambda>(family, h).
      case family of
        None \<Rightarrow> Inr (neg_err NLE_NOMEM, h, u)
      | Some p \<Rightarrow>
          and_then (deref (h_obj h) p) (\<lambda>obj.
          and_then (ctrl_fill allocs info obj) (\<lambda>(err, obj).
          let h = set_obj p obj h in
          and_then (if err < 0 then Inr (err, h, u) else pp p h u) (\<lambda>(err, h, u).
          and_then (genl_family_put fops (Some p) h) (\<lambda>h. Inr (err, h, u)))))))"

definition genl_cmds ::
  "genl_family ops \<Rightarrow> nat \<Rightarrow> (genl_family heap \<Rightarrow> nat option) \<Rightarrow> (int \<Rightarrow> bool) \<Rightarrow>
   ((genl_family, 'u) pp_cb, genl_family heap \<times> 'u) genl_cmd list" where
  "genl_cmds fops i a allocs =
     (let cmd = (\<lambda>v name. \<lparr>c_id = v, c_name = name, c_maxattr = 0, c_msg_parser = None, c_attr_policy = None\<rparr>) in
      [\<lparr>c_id = CTRL_CMD_NEWFAMILY, c_name = ''NEWFAMILY'', c_maxattr = CTRL_ATTR_MAX,
        c_msg_parser = Some (ctrl_msg_parser fops i a allocs), c_attr_policy = Some ctrl_policy\<rparr>,
       cmd CTRL_CMD_DELFAMILY ''DELFAMILY'', cmd CTRL_CMD_GETFAMILY ''GETFAMILY'', cmd CTRL_CMD_NEWOPS ''NEWOPS'',
       cmd CTRL_CMD_DELOPS ''DELOPS''])"

text \<open>\<open>genl_ops\<close> of \<open>ctrl.c\<close> as \<open>genl_register\<close> completes it for the cache type \<open>t\<close>.\<close>

definition ctrl_genl_ops ::
  "genl_family ops \<Rightarrow> nat \<Rightarrow> (genl_family heap \<Rightarrow> nat option) \<Rightarrow> (int \<Rightarrow> bool) \<Rightarrow> nat \<Rightarrow>
   ((genl_family, 'u) pp_cb, genl_family heap \<times> 'u) genl_ops" where
  "ctrl_genl_ops fops i a allocs t =
     \<lparr>o_hdrsize = 0, o_id = GENL_ID_CTRL, o_name = Some (str_bytes ''nlctrl''), o_cache_ops = Some t,
      o_cmds = Some (genl_cmds fops i a allocs), o_ncmds = 5\<rparr>"

definition genl_ctrl_ops :: nl_cache_ops where
  "genl_ctrl_ops =
     \<lparr>co_name = Some ''genl/family'', co_hdrsize = GENL_HDRSIZE 0, co_protocol = NETLINK_GENERIC, co_hash_size = 0, co_flags = 0,
      co_groups = None, co_obj_ops = Some 0,
      co_msgtypes = [\<lparr>mt_id = GENL_ID_CTRL, mt_act = NL_ACT_UNSPEC, mt_name = ''nlctrl''\<rparr>,
        \<lparr>mt_id = -1, mt_act = -1, mt_name = []\<rparr>]\<rparr>"

section \<open>The cache of families\<close>

definition ctrl_request_update ::
  "'u sendfun \<Rightarrow> bool \<Rightarrow> bool \<Rightarrow> int \<Rightarrow> int \<Rightarrow> int \<Rightarrow> ('a, 'u) nl_cb \<Rightarrow> nl_cache \<Rightarrow> nl_sock \<Rightarrow> ports \<Rightarrow> 'u \<Rightarrow>
   (int \<times> nl_sock \<times> ports \<times> 'u) res" where
  "ctrl_request_update sys_send a1 a2 dsz getpid t cb c sk st u =
     genl_send_simple sys_send a1 a2 dsz getpid t cb sk GENL_ID_CTRL CTRL_CMD_GETFAMILY CTRL_VERSION NLM_F_DUMP st u"

text \<open>The parser of the cache type, for messages from \<open>who\<close>.\<close>

definition ctrl_parser ::
  "genl_family ops \<Rightarrow> nat \<Rightarrow> (genl_family heap \<Rightarrow> nat option) \<Rightarrow> (int \<Rightarrow> bool) \<Rightarrow> nat \<Rightarrow> sockaddr_nl \<Rightarrow> (genl_family, 'u) msg_parser" where
  "ctrl_parser fops i a allocs t who buf pp h u =
     genl_msg_parser True who t (Some (ctrl_genl_ops fops i a allocs t)) buf 0 pp (h, u)"

definition genl_ctrl_alloc_cache ::
  "genl_family ops \<Rightarrow> cops \<Rightarrow> genl_family allocs \<Rightarrow> ('a, genl_family, 'u) link_layer \<Rightarrow> (genl_family, 'u) msg_parser \<Rightarrow>
   (genl_family, 'u) requester option \<Rightarrow> nat \<Rightarrow> nat option \<Rightarrow> bool \<Rightarrow> bool \<Rightarrow> nat \<Rightarrow> nl_sock option \<Rightarrow> genl_family heap \<Rightarrow> 'u \<Rightarrow>
   (int \<times> nat option \<times> nl_sock option \<times> genl_family heap \<times> 'u) res option" where
  "genl_ctrl_alloc_cache ops cops allocs ll parser req fuel a a1 a2 t sk h u =
     nl_cache_alloc_and_fill ops cops allocs ll parser req fuel a a1 a2 t sk h u"

section \<open>Asking the kernel for one family\<close>

text \<open>
  \<open>probe_response\<close> fills in the family that is the user state here; a fault of the program is kept in the
  state, as in the theory of cache synchronisation.
\<close>

type_synonym 'w pstate = "(family_obj \<times> 'w) res"

definition probe_response :: "(int \<Rightarrow> bool) \<Rightarrow> ('a, 'w pstate) msg_cb" where
  "probe_response allocs msg arg s =
     (case s of
        Inl f \<Rightarrow> (NL_STOP, Inl f)
      | Inr (ret, w) \<Rightarrow>
          (let buf = nm_nlh msg in
           case genlmsg_parse buf 0 0 CTRL_ATTR_MAX (Some ctrl_policy) of
             (_, Inl (Err _)) \<Rightarrow> (NL_SKIP, s)
           | (_, Inl f) \<Rightarrow> (NL_STOP, Inl f)
           | (None, Inr _) \<Rightarrow> (NL_STOP, Inl Undef)
           | (Some tb, Inr _) \<Rightarrow>
               (let ret = (case tb ! CTRL_ATTR_FAMILY_ID of None \<Rightarrow> ret | Some p \<Rightarrow> genl_family_set_id (nla_get_u16 buf p) ret) in
                case tb ! CTRL_ATTR_MCAST_GROUPS of
                  None \<Rightarrow> (NL_STOP, Inr (ret, w))
                | Some p \<Rightarrow>
                    (case parse_mcast_grps allocs buf (Some p) ret of
                       Inl f \<Rightarrow> (NL_STOP, Inl f)
                     | Inr (err, ret) \<Rightarrow> (if err < 0 then NL_SKIP else NL_STOP, Inr (ret, w))))))"

text \<open>The request: \<open>None\<close> if an attribute does not fit.\<close>

definition probe_msg :: "nl_msg \<Rightarrow> byte list \<Rightarrow> nl_msg option res" where
  "probe_msg msg name =
     and_then (genlmsg_put msg 0 0 GENL_ID_CTRL 0 0 CTRL_CMD_GETFAMILY 1) (\<lambda>(msg, p).
       if p = None then Inl Bug
       else case nla_put_string msg (int CTRL_ATTR_FAMILY_NAME) (name @ [0]) of
         Inl (Err _) \<Rightarrow> Inr None
       | Inl f \<Rightarrow> Inl f
       | Inr msg \<Rightarrow> Inr (Some msg))"

text \<open>
  The family, the message and the callback set belong to the call and are freed at its end, except for
  the family that is returned. \<open>fa\<close>, \<open>m1\<close>, \<open>m2\<close>, \<open>ca\<close> are their allocations, \<open>b1\<close> and \<open>b\<close> those of the
  receiving side; \<open>cb\<close> is the callback set of the socket.
\<close>

definition genl_ctrl_probe_by_name ::
  "genl_family ops \<Rightarrow> nat \<Rightarrow> nat \<Rightarrow> 'w pstate sendfun \<Rightarrow> (nl_sock \<Rightarrow> 'w pstate \<Rightarrow> (recv_result \<times> nl_sock \<times> 'w pstate) option) \<Rightarrow>
   bool \<Rightarrow> bool \<Rightarrow> bool \<Rightarrow> bool \<Rightarrow> (int \<Rightarrow> bool) \<Rightarrow> bool \<Rightarrow> bool \<Rightarrow> int \<Rightarrow> int \<Rightarrow> int \<Rightarrow> ('a, 'w pstate) nl_cb \<Rightarrow>
   nl_sock \<Rightarrow> byte list \<Rightarrow> ports \<Rightarrow> 'w \<Rightarrow> (family_obj option \<times> nl_sock \<times> ports \<times> 'w) res option" where
  "genl_ctrl_probe_by_name fops i fuel sys_send recv fa m1 m2 ca allocs b1 b dsz getpid t cb sk name st w =
     (let fail = (\<lambda>sk st s. Some (and_then s (\<lambda>(_, w). Inr (None, sk, st, w)))) in
      if \<not> fa then Some (Inr (None, sk, st, w))
      else
        let ret = genl_family_set_name name (new_object fops i); s = Inr (ret, w) in
        case nlmsg_alloc m1 m2 dsz of
          None \<Rightarrow> fail sk st s
        | Some msg \<Rightarrow>
            (case nl_cb_clone ca cb of
               None \<Rightarrow> fail sk st s
             | Some pcb \<Rightarrow>
                 (case probe_msg msg name of
                    Inl f \<Rightarrow> Some (Inl f)
                  | Inr None \<Rightarrow> fail sk st s
                  | Inr (Some msg) \<Rightarrow>
                      (case nl_cb_set pcb (int NL_CB_VALID) NL_CB_CUSTOM (Some (probe_response allocs)) None of
                         Inl _ \<Rightarrow> fail sk st s
                       | Inr pcb \<Rightarrow>
                           (case nl_send_auto_complete sys_send getpid t cb sk msg st s of
                              (rc, sk, msg, st, s) \<Rightarrow>
                                if rc < 0 then fail sk st s
                                else
                                  case nl_recvmsgs fuel recv b pcb sk s of
                                    None \<Rightarrow> None
                                  | Some (rc, sk, s) \<Rightarrow>
                                      if rc < 0 then fail sk st s
                                      else
                                        case wait_for_ack fuel recv b1 b cb sk s of
                                          None \<Rightarrow> None
                                        | Some (rc, sk, s) \<Rightarrow>
                                            if rc < 0 then fail sk st s
                                            else Some (and_then s (\<lambda>(ret, w).
                                              Inr (if genl_family_get_id ret \<noteq> 0 then Some ret else None, sk, st, w))))))))"

text \<open>The two functions that use the answer; \<open>probe\<close> is the call of \<open>genl_ctrl_probe_by_name\<close>.\<close>

definition genl_ctrl_resolve ::
  "(family_obj option \<times> nl_sock \<times> ports \<times> 'w) res option \<Rightarrow> (int \<times> nl_sock \<times> ports \<times> 'w) res option" where
  "genl_ctrl_resolve probe =
     map_option (\<lambda>r. and_then r (\<lambda>(family, sk, st, w).
       Inr (case family of None \<Rightarrow> neg_err NLE_OBJ_NOTFOUND | Some f \<Rightarrow> genl_family_get_id f, sk, st, w))) probe"

definition genl_ctrl_resolve_grp ::
  "(family_obj option \<times> nl_sock \<times> ports \<times> 'w) res option \<Rightarrow> byte list \<Rightarrow> (int \<times> nl_sock \<times> ports \<times> 'w) res option" where
  "genl_ctrl_resolve_grp probe grp_name =
     map_option (\<lambda>r. and_then r (\<lambda>(family, sk, st, w).
       Inr (case family of None \<Rightarrow> neg_err NLE_OBJ_NOTFOUND | Some f \<Rightarrow> genl_ctrl_grp_by_name f grp_name, sk, st, w))) probe"

section \<open>The request and its answer\<close>

text \<open>What the kernel gets: a request to the controller that names the family.\<close>

definition ctrl_request :: "nl_sock \<Rightarrow> byte list \<Rightarrow> byte list \<Rightarrow> bool" where
  "ctrl_request sk name d \<longleftrightarrow>
     nlh d 0 = \<lparr>nlmsg_len = blen d, nlmsg_type = GENL_ID_CTRL, nlmsg_flags = NLM_F_REQUEST OR NLM_F_ACK,
       nlmsg_seq = u32 (s_seq_next sk), nlmsg_pid = nl_pid (s_local sk)\<rparr> \<and>
     rd d 16 (blen d - 16) =
       genlmsghdr CTRL_CMD_GETFAMILY 1 @ attrs_bytes [(int CTRL_ATTR_FAMILY_NAME, name @ [0])]"

text \<open>
  A datagram that answers with the number of a family (multicast groups, if it lists any, in the form that
  the library parses), and one that acknowledges a request: both with any flags but that of an interrupted
  dump, so that a capped acknowledgement or a message of a multipart answer counts as well.
\<close>

definition family_answer :: "(int \<Rightarrow> bool) \<Rightarrow> int \<Rightarrow> byte list \<Rightarrow> int \<Rightarrow> bool" where
  "family_answer allocs seq d fid \<longleftrightarrow> blen d \<le> STREAM_MAX \<and> nlmsg_ok (nlh d 0) (blen d) \<and>
     nlmsg_type (nlh d 0) = GENL_ID_CTRL \<and> nlmsg_flags (nlh d 0) AND NLM_F_DUMP_INTR = 0 \<and> nlmsg_seq (nlh d 0) = seq \<and>
     (\<exists>tb p. genlmsg_parse (msg_bytes d 0) 0 0 CTRL_ATTR_MAX (Some ctrl_policy) = (Some tb, Inr ()) \<and>
        tb ! CTRL_ATTR_FAMILY_ID = Some p \<and> nla_get_u16 (msg_bytes d 0) p = fid \<and>
        (case tb ! CTRL_ATTR_MCAST_GROUPS of
           None \<Rightarrow> True
         | Some g \<Rightarrow> (\<forall>f. \<exists>f'. parse_mcast_grps allocs (msg_bytes d 0) (Some g) f = Inr (0, f'))))"

definition ack_dgram :: "int \<Rightarrow> byte list \<Rightarrow> bool" where
  "ack_dgram seq d \<longleftrightarrow> blen d \<le> STREAM_MAX \<and> nlmsg_ok (nlh d 0) (blen d) \<and> nlmsg_type (nlh d 0) = NLMSG_ERROR \<and>
     36 \<le> nlmsg_len (nlh d 0) \<and> nlmsg_flags (nlh d 0) AND NLM_F_DUMP_INTR = 0 \<and> nlmsg_seq (nlh d 0) = seq \<and> s32 (get32 d 16) = 0"

lemma probe_msg_ok:
  assumes m: "nlmsg_alloc True True dsz = Some m" "dsz < 2147483648" "24 + align4 (blen name + 1) \<le> dsz"
    and name: "0 \<notin> set name" "blen name \<le> 65530"
  shows "\<exists>n. probe_msg m name = Inr (Some n) \<and> wf_msg n \<and> nm_dst n = no_addr \<and> nm_flags n = 0 \<and>
    nlmsg_hdr n = \<lparr>nlmsg_len = 24 + align4 (blen name + 1), nlmsg_type = GENL_ID_CTRL, nlmsg_flags = 0, nlmsg_seq = 0, nlmsg_pid = 0\<rparr> \<and>
    rd (nm_nlh n) 16 (mlen n - 16) =
      genlmsghdr CTRL_CMD_GETFAMILY 1 @ attrs_bytes [(int CTRL_ATTR_FAMILY_NAME, name @ [0])]"
proof -
  let ?a = "(int CTRL_ATTR_FAMILY_NAME, name @ [0])"
  have al: "nlmsg_alloc_len True True dsz = Some m" using m(1) by (simp add: nlmsg_alloc_def)
  have mw: "wf_msg m" "mlen m = 16" "nm_size m = max 16 dsz" using nlmsg_alloc_len_wf [OF al m(2)] by simp_all
  have m0: "nm_dst m = no_addr" "nm_flags m = 0" using al by (auto simp: nlmsg_alloc_len_def Let_def)
  have sz: "20 \<le> dsz" using m(3) align4_nonneg [of "blen name + 1"] by linarith
  have a0: "align4 0 = 0" by (simp add: align4_eq)
  obtain n1 where n1: "genlmsg_put m 0 0 GENL_ID_CTRL 0 0 CTRL_CMD_GETFAMILY 1 = Inr (n1, Some 20)" "nm_size n1 = nm_size m"
    using genlmsg_put_fits [OF mw(1,2), of 0 0 0 GENL_ID_CTRL 0 CTRL_CMD_GETFAMILY 1] mw(3) sz a0 by auto
  note g = genlmsg_put_Some [OF mw(1,2) _ _ n1(1)] genlmsg_put_hdr [OF mw(1,2) _ _ n1(1)]
  have ha: "has_attrs n1 20 []" "rd (nm_nlh n1) 16 4 = genlmsghdr CTRL_CMD_GETFAMILY 1"
    "nlmsg_hdr n1 = \<lparr>nlmsg_len = 20, nlmsg_type = u16 GENL_ID_CTRL, nlmsg_flags = u16 0, nlmsg_seq = u32 0, nlmsg_pid = u32 0\<rparr>"
    using g a0 by simp_all
  have str: "strlen (name @ [0]) + 1 = blen (name @ [0])"
    using name(1) by (simp add: strlen_def takeWhile_append2 takeWhile_eq_all_conv)
  have room: "fits_room n1 (blen (name @ [0]))" "u16 (int CTRL_ATTR_FAMILY_NAME) = int CTRL_ATTR_FAMILY_NAME" "blen (name @ [0]) \<le> 65531"
    using m(3) mw(3) n1(2) ha(3) name(2) by (simp_all add: fits_room_def CTRL_ATTR_FAMILY_NAME_def algebra_simps)
  obtain n where n: "nla_put n1 (int CTRL_ATTR_FAMILY_NAME) (blen (name @ [0])) (name @ [0]) = Inr n"
      "has_attrs n 20 [?a]" "rd (nm_nlh n) 4 16 = rd (nm_nlh n1) 4 16"
    using nla_put_refines [OF ha(1) room(3), of "int CTRL_ATTR_FAMILY_NAME"] room(1) unfolding room(2) by auto
  note hd = has_attrsD [OF n(2)]
  have ml: "mlen n = 24 + align4 (blen name + 1)" using hd(4) by (simp add: add.commute)
  have "nlmsg_hdr n = (nlmsg_hdr n1)\<lparr>nlmsg_len := mlen n\<rparr>"
    using nlh_cong [of "nm_nlh n" "nm_nlh n1"] rd_prefix [OF n(3), of 0 12] by (simp add: nlmsg_hdr_def)
  then have h: "nlmsg_hdr n = \<lparr>nlmsg_len = 24 + align4 (blen name + 1), nlmsg_type = GENL_ID_CTRL, nlmsg_flags = 0, nlmsg_seq = 0, nlmsg_pid = 0\<rparr>"
    using ha(3) ml by (simp add: GENL_ID_CTRL_def)
  have "rd (nm_nlh n) 16 4 = genlmsghdr CTRL_CMD_GETFAMILY 1" using rd_prefix [OF n(3), of 12 4] ha(2) by simp
  then have b: "rd (nm_nlh n) 16 (mlen n - 16) = genlmsghdr CTRL_CMD_GETFAMILY 1 @ attrs_bytes [?a]"
    using rd_split [of 16 4 "blen (attrs_bytes [?a])" "nm_nlh n"] hd(4,5) by simp
  have "probe_msg m name = Inr (Some n)"
    unfolding probe_msg_def n1(1) by (simp add: nla_put_string_def str n(1) [simplified])
  moreover have "nm_dst n = no_addr" "nm_flags n = 0"
    using nla_put_frame [OF n(1)] genlmsg_put_frame [OF n1(1)] m0 by simp_all
  ultimately show ?thesis using hd(1) h b by blast
qed


lemma mcast_loop_id:
  assumes "mcast_loop allocs buf xs f = Inr (err, f')"
  shows "genl_family_get_id f' = genl_family_get_id f"
  using assms
proof (induction allocs buf xs f rule: mcast_loop.induct)
  case (2 allocs buf nla rem rest f)
  have "genl_family_get_id f1 = genl_family_get_id f" if "genl_family_add_grp a i n f = (e, f1)" for a i n e f1
    using that by (auto simp: genl_family_add_grp_def genl_family_get_id_def Let_def split: if_splits option.splits)
  then show ?case using 2 by (auto split: prod.splits sum.splits fail.splits option.splits if_splits)
qed simp

lemma probe_response_answer:
  assumes "family_answer allocs seq d fid" "nm_nlh msg = msg_bytes d 0"
  shows "\<exists>f'. probe_response allocs msg arg (Inr (f, w)) = (NL_STOP, Inr (f', w)) \<and> genl_family_get_id f' = fid"
proof -
  obtain tb p where tb: "genlmsg_parse (msg_bytes d 0) 0 0 CTRL_ATTR_MAX (Some ctrl_policy) = (Some tb, Inr ())"
      "tb ! CTRL_ATTR_FAMILY_ID = Some p" "nla_get_u16 (msg_bytes d 0) p = fid"
    and grp: "case tb ! CTRL_ATTR_MCAST_GROUPS of None \<Rightarrow> True
      | Some g \<Rightarrow> (\<forall>f. \<exists>f'. parse_mcast_grps allocs (msg_bytes d 0) (Some g) f = Inr (0, f'))"
    using assms(1) unfolding family_answer_def by blast
  let ?f = "genl_family_set_id fid f"
  have fid: "0 \<le> fid" "fid < 65536" using tb(3) by (auto simp: nla_get_u16_def)
  moreover have "(x OR FAMILY_ATTR_ID) AND FAMILY_ATTR_ID = FAMILY_ATTR_ID" for x by (auto intro!: bit_eqI simp: bit_simps)
  ultimately have id: "genl_family_get_id ?f = fid"
    by (simp add: genl_family_set_id_def genl_family_get_id_def) (simp add: FAMILY_ATTR_ID_def)
  show ?thesis
  proof (cases "tb ! CTRL_ATTR_MCAST_GROUPS")
    case None
    then show ?thesis using tb id by (simp add: probe_response_def assms(2) Let_def)
  next
    case (Some g)
    obtain f' where f': "parse_mcast_grps allocs (msg_bytes d 0) (Some g) ?f = Inr (0, f')" using grp Some by auto
    have "genl_family_get_id f' = genl_family_get_id ?f"
      by (rule mcast_loop_id [OF f' [unfolded parse_mcast_grps_def option.case]])
    then show ?thesis using tb id Some f' by (simp add: probe_response_def assms(2) Let_def)
  qed
qed

text \<open>The callback set for the answer.\<close>

lemma probe_cb:
  assumes "wf_cb cb" "quiet cb"
  shows "\<exists>pcb. nl_cb_set (cb\<lparr>cb_refcnt := 1\<rparr>) (int NL_CB_VALID) NL_CB_CUSTOM (Some f) None = Inr pcb \<and> quiet pcb \<and>
    cb_set pcb ! NL_CB_VALID = Some f \<and> cb_recv_ow pcb = cb_recv_ow cb \<and> cb_recvmsgs_ow pcb = cb_recvmsgs_ow cb"
  using assms by (simp add: nl_cb_set_def wf_cb_def quiet_def cb_consts)


text \<open>The two steps of the exchange that read.\<close>

lemma probe_recv:
  assumes a: "family_answer allocs (s_seq_expect sk) d fid" and cb: "quiet pcb" "cb_set pcb ! NL_CB_VALID = Some (probe_response allocs)"
      "cb_recv_ow pcb = None" "cb_recvmsgs_ow pcb = None"
    and r: "recv sk (Inr (f, w1)) = Some ((blen d, nla, d, creds), sk, Inr (f, w2))"
  shows "\<exists>f'. nl_recvmsgs (Suc fuel) recv True pcb sk (Inr (f, w1)) = Some (0, sk, Inr (f', w2)) \<and> genl_family_get_id f' = fid"
proof -
  have h: "blen d \<le> STREAM_MAX" "nlmsg_ok (nlh d 0) (blen d)" "nlmsg_type (nlh d 0) = GENL_ID_CTRL" "nlmsg_flags (nlh d 0) AND NLM_F_DUMP_INTR = 0"
    "nlmsg_seq (nlh d 0) = s_seq_expect sk" using a by (auto simp: family_answer_def)
  obtain msg where msg: "recv_copy True sk nla creds d 0 = Some msg" "nm_nlh msg = msg_bytes d 0"
    using recv_copy_bytes [OF h(2), of sk nla creds] h(1) by auto
  obtain f' where f': "probe_response allocs msg (cb_args pcb ! NL_CB_VALID) (Inr (f, w2)) = (NL_STOP, Inr (f', w2))"
      "genl_family_get_id f' = fid" using probe_response_answer [OF a msg(2), of "cb_args pcb ! NL_CB_VALID" f w2] by auto
  let ?st = "\<lparr>rs_sk = sk, rs_u = Inr (f, w2), rs_multipart = False, rs_interrupted = False, rs_nrecv = 0\<rparr>"
  let ?st' = "\<lparr>rs_sk = sk, rs_u = Inr (f', w2), rs_multipart = nlmsg_flags (nlh d 0) AND NLM_F_MULTI \<noteq> 0, rs_interrupted = False, rs_nrecv = 1\<rparr>"
  have t: "\<not> is_control GENL_ID_CTRL" "GENL_ID_CTRL \<noteq> NLMSG_DONE" "GENL_ID_CTRL \<noteq> NLMSG_NOOP" "GENL_ID_CTRL \<noteq> NLMSG_OVERRUN"
      "GENL_ID_CTRL \<noteq> NLMSG_ERROR"
    by (simp_all add: is_control_def GENL_ID_CTRL_def NLMSG_ERROR_def NLMSG_DONE_def NLMSG_NOOP_def NLMSG_OVERRUN_def)
  have "recv_msg pcb nla (nlh d 0) e msg ?st = (?st', Stop)" for e
    using recv_msg_in_seq [OF cb(1), of ?st "nlh d 0" nla e msg] h(3,4,5) t f'(1) cb(2)
    by (simp add: recv_dispatch_def NL_CB_CALL_def NL_OK_def NL_SKIP_def NL_STOP_def)
  then have "recvmsgs (Suc fuel) recv True pcb sk (Inr (f, w1)) = Some (recv_finish (case Stop of Out e \<Rightarrow> e | _ \<Rightarrow> 0) ?st')"
    by (intro recvmsgs_first_copy [where recv = recv and sk = sk and u = "Inr (f, w1)", OF r cb(3) _ h(1,2)]) (simp_all add: msg(1))
  then show ?thesis using cb(4) f'(2) by (auto simp: nl_recvmsgs_def nl_recvmsgs_report_def recv_finish_def)
qed

lemma probe_ack:
  assumes "ack_dgram (s_seq_expect sk) d" "wf_cb cb" "quiet cb" "cb_recv_ow cb = None" "cb_recvmsgs_ow cb = None"
    and "recv sk u = Some ((blen d, nla, d, creds), sk, u')" "\<not> has_flag sk NL_NO_AUTO_ACK"
  shows "wait_for_ack (Suc fuel) recv True True cb sk u = Some (0, sk\<lparr>s_seq_expect := u32 (s_seq_expect sk + 1)\<rparr>, u')"
  using nl_wait_for_ack_answer [where recv = recv and sk = sk and u = u, OF assms(2-6)] assms(1,7)
  by (simp add: ack_dgram_def wait_for_ack_def)

text \<open>
  C3. The number of a family is found: if the kernel takes a request for the family and answers it with a
  datagram that carries the number (and multicast groups, if any, that parse) and with one that acknowledges
  the request (each in sequence and with any flags but \<open>NLM_F_DUMP_INTR\<close>), \<open>genl_ctrl_resolve\<close>
  returns that number. The socket is connected with automatic acknowledgements, its callback set has no
  overriding functions, no error callback and no callbacks for incoming, outgoing, invalid and acknowledging messages,
  sequence checks and interruptions; no allocation fails and the name has no 0 byte and fits in the request. The request it
  sends is a complete message to the controller with the name as its only attribute; both sequence numbers
  advance by one.
\<close>

theorem genl_ctrl_resolve_returns_id:
  assumes cb: "wf_cb cb" "quiet cb" "cb_recv_ow cb = None" "cb_recvmsgs_ow cb = None" "cb_send_ow cb = None"
      "cb_set cb ! NL_CB_MSG_OUT = None"
    and sock: "0 \<le> s_fd sk" "0 < nl_pid (s_local sk)" "nl_pid (s_local sk) < 4294967296" "\<not> has_flag sk NL_NO_AUTO_ACK"
    and name: "0 \<notin> set name" "blen name \<le> 65530" "24 + align4 (blen name + 1) \<le> dsz" "dsz < 2147483648"
    and sk1: "sk1 = sk\<lparr>s_seq_next := u32 (s_seq_next sk + 1)\<rparr>"
    and send: "\<And>d f. ctrl_request sk name d \<Longrightarrow> sys_send (s_fd sk) (s_peer sk) d None (Inr (f, w)) = (blen d, Inr (f, w1))"
    and answer: "\<And>f. recv sk1 (Inr (f, w1)) = Some ((blen fam, nla, fam, creds), sk1, Inr (f, w2))"
      "family_answer allocs (s_seq_expect sk) fam fid" "fid \<noteq> 0"
    and ack: "\<And>f. recv sk1 (Inr (f, w2)) = Some ((blen ack, nla', ack, creds'), sk1, Inr (f, w3))"
      "ack_dgram (s_seq_expect sk) ack"
  shows "genl_ctrl_resolve (genl_ctrl_probe_by_name fops i (Suc fuel) sys_send recv True True True True allocs True True
      dsz getpid t cb sk name st w) =
    Some (Inr (fid, sk1\<lparr>s_seq_expect := u32 (s_seq_expect sk + 1)\<rparr>, st, w3))"
proof -
  let ?f = "genl_family_set_name name (new_object fops i)"
  obtain m where m: "nlmsg_alloc True True dsz = Some m" by (simp add: nlmsg_alloc_def nlmsg_alloc_len_def Let_def)
  obtain n where n: "probe_msg m name = Inr (Some n)" "wf_msg n" "nm_dst n = no_addr" "nm_flags n = 0"
      "nlmsg_hdr n = \<lparr>nlmsg_len = 24 + align4 (blen name + 1), nlmsg_type = GENL_ID_CTRL, nlmsg_flags = 0, nlmsg_seq = 0, nlmsg_pid = 0\<rparr>"
      "rd (nm_nlh n) 16 (mlen n - 16) = genlmsghdr CTRL_CMD_GETFAMILY 1 @ attrs_bytes [(int CTRL_ATTR_FAMILY_NAME, name @ [0])]"
    using probe_msg_ok [OF m name(4,3,1,2)] by blast
  have z: "nlmsg_seq (nlmsg_hdr n) = 0" "nlmsg_pid (nlmsg_hdr n) = 0" using n(5) by simp_all
  obtain d n' where d: "\<And>u. nl_send_auto sys_send getpid t cb sk n st u =
      (case sys_send (s_fd sk) (s_peer sk) d None u of (ret, u) \<Rightarrow>
         (if ret < 0 then neg_err (nl_syserr2nlerr (- ret)) else ret, sk1, n', st, u))"
      "blen d = mlen n" "nlh d 0 = completed_hdr sk (nl_pid (s_local sk)) (nlmsg_hdr n)"
      "rd d 16 (mlen n - 16) = rd (nm_nlh n) 16 (mlen n - 16)"
    using nl_send_auto_plain [OF n(2) z n(3,4) sock(1-3) cb(5,6), of sys_send getpid t st] unfolding sk1 by blast
  have "ctrl_request sk name d"
    using d(2-4) n(5,6) sock(2-4) by (simp add: ctrl_request_def completed_hdr_def NLM_F_REQUEST_def NLM_F_ACK_def)
  then have s: "nl_send_auto_complete sys_send getpid t cb sk n st (Inr (?f, w)) = (blen d, sk1, n', st, Inr (?f, w1))"
    using send by (simp add: nl_send_auto_complete_def d(1))
  obtain pcb where pcb: "nl_cb_set (cb\<lparr>cb_refcnt := 1\<rparr>) (int NL_CB_VALID) NL_CB_CUSTOM (Some (probe_response allocs)) None = Inr pcb"
      "quiet pcb" "cb_set pcb ! NL_CB_VALID = Some (probe_response allocs)" "cb_recv_ow pcb = None" "cb_recvmsgs_ow pcb = None"
    using probe_cb [OF cb(1,2)] cb(3,4) by auto
  have clone: "nl_cb_clone True cb = Some (cb\<lparr>cb_refcnt := 1\<rparr>)" by (simp add: nl_cb_clone_def nl_cb_alloc_default)
  have e: "s_seq_expect sk1 = s_seq_expect sk" "\<not> has_flag sk1 NL_NO_AUTO_ACK" using sock(4) by (simp_all add: sk1)
  obtain f' where f': "nl_recvmsgs (Suc fuel) recv True pcb sk1 (Inr (?f, w1)) = Some (0, sk1, Inr (f', w2))"
      "genl_family_get_id f' = fid"
    using probe_recv [where recv = recv, OF answer(2) [folded e(1)] pcb(2-5) answer(1)] by blast
  have "wait_for_ack (Suc fuel) recv True True cb sk1 (Inr (f', w2)) =
      Some (0, sk1\<lparr>s_seq_expect := u32 (s_seq_expect sk + 1)\<rparr>, Inr (f', w3))"
    using probe_ack [where recv = recv, OF ack(2) [folded e(1)] cb(1-4) ack(1) e(2)] e(1) by simp
  then show ?thesis
    using f'(2) answer(3)
    by (simp add: genl_ctrl_resolve_def genl_ctrl_probe_by_name_def Let_def m n(1) clone pcb(1) s f'(1))
qed


text \<open>For the witness: a kernel that answers every request for a family with the number 33.\<close>

definition fam33_dgram :: "byte list" where
  "fam33_dgram = [28, 0, 0, 0, 16, 0, 0, 0, 5, 0, 0, 0, 0, 0, 0, 0, 1, 1, 0, 0, 6, 0, 1, 0, 33, 0, 0, 0]"

definition ack5_dgram :: "byte list" where
  "ack5_dgram = [36, 0, 0, 0, 2, 0, 0, 0, 5, 0, 0, 0, 0, 0, 0, 0, 0, 0, 0, 0] @ replicate 16 0"

definition genl_kernel_send :: "byte list list pstate sendfun" where
  "genl_kernel_send fd dst d c s = (blen d, map_sum (\<lambda>f. f) (\<lambda>(f, q). (f, q @ [fam33_dgram, ack5_dgram])) s)"

definition genl_kernel_recv :: "nl_sock \<Rightarrow> byte list list pstate \<Rightarrow> (recv_result \<times> nl_sock \<times> byte list list pstate) option" where
  "genl_kernel_recv sk s = (case s of
     Inr (f, d # q) \<Rightarrow> Some ((blen d, no_addr, d, None), sk, Inr (f, q))
   | _ \<Rightarrow> Some ((-4, no_addr, [], None), sk, s))"

definition plain_cb :: "(unit, byte list list pstate) nl_cb" where
  "plain_cb = the (nl_cb_alloc True NL_CB_DEFAULT)"

definition genl_sock :: nl_sock where
  "genl_sock = (set_pid 99 fresh_sock)\<lparr>s_fd := 3, s_seq_expect := 5\<rparr>"

lemma plain_cb_facts: "wf_cb plain_cb" "quiet plain_cb" "cb_recv_ow plain_cb = None" "cb_recvmsgs_ow plain_cb = None"
    "cb_send_ow plain_cb = None" "cb_set plain_cb ! NL_CB_MSG_OUT = None"
  unfolding plain_cb_def nl_cb_alloc_default by (simp_all add: wf_cb_def quiet_def cb_consts)

lemma fam33_answer: "family_answer (\<lambda>_. True) 5 fam33_dgram 33"
proof -
  have "genlmsg_parse (msg_bytes fam33_dgram 0) 0 0 CTRL_ATTR_MAX (Some ctrl_policy) =
      (Some [None, Some 20, None, None, None, None, None, None], Inr ())" by code_simp
  moreover have "nlmsg_ok (nlh fam33_dgram 0) (blen fam33_dgram)" "nlmsg_type (nlh fam33_dgram 0) = GENL_ID_CTRL"
    "nlmsg_flags (nlh fam33_dgram 0) AND NLM_F_DUMP_INTR = 0" "nlmsg_seq (nlh fam33_dgram 0) = 5" "nla_get_u16 (msg_bytes fam33_dgram 0) 20 = 33"
    "blen fam33_dgram \<le> STREAM_MAX" by code_simp+
  ultimately show ?thesis by (simp add: family_answer_def ctrl_attr_defs)
qed

lemma ack5_ack: "ack_dgram 5 ack5_dgram" by code_simp

theorem genl_ctrl_resolve_returns_id_witness:
  "\<exists>sk. genl_ctrl_resolve (genl_ctrl_probe_by_name (\<lambda>_. genl_family_ops (\<lambda>d s. (0, d))) 0 1 genl_kernel_send genl_kernel_recv
      True True True True (\<lambda>_. True) True True 64 77 5 plain_cb genl_sock [110, 108] no_ports []) = Some (Inr (33, sk, no_ports, []))"
proof -
  let ?sk = "genl_sock\<lparr>s_seq_next := u32 (s_seq_next genl_sock + 1)\<rparr>"
  have sock: "0 \<le> s_fd genl_sock" "0 < nl_pid (s_local genl_sock)" "nl_pid (s_local genl_sock) < 4294967296"
    "\<not> has_flag genl_sock NL_NO_AUTO_ACK" "s_seq_expect genl_sock = 5"
    by (simp_all add: genl_sock_def fresh_sock_def NL_OWN_PORT_def NL_NO_AUTO_ACK_def)
  have send: "genl_kernel_send (s_fd genl_sock) (s_peer genl_sock) d None (Inr (f, [])) =
      (blen d, Inr (f, [fam33_dgram, ack5_dgram]))" for d f by (simp add: genl_kernel_send_def)
  have recv: "genl_kernel_recv ?sk (Inr (f, d # q)) = Some ((blen d, no_addr, d, None), ?sk, Inr (f, q))" for f d q
    by (simp add: genl_kernel_recv_def)
  have name: "(0::byte) \<notin> set [110, 108]" "blen [110, 108 :: byte] \<le> 65530" "24 + align4 (blen [110, 108 :: byte] + 1) \<le> 64"
    by (simp_all add: align4_eq)
  show ?thesis
    using genl_ctrl_resolve_returns_id [where fuel = 0 and fops = "\<lambda>_. genl_family_ops (\<lambda>d s. (0, d))" and i = 0 and getpid = 77 and t = 5
        and st = no_ports and sys_send = genl_kernel_send and recv = genl_kernel_recv,
        OF plain_cb_facts sock(1-4) name _ refl send recv fam33_answer [folded sock(5)] _ recv ack5_ack [folded sock(5)]] by simp
qed

end
