(* ===== verification/Spec2Isabelle.thy ===== *)
theory Spec2Isabelle
  imports Nl_Error Nl_Attr Nl_Recv Nl_Hash Nl_Mpls Nl_Utils Nl_Netconf Nl_Addr_Cmp Nl_Neigh_Sync Nl_Rule_Msg Nl_Ifaddr_Msg Nl_Route_Sent
    Nl_List Nl_Mngt Nl_Events Nl_Genl Nl_Genl_Ctrl
begin

text \<open>
  A model of libnl, the netlink protocol library suite, in HOL, and what can be proved of it.

  \<^bold>\<open>The program.\<close> A netlink socket carries datagrams of messages between a process and the kernel. A
  message has a header, a family header and a stream of attributes, which may nest. The core library
  (\<open>lib/\<close>) builds and parses messages (\<open>msg.c\<close>, \<open>attr.c\<close>), keeps sockets and gives them local
  ports (\<open>socket.c\<close>), sends and receives, checks sequence numbers and drives callbacks (\<open>nl.c\<close>,
  \<open>handlers.c\<close>). Above that are typed objects with reference counts (\<open>object.c\<close>), kept in caches
  (\<open>cache.c\<close>) with hash tables (\<open>hash.c\<close>, \<open>hashtable.c\<close>); a cache type is a table of functions
  registered with the cache management (\<open>cache_mngt.c\<close>); a cache manager (\<open>cache_mngr.c\<close>) listens to the
  notifications for a group of caches and keeps them up to date. Each family of the kernel contributes types:
  their parsers turn messages into objects and hand these to a callback that files them in a cache.
  Generic netlink (\<open>lib/genl\<close>) is a second registry, whose families get their numbers from the
  kernel at run time.

  \<^bold>\<open>How the code is modelled.\<close> A C integer is an \<open>int\<close>, narrowed by \<open>u8\<close> ... \<open>s64\<close> where the code stores
  or converts it; the hash function works on 32-bit words. Memory that is addressed as bytes is a
  byte list with offsets for pointers; objects, caches and callback sets live in heaps, which are maps from
  addresses. A struct is a record, a table of functions a record of functions. A function that can fail
  in C's sense returns \<open>res\<close>: \<open>Inl (Err e)\<close> is the return code \<open>-e\<close> where the code returns nothing
  else, \<open>Inl Bug\<close> a failed \<open>BUG_ON\<close>, \<open>Inl Undef\<close> undefined behaviour (a dangling pointer, an index out of
  range). Functions whose code the caller sees on every path return it as a number beside the new state.
  System calls and the functions of the C library that are not written out, and the results of
  allocations, are arguments.

  \<^bold>\<open>Theories.\<close>
  \<^item> \<open>Nl_Prelude\<close>: integers, byte buffers (\<open>rd\<close>, \<open>wr\<close>), results; \<open>Nl_Text\<close>: \<open>strtol\<close>, \<open>snprintf\<close> and
    their relatives; \<open>Nl_Error\<close>: \<open>lib/error.c\<close>.
  \<^item> \<open>Nl_Stream\<close>, \<open>Nl_Refcnt\<close>: the interfaces \<open>tlv_stream\<close> and \<open>refcounted\<close>. A stream of elements with a length
    prefix is walked by \<open>nlmsg_positions\<close> and by \<open>nla_for_each\<close>; messages and callback sets share the
    protocol of \<open>get\<close> and \<open>put\<close>. Both locales are interpreted twice, on the definitions of \<open>Nl_Msg\<close>, \<open>Nl_Attr\<close>
    and \<open>Nl_Handlers\<close>.
  \<^item> \<open>Nl_Msg\<close> (\<open>lib/msg.c\<close>) and \<open>Nl_Attr\<close> (\<open>lib/attr.c\<close>): any bytes can be parsed without leaving the buffer,
    \<open>nla_parse\<close> equals a specification over the list of attributes, attributes that pass the policy can be
    read at their type, and building followed by parsing gives back what was put, nests included.
  \<^item> \<open>Nl_Port\<close>, \<open>Nl_Handlers\<close>, \<open>Nl_Socket\<close>, \<open>Nl_Send\<close>, \<open>Nl_Recv\<close> (\<open>lib/socket.c\<close>, \<open>lib/handlers.c\<close>, \<open>lib/nl.c\<close>):
    the bitmap of ports refines a set of numbers (locale \<open>id_pool\<close>), no two sockets of a process share a
    port and none leaks; what is sent is the completed message; every message that a callback sees
    is well formed, whatever the kernel sent; the receive loop ends; sequence numbers are enforced and
    acknowledgements turned into results.
  \<^item> \<open>Nl_Hash\<close>, \<open>Nl_Hashtable\<close>, \<open>Nl_Object\<close>, \<open>Nl_Cache\<close> (\<open>lib/hash.c\<close>, \<open>lib/hashtable.c\<close>, \<open>lib/object.c\<close>,
    \<open>lib/cache.c\<close>), with the proofs in \<open>Nl_Cache_Refs\<close>, \<open>Nl_Cache_Include\<close>, \<open>Nl_Cache_Steps\<close>: the hash of a
    key does not depend on its address; for every sequence of allowed calls no freed object is touched,
    counts are exact (references that a failing \<open>nl_cache_move\<close> leaks are counted apart), lookups are complete, and an event updates the cache like a map. The locale \<open>keyed_type\<close>
    states what the code relies on for an object type (identity is an equivalence that the hash and the
    header respect), \<open>updatable_type\<close> and \<open>replaced_type\<close> what it relies on for merging objects or not.
  \<^item> \<open>Nl_Cache_Sync\<close>, \<open>Nl_Resync\<close>, \<open>Nl_Dump\<close>, \<open>Nl_Mirror\<close> (the exchange of \<open>lib/cache.c\<close> with the kernel): dump
    requests, receiving them, resynchronisation. In the locale \<open>object_parser\<close>, a type whose parser keeps the
    contract of message parsers, a successful resynchronisation leaves exactly the objects that the kernel
    announced.
  \<^item> \<open>Nl_Mngt\<close> (\<open>lib/cache_mngt.c\<close>): the registry of cache types and the shared caches as a state machine whose
    reference counts and usage counts are exact in every reachable state.
  \<^item> \<open>Nl_Mngr\<close>, \<open>Nl_Events\<close> (\<open>lib/cache_mngr.c\<close>): adding caches to a manager, the dispatch of a notification to the
    cache of its type, allocation and release of the manager. Processing the pending notifications applies them
    to the cache in their order, as a fold over the map of its objects.
  \<^item> \<open>Nl_List\<close> (\<open>include/netlink/list.h\<close>): the pointer operations refine those on lists of addresses, which is
    how the other theories see these lists.
  \<^item> \<open>Nl_Addr\<close>, \<open>Nl_Addr_Cmp\<close>, \<open>Nl_Mpls\<close>, \<open>Nl_Utils\<close> (\<open>lib/addr.c\<close>, \<open>lib/data.c\<close>, \<open>lib/mpls.c\<close>, \<open>lib/utils.c\<close>):
    printing and parsing addresses, labels, times; comparison of prefixes bit by bit.
  \<^item> \<open>Nl_Netconf\<close>, \<open>Nl_Neigh\<close>, \<open>Nl_Neigh_Type\<close>, \<open>Nl_Neigh_Sync\<close> (\<open>lib/route/netconf.c\<close>, \<open>lib/route/neigh.c\<close>): two
    object types of the routing family, which interpret the locales for types; neighbours also that for
    parsers, so that resynchronisation of a neighbour cache mirrors the kernel.
  \<^item> \<open>Nl_Rule\<close>, \<open>Nl_Readback\<close>, \<open>Nl_Rule_Msg\<close> (\<open>lib/route/rule.c\<close>, \<open>lib/route/rtnl.c\<close>): routing rules. The second of these
    says what a parser finds in a message that was built from a header and a list of attributes, for any
    policy; with it, sending a rule and parsing it are inverse.
  \<^item> \<open>Nl_Ifaddr\<close>, \<open>Nl_Ifaddr_Msg\<close> (\<open>lib/route/addr.c\<close>): the addresses of interfaces; what is sent
    arrives, with the conventions about local and peer address.
  \<^item> \<open>Nl_Nexthop\<close>, \<open>Nl_Route\<close>, \<open>Nl_Route_Wire\<close>, \<open>Nl_Route_Type\<close> (\<open>lib/route/nexthop.c\<close>, \<open>lib/route/nexthop_encap.c\<close>,
    \<open>lib/route/nh_encap_mpls.c\<close>, \<open>lib/route/route_obj.c\<close>, \<open>lib/route/route.c\<close>, \<open>lib/route/route_utils.c\<close>): routes with their
    next hops interpret the locales for types, also that for objects that are updated in place; the metrics of a route are a map, and the
    notifications about single next hops collapse into the list of those that are left, as the clone function copies them.
  \<^item> \<open>Nl_Build\<close>, \<open>Nl_Route_Msg\<close>, \<open>Nl_Route_Sent\<close>: builders as functions that append bytes, which compose, nests and the
    structures of a multipath attribute included; sending and parsing are inverse for routes, with all metrics and next hops.
  \<^item> \<open>Nl_Genl_Msg\<close>, \<open>Nl_Genl_Family\<close>, \<open>Nl_Genl\<close>, \<open>Nl_Genl_Ctrl\<close> (\<open>lib/genl\<close>): generic messages are netlink
    messages with a longer header; the first registered family with a number gets the messages
    of that number; names are resolved to numbers, from a cache of families or by asking the kernel for one.

  \<^bold>\<open>Bounds and fuel.\<close> The loops over streams, lists and buffers are recursive functions that end by
  their measures. The receive loop depends on what arrives, so \<open>recvmsgs\<close> has fuel, one unit for each
  datagram: as many units as there is pending input, plus one, give a result (\<open>recvmsgs_returns\<close>). A
  dump that the kernel interrupts is repeated, \<open>dump_restart\<close> with fuel of its own; one round suffices
  if the dump is not interrupted. The loop of \<open>nl_cache_mngr_data_ready\<close> has one unit for each datagram
  and one for the receive that finds nothing. The next hops of a multipath attribute are read as long as they can be allocated
  (\<open>pe_rooms\<close>), since an entry without length is read for ever. Traversal of pointer lists has fuel as well, and one unit more
  than the list has cells is enough. \<open>STREAM_MAX\<close> is the longest stream whose padded length is an
  \<open>int\<close>; no datagram is longer.

  \<^bold>\<open>Not modelled.\<close> Functions that only print (the dump functions, \<open>nl_msg_dump\<close>, debugging output) have no
  result. Locks are left out: each operation on shared data is one step. Callbacks that change the list
  that is being traversed are excluded. The other types of the routing family, netfilter, xfrm, inet diag
  and fib lookup are more tables of attributes on the same interfaces; the command line tools, the
  bindings for Python and the tests are programs around the library.
\<close>

end
